(* ===== verification/Prelude.thy ===== *)
theory Prelude
  imports Complex_Main "HOL-Library.AList" "HOL-Library.Word"
begin

text \<open>
  Shared vocabulary of the development: results in the style of the better-result package,
  dynamically typed JavaScript values, the insertion-ordered containers Map and Set of the
  language, the array operations the sources use, and the clock.

  Conventions. A \<open>Map\<close> of the source is an association list with distinct keys in insertion
  order (the order in which JavaScript iterates); a \<open>Set\<close> is a list without duplicates in
  insertion order. A time stamp that the program itself makes (\<open>new Date().toISOString()\<close>)
  is the number of milliseconds it stands for, because every use of it goes back through
  \<open>new Date(s).getTime()\<close>; the current time is an argument of every operation that reads the
  clock. A time stamp that arrives as text from outside is a string together with a parser
  \<open>parse_date\<close>, an argument of the operation, with \<open>None\<close> for NaN.
\<close>

named_theorems store_simps "laws of keyed stores, for simp"
named_theorems jsset_simps "laws of insertion-ordered sets, for simp"

subsection \<open>Results\<close>

datatype ('a, 'e) result = Ok 'a | Err 'e

fun isOk :: "('a, 'e) result \<Rightarrow> bool" where
  "isOk (Ok _) = True"
| "isOk (Err _) = False"

fun bindR :: "('a, 'e) result \<Rightarrow> ('a \<Rightarrow> ('b, 'e) result) \<Rightarrow> ('b, 'e) result" where
  "bindR (Ok a) f = f a"
| "bindR (Err e) f = Err e"

lemma isOk_iff: "isOk r \<longleftrightarrow> (\<exists>a. r = Ok a)"
  by (cases r) simp_all

lemma bindR_Ok_iff: "bindR r f = Ok b \<longleftrightarrow> (\<exists>a. r = Ok a \<and> f a = Ok b)"
  by (cases r) simp_all

subsection \<open>Dynamically typed values\<close>

datatype js_value =
    VUndefined
  | VNull
  | VBool bool
  | VNum rat
  | VStr string
  | VArr "js_value list"
  | VObj "(string \<times> js_value) list"

text \<open>Optional and nullable fields.\<close>

fun v_opt_str :: "string option \<Rightarrow> js_value" where
  "v_opt_str None = VUndefined"
| "v_opt_str (Some s) = VStr s"

definition nullish :: "'a option \<Rightarrow> 'a \<Rightarrow> 'a" where
  "nullish x d = (case x of None \<Rightarrow> d | Some v \<Rightarrow> v)"

lemma nullish_simps [simp]: "nullish None d = d" "nullish (Some v) d = v"
  by (simp_all add: nullish_def)

subsection \<open>Text\<close>

definition quoted :: "string \<Rightarrow> string" where
  "quoted s = [CHR 0x27] @ s @ [CHR 0x27]"

fun join_with :: "string \<Rightarrow> string list \<Rightarrow> string" where
  "join_with sep [] = []"
| "join_with sep [x] = x"
| "join_with sep (x # y # xs) = x @ sep @ join_with sep (y # xs)"

definition starts_with :: "string \<Rightarrow> string \<Rightarrow> bool" where
  "starts_with s p \<longleftrightarrow> take (length p) s = p"

lemma starts_with_append [simp]: "starts_with (p @ s) p"
  by (simp add: starts_with_def)

lemma starts_with_split: "starts_with s p \<longleftrightarrow> (\<exists>r. s = p @ r)"
  unfolding starts_with_def by (metis append_eq_conv_conj append_take_drop_id)

text \<open>Decimal text of a natural number, as a template literal prints it.\<close>

fun digits_of :: "nat \<Rightarrow> string" where
  "digits_of n = (if n < 10 then [char_of (48 + n)]
                  else digits_of (n div 10) @ [char_of (48 + n mod 10)])"

declare digits_of.simps [simp del]

definition int_text :: "int \<Rightarrow> string" where
  "int_text i = (if i < 0 then ''-'' @ digits_of (nat (- i)) else digits_of (nat i))"

subsection \<open>Insertion-ordered maps\<close>

type_synonym ('k, 'v) js_map = "('k \<times> 'v) list"

definition map_get :: "('k, 'v) js_map \<Rightarrow> 'k \<Rightarrow> 'v option" where
  "map_get m k = map_of m k"

definition map_set :: "('k, 'v) js_map \<Rightarrow> 'k \<Rightarrow> 'v \<Rightarrow> ('k, 'v) js_map" where
  "map_set m k v = AList.update k v m"

definition map_delete :: "('k, 'v) js_map \<Rightarrow> 'k \<Rightarrow> ('k, 'v) js_map" where
  "map_delete m k = AList.delete k m"

definition map_keys :: "('k, 'v) js_map \<Rightarrow> 'k list" where
  "map_keys m = map fst m"

definition map_values :: "('k, 'v) js_map \<Rightarrow> 'v list" where
  "map_values m = map snd m"

definition map_wf :: "('k, 'v) js_map \<Rightarrow> bool" where
  "map_wf m \<longleftrightarrow> distinct (map fst m)"

text \<open>
  The interface of a keyed store, and of one whose values can be listed. The managers of the
  program rest on these laws and not on the representation.
\<close>

locale keyed_store =
  fixes empty :: 'm
    and get :: "'m \<Rightarrow> 'k \<Rightarrow> 'v option"
    and put :: "'m \<Rightarrow> 'k \<Rightarrow> 'v \<Rightarrow> 'm"
    and del :: "'m \<Rightarrow> 'k \<Rightarrow> 'm"
  assumes get_empty: "get empty k = None"
    and get_put: "get (put m k v) j = (if j = k then Some v else get m j)"
    and get_del: "get (del m k) j = (if j = k then None else get m j)"
begin

lemma put_same: "get (put m k v) k = Some v"
  by (simp add: get_put)

lemma put_other: "j \<noteq> k \<Longrightarrow> get (put m k v) j = get m j"
  by (simp add: get_put)

lemma del_same: "get (del m k) k = None"
  by (simp add: get_del)

lemma del_other: "j \<noteq> k \<Longrightarrow> get (del m k) j = get m j"
  by (simp add: get_del)

lemma put_idem: "get (put (put m k v) k w) j = get (put m k w) j"
  by (simp add: get_put)

lemma del_put: "get (del (put m k v) k) j = get (del m k) j"
  by (simp add: get_put get_del)

end

locale listed_store = keyed_store empty get put del
  for empty :: 'm
    and get :: "'m \<Rightarrow> 'k \<Rightarrow> 'v option"
    and put :: "'m \<Rightarrow> 'k \<Rightarrow> 'v \<Rightarrow> 'm"
    and del :: "'m \<Rightarrow> 'k \<Rightarrow> 'm" +
  fixes vals :: "'m \<Rightarrow> 'v list"
    and wf :: "'m \<Rightarrow> bool"
  assumes wf_empty: "wf empty"
    and wf_put: "wf m \<Longrightarrow> wf (put m k v)"
    and wf_del: "wf m \<Longrightarrow> wf (del m k)"
    and vals_iff: "wf m \<Longrightarrow> v \<in> set (vals m) \<longleftrightarrow> (\<exists>k. get m k = Some v)"
begin

lemma vals_empty: "vals empty = []"
  using vals_iff [OF wf_empty] by (cases "vals empty") (auto simp: get_empty)

lemma vals_put: "wf m \<Longrightarrow> v \<in> set (vals (put m k v))"
  using vals_iff [OF wf_put] put_same by blast

lemma vals_put_iff:
  "wf m \<Longrightarrow> w \<in> set (vals (put m k v)) \<longleftrightarrow> w = v \<or> (\<exists>j. j \<noteq> k \<and> get m j = Some w)"
  using vals_iff [OF wf_put] by (auto simp: get_put split: if_splits)

lemma vals_del_iff:
  "wf m \<Longrightarrow> w \<in> set (vals (del m k)) \<longleftrightarrow> (\<exists>j. j \<noteq> k \<and> get m j = Some w)"
  using vals_iff [OF wf_del] by (auto simp: get_del split: if_splits)

text \<open>A listing with a filter holds exactly the stored values that pass it.\<close>

lemma filtered_listing:
  "wf m \<Longrightarrow> v \<in> set (filter P (vals m)) \<longleftrightarrow> P v \<and> (\<exists>k. get m k = Some v)"
  by (auto simp: vals_iff)

end

lemma map_get_empty [simp]: "map_get [] k = None"
  by (simp add: map_get_def)

lemma map_get_set [simp, store_simps]:
  "map_get (map_set m k v) j = (if j = k then Some v else map_get m j)"
  by (simp add: map_get_def map_set_def update_conv')

lemma map_get_delete [simp, store_simps]:
  "map_get (map_delete m k) j = (if j = k then None else map_get m j)"
  by (simp add: map_get_def map_delete_def delete_conv')

lemma map_wf_Nil [simp, store_simps]: "map_wf []"
  by (simp add: map_wf_def)

lemma map_wf_set [simp, store_simps]: "map_wf m \<Longrightarrow> map_wf (map_set m k v)"
  by (simp add: map_wf_def map_set_def distinct_update)

lemma map_wf_delete [simp, store_simps]: "map_wf m \<Longrightarrow> map_wf (map_delete m k)"
  by (simp add: map_wf_def map_delete_def distinct_delete)

lemma map_values_iff: "map_wf m \<Longrightarrow> v \<in> set (map_values m) \<longleftrightarrow> (\<exists>k. map_get m k = Some v)"
  unfolding map_wf_def map_values_def map_get_def by force

interpretation jsm: listed_store "[]" map_get map_set map_delete map_values map_wf
  by unfold_locales (auto simp: map_values_iff)

lemma map_get_in_keys: "map_get m k = Some v \<Longrightarrow> k \<in> set (map_keys m)"
  by (force simp: map_get_def map_keys_def dest: map_of_SomeD)

lemma map_keys_iff: "k \<in> set (map_keys m) \<longleftrightarrow> map_get m k \<noteq> None"
  by (simp add: map_keys_def map_get_def map_of_eq_None_iff)

lemma map_entries_get: "map_wf m \<Longrightarrow> (k, v) \<in> set m \<longleftrightarrow> map_get m k = Some v"
  by (simp add: map_wf_def map_get_def)

lemma list_all_entries:
  "map_wf m \<Longrightarrow> list_all (\<lambda>(k, v). P k v) m \<longleftrightarrow> (\<forall>k v. map_get m k = Some v \<longrightarrow> P k v)"
  by (auto simp: list_all_iff map_entries_get)

lemma case_option_ex: "(case x of None \<Rightarrow> False | Some v \<Rightarrow> P v) \<longleftrightarrow> (\<exists>v. x = Some v \<and> P v)"
  by (cases x) simp_all

lemma map_set_present:
  "map_get m k = Some w \<Longrightarrow> map_keys (map_set m k v) = map_keys m"
  by (force simp: map_get_def map_keys_def map_set_def update_keys dest: map_of_SomeD)

text \<open>Object spread: later properties replace earlier ones, which keep their place.\<close>

definition obj_spread :: "('k, 'v) js_map \<Rightarrow> ('k, 'v) js_map \<Rightarrow> ('k, 'v) js_map" where
  "obj_spread o1 o2 = foldl (\<lambda>m p. map_set m (fst p) (snd p)) o1 o2"

lemma obj_spread_Nil [simp]: "obj_spread o1 [] = o1"
  by (simp add: obj_spread_def)

lemma obj_spread_Cons [simp]: "obj_spread o1 ((k, v) # o2) = obj_spread (map_set o1 k v) o2"
  by (simp add: obj_spread_def)

subsection \<open>Insertion-ordered sets\<close>

definition set_add :: "'a list \<Rightarrow> 'a \<Rightarrow> 'a list" where
  "set_add s x = (if x \<in> set s then s else s @ [x])"

definition set_of :: "'a list \<Rightarrow> 'a list" where
  "set_of xs = foldl set_add [] xs"

lemma set_set_add [simp, jsset_simps]: "set (set_add s x) = insert x (set s)"
  by (auto simp: set_add_def)

lemma distinct_set_add [simp, jsset_simps]: "distinct s \<Longrightarrow> distinct (set_add s x)"
  by (simp add: set_add_def)

lemma set_foldl_set_add: "set (foldl set_add s xs) = set s \<union> set xs"
  by (induction xs arbitrary: s) auto

lemma distinct_foldl_set_add: "distinct s \<Longrightarrow> distinct (foldl set_add s xs)"
  by (induction xs arbitrary: s) auto

lemma set_set_of [simp, jsset_simps]: "set (set_of xs) = set xs"
  by (simp add: set_of_def set_foldl_set_add)

lemma distinct_set_of [simp, jsset_simps]: "distinct (set_of xs)"
  by (simp add: set_of_def distinct_foldl_set_add)

lemma foldl_set_add_id: "distinct (s @ xs) \<Longrightarrow> foldl set_add s xs = s @ xs"
  by (induction xs arbitrary: s) (auto simp: set_add_def)

lemma set_of_distinct [simp, jsset_simps]: "distinct xs \<Longrightarrow> set_of xs = xs"
  by (simp add: set_of_def foldl_set_add_id)

subsection \<open>Arrays\<close>

text \<open>\<open>Array.prototype.find\<close>, and \<open>findIndex\<close> with its \<open>-1\<close> as \<open>None\<close>.\<close>

lemma find_SomeD: "List.find P xs = Some x \<Longrightarrow> x \<in> set xs \<and> P x"
  by (induction xs) (auto split: if_splits)

lemma find_NoneD: "List.find P xs = None \<Longrightarrow> x \<in> set xs \<Longrightarrow> \<not> P x"
  by (induction xs) (auto split: if_splits)

fun find_index :: "('a \<Rightarrow> bool) \<Rightarrow> 'a list \<Rightarrow> nat option" where
  "find_index P [] = None"
| "find_index P (x # xs) = (if P x then Some 0 else map_option Suc (find_index P xs))"

lemma find_index_None: "find_index P xs = None \<longleftrightarrow> (\<forall>x \<in> set xs. \<not> P x)"
  by (induction xs) auto

lemma find_index_Some:
  "find_index P xs = Some i \<Longrightarrow> i < length xs \<and> P (xs ! i) \<and> (\<forall>j < i. \<not> P (xs ! j))"
  by (induction xs arbitrary: i) (auto split: if_splits simp: nth_Cons less_Suc_eq_0_disj)

lemma foldl_snoc_if: "foldl (\<lambda>r x. if P x then r @ [x] else r) acc xs = acc @ filter P xs"
  by (induction xs arbitrary: acc) simp_all

lemma nonempty_iff: "xs \<noteq> [] \<longleftrightarrow> (\<exists>x. x \<in> set xs)"
  by (cases xs) auto

text \<open>The last \<open>n\<close> elements of a list.\<close>

definition last_n :: "nat \<Rightarrow> 'a list \<Rightarrow> 'a list" where
  "last_n n xs = drop (length xs - n) xs"

lemma length_last_n [simp]: "length (last_n n xs) = min n (length xs)"
  by (auto simp: last_n_def)

lemma last_n_all: "length xs \<le> n \<Longrightarrow> last_n n xs = xs"
  by (simp add: last_n_def)

lemma last_n_snoc: "0 < n \<Longrightarrow> last_n n (last_n n xs @ [x]) = last_n n (xs @ [x])"
  by (cases "length xs < n") (auto simp: last_n_def Suc_diff_le)

lemma set_last_n: "set (last_n n xs) \<subseteq> set xs"
  by (simp add: last_n_def set_drop_subset)

end
