(* ===== verification/Errors.thy ===== *)
theory Errors
  imports Prelude
begin

text \<open>
  The error taxonomy of \<^verbatim>\<open>packages/schemas/src/errors\<close>: the error categories with their
  transport metadata, one factory per error class (each builds the message text, code,
  category and context the class builds), and matching by tag. An error is a value here; an
  operation of the program that returns \<open>Result.err\<close> or throws returns it in \<open>Err\<close>.
\<close>

subsection \<open>Categories\<close>

datatype error_category =
    Cat_validation
  | Cat_not_found
  | Cat_permission
  | Cat_auth
  | Cat_internal
  | Cat_timeout
  | Cat_cancelled
  | Cat_network

record error_category_meta =
  exitCode :: int
  statusCode :: int
  jsonRpcCode :: int
  meta_retryable :: bool

fun errorCategoryMeta :: "error_category \<Rightarrow> error_category_meta" where
  "errorCategoryMeta Cat_validation =
     \<lparr>exitCode = 1, statusCode = 400, jsonRpcCode = -32602, meta_retryable = False\<rparr>"
| "errorCategoryMeta Cat_not_found =
     \<lparr>exitCode = 2, statusCode = 404, jsonRpcCode = -32007, meta_retryable = False\<rparr>"
| "errorCategoryMeta Cat_permission =
     \<lparr>exitCode = 4, statusCode = 403, jsonRpcCode = -32003, meta_retryable = False\<rparr>"
| "errorCategoryMeta Cat_auth =
     \<lparr>exitCode = 9, statusCode = 401, jsonRpcCode = -32000, meta_retryable = False\<rparr>"
| "errorCategoryMeta Cat_internal =
     \<lparr>exitCode = 8, statusCode = 500, jsonRpcCode = -32603, meta_retryable = False\<rparr>"
| "errorCategoryMeta Cat_timeout =
     \<lparr>exitCode = 5, statusCode = 504, jsonRpcCode = -32001, meta_retryable = True\<rparr>"
| "errorCategoryMeta Cat_cancelled =
     \<lparr>exitCode = 130, statusCode = 499, jsonRpcCode = -32006, meta_retryable = False\<rparr>"
| "errorCategoryMeta Cat_network =
     \<lparr>exitCode = 6, statusCode = 503, jsonRpcCode = -32002, meta_retryable = True\<rparr>"

text \<open>No two categories share an exit code, a status code or a JSON-RPC code.\<close>

lemma exitCode_inj: "exitCode (errorCategoryMeta c) = exitCode (errorCategoryMeta d) \<longleftrightarrow> c = d"
  by (cases c; cases d) simp_all

lemma statusCode_inj: "statusCode (errorCategoryMeta c) = statusCode (errorCategoryMeta d) \<longleftrightarrow> c = d"
  by (cases c; cases d) simp_all

lemma jsonRpcCode_inj: "jsonRpcCode (errorCategoryMeta c) = jsonRpcCode (errorCategoryMeta d) \<longleftrightarrow> c = d"
  by (cases c; cases d) simp_all

lemma retryable_iff: "meta_retryable (errorCategoryMeta c) \<longleftrightarrow> c \<in> {Cat_timeout, Cat_network}"
  by (cases c) simp_all

subsection \<open>Error classes\<close>

datatype error_tag =
    Tag_ValidationError
  | Tag_NotFoundError
  | Tag_PermissionError
  | Tag_AuthError
  | Tag_CredentialExpiredError
  | Tag_InternalError
  | Tag_TimeoutError
  | Tag_CancelledError
  | Tag_SealError
  | Tag_NetworkError

type_synonym err_context = "(string \<times> js_value) list"

record signet_error =
  err_tag :: error_tag
  err_code :: int
  err_category :: error_category
  err_message :: string
  err_context :: "err_context option"

definition ValidationError_create :: "string \<Rightarrow> string \<Rightarrow> err_context \<Rightarrow> signet_error" where
  "ValidationError_create field reason extra =
     \<lparr>err_tag = Tag_ValidationError, err_code = 1000, err_category = Cat_validation,
      err_message = ''Validation failed on '' @ quoted field @ '': '' @ reason,
      err_context = Some (obj_spread [(''field'', VStr field), (''reason'', VStr reason)] extra)\<rparr>"

definition SealError_create :: "string \<Rightarrow> string \<Rightarrow> signet_error" where
  "SealError_create sealId reason =
     \<lparr>err_tag = Tag_SealError, err_code = 1010, err_category = Cat_validation,
      err_message = ''Seal '' @ quoted sealId @ '': '' @ reason,
      err_context = Some [(''sealId'', VStr sealId), (''reason'', VStr reason)]\<rparr>"

definition NotFoundError_create :: "string \<Rightarrow> string \<Rightarrow> signet_error" where
  "NotFoundError_create resourceType resourceId =
     \<lparr>err_tag = Tag_NotFoundError, err_code = 1100, err_category = Cat_not_found,
      err_message = resourceType @ '' '' @ quoted resourceId @ '' not found'',
      err_context = Some [(''resourceType'', VStr resourceType), (''resourceId'', VStr resourceId)]\<rparr>"

definition PermissionError_create :: "string \<Rightarrow> err_context option \<Rightarrow> signet_error" where
  "PermissionError_create message context =
     \<lparr>err_tag = Tag_PermissionError, err_code = 1200, err_category = Cat_permission,
      err_message = message, err_context = context\<rparr>"

definition AuthError_create :: "string \<Rightarrow> err_context option \<Rightarrow> signet_error" where
  "AuthError_create message context =
     \<lparr>err_tag = Tag_AuthError, err_code = 1300, err_category = Cat_auth,
      err_message = message, err_context = context\<rparr>"

definition CredentialExpiredError_create :: "string \<Rightarrow> signet_error" where
  "CredentialExpiredError_create credentialId =
     \<lparr>err_tag = Tag_CredentialExpiredError, err_code = 1310, err_category = Cat_auth,
      err_message = ''Credential '' @ quoted credentialId @ '' has expired'',
      err_context = Some [(''credentialId'', VStr credentialId)]\<rparr>"

definition InternalError_create :: "string \<Rightarrow> err_context option \<Rightarrow> signet_error" where
  "InternalError_create message context =
     \<lparr>err_tag = Tag_InternalError, err_code = 1400, err_category = Cat_internal,
      err_message = message, err_context = context\<rparr>"

definition TimeoutError_create :: "string \<Rightarrow> int \<Rightarrow> signet_error" where
  "TimeoutError_create operation timeoutMs =
     \<lparr>err_tag = Tag_TimeoutError, err_code = 1500, err_category = Cat_timeout,
      err_message = ''Operation '' @ quoted operation @ '' timed out after '' @ int_text timeoutMs @ ''ms'',
      err_context = Some [(''operation'', VStr operation), (''timeoutMs'', VNum (of_int timeoutMs))]\<rparr>"

definition CancelledError_create :: "string \<Rightarrow> signet_error" where
  "CancelledError_create message =
     \<lparr>err_tag = Tag_CancelledError, err_code = 1600, err_category = Cat_cancelled,
      err_message = message, err_context = None\<rparr>"

definition NetworkError_create :: "string \<Rightarrow> string \<Rightarrow> err_context \<Rightarrow> signet_error" where
  "NetworkError_create endpoint reason extra =
     \<lparr>err_tag = Tag_NetworkError, err_code = 1700, err_category = Cat_network,
      err_message = ''Network error reaching '' @ quoted endpoint @ '': '' @ reason,
      err_context = Some (obj_spread [(''endpoint'', VStr endpoint)] extra)\<rparr>"

definition matchError :: "signet_error \<Rightarrow> (error_tag \<Rightarrow> signet_error \<Rightarrow> 'a) \<Rightarrow> 'a" where
  "matchError error handlers = (let tag = err_tag error; handler = handlers tag in handler error)"

lemmas error_creates =
  ValidationError_create_def SealError_create_def NotFoundError_create_def
  PermissionError_create_def AuthError_create_def CredentialExpiredError_create_def
  InternalError_create_def TimeoutError_create_def CancelledError_create_def
  NetworkError_create_def

text \<open>Every factory makes a well-formed error: its code and category are those of its tag.\<close>

fun tag_code :: "error_tag \<Rightarrow> int" where
  "tag_code Tag_ValidationError = 1000"
| "tag_code Tag_SealError = 1010"
| "tag_code Tag_NotFoundError = 1100"
| "tag_code Tag_PermissionError = 1200"
| "tag_code Tag_AuthError = 1300"
| "tag_code Tag_CredentialExpiredError = 1310"
| "tag_code Tag_InternalError = 1400"
| "tag_code Tag_TimeoutError = 1500"
| "tag_code Tag_CancelledError = 1600"
| "tag_code Tag_NetworkError = 1700"

fun tag_category :: "error_tag \<Rightarrow> error_category" where
  "tag_category Tag_ValidationError = Cat_validation"
| "tag_category Tag_SealError = Cat_validation"
| "tag_category Tag_NotFoundError = Cat_not_found"
| "tag_category Tag_PermissionError = Cat_permission"
| "tag_category Tag_AuthError = Cat_auth"
| "tag_category Tag_CredentialExpiredError = Cat_auth"
| "tag_category Tag_InternalError = Cat_internal"
| "tag_category Tag_TimeoutError = Cat_timeout"
| "tag_category Tag_CancelledError = Cat_cancelled"
| "tag_category Tag_NetworkError = Cat_network"

definition error_ok :: "signet_error \<Rightarrow> bool" where
  "error_ok e \<longleftrightarrow> err_code e = tag_code (err_tag e) \<and> err_category e = tag_category (err_tag e)"

lemma error_creates_ok [simp]:
  "error_ok (ValidationError_create f r x)" "error_ok (SealError_create s r)"
  "error_ok (NotFoundError_create rt i)" "error_ok (PermissionError_create m c)"
  "error_ok (AuthError_create m c)" "error_ok (CredentialExpiredError_create i)"
  "error_ok (InternalError_create m c)" "error_ok (TimeoutError_create p tm)"
  "error_ok (CancelledError_create m)" "error_ok (NetworkError_create n r x)"
  by (simp_all add: error_ok_def error_creates)

lemma tag_code_inj: "tag_code t = tag_code u \<longleftrightarrow> t = u"
  by (cases t; cases u) simp_all

lemma create_tags [simp]:
  "err_tag (ValidationError_create f r x) = Tag_ValidationError"
  "err_tag (SealError_create s r) = Tag_SealError"
  "err_tag (NotFoundError_create t i) = Tag_NotFoundError"
  "err_tag (PermissionError_create m c) = Tag_PermissionError"
  "err_tag (AuthError_create m c) = Tag_AuthError"
  "err_tag (CredentialExpiredError_create i) = Tag_CredentialExpiredError"
  "err_tag (InternalError_create m c) = Tag_InternalError"
  "err_tag (TimeoutError_create p tm) = Tag_TimeoutError"
  "err_tag (CancelledError_create m) = Tag_CancelledError"
  "err_tag (NetworkError_create n r x) = Tag_NetworkError"
  by (simp_all add: error_creates)

end
