(* ===== verification/ResourceIds.thy ===== *)
theory ResourceIds
  imports Errors
begin

text \<open>
  Prefixed resource identifiers (\<^verbatim>\<open>packages/schemas/src/resource-id.ts\<close>): making one from
  random bytes, validating, parsing, and resolving an abbreviated one against candidates.
  The bytes \<open>crypto.randomBytes\<close> returns are an argument of \<open>createResourceId\<close>.
\<close>

datatype resource_type =
    RT_operator
  | RT_inbox
  | RT_conversation
  | RT_policy
  | RT_credential
  | RT_seal
  | RT_key
  | RT_message
  | RT_network

fun RESOURCE_PREFIXES :: "resource_type \<Rightarrow> string" where
  "RESOURCE_PREFIXES RT_operator = ''op_''"
| "RESOURCE_PREFIXES RT_inbox = ''inbox_''"
| "RESOURCE_PREFIXES RT_conversation = ''conv_''"
| "RESOURCE_PREFIXES RT_policy = ''policy_''"
| "RESOURCE_PREFIXES RT_credential = ''cred_''"
| "RESOURCE_PREFIXES RT_seal = ''seal_''"
| "RESOURCE_PREFIXES RT_key = ''key_''"
| "RESOURCE_PREFIXES RT_message = ''msg_''"
| "RESOURCE_PREFIXES RT_network = ''xmtp_''"

definition all_resource_types :: "resource_type list" where
  "all_resource_types = [RT_operator, RT_inbox, RT_conversation, RT_policy, RT_credential,
     RT_seal, RT_key, RT_message, RT_network]"

definition PREFIX_TO_TYPE :: "string \<Rightarrow> resource_type option" where
  "PREFIX_TO_TYPE p = map_of (map (\<lambda>k. (RESOURCE_PREFIXES k, k)) all_resource_types) p"

definition ALL_PREFIXES :: "string list" where
  "ALL_PREFIXES = map RESOURCE_PREFIXES all_resource_types"

definition RESOURCE_ID_HEX_LENGTH :: nat where
  "RESOURCE_ID_HEX_LENGTH = 16"

definition is_lower_hex :: "char \<Rightarrow> bool" where
  "is_lower_hex c \<longleftrightarrow> c \<in> set ''0123456789abcdef''"

text \<open>\<open>SHORT_ID_HEX.test\<close>: exactly sixteen lowercase hex digits.\<close>

definition SHORT_ID_HEX :: "string \<Rightarrow> bool" where
  "SHORT_ID_HEX s \<longleftrightarrow> length s = RESOURCE_ID_HEX_LENGTH \<and> list_all is_lower_hex s"

definition resource_id_ok :: "string \<Rightarrow> string \<Rightarrow> bool" where
  "resource_id_ok prefix value =
     (if \<not> starts_with value prefix then False else SHORT_ID_HEX (drop (length prefix) value))"

definition AnyResourceId :: "string \<Rightarrow> bool" where
  "AnyResourceId value = list_ex (\<lambda>ty. resource_id_ok (RESOURCE_PREFIXES ty) value) all_resource_types"

subsection \<open>Making and parsing identifiers\<close>

definition hex_digit :: "nat \<Rightarrow> char" where
  "hex_digit n = ''0123456789abcdef'' ! n"

definition hex_byte :: "8 word \<Rightarrow> string" where
  "hex_byte b = [hex_digit (unat b div 16), hex_digit (unat b mod 16)]"

definition hex_text :: "8 word list \<Rightarrow> string" where
  "hex_text bs = concat (map hex_byte bs)"

definition createResourceId :: "resource_type \<Rightarrow> 8 word list \<Rightarrow> string" where
  "createResourceId ty bytes = (let prefix = RESOURCE_PREFIXES ty; hex = hex_text bytes in prefix @ hex)"

record parsed_resource_id =
  pid_type :: "resource_type option"
  pid_prefix :: string
  pid_shortId :: string
  pid_fullId :: string

fun parseResourceId_loop :: "string list \<Rightarrow> string \<Rightarrow> (parsed_resource_id, signet_error) result" where
  "parseResourceId_loop [] rid =
     Err (ValidationError_create ''resourceId''
            (''Unrecognized resource ID prefix: '' @ [CHR 0x22] @ rid @ [CHR 0x22]) [])"
| "parseResourceId_loop (prefix # ps) rid =
     (if starts_with rid prefix
      then let shortId = drop (length prefix) rid
           in if \<not> SHORT_ID_HEX shortId
              then Err (ValidationError_create ''resourceId''
                     (''Resource IDs with prefix '' @ [CHR 0x22] @ prefix @ [CHR 0x22] @ '' must end with ''
                       @ int_text (int RESOURCE_ID_HEX_LENGTH) @ '' lowercase hex characters'')
                     [(''id'', VStr rid), (''prefix'', VStr prefix), (''shortId'', VStr shortId)])
              else Ok \<lparr>pid_type = PREFIX_TO_TYPE prefix, pid_prefix = prefix, pid_shortId = shortId,
                       pid_fullId = rid\<rparr>
      else parseResourceId_loop ps rid)"

definition parseResourceId :: "string \<Rightarrow> (parsed_resource_id, signet_error) result" where
  "parseResourceId rid = parseResourceId_loop ALL_PREFIXES rid"

subsection \<open>Resolving short identifiers\<close>

fun extractHex_loop :: "string list \<Rightarrow> string \<Rightarrow> string option" where
  "extractHex_loop [] rid = None"
| "extractHex_loop (prefix # ps) rid =
     (if starts_with rid prefix
      then let hex = drop (length prefix) rid in if SHORT_ID_HEX hex then Some hex else None
      else extractHex_loop ps rid)"

definition extractHex :: "string \<Rightarrow> string option" where
  "extractHex rid = extractHex_loop ALL_PREFIXES rid"

text \<open>The candidates a short identifier stands for; the prefix, when it has one, must agree.\<close>

definition short_id_matches :: "string option \<Rightarrow> string \<Rightarrow> string list \<Rightarrow> string list" where
  "short_id_matches prefix hexPrefix candidates =
     filter (\<lambda>candidate.
       (case prefix of Some p \<Rightarrow> starts_with candidate p | None \<Rightarrow> True) \<and>
       (case extractHex candidate of Some hex \<Rightarrow> starts_with hex hexPrefix | None \<Rightarrow> False)) candidates"

definition resolveShortId :: "string \<Rightarrow> string list \<Rightarrow> (string, signet_error) result" where
  "resolveShortId shortId candidates =
     (if AnyResourceId shortId
      then if shortId \<in> set candidates then Ok shortId
           else Err (NotFoundError_create ''resource'' shortId)
      else
        let prefix = List.find (\<lambda>p. starts_with shortId p) ALL_PREFIXES;
            hexPrefix = (case prefix of Some p \<Rightarrow> drop (length p) shortId | None \<Rightarrow> shortId)
        in if length hexPrefix = 0 \<or> \<not> list_all is_lower_hex hexPrefix
           then Err (ValidationError_create ''shortId''
                      ''Short ID must be lowercase hex or a full resource ID''
                      [(''shortId'', VStr shortId)])
           else
             let ms = short_id_matches prefix hexPrefix candidates
             in case ms of
                  [m] \<Rightarrow> Ok m
                | [] \<Rightarrow> Err (NotFoundError_create ''resource'' shortId)
                | _ \<Rightarrow> Err (ValidationError_create ''shortId'' ''Ambiguous short ID''
                         [(''shortId'', VStr shortId), (''suggestions'', VArr (map VStr ms))]))"

subsection \<open>Facts\<close>

lemma in_all_resource_types [simp]: "ty \<in> set all_resource_types"
  by (cases ty) (simp_all add: all_resource_types_def)

lemma PREFIX_TO_TYPE_prefix [simp]: "PREFIX_TO_TYPE (RESOURCE_PREFIXES ty) = Some ty"
  by (cases ty) (simp_all add: PREFIX_TO_TYPE_def all_resource_types_def)

text \<open>No prefix of a resource type starts another's identifiers.\<close>

lemma prefix_free: "starts_with (RESOURCE_PREFIXES ty @ s) (RESOURCE_PREFIXES ty') \<longleftrightarrow> ty = ty'"
  by (cases ty; cases ty') (simp_all add: starts_with_def)

lemma is_lower_hex_digit [simp]: "n < 16 \<Longrightarrow> is_lower_hex (hex_digit n)"
  unfolding is_lower_hex_def hex_digit_def by (rule nth_mem) simp

lemma hex_byte_ok: "length (hex_byte b) = 2" "list_all is_lower_hex (hex_byte b)"
proof -
  have "unat b < 256" using unsigned_less [of b] by simp
  then have "unat b div 16 < 16" "unat b mod 16 < 16" by simp_all
  then show "length (hex_byte b) = 2" "list_all is_lower_hex (hex_byte b)"
    by (simp_all add: hex_byte_def)
qed

lemma hex_text_ok: "length (hex_text bs) = 2 * length bs" "list_all is_lower_hex (hex_text bs)"
  by (induction bs) (simp_all add: hex_text_def hex_byte_ok)

lemma SHORT_ID_HEX_hex_text: "length bs = 8 \<Longrightarrow> SHORT_ID_HEX (hex_text bs)"
  by (simp add: SHORT_ID_HEX_def RESOURCE_ID_HEX_LENGTH_def hex_text_ok)

lemma parse_loop_prefix:
  "parseResourceId_loop (map RESOURCE_PREFIXES tys) (RESOURCE_PREFIXES ty @ s) =
     (if ty \<in> set tys
      then if SHORT_ID_HEX s
           then Ok \<lparr>pid_type = Some ty, pid_prefix = RESOURCE_PREFIXES ty, pid_shortId = s,
                    pid_fullId = RESOURCE_PREFIXES ty @ s\<rparr>
           else parseResourceId_loop [RESOURCE_PREFIXES ty] (RESOURCE_PREFIXES ty @ s)
      else parseResourceId_loop [] (RESOURCE_PREFIXES ty @ s))"
  by (induction tys) (auto simp: prefix_free)

lemma parse_loop_Ok:
  "parseResourceId_loop ps rid = Ok r \<Longrightarrow>
     \<exists>p \<in> set ps. rid = p @ pid_shortId r \<and> SHORT_ID_HEX (pid_shortId r) \<and> pid_prefix r = p
       \<and> pid_type r = PREFIX_TO_TYPE p \<and> pid_fullId r = rid"
  by (induction ps) (auto simp: starts_with_split Let_def split: if_splits)

lemma extractHex_loop_prefix:
  "extractHex_loop (map RESOURCE_PREFIXES tys) (RESOURCE_PREFIXES ty @ s) =
     (if ty \<in> set tys \<and> SHORT_ID_HEX s then Some s else None)"
  by (induction tys) (auto simp: prefix_free)

lemma AnyResourceId_iff:
  "AnyResourceId v \<longleftrightarrow> (\<exists>ty s. v = RESOURCE_PREFIXES ty @ s \<and> SHORT_ID_HEX s)"
  by (auto simp: AnyResourceId_def list_ex_iff resource_id_ok_def starts_with_split) blast

lemma extractHex_Some: "extractHex v = Some s \<longleftrightarrow> (\<exists>ty. v = RESOURCE_PREFIXES ty @ s \<and> SHORT_ID_HEX s)"
proof
  assume "\<exists>ty. v = RESOURCE_PREFIXES ty @ s \<and> SHORT_ID_HEX s"
  then show "extractHex v = Some s"
    by (auto simp: extractHex_def ALL_PREFIXES_def extractHex_loop_prefix)
next
  have "extractHex_loop ps v = Some s \<Longrightarrow> \<exists>p \<in> set ps. v = p @ s \<and> SHORT_ID_HEX s" for ps
    by (induction ps) (auto simp: starts_with_split Let_def split: if_splits)
  moreover assume "extractHex v = Some s"
  ultimately show "\<exists>ty. v = RESOURCE_PREFIXES ty @ s \<and> SHORT_ID_HEX s"
    by (force simp: extractHex_def ALL_PREFIXES_def)
qed

lemma resolve_short_cases:
  assumes "\<not> AnyResourceId v"
    and "resolveShortId v cs = Ok m"
  shows "short_id_matches (List.find (\<lambda>p. starts_with v p) ALL_PREFIXES)
           (case List.find (\<lambda>p. starts_with v p) ALL_PREFIXES of
              Some p \<Rightarrow> drop (length p) v | None \<Rightarrow> v) cs = [m]"
  using assms by (simp add: resolveShortId_def Let_def split: if_splits list.splits)

lemma short_id_matches_sub: "set (short_id_matches p h cs) \<subseteq> set cs"
  by (auto simp: short_id_matches_def)

lemma short_id_match_valid: "m \<in> set (short_id_matches p h cs) \<Longrightarrow> AnyResourceId m"
  by (auto simp: short_id_matches_def AnyResourceId_iff extractHex_Some split: option.splits)

subsection \<open>Properties\<close>

text \<open>An identifier made from eight random bytes parses back to its type, its prefix and
  its sixteen hex digits, and is accepted as a resource ID.\<close>

theorem createResourceId_roundtrip:
  assumes "length bytes = 8"
  shows "parseResourceId (createResourceId ty bytes) =
           Ok \<lparr>pid_type = Some ty, pid_prefix = RESOURCE_PREFIXES ty, pid_shortId = hex_text bytes,
               pid_fullId = createResourceId ty bytes\<rparr>
         \<and> AnyResourceId (createResourceId ty bytes)"
  using SHORT_ID_HEX_hex_text [OF assms]
  by (auto simp: createResourceId_def parseResourceId_def ALL_PREFIXES_def parse_loop_prefix
      AnyResourceId_iff)

theorem createResourceId_roundtrip_witness:
  "parseResourceId (createResourceId RT_seal [0, 1, 2, 3, 4, 5, 6, 255]) =
     Ok \<lparr>pid_type = Some RT_seal, pid_prefix = ''seal_'', pid_shortId = ''00010203040506ff'',
         pid_fullId = ''seal_00010203040506ff''\<rparr>"
  using createResourceId_roundtrip [of "[0, 1, 2, 3, 4, 5, 6, 255]" RT_seal]
  by (simp add: createResourceId_def hex_text_def hex_byte_def hex_digit_def)

text \<open>Parsing accepts exactly the valid resource IDs: it succeeds if and only if the string
  is a known prefix followed by sixteen lowercase hex digits, and every failure is a
  validation error.\<close>

theorem parseResourceId_accepts:
  "case parseResourceId v of
     Ok r \<Rightarrow> AnyResourceId v \<and> v = pid_prefix r @ pid_shortId r
   | Err e \<Rightarrow> \<not> AnyResourceId v \<and> err_tag e = Tag_ValidationError \<and> error_ok e"
proof (cases "parseResourceId v")
  case (Ok r)
  from parse_loop_Ok [OF Ok [unfolded parseResourceId_def]] Ok show ?thesis
    by (auto simp: ALL_PREFIXES_def AnyResourceId_iff)
next
  case (Err e)
  have "parseResourceId_loop ps v = Err e \<Longrightarrow> err_tag e = Tag_ValidationError \<and> error_ok e" for ps
    by (induction ps) (auto simp: Let_def split: if_splits)
  moreover have "\<not> AnyResourceId v"
    using Err by (auto simp: AnyResourceId_iff parseResourceId_def ALL_PREFIXES_def parse_loop_prefix)
  ultimately show ?thesis using Err by (simp add: parseResourceId_def)
qed

text \<open>A short ID resolves only to one of the candidates it was resolved against; when it is
  not itself a full ID the answer is a valid resource ID and the only candidate whose hex part
  starts with the given digits, so an ambiguous short ID is never resolved.\<close>

theorem resolveShortId_sound:
  assumes "resolveShortId v cs = Ok m"
  shows "m \<in> set cs \<and> AnyResourceId m \<and>
    (AnyResourceId v \<and> m = v \<or>
     (\<exists>p h. short_id_matches p h cs = [m] \<and> (v = h \<or> (\<exists>q. p = Some q \<and> v = q @ h))))"
proof (cases "AnyResourceId v")
  case True
  with assms show ?thesis by (auto simp: resolveShortId_def split: if_splits)
next
  case False
  define p where "p = List.find (\<lambda>p. starts_with v p) ALL_PREFIXES"
  define h where "h = (case p of Some q \<Rightarrow> drop (length q) v | None \<Rightarrow> v)"
  from resolve_short_cases [OF False assms] have ms: "short_id_matches p h cs = [m]"
    by (simp add: p_def h_def)
  have "v = h \<or> (\<exists>q. p = Some q \<and> v = q @ h)"
    by (auto simp: h_def p_def starts_with_def split: option.splits dest!: find_SomeD)
      (metis append_take_drop_id)
  moreover have "m \<in> set (short_id_matches p h cs)" using ms by simp
  ultimately show ?thesis
    using ms short_id_matches_sub [of p h cs] short_id_match_valid by blast
qed

theorem resolveShortId_sound_witness:
  "resolveShortId ''op_ab'' [''op_ab00000000000000'', ''key_ab00000000000000''] = Ok ''op_ab00000000000000''
   \<and> ''op_ab00000000000000'' \<in> set [''op_ab00000000000000'', ''key_ab00000000000000'']"
proof -
  have "resolveShortId ''op_ab'' [''op_ab00000000000000'', ''key_ab00000000000000''] = Ok ''op_ab00000000000000''"
    by code_simp
  from resolveShortId_sound [OF this] this show ?thesis by blast
qed

end
