(* ===== verification/Scopes.thy ===== *)
theory Scopes
  imports Errors
begin

text \<open>
  Permission scopes (\<^verbatim>\<open>packages/schemas/src/permission-scopes.ts\<close>) and policies
  (\<^verbatim>\<open>packages/schemas/src/policy.ts\<close>): the thirty scopes and their categories, allow/deny
  scope sets, their resolution under deny-wins, and merging a policy with inline scopes.
\<close>

subsection \<open>Scopes and categories\<close>

datatype permission_scope =
    Sc_send
  | Sc_reply
  | Sc_react
  | Sc_read_receipt
  | Sc_attachment
  | Sc_add_member
  | Sc_remove_member
  | Sc_promote_admin
  | Sc_demote_admin
  | Sc_update_permission
  | Sc_update_name
  | Sc_update_description
  | Sc_update_image
  | Sc_invite
  | Sc_join
  | Sc_leave
  | Sc_create_group
  | Sc_create_dm
  | Sc_read_messages
  | Sc_read_history
  | Sc_list_members
  | Sc_list_conversations
  | Sc_read_permissions
  | Sc_stream_messages
  | Sc_stream_conversations
  | Sc_forward_to_provider
  | Sc_store_excerpts
  | Sc_use_for_memory
  | Sc_quote_revealed
  | Sc_summarize

datatype scope_category =
    Scat_messaging
  | Scat_group_management
  | Scat_metadata
  | Scat_access
  | Scat_observation
  | Scat_egress

fun scope_name :: "permission_scope \<Rightarrow> string" where
  "scope_name Sc_send = ''send''"
| "scope_name Sc_reply = ''reply''"
| "scope_name Sc_react = ''react''"
| "scope_name Sc_read_receipt = ''read-receipt''"
| "scope_name Sc_attachment = ''attachment''"
| "scope_name Sc_add_member = ''add-member''"
| "scope_name Sc_remove_member = ''remove-member''"
| "scope_name Sc_promote_admin = ''promote-admin''"
| "scope_name Sc_demote_admin = ''demote-admin''"
| "scope_name Sc_update_permission = ''update-permission''"
| "scope_name Sc_update_name = ''update-name''"
| "scope_name Sc_update_description = ''update-description''"
| "scope_name Sc_update_image = ''update-image''"
| "scope_name Sc_invite = ''invite''"
| "scope_name Sc_join = ''join''"
| "scope_name Sc_leave = ''leave''"
| "scope_name Sc_create_group = ''create-group''"
| "scope_name Sc_create_dm = ''create-dm''"
| "scope_name Sc_read_messages = ''read-messages''"
| "scope_name Sc_read_history = ''read-history''"
| "scope_name Sc_list_members = ''list-members''"
| "scope_name Sc_list_conversations = ''list-conversations''"
| "scope_name Sc_read_permissions = ''read-permissions''"
| "scope_name Sc_stream_messages = ''stream-messages''"
| "scope_name Sc_stream_conversations = ''stream-conversations''"
| "scope_name Sc_forward_to_provider = ''forward-to-provider''"
| "scope_name Sc_store_excerpts = ''store-excerpts''"
| "scope_name Sc_use_for_memory = ''use-for-memory''"
| "scope_name Sc_quote_revealed = ''quote-revealed''"
| "scope_name Sc_summarize = ''summarize''"

definition PERMISSION_SCOPE_VALUES :: "permission_scope list" where
  "PERMISSION_SCOPE_VALUES =
     [Sc_send, Sc_reply, Sc_react, Sc_read_receipt, Sc_attachment, Sc_add_member, Sc_remove_member, Sc_promote_admin, Sc_demote_admin, Sc_update_permission, Sc_update_name, Sc_update_description, Sc_update_image, Sc_invite, Sc_join, Sc_leave, Sc_create_group, Sc_create_dm, Sc_read_messages, Sc_read_history, Sc_list_members, Sc_list_conversations, Sc_read_permissions, Sc_stream_messages, Sc_stream_conversations, Sc_forward_to_provider, Sc_store_excerpts, Sc_use_for_memory, Sc_quote_revealed, Sc_summarize]"

text \<open>The enum's parser: a string is a scope exactly when it is one of the thirty names.\<close>

definition PermissionScope_parse :: "string \<Rightarrow> permission_scope option" where
  "PermissionScope_parse s = List.find (\<lambda>x. scope_name x = s) PERMISSION_SCOPE_VALUES"

fun SCOPES_BY_CATEGORY :: "scope_category \<Rightarrow> permission_scope list" where
  "SCOPES_BY_CATEGORY Scat_messaging =
     [Sc_send, Sc_reply, Sc_react, Sc_read_receipt, Sc_attachment]"
| "SCOPES_BY_CATEGORY Scat_group_management =
     [Sc_add_member, Sc_remove_member, Sc_promote_admin, Sc_demote_admin, Sc_update_permission]"
| "SCOPES_BY_CATEGORY Scat_metadata =
     [Sc_update_name, Sc_update_description, Sc_update_image]"
| "SCOPES_BY_CATEGORY Scat_access =
     [Sc_invite, Sc_join, Sc_leave, Sc_create_group, Sc_create_dm]"
| "SCOPES_BY_CATEGORY Scat_observation =
     [Sc_read_messages, Sc_read_history, Sc_list_members, Sc_list_conversations, Sc_read_permissions, Sc_stream_messages, Sc_stream_conversations]"
| "SCOPES_BY_CATEGORY Scat_egress =
     [Sc_forward_to_provider, Sc_store_excerpts, Sc_use_for_memory, Sc_quote_revealed, Sc_summarize]"

definition isScopeInCategory :: "permission_scope \<Rightarrow> scope_category \<Rightarrow> bool" where
  "isScopeInCategory scope category = (scope \<in> set (SCOPES_BY_CATEGORY category))"

lemma all_scopes_listed [simp]: "s \<in> set PERMISSION_SCOPE_VALUES"
  by (cases s) (simp_all add: PERMISSION_SCOPE_VALUES_def)

lemma PermissionScope_parse_name [simp]: "PermissionScope_parse (scope_name s) = Some s"
  by (cases s) (simp_all add: PermissionScope_parse_def PERMISSION_SCOPE_VALUES_def)

lemma PermissionScope_parse_Some: "PermissionScope_parse t = Some s \<longleftrightarrow> t = scope_name s"
proof
  assume "PermissionScope_parse t = Some s"
  then have "List.find (\<lambda>x. scope_name x = t) PERMISSION_SCOPE_VALUES = Some s"
    by (simp only: PermissionScope_parse_def)
  from find_SomeD [OF this] show "t = scope_name s" by simp
qed simp

lemma scope_name_inj [simp]: "scope_name a = scope_name b \<longleftrightarrow> a = b"
proof
  assume "scope_name a = scope_name b"
  then have "PermissionScope_parse (scope_name a) = PermissionScope_parse (scope_name b)"
    by (rule arg_cong)
  then show "a = b" by (simp only: PermissionScope_parse_name option.inject)
qed simp

text \<open>\<open>scope_category_of\<close> names the one category a scope is listed under.\<close>

fun scope_category_of :: "permission_scope \<Rightarrow> scope_category" where
  "scope_category_of Sc_send = Scat_messaging"
| "scope_category_of Sc_reply = Scat_messaging"
| "scope_category_of Sc_react = Scat_messaging"
| "scope_category_of Sc_read_receipt = Scat_messaging"
| "scope_category_of Sc_attachment = Scat_messaging"
| "scope_category_of Sc_add_member = Scat_group_management"
| "scope_category_of Sc_remove_member = Scat_group_management"
| "scope_category_of Sc_promote_admin = Scat_group_management"
| "scope_category_of Sc_demote_admin = Scat_group_management"
| "scope_category_of Sc_update_permission = Scat_group_management"
| "scope_category_of Sc_update_name = Scat_metadata"
| "scope_category_of Sc_update_description = Scat_metadata"
| "scope_category_of Sc_update_image = Scat_metadata"
| "scope_category_of Sc_invite = Scat_access"
| "scope_category_of Sc_join = Scat_access"
| "scope_category_of Sc_leave = Scat_access"
| "scope_category_of Sc_create_group = Scat_access"
| "scope_category_of Sc_create_dm = Scat_access"
| "scope_category_of Sc_read_messages = Scat_observation"
| "scope_category_of Sc_read_history = Scat_observation"
| "scope_category_of Sc_list_members = Scat_observation"
| "scope_category_of Sc_list_conversations = Scat_observation"
| "scope_category_of Sc_read_permissions = Scat_observation"
| "scope_category_of Sc_stream_messages = Scat_observation"
| "scope_category_of Sc_stream_conversations = Scat_observation"
| "scope_category_of Sc_forward_to_provider = Scat_egress"
| "scope_category_of Sc_store_excerpts = Scat_egress"
| "scope_category_of Sc_use_for_memory = Scat_egress"
| "scope_category_of Sc_quote_revealed = Scat_egress"
| "scope_category_of Sc_summarize = Scat_egress"

lemma isScopeInCategory_iff: "isScopeInCategory s c \<longleftrightarrow> c = scope_category_of s"
  by (cases s; cases c) (simp_all add: isScopeInCategory_def)

subsection \<open>Scope sets\<close>

record scope_set =
  allow :: "permission_scope list"
  deny :: "permission_scope list"

definition resolveScopeSet :: "scope_set \<Rightarrow> permission_scope list" where
  "resolveScopeSet scopeSet =
     (let denied = set_of (deny scopeSet)
      in foldl (\<lambda>result scope. if scope \<notin> set denied then set_add result scope else result)
           [] (allow scopeSet))"

definition isScopeAllowed :: "permission_scope \<Rightarrow> permission_scope list \<Rightarrow> bool" where
  "isScopeAllowed scope resolved = (scope \<in> set resolved)"

lemma set_foldl_unless:
  "set (foldl (\<lambda>r x. if x \<notin> D then set_add r x else r) acc xs) = set acc \<union> (set xs - D)"
  by (induction xs arbitrary: acc) auto

lemma distinct_foldl_unless:
  "distinct acc \<Longrightarrow> distinct (foldl (\<lambda>r x. if x \<notin> D then set_add r x else r) acc xs)"
  by (induction xs arbitrary: acc) auto

lemma set_resolveScopeSet [simp]: "set (resolveScopeSet ss) = set (allow ss) - set (deny ss)"
  by (simp add: resolveScopeSet_def Let_def set_foldl_unless)

lemma distinct_resolveScopeSet [simp]: "distinct (resolveScopeSet ss)"
  by (simp add: resolveScopeSet_def Let_def distinct_foldl_unless)

text \<open>\<open>effective\<close> is the reading of a scope set the resolution promises: deny wins.\<close>

definition effective :: "scope_set \<Rightarrow> permission_scope \<Rightarrow> bool" where
  "effective ss s \<longleftrightarrow> s \<in> set (allow ss) \<and> s \<notin> set (deny ss)"

lemma resolved_effective: "s \<in> set (resolveScopeSet ss) \<longleftrightarrow> effective ss s"
  by (simp add: effective_def)

lemma effective_mono:
  "set (allow a) \<subseteq> set (allow b) \<Longrightarrow> set (deny b) \<subseteq> set (deny a) \<Longrightarrow> effective a s \<Longrightarrow> effective b s"
  by (auto simp: effective_def)

subsection \<open>Policies\<close>

record policy_config =
  pc_label :: string
  pc_allow :: "permission_scope list"
  pc_deny :: "permission_scope list"

record policy_record =
  pr_id :: string
  pr_config :: policy_config
  pr_createdAt :: int
  pr_updatedAt :: int

definition resolvePolicy ::
  "policy_config \<Rightarrow> permission_scope list option \<Rightarrow> permission_scope list option \<Rightarrow> scope_set" where
  "resolvePolicy policy inlineAllow inlineDeny =
     \<lparr>allow = pc_allow policy @ nullish inlineAllow [],
      deny = pc_deny policy @ nullish inlineDeny []\<rparr>"

lemma effective_resolvePolicy:
  "effective (resolvePolicy p ia idn) s \<longleftrightarrow>
     (s \<in> set (pc_allow p) \<or> s \<in> set (nullish ia [])) \<and>
     s \<notin> set (pc_deny p) \<and> s \<notin> set (nullish idn [])"
  by (auto simp: effective_def resolvePolicy_def)

end
