(* ===== verification/CredentialTypes.thy ===== *)
theory CredentialTypes
  imports ResourceIds Scopes
begin

text \<open>
  The credential schemas (\<^verbatim>\<open>packages/schemas/src/credential.ts\<close>) and the revocation reasons
  (\<^verbatim>\<open>packages/schemas/src/revocation.ts\<close>).
\<close>

datatype credential_status = CS_pending | CS_active | CS_expired | CS_revoked

fun credential_status_text :: "credential_status \<Rightarrow> string" where
  "credential_status_text CS_pending = ''pending''"
| "credential_status_text CS_active = ''active''"
| "credential_status_text CS_expired = ''expired''"
| "credential_status_text CS_revoked = ''revoked''"

datatype credential_revocation_reason =
    CR_owner_initiated
  | CR_credential_expired
  | CR_heartbeat_timeout
  | CR_policy_violation
  | CR_reauthorization_required

fun revocation_reason_text :: "credential_revocation_reason \<Rightarrow> string" where
  "revocation_reason_text CR_owner_initiated = ''owner-initiated''"
| "revocation_reason_text CR_credential_expired = ''credential-expired''"
| "revocation_reason_text CR_heartbeat_timeout = ''heartbeat-timeout''"
| "revocation_reason_text CR_policy_violation = ''policy-violation''"
| "revocation_reason_text CR_reauthorization_required = ''reauthorization-required''"

record credential_config =
  cc_operatorId :: string
  cc_chatIds :: "string list"
  cc_policyId :: "string option"
  cc_allow :: "permission_scope list option"
  cc_deny :: "permission_scope list option"
  cc_ttlSeconds :: "int option"

text \<open>What the schema checks of a configuration: identifiers, at least one chat, a positive TTL.\<close>

definition CredentialConfig_ok :: "credential_config \<Rightarrow> bool" where
  "CredentialConfig_ok c \<longleftrightarrow>
     resource_id_ok (RESOURCE_PREFIXES RT_operator) (cc_operatorId c) \<and>
     cc_chatIds c \<noteq> [] \<and> list_all (resource_id_ok (RESOURCE_PREFIXES RT_conversation)) (cc_chatIds c) \<and>
     (case cc_policyId c of None \<Rightarrow> True | Some p \<Rightarrow> resource_id_ok (RESOURCE_PREFIXES RT_policy) p) \<and>
     (case cc_ttlSeconds c of None \<Rightarrow> True | Some t \<Rightarrow> 0 < t)"

text \<open>The issuer is \<open>"owner"\<close> or an operator identifier, as text.\<close>

record credential_record =
  cr_id :: string
  cr_config :: credential_config
  cr_inboxIds :: "string list"
  cr_status :: credential_status
  cr_issuedAt :: int
  cr_expiresAt :: int
  cr_issuedBy :: string

record issued_credential =
  ic_token :: string
  ic_credential :: credential_record

record credential_token =
  ct_credentialId :: string
  ct_operatorId :: string
  ct_fingerprint :: string
  ct_issuedAt :: int
  ct_expiresAt :: int

end
