(* ===== verification/PolicyHash.thy ===== *)
theory PolicyHash
  imports Scopes "HOL-Library.Multiset"
begin

text \<open>
  Hashing of a scope set and its chats for the deduplication of credentials
  (\<^verbatim>\<open>packages/sessions/src/policy-hash.ts\<close>). The engine's \<open>JSON.stringify\<close>, its
  \<open>localeCompare\<close> (as the relation "not after") and the hash function \<open>Bun.hash\<close>, with its
  hexadecimal printing, are parameters.
\<close>

record hash_engine =
  he_stringify :: "js_value \<Rightarrow> string"
  he_localeLe :: "string \<Rightarrow> string \<Rightarrow> bool"
  he_hash :: "string \<Rightarrow> string"

text \<open>The stable sort of the language, for a relation "not after".\<close>

fun insert_by :: "('a \<Rightarrow> 'a \<Rightarrow> bool) \<Rightarrow> 'a \<Rightarrow> 'a list \<Rightarrow> 'a list" where
  "insert_by le x [] = [x]"
| "insert_by le x (y # ys) = (if le x y then x # y # ys else y # insert_by le x ys)"

definition js_sort :: "('a \<Rightarrow> 'a \<Rightarrow> bool) \<Rightarrow> 'a list \<Rightarrow> 'a list" where
  "js_sort le xs = foldr (insert_by le) xs []"

text \<open>The default order of \<open>sort()\<close>: by code units.\<close>

fun code_le :: "string \<Rightarrow> string \<Rightarrow> bool" where
  "code_le [] t = True"
| "code_le (c # s) [] = False"
| "code_le (c # s) (d # t) =
     (if c = d then code_le s t else (of_char c :: nat) < of_char d)"

fun normalize :: "hash_engine \<Rightarrow> js_value \<Rightarrow> js_value" where
  "normalize en (VArr items) =
     VArr (js_sort (\<lambda>left right. he_localeLe en (he_stringify en left) (he_stringify en right))
             (map (normalize en) items))"
| "normalize en (VObj kvs) =
     VObj (js_sort (\<lambda>p q. code_le (fst p) (fst q)) (map (\<lambda>p. (fst p, normalize en (snd p))) kvs))"
| "normalize en value = value"

definition canonicalize :: "hash_engine \<Rightarrow> js_value \<Rightarrow> string" where
  "canonicalize en value = he_stringify en (normalize en value)"

definition scope_array :: "permission_scope list \<Rightarrow> js_value" where
  "scope_array ss = VArr (map (VStr \<circ> scope_name) ss)"

definition computePolicyHash :: "hash_engine \<Rightarrow> scope_set \<Rightarrow> string list option \<Rightarrow> string" where
  "computePolicyHash en scopes chatIds =
     (let canonical = canonicalize en
            (VObj [(''scopes'', VObj [(''allow'', scope_array (allow scopes)), (''deny'', scope_array (deny scopes))]),
                   (''chatIds'', VArr (map VStr (nullish chatIds [])))])
      in he_hash en canonical)"

subsection \<open>The sort\<close>

lemma mset_insert_by [simp]: "mset (insert_by le x xs) = add_mset x (mset xs)"
  by (induction xs) auto

lemma mset_js_sort [simp]: "mset (js_sort le xs) = mset xs"
  by (induction xs) (simp_all add: js_sort_def)

lemma js_sort_Cons: "js_sort le (x # xs) = insert_by le x (js_sort le xs)"
  by (simp add: js_sort_def)

text \<open>
  An order of texts under which two texts compare equal only when they are equal. Sorting by it
  forgets the order of the input, as long as the key tells the items apart.
\<close>

locale text_order =
  fixes le :: "'t \<Rightarrow> 't \<Rightarrow> bool"
  assumes le_total: "le a b \<or> le b a"
    and le_trans: "le a b \<Longrightarrow> le b c \<Longrightarrow> le a c"
    and le_antisym: "le a b \<Longrightarrow> le b a \<Longrightarrow> a = b"
begin

lemma insert_by_comm:
  assumes "key x = key y \<Longrightarrow> x = y"
  shows "insert_by (\<lambda>l r. le (key l) (key r)) x (insert_by (\<lambda>l r. le (key l) (key r)) y xs) =
         insert_by (\<lambda>l r. le (key l) (key r)) y (insert_by (\<lambda>l r. le (key l) (key r)) x xs)"
proof (induction xs)
  case Nil
  then show ?case using le_total [of "key x" "key y"] le_antisym [of "key x" "key y"] assms by auto
next
  case (Cons z zs)
  then show ?case
    using le_total [of "key x" "key y"] le_antisym [of "key x" "key y"] assms
      le_trans [of "key x" "key y" "key z"] le_trans [of "key y" "key x" "key z"]
    by auto
qed

lemma js_sort_mset:
  assumes "inj_on key (set xs)" and "mset xs = mset ys"
  shows "js_sort (\<lambda>l r. le (key l) (key r)) xs = js_sort (\<lambda>l r. le (key l) (key r)) ys"
proof -
  let ?f = "insert_by (\<lambda>l r. le (key l) (key r))"
  have "fold ?f (rev xs) = fold ?f (rev ys)"
  proof (rule fold_multiset_equiv)
    fix x y assume "x \<in> set (rev xs)" "y \<in> set (rev xs)"
    then have "key x = key y \<Longrightarrow> x = y" using assms(1) by (auto dest: inj_onD)
    then show "?f x \<circ> ?f y = ?f y \<circ> ?f x"
      unfolding comp_def by (intro ext insert_by_comm)
  qed (simp add: assms(2))
  then show ?thesis by (simp add: js_sort_def foldr_conv_fold)
qed

end

lemma code_le_Nil [simp]: "code_le s [] \<longleftrightarrow> s = []"
  by (cases s) simp_all

lemma code_le_antisym: "code_le s t \<Longrightarrow> code_le t s \<Longrightarrow> s = t"
  by (induction s t rule: code_le.induct) (auto split: if_splits)

lemma code_le_total: "code_le s t \<or> code_le t s"
  by (induction s t rule: code_le.induct) (auto simp: not_less le_less)

lemma code_le_trans: "code_le s t \<Longrightarrow> code_le t u \<Longrightarrow> code_le s u"
proof (induction s t arbitrary: u rule: code_le.induct)
  case (3 c s d t)
  then show ?case by (cases u) (auto split: if_splits)
qed auto

text \<open>The default order of \<open>sort()\<close> is such an order.\<close>

interpretation cu: text_order code_le
  by unfold_locales (use code_le_total code_le_trans code_le_antisym in blast)+

subsection \<open>Properties\<close>

text \<open>The canonical form, written out.\<close>

definition sorted_texts :: "hash_engine \<Rightarrow> string list \<Rightarrow> js_value" where
  "sorted_texts en ss =
     VArr (js_sort (\<lambda>l r. he_localeLe en (he_stringify en l) (he_stringify en r)) (map VStr ss))"

lemma map_normalize_VStr: "map (normalize en) (map VStr ss) = map VStr ss"
  by simp

lemma computePolicyHash_canonical:
  "computePolicyHash en sc chats =
     he_hash en (he_stringify en
       (VObj [(''chatIds'', sorted_texts en (nullish chats [])),
              (''scopes'', VObj [(''allow'', sorted_texts en (map scope_name (allow sc))),
                                 (''deny'', sorted_texts en (map scope_name (deny sc)))])]))"
  by (simp add: computePolicyHash_def canonicalize_def scope_array_def sorted_texts_def js_sort_def comp_def)

lemma sorted_texts_mset:
  assumes "text_order (he_localeLe en)" and "inj (\<lambda>s. he_stringify en (VStr s))"
    and "mset ss = mset ts"
  shows "sorted_texts en ss = sorted_texts en ts"
proof -
  have "inj_on (he_stringify en) (set (map VStr ss))"
    using assms(2) by (auto simp: inj_on_def)
  moreover have "mset (map VStr ss) = mset (map VStr ts)"
    by (simp add: assms(3))
  ultimately show ?thesis
    unfolding sorted_texts_def by (simp only: text_order.js_sort_mset [OF assms(1)])
qed

text \<open>The policy hash does not depend on the order in which scopes and chats are listed: two
  requests that list the same allowed scopes, denied scopes and chats (with the same
  multiplicities) get the same hash. The locale's order is only required to be an order of texts,
  and \<open>JSON.stringify\<close> to tell strings apart.\<close>

theorem policy_hash_order_independent:
  assumes "text_order (he_localeLe en)"
    and "inj (\<lambda>s. he_stringify en (VStr s))"
    and "mset (allow sc) = mset (allow sc')" and "mset (deny sc) = mset (deny sc')"
    and "mset (nullish chats []) = mset (nullish chats' [])"
  shows "computePolicyHash en sc chats = computePolicyHash en sc' chats'"
proof -
  note st = sorted_texts_mset [OF assms(1,2)]
  have "sorted_texts en (map scope_name (allow sc)) = sorted_texts en (map scope_name (allow sc'))"
    by (rule st) (simp add: assms(3))
  moreover have "sorted_texts en (map scope_name (deny sc)) = sorted_texts en (map scope_name (deny sc'))"
    by (rule st) (simp add: assms(4))
  moreover have "sorted_texts en (nullish chats []) = sorted_texts en (nullish chats' [])"
    by (rule st) (rule assms(5))
  ultimately show ?thesis by (simp add: computePolicyHash_canonical)
qed

fun sample_stringify :: "js_value \<Rightarrow> string" where
  "sample_stringify (VStr s) = s"
| "sample_stringify (VArr vs) = ''['' @ join_with '','' (map sample_stringify vs) @ '']''"
| "sample_stringify (VObj kvs) = ''{'' @ join_with '','' (map (\<lambda>p. fst p @ '':'' @ sample_stringify (snd p)) kvs) @ ''}''"
| "sample_stringify _ = ''null''"

definition sample_engine :: hash_engine where
  "sample_engine = \<lparr>he_stringify = sample_stringify, he_localeLe = code_le, he_hash = (\<lambda>s. s)\<rparr>"

theorem policy_hash_order_independent_witness:
  "computePolicyHash sample_engine \<lparr>allow = [Sc_send, Sc_read_messages], deny = []\<rparr> (Some [''conv_b'', ''conv_a'']) =
   computePolicyHash sample_engine \<lparr>allow = [Sc_read_messages, Sc_send], deny = []\<rparr> (Some [''conv_a'', ''conv_b''])"
  by (rule policy_hash_order_independent)
    (simp_all add: sample_engine_def cu.text_order_axioms inj_def)

end
