(* ===== verification/Materiality.thy ===== *)
theory Materiality
  imports Scopes
begin

text \<open>
  Deltas between scope sets and what they mean. The policy package classifies a delta
  (\<^verbatim>\<open>packages/policy/src/materiality.ts\<close>); the sessions package computes one for a
  credential update and classifies it on the way (\<^verbatim>\<open>packages/sessions/src/materiality.ts\<close>).
  The contract a delta function owes its users is the locale \<open>delta_contract\<close>: every scope
  gained or lost shows up. The sessions delta meets the stronger \<open>exact_delta_contract\<close>.
\<close>

subsection \<open>Deltas\<close>

datatype allow_deny = AD_allow | AD_deny

fun allow_deny_name :: "allow_deny \<Rightarrow> string" where
  "allow_deny_name AD_allow = ''allow''"
| "allow_deny_name AD_deny = ''deny''"

record scope_policy_change =
  ch_scope :: permission_scope
  ch_from :: allow_deny
  ch_to :: allow_deny

record policy_delta =
  d_added :: "permission_scope list"
  d_removed :: "permission_scope list"
  d_changed :: "scope_policy_change list"

abbreviation denied_to_allowed :: "permission_scope \<Rightarrow> scope_policy_change" where
  "denied_to_allowed s \<equiv> \<lparr>ch_scope = s, ch_from = AD_deny, ch_to = AD_allow\<rparr>"

abbreviation allowed_to_denied :: "permission_scope \<Rightarrow> scope_policy_change" where
  "allowed_to_denied s \<equiv> \<lparr>ch_scope = s, ch_from = AD_allow, ch_to = AD_deny\<rparr>"

subsection \<open>The policy package's classifier\<close>

text \<open>A caller passes one delta or an array of them.\<close>

datatype delta_arg = OneDelta policy_delta | ManyDeltas "policy_delta list"

fun normalizeDeltas :: "delta_arg \<Rightarrow> policy_delta list" where
  "normalizeDeltas (ManyDeltas ds) = ds"
| "normalizeDeltas (OneDelta d) = [d]"

definition isSingleDeltaMaterial :: "policy_delta \<Rightarrow> bool" where
  "isSingleDeltaMaterial delta \<longleftrightarrow>
     length (d_added delta) > 0 \<or> length (d_removed delta) > 0 \<or> length (d_changed delta) > 0"

definition isMaterialChange :: "delta_arg \<Rightarrow> bool" where
  "isMaterialChange deltas = list_ex isSingleDeltaMaterial (normalizeDeltas deltas)"

definition isSingleDeltaEscalation :: "policy_delta \<Rightarrow> bool" where
  "isSingleDeltaEscalation delta \<longleftrightarrow>
     length (d_added delta) > 0 \<or> list_ex (\<lambda>change. ch_to change = AD_allow) (d_changed delta)"

definition requiresReauthorization :: "delta_arg \<Rightarrow> bool" where
  "requiresReauthorization deltas = list_ex isSingleDeltaEscalation (normalizeDeltas deltas)"

lemma escalation_single: "isSingleDeltaEscalation d \<Longrightarrow> isSingleDeltaMaterial d"
  by (auto simp: isSingleDeltaEscalation_def isSingleDeltaMaterial_def list_ex_iff
      intro: length_pos_if_in_set)

lemma escalation_material: "requiresReauthorization d \<Longrightarrow> isMaterialChange d"
  by (auto simp: requiresReauthorization_def isMaterialChange_def list_ex_iff intro: escalation_single)

lemma isMaterialChange_One:
  "isMaterialChange (OneDelta d) \<longleftrightarrow> d_added d \<noteq> [] \<or> d_removed d \<noteq> [] \<or> d_changed d \<noteq> []"
  by (simp add: isMaterialChange_def isSingleDeltaMaterial_def)

lemma requiresReauthorization_One:
  "requiresReauthorization (OneDelta d) \<longleftrightarrow>
     d_added d \<noteq> [] \<or> (\<exists>c \<in> set (d_changed d). ch_to c = AD_allow)"
  by (simp add: requiresReauthorization_def isSingleDeltaEscalation_def list_ex_iff)

subsection \<open>What a delta function owes its users\<close>

locale delta_contract =
  fixes delta :: "scope_set \<Rightarrow> scope_set \<Rightarrow> policy_delta"
  assumes gain_shown: "effective n s \<Longrightarrow> \<not> effective old s \<Longrightarrow>
      s \<in> set (d_added (delta old n)) \<or> denied_to_allowed s \<in> set (d_changed (delta old n))"
    and loss_shown: "effective old s \<Longrightarrow> \<not> effective n s \<Longrightarrow>
      s \<in> set (d_removed (delta old n)) \<or> allowed_to_denied s \<in> set (d_changed (delta old n))"
begin

lemma no_reauth_no_gain:
  assumes "\<not> requiresReauthorization (OneDelta (delta old n))" and "effective n s"
  shows "effective old s"
  using assms gain_shown [of n s old] by (force simp: requiresReauthorization_One)

lemma immaterial_same:
  assumes "\<not> isMaterialChange (OneDelta (delta old n))"
  shows "effective n s = effective old s"
proof
  assume "effective n s"
  with assms show "effective old s"
    using no_reauth_no_gain escalation_material by blast
next
  assume "effective old s"
  then show "effective n s"
    using assms loss_shown [of old s n] by (force simp: isMaterialChange_One)
qed

end

locale exact_delta_contract = delta_contract +
  assumes added_gain: "s \<in> set (d_added (delta old n)) \<Longrightarrow> effective n s \<and> \<not> effective old s"
    and removed_loss: "s \<in> set (d_removed (delta old n)) \<Longrightarrow> effective old s \<and> \<not> effective n s"
    and changed_flip: "c \<in> set (d_changed (delta old n)) \<Longrightarrow>
      (c = denied_to_allowed (ch_scope c) \<and> effective n (ch_scope c) \<and> \<not> effective old (ch_scope c)) \<or>
      (c = allowed_to_denied (ch_scope c) \<and> effective old (ch_scope c) \<and> \<not> effective n (ch_scope c))"
begin

lemma reauth_iff_gain:
  "requiresReauthorization (OneDelta (delta old n)) \<longleftrightarrow> (\<exists>s. effective n s \<and> \<not> effective old s)"
proof
  assume "requiresReauthorization (OneDelta (delta old n))"
  then consider (a) s where "s \<in> set (d_added (delta old n))"
    | (c) c where "c \<in> set (d_changed (delta old n))" "ch_to c = AD_allow"
    by (auto simp: requiresReauthorization_One nonempty_iff)
  then show "\<exists>s. effective n s \<and> \<not> effective old s"
  proof cases
    case a
    then show ?thesis using added_gain by blast
  next
    case c
    from changed_flip [OF c(1)] c(2) show ?thesis
      by (metis allow_deny.distinct(1) scope_policy_change.select_convs(3))
  qed
next
  assume "\<exists>s. effective n s \<and> \<not> effective old s"
  then show "requiresReauthorization (OneDelta (delta old n))"
    using no_reauth_no_gain by blast
qed

lemma material_iff_differ:
  "isMaterialChange (OneDelta (delta old n)) \<longleftrightarrow> (\<exists>s. effective n s \<noteq> effective old s)"
proof
  assume "isMaterialChange (OneDelta (delta old n))"
  then consider (a) s where "s \<in> set (d_added (delta old n))"
    | (r) s where "s \<in> set (d_removed (delta old n))"
    | (c) c where "c \<in> set (d_changed (delta old n))"
    unfolding isMaterialChange_One nonempty_iff by blast
  then show "\<exists>s. effective n s \<noteq> effective old s"
    by cases (use added_gain removed_loss changed_flip in blast)+
next
  assume "\<exists>s. effective n s \<noteq> effective old s"
  then show "isMaterialChange (OneDelta (delta old n))"
    using immaterial_same by blast
qed

end

subsection \<open>The sessions package's materiality check\<close>

definition buildReason :: "policy_delta \<Rightarrow> string" where
  "buildReason delta =
     (let parts1 = (if length (d_added delta) > 0
                    then [''added: '' @ join_with '', '' (map scope_name (d_added delta))] else []);
          parts2 = (if length (d_removed delta) > 0
                    then parts1 @ [''removed: '' @ join_with '', '' (map scope_name (d_removed delta))]
                    else parts1);
          parts3 = (if length (d_changed delta) > 0
                    then (let descs = map (\<lambda>c. scope_name (ch_scope c) @ '' ('' @ allow_deny_name (ch_from c)
                                              @ '' -> '' @ allow_deny_name (ch_to c) @ '')'') (d_changed delta)
                          in parts2 @ [''changed: '' @ join_with '', '' descs])
                    else parts2)
      in ''Material change: '' @ join_with ''; '' parts3)"

record detailed_materiality_check =
  mc_isMaterial :: bool
  mc_reason :: "string option"
  mc_delta :: policy_delta
  mc_requiresReauthorization :: bool

text \<open>One turn of the loop over all mentioned scopes.\<close>

definition materiality_step ::
  "permission_scope list \<Rightarrow> permission_scope list \<Rightarrow> permission_scope list \<Rightarrow> permission_scope list \<Rightarrow>
   policy_delta \<Rightarrow> permission_scope \<Rightarrow> policy_delta" where
  "materiality_step oldAllowSet oldDenySet newAllowSet newDenySet d scope =
     (let oldAllowed = scope \<in> set oldAllowSet \<and> scope \<notin> set oldDenySet;
          newAllowed = scope \<in> set newAllowSet \<and> scope \<notin> set newDenySet
      in if oldAllowed = newAllowed then d
         else if \<not> oldAllowed \<and> newAllowed
         then if scope \<in> set oldAllowSet \<or> scope \<in> set oldDenySet
              then d\<lparr>d_changed := d_changed d @ [denied_to_allowed scope]\<rparr>
              else d\<lparr>d_added := d_added d @ [scope]\<rparr>
         else if scope \<in> set newDenySet
         then d\<lparr>d_changed := d_changed d @ [allowed_to_denied scope]\<rparr>
         else d\<lparr>d_removed := d_removed d @ [scope]\<rparr>)"

definition checkMateriality :: "scope_set \<Rightarrow> scope_set \<Rightarrow> detailed_materiality_check" where
  "checkMateriality oldScopes newScopes =
     (let oldAllowSet = set_of (allow oldScopes);
          oldDenySet = set_of (deny oldScopes);
          newAllowSet = set_of (allow newScopes);
          newDenySet = set_of (deny newScopes);
          allScopes = set_of (oldAllowSet @ oldDenySet @ newAllowSet @ newDenySet);
          delta = foldl (materiality_step oldAllowSet oldDenySet newAllowSet newDenySet)
                    \<lparr>d_added = [], d_removed = [], d_changed = []\<rparr> allScopes;
          isMaterial = (length (d_added delta) > 0 \<or> length (d_removed delta) > 0
                        \<or> length (d_changed delta) > 0);
          escalations = filter (\<lambda>c. ch_to c = AD_allow) (d_changed delta);
          requiresReauth = (length (d_added delta) > 0 \<or> length escalations > 0);
          reason = (if isMaterial then Some (buildReason delta) else None)
      in \<lparr>mc_isMaterial = isMaterial, mc_reason = reason, mc_delta = delta,
          mc_requiresReauthorization = requiresReauth\<rparr>)"

lemma materiality_step_sets:
  assumes "e = materiality_step oA oD nA nD d x"
    and "old = \<lparr>allow = oA, deny = oD\<rparr>" and "n = \<lparr>allow = nA, deny = nD\<rparr>"
  shows "set (d_added e) = set (d_added d) \<union>
           {s. s = x \<and> effective n s \<and> \<not> effective old s \<and> s \<notin> set oA \<union> set oD}"
    and "set (d_removed e) = set (d_removed d) \<union>
           {s. s = x \<and> effective old s \<and> \<not> effective n s \<and> s \<notin> set nD}"
    and "set (d_changed e) = set (d_changed d) \<union>
           denied_to_allowed ` {s. s = x \<and> effective n s \<and> \<not> effective old s \<and> s \<in> set oA \<union> set oD} \<union>
           allowed_to_denied ` {s. s = x \<and> effective old s \<and> \<not> effective n s \<and> s \<in> set nD}"
  using assms by (auto simp: materiality_step_def effective_def Let_def)

lemma materiality_fold_sets:
  assumes "old = \<lparr>allow = oA, deny = oD\<rparr>" and "n = \<lparr>allow = nA, deny = nD\<rparr>"
  shows "set (d_added (foldl (materiality_step oA oD nA nD) d xs)) = set (d_added d) \<union>
           {s \<in> set xs. effective n s \<and> \<not> effective old s \<and> s \<notin> set oA \<union> set oD}"
    and "set (d_removed (foldl (materiality_step oA oD nA nD) d xs)) = set (d_removed d) \<union>
           {s \<in> set xs. effective old s \<and> \<not> effective n s \<and> s \<notin> set nD}"
    and "set (d_changed (foldl (materiality_step oA oD nA nD) d xs)) = set (d_changed d) \<union>
           denied_to_allowed ` {s \<in> set xs. effective n s \<and> \<not> effective old s \<and> s \<in> set oA \<union> set oD} \<union>
           allowed_to_denied ` {s \<in> set xs. effective old s \<and> \<not> effective n s \<and> s \<in> set nD}"
proof (induction xs arbitrary: d)
  case Nil
  { case 1 then show ?case by simp next
    case 2 then show ?case by simp next
    case 3 then show ?case by simp }
next
  case (Cons x xs)
  note step = materiality_step_sets [OF refl assms]
  { case 1 then show ?case by (simp add: Cons.IH(1) step) blast next
    case 2 then show ?case by (simp add: Cons.IH(2) step) blast next
    case 3 then show ?case by (simp add: Cons.IH(3) step) blast }
qed

abbreviation session_delta :: "scope_set \<Rightarrow> scope_set \<Rightarrow> policy_delta" where
  "session_delta old n \<equiv> mc_delta (checkMateriality old n)"

lemma effective_set_of [simp]:
  "effective \<lparr>allow = set_of (allow ss), deny = set_of (deny ss)\<rparr> = effective ss"
  by (auto simp: effective_def)

lemma session_delta_sets:
  "set (d_added (session_delta old n)) =
     {s. effective n s \<and> \<not> effective old s \<and> s \<notin> set (allow old) \<union> set (deny old)}"
  "set (d_removed (session_delta old n)) =
     {s. effective old s \<and> \<not> effective n s \<and> s \<notin> set (deny n)}"
  "set (d_changed (session_delta old n)) =
     denied_to_allowed ` {s. effective n s \<and> \<not> effective old s \<and> s \<in> set (allow old) \<union> set (deny old)} \<union>
     allowed_to_denied ` {s. effective old s \<and> \<not> effective n s \<and> s \<in> set (deny n)}"
  by (auto simp: checkMateriality_def Let_def materiality_fold_sets [OF refl refl] effective_def)

interpretation session: exact_delta_contract session_delta
  by unfold_locales (auto simp: session_delta_sets)

lemma checkMateriality_isMaterial:
  "mc_isMaterial (checkMateriality old n) = isMaterialChange (OneDelta (session_delta old n))"
  by (simp add: checkMateriality_def Let_def isMaterialChange_One)

lemma checkMateriality_reauth:
  "mc_requiresReauthorization (checkMateriality old n) =
     requiresReauthorization (OneDelta (session_delta old n))"
  by (simp add: checkMateriality_def Let_def requiresReauthorization_One filter_empty_conv)

subsection \<open>Property\<close>

text \<open>C8: The check of a scope change is exact for the permissions that result. The change is
  reported as material exactly when some scope's effective permission differs, a reason is given
  exactly then, and reauthorization is required exactly when some scope becomes permitted that
  was not.\<close>

theorem materiality_exact:
  "mc_isMaterial (checkMateriality old n) =
     (set (resolveScopeSet old) \<noteq> set (resolveScopeSet n)) \<and>
   (mc_reason (checkMateriality old n) = None) = (set (resolveScopeSet old) = set (resolveScopeSet n)) \<and>
   mc_requiresReauthorization (checkMateriality old n) =
     (\<not> set (resolveScopeSet n) \<subseteq> set (resolveScopeSet old))"
proof -
  have sets: "set (resolveScopeSet ss) = {s. effective ss s}" for ss
    using resolved_effective by blast
  have m: "mc_isMaterial (checkMateriality old n) \<longleftrightarrow> set (resolveScopeSet old) \<noteq> set (resolveScopeSet n)"
    unfolding checkMateriality_isMaterial session.material_iff_differ sets by auto
  have "mc_reason (checkMateriality old n) = None \<longleftrightarrow> \<not> mc_isMaterial (checkMateriality old n)"
    by (simp add: checkMateriality_def Let_def)
  moreover have "mc_requiresReauthorization (checkMateriality old n) \<longleftrightarrow>
      \<not> set (resolveScopeSet n) \<subseteq> set (resolveScopeSet old)"
    unfolding checkMateriality_reauth session.reauth_iff_gain sets by auto
  ultimately show ?thesis using m by simp
qed

end
