(* ===== verification/Projection.thy ===== *)
theory Projection
  imports Scopes
begin

text \<open>
  The policy package's gate between the raw message stream and a harness
  (\<^verbatim>\<open>packages/policy/src\<close>): the content type allowlist, the four-stage projection
  pipeline, the validators of outbound actions, and the scope guard. A \<open>ReadonlySet<string>\<close>
  that is only asked for membership is a list here.
\<close>

subsection \<open>Content type allowlist\<close>

record content_type_config =
  ctc_allowlist :: "string list"

definition resolveEffectiveAllowlist ::
  "string list \<Rightarrow> content_type_config \<Rightarrow> string list \<Rightarrow> (string list, signet_error) result" where
  "resolveEffectiveAllowlist baseline signetConfig agentAllowlist =
     (let baselineSet = set_of baseline;
          eff = foldl (\<lambda>acc ct. if ct \<in> set baselineSet \<and> ct \<in> set (ctc_allowlist signetConfig)
                                then set_add acc ct else acc) [] agentAllowlist
      in if length eff = 0
         then Err (ValidationError_create ''contentTypes''
                (''Effective content type allowlist is empty: no types are permitted ''
                 @ ''across baseline, signet, and agent allowlists'') [])
         else Ok eff)"

subsection \<open>Messages, events and visibility\<close>

datatype message_visibility = MV_visible | MV_historical | MV_hidden | MV_revealed | MV_redacted

record raw_message =
  rm_messageId :: string
  rm_groupId :: string
  rm_senderInboxId :: string
  rm_contentType :: string
  rm_content :: js_value
  rm_sentAt :: string
  rm_threadId :: "string option"
  rm_sealId :: "string option"
  rm_isHistorical :: "bool option"

record message_event =
  me_messageId :: string
  me_groupId :: string
  me_senderInboxId :: string
  me_contentType :: string
  me_content :: js_value
  me_visibility :: message_visibility
  me_sentAt :: string
  me_sealId :: "string option"
  me_threadId :: "string option"

datatype projection_result = Emit message_event | Drop

subsection \<open>The four stages\<close>

definition isInScope :: "string \<Rightarrow> string list \<Rightarrow> bool" where
  "isInScope groupId chatIds \<longleftrightarrow> groupId \<in> set chatIds"

definition isContentTypeAllowed :: "string \<Rightarrow> string list \<Rightarrow> bool" where
  "isContentTypeAllowed contentType allowlist \<longleftrightarrow> contentType \<in> set allowlist"

definition resolveVisibility :: "string list \<Rightarrow> bool \<Rightarrow> message_visibility" where
  "resolveVisibility scopes isRevealed =
     (if ''read-messages'' \<in> set scopes then MV_visible
      else if isRevealed then MV_revealed else MV_hidden)"

fun projectContent :: "js_value \<Rightarrow> string \<Rightarrow> message_visibility \<Rightarrow> js_value" where
  "projectContent content ct MV_visible = content"
| "projectContent content ct MV_historical = content"
| "projectContent content ct MV_revealed = content"
| "projectContent content ct MV_redacted = VNull"
| "projectContent content ct MV_hidden = VNull"

definition projectMessage ::
  "raw_message \<Rightarrow> string list \<Rightarrow> string list \<Rightarrow> string list \<Rightarrow> bool \<Rightarrow> projection_result" where
  "projectMessage message scopes chatIds effectiveAllowlist isRevealed =
     (if \<not> isInScope (rm_groupId message) chatIds then Drop
      else if \<not> isContentTypeAllowed (rm_contentType message) effectiveAllowlist then Drop
      else
        let baseVisibility = resolveVisibility scopes isRevealed
        in if baseVisibility = MV_hidden then Drop
           else if rm_isHistorical message = Some True \<and> ''read-history'' \<notin> set scopes then Drop
           else
             let visibility = (if rm_isHistorical message = Some True \<and> baseVisibility = MV_visible
                               then MV_historical else baseVisibility);
                 content = projectContent (rm_content message) (rm_contentType message) visibility
             in Emit \<lparr>me_messageId = rm_messageId message, me_groupId = rm_groupId message,
                      me_senderInboxId = rm_senderInboxId message,
                      me_contentType = rm_contentType message, me_content = content,
                      me_visibility = visibility, me_sentAt = rm_sentAt message,
                      me_sealId = rm_sealId message, me_threadId = rm_threadId message\<rparr>)"

subsection \<open>Validators of outbound actions\<close>

definition checkChatInScope :: "string \<Rightarrow> string list \<Rightarrow> (unit, signet_error) result" where
  "checkChatInScope chatId chatIds =
     (if chatId \<notin> set chatIds
      then Err (PermissionError_create
             (''Chat '' @ quoted chatId @ '' is not in the credential''
               @ [CHR 0x27] @ ''s scoped conversations'')
             (Some [(''chatId'', VStr chatId)]))
      else Ok ())"

definition permission_denied :: "string \<Rightarrow> signet_error" where
  "permission_denied scope =
     PermissionError_create (''Permission denied: '' @ scope) (Some [(''scope'', VStr scope)])"

record send_validation =
  draftOnly :: bool

definition validateSendMessage ::
  "string \<Rightarrow> string list \<Rightarrow> string list \<Rightarrow> (send_validation, signet_error) result" where
  "validateSendMessage groupId scopes chatIds =
     (case checkChatInScope groupId chatIds of
        Err e \<Rightarrow> Err e
      | Ok _ \<Rightarrow>
          if ''send'' \<notin> set scopes then Err (permission_denied ''send'')
          else Ok \<lparr>draftOnly = False\<rparr>)"

definition validateSendReply :: "string \<Rightarrow> string list \<Rightarrow> string list \<Rightarrow> (unit, signet_error) result" where
  "validateSendReply groupId scopes chatIds =
     (case checkChatInScope groupId chatIds of
        Err e \<Rightarrow> Err e
      | Ok _ \<Rightarrow> if ''reply'' \<notin> set scopes then Err (permission_denied ''reply'') else Ok ())"

definition validateSendReaction :: "string \<Rightarrow> string list \<Rightarrow> string list \<Rightarrow> (unit, signet_error) result" where
  "validateSendReaction groupId scopes chatIds =
     (case checkChatInScope groupId chatIds of
        Err e \<Rightarrow> Err e
      | Ok _ \<Rightarrow> if ''react'' \<notin> set scopes then Err (permission_denied ''react'') else Ok ())"

definition validateGroupManagement ::
  "string \<Rightarrow> string \<Rightarrow> string list \<Rightarrow> string list \<Rightarrow> (unit, signet_error) result" where
  "validateGroupManagement scope groupId scopes chatIds =
     (case checkChatInScope groupId chatIds of
        Err e \<Rightarrow> Err e
      | Ok _ \<Rightarrow> if scope \<notin> set scopes then Err (permission_denied scope) else Ok ())"

definition validateEgress :: "string \<Rightarrow> string list \<Rightarrow> (unit, signet_error) result" where
  "validateEgress scope scopes = (if scope \<notin> set scopes then Err (permission_denied scope) else Ok ())"

subsection \<open>Scope guard\<close>

type_synonym credential_scope_lookup = "string \<Rightarrow> (scope_set, signet_error) result"

definition guard_check ::
  "credential_scope_lookup \<Rightarrow> permission_scope \<Rightarrow> string \<Rightarrow> (bool, signet_error) result" where
  "guard_check lookup scope credentialId =
     (case lookup credentialId of
        Err e \<Rightarrow> Err e
      | Ok scopes \<Rightarrow> let resolved = resolveScopeSet scopes in Ok (scope \<in> set resolved))"

definition guard_effectiveScopes ::
  "credential_scope_lookup \<Rightarrow> string \<Rightarrow> (scope_set, signet_error) result" where
  "guard_effectiveScopes lookup credentialId = lookup credentialId"

subsection \<open>Facts\<close>

lemma checkChatInScope_Ok: "isOk (checkChatInScope c cs) \<longleftrightarrow> c \<in> set cs"
  by (simp add: checkChatInScope_def)

lemma checkChatInScope_cases:
  "checkChatInScope c cs = (if c \<in> set cs then Ok () else
     Err (PermissionError_create (''Chat '' @ quoted c @ '' is not in the credential''
          @ [CHR 0x27] @ ''s scoped conversations'') (Some [(''chatId'', VStr c)])))"
  by (simp add: checkChatInScope_def)

lemmas validators =
  validateSendMessage_def validateSendReply_def validateSendReaction_def
  validateGroupManagement_def validateEgress_def checkChatInScope_cases permission_denied_def

lemma allowlist_fold:
  "set (foldl (\<lambda>acc ct. if P ct then set_add acc ct else acc) acc xs) = set acc \<union> {x \<in> set xs. P x}"
  by (induction xs arbitrary: acc) auto

lemma allowlist_fold_distinct:
  "distinct acc \<Longrightarrow> distinct (foldl (\<lambda>acc ct. if P ct then set_add acc ct else acc) acc xs)"
  by (induction xs arbitrary: acc) auto

text \<open>What a projected event may show: the message's own fields, and the content unchanged.\<close>

definition shows_message :: "raw_message \<Rightarrow> message_event \<Rightarrow> bool" where
  "shows_message m e \<longleftrightarrow>
     me_messageId e = rm_messageId m \<and> me_groupId e = rm_groupId m \<and>
     me_senderInboxId e = rm_senderInboxId m \<and> me_contentType e = rm_contentType m \<and>
     me_content e = rm_content m \<and> me_sentAt e = rm_sentAt m \<and>
     me_sealId e = rm_sealId m \<and> me_threadId e = rm_threadId m"

text \<open>Whether a message may reach the harness at all.\<close>

definition may_surface :: "raw_message \<Rightarrow> string list \<Rightarrow> string list \<Rightarrow> string list \<Rightarrow> bool \<Rightarrow> bool" where
  "may_surface m scopes chatIds allowl isRevealed \<longleftrightarrow>
     rm_groupId m \<in> set chatIds \<and> rm_contentType m \<in> set allowl \<and>
     (''read-messages'' \<in> set scopes \<or> isRevealed) \<and>
     (if rm_isHistorical m = Some True then ''read-history'' \<in> set scopes else True)"

lemma projectMessage_Emit:
  "projectMessage m scopes chatIds allowl isRevealed = Emit e \<longleftrightarrow>
     may_surface m scopes chatIds allowl isRevealed \<and> shows_message m e \<and>
     me_visibility e = (if ''read-messages'' \<in> set scopes
                        then if rm_isHistorical m = Some True then MV_historical else MV_visible
                        else MV_revealed)"
  by (auto simp: projectMessage_def may_surface_def shows_message_def isInScope_def
      isContentTypeAllowed_def resolveVisibility_def Let_def intro!: message_event.equality)

lemma projection_cases:
  "case projectMessage m scopes chatIds allowl isRevealed of
     Emit e \<Rightarrow> may_surface m scopes chatIds allowl isRevealed \<and> shows_message m e \<and>
        me_visibility e = (if ''read-messages'' \<in> set scopes
                           then if rm_isHistorical m = Some True then MV_historical else MV_visible
                           else MV_revealed)
   | Drop \<Rightarrow> \<not> may_surface m scopes chatIds allowl isRevealed"
proof (cases "projectMessage m scopes chatIds allowl isRevealed")
  case (Emit e)
  from Emit [unfolded projectMessage_Emit] show ?thesis unfolding Emit by simp
next
  case Drop
  then show ?thesis
    by (auto simp: projectMessage_def may_surface_def isInScope_def isContentTypeAllowed_def
        resolveVisibility_def Let_def split: if_splits)
qed

subsection \<open>Properties\<close>

text \<open>The effective allowlist is exactly the intersection of the three lists, without
  duplicates; the empty intersection, and only that, is refused with a validation error.\<close>

theorem effective_allowlist_exact:
  "case resolveEffectiveAllowlist baseline cfg agent of
     Ok eff \<Rightarrow> eff \<noteq> [] \<and> distinct eff \<and>
        set eff = set baseline \<inter> set (ctc_allowlist cfg) \<inter> set agent
   | Err e \<Rightarrow> set baseline \<inter> set (ctc_allowlist cfg) \<inter> set agent = {} \<and>
        err_tag e = Tag_ValidationError"
proof -
  define P where "P = (\<lambda>ct. ct \<in> set baseline \<and> ct \<in> set (ctc_allowlist cfg))"
  define eff where "eff = foldl (\<lambda>acc ct. if P ct then set_add acc ct else acc) [] agent"
  have "set eff = set baseline \<inter> set (ctc_allowlist cfg) \<inter> set agent"
    by (auto simp: eff_def allowlist_fold P_def)
  moreover have "distinct eff" by (simp add: eff_def allowlist_fold_distinct)
  moreover have "resolveEffectiveAllowlist baseline cfg agent =
      (if eff = [] then Err (ValidationError_create ''contentTypes''
                (''Effective content type allowlist is empty: no types are permitted ''
                 @ ''across baseline, signet, and agent allowlists'') []) else Ok eff)"
    by (simp add: resolveEffectiveAllowlist_def eff_def P_def Let_def)
  ultimately show ?thesis by auto
qed


text \<open>Every outbound validator answers Ok exactly when the chat is one of the credential's
  chats (egress has no chat) and the named scope is held; otherwise it answers a permission
  error, the chat being checked first.\<close>

theorem validators_exact:
  "isOk (validateSendMessage g scopes chats) = (g \<in> set chats \<and> ''send'' \<in> set scopes)
   \<and> isOk (validateSendReply g scopes chats) = (g \<in> set chats \<and> ''reply'' \<in> set scopes)
   \<and> isOk (validateSendReaction g scopes chats) = (g \<in> set chats \<and> ''react'' \<in> set scopes)
   \<and> isOk (validateGroupManagement s g scopes chats) = (g \<in> set chats \<and> s \<in> set scopes)
   \<and> isOk (validateEgress s scopes) = (s \<in> set scopes)
   \<and> (case validateGroupManagement s g scopes chats of
        Ok _ \<Rightarrow> True
      | Err e \<Rightarrow> err_tag e = Tag_PermissionError \<and>
          err_context e = Some (if g \<in> set chats then [(''scope'', VStr s)] else [(''chatId'', VStr g)]))"
  by (simp add: validators) (simp add: PermissionError_create_def)

text \<open>The scope guard grants a scope exactly when the looked-up credential allows it and does
  not deny it, and passes a failed lookup on.\<close>

theorem guard_deny_wins:
  "guard_check lookup s cid =
     (case lookup cid of Err e \<Rightarrow> Err e
      | Ok ss \<Rightarrow> Ok (s \<in> set (allow ss) \<and> s \<notin> set (deny ss)))"
  by (simp add: guard_check_def split: result.split)

end
