(* ===== verification/Expiry.thy ===== *)
theory Expiry
  imports Errors
begin

text \<open>
  Collections whose items expire, as an interface: the reveal store of the policy package and
  the pending-action store of the sessions package both sweep out the items that a given
  instant finds expired. The locale says what a sweep promises and derives how sweeps compose.
\<close>

locale expiring_collection =
  fixes ok :: "'s \<Rightarrow> bool"
    and items :: "'s \<Rightarrow> 'i list"
    and expired :: "int \<Rightarrow> 'i \<Rightarrow> bool"
    and sweep :: "int \<Rightarrow> 's \<Rightarrow> 's"
  assumes ok_sweep: "ok s \<Longrightarrow> ok (sweep now s)"
    and items_sweep: "ok s \<Longrightarrow> items (sweep now s) = filter (\<lambda>i. \<not> expired now i) (items s)"
    and expired_mono: "now \<le> later \<Longrightarrow> expired now i \<Longrightarrow> expired later i"
begin

lemma sweep_none_expired: "ok s \<Longrightarrow> i \<in> set (items (sweep now s)) \<Longrightarrow> \<not> expired now i"
  by (simp add: items_sweep)

lemma sweep_idem: "ok s \<Longrightarrow> items (sweep now (sweep now s)) = items (sweep now s)"
  by (simp add: items_sweep ok_sweep)

lemma sweep_later:
  "ok s \<Longrightarrow> now \<le> later \<Longrightarrow> items (sweep later (sweep now s)) = items (sweep later s)"
  using expired_mono by (auto simp: items_sweep ok_sweep intro: filter_cong)

lemma sweep_keeps:
  "ok s \<Longrightarrow> i \<in> set (items s) \<Longrightarrow> \<not> expired now i \<Longrightarrow> i \<in> set (items (sweep now s))"
  by (simp add: items_sweep)

lemma live_after_sweep:
  "ok s \<Longrightarrow> now \<le> later \<Longrightarrow>
     (\<exists>i \<in> set (items (sweep now s)). \<not> expired later i \<and> P i) \<longleftrightarrow>
     (\<exists>i \<in> set (items s). \<not> expired later i \<and> P i)"
  using expired_mono by (auto simp: items_sweep)

end

text \<open>\<open>new Date(s).getTime() <= now\<close>, with NaN (no instant) comparing false.\<close>

definition date_passed :: "(string \<Rightarrow> int option) \<Rightarrow> string \<Rightarrow> int \<Rightarrow> bool" where
  "date_passed parse_date s now = (case parse_date s of None \<Rightarrow> False | Some t \<Rightarrow> t \<le> now)"

lemma date_passed_mono: "now \<le> later \<Longrightarrow> date_passed pd s now \<Longrightarrow> date_passed pd s later"
  by (auto simp: date_passed_def split: option.splits)

text \<open>
  A concrete parser for witnesses: the decimal digits of a number of milliseconds, which
  stands in for the date formats of the engine.
\<close>

fun digits_value :: "string \<Rightarrow> int \<Rightarrow> int option" where
  "digits_value [] acc = Some acc"
| "digits_value (c # cs) acc =
     (if of_char c \<in> {48 .. 57 :: nat} then digits_value cs (10 * acc + int (of_char c - 48)) else None)"

definition decimal_date :: "string \<Rightarrow> int option" where
  "decimal_date s = (if s = [] then None else digits_value s 0)"

end
