(* ===== verification/RevealState.thy ===== *)
theory RevealState
  imports Projection Expiry
begin

text \<open>
  The reveal state store of a credential (\<^verbatim>\<open>packages/policy/src/reveal-state.ts\<close>), with the
  reveal types of \<^verbatim>\<open>packages/schemas/src/reveal.ts\<close>. The clock reading of \<open>isRevealed\<close> and
  the engine's date parser are arguments; expiry dates are text, as the requests carry them.
\<close>

datatype reveal_scope = RS_message | RS_thread | RS_time_window | RS_content_type | RS_sender

record reveal_request =
  rq_revealId :: string
  rq_groupId :: string
  rq_scope :: reveal_scope
  rq_targetId :: string
  rq_requestedBy :: string
  rq_expiresAt :: "string option"

record reveal_access =
  ra_revealId :: string
  ra_grantedAt :: int
  ra_grantedBy :: string
  ra_expiresAt :: "string option"

record reveal_entry =
  re_access :: reveal_access
  re_request :: reveal_request

text \<open>The store's state is its array of entries.\<close>

type_synonym reveal_store = "reveal_entry list"

definition createRevealStateStore :: reveal_store where
  "createRevealStateStore = []"

definition reveal_record :: "reveal_store \<Rightarrow> reveal_access \<Rightarrow> reveal_request \<Rightarrow> reveal_store" where
  "reveal_record entries reveal request = entries @ [\<lparr>re_access = reveal, re_request = request\<rparr>]"

definition entry_expired :: "(string \<Rightarrow> int option) \<Rightarrow> int \<Rightarrow> reveal_entry \<Rightarrow> bool" where
  "entry_expired pd now entry =
     (case ra_expiresAt (re_access entry) of None \<Rightarrow> False | Some s \<Rightarrow> date_passed pd s now)"

record reveal_query =
  q_messageId :: string
  q_groupId :: string
  q_threadId :: "string option"
  q_senderInboxId :: string
  q_contentType :: string
  q_sentAt :: string

text \<open>\<open>targetId\<close> of a time window is \<open>start|end\<close>; the first bar splits it.\<close>

definition time_window_covers :: "(string \<Rightarrow> int option) \<Rightarrow> string \<Rightarrow> string \<Rightarrow> bool" where
  "time_window_covers pd targetId sentAt =
     (case find_index (\<lambda>c. c = CHR ''|'') targetId of
        None \<Rightarrow> False
      | Some pipeIdx \<Rightarrow>
          (case (pd (take pipeIdx targetId), pd (drop (pipeIdx + 1) targetId)) of
             (Some windowStart, Some windowEnd) \<Rightarrow>
               (case pd sentAt of
                  None \<Rightarrow> False
                | Some sentAtMs \<Rightarrow> windowStart \<le> sentAtMs \<and> sentAtMs \<le> windowEnd)
           | _ \<Rightarrow> False))"

definition entry_covers :: "(string \<Rightarrow> int option) \<Rightarrow> reveal_entry \<Rightarrow> reveal_query \<Rightarrow> bool" where
  "entry_covers pd entry q =
     (let r = re_request entry
      in if rq_groupId r \<noteq> q_groupId q then False
         else case rq_scope r of
             RS_message \<Rightarrow> rq_targetId r = q_messageId q
           | RS_thread \<Rightarrow> Some (rq_targetId r) = q_threadId q
           | RS_sender \<Rightarrow> rq_targetId r = q_senderInboxId q
           | RS_content_type \<Rightarrow> rq_targetId r = q_contentType q
           | RS_time_window \<Rightarrow> time_window_covers pd (rq_targetId r) (q_sentAt q))"

definition isRevealed :: "(string \<Rightarrow> int option) \<Rightarrow> int \<Rightarrow> reveal_store \<Rightarrow> reveal_query \<Rightarrow> bool" where
  "isRevealed pd now entries q =
     list_ex (\<lambda>entry. if entry_expired pd now entry then False else entry_covers pd entry q) entries"

text \<open>The sweep walks the array from its last index down, splicing expired entries out.\<close>

fun expireStale_loop ::
  "(string \<Rightarrow> int option) \<Rightarrow> int \<Rightarrow> nat \<Rightarrow> reveal_store \<Rightarrow> nat \<Rightarrow> reveal_store \<times> nat" where
  "expireStale_loop pd nowMs 0 entries removed = (entries, removed)"
| "expireStale_loop pd nowMs (Suc i) entries removed =
     (if i < length entries \<and> entry_expired pd nowMs (entries ! i)
      then expireStale_loop pd nowMs i (take i entries @ drop (Suc i) entries) (removed + 1)
      else expireStale_loop pd nowMs i entries removed)"

definition reveal_expireStale ::
  "(string \<Rightarrow> int option) \<Rightarrow> int \<Rightarrow> reveal_store \<Rightarrow> reveal_store \<times> nat" where
  "reveal_expireStale pd now entries = expireStale_loop pd now (length entries) entries 0"

definition reveal_snapshot :: "reveal_store \<Rightarrow> reveal_entry list" where
  "reveal_snapshot entries = map (\<lambda>e. \<lparr>re_access = re_access e, re_request = re_request e\<rparr>) entries"

definition reveal_restore :: "reveal_store \<Rightarrow> reveal_entry list \<Rightarrow> reveal_store" where
  "reveal_restore entries state =
     foldl (\<lambda>es entry. es @ [\<lparr>re_access = re_access entry, re_request = re_request entry\<rparr>]) [] state"

subsection \<open>The contract of a reveal store\<close>

text \<open>
  What the credential manager and the projector rely on: recording only adds visibility,
  restoring a snapshot restores visibility, and the empty snapshot reveals nothing.
\<close>

locale reveal_contract =
  fixes rec :: "'s \<Rightarrow> reveal_access \<Rightarrow> reveal_request \<Rightarrow> 's"
    and revealed :: "int \<Rightarrow> 's \<Rightarrow> reveal_query \<Rightarrow> bool"
    and snap :: "'s \<Rightarrow> reveal_entry list"
    and restore :: "'s \<Rightarrow> reveal_entry list \<Rightarrow> 's"
  assumes rec_mono: "revealed now s q \<Longrightarrow> revealed now (rec s a r) q"
    and rec_other_group: "rq_groupId r \<noteq> q_groupId q \<Longrightarrow> revealed now (rec s a r) q = revealed now s q"
    and restore_snap: "revealed now (restore s (snap t)) q = revealed now t q"
    and restore_nothing: "\<not> revealed now (restore s []) q"
begin

text \<open>A cleaned store forgets everything, whatever was recorded before.\<close>

lemma cleanup_hides: "\<not> revealed now (restore (rec s a r) []) q"
  by (rule restore_nothing)

lemma rec_only_its_group:
  "\<not> revealed now s q \<Longrightarrow> revealed now (rec s a r) q \<Longrightarrow> rq_groupId r = q_groupId q"
  using rec_other_group by blast

end

subsection \<open>Facts\<close>

lemma reveal_entry_copy: "\<lparr>re_access = re_access e, re_request = re_request e\<rparr> = e"
  by (cases e) simp

lemma reveal_restore_eq [simp]: "reveal_restore es st = st"
proof -
  have "foldl (\<lambda>es entry. es @ [\<lparr>re_access = re_access entry, re_request = re_request entry\<rparr>]) a st = a @ st" for a
    by (induction st arbitrary: a) (simp_all add: reveal_entry_copy)
  then show ?thesis by (simp add: reveal_restore_def)
qed

lemma reveal_snapshot_eq [simp]: "reveal_snapshot es = es"
  by (simp add: reveal_snapshot_def map_idI reveal_entry_copy)

lemma isRevealed_iff:
  "isRevealed pd now es q \<longleftrightarrow> (\<exists>e \<in> set es. \<not> entry_expired pd now e \<and> entry_covers pd e q)"
  by (auto simp: isRevealed_def list_ex_iff)

lemma entry_covers_group: "entry_covers pd e q \<Longrightarrow> rq_groupId (re_request e) = q_groupId q"
  by (simp add: entry_covers_def Let_def split: if_splits)

lemma entry_expired_mono: "now \<le> later \<Longrightarrow> entry_expired pd now e \<Longrightarrow> entry_expired pd later e"
  by (auto simp: entry_expired_def split: option.splits intro: date_passed_mono)

interpretation rev: reveal_contract reveal_record "isRevealed pd" reveal_snapshot reveal_restore
  by unfold_locales (auto simp: isRevealed_iff reveal_record_def dest: entry_covers_group)

text \<open>The backwards splicing loop is a filter; its count is the number of entries dropped.\<close>

lemma expireStale_loop_eq:
  "i \<le> length es \<Longrightarrow>
   expireStale_loop pd now i es r =
     (filter (\<lambda>e. \<not> entry_expired pd now e) (take i es) @ drop i es,
      r + length (filter (entry_expired pd now) (take i es)))"
proof (induction i arbitrary: es r)
  case 0
  then show ?case by simp
next
  case (Suc i)
  then have i: "i < length es" by simp
  then have tk: "take (Suc i) es = take i es @ [es ! i]" by (rule take_Suc_conv_app_nth)
  show ?case
  proof (cases "entry_expired pd now (es ! i)")
    case True
    then show ?thesis using Suc.IH [of "take i es @ drop (Suc i) es" "r + 1"] i tk by simp
  next
    case False
    then show ?thesis using Suc.IH [of es r] i tk by (simp add: Cons_nth_drop_Suc [symmetric])
  qed
qed

lemma reveal_expireStale_eq:
  "reveal_expireStale pd now es =
     (filter (\<lambda>e. \<not> entry_expired pd now e) es, length (filter (entry_expired pd now) es))"
  by (simp add: reveal_expireStale_def expireStale_loop_eq)

interpretation revx: expiring_collection "\<lambda>_. True" "\<lambda>es. es" "entry_expired pd"
    "\<lambda>now es. fst (reveal_expireStale pd now es)"
  by unfold_locales (auto simp: reveal_expireStale_eq intro: entry_expired_mono)

subsection \<open>Properties\<close>

text \<open>The sweep of stale reveals keeps exactly the entries that have not expired, in order,
  and reports how many it removed.\<close>

theorem expireStale_exact:
  "reveal_expireStale pd now es =
     (filter (\<lambda>e. \<not> entry_expired pd now e) es,
      length es - length (filter (\<lambda>e. \<not> entry_expired pd now e) es))"
  using sum_length_filter_compl [of "entry_expired pd now" es] by (simp add: reveal_expireStale_eq)

text \<open>Sweeping stale reveals never changes what is revealed from then on: an expired entry
  already revealed nothing, and a live one is kept.\<close>

theorem sweep_preserves_revealed:
  assumes "now \<le> later"
  shows "isRevealed pd later (fst (reveal_expireStale pd now es)) q = isRevealed pd later es q"
  unfolding isRevealed_iff using revx.live_after_sweep [OF TrueI assms] .

theorem sweep_preserves_revealed_witness:
  "isRevealed decimal_date 7
     (fst (reveal_expireStale decimal_date 5
        [\<lparr>re_access = \<lparr>ra_revealId = ''r1'', ra_grantedAt = 0, ra_grantedBy = ''a'', ra_expiresAt = Some ''5''\<rparr>,
          re_request = \<lparr>rq_revealId = ''r1'', rq_groupId = ''g'', rq_scope = RS_message, rq_targetId = ''m'',
                        rq_requestedBy = ''a'', rq_expiresAt = Some ''5''\<rparr>\<rparr>,
         \<lparr>re_access = \<lparr>ra_revealId = ''r2'', ra_grantedAt = 0, ra_grantedBy = ''a'', ra_expiresAt = None\<rparr>,
          re_request = \<lparr>rq_revealId = ''r2'', rq_groupId = ''g'', rq_scope = RS_time_window, rq_targetId = ''3|9'',
                        rq_requestedBy = ''a'', rq_expiresAt = None\<rparr>\<rparr>]))
     \<lparr>q_messageId = ''m'', q_groupId = ''g'', q_threadId = None, q_senderInboxId = ''s'',
      q_contentType = ''t'', q_sentAt = ''4''\<rparr>"
  by (subst sweep_preserves_revealed)
    (simp_all add: isRevealed_def entry_expired_def entry_covers_def time_window_covers_def
      decimal_date_def date_passed_def Let_def)

end
