(* ===== verification/CredentialManager.thy ===== *)
theory CredentialManager
  imports CredentialTypes PolicyHash Materiality RevealState
begin

text \<open>
  The in-memory credential manager (\<^verbatim>\<open>packages/sessions/src/credential-manager.ts\<close>) and the
  tokens it hands out (\<^verbatim>\<open>packages/sessions/src/token.ts\<close>). The four maps of the closure are
  the fields of the state; the two optional callbacks are logs in it (what they were called
  with, in order). The clock and the random bytes are arguments. The maps \<open>byToken\<close> and
  \<open>byOperator\<close> are indexes over \<open>byId\<close>; the invariant below says so.
\<close>

subsection \<open>Tokens\<close>

definition base64url_char :: "nat \<Rightarrow> char" where
  "base64url_char n = ''ABCDEFGHIJKLMNOPQRSTUVWXYZabcdefghijklmnopqrstuvwxyz0123456789-_'' ! n"

fun base64UrlEncode :: "8 word list \<Rightarrow> string" where
  "base64UrlEncode [] = []"
| "base64UrlEncode [a] =
     [base64url_char (unat a div 4), base64url_char (unat a mod 4 * 16)]"
| "base64UrlEncode [a, b] =
     [base64url_char (unat a div 4), base64url_char (unat a mod 4 * 16 + unat b div 16),
      base64url_char (unat b mod 16 * 4)]"
| "base64UrlEncode (a # b # c # rest) =
     [base64url_char (unat a div 4), base64url_char (unat a mod 4 * 16 + unat b div 16),
      base64url_char (unat b mod 16 * 4 + unat c div 64), base64url_char (unat c mod 64)]
     @ base64UrlEncode rest"

definition generateToken :: "8 word list \<Rightarrow> string" where
  "generateToken bytes = base64UrlEncode bytes"

definition generateCredentialId :: "8 word list \<Rightarrow> string" where
  "generateCredentialId bytes = createResourceId RT_credential bytes"

definition fingerprintToken :: "(string \<Rightarrow> 8 word list) \<Rightarrow> string \<Rightarrow> string" where
  "fingerprintToken sha256 token = ''sha256:'' @ hex_text (sha256 token)"

subsection \<open>Configuration, records and state\<close>

record credential_manager_config =
  defaultTtlSeconds :: int
  maxConcurrentPerOperator :: int
  tokenByteLength :: nat
  renewalWindowSeconds :: int
  heartbeatGracePeriod :: int

definition CM_DEFAULT_CONFIG :: credential_manager_config where
  "CM_DEFAULT_CONFIG =
     \<lparr>defaultTtlSeconds = 3600, maxConcurrentPerOperator = 3, tokenByteLength = 32,
      renewalWindowSeconds = 300, heartbeatGracePeriod = 3\<rparr>"

record internal_credential =
  ic_credentialId :: string
  ic_tok :: string
  ic_operatorId :: string
  ic_chatIds :: "string list"
  ic_effectiveScopes :: scope_set
  ic_resolvedScopes :: "permission_scope list"
  ic_policyHash :: string
  ic_status :: credential_status
  ic_heartbeatInterval :: int
  ic_lastHeartbeat :: int
  ic_issuedAt :: int
  ic_expiresAt :: int
  ic_issuedBy :: string
  ic_ttlMs :: int
  ic_revokedAt :: "int option"
  ic_revocationReason :: "credential_revocation_reason option"

record cm_state =
  byId :: "(string, internal_credential) js_map"
  byToken :: "(string, string) js_map"
  byOperator :: "(string, string list) js_map"
  revealStates :: "(string, reveal_store) js_map"
  mutatedLog :: "string list"
  revokedLog :: "internal_credential list"

definition createCredentialManager :: cm_state where
  "createCredentialManager =
     \<lparr>byId = [], byToken = [], byOperator = [], revealStates = [], mutatedLog = [], revokedLog = []\<rparr>"

definition upsertRecord :: "cm_state \<Rightarrow> internal_credential \<Rightarrow> cm_state" where
  "upsertRecord st rec =
     (let operatorCreds = nullish (map_get (byOperator st) (ic_operatorId rec)) []
      in st\<lparr>byId := map_set (byId st) (ic_credentialId rec) rec,
            byToken := map_set (byToken st) (ic_tok rec) (ic_credentialId rec),
            byOperator := map_set (byOperator st) (ic_operatorId rec)
                            (set_add operatorCreds (ic_credentialId rec))\<rparr>)"

text \<open>The partial record of \<open>mutateRecord\<close>; the nullable fields may be set to null.\<close>

record credential_updates =
  u_credentialId :: "string option"
  u_token :: "string option"
  u_operatorId :: "string option"
  u_chatIds :: "string list option"
  u_effectiveScopes :: "scope_set option"
  u_resolvedScopes :: "permission_scope list option"
  u_policyHash :: "string option"
  u_status :: "credential_status option"
  u_heartbeatInterval :: "int option"
  u_lastHeartbeat :: "int option"
  u_issuedAt :: "int option"
  u_expiresAt :: "int option"
  u_issuedBy :: "string option"
  u_ttlMs :: "int option"
  u_revokedAt :: "int option option"
  u_revocationReason :: "credential_revocation_reason option option"

definition no_updates :: credential_updates where
  "no_updates =
     \<lparr>u_credentialId = None, u_token = None, u_operatorId = None, u_chatIds = None,
      u_effectiveScopes = None, u_resolvedScopes = None, u_policyHash = None, u_status = None,
      u_heartbeatInterval = None, u_lastHeartbeat = None, u_issuedAt = None, u_expiresAt = None,
      u_issuedBy = None, u_ttlMs = None, u_revokedAt = None, u_revocationReason = None\<rparr>"

definition updated_record :: "internal_credential \<Rightarrow> credential_updates \<Rightarrow> internal_credential" where
  "updated_record existing updates =
     \<lparr>ic_credentialId = nullish (u_credentialId updates) (ic_credentialId existing),
      ic_tok = nullish (u_token updates) (ic_tok existing),
      ic_operatorId = nullish (u_operatorId updates) (ic_operatorId existing),
      ic_chatIds = nullish (u_chatIds updates) (ic_chatIds existing),
      ic_effectiveScopes = nullish (u_effectiveScopes updates) (ic_effectiveScopes existing),
      ic_resolvedScopes = nullish (u_resolvedScopes updates) (ic_resolvedScopes existing),
      ic_policyHash = nullish (u_policyHash updates) (ic_policyHash existing),
      ic_status = nullish (u_status updates) (ic_status existing),
      ic_heartbeatInterval = nullish (u_heartbeatInterval updates) (ic_heartbeatInterval existing),
      ic_lastHeartbeat = nullish (u_lastHeartbeat updates) (ic_lastHeartbeat existing),
      ic_issuedAt = nullish (u_issuedAt updates) (ic_issuedAt existing),
      ic_expiresAt = nullish (u_expiresAt updates) (ic_expiresAt existing),
      ic_issuedBy = nullish (u_issuedBy updates) (ic_issuedBy existing),
      ic_ttlMs = nullish (u_ttlMs updates) (ic_ttlMs existing),
      ic_revokedAt = nullish (u_revokedAt updates) (ic_revokedAt existing),
      ic_revocationReason = nullish (u_revocationReason updates) (ic_revocationReason existing)\<rparr>"

definition policyChanged :: "credential_updates \<Rightarrow> bool" where
  "policyChanged updates \<longleftrightarrow>
     u_effectiveScopes updates \<noteq> None \<or> u_status updates \<noteq> None \<or>
     u_revokedAt updates \<noteq> None \<or> u_policyHash updates \<noteq> None"

definition mutateRecord ::
  "cm_state \<Rightarrow> string \<Rightarrow> credential_updates \<Rightarrow> (internal_credential, signet_error) result \<times> cm_state" where
  "mutateRecord st credentialId updates =
     (case map_get (byId st) credentialId of
        None \<Rightarrow> (Err (InternalError_create (''Credential '' @ credentialId @ '' not found in store'') None), st)
      | Some existing \<Rightarrow>
          let updated = updated_record existing updates;
              st' = st\<lparr>byId := map_set (byId st) credentialId updated\<rparr>
          in (Ok updated,
              if policyChanged updates then st'\<lparr>mutatedLog := mutatedLog st' @ [credentialId]\<rparr> else st'))"

definition getActiveForOperator :: "cm_state \<Rightarrow> string \<Rightarrow> internal_credential list" where
  "getActiveForOperator st operatorId =
     (case map_get (byOperator st) operatorId of
        None \<Rightarrow> []
      | Some ids \<Rightarrow>
          foldl (\<lambda>active cid.
                   case map_get (byId st) cid of
                     None \<Rightarrow> active
                   | Some rec \<Rightarrow> if ic_status rec = CS_active then active @ [rec] else active)
            [] ids)"

definition cleanupRevealState :: "cm_state \<Rightarrow> string \<Rightarrow> cm_state" where
  "cleanupRevealState st credentialId =
     (case map_get (revealStates st) credentialId of
        None \<Rightarrow> st
      | Some store \<Rightarrow> st\<lparr>revealStates := map_set (revealStates st) credentialId (reveal_restore store [])\<rparr>)"

definition revokeRecord ::
  "int \<Rightarrow> cm_state \<Rightarrow> string \<Rightarrow> credential_revocation_reason
   \<Rightarrow> (internal_credential, signet_error) result \<times> cm_state" where
  "revokeRecord now st credentialId reason =
     (let st1 = cleanupRevealState st credentialId;
          (result, st2) = mutateRecord st1 credentialId
             (no_updates\<lparr>u_status := Some CS_revoked, u_revokedAt := Some (Some now),
                         u_revocationReason := Some (Some reason)\<rparr>)
      in (result,
          case result of
            Ok rec \<Rightarrow> st2\<lparr>revokedLog := revokedLog st2 @ [rec]\<rparr>
          | Err _ \<Rightarrow> st2))"

definition buildScopeSet :: "credential_config \<Rightarrow> scope_set" where
  "buildScopeSet cfg = \<lparr>allow = nullish (cc_allow cfg) [], deny = nullish (cc_deny cfg) []\<rparr>"

subsection \<open>Operations\<close>

record cm_env =
  ce_engine :: hash_engine
  ce_config :: credential_manager_config

record issue_options =
  io_credentialId :: "string option"
  io_issuedBy :: "string option"

text \<open>When the operator is at its limit, the oldest active credential is revoked first.\<close>

definition evict_oldest ::
  "cm_env \<Rightarrow> int \<Rightarrow> cm_state \<Rightarrow> string \<Rightarrow> (unit, signet_error) result \<times> cm_state" where
  "evict_oldest env now st operatorId =
     (let activeCredentials = getActiveForOperator st operatorId
      in if int (length activeCredentials) \<ge> maxConcurrentPerOperator (ce_config env)
         then case sort_key ic_issuedAt activeCredentials of
                [] \<Rightarrow> (Ok (), st)
              | oldest # _ \<Rightarrow>
                  (case revokeRecord now st (ic_credentialId oldest) CR_policy_violation of
                     (Ok _, st') \<Rightarrow> (Ok (), st')
                   | (Err e, st') \<Rightarrow> (Err e, st'))
         else (Ok (), st))"

definition issueCredential ::
  "cm_env \<Rightarrow> int \<Rightarrow> 8 word list \<Rightarrow> 8 word list \<Rightarrow> cm_state \<Rightarrow> credential_config \<Rightarrow> issue_options
   \<Rightarrow> (internal_credential, signet_error) result \<times> cm_state" where
  "issueCredential env now idBytes tokenBytes st cfg opts =
     (let scopes = buildScopeSet cfg;
          hash = computePolicyHash (ce_engine env) scopes (Some (cc_chatIds cfg));
          (evicted, st1) = evict_oldest env now st (cc_operatorId cfg)
      in case evicted of
           Err e \<Rightarrow> (Err e, st1)
         | Ok _ \<Rightarrow>
             let currentActive = getActiveForOperator st1 (cc_operatorId cfg)
             in case List.find (\<lambda>c. ic_policyHash c = hash) currentActive of
                  Some existing \<Rightarrow> (Ok existing, st1)
                | None \<Rightarrow>
                    let ttl = nullish (cc_ttlSeconds cfg) (defaultTtlSeconds (ce_config env));
                        ttlMs = ttl * 1000;
                        rec = \<lparr>ic_credentialId = nullish (io_credentialId opts) (generateCredentialId idBytes),
                               ic_tok = generateToken tokenBytes,
                               ic_operatorId = cc_operatorId cfg,
                               ic_chatIds = cc_chatIds cfg,
                               ic_effectiveScopes = scopes,
                               ic_resolvedScopes = resolveScopeSet scopes,
                               ic_policyHash = hash,
                               ic_status = CS_active,
                               ic_heartbeatInterval = 30,
                               ic_lastHeartbeat = now,
                               ic_issuedAt = now,
                               ic_expiresAt = now + ttlMs,
                               ic_issuedBy = nullish (io_issuedBy opts) ''owner'',
                               ic_ttlMs = ttlMs,
                               ic_revokedAt = None,
                               ic_revocationReason = None\<rparr>
                    in (Ok rec, upsertRecord st1 rec))"

definition getCredentialByToken ::
  "int \<Rightarrow> cm_state \<Rightarrow> string \<Rightarrow> (internal_credential, signet_error) result \<times> cm_state" where
  "getCredentialByToken now st token =
     (case map_get (byToken st) token of
        None \<Rightarrow> (Err (NotFoundError_create ''credential'' token), st)
      | Some credentialId \<Rightarrow>
          if credentialId = [] then (Err (NotFoundError_create ''credential'' token), st)
          else
            (case map_get (byId st) credentialId of
               None \<Rightarrow> (Err (NotFoundError_create ''credential'' token), st)
             | Some rec \<Rightarrow>
                 if now \<ge> ic_expiresAt rec
                 then (Err (CredentialExpiredError_create credentialId),
                       snd (mutateRecord st credentialId (no_updates\<lparr>u_status := Some CS_expired\<rparr>)))
                 else if ic_status rec \<noteq> CS_active
                 then (Err (CredentialExpiredError_create credentialId), st)
                 else (Ok rec, st)))"

definition lookupByToken ::
  "int \<Rightarrow> cm_state \<Rightarrow> string \<Rightarrow> (internal_credential, signet_error) result \<times> cm_state" where
  "lookupByToken now st token = getCredentialByToken now st token"

definition getCredentialById :: "cm_state \<Rightarrow> string \<Rightarrow> (internal_credential, signet_error) result" where
  "getCredentialById st credentialId =
     (case map_get (byId st) credentialId of
        None \<Rightarrow> Err (NotFoundError_create ''credential'' credentialId)
      | Some rec \<Rightarrow> Ok rec)"

definition getActiveCredentials :: "cm_state \<Rightarrow> string \<Rightarrow> internal_credential list" where
  "getActiveCredentials st operatorId = getActiveForOperator st operatorId"

definition listCredentials :: "cm_state \<Rightarrow> string option \<Rightarrow> internal_credential list" where
  "listCredentials st operatorId =
     (case operatorId of
        Some oid \<Rightarrow> getActiveForOperator st oid
      | None \<Rightarrow>
          foldl (\<lambda>active rec. if ic_status rec = CS_active then active @ [rec] else active)
            [] (map_values (byId st)))"

text \<open>
  The guard shared by the operations on an active credential is written out in each of them, as
  the source does; \<open>mutateRecord\<close> cannot fail after it, and its error is mapped to not-found.
\<close>

definition recordHeartbeat :: "int \<Rightarrow> cm_state \<Rightarrow> string \<Rightarrow> (unit, signet_error) result \<times> cm_state" where
  "recordHeartbeat now st credentialId =
     (case map_get (byId st) credentialId of
        None \<Rightarrow> (Err (NotFoundError_create ''credential'' credentialId), st)
      | Some rec \<Rightarrow>
          if ic_status rec \<noteq> CS_active then (Err (CredentialExpiredError_create credentialId), st)
          else case mutateRecord st credentialId (no_updates\<lparr>u_lastHeartbeat := Some now\<rparr>) of
                 (Err _, st') \<Rightarrow> (Err (NotFoundError_create ''credential'' credentialId), st')
               | (Ok _, st') \<Rightarrow> (Ok (), st'))"

definition renewCredential ::
  "cm_env \<Rightarrow> int \<Rightarrow> cm_state \<Rightarrow> string \<Rightarrow> (internal_credential, signet_error) result \<times> cm_state" where
  "renewCredential env now st credentialId =
     (case map_get (byId st) credentialId of
        None \<Rightarrow> (Err (NotFoundError_create ''credential'' credentialId), st)
      | Some rec \<Rightarrow>
          if ic_status rec \<noteq> CS_active then (Err (CredentialExpiredError_create credentialId), st)
          else
            let remaining = of_int (ic_expiresAt rec - now) / (1000 :: rat)
            in if remaining > of_int (renewalWindowSeconds (ce_config env))
               then (Err (AuthError_create ''Not in renewal window''
                       (Some [(''credentialId'', VStr credentialId), (''remainingSeconds'', VNum remaining),
                              (''renewalWindowSeconds'', VNum (of_int (renewalWindowSeconds (ce_config env))))])), st)
               else case mutateRecord st credentialId (no_updates\<lparr>u_expiresAt := Some (now + ic_ttlMs rec)\<rparr>) of
                      (Err _, st') \<Rightarrow> (Err (NotFoundError_create ''credential'' credentialId), st')
                    | (Ok updated, st') \<Rightarrow> (Ok updated, st'))"

definition updateCredentialScopes ::
  "cm_env \<Rightarrow> cm_state \<Rightarrow> string \<Rightarrow> scope_set \<Rightarrow> (internal_credential, signet_error) result \<times> cm_state" where
  "updateCredentialScopes env st credentialId scopes =
     (case map_get (byId st) credentialId of
        None \<Rightarrow> (Err (NotFoundError_create ''credential'' credentialId), st)
      | Some rec \<Rightarrow>
          if ic_status rec \<noteq> CS_active then (Err (CredentialExpiredError_create credentialId), st)
          else
            let hash = computePolicyHash (ce_engine env) scopes (Some (ic_chatIds rec));
                resolved = resolveScopeSet scopes
            in case mutateRecord st credentialId
                      (no_updates\<lparr>u_effectiveScopes := Some scopes, u_resolvedScopes := Some resolved,
                                  u_policyHash := Some hash\<rparr>) of
                 (Err _, st') \<Rightarrow> (Err (NotFoundError_create ''credential'' credentialId), st')
               | (Ok updated, st') \<Rightarrow> (Ok updated, st'))"

definition revokeCredential ::
  "int \<Rightarrow> cm_state \<Rightarrow> string \<Rightarrow> credential_revocation_reason
   \<Rightarrow> (internal_credential, signet_error) result \<times> cm_state" where
  "revokeCredential now st credentialId reason =
     (case map_get (byId st) credentialId of
        None \<Rightarrow> (Err (NotFoundError_create ''credential'' credentialId), st)
      | Some _ \<Rightarrow>
          (case revokeRecord now st credentialId reason of
             (Err _, st') \<Rightarrow> (Err (NotFoundError_create ''credential'' credentialId), st')
           | (Ok revoked, st') \<Rightarrow> (Ok revoked, st')))"

definition revokeAll_round ::
  "int \<Rightarrow> credential_revocation_reason \<Rightarrow> internal_credential list \<times> cm_state \<Rightarrow> internal_credential
   \<Rightarrow> internal_credential list \<times> cm_state" where
  "revokeAll_round now reason acc cred =
     (let (revoked, st) = acc
      in case revokeRecord now st (ic_credentialId cred) reason of
           (Ok r, st') \<Rightarrow> (revoked @ [r], st')
         | (Err _, st') \<Rightarrow> (revoked, st'))"

definition revokeAllCredentials ::
  "int \<Rightarrow> cm_state \<Rightarrow> string \<Rightarrow> credential_revocation_reason \<Rightarrow> internal_credential list \<times> cm_state" where
  "revokeAllCredentials now st operatorId reason =
     foldl (revokeAll_round now reason) ([], st) (getActiveForOperator st operatorId)"

definition getRevealState :: "cm_state \<Rightarrow> string \<Rightarrow> (reveal_store, signet_error) result \<times> cm_state" where
  "getRevealState st credentialId =
     (case map_get (byId st) credentialId of
        None \<Rightarrow> (Err (NotFoundError_create ''credential'' credentialId), st)
      | Some _ \<Rightarrow>
          (case map_get (revealStates st) credentialId of
             Some store \<Rightarrow> (Ok store, st)
           | None \<Rightarrow>
               let store = createRevealStateStore
               in (Ok store, st\<lparr>revealStates := map_set (revealStates st) credentialId store\<rparr>)))"

definition setCredentialStatus ::
  "cm_state \<Rightarrow> string \<Rightarrow> credential_status \<Rightarrow> (internal_credential, signet_error) result \<times> cm_state" where
  "setCredentialStatus st credentialId status =
     (case map_get (byId st) credentialId of
        None \<Rightarrow> (Err (NotFoundError_create ''credential'' credentialId), st)
      | Some _ \<Rightarrow>
          (case mutateRecord st credentialId (no_updates\<lparr>u_status := Some status\<rparr>) of
             (Err _, st') \<Rightarrow> (Err (NotFoundError_create ''credential'' credentialId), st')
           | (Ok updated, st') \<Rightarrow> (Ok updated, st')))"

definition cm_checkMateriality ::
  "cm_state \<Rightarrow> string \<Rightarrow> scope_set \<Rightarrow> (detailed_materiality_check, signet_error) result" where
  "cm_checkMateriality st credentialId newScopes =
     (case map_get (byId st) credentialId of
        None \<Rightarrow> Err (NotFoundError_create ''credential'' credentialId)
      | Some rec \<Rightarrow> Ok (checkMateriality (ic_effectiveScopes rec) newScopes))"

definition heartbeat_deadline :: "cm_env \<Rightarrow> internal_credential \<Rightarrow> int" where
  "heartbeat_deadline env rec =
     ic_lastHeartbeat rec + ic_heartbeatInterval rec * 1000 + heartbeatGracePeriod (ce_config env) * 1000"

definition isHeartbeatStale :: "cm_env \<Rightarrow> int \<Rightarrow> cm_state \<Rightarrow> string \<Rightarrow> (bool, signet_error) result" where
  "isHeartbeatStale env now st credentialId =
     (case map_get (byId st) credentialId of
        None \<Rightarrow> Err (NotFoundError_create ''credential'' credentialId)
      | Some rec \<Rightarrow>
          if ic_status rec \<noteq> CS_active then Ok False else Ok (now \<ge> heartbeat_deadline env rec))"

text \<open>
  One round of the sweep looks at one credential. The loop visits the keys of \<open>byId\<close> in order
  and reads each record when it gets there; the rounds only ever replace records in place, so
  no key is added or removed under the iteration.
\<close>

definition sweep_record ::
  "cm_env \<Rightarrow> int \<Rightarrow> internal_credential list \<times> cm_state \<Rightarrow> string \<Rightarrow> internal_credential list \<times> cm_state" where
  "sweep_record env currentTime acc cid =
     (let (swept, st) = acc
      in case map_get (byId st) cid of
           None \<Rightarrow> (swept, st)
         | Some rec \<Rightarrow>
             if ic_status rec \<noteq> CS_active then (swept, st)
             else if currentTime \<ge> ic_expiresAt rec
             then (case mutateRecord (cleanupRevealState st (ic_credentialId rec)) (ic_credentialId rec)
                          (no_updates\<lparr>u_status := Some CS_expired\<rparr>) of
                     (Ok r, st') \<Rightarrow> (swept @ [r], st')
                   | (Err _, st') \<Rightarrow> (swept, st'))
             else if currentTime \<ge> heartbeat_deadline env rec
             then (case revokeRecord currentTime st (ic_credentialId rec) CR_heartbeat_timeout of
                     (Ok r, st') \<Rightarrow> (swept @ [r], st')
                   | (Err _, st') \<Rightarrow> (swept, st'))
             else (swept, st))"

definition sweepExpired :: "cm_env \<Rightarrow> int \<Rightarrow> cm_state \<Rightarrow> internal_credential list \<times> cm_state" where
  "sweepExpired env currentTime st = foldl (sweep_record env currentTime) ([], st) (map_keys (byId st))"

end
