(* ===== verification/CredentialInvariant.thy ===== *)
theory CredentialInvariant
  imports CredentialManager
begin

text \<open>
  The invariant of the credential manager, its preservation by every operation, and the
  properties of issuing, token lookup, revocation and the sweep.
\<close>

subsection \<open>The invariant\<close>

text \<open>
  A record is filed under its own nonempty identifier, its resolved scopes and its policy hash
  are the ones of its scopes and chats, and a revoked one says when.
\<close>

definition credential_ok :: "cm_env \<Rightarrow> string \<Rightarrow> internal_credential \<Rightarrow> bool" where
  "credential_ok env k rec \<longleftrightarrow>
     ic_credentialId rec = k \<and> k \<noteq> [] \<and>
     ic_resolvedScopes rec = resolveScopeSet (ic_effectiveScopes rec) \<and>
     ic_policyHash rec = computePolicyHash (ce_engine env) (ic_effectiveScopes rec) (Some (ic_chatIds rec)) \<and>
     (case ic_status rec of CS_revoked \<Rightarrow> ic_revokedAt rec \<noteq> None | _ \<Rightarrow> True)"

text \<open>\<open>byToken\<close> and \<open>byOperator\<close> index exactly the records of \<open>byId\<close>.\<close>

definition cm_indexed :: "cm_state \<Rightarrow> string \<Rightarrow> internal_credential \<Rightarrow> bool" where
  "cm_indexed st k rec \<longleftrightarrow>
     map_get (byToken st) (ic_tok rec) = Some k \<and>
     k \<in> set (nullish (map_get (byOperator st) (ic_operatorId rec)) [])"

definition cm_inv :: "cm_env \<Rightarrow> cm_state \<Rightarrow> bool" where
  "cm_inv env st \<longleftrightarrow>
     map_wf (byId st) \<and> map_wf (byToken st) \<and> map_wf (byOperator st) \<and> map_wf (revealStates st) \<and>
     list_all (\<lambda>(k, rec). credential_ok env k rec \<and> cm_indexed st k rec) (byId st) \<and>
     list_all (\<lambda>(t, k). case map_get (byId st) k of None \<Rightarrow> False | Some rec \<Rightarrow> ic_tok rec = t) (byToken st) \<and>
     list_all (\<lambda>(oid, ids). distinct ids \<and>
        list_all (\<lambda>k. case map_get (byId st) k of None \<Rightarrow> False | Some rec \<Rightarrow> ic_operatorId rec = oid) ids)
       (byOperator st)"

lemma cm_inv_iff:
  "cm_inv env st \<longleftrightarrow>
     map_wf (byId st) \<and> map_wf (byToken st) \<and> map_wf (byOperator st) \<and> map_wf (revealStates st) \<and>
     (\<forall>k rec. map_get (byId st) k = Some rec \<longrightarrow> credential_ok env k rec \<and> cm_indexed st k rec) \<and>
     (\<forall>t k. map_get (byToken st) t = Some k \<longrightarrow> (\<exists>rec. map_get (byId st) k = Some rec \<and> ic_tok rec = t)) \<and>
     (\<forall>oid ids. map_get (byOperator st) oid = Some ids \<longrightarrow> distinct ids \<and>
        (\<forall>k \<in> set ids. \<exists>rec. map_get (byId st) k = Some rec \<and> ic_operatorId rec = oid))"
  unfolding cm_inv_def case_option_ex
  by (cases "map_wf (byId st)"; cases "map_wf (byToken st)"; cases "map_wf (byOperator st)";
      simp add: list_all_entries) (auto simp: list_all_iff)

lemma cm_inv_init: "cm_inv env createCredentialManager"
  by (simp add: cm_inv_def createCredentialManager_def)

lemma cm_inv_logs [simp]:
  "cm_inv env (st\<lparr>mutatedLog := l\<rparr>) = cm_inv env st"
  "cm_inv env (st\<lparr>revokedLog := rl\<rparr>) = cm_inv env st"
  by (simp_all add: cm_inv_def cm_indexed_def)

lemma cm_inv_reveal: "cm_inv env st \<Longrightarrow> map_wf rs \<Longrightarrow> cm_inv env (st\<lparr>revealStates := rs\<rparr>)"
  by (simp add: cm_inv_def cm_indexed_def)

text \<open>The parts of the invariant, for use one at a time.\<close>

lemma cm_inv_wf:
  "cm_inv env st \<Longrightarrow> map_wf (byId st)" "cm_inv env st \<Longrightarrow> map_wf (byToken st)"
  "cm_inv env st \<Longrightarrow> map_wf (byOperator st)" "cm_inv env st \<Longrightarrow> map_wf (revealStates st)"
  by (simp_all add: cm_inv_def)

lemma cm_inv_ok: "cm_inv env st \<Longrightarrow> map_get (byId st) k = Some rec \<Longrightarrow> credential_ok env k rec"
  by (simp add: cm_inv_iff)

lemma cm_inv_token: "cm_inv env st \<Longrightarrow> map_get (byId st) k = Some rec \<Longrightarrow> map_get (byToken st) (ic_tok rec) = Some k"
  by (simp add: cm_inv_iff cm_indexed_def)

lemma cm_inv_operator:
  "cm_inv env st \<Longrightarrow> map_get (byId st) k = Some rec \<Longrightarrow>
     k \<in> set (nullish (map_get (byOperator st) (ic_operatorId rec)) [])"
  by (simp add: cm_inv_iff cm_indexed_def)

lemma cm_inv_token_back:
  "cm_inv env st \<Longrightarrow> map_get (byToken st) t = Some k \<Longrightarrow> \<exists>rec. map_get (byId st) k = Some rec \<and> ic_tok rec = t"
  by (simp add: cm_inv_iff)

lemma cm_inv_operator_back:
  "cm_inv env st \<Longrightarrow> map_get (byOperator st) oid = Some ids \<Longrightarrow>
     distinct ids \<and> (\<forall>k \<in> set ids. \<exists>rec. map_get (byId st) k = Some rec \<and> ic_operatorId rec = oid)"
  by (simp add: cm_inv_iff)

lemma cm_inv_replace:
  assumes inv: "cm_inv env st" and k: "map_get (byId st) k = Some rec"
    and ok: "credential_ok env k rec'" and tok: "ic_tok rec' = ic_tok rec"
    and oper: "ic_operatorId rec' = ic_operatorId rec"
  shows "cm_inv env (st\<lparr>byId := map_set (byId st) k rec'\<rparr>)"
proof -
  let ?st = "st\<lparr>byId := map_set (byId st) k rec'\<rparr>"
  have "credential_ok env j r \<and> cm_indexed ?st j r" if "map_get (byId ?st) j = Some r" for j r
    using that cm_inv_ok [OF inv] cm_inv_token [OF inv] cm_inv_operator [OF inv] k ok tok oper
    by (auto simp: cm_indexed_def split: if_splits)
  moreover have "\<exists>r. map_get (byId ?st) j = Some r \<and> ic_tok r = t" if "map_get (byToken ?st) t = Some j" for t j
    using cm_inv_token_back [OF inv, of t j] that k tok by auto
  moreover have "distinct ids \<and> (\<forall>j \<in> set ids. \<exists>r. map_get (byId ?st) j = Some r \<and> ic_operatorId r = oid)"
    if "map_get (byOperator ?st) oid = Some ids" for oid ids
    using cm_inv_operator_back [OF inv, of oid ids] that k oper by auto
  ultimately show ?thesis
    using cm_inv_wf [OF inv] unfolding cm_inv_iff by simp
qed

lemma cm_inv_upsert:
  assumes inv: "cm_inv env st" and ok: "credential_ok env (ic_credentialId rec) rec"
    and fresh: "map_get (byId st) (ic_credentialId rec) = None" "map_get (byToken st) (ic_tok rec) = None"
  shows "cm_inv env (upsertRecord st rec)"
proof -
  let ?st = "upsertRecord st rec"
  have tokens: "map_get (byId st) j = Some r \<Longrightarrow> ic_tok r \<noteq> ic_tok rec" for j r
    using cm_inv_token [OF inv, of j r] fresh by auto
  have "credential_ok env j r \<and> cm_indexed ?st j r" if "map_get (byId ?st) j = Some r" for j r
    using that cm_inv_ok [OF inv] cm_inv_token [OF inv] cm_inv_operator [OF inv, of j r] ok tokens
    by (auto simp: cm_indexed_def upsertRecord_def Let_def split: if_splits)
  moreover have "\<exists>r. map_get (byId ?st) j = Some r \<and> ic_tok r = t" if "map_get (byToken ?st) t = Some j" for t j
    using cm_inv_token_back [OF inv, of t j] that fresh
    by (auto simp: upsertRecord_def Let_def split: if_splits)
  moreover have "distinct ids \<and> (\<forall>j \<in> set ids. \<exists>r. map_get (byId ?st) j = Some r \<and> ic_operatorId r = oid)"
    if "map_get (byOperator ?st) oid = Some ids" for oid ids
    using cm_inv_operator_back [OF inv] that fresh
    by (cases "map_get (byOperator st) (ic_operatorId rec)")
      (fastforce simp: upsertRecord_def Let_def set_add_def split: if_splits)+
  ultimately show ?thesis
    using cm_inv_wf [OF inv] unfolding cm_inv_iff by (simp add: upsertRecord_def Let_def)
qed

subsection \<open>What mutation and revocation do\<close>

lemma updated_record_simps [simp]:
  "updated_record r (no_updates\<lparr>u_status := Some s\<rparr>) = r\<lparr>ic_status := s\<rparr>"
  "updated_record r (no_updates\<lparr>u_lastHeartbeat := Some t\<rparr>) = r\<lparr>ic_lastHeartbeat := t\<rparr>"
  "updated_record r (no_updates\<lparr>u_expiresAt := Some t\<rparr>) = r\<lparr>ic_expiresAt := t\<rparr>"
  "updated_record r (no_updates\<lparr>u_effectiveScopes := Some sc, u_resolvedScopes := Some rs, u_policyHash := Some h\<rparr>) =
     r\<lparr>ic_effectiveScopes := sc, ic_resolvedScopes := rs, ic_policyHash := h\<rparr>"
  "updated_record r (no_updates\<lparr>u_status := Some s, u_revokedAt := Some a, u_revocationReason := Some b\<rparr>) =
     r\<lparr>ic_status := s, ic_revokedAt := a, ic_revocationReason := b\<rparr>"
  by (cases r, simp add: updated_record_def no_updates_def)+

lemma policyChanged_simps [simp]:
  "policyChanged (no_updates\<lparr>u_status := Some s\<rparr>)"
  "\<not> policyChanged (no_updates\<lparr>u_lastHeartbeat := Some t\<rparr>)"
  "\<not> policyChanged (no_updates\<lparr>u_expiresAt := Some t\<rparr>)"
  "policyChanged (no_updates\<lparr>u_effectiveScopes := Some sc, u_resolvedScopes := Some rs, u_policyHash := Some h\<rparr>)"
  "policyChanged (no_updates\<lparr>u_status := Some s, u_revokedAt := Some a, u_revocationReason := Some b\<rparr>)"
  by (simp_all add: policyChanged_def no_updates_def)

lemma cleanup_same [simp]:
  "byId (cleanupRevealState st k) = byId st" "byToken (cleanupRevealState st k) = byToken st"
  "byOperator (cleanupRevealState st k) = byOperator st"
  "mutatedLog (cleanupRevealState st k) = mutatedLog st" "revokedLog (cleanupRevealState st k) = revokedLog st"
  by (simp_all add: cleanupRevealState_def split: option.split)

lemma cleanup_reveals:
  "map_get (revealStates (cleanupRevealState st k)) j =
     (if j = k then map_option (\<lambda>_. []) (map_get (revealStates st) k) else map_get (revealStates st) j)"
  by (auto simp: cleanupRevealState_def split: option.split)

lemma cm_inv_cleanup [simp]: "cm_inv env st \<Longrightarrow> cm_inv env (cleanupRevealState st k)"
  by (auto simp: cleanupRevealState_def cm_inv_wf intro!: cm_inv_reveal split: option.split)

lemma mutateRecord_Some:
  "map_get (byId st) k = Some r \<Longrightarrow>
     mutateRecord st k u =
       (Ok (updated_record r u),
        st\<lparr>byId := map_set (byId st) k (updated_record r u),
           mutatedLog := mutatedLog st @ (if policyChanged u then [k] else [])\<rparr>)"
  by (simp add: mutateRecord_def Let_def)

definition revoked_record :: "int \<Rightarrow> credential_revocation_reason \<Rightarrow> internal_credential \<Rightarrow> internal_credential" where
  "revoked_record now reason r =
     r\<lparr>ic_status := CS_revoked, ic_revokedAt := Some now, ic_revocationReason := Some reason\<rparr>"

lemma revoked_record_sel [simp]:
  "ic_status (revoked_record now reason r) = CS_revoked"
  "ic_credentialId (revoked_record now reason r) = ic_credentialId r"
  "ic_tok (revoked_record now reason r) = ic_tok r"
  "ic_operatorId (revoked_record now reason r) = ic_operatorId r"
  "credential_ok env k (revoked_record now reason r) = (credential_ok env k (r\<lparr>ic_status := CS_expired\<rparr>))"
  by (simp_all add: revoked_record_def credential_ok_def)

lemma revokeRecord_Some:
  "map_get (byId st) k = Some r \<Longrightarrow>
     revokeRecord now st k reason =
       (Ok (revoked_record now reason r),
        (cleanupRevealState st k)
          \<lparr>byId := map_set (byId st) k (revoked_record now reason r),
           mutatedLog := mutatedLog st @ [k],
           revokedLog := revokedLog st @ [revoked_record now reason r]\<rparr>)"
  by (simp add: revokeRecord_def mutateRecord_Some revoked_record_def)

lemma credential_ok_status:
  "credential_ok env k r \<Longrightarrow> s \<noteq> CS_revoked \<Longrightarrow> credential_ok env k (r\<lparr>ic_status := s\<rparr>)"
  by (cases s) (simp_all add: credential_ok_def)

lemma cm_inv_status:
  "cm_inv env st \<Longrightarrow> map_get (byId st) k = Some r \<Longrightarrow> s \<noteq> CS_revoked \<Longrightarrow>
     credential_ok env k (r\<lparr>ic_status := s\<rparr>)"
  using cm_inv_ok credential_ok_status by blast

lemma cm_inv_mutate:
  assumes "cm_inv env st" and "map_get (byId st) k = Some r"
    and "credential_ok env k (updated_record r u)"
    and "ic_tok (updated_record r u) = ic_tok r" and "ic_operatorId (updated_record r u) = ic_operatorId r"
  shows "cm_inv env (snd (mutateRecord st k u))"
  using cm_inv_replace [OF assms] by (simp add: mutateRecord_Some [OF assms(2)])

lemma cm_inv_revoke:
  assumes "cm_inv env st" shows "cm_inv env (snd (revokeRecord now st k reason))"
proof (cases "map_get (byId st) k")
  case None
  then show ?thesis using assms by (simp add: revokeRecord_def mutateRecord_def)
next
  case (Some r)
  then have "cm_inv env ((cleanupRevealState st k)\<lparr>byId := map_set (byId (cleanupRevealState st k)) k (revoked_record now reason r)\<rparr>)"
    using assms by (intro cm_inv_replace) (auto intro: credential_ok_status cm_inv_ok)
  then show ?thesis by (simp add: revokeRecord_Some [OF Some])
qed

subsection \<open>The active credentials of an operator\<close>

definition active_ids :: "cm_state \<Rightarrow> string \<Rightarrow> string set" where
  "active_ids st oid =
     {k. case map_get (byId st) k of None \<Rightarrow> False
         | Some rec \<Rightarrow> ic_status rec = CS_active \<and> ic_operatorId rec = oid}"

lemma active_fold:
  "foldl (\<lambda>active cid. case f cid of None \<Rightarrow> active
            | Some rec \<Rightarrow> if P rec then active @ [rec] else active) acc ids =
   acc @ filter P (List.map_filter f ids)"
  by (induction ids arbitrary: acc) (simp_all add: map_filter_simps split: option.split)

lemma getActiveForOperator_eq:
  "getActiveForOperator st oid =
     filter (\<lambda>rec. ic_status rec = CS_active)
       (List.map_filter (map_get (byId st)) (nullish (map_get (byOperator st) oid) []))"
  by (simp add: getActiveForOperator_def active_fold map_filter_simps nullish_def split: option.split)

lemma set_getActive:
  assumes "cm_inv env st"
  shows "set (getActiveForOperator st oid) =
    {r. map_get (byId st) (ic_credentialId r) = Some r \<and> ic_status r = CS_active \<and> ic_operatorId r = oid}"
proof (intro set_eqI iffI)
  fix r assume "r \<in> set (getActiveForOperator st oid)"
  then obtain ids k where k: "map_get (byOperator st) oid = Some ids" "k \<in> set ids"
      "map_get (byId st) k = Some r" "ic_status r = CS_active"
    by (cases "map_get (byOperator st) oid") (auto simp: getActiveForOperator_eq map_filter_def)
  then show "r \<in> {r. map_get (byId st) (ic_credentialId r) = Some r \<and> ic_status r = CS_active \<and> ic_operatorId r = oid}"
    using cm_inv_operator_back [OF assms k(1)] cm_inv_ok [OF assms k(3)] by (auto simp: credential_ok_def)
next
  fix r assume r: "r \<in> {r. map_get (byId st) (ic_credentialId r) = Some r \<and> ic_status r = CS_active \<and> ic_operatorId r = oid}"
  then have "ic_credentialId r \<in> set (nullish (map_get (byOperator st) oid) [])"
    using cm_inv_operator [OF assms] by auto
  then show "r \<in> set (getActiveForOperator st oid)"
    using r by (force simp: getActiveForOperator_eq map_filter_def)
qed

lemma ids_getActive:
  assumes "cm_inv env st"
  shows "distinct (map ic_credentialId (getActiveForOperator st oid))"
    and "set (map ic_credentialId (getActiveForOperator st oid)) = active_ids st oid"
proof -
  have "map ic_credentialId (List.map_filter (map_get (byId st)) ids) = ids"
    if "\<forall>k \<in> set ids. \<exists>rec. map_get (byId st) k = Some rec \<and> ic_credentialId rec = k" for ids
    using that by (induction ids) (auto simp: map_filter_simps)
  then have "distinct (map ic_credentialId (List.map_filter (map_get (byId st))
      (nullish (map_get (byOperator st) oid) [])))"
    using cm_inv_operator_back [OF assms, of oid] cm_inv_ok [OF assms]
    by (cases "map_get (byOperator st) oid") (fastforce simp: credential_ok_def map_filter_simps)+
  then show "distinct (map ic_credentialId (getActiveForOperator st oid))"
    unfolding getActiveForOperator_eq by (rule distinct_map_filter)
  have cid: "ic_credentialId rec = k" if "map_get (byId st) k = Some rec" for k rec
    using cm_inv_ok [OF assms that] by (simp add: credential_ok_def)
  have "k \<in> ic_credentialId ` set (getActiveForOperator st oid) \<longleftrightarrow> k \<in> active_ids st oid" for k
    unfolding set_getActive [OF assms] active_ids_def case_option_ex image_iff
    using cid by (auto simp del: split_paired_Ex)
  then show "set (map ic_credentialId (getActiveForOperator st oid)) = active_ids st oid"
    by auto
qed

lemma length_getActive: "cm_inv env st \<Longrightarrow> length (getActiveForOperator st oid) = card (active_ids st oid)"
  using ids_getActive [of env st oid] distinct_card by fastforce

lemma finite_active_ids: "cm_inv env st \<Longrightarrow> finite (active_ids st oid)"
  using ids_getActive(2) [of env st oid] by (metis List.finite_set)

text \<open>An operation that never makes a credential active only shrinks these sets.\<close>

definition no_new_active :: "cm_state \<Rightarrow> cm_state \<Rightarrow> bool" where
  "no_new_active st st' \<longleftrightarrow> (\<forall>oid. active_ids st' oid \<subseteq> active_ids st oid)"

lemma no_new_active_refl [simp]: "no_new_active st st"
  by (simp add: no_new_active_def)

lemma no_new_active_trans: "no_new_active a b \<Longrightarrow> no_new_active b c \<Longrightarrow> no_new_active a c"
  unfolding no_new_active_def by blast

lemma active_ids_cong: "byId st' = byId st \<Longrightarrow> active_ids st' oid = active_ids st oid"
  by (simp add: active_ids_def)

lemma active_ids_replace:
  "byId st' = map_set (byId st) k rec \<Longrightarrow>
     active_ids st' oid = (if ic_status rec = CS_active \<and> ic_operatorId rec = oid
                           then insert k (active_ids st oid) else active_ids st oid - {k})"
  by (auto simp: active_ids_def split: if_splits option.splits)

lemma active_ids_mutate:
  assumes "map_get (byId st) k = Some r"
    and "ic_status (updated_record r u) = CS_active \<Longrightarrow> ic_status r = CS_active"
    and "ic_operatorId (updated_record r u) = ic_operatorId r"
  shows "no_new_active st (snd (mutateRecord st k u))"
  using assms by (auto simp: no_new_active_def mutateRecord_Some active_ids_def split: if_splits option.splits)

lemma active_ids_revoke:
  "active_ids (snd (revokeRecord now st k reason)) oid = active_ids st oid - {k}"
proof (cases "map_get (byId st) k")
  case None
  then show ?thesis by (auto simp: revokeRecord_def mutateRecord_def active_ids_def)
next
  case (Some r)
  then show ?thesis
    by (subst active_ids_replace [where st = st and k = k]) (auto simp: revokeRecord_Some)
qed

lemma no_new_active_revoke: "no_new_active st (snd (revokeRecord now st k reason))"
  by (simp add: no_new_active_def active_ids_revoke)

subsection \<open>Preservation, operation by operation\<close>

definition cm_ok :: "cm_env \<Rightarrow> cm_state \<Rightarrow> cm_state \<Rightarrow> bool" where
  "cm_ok env st st' \<longleftrightarrow> cm_inv env st' \<and> no_new_active st st'"

lemma cm_ok_refl: "cm_inv env st \<Longrightarrow> cm_ok env st st"
  by (simp add: cm_ok_def)

lemma cm_ok_trans: "cm_ok env a b \<Longrightarrow> cm_ok env b c \<Longrightarrow> cm_ok env a c"
  unfolding cm_ok_def using no_new_active_trans by blast

lemma cm_ok_cleanup: "cm_inv env st \<Longrightarrow> cm_ok env st (cleanupRevealState st k)"
  by (simp add: cm_ok_def no_new_active_def active_ids_def)

lemma cm_ok_revoke: "cm_inv env st \<Longrightarrow> cm_ok env st (snd (revokeRecord now st k reason))"
  by (simp add: cm_ok_def cm_inv_revoke no_new_active_revoke)

lemma cm_ok_mutate:
  assumes "cm_inv env st" and "map_get (byId st) k = Some r"
    and "credential_ok env k (updated_record r u)"
    and "ic_tok (updated_record r u) = ic_tok r" and "ic_operatorId (updated_record r u) = ic_operatorId r"
    and "ic_status (updated_record r u) = CS_active \<Longrightarrow> ic_status r = CS_active"
  shows "cm_ok env st (snd (mutateRecord st k u))"
  using cm_inv_mutate [OF assms(1-5)] active_ids_mutate [OF assms(2,6,5)] by (simp add: cm_ok_def)

lemma mutateRecord_fst: "map_get (byId st) k = Some r \<Longrightarrow> fst (mutateRecord st k u) = Ok (updated_record r u)"
  by (simp add: mutateRecord_Some)

lemma pair_result_cases:
  "snd (case p of (Err e, s) \<Rightarrow> (f e, s) | (Ok v, s) \<Rightarrow> (g v, s)) = snd p"
  by (auto split: prod.split result.split)

lemma cm_ok_token: "cm_inv env st \<Longrightarrow> cm_ok env st (snd (getCredentialByToken now st token))"
  by (auto simp: getCredentialByToken_def cm_ok_refl credential_ok_status cm_inv_ok
        intro!: cm_ok_mutate split: option.split)

lemma cm_ok_heartbeat: "cm_inv env st \<Longrightarrow> cm_ok env st (snd (recordHeartbeat now st k))"
  by (auto simp: recordHeartbeat_def pair_result_cases cm_ok_refl credential_ok_def
        dest: cm_inv_ok intro!: cm_ok_mutate split: option.split)

lemma cm_ok_renew: "cm_inv env st \<Longrightarrow> cm_ok env st (snd (renewCredential env now st k))"
  by (auto simp: renewCredential_def Let_def pair_result_cases cm_ok_refl credential_ok_def
        dest: cm_inv_ok intro!: cm_ok_mutate split: option.split)

lemma cm_ok_update: "cm_inv env st \<Longrightarrow> cm_ok env st (snd (updateCredentialScopes env st k sc))"
  by (auto simp: updateCredentialScopes_def Let_def pair_result_cases cm_ok_refl credential_ok_def
        dest: cm_inv_ok intro!: cm_ok_mutate split: option.split)

lemma cm_ok_revokeCredential: "cm_inv env st \<Longrightarrow> cm_ok env st (snd (revokeCredential now st k reason))"
  by (auto simp: revokeCredential_def pair_result_cases cm_ok_refl cm_ok_revoke split: option.split)

lemma cm_ok_setStatus:
  "cm_inv env st \<Longrightarrow> s \<noteq> CS_active \<Longrightarrow> s \<noteq> CS_revoked \<Longrightarrow> cm_ok env st (snd (setCredentialStatus st k s))"
  by (auto simp: setCredentialStatus_def pair_result_cases cm_ok_refl
        intro!: cm_ok_mutate cm_inv_status split: option.split)

lemma cm_ok_revealState: "cm_inv env st \<Longrightarrow> cm_ok env st (snd (getRevealState st k))"
  by (auto simp: getRevealState_def Let_def cm_ok_def no_new_active_def active_ids_def cm_inv_wf
        intro!: cm_inv_reveal split: option.split)

lemma cm_ok_fold:
  assumes "\<And>acc x. cm_inv env (snd acc) \<Longrightarrow> cm_ok env (snd acc) (snd (f acc x))"
  shows "cm_inv env (snd acc) \<Longrightarrow> cm_ok env (snd acc) (snd (foldl f acc xs))"
proof (induction xs arbitrary: acc)
  case Nil
  then show ?case by (simp add: cm_ok_refl)
next
  case (Cons x xs)
  have "cm_ok env (snd acc) (snd (f acc x))" using assms Cons.prems by blast
  moreover then have "cm_ok env (snd (f acc x)) (snd (foldl f (f acc x) xs))"
    using Cons.IH by (simp add: cm_ok_def)
  ultimately show ?case using cm_ok_trans by auto
qed

lemma revokeAll_round_snd:
  "snd (revokeAll_round now reason acc cred) = snd (revokeRecord now (snd acc) (ic_credentialId cred) reason)"
  by (cases acc) (auto simp: revokeAll_round_def split: prod.split result.split)

lemma cm_ok_revokeAll: "cm_inv env st \<Longrightarrow> cm_ok env st (snd (revokeAllCredentials now st oid reason))"
  unfolding revokeAllCredentials_def
  using cm_ok_fold [of env "revokeAll_round now reason" "([], st)"]
  by (simp add: revokeAll_round_snd cm_ok_revoke)

text \<open>One round of the sweep, by what it finds.\<close>

definition sweep_verdict :: "cm_env \<Rightarrow> int \<Rightarrow> internal_credential \<Rightarrow> internal_credential" where
  "sweep_verdict env now r =
     (if ic_status r \<noteq> CS_active then r
      else if now \<ge> ic_expiresAt r then r\<lparr>ic_status := CS_expired\<rparr>
      else if now \<ge> heartbeat_deadline env r then revoked_record now CR_heartbeat_timeout r
      else r)"

definition sweep_due :: "cm_env \<Rightarrow> int \<Rightarrow> internal_credential \<Rightarrow> bool" where
  "sweep_due env now r \<longleftrightarrow>
     ic_status r = CS_active \<and> (now \<ge> ic_expiresAt r \<or> now \<ge> heartbeat_deadline env r)"

lemma sweep_record_None: "map_get (byId (snd acc)) k = None \<Longrightarrow> sweep_record env now acc k = acc"
  by (cases acc) (simp add: sweep_record_def)

lemma sweep_record_idle:
  "map_get (byId (snd acc)) k = Some r \<Longrightarrow> \<not> sweep_due env now r \<Longrightarrow> sweep_record env now acc k = acc"
  by (cases acc) (auto simp: sweep_record_def sweep_due_def)

lemma sweep_record_due:
  assumes "map_get (byId (snd acc)) k = Some r" and "sweep_due env now r" and "ic_credentialId r = k"
  shows "fst (sweep_record env now acc k) = fst acc @ [sweep_verdict env now r] \<and>
    byId (snd (sweep_record env now acc k)) = map_set (byId (snd acc)) k (sweep_verdict env now r) \<and>
    revealStates (snd (sweep_record env now acc k)) = revealStates (cleanupRevealState (snd acc) k)"
  using assms
  by (cases acc) (auto simp: sweep_record_def sweep_due_def sweep_verdict_def mutateRecord_Some revokeRecord_Some)

lemma cm_ok_sweep_record:
  assumes inv: "cm_inv env (snd acc)"
  shows "cm_ok env (snd acc) (snd (sweep_record env now acc k))"
proof (cases "map_get (byId (snd acc)) k")
  case None
  then show ?thesis using inv by (simp add: sweep_record_None cm_ok_refl)
next
  case (Some r)
  obtain sw st where acc: "acc = (sw, st)" by fastforce
  have ok: "credential_ok env k r" and r: "map_get (byId st) k = Some r" and k: "ic_credentialId r = k"
    using cm_inv_ok [OF inv Some] Some acc by (simp_all add: credential_ok_def)
  have "cm_ok env (cleanupRevealState st k)
      (snd (mutateRecord (cleanupRevealState st k) k (no_updates\<lparr>u_status := Some CS_expired\<rparr>)))"
    using inv acc r by (intro cm_ok_mutate) (auto intro!: cm_inv_status)
  then have m: "cm_ok env st (snd (mutateRecord (cleanupRevealState st k) k (no_updates\<lparr>u_status := Some CS_expired\<rparr>)))"
    using cm_ok_cleanup [of env st k] inv acc cm_ok_trans by simp
  have v: "cm_ok env st (snd (revokeRecord now st k CR_heartbeat_timeout))"
    using inv acc by (simp add: cm_ok_revoke)
  show ?thesis
    using m v inv r k by (auto simp: sweep_record_def acc cm_ok_refl split: prod.splits result.splits)
qed

lemma cm_ok_sweep: "cm_inv env st \<Longrightarrow> cm_ok env st (snd (sweepExpired env now st))"
  unfolding sweepExpired_def
  using cm_ok_fold [of env "sweep_record env now" "([], st)"] cm_ok_sweep_record by simp

subsection \<open>Issuing\<close>

definition active_limit :: "cm_env \<Rightarrow> int" where
  "active_limit env = max 1 (maxConcurrentPerOperator (ce_config env))"

definition within_limit :: "cm_env \<Rightarrow> cm_state \<Rightarrow> bool" where
  "within_limit env st \<longleftrightarrow> (\<forall>oid. int (card (active_ids st oid)) \<le> active_limit env)"

lemma within_limit_shrink:
  "cm_inv env st \<Longrightarrow> within_limit env st \<Longrightarrow> no_new_active st st' \<Longrightarrow> within_limit env st'"
  unfolding within_limit_def no_new_active_def
  by (meson card_mono finite_active_ids int_ops(9) of_nat_mono order_trans)

lemma evict_oldest_cases:
  assumes inv: "cm_inv env st"
  obtains "evict_oldest env now st oid = (Ok (), st)"
      "int (card (active_ids st oid)) < maxConcurrentPerOperator (ce_config env) \<or> active_ids st oid = {}"
    | k where "evict_oldest env now st oid = (Ok (), snd (revokeRecord now st k CR_policy_violation))"
      "k \<in> active_ids st oid"
proof (cases "int (length (getActiveForOperator st oid)) \<ge> maxConcurrentPerOperator (ce_config env)")
  case False
  then show ?thesis using that(1) by (simp add: evict_oldest_def length_getActive [OF inv])
next
  case True
  show ?thesis
  proof (cases "sort_key ic_issuedAt (getActiveForOperator st oid)")
    case Nil
    then have "getActiveForOperator st oid = []" by (metis length_0_conv length_sort)
    then have "active_ids st oid = {}" using ids_getActive(2) [OF inv, of oid] by simp
    then show ?thesis using that(1) True Nil by (simp add: evict_oldest_def)
  next
    case (Cons r rs)
    then have mem: "r \<in> set (getActiveForOperator st oid)" by (metis list.set_intros(1) set_sort)
    then have r: "map_get (byId st) (ic_credentialId r) = Some r" by (simp add: set_getActive [OF inv])
    have k: "ic_credentialId r \<in> active_ids st oid" using mem ids_getActive(2) [OF inv, of oid] by auto
    have "evict_oldest env now st oid =
        (Ok (), snd (revokeRecord now st (ic_credentialId r) CR_policy_violation))"
      using True Cons by (simp add: evict_oldest_def Let_def revokeRecord_Some [OF r])
    then show ?thesis using k by (rule that(2))
  qed
qed

lemma evict_oldest_ok:
  assumes "cm_inv env st" shows "cm_ok env st (snd (evict_oldest env now st oid))"
  by (rule evict_oldest_cases [OF assms, of now oid]) (simp_all add: assms cm_ok_refl cm_ok_revoke)

lemma evict_oldest_Ok:
  assumes "cm_inv env st" shows "fst (evict_oldest env now st oid) = Ok ()"
  by (rule evict_oldest_cases [OF assms, of now oid]) simp_all

lemma evict_oldest_room:
  assumes inv: "cm_inv env st" and "within_limit env st"
  shows "int (card (active_ids (snd (evict_oldest env now st oid)) oid)) < active_limit env"
  using inv
proof (cases rule: evict_oldest_cases [where now = now and oid = oid, case_names keep evict])
  case keep
  then show ?thesis by (auto simp: active_limit_def)
next
  case (evict k)
  moreover have "card (active_ids st oid - {k}) < card (active_ids st oid)"
    using evict(2) finite_active_ids [OF inv] by (meson card_Diff1_less)
  moreover have "int (card (active_ids st oid)) \<le> active_limit env"
    using assms(2) by (simp add: within_limit_def)
  ultimately show ?thesis by (simp add: active_ids_revoke)
qed

lemma evict_oldest_dom:
  assumes "cm_inv env st"
  shows "map_get (byId (snd (evict_oldest env now st oid))) j = None \<longleftrightarrow> map_get (byId st) j = None"
    and "byToken (snd (evict_oldest env now st oid)) = byToken st"
  using assms
  by (auto elim!: evict_oldest_cases [where now = now and oid = oid] simp: active_ids_def revokeRecord_Some
      split: option.splits if_splits)

text \<open>The identifier and the token of a new credential have not been used before.\<close>

definition cm_fresh :: "cm_state \<Rightarrow> 8 word list \<Rightarrow> 8 word list \<Rightarrow> issue_options \<Rightarrow> bool" where
  "cm_fresh st idBytes tokenBytes opts \<longleftrightarrow>
     (let cid = nullish (io_credentialId opts) (generateCredentialId idBytes)
      in cid \<noteq> [] \<and> map_get (byId st) cid = None \<and> map_get (byToken st) (generateToken tokenBytes) = None)"

definition new_credential ::
  "cm_env \<Rightarrow> int \<Rightarrow> 8 word list \<Rightarrow> 8 word list \<Rightarrow> credential_config \<Rightarrow> issue_options \<Rightarrow> internal_credential" where
  "new_credential env now idBytes tokenBytes cfg opts =
     (let ttlMs = nullish (cc_ttlSeconds cfg) (defaultTtlSeconds (ce_config env)) * 1000
      in \<lparr>ic_credentialId = nullish (io_credentialId opts) (generateCredentialId idBytes),
          ic_tok = generateToken tokenBytes, ic_operatorId = cc_operatorId cfg, ic_chatIds = cc_chatIds cfg,
          ic_effectiveScopes = buildScopeSet cfg, ic_resolvedScopes = resolveScopeSet (buildScopeSet cfg),
          ic_policyHash = computePolicyHash (ce_engine env) (buildScopeSet cfg) (Some (cc_chatIds cfg)),
          ic_status = CS_active, ic_heartbeatInterval = 30, ic_lastHeartbeat = now, ic_issuedAt = now,
          ic_expiresAt = now + ttlMs, ic_issuedBy = nullish (io_issuedBy opts) ''owner'', ic_ttlMs = ttlMs,
          ic_revokedAt = None, ic_revocationReason = None\<rparr>)"

lemma new_credential_sel [simp]:
  "ic_credentialId (new_credential env now ib tb cfg opts) = nullish (io_credentialId opts) (generateCredentialId ib)"
  "ic_tok (new_credential env now ib tb cfg opts) = generateToken tb"
  "ic_operatorId (new_credential env now ib tb cfg opts) = cc_operatorId cfg"
  "ic_chatIds (new_credential env now ib tb cfg opts) = cc_chatIds cfg"
  "ic_effectiveScopes (new_credential env now ib tb cfg opts) = buildScopeSet cfg"
  "ic_status (new_credential env now ib tb cfg opts) = CS_active"
  by (simp_all add: new_credential_def Let_def)

lemma issueCredential_eq:
  "cm_inv env st \<Longrightarrow>
   issueCredential env now ib tb st cfg opts =
     (let st1 = snd (evict_oldest env now st (cc_operatorId cfg));
          hash = computePolicyHash (ce_engine env) (buildScopeSet cfg) (Some (cc_chatIds cfg))
      in case List.find (\<lambda>c. ic_policyHash c = hash) (getActiveForOperator st1 (cc_operatorId cfg)) of
           Some c \<Rightarrow> (Ok c, st1)
         | None \<Rightarrow> (Ok (new_credential env now ib tb cfg opts),
                    upsertRecord st1 (new_credential env now ib tb cfg opts)))"
  using evict_oldest_Ok [of env st now "cc_operatorId cfg"]
  by (cases "evict_oldest env now st (cc_operatorId cfg)")
    (simp add: issueCredential_def new_credential_def Let_def split: option.split)

lemma new_credential_ok:
  "nullish (io_credentialId opts) (generateCredentialId ib) \<noteq> [] \<Longrightarrow>
     credential_ok env (ic_credentialId (new_credential env now ib tb cfg opts)) (new_credential env now ib tb cfg opts)"
  by (simp add: credential_ok_def new_credential_def Let_def)

lemma active_ids_upsert:
  assumes "map_get (byId st) (ic_credentialId rec) = None" and "ic_status rec = CS_active"
  shows "active_ids (upsertRecord st rec) oid =
    (if ic_operatorId rec = oid then insert (ic_credentialId rec) (active_ids st oid) else active_ids st oid)"
  using assms by (auto simp: active_ids_def upsertRecord_def Let_def split: if_splits option.splits)

lemma issue_preserves:
  assumes inv: "cm_inv env st" and lim: "within_limit env st" and fresh: "cm_fresh st ib tb opts"
  shows "cm_inv env (snd (issueCredential env now ib tb st cfg opts)) \<and>
         within_limit env (snd (issueCredential env now ib tb st cfg opts))"
proof -
  let ?st = "snd (evict_oldest env now st (cc_operatorId cfg))"
  let ?new = "new_credential env now ib tb cfg opts"
  have ok: "cm_inv env ?st" "within_limit env ?st"
    using evict_oldest_ok [OF inv] within_limit_shrink [OF inv lim] by (auto simp: cm_ok_def)
  have id: "ic_credentialId ?new \<noteq> []" "map_get (byId ?st) (ic_credentialId ?new) = None"
      "map_get (byToken ?st) (ic_tok ?new) = None"
    using fresh by (simp_all add: cm_fresh_def Let_def evict_oldest_dom [OF inv])
  then have "cm_inv env (upsertRecord ?st ?new)"
    using ok(1) new_credential_ok [of opts ib] by (intro cm_inv_upsert) auto
  moreover have "within_limit env (upsertRecord ?st ?new)"
    using ok(2) evict_oldest_room [OF inv lim, of now "cc_operatorId cfg"]
      card_insert_le_m1 [of _ "active_ids ?st (cc_operatorId cfg)"]
    by (auto simp: within_limit_def active_ids_upsert [OF id(2)] card_insert_if
        finite_active_ids [OF ok(1)])
  ultimately show ?thesis
    using ok by (auto simp: issueCredential_eq [OF inv] Let_def split: option.split)
qed

subsection \<open>The sweep as a whole\<close>

lemma sweep_verdict_idle: "\<not> sweep_due env now r \<Longrightarrow> sweep_verdict env now r = r"
  by (auto simp: sweep_due_def sweep_verdict_def)

lemma sweep_verdict_not_due: "\<not> sweep_due env now (sweep_verdict env now r)"
  by (auto simp: sweep_due_def sweep_verdict_def)

lemma sweep_verdict_id [simp]: "ic_credentialId (sweep_verdict env now r) = ic_credentialId r"
  by (simp add: sweep_verdict_def)

definition due_at :: "cm_env \<Rightarrow> int \<Rightarrow> cm_state \<Rightarrow> string \<Rightarrow> bool" where
  "due_at env now st k = (case map_get (byId st) k of None \<Rightarrow> False | Some r \<Rightarrow> sweep_due env now r)"

definition ids_ok :: "cm_state \<Rightarrow> bool" where
  "ids_ok st \<longleftrightarrow> (\<forall>k r. map_get (byId st) k = Some r \<longrightarrow> ic_credentialId r = k)"

lemma cm_inv_ids_ok: "cm_inv env st \<Longrightarrow> ids_ok st"
  using cm_inv_ok by (fastforce simp: ids_ok_def credential_ok_def)

lemma sweep_round:
  assumes "ids_ok (snd acc)"
  shows "map_get (byId (snd (sweep_record env now acc k))) j =
           (if j = k then map_option (sweep_verdict env now) (map_get (byId (snd acc)) k)
            else map_get (byId (snd acc)) j) \<and>
         fst (sweep_record env now acc k) =
           fst acc @ (if due_at env now (snd acc) k then [sweep_verdict env now (the (map_get (byId (snd acc)) k))] else []) \<and>
         map_get (revealStates (snd (sweep_record env now acc k))) j =
           (if j = k \<and> due_at env now (snd acc) k then map_option (\<lambda>_. []) (map_get (revealStates (snd acc)) j)
            else map_get (revealStates (snd acc)) j)"
proof (cases "map_get (byId (snd acc)) k")
  case None
  then show ?thesis by (simp add: sweep_record_None due_at_def)
next
  case (Some r)
  then have id: "ic_credentialId r = k" using assms by (simp add: ids_ok_def)
  show ?thesis
  proof (cases "sweep_due env now r")
    case True
    then show ?thesis
      using sweep_record_due [OF Some True id] Some by (simp add: due_at_def cleanup_reveals)
  next
    case False
    then show ?thesis
      using Some by (simp add: sweep_record_idle [OF Some False] due_at_def sweep_verdict_idle)
  qed
qed

lemma sweep_fold:
  assumes "distinct ks" and "ids_ok (snd acc)"
  shows "map_get (byId (snd (foldl (sweep_record env now) acc ks))) j =
           (if j \<in> set ks then map_option (sweep_verdict env now) (map_get (byId (snd acc)) j)
            else map_get (byId (snd acc)) j) \<and>
         fst (foldl (sweep_record env now) acc ks) =
           fst acc @ map (\<lambda>k. sweep_verdict env now (the (map_get (byId (snd acc)) k)))
             (filter (due_at env now (snd acc)) ks) \<and>
         map_get (revealStates (snd (foldl (sweep_record env now) acc ks))) j =
           (if j \<in> set ks \<and> due_at env now (snd acc) j then map_option (\<lambda>_. []) (map_get (revealStates (snd acc)) j)
            else map_get (revealStates (snd acc)) j)"
  using assms
proof (induction ks arbitrary: acc)
  case Nil
  then show ?case by simp
next
  case (Cons k ks)
  let ?acc = "sweep_record env now acc k"
  note round = sweep_round [OF Cons.prems(2), of env now k]
  have ids: "ids_ok (snd ?acc)"
    using Cons.prems(2) round by (auto simp: ids_ok_def split: if_splits)
  have same: "map_get (byId (snd ?acc)) i = map_get (byId (snd acc)) i"
      "due_at env now (snd ?acc) i = due_at env now (snd acc) i" if "i \<noteq> k" for i
    using round that by (simp_all add: due_at_def)
  have ne: "i \<in> set ks \<Longrightarrow> i \<noteq> k" for i
    using Cons.prems(1) by auto
  have "filter (due_at env now (snd ?acc)) ks = filter (due_at env now (snd acc)) ks"
    by (intro filter_cong refl same(2) ne)
  moreover have "map (\<lambda>k. sweep_verdict env now (the (map_get (byId (snd ?acc)) k))) (filter (due_at env now (snd acc)) ks) =
      map (\<lambda>k. sweep_verdict env now (the (map_get (byId (snd acc)) k))) (filter (due_at env now (snd acc)) ks)"
    by (auto simp: same(1) ne)
  ultimately show ?case
    using Cons.IH [OF _ ids] Cons.prems(1) round same(1) [of j] same(2) [of j] by auto
qed

lemma sweepExpired_facts:
  assumes "cm_inv env st"
  shows "map_get (byId (snd (sweepExpired env now st))) j =
           map_option (sweep_verdict env now) (map_get (byId st) j) \<and>
         fst (sweepExpired env now st) =
           map (sweep_verdict env now) (filter (sweep_due env now) (map_values (byId st))) \<and>
         map_get (revealStates (snd (sweepExpired env now st))) j =
           (if due_at env now st j then map_option (\<lambda>_. []) (map_get (revealStates st) j)
            else map_get (revealStates st) j) \<and>
         \<not> due_at env now (snd (sweepExpired env now st)) j"
proof -
  have wf: "map_wf (byId st)" using cm_inv_wf [OF assms] by simp
  have d: "distinct (map_keys (byId st))" using wf by (simp add: map_wf_def map_keys_def)
  note fold = sweep_fold [OF d, of "([], st)" env now j, simplified, OF cm_inv_ids_ok [OF assms], folded sweepExpired_def]
  have rec: "map_get (byId (snd (sweepExpired env now st))) j = map_option (sweep_verdict env now) (map_get (byId st) j)"
    using fold by (cases "map_get (byId st) j") (auto simp: map_keys_iff)
  have g: "\<forall>p \<in> set (byId st). map_get (byId st) (fst p) = Some (snd p)"
    using map_entries_get [OF wf] by auto
  have "map (\<lambda>k. sweep_verdict env now (the (map_get (byId st) k))) (filter (due_at env now st) (map fst m)) =
      map (sweep_verdict env now) (filter (sweep_due env now) (map snd m))"
    if "\<forall>p \<in> set m. map_get (byId st) (fst p) = Some (snd p)" for m
    using that by (induction m) (auto simp: due_at_def)
  then have "fst (sweepExpired env now st) =
      map (sweep_verdict env now) (filter (sweep_due env now) (map_values (byId st)))"
    using fold g by (simp add: map_keys_def map_values_def)
  moreover have "due_at env now st j \<Longrightarrow> j \<in> set (map_keys (byId st))"
    by (cases "map_get (byId st) j") (auto simp: due_at_def map_keys_iff)
  moreover have "\<not> due_at env now (snd (sweepExpired env now st)) j"
    using rec by (auto simp: due_at_def sweep_verdict_not_due split: option.split)
  ultimately show ?thesis using rec fold by auto
qed

subsection \<open>Runs of the manager\<close>

text \<open>
  One step is one call of the public interface, or a change of a reveal store by a holder of the
  store that \<open>getRevealState\<close> returned. The direct status setter is used to suspend a credential
  (\<open>pending\<close>) or expire it, never to activate one. Identifiers and tokens are fresh at issuance.
\<close>

inductive cm_step :: "cm_env \<Rightarrow> cm_state \<Rightarrow> cm_state \<Rightarrow> bool" for env where
  step_issue: "cm_fresh st ib tb opts \<Longrightarrow> cm_step env st (snd (issueCredential env now ib tb st cfg opts))"
| step_token: "cm_step env st (snd (getCredentialByToken now st token))"
| step_heartbeat: "cm_step env st (snd (recordHeartbeat now st k))"
| step_renew: "cm_step env st (snd (renewCredential env now st k))"
| step_update: "cm_step env st (snd (updateCredentialScopes env st k sc))"
| step_revoke: "cm_step env st (snd (revokeCredential now st k reason))"
| step_revokeAll: "cm_step env st (snd (revokeAllCredentials now st oid reason))"
| step_reveals: "cm_step env st (snd (getRevealState st k))"
| step_record: "map_get (revealStates st) k = Some store \<Longrightarrow>
    cm_step env st (st\<lparr>revealStates := map_set (revealStates st) k (reveal_record store access request)\<rparr>)"
| step_status: "s \<in> {CS_pending, CS_expired} \<Longrightarrow> cm_step env st (snd (setCredentialStatus st k s))"
| step_sweep: "cm_step env st (snd (sweepExpired env now st))"

inductive cm_reachable :: "cm_env \<Rightarrow> cm_state \<Rightarrow> bool" for env where
  cm_start: "cm_reachable env createCredentialManager"
| cm_more: "cm_reachable env st \<Longrightarrow> cm_step env st st' \<Longrightarrow> cm_reachable env st'"

lemmas cm_oks = cm_ok_token cm_ok_heartbeat cm_ok_renew cm_ok_update cm_ok_revokeCredential
  cm_ok_revokeAll cm_ok_revealState cm_ok_sweep

lemma cm_ok_record:
  "cm_inv env st \<Longrightarrow> cm_ok env st (st\<lparr>revealStates := map_set (revealStates st) k store\<rparr>)"
  by (auto simp: cm_ok_def no_new_active_def active_ids_def cm_inv_wf intro!: cm_inv_reveal)

lemma cm_step_preserves:
  assumes "cm_step env st st'" and "cm_inv env st" and "within_limit env st"
  shows "cm_inv env st' \<and> within_limit env st'"
proof -
  have shrink: "cm_ok env st st' \<Longrightarrow> cm_inv env st' \<and> within_limit env st'"
    using within_limit_shrink [OF assms(2,3)] by (simp add: cm_ok_def)
  show ?thesis
    using assms(1)
  proof cases
    case (step_issue ib tb opts now cfg)
    then show ?thesis using issue_preserves [OF assms(2,3)] by simp
  next
    case (step_status s k)
    then show ?thesis using shrink cm_ok_setStatus [OF assms(2)] by auto
  next
    case (step_record k store access request)
    then show ?thesis using shrink cm_ok_record [OF assms(2)] by simp
  qed (use shrink cm_oks [OF assms(2)] in simp)+
qed

lemma active_ids_init [simp]: "active_ids createCredentialManager oid = {}"
  by (simp add: active_ids_def createCredentialManager_def)

lemma cm_reachable_preserves: "cm_reachable env st \<Longrightarrow> cm_inv env st \<and> within_limit env st"
proof (induction rule: cm_reachable.induct)
  case cm_start
  then show ?case by (simp add: cm_inv_init within_limit_def active_limit_def)
next
  case (cm_more st st')
  then show ?case using cm_step_preserves by blast
qed

subsection \<open>Properties\<close>

text \<open>C1: In every state the manager can reach, the token and operator indexes agree with the
  records, every record's resolved scopes and policy hash are those of its current scopes and
  chats, and no operator has more active credentials than the configured limit (one, when the
  limit is set below one).\<close>

theorem credential_manager_invariant:
  assumes "cm_reachable env st"
  shows "cm_inv env st \<and>
         int (length (getActiveForOperator st oid)) \<le> max 1 (maxConcurrentPerOperator (ce_config env))"
  using cm_reachable_preserves [OF assms]
  by (auto simp: length_getActive [of env] within_limit_def active_limit_def)

definition sample_env :: cm_env where
  "sample_env = \<lparr>ce_engine = sample_engine, ce_config = CM_DEFAULT_CONFIG\<lparr>maxConcurrentPerOperator := 1\<rparr>\<rparr>"

definition sample_config :: "permission_scope list \<Rightarrow> credential_config" where
  "sample_config scopes =
     \<lparr>cc_operatorId = ''op_1'', cc_chatIds = [''conv_1''], cc_policyId = None, cc_allow = Some scopes,
      cc_deny = None, cc_ttlSeconds = Some 60\<rparr>"

definition no_options :: issue_options where
  "no_options = \<lparr>io_credentialId = None, io_issuedBy = None\<rparr>"

definition sample_issued :: cm_state where
  "sample_issued =
     snd (issueCredential sample_env 0 [1] [1, 2, 3] createCredentialManager (sample_config [Sc_send]) no_options)"

lemma sample_issued_reachable: "cm_reachable sample_env sample_issued"
proof -
  have "cm_fresh createCredentialManager [1] [1, 2, 3] no_options"
    by code_simp
  then show ?thesis
    unfolding sample_issued_def by (rule cm_more [OF cm_start step_issue])
qed

theorem credential_manager_invariant_witness:
  "int (length (getActiveForOperator (snd (issueCredential sample_env 5000 [2] [4, 5, 6] sample_issued
     (sample_config [Sc_read_messages]) no_options)) ''op_1'')) \<le> max 1 1"
proof -
  have "cm_fresh sample_issued [2] [4, 5, 6] no_options"
    by code_simp
  then have "cm_reachable sample_env (snd (issueCredential sample_env 5000 [2] [4, 5, 6] sample_issued
     (sample_config [Sc_read_messages]) no_options))"
    by (rule cm_more [OF sample_issued_reachable step_issue])
  from credential_manager_invariant [OF this, of "''op_1''"] show ?thesis
    by (simp add: sample_env_def)
qed

text \<open>C3: A token authenticates exactly when it is the token of a stored credential that is
  active and not past its expiry, and it authenticates that credential and changes nothing; a
  credential found past its expiry is recorded as expired.\<close>

theorem token_lookup_exact:
  assumes "cm_inv env st"
  shows "(fst (getCredentialByToken now st token) = Ok r) =
           (map_get (byId st) (ic_credentialId r) = Some r \<and> ic_tok r = token \<and>
            ic_status r = CS_active \<and> now < ic_expiresAt r) \<and>
         (if isOk (fst (getCredentialByToken now st token)) then snd (getCredentialByToken now st token) = st
          else case map_get (byToken st) token of
            None \<Rightarrow> snd (getCredentialByToken now st token) = st
          | Some k \<Rightarrow> map_get (byId (snd (getCredentialByToken now st token))) k =
              map_option (\<lambda>rec. if ic_expiresAt rec \<le> now then rec\<lparr>ic_status := CS_expired\<rparr> else rec)
                (map_get (byId st) k))"
proof (cases "map_get (byToken st) token")
  case None
  then have "map_get (byId st) (ic_credentialId r) = Some r \<Longrightarrow> ic_tok r \<noteq> token"
    using cm_inv_token [OF assms] by fastforce
  then show ?thesis using None by (auto simp: getCredentialByToken_def)
next
  case (Some k)
  obtain rec where rec: "map_get (byId st) k = Some rec" "ic_tok rec = token"
    using cm_inv_token_back [OF assms Some] by auto
  have k: "k \<noteq> []" "ic_credentialId rec = k"
    using cm_inv_ok [OF assms rec(1)] by (simp_all add: credential_ok_def)
  have "map_get (byId st) (ic_credentialId r) = Some r \<Longrightarrow> ic_tok r = token \<Longrightarrow> r = rec"
    using cm_inv_token [OF assms, of "ic_credentialId r" r] Some rec by simp
  then show ?thesis
    using Some rec k by (auto simp: getCredentialByToken_def mutateRecord_Some split: if_splits)
qed

theorem token_lookup_exact_witness:
  "\<not> isOk (fst (getCredentialByToken 60000 sample_issued (generateToken [1, 2, 3])))"
proof -
  have inv: "cm_inv sample_env sample_issued"
    using cm_reachable_preserves [OF sample_issued_reachable] by simp
  have "map_get (byId sample_issued) k = Some r \<Longrightarrow> ic_expiresAt r = 60000" for k r
    by (simp add: sample_issued_def issueCredential_def evict_oldest_def getActiveForOperator_def
        createCredentialManager_def upsertRecord_def sample_env_def sample_config_def CM_DEFAULT_CONFIG_def
        Let_def split: if_splits) auto
  then show ?thesis
    using token_lookup_exact [OF inv, of 60000 "generateToken [1, 2, 3]"] by (auto simp: isOk_iff)
qed

subsection \<open>A dead token stays dead\<close>

text \<open>No operation of the manager takes a token out of its index.\<close>

lemma byToken_mutate [simp]: "byToken (snd (mutateRecord st k u)) = byToken st"
  by (simp add: mutateRecord_def Let_def split: option.split)

lemma byToken_revoke [simp]: "byToken (snd (revokeRecord now st k reason)) = byToken st"
  by (cases "map_get (byId st) k") (simp add: revokeRecord_def mutateRecord_def, simp add: revokeRecord_Some)

lemma byToken_fold:
  assumes "\<And>acc x. byToken (snd (f acc x)) = byToken (snd acc)"
  shows "byToken (snd (foldl f acc xs)) = byToken (snd acc)"
  by (induction xs arbitrary: acc) (simp_all add: assms)

lemma byToken_sweep_record: "byToken (snd (sweep_record env now acc k)) = byToken (snd acc)"
proof (cases "map_get (byId (snd acc)) k")
  case None
  then show ?thesis by (simp add: sweep_record_None)
next
  case (Some r)
  then show ?thesis
    by (cases acc) (simp add: sweep_record_def pair_result_cases)
qed

lemma byToken_issue:
  assumes inv: "cm_inv env st" and fresh: "cm_fresh st ib tb opts" and t: "map_get (byToken st) t = Some k"
  shows "map_get (byToken (snd (issueCredential env now ib tb st cfg opts))) t = Some k"
proof -
  have "t \<noteq> generateToken tb" using fresh t by (auto simp: cm_fresh_def Let_def)
  then show ?thesis
    using t by (simp add: issueCredential_eq [OF inv] Let_def upsertRecord_def evict_oldest_dom(2) [OF inv]
        split: option.split)
qed

lemma byToken_step:
  assumes "cm_step env st st'" and "cm_inv env st" and "map_get (byToken st) t = Some k"
  shows "map_get (byToken st') t = Some k"
  using assms
proof cases
  case (step_issue ib tb opts now cfg)
  then show ?thesis using byToken_issue assms by simp
next
  case (step_revokeAll now oid reason)
  then show ?thesis
    using assms byToken_fold [of "revokeAll_round now reason" "([], st)"]
    by (simp add: revokeAllCredentials_def revokeAll_round_snd)
next
  case (step_sweep now)
  then show ?thesis
    using assms byToken_fold [of "sweep_record env now" "([], st)"]
    by (simp add: sweepExpired_def byToken_sweep_record)
qed (simp_all add: getCredentialByToken_def recordHeartbeat_def renewCredential_def updateCredentialScopes_def
      revokeCredential_def setCredentialStatus_def getRevealState_def Let_def pair_result_cases split: option.split)

text \<open>A credential once recorded and not active is not made active again by any later call.\<close>

lemma inactive_step:
  assumes step: "cm_step env st st'" and inv: "cm_inv env st"
    and k: "map_get (byId st) k \<noteq> None" "k \<notin> active_ids st oid"
  shows "k \<notin> active_ids st' oid"
proof -
  have shrink: "cm_ok env st st' \<Longrightarrow> k \<notin> active_ids st' oid"
    using k(2) unfolding cm_ok_def no_new_active_def by blast
  show ?thesis
    using step
  proof cases
    case (step_issue ib tb opts now cfg)
    let ?st = "snd (evict_oldest env now st (cc_operatorId cfg))"
    let ?new = "new_credential env now ib tb cfg opts"
    have id: "map_get (byId ?st) (ic_credentialId ?new) = None" "k \<noteq> ic_credentialId ?new"
      using step_issue(2) k(1) by (auto simp: cm_fresh_def Let_def evict_oldest_dom [OF inv])
    moreover have "k \<notin> active_ids ?st oid"
      using evict_oldest_ok [OF inv] k(2) unfolding cm_ok_def no_new_active_def by blast
    ultimately have "k \<notin> active_ids (upsertRecord ?st ?new) oid"
      by (cases "cc_operatorId cfg = oid") (auto simp: active_ids_upsert)
    then show ?thesis
      using step_issue(1) \<open>k \<notin> active_ids ?st oid\<close>
      by (auto simp: issueCredential_eq [OF inv] Let_def split: option.split)
  next
    case (step_status s k)
    then show ?thesis using shrink cm_ok_setStatus [OF inv] by auto
  next
    case (step_record k store access request)
    then show ?thesis using shrink cm_ok_record [OF inv] by simp
  qed (use shrink cm_oks [OF inv] in simp)+
qed

definition dead_token :: "cm_state \<Rightarrow> string \<Rightarrow> string \<Rightarrow> bool" where
  "dead_token st t k \<longleftrightarrow> map_get (byToken st) t = Some k \<and> (\<forall>oid. k \<notin> active_ids st oid)"

lemma dead_token_step:
  assumes "cm_step env st st'" and "cm_inv env st" and "dead_token st t k"
  shows "dead_token st' t k"
  using byToken_step [OF assms(1,2)] inactive_step [OF assms(1,2)] cm_inv_token_back [OF assms(2)] assms(3)
  unfolding dead_token_def by blast

lemma dead_token_steps:
  "(cm_step env)\<^sup>*\<^sup>* st st' \<Longrightarrow> cm_inv env st \<Longrightarrow> within_limit env st \<Longrightarrow> dead_token st t k \<Longrightarrow>
     cm_inv env st' \<and> within_limit env st' \<and> dead_token st' t k"
proof (induction rule: rtranclp_induct)
  case base
  then show ?case by simp
next
  case (step y z)
  then show ?case using cm_step_preserves dead_token_step by blast
qed

lemma dead_token_rejected:
  assumes "cm_inv env st" and "dead_token st t k"
  shows "\<not> isOk (fst (getCredentialByToken now st t))"
proof -
  obtain rec where rec: "map_get (byToken st) t = Some k" "map_get (byId st) k = Some rec"
    using assms cm_inv_token_back unfolding dead_token_def by blast
  then have "ic_status rec \<noteq> CS_active" using assms(2) by (auto simp: dead_token_def active_ids_def)
  then show ?thesis using rec by (simp add: getCredentialByToken_def)
qed

lemma revoked_token_dead:
  assumes "cm_inv env st" and "map_get (byId st) k = Some r"
  shows "dead_token (snd (revokeCredential now st k reason)) (ic_tok r) k"
  using assms cm_inv_token [OF assms]
  by (auto simp: dead_token_def revokeCredential_def pair_result_cases active_ids_revoke)

text \<open>C4: A revoked credential's token is dead: right after the revocation and after whatever calls
  of the manager follow, no lookup with its token succeeds, however the clock reads; the revocation
  changes no other credential's record. A revocation is refused only for an unknown credential, and
  then nothing changes. Revoking an operator's credentials leaves it none. (Calls of the direct
  status setter are the ones the code makes, to suspend or expire a credential.)\<close>

theorem revoked_token_rejected:
  assumes "cm_inv env st" and "within_limit env st"
  shows "(case revokeCredential now st k reason of
            (Err e, st') \<Rightarrow> e = NotFoundError_create ''credential'' k \<and> st' = st \<and> map_get (byId st) k = None
          | (Ok rec, st') \<Rightarrow>
              ic_credentialId rec = k \<and> ic_status rec = CS_revoked \<and> ic_revokedAt rec = Some now \<and>
              revokedLog st' = revokedLog st @ [rec] \<and>
              (\<forall>st''. (cm_step env)\<^sup>*\<^sup>* st' st'' \<longrightarrow>
                 (\<forall>later. \<not> isOk (fst (getCredentialByToken later st'' (ic_tok rec))))) \<and>
              map_get (byId st') j = (if j = k then Some rec else map_get (byId st) j)) \<and>
         getActiveForOperator (snd (revokeAllCredentials now st oid reason)) oid = []"
proof (intro conjI)
  show "case revokeCredential now st k reason of
      (Err e, st') \<Rightarrow> e = NotFoundError_create ''credential'' k \<and> st' = st \<and> map_get (byId st) k = None
    | (Ok rec, st') \<Rightarrow>
        ic_credentialId rec = k \<and> ic_status rec = CS_revoked \<and> ic_revokedAt rec = Some now \<and>
        revokedLog st' = revokedLog st @ [rec] \<and>
        (\<forall>st''. (cm_step env)\<^sup>*\<^sup>* st' st'' \<longrightarrow>
           (\<forall>later. \<not> isOk (fst (getCredentialByToken later st'' (ic_tok rec))))) \<and>
        map_get (byId st') j = (if j = k then Some rec else map_get (byId st) j)"
  proof (cases "map_get (byId st) k")
    case None
    then show ?thesis by (simp add: revokeCredential_def)
  next
    case (Some r)
    let ?st = "snd (revokeCredential now st k reason)"
    have id: "ic_credentialId r = k" using cm_inv_ok [OF assms(1) Some] by (simp add: credential_ok_def)
    have "cm_inv env ?st" "within_limit env ?st"
      using cm_step_preserves [OF step_revoke assms] by simp_all
    then have "\<not> isOk (fst (getCredentialByToken later st'' (ic_tok r)))" if "(cm_step env)\<^sup>*\<^sup>* ?st st''" for st'' later
      using dead_token_steps [OF that] revoked_token_dead [OF assms(1) Some] dead_token_rejected by blast
    then show ?thesis
      using id Some by (simp add: revokeCredential_def revokeRecord_Some revoked_record_def)
  qed
  have "active_ids (snd (foldl (revokeAll_round now reason) acc cs)) oid =
      active_ids (snd acc) oid - set (map ic_credentialId cs)" for acc cs
    by (induction cs arbitrary: acc) (auto simp: revokeAll_round_snd active_ids_revoke)
  then have "active_ids (snd (revokeAllCredentials now st oid reason)) oid = {}"
    using ids_getActive(2) [OF assms(1), of oid] by (simp add: revokeAllCredentials_def)
  then show "getActiveForOperator (snd (revokeAllCredentials now st oid reason)) oid = []"
    using length_getActive [of env "snd (revokeAllCredentials now st oid reason)" oid] cm_ok_revokeAll [OF assms(1)]
    by (simp add: cm_ok_def)
qed

text \<open>The sample credential is revoked, then its operator gets another one; the old token stays dead.\<close>

definition sample_revoked :: cm_state where
  "sample_revoked = snd (revokeCredential 5 sample_issued (generateCredentialId [1]) CR_owner_initiated)"

theorem revoked_token_rejected_witness:
  "\<not> isOk (fst (getCredentialByToken 9 (snd (issueCredential sample_env 8 [2] [4, 5, 6] sample_revoked
       (sample_config [Sc_send]) no_options)) (generateToken [1, 2, 3])))"
proof -
  have ok: "cm_inv sample_env sample_issued" "within_limit sample_env sample_issued"
    using cm_reachable_preserves [OF sample_issued_reachable] by simp_all
  have "cm_fresh sample_revoked [2] [4, 5, 6] no_options"
    by code_simp
  then have run: "(cm_step sample_env)\<^sup>*\<^sup>* sample_revoked
      (snd (issueCredential sample_env 8 [2] [4, 5, 6] sample_revoked (sample_config [Sc_send]) no_options))"
    by (intro r_into_rtranclp step_issue)
  have "isOk (fst (revokeCredential 5 sample_issued (generateCredentialId [1]) CR_owner_initiated))"
    by code_simp
  then obtain rec where rec:
      "revokeCredential 5 sample_issued (generateCredentialId [1]) CR_owner_initiated = (Ok rec, sample_revoked)"
    unfolding isOk_iff sample_revoked_def by (metis prod.collapse)
  have "map_option ic_tok (map_get (byId sample_revoked) (generateCredentialId [1])) = Some (generateToken [1, 2, 3])"
    by code_simp
  then show ?thesis
    using revoked_token_rejected [OF ok, where now = 5 and k = "generateCredentialId [1]" and reason = CR_owner_initiated
        and j = "generateCredentialId [1]"] run by (simp add: rec)
qed

text \<open>The sweep changes exactly the active credentials that are past their expiry (recorded as
  expired) or silent for longer than the heartbeat interval and grace period (revoked), reports
  them in the order of issue, empties their reveal stores, and leaves every other credential and
  reveal store alone; right after it nothing is due.\<close>

theorem sweepExpired_exact:
  assumes "cm_inv env st"
  shows "map_get (byId (snd (sweepExpired env now st))) j =
           map_option (sweep_verdict env now) (map_get (byId st) j) \<and>
         fst (sweepExpired env now st) =
           map (sweep_verdict env now) (filter (sweep_due env now) (map_values (byId st))) \<and>
         map_get (revealStates (snd (sweepExpired env now st))) j =
           (if due_at env now st j then map_option (\<lambda>_. []) (map_get (revealStates st) j)
            else map_get (revealStates st) j) \<and>
         \<not> due_at env now (snd (sweepExpired env now st)) j"
  using sweepExpired_facts [OF assms] .

theorem sweepExpired_exact_witness:
  "\<not> due_at sample_env 40000 (snd (sweepExpired sample_env 40000 sample_issued)) (generateCredentialId [1])"
  using cm_reachable_preserves [OF sample_issued_reachable]
  by (intro sweepExpired_exact [THEN conjunct2, THEN conjunct2, THEN conjunct2]) simp

text \<open>Issuing never fails. It returns an active credential of the operator with the requested
  policy, and either that credential was active before (then the token is the old one and no
  record is added) or it is new: it expires exactly the requested time after now, resolves the
  requested scopes with deny winning, and its token authenticates it.\<close>

theorem issueCredential_exact:
  assumes "cm_inv env st" and "cm_fresh st ib tb opts"
  shows "case issueCredential env now ib tb st cfg opts of
           (Err _, _) \<Rightarrow> False
         | (Ok rec, st') \<Rightarrow>
             ic_status rec = CS_active \<and> ic_operatorId rec = cc_operatorId cfg \<and>
             ic_policyHash rec = computePolicyHash (ce_engine env) (buildScopeSet cfg) (Some (cc_chatIds cfg)) \<and>
             map_get (byId st') (ic_credentialId rec) = Some rec \<and>
             (if map_get (byId st) (ic_credentialId rec) = None
              then rec = new_credential env now ib tb cfg opts \<and>
                   map_get (byToken st') (generateToken tb) = Some (ic_credentialId rec)
              else map_get (byId st) (ic_credentialId rec) = Some rec)"
proof -
  let ?st = "snd (evict_oldest env now st (cc_operatorId cfg))"
  have ok: "cm_inv env ?st" using evict_oldest_ok [OF assms(1)] by (simp add: cm_ok_def)
  show ?thesis
  proof (cases "List.find (\<lambda>c. ic_policyHash c =
      computePolicyHash (ce_engine env) (buildScopeSet cfg) (Some (cc_chatIds cfg)))
      (getActiveForOperator ?st (cc_operatorId cfg))")
    case None
    then show ?thesis
      using assms(2) evict_oldest_dom [OF assms(1)]
      by (simp add: issueCredential_eq [OF assms(1)] Let_def upsertRecord_def cm_fresh_def)
        (simp add: new_credential_def Let_def)
  next
    case (Some c)
    from find_SomeD [OF this] have c: "map_get (byId ?st) (ic_credentialId c) = Some c"
        "ic_status c = CS_active" "ic_operatorId c = cc_operatorId cfg"
        "ic_policyHash c = computePolicyHash (ce_engine env) (buildScopeSet cfg) (Some (cc_chatIds cfg))"
      by (auto simp: set_getActive [OF ok])
    have "map_get (byId st) (ic_credentialId c) = Some c"
      using c(1,2) assms(1)
      by (auto elim!: evict_oldest_cases [where now = now and oid = "cc_operatorId cfg"]
          simp: active_ids_def revokeRecord_Some split: option.splits if_splits)
    then show ?thesis using c Some by (simp add: issueCredential_eq [OF assms(1)] Let_def)
  qed
qed

theorem issueCredential_exact_witness:
  "case issueCredential sample_env 5000 [2] [4, 5, 6] sample_issued (sample_config [Sc_read_messages]) no_options of
     (Err _, _) \<Rightarrow> False | (Ok rec, _) \<Rightarrow> ic_status rec = CS_active"
proof -
  have "cm_fresh sample_issued [2] [4, 5, 6] no_options" by code_simp
  moreover have "cm_inv sample_env sample_issued"
    using cm_reachable_preserves [OF sample_issued_reachable] by simp
  ultimately show ?thesis
    using issueCredential_exact [where now = 5000 and cfg = "sample_config [Sc_read_messages]"]
    by (fastforce split: prod.splits result.splits)
qed

end
