(* ===== verification/Labels.thy ===== *)
theory Labels
  imports ResourceIds
begin

text \<open>
  Resolving a resource by identifier or by label: the contract the operator and the policy
  actions share. An identifier resolves to itself; a label resolves only when exactly one listed
  record carries it.
\<close>

locale label_resolver =
  fixes resolve :: "'s \<Rightarrow> string \<Rightarrow> (string, signet_error) result"
    and is_ident :: "string \<Rightarrow> bool"
    and listing :: "'s \<Rightarrow> 'r list"
    and label :: "'r \<Rightarrow> string"
    and ident :: "'r \<Rightarrow> string"
  assumes resolve_ident: "is_ident s \<Longrightarrow> resolve st s = Ok r \<Longrightarrow> r = s"
    and resolve_label:
      "\<not> is_ident s \<Longrightarrow>
         resolve st s = Ok r \<longleftrightarrow> (\<exists>x. filter (\<lambda>x. label x = s) (listing st) = [x] \<and> ident x = r)"
begin

lemma resolved_listed:
  "\<not> is_ident s \<Longrightarrow> resolve st s = Ok r \<Longrightarrow> \<exists>x \<in> set (listing st). label x = s \<and> ident x = r"
  unfolding resolve_label by (metis (mono_tags, lifting) list.set_intros(1) mem_Collect_eq set_filter)

lemma resolved_unique:
  assumes "\<not> is_ident s" and "resolve st s = Ok r" and "x \<in> set (listing st)" and "label x = s"
  shows "ident x = r"
proof -
  obtain y where y: "filter (\<lambda>x. label x = s) (listing st) = [y]" "ident y = r"
    using assms by (auto simp: resolve_label)
  have "x \<in> set (filter (\<lambda>x. label x = s) (listing st))"
    using assms by simp
  then show ?thesis using y by simp
qed

end

end
