(* ===== verification/PolicyManager.thy ===== *)
theory PolicyManager
  imports Scopes Labels
begin

text \<open>
  Reusable policies: the manager (\<^verbatim>\<open>packages/sessions/src/policy-manager.ts\<close>) and the
  resolution of a policy by identifier or label
  (\<^verbatim>\<open>packages/sessions/src/policy-actions.ts\<close>). Scope lists are typed, so the only thing the
  schema can find wrong is an empty label.
\<close>

definition PolicyConfig_issues :: "string \<Rightarrow> policy_config \<Rightarrow> (string list \<times> string) list" where
  "PolicyConfig_issues tooShort config =
     (if length (pc_label config) < 1 then [([''label''], tooShort)] else [])"

definition policy_validateConfig :: "string \<Rightarrow> policy_config \<Rightarrow> signet_error option" where
  "policy_validateConfig tooShort config =
     (case PolicyConfig_issues tooShort config of
        [] \<Rightarrow> None
      | (path, message) # _ \<Rightarrow> Some (ValidationError_create (join_with ''.'' path) message []))"

type_synonym policy_store = "(string, policy_record) js_map"

definition createPolicyManager :: policy_store where
  "createPolicyManager = []"

record policy_changes =
  pch_label :: "string option"
  pch_allow :: "permission_scope list option"
  pch_deny :: "permission_scope list option"

definition policy_create ::
  "string \<Rightarrow> 8 word list \<Rightarrow> int \<Rightarrow> policy_store \<Rightarrow> policy_config
   \<Rightarrow> (policy_record, signet_error) result \<times> policy_store" where
  "policy_create tooShort random now store config =
     (case policy_validateConfig tooShort config of
        Some e \<Rightarrow> (Err e, store)
      | None \<Rightarrow>
          let pid = createResourceId RT_policy random;
              rec = \<lparr>pr_id = pid, pr_config = config, pr_createdAt = now, pr_updatedAt = now\<rparr>
          in (Ok rec, map_set store pid rec))"

definition policy_list :: "policy_store \<Rightarrow> policy_record list" where
  "policy_list store = map_values store"

definition policy_lookup :: "policy_store \<Rightarrow> string \<Rightarrow> (policy_record, signet_error) result" where
  "policy_lookup store policyId =
     (case map_get store policyId of
        None \<Rightarrow> Err (NotFoundError_create ''policy'' policyId)
      | Some rec \<Rightarrow> Ok rec)"

definition merge_policy_config :: "policy_config \<Rightarrow> policy_changes \<Rightarrow> policy_config" where
  "merge_policy_config config changes =
     \<lparr>pc_label = nullish (pch_label changes) (pc_label config),
      pc_allow = nullish (pch_allow changes) (pc_allow config),
      pc_deny = nullish (pch_deny changes) (pc_deny config)\<rparr>"

definition policy_update ::
  "string \<Rightarrow> int \<Rightarrow> policy_store \<Rightarrow> string \<Rightarrow> policy_changes
   \<Rightarrow> (policy_record, signet_error) result \<times> policy_store" where
  "policy_update tooShort now store policyId changes =
     (case map_get store policyId of
        None \<Rightarrow> (Err (NotFoundError_create ''policy'' policyId), store)
      | Some existing \<Rightarrow>
          let merged = merge_policy_config (pr_config existing) changes
          in case policy_validateConfig tooShort merged of
               Some e \<Rightarrow> (Err e, store)
             | None \<Rightarrow>
                 let updated = existing\<lparr>pr_config := merged, pr_updatedAt := now\<rparr>
                 in (Ok updated, map_set store policyId updated))"

definition policy_remove :: "policy_store \<Rightarrow> string \<Rightarrow> (unit, signet_error) result \<times> policy_store" where
  "policy_remove store policyId =
     (case map_get store policyId of
        None \<Rightarrow> (Err (NotFoundError_create ''policy'' policyId), store)
      | Some _ \<Rightarrow> (Ok (), map_delete store policyId))"

definition resolvePolicyId :: "policy_store \<Rightarrow> string \<Rightarrow> (string, signet_error) result" where
  "resolvePolicyId store idOrLabel =
     (if starts_with idOrLabel ''policy_''
      then if \<not> resource_id_ok (RESOURCE_PREFIXES RT_policy) idOrLabel
           then Err (ValidationError_create ''policyId'' (''Invalid policy ID format: '' @ idOrLabel) [])
           else Ok idOrLabel
      else
        let ms = filter (\<lambda>p. pc_label (pr_config p) = idOrLabel) (policy_list store)
        in case ms of
             [] \<Rightarrow> Err (NotFoundError_create ''policy'' idOrLabel)
           | [m] \<Rightarrow> Ok (pr_id m)
           | _ \<Rightarrow> Err (ValidationError_create ''policyId'' ''Ambiguous policy label''
                    [(''label'', VStr idOrLabel), (''matchingIds'', VArr (map (VStr \<circ> pr_id) ms))]))"

subsection \<open>The invariant\<close>

text \<open>A policy is stored under its own identifier, with a label, and never updated before it was
  created (for a clock that does not run backwards).\<close>

definition policy_ok :: "int \<Rightarrow> string \<Rightarrow> policy_record \<Rightarrow> bool" where
  "policy_ok now k rec \<longleftrightarrow>
     pr_id rec = k \<and> pc_label (pr_config rec) \<noteq> [] \<and>
     pr_createdAt rec \<le> pr_updatedAt rec \<and> pr_updatedAt rec \<le> now"

definition policy_inv :: "int \<Rightarrow> policy_store \<Rightarrow> bool" where
  "policy_inv now store \<longleftrightarrow> map_wf store \<and> list_all (\<lambda>(k, rec). policy_ok now k rec) store"

lemma policy_inv_get:
  "policy_inv now m \<longleftrightarrow> map_wf m \<and> (\<forall>k rec. map_get m k = Some rec \<longrightarrow> policy_ok now k rec)"
  unfolding policy_inv_def by (auto simp: list_all_iff map_entries_get [symmetric])

lemma policy_validate_None: "policy_validateConfig ts c = None \<longleftrightarrow> pc_label c \<noteq> []"
  by (auto simp: policy_validateConfig_def PolicyConfig_issues_def)

lemma policy_inv_later: "policy_inv t m \<Longrightarrow> t \<le> now \<Longrightarrow> policy_inv now m"
  by (force simp: policy_inv_get policy_ok_def)

lemma policy_create_inv:
  "policy_inv t m \<Longrightarrow> t \<le> now \<Longrightarrow> policy_inv now (snd (policy_create ts rnd now m c))"
  using policy_inv_later [of t m now]
  by (auto simp: policy_create_def Let_def policy_validate_None policy_inv_get policy_ok_def
        split: option.split)

lemma policy_update_inv:
  "policy_inv t m \<Longrightarrow> t \<le> now \<Longrightarrow> policy_inv now (snd (policy_update ts now m k ch))"
  using policy_inv_later [of t m now]
  by (force simp: policy_update_def Let_def policy_validate_None policy_inv_get policy_ok_def
        split: option.split)

lemma policy_remove_inv: "policy_inv t m \<Longrightarrow> policy_inv t (snd (policy_remove m k))"
  by (auto simp: policy_remove_def policy_inv_get split: option.split)

interpretation pol: label_resolver resolvePolicyId "\<lambda>s. starts_with s ''policy_''"
    policy_list "\<lambda>p. pc_label (pr_config p)" pr_id
  by unfold_locales (auto simp: resolvePolicyId_def Let_def split: if_splits list.splits)

subsection \<open>Properties\<close>

text \<open>Every policy operation keeps the store invariant, and what a later lookup finds is
  what the operation stored: an updated policy keeps its identifier and creation time and has
  exactly the given fields replaced, a removed one is unknown, and no other policy changes.\<close>

theorem policy_operations_exact:
  assumes "policy_inv t store" and "t \<le> now"
  shows "policy_inv now (snd (policy_create tooShort random now store config)) \<and>
         policy_inv now (snd (policy_update tooShort now store k changes)) \<and>
         policy_inv t (snd (policy_remove store k)) \<and>
         (case policy_update tooShort now store k changes of
            (Err _, store') \<Rightarrow> store' = store
          | (Ok rec, store') \<Rightarrow>
              policy_lookup store' k = Ok rec \<and> pr_id rec = k \<and>
              (case map_get store k of
                 None \<Rightarrow> False
               | Some old \<Rightarrow> pr_createdAt rec = pr_createdAt old \<and>
                   pr_config rec = merge_policy_config (pr_config old) changes)) \<and>
         (case policy_remove store k of
            (Err e, store') \<Rightarrow> e = NotFoundError_create ''policy'' k \<and> store' = store
          | (Ok _, store') \<Rightarrow>
              policy_lookup store' j = (if j = k then Err (NotFoundError_create ''policy'' k) else policy_lookup store j))"
proof (intro conjI)
  show "policy_inv now (snd (policy_create tooShort random now store config))"
    using assms by (rule policy_create_inv)
  show "policy_inv now (snd (policy_update tooShort now store k changes))"
    using assms by (rule policy_update_inv)
  show "policy_inv t (snd (policy_remove store k))"
    using assms(1) by (rule policy_remove_inv)
  show "case policy_update tooShort now store k changes of
      (Err _, store') \<Rightarrow> store' = store
    | (Ok rec, store') \<Rightarrow>
        policy_lookup store' k = Ok rec \<and> pr_id rec = k \<and>
        (case map_get store k of
           None \<Rightarrow> False
         | Some old \<Rightarrow> pr_createdAt rec = pr_createdAt old \<and>
             pr_config rec = merge_policy_config (pr_config old) changes)"
    using assms(1)
    by (auto simp: policy_update_def policy_lookup_def Let_def policy_inv_get policy_ok_def split: option.splits)
  show "case policy_remove store k of
      (Err e, store') \<Rightarrow> e = NotFoundError_create ''policy'' k \<and> store' = store
    | (Ok _, store') \<Rightarrow>
        policy_lookup store' j = (if j = k then Err (NotFoundError_create ''policy'' k) else policy_lookup store j)"
    by (auto simp: policy_remove_def policy_lookup_def split: option.splits)
qed

definition sample_policy :: policy_config where
  "sample_policy = \<lparr>pc_label = ''reader'', pc_allow = [Sc_read_messages], pc_deny = [Sc_send]\<rparr>"

theorem policy_operations_exact_witness:
  "policy_inv 9 (snd (policy_update ''short'' 9
     (snd (policy_create ''short'' [255, 16] 7 [] sample_policy)) (createResourceId RT_policy [255, 16])
     \<lparr>pch_label = None, pch_allow = Some [], pch_deny = None\<rparr>))"
proof -
  have "policy_inv 7 (snd (policy_create ''short'' [255, 16] 7 [] sample_policy))"
    by (rule policy_operations_exact [of 7 "[]" 7, THEN conjunct1]) (simp_all add: policy_inv_def)
  then show ?thesis
    by (rule policy_operations_exact [of 7 _ 9, THEN conjunct2, THEN conjunct1]) simp
qed

end
