(* ===== verification/CredentialService.thy ===== *)
theory CredentialService
  imports CredentialInvariant PolicyManager
begin

text \<open>
  The credential service over the manager (\<^verbatim>\<open>packages/sessions/src/service.ts\<close>), the in-place
  scope update (\<^verbatim>\<open>packages/sessions/src/update-actions.ts\<close>) and the reveal actions
  (\<^verbatim>\<open>packages/sessions/src/reveal-actions.ts\<close>). The policy manager is an optional store of
  policies, only read here.
\<close>

subsection \<open>Views of a record\<close>

record runtime_credential =
  rc_record :: credential_record
  rc_credentialId :: string
  rc_operatorId :: string
  rc_effectiveScopes :: scope_set
  rc_isExpired :: bool
  rc_lastHeartbeat :: int

definition toSchemaCredentialRecord :: "internal_credential \<Rightarrow> credential_record" where
  "toSchemaCredentialRecord rec =
     \<lparr>cr_id = ic_credentialId rec,
      cr_config = \<lparr>cc_operatorId = ic_operatorId rec, cc_chatIds = ic_chatIds rec, cc_policyId = None,
                   cc_allow = Some (allow (ic_effectiveScopes rec)),
                   cc_deny = Some (deny (ic_effectiveScopes rec)), cc_ttlSeconds = None\<rparr>,
      cr_inboxIds = [],
      cr_status = ic_status rec,
      cr_issuedAt = ic_issuedAt rec,
      cr_expiresAt = ic_expiresAt rec,
      cr_issuedBy = ic_issuedBy rec\<rparr>"

definition toCredentialRecord :: "int \<Rightarrow> internal_credential \<Rightarrow> runtime_credential" where
  "toCredentialRecord now rec =
     \<lparr>rc_record = toSchemaCredentialRecord rec,
      rc_credentialId = ic_credentialId rec,
      rc_operatorId = ic_operatorId rec,
      rc_effectiveScopes = \<lparr>allow = allow (ic_effectiveScopes rec), deny = deny (ic_effectiveScopes rec)\<rparr>,
      rc_isExpired = (ic_status rec = CS_expired \<or> ic_expiresAt rec \<le> now),
      rc_lastHeartbeat = ic_lastHeartbeat rec\<rparr>"

definition toIssuedCredential :: "internal_credential \<Rightarrow> issued_credential" where
  "toIssuedCredential rec = \<lparr>ic_token = ic_tok rec, ic_credential = toSchemaCredentialRecord rec\<rparr>"

definition resolvePolicyScopes ::
  "policy_store option \<Rightarrow> string \<Rightarrow> permission_scope list option \<Rightarrow> permission_scope list option
   \<Rightarrow> (scope_set, signet_error) result" where
  "resolvePolicyScopes policyManager policyId inlineAllow inlineDeny =
     (case policyManager of
        None \<Rightarrow> Err (NotFoundError_create ''policy'' policyId)
      | Some store \<Rightarrow>
          (case policy_lookup store policyId of
             Err e \<Rightarrow> Err e
           | Ok rec \<Rightarrow> Ok (resolvePolicy (pr_config rec) inlineAllow inlineDeny)))"

subsection \<open>The service\<close>

definition service_issue ::
  "cm_env \<Rightarrow> int \<Rightarrow> 8 word list \<Rightarrow> 8 word list \<Rightarrow> policy_store option \<Rightarrow> cm_state \<Rightarrow> credential_config
   \<Rightarrow> string option \<Rightarrow> (issued_credential, signet_error) result \<times> cm_state" where
  "service_issue env now idBytes tokenBytes policies st config issuedBy =
     (let st1 = snd (sweepExpired env now st);
          resolvedConfig =
            (case cc_policyId config of
               None \<Rightarrow> Ok config
             | Some policyId \<Rightarrow>
                 (case resolvePolicyScopes policies policyId (cc_allow config) (cc_deny config) of
                    Err e \<Rightarrow> Err e
                  | Ok scopes \<Rightarrow> Ok (config\<lparr>cc_allow := Some (allow scopes), cc_deny := Some (deny scopes)\<rparr>)))
      in case resolvedConfig of
           Err e \<Rightarrow> (Err e, st1)
         | Ok cfg \<Rightarrow>
             let credentialId = generateCredentialId idBytes;
                 issueOptions = \<lparr>io_credentialId = Some credentialId, io_issuedBy = issuedBy\<rparr>
             in case issueCredential env now idBytes tokenBytes st1 cfg issueOptions of
                  (Err e, st2) \<Rightarrow> (Err e, st2)
                | (Ok rec, st2) \<Rightarrow> (Ok (toIssuedCredential rec), st2))"

definition service_list ::
  "cm_env \<Rightarrow> int \<Rightarrow> cm_state \<Rightarrow> string option \<Rightarrow> runtime_credential list \<times> cm_state" where
  "service_list env now st operatorId =
     (let st1 = snd (sweepExpired env now st)
      in (map (toCredentialRecord now) (listCredentials st1 operatorId), st1))"

definition service_lookup ::
  "cm_env \<Rightarrow> int \<Rightarrow> cm_state \<Rightarrow> string \<Rightarrow> (runtime_credential, signet_error) result \<times> cm_state" where
  "service_lookup env now st credentialId =
     (let st1 = snd (sweepExpired env now st)
      in case getCredentialById st1 credentialId of
           Err e \<Rightarrow> (Err e, st1)
         | Ok rec \<Rightarrow> (Ok (toCredentialRecord now rec), st1))"

definition service_lookupByToken ::
  "int \<Rightarrow> cm_state \<Rightarrow> string \<Rightarrow> (runtime_credential, signet_error) result \<times> cm_state" where
  "service_lookupByToken now st token =
     (case getCredentialByToken now st token of
        (Err e, st') \<Rightarrow> (Err e, st')
      | (Ok rec, st') \<Rightarrow> (Ok (toCredentialRecord now rec), st'))"

definition service_revoke ::
  "int \<Rightarrow> cm_state \<Rightarrow> string \<Rightarrow> credential_revocation_reason \<Rightarrow> (unit, signet_error) result \<times> cm_state" where
  "service_revoke now st credentialId reason =
     (case revokeCredential now st credentialId reason of
        (Err e, st') \<Rightarrow> (Err e, st')
      | (Ok _, st') \<Rightarrow> (Ok (), st'))"

text \<open>The partial configuration of an update.\<close>

record credential_changes =
  chg_operatorId :: "string option"
  chg_chatIds :: "string list option"
  chg_policyId :: "string option"
  chg_allow :: "permission_scope list option"
  chg_deny :: "permission_scope list option"
  chg_ttlSeconds :: "int option"

text \<open>Installing new scopes: an escalation revokes the credential instead.\<close>

definition apply_scopes ::
  "cm_env \<Rightarrow> int \<Rightarrow> cm_state \<Rightarrow> string \<Rightarrow> scope_set \<Rightarrow> (runtime_credential, signet_error) result \<times> cm_state" where
  "apply_scopes env now st credentialId nextScopes =
     (case cm_checkMateriality st credentialId nextScopes of
        Err e \<Rightarrow> (Err e, st)
      | Ok check \<Rightarrow>
          if mc_requiresReauthorization check
          then (case revokeCredential now st credentialId CR_reauthorization_required of
                  (Err e, st') \<Rightarrow> (Err e, st')
                | (Ok rec, st') \<Rightarrow> (Ok (toCredentialRecord now rec), st'))
          else (case updateCredentialScopes env st credentialId nextScopes of
                  (Err e, st') \<Rightarrow> (Err e, st')
                | (Ok rec, st') \<Rightarrow> (Ok (toCredentialRecord now rec), st')))"

definition service_update ::
  "cm_env \<Rightarrow> int \<Rightarrow> policy_store option \<Rightarrow> cm_state \<Rightarrow> string \<Rightarrow> credential_changes
   \<Rightarrow> (runtime_credential, signet_error) result \<times> cm_state" where
  "service_update env now policies st credentialId changes =
     (case getCredentialById st credentialId of
        Err e \<Rightarrow> (Err e, st)
      | Ok current \<Rightarrow>
          if chg_operatorId changes \<noteq> None \<or> chg_chatIds changes \<noteq> None \<or> chg_ttlSeconds changes \<noteq> None
          then (Err (ValidationError_create ''changes''
                  ''Credential updates only support allow/deny/policyId changes'' []), st)
          else
            let hasScopeChanges =
                  (chg_allow changes \<noteq> None \<or> chg_deny changes \<noteq> None \<or> chg_policyId changes \<noteq> None)
            in if \<not> hasScopeChanges then (Ok (toCredentialRecord now current), st)
               else
                 let effectiveAllow = nullish (chg_allow changes) (allow (ic_effectiveScopes current));
                     effectiveDeny = nullish (chg_deny changes) (deny (ic_effectiveScopes current))
                 in case chg_policyId changes of
                      None \<Rightarrow> apply_scopes env now st credentialId \<lparr>allow = effectiveAllow, deny = effectiveDeny\<rparr>
                    | Some policyId \<Rightarrow>
                        (case resolvePolicyScopes policies policyId (chg_allow changes) (chg_deny changes) of
                           Err e \<Rightarrow> (Err e, st)
                         | Ok scopes \<Rightarrow>
                             apply_scopes env now st credentialId \<lparr>allow = allow scopes, deny = deny scopes\<rparr>))"

definition service_renew ::
  "(string \<Rightarrow> 8 word list) \<Rightarrow> cm_env \<Rightarrow> int \<Rightarrow> cm_state \<Rightarrow> string \<Rightarrow> (credential_token, signet_error) result \<times> cm_state" where
  "service_renew sha256 env now st credentialId =
     (case renewCredential env now st credentialId of
        (Err e, st') \<Rightarrow> (Err e, st')
      | (Ok rec, st') \<Rightarrow>
          let fingerprint = fingerprintToken sha256 (ic_tok rec)
          in (Ok \<lparr>ct_credentialId = ic_credentialId rec, ct_operatorId = ic_operatorId rec,
                  ct_fingerprint = fingerprint, ct_issuedAt = ic_issuedAt rec,
                  ct_expiresAt = ic_expiresAt rec\<rparr>, st'))"

subsection \<open>Updating scopes in place\<close>

record update_result =
  ur_updated :: bool
  ur_material :: bool
  ur_reason :: "string option"

definition updateScopes ::
  "cm_env \<Rightarrow> int \<Rightarrow> cm_state \<Rightarrow> string \<Rightarrow> scope_set \<Rightarrow> (update_result, signet_error) result \<times> cm_state" where
  "updateScopes env now st credentialId scopes =
     (case service_lookup env now st credentialId of
        (Err e, st1) \<Rightarrow> (Err e, st1)
      | (Ok credential, st1) \<Rightarrow>
          if cr_status (rc_record credential) \<noteq> CS_active
          then (Err (AuthError_create ''Credential is not active''
                  (Some [(''credentialId'', VStr credentialId),
                         (''status'', VStr (credential_status_text (cr_status (rc_record credential))))])), st1)
          else case cm_checkMateriality st1 credentialId scopes of
                 Err e \<Rightarrow> (Err e, st1)
               | Ok check \<Rightarrow>
                   if mc_requiresReauthorization check
                   then (case revokeCredential now st1 credentialId CR_reauthorization_required of
                           (Err e, st2) \<Rightarrow> (Err e, st2)
                         | (Ok _, st2) \<Rightarrow>
                             (Ok \<lparr>ur_updated = False, ur_material = True, ur_reason = mc_reason check\<rparr>, st2))
                   else (case updateCredentialScopes env st1 credentialId scopes of
                           (Err e, st2) \<Rightarrow> (Err e, st2)
                         | (Ok _, st2) \<Rightarrow>
                             (Ok \<lparr>ur_updated = True, ur_material = mc_isMaterial check,
                                  ur_reason = mc_reason check\<rparr>, st2)))"

subsection \<open>Reveal actions\<close>

definition resolveCredentialTarget :: "string \<Rightarrow> string option \<Rightarrow> (string, signet_error) result" where
  "resolveCredentialTarget requestedCredentialId authenticatedCredentialId =
     (case authenticatedCredentialId of
        None \<Rightarrow> Ok requestedCredentialId
      | Some a \<Rightarrow>
          if a \<noteq> requestedCredentialId
          then Err (PermissionError_create
                 ''Credential-scoped reveal actions may only target the authenticated credential''
                 (Some [(''authenticatedCredentialId'', VStr a),
                        (''requestedCredentialId'', VStr requestedCredentialId)]))
          else Ok requestedCredentialId)"

record reveal_request_input =
  ri_credentialId :: string
  ri_chatId :: string
  ri_scope :: reveal_scope
  ri_targetId :: string
  ri_requestedBy :: string
  ri_expiresAt :: "string option"

definition reveal_action_request ::
  "cm_env \<Rightarrow> int \<Rightarrow> string \<Rightarrow> cm_state \<Rightarrow> reveal_request_input \<Rightarrow> string option
   \<Rightarrow> (reveal_access, signet_error) result \<times> cm_state" where
  "reveal_action_request env now uuid st input ctxCredentialId =
     (case resolveCredentialTarget (ri_credentialId input) ctxCredentialId of
        Err e \<Rightarrow> (Err e, st)
      | Ok target \<Rightarrow>
          (case service_lookup env now st target of
             (Err e, st1) \<Rightarrow> (Err e, st1)
           | (Ok credential, st1) \<Rightarrow>
               let status = cr_status (rc_record credential)
               in if status \<noteq> CS_active
               then (Err (PermissionError_create
                       (''Credential is '' @ credential_status_text status @
                        '' -- reveal requests require an active credential'')
                       (Some [(''credentialId'', VStr (ri_credentialId input)),
                              (''authenticatedCredentialId'', v_opt_str ctxCredentialId),
                              (''status'', VStr (credential_status_text status))])), st1)
               else if ri_chatId input \<notin> set (cc_chatIds (cr_config (rc_record credential)))
               then (Err (PermissionError_create ''Chat is not within the credential's scoped conversations''
                       (Some [(''credentialId'', VStr (ri_credentialId input)),
                              (''authenticatedCredentialId'', v_opt_str ctxCredentialId),
                              (''chatId'', VStr (ri_chatId input))])), st1)
               else case getRevealState st1 target of
                      (Err e, st2) \<Rightarrow> (Err e, st2)
                    | (Ok store, st2) \<Rightarrow>
                        let access = \<lparr>ra_revealId = uuid, ra_grantedAt = now,
                                      ra_grantedBy = ri_requestedBy input, ra_expiresAt = ri_expiresAt input\<rparr>;
                            request = \<lparr>rq_revealId = uuid, rq_groupId = ri_chatId input, rq_scope = ri_scope input,
                                       rq_targetId = ri_targetId input, rq_requestedBy = ri_requestedBy input,
                                       rq_expiresAt = ri_expiresAt input\<rparr>
                        in (Ok access,
                            st2\<lparr>revealStates := map_set (revealStates st2) target (reveal_record store access request)\<rparr>)))"

definition reveal_action_list ::
  "cm_state \<Rightarrow> string \<Rightarrow> string option \<Rightarrow> (reveal_entry list, signet_error) result \<times> cm_state" where
  "reveal_action_list st credentialId ctxCredentialId =
     (case resolveCredentialTarget credentialId ctxCredentialId of
        Err e \<Rightarrow> (Err e, st)
      | Ok target \<Rightarrow>
          (case getRevealState st target of
             (Err e, st1) \<Rightarrow> (Err e, st1)
           | (Ok store, st1) \<Rightarrow> (Ok (reveal_snapshot store), st1)))"

subsection \<open>What an active credential permits\<close>

definition active_scopes :: "cm_state \<Rightarrow> string \<Rightarrow> permission_scope set" where
  "active_scopes st k =
     (case map_get (byId st) k of
        None \<Rightarrow> {}
      | Some rec \<Rightarrow> if ic_status rec = CS_active then set (ic_resolvedScopes rec) else {})"

lemma active_scopes_sweep:
  assumes "cm_inv env st"
  shows "active_scopes (snd (sweepExpired env now st)) k \<subseteq> active_scopes st k"
  using sweepExpired_facts [OF assms, of now k]
  by (auto simp: active_scopes_def sweep_verdict_def split: option.splits if_splits)

lemma active_scopes_revoke:
  "active_scopes (snd (revokeCredential now st j reason)) k = (if k = j then {} else active_scopes st k)"
  by (cases "map_get (byId st) j")
    (auto simp: revokeCredential_def revokeRecord_Some active_scopes_def split: option.splits)

lemma active_scopes_update:
  assumes inv: "cm_inv env st" and rec: "map_get (byId st) j = Some rec"
    and no: "\<not> mc_requiresReauthorization (checkMateriality (ic_effectiveScopes rec) scopes)"
  shows "active_scopes (snd (updateCredentialScopes env st j scopes)) k \<subseteq> active_scopes st k"
proof -
  have "\<not> requiresReauthorization (OneDelta (session_delta (ic_effectiveScopes rec) scopes))"
    using no by (simp add: checkMateriality_reauth)
  then have gain: "effective scopes s \<Longrightarrow> effective (ic_effectiveScopes rec) s" for s
    using session.reauth_iff_gain by blast
  have "ic_resolvedScopes rec = resolveScopeSet (ic_effectiveScopes rec)"
    using cm_inv_ok [OF inv rec] by (simp add: credential_ok_def)
  then have "set (resolveScopeSet scopes) \<subseteq> set (ic_resolvedScopes rec)"
    using gain resolved_effective by (metis subsetI)
  then show ?thesis
    using rec by (auto simp: updateCredentialScopes_def Let_def mutateRecord_Some active_scopes_def
        split: option.splits)
qed

lemma active_scopes_apply:
  assumes "cm_inv env st"
  shows "active_scopes (snd (apply_scopes env now st j scopes)) k \<subseteq> active_scopes st k"
proof (cases "map_get (byId st) j")
  case None
  then show ?thesis by (simp add: apply_scopes_def cm_checkMateriality_def)
next
  case (Some rec)
  then show ?thesis
    using active_scopes_update [OF assms Some, of scopes k] active_scopes_revoke [of now st j _ k]
    by (auto simp: apply_scopes_def cm_checkMateriality_def pair_result_cases split: if_splits)
qed

lemma cm_inv_sweep: "cm_inv env st \<Longrightarrow> cm_inv env (snd (sweepExpired env now st))"
  using cm_ok_sweep by (simp add: cm_ok_def)

subsection \<open>Properties\<close>

text \<open>C2: Changing a credential never widens what it permits. Whatever the outcome of a service
  update or of an in-place scope update, and for every credential, each scope an active
  credential permits afterwards it already permitted as an active credential before.\<close>

theorem updates_never_escalate:
  assumes "cm_inv env st"
  shows "active_scopes (snd (service_update env now policies st j changes)) k \<subseteq> active_scopes st k \<and>
         active_scopes (snd (updateScopes env now st j scopes)) k \<subseteq> active_scopes st k"
proof
  show "active_scopes (snd (service_update env now policies st j changes)) k \<subseteq> active_scopes st k"
    using active_scopes_apply [OF assms]
    by (auto simp: service_update_def Let_def split: result.splits option.splits)
  let ?st = "snd (sweepExpired env now st)"
  note sw = active_scopes_sweep [OF assms, of now k]
  show "active_scopes (snd (updateScopes env now st j scopes)) k \<subseteq> active_scopes st k"
  proof (cases "map_get (byId ?st) j")
    case None
    then show ?thesis using sw by (simp add: updateScopes_def service_lookup_def Let_def getCredentialById_def)
  next
    case (Some rec)
    then show ?thesis
      using sw active_scopes_update [OF cm_inv_sweep [OF assms] Some, of scopes k]
        active_scopes_revoke [of now ?st j _ k]
      by (auto simp: updateScopes_def service_lookup_def Let_def getCredentialById_def
          cm_checkMateriality_def pair_result_cases split: if_splits)
  qed
qed

theorem updates_never_escalate_witness:
  "active_scopes (snd (updateScopes sample_env 10 sample_issued (generateCredentialId [1])
     \<lparr>allow = [Sc_send, Sc_read_messages], deny = []\<rparr>)) (generateCredentialId [1])
   \<subseteq> active_scopes sample_issued (generateCredentialId [1])"
  using cm_reachable_preserves [OF sample_issued_reachable]
  by (intro updates_never_escalate [THEN conjunct2]) simp


definition sample_reveal_input :: reveal_request_input where
  "sample_reveal_input =
     \<lparr>ri_credentialId = generateCredentialId [1], ri_chatId = ''conv_1'', ri_scope = RS_message,
      ri_targetId = ''m'', ri_requestedBy = ''op'', ri_expiresAt = None\<rparr>"


end
