(* ===== verification/OperatorManager.thy ===== *)
theory OperatorManager
  imports CredentialTypes Labels
begin

text \<open>
  Operators: the schema (\<^verbatim>\<open>packages/schemas/src/operator.ts\<close>), the manager
  (\<^verbatim>\<open>packages/sessions/src/operator-manager.ts\<close>) and the resolution of an operator by
  identifier or label (\<^verbatim>\<open>packages/sessions/src/operator-actions.ts\<close>). The wording of the schema
  library's own message for a string that is too short is the argument \<open>tooShort\<close>.
\<close>

datatype operator_role = OR_operator | OR_admin | OR_superadmin

datatype scope_mode = SM_per_chat | SM_shared

datatype operator_status = OS_active | OS_suspended | OS_removed

datatype wallet_provider = WP_internal | WP_ows

datatype inference_mode = IM_local | IM_cloud | IM_hybrid

datatype content_egress_scope = CE_none | CE_provider_only | CE_unrestricted

datatype hosting_mode = HM_self_hosted | HM_cloud | HM_tee

record operator_disclosures =
  od_inferenceMode :: "inference_mode option"
  od_inferenceProviders :: "string list option"
  od_contentEgressScope :: "content_egress_scope option"
  od_retentionAtProvider :: "string option"
  od_hostingMode :: "hosting_mode option"

record operator_config =
  oc_label :: string
  oc_role :: operator_role
  oc_scopeMode :: scope_mode
  oc_provider :: wallet_provider
  oc_walletId :: "string option"
  oc_inboxIds :: "string list option"
  oc_disclosures :: "operator_disclosures option"

record operator_record =
  or_id :: string
  or_config :: operator_config
  or_createdAt :: int
  or_createdBy :: string
  or_status :: operator_status

text \<open>A partial configuration; an optional field may be given as explicitly undefined.\<close>

record operator_changes =
  och_label :: "string option"
  och_role :: "operator_role option"
  och_scopeMode :: "scope_mode option"
  och_provider :: "wallet_provider option"
  och_walletId :: "string option option"
  och_inboxIds :: "string list option option"
  och_disclosures :: "operator_disclosures option option"

definition resource_id_message :: "resource_type \<Rightarrow> string" where
  "resource_id_message ty =
     ''Must start with '' @ [CHR 0x22] @ RESOURCE_PREFIXES ty @ [CHR 0x22] @ '' followed by ''
       @ int_text (int RESOURCE_ID_HEX_LENGTH) @ '' lowercase hex characters''"

text \<open>The issues the schema finds in a configuration of the right type, in field order.\<close>

definition OperatorConfig_issues :: "string \<Rightarrow> operator_config \<Rightarrow> (string list \<times> string) list" where
  "OperatorConfig_issues tooShort config =
     (if length (oc_label config) < 1 then [([''label''], tooShort)] else []) @
     (case oc_inboxIds config of
        None \<Rightarrow> []
      | Some ids \<Rightarrow>
          concat (map (\<lambda>(i, s). if resource_id_ok (RESOURCE_PREFIXES RT_inbox) s then []
                               else [([''inboxIds'', digits_of i], resource_id_message RT_inbox)])
                   (enumerate 0 ids)))"

definition operator_validateConfig :: "string \<Rightarrow> operator_config \<Rightarrow> signet_error option" where
  "operator_validateConfig tooShort config =
     (case OperatorConfig_issues tooShort config of
        [] \<Rightarrow> None
      | (path, message) # _ \<Rightarrow> Some (ValidationError_create (join_with ''.'' path) message []))"

subsection \<open>The manager\<close>

type_synonym operator_store = "(string, operator_record) js_map"

definition createOperatorManager :: operator_store where
  "createOperatorManager = []"

definition operator_role_text :: "operator_role \<Rightarrow> string" where
  "operator_role_text r =
     (case r of OR_operator \<Rightarrow> ''operator'' | OR_admin \<Rightarrow> ''admin'' | OR_superadmin \<Rightarrow> ''superadmin'')"

definition operator_create ::
  "string \<Rightarrow> 8 word list \<Rightarrow> int \<Rightarrow> operator_store \<Rightarrow> operator_config
   \<Rightarrow> (operator_record, signet_error) result \<times> operator_store" where
  "operator_create tooShort random now store config =
     (case operator_validateConfig tooShort config of
        Some e \<Rightarrow> (Err e, store)
      | None \<Rightarrow>
          if oc_role config = OR_superadmin
          then (Err (PermissionError_create
                  ''Cannot create operator with superadmin role without owner authorization''
                  (Some [(''role'', VStr (operator_role_text (oc_role config)))])), store)
          else
            let oid = createResourceId RT_operator random;
                rec = \<lparr>or_id = oid, or_config = config, or_createdAt = now,
                       or_createdBy = ''owner'', or_status = OS_active\<rparr>
            in (Ok rec, map_set store oid rec))"

definition operator_list :: "operator_store \<Rightarrow> operator_record list" where
  "operator_list store =
     foldl (\<lambda>active rec. if or_status rec \<noteq> OS_removed then active @ [rec] else active)
       [] (map_values store)"

definition operator_lookup :: "operator_store \<Rightarrow> string \<Rightarrow> (operator_record, signet_error) result" where
  "operator_lookup store operatorId =
     (case map_get store operatorId of
        None \<Rightarrow> Err (NotFoundError_create ''operator'' operatorId)
      | Some rec \<Rightarrow> Ok rec)"

definition merge_operator_config :: "operator_config \<Rightarrow> operator_changes \<Rightarrow> operator_config" where
  "merge_operator_config config changes =
     \<lparr>oc_label = nullish (och_label changes) (oc_label config),
      oc_role = nullish (och_role changes) (oc_role config),
      oc_scopeMode = nullish (och_scopeMode changes) (oc_scopeMode config),
      oc_provider = nullish (och_provider changes) (oc_provider config),
      oc_walletId = nullish (och_walletId changes) (oc_walletId config),
      oc_inboxIds = nullish (och_inboxIds changes) (oc_inboxIds config),
      oc_disclosures = nullish (och_disclosures changes) (oc_disclosures config)\<rparr>"

definition operator_update ::
  "string \<Rightarrow> operator_store \<Rightarrow> string \<Rightarrow> operator_changes
   \<Rightarrow> (operator_record, signet_error) result \<times> operator_store" where
  "operator_update tooShort store operatorId changes =
     (case map_get store operatorId of
        None \<Rightarrow> (Err (NotFoundError_create ''operator'' operatorId), store)
      | Some existing \<Rightarrow>
          if och_role changes = Some OR_superadmin
          then (Err (PermissionError_create ''Cannot escalate operator role to superadmin''
                  (Some [(''operatorId'', VStr operatorId), (''requestedRole'', VStr ''superadmin'')])), store)
          else
            let merged = merge_operator_config (or_config existing) changes
            in case operator_validateConfig tooShort merged of
                 Some e \<Rightarrow> (Err e, store)
               | None \<Rightarrow>
                   let updated = existing\<lparr>or_config := merged\<rparr>
                   in (Ok updated, map_set store operatorId updated))"

text \<open>
  Removal awaits the revocation hook between reading the record and writing it back. The hook
  may act on the world outside and, while it is awaited, other operations may act on the store;
  both are in the store and world it hands back. The record written is the one read before.
\<close>

definition operator_remove ::
  "(string \<Rightarrow> credential_revocation_reason \<Rightarrow> operator_store \<times> 'w
      \<Rightarrow> (unit, signet_error) result \<times> operator_store \<times> 'w) option
   \<Rightarrow> operator_store \<times> 'w \<Rightarrow> string \<Rightarrow> (unit, signet_error) result \<times> operator_store \<times> 'w" where
  "operator_remove revokeCredentials s operatorId =
     (case map_get (fst s) operatorId of
        None \<Rightarrow> (Err (NotFoundError_create ''operator'' operatorId), s)
      | Some existing \<Rightarrow>
          let (revokeResult, store, w) =
            (case revokeCredentials of
               None \<Rightarrow> (Ok (), s)
             | Some revoke \<Rightarrow> revoke operatorId CR_owner_initiated s)
          in case revokeResult of
               Err e \<Rightarrow> (Err e, store, w)
             | Ok _ \<Rightarrow> (Ok (), map_set store operatorId (existing\<lparr>or_status := OS_removed\<rparr>), w))"

definition resolveOperatorId :: "operator_store \<Rightarrow> string \<Rightarrow> (string, signet_error) result" where
  "resolveOperatorId store idOrLabel =
     (if starts_with idOrLabel ''op_''
      then if \<not> resource_id_ok (RESOURCE_PREFIXES RT_operator) idOrLabel
           then Err (ValidationError_create ''operatorId''
                      (''Invalid operator ID format: '' @ idOrLabel) [])
           else Ok idOrLabel
      else
        let ms = filter (\<lambda>rec. oc_label (or_config rec) = idOrLabel) (operator_list store)
        in case ms of
             [] \<Rightarrow> Err (NotFoundError_create ''operator'' idOrLabel)
           | [m] \<Rightarrow> Ok (or_id m)
           | _ \<Rightarrow> Err (ValidationError_create ''operatorId'' ''Ambiguous operator label''
                    [(''label'', VStr idOrLabel), (''matchingIds'', VArr (map (VStr \<circ> or_id) ms))]))"

subsection \<open>The invariant\<close>

text \<open>
  An operator is stored under its own identifier, its configuration passes the schema, and none
  has the superadmin role: the guards of \<open>create\<close> and \<open>update\<close> leave no way to make one.
\<close>

definition operator_ok :: "string \<Rightarrow> string \<Rightarrow> operator_record \<Rightarrow> bool" where
  "operator_ok tooShort k rec \<longleftrightarrow>
     or_id rec = k \<and> oc_role (or_config rec) \<noteq> OR_superadmin \<and>
     OperatorConfig_issues tooShort (or_config rec) = []"

definition operator_inv :: "string \<Rightarrow> operator_store \<Rightarrow> bool" where
  "operator_inv tooShort store \<longleftrightarrow> map_wf store \<and> list_all (\<lambda>(k, rec). operator_ok tooShort k rec) store"

lemma operator_inv_get:
  "operator_inv ts m \<longleftrightarrow> map_wf m \<and> (\<forall>k rec. map_get m k = Some rec \<longrightarrow> operator_ok ts k rec)"
  unfolding operator_inv_def by (auto simp: list_all_iff map_entries_get [symmetric])

lemma operator_inv_set: "operator_inv ts m \<Longrightarrow> operator_ok ts k rec \<Longrightarrow> operator_inv ts (map_set m k rec)"
  by (simp add: operator_inv_get)

lemma validate_None: "operator_validateConfig ts c = None \<longleftrightarrow> OperatorConfig_issues ts c = []"
  by (auto simp: operator_validateConfig_def split: list.split)

lemma operator_list_eq: "operator_list m = filter (\<lambda>rec. or_status rec \<noteq> OS_removed) (map_values m)"
  by (simp add: operator_list_def foldl_snoc_if)

lemma operator_create_inv: "operator_inv ts m \<Longrightarrow> operator_inv ts (snd (operator_create ts rnd now m c))"
  by (auto simp: operator_create_def Let_def operator_ok_def validate_None
        intro!: operator_inv_set split: option.split)

lemma operator_update_inv: "operator_inv ts m \<Longrightarrow> operator_inv ts (snd (operator_update ts m k ch))"
  by (auto simp: operator_update_def Let_def operator_ok_def validate_None merge_operator_config_def
        operator_inv_get nullish_def split: option.split)

lemma singleton_case:
  "(case xs of [] \<Rightarrow> Err e | [x] \<Rightarrow> Ok (f x) | _ \<Rightarrow> Err e') = Ok r \<longleftrightarrow> (\<exists>x. xs = [x] \<and> f x = r)"
  by (auto split: list.split)

interpretation opl: label_resolver resolveOperatorId "\<lambda>s. starts_with s ''op_''"
    operator_list "\<lambda>rec. oc_label (or_config rec)" or_id
  by unfold_locales
    (auto simp: resolveOperatorId_def Let_def singleton_case split: if_splits list.splits)

text \<open>What a removal leaves behind, for a hook that leaves the store alone.\<close>

lemma operator_remove_Ok_iff:
  "fst (operator_remove hook s k) = Ok () \<longleftrightarrow>
     map_get (fst s) k \<noteq> None \<and>
     (case hook of None \<Rightarrow> True | Some revoke \<Rightarrow> isOk (fst (revoke k CR_owner_initiated s)))"
  by (auto simp: operator_remove_def Let_def split: option.splits result.splits prod.splits)

lemma operator_remove_store:
  "map_get (fst s) k = Some rec \<Longrightarrow> fst (operator_remove hook s k) = Ok () \<Longrightarrow>
     fst (snd (operator_remove hook s k)) =
       map_set (case hook of None \<Rightarrow> fst s | Some revoke \<Rightarrow> fst (snd (revoke k CR_owner_initiated s)))
         k (rec\<lparr>or_status := OS_removed\<rparr>)"
  by (auto simp: operator_remove_def Let_def split: option.splits result.splits prod.splits)

subsection \<open>Properties\<close>

text \<open>No operation makes a superadmin. Creating or updating an operator keeps the invariant
  that every stored operator is filed under its own identifier, passes the schema and is not a
  superadmin; a request for that role is refused with the store unchanged, and so is a
  configuration the schema rejects, before the role is looked at.\<close>

theorem operator_never_superadmin:
  assumes "operator_inv tooShort store"
  shows "operator_inv tooShort (snd (operator_create tooShort random now store config)) \<and>
         operator_inv tooShort (snd (operator_update tooShort store k changes)) \<and>
         (if oc_role config = OR_superadmin
          then \<not> isOk (fst (operator_create tooShort random now store config)) \<and>
               snd (operator_create tooShort random now store config) = store
          else isOk (fst (operator_create tooShort random now store config)) =
                 (OperatorConfig_issues tooShort config = [])) \<and>
         (if och_role changes = Some OR_superadmin
          then \<not> isOk (fst (operator_update tooShort store k changes)) \<and>
               snd (operator_update tooShort store k changes) = store
          else True)"
  using operator_create_inv [OF assms] operator_update_inv [OF assms]
  by (auto simp: operator_create_def operator_update_def Let_def validate_None [symmetric]
        split: option.splits)

definition sample_operator_config :: "operator_role \<Rightarrow> operator_config" where
  "sample_operator_config role =
     \<lparr>oc_label = ''alice'', oc_role = role, oc_scopeMode = SM_shared, oc_provider = WP_internal,
      oc_walletId = None, oc_inboxIds = None, oc_disclosures = None\<rparr>"

definition no_operator_changes :: operator_changes where
  "no_operator_changes =
     \<lparr>och_label = None, och_role = None, och_scopeMode = None, och_provider = None,
      och_walletId = None, och_inboxIds = None, och_disclosures = None\<rparr>"

theorem operator_never_superadmin_witness:
  "operator_inv ''short'' (snd (operator_create ''short'' [1, 2] 7 [] (sample_operator_config OR_admin)))"
  by (rule operator_never_superadmin [of "''short''" "[]", THEN conjunct1])
    (simp add: operator_inv_def)

text \<open>Removing an operator succeeds exactly when the operator is known and its credentials
  could be revoked. Then it is no longer listed, lookup still finds it with status removed, and
  every other operator is as the revocation left it; when the revocation fails the record is not
  touched.\<close>

theorem operator_remove_exact:
  "case (map_get (fst s) k, operator_remove hook s k) of
     (None, r, s') \<Rightarrow> r = Err (NotFoundError_create ''operator'' k) \<and> s' = s
   | (Some rec, r, s') \<Rightarrow>
       (case hook of
          None \<Rightarrow> r = Ok () \<and> s' = (map_set (fst s) k (rec\<lparr>or_status := OS_removed\<rparr>), snd s)
        | Some revoke \<Rightarrow>
            (case revoke k CR_owner_initiated s of
               (Err e, s'') \<Rightarrow> r = Err e \<and> s' = s''
             | (Ok _, s'') \<Rightarrow> r = Ok () \<and> snd s' = snd s'' \<and>
                 operator_lookup (fst s') k = Ok (rec\<lparr>or_status := OS_removed\<rparr>) \<and>
                 (\<forall>j. j = k \<or> map_get (fst s') j = map_get (fst s'') j)))"
  by (auto simp: operator_remove_def operator_lookup_def Let_def split: option.splits result.splits prod.splits)

text \<open>An operator label resolves only when exactly one operator that is not removed carries
  it, and then to that operator's identifier; an identifier resolves to itself or is refused.\<close>

theorem resolveOperatorId_exact:
  "(resolveOperatorId store s = Ok r) =
     (if starts_with s ''op_'' then r = s \<and> resource_id_ok ''op_'' s
      else \<exists>rec. filter (\<lambda>x. or_status x \<noteq> OS_removed \<and> oc_label (or_config x) = s) (map_values store) = [rec] \<and>
                 or_id rec = r)"
  using opl.resolve_label [of s store r]
  by (auto simp: resolveOperatorId_def operator_list_eq filter_filter split: if_splits)

end
