(* ===== verification/PendingActions.thy ===== *)
theory PendingActions
  imports Expiry
begin

text \<open>
  The store of actions that wait for a confirmation
  (\<^verbatim>\<open>packages/sessions/src/pending-actions.ts\<close>). The payload is of any type. The store is the
  closure's \<open>Map\<close>; an operation that changes it returns its result with the new map.
\<close>

record 'p pending_action =
  pa_actionId :: string
  pa_credentialId :: string
  pa_actionType :: string
  pa_payload :: 'p
  pa_createdAt :: int
  pa_expiresAt :: int

type_synonym 'p pending_store = "(string, 'p pending_action) js_map"

definition createPendingActionStore :: "'p pending_store" where
  "createPendingActionStore = []"

definition removeAndReturn :: "'p pending_store \<Rightarrow> string \<Rightarrow> 'p pending_action option \<times> 'p pending_store" where
  "removeAndReturn actions actionId =
     (case map_get actions actionId of
        None \<Rightarrow> (None, actions)
      | Some action \<Rightarrow> (Some action, map_delete actions actionId))"

definition pending_add :: "'p pending_store \<Rightarrow> 'p pending_action \<Rightarrow> 'p pending_store" where
  "pending_add actions action = map_set actions (pa_actionId action) action"

definition pending_get :: "'p pending_store \<Rightarrow> string \<Rightarrow> 'p pending_action option" where
  "pending_get actions actionId = map_get actions actionId"

definition pending_confirm :: "'p pending_store \<Rightarrow> string \<Rightarrow> 'p pending_action option \<times> 'p pending_store" where
  "pending_confirm actions actionId = removeAndReturn actions actionId"

definition pending_deny :: "'p pending_store \<Rightarrow> string \<Rightarrow> 'p pending_action option \<times> 'p pending_store" where
  "pending_deny actions actionId = removeAndReturn actions actionId"

text \<open>The sweep visits the entries the map had when the loop began and deletes as it goes.\<close>

definition pending_expireStale ::
  "'p pending_store \<Rightarrow> int \<Rightarrow> 'p pending_action list \<times> 'p pending_store" where
  "pending_expireStale actions nowMs =
     foldl (\<lambda>(expired, m) (aid, action).
              if pa_expiresAt action \<le> nowMs
              then (expired @ [action], map_delete m aid)
              else (expired, m))
       ([], actions) actions"

definition pending_listByCredential :: "'p pending_store \<Rightarrow> string \<Rightarrow> 'p pending_action list" where
  "pending_listByCredential actions credentialId =
     foldl (\<lambda>result action. if pa_credentialId action = credentialId then result @ [action] else result)
       [] (map_values actions)"

subsection \<open>The invariant\<close>

text \<open>Keys are distinct, and an action is stored under its own identifier.\<close>

definition pending_wf :: "'p pending_store \<Rightarrow> bool" where
  "pending_wf m \<longleftrightarrow> map_wf m \<and> list_all (\<lambda>(k, a). k = pa_actionId a) m"

lemma pending_wf_get:
  "pending_wf m \<longleftrightarrow> map_wf m \<and> (\<forall>k a. map_get m k = Some a \<longrightarrow> k = pa_actionId a)"
  unfolding pending_wf_def by (auto simp: list_all_iff map_entries_get [symmetric])

lemma pending_wf_empty [simp]: "pending_wf createPendingActionStore"
  by (simp add: pending_wf_def createPendingActionStore_def)

lemma pending_wf_add [simp]: "pending_wf m \<Longrightarrow> pending_wf (pending_add m a)"
  by (simp add: pending_wf_get pending_add_def)

lemma pending_wf_delete: "pending_wf m \<Longrightarrow> pending_wf (map_delete m k)"
  by (simp add: pending_wf_get)

lemma pending_wf_remove [simp]: "pending_wf m \<Longrightarrow> pending_wf (snd (removeAndReturn m k))"
  by (simp add: removeAndReturn_def pending_wf_delete split: option.split)

subsection \<open>The sweep is a filter\<close>

lemma delete_filter: "map_delete m k = filter (\<lambda>(j, a). j \<noteq> k) m"
  by (simp add: map_delete_def AList.delete_eq case_prod_unfold eq_commute)

lemma pending_expireStale_fold:
  "foldl (\<lambda>(ex, m) (aid, a). if pa_expiresAt a \<le> t then (ex @ [a], map_delete m aid) else (ex, m))
     (ex, m) xs =
   (ex @ filter (\<lambda>a. pa_expiresAt a \<le> t) (map snd xs),
    filter (\<lambda>(j, a). j \<notin> fst ` {p \<in> set xs. pa_expiresAt (snd p) \<le> t}) m)"
proof (induction xs arbitrary: ex m)
  case Nil
  show ?case by simp
next
  case (Cons p xs)
  show ?case by (cases p) (force simp: Cons.IH delete_filter image_iff intro!: filter_cong)
qed

lemma pending_expireStale_eq:
  assumes "map_wf m"
  shows "pending_expireStale m t =
     (filter (\<lambda>a. pa_expiresAt a \<le> t) (map_values m), filter (\<lambda>(j, a). t < pa_expiresAt a) m)"
proof -
  have "p \<in> set m \<Longrightarrow> fst p \<notin> fst ` {q \<in> set m. pa_expiresAt (snd q) \<le> t} \<longleftrightarrow> t < pa_expiresAt (snd p)" for p
    using assms unfolding map_wf_def
    by (cases p) (force simp: image_iff not_le dest: eq_key_imp_eq_value)
  then show ?thesis
    unfolding pending_expireStale_def pending_expireStale_fold
    by (auto simp: map_values_def case_prod_unfold intro!: filter_cong)
qed

lemma map_wf_filter: "map_wf m \<Longrightarrow> map_wf (filter P m)"
  by (simp add: map_wf_def distinct_map_filter)

lemma pending_wf_sweep: "pending_wf m \<Longrightarrow> pending_wf (snd (pending_expireStale m t))"
  by (auto simp: pending_wf_def pending_expireStale_eq list_all_iff map_wf_filter)

interpretation pend: expiring_collection pending_wf map_values
    "\<lambda>now a. pa_expiresAt a \<le> now" "\<lambda>now m. snd (pending_expireStale m now)"
proof
  fix m :: "'a pending_store" and now
  assume "pending_wf m"
  then show "map_values (snd (pending_expireStale m now)) = filter (\<lambda>a. \<not> pa_expiresAt a \<le> now) (map_values m)"
    by (simp add: pending_expireStale_eq pending_wf_def map_values_def filter_map comp_def case_prod_unfold not_le)
qed (simp_all add: pending_wf_sweep)

lemma listByCredential_eq:
  "pending_listByCredential m c = filter (\<lambda>a. pa_credentialId a = c) (map_values m)"
  by (simp add: pending_listByCredential_def foldl_snoc_if)

subsection \<open>Properties\<close>

text \<open>An action is decided at most once. Whatever confirming or denying it returns, the
  action is gone afterwards for both operations, every other action is still there, and what is
  returned is what was stored.\<close>

theorem pending_decided_once:
  "fst (pending_confirm m k) = pending_get m k \<and>
   fst (pending_deny m k) = pending_get m k \<and>
   fst (pending_confirm (snd (pending_deny m k)) j) = (if j = k then None else pending_get m j) \<and>
   fst (pending_deny (snd (pending_confirm m k)) j) = (if j = k then None else pending_get m j)"
  by (auto simp: pending_confirm_def pending_deny_def removeAndReturn_def pending_get_def split: option.splits)

text \<open>In a well-formed store the sweep returns exactly the actions whose deadline has
  passed, leaves exactly the others for every credential's list, keeps the store well formed, and
  a second sweep at a later time does what that later sweep alone would have done.\<close>

theorem pending_sweep_exact:
  assumes "pending_wf m" and "t \<le> u"
  shows "fst (pending_expireStale m t) = filter (\<lambda>a. pa_expiresAt a \<le> t) (map_values m) \<and>
         pending_listByCredential (snd (pending_expireStale m t)) c =
           filter (\<lambda>a. t < pa_expiresAt a) (pending_listByCredential m c) \<and>
         pending_wf (snd (pending_expireStale m t)) \<and>
         map_values (snd (pending_expireStale (snd (pending_expireStale m t)) u)) =
           map_values (snd (pending_expireStale m u))"
proof (intro conjI)
  show "fst (pending_expireStale m t) = filter (\<lambda>a. pa_expiresAt a \<le> t) (map_values m)"
    using assms by (simp add: pending_expireStale_eq pending_wf_def)
  show "pending_listByCredential (snd (pending_expireStale m t)) c =
      filter (\<lambda>a. t < pa_expiresAt a) (pending_listByCredential m c)"
    using assms by (simp add: listByCredential_eq pend.items_sweep not_le conj_commute)
  show "pending_wf (snd (pending_expireStale m t))"
    using assms(1) by (rule pend.ok_sweep)
  show "map_values (snd (pending_expireStale (snd (pending_expireStale m t)) u)) =
      map_values (snd (pending_expireStale m u))"
    using assms by (rule pend.sweep_later)
qed

definition sample_action :: "string \<Rightarrow> int \<Rightarrow> nat pending_action" where
  "sample_action aid t =
     \<lparr>pa_actionId = aid, pa_credentialId = ''c'', pa_actionType = ''send_message'', pa_payload = 0,
      pa_createdAt = 0, pa_expiresAt = t\<rparr>"

theorem pending_sweep_exact_witness:
  "let m = pending_add (pending_add [] (sample_action ''a'' 5)) (sample_action ''b'' 9)
   in pending_listByCredential (snd (pending_expireStale m 5)) ''c'' = [sample_action ''b'' 9]"
  unfolding Let_def
  by (subst pending_sweep_exact [where t = 5 and u = 5, THEN conjunct2, THEN conjunct1])
    (simp_all add: pending_wf_def pending_add_def sample_action_def map_set_def map_wf_def
      pending_listByCredential_def map_values_def)

end
