(* ===== verification/SealTypes.thy ===== *)
theory SealTypes
  imports CredentialTypes OperatorManager PolicyHash Materiality
begin

text \<open>
  Seals: the payload, chain, envelope and revocation schemas
  (\<^verbatim>\<open>packages/schemas/src/seal.ts\<close>, \<^verbatim>\<open>claim-provenance.ts\<close>, \<^verbatim>\<open>revocation.ts\<close>), the canonical
  serialization (\<^verbatim>\<open>packages/seals/src/canonicalize.ts\<close>) and the delta between two payloads
  (\<^verbatim>\<open>packages/seals/src/compute-delta.ts\<close>). Time stamps of a seal are texts, since seals also
  arrive from outside. The engine's date printing and parsing, \<open>JSON.stringify\<close>, the schema
  library's date-time check and its rendering of a failure are the fields of \<open>seal_engine\<close>;
  UTF-8 encoding is not modelled (a byte sequence is the text it encodes).
\<close>

record seal_engine =
  se_stringify :: "js_value \<Rightarrow> string"
  se_isoText :: "int \<Rightarrow> string"
  se_parseDate :: "string \<Rightarrow> int option"
  se_isDatetime :: "string \<Rightarrow> bool"
  se_zodMessage :: string

subsection \<open>Types\<close>

datatype trust_tier = TT_unverified | TT_source_verified | TT_reproducibly_verified | TT_runtime_attested

fun trust_tier_text :: "trust_tier \<Rightarrow> string" where
  "trust_tier_text TT_unverified = ''unverified''"
| "trust_tier_text TT_source_verified = ''source-verified''"
| "trust_tier_text TT_reproducibly_verified = ''reproducibly-verified''"
| "trust_tier_text TT_runtime_attested = ''runtime-attested''"

datatype provenance_key =
    PK_inferenceMode | PK_inferenceProviders | PK_contentEgressScope | PK_retentionAtProvider
  | PK_hostingMode | PK_trustTier

fun provenance_key_text :: "provenance_key \<Rightarrow> string" where
  "provenance_key_text PK_inferenceMode = ''inferenceMode''"
| "provenance_key_text PK_inferenceProviders = ''inferenceProviders''"
| "provenance_key_text PK_contentEgressScope = ''contentEgressScope''"
| "provenance_key_text PK_retentionAtProvider = ''retentionAtProvider''"
| "provenance_key_text PK_hostingMode = ''hostingMode''"
| "provenance_key_text PK_trustTier = ''trustTier''"

definition OPERATOR_DISCLOSURE_PROVENANCE_KEYS :: "provenance_key list" where
  "OPERATOR_DISCLOSURE_PROVENANCE_KEYS =
     [PK_inferenceMode, PK_inferenceProviders, PK_contentEgressScope, PK_retentionAtProvider, PK_hostingMode]"

datatype claim_provenance = CP_verified | CP_observed | CP_declared

record claim_provenance_record =
  cp_source :: claim_provenance
  cp_attestedBy :: "string option"
  cp_attestedAt :: "string option"
  cp_expiresAt :: "string option"

type_synonym provenance_map = "(provenance_key, claim_provenance_record) js_map"

record admin_access =
  aa_operatorId :: string
  aa_expiresAt :: string

record seal_payload =
  sp_sealId :: string
  sp_credentialId :: string
  sp_operatorId :: string
  sp_chatId :: string
  sp_scopeMode :: scope_mode
  sp_permissions :: scope_set
  sp_adminAccess :: "admin_access option"
  sp_issuedAt :: string
  sp_bypassed :: bool
  sp_trustTier :: "trust_tier option"
  sp_operatorDisclosures :: "operator_disclosures option"
  sp_provenanceMap :: "provenance_map option"

record seal_chain =
  sc_current :: seal_payload
  sc_previous :: "seal_payload option"
  sc_delta :: policy_delta

record seal_envelope =
  sen_chain :: seal_chain
  sen_signature :: string
  sen_keyId :: string

record message_seal_binding =
  mb_sealRef :: string
  mb_sealSignature :: string

datatype agent_revocation_reason =
    AR_owner_initiated | AR_credential_expired | AR_admin_removed | AR_heartbeat_timeout | AR_policy_violation

record revocation_seal =
  rs_sealId :: string
  rs_previousSealId :: string
  rs_operatorId :: string
  rs_credentialId :: string
  rs_chatId :: string
  rs_reason :: agent_revocation_reason
  rs_revokedAt :: string
  rs_issuer :: string

subsection \<open>Schema checks\<close>

definition id_ok :: "resource_type \<Rightarrow> string \<Rightarrow> bool" where
  "id_ok ty s = resource_id_ok (RESOURCE_PREFIXES ty) s"

definition opt_ok :: "('a \<Rightarrow> bool) \<Rightarrow> 'a option \<Rightarrow> bool" where
  "opt_ok P x = (case x of None \<Rightarrow> True | Some v \<Rightarrow> P v)"

definition has_disclosure :: "operator_disclosures option \<Rightarrow> provenance_key \<Rightarrow> bool" where
  "has_disclosure ds key =
     (case ds of
        None \<Rightarrow> False
      | Some d \<Rightarrow>
          (case key of
             PK_inferenceMode \<Rightarrow> od_inferenceMode d \<noteq> None
           | PK_inferenceProviders \<Rightarrow> od_inferenceProviders d \<noteq> None
           | PK_contentEgressScope \<Rightarrow> od_contentEgressScope d \<noteq> None
           | PK_retentionAtProvider \<Rightarrow> od_retentionAtProvider d \<noteq> None
           | PK_hostingMode \<Rightarrow> od_hostingMode d \<noteq> None
           | PK_trustTier \<Rightarrow> False))"

definition provenance_record_ok :: "seal_engine \<Rightarrow> claim_provenance_record \<Rightarrow> bool" where
  "provenance_record_ok en r \<longleftrightarrow>
     opt_ok (se_isDatetime en) (cp_attestedAt r) \<and> opt_ok (se_isDatetime en) (cp_expiresAt r)"

text \<open>A claim has provenance only if the claim itself is made.\<close>

definition provenance_refined :: "seal_payload \<Rightarrow> bool" where
  "provenance_refined p =
     (case sp_provenanceMap p of
        None \<Rightarrow> True
      | Some m \<Rightarrow>
          list_all (\<lambda>key. if map_get m key \<noteq> None then has_disclosure (sp_operatorDisclosures p) key else True)
            OPERATOR_DISCLOSURE_PROVENANCE_KEYS \<and>
          (if map_get m PK_trustTier \<noteq> None then sp_trustTier p \<noteq> None else True))"

definition SealPayload_ok :: "seal_engine \<Rightarrow> seal_payload \<Rightarrow> bool" where
  "SealPayload_ok en p \<longleftrightarrow>
     id_ok RT_seal (sp_sealId p) \<and> id_ok RT_credential (sp_credentialId p) \<and>
     id_ok RT_operator (sp_operatorId p) \<and> id_ok RT_conversation (sp_chatId p) \<and>
     opt_ok (\<lambda>a. (id_ok RT_operator (aa_operatorId a) \<or> aa_operatorId a = ''owner'') \<and>
                 se_isDatetime en (aa_expiresAt a)) (sp_adminAccess p) \<and>
     se_isDatetime en (sp_issuedAt p) \<and>
     opt_ok (\<lambda>m. list_all (\<lambda>q. provenance_record_ok en (snd q)) m) (sp_provenanceMap p) \<and>
     provenance_refined p"

definition RevocationSeal_ok :: "seal_engine \<Rightarrow> revocation_seal \<Rightarrow> bool" where
  "RevocationSeal_ok en r \<longleftrightarrow>
     id_ok RT_seal (rs_sealId r) \<and> id_ok RT_seal (rs_previousSealId r) \<and> id_ok RT_operator (rs_operatorId r) \<and>
     id_ok RT_credential (rs_credentialId r) \<and> id_ok RT_conversation (rs_chatId r) \<and>
     se_isDatetime en (rs_revokedAt r)"

subsection \<open>Canonical serialization\<close>

fun sortKeys :: "js_value \<Rightarrow> js_value" where
  "sortKeys (VArr vs) = VArr (map sortKeys vs)"
| "sortKeys (VObj kvs) =
     VObj (js_sort (\<lambda>p q. code_le (fst p) (fst q)) (map (\<lambda>p. (fst p, sortKeys (snd p))) kvs))"
| "sortKeys v = v"

definition canonicalize_bytes :: "seal_engine \<Rightarrow> js_value \<Rightarrow> string" where
  "canonicalize_bytes en value = se_stringify en (sortKeys value)"

subsection \<open>The delta of two payloads\<close>

text \<open>The loops over the four sets, in the order of the source.\<close>

definition newly_allowed_step ::
  "permission_scope list \<Rightarrow> permission_scope list \<Rightarrow> policy_delta \<Rightarrow> permission_scope \<Rightarrow> policy_delta" where
  "newly_allowed_step prevAllow prevDeny d scope =
     (if scope \<notin> set prevAllow
      then if scope \<in> set prevDeny
           then d\<lparr>d_changed := d_changed d @ [denied_to_allowed scope]\<rparr>
           else d\<lparr>d_added := d_added d @ [scope]\<rparr>
      else d)"

definition no_longer_allowed_step ::
  "permission_scope list \<Rightarrow> permission_scope list \<Rightarrow> policy_delta \<Rightarrow> permission_scope \<Rightarrow> policy_delta" where
  "no_longer_allowed_step nextAllow nextDeny d scope =
     (if scope \<notin> set nextAllow
      then if scope \<in> set nextDeny
           then d\<lparr>d_changed := d_changed d @ [allowed_to_denied scope]\<rparr>
           else d\<lparr>d_removed := d_removed d @ [scope]\<rparr>
      else d)"

definition permissions_delta :: "scope_set \<Rightarrow> scope_set \<Rightarrow> policy_delta" where
  "permissions_delta previous nxt =
     (let prevAllow = set_of (allow previous);
          nextAllow = set_of (allow nxt);
          prevDeny = set_of (deny previous);
          nextDeny = set_of (deny nxt);
          d0 = \<lparr>d_added = [], d_removed = [], d_changed = []\<rparr>;
          d1 = foldl (newly_allowed_step prevAllow prevDeny) d0 nextAllow;
          d2 = foldl (no_longer_allowed_step nextAllow nextDeny) d1 prevAllow;
          d3 = foldl (\<lambda>d scope. if scope \<notin> set prevDeny \<and> scope \<in> set prevAllow \<and> scope \<in> set nextAllow
                               then d\<lparr>d_changed := d_changed d @ [allowed_to_denied scope]\<rparr> else d) d2 nextDeny;
          d4 = foldl (\<lambda>d scope. if scope \<notin> set nextDeny \<and> scope \<in> set prevAllow \<and> scope \<in> set nextAllow
                               then d\<lparr>d_changed := d_changed d @ [denied_to_allowed scope]\<rparr> else d) d3 prevDeny;
          d5 = foldl (\<lambda>d scope. if scope \<notin> set prevDeny \<and> scope \<notin> set prevAllow
                               then d\<lparr>d_removed := d_removed d @ [scope]\<rparr> else d) d4 nextDeny;
          d6 = foldl (\<lambda>d scope. if scope \<notin> set nextDeny \<and> scope \<notin> set nextAllow
                               then d\<lparr>d_added := d_added d @ [scope]\<rparr> else d) d5 prevDeny
      in d6)"

definition computePayloadDelta :: "seal_payload \<Rightarrow> seal_payload \<Rightarrow> policy_delta" where
  "computePayloadDelta previous nxt = permissions_delta (sp_permissions previous) (sp_permissions nxt)"

definition empty_delta :: policy_delta where
  "empty_delta = \<lparr>d_added = [], d_removed = [], d_changed = []\<rparr>"

subsection \<open>The delta, list by list\<close>

lemma newly_allowed_fold:
  "foldl (newly_allowed_step pA pD) d xs =
     d\<lparr>d_added := d_added d @ filter (\<lambda>s. s \<notin> set pA \<and> s \<notin> set pD) xs,
       d_changed := d_changed d @ map denied_to_allowed (filter (\<lambda>s. s \<notin> set pA \<and> s \<in> set pD) xs)\<rparr>"
  by (induction xs arbitrary: d) (simp_all add: newly_allowed_step_def)

lemma no_longer_allowed_fold:
  "foldl (no_longer_allowed_step nA nD) d xs =
     d\<lparr>d_removed := d_removed d @ filter (\<lambda>s. s \<notin> set nA \<and> s \<notin> set nD) xs,
       d_changed := d_changed d @ map allowed_to_denied (filter (\<lambda>s. s \<notin> set nA \<and> s \<in> set nD) xs)\<rparr>"
  by (induction xs arbitrary: d) (simp_all add: no_longer_allowed_step_def)

lemma changed_fold:
  "foldl (\<lambda>d s. if P s then d\<lparr>d_changed := d_changed d @ [f s]\<rparr> else d) d xs =
     d\<lparr>d_changed := d_changed d @ map f (filter P xs)\<rparr>"
  by (induction xs arbitrary: d) simp_all

lemma removed_fold:
  "foldl (\<lambda>d s. if P s then d\<lparr>d_removed := d_removed d @ [s]\<rparr> else d) d xs =
     d\<lparr>d_removed := d_removed d @ filter P xs\<rparr>"
  by (induction xs arbitrary: d) simp_all

lemma added_fold:
  "foldl (\<lambda>d s. if P s then d\<lparr>d_added := d_added d @ [s]\<rparr> else d) d xs =
     d\<lparr>d_added := d_added d @ filter P xs\<rparr>"
  by (induction xs arbitrary: d) simp_all

lemmas delta_folds = newly_allowed_fold no_longer_allowed_fold changed_fold removed_fold added_fold

lemma permissions_delta_eq:
  "permissions_delta p n =
     \<lparr>d_added = filter (\<lambda>s. s \<notin> set (allow p) \<and> s \<notin> set (deny p)) (set_of (allow n)) @
                filter (\<lambda>s. s \<notin> set (deny n) \<and> s \<notin> set (allow n)) (set_of (deny p)),
      d_removed = filter (\<lambda>s. s \<notin> set (allow n) \<and> s \<notin> set (deny n)) (set_of (allow p)) @
                  filter (\<lambda>s. s \<notin> set (deny p) \<and> s \<notin> set (allow p)) (set_of (deny n)),
      d_changed =
        map denied_to_allowed (filter (\<lambda>s. s \<notin> set (allow p) \<and> s \<in> set (deny p)) (set_of (allow n))) @
        map allowed_to_denied (filter (\<lambda>s. s \<notin> set (allow n) \<and> s \<in> set (deny n)) (set_of (allow p))) @
        map allowed_to_denied (filter (\<lambda>s. s \<notin> set (deny p) \<and> s \<in> set (allow p) \<and> s \<in> set (allow n)) (set_of (deny n))) @
        map denied_to_allowed (filter (\<lambda>s. s \<notin> set (deny n) \<and> s \<in> set (allow p) \<and> s \<in> set (allow n)) (set_of (deny p)))\<rparr>"
  by (simp add: permissions_delta_def Let_def delta_folds)

lemma permissions_delta_distinct: "distinct (map ch_scope (d_changed (permissions_delta p n)))"
  by (auto simp: permissions_delta_eq comp_def)

interpretation seal: delta_contract permissions_delta
  by unfold_locales (auto simp: permissions_delta_eq effective_def image_iff)

subsection \<open>Property\<close>

text \<open>The delta between two seal payloads hides no change of permission. Every scope that
  became permitted is listed as added or as changed to allow, every scope no longer permitted as
  removed or as changed to deny, no scope is listed as changed twice, and an empty delta means
  the permitted scopes are the same.\<close>

theorem payload_delta_complete:
  "set (resolveScopeSet (sp_permissions q)) - set (resolveScopeSet (sp_permissions p))
     \<subseteq> set (d_added (computePayloadDelta p q)) \<union>
        ch_scope ` {c \<in> set (d_changed (computePayloadDelta p q)). ch_to c = AD_allow} \<and>
   set (resolveScopeSet (sp_permissions p)) - set (resolveScopeSet (sp_permissions q))
     \<subseteq> set (d_removed (computePayloadDelta p q)) \<union>
        ch_scope ` {c \<in> set (d_changed (computePayloadDelta p q)). ch_to c = AD_deny} \<and>
   distinct (map ch_scope (d_changed (computePayloadDelta p q))) \<and>
   (if computePayloadDelta p q = empty_delta
    then set (resolveScopeSet (sp_permissions p)) = set (resolveScopeSet (sp_permissions q)) else True)"
proof -
  have sets: "set (resolveScopeSet ss) = {s. effective ss s}" for ss
    using resolved_effective by blast
  have "set (resolveScopeSet (sp_permissions p)) = set (resolveScopeSet (sp_permissions q))"
    if "computePayloadDelta p q = empty_delta"
    using seal.gain_shown [of "sp_permissions q" _ "sp_permissions p"]
      seal.loss_shown [of "sp_permissions p" _ "sp_permissions q"] that
    unfolding sets by (auto simp: computePayloadDelta_def empty_delta_def)
  moreover have "effective (sp_permissions q) s \<Longrightarrow> \<not> effective (sp_permissions p) s \<Longrightarrow>
      s \<in> set (d_added (computePayloadDelta p q)) \<union>
        ch_scope ` {c \<in> set (d_changed (computePayloadDelta p q)). ch_to c = AD_allow}" for s
    using seal.gain_shown [of "sp_permissions q" s "sp_permissions p"]
    by (force simp: computePayloadDelta_def image_iff)
  moreover have "effective (sp_permissions p) s \<Longrightarrow> \<not> effective (sp_permissions q) s \<Longrightarrow>
      s \<in> set (d_removed (computePayloadDelta p q)) \<union>
        ch_scope ` {c \<in> set (d_changed (computePayloadDelta p q)). ch_to c = AD_deny}" for s
    using seal.loss_shown [of "sp_permissions p" s "sp_permissions q"]
    by (force simp: computePayloadDelta_def image_iff)
  ultimately show ?thesis
    unfolding sets using permissions_delta_distinct by (auto simp: computePayloadDelta_def)
qed

end
