(* ===== verification/SealChain.thy ===== *)
theory SealChain
  imports SealTypes
begin

text \<open>
  Structural validation of seal chains (\<^verbatim>\<open>packages/seals/src/chain-validator.ts\<close>). The two
  comparisons of time stamps read dates the engine may fail to parse, which makes the
  comparison false.
\<close>

definition validateSealChain :: "seal_engine \<Rightarrow> seal_chain \<Rightarrow> (unit, signet_error) result" where
  "validateSealChain en chain =
     (case sc_previous chain of
        None \<Rightarrow> Ok ()
      | Some previous \<Rightarrow>
          let current = sc_current chain
          in if sp_operatorId current \<noteq> sp_operatorId previous
             then Err (ValidationError_create ''chain''
                    ''Operator mismatch: current and previous seal must belong to the same operator'' [])
             else if sp_credentialId current \<noteq> sp_credentialId previous
             then Err (ValidationError_create ''chain''
                    ''Credential mismatch: current and previous seal must belong to the same credential'' [])
             else if sp_chatId current \<noteq> sp_chatId previous
             then Err (ValidationError_create ''chain''
                    ''Chat mismatch: current and previous seal must belong to the same chat'' [])
             else
               (case (se_parseDate en (sp_issuedAt current), se_parseDate en (sp_issuedAt previous)) of
                  (Some currentTime, Some previousTime) \<Rightarrow>
                    if currentTime < previousTime
                    then Err (ValidationError_create ''chain''
                           ''issuedAt of current seal must not be before previous seal'' [])
                    else Ok ()
                | _ \<Rightarrow> Ok ()))"

text \<open>
  Deep equality of deltas: equal lengths, then the sorted lists compared position by position.
  The comparator of the changes never answers "equal"; on entries with the same scope the sort
  below keeps their order.
\<close>

definition sort_scopes :: "permission_scope list \<Rightarrow> permission_scope list" where
  "sort_scopes xs = js_sort (\<lambda>s t. code_le (scope_name s) (scope_name t)) xs"

definition sort_changes :: "scope_policy_change list \<Rightarrow> scope_policy_change list" where
  "sort_changes xs = js_sort (\<lambda>x y. code_le (scope_name (ch_scope x)) (scope_name (ch_scope y))) xs"

definition deltaEquals :: "policy_delta \<Rightarrow> policy_delta \<Rightarrow> bool" where
  "deltaEquals a b =
     (if length (d_added a) \<noteq> length (d_added b) then False
      else if length (d_removed a) \<noteq> length (d_removed b) then False
      else if length (d_changed a) \<noteq> length (d_changed b) then False
      else if list_ex (\<lambda>(v, w). v \<noteq> w) (zip (sort_scopes (d_added a)) (sort_scopes (d_added b))) then False
      else if list_ex (\<lambda>(v, w). v \<noteq> w) (zip (sort_scopes (d_removed a)) (sort_scopes (d_removed b))) then False
      else list_all (\<lambda>(v, other). ch_scope v = ch_scope other \<and> ch_from v = ch_from other \<and> ch_to v = ch_to other)
             (zip (sort_changes (d_changed a)) (sort_changes (d_changed b))))"

definition verifyChainDelta :: "seal_chain \<Rightarrow> (unit, signet_error) result" where
  "verifyChainDelta chain =
     (let expected = (case sc_previous chain of
                        Some previous \<Rightarrow> computePayloadDelta previous (sc_current chain)
                      | None \<Rightarrow> empty_delta)
      in if \<not> deltaEquals expected (sc_delta chain)
         then Err (ValidationError_create ''chain'' ''Delta mismatch: stored delta does not match recomputed delta'' [])
         else Ok ())"

subsection \<open>Facts\<close>

lemma inj_scope_name: "inj scope_name"
proof (rule injI)
  fix s t assume "scope_name s = scope_name t"
  then show "s = t" by (cases s; cases t) simp_all
qed

lemma zip_all_eq: "length xs = length ys \<Longrightarrow> list_all (\<lambda>(v, w). v = w) (zip xs ys) \<longleftrightarrow> xs = ys"
  by (induction xs ys rule: list_induct2) simp_all

lemma zip_ex_neq: "length xs = length ys \<Longrightarrow> list_ex (\<lambda>(v, w). v \<noteq> w) (zip xs ys) \<longleftrightarrow> xs \<noteq> ys"
  by (induction xs ys rule: list_induct2) auto

lemma length_js_sort [simp]: "length (js_sort le xs) = length xs"
  using mset_js_sort [of le xs] by (metis size_mset)

lemma set_js_sort [simp]: "set (js_sort le xs) = set xs"
  using mset_js_sort [of le xs] by (metis set_mset_mset)

lemma js_sort_eq_Nil [simp]: "js_sort le xs = [] \<longleftrightarrow> xs = []"
  using length_js_sort [of le xs] by (metis length_0_conv)

lemma sorts_length [simp]: "length (sort_scopes xs) = length xs" "length (sort_changes cs) = length cs"
  by (simp_all add: sort_scopes_def sort_changes_def)

lemma sort_scopes_eq_iff: "sort_scopes xs = sort_scopes ys \<longleftrightarrow> mset xs = mset ys"
proof
  assume "sort_scopes xs = sort_scopes ys"
  then show "mset xs = mset ys" unfolding sort_scopes_def by (metis mset_js_sort)
next
  assume "mset xs = mset ys"
  then show "sort_scopes xs = sort_scopes ys"
    unfolding sort_scopes_def by (intro cu.js_sort_mset inj_on_subset [OF inj_scope_name]) simp_all
qed

lemma sort_changes_eq_iff:
  assumes "distinct (map ch_scope xs)"
  shows "sort_changes xs = sort_changes ys \<longleftrightarrow> mset xs = mset ys"
proof
  assume "sort_changes xs = sort_changes ys"
  then show "mset xs = mset ys" unfolding sort_changes_def by (metis mset_js_sort)
next
  assume "mset xs = mset ys"
  moreover have "inj_on (\<lambda>c. scope_name (ch_scope c)) (set xs)"
    using assms inj_scope_name by (auto simp: inj_on_def distinct_map)
  ultimately show "sort_changes xs = sort_changes ys"
    unfolding sort_changes_def by (intro cu.js_sort_mset [where key = "\<lambda>c. scope_name (ch_scope c)"])
qed

lemma change_eq_iff:
  "(ch_scope v = ch_scope w \<and> ch_from v = ch_from w \<and> ch_to v = ch_to w) \<longleftrightarrow> (v :: scope_policy_change) = w"
  by (cases v; cases w) auto

lemma deltaEquals_iff:
  assumes "distinct (map ch_scope (d_changed a))"
  shows "deltaEquals a b \<longleftrightarrow>
    mset (d_added a) = mset (d_added b) \<and> mset (d_removed a) = mset (d_removed b) \<and>
    mset (d_changed a) = mset (d_changed b)"
  by (auto simp: deltaEquals_def change_eq_iff zip_all_eq zip_ex_neq sort_scopes_eq_iff
      sort_changes_eq_iff [OF assms] dest: mset_eq_length)

lemma validateSealChain_Ok_iff:
  "validateSealChain en chain = Ok () \<longleftrightarrow>
     (case sc_previous chain of
        None \<Rightarrow> True
      | Some p \<Rightarrow>
          sp_operatorId (sc_current chain) = sp_operatorId p \<and>
          sp_credentialId (sc_current chain) = sp_credentialId p \<and>
          sp_chatId (sc_current chain) = sp_chatId p \<and>
          (case (se_parseDate en (sp_issuedAt (sc_current chain)), se_parseDate en (sp_issuedAt p)) of
             (Some c, Some t) \<Rightarrow> t \<le> c | _ \<Rightarrow> True))"
  by (auto simp: validateSealChain_def Let_def split: option.split)

subsection \<open>Property\<close>

text \<open>A chain passes the delta check exactly when its stored delta lists, in any order, the
  scopes the recomputed delta lists (none for a first seal); it passes the structural check
  exactly when operator, credential and chat continue those of the previous seal and it was not
  issued before it.\<close>

theorem chain_validation_exact:
  "(verifyChainDelta chain = Ok ()) =
     (let expected = (case sc_previous chain of Some p \<Rightarrow> computePayloadDelta p (sc_current chain) | None \<Rightarrow> empty_delta)
      in mset (d_added expected) = mset (d_added (sc_delta chain)) \<and>
         mset (d_removed expected) = mset (d_removed (sc_delta chain)) \<and>
         mset (d_changed expected) = mset (d_changed (sc_delta chain))) \<and>
   (validateSealChain en chain = Ok ()) =
     (case sc_previous chain of
        None \<Rightarrow> True
      | Some p \<Rightarrow>
          sp_operatorId (sc_current chain) = sp_operatorId p \<and>
          sp_credentialId (sc_current chain) = sp_credentialId p \<and>
          sp_chatId (sc_current chain) = sp_chatId p \<and>
          (case (se_parseDate en (sp_issuedAt (sc_current chain)), se_parseDate en (sp_issuedAt p)) of
             (Some c, Some t) \<Rightarrow> t \<le> c | _ \<Rightarrow> True))"
proof -
  have "distinct (map ch_scope (d_changed (case sc_previous chain of
      Some p \<Rightarrow> computePayloadDelta p (sc_current chain) | None \<Rightarrow> empty_delta)))"
    using permissions_delta_distinct
    by (simp add: computePayloadDelta_def empty_delta_def split: option.split)
  note eq = deltaEquals_iff [OF this, of "sc_delta chain"]
  have "verifyChainDelta chain = Ok () \<longleftrightarrow>
      deltaEquals (case sc_previous chain of
        Some p \<Rightarrow> computePayloadDelta p (sc_current chain) | None \<Rightarrow> empty_delta) (sc_delta chain)"
    by (simp add: verifyChainDelta_def Let_def)
  then show ?thesis
    unfolding eq Let_def validateSealChain_Ok_iff by (intro conjI) (assumption, rule refl)
qed

end
