(* ===== verification/Base64.thy ===== *)
theory Base64
  imports Prelude
begin

text \<open>
  \<open>btoa\<close> and \<open>atob\<close> of the language on byte strings: base64 with padding, and the forgiving
  decoder, which drops ASCII white space and up to two padding characters and throws
  (\<open>None\<close>) on a length of one modulo four or a foreign character.
\<close>

definition b64_alphabet :: string where
  "b64_alphabet = ''ABCDEFGHIJKLMNOPQRSTUVWXYZabcdefghijklmnopqrstuvwxyz0123456789+/''"

definition b64_char :: "nat \<Rightarrow> char" where
  "b64_char n = b64_alphabet ! n"

definition b64_value :: "char \<Rightarrow> nat option" where
  "b64_value c = find_index (\<lambda>d. d = c) b64_alphabet"

fun b64_digits :: "8 word list \<Rightarrow> nat list" where
  "b64_digits [] = []"
| "b64_digits [a] = [unat a div 4, unat a mod 4 * 16]"
| "b64_digits [a, b] = [unat a div 4, unat a mod 4 * 16 + unat b div 16, unat b mod 16 * 4]"
| "b64_digits (a # b # c # rest) =
     [unat a div 4, unat a mod 4 * 16 + unat b div 16, unat b mod 16 * 4 + unat c div 64, unat c mod 64]
     @ b64_digits rest"

definition b64_padding :: "nat \<Rightarrow> string" where
  "b64_padding n = (if n mod 3 = 1 then ''=='' else if n mod 3 = 2 then ''='' else [])"

definition btoa :: "8 word list \<Rightarrow> string" where
  "btoa bytes = map b64_char (b64_digits bytes) @ b64_padding (length bytes)"

fun b64_bytes :: "nat list \<Rightarrow> 8 word list" where
  "b64_bytes (p # q # r # s # rest) =
     [of_nat (p * 4 + q div 16), of_nat (q mod 16 * 16 + r div 4), of_nat (r mod 4 * 64 + s)] @ b64_bytes rest"
| "b64_bytes [p, q, r] = [of_nat (p * 4 + q div 16), of_nat (q mod 16 * 16 + r div 4)]"
| "b64_bytes [p, q] = [of_nat (p * 4 + q div 16)]"
| "b64_bytes _ = []"

definition is_ascii_space :: "char \<Rightarrow> bool" where
  "is_ascii_space c \<longleftrightarrow> (of_char c :: nat) \<in> {9, 10, 12, 13, 32}"

definition strip_padding :: "string \<Rightarrow> string" where
  "strip_padding s =
     (if length s mod 4 = 0
      then (case rev s of
              c # d # r \<Rightarrow> if c = CHR ''='' then (if d = CHR ''='' then rev r else rev (d # r)) else s
            | _ \<Rightarrow> s)
      else s)"

definition atob :: "string \<Rightarrow> 8 word list option" where
  "atob text =
     (let s = strip_padding (filter (\<lambda>c. \<not> is_ascii_space c) text)
      in if length s mod 4 = 1 then None
         else if list_ex (\<lambda>c. b64_value c = None) s then None
         else Some (b64_bytes (map (\<lambda>c. the (b64_value c)) s)))"

subsection \<open>Decoding undoes encoding\<close>

lemma b64_values: "list_all (\<lambda>n. b64_value (b64_char n) = Some n \<and> \<not> is_ascii_space (b64_char n) \<and>
    b64_char n \<noteq> CHR ''='') [0..<64]"
  by code_simp

lemma b64_char_facts:
  "n < 64 \<Longrightarrow> b64_value (b64_char n) = Some n"
  "n < 64 \<Longrightarrow> \<not> is_ascii_space (b64_char n)"
  "n < 64 \<Longrightarrow> b64_char n \<noteq> CHR ''=''"
  using b64_values by (simp_all add: list_all_iff)

lemma unat_byte: "unat (a :: 8 word) < 256"
  using unsigned_less [of a] by simp

lemma b64_digits_bound: "d \<in> set (b64_digits bs) \<Longrightarrow> d < 64"
proof (induction bs rule: b64_digits.induct)
  case (2 a)
  then show ?case using unat_byte [of a] by auto
next
  case (3 a b)
  then show ?case using unat_byte [of a] unat_byte [of b] by auto
next
  case (4 a b c rest)
  then show ?case using unat_byte [of a] unat_byte [of b] unat_byte [of c] by auto
qed simp

lemma of_nat_unat: "n = unat a \<Longrightarrow> of_nat n = (a :: 8 word)"
  by simp

lemma byte1: "of_nat (unat (a :: 8 word) div 4 * 4 + (unat a mod 4 * 16 + x) div 16) = a" if "x < 16"
proof (rule of_nat_unat)
  have "(unat a mod 4 * 16 + x) div 16 = unat a mod 4" using that by simp
  then show "unat a div 4 * 4 + (unat a mod 4 * 16 + x) div 16 = unat a" by presburger
qed

lemma byte2: "of_nat ((y * 16 + unat (b :: 8 word) div 16) mod 16 * 16 + (unat b mod 16 * 4 + x) div 4) = b" if "x < 4"
proof (rule of_nat_unat)
  have "(y * 16 + unat b div 16) mod 16 = unat b div 16" using unat_byte [of b] by simp
  moreover have "(unat b mod 16 * 4 + x) div 4 = unat b mod 16" using that by simp
  ultimately show "(y * 16 + unat b div 16) mod 16 * 16 + (unat b mod 16 * 4 + x) div 4 = unat b" by presburger
qed

lemma byte3: "of_nat ((y * 4 + unat (c :: 8 word) div 64) mod 4 * 64 + unat c mod 64) = c"
proof (rule of_nat_unat)
  have "(y * 4 + unat c div 64) mod 4 = unat c div 64" using unat_byte [of c] by simp
  then show "(y * 4 + unat c div 64) mod 4 * 64 + unat c mod 64 = unat c" by presburger
qed

lemma b64_bytes_digits: "b64_bytes (b64_digits bs) = bs"
proof (induction bs rule: b64_digits.induct)
  case (2 a)
  then show ?case using byte1 [of 0 a] by simp
next
  case (3 a b)
  have "unat b div 16 < 16" using unat_byte [of b] by simp
  then show ?case using byte1 [of "unat b div 16" a] byte2 [of 0 "unat a mod 4" b] by simp
next
  case (4 a b c rest)
  have "unat b div 16 < 16" "unat c div 64 < 4" using unat_byte [of b] unat_byte [of c] by simp_all
  then show ?case
    using 4 byte1 [of "unat b div 16" a] byte2 [of "unat c div 64" "unat a mod 4" b]
      byte3 [of "unat b mod 16" c] by simp
qed simp

lemma b64_digits_length:
  "length (b64_digits bs) mod 4 = (if length bs mod 3 = 0 then 0 else length bs mod 3 + 1)"
proof (induction bs rule: b64_digits.induct)
  case (4 a b c rest)
  then show ?case by (simp add: add.commute)
qed simp_all

lemma strip_padding_keep: "CHR ''='' \<notin> set s \<Longrightarrow> strip_padding s = s"
proof (cases "rev s")
  case (Cons c r)
  moreover assume "CHR ''='' \<notin> set s"
  ultimately have "c \<noteq> CHR ''=''" by (metis list.set_intros(1) set_rev)
  then show ?thesis using Cons by (simp add: strip_padding_def split: list.split)
qed (simp add: strip_padding_def)

lemma strip_padding_btoa: "strip_padding (btoa bs) = map b64_char (b64_digits bs)"
proof -
  let ?s = "map b64_char (b64_digits bs)"
  have no_pad: "c \<in> set ?s \<Longrightarrow> c \<noteq> CHR ''=''" for c
    using b64_digits_bound b64_char_facts(3) by auto
  have len: "length ?s mod 4 = (if length bs mod 3 = 0 then 0 else length bs mod 3 + 1)"
    using b64_digits_length by simp
  consider "length bs mod 3 = 0" | "length bs mod 3 = 1" | "length bs mod 3 = 2" by linarith
  then show ?thesis
  proof cases
    case 1
    moreover have "CHR ''='' \<notin> set ?s" using no_pad by blast
    ultimately show ?thesis by (simp add: btoa_def b64_padding_def strip_padding_keep)
  next
    case 2
    then have "length (?s @ ''=='') mod 4 = 0" using len by (simp add: mod_Suc)
    then show ?thesis using 2 by (simp add: strip_padding_def btoa_def b64_padding_def)
  next
    case 3
    then have "length (?s @ ''='') mod 4 = 0" "?s \<noteq> []" using len by (auto simp: mod_Suc)
    moreover then obtain r d where "?s = r @ [d]" by (metis rev_exhaust)
    moreover then have "d \<noteq> CHR ''=''" using no_pad by (metis in_set_conv_decomp)
    ultimately show ?thesis using 3 by (simp add: strip_padding_def btoa_def b64_padding_def)
  qed
qed

lemma btoa_no_space: "filter (\<lambda>c. \<not> is_ascii_space c) (btoa bs) = btoa bs"
  using b64_digits_bound b64_char_facts(2)
  by (auto simp: btoa_def b64_padding_def is_ascii_space_def)

lemma atob_btoa: "atob (btoa bs) = Some bs"
proof -
  have "map (\<lambda>c. the (b64_value c)) (map b64_char ds) = ds" if "\<forall>d \<in> set ds. d < 64" for ds
    using that by (induction ds) (simp_all add: b64_char_facts)
  then have "map (\<lambda>c. the (b64_value c)) (map b64_char (b64_digits bs)) = b64_digits bs"
    using b64_digits_bound by blast
  moreover have "length (b64_digits bs) mod 4 \<noteq> 1"
    using b64_digits_length by (metis One_nat_def add_eq_self_zero add.commute nat.simps(3) plus_1_eq_Suc zero_neq_one)
  moreover have "\<not> list_ex (\<lambda>c. b64_value c = None) (map b64_char (b64_digits bs))"
    using b64_digits_bound b64_char_facts(1) by (auto simp: list_ex_iff)
  ultimately show ?thesis
    by (simp add: atob_def Let_def btoa_no_space strip_padding_btoa b64_bytes_digits)
qed

end
