(* ===== verification/SealBuild.thy ===== *)
theory SealBuild
  imports SealChain Base64
begin

text \<open>
  Building seals (\<^verbatim>\<open>packages/seals/src/build.ts\<close>), stamping them
  (\<^verbatim>\<open>packages/seals/src/stamper.ts\<close>), binding messages to them
  (\<^verbatim>\<open>packages/seals/src/message-binding.ts\<close>) and republishing them with retries
  (\<^verbatim>\<open>packages/seals/src/auto-republish.ts\<close>). The signing key, the callbacks and the
  publisher are arguments.
\<close>

subsection \<open>Seal values as dynamic values\<close>

definition scopes_js :: "scope_set \<Rightarrow> js_value" where
  "scopes_js ss = VObj [(''allow'', scope_array (allow ss)), (''deny'', scope_array (deny ss))]"

definition opt_js :: "('a \<Rightarrow> js_value) \<Rightarrow> 'a option \<Rightarrow> js_value" where
  "opt_js f x = (case x of None \<Rightarrow> VUndefined | Some v \<Rightarrow> f v)"

definition scope_mode_text :: "scope_mode \<Rightarrow> string" where
  "scope_mode_text m = (case m of SM_per_chat \<Rightarrow> ''per-chat'' | SM_shared \<Rightarrow> ''shared'')"

definition inference_mode_text :: "inference_mode \<Rightarrow> string" where
  "inference_mode_text m = (case m of IM_local \<Rightarrow> ''local'' | IM_cloud \<Rightarrow> ''cloud'' | IM_hybrid \<Rightarrow> ''hybrid'')"

definition egress_text :: "content_egress_scope \<Rightarrow> string" where
  "egress_text e = (case e of CE_none \<Rightarrow> ''none'' | CE_provider_only \<Rightarrow> ''provider-only''
                            | CE_unrestricted \<Rightarrow> ''unrestricted'')"

definition hosting_text :: "hosting_mode \<Rightarrow> string" where
  "hosting_text h = (case h of HM_self_hosted \<Rightarrow> ''self-hosted'' | HM_cloud \<Rightarrow> ''cloud'' | HM_tee \<Rightarrow> ''tee'')"

definition provenance_text :: "claim_provenance \<Rightarrow> string" where
  "provenance_text p = (case p of CP_verified \<Rightarrow> ''verified'' | CP_observed \<Rightarrow> ''observed'' | CP_declared \<Rightarrow> ''declared'')"

definition disclosures_js :: "operator_disclosures \<Rightarrow> js_value" where
  "disclosures_js d = VObj
     [(''inferenceMode'', opt_js (VStr \<circ> inference_mode_text) (od_inferenceMode d)),
      (''inferenceProviders'', opt_js (VArr \<circ> map VStr) (od_inferenceProviders d)),
      (''contentEgressScope'', opt_js (VStr \<circ> egress_text) (od_contentEgressScope d)),
      (''retentionAtProvider'', opt_js VStr (od_retentionAtProvider d)),
      (''hostingMode'', opt_js (VStr \<circ> hosting_text) (od_hostingMode d))]"

definition provenance_js :: "provenance_map \<Rightarrow> js_value" where
  "provenance_js m = VObj (map (\<lambda>(k, r). (provenance_key_text k, VObj
     [(''source'', VStr (provenance_text (cp_source r))),
      (''attestedBy'', opt_js VStr (cp_attestedBy r)),
      (''attestedAt'', opt_js VStr (cp_attestedAt r)),
      (''expiresAt'', opt_js VStr (cp_expiresAt r))])) m)"

definition admin_access_js :: "admin_access \<Rightarrow> js_value" where
  "admin_access_js a = VObj [(''operatorId'', VStr (aa_operatorId a)), (''expiresAt'', VStr (aa_expiresAt a))]"

definition payload_js :: "seal_payload \<Rightarrow> js_value" where
  "payload_js p = VObj
     [(''sealId'', VStr (sp_sealId p)), (''credentialId'', VStr (sp_credentialId p)),
      (''operatorId'', VStr (sp_operatorId p)), (''chatId'', VStr (sp_chatId p)),
      (''scopeMode'', VStr (scope_mode_text (sp_scopeMode p))),
      (''permissions'', scopes_js (sp_permissions p)),
      (''adminAccess'', opt_js admin_access_js (sp_adminAccess p)),
      (''issuedAt'', VStr (sp_issuedAt p)),
      (''bypassed'', if sp_bypassed p then VBool True else VUndefined),
      (''trustTier'', opt_js (VStr \<circ> trust_tier_text) (sp_trustTier p)),
      (''operatorDisclosures'', opt_js disclosures_js (sp_operatorDisclosures p)),
      (''provenanceMap'', opt_js provenance_js (sp_provenanceMap p))]"

definition delta_js :: "policy_delta \<Rightarrow> js_value" where
  "delta_js d = VObj
     [(''added'', scope_array (d_added d)), (''removed'', scope_array (d_removed d)),
      (''changed'', VArr (map (\<lambda>c. VObj [(''scope'', VStr (scope_name (ch_scope c))),
                                         (''from'', VStr (allow_deny_name (ch_from c))),
                                         (''to'', VStr (allow_deny_name (ch_to c)))]) (d_changed d)))]"

definition chain_js :: "seal_chain \<Rightarrow> js_value" where
  "chain_js c = VObj
     [(''current'', payload_js (sc_current c)), (''previous'', opt_js payload_js (sc_previous c)),
      (''delta'', delta_js (sc_delta c))]"

definition revocation_reason_js :: "agent_revocation_reason \<Rightarrow> string" where
  "revocation_reason_js r =
     (case r of AR_owner_initiated \<Rightarrow> ''owner-initiated'' | AR_credential_expired \<Rightarrow> ''credential-expired''
              | AR_admin_removed \<Rightarrow> ''admin-removed'' | AR_heartbeat_timeout \<Rightarrow> ''heartbeat-timeout''
              | AR_policy_violation \<Rightarrow> ''policy-violation'')"

definition revocation_js :: "revocation_seal \<Rightarrow> js_value" where
  "revocation_js r = VObj
     [(''sealId'', VStr (rs_sealId r)), (''previousSealId'', VStr (rs_previousSealId r)),
      (''operatorId'', VStr (rs_operatorId r)), (''credentialId'', VStr (rs_credentialId r)),
      (''chatId'', VStr (rs_chatId r)), (''reason'', VStr (revocation_reason_js (rs_reason r))),
      (''revokedAt'', VStr (rs_revokedAt r)), (''issuer'', VStr (rs_issuer r))]"

subsection \<open>Building\<close>

record seal_input =
  sin_credentialId :: string
  sin_operatorId :: string
  sin_chatId :: string
  sin_scopeMode :: scope_mode
  sin_permissions :: scope_set
  sin_adminAccess :: "admin_access option"
  sin_bypassed :: bool
  sin_trustTier :: "trust_tier option"
  sin_operatorDisclosures :: "operator_disclosures option"
  sin_provenanceMap :: "provenance_map option"

definition generateSealId :: "8 word list \<Rightarrow> string" where
  "generateSealId bytes = createResourceId RT_seal bytes"

record seal_build_result =
  sb_chain :: seal_chain
  sb_serialized :: string

definition raw_payload :: "seal_engine \<Rightarrow> int \<Rightarrow> 8 word list \<Rightarrow> seal_input \<Rightarrow> seal_payload" where
  "raw_payload en now random input =
     \<lparr>sp_sealId = generateSealId random,
      sp_credentialId = sin_credentialId input,
      sp_operatorId = sin_operatorId input,
      sp_chatId = sin_chatId input,
      sp_scopeMode = sin_scopeMode input,
      sp_permissions = \<lparr>allow = allow (sin_permissions input), deny = deny (sin_permissions input)\<rparr>,
      sp_adminAccess = sin_adminAccess input,
      sp_issuedAt = se_isoText en now,
      sp_bypassed = sin_bypassed input,
      sp_trustTier = sin_trustTier input,
      sp_operatorDisclosures = sin_operatorDisclosures input,
      sp_provenanceMap = sin_provenanceMap input\<rparr>"

definition buildSeal ::
  "seal_engine \<Rightarrow> int \<Rightarrow> 8 word list \<Rightarrow> seal_input \<Rightarrow> seal_payload option \<Rightarrow> (seal_build_result, signet_error) result" where
  "buildSeal en now random input previousPayload =
     (let current = raw_payload en now random input
      in if \<not> SealPayload_ok en current
         then Err (ValidationError_create ''seal'' (se_zodMessage en) [])
         else
           let delta = (case previousPayload of
                          Some p \<Rightarrow> computePayloadDelta p current
                        | None \<Rightarrow> \<lparr>d_added = [], d_removed = [], d_changed = []\<rparr>);
               chain = \<lparr>sc_current = current, sc_previous = previousPayload, sc_delta = delta\<rparr>;
               serialized = canonicalize_bytes en (chain_js chain)
           in Ok \<lparr>sb_chain = chain, sb_serialized = serialized\<rparr>)"

subsection \<open>Stamping\<close>

text \<open>What the key may throw: a structured error, which is passed on, or anything else.\<close>

datatype thrown = ThrownSignet signet_error | ThrownOther string

record signing_key_handle =
  sk_sign :: "string \<Rightarrow> (8 word list, thrown) result"
  sk_fingerprint :: string

record signed_revocation_envelope =
  sre_revocation :: revocation_seal
  sre_signature :: string
  sre_signerKeyRef :: string

definition signBytes :: "seal_engine \<Rightarrow> signing_key_handle \<Rightarrow> js_value \<Rightarrow> (string, signet_error) result" where
  "signBytes en key payload =
     (let bytes = canonicalize_bytes en payload
      in case sk_sign key bytes of
           Ok signature \<Rightarrow> Ok (btoa signature)
         | Err (ThrownSignet e) \<Rightarrow> Err e
         | Err (ThrownOther text) \<Rightarrow>
             Err (InternalError_create ''Seal signing failed'' (Some [(''cause'', VStr text)])))"

definition stamper_sign :: "seal_engine \<Rightarrow> signing_key_handle \<Rightarrow> seal_payload \<Rightarrow> (seal_envelope, signet_error) result" where
  "stamper_sign en key payload =
     (case signBytes en key (payload_js payload) of
        Err e \<Rightarrow> Err e
      | Ok sig \<Rightarrow>
          Ok \<lparr>sen_chain = \<lparr>sc_current = payload, sc_previous = None,
                           sc_delta = \<lparr>d_added = [], d_removed = [], d_changed = []\<rparr>\<rparr>,
              sen_signature = sig, sen_keyId = sk_fingerprint key\<rparr>)"

definition stamper_signRevocation ::
  "seal_engine \<Rightarrow> signing_key_handle \<Rightarrow> revocation_seal \<Rightarrow> (signed_revocation_envelope, signet_error) result" where
  "stamper_signRevocation en key payload =
     (case signBytes en key (revocation_js payload) of
        Err e \<Rightarrow> Err e
      | Ok sig \<Rightarrow> Ok \<lparr>sre_revocation = payload, sre_signature = sig, sre_signerKeyRef = sk_fingerprint key\<rparr>)"

subsection \<open>Binding messages to seals\<close>

definition binding_payload :: "seal_engine \<Rightarrow> string \<Rightarrow> string \<Rightarrow> string" where
  "binding_payload en messageId sealId =
     canonicalize_bytes en (VObj [(''messageId'', VStr messageId), (''sealId'', VStr sealId)])"

definition createMessageBinding ::
  "seal_engine \<Rightarrow> string \<Rightarrow> string \<Rightarrow> (string \<Rightarrow> (8 word list, signet_error) result)
   \<Rightarrow> (message_seal_binding, signet_error) result" where
  "createMessageBinding en messageId sealId sign =
     (let payload = binding_payload en messageId sealId
      in case sign payload of
           Err e \<Rightarrow> Err e
         | Ok sig \<Rightarrow> Ok \<lparr>mb_sealRef = sealId, mb_sealSignature = btoa sig\<rparr>)"

text \<open>\<open>atobError\<close> is the text of the exception the decoder throws.\<close>

definition verifyMessageBinding ::
  "seal_engine \<Rightarrow> string \<Rightarrow> message_seal_binding \<Rightarrow> string
   \<Rightarrow> (string \<Rightarrow> 8 word list \<Rightarrow> (bool, signet_error) result) \<Rightarrow> (bool, signet_error) result" where
  "verifyMessageBinding en atobError binding messageId verify =
     (let payload = binding_payload en messageId (mb_sealRef binding)
      in case atob (mb_sealSignature binding) of
           None \<Rightarrow> Err (InternalError_create ''Invalid message binding signature encoding''
                      (Some [(''cause'', VStr atobError)]))
         | Some sigBytes \<Rightarrow> verify payload sigBytes)"

subsection \<open>Republishing\<close>

text \<open>
  The publisher is a function of the number of calls made so far, so that it may fail at first
  and succeed later; the model records the delays awaited. One chat is tried once and then at
  most \<open>maxRetries\<close> times more, the delay doubling; a negative limit means no attempt at all.
\<close>

record republish_state =
  rp_calls :: nat
  rp_delays :: "int list"

fun republish_attempts ::
  "(nat \<Rightarrow> string \<Rightarrow> seal_envelope \<Rightarrow> (unit, signet_error) result) \<Rightarrow> string \<Rightarrow> seal_envelope
   \<Rightarrow> nat \<Rightarrow> nat \<Rightarrow> int \<Rightarrow> signet_error option \<Rightarrow> republish_state
   \<Rightarrow> bool \<times> signet_error option \<times> republish_state" where
  "republish_attempts publish chatId seal attempt 0 delay lastError st = (False, lastError, st)"
| "republish_attempts publish chatId seal attempt (Suc left) delay lastError st =
     (let (delay', st1) =
        (if attempt > 0 then (delay * 2, st\<lparr>rp_delays := rp_delays st @ [delay]\<rparr>) else (delay, st));
          st2 = st1\<lparr>rp_calls := rp_calls st1 + 1\<rparr>
      in case publish (rp_calls st1) chatId seal of
           Ok _ \<Rightarrow> (True, None, st2)
         | Err e \<Rightarrow> republish_attempts publish chatId seal (attempt + 1) left delay' (Some e) st2)"

definition republish_chat ::
  "(nat \<Rightarrow> string \<Rightarrow> seal_envelope \<Rightarrow> (unit, signet_error) result) \<Rightarrow> seal_envelope \<Rightarrow> int \<Rightarrow> int
   \<Rightarrow> string list \<times> (string \<times> signet_error) list \<times> republish_state \<Rightarrow> string
   \<Rightarrow> string list \<times> (string \<times> signet_error) list \<times> republish_state" where
  "republish_chat publish seal maxRetries initialDelay acc chatId =
     (let (succeeded, failed, st) = acc;
          expected = sp_chatId (sc_current (sen_chain seal))
      in if expected \<noteq> chatId
         then (succeeded,
               failed @ [(chatId, ValidationError_create ''chatId'' ''Seal chatId does not match target chat''
                            [(''expectedChatId'', VStr expected), (''targetChatId'', VStr chatId)])], st)
         else
           let (done, lastError, st') =
             republish_attempts publish chatId seal 0 (nat (maxRetries + 1)) initialDelay None st
           in (if done then succeeded @ [chatId] else succeeded,
               (case lastError of Some e \<Rightarrow> failed @ [(chatId, e)] | None \<Rightarrow> failed), st'))"

definition republishToChats ::
  "string list \<Rightarrow> seal_envelope \<Rightarrow> (nat \<Rightarrow> string \<Rightarrow> seal_envelope \<Rightarrow> (unit, signet_error) result)
   \<Rightarrow> int option \<Rightarrow> int option \<Rightarrow> string list \<times> (string \<times> signet_error) list \<times> republish_state" where
  "republishToChats chatIds seal publish cfgMaxRetries cfgInitialDelay =
     foldl (republish_chat publish seal (nullish cfgMaxRetries 3) (nullish cfgInitialDelay 1000))
       ([], [], \<lparr>rp_calls = 0, rp_delays = []\<rparr>) chatIds"

subsection \<open>Facts\<close>

lemma deltaEquals_refl: "deltaEquals d d"
  by (simp add: deltaEquals_def zip_ex_neq change_eq_iff zip_all_eq)

lemma buildSeal_Ok:
  "buildSeal en now rnd input prev = Ok r \<Longrightarrow>
     sc_current (sb_chain r) = raw_payload en now rnd input \<and> sc_previous (sb_chain r) = prev \<and>
     SealPayload_ok en (sc_current (sb_chain r)) \<and> verifyChainDelta (sb_chain r) = Ok ()"
  by (auto simp: buildSeal_def Let_def verifyChainDelta_def deltaEquals_refl empty_delta_def
      split: if_splits option.splits)

lemma republish_attempts_facts:
  "case republish_attempts publish c seal attempt n delay le st of (done, err, st') \<Rightarrow>
     (if done then err = None else if n = 0 then err = le else err \<noteq> None) \<and>
     rp_calls st \<le> rp_calls st' \<and> rp_calls st' \<le> rp_calls st + n"
proof (induction n arbitrary: attempt delay le st)
  case 0
  then show ?case by simp
next
  case (Suc n)
  define st1 where "st1 = (if attempt > 0 then st\<lparr>rp_delays := rp_delays st @ [delay]\<rparr> else st)"
  have calls: "rp_calls st1 = rp_calls st" by (simp add: st1_def)
  show ?case
  proof (cases "publish (rp_calls st) c seal")
    case (Ok u)
    then show ?thesis by (simp add: calls)
  next
    case (Err e)
    from Suc.IH [where attempt = "attempt + 1" and delay = "if attempt > 0 then delay * 2 else delay"
        and le = "Some e" and st = "st1\<lparr>rp_calls := rp_calls st1 + 1\<rparr>"]
    show ?thesis using Err
      by (cases "attempt > 0") (auto simp: st1_def Let_def split: prod.splits if_splits)
  qed
qed

definition republish_seen ::
  "string list \<times> (string \<times> signet_error) list \<times> republish_state \<Rightarrow> string multiset" where
  "republish_seen acc = mset (fst acc) + mset (map fst (fst (snd acc)))"

lemma republish_chat_facts:
  assumes "0 \<le> maxRetries"
  shows "republish_seen (republish_chat publish seal maxRetries d acc c) = republish_seen acc + {#c#} \<and>
    set (fst (republish_chat publish seal maxRetries d acc c)) \<subseteq>
      set (fst acc) \<union> {sp_chatId (sc_current (sen_chain seal))} \<and>
    rp_calls (snd (snd (republish_chat publish seal maxRetries d acc c))) \<le>
      rp_calls (snd (snd acc)) + nat (maxRetries + 1)"
proof -
  obtain succ fails st where acc: "acc = (succ, fails, st)" by (cases acc) auto
  have "nat (maxRetries + 1) \<noteq> 0" using assms by simp
  then show ?thesis
    using republish_attempts_facts [where publish = publish and c = c and seal = seal and attempt = 0
        and n = "nat (maxRetries + 1)" and delay = d and le = None and st = st] acc
    by (auto simp: republish_chat_def Let_def republish_seen_def split: prod.splits option.splits if_splits)
qed

lemma republish_fold:
  assumes "0 \<le> maxRetries"
  shows "republish_seen (foldl (republish_chat publish seal maxRetries d) acc cs) = republish_seen acc + mset cs \<and>
    set (fst (foldl (republish_chat publish seal maxRetries d) acc cs)) \<subseteq>
      set (fst acc) \<union> {sp_chatId (sc_current (sen_chain seal))} \<and>
    rp_calls (snd (snd (foldl (republish_chat publish seal maxRetries d) acc cs))) \<le>
      rp_calls (snd (snd acc)) + length cs * nat (maxRetries + 1)"
proof (induction cs arbitrary: acc)
  case Nil
  then show ?case by auto
next
  case (Cons c cs)
  let ?acc = "republish_chat publish seal maxRetries d acc c"
  show ?case
    using Cons [of ?acc] republish_chat_facts [OF assms, of publish seal d acc c] by auto
qed

subsection \<open>Properties\<close>

text \<open>A seal that is built passes its own checks: its payload satisfies the schema and is the
  requested one, it names the previous payload, its stored delta verifies, and, when it
  continues the same operator, credential and chat with a clock that has not gone back, so does
  the chain.\<close>

theorem built_seal_verifies:
  "case buildSeal en now random input prev of
     Err e \<Rightarrow> \<not> SealPayload_ok en (raw_payload en now random input) \<and> err_tag e = Tag_ValidationError
   | Ok r \<Rightarrow>
       sc_current (sb_chain r) = raw_payload en now random input \<and>
       SealPayload_ok en (sc_current (sb_chain r)) \<and>
       sc_previous (sb_chain r) = prev \<and>
       verifyChainDelta (sb_chain r) = Ok () \<and>
       (if (case prev of
              None \<Rightarrow> True
            | Some p \<Rightarrow> sin_operatorId input = sp_operatorId p \<and> sin_credentialId input = sp_credentialId p \<and>
                sin_chatId input = sp_chatId p \<and>
                (case (se_parseDate en (se_isoText en now), se_parseDate en (sp_issuedAt p)) of
                   (Some c, Some t) \<Rightarrow> t \<le> c | _ \<Rightarrow> True))
        then validateSealChain en (sb_chain r) = Ok () else True)"
proof (cases "buildSeal en now random input prev")
  case (Err e)
  then show ?thesis by (auto simp: buildSeal_def Let_def split: if_splits)
next
  case (Ok r)
  from buildSeal_Ok [OF this] show ?thesis
    using Ok by (auto simp: validateSealChain_Ok_iff raw_payload_def split: option.splits)
qed

text \<open>Verifying a message binding checks exactly the signature that was made, over exactly the
  message and seal that were bound: base64 decoding undoes the encoding, and the payload given to
  the verifier is the signed one when the message is the same.\<close>

theorem message_binding_roundtrip:
  "case createMessageBinding en messageId sealId sign of
     Err e \<Rightarrow> sign (binding_payload en messageId sealId) = Err e
   | Ok b \<Rightarrow>
       mb_sealRef b = sealId \<and>
       (case sign (binding_payload en messageId sealId) of
          Err _ \<Rightarrow> False
        | Ok sig \<Rightarrow> verifyMessageBinding en txt b otherId verify = verify (binding_payload en otherId sealId) sig)"
  by (auto simp: createMessageBinding_def verifyMessageBinding_def Let_def atob_btoa split: result.split)

text \<open>Republishing accounts for every chat once: each requested chat ends up either among the
  succeeded or among the failed, only the seal's own chat can succeed, and the publisher is
  called at most once plus the retry limit per chat.\<close>

theorem republish_accounts_for_all:
  assumes "0 \<le> nullish cfgMaxRetries 3"
  shows "case republishToChats chatIds seal publish cfgMaxRetries cfgInitialDelay of
           (succeeded, failed, st) \<Rightarrow>
             mset succeeded + mset (map fst failed) = mset chatIds \<and>
             set succeeded \<subseteq> {sp_chatId (sc_current (sen_chain seal))} \<and>
             int (rp_calls st) \<le> int (length chatIds) * (nullish cfgMaxRetries 3 + 1)"
proof -
  obtain s f st where r: "republishToChats chatIds seal publish cfgMaxRetries cfgInitialDelay = (s, f, st)"
    by (cases "republishToChats chatIds seal publish cfgMaxRetries cfgInitialDelay") auto
  note fold = republish_fold [OF assms, of publish seal "nullish cfgInitialDelay 1000"
      "([], [], \<lparr>rp_calls = 0, rp_delays = []\<rparr>)" chatIds, folded republishToChats_def, unfolded r]
  then have "rp_calls st \<le> length chatIds * nat (nullish cfgMaxRetries 3 + 1)" by simp
  then have "int (rp_calls st) \<le> int (length chatIds) * (nullish cfgMaxRetries 3 + 1)"
    using assms by (metis (no_types, opaque_lifting) add_increasing2 int_nat_eq of_nat_le_iff of_nat_mult zero_le_one)
  then show ?thesis using fold r by (simp add: republish_seen_def)
qed

definition sample_payload :: "string \<Rightarrow> seal_payload" where
  "sample_payload chat =
     \<lparr>sp_sealId = ''seal_0'', sp_credentialId = ''cred_0'', sp_operatorId = ''op_0'', sp_chatId = chat,
      sp_scopeMode = SM_shared, sp_permissions = \<lparr>allow = [Sc_send], deny = []\<rparr>, sp_adminAccess = None,
      sp_issuedAt = ''0'', sp_bypassed = False, sp_trustTier = None, sp_operatorDisclosures = None,
      sp_provenanceMap = None\<rparr>"

definition sample_envelope :: "string \<Rightarrow> seal_envelope" where
  "sample_envelope chat =
     \<lparr>sen_chain = \<lparr>sc_current = sample_payload chat, sc_previous = None, sc_delta = empty_delta\<rparr>,
      sen_signature = ''c2ln'', sen_keyId = ''key_0''\<rparr>"

theorem republish_accounts_for_all_witness:
  "case republishToChats [''conv_1'', ''conv_2''] (sample_envelope ''conv_1'')
          (\<lambda>n _ _. if n < 2 then Err (InternalError_create ''down'' None) else Ok ()) (Some 2) None of
     (succeeded, failed, st) \<Rightarrow>
       mset succeeded + mset (map fst failed) = mset [''conv_1'', ''conv_2''] \<and>
       set succeeded \<subseteq> {''conv_1''} \<and> int (rp_calls st) \<le> 6"
  using republish_accounts_for_all [of "Some 2" "[''conv_1'', ''conv_2'']" "sample_envelope ''conv_1''"
      "\<lambda>n _ _. if n < 2 then Err (InternalError_create ''down'' None) else Ok ()" None]
  by (simp add: sample_envelope_def sample_payload_def split: prod.splits)

end
