(* ===== verification/SealManager.thy ===== *)
theory SealManager
  imports SealBuild
begin

text \<open>
  The seal manager (\<^verbatim>\<open>packages/seals/src/manager.ts\<close>). Its four in-memory stores are the
  fields of the state. Issuing and refreshing await the signer and the publisher between reading
  the state and writing it; each is modelled as a preparation, the two awaited calls, and a
  commit, so that what happens in between can be spoken about, and composed into the whole
  operation for a manager that is used one call at a time.
\<close>

record seal_manager_state =
  currentSeals :: "(string, seal_envelope) js_map"
  sealsById :: "(string, seal_envelope) js_map"
  inputsBySealId :: "(string, seal_input) js_map"
  revokedPairs :: "string list"

definition createSealManager :: seal_manager_state where
  "createSealManager = \<lparr>currentSeals = [], sealsById = [], inputsBySealId = [], revokedPairs = []\<rparr>"

record seal_manager_deps =
  sd_resolveInput :: "string \<Rightarrow> string \<Rightarrow> (seal_input, signet_error) result"
  sd_sign :: "seal_payload \<Rightarrow> (seal_envelope, signet_error) result"
  sd_signRevocation :: "revocation_seal \<Rightarrow> (signed_revocation_envelope, signet_error) result"
  sd_publish :: "string \<Rightarrow> seal_envelope \<Rightarrow> (unit, signet_error) result"
  sd_publishRevocation :: "string \<Rightarrow> signed_revocation_envelope \<Rightarrow> (unit, signet_error) result"

definition DEFAULT_TTL_MS :: int where
  "DEFAULT_TTL_MS = 86400 * 1000"

definition chainKey :: "string \<Rightarrow> string \<Rightarrow> string" where
  "chainKey credentialId chatId = credentialId @ '':'' @ chatId"

abbreviation seal_id :: "seal_envelope \<Rightarrow> string" where
  "seal_id e \<equiv> sp_sealId (sc_current (sen_chain e))"

definition stableSerialize :: "seal_engine \<Rightarrow> js_value \<Rightarrow> string" where
  "stableSerialize en value = canonicalize_bytes en value"

definition hasInputChanges :: "seal_engine \<Rightarrow> seal_input \<Rightarrow> seal_input \<Rightarrow> bool" where
  "hasInputChanges en previous nxt \<longleftrightarrow>
     sin_credentialId previous \<noteq> sin_credentialId nxt \<or>
     sin_operatorId previous \<noteq> sin_operatorId nxt \<or>
     sin_chatId previous \<noteq> sin_chatId nxt \<or>
     sin_scopeMode previous \<noteq> sin_scopeMode nxt \<or>
     stableSerialize en (opt_js admin_access_js (sin_adminAccess previous)) \<noteq>
       stableSerialize en (opt_js admin_access_js (sin_adminAccess nxt)) \<or>
     sin_trustTier previous \<noteq> sin_trustTier nxt \<or>
     stableSerialize en (opt_js disclosures_js (sin_operatorDisclosures previous)) \<noteq>
       stableSerialize en (opt_js disclosures_js (sin_operatorDisclosures nxt)) \<or>
     stableSerialize en (opt_js provenance_js (sin_provenanceMap previous)) \<noteq>
       stableSerialize en (opt_js provenance_js (sin_provenanceMap nxt))"

subsection \<open>Issuing\<close>

text \<open>The materiality check against the current head: the seal is still good.\<close>

definition still_current :: "seal_engine \<Rightarrow> seal_manager_state \<Rightarrow> seal_envelope \<Rightarrow> seal_input \<Rightarrow> bool" where
  "still_current en st previous input =
     (case map_get (inputsBySealId st) (seal_id previous) of
        None \<Rightarrow> False
      | Some previousInput \<Rightarrow>
          let cur = sc_current (sen_chain previous);
              delta = computePayloadDelta cur
                (cur\<lparr>sp_permissions := sin_permissions input, sp_scopeMode := sin_scopeMode input,
                     sp_adminAccess := sin_adminAccess input\<rparr>);
              policyDelta = \<lparr>d_added = d_added delta, d_removed = d_removed delta, d_changed = d_changed delta\<rparr>
          in \<not> isMaterialChange (OneDelta policyDelta) \<and> \<not> hasInputChanges en previousInput input)"

text \<open>What is left to do after the preparation: nothing, or to sign and publish a chain.\<close>

datatype issue_prep =
    PrepDone "(seal_envelope, signet_error) result"
  | PrepSign string seal_chain seal_input

definition issue_prepare ::
  "seal_engine \<Rightarrow> int \<Rightarrow> 8 word list \<Rightarrow> seal_manager_state \<Rightarrow> string \<Rightarrow> seal_input \<Rightarrow> issue_prep" where
  "issue_prepare en now random st chatId input =
     (let key = chainKey (sin_credentialId input) chatId
      in if key \<in> set (revokedPairs st)
         then PrepDone (Err (SealError_create [] ''Cannot issue seal for revoked credential+chat''))
         else
           let previous = map_get (currentSeals st) key
           in case previous of
                Some p \<Rightarrow>
                  if still_current en st p input then PrepDone (Ok p)
                  else (case buildSeal en now random input (Some (sc_current (sen_chain p))) of
                          Err e \<Rightarrow> PrepDone (Err e)
                        | Ok b \<Rightarrow> PrepSign key (sb_chain b) input)
              | None \<Rightarrow>
                  (case buildSeal en now random input None of
                     Err e \<Rightarrow> PrepDone (Err e)
                   | Ok b \<Rightarrow> PrepSign key (sb_chain b) input))"

definition sign_and_publish ::
  "seal_manager_deps \<Rightarrow> string \<Rightarrow> seal_chain \<Rightarrow> (seal_envelope, signet_error) result" where
  "sign_and_publish deps chatId chain =
     (case sd_sign deps (sc_current chain) of
        Err e \<Rightarrow> Err e
      | Ok stamped \<Rightarrow>
          let envelope = stamped\<lparr>sen_chain := chain\<rparr>
          in case sd_publish deps chatId envelope of
               Err e \<Rightarrow> Err e
             | Ok _ \<Rightarrow> Ok envelope)"

definition issue_commit ::
  "seal_manager_state \<Rightarrow> string \<Rightarrow> seal_envelope \<Rightarrow> seal_input \<Rightarrow> seal_manager_state" where
  "issue_commit st key envelope input =
     st\<lparr>currentSeals := map_set (currentSeals st) key envelope,
        sealsById := map_set (sealsById st) (seal_id envelope) envelope,
        inputsBySealId := map_set (inputsBySealId st) (seal_id envelope) input\<rparr>"

definition finish_issue ::
  "seal_manager_deps \<Rightarrow> seal_manager_state \<Rightarrow> string \<Rightarrow> issue_prep
   \<Rightarrow> (seal_envelope, signet_error) result \<times> seal_manager_state" where
  "finish_issue deps st chatId prep =
     (case prep of
        PrepDone r \<Rightarrow> (r, st)
      | PrepSign key chain input \<Rightarrow>
          (case sign_and_publish deps chatId chain of
             Err e \<Rightarrow> (Err e, st)
           | Ok envelope \<Rightarrow> (Ok envelope, issue_commit st key envelope input)))"

definition seal_issue ::
  "seal_engine \<Rightarrow> seal_manager_deps \<Rightarrow> int \<Rightarrow> 8 word list \<Rightarrow> seal_manager_state \<Rightarrow> string \<Rightarrow> string
   \<Rightarrow> (seal_envelope, signet_error) result \<times> seal_manager_state" where
  "seal_issue en deps now random st credentialId chatId =
     (case sd_resolveInput deps credentialId chatId of
        Err e \<Rightarrow> (Err e, st)
      | Ok input \<Rightarrow> finish_issue deps st chatId (issue_prepare en now random st chatId input))"

subsection \<open>Refreshing\<close>

definition refresh_prepare ::
  "seal_engine \<Rightarrow> int \<Rightarrow> 8 word list \<Rightarrow> seal_manager_state \<Rightarrow> string \<Rightarrow> issue_prep" where
  "refresh_prepare en now random st sealId =
     (case map_get (sealsById st) sealId of
        None \<Rightarrow> PrepDone (Err (SealError_create sealId ''Seal not found''))
      | Some existing \<Rightarrow>
          (case map_get (inputsBySealId st) sealId of
             None \<Rightarrow> PrepDone (Err (SealError_create sealId ''Input not found for seal''))
           | Some input \<Rightarrow>
               let current = sc_current (sen_chain existing);
                   key = chainKey (sp_credentialId current) (sp_chatId current)
               in if map_option seal_id (map_get (currentSeals st) key) \<noteq> Some sealId
                  then PrepDone (Err (SealError_create sealId ''Only the current head seal can be refreshed''))
                  else if key \<in> set (revokedPairs st)
                  then PrepDone (Err (SealError_create sealId
                         ''Cannot refresh: credential+chat pair has been revoked''))
                  else (case buildSeal en now random input (Some current) of
                          Err e \<Rightarrow> PrepDone (Err e)
                        | Ok b \<Rightarrow> PrepSign key (sb_chain b) input)))"

definition seal_refresh ::
  "seal_engine \<Rightarrow> seal_manager_deps \<Rightarrow> int \<Rightarrow> 8 word list \<Rightarrow> seal_manager_state \<Rightarrow> string
   \<Rightarrow> (seal_envelope, signet_error) result \<times> seal_manager_state" where
  "seal_refresh en deps now random st sealId =
     finish_issue deps st
       (case map_get (sealsById st) sealId of
          None \<Rightarrow> [] | Some existing \<Rightarrow> sp_chatId (sc_current (sen_chain existing)))
       (refresh_prepare en now random st sealId)"

subsection \<open>Revoking\<close>

definition seal_revoke ::
  "seal_engine \<Rightarrow> seal_manager_deps \<Rightarrow> int \<Rightarrow> 8 word list \<Rightarrow> seal_manager_state \<Rightarrow> string \<Rightarrow> agent_revocation_reason
   \<Rightarrow> (unit, signet_error) result \<times> seal_manager_state" where
  "seal_revoke en deps now random st sealId reason =
     (case map_get (sealsById st) sealId of
        None \<Rightarrow> (Err (SealError_create sealId ''Seal not found''), st)
      | Some existing \<Rightarrow>
          let current = sc_current (sen_chain existing);
              key = chainKey (sp_credentialId current) (sp_chatId current)
          in if key \<in> set (revokedPairs st)
             then (Err (SealError_create sealId ''Credential+chat already revoked''), st)
             else
               let revocation = \<lparr>rs_sealId = generateSealId random, rs_previousSealId = sealId,
                     rs_operatorId = sp_operatorId current, rs_credentialId = sp_credentialId current,
                     rs_chatId = sp_chatId current, rs_reason = reason, rs_revokedAt = se_isoText en now,
                     rs_issuer = ''signet''\<rparr>
               in if \<not> RevocationSeal_ok en revocation
                  then (Err (ValidationError_create ''revocation'' (se_zodMessage en) []), st)
                  else case sd_signRevocation deps revocation of
                         Err e \<Rightarrow> (Err e, st)
                       | Ok stamped \<Rightarrow>
                           (case sd_publishRevocation deps (sp_chatId current) stamped of
                              Err e \<Rightarrow> (Err e, st)
                            | Ok _ \<Rightarrow>
                                (Ok (), st\<lparr>revokedPairs := set_add (revokedPairs st) key,
                                           currentSeals := map_delete (currentSeals st) key\<rparr>)))"

subsection \<open>Queries\<close>

definition seal_current :: "seal_manager_state \<Rightarrow> string \<Rightarrow> string \<Rightarrow> seal_envelope option" where
  "seal_current st credentialId chatId = map_get (currentSeals st) (chainKey credentialId chatId)"

record seal_filter =
  sf_credentialId :: "string option"
  sf_chatId :: "string option"

definition matchesFilter :: "seal_envelope \<Rightarrow> seal_filter \<Rightarrow> bool" where
  "matchesFilter envelope f =
     (let current = sc_current (sen_chain envelope)
      in if (case sf_chatId f of None \<Rightarrow> False | Some c \<Rightarrow> sp_chatId current \<noteq> c) then False
         else if (case sf_credentialId f of None \<Rightarrow> False | Some c \<Rightarrow> sp_credentialId current \<noteq> c) then False
         else True)"

text \<open>\<open>compareNewestFirst\<close> as "not after": its difference is not positive (or not a number).\<close>

definition newest_first :: "seal_engine \<Rightarrow> seal_envelope \<Rightarrow> seal_envelope \<Rightarrow> bool" where
  "newest_first en l r =
     (case (se_parseDate en (sp_issuedAt (sc_current (sen_chain r))),
            se_parseDate en (sp_issuedAt (sc_current (sen_chain l)))) of
        (Some tRight, Some tLeft) \<Rightarrow> \<not> tRight - tLeft > 0
      | _ \<Rightarrow> True)"

definition seal_list :: "seal_engine \<Rightarrow> seal_manager_state \<Rightarrow> seal_filter \<Rightarrow> seal_envelope list" where
  "seal_list en st f =
     js_sort (newest_first en) (filter (\<lambda>e. matchesFilter e f) (map_values (currentSeals st)))"

definition seal_lookup :: "seal_manager_state \<Rightarrow> string \<Rightarrow> (seal_envelope, signet_error) result" where
  "seal_lookup st sealId =
     (case map_get (sealsById st) sealId of
        None \<Rightarrow> Err (SealError_create sealId ''Seal not found'')
      | Some envelope \<Rightarrow> Ok envelope)"

definition previous_id :: "seal_envelope \<Rightarrow> string option" where
  "previous_id e = map_option sp_sealId (sc_previous (sen_chain e))"

definition findHistoryHead :: "seal_envelope list \<Rightarrow> seal_envelope option" where
  "findHistoryHead envelopes =
     (let referenced = set_of (List.map_filter previous_id envelopes)
      in List.find (\<lambda>e. seal_id e \<notin> set referenced) envelopes)"

text \<open>
  The walk down the chain. The loop's guard on \<open>seen\<close> is what makes it end: every turn adds an
  identifier of a stored seal (or of the seal it starts at) to \<open>seen\<close>.
\<close>

function history_loop ::
  "seal_manager_state \<Rightarrow> seal_envelope option \<Rightarrow> string list \<Rightarrow> seal_envelope list \<Rightarrow> seal_envelope list" where
  "history_loop st None seen history = history"
| "history_loop st (Some cursor) seen history =
     (if seal_id cursor \<in> set seen then history
      else history_loop st
             (case previous_id cursor of
                None \<Rightarrow> None
              | Some p \<Rightarrow> if p = [] then None else map_get (sealsById st) p)
             (set_add seen (seal_id cursor)) (history @ [cursor]))"
  by pat_completeness auto

definition stored_ids :: "seal_manager_state \<Rightarrow> string set" where
  "stored_ids st = seal_id ` set (map_values (sealsById st))"

lemma stored_idsI: "map_get (sealsById st) p = Some e \<Longrightarrow> seal_id e \<in> stored_ids st"
  unfolding stored_ids_def map_values_def map_get_def by (force dest: map_of_SomeD)

definition history_measure :: "seal_manager_state \<times> seal_envelope option \<times> string list \<times> seal_envelope list \<Rightarrow> nat" where
  "history_measure q =
     (case q of (st, cursor, seen, _) \<Rightarrow>
        (case cursor of
           None \<Rightarrow> 0
         | Some c \<Rightarrow> Suc (card (insert (seal_id c) (stored_ids st) - set seen))))"

termination history_loop
proof (relation "measure history_measure")
  show "wf (measure history_measure)" by simp
next
  fix st :: seal_manager_state and cursor :: seal_envelope and seen :: "string list"
    and history :: "seal_envelope list"
  let ?next = "case previous_id cursor of None \<Rightarrow> None
      | Some p \<Rightarrow> if p = [] then None else map_get (sealsById st) p"
  assume new: "seal_id cursor \<notin> set seen"
  have fin: "finite (stored_ids st)" by (simp add: stored_ids_def)
  have "insert (seal_id c) (stored_ids st) = stored_ids st" if "?next = Some c" for c
    using that stored_idsI by (auto split: option.splits if_splits)
  moreover have "card (stored_ids st - insert (seal_id cursor) (set seen))
      < card (insert (seal_id cursor) (stored_ids st) - set seen)"
    using new fin by (intro psubset_card_mono) auto
  ultimately show "((st, ?next, set_add seen (seal_id cursor), history @ [cursor]),
      (st, Some cursor, seen, history)) \<in> measure history_measure"
    by (cases ?next) (simp_all add: history_measure_def)
qed

definition seal_history :: "seal_engine \<Rightarrow> seal_manager_state \<Rightarrow> string \<Rightarrow> string \<Rightarrow> seal_envelope list" where
  "seal_history en st credentialId chatId =
     (let envelopes = filter (\<lambda>e. sp_credentialId (sc_current (sen_chain e)) = credentialId \<and>
                                  sp_chatId (sc_current (sen_chain e)) = chatId) (map_values (sealsById st))
      in if length envelopes = 0 then []
         else
           let head = (case map_get (currentSeals st) (chainKey credentialId chatId) of
                         Some activeHead \<Rightarrow> Some activeHead
                       | None \<Rightarrow>
                           (case findHistoryHead envelopes of
                              Some h \<Rightarrow> Some h
                            | None \<Rightarrow> Some (hd (js_sort (newest_first en) envelopes))))
           in history_loop st head [] [])"

text \<open>Renewal is due when three quarters of the default lifetime have passed.\<close>

definition needsRenewal :: "seal_engine \<Rightarrow> int \<Rightarrow> seal_payload \<Rightarrow> bool" where
  "needsRenewal en now payload =
     (case se_parseDate en (sp_issuedAt payload) of
        None \<Rightarrow> False
      | Some issuedAt \<Rightarrow> (of_int now :: rat) \<ge> of_int issuedAt + of_int DEFAULT_TTL_MS * (3 / 4))"

end
