(* ===== verification/SealInvariant.thy ===== *)
theory SealInvariant
  imports SealManager
begin

text \<open>
  The invariant of the seal manager and what follows from it: stored seals are linked into
  chains, every stored delta verifies, and a revoked pair of credential and chat has no current
  seal, as long as calls do not overlap; and what an overlap can do.
\<close>

subsection \<open>Keys\<close>

lemma starts_with_length: "starts_with s p \<Longrightarrow> length p \<le> length s"
  by (auto simp: starts_with_split)

lemma id_ok_length: "id_ok ty s \<Longrightarrow> length s = length (RESOURCE_PREFIXES ty) + 16"
  by (auto simp: id_ok_def resource_id_ok_def SHORT_ID_HEX_def RESOURCE_ID_HEX_LENGTH_def
      dest: starts_with_length split: if_splits)

text \<open>Valid credential identifiers all have the same length, so the composite key is unambiguous.\<close>

lemma chainKey_inj:
  "id_ok RT_credential c \<Longrightarrow> id_ok RT_credential d \<Longrightarrow> chainKey c ch = chainKey d dh \<longleftrightarrow> c = d \<and> ch = dh"
  by (auto simp: chainKey_def dest!: id_ok_length)

subsection \<open>The invariant\<close>

fun linked_from :: "string list \<Rightarrow> (string \<times> seal_envelope) list \<Rightarrow> bool" where
  "linked_from seen [] = True"
| "linked_from seen ((k, e) # m) =
     (seal_id e = k \<and> (case previous_id e of None \<Rightarrow> True | Some p \<Rightarrow> p \<in> set seen) \<and> linked_from (k # seen) m)"

definition seal_ok :: "seal_engine \<Rightarrow> seal_manager_state \<Rightarrow> seal_envelope \<Rightarrow> bool" where
  "seal_ok en st e \<longleftrightarrow>
     SealPayload_ok en (sc_current (sen_chain e)) \<and> verifyChainDelta (sen_chain e) = Ok () \<and>
     (case sc_previous (sen_chain e) of
        None \<Rightarrow> True
      | Some p \<Rightarrow>
          sp_credentialId p = sp_credentialId (sc_current (sen_chain e)) \<and>
          sp_chatId p = sp_chatId (sc_current (sen_chain e)) \<and>
          (case map_get (sealsById st) (sp_sealId p) of None \<Rightarrow> False | Some e' \<Rightarrow> sc_current (sen_chain e') = p)) \<and>
     (case map_get (inputsBySealId st) (seal_id e) of
        None \<Rightarrow> False
      | Some input \<Rightarrow> sin_credentialId input = sp_credentialId (sc_current (sen_chain e)) \<and>
          sin_chatId input = sp_chatId (sc_current (sen_chain e)))"

definition head_ok :: "seal_manager_state \<Rightarrow> string \<Rightarrow> seal_envelope \<Rightarrow> bool" where
  "head_ok st key e \<longleftrightarrow>
     map_get (sealsById st) (seal_id e) = Some e \<and> key \<notin> set (revokedPairs st) \<and>
     key = chainKey (sp_credentialId (sc_current (sen_chain e))) (sp_chatId (sc_current (sen_chain e)))"

definition sm_inv :: "seal_engine \<Rightarrow> seal_manager_state \<Rightarrow> bool" where
  "sm_inv en st \<longleftrightarrow>
     map_wf (currentSeals st) \<and> map_wf (sealsById st) \<and> map_wf (inputsBySealId st) \<and>
     linked_from [] (sealsById st) \<and>
     list_all (\<lambda>(k, e). seal_ok en st e) (sealsById st) \<and>
     list_all (\<lambda>(key, e). head_ok st key e) (currentSeals st)"

lemma sm_inv_iff:
  "sm_inv en st \<longleftrightarrow>
     map_wf (currentSeals st) \<and> map_wf (sealsById st) \<and> map_wf (inputsBySealId st) \<and>
     linked_from [] (sealsById st) \<and>
     (\<forall>k e. map_get (sealsById st) k = Some e \<longrightarrow> seal_ok en st e) \<and>
     (\<forall>key e. map_get (currentSeals st) key = Some e \<longrightarrow> head_ok st key e)"
  unfolding sm_inv_def
  by (cases "map_wf (currentSeals st)"; cases "map_wf (sealsById st)"; simp add: list_all_entries)

lemma sm_inv_init: "sm_inv en createSealManager"
  by (simp add: sm_inv_def createSealManager_def)

lemma sm_inv_seal: "sm_inv en st \<Longrightarrow> map_get (sealsById st) k = Some e \<Longrightarrow> seal_ok en st e"
  by (simp add: sm_inv_iff)

lemma sm_inv_head: "sm_inv en st \<Longrightarrow> map_get (currentSeals st) key = Some e \<Longrightarrow> head_ok st key e"
  by (simp add: sm_inv_iff)

lemma linked_from_id: "linked_from seen m \<Longrightarrow> (k, e) \<in> set m \<Longrightarrow> seal_id e = k"
  by (induction seen m rule: linked_from.induct) auto

lemma sm_inv_id: "sm_inv en st \<Longrightarrow> map_get (sealsById st) k = Some e \<Longrightarrow> seal_id e = k"
  unfolding sm_inv_def map_get_def by (blast dest: map_of_SomeD linked_from_id)

lemma linked_from_append:
  "linked_from seen (m @ [(k, e)]) \<longleftrightarrow>
     linked_from seen m \<and> seal_id e = k \<and>
     (case previous_id e of None \<Rightarrow> True | Some p \<Rightarrow> p \<in> set seen \<union> fst ` set m)"
  by (induction seen m rule: linked_from.induct) (auto split: option.split)

lemma map_set_new: "map_get m k = None \<Longrightarrow> map_set m k v = m @ [(k, v)]"
  unfolding map_get_def map_set_def by (induction m) (auto split: if_splits)

subsection \<open>Issuing and refreshing keep it\<close>

text \<open>What a preparation that goes on to sign has established.\<close>

definition prep_ok :: "seal_engine \<Rightarrow> seal_manager_state \<Rightarrow> string \<Rightarrow> seal_chain \<Rightarrow> seal_input \<Rightarrow> bool" where
  "prep_ok en st key chain input \<longleftrightarrow>
     key = chainKey (sp_credentialId (sc_current chain)) (sp_chatId (sc_current chain)) \<and>
     key \<notin> set (revokedPairs st) \<and>
     SealPayload_ok en (sc_current chain) \<and> verifyChainDelta chain = Ok () \<and>
     sin_credentialId input = sp_credentialId (sc_current chain) \<and> sin_chatId input = sp_chatId (sc_current chain) \<and>
     (case sc_previous chain of
        None \<Rightarrow> map_get (currentSeals st) key = None
      | Some p \<Rightarrow> (case map_get (currentSeals st) key of None \<Rightarrow> False | Some e \<Rightarrow> sc_current (sen_chain e) = p))"

lemma raw_payload_sel [simp]:
  "sp_sealId (raw_payload en now rnd i) = generateSealId rnd"
  "sp_credentialId (raw_payload en now rnd i) = sin_credentialId i"
  "sp_chatId (raw_payload en now rnd i) = sin_chatId i"
  by (simp_all add: raw_payload_def)

lemma issue_prepare_ok:
  assumes "issue_prepare en now rnd st chatId input = PrepSign key chain input'" and "sin_chatId input = chatId"
  shows "input' = input \<and> prep_ok en st key chain input \<and> sp_sealId (sc_current chain) = generateSealId rnd"
  using assms
  by (auto simp: issue_prepare_def Let_def prep_ok_def dest!: buildSeal_Ok
      split: if_splits option.splits result.splits)

lemma refresh_prepare_ok:
  assumes inv: "sm_inv en st" and prep: "refresh_prepare en now rnd st sealId = PrepSign key chain input"
  shows "prep_ok en st key chain input \<and> sp_sealId (sc_current chain) = generateSealId rnd"
proof -
  obtain e i b where e: "map_get (sealsById st) sealId = Some e" "map_get (inputsBySealId st) sealId = Some i"
    and key: "key = chainKey (sp_credentialId (sc_current (sen_chain e))) (sp_chatId (sc_current (sen_chain e)))"
    and head: "map_option seal_id (map_get (currentSeals st) key) = Some sealId"
    and new: "key \<notin> set (revokedPairs st)" "buildSeal en now rnd i (Some (sc_current (sen_chain e))) = Ok b"
    and res: "chain = sb_chain b" "input = i"
    using prep by (auto simp: refresh_prepare_def Let_def split: if_splits option.splits result.splits)
  obtain h where h: "map_get (currentSeals st) key = Some h" "seal_id h = sealId"
    using head by auto
  then have "h = e" using sm_inv_head [OF inv h(1)] e(1) by (simp add: head_ok_def)
  moreover have "sin_credentialId i = sp_credentialId (sc_current (sen_chain e)) \<and>
      sin_chatId i = sp_chatId (sc_current (sen_chain e))"
    using sm_inv_seal [OF inv e(1)] sm_inv_id [OF inv e(1)] e(2) by (simp add: seal_ok_def)
  ultimately show ?thesis
    using buildSeal_Ok [OF new(2)] new(1) key res h(1) by (auto simp: prep_ok_def)
qed

lemma commit_inv:
  assumes inv: "sm_inv en st" and prep: "prep_ok en st key chain input" and chain: "sen_chain env = chain"
    and fresh: "map_get (sealsById st) (seal_id env) = None"
  shows "sm_inv en (issue_commit st key env input)"
proof -
  let ?st = "issue_commit st key env input"
  have prev: "case sc_previous chain of None \<Rightarrow> True
      | Some p \<Rightarrow> sp_credentialId p = sp_credentialId (sc_current chain) \<and> sp_chatId p = sp_chatId (sc_current chain) \<and>
          (\<exists>e. map_get (sealsById st) (sp_sealId p) = Some e \<and> sc_current (sen_chain e) = p)"
  proof (cases "sc_previous chain")
    case (Some p)
    then obtain h where h: "map_get (currentSeals st) key = Some h" "sc_current (sen_chain h) = p"
      using prep by (auto simp: prep_ok_def split: option.splits)
    have ok: "head_ok st key h" using sm_inv_head [OF inv h(1)] .
    then have "seal_ok en st h" using sm_inv_seal [OF inv, of "seal_id h" h] by (simp add: head_ok_def)
    then have "id_ok RT_credential (sp_credentialId p)" "id_ok RT_credential (sp_credentialId (sc_current chain))"
      using prep h by (simp_all add: seal_ok_def SealPayload_ok_def prep_ok_def)
    then show ?thesis
      using ok h prep Some chainKey_inj by (auto simp: head_ok_def prep_ok_def)
  qed simp
  have link: "linked_from [] (sealsById ?st)"
    using inv prev fresh chain
    by (auto simp: issue_commit_def sm_inv_def map_set_new linked_from_append previous_id_def map_get_def
        split: option.splits dest: map_of_SomeD) (force dest: map_of_SomeD)
  have seals: "seal_ok en ?st e" if "map_get (sealsById ?st) k = Some e" for k e
  proof (cases "k = seal_id env")
    case True
    then have "e = env" using that by (simp add: issue_commit_def)
    moreover have "p \<noteq> None \<Longrightarrow> sp_sealId (the p) \<noteq> seal_id env" if "p = sc_previous chain" for p
      using prev fresh that by auto
    ultimately show ?thesis
      using prev prep chain fresh
      by (auto simp: seal_ok_def issue_commit_def prep_ok_def split: option.splits)
  next
    case False
    then have old: "map_get (sealsById st) k = Some e" using that by (simp add: issue_commit_def)
    from sm_inv_seal [OF inv old] sm_inv_id [OF inv old] False fresh show ?thesis
      by (auto simp: seal_ok_def issue_commit_def split: option.splits if_splits)
  qed
  have heads: "head_ok ?st j e" if "map_get (currentSeals ?st) j = Some e" for j e
  proof (cases "j = key")
    case True
    then show ?thesis using that prep chain by (auto simp: issue_commit_def head_ok_def prep_ok_def)
  next
    case False
    then have "map_get (currentSeals st) j = Some e" using that by (simp add: issue_commit_def)
    from sm_inv_head [OF inv this] fresh show ?thesis by (auto simp: head_ok_def issue_commit_def)
  qed
  show ?thesis
    using link seals heads inv unfolding sm_inv_iff by (simp add: issue_commit_def)
qed

lemma sign_and_publish_chain: "sign_and_publish deps chatId chain = Ok env \<Longrightarrow> sen_chain env = chain"
  by (auto simp: sign_and_publish_def Let_def split: result.splits)

text \<open>A resolver answers for the chat it is asked about.\<close>

definition resolver_ok :: "seal_manager_deps \<Rightarrow> bool" where
  "resolver_ok deps \<longleftrightarrow>
     (\<forall>c ch. case sd_resolveInput deps c ch of Err _ \<Rightarrow> True | Ok input \<Rightarrow> sin_chatId input = ch)"

definition seal_fresh :: "seal_manager_state \<Rightarrow> 8 word list \<Rightarrow> bool" where
  "seal_fresh st random \<longleftrightarrow> map_get (sealsById st) (generateSealId random) = None"

lemma finish_issue_inv:
  assumes "sm_inv en st" and "seal_fresh st rnd"
    and "\<And>key chain input. prep = PrepSign key chain input \<Longrightarrow>
           prep_ok en st key chain input \<and> sp_sealId (sc_current chain) = generateSealId rnd"
  shows "sm_inv en (snd (finish_issue deps st chatId prep))"
proof (cases prep)
  case (PrepDone r)
  then show ?thesis using assms(1) by (simp add: finish_issue_def)
next
  case (PrepSign key chain input)
  show ?thesis
  proof (cases "sign_and_publish deps chatId chain")
    case (Err e)
    then show ?thesis using PrepSign assms(1) by (simp add: finish_issue_def)
  next
    case (Ok env)
    note c = sign_and_publish_chain [OF Ok]
    have "sm_inv en (issue_commit st key env input)"
      using assms(3) [OF PrepSign] assms(2) c by (intro commit_inv [OF assms(1) _ c]) (auto simp: seal_fresh_def)
    then show ?thesis using PrepSign Ok by (simp add: finish_issue_def)
  qed
qed

lemma seal_issue_inv:
  assumes "sm_inv en st" and "resolver_ok deps" and "seal_fresh st rnd"
  shows "sm_inv en (snd (seal_issue en deps now rnd st c ch))"
proof (cases "sd_resolveInput deps c ch")
  case (Err e)
  then show ?thesis using assms(1) by (simp add: seal_issue_def)
next
  case (Ok input)
  have "case sd_resolveInput deps c ch of Err _ \<Rightarrow> True | Ok input \<Rightarrow> sin_chatId input = ch"
    using assms(2) unfolding resolver_ok_def by blast
  then have "sin_chatId input = ch" using Ok by simp
  then have "sm_inv en (snd (finish_issue deps st ch (issue_prepare en now rnd st ch input)))"
    using issue_prepare_ok [of en now rnd st ch input] by (intro finish_issue_inv [OF assms(1,3)]) auto
  then show ?thesis using Ok by (simp add: seal_issue_def)
qed

lemma seal_refresh_inv:
  assumes "sm_inv en st" and "seal_fresh st rnd"
  shows "sm_inv en (snd (seal_refresh en deps now rnd st sid))"
  unfolding seal_refresh_def by (rule finish_issue_inv [OF assms]) (rule refresh_prepare_ok [OF assms(1)])

lemma seal_revoke_cases:
  "(\<exists>e. seal_revoke en deps now rnd st sid reason = (Err e, st)) \<or>
   (\<exists>e key. map_get (sealsById st) sid = Some e \<and>
      key = chainKey (sp_credentialId (sc_current (sen_chain e))) (sp_chatId (sc_current (sen_chain e))) \<and>
      key \<notin> set (revokedPairs st) \<and>
      seal_revoke en deps now rnd st sid reason =
        (Ok (), st\<lparr>revokedPairs := set_add (revokedPairs st) key, currentSeals := map_delete (currentSeals st) key\<rparr>))"
  by (auto simp: seal_revoke_def Let_def split: option.split result.split)

lemma seal_ok_cong:
  "sealsById st' = sealsById st \<Longrightarrow> inputsBySealId st' = inputsBySealId st \<Longrightarrow> seal_ok en st' e = seal_ok en st e"
  by (simp add: seal_ok_def cong: option.case_cong)

lemma seal_revoke_inv:
  assumes "sm_inv en st" shows "sm_inv en (snd (seal_revoke en deps now rnd st sid reason))"
proof -
  have "sm_inv en (st\<lparr>revokedPairs := set_add (revokedPairs st) key, currentSeals := map_delete (currentSeals st) key\<rparr>)"
    (is "sm_inv en ?st") for key
  proof -
    have "seal_ok en ?st e = seal_ok en st e" for e by (rule seal_ok_cong) simp_all
    then show ?thesis using assms unfolding sm_inv_iff by (auto simp: head_ok_def split: if_splits)
  qed
  then show ?thesis using seal_revoke_cases [of en deps now rnd st sid reason] assms by auto
qed

inductive sm_step :: "seal_engine \<Rightarrow> seal_manager_state \<Rightarrow> seal_manager_state \<Rightarrow> bool" for en where
  sm_issue: "resolver_ok deps \<Longrightarrow> seal_fresh st rnd \<Longrightarrow> sm_step en st (snd (seal_issue en deps now rnd st c ch))"
| sm_refresh: "seal_fresh st rnd \<Longrightarrow> sm_step en st (snd (seal_refresh en deps now rnd st sid))"
| sm_revoke: "sm_step en st (snd (seal_revoke en deps now rnd st sid reason))"

inductive sm_reachable :: "seal_engine \<Rightarrow> seal_manager_state \<Rightarrow> bool" for en where
  sm_start: "sm_reachable en createSealManager"
| sm_more: "sm_reachable en st \<Longrightarrow> sm_step en st st' \<Longrightarrow> sm_reachable en st'"

lemma sm_step_inv: "sm_step en st st' \<Longrightarrow> sm_inv en st \<Longrightarrow> sm_inv en st'"
  by (induction rule: sm_step.induct) (simp_all add: seal_issue_inv seal_refresh_inv seal_revoke_inv)

lemma sm_reachable_inv: "sm_reachable en st \<Longrightarrow> sm_inv en st"
  by (induction rule: sm_reachable.induct) (auto intro: sm_inv_init sm_step_inv)

lemma finish_issue_revoked [simp]: "revokedPairs (snd (finish_issue deps st ch prep)) = revokedPairs st"
  by (auto simp: finish_issue_def issue_commit_def split: issue_prep.split result.split)

lemma sm_step_revoked: "sm_step en st st' \<Longrightarrow> set (revokedPairs st) \<subseteq> set (revokedPairs st')"
proof (induction rule: sm_step.induct)
  case (sm_issue deps st rnd now c ch)
  then show ?case by (auto simp: seal_issue_def split: result.split)
next
  case (sm_refresh st rnd deps now sid)
  then show ?case by (simp add: seal_refresh_def)
next
  case (sm_revoke st deps now rnd sid reason)
  then show ?case using seal_revoke_cases [of en deps now rnd st sid reason] by auto
qed

subsection \<open>The walk down the chain\<close>

definition seal_rank :: "seal_manager_state \<Rightarrow> string \<Rightarrow> nat" where
  "seal_rank st k = length (takeWhile (\<lambda>j. j \<noteq> k) (map_keys (sealsById st)))"

lemma linked_from_before:
  "linked_from seen m \<Longrightarrow> m = xs @ (k, e) # ys \<Longrightarrow> previous_id e = Some p \<Longrightarrow> p \<in> set seen \<union> fst ` set xs"
proof (induction seen m arbitrary: xs rule: linked_from.induct)
  case (2 seen k' e' m)
  then show ?case by (cases xs) auto
qed simp

lemma takeWhile_before: "p \<in> set xs \<Longrightarrow> length (takeWhile (\<lambda>j. j \<noteq> p) (xs @ ys)) < length xs"
  by (induction xs) auto

text \<open>A seal is stored after its predecessor.\<close>

lemma previous_rank:
  assumes inv: "sm_inv en st" and e: "map_get (sealsById st) k = Some e" and p: "previous_id e = Some p"
  shows "seal_rank st p < seal_rank st k"
proof -
  have "(k, e) \<in> set (sealsById st)" using e by (simp add: map_get_def map_of_SomeD)
  then obtain xs ys where m: "sealsById st = xs @ (k, e) # ys" by (auto dest: split_list)
  have "k \<notin> fst ` set xs" using inv m by (auto simp: sm_inv_def map_wf_def)
  then have "seal_rank st k = length xs"
    using m by (auto simp: seal_rank_def map_keys_def takeWhile_append)
  moreover have "p \<in> fst ` set xs"
    using linked_from_before [of "[]", OF _ m p] inv by (auto simp: sm_inv_def)
  then have "seal_rank st p < length xs"
    using takeWhile_before [of p "map fst xs"] m by (simp add: seal_rank_def map_keys_def)
  ultimately show ?thesis by simp
qed

text \<open>A list of envelopes that follows the chain of predecessors down to a first seal.\<close>

fun is_chain :: "seal_envelope list \<Rightarrow> bool" where
  "is_chain [] = True"
| "is_chain [e] = (sc_previous (sen_chain e) = None)"
| "is_chain (e # f # es) = (sc_previous (sen_chain e) = Some (sc_current (sen_chain f)) \<and> is_chain (f # es))"

lemma id_ok_nonempty: "id_ok ty s \<Longrightarrow> s \<noteq> []"
  using id_ok_length by fastforce

lemma history_loop_chain:
  assumes inv: "sm_inv en st"
  shows "map_get (sealsById st) (seal_id e) = Some e \<Longrightarrow> \<forall>s \<in> set seen. seal_rank st (seal_id e) < seal_rank st s \<Longrightarrow>
    \<exists>path. history_loop st (Some e) seen hist = hist @ e # path \<and> is_chain (e # path)"
proof (induction "seal_rank st (seal_id e)" arbitrary: e seen hist rule: less_induct)
  case less
  note e = less.prems(1)
  have unseen: "seal_id e \<notin> set seen" using less.prems(2) by auto
  show ?case
  proof (cases "sc_previous (sen_chain e)")
    case None
    then show ?thesis using unseen by (simp add: previous_id_def)
  next
    case (Some p)
    obtain f where f: "map_get (sealsById st) (sp_sealId p) = Some f" "sc_current (sen_chain f) = p"
      using sm_inv_seal [OF inv e] Some by (auto simp: seal_ok_def split: option.splits)
    have "seal_ok en st f" using sm_inv_seal [OF inv f(1)] .
    then have ne: "sp_sealId p \<noteq> []"
      using f(2) by (auto simp: seal_ok_def SealPayload_ok_def dest: id_ok_nonempty)
    have rank: "seal_rank st (seal_id f) < seal_rank st (seal_id e)"
      using previous_rank [OF inv e] Some f by (simp add: previous_id_def)
    have "\<exists>path. history_loop st (Some f) (set_add seen (seal_id e)) (hist @ [e]) = (hist @ [e]) @ f # path \<and> is_chain (f # path)"
      using less.hyps [of f "set_add seen (seal_id e)" "hist @ [e]"] rank f less.prems(2) by fastforce
    then show ?thesis
      using unseen Some f ne by (auto simp: previous_id_def)
  qed
qed

lemma history_head:
  assumes "es \<noteq> []"
  shows "\<exists>h \<in> set es. (case findHistoryHead es of
           Some h \<Rightarrow> Some h | None \<Rightarrow> Some (hd (js_sort le es))) = Some h"
proof (cases "findHistoryHead es")
  case None
  then show ?thesis using assms hd_in_set [of "js_sort le es"] by simp
next
  case (Some h)
  then show ?thesis using find_SomeD [of _ es h] by (simp add: findHistoryHead_def Let_def)
qed

subsection \<open>A concrete manager\<close>

definition sample_seal_engine :: seal_engine where
  "sample_seal_engine =
     \<lparr>se_stringify = sample_stringify, se_isoText = (\<lambda>_. ''2026-01-01T00:00:00.000Z''),
      se_parseDate = (\<lambda>_. Some 0), se_isDatetime = (\<lambda>_. True), se_zodMessage = ''invalid''\<rparr>"

definition sample_seal_input :: "string \<Rightarrow> seal_input" where
  "sample_seal_input chat =
     \<lparr>sin_credentialId = ''cred_0000000000000001'', sin_operatorId = ''op_0000000000000001'', sin_chatId = chat,
      sin_scopeMode = SM_shared, sin_permissions = \<lparr>allow = [Sc_send], deny = []\<rparr>, sin_adminAccess = None,
      sin_bypassed = False, sin_trustTier = None, sin_operatorDisclosures = None, sin_provenanceMap = None\<rparr>"

definition sample_deps :: seal_manager_deps where
  "sample_deps =
     \<lparr>sd_resolveInput = (\<lambda>_ chat. Ok (sample_seal_input chat)),
      sd_sign = stamper_sign sample_seal_engine \<lparr>sk_sign = (\<lambda>_. Ok [1, 2, 3]), sk_fingerprint = ''key_1''\<rparr>,
      sd_signRevocation = stamper_signRevocation sample_seal_engine \<lparr>sk_sign = (\<lambda>_. Ok [4]), sk_fingerprint = ''key_1''\<rparr>,
      sd_publish = (\<lambda>_ _. Ok ()),
      sd_publishRevocation = (\<lambda>_ _. Ok ())\<rparr>"

definition sample_seal_bytes :: "8 word list" where
  "sample_seal_bytes = [1, 2, 3, 4, 5, 6, 7, 8]"

definition sample_sealed :: seal_manager_state where
  "sample_sealed = snd (seal_issue sample_seal_engine sample_deps 0 sample_seal_bytes createSealManager
     ''cred_0000000000000001'' ''conv_0000000000000001'')"

lemma sample_sealed_reachable: "sm_reachable sample_seal_engine sample_sealed"
  unfolding sample_sealed_def
  by (rule sm_more [OF sm_start sm_issue])
    (simp_all add: resolver_ok_def sample_deps_def sample_seal_input_def seal_fresh_def createSealManager_def)

lemma sample_sealed_current:
  "map_option seal_id (seal_current sample_sealed ''cred_0000000000000001'' ''conv_0000000000000001'') =
     Some (generateSealId sample_seal_bytes)"
  by code_simp

definition sample_revocation :: "(unit, signet_error) result \<times> seal_manager_state" where
  "sample_revocation = seal_revoke sample_seal_engine sample_deps 5 [9, 9, 9, 9, 9, 9, 9, 9] sample_sealed
     (generateSealId sample_seal_bytes) AR_owner_initiated"

lemma sample_revocation_Ok: "fst sample_revocation = Ok ()"
  by code_simp

subsection \<open>Properties\<close>

text \<open>C5: In every state reached by calls that do not overlap, each stored seal has a payload the
  schema accepts and a delta that verifies, and the seal it continues is stored too, for the same
  credential and chat; and the current seal of a pair is stored and the pair is not revoked.\<close>

theorem seal_store_sound:
  assumes "sm_reachable en st"
  shows "(case seal_lookup st sid of
            Err e \<Rightarrow> e = SealError_create sid ''Seal not found''
          | Ok e \<Rightarrow>
              seal_id e = sid \<and> SealPayload_ok en (sc_current (sen_chain e)) \<and> verifyChainDelta (sen_chain e) = Ok () \<and>
              (case sc_previous (sen_chain e) of
                 None \<Rightarrow> True
               | Some p \<Rightarrow>
                   sp_credentialId p = sp_credentialId (sc_current (sen_chain e)) \<and>
                   sp_chatId p = sp_chatId (sc_current (sen_chain e)) \<and>
                   (case seal_lookup st (sp_sealId p) of Err _ \<Rightarrow> False | Ok e' \<Rightarrow> sc_current (sen_chain e') = p))) \<and>
         (case seal_current st c ch of
            None \<Rightarrow> True
          | Some e \<Rightarrow> seal_lookup st (seal_id e) = Ok e \<and> chainKey c ch \<notin> set (revokedPairs st))"
proof
  note inv = sm_reachable_inv [OF assms]
  show "case seal_lookup st sid of
      Err e \<Rightarrow> e = SealError_create sid ''Seal not found''
    | Ok e \<Rightarrow>
        seal_id e = sid \<and> SealPayload_ok en (sc_current (sen_chain e)) \<and> verifyChainDelta (sen_chain e) = Ok () \<and>
        (case sc_previous (sen_chain e) of
           None \<Rightarrow> True
         | Some p \<Rightarrow>
             sp_credentialId p = sp_credentialId (sc_current (sen_chain e)) \<and>
             sp_chatId p = sp_chatId (sc_current (sen_chain e)) \<and>
             (case seal_lookup st (sp_sealId p) of Err _ \<Rightarrow> False | Ok e' \<Rightarrow> sc_current (sen_chain e') = p))"
  proof (cases "map_get (sealsById st) sid")
    case None
    then show ?thesis by (simp add: seal_lookup_def)
  next
    case (Some e)
    then show ?thesis
      using sm_inv_seal [OF inv Some] sm_inv_id [OF inv Some]
      by (auto simp: seal_lookup_def seal_ok_def split: option.splits)
  qed
  show "case seal_current st c ch of
      None \<Rightarrow> True
    | Some e \<Rightarrow> seal_lookup st (seal_id e) = Ok e \<and> chainKey c ch \<notin> set (revokedPairs st)"
    using sm_inv_head [OF inv, of "chainKey c ch"]
    by (auto simp: seal_current_def seal_lookup_def head_ok_def split: option.split)
qed

theorem seal_store_sound_witness:
  "case seal_current sample_sealed ''cred_0000000000000001'' ''conv_0000000000000001'' of
     None \<Rightarrow> False | Some e \<Rightarrow> seal_lookup sample_sealed (seal_id e) = Ok e"
  using seal_store_sound [OF sample_sealed_reachable, of "[]" "''cred_0000000000000001''" "''conv_0000000000000001''"]
    sample_sealed_current
  by (auto split: option.splits)

text \<open>A stored seal is never replaced, and a revoked pair has no current seal.\<close>

lemma finish_issue_keeps:
  assumes "seal_fresh st rnd"
    and "\<And>key chain input. prep = PrepSign key chain input \<Longrightarrow> sp_sealId (sc_current chain) = generateSealId rnd"
    and "map_get (sealsById st) k = Some e"
  shows "map_get (sealsById (snd (finish_issue deps st ch prep))) k = Some e"
proof (cases prep)
  case (PrepSign key chain input)
  then have "sp_sealId (sc_current chain) \<noteq> k" using assms by (auto simp: seal_fresh_def)
  then show ?thesis
    using PrepSign assms(3) sign_and_publish_chain [of deps ch chain]
    by (auto simp: finish_issue_def issue_commit_def split: result.split)
qed (simp add: finish_issue_def assms(3))

lemma sm_step_keeps:
  assumes "sm_step en st st'" and inv: "sm_inv en st" and k: "map_get (sealsById st) k = Some e"
  shows "map_get (sealsById st') k = Some e"
  using assms(1)
proof cases
  case (sm_issue deps rnd now c ch)
  show ?thesis
  proof (cases "sd_resolveInput deps c ch")
    case (Ok input)
    have "case sd_resolveInput deps c ch of Err _ \<Rightarrow> True | Ok input \<Rightarrow> sin_chatId input = ch"
      using sm_issue(2) unfolding resolver_ok_def by blast
    then have "sin_chatId input = ch" using Ok by simp
    then show ?thesis
      using sm_issue(1) Ok issue_prepare_ok [of en now rnd st ch input] finish_issue_keeps [OF sm_issue(3) _ k]
      by (simp add: seal_issue_def)
  qed (use sm_issue(1) k in \<open>simp add: seal_issue_def\<close>)
next
  case (sm_refresh rnd deps now sid)
  then show ?thesis
    using refresh_prepare_ok [OF inv, of now rnd sid] finish_issue_keeps [OF sm_refresh(2) _ k]
    by (simp add: seal_refresh_def)
next
  case (sm_revoke deps now rnd sid reason)
  then show ?thesis using k seal_revoke_cases [of en deps now rnd st sid reason] by auto
qed

lemma sm_steps_keep:
  assumes "(sm_step en)\<^sup>*\<^sup>* st st'" and "sm_inv en st"
  shows "sm_inv en st' \<and> set (revokedPairs st) \<subseteq> set (revokedPairs st') \<and>
    (\<forall>k e. map_get (sealsById st) k = Some e \<longrightarrow> map_get (sealsById st') k = Some e)"
  using assms
proof (induction rule: rtranclp_induct)
  case base
  then show ?case by simp
next
  case (step y z)
  then show ?case
    using sm_step_inv [OF step.hyps(2)] sm_step_revoked [OF step.hyps(2)] sm_step_keeps [OF step.hyps(2)] by blast
qed

lemma revoked_no_current:
  "sm_inv en st \<Longrightarrow> key \<in> set (revokedPairs st) \<Longrightarrow> map_get (currentSeals st) key = None"
  using sm_inv_head [of en st key] by (cases "map_get (currentSeals st) key") (auto simp: head_ok_def)

text \<open>C6: While calls do not overlap, a revocation is final. Once it has succeeded, after whatever
  further calls run to their end the credential and chat have no current seal, issuing for them is
  refused, the revoked seal, still stored, cannot be refreshed, and no other call takes the pair
  off the list of revoked ones. (An issue that is already being signed when the revocation comes
  is another matter, see \<open>revoke_during_issue_race\<close>.)\<close>

theorem seal_revocation_final:
  assumes "sm_reachable en st" and "seal_revoke en deps now rnd st sid reason = (Ok (), st')"
    and "(sm_step en)\<^sup>*\<^sup>* st' st''"
  shows "(case map_get (sealsById st) sid of
            None \<Rightarrow> False
          | Some e \<Rightarrow>
              (let c = sp_credentialId (sc_current (sen_chain e)); ch = sp_chatId (sc_current (sen_chain e))
               in seal_current st'' c ch = None \<and>
                  issue_prepare en later rnd' st'' ch (input\<lparr>sin_credentialId := c\<rparr>) =
                    PrepDone (Err (SealError_create [] ''Cannot issue seal for revoked credential+chat'')) \<and>
                  map_get (sealsById st'') sid = Some e \<and>
                  \<not> isOk (fst (seal_refresh en deps' later rnd' st'' sid)) \<and>
                  chainKey c ch \<in> set (revokedPairs (snd (seal_refresh en deps' later rnd' st'' other))) \<and>
                  chainKey c ch \<in> set (revokedPairs (snd (seal_issue en deps' later rnd' st'' c' ch'))) \<and>
                  chainKey c ch \<in> set (revokedPairs (snd (seal_revoke en deps' later rnd' st'' other reason')))))"
proof -
  from seal_revoke_cases [of en deps now rnd st sid reason] assms(2)
  obtain e key where e: "map_get (sealsById st) sid = Some e"
    and key: "key = chainKey (sp_credentialId (sc_current (sen_chain e))) (sp_chatId (sc_current (sen_chain e)))"
    and st': "st' = st\<lparr>revokedPairs := set_add (revokedPairs st) key, currentSeals := map_delete (currentSeals st) key\<rparr>"
    by auto
  have "sm_inv en st'"
    using seal_revoke_inv [OF sm_reachable_inv [OF assms(1)], of deps now rnd sid reason] assms(2) by simp
  then have inv: "sm_inv en st''" and rev: "key \<in> set (revokedPairs st'')"
    and kept: "map_get (sealsById st'') sid = Some e"
    using sm_steps_keep [OF assms(3)] e by (auto simp: st')
  have none: "map_get (currentSeals st'') key = None" by (rule revoked_no_current [OF inv rev])
  have "key \<in> set (revokedPairs (snd (seal_issue en deps' later rnd' st'' c' ch')))"
    using rev by (auto simp: seal_issue_def split: result.split)
  moreover have "key \<in> set (revokedPairs (snd (seal_refresh en deps' later rnd' st'' other)))"
    using rev by (simp add: seal_refresh_def)
  moreover have "key \<in> set (revokedPairs (snd (seal_revoke en deps' later rnd' st'' other reason')))"
    using sm_step_revoked [OF sm_revoke, of st'' en deps' later rnd' other reason'] rev by auto
  moreover have "\<not> isOk (fst (seal_refresh en deps' later rnd' st'' sid))"
    using kept none key
    by (auto simp: seal_refresh_def finish_issue_def refresh_prepare_def Let_def split: option.split)
  ultimately show ?thesis
    using e key none rev kept by (simp add: Let_def seal_current_def issue_prepare_def)
qed

text \<open>After the revocation of the sample seal somebody tries to refresh it.\<close>

theorem seal_revocation_final_witness:
  "case map_get (sealsById sample_sealed) (generateSealId sample_seal_bytes) of
     None \<Rightarrow> False
   | Some e \<Rightarrow> seal_current (snd (seal_refresh sample_seal_engine sample_deps 6 [7, 7, 7, 7, 7, 7, 7, 7]
                 (snd sample_revocation) (generateSealId sample_seal_bytes)))
                 (sp_credentialId (sc_current (sen_chain e))) (sp_chatId (sc_current (sen_chain e))) = None"
proof -
  have revoke: "seal_revoke sample_seal_engine sample_deps 5 [9, 9, 9, 9, 9, 9, 9, 9] sample_sealed
      (generateSealId sample_seal_bytes) AR_owner_initiated = (Ok (), snd sample_revocation)"
    using sample_revocation_Ok by (metis prod.collapse sample_revocation_def)
  have "seal_fresh (snd sample_revocation) [7, 7, 7, 7, 7, 7, 7, 7]" by code_simp
  then have "(sm_step sample_seal_engine)\<^sup>*\<^sup>* (snd sample_revocation)
      (snd (seal_refresh sample_seal_engine sample_deps 6 [7, 7, 7, 7, 7, 7, 7, 7]
         (snd sample_revocation) (generateSealId sample_seal_bytes)))"
    by (intro r_into_rtranclp sm_refresh)
  from seal_revocation_final [OF sample_sealed_reachable revoke this] show ?thesis
    by (cases "map_get (sealsById sample_sealed) (generateSealId sample_seal_bytes)") (simp_all add: Let_def)
qed

text \<open>C14: The history of a credential and chat is a complete chain: each entry is the predecessor
  recorded in the one before it, the last is a first seal, and it starts at the current seal when
  there is one. The walk ends without its guard against loops ever being needed.\<close>

theorem seal_history_complete:
  assumes "sm_reachable en st" and "id_ok RT_credential c"
  shows "is_chain (seal_history en st c ch) \<and>
         (case seal_current st c ch of
            None \<Rightarrow> True
          | Some e \<Rightarrow> (case seal_history en st c ch of [] \<Rightarrow> False | h # _ \<Rightarrow> h = e))"
proof -
  note inv = sm_reachable_inv [OF assms(1)]
  let ?es = "filter (\<lambda>e. sp_credentialId (sc_current (sen_chain e)) = c \<and>
      sp_chatId (sc_current (sen_chain e)) = ch) (map_values (sealsById st))"
  have wf: "map_wf (sealsById st)" using inv by (simp add: sm_inv_def)
  have stored: "e \<in> set ?es \<Longrightarrow> map_get (sealsById st) (seal_id e) = Some e" for e
    using map_values_iff [OF wf] sm_inv_id [OF inv] by fastforce
  have walk: "\<exists>path. history_loop st (Some e) [] [] = e # path \<and> is_chain (e # path)"
    if "map_get (sealsById st) (seal_id e) = Some e" for e
    using history_loop_chain [OF inv that, of "[]" "[]"] by simp
  show ?thesis
  proof (cases "seal_current st c ch")
    case (Some e)
    then have head: "head_ok st (chainKey c ch) e"
      using sm_inv_head [OF inv] by (simp add: seal_current_def)
    then have st: "map_get (sealsById st) (seal_id e) = Some e" by (simp add: head_ok_def)
    then have "id_ok RT_credential (sp_credentialId (sc_current (sen_chain e)))"
      using sm_inv_seal [OF inv st] by (simp add: seal_ok_def SealPayload_ok_def)
    then have "e \<in> set ?es"
      using head st assms(2) map_values_iff [OF wf] by (auto simp: head_ok_def chainKey_inj)
    then have "?es \<noteq> []" by (metis empty_iff list.set(1))
    then show ?thesis
      using walk [OF st] Some by (auto simp: seal_history_def Let_def seal_current_def)
  next
    case None
    show ?thesis
    proof (cases "?es = []")
      case True
      then show ?thesis using None by (simp add: seal_history_def)
    next
      case False
      then obtain h where h: "h \<in> set ?es" "(case findHistoryHead ?es of
          Some h \<Rightarrow> Some h | None \<Rightarrow> Some (hd (js_sort (newest_first en) ?es))) = Some h"
        using history_head by blast
      then have "seal_history en st c ch = history_loop st (Some h) [] []"
        using None False by (simp add: seal_history_def seal_current_def Let_def)
      then show ?thesis using walk [OF stored [OF h(1)]] None by auto
    qed
  qed
qed

theorem seal_history_complete_witness:
  "case seal_current sample_sealed ''cred_0000000000000001'' ''conv_0000000000000001'' of
     None \<Rightarrow> False
   | Some e \<Rightarrow> seal_history sample_seal_engine sample_sealed ''cred_0000000000000001'' ''conv_0000000000000001'' \<noteq> []"
proof -
  have "id_ok RT_credential ''cred_0000000000000001''" by code_simp
  from seal_history_complete [OF sample_sealed_reachable this, of "''conv_0000000000000001''"]
  show ?thesis using sample_sealed_current by (auto split: option.splits)
qed

text \<open>The guarantee needs calls not to overlap: when a pair is revoked while an issue for it
  waits for the signer or the publisher, the issue's commit makes its seal the current one of a
  pair that is revoked.\<close>

theorem revoke_during_issue_race:
  assumes "issue_prepare en now rnd st ch input = PrepSign key chain input'"
    and "seal_revoke en deps later rnd' st sid reason = (Ok (), st')"
    and "key = chainKey c ch" and "case map_get (sealsById st) sid of None \<Rightarrow> False
           | Some e \<Rightarrow> chainKey (sp_credentialId (sc_current (sen_chain e))) (sp_chatId (sc_current (sen_chain e))) = key"
  shows "(let st'' = issue_commit st' key env input'
          in seal_current st'' c ch = Some env \<and> chainKey c ch \<in> set (revokedPairs st''))"
  using seal_revoke_cases [of en deps later rnd' st sid reason] assms(2-4)
  by (auto simp: Let_def issue_commit_def seal_current_def)

definition sample_chain :: seal_chain where
  "sample_chain =
     (case issue_prepare sample_seal_engine 3 [8, 8, 8, 8, 8, 8, 8, 8] sample_sealed ''conv_0000000000000001''
             ((sample_seal_input ''conv_0000000000000001'')\<lparr>sin_scopeMode := SM_per_chat\<rparr>) of
        PrepSign _ chain _ \<Rightarrow> chain | PrepDone _ \<Rightarrow> undefined)"

theorem revoke_during_issue_race_witness:
  "let env = \<lparr>sen_chain = sample_chain, sen_signature = ''s'', sen_keyId = ''k''\<rparr>;
       st'' = issue_commit (snd sample_revocation) (chainKey ''cred_0000000000000001'' ''conv_0000000000000001'') env
                ((sample_seal_input ''conv_0000000000000001'')\<lparr>sin_scopeMode := SM_per_chat\<rparr>)
   in chainKey ''cred_0000000000000001'' ''conv_0000000000000001'' \<in> set (revokedPairs st'') \<and>
      seal_current st'' ''cred_0000000000000001'' ''conv_0000000000000001'' = Some env"
proof -
  have prep: "issue_prepare sample_seal_engine 3 [8, 8, 8, 8, 8, 8, 8, 8] sample_sealed ''conv_0000000000000001''
      ((sample_seal_input ''conv_0000000000000001'')\<lparr>sin_scopeMode := SM_per_chat\<rparr>) =
      PrepSign (chainKey ''cred_0000000000000001'' ''conv_0000000000000001'') sample_chain
        ((sample_seal_input ''conv_0000000000000001'')\<lparr>sin_scopeMode := SM_per_chat\<rparr>)"
    by code_simp
  have rev: "seal_revoke sample_seal_engine sample_deps 5 [9, 9, 9, 9, 9, 9, 9, 9] sample_sealed
      (generateSealId sample_seal_bytes) AR_owner_initiated = (Ok (), snd sample_revocation)"
    using sample_revocation_Ok by (metis prod.collapse sample_revocation_def)
  have head: "case map_get (sealsById sample_sealed) (generateSealId sample_seal_bytes) of None \<Rightarrow> False
      | Some e \<Rightarrow> chainKey (sp_credentialId (sc_current (sen_chain e))) (sp_chatId (sc_current (sen_chain e))) =
          chainKey ''cred_0000000000000001'' ''conv_0000000000000001''"
    by code_simp
  show ?thesis
    using revoke_during_issue_race [OF prep rev refl head] by (simp add: Let_def)
qed

end
