(* ===== verification/Events.thy ===== *)
theory Events
  imports CredentialService SealTypes
begin

text \<open>
  The events the signet sends to a harness (\<^verbatim>\<open>packages/schemas/src/events.ts\<close>) and the
  projector that filters them per credential (\<^verbatim>\<open>packages/cli/src/ws/event-projector.ts\<close>).
  The reveal store of a credential and the optional runtime scope of chats are looked up through
  the two functions the projector is given.
\<close>

subsection \<open>Events\<close>

record reveal_event =
  rv_messageId :: string
  rv_groupId :: string
  rv_contentType :: string
  rv_content :: js_value
  rv_revealId :: string

datatype signet_event =
    Ev_message_visible message_event
  | Ev_seal_stamped seal_envelope
  | Ev_credential_issued string string
  | Ev_credential_expired string string
  | Ev_reauthorization_required string string
  | Ev_heartbeat string int
  | Ev_message_revealed reveal_event
  | Ev_scopes_updated string scope_set
  | Ev_agent_revoked revocation_seal
  | Ev_confirmation_required string string js_value
  | Ev_recovery_complete int

subsection \<open>The projector\<close>

record projector_deps =
  pj_getRevealState :: "string \<Rightarrow> reveal_store option"
  pj_getChatIds :: "(string \<Rightarrow> string list option) option"

definition credential_scopes :: "runtime_credential \<Rightarrow> string list" where
  "credential_scopes credential = map scope_name (resolveScopeSet (rc_effectiveScopes credential))"

definition credential_chats :: "runtime_credential \<Rightarrow> string list" where
  "credential_chats credential = cc_chatIds (cr_config (rc_record credential))"

definition projector_chats :: "projector_deps \<Rightarrow> runtime_credential \<Rightarrow> string list" where
  "projector_chats deps credential =
     (let resolvedChatIds =
            (case pj_getChatIds deps of
               None \<Rightarrow> credential_chats credential
             | Some f \<Rightarrow> nullish (f (rc_credentialId credential)) (credential_chats credential))
      in if length resolvedChatIds > 0 then resolvedChatIds else credential_chats credential)"

definition event_query :: "message_event \<Rightarrow> reveal_query" where
  "event_query event =
     \<lparr>q_messageId = me_messageId event, q_groupId = me_groupId event, q_threadId = me_threadId event,
      q_senderInboxId = me_senderInboxId event, q_contentType = me_contentType event,
      q_sentAt = me_sentAt event\<rparr>"

definition event_raw_message :: "message_event \<Rightarrow> raw_message" where
  "event_raw_message event =
     \<lparr>rm_messageId = me_messageId event, rm_groupId = me_groupId event,
      rm_senderInboxId = me_senderInboxId event, rm_contentType = me_contentType event,
      rm_content = me_content event, rm_sentAt = me_sentAt event, rm_threadId = me_threadId event,
      rm_sealId = me_sealId event, rm_isHistorical = Some (me_visibility event = MV_historical)\<rparr>"

definition projectEvent ::
  "(string \<Rightarrow> int option) \<Rightarrow> int \<Rightarrow> projector_deps \<Rightarrow> signet_event \<Rightarrow> runtime_credential
   \<Rightarrow> signet_event option" where
  "projectEvent pd now deps ev credential =
     (case ev of
        Ev_message_visible event \<Rightarrow>
          let isRev = (case pj_getRevealState deps (rc_credentialId credential) of
                         None \<Rightarrow> False
                       | Some store \<Rightarrow> isRevealed pd now store (event_query event));
              rawMessage = event_raw_message event;
              scopes = credential_scopes credential;
              chatIds = projector_chats deps credential;
              effectiveAllowlist = [rm_contentType rawMessage]
          in (case projectMessage rawMessage scopes chatIds effectiveAllowlist isRev of
                Drop \<Rightarrow> None
              | Emit e \<Rightarrow> Some (Ev_message_visible e))
      | _ \<Rightarrow> Some ev)"

subsection \<open>Facts\<close>

lemma credential_scopes_iff [simp]:
  "scope_name s \<in> set (credential_scopes c) \<longleftrightarrow> effective (rc_effectiveScopes c) s"
  by (auto simp: credential_scopes_def image_iff effective_def)

lemmas scope_texts [simp] =
  credential_scopes_iff [of Sc_send, simplified] credential_scopes_iff [of Sc_read_messages, simplified]
  credential_scopes_iff [of Sc_read_history, simplified]

definition is_message :: "signet_event \<Rightarrow> bool" where
  "is_message ev = (case ev of Ev_message_visible _ \<Rightarrow> True | _ \<Rightarrow> False)"

text \<open>What a credential may see of a message: its chat, and read permission or a live reveal,
  and the history scope for a historical one.\<close>

definition may_see :: "(string \<Rightarrow> int option) \<Rightarrow> int \<Rightarrow> projector_deps \<Rightarrow> runtime_credential \<Rightarrow> message_event \<Rightarrow> bool" where
  "may_see pd now deps c e \<longleftrightarrow>
     me_groupId e \<in> set (projector_chats deps c) \<and>
     (effective (rc_effectiveScopes c) Sc_read_messages \<or>
      (case pj_getRevealState deps (rc_credentialId c) of
         None \<Rightarrow> False | Some store \<Rightarrow> isRevealed pd now store (event_query e))) \<and>
     (if me_visibility e = MV_historical then effective (rc_effectiveScopes c) Sc_read_history else True)"

lemma may_surface_event:
  "may_surface (event_raw_message e) (credential_scopes c) (projector_chats deps c) [me_contentType e] r \<longleftrightarrow>
     me_groupId e \<in> set (projector_chats deps c) \<and>
     (effective (rc_effectiveScopes c) Sc_read_messages \<or> r) \<and>
     (if me_visibility e = MV_historical then effective (rc_effectiveScopes c) Sc_read_history else True)"
  by (simp add: may_surface_def event_raw_message_def)

lemma event_query_visibility [simp]: "event_query (e\<lparr>me_visibility := v\<rparr>) = event_query e"
  by (simp add: event_query_def)

lemma projectEvent_other: "\<not> is_message ev \<Longrightarrow> projectEvent pd now deps ev c = Some ev"
  by (cases ev) (simp_all add: projectEvent_def is_message_def)

lemma projectEvent_message:
  "projectEvent pd now deps (Ev_message_visible e) c =
     (if may_see pd now deps c e
      then Some (Ev_message_visible (e\<lparr>me_visibility :=
             (if effective (rc_effectiveScopes c) Sc_read_messages
              then if me_visibility e = MV_historical then MV_historical else MV_visible
              else MV_revealed)\<rparr>))
      else None)"
proof -
  let ?r = "case pj_getRevealState deps (rc_credentialId c) of
      None \<Rightarrow> False | Some store \<Rightarrow> isRevealed pd now store (event_query e)"
  let ?p = "projectMessage (event_raw_message e) (credential_scopes c) (projector_chats deps c) [me_contentType e] ?r"
  have see: "may_see pd now deps c e \<longleftrightarrow>
      may_surface (event_raw_message e) (credential_scopes c) (projector_chats deps c) [me_contentType e] ?r"
    by (simp add: may_see_def may_surface_event)
  have eq: "projectEvent pd now deps (Ev_message_visible e) c =
      (case ?p of Drop \<Rightarrow> None | Emit x \<Rightarrow> Some (Ev_message_visible x))"
    by (simp add: projectEvent_def event_raw_message_def)
  show ?thesis
  proof (cases ?p)
    case (Emit x)
    from Emit [unfolded projectMessage_Emit] have m: "may_see pd now deps c e"
      and x: "shows_message (event_raw_message e) x"
      and v: "me_visibility x = (if effective (rc_effectiveScopes c) Sc_read_messages
              then if me_visibility e = MV_historical then MV_historical else MV_visible
              else MV_revealed)"
      using see by (simp_all add: event_raw_message_def)
    have "x = e\<lparr>me_visibility := me_visibility x\<rparr>"
      using x by (intro message_event.equality) (simp_all add: shows_message_def event_raw_message_def)
    then show ?thesis using m v by (simp add: eq Emit)
  next
    case Drop
    have "\<not> may_see pd now deps c e"
    proof
      assume "may_see pd now deps c e"
      then have "?p = Emit (e\<lparr>me_visibility :=
             (if effective (rc_effectiveScopes c) Sc_read_messages
              then if me_visibility e = MV_historical then MV_historical else MV_visible
              else MV_revealed)\<rparr>)"
        using see unfolding projectMessage_Emit
        by (simp add: shows_message_def event_raw_message_def)
      then show False using Drop by simp
    qed
    then show ?thesis by (simp add: eq Drop)
  qed
qed

subsection \<open>Property\<close>

text \<open>The projector drops a message exactly when the credential may not see it; a message it
  passes on is the original with the visibility the credential's scopes give it, so projecting
  it again passes the same event; every event of another kind passes unchanged.\<close>

theorem event_projection_exact:
  "(case ev of
      Ev_message_visible e \<Rightarrow>
        projectEvent pd now deps ev c =
          (if may_see pd now deps c e
           then Some (Ev_message_visible (e\<lparr>me_visibility :=
                  (if effective (rc_effectiveScopes c) Sc_read_messages
                   then if me_visibility e = MV_historical then MV_historical else MV_visible
                   else MV_revealed)\<rparr>))
           else None)
    | _ \<Rightarrow> projectEvent pd now deps ev c = Some ev) \<and>
   (case projectEvent pd now deps ev c of
      None \<Rightarrow> is_message ev
    | Some ev' \<Rightarrow> projectEvent pd now deps ev' c = Some ev')"
proof (cases "is_message ev")
  case False
  then show ?thesis
    by (cases ev) (simp_all add: projectEvent_other is_message_def)
next
  case True
  then obtain e where ev: "ev = Ev_message_visible e"
    by (cases ev) (simp_all add: is_message_def)
  show ?thesis
    by (simp add: ev is_message_def projectEvent_message may_see_def split: option.splits)
qed

end
