(* ===== verification/ReplayBuffer.thy ===== *)
theory ReplayBuffer
  imports Events
begin

text \<open>
  What a credential's connections keep of the events sent to it: the circular buffer
  (\<^verbatim>\<open>packages/ws/src/replay-buffer.ts\<close>), the numbering of events
  (\<^verbatim>\<open>packages/ws/src/event-broadcaster.ts\<close>), the choice between replay and recovery when a
  client comes back (in \<open>handleAuthFrame\<close> of \<^verbatim>\<open>packages/ws/src/server.ts\<close>), and the send-depth
  tracker (\<^verbatim>\<open>packages/ws/src/backpressure.ts\<close>). The buffer is shown to be a bounded log: it
  holds the last \<open>cap\<close> items pushed.
\<close>

subsection \<open>The circular buffer\<close>

record 'a circular_buffer =
  cb_cap :: nat
  cb_buffer :: "'a option list"
  cb_head :: nat
  cb_count :: nat

definition cb_new :: "nat \<Rightarrow> 'a circular_buffer" where
  "cb_new cap = \<lparr>cb_cap = cap, cb_buffer = replicate cap None, cb_head = 0, cb_count = 0\<rparr>"

definition cb_push :: "'a circular_buffer \<Rightarrow> 'a \<Rightarrow> 'a circular_buffer" where
  "cb_push b item =
     \<lparr>cb_cap = cb_cap b,
      cb_buffer = (cb_buffer b)[cb_head b := Some item],
      cb_head = (cb_head b + 1) mod cb_cap b,
      cb_count = (if cb_count b < cb_cap b then cb_count b + 1 else cb_count b)\<rparr>"

definition cb_start :: "'a circular_buffer \<Rightarrow> nat" where
  "cb_start b = (if cb_count b < cb_cap b then 0 else cb_head b)"

definition cb_oldest :: "'a circular_buffer \<Rightarrow> 'a option" where
  "cb_oldest b = (if cb_count b = 0 then None else cb_buffer b ! cb_start b)"

definition cb_itemsSince :: "'a circular_buffer \<Rightarrow> ('a \<Rightarrow> bool) \<Rightarrow> 'a list" where
  "cb_itemsSince b predicate =
     foldl (\<lambda>result i. case cb_buffer b ! ((cb_start b + i) mod cb_cap b) of
              None \<Rightarrow> result
            | Some item \<Rightarrow> if predicate item then result @ [item] else result)
       [] [0..<cb_count b]"

definition cb_toArray :: "'a circular_buffer \<Rightarrow> 'a list" where
  "cb_toArray b =
     foldl (\<lambda>result i. case cb_buffer b ! ((cb_start b + i) mod cb_cap b) of
              None \<Rightarrow> result
            | Some item \<Rightarrow> result @ [item])
       [] [0..<cb_count b]"

definition cb_clear :: "'a circular_buffer \<Rightarrow> 'a circular_buffer" where
  "cb_clear b = b\<lparr>cb_buffer := replicate (length (cb_buffer b)) None, cb_head := 0, cb_count := 0\<rparr>"

subsection \<open>A bounded log\<close>

text \<open>
  The interface the replay logic needs of the buffer: it lists the last \<open>bound\<close> items pushed, in
  order. Everything about replay is derived from these laws.
\<close>

lemma last_n_append: "last_n n (last_n n xs @ ys) = last_n n (xs @ ys)"
proof (cases "length xs \<le> n")
  case True
  then show ?thesis by (simp add: last_n_all)
next
  case False
  then have "length (xs @ ys) - n = length ys + (length xs - n)" by simp
  then have "last_n n (xs @ ys) = drop (length ys) (drop (length xs - n) (xs @ ys))"
    by (simp only: last_n_def drop_drop)
  then show ?thesis using False by (simp add: last_n_def)
qed

locale bounded_log =
  fixes ok :: "nat \<Rightarrow> 'b \<Rightarrow> bool"
    and items :: "'b \<Rightarrow> 'a list"
    and push :: "'b \<Rightarrow> 'a \<Rightarrow> 'b"
    and since :: "'b \<Rightarrow> ('a \<Rightarrow> bool) \<Rightarrow> 'a list"
    and oldest :: "'b \<Rightarrow> 'a option"
  assumes ok_push: "ok n b \<Longrightarrow> ok n (push b x)"
    and items_push: "ok n b \<Longrightarrow> items (push b x) = last_n n (items b @ [x])"
    and since_items: "ok n b \<Longrightarrow> since b P = filter P (items b)"
    and oldest_items: "ok n b \<Longrightarrow> oldest b = (case items b of [] \<Rightarrow> None | x # _ \<Rightarrow> Some x)"
    and bound: "ok n b \<Longrightarrow> 0 < n \<and> length (items b) \<le> n"
begin

lemma items_pushes:
  "ok n b \<Longrightarrow> ok n (foldl push b xs) \<and> items (foldl push b xs) = last_n n (items b @ xs)"
proof (induction xs arbitrary: b)
  case Nil
  then show ?case using bound by (simp add: last_n_all)
next
  case (Cons x xs)
  have "0 < n" using bound [OF Cons.prems] by simp
  then show ?case
    using Cons.IH [OF ok_push [OF Cons.prems], of x] Cons.prems
    by (simp add: items_push last_n_append)
qed

lemma keeps_newest: "ok n b \<Longrightarrow> x \<in> set (items (push b x))"
  using bound [of n b] by (simp add: items_push last_n_def Suc_diff_le)

end

text \<open>The buffer represents a list: its slots from the oldest on hold the items in order.\<close>

definition cb_rep :: "nat \<Rightarrow> 'a circular_buffer \<Rightarrow> 'a list \<Rightarrow> bool" where
  "cb_rep n b xs \<longleftrightarrow>
     0 < n \<and> cb_cap b = n \<and> length (cb_buffer b) = n \<and> cb_count b = length xs \<and> length xs \<le> n \<and>
     cb_head b < n \<and> (if length xs < n then cb_head b = length xs else True) \<and>
     (\<forall>i < length xs. cb_buffer b ! ((cb_start b + i) mod n) = Some (xs ! i))"

lemma cb_rep_new: "0 < n \<Longrightarrow> cb_rep n (cb_new n) []"
  by (simp add: cb_rep_def cb_new_def)

lemma cb_rep_clear: "cb_rep n b xs \<Longrightarrow> cb_rep n (cb_clear b) []"
  by (auto simp: cb_rep_def cb_clear_def)

lemma foldl_items:
  assumes "\<forall>i \<in> set is. f i = Some (g i)"
  shows "foldl (\<lambda>r i. case f i of None \<Rightarrow> r | Some x \<Rightarrow> if P x then r @ [x] else r) acc is =
           acc @ filter P (map g is)"
  using assms by (induction "is" arbitrary: acc) simp_all

lemma cb_rep_since: "cb_rep n b xs \<Longrightarrow> cb_itemsSince b P = filter P xs"
proof -
  assume r: "cb_rep n b xs"
  have "cb_itemsSince b P = [] @ filter P (map (\<lambda>i. xs ! i) [0..<length xs])"
    using r unfolding cb_itemsSince_def
    by (subst foldl_items [where g = "\<lambda>i. xs ! i"]) (auto simp: cb_rep_def)
  then show ?thesis by (simp add: map_nth)
qed

lemma cb_toArray_since: "cb_toArray b = cb_itemsSince b (\<lambda>_. True)"
  by (simp add: cb_toArray_def cb_itemsSince_def cong: option.case_cong)

lemma cb_rep_items: "cb_rep n b xs \<Longrightarrow> cb_toArray b = xs"
  by (simp add: cb_toArray_since cb_rep_since)

lemma cb_rep_oldest: "cb_rep n b xs \<Longrightarrow> cb_oldest b = (case xs of [] \<Rightarrow> None | x # _ \<Rightarrow> Some x)"
  by (cases xs) (auto simp: cb_rep_def cb_oldest_def cb_start_def split: if_splits)

lemma mod_shift_neq: "h < n \<Longrightarrow> 0 < d \<Longrightarrow> d < n \<Longrightarrow> (h + d) mod n \<noteq> (h :: nat)"
  by (cases "h + d < n") (auto simp: mod_if)

lemma cb_rep_push:
  assumes r: "cb_rep n b xs"
  shows "cb_rep n (cb_push b x) (last_n n (xs @ [x]))"
proof (cases "length xs < n")
  case True
  then have "cb_head b = length xs" "last_n n (xs @ [x]) = xs @ [x]"
    using r by (simp_all add: cb_rep_def last_n_all)
  moreover have "Suc (length xs) = n \<or> Suc (length xs) < n" using True by auto
  then have "cb_start (cb_push b x) = 0"
    using True r by (auto simp: cb_rep_def cb_start_def cb_push_def)
  ultimately show ?thesis
    using True r by (auto simp: cb_rep_def cb_push_def cb_start_def nth_append nth_list_update less_Suc_eq)
next
  case False
  then have len: "length xs = n" and n: "0 < n" and h: "cb_head b < n" and c: "cb_cap b = n"
      and lb: "length (cb_buffer b) = n" and cnt: "cb_count b = n"
      and old: "\<And>i. i < n \<Longrightarrow> cb_buffer b ! ((cb_head b + i) mod n) = Some (xs ! i)"
    using r by (auto simp: cb_rep_def cb_start_def)
  let ?b = "cb_push b x"
  have l: "last_n n (xs @ [x]) = drop 1 xs @ [x]"
    using len n by (simp add: last_n_def)
  have start: "cb_start ?b = (cb_head b + 1) mod n"
    using c cnt by (simp add: cb_push_def cb_start_def)
  have slot: "cb_buffer ?b ! ((cb_start ?b + i) mod n) = Some ((drop 1 xs @ [x]) ! i)" if i: "i < n" for i
  proof -
    have idx: "(cb_start ?b + i) mod n = (cb_head b + Suc i) mod n"
      by (simp add: start mod_add_left_eq)
    show ?thesis
    proof (cases "Suc i < n")
      case True
      have "(cb_head b + Suc i) mod n \<noteq> cb_head b"
        using mod_shift_neq [OF h, of "Suc i"] True by simp
      then show ?thesis
        unfolding idx using True old [OF True] len by (auto simp: cb_push_def nth_append)
    next
      case False
      then have "Suc i = n" using i by simp
      then have "(cb_head b + Suc i) mod n = cb_head b" using h by simp
      then show ?thesis
        unfolding idx using \<open>Suc i = n\<close> len lb h by (auto simp: cb_push_def nth_append)
    qed
  qed
  have "length (cb_buffer ?b) = n" "cb_count ?b = n" "cb_cap ?b = n" "cb_head ?b < n"
    using lb cnt c n by (simp_all add: cb_push_def)
  then show ?thesis
    using n len slot unfolding l cb_rep_def by simp
qed

definition cb_ok :: "nat \<Rightarrow> 'a circular_buffer \<Rightarrow> bool" where
  "cb_ok n b \<longleftrightarrow> cb_rep n b (cb_toArray b)"

lemma cb_rep_ok: "cb_rep n b xs \<Longrightarrow> cb_ok n b"
  by (simp add: cb_ok_def cb_rep_items)

interpretation cbl: bounded_log cb_ok cb_toArray cb_push cb_itemsSince cb_oldest
proof
  fix n and b :: "'a circular_buffer" and x P
  assume ok: "cb_ok n b"
  then have r: "cb_rep n b (cb_toArray b)" by (simp add: cb_ok_def)
  show "cb_ok n (cb_push b x)" by (rule cb_rep_ok [OF cb_rep_push [OF r]])
  show "cb_toArray (cb_push b x) = last_n n (cb_toArray b @ [x])"
    by (rule cb_rep_items [OF cb_rep_push [OF r]])
  show "cb_itemsSince b P = filter P (cb_toArray b)" by (rule cb_rep_since [OF r])
  show "cb_oldest b = (case cb_toArray b of [] \<Rightarrow> None | y # _ \<Rightarrow> Some y)" by (rule cb_rep_oldest [OF r])
  show "0 < n \<and> length (cb_toArray b) \<le> n" using r by (simp add: cb_rep_def)
qed

lemma cb_ok_new: "0 < n \<Longrightarrow> cb_ok n (cb_new n)"
  by (rule cb_rep_ok [OF cb_rep_new])

lemma cb_toArray_new: "0 < n \<Longrightarrow> cb_toArray (cb_new n) = []"
  by (rule cb_rep_items [OF cb_rep_new])

subsection \<open>Numbered events and replay\<close>

record sequenced_frame =
  fr_seq :: nat
  fr_event :: signet_event

record credential_replay_state =
  cs_buffer :: "sequenced_frame circular_buffer"
  cs_nextSeq :: nat

definition new_replay_state :: "nat \<Rightarrow> credential_replay_state" where
  "new_replay_state replayBufferSize = \<lparr>cs_buffer = cb_new replayBufferSize, cs_nextSeq = 1\<rparr>"

definition sequenceEvent ::
  "credential_replay_state \<Rightarrow> signet_event \<Rightarrow> sequenced_frame \<times> credential_replay_state" where
  "sequenceEvent credentialState event =
     (let seqn = cs_nextSeq credentialState;
          frame = \<lparr>fr_seq = seqn, fr_event = event\<rparr>
      in (frame, credentialState\<lparr>cs_nextSeq := seqn + 1, cs_buffer := cb_push (cs_buffer credentialState) frame\<rparr>))"

record resume_plan =
  rs_resumedFromSeq :: "nat option"
  rs_needsRecovery :: bool
  rs_replayFrames :: "sequenced_frame list"

definition resume_plan_for :: "credential_replay_state \<Rightarrow> nat option \<Rightarrow> resume_plan" where
  "resume_plan_for credentialState lastSeenSeq =
     (case lastSeenSeq of
        None \<Rightarrow> \<lparr>rs_resumedFromSeq = None, rs_needsRecovery = False, rs_replayFrames = []\<rparr>
      | Some lastSeen \<Rightarrow>
          (case cb_oldest (cs_buffer credentialState) of
             Some oldestFrame \<Rightarrow>
               if fr_seq oldestFrame > lastSeen + 1
               then \<lparr>rs_resumedFromSeq = None, rs_needsRecovery = True, rs_replayFrames = []\<rparr>
               else let frames = cb_itemsSince (cs_buffer credentialState) (\<lambda>f. fr_seq f > lastSeen)
                    in \<lparr>rs_resumedFromSeq = (if length frames > 0 then Some lastSeen else None),
                        rs_needsRecovery = False, rs_replayFrames = frames\<rparr>
           | None \<Rightarrow>
               let frames = cb_itemsSince (cs_buffer credentialState) (\<lambda>f. fr_seq f > lastSeen)
               in \<lparr>rs_resumedFromSeq = (if length frames > 0 then Some lastSeen else None),
                   rs_needsRecovery = False, rs_replayFrames = frames\<rparr>))"

text \<open>The frames of a run of events, numbered from \<open>k\<close> on.\<close>

definition numbered :: "nat \<Rightarrow> signet_event list \<Rightarrow> sequenced_frame list" where
  "numbered k evs = map (\<lambda>(i, e). \<lparr>fr_seq = i, fr_event = e\<rparr>) (zip [k..<k + length evs] evs)"

lemma numbered_simps:
  "numbered k [] = []"
  "numbered k (e # es) = \<lparr>fr_seq = k, fr_event = e\<rparr> # numbered (Suc k) es"
  by (simp_all add: numbered_def upt_conv_Cons del: upt_Suc)

lemma length_numbered [simp]: "length (numbered k es) = length es"
  by (simp add: numbered_def)

lemma drop_numbered: "drop m (numbered k es) = numbered (k + m) (drop m es)"
  by (cases "m \<le> length es") (simp_all add: numbered_def drop_map drop_zip drop_upt)

lemma filter_numbered: "k \<le> Suc m \<Longrightarrow> filter (\<lambda>f. m < fr_seq f) (numbered k es) = drop (Suc m - k) (numbered k es)"
proof (induction es arbitrary: k)
  case Nil
  then show ?case by (simp add: numbered_simps)
next
  case (Cons e es)
  show ?case
  proof (cases "k = Suc m")
    case True
    have "filter (\<lambda>f. m < fr_seq f) (numbered j xs) = numbered j xs" if "m < j" for j xs
      using that by (induction xs arbitrary: j) (simp_all add: numbered_simps)
    then show ?thesis using True by simp
  next
    case False
    then have "Suc m - k = Suc (Suc m - Suc k)" using Cons.prems by simp
    then show ?thesis using False Cons by (simp add: numbered_simps)
  qed
qed

definition sequence_all :: "credential_replay_state \<Rightarrow> signet_event list \<Rightarrow> credential_replay_state" where
  "sequence_all st evs = foldl (\<lambda>s e. snd (sequenceEvent s e)) st evs"

lemma sequence_all_parts:
  "cs_buffer (sequence_all st evs) = foldl cb_push (cs_buffer st) (numbered (cs_nextSeq st) evs) \<and>
   cs_nextSeq (sequence_all st evs) = cs_nextSeq st + length evs"
  unfolding sequence_all_def
  by (induction evs arbitrary: st) (simp_all add: sequenceEvent_def Let_def numbered_simps)

lemma sequenced_items:
  assumes "0 < n"
  shows "cb_ok n (cs_buffer (sequence_all (new_replay_state n) evs)) \<and>
         cb_toArray (cs_buffer (sequence_all (new_replay_state n) evs)) = last_n n (numbered 1 evs)"
  using cbl.items_pushes [OF cb_ok_new [OF assms], of "numbered 1 evs"] assms
  by (simp add: sequence_all_parts new_replay_state_def cb_toArray_new)

lemma last_n_numbered: "last_n n (numbered 1 evs) = numbered (Suc (length evs - n)) (drop (length evs - n) evs)"
  by (simp add: last_n_def drop_numbered)

text \<open>A returning client gets exactly what it missed or is told that this is impossible. After
  the events of a credential have been numbered from one, a client that saw the first ones up
  to \<open>lastSeen\<close> gets every later event once, in order and under its number, as long as the
  buffer still holds them all; a recovery event is announced exactly when it does not.\<close>

theorem replay_exact:
  assumes "0 < n"
  shows "resume_plan_for (sequence_all (new_replay_state n) evs) (Some lastSeen) =
     (if lastSeen + n < length evs
      then \<lparr>rs_resumedFromSeq = None, rs_needsRecovery = True, rs_replayFrames = []\<rparr>
      else \<lparr>rs_resumedFromSeq = (if lastSeen < length evs then Some lastSeen else None),
            rs_needsRecovery = False,
            rs_replayFrames = numbered (Suc lastSeen) (drop lastSeen evs)\<rparr>)"
proof -
  let ?b = "cs_buffer (sequence_all (new_replay_state n) evs)"
  let ?d = "length evs - n"
  have ok: "cb_ok n ?b" and arr: "cb_toArray ?b = numbered (Suc ?d) (drop ?d evs)"
    using sequenced_items [OF assms, of evs] last_n_numbered [of n evs] by simp_all
  have since: "cb_itemsSince ?b P = filter P (numbered (Suc ?d) (drop ?d evs))" for P
    using cbl.since_items [OF ok] arr by simp
  have oldest: "cb_oldest ?b = (if evs = [] then None else Some \<lparr>fr_seq = Suc ?d, fr_event = evs ! ?d\<rparr>)"
  proof (cases "evs = []")
    case True
    then show ?thesis using cbl.oldest_items [OF ok] arr by (simp add: numbered_simps)
  next
    case False
    then have "?d < length evs" using assms by simp
    then have "drop ?d evs = evs ! ?d # drop (Suc ?d) evs" by (simp add: Cons_nth_drop_Suc)
    then show ?thesis using False cbl.oldest_items [OF ok] arr by (simp add: numbered_simps)
  qed
  show ?thesis
  proof (cases "lastSeen + n < length evs")
    case True
    then have "evs \<noteq> []" "lastSeen < ?d" by auto
    then show ?thesis using True by (simp add: resume_plan_for_def oldest)
  next
    case False
    then have le: "?d \<le> lastSeen" by simp
    have "cb_itemsSince ?b (\<lambda>f. lastSeen < fr_seq f) = drop (lastSeen - ?d) (numbered (Suc ?d) (drop ?d evs))"
      using le unfolding since by (subst filter_numbered) simp_all
    also have "\<dots> = numbered (Suc lastSeen) (drop lastSeen evs)"
      using le by (simp add: drop_numbered)
    finally have frames: "cb_itemsSince ?b (\<lambda>f. lastSeen < fr_seq f) =
        numbered (Suc lastSeen) (drop lastSeen evs)" .
    have some: "numbered (Suc lastSeen) (drop lastSeen evs) = [] \<longleftrightarrow> \<not> lastSeen < length evs"
      using length_numbered [of "Suc lastSeen" "drop lastSeen evs"] by (metis diff_is_0_eq length_0_conv length_drop not_less)
    have near: "cb_oldest ?b = None \<or> (\<exists>f. cb_oldest ?b = Some f \<and> \<not> lastSeen + 1 < fr_seq f)"
      unfolding oldest using le by simp
    show ?thesis
      using near False by (auto simp: resume_plan_for_def Let_def frames some numbered_simps)
  qed
qed

theorem replay_exact_witness:
  "map fr_seq (rs_replayFrames (resume_plan_for (sequence_all (new_replay_state 2)
      [Ev_heartbeat ''c'' 1, Ev_heartbeat ''c'' 2, Ev_heartbeat ''c'' 3]) (Some 1))) = [2, 3]"
  by (subst replay_exact) (simp_all add: numbered_simps)

subsection \<open>Send depth\<close>

datatype backpressure_state = BP_ok | BP_warning | BP_exceeded

record backpressure_tracker =
  bp_softLimit :: int
  bp_hardLimit :: int
  bp_depth :: int
  bp_notified :: bool

definition bp_new :: "int \<Rightarrow> int \<Rightarrow> backpressure_tracker" where
  "bp_new softLimit hardLimit =
     \<lparr>bp_softLimit = softLimit, bp_hardLimit = hardLimit, bp_depth = 0, bp_notified = False\<rparr>"

definition bp_state :: "backpressure_tracker \<Rightarrow> backpressure_state" where
  "bp_state b =
     (if bp_depth b \<ge> bp_hardLimit b then BP_exceeded
      else if bp_depth b \<ge> bp_softLimit b then BP_warning
      else BP_ok)"

definition bp_increment :: "backpressure_tracker \<Rightarrow> backpressure_tracker" where
  "bp_increment b = b\<lparr>bp_depth := bp_depth b + 1\<rparr>"

definition bp_decrement :: "backpressure_tracker \<Rightarrow> backpressure_tracker" where
  "bp_decrement b = (if bp_depth b > 0 then b\<lparr>bp_depth := bp_depth b - 1\<rparr> else b)"

definition bp_markNotified :: "backpressure_tracker \<Rightarrow> backpressure_tracker" where
  "bp_markNotified b = b\<lparr>bp_notified := True\<rparr>"

definition bp_clearNotified :: "backpressure_tracker \<Rightarrow> backpressure_tracker" where
  "bp_clearNotified b = b\<lparr>bp_notified := False\<rparr>"

definition bp_reset :: "backpressure_tracker \<Rightarrow> backpressure_tracker" where
  "bp_reset b = b\<lparr>bp_depth := 0, bp_notified := False\<rparr>"

end
