(* ===== verification/RequestHandler.thy ===== *)
theory RequestHandler
  imports Events PendingActions SealManager
begin

text \<open>
  The handler of harness requests (\<^verbatim>\<open>packages/cli/src/ws/request-handler.ts\<close>) with the request
  types of \<^verbatim>\<open>packages/schemas/src/requests.ts\<close>. The handler works on state it shares with the
  rest of the daemon: the credential manager, the pending actions, the seals and the clock. At
  each \<open>await\<close> the rest of the daemon may change that state, so every handler takes a function
  \<open>aw\<close> that says what happened to the state while it waited there; a theorem for all \<open>aw\<close>
  is a theorem for every interleaving. What the handler itself sends out is not state but the
  list of effects it returns, in order.
\<close>

subsection \<open>Requests\<close>

record send_request =
  sr_groupId :: string
  sr_contentType :: string
  sr_content :: js_value

datatype harness_request =
    Rq_send_message string send_request
  | Rq_send_reaction string string string string string
  | Rq_send_reply string string string string js_value
  | Rq_update_scopes string "permission_scope list option" "permission_scope list option"
  | Rq_reveal_content string reveal_request
  | Rq_confirm_action string string bool
  | Rq_heartbeat string string

fun request_type :: "harness_request \<Rightarrow> string" where
  "request_type (Rq_send_message _ _) = ''send_message''"
| "request_type (Rq_send_reaction _ _ _ _ _) = ''send_reaction''"
| "request_type (Rq_send_reply _ _ _ _ _) = ''send_reply''"
| "request_type (Rq_update_scopes _ _ _) = ''update_scopes''"
| "request_type (Rq_reveal_content _ _) = ''reveal_content''"
| "request_type (Rq_confirm_action _ _ _) = ''confirm_action''"
| "request_type (Rq_heartbeat _ _) = ''heartbeat''"

fun requestId_of :: "harness_request \<Rightarrow> string" where
  "requestId_of (Rq_send_message i _) = i"
| "requestId_of (Rq_send_reaction i _ _ _ _) = i"
| "requestId_of (Rq_send_reply i _ _ _ _) = i"
| "requestId_of (Rq_update_scopes i _ _) = i"
| "requestId_of (Rq_reveal_content i _) = i"
| "requestId_of (Rq_confirm_action i _ _) = i"
| "requestId_of (Rq_heartbeat i _) = i"

subsection \<open>State, effects and dependencies\<close>

record rh_state =
  rh_creds :: cm_state
  rh_pending :: "send_request pending_store"
  rh_seals :: seal_manager_state
  rh_now :: int

datatype effect =
    Eff_send send_request
  | Eff_broadcast string signet_event
  | Eff_expired "send_request pending_action"

datatype await_point = Aw_ready | Aw_lookup | Aw_send | Aw_seal | Aw_binding | Aw_list

type_synonym interference = "await_point \<Rightarrow> rh_state \<Rightarrow> rh_state"

record replay_message =
  rpm_messageId :: string
  rpm_groupId :: string
  rpm_senderInboxId :: string
  rpm_contentType :: string
  rpm_content :: js_value
  rpm_sentAt :: string
  rpm_threadId :: "string option"

text \<open>
  The core client's calls (getting ready, sending, listing messages) and the message binding are
  outside this component; an optional dependency is an option or a flag for its presence.
\<close>

record rh_deps =
  rd_env :: cm_env
  rd_parseDate :: "string \<Rightarrow> int option"
  rd_ensureCoreReady :: "(unit, signet_error) result"
  rd_sendMessage :: "send_request \<Rightarrow> (string, signet_error) result"
  rd_hasInternal :: bool
  rd_hasPending :: bool
  rd_hasBroadcast :: bool
  rd_listMessages :: "(string \<Rightarrow> (replay_message list, signet_error) result) option"
  rd_hasSeals :: bool
  rd_createMessageBinding ::
    "(string \<Rightarrow> string \<Rightarrow> runtime_credential \<Rightarrow> (message_seal_binding, signet_error) result) option"
  rd_hasOnExpired :: bool

record provenance_metadata =
  pm_credentialId :: string
  pm_operatorId :: string
  pm_binding :: message_seal_binding

datatype rh_response =
    Resp_sent string "provenance_metadata option"
  | Resp_core_sent string
  | Resp_null
  | Resp_access reveal_access
  | Resp_scopes bool bool "string option"
  | Resp_denied string

type_synonym outcome = "(rh_response, signet_error) result \<times> effect list \<times> rh_state"

subsection \<open>Sending a message\<close>

definition message_provenance ::
  "rh_deps \<Rightarrow> interference \<Rightarrow> rh_state \<Rightarrow> send_request \<Rightarrow> runtime_credential \<Rightarrow> string
   \<Rightarrow> (provenance_metadata option, signet_error) result \<times> rh_state" where
  "message_provenance deps aw s request credential messageId =
     (case rd_createMessageBinding deps of
        None \<Rightarrow> (Ok None, s)
      | Some createBinding \<Rightarrow>
          if \<not> rd_hasSeals deps then (Ok None, s)
          else
            let found = seal_current (rh_seals s) (rc_credentialId credential) (sr_groupId request);
                s1 = aw Aw_seal s
            in case found of
                 None \<Rightarrow> (Ok None, s1)
               | Some envelope \<Rightarrow>
                   let current = sc_current (sen_chain envelope);
                       s2 = aw Aw_binding s1
                   in case createBinding messageId (sp_sealId current) credential of
                        Err e \<Rightarrow> (Err e, s2)
                      | Ok binding \<Rightarrow>
                          (Ok (Some \<lparr>pm_credentialId = sp_credentialId current,
                                     pm_operatorId = sp_operatorId current, pm_binding = binding\<rparr>), s2))"

definition handleSendMessage ::
  "rh_deps \<Rightarrow> interference \<Rightarrow> rh_state \<Rightarrow> send_request \<Rightarrow> runtime_credential \<Rightarrow> outcome" where
  "handleSendMessage deps aw s request credential =
     (case validateSendMessage (sr_groupId request) (credential_scopes credential) (credential_chats credential) of
        Err e \<Rightarrow> (Err e, [], s)
      | Ok _ \<Rightarrow>
          let s1 = aw Aw_ready s
          in case rd_ensureCoreReady deps of
               Err e \<Rightarrow> (Err e, [], s1)
             | Ok _ \<Rightarrow>
                 let (fresh, creds) = service_lookup (rd_env deps) (rh_now s1) (rh_creds s1) (rc_credentialId credential);
                     s2 = aw Aw_lookup (s1\<lparr>rh_creds := creds\<rparr>)
                 in case fresh of
                      Err e \<Rightarrow> (Err e, [], s2)
                    | Ok c \<Rightarrow>
                        if cr_status (rc_record c) \<noteq> CS_active
                        then (Err (AuthError_create (''Credential is '' @
                                credential_status_text (cr_status (rc_record c)) @ '' -- cannot send messages'') None), [], s2)
                        else
                          let s3 = aw Aw_send s2
                          in case rd_sendMessage deps request of
                               Err e \<Rightarrow> (Err e, [Eff_send request], s3)
                             | Ok messageId \<Rightarrow>
                                 (case message_provenance deps aw s3 request credential messageId of
                                    (Err e, s4) \<Rightarrow> (Err e, [Eff_send request], s4)
                                  | (Ok provenance, s4) \<Rightarrow>
                                      (Ok (Resp_sent messageId provenance), [Eff_send request], s4)))"

subsection \<open>Heartbeat\<close>

definition handleHeartbeat ::
  "rh_deps \<Rightarrow> rh_state \<Rightarrow> string \<Rightarrow> runtime_credential \<Rightarrow> outcome" where
  "handleHeartbeat deps s requested credential =
     (if requested \<noteq> rc_credentialId credential
      then (Err (AuthError_create ''Heartbeat credential does not match authenticated credential''
              (Some [(''authenticatedCredentialId'', VStr (rc_credentialId credential)),
                     (''requestedCredentialId'', VStr requested)])), [], s)
      else if \<not> rd_hasInternal deps then (Ok Resp_null, [], s)
      else case recordHeartbeat (rh_now s) (rh_creds s) (rc_credentialId credential) of
             (Err e, creds) \<Rightarrow> (Err e, [], s\<lparr>rh_creds := creds\<rparr>)
           | (Ok _, creds) \<Rightarrow> (Ok Resp_null, [], s\<lparr>rh_creds := creds\<rparr>))"

subsection \<open>Revealing content\<close>

definition replay_query :: "replay_message \<Rightarrow> reveal_query" where
  "replay_query msg =
     \<lparr>q_messageId = rpm_messageId msg, q_groupId = rpm_groupId msg, q_threadId = rpm_threadId msg,
      q_senderInboxId = rpm_senderInboxId msg, q_contentType = rpm_contentType msg,
      q_sentAt = rpm_sentAt msg\<rparr>"

definition replay_raw :: "replay_message \<Rightarrow> raw_message" where
  "replay_raw msg =
     \<lparr>rm_messageId = rpm_messageId msg, rm_groupId = rpm_groupId msg,
      rm_senderInboxId = rpm_senderInboxId msg, rm_contentType = rpm_contentType msg,
      rm_content = rpm_content msg, rm_sentAt = rpm_sentAt msg, rm_threadId = rpm_threadId msg,
      rm_sealId = None, rm_isHistorical = Some True\<rparr>"

definition replay_step ::
  "rh_deps \<Rightarrow> int \<Rightarrow> runtime_credential \<Rightarrow> reveal_store \<Rightarrow> string \<Rightarrow> effect list \<Rightarrow> replay_message \<Rightarrow> effect list" where
  "replay_step deps now credential store revealId effs msg =
     (if \<not> isRevealed (rd_parseDate deps) now store (replay_query msg) then effs
      else case projectMessage (replay_raw msg) (credential_scopes credential) (credential_chats credential)
                  [rpm_contentType msg] True of
             Drop \<Rightarrow> effs
           | Emit e \<Rightarrow>
               effs @ [Eff_broadcast (rc_credentialId credential)
                         (Ev_message_revealed
                            \<lparr>rv_messageId = rpm_messageId msg, rv_groupId = rpm_groupId msg,
                             rv_contentType = rpm_contentType msg, rv_content = me_content e,
                             rv_revealId = revealId\<rparr>)])"

text \<open>
  The store is one object for the whole request: after the wait it holds what the credential
  manager's map then holds for the credential.
\<close>

definition handleRevealContent ::
  "rh_deps \<Rightarrow> interference \<Rightarrow> rh_state \<Rightarrow> reveal_request \<Rightarrow> runtime_credential \<Rightarrow> outcome" where
  "handleRevealContent deps aw s reveal credential =
     (if \<not> rd_hasInternal deps
      then (Err (InternalError_create ''Internal credential manager not available'' None), [], s)
      else case getRevealState (rh_creds s) (rc_credentialId credential) of
             (Err e, creds) \<Rightarrow> (Err e, [], s\<lparr>rh_creds := creds\<rparr>)
           | (Ok store, creds) \<Rightarrow>
               let access = \<lparr>ra_revealId = rq_revealId reveal, ra_grantedAt = rh_now s,
                             ra_grantedBy = rq_requestedBy reveal, ra_expiresAt = rq_expiresAt reveal\<rparr>;
                   store1 = reveal_record store access reveal;
                   s1 = s\<lparr>rh_creds := creds\<lparr>revealStates :=
                            map_set (revealStates creds) (rc_credentialId credential) store1\<rparr>\<rparr>
               in case rd_listMessages deps of
                    None \<Rightarrow> (Ok (Resp_access access), [], s1)
                  | Some listMessages \<Rightarrow>
                      if \<not> rd_hasBroadcast deps then (Ok (Resp_access access), [], s1)
                      else
                        let s2 = aw Aw_list s1;
                            store2 = nullish (map_get (revealStates (rh_creds s2)) (rc_credentialId credential)) store1
                        in case listMessages (rq_groupId reveal) of
                             Err _ \<Rightarrow> (Ok (Resp_access access), [], s2)
                           | Ok messages \<Rightarrow>
                               (Ok (Resp_access access),
                                foldl (replay_step deps (rh_now s2) credential store2 (ra_revealId access)) [] messages,
                                s2))"

subsection \<open>Updating scopes\<close>

definition handleUpdateScopes ::
  "rh_deps \<Rightarrow> rh_state \<Rightarrow> permission_scope list option \<Rightarrow> permission_scope list option
   \<Rightarrow> runtime_credential \<Rightarrow> outcome" where
  "handleUpdateScopes deps s reqAllow reqDeny credential =
     (if \<not> rd_hasInternal deps
      then (Err (InternalError_create ''Internal credential manager not available'' None), [], s)
      else
        let newScopes = \<lparr>allow = nullish reqAllow (allow (rc_effectiveScopes credential)),
                         deny = nullish reqDeny (deny (rc_effectiveScopes credential))\<rparr>
        in case cm_checkMateriality (rh_creds s) (rc_credentialId credential) newScopes of
             Err e \<Rightarrow> (Err e, [], s)
           | Ok check \<Rightarrow>
               if mc_requiresReauthorization check
               then (Ok (Resp_scopes False True (mc_reason check)), [],
                     s\<lparr>rh_creds := snd (setCredentialStatus (rh_creds s) (rc_credentialId credential) CS_pending)\<rparr>)
               else case updateCredentialScopes (rd_env deps) (rh_creds s) (rc_credentialId credential) newScopes of
                      (Err e, creds) \<Rightarrow> (Err e, [], s\<lparr>rh_creds := creds\<rparr>)
                    | (Ok _, creds) \<Rightarrow>
                        (Ok (Resp_scopes True (mc_isMaterial check)
                               (if mc_isMaterial check then mc_reason check else None)), [],
                         s\<lparr>rh_creds := creds\<rparr>))"

subsection \<open>Confirming an action\<close>

definition confirm_execute ::
  "rh_deps \<Rightarrow> interference \<Rightarrow> rh_state \<Rightarrow> send_request pending_action \<Rightarrow> outcome" where
  "confirm_execute deps aw s action =
     (if pa_actionType action = ''send_message''
      then let s1 = aw Aw_ready s
           in case rd_ensureCoreReady deps of
                Err e \<Rightarrow> (Err e, [], s1)
              | Ok _ \<Rightarrow>
                  let s2 = aw Aw_send s1
                  in case rd_sendMessage deps (pa_payload action) of
                       Err e \<Rightarrow> (Err e, [Eff_send (pa_payload action)], s2)
                     | Ok messageId \<Rightarrow> (Ok (Resp_core_sent messageId), [Eff_send (pa_payload action)], s2)
      else (Err (InternalError_create (''Unknown pending action type: '' @ pa_actionType action) None), [], s))"

definition handleConfirmAction ::
  "rh_deps \<Rightarrow> interference \<Rightarrow> rh_state \<Rightarrow> string \<Rightarrow> bool \<Rightarrow> runtime_credential \<Rightarrow> outcome" where
  "handleConfirmAction deps aw s actionId confirmed credential =
     (if \<not> rd_hasPending deps
      then (Err (InternalError_create ''Pending action store not available'' None), [], s)
      else case pending_get (rh_pending s) actionId of
             None \<Rightarrow> (Err (NotFoundError_create ''PendingAction'' actionId), [], s)
           | Some pending \<Rightarrow>
               if pa_credentialId pending \<noteq> rc_credentialId credential
               then (Err (PermissionError_create ''Pending action does not belong to this credential''
                       (Some [(''actionId'', VStr actionId), (''credentialId'', VStr (rc_credentialId credential))])), [], s)
               else
                 let denied = s\<lparr>rh_pending := snd (pending_deny (rh_pending s) actionId)\<rparr>
                 in if pa_expiresAt pending < rh_now s
                    then (Err (PermissionError_create ''Pending action has expired''
                            (Some [(''actionId'', VStr actionId), (''expiresAt'', VNum (of_int (pa_expiresAt pending)))])),
                          (if rd_hasOnExpired deps then [Eff_expired pending] else []), denied)
                    else if \<not> confirmed then (Ok (Resp_denied actionId), [], denied)
                    else case (if pa_actionType pending = ''send_message''
                               then validateSendMessage (sr_groupId (pa_payload pending))
                                      (credential_scopes credential) (credential_chats credential)
                               else Ok \<lparr>draftOnly = False\<rparr>) of
                           Err e \<Rightarrow> (Err e, [], denied)
                         | Ok _ \<Rightarrow>
                             (case pending_confirm (rh_pending s) actionId of
                                (None, pend) \<Rightarrow>
                                  (Err (NotFoundError_create ''PendingAction'' actionId), [], s\<lparr>rh_pending := pend\<rparr>)
                              | (Some action, pend) \<Rightarrow> confirm_execute deps aw (s\<lparr>rh_pending := pend\<rparr>) action))"

subsection \<open>Dispatch\<close>

definition heartbeat_blocks :: "rh_deps \<Rightarrow> rh_state \<Rightarrow> harness_request \<Rightarrow> runtime_credential \<Rightarrow> bool" where
  "heartbeat_blocks deps s request credential \<longleftrightarrow>
     request_type request \<noteq> ''heartbeat'' \<and> rd_hasInternal deps \<and>
     (case isHeartbeatStale (rd_env deps) (rh_now s) (rh_creds s) (rc_credentialId credential) of
        Ok stale \<Rightarrow> stale
      | Err _ \<Rightarrow> False)"

definition handle_request ::
  "rh_deps \<Rightarrow> interference \<Rightarrow> rh_state \<Rightarrow> harness_request \<Rightarrow> runtime_credential \<Rightarrow> outcome" where
  "handle_request deps aw s request credential =
     (if heartbeat_blocks deps s request credential
      then (Err (AuthError_create
              ''Credential heartbeat is stale -- send a heartbeat before making requests'' None), [], s)
      else case request of
             Rq_send_message _ r \<Rightarrow> handleSendMessage deps aw s r credential
           | Rq_heartbeat _ requested \<Rightarrow> handleHeartbeat deps s requested credential
           | Rq_reveal_content _ reveal \<Rightarrow> handleRevealContent deps aw s reveal credential
           | Rq_update_scopes _ a d \<Rightarrow> handleUpdateScopes deps s a d credential
           | Rq_confirm_action _ actionId confirmed \<Rightarrow> handleConfirmAction deps aw s actionId confirmed credential
           | _ \<Rightarrow> (Err (InternalError_create
                     (''Harness request type '' @ quoted (request_type request) @ '' is not supported'') None), [], s))"

end
