(* ===== verification/WsConnection.thy ===== *)
theory WsConnection
  imports ReplayBuffer RequestHandler
begin

text \<open>
  The parts of the WebSocket transport that a connection consists of
  (\<^verbatim>\<open>packages/ws/src\<close>): its phases and data (\<^verbatim>\<open>connection-state.ts\<close>), the close codes, the
  frames the server sends (\<^verbatim>\<open>frames.ts\<close>), the check of an authentication frame
  (\<^verbatim>\<open>auth-handler.ts\<close>) and the response envelope of a request (\<^verbatim>\<open>request-router.ts\<close>).
\<close>

subsection \<open>Phases\<close>

datatype connection_phase = Ph_authenticating | Ph_active | Ph_draining | Ph_closed

fun VALID_TRANSITIONS :: "connection_phase \<Rightarrow> connection_phase list" where
  "VALID_TRANSITIONS Ph_authenticating = [Ph_active, Ph_closed]"
| "VALID_TRANSITIONS Ph_active = [Ph_draining, Ph_closed]"
| "VALID_TRANSITIONS Ph_draining = [Ph_closed]"
| "VALID_TRANSITIONS Ph_closed = []"

definition canTransition :: "connection_phase \<Rightarrow> connection_phase \<Rightarrow> bool" where
  "canTransition p q \<longleftrightarrow> q \<in> set (VALID_TRANSITIONS p)"

text \<open>
  A timer handle is a number. The replay state is shared between the connections of a
  credential, so a connection holds its address in the server's heap of replay states.
\<close>

record in_flight =
  if_timer :: nat
  if_sentAt :: int

record connection_data =
  cn_phase :: connection_phase
  cn_credentialRecord :: "runtime_credential option"
  cn_credentialId :: "string option"
  cn_operatorId :: "string option"
  cn_replay :: "nat option"
  cn_backpressure :: backpressure_tracker
  cn_authTimer :: "nat option"
  cn_heartbeatTimer :: "nat option"
  cn_inFlight :: "(string, in_flight) js_map"
  cn_lastClientActivity :: int
  cn_messageCount :: int
  cn_messageWindowStart :: int

definition createConnectionState :: "int \<Rightarrow> int \<Rightarrow> int \<Rightarrow> connection_data" where
  "createConnectionState softLimit hardLimit now =
     \<lparr>cn_phase = Ph_authenticating, cn_credentialRecord = None, cn_credentialId = None,
      cn_operatorId = None, cn_replay = None, cn_backpressure = bp_new softLimit hardLimit,
      cn_authTimer = None, cn_heartbeatTimer = None, cn_inFlight = [],
      cn_lastClientActivity = now, cn_messageCount = 0, cn_messageWindowStart = now\<rparr>"

definition transition :: "connection_data \<Rightarrow> connection_phase \<Rightarrow> bool \<times> connection_data" where
  "transition d to =
     (if \<not> canTransition (cn_phase d) to then (False, d) else (True, d\<lparr>cn_phase := to\<rparr>))"

subsection \<open>Close codes\<close>

datatype close_code =
    NORMAL | GOING_AWAY | AUTH_FAILED | AUTH_TIMEOUT | CREDENTIAL_EXPIRED | CREDENTIAL_REVOKED
  | POLICY_CHANGE | BACKPRESSURE | DEAD_CONNECTION | RATE_LIMITED | PROTOCOL_ERROR

fun WS_CLOSE_CODES :: "close_code \<Rightarrow> int" where
  "WS_CLOSE_CODES NORMAL = 1000"
| "WS_CLOSE_CODES GOING_AWAY = 1001"
| "WS_CLOSE_CODES AUTH_FAILED = 4001"
| "WS_CLOSE_CODES AUTH_TIMEOUT = 4002"
| "WS_CLOSE_CODES CREDENTIAL_EXPIRED = 4003"
| "WS_CLOSE_CODES CREDENTIAL_REVOKED = 4004"
| "WS_CLOSE_CODES POLICY_CHANGE = 4005"
| "WS_CLOSE_CODES BACKPRESSURE = 4008"
| "WS_CLOSE_CODES DEAD_CONNECTION = 4010"
| "WS_CLOSE_CODES RATE_LIMITED = 1008"
| "WS_CLOSE_CODES PROTOCOL_ERROR = 4009"

lemma close_codes_inj: "WS_CLOSE_CODES a = WS_CLOSE_CODES b \<longleftrightarrow> a = b"
  by (cases a; cases b) simp_all

text \<open>The code that a credential which is no longer active closes its connections with.\<close>

definition status_close_code :: "credential_status \<Rightarrow> close_code" where
  "status_close_code status =
     (if status = CS_revoked then CREDENTIAL_REVOKED
      else if status = CS_expired then CREDENTIAL_EXPIRED
      else POLICY_CHANGE)"

subsection \<open>Frames\<close>

record auth_frame =
  af_token :: string
  af_lastSeenSeq :: "nat option"

text \<open>
  An inbound message after parsing: not JSON, or what the two schemas make of it (as an
  authentication frame, as a request) and the request identifier it carries, if any.
\<close>

datatype inbound =
    In_not_json
  | In_frame "auth_frame option" "harness_request option" "string option"

record authenticated_frame =
  atf_connectionId :: string
  atf_credentialId :: string
  atf_operatorId :: string
  atf_fingerprint :: string
  atf_issuedAt :: int
  atf_expiresAt :: int
  atf_effectiveScopes :: scope_set
  atf_resumedFromSeq :: "nat option"

datatype ws_error_body = WsError int error_category string "err_context option"

datatype ws_response =
    Wr_ok string rh_response
  | Wr_error string ws_error_body

datatype out_frame =
    Of_authenticated authenticated_frame
  | Of_auth_error int string
  | Of_sequenced sequenced_frame
  | Of_backpressure int int
  | Of_response ws_response

subsection \<open>Authentication and routing\<close>

definition handleAuth ::
  "(runtime_credential, signet_error) result \<Rightarrow> (runtime_credential, signet_error) result" where
  "handleAuth lookupResult =
     (case lookupResult of
        Err e \<Rightarrow> Err e
      | Ok credential \<Rightarrow>
          if cr_status (rc_record credential) \<noteq> CS_active
          then Err (AuthError_create (''Credential '' @ rc_credentialId credential @ '' is not active'')
                 (Some [(''credentialId'', VStr (rc_credentialId credential)),
                        (''status'', VStr (credential_status_text (cr_status (rc_record credential))))]))
          else Ok credential)"

definition routeRequest ::
  "harness_request \<Rightarrow> (rh_response, signet_error) result \<Rightarrow> ws_response" where
  "routeRequest request handled =
     (case handled of
        Ok v \<Rightarrow> Wr_ok (requestId_of request) v
      | Err e \<Rightarrow> Wr_error (requestId_of request)
                  (WsError (err_code e) (err_category e) (err_message e) (err_context e)))"

subsection \<open>Phases only move forward\<close>

fun phase_rank :: "connection_phase \<Rightarrow> nat" where
  "phase_rank Ph_authenticating = 0"
| "phase_rank Ph_active = 1"
| "phase_rank Ph_draining = 2"
| "phase_rank Ph_closed = 3"

lemma canTransition_rank: "canTransition p q \<Longrightarrow> phase_rank p < phase_rank q"
  by (cases p; cases q) (simp_all add: canTransition_def)

lemma transition_rank: "phase_rank (cn_phase d) \<le> phase_rank (cn_phase (snd (transition d q)))"
  using canTransition_rank [of "cn_phase d" q] by (auto simp: transition_def)

lemma transition_closed [simp]: "cn_phase (snd (transition d Ph_closed)) = Ph_closed"
  by (cases "cn_phase d") (simp_all add: transition_def canTransition_def)

end
