(* ===== verification/WsServer.thy ===== *)
theory WsServer
  imports WsConnection
begin

text \<open>
  The WebSocket server (\<^verbatim>\<open>packages/ws/src/server.ts\<close>). Its state holds every socket's data, the
  registry of authenticated connections, the replay states of the credentials (shared objects,
  so a heap with addresses), the pending invalidations, the timers that are set, and what has
  been sent and closed so far. Code between two awaits is one function here; what waits is a
  task in the state, with what it captured, and the result of the call it waits for is an
  argument of the function that goes on. Closing a socket only requests it: the close handler
  runs as an event of its own.
\<close>

subsection \<open>Configuration and state\<close>

record ws_server_config =
  wc_port :: int
  wc_host :: string
  wc_heartbeatIntervalMs :: int
  wc_missedHeartbeatsBeforeDead :: int
  wc_authTimeoutMs :: int
  wc_requestTimeoutMs :: int
  wc_replayBufferSize :: nat
  wc_sendBufferSoftLimit :: int
  wc_sendBufferHardLimit :: int
  wc_drainTimeoutMs :: int
  wc_maxFrameSizeBytes :: int
  wc_rateLimitWindowMs :: int
  wc_rateLimitMaxMessages :: "int option"

text \<open>The input may leave fields out; the limit of messages may also be null.\<close>

record ws_config_input =
  wi_port :: "int option"
  wi_host :: "string option"
  wi_heartbeatIntervalMs :: "int option"
  wi_missedHeartbeatsBeforeDead :: "int option"
  wi_authTimeoutMs :: "int option"
  wi_requestTimeoutMs :: "int option"
  wi_replayBufferSize :: "int option"
  wi_sendBufferSoftLimit :: "int option"
  wi_sendBufferHardLimit :: "int option"
  wi_drainTimeoutMs :: "int option"
  wi_maxFrameSizeBytes :: "int option"
  wi_rateLimitWindowMs :: "int option"
  wi_rateLimitMaxMessages :: "int option option"

definition WsServerConfig_ok :: "ws_server_config \<Rightarrow> bool" where
  "WsServerConfig_ok c \<longleftrightarrow>
     0 \<le> wc_port c \<and> 0 < wc_heartbeatIntervalMs c \<and> 0 < wc_missedHeartbeatsBeforeDead c \<and>
     0 < wc_authTimeoutMs c \<and> 0 < wc_requestTimeoutMs c \<and>
     0 < wc_replayBufferSize c \<and> 0 < wc_sendBufferSoftLimit c \<and> 0 < wc_sendBufferHardLimit c \<and>
     0 < wc_drainTimeoutMs c \<and> 0 < wc_maxFrameSizeBytes c \<and> 0 < wc_rateLimitWindowMs c \<and>
     (case wc_rateLimitMaxMessages c of None \<Rightarrow> True | Some m \<Rightarrow> 0 < m) \<and>
     wc_sendBufferSoftLimit c < wc_sendBufferHardLimit c"

definition WsServerConfigSchema_parse :: "ws_config_input \<Rightarrow> ws_server_config option" where
  "WsServerConfigSchema_parse i =
     (let c = \<lparr>wc_port = nullish (wi_port i) 8393,
               wc_host = nullish (wi_host i) ''127.0.0.1'',
               wc_heartbeatIntervalMs = nullish (wi_heartbeatIntervalMs i) 30000,
               wc_missedHeartbeatsBeforeDead = nullish (wi_missedHeartbeatsBeforeDead i) 3,
               wc_authTimeoutMs = nullish (wi_authTimeoutMs i) 5000,
               wc_requestTimeoutMs = nullish (wi_requestTimeoutMs i) 30000,
               wc_replayBufferSize = nat (nullish (wi_replayBufferSize i) 1000),
               wc_sendBufferSoftLimit = nullish (wi_sendBufferSoftLimit i) 64,
               wc_sendBufferHardLimit = nullish (wi_sendBufferHardLimit i) 256,
               wc_drainTimeoutMs = nullish (wi_drainTimeoutMs i) 5000,
               wc_maxFrameSizeBytes = nullish (wi_maxFrameSizeBytes i) 1048576,
               wc_rateLimitWindowMs = nullish (wi_rateLimitWindowMs i) 1000,
               wc_rateLimitMaxMessages = nullish (wi_rateLimitMaxMessages i) None\<rparr>
      in if WsServerConfig_ok c then Some c else None)"

datatype ws_server_state = Srv_idle | Srv_listening | Srv_draining | Srv_stopped

record pending_invalidation =
  pi_refcount :: int
  pi_generation :: nat
  pi_events :: "signet_event list"

datatype timer =
    Tm_auth string
  | Tm_beat string string
  | Tm_request string string string

datatype ws_task =
    T_auth string auth_frame
  | T_auth_finish string auth_frame runtime_credential resume_plan
  | T_request string inbound string
  | T_handle string harness_request runtime_credential
  | T_refresh string harness_request runtime_credential ws_response
  | T_beat string string
  | T_invalidate string nat
  | T_drain
  | T_flush "string list"

record ws_state =
  ws_conns :: "(string, connection_data) js_map"
  ws_registry :: "string list"
  ws_heap :: "credential_replay_state list"
  ws_credentialStates :: "(string, nat) js_map"
  ws_pending :: "(string, pending_invalidation) js_map"
  ws_invalidationGen :: nat
  ws_serverState :: ws_server_state
  ws_timers :: "(nat, timer) js_map"
  ws_nextTimer :: nat
  ws_tasks :: "ws_task list"
  ws_now :: int
  ws_out :: "(string \<times> out_frame) list"
  ws_closes :: "(string \<times> close_code) list"

text \<open>
  What the server is given: the optional projector, the digest of tokens, and whether the
  socket's \<open>send\<close> reports back pressure at a given point of the output.
\<close>

record ws_deps =
  wd_config :: ws_server_config
  wd_projectEvent :: "(signet_event \<Rightarrow> runtime_credential \<Rightarrow> signet_event option) option"
  wd_sha256 :: "string \<Rightarrow> 8 word list"
  wd_backedUp :: "string \<Rightarrow> nat \<Rightarrow> bool"

definition createWsServer :: "int \<Rightarrow> ws_state" where
  "createWsServer now =
     \<lparr>ws_conns = [], ws_registry = [], ws_heap = [], ws_credentialStates = [], ws_pending = [],
      ws_invalidationGen = 0, ws_serverState = Srv_idle, ws_timers = [], ws_nextTimer = 0,
      ws_tasks = [], ws_now = now, ws_out = [], ws_closes = []\<rparr>"

definition upd_conn :: "ws_state \<Rightarrow> string \<Rightarrow> (connection_data \<Rightarrow> connection_data) \<Rightarrow> ws_state" where
  "upd_conn st c f =
     (case map_get (ws_conns st) c of
        None \<Rightarrow> st
      | Some d \<Rightarrow> st\<lparr>ws_conns := map_set (ws_conns st) c (f d)\<rparr>)"

definition ws_close :: "ws_state \<Rightarrow> string \<Rightarrow> close_code \<Rightarrow> ws_state" where
  "ws_close st c code = st\<lparr>ws_closes := ws_closes st @ [(c, code)]\<rparr>"

definition set_timer :: "ws_state \<Rightarrow> timer \<Rightarrow> nat \<times> ws_state" where
  "set_timer st t =
     (ws_nextTimer st, st\<lparr>ws_timers := map_set (ws_timers st) (ws_nextTimer st) t, ws_nextTimer := ws_nextTimer st + 1\<rparr>)"

definition clear_timer :: "ws_state \<Rightarrow> nat \<Rightarrow> ws_state" where
  "clear_timer st t = st\<lparr>ws_timers := map_delete (ws_timers st) t\<rparr>"

definition add_task :: "ws_state \<Rightarrow> ws_task \<Rightarrow> ws_state" where
  "add_task st t = st\<lparr>ws_tasks := ws_tasks st @ [t]\<rparr>"

subsection \<open>Replay states and sending\<close>

definition getOrCreateCredentialState :: "ws_deps \<Rightarrow> ws_state \<Rightarrow> string \<Rightarrow> nat \<times> ws_state" where
  "getOrCreateCredentialState deps st credentialId =
     (case map_get (ws_credentialStates st) credentialId of
        Some a \<Rightarrow> (a, st)
      | None \<Rightarrow>
          (length (ws_heap st),
           st\<lparr>ws_heap := ws_heap st @ [new_replay_state (wc_replayBufferSize (wd_config deps))],
              ws_credentialStates := map_set (ws_credentialStates st) credentialId (length (ws_heap st))\<rparr>))"

definition sendJson :: "ws_deps \<Rightarrow> ws_state \<Rightarrow> string \<Rightarrow> out_frame \<Rightarrow> ws_state" where
  "sendJson deps st c data =
     (let st1 = st\<lparr>ws_out := ws_out st @ [(c, data)]\<rparr>
      in if wd_backedUp deps c (length (ws_out st))
         then upd_conn st1 c (\<lambda>d. d\<lparr>cn_backpressure := bp_increment (cn_backpressure d)\<rparr>)
         else st1)"

definition conn_bp :: "ws_state \<Rightarrow> string \<Rightarrow> backpressure_tracker" where
  "conn_bp st c =
     (case map_get (ws_conns st) c of None \<Rightarrow> bp_new 0 0 | Some d \<Rightarrow> cn_backpressure d)"

definition sendSequenced :: "ws_deps \<Rightarrow> ws_state \<Rightarrow> string \<Rightarrow> signet_event \<Rightarrow> ws_state" where
  "sendSequenced deps st c event =
     (case map_get (ws_conns st) c of
        None \<Rightarrow> st
      | Some d \<Rightarrow>
          (case cn_replay d of
             None \<Rightarrow> st
           | Some a \<Rightarrow>
               let (frame, cs) = sequenceEvent (ws_heap st ! a) event;
                   st1 = sendJson deps (st\<lparr>ws_heap := (ws_heap st)[a := cs]\<rparr>) c (Of_sequenced frame)
               in if bp_state (conn_bp st1 c) = BP_exceeded then ws_close st1 c BACKPRESSURE
                  else if bp_state (conn_bp st1 c) = BP_warning \<and> \<not> bp_notified (conn_bp st1 c)
                  then
                    let st2 = upd_conn st1 c (\<lambda>d. d\<lparr>cn_backpressure := bp_markNotified (cn_backpressure d)\<rparr>);
                        st3 = sendJson deps st2 c
                                (Of_backpressure (bp_depth (conn_bp st2 c)) (wc_sendBufferHardLimit (wd_config deps)))
                    in if bp_state (conn_bp st3 c) = BP_exceeded then ws_close st3 c BACKPRESSURE else st3
                  else st1))"

subsection \<open>Connections and timers\<close>

definition clear_conn_timers :: "ws_state \<Rightarrow> connection_data \<Rightarrow> ws_state" where
  "clear_conn_timers st d =
     (let st1 = (case cn_authTimer d of None \<Rightarrow> st | Some t \<Rightarrow> clear_timer st t);
          st2 = (case cn_heartbeatTimer d of None \<Rightarrow> st1 | Some t \<Rightarrow> clear_timer st1 t)
      in foldl (\<lambda>s e. clear_timer s (if_timer e)) st2 (map_values (cn_inFlight d)))"

definition cleanupConnection :: "ws_state \<Rightarrow> string \<Rightarrow> ws_state" where
  "cleanupConnection st c =
     (case map_get (ws_conns st) c of
        None \<Rightarrow> st
      | Some d \<Rightarrow>
          let st1 = clear_conn_timers st d;
              st2 = st1\<lparr>ws_registry := filter (\<lambda>x. x \<noteq> c) (ws_registry st1)\<rparr>
          in upd_conn st2 c (\<lambda>d. snd (transition
               (d\<lparr>cn_authTimer := None, cn_heartbeatTimer := None, cn_inFlight := []\<rparr>) Ph_closed)))"

definition stopHeartbeat :: "ws_state \<Rightarrow> string \<Rightarrow> ws_state" where
  "stopHeartbeat st c =
     (case map_get (ws_conns st) c of
        None \<Rightarrow> st
      | Some d \<Rightarrow>
          (case cn_heartbeatTimer d of
             None \<Rightarrow> st
           | Some t \<Rightarrow> upd_conn (clear_timer st t) c (\<lambda>d. d\<lparr>cn_heartbeatTimer := None\<rparr>)))"

definition startHeartbeat :: "ws_state \<Rightarrow> string \<Rightarrow> ws_state" where
  "startHeartbeat st c =
     (case map_get (ws_conns st) c of
        None \<Rightarrow> st
      | Some d \<Rightarrow>
          (case cn_credentialRecord d of
             None \<Rightarrow> st
           | Some record \<Rightarrow>
               let (t, st1) = set_timer st (Tm_beat c (rc_credentialId record))
               in upd_conn st1 c (\<lambda>d. d\<lparr>cn_heartbeatTimer := Some t\<rparr>)))"

text \<open>One tick of a heartbeat interval, up to the lookup, and what follows the lookup.\<close>

definition heartbeat_tick :: "ws_deps \<Rightarrow> ws_state \<Rightarrow> string \<Rightarrow> string \<Rightarrow> ws_state" where
  "heartbeat_tick deps st c captured =
     (case map_get (ws_conns st) c of
        None \<Rightarrow> st
      | Some d \<Rightarrow>
          if cn_phase d \<noteq> Ph_active then st
          else if ws_now st - cn_lastClientActivity d >
                    wc_missedHeartbeatsBeforeDead (wd_config deps) * wc_heartbeatIntervalMs (wd_config deps)
          then ws_close st c DEAD_CONNECTION
          else add_task st (T_beat c (case cn_credentialRecord d of
                                        None \<Rightarrow> captured | Some r \<Rightarrow> rc_credentialId r)))"

definition heartbeat_looked_up ::
  "ws_deps \<Rightarrow> ws_state \<Rightarrow> string \<Rightarrow> string \<Rightarrow> (runtime_credential, signet_error) result \<Rightarrow> ws_state" where
  "heartbeat_looked_up deps st c currentCredentialId lookupResult =
     (case lookupResult of
        Err _ \<Rightarrow> stopHeartbeat (ws_close st c CREDENTIAL_REVOKED) c
      | Ok fresh \<Rightarrow>
          let st1 = upd_conn st c (\<lambda>d. d\<lparr>cn_credentialRecord := Some fresh\<rparr>);
              status = cr_status (rc_record fresh)
          in if status \<noteq> CS_active
             then stopHeartbeat (ws_close st1 c (status_close_code status)) c
             else sendSequenced deps st1 c (Ev_heartbeat currentCredentialId (ws_now st1)))"

subsection \<open>Authentication\<close>

definition auth_frame_received :: "ws_deps \<Rightarrow> ws_state \<Rightarrow> string \<Rightarrow> auth_frame option \<Rightarrow> ws_state" where
  "auth_frame_received deps st c parsed =
     (case map_get (ws_conns st) c of
        None \<Rightarrow> st
      | Some d \<Rightarrow>
          if cn_phase d \<noteq> Ph_authenticating then st
          else
            let st1 = (case cn_authTimer d of
                         None \<Rightarrow> st
                       | Some t \<Rightarrow> upd_conn (clear_timer st t) c (\<lambda>d. d\<lparr>cn_authTimer := None\<rparr>))
            in case parsed of
                 None \<Rightarrow>
                   ws_close (sendJson deps st1 c
                     (Of_auth_error (WS_CLOSE_CODES PROTOCOL_ERROR) ''Invalid auth frame'')) c PROTOCOL_ERROR
               | Some frame \<Rightarrow> add_task st1 (T_auth c frame))"

definition auth_looked_up ::
  "ws_deps \<Rightarrow> ws_state \<Rightarrow> string \<Rightarrow> auth_frame \<Rightarrow> (runtime_credential, signet_error) result \<Rightarrow> ws_state" where
  "auth_looked_up deps st c frame lookupResult =
     (case handleAuth lookupResult of
        Err e \<Rightarrow>
          ws_close (sendJson deps st c (Of_auth_error (WS_CLOSE_CODES AUTH_FAILED) (err_message e))) c AUTH_FAILED
      | Ok credential \<Rightarrow>
          let st1 = upd_conn st c (\<lambda>d. snd (transition
                      (d\<lparr>cn_credentialRecord := Some credential,
                         cn_credentialId := Some (rc_credentialId credential),
                         cn_operatorId := Some (rc_operatorId credential)\<rparr>) Ph_active));
              (a, st2) = getOrCreateCredentialState deps st1 (rc_credentialId credential);
              st3 = upd_conn st2 c (\<lambda>d. d\<lparr>cn_replay := Some a\<rparr>);
              st4 = st3\<lparr>ws_registry := set_add (ws_registry st3) c\<rparr>
          in add_task st4 (T_auth_finish c frame credential
               (resume_plan_for (ws_heap st4 ! a) (af_lastSeenSeq frame))))"

definition auth_fingerprinted ::
  "ws_deps \<Rightarrow> ws_state \<Rightarrow> string \<Rightarrow> auth_frame \<Rightarrow> runtime_credential \<Rightarrow> resume_plan \<Rightarrow> ws_state" where
  "auth_fingerprinted deps st c frame credential plan =
     (let st1 = sendJson deps st c (Of_authenticated
                  \<lparr>atf_connectionId = c, atf_credentialId = rc_credentialId credential,
                   atf_operatorId = rc_operatorId credential,
                   atf_fingerprint = fingerprintToken (wd_sha256 deps) (af_token frame),
                   atf_issuedAt = cr_issuedAt (rc_record credential),
                   atf_expiresAt = cr_expiresAt (rc_record credential),
                   atf_effectiveScopes = rc_effectiveScopes credential,
                   atf_resumedFromSeq = rs_resumedFromSeq plan\<rparr>);
          st2 = (if rs_needsRecovery plan then sendSequenced deps st1 c (Ev_recovery_complete (ws_now st1)) else st1);
          st3 = (if \<not> rs_needsRecovery plan
                 then foldl (\<lambda>s f. sendJson deps s c (Of_sequenced f)) st2 (rs_replayFrames plan) else st2)
      in startHeartbeat st3 c)"

subsection \<open>Requests\<close>

definition request_frame_received :: "ws_state \<Rightarrow> string \<Rightarrow> inbound \<Rightarrow> ws_state" where
  "request_frame_received st c frame =
     (case map_get (ws_conns st) c of
        None \<Rightarrow> st
      | Some d \<Rightarrow>
          (case cn_credentialRecord d of
             None \<Rightarrow> ws_close st c PROTOCOL_ERROR
           | Some cached \<Rightarrow> add_task st (T_request c frame (rc_credentialId cached))))"

definition start_request :: "ws_deps \<Rightarrow> ws_state \<Rightarrow> string \<Rightarrow> harness_request \<Rightarrow> runtime_credential \<Rightarrow> ws_state" where
  "start_request deps st c request credential =
     (let (t, st1) = set_timer st (Tm_request c (requestId_of request) (request_type request));
          st2 = upd_conn st1 c (\<lambda>d. d\<lparr>cn_inFlight := map_set (cn_inFlight d) (requestId_of request)
                  \<lparr>if_timer = t, if_sentAt = ws_now st1\<rparr>\<rparr>)
      in add_task st2 (T_handle c request credential))"

definition request_looked_up ::
  "ws_deps \<Rightarrow> ws_state \<Rightarrow> string \<Rightarrow> inbound \<Rightarrow> (runtime_credential, signet_error) result \<Rightarrow> ws_state" where
  "request_looked_up deps st c frame lookupResult =
     (case lookupResult of
        Err _ \<Rightarrow> stopHeartbeat (ws_close st c CREDENTIAL_REVOKED) c
      | Ok credential \<Rightarrow>
          let st1 = upd_conn st c (\<lambda>d. d\<lparr>cn_credentialRecord := Some credential\<rparr>);
              status = cr_status (rc_record credential)
          in if status \<noteq> CS_active
             then stopHeartbeat (ws_close st1 c (status_close_code status)) c
             else case frame of
                    In_frame _ (Some request) _ \<Rightarrow> start_request deps st1 c request credential
                  | In_frame _ None (Some maybeId) \<Rightarrow>
                      sendJson deps st1 c (Of_response (Wr_error maybeId
                        (WsError 1000 Cat_validation ''Invalid request frame'' None)))
                  | _ \<Rightarrow> ws_close st1 c PROTOCOL_ERROR)"

text \<open>The end of a request: it is answered only if it is still in flight.\<close>

definition answer_request :: "ws_deps \<Rightarrow> ws_state \<Rightarrow> string \<Rightarrow> string \<Rightarrow> ws_response \<Rightarrow> ws_state" where
  "answer_request deps st c requestId response =
     (case map_get (ws_conns st) c of
        None \<Rightarrow> st
      | Some d \<Rightarrow>
          (case map_get (cn_inFlight d) requestId of
             None \<Rightarrow> st
           | Some entry \<Rightarrow>
               let st1 = clear_timer st (if_timer entry);
                   st2 = upd_conn st1 c (\<lambda>d. d\<lparr>cn_inFlight := map_delete (cn_inFlight d) requestId\<rparr>)
               in sendJson deps st2 c (Of_response response)))"

definition request_handled ::
  "ws_deps \<Rightarrow> ws_state \<Rightarrow> string \<Rightarrow> harness_request \<Rightarrow> runtime_credential
   \<Rightarrow> (rh_response, signet_error) result \<Rightarrow> ws_state" where
  "request_handled deps st c request credential handled =
     (let response = routeRequest request handled
      in if request_type request = ''update_scopes'' \<or> request_type request = ''reveal_content''
         then add_task st (T_refresh c request credential response)
         else answer_request deps st c (requestId_of request) response)"

definition request_refreshed ::
  "ws_deps \<Rightarrow> ws_state \<Rightarrow> string \<Rightarrow> harness_request \<Rightarrow> ws_response
   \<Rightarrow> (runtime_credential, signet_error) result \<Rightarrow> ws_state" where
  "request_refreshed deps st c request response refreshResult =
     (let st1 = (case refreshResult of
                   Err _ \<Rightarrow> st
                 | Ok fresh \<Rightarrow> upd_conn st c (\<lambda>d. d\<lparr>cn_credentialRecord := Some fresh\<rparr>))
      in answer_request deps st1 c (requestId_of request) response)"

definition request_threw :: "ws_deps \<Rightarrow> ws_state \<Rightarrow> string \<Rightarrow> harness_request \<Rightarrow> ws_state" where
  "request_threw deps st c request =
     answer_request deps st c (requestId_of request)
       (Wr_error (requestId_of request) (WsError 1400 Cat_internal ''Internal error'' None))"

definition request_timed_out :: "ws_deps \<Rightarrow> ws_state \<Rightarrow> string \<Rightarrow> string \<Rightarrow> string \<Rightarrow> ws_state" where
  "request_timed_out deps st c requestId operation =
     sendJson deps (upd_conn st c (\<lambda>d. d\<lparr>cn_inFlight := map_delete (cn_inFlight d) requestId\<rparr>)) c
       (Of_response (Wr_error requestId
          (WsError 1500 Cat_timeout ''Request timed out''
             (Some [(''operation'', VStr operation),
                    (''timeoutMs'', VNum (of_int (wc_requestTimeoutMs (wd_config deps))))]))))"

subsection \<open>Broadcasts and invalidations\<close>

definition connections_of :: "ws_state \<Rightarrow> string \<Rightarrow> string list" where
  "connections_of st credentialId =
     filter (\<lambda>c. case map_get (ws_conns st) c of
                   None \<Rightarrow> False | Some d \<Rightarrow> cn_credentialId d = Some credentialId) (ws_registry st)"

definition broadcast_to :: "ws_deps \<Rightarrow> signet_event \<Rightarrow> ws_state \<Rightarrow> string \<Rightarrow> ws_state" where
  "broadcast_to deps event st c =
     (case map_get (ws_conns st) c of
        None \<Rightarrow> st
      | Some d \<Rightarrow>
          if cn_phase d \<noteq> Ph_active then st
          else case cn_credentialRecord d of
                 None \<Rightarrow> st
               | Some credential \<Rightarrow>
                   if cr_status (rc_record credential) \<noteq> CS_active then st
                   else case wd_projectEvent deps of
                          None \<Rightarrow> sendSequenced deps st c event
                        | Some project \<Rightarrow>
                            (case project event credential of
                               None \<Rightarrow> st
                             | Some projected \<Rightarrow> sendSequenced deps st c projected))"

definition broadcastToCredential :: "ws_deps \<Rightarrow> ws_state \<Rightarrow> string \<Rightarrow> signet_event \<Rightarrow> ws_state" where
  "broadcastToCredential deps st credentialId event =
     (case map_get (ws_pending st) credentialId of
        Some pending \<Rightarrow>
          st\<lparr>ws_pending := map_set (ws_pending st) credentialId (pending\<lparr>pi_events := pi_events pending @ [event]\<rparr>)\<rparr>
      | None \<Rightarrow> foldl (broadcast_to deps event) st (connections_of st credentialId))"

definition invalidateCredential :: "ws_state \<Rightarrow> string \<Rightarrow> ws_state" where
  "invalidateCredential st credentialId =
     (let myGen = ws_invalidationGen st + 1;
          entry = (case map_get (ws_pending st) credentialId of
                     Some existing \<Rightarrow> existing\<lparr>pi_refcount := pi_refcount existing + 1, pi_generation := myGen\<rparr>
                   | None \<Rightarrow> \<lparr>pi_refcount = 1, pi_generation = myGen, pi_events = []\<rparr>)
      in add_task (st\<lparr>ws_invalidationGen := myGen,
                       ws_pending := map_set (ws_pending st) credentialId entry\<rparr>)
           (T_invalidate credentialId myGen))"

definition invalidate_conn ::
  "(runtime_credential, signet_error) result \<Rightarrow> ws_state \<Rightarrow> string \<Rightarrow> ws_state" where
  "invalidate_conn lookupResult st c =
     (case map_get (ws_conns st) c of
        None \<Rightarrow> st
      | Some d \<Rightarrow>
          if cn_phase d \<noteq> Ph_active then st
          else case lookupResult of
                 Err _ \<Rightarrow> stopHeartbeat (ws_close st c CREDENTIAL_REVOKED) c
               | Ok fresh \<Rightarrow>
                   let st1 = upd_conn st c (\<lambda>d. d\<lparr>cn_credentialRecord := Some fresh\<rparr>);
                       status = cr_status (rc_record fresh)
                   in if status \<noteq> CS_active
                      then stopHeartbeat (ws_close st1 c (status_close_code status)) c else st1)"

text \<open>The end of an invalidation, reached also when the lookup throws (no result).\<close>

definition finish_invalidation :: "ws_deps \<Rightarrow> ws_state \<Rightarrow> string \<Rightarrow> ws_state" where
  "finish_invalidation deps st credentialId =
     (case map_get (ws_pending st) credentialId of
        None \<Rightarrow> st
      | Some entry \<Rightarrow>
          let entry' = entry\<lparr>pi_refcount := pi_refcount entry - 1\<rparr>
          in if pi_refcount entry' \<le> 0
             then foldl (\<lambda>s e. broadcastToCredential deps s credentialId e)
                    (st\<lparr>ws_pending := map_delete (ws_pending st) credentialId\<rparr>) (pi_events entry')
             else st\<lparr>ws_pending := map_set (ws_pending st) credentialId entry'\<rparr>)"

definition invalidation_looked_up ::
  "ws_deps \<Rightarrow> ws_state \<Rightarrow> string \<Rightarrow> nat \<Rightarrow> (runtime_credential, signet_error) result option \<Rightarrow> ws_state" where
  "invalidation_looked_up deps st credentialId myGen lookupResult =
     finish_invalidation deps
       (case lookupResult of
          None \<Rightarrow> st
        | Some r \<Rightarrow>
            (case map_get (ws_pending st) credentialId of
               None \<Rightarrow> st
             | Some entry \<Rightarrow>
                 if pi_generation entry \<noteq> myGen then st
                 else foldl (invalidate_conn r) st (connections_of st credentialId)))
       credentialId"

subsection \<open>Socket events and lifecycle\<close>

definition socket_open :: "ws_deps \<Rightarrow> ws_state \<Rightarrow> string \<Rightarrow> ws_state" where
  "socket_open deps st c =
     (let st1 = st\<lparr>ws_conns := map_set (ws_conns st) c (createConnectionState
                  (wc_sendBufferSoftLimit (wd_config deps)) (wc_sendBufferHardLimit (wd_config deps)) (ws_now st))\<rparr>
      in if ws_serverState st1 = Srv_draining \<or> ws_serverState st1 = Srv_stopped
         then ws_close st1 c GOING_AWAY
         else let (t, st2) = set_timer st1 (Tm_auth c)
              in upd_conn st2 c (\<lambda>d. d\<lparr>cn_authTimer := Some t\<rparr>))"

definition auth_timed_out :: "ws_deps \<Rightarrow> ws_state \<Rightarrow> string \<Rightarrow> ws_state" where
  "auth_timed_out deps st c =
     (case map_get (ws_conns st) c of
        None \<Rightarrow> st
      | Some d \<Rightarrow>
          if cn_phase d = Ph_authenticating
          then ws_close (sendJson deps st c
                 (Of_auth_error (WS_CLOSE_CODES AUTH_TIMEOUT) ''Auth timeout'')) c AUTH_TIMEOUT
          else st)"

text \<open>Rate limiting counts the messages of a window; true means the message is over the limit.\<close>

definition rate_limit :: "ws_server_config \<Rightarrow> int \<Rightarrow> connection_data \<Rightarrow> bool \<times> connection_data" where
  "rate_limit cfg now d =
     (case wc_rateLimitMaxMessages cfg of
        None \<Rightarrow> (False, d)
      | Some maxMessages \<Rightarrow>
          if now - cn_messageWindowStart d \<ge> wc_rateLimitWindowMs cfg
          then (False, d\<lparr>cn_messageCount := 1, cn_messageWindowStart := now\<rparr>)
          else let d' = d\<lparr>cn_messageCount := cn_messageCount d + 1\<rparr>
               in (cn_messageCount d' > maxMessages, d'))"

definition socket_message :: "ws_deps \<Rightarrow> ws_state \<Rightarrow> string \<Rightarrow> inbound \<Rightarrow> ws_state" where
  "socket_message deps st c message =
     (case map_get (ws_conns st) c of
        None \<Rightarrow> st
      | Some d \<Rightarrow>
          if cn_phase d = Ph_closed then st
          else
            let (over, d1) = rate_limit (wd_config deps) (ws_now st) (d\<lparr>cn_lastClientActivity := ws_now st\<rparr>);
                st1 = upd_conn st c (\<lambda>_. d1)
            in if over then ws_close st1 c RATE_LIMITED
               else case message of
                      In_not_json \<Rightarrow> ws_close st1 c PROTOCOL_ERROR
                    | In_frame auth _ _ \<Rightarrow>
                        if cn_phase d1 = Ph_authenticating then auth_frame_received deps st1 c auth
                        else if cn_phase d1 = Ph_active then request_frame_received st1 c message
                        else st1)"

definition socket_drain :: "ws_state \<Rightarrow> string \<Rightarrow> ws_state" where
  "socket_drain st c = upd_conn st c (\<lambda>d. d\<lparr>cn_backpressure := bp_reset (cn_backpressure d)\<rparr>)"

text \<open>What the runtime's \<open>serve\<close> did: threw, or returned a server with or without a port.\<close>

definition ws_start :: "(int option, string) result \<Rightarrow> ws_state \<Rightarrow> (int, signet_error) result \<times> ws_state" where
  "ws_start served st =
     (if ws_serverState st \<noteq> Srv_idle
      then (Err (InternalError_create ''Server is not in idle state'' None), st)
      else case served of
             Err text \<Rightarrow> (Err (InternalError_create (''Failed to start server: '' @ text) None), st)
           | Ok None \<Rightarrow>
               (Err (InternalError_create ''Server started but port is undefined'' None),
                st\<lparr>ws_serverState := Srv_listening\<rparr>)
           | Ok (Some port) \<Rightarrow> (Ok port, st\<lparr>ws_serverState := Srv_listening\<rparr>))"

definition stop_conn :: "ws_deps \<Rightarrow> ws_state \<Rightarrow> string \<Rightarrow> ws_state" where
  "stop_conn deps st c =
     (case map_get (ws_conns st) c of
        None \<Rightarrow> st
      | Some d \<Rightarrow>
          if cn_phase d = Ph_active
          then (case cn_credentialRecord d of
                  None \<Rightarrow> st
                | Some r \<Rightarrow>
                    upd_conn (sendSequenced deps st c (Ev_credential_expired (rc_credentialId r) ''signet_shutdown'')) c
                      (\<lambda>d. snd (transition d Ph_draining)))
          else st)"

definition ws_stop :: "ws_deps \<Rightarrow> ws_state \<Rightarrow> (unit, signet_error) result option \<times> ws_state" where
  "ws_stop deps st =
     (if ws_serverState st \<noteq> Srv_listening
      then (Some (Err (InternalError_create ''Server is not listening'' None)), st)
      else (None, add_task (foldl (stop_conn deps) (st\<lparr>ws_serverState := Srv_draining\<rparr>) (ws_registry st)) T_drain))"

text \<open>
  The drain ends when no registered connection has a request in flight, or at the deadline.
\<close>

definition stop_drained :: "ws_state \<Rightarrow> ws_state" where
  "stop_drained st =
     add_task (foldl (\<lambda>s c. ws_close s c GOING_AWAY) st (ws_registry st)) (T_flush (ws_registry st))"

definition stop_flushed :: "ws_state \<Rightarrow> string list \<Rightarrow> ws_state" where
  "stop_flushed st remaining =
     (foldl cleanupConnection st remaining)\<lparr>ws_credentialStates := [], ws_serverState := Srv_stopped\<rparr>"

end
