(* ===== verification/RequestSafety.thy ===== *)
theory RequestSafety
  imports RequestHandler
begin

text \<open>
  What the request handler guarantees, whatever the rest of the daemon does while it waits: the
  messages it sends, the content it reveals, the fate of a pending action, and the permissions
  of credentials.
\<close>

subsection \<open>Effects\<close>

definition sent :: "effect list \<Rightarrow> send_request list" where
  "sent effs = concat (map (\<lambda>e. case e of Eff_send m \<Rightarrow> [m] | _ \<Rightarrow> []) effs)"

definition broadcasts :: "effect list \<Rightarrow> (string \<times> signet_event) list" where
  "broadcasts effs = concat (map (\<lambda>e. case e of Eff_broadcast c ev \<Rightarrow> [(c, ev)] | _ \<Rightarrow> []) effs)"

lemma sent_simps [simp]:
  "sent [] = []" "sent (Eff_send m # es) = m # sent es"
  "sent (Eff_broadcast c ev # es) = sent es" "sent (Eff_expired a # es) = sent es"
  "sent (xs @ ys) = sent xs @ sent ys"
  by (simp_all add: sent_def)

lemma broadcasts_simps [simp]:
  "broadcasts [] = []" "broadcasts (Eff_send m # es) = broadcasts es"
  "broadcasts (Eff_broadcast c ev # es) = (c, ev) # broadcasts es"
  "broadcasts (Eff_expired a # es) = broadcasts es"
  "broadcasts (xs @ ys) = broadcasts xs @ broadcasts ys"
  by (simp_all add: broadcasts_def)

abbreviation effects_of :: "outcome \<Rightarrow> effect list" where
  "effects_of out \<equiv> fst (snd out)"

abbreviation state_of :: "outcome \<Rightarrow> rh_state" where
  "state_of out \<equiv> snd (snd out)"

text \<open>The credential as the re-check after the wait for the core finds it.\<close>

definition fresh_active :: "rh_deps \<Rightarrow> rh_state \<Rightarrow> string \<Rightarrow> bool" where
  "fresh_active deps s cid \<longleftrightarrow>
     (case fst (service_lookup (rd_env deps) (rh_now s) (rh_creds s) cid) of
        Ok c \<Rightarrow> cr_status (rc_record c) = CS_active
      | Err _ \<Rightarrow> False)"

definition can_send :: "runtime_credential \<Rightarrow> string \<Rightarrow> bool" where
  "can_send c g \<longleftrightarrow> g \<in> set (credential_chats c) \<and> effective (rc_effectiveScopes c) Sc_send"

text \<open>An action that may be confirmed now: the credential's own, in time, and if it is a message
  one the credential may send.\<close>

definition confirmable :: "rh_state \<Rightarrow> runtime_credential \<Rightarrow> send_request pending_action \<Rightarrow> bool" where
  "confirmable s c a \<longleftrightarrow>
     pa_credentialId a = rc_credentialId c \<and> rh_now s \<le> pa_expiresAt a \<and>
     (if pa_actionType a = ''send_message'' then can_send c (sr_groupId (pa_payload a)) else True)"

lemma validate_can_send:
  "validateSendMessage g (credential_scopes c) (credential_chats c) =
     (if can_send c g then Ok \<lparr>draftOnly = False\<rparr>
      else if g \<in> set (credential_chats c) then Err (permission_denied ''send'')
      else Err (PermissionError_create (''Chat '' @ quoted g @ '' is not in the credential''
               @ [CHR 0x27] @ ''s scoped conversations'') (Some [(''chatId'', VStr g)])))"
  by (simp add: validateSendMessage_def checkChatInScope_cases can_send_def)

lemma sends_send:
  "sent (effects_of (handleSendMessage deps aw s r c)) =
     (if can_send c (sr_groupId r) \<and> isOk (rd_ensureCoreReady deps)
         \<and> fresh_active deps (aw Aw_ready s) (rc_credentialId c)
      then [r] else [])"
  by (simp add: handleSendMessage_def validate_can_send fresh_active_def Let_def case_prod_unfold
      split: result.split)

lemma sends_confirm_execute:
  "sent (effects_of (confirm_execute deps aw s a)) =
     (if pa_actionType a = ''send_message'' \<and> isOk (rd_ensureCoreReady deps) then [pa_payload a] else [])"
  by (simp add: confirm_execute_def Let_def split: result.split)

lemma sends_confirm:
  "sent (effects_of (handleConfirmAction deps aw s aid b c)) =
     (case pending_get (rh_pending s) aid of
        None \<Rightarrow> []
      | Some a \<Rightarrow>
          if rd_hasPending deps \<and> b \<and> confirmable s c a \<and> pa_actionType a = ''send_message''
             \<and> isOk (rd_ensureCoreReady deps)
          then [pa_payload a] else [])"
  by (auto simp: handleConfirmAction_def validate_can_send confirmable_def pending_confirm_def
      removeAndReturn_def pending_get_def Let_def sends_confirm_execute split: option.split)

lemma replay_fold_sent: "sent (foldl (replay_step deps now c store rid) effs ms) = sent effs"
  by (induction ms arbitrary: effs)
    (simp_all add: replay_step_def split: projection_result.split)

lemma sends_reveal: "sent (effects_of (handleRevealContent deps aw s r c)) = []"
  by (simp add: handleRevealContent_def Let_def case_prod_unfold replay_fold_sent
      split: result.split option.split)

lemma effects_heartbeat: "effects_of (handleHeartbeat deps s q c) = []"
  by (simp add: handleHeartbeat_def split: prod.split result.split)

lemma effects_update: "effects_of (handleUpdateScopes deps s a d c) = []"
  by (simp add: handleUpdateScopes_def Let_def split: prod.split result.split)

lemmas handled_sends = sends_send sends_confirm sends_reveal effects_heartbeat effects_update

subsection \<open>Reveals\<close>

text \<open>The message of a replay that a broadcast shows: revealed by the credential's store, in one of
  its chats, with the history scope held.\<close>

definition replayable ::
  "rh_deps \<Rightarrow> int \<Rightarrow> reveal_store \<Rightarrow> runtime_credential \<Rightarrow> replay_message \<Rightarrow> bool" where
  "replayable deps now store c m \<longleftrightarrow>
     isRevealed (rd_parseDate deps) now store (replay_query m) \<and>
     rpm_groupId m \<in> set (credential_chats c) \<and> effective (rc_effectiveScopes c) Sc_read_history"

definition revealed_message :: "string \<Rightarrow> replay_message \<Rightarrow> reveal_event" where
  "revealed_message rid m =
     \<lparr>rv_messageId = rpm_messageId m, rv_groupId = rpm_groupId m, rv_contentType = rpm_contentType m,
      rv_content = rpm_content m, rv_revealId = rid\<rparr>"

lemma replay_step_eq:
  "replay_step deps now c store rid effs m =
     (if replayable deps now store c m
      then effs @ [Eff_broadcast (rc_credentialId c) (Ev_message_revealed (revealed_message rid m))] else effs)"
proof (cases "projectMessage (replay_raw m) (credential_scopes c) (credential_chats c) [rpm_contentType m] True")
  case (Emit e)
  then show ?thesis
    using Emit [unfolded projectMessage_Emit]
    by (simp add: replay_step_def replayable_def revealed_message_def may_surface_def shows_message_def replay_raw_def)
next
  case Drop
  then show ?thesis
    using projection_cases [of "replay_raw m" "credential_scopes c" "credential_chats c" "[rpm_contentType m]" True]
    by (simp add: replay_step_def replayable_def may_surface_def replay_raw_def)
qed

lemma replay_fold_broadcasts:
  "broadcasts (foldl (replay_step deps now c store rid) effs ms) = broadcasts effs @
     map (\<lambda>m. (rc_credentialId c, Ev_message_revealed (revealed_message rid m)))
       (filter (replayable deps now store c) ms)"
  by (induction ms arbitrary: effs) (simp_all add: replay_step_eq)

lemma broadcasts_none:
  "broadcasts (effects_of (handleSendMessage deps aw s r c)) = []"
  "broadcasts (effects_of (handleConfirmAction deps aw s aid b c)) = []"
  by (simp_all add: handleSendMessage_def handleConfirmAction_def confirm_execute_def Let_def case_prod_unfold
      split: result.split option.split)

subsection \<open>Permissions\<close>

text \<open>A change of the credential manager that keeps its invariant and lets no credential do more.\<close>

definition no_gain :: "cm_env \<Rightarrow> cm_state \<Rightarrow> cm_state \<Rightarrow> bool" where
  "no_gain env st st' \<longleftrightarrow> cm_inv env st' \<and> (\<forall>k. active_scopes st' k \<subseteq> active_scopes st k)"

definition gains_nothing :: "cm_env \<Rightarrow> interference \<Rightarrow> bool" where
  "gains_nothing env aw \<longleftrightarrow>
     (\<forall>p s. cm_inv env (rh_creds s) \<longrightarrow> no_gain env (rh_creds s) (rh_creds (aw p s)))"

lemma no_gain_refl: "cm_inv env st \<Longrightarrow> no_gain env st st"
  by (simp add: no_gain_def)

lemma no_gain_trans: "no_gain env a b \<Longrightarrow> no_gain env b c \<Longrightarrow> no_gain env a c"
  unfolding no_gain_def by blast

lemma no_gain_inv: "no_gain env st st' \<Longrightarrow> cm_inv env st'"
  by (simp add: no_gain_def)

lemma no_gain_aw:
  "gains_nothing env aw \<Longrightarrow> no_gain env st (rh_creds s) \<Longrightarrow> no_gain env st (rh_creds (aw p s))"
  unfolding gains_nothing_def using no_gain_inv no_gain_trans by blast

lemma active_scopes_cong: "byId st' = byId st \<Longrightarrow> active_scopes st' k = active_scopes st k"
  by (simp add: active_scopes_def)

lemma no_gain_reveals:
  "no_gain env st st' \<Longrightarrow> map_wf rs \<Longrightarrow> no_gain env st (st'\<lparr>revealStates := rs\<rparr>)"
  by (auto simp: no_gain_def cm_inv_reveal active_scopes_def)

lemma no_gain_lookup:
  assumes "no_gain env st st'" shows "no_gain env st (snd (service_lookup env now st' k))"
proof -
  have inv: "cm_inv env st'" using assms by (rule no_gain_inv)
  have "snd (service_lookup env now st' k) = snd (sweepExpired env now st')"
    by (simp add: service_lookup_def Let_def split: result.split)
  moreover have "no_gain env st' (snd (sweepExpired env now st'))"
    using cm_inv_sweep [OF inv] active_scopes_sweep [OF inv] by (simp add: no_gain_def)
  ultimately show ?thesis using no_gain_trans [OF assms] by simp
qed

lemma no_gain_heartbeat:
  assumes "cm_inv env st" shows "no_gain env st (snd (recordHeartbeat now st k))"
proof -
  have "active_scopes (snd (recordHeartbeat now st k)) j \<subseteq> active_scopes st j" for j
    by (auto simp: recordHeartbeat_def mutateRecord_Some active_scopes_def split: option.splits)
  then show ?thesis
    using cm_ok_heartbeat [OF assms, of now k] by (simp add: no_gain_def cm_ok_def)
qed

lemma no_gain_getReveal:
  assumes "cm_inv env st" shows "no_gain env st (snd (getRevealState st k))"
proof -
  have "byId (snd (getRevealState st k)) = byId st"
    by (simp add: getRevealState_def Let_def split: option.split)
  then have "active_scopes (snd (getRevealState st k)) j = active_scopes st j" for j
    by (rule active_scopes_cong)
  then show ?thesis
    using cm_ok_revealState [OF assms, of k] by (simp add: no_gain_def cm_ok_def)
qed

lemma no_gain_suspend:
  assumes "cm_inv env st" shows "no_gain env st (snd (setCredentialStatus st k CS_pending))"
proof -
  have "active_scopes (snd (setCredentialStatus st k CS_pending)) j \<subseteq> active_scopes st j" for j
    by (auto simp: setCredentialStatus_def mutateRecord_Some active_scopes_def split: option.splits)
  then show ?thesis
    using cm_ok_setStatus [OF assms, of CS_pending k] by (simp add: no_gain_def cm_ok_def)
qed

lemma no_gain_update:
  assumes "cm_inv env st" and "cm_checkMateriality st k scopes = Ok check"
    and "\<not> mc_requiresReauthorization check"
  shows "no_gain env st (snd (updateCredentialScopes env st k scopes))"
proof -
  obtain rec where rec: "map_get (byId st) k = Some rec"
      and no: "\<not> mc_requiresReauthorization (checkMateriality (ic_effectiveScopes rec) scopes)"
    using assms(2,3) by (auto simp: cm_checkMateriality_def split: option.splits)
  show ?thesis
    using active_scopes_update [OF assms(1) rec no] cm_ok_update [OF assms(1), of k scopes]
    by (simp add: no_gain_def cm_ok_def)
qed

lemma handleHeartbeat_gain:
  "cm_inv (rd_env deps) (rh_creds s) \<Longrightarrow>
     no_gain (rd_env deps) (rh_creds s) (rh_creds (state_of (handleHeartbeat deps s q c)))"
  using no_gain_heartbeat [of "rd_env deps" "rh_creds s" "rh_now s" "rc_credentialId c"]
  by (simp add: handleHeartbeat_def no_gain_refl case_prod_unfold split: result.split)

lemma handleUpdateScopes_gain:
  "cm_inv (rd_env deps) (rh_creds s) \<Longrightarrow>
     no_gain (rd_env deps) (rh_creds s) (rh_creds (state_of (handleUpdateScopes deps s a d c)))"
  by (auto simp: handleUpdateScopes_def no_gain_refl Let_def case_prod_unfold split: result.split
      intro!: no_gain_suspend no_gain_update)

lemma provenance_gain:
  assumes "gains_nothing env aw" and "no_gain env st (rh_creds s)"
  shows "no_gain env st (rh_creds (snd (message_provenance deps aw s r c mid)))"
  using assms by (simp add: message_provenance_def Let_def no_gain_aw split: option.split result.split)

lemma handleSendMessage_gain:
  assumes "gains_nothing (rd_env deps) aw" and "cm_inv (rd_env deps) (rh_creds s)"
  shows "no_gain (rd_env deps) (rh_creds s) (rh_creds (state_of (handleSendMessage deps aw s r c)))"
  using assms
  by (simp add: handleSendMessage_def Let_def case_prod_unfold no_gain_refl no_gain_aw no_gain_lookup
      provenance_gain split: result.split)

lemma handleRevealContent_gain:
  assumes aw: "gains_nothing (rd_env deps) aw" and inv: "cm_inv (rd_env deps) (rh_creds s)"
  shows "no_gain (rd_env deps) (rh_creds s) (rh_creds (state_of (handleRevealContent deps aw s r c)))"
proof -
  let ?creds = "snd (getRevealState (rh_creds s) (rc_credentialId c))"
  have get: "no_gain (rd_env deps) (rh_creds s) ?creds" by (rule no_gain_getReveal [OF inv])
  have wf: "map_wf (revealStates ?creds)" using cm_inv_wf [OF no_gain_inv [OF get]] by simp
  show ?thesis
    using inv get wf
    by (simp add: handleRevealContent_def Let_def case_prod_unfold no_gain_refl no_gain_aw [OF aw]
        no_gain_reveals split: result.split option.split)
qed

lemma handleConfirmAction_gain:
  assumes "gains_nothing (rd_env deps) aw" and "cm_inv (rd_env deps) (rh_creds s)"
  shows "no_gain (rd_env deps) (rh_creds s) (rh_creds (state_of (handleConfirmAction deps aw s aid b c)))"
  using assms
  by (simp add: handleConfirmAction_def confirm_execute_def Let_def case_prod_unfold no_gain_refl no_gain_aw
      split: result.split option.split)

lemmas handlers_gain = handleSendMessage_gain handleRevealContent_gain handleConfirmAction_gain
  handleHeartbeat_gain handleUpdateScopes_gain

subsection \<open>Properties\<close>


text \<open>A request broadcasts only to its own credential, and only content a reveal request brings
  up again: each broadcast shows a listed message of the revealed group with its content
  unchanged, in one of the credential's chats, with the history scope held, and revealed by the
  credential's store as it stands when the broadcasts go out.\<close>

theorem broadcasts_only_revealed:
  "case req of
     Rq_reveal_content _ r \<Rightarrow>
       list_all (\<lambda>(cid, ev). cid = rc_credentialId c \<and>
           (case rd_listMessages deps of None \<Rightarrow> False | Some list \<Rightarrow>
           (case list (rq_groupId r) of Err _ \<Rightarrow> False | Ok ms \<Rightarrow>
              list_ex (\<lambda>m. ev = Ev_message_revealed (revealed_message (rq_revealId r) m) \<and>
                 (case map_get (revealStates (rh_creds (state_of (handle_request deps aw s req c)))) cid of
                    None \<Rightarrow> True
                  | Some store \<Rightarrow>
                      replayable deps (rh_now (state_of (handle_request deps aw s req c))) store c m)) ms)))
         (broadcasts (effects_of (handle_request deps aw s req c)))
   | _ \<Rightarrow> broadcasts (effects_of (handle_request deps aw s req c)) = []"
proof (cases req)
  case (Rq_reveal_content i r)
  show ?thesis
    by (auto simp: Rq_reveal_content handle_request_def handleRevealContent_def Let_def case_prod_unfold
        replay_fold_broadcasts list_all_iff list_ex_iff nullish_def
        split: result.split option.split)
qed (simp_all add: handle_request_def broadcasts_none effects_heartbeat effects_update)

text \<open>C10: No request lets any credential do more. If what happens during the waits keeps the
  credential manager's invariant and gains no credential a scope, then so does the whole request,
  whatever its kind and outcome, and a revocation is never undone by it.\<close>

theorem requests_never_escalate:
  assumes "gains_nothing (rd_env deps) aw" and "cm_inv (rd_env deps) (rh_creds s)"
  shows "cm_inv (rd_env deps) (rh_creds (state_of (handle_request deps aw s req c))) \<and>
         active_scopes (rh_creds (state_of (handle_request deps aw s req c))) k \<subseteq> active_scopes (rh_creds s) k"
proof -
  have "no_gain (rd_env deps) (rh_creds s) (rh_creds (state_of (handle_request deps aw s req c)))"
    using assms handlers_gain by (cases req) (simp_all add: handle_request_def no_gain_refl)
  then show ?thesis by (simp add: no_gain_def)
qed

definition sample_rh_state :: rh_state where
  "sample_rh_state =
     \<lparr>rh_creds = sample_issued,
      rh_pending = [(''a'', \<lparr>pa_actionId = ''a'', pa_credentialId = generateCredentialId [1],
                      pa_actionType = ''send_message'',
                      pa_payload = \<lparr>sr_groupId = ''conv_1'', sr_contentType = ''text'', sr_content = VStr ''hi''\<rparr>,
                      pa_createdAt = 0, pa_expiresAt = 60000\<rparr>)],
      rh_seals = createSealManager, rh_now = 1000\<rparr>"

definition sample_rh_deps :: rh_deps where
  "sample_rh_deps =
     \<lparr>rd_env = sample_env, rd_parseDate = decimal_date, rd_ensureCoreReady = Ok (),
      rd_sendMessage = (\<lambda>_. Ok ''m1''), rd_hasInternal = True, rd_hasPending = True,
      rd_hasBroadcast = True, rd_listMessages = None, rd_hasSeals = True,
      rd_createMessageBinding = None, rd_hasOnExpired = True\<rparr>"

definition sample_runtime :: runtime_credential where
  "sample_runtime =
     (case map_get (byId sample_issued) (generateCredentialId [1]) of
        Some rec \<Rightarrow> toCredentialRecord 1000 rec | None \<Rightarrow> undefined)"

text \<open>The daemon revokes the credential while the request waits for the core.\<close>

definition revoked_meanwhile :: interference where
  "revoked_meanwhile p s =
     (if p = Aw_ready
      then s\<lparr>rh_creds := snd (revokeCredential (rh_now s) (rh_creds s) (generateCredentialId [1]) CR_owner_initiated)\<rparr>
      else s)"

lemma revoked_meanwhile_gains: "gains_nothing env revoked_meanwhile"
proof -
  have "no_gain env st (snd (revokeCredential now st k reason))" if "cm_inv env st" for st now k reason
    using cm_ok_revokeCredential [OF that, of now k reason]
    by (simp add: no_gain_def cm_ok_def active_scopes_revoke)
  then show ?thesis by (simp add: gains_nothing_def revoked_meanwhile_def no_gain_refl)
qed

theorem requests_never_escalate_witness:
  "active_scopes (rh_creds (state_of (handle_request sample_rh_deps revoked_meanwhile sample_rh_state
       (Rq_update_scopes ''r'' (Some [Sc_send, Sc_read_messages]) None) sample_runtime)))
       (generateCredentialId [1])
     \<subseteq> active_scopes sample_issued (generateCredentialId [1])"
proof -
  have inv: "cm_inv (rd_env sample_rh_deps) (rh_creds sample_rh_state)"
    using cm_reachable_preserves [OF sample_issued_reachable]
    by (simp add: sample_rh_deps_def sample_rh_state_def)
  show ?thesis
    using requests_never_escalate [OF revoked_meanwhile_gains inv, THEN conjunct2]
    by (simp add: sample_rh_state_def)
qed

text \<open>A pending action is executed at most once. When confirming an action sends its message, the
  action has already been taken out of the store before the handler waits for the core: a
  request on the same action that comes in during the wait or afterwards, from any credential
  and with any decision, finds no action, sends nothing and is refused. Without interference
  every other action is left as it was.\<close>

theorem confirm_at_most_once:
  "case handleConfirmAction deps aw s aid b c of
     (r, effs, s') \<Rightarrow>
       sent effs = [] \<or>
       (let waiting = s\<lparr>rh_pending := snd (pending_confirm (rh_pending s) aid), rh_now := later\<rparr>;
            second = handleConfirmAction deps aw' waiting aid b' c'
        in fst second = Err (NotFoundError_create ''PendingAction'' aid) \<and> effects_of second = [] \<and>
           state_of second = waiting \<and>
           state_of (handleConfirmAction deps (\<lambda>_ x. x) s aid b c) = waiting\<lparr>rh_now := rh_now s\<rparr>)"
proof (cases "sent (effects_of (handleConfirmAction deps aw s aid b c)) = []")
  case True
  then show ?thesis by (simp add: case_prod_unfold)
next
  case False
  then obtain a where a: "pending_get (rh_pending s) aid = Some a" "rd_hasPending deps" b
      "confirmable s c a" "pa_actionType a = ''send_message''"
    by (auto simp: sends_confirm split: option.splits if_splits)
  then have ok: "validateSendMessage (sr_groupId (pa_payload a)) (credential_scopes c) (credential_chats c) =
      Ok \<lparr>draftOnly = False\<rparr>"
    by (simp add: validate_can_send confirmable_def)
  have gone: "pending_get (snd (pending_confirm (rh_pending s) aid)) aid = None"
    by (simp add: pending_get_def pending_confirm_def removeAndReturn_def split: option.split)
  obtain pend where taken: "pending_confirm (rh_pending s) aid = (Some a, pend)"
    using a(1) by (simp add: pending_confirm_def removeAndReturn_def pending_get_def)
  have "state_of (handleConfirmAction deps (\<lambda>_ x. x) s aid b c) =
      s\<lparr>rh_pending := snd (pending_confirm (rh_pending s) aid)\<rparr>"
    using a ok taken
    by (simp add: handleConfirmAction_def confirm_execute_def confirmable_def Let_def split: result.split)
  then show ?thesis
    using a(2) gone by (simp add: case_prod_unfold Let_def handleConfirmAction_def)
qed

text \<open>What a revocation during the wait for the core does. A send request is stopped by it:
  the credential is looked up again after the wait and nothing is sent. A confirmed pending
  message is not: what it sends does not depend on anything that happens while it waits.\<close>

theorem revocation_while_waiting:
  assumes "cm_inv (rd_env deps) (rh_creds s)"
    and "rh_creds (aw Aw_ready s) = snd (revokeCredential now (rh_creds s) (rc_credentialId c) reason)"
  shows "sent (effects_of (handleSendMessage deps aw s r c)) = [] \<and>
         sent (effects_of (handleConfirmAction deps aw s aid b c)) =
           sent (effects_of (handleConfirmAction deps (\<lambda>_ x. x) s aid b c))"
proof
  let ?st = "snd (revokeCredential now (rh_creds s) (rc_credentialId c) reason)"
  have inv: "cm_inv (rd_env deps) ?st"
    using cm_ok_revokeCredential [OF assms(1)] by (simp add: cm_ok_def)
  have gone: "case map_get (byId ?st) (rc_credentialId c) of None \<Rightarrow> True | Some rec \<Rightarrow> ic_status rec = CS_revoked"
    by (cases "map_get (byId (rh_creds s)) (rc_credentialId c)")
      (simp_all add: revokeCredential_def revokeRecord_Some)
  have "\<not> fresh_active deps (aw Aw_ready s) (rc_credentialId c)"
    using sweepExpired_facts [OF inv, of "rh_now (aw Aw_ready s)" "rc_credentialId c"] gone
    by (simp add: fresh_active_def service_lookup_def Let_def getCredentialById_def assms(2)
        toCredentialRecord_def toSchemaCredentialRecord_def sweep_verdict_idle sweep_due_def split: option.splits)
  then show "sent (effects_of (handleSendMessage deps aw s r c)) = []"
    by (simp add: sends_send)
  show "sent (effects_of (handleConfirmAction deps aw s aid b c)) =
      sent (effects_of (handleConfirmAction deps (\<lambda>_ x. x) s aid b c))"
    by (simp add: sends_confirm)
qed

theorem revocation_while_waiting_witness:
  "sent (effects_of (handleSendMessage sample_rh_deps revoked_meanwhile sample_rh_state
       \<lparr>sr_groupId = ''conv_1'', sr_contentType = ''text'', sr_content = VNull\<rparr> sample_runtime)) = [] \<and>
   length (sent (effects_of (handleSendMessage sample_rh_deps (\<lambda>_ x. x) sample_rh_state
       \<lparr>sr_groupId = ''conv_1'', sr_contentType = ''text'', sr_content = VNull\<rparr> sample_runtime))) = 1"
proof
  have inv: "cm_inv (rd_env sample_rh_deps) (rh_creds sample_rh_state)"
    using cm_reachable_preserves [OF sample_issued_reachable]
    by (simp add: sample_rh_deps_def sample_rh_state_def)
  have "rc_credentialId sample_runtime = generateCredentialId [1]" by code_simp
  then have aw: "rh_creds (revoked_meanwhile Aw_ready sample_rh_state) =
      snd (revokeCredential 1000 (rh_creds sample_rh_state) (rc_credentialId sample_runtime) CR_owner_initiated)"
    by (simp add: revoked_meanwhile_def sample_rh_state_def)
  show "sent (effects_of (handleSendMessage sample_rh_deps revoked_meanwhile sample_rh_state
       \<lparr>sr_groupId = ''conv_1'', sr_contentType = ''text'', sr_content = VNull\<rparr> sample_runtime)) = []"
    using revocation_while_waiting [where deps = sample_rh_deps and s = sample_rh_state
        and aw = revoked_meanwhile and c = sample_runtime, OF inv aw]
    by blast
qed code_simp

end
