(* ===== verification/WsInvariant.thy ===== *)
theory WsInvariant
  imports WsServer RequestSafety
begin

text \<open>
  The runs of the WebSocket server, as steps from any event to the next, and the invariant they
  keep: connections carry a credential exactly from their authentication on, nothing but
  authentication errors is sent before it, phases only move forward, and the replay states are
  histories of numbered events.
\<close>

subsection \<open>The invariant\<close>

definition conn_good :: "nat \<Rightarrow> connection_data \<Rightarrow> bool" where
  "conn_good m d \<longleftrightarrow>
     (cn_phase d = Ph_authenticating \<longrightarrow> cn_credentialRecord d = None) \<and>
     (cn_phase d \<in> {Ph_active, Ph_draining} \<longrightarrow> cn_credentialRecord d \<noteq> None) \<and>
     (cn_credentialRecord d = None \<longleftrightarrow> cn_replay d = None) \<and>
     (cn_credentialRecord d = None \<longleftrightarrow> cn_credentialId d = None) \<and>
     (\<forall>a. cn_replay d = Some a \<longrightarrow> a < m)"

definition authed :: "ws_state \<Rightarrow> string \<Rightarrow> bool" where
  "authed st c \<longleftrightarrow>
     (case map_get (ws_conns st) c of None \<Rightarrow> False | Some d \<Rightarrow> cn_credentialRecord d \<noteq> None)"

lemma authed_iff:
  "authed st c \<longleftrightarrow> (\<exists>d. map_get (ws_conns st) c = Some d \<and> cn_credentialRecord d \<noteq> None)"
  by (simp add: authed_def split: option.split)

fun task_ok :: "ws_state \<Rightarrow> ws_task \<Rightarrow> bool" where
  "task_ok st (T_auth_finish c _ _ _) = authed st c"
| "task_ok st (T_request c _ _) = authed st c"
| "task_ok st (T_handle c _ _) = authed st c"
| "task_ok st (T_refresh c _ _ _) = authed st c"
| "task_ok st (T_beat c _) = authed st c"
| "task_ok st _ = True"

fun timer_ok :: "ws_state \<Rightarrow> timer \<Rightarrow> bool" where
  "timer_ok st (Tm_auth c) = True"
| "timer_ok st (Tm_beat c _) = authed st c"
| "timer_ok st (Tm_request c _ _) = authed st c"

definition is_auth_error :: "out_frame \<Rightarrow> bool" where
  "is_auth_error f = (case f of Of_auth_error _ _ \<Rightarrow> True | _ \<Rightarrow> False)"

definition history_of :: "nat \<Rightarrow> credential_replay_state \<Rightarrow> bool" where
  "history_of n cs \<longleftrightarrow> (\<exists>evs. cs = sequence_all (new_replay_state n) evs)"

definition ws_inv :: "nat \<Rightarrow> ws_state \<Rightarrow> bool" where
  "ws_inv n st \<longleftrightarrow>
     (\<forall>c d. map_get (ws_conns st) c = Some d \<longrightarrow> conn_good (length (ws_heap st)) d) \<and>
     (\<forall>c \<in> set (ws_registry st). authed st c) \<and>
     (\<forall>t \<in> set (ws_tasks st). task_ok st t) \<and>
     (\<forall>i t. map_get (ws_timers st) i = Some t \<longrightarrow> timer_ok st t) \<and>
     (\<forall>p \<in> set (ws_out st). is_auth_error (snd p) \<or> authed st (fst p)) \<and>
     (\<forall>cs \<in> set (ws_heap st). history_of n cs) \<and>
     (\<forall>k a. map_get (ws_credentialStates st) k = Some a \<longrightarrow> a < length (ws_heap st))"

text \<open>How connections evolve: none disappears, phases move forward, authentication stays.\<close>

definition onward :: "ws_state \<Rightarrow> ws_state \<Rightarrow> bool" where
  "onward st st' \<longleftrightarrow>
     (\<forall>c d. map_get (ws_conns st) c = Some d \<longrightarrow>
        (\<exists>d'. map_get (ws_conns st') c = Some d' \<and> phase_rank (cn_phase d) \<le> phase_rank (cn_phase d') \<and>
              (cn_credentialRecord d \<noteq> None \<longrightarrow> cn_credentialRecord d' \<noteq> None)))"

lemma onward_refl [simp]: "onward st st"
  by (simp add: onward_def)

lemma onward_trans: "onward a b \<Longrightarrow> onward b c \<Longrightarrow> onward a c"
  unfolding onward_def by (meson order_trans)

lemma onward_authed: "onward st st' \<Longrightarrow> authed st c \<Longrightarrow> authed st' c"
  unfolding onward_def authed_iff by blast

lemma onward_task: "onward st st' \<Longrightarrow> task_ok st t \<Longrightarrow> task_ok st' t"
  by (cases t) (simp_all add: onward_authed)

lemma onward_timer: "onward st st' \<Longrightarrow> timer_ok st t \<Longrightarrow> timer_ok st' t"
  by (cases t) (simp_all add: onward_authed)

definition good :: "nat \<Rightarrow> ws_state \<Rightarrow> ws_state \<Rightarrow> bool" where
  "good n st st' \<longleftrightarrow> ws_inv n st' \<and> onward st st'"

lemma good_refl: "ws_inv n st \<Longrightarrow> good n st st"
  by (simp add: good_def)

lemma good_trans: "good n a b \<Longrightarrow> good n b c \<Longrightarrow> good n a c"
  unfolding good_def using onward_trans by blast

lemma good_inv: "good n st st' \<Longrightarrow> ws_inv n st'"
  by (simp add: good_def)

lemma good_authed: "good n st st' \<Longrightarrow> authed st c \<Longrightarrow> authed st' c"
  unfolding good_def using onward_authed by blast

lemma good_fold:
  assumes "\<And>s x. ws_inv n s \<Longrightarrow> x \<in> set xs \<Longrightarrow> onward st s \<Longrightarrow> good n s (f s x)" and "ws_inv n st"
  shows "good n st (foldl f st xs)"
proof -
  have "good n st s \<Longrightarrow> set ys \<subseteq> set xs \<Longrightarrow> good n st (foldl f s ys)" for s ys
  proof (induction ys arbitrary: s)
    case (Cons y ys)
    have "good n s (f s y)" using Cons.prems assms(1) by (auto simp: good_def)
    then show ?case using Cons by (auto intro: good_trans)
  qed simp
  then show ?thesis using good_refl [OF assms(2)] by simp
qed

subsection \<open>The elementary changes\<close>

lemma upd_conn_get [simp]:
  "map_get (ws_conns (upd_conn st c f)) j =
     (if j = c then map_option f (map_get (ws_conns st) j) else map_get (ws_conns st) j)"
  by (simp add: upd_conn_def split: option.split)

lemma upd_conn_other [simp]:
  "ws_registry (upd_conn st c f) = ws_registry st" "ws_heap (upd_conn st c f) = ws_heap st"
  "ws_tasks (upd_conn st c f) = ws_tasks st" "ws_timers (upd_conn st c f) = ws_timers st"
  "ws_out (upd_conn st c f) = ws_out st" "ws_credentialStates (upd_conn st c f) = ws_credentialStates st"
  "ws_pending (upd_conn st c f) = ws_pending st" "ws_invalidationGen (upd_conn st c f) = ws_invalidationGen st"
  by (simp_all add: upd_conn_def split: option.split)

lemma authed_cong: "ws_conns st' = ws_conns st \<Longrightarrow> authed st' c = authed st c"
  by (simp add: authed_def)

lemma onward_cong: "ws_conns st' = ws_conns st \<Longrightarrow> onward st st'"
  by (simp add: onward_def)

text \<open>An update of a connection that keeps it good and does not take its credential away.\<close>

lemma good_upd:
  assumes inv: "ws_inv n st"
    and f: "\<And>d. map_get (ws_conns st) c = Some d \<Longrightarrow> conn_good (length (ws_heap st)) d \<Longrightarrow>
        conn_good (length (ws_heap st)) (f d) \<and> phase_rank (cn_phase d) \<le> phase_rank (cn_phase (f d)) \<and>
        (cn_credentialRecord d \<noteq> None \<longrightarrow> cn_credentialRecord (f d) \<noteq> None)"
  shows "good n st (upd_conn st c f)"
proof -
  have on: "onward st (upd_conn st c f)"
    using inv f by (auto simp: onward_def ws_inv_def)
  show ?thesis
    using inv f onward_authed [OF on] onward_task [OF on] onward_timer [OF on] on
    by (auto simp: good_def ws_inv_def)
qed

text \<open>A change that leaves the connections alone and adds only what the invariant allows.\<close>

lemma good_same_conns:
  assumes inv: "ws_inv n st" and conns: "ws_conns st' = ws_conns st" and heap: "ws_heap st' = ws_heap st"
    and states: "ws_credentialStates st' = ws_credentialStates st"
    and reg: "\<And>c. c \<in> set (ws_registry st') \<Longrightarrow> c \<in> set (ws_registry st) \<or> authed st c"
    and tasks: "\<And>t. t \<in> set (ws_tasks st') \<Longrightarrow> t \<in> set (ws_tasks st) \<or> task_ok st t"
    and timers: "\<And>i t. map_get (ws_timers st') i = Some t \<Longrightarrow> map_get (ws_timers st) i = Some t \<or> timer_ok st t"
    and out: "\<And>p. p \<in> set (ws_out st') \<Longrightarrow> p \<in> set (ws_out st) \<or> is_auth_error (snd p) \<or> authed st (fst p)"
  shows "good n st st'"
proof -
  note on = onward_cong [OF conns]
  have "\<forall>c \<in> set (ws_registry st'). authed st' c"
    using reg inv onward_authed [OF on] unfolding ws_inv_def by blast
  moreover have "\<forall>t \<in> set (ws_tasks st'). task_ok st' t"
    using tasks inv onward_task [OF on] unfolding ws_inv_def by blast
  moreover have "\<forall>i t. map_get (ws_timers st') i = Some t \<longrightarrow> timer_ok st' t"
    using timers inv onward_timer [OF on] unfolding ws_inv_def by blast
  moreover have "\<forall>p \<in> set (ws_out st'). is_auth_error (snd p) \<or> authed st' (fst p)"
    using out inv onward_authed [OF on] unfolding ws_inv_def by blast
  ultimately show ?thesis
    using inv on by (simp add: good_def ws_inv_def conns heap states)
qed

lemma good_close: "ws_inv n st \<Longrightarrow> good n st (ws_close st c code)"
  by (rule good_same_conns) (auto simp: ws_close_def)

lemma good_clear_timer: "ws_inv n st \<Longrightarrow> good n st (clear_timer st t)"
  by (rule good_same_conns) (auto simp: clear_timer_def split: if_splits)

lemma good_set_timer: "ws_inv n st \<Longrightarrow> timer_ok st t \<Longrightarrow> good n st (snd (set_timer st t))"
  by (rule good_same_conns) (auto simp: set_timer_def split: if_splits)

lemma good_add_task: "ws_inv n st \<Longrightarrow> task_ok st t \<Longrightarrow> good n st (add_task st t)"
  by (rule good_same_conns) (auto simp: add_task_def)

lemma good_send:
  assumes inv: "ws_inv n st" and ok: "is_auth_error x \<or> authed st c"
  shows "good n st (sendJson deps st c x)"
proof -
  let ?st = "st\<lparr>ws_out := ws_out st @ [(c, x)]\<rparr>"
  have 1: "good n st ?st" by (rule good_same_conns [OF inv]) (use ok in auto)
  then have "good n ?st (upd_conn ?st c (\<lambda>d. d\<lparr>cn_backpressure := bp_increment (cn_backpressure d)\<rparr>))"
    by (intro good_upd good_inv) (auto simp: conn_good_def)
  then show ?thesis using 1 good_trans by (auto simp: sendJson_def Let_def)
qed

lemma sendJson_other [simp]:
  "ws_heap (sendJson deps st c x) = ws_heap st" "ws_registry (sendJson deps st c x) = ws_registry st"
  "ws_tasks (sendJson deps st c x) = ws_tasks st" "ws_pending (sendJson deps st c x) = ws_pending st"
  "ws_invalidationGen (sendJson deps st c x) = ws_invalidationGen st"
  by (simp_all add: sendJson_def Let_def)

lemma history_of_new: "history_of n (new_replay_state n)"
  unfolding history_of_def by (rule exI [of _ "[]"]) (simp add: sequence_all_def)

lemma history_of_sequence: "history_of n cs \<Longrightarrow> history_of n (snd (sequenceEvent cs ev))"
proof -
  assume "history_of n cs"
  then obtain evs where "cs = sequence_all (new_replay_state n) evs" unfolding history_of_def by blast
  then have "snd (sequenceEvent cs ev) = sequence_all (new_replay_state n) (evs @ [ev])"
    by (simp add: sequence_all_def)
  then show ?thesis unfolding history_of_def by blast
qed

lemma good_sequence:
  assumes inv: "ws_inv n st" and a: "a < length (ws_heap st)" and h: "history_of n cs"
  shows "good n st (st\<lparr>ws_heap := (ws_heap st)[a := cs]\<rparr>)"
proof -
  have on: "onward st (st\<lparr>ws_heap := (ws_heap st)[a := cs]\<rparr>)" by (rule onward_cong) simp
  have "set ((ws_heap st)[a := cs]) \<subseteq> insert cs (set (ws_heap st))" by (rule set_update_subset_insert)
  then show ?thesis
    using inv h onward_authed [OF on] onward_task [OF on] onward_timer [OF on] on
    by (auto simp: good_def ws_inv_def)
qed

lemma authed_replay:
  assumes "ws_inv n st" and "map_get (ws_conns st) c = Some d" and "cn_replay d = Some a"
  shows "authed st c \<and> a < length (ws_heap st) \<and> history_of n (ws_heap st ! a)"
  using assms unfolding ws_inv_def conn_good_def authed_iff by (metis nth_mem option.distinct(1))

lemma good_sendSequenced:
  assumes inv: "ws_inv n st"
  shows "good n st (sendSequenced deps st c ev)"
proof (cases "\<exists>d a. map_get (ws_conns st) c = Some d \<and> cn_replay d = Some a")
  case False
  then show ?thesis using good_refl [OF inv] by (auto simp: sendSequenced_def split: option.split)
next
  case True
  then obtain d a where d: "map_get (ws_conns st) c = Some d" "cn_replay d = Some a" by blast
  note ar = authed_replay [OF inv d]
  define st1 where "st1 = sendJson deps (st\<lparr>ws_heap := (ws_heap st)[a := snd (sequenceEvent (ws_heap st ! a) ev)]\<rparr>) c
      (Of_sequenced (fst (sequenceEvent (ws_heap st ! a) ev)))"
  define st2 where "st2 = upd_conn st1 c (\<lambda>d. d\<lparr>cn_backpressure := bp_markNotified (cn_backpressure d)\<rparr>)"
  define st3 where "st3 = sendJson deps st2 c
      (Of_backpressure (bp_depth (conn_bp st2 c)) (wc_sendBufferHardLimit (wd_config deps)))"
  have 0: "good n st (st\<lparr>ws_heap := (ws_heap st)[a := snd (sequenceEvent (ws_heap st ! a) ev)]\<rparr>)"
    using good_sequence [OF inv] ar history_of_sequence by simp
  have 1: "good n st st1"
    unfolding st1_def by (rule good_trans [OF 0 good_send]) (use 0 ar in \<open>auto dest: good_inv good_authed\<close>)
  have 2: "good n st st2"
    unfolding st2_def by (rule good_trans [OF 1 good_upd [OF good_inv [OF 1]]]) (auto simp: conn_good_def)
  have 3: "good n st st3"
    unfolding st3_def by (rule good_trans [OF 2 good_send [OF good_inv [OF 2]]]) (use 2 ar good_authed in blast)
  have "sendSequenced deps st c ev =
     (if bp_state (conn_bp st1 c) = BP_exceeded then ws_close st1 c BACKPRESSURE
      else if bp_state (conn_bp st1 c) = BP_warning \<and> \<not> bp_notified (conn_bp st1 c)
      then if bp_state (conn_bp st3 c) = BP_exceeded then ws_close st3 c BACKPRESSURE else st3
      else st1)"
    by (simp add: sendSequenced_def d st1_def st2_def st3_def case_prod_unfold Let_def)
  then show ?thesis
    using 1 3 good_close good_inv good_trans by (metis (no_types, lifting))
qed

lemma good_stopHeartbeat: "ws_inv n st \<Longrightarrow> good n st (stopHeartbeat st c)"
  unfolding stopHeartbeat_def
  by (auto split: option.split simp: good_refl conn_good_def
      intro!: good_trans [OF good_clear_timer good_upd] good_inv [OF good_clear_timer])

lemma good_startHeartbeat: "ws_inv n st \<Longrightarrow> good n st (startHeartbeat st c)"
  unfolding startHeartbeat_def
  by (auto split: option.split simp: good_refl conn_good_def case_prod_unfold Let_def authed_iff
      intro!: good_trans [OF good_set_timer good_upd] good_inv [OF good_set_timer])

lemma good_set_record:
  assumes "ws_inv n st" and "authed st c"
  shows "good n st (upd_conn st c (\<lambda>d. d\<lparr>cn_credentialRecord := Some r\<rparr>))"
  by (rule good_upd [OF assms(1)]) (use assms(2) in \<open>auto simp: conn_good_def authed_iff\<close>)

lemma good_close_stop: "ws_inv n st \<Longrightarrow> good n st (stopHeartbeat (ws_close st c code) c)"
  by (rule good_trans [OF good_close good_stopHeartbeat]) (auto intro: good_inv [OF good_close])

subsection \<open>The operations\<close>

lemma good_heartbeat_tick: "ws_inv n st \<Longrightarrow> authed st c \<Longrightarrow> good n st (heartbeat_tick deps st c k)"
  by (auto simp: heartbeat_tick_def good_refl split: option.split intro!: good_close good_add_task)

lemma good_heartbeat_looked_up:
  assumes inv: "ws_inv n st" and "authed st c"
  shows "good n st (heartbeat_looked_up deps st c k r)"
proof (cases r)
  case (Err e)
  then show ?thesis using good_close_stop [OF inv] by (simp add: heartbeat_looked_up_def)
next
  case (Ok fresh)
  note rec = good_set_record [OF assms, of fresh]
  show ?thesis
    using good_trans [OF rec good_close_stop [OF good_inv [OF rec]]]
      good_trans [OF rec good_sendSequenced [OF good_inv [OF rec]]]
    by (simp add: Ok heartbeat_looked_up_def Let_def)
qed

lemma good_auth_frame: "ws_inv n st \<Longrightarrow> good n st (auth_frame_received deps st c parsed)"
proof (cases "map_get (ws_conns st) c")
  case None
  then show "ws_inv n st \<Longrightarrow> ?thesis" by (simp add: auth_frame_received_def good_refl)
next
  case (Some d)
  assume inv: "ws_inv n st"
  define st1 where "st1 = (case cn_authTimer d of None \<Rightarrow> st
      | Some t \<Rightarrow> upd_conn (clear_timer st t) c (\<lambda>d. d\<lparr>cn_authTimer := None\<rparr>))"
  have 1: "good n st st1"
    using inv unfolding st1_def
    by (auto split: option.split simp: good_refl conn_good_def
        intro!: good_trans [OF good_clear_timer good_upd] good_inv [OF good_clear_timer])
  have 2: "good n st1 (ws_close (sendJson deps st1 c (Of_auth_error k m)) c code)" for k m code
    by (rule good_trans [OF good_send good_close])
      (use good_inv [OF 1] in \<open>auto simp: is_auth_error_def intro!: good_inv [OF good_send]\<close>)
  show ?thesis
    using good_trans [OF 1 2] good_trans [OF 1 good_add_task [OF good_inv [OF 1]]] good_refl [OF inv]
    by (auto simp: auth_frame_received_def Some st1_def [symmetric] Let_def split: option.split)
qed

lemma good_new_history:
  assumes inv: "ws_inv n st" and n: "n = wc_replayBufferSize (wd_config deps)"
  shows "good n st (snd (getOrCreateCredentialState deps st k)) \<and>
         fst (getOrCreateCredentialState deps st k) < length (ws_heap (snd (getOrCreateCredentialState deps st k))) \<and>
         ws_conns (snd (getOrCreateCredentialState deps st k)) = ws_conns st"
proof (cases "map_get (ws_credentialStates st) k")
  case None
  let ?st = "snd (getOrCreateCredentialState deps st k)"
  have on: "onward st ?st" by (rule onward_cong) (simp add: getOrCreateCredentialState_def None)
  have "conn_good (length (ws_heap st)) d \<Longrightarrow> conn_good (Suc (length (ws_heap st))) d" for d
    by (auto simp: conn_good_def)
  then have "ws_inv n ?st"
    using inv onward_authed [OF on] onward_task [OF on] onward_timer [OF on] history_of_new [of n]
    by (auto simp: ws_inv_def getOrCreateCredentialState_def None n less_Suc_eq)
  then show ?thesis
    using on by (simp add: good_def getOrCreateCredentialState_def None)
next
  case (Some a)
  then show ?thesis
    using inv good_refl [OF inv] by (simp add: getOrCreateCredentialState_def ws_inv_def)
qed

text \<open>A connection that authenticates gets its credential and its replay state together.\<close>

definition authenticate_conn :: "runtime_credential \<Rightarrow> nat \<Rightarrow> connection_data \<Rightarrow> connection_data" where
  "authenticate_conn credential a d =
     (snd (transition (d\<lparr>cn_credentialRecord := Some credential,
         cn_credentialId := Some (rc_credentialId credential),
         cn_operatorId := Some (rc_operatorId credential)\<rparr>) Ph_active))\<lparr>cn_replay := Some a\<rparr>"

lemma authenticate_conn_good: "a < m \<Longrightarrow> conn_good m d \<Longrightarrow> conn_good m (authenticate_conn r a d)"
  by (cases "cn_phase d") (auto simp: authenticate_conn_def conn_good_def transition_def canTransition_def)

lemma authenticate_conn_rank: "phase_rank (cn_phase d) \<le> phase_rank (cn_phase (authenticate_conn r a d))"
  by (cases "cn_phase d") (simp_all add: authenticate_conn_def transition_def canTransition_def)

lemma authenticate_conn_record [simp]: "cn_credentialRecord (authenticate_conn r a d) = Some r"
  by (simp add: authenticate_conn_def transition_def)

lemma map_set_twice: "map_set (map_set m k v) k w = map_set m k w"
  by (induction m) (auto simp: map_set_def)

lemma auth_conns:
  "upd_conn (snd (getOrCreateCredentialState deps (upd_conn st c f) k)) c g =
     upd_conn (snd (getOrCreateCredentialState deps st k)) c (\<lambda>d. g (f d))"
  "fst (getOrCreateCredentialState deps (upd_conn st c f) k) = fst (getOrCreateCredentialState deps st k)"
  "ws_registry (snd (getOrCreateCredentialState deps (upd_conn st c f) k)) =
     ws_registry (snd (getOrCreateCredentialState deps st k))"
  "ws_heap (snd (getOrCreateCredentialState deps (upd_conn st c f) k)) =
     ws_heap (snd (getOrCreateCredentialState deps st k))"
  by (auto simp: upd_conn_def getOrCreateCredentialState_def map_set_twice split: option.split)

lemma auth_looked_up_Ok:
  assumes "handleAuth r = Ok credential"
    and "a = fst (getOrCreateCredentialState deps st (rc_credentialId credential))"
    and "st1 = snd (getOrCreateCredentialState deps st (rc_credentialId credential))"
  shows "auth_looked_up deps st c frame r =
     (let st2 = upd_conn st1 c (authenticate_conn credential a)
      in add_task (st2\<lparr>ws_registry := set_add (ws_registry st2) c\<rparr>)
           (T_auth_finish c frame credential (resume_plan_for (ws_heap st1 ! a) (af_lastSeenSeq frame))))"
  using assms(1) unfolding assms(2,3)
  by (simp add: auth_looked_up_def case_prod_unfold Let_def auth_conns authenticate_conn_def [abs_def])

lemma good_auth_looked_up:
  assumes inv: "ws_inv n st" and n: "n = wc_replayBufferSize (wd_config deps)"
    and c: "map_get (ws_conns st) c \<noteq> None"
  shows "good n st (auth_looked_up deps st c frame r)"
proof (cases "handleAuth r")
  case (Err e)
  then show ?thesis
    using inv by (auto simp: auth_looked_up_def is_auth_error_def
        intro!: good_trans [OF good_send good_close] good_inv [OF good_send])
next
  case (Ok credential)
  let ?a = "fst (getOrCreateCredentialState deps st (rc_credentialId credential))"
  let ?st1 = "snd (getOrCreateCredentialState deps st (rc_credentialId credential))"
  let ?st2 = "upd_conn ?st1 c (authenticate_conn credential ?a)"
  note new = good_new_history [OF inv n, of "rc_credentialId credential"]
  have 1: "good n st ?st1" using new by simp
  have 2: "good n ?st1 ?st2"
    by (rule good_upd [OF good_inv [OF 1]]) (use new in \<open>simp add: authenticate_conn_good authenticate_conn_rank\<close>)
  have au: "authed ?st2 c"
    using c new by (auto simp: authed_iff)
  let ?st3 = "?st2\<lparr>ws_registry := set_add (ws_registry ?st2) c\<rparr>"
  have 3: "good n ?st2 ?st3"
    by (rule good_same_conns [OF good_inv [OF 2]]) (use au in auto)
  have 4: "good n ?st3 (add_task ?st3 (T_auth_finish c frame credential plan))" for plan
    by (rule good_add_task [OF good_inv [OF 3]]) (use au good_authed [OF 3] in simp)
  show ?thesis
    using good_trans [OF good_trans [OF good_trans [OF 1 2] 3] 4]
    by (simp add: auth_looked_up_Ok [OF Ok refl refl] Let_def)
qed

text \<open>Chaining steps: the second starts where the first left a good state.\<close>

lemma good_then:
  assumes "good n st st1" and "ws_inv n st1 \<Longrightarrow> onward st st1 \<Longrightarrow> good n st1 st2"
  shows "good n st st2"
  using assms good_trans unfolding good_def by blast

lemma good_sends:
  assumes "ws_inv n st" and "authed st c"
  shows "good n st (foldl (\<lambda>s f. sendJson deps s c (g f)) st xs)"
  by (rule good_fold [OF _ assms(1)]) (use assms(2) good_send onward_authed in blast)

lemma good_auth_fingerprinted:
  assumes inv: "ws_inv n st" and au: "authed st c"
  shows "good n st (auth_fingerprinted deps st c frame credential plan)"
proof -
  define st1 where "st1 = sendJson deps st c (Of_authenticated
                  \<lparr>atf_connectionId = c, atf_credentialId = rc_credentialId credential,
                   atf_operatorId = rc_operatorId credential,
                   atf_fingerprint = fingerprintToken (wd_sha256 deps) (af_token frame),
                   atf_issuedAt = cr_issuedAt (rc_record credential),
                   atf_expiresAt = cr_expiresAt (rc_record credential),
                   atf_effectiveScopes = rc_effectiveScopes credential,
                   atf_resumedFromSeq = rs_resumedFromSeq plan\<rparr>)"
  have 1: "good n st st1" unfolding st1_def using good_send [OF inv] au by simp
  show ?thesis
  proof (cases "rs_needsRecovery plan")
    case True
    then have "auth_fingerprinted deps st c frame credential plan =
        startHeartbeat (sendSequenced deps st1 c (Ev_recovery_complete (ws_now st1))) c"
      by (simp add: auth_fingerprinted_def st1_def Let_def)
    then show ?thesis
      using good_then [OF good_then [OF 1 good_sendSequenced] good_startHeartbeat] by simp
  next
    case False
    then have eq: "auth_fingerprinted deps st c frame credential plan =
        startHeartbeat (foldl (\<lambda>s f. sendJson deps s c (Of_sequenced f)) st1 (rs_replayFrames plan)) c"
      by (simp add: auth_fingerprinted_def st1_def Let_def)
    have "good n st1 (foldl (\<lambda>s f. sendJson deps s c (Of_sequenced f)) st1 (rs_replayFrames plan))"
      by (rule good_sends [OF good_inv [OF 1] good_authed [OF 1 au]])
    then show ?thesis
      unfolding eq using good_then [OF good_trans [OF 1] good_startHeartbeat] by simp
  qed
qed

lemma good_request_frame: "ws_inv n st \<Longrightarrow> good n st (request_frame_received st c frame)"
  by (auto simp: request_frame_received_def authed_iff good_refl split: option.split
      intro!: good_close good_add_task)

lemma good_start_request:
  assumes inv: "ws_inv n st" and au: "authed st c"
  shows "good n st (start_request deps st c req credential)"
proof -
  let ?t = "Tm_request c (requestId_of req) (request_type req)"
  let ?st1 = "snd (set_timer st ?t)"
  let ?st2 = "upd_conn ?st1 c (\<lambda>d. d\<lparr>cn_inFlight := map_set (cn_inFlight d) (requestId_of req)
                  \<lparr>if_timer = fst (set_timer st ?t), if_sentAt = ws_now ?st1\<rparr>\<rparr>)"
  have 1: "good n st ?st1" using good_set_timer [OF inv, of ?t] au by simp
  have 2: "good n st ?st2"
    by (rule good_then [OF 1 good_upd]) (auto simp: conn_good_def)
  have "good n st (add_task ?st2 (T_handle c req credential))"
    by (rule good_then [OF 2 good_add_task]) (use au onward_authed in auto)
  then show ?thesis by (simp add: start_request_def case_prod_unfold Let_def)
qed

lemma good_request_looked_up:
  assumes inv: "ws_inv n st" and au: "authed st c"
  shows "good n st (request_looked_up deps st c frame r)"
proof (cases r)
  case (Err e)
  then show ?thesis using good_close_stop [OF inv] by (simp add: request_looked_up_def)
next
  case (Ok credential)
  let ?st1 = "upd_conn st c (\<lambda>d. d\<lparr>cn_credentialRecord := Some credential\<rparr>)"
  have 1: "good n st ?st1" by (rule good_set_record [OF assms])
  have au1: "authed ?st1 c" by (rule good_authed [OF 1 au])
  note good_then [OF 1 good_close_stop] good_then [OF 1 good_close] good_then [OF 1 good_start_request [OF _ au1]]
    good_then [OF 1 good_send]
  with au1 show ?thesis
    by (auto simp: Ok request_looked_up_def Let_def split: inbound.split option.split)
qed

lemma good_answer: "ws_inv n st \<Longrightarrow> authed st c \<Longrightarrow> good n st (answer_request deps st c i x)"
proof -
  assume inv: "ws_inv n st" and au: "authed st c"
  have "good n st (sendJson deps (upd_conn (clear_timer st t) c
      (\<lambda>d. d\<lparr>cn_inFlight := map_delete (cn_inFlight d) i\<rparr>)) c (Of_response x))" for t
  proof -
    have 1: "good n st (clear_timer st t)" by (rule good_clear_timer [OF inv])
    have 2: "good n st (upd_conn (clear_timer st t) c (\<lambda>d. d\<lparr>cn_inFlight := map_delete (cn_inFlight d) i\<rparr>))"
      by (rule good_then [OF 1 good_upd]) (auto simp: conn_good_def)
    show ?thesis by (rule good_then [OF 2 good_send]) (use au onward_authed in auto)
  qed
  then show ?thesis
    by (simp add: answer_request_def good_refl [OF inv] Let_def split: option.split)
qed

lemma good_request_handled: "ws_inv n st \<Longrightarrow> authed st c \<Longrightarrow> good n st (request_handled deps st c req credential h)"
  by (auto simp: request_handled_def Let_def intro!: good_add_task good_answer)

lemma good_request_refreshed:
  assumes "ws_inv n st" and "authed st c"
  shows "good n st (request_refreshed deps st c req resp r)"
proof (cases r)
  case (Ok fresh)
  note 1 = good_set_record [OF assms, of fresh]
  show ?thesis
    using good_then [OF 1 good_answer] good_authed [OF 1 assms(2)]
    by (simp add: Ok request_refreshed_def)
qed (use assms good_answer in \<open>simp add: request_refreshed_def\<close>)

lemma good_timed_out: "ws_inv n st \<Longrightarrow> authed st c \<Longrightarrow> good n st (request_timed_out deps st c i ty)"
  unfolding request_timed_out_def
  by (rule good_then [OF good_upd good_send]) (auto simp: conn_good_def onward_authed)

lemma good_broadcast_to: "ws_inv n st \<Longrightarrow> good n st (broadcast_to deps ev st c)"
  by (auto simp: broadcast_to_def good_refl split: option.split intro!: good_sendSequenced)

lemma good_pending: "ws_inv n st \<Longrightarrow> good n st (st\<lparr>ws_pending := m\<rparr>)"
  by (rule good_same_conns) auto

lemma good_broadcast: "ws_inv n st \<Longrightarrow> good n st (broadcastToCredential deps st k ev)"
  unfolding broadcastToCredential_def
  by (auto split: option.split intro!: good_pending good_fold good_broadcast_to)

lemma good_invalidate: "ws_inv n st \<Longrightarrow> good n st (invalidateCredential st k)"
  unfolding invalidateCredential_def Let_def
  by (rule good_same_conns) (auto simp: add_task_def)

lemma good_invalidate_conn: "ws_inv n st \<Longrightarrow> good n st (invalidate_conn r st c)"
proof (cases "map_get (ws_conns st) c")
  case (Some d)
  assume inv: "ws_inv n st"
  show ?thesis
  proof (cases "cn_phase d = Ph_active")
    case True
    then have au: "authed st c"
      using Some inv by (auto simp: ws_inv_def conn_good_def authed_iff)
    note 1 = good_set_record [OF inv au]
    show ?thesis
      using good_close_stop [OF inv] 1 good_then [OF 1 good_close_stop]
      by (simp add: invalidate_conn_def Some True Let_def split: result.split)
  qed (simp add: invalidate_conn_def Some good_refl inv)
qed (simp add: invalidate_conn_def good_refl)

lemma good_finish_invalidation: "ws_inv n st \<Longrightarrow> good n st (finish_invalidation deps st k)"
proof (cases "map_get (ws_pending st) k")
  case (Some entry)
  assume inv: "ws_inv n st"
  have "good n st (foldl (\<lambda>s e. broadcastToCredential deps s k e) (st\<lparr>ws_pending := m\<rparr>) evs)" for m evs
    by (rule good_then [OF good_pending [OF inv] good_fold [OF good_broadcast]])
  then show ?thesis
    using good_pending [OF inv] by (simp add: finish_invalidation_def Some Let_def)
qed (simp add: finish_invalidation_def good_refl)

lemma good_invalidated: "ws_inv n st \<Longrightarrow> good n st (invalidation_looked_up deps st k g r)"
proof -
  assume inv: "ws_inv n st"
  have conns: "good n st (foldl (invalidate_conn x) st cs)" for x cs
    by (rule good_fold [OF good_invalidate_conn inv])
  have "good n st (case r of None \<Rightarrow> st | Some r \<Rightarrow>
      (case map_get (ws_pending st) k of None \<Rightarrow> st | Some entry \<Rightarrow>
         if pi_generation entry \<noteq> g then st else foldl (invalidate_conn r) st (connections_of st k)))"
    using good_refl [OF inv] conns by (simp split: option.split)
  from good_then [OF this good_finish_invalidation] show ?thesis
    by (simp add: invalidation_looked_up_def)
qed

lemma closing_good:
  "conn_good m d \<Longrightarrow> conn_good m (snd (transition
     (d\<lparr>cn_authTimer := None, cn_heartbeatTimer := None, cn_inFlight := []\<rparr>) Ph_closed))"
  "phase_rank (cn_phase d) \<le> 3"
  "cn_credentialRecord (snd (transition d q)) = cn_credentialRecord d"
  by (cases "cn_phase d"; auto simp: conn_good_def transition_def canTransition_def)+

lemma good_cleanup: "ws_inv n st \<Longrightarrow> good n st (cleanupConnection st c)"
proof (cases "map_get (ws_conns st) c")
  case (Some d)
  assume inv: "ws_inv n st"
  have t: "ws_inv n s \<Longrightarrow> good n s (case x of None \<Rightarrow> s | Some t \<Rightarrow> clear_timer s t)" for s x
    using good_refl good_clear_timer by (simp split: option.split)
  have 1: "good n st (clear_conn_timers st d)"
    unfolding clear_conn_timers_def Let_def
    by (rule good_then [OF good_then [OF t [OF inv] t] good_fold [OF good_clear_timer]])
  have 2: "good n st ((clear_conn_timers st d)\<lparr>ws_registry :=
      filter (\<lambda>x. x \<noteq> c) (ws_registry (clear_conn_timers st d))\<rparr>)"
    by (rule good_then [OF 1 good_same_conns]) auto
  have "good n st (upd_conn ((clear_conn_timers st d)\<lparr>ws_registry :=
      filter (\<lambda>x. x \<noteq> c) (ws_registry (clear_conn_timers st d))\<rparr>) c
      (\<lambda>d. snd (transition (d\<lparr>cn_authTimer := None, cn_heartbeatTimer := None, cn_inFlight := []\<rparr>) Ph_closed)))"
    by (rule good_then [OF 2 good_upd]) (simp_all add: closing_good)
  then show ?thesis by (simp add: cleanupConnection_def Some Let_def)
qed (simp add: cleanupConnection_def good_refl)

lemma good_open:
  assumes inv: "ws_inv n st" and fresh: "map_get (ws_conns st) c = None"
  shows "good n st (socket_open deps st c)"
proof -
  let ?d = "createConnectionState (wc_sendBufferSoftLimit (wd_config deps))
      (wc_sendBufferHardLimit (wd_config deps)) (ws_now st)"
  let ?st1 = "st\<lparr>ws_conns := map_set (ws_conns st) c ?d\<rparr>"
  have on: "onward st ?st1" using fresh by (auto simp: onward_def)
  have "conn_good m ?d" for m by (simp add: conn_good_def createConnectionState_def)
  then have 1: "good n st ?st1"
    using inv onward_authed [OF on] onward_task [OF on] onward_timer [OF on] on
    by (auto simp: good_def ws_inv_def)
  let ?st2 = "snd (set_timer ?st1 (Tm_auth c))"
  have 2: "good n st ?st2" by (rule good_then [OF 1 good_set_timer]) simp_all
  have "good n st (upd_conn ?st2 c (\<lambda>d. d\<lparr>cn_authTimer := Some t\<rparr>))" for t
    by (rule good_then [OF 2 good_upd]) (auto simp: conn_good_def)
  then show ?thesis
    using good_then [OF 1 good_close] by (auto simp: socket_open_def case_prod_unfold Let_def)
qed

lemma good_auth_timed_out: "ws_inv n st \<Longrightarrow> good n st (auth_timed_out deps st c)"
  by (auto simp: auth_timed_out_def good_refl is_auth_error_def split: option.split
      intro!: good_then [OF good_send good_close])

lemma rate_limit_keeps:
  "conn_good m (snd (rate_limit cfg now (d\<lparr>cn_lastClientActivity := now\<rparr>))) = conn_good m d"
  "cn_phase (snd (rate_limit cfg now (d\<lparr>cn_lastClientActivity := now\<rparr>))) = cn_phase d"
  "cn_credentialRecord (snd (rate_limit cfg now (d\<lparr>cn_lastClientActivity := now\<rparr>))) = cn_credentialRecord d"
  by (simp_all add: rate_limit_def conn_good_def Let_def split: option.split)

lemma good_message: "ws_inv n st \<Longrightarrow> good n st (socket_message deps st c m)"
proof (cases "map_get (ws_conns st) c")
  case (Some d)
  assume inv: "ws_inv n st"
  let ?r = "rate_limit (wd_config deps) (ws_now st) (d\<lparr>cn_lastClientActivity := ws_now st\<rparr>)"
  have 1: "good n st (upd_conn st c (\<lambda>_. snd ?r))"
    by (rule good_upd [OF inv]) (use Some in \<open>auto simp: rate_limit_keeps\<close>)
  show ?thesis
    using 1 good_then [OF 1 good_close] good_then [OF 1 good_auth_frame] good_then [OF 1 good_request_frame]
      good_refl [OF inv]
    by (auto simp: socket_message_def Some case_prod_unfold Let_def split: inbound.split)
qed (simp add: socket_message_def good_refl)

lemma good_drain: "ws_inv n st \<Longrightarrow> good n st (socket_drain st c)"
  unfolding socket_drain_def by (rule good_upd) (auto simp: conn_good_def)

lemma draining_good:
  "conn_good m d \<Longrightarrow> conn_good m (snd (transition d Ph_draining))"
  by (cases "cn_phase d") (auto simp: conn_good_def transition_def canTransition_def)

lemma good_stop_conn: "ws_inv n st \<Longrightarrow> good n st (stop_conn deps st c)"
  by (auto simp: stop_conn_def good_refl draining_good closing_good(3) transition_rank split: option.split
      intro!: good_then [OF good_sendSequenced good_upd])

lemma good_server_state: "ws_inv n st \<Longrightarrow> good n st (st\<lparr>ws_serverState := x\<rparr>)"
  by (rule good_same_conns) auto

lemma good_start: "ws_inv n st \<Longrightarrow> good n st (snd (ws_start served st))"
  by (auto simp: ws_start_def good_refl split: result.split option.split intro!: good_server_state)

lemma good_stop: "ws_inv n st \<Longrightarrow> good n st (snd (ws_stop deps st))"
  unfolding ws_stop_def
  by (auto simp: good_refl intro!: good_then [OF good_then [OF good_server_state good_fold [OF good_stop_conn]] good_add_task])

lemma good_drained: "ws_inv n st \<Longrightarrow> good n st (stop_drained st)"
  unfolding stop_drained_def
  by (rule good_then [OF good_fold [OF good_close] good_add_task]) simp_all

lemma good_flushed: "ws_inv n st \<Longrightarrow> good n st (stop_flushed st remaining)"
proof -
  assume inv: "ws_inv n st"
  have 1: "good n st (foldl cleanupConnection st remaining)"
    by (rule good_fold [OF good_cleanup inv])
  have "good n s (s\<lparr>ws_credentialStates := [], ws_serverState := Srv_stopped\<rparr>)" if "ws_inv n s" for s
  proof -
    have on: "onward s (s\<lparr>ws_credentialStates := [], ws_serverState := Srv_stopped\<rparr>)"
      by (rule onward_cong) simp
    show ?thesis
      using that onward_authed [OF on] onward_task [OF on] onward_timer [OF on] on
      by (auto simp: good_def ws_inv_def)
  qed
  from good_then [OF 1 this] show ?thesis by (simp add: stop_flushed_def)
qed

subsection \<open>Runs\<close>

definition take_task :: "ws_state \<Rightarrow> ws_task \<Rightarrow> ws_state" where
  "take_task st t = st\<lparr>ws_tasks := remove1 t (ws_tasks st)\<rparr>"

text \<open>
  One step is one event of the runtime: a socket event, a timer that goes off, a call of the
  public interface, or the completion of a call some task waits for, with any result and in any
  order. A timer that goes off once is gone; an interval stays.
\<close>

inductive ws_step :: "ws_deps \<Rightarrow> ws_state \<Rightarrow> ws_state \<Rightarrow> bool" for deps where
  ws_open: "map_get (ws_conns st) c = None \<Longrightarrow> ws_step deps st (socket_open deps st c)"
| ws_message: "ws_step deps st (socket_message deps st c m)"
| ws_drained: "ws_step deps st (socket_drain st c)"
| ws_closed: "ws_step deps st (cleanupConnection st c)"
| ws_clock: "ws_now st \<le> t \<Longrightarrow> ws_step deps st (st\<lparr>ws_now := t\<rparr>)"
| ws_auth_timer: "map_get (ws_timers st) i = Some (Tm_auth c) \<Longrightarrow>
    ws_step deps st (auth_timed_out deps (clear_timer st i) c)"
| ws_beat_timer: "map_get (ws_timers st) i = Some (Tm_beat c k) \<Longrightarrow>
    ws_step deps st (heartbeat_tick deps st c k)"
| ws_request_timer: "map_get (ws_timers st) i = Some (Tm_request c r op) \<Longrightarrow>
    ws_step deps st (request_timed_out deps (clear_timer st i) c r op)"
| ws_broadcast: "ws_step deps st (broadcastToCredential deps st k ev)"
| ws_invalidate: "ws_step deps st (invalidateCredential st k)"
| ws_started: "ws_step deps st (snd (ws_start served st))"
| ws_stopping: "ws_step deps st (snd (ws_stop deps st))"
| ws_auth: "T_auth c f \<in> set (ws_tasks st) \<Longrightarrow> map_get (ws_conns st) c \<noteq> None \<Longrightarrow>
    ws_step deps st (auth_looked_up deps (take_task st (T_auth c f)) c f r)"
| ws_auth_finish: "T_auth_finish c f cred plan \<in> set (ws_tasks st) \<Longrightarrow>
    ws_step deps st (auth_fingerprinted deps (take_task st (T_auth_finish c f cred plan)) c f cred plan)"
| ws_request: "T_request c m k \<in> set (ws_tasks st) \<Longrightarrow>
    ws_step deps st (request_looked_up deps (take_task st (T_request c m k)) c m r)"
| ws_handled: "T_handle c req cred \<in> set (ws_tasks st) \<Longrightarrow>
    ws_step deps st (request_handled deps (take_task st (T_handle c req cred)) c req cred h)"
| ws_threw: "T_handle c req cred \<in> set (ws_tasks st) \<Longrightarrow>
    ws_step deps st (request_threw deps (take_task st (T_handle c req cred)) c req)"
| ws_refreshed: "T_refresh c req cred resp \<in> set (ws_tasks st) \<Longrightarrow>
    ws_step deps st (request_refreshed deps (take_task st (T_refresh c req cred resp)) c req resp r)"
| ws_refresh_threw: "T_refresh c req cred resp \<in> set (ws_tasks st) \<Longrightarrow>
    ws_step deps st (request_threw deps (take_task st (T_refresh c req cred resp)) c req)"
| ws_beat: "T_beat c k \<in> set (ws_tasks st) \<Longrightarrow>
    ws_step deps st (heartbeat_looked_up deps (take_task st (T_beat c k)) c k r)"
| ws_invalidated: "T_invalidate k g \<in> set (ws_tasks st) \<Longrightarrow>
    ws_step deps st (invalidation_looked_up deps (take_task st (T_invalidate k g)) k g r)"
| ws_drain_over: "T_drain \<in> set (ws_tasks st) \<Longrightarrow> ws_step deps st (stop_drained (take_task st T_drain))"
| ws_flushed: "T_flush cs \<in> set (ws_tasks st) \<Longrightarrow>
    ws_step deps st (stop_flushed (take_task st (T_flush cs)) cs)"

inductive ws_reachable :: "ws_deps \<Rightarrow> ws_state \<Rightarrow> bool" for deps where
  ws_begin: "ws_reachable deps (createWsServer now)"
| ws_more: "ws_reachable deps st \<Longrightarrow> ws_step deps st st' \<Longrightarrow> ws_reachable deps st'"

lemma good_take: "ws_inv n st \<Longrightarrow> good n st (take_task st t)"
  unfolding take_task_def by (rule good_same_conns) (auto dest: subsetD [OF set_remove1_subset])

lemma take_get [simp]: "ws_conns (take_task st t) = ws_conns st" "authed (take_task st t) c = authed st c"
  by (simp_all add: take_task_def authed_def)

lemma clear_get [simp]: "ws_conns (clear_timer st t) = ws_conns st" "authed (clear_timer st t) c = authed st c"
  by (simp_all add: clear_timer_def authed_def)

lemma ws_inv_task: "ws_inv n st \<Longrightarrow> t \<in> set (ws_tasks st) \<Longrightarrow> task_ok st t"
  by (simp add: ws_inv_def)

lemma ws_inv_timer: "ws_inv n st \<Longrightarrow> map_get (ws_timers st) i = Some t \<Longrightarrow> timer_ok st t"
  by (simp add: ws_inv_def)

lemma good_threw: "ws_inv n st \<Longrightarrow> authed st c \<Longrightarrow> good n st (request_threw deps st c req)"
  by (simp add: request_threw_def good_answer)

lemma ws_step_good:
  assumes "ws_step deps st st'" and inv: "ws_inv n st" and n: "n = wc_replayBufferSize (wd_config deps)"
  shows "good n st st'"
proof -
  note tk = good_then [OF good_take [OF inv]]
  show ?thesis
    using assms(1)
  proof cases
    case (ws_clock t)
    then show ?thesis by (auto intro!: good_same_conns [OF inv])
  next
    case (ws_auth_timer i c)
    then show ?thesis using good_then [OF good_clear_timer [OF inv] good_auth_timed_out] by simp
  next
    case (ws_beat_timer i c k)
    then show ?thesis using ws_inv_timer [OF inv] good_heartbeat_tick [OF inv] by fastforce
  next
    case (ws_request_timer i c r op)
    then have "authed st c" using ws_inv_timer [OF inv] by fastforce
    then show ?thesis
      using ws_request_timer good_then [OF good_clear_timer [OF inv] good_timed_out] by simp
  next
    case (ws_auth c f r)
    then show ?thesis using tk [OF good_auth_looked_up [OF _ n]] by simp
  next
    case (ws_auth_finish c f cred plan)
    then show ?thesis using tk [OF good_auth_fingerprinted] ws_inv_task [OF inv] by fastforce
  next
    case (ws_request c m k r)
    then show ?thesis using tk [OF good_request_looked_up] ws_inv_task [OF inv] by fastforce
  next
    case (ws_handled c req cred h)
    then show ?thesis using tk [OF good_request_handled] ws_inv_task [OF inv] by fastforce
  next
    case (ws_threw c req cred)
    then show ?thesis using tk [OF good_threw] ws_inv_task [OF inv] by fastforce
  next
    case (ws_refreshed c req cred resp r)
    then show ?thesis using tk [OF good_request_refreshed] ws_inv_task [OF inv] by fastforce
  next
    case (ws_refresh_threw c req cred resp)
    then show ?thesis using tk [OF good_threw] ws_inv_task [OF inv] by fastforce
  next
    case (ws_beat c k r)
    then show ?thesis using tk [OF good_heartbeat_looked_up] ws_inv_task [OF inv] by fastforce
  next
    case (ws_invalidated k g r)
    then show ?thesis using tk [OF good_invalidated] by simp
  next
    case ws_drain_over
    then show ?thesis using tk [OF good_drained] by simp
  next
    case (ws_flushed cs)
    then show ?thesis using tk [OF good_flushed] by simp
  qed (simp_all add: good_open good_message good_drain good_cleanup good_broadcast good_invalidate
      good_start good_stop inv)
qed

lemma ws_inv_init: "ws_inv n (createWsServer now)"
  by (simp add: ws_inv_def createWsServer_def)

lemma ws_reachable_inv: "ws_reachable deps st \<Longrightarrow> ws_inv (wc_replayBufferSize (wd_config deps)) st"
  by (induction rule: ws_reachable.induct) (auto simp: ws_inv_init dest: ws_step_good [OF _ _ refl] good_inv)

subsection \<open>Properties\<close>

text \<open>C11: In every state the server can reach, whatever the order of events and results: everything
  sent to a connection that has not authenticated is an authentication error; every registered
  connection and every connection with a request, a heartbeat or a reply under way has
  authenticated; a connection being authenticated holds no credential and an active one does;
  and every replay state is the history of a run of events numbered from one.\<close>

theorem server_serves_authenticated:
  assumes "ws_reachable deps st"
  shows "ws_inv (wc_replayBufferSize (wd_config deps)) st \<and>
         list_all (\<lambda>(c, f). is_auth_error f \<or> authed st c) (ws_out st) \<and>
         list_all (authed st) (ws_registry st) \<and>
         (case map_get (ws_conns st) c of
            None \<Rightarrow> True
          | Some d \<Rightarrow>
              (case cn_phase d of
                 Ph_authenticating \<Rightarrow> cn_credentialRecord d = None \<and> cn_replay d = None
               | Ph_closed \<Rightarrow> True
               | _ \<Rightarrow> cn_credentialRecord d \<noteq> None \<and> cn_replay d \<noteq> None \<and> cn_credentialId d \<noteq> None))"
proof -
  have inv: "ws_inv (wc_replayBufferSize (wd_config deps)) st" by (rule ws_reachable_inv [OF assms])
  then have "list_all (\<lambda>(c, f). is_auth_error f \<or> authed st c) (ws_out st)" "list_all (authed st) (ws_registry st)"
    by (auto simp: ws_inv_def list_all_iff)
  moreover have "map_get (ws_conns st) c = Some d \<Longrightarrow> conn_good (length (ws_heap st)) d" for d
    using inv by (simp add: ws_inv_def)
  then have "case map_get (ws_conns st) c of None \<Rightarrow> True | Some d \<Rightarrow>
      (case cn_phase d of
         Ph_authenticating \<Rightarrow> cn_credentialRecord d = None \<and> cn_replay d = None
       | Ph_closed \<Rightarrow> True
       | _ \<Rightarrow> cn_credentialRecord d \<noteq> None \<and> cn_replay d \<noteq> None \<and> cn_credentialId d \<noteq> None)"
    by (auto simp: conn_good_def split: option.split connection_phase.split)
  ultimately show ?thesis using inv by blast
qed

text \<open>A connection's phase only moves forward, a closed connection stays closed, and its
  authentication is never undone, over every step of the server.\<close>

theorem phases_move_forward:
  assumes "ws_reachable deps st" and "ws_step deps st st'" and "map_get (ws_conns st) c = Some d"
  shows "case map_get (ws_conns st') c of
           None \<Rightarrow> False
         | Some d' \<Rightarrow>
             phase_rank (cn_phase d) \<le> phase_rank (cn_phase d') \<and>
             (if cn_phase d = Ph_closed then cn_phase d' = Ph_closed else True) \<and>
             (if cn_credentialRecord d = None then True else cn_credentialRecord d' \<noteq> None)"
proof -
  have "onward st st'"
    using ws_step_good [OF assms(2) ws_reachable_inv [OF assms(1)] refl] by (simp add: good_def)
  then obtain d' where d': "map_get (ws_conns st') c = Some d'"
      "phase_rank (cn_phase d) \<le> phase_rank (cn_phase d')"
      "cn_credentialRecord d \<noteq> None \<longrightarrow> cn_credentialRecord d' \<noteq> None"
    using assms(3) unfolding onward_def by blast
  moreover have "cn_phase d = Ph_closed \<Longrightarrow> cn_phase d' = Ph_closed"
    using d'(2) by (cases "cn_phase d'") simp_all
  ultimately show ?thesis by simp
qed

subsection \<open>A run\<close>

definition sample_ws_deps :: ws_deps where
  "sample_ws_deps =
     \<lparr>wd_config = \<lparr>wc_port = 8393, wc_host = ''127.0.0.1'',
        wc_heartbeatIntervalMs = 30000, wc_missedHeartbeatsBeforeDead = 3, wc_authTimeoutMs = 5000,
        wc_requestTimeoutMs = 30000, wc_replayBufferSize = 2, wc_sendBufferSoftLimit = 64,
        wc_sendBufferHardLimit = 256, wc_drainTimeoutMs = 5000, wc_maxFrameSizeBytes = 1048576,
        wc_rateLimitWindowMs = 1000, wc_rateLimitMaxMessages = None\<rparr>,
      wd_projectEvent = None, wd_sha256 = (\<lambda>_. [1]), wd_backedUp = (\<lambda>_ _. False)\<rparr>"

definition sample_auth :: auth_frame where
  "sample_auth = \<lparr>af_token = ''t'', af_lastSeenSeq = None\<rparr>"

definition sample_opened :: ws_state where
  "sample_opened =
     socket_message sample_ws_deps
       (socket_open sample_ws_deps (snd (ws_start (Ok (Some 1)) (createWsServer 0))) ''a'') ''a''
       (In_frame (Some sample_auth) None None)"

definition sample_active :: ws_state where
  "sample_active =
     auth_looked_up sample_ws_deps (take_task sample_opened (T_auth ''a'' sample_auth)) ''a'' sample_auth
       (Ok sample_runtime)"

lemma sample_opened_reachable: "ws_reachable sample_ws_deps sample_opened"
proof -
  have "map_get (ws_conns (snd (ws_start (Ok (Some 1)) (createWsServer 0)))) ''a'' = None"
    by (simp add: ws_start_def createWsServer_def)
  then show ?thesis
    unfolding sample_opened_def
    by (intro ws_more [OF _ ws_message] ws_more [OF _ ws_open] ws_more [OF _ ws_started] ws_begin)
qed

lemma sample_active_reachable: "ws_reachable sample_ws_deps sample_active"
proof -
  have "T_auth ''a'' sample_auth \<in> set (ws_tasks sample_opened)" "map_get (ws_conns sample_opened) ''a'' \<noteq> None"
    by code_simp+
  then show ?thesis
    unfolding sample_active_def by (intro ws_more [OF sample_opened_reachable ws_auth])
qed

theorem server_serves_authenticated_witness:
  "list_all (authed sample_active) (ws_registry sample_active) \<and> ws_registry sample_active = [''a'']"
proof
  show "list_all (authed sample_active) (ws_registry sample_active)"
    using server_serves_authenticated [OF sample_active_reachable] by blast
qed code_simp

theorem phases_move_forward_witness:
  "case map_get (ws_conns (cleanupConnection sample_active ''a'')) ''a'' of
     None \<Rightarrow> False | Some d' \<Rightarrow> 1 \<le> phase_rank (cn_phase d')"
proof -
  have "map_option cn_phase (map_get (ws_conns sample_active) ''a'') = Some Ph_active" by code_simp
  then obtain d where d: "map_get (ws_conns sample_active) ''a'' = Some d" and "cn_phase d = Ph_active"
    by auto
  with phases_move_forward [OF sample_active_reachable ws_closed d, of "''a''"]
  show ?thesis by (auto split: option.splits)
qed

end
