(* ===== verification/WsBroadcast.thy ===== *)
theory WsBroadcast
  imports WsInvariant
begin

text \<open>
  Who receives an event. A broadcast reaches exactly the active connections of its credential
  whose cached credential is active and may see the event; while the credential's cached state
  is being refreshed events wait, and the last refresh to finish sends them in order under the
  state the newest refresh installed.
\<close>

subsection \<open>What sending leaves alone\<close>

text \<open>The part of a connection that decides what it receives.\<close>

definition conn_view ::
  "ws_state \<Rightarrow> string \<Rightarrow> (connection_phase \<times> runtime_credential option \<times> string option \<times> nat option) option" where
  "conn_view st c =
     map_option (\<lambda>d. (cn_phase d, cn_credentialRecord d, cn_credentialId d, cn_replay d)) (map_get (ws_conns st) c)"

definition sequenced_out :: "(string \<times> out_frame) list \<Rightarrow> (string \<times> signet_event) list" where
  "sequenced_out out = concat (map (\<lambda>(c, f). case f of Of_sequenced fr \<Rightarrow> [(c, fr_event fr)] | _ \<Rightarrow> []) out)"

lemma sequenced_out_simps [simp]:
  "sequenced_out [] = []" "sequenced_out (xs @ ys) = sequenced_out xs @ sequenced_out ys"
  "sequenced_out [(c, Of_sequenced fr)] = [(c, fr_event fr)]"
  "sequenced_out [(c, Of_backpressure b l)] = []"
  by (simp_all add: sequenced_out_def)

text \<open>Two states that agree on all that matters here.\<close>

definition same_view :: "ws_state \<Rightarrow> ws_state \<Rightarrow> bool" where
  "same_view st st' \<longleftrightarrow>
     conn_view st' = conn_view st \<and> ws_registry st' = ws_registry st \<and> ws_pending st' = ws_pending st"

lemma same_view_refl [simp]: "same_view st st"
  by (simp add: same_view_def)

lemma same_view_trans: "same_view a b \<Longrightarrow> same_view b c \<Longrightarrow> same_view a c"
  by (simp add: same_view_def)

lemma same_view_upd:
  assumes "\<And>d. cn_phase (f d) = cn_phase d \<and> cn_credentialRecord (f d) = cn_credentialRecord d \<and>
      cn_credentialId (f d) = cn_credentialId d \<and> cn_replay (f d) = cn_replay d"
  shows "same_view st (upd_conn st c f)"
  using assms by (auto simp: same_view_def conn_view_def fun_eq_iff option.map_comp comp_def)

lemma same_view_send: "same_view st (sendJson deps st c x)"
proof -
  let ?st = "st\<lparr>ws_out := ws_out st @ [(c, x)]\<rparr>"
  have "same_view st ?st" by (simp add: same_view_def conn_view_def fun_eq_iff)
  moreover have "same_view ?st (upd_conn ?st c (\<lambda>d. d\<lparr>cn_backpressure := bp_increment (cn_backpressure d)\<rparr>))"
    by (rule same_view_upd) simp
  ultimately show ?thesis using same_view_trans by (auto simp: sendJson_def Let_def)
qed

lemma same_view_close: "same_view st (ws_close st c code)"
  by (simp add: ws_close_def same_view_def conn_view_def fun_eq_iff)

lemma same_view_stop: "same_view st (stopHeartbeat st c)"
proof -
  have "same_view st (upd_conn (clear_timer st t) c (\<lambda>d. d\<lparr>cn_heartbeatTimer := None\<rparr>))" for t
    by (rule same_view_trans [OF _ same_view_upd]) (simp_all add: clear_timer_def same_view_def conn_view_def fun_eq_iff)
  then show ?thesis by (simp add: stopHeartbeat_def split: option.split)
qed

lemma out_send: "ws_out (sendJson deps st c x) = ws_out st @ [(c, x)]"
  by (simp add: sendJson_def Let_def)

lemma out_close [simp]: "ws_out (ws_close st c code) = ws_out st"
  by (simp add: ws_close_def)

lemma out_stop [simp]: "ws_out (stopHeartbeat st c) = ws_out st"
  by (simp add: stopHeartbeat_def clear_timer_def split: option.split)

definition has_replay :: "ws_state \<Rightarrow> string \<Rightarrow> bool" where
  "has_replay st c \<longleftrightarrow> (case conn_view st c of Some (_, _, _, Some a) \<Rightarrow> True | _ \<Rightarrow> False)"

lemma sendSequenced_view:
  "same_view st (sendSequenced deps st c ev) \<and>
   sequenced_out (ws_out (sendSequenced deps st c ev)) =
     sequenced_out (ws_out st) @ (if has_replay st c then [(c, ev)] else [])"
proof (cases "\<exists>d a. map_get (ws_conns st) c = Some d \<and> cn_replay d = Some a")
  case False
  then show ?thesis
    by (auto simp: sendSequenced_def has_replay_def conn_view_def split: option.split)
next
  case True
  then obtain d a where d: "map_get (ws_conns st) c = Some d" "cn_replay d = Some a" by blast
  define st0 where "st0 = st\<lparr>ws_heap := (ws_heap st)[a := snd (sequenceEvent (ws_heap st ! a) ev)]\<rparr>"
  define st1 where "st1 = sendJson deps st0 c (Of_sequenced (fst (sequenceEvent (ws_heap st ! a) ev)))"
  define st2 where "st2 = upd_conn st1 c (\<lambda>d. d\<lparr>cn_backpressure := bp_markNotified (cn_backpressure d)\<rparr>)"
  define st3 where "st3 = sendJson deps st2 c
      (Of_backpressure (bp_depth (conn_bp st2 c)) (wc_sendBufferHardLimit (wd_config deps)))"
  have v0: "same_view st st0" by (simp add: st0_def same_view_def conn_view_def fun_eq_iff)
  have v1: "same_view st st1" unfolding st1_def by (rule same_view_trans [OF v0 same_view_send])
  have v2: "same_view st st2"
    unfolding st2_def by (rule same_view_trans [OF v1 same_view_upd]) simp
  have v3: "same_view st st3" unfolding st3_def by (rule same_view_trans [OF v2 same_view_send])
  have o1: "sequenced_out (ws_out st1) = sequenced_out (ws_out st) @ [(c, ev)]"
    by (simp add: st1_def st0_def out_send sequenceEvent_def Let_def)
  then have o3: "sequenced_out (ws_out st3) = sequenced_out (ws_out st) @ [(c, ev)]"
    by (simp add: st3_def st2_def out_send)
  have eq: "sendSequenced deps st c ev =
     (if bp_state (conn_bp st1 c) = BP_exceeded then ws_close st1 c BACKPRESSURE
      else if bp_state (conn_bp st1 c) = BP_warning \<and> \<not> bp_notified (conn_bp st1 c)
      then if bp_state (conn_bp st3 c) = BP_exceeded then ws_close st3 c BACKPRESSURE else st3
      else st1)"
    by (simp add: sendSequenced_def d st0_def st1_def st2_def st3_def case_prod_unfold Let_def)
  have "has_replay st c" using d by (simp add: has_replay_def conn_view_def)
  then show ?thesis
    unfolding eq using v1 v3 o1 o3 same_view_trans [OF v1 same_view_close] same_view_trans [OF v3 same_view_close]
    by simp
qed

subsection \<open>Broadcasts\<close>

text \<open>What a connection gets of an event: nothing unless it is active with an active credential,
  and then what the projector makes of it.\<close>

definition delivery :: "ws_deps \<Rightarrow> ws_state \<Rightarrow> signet_event \<Rightarrow> string \<Rightarrow> signet_event option" where
  "delivery deps st ev c =
     (case conn_view st c of
        Some (Ph_active, Some r, _, Some _) \<Rightarrow>
          if cr_status (rc_record r) = CS_active
          then (case wd_projectEvent deps of None \<Rightarrow> Some ev | Some p \<Rightarrow> p ev r)
          else None
      | _ \<Rightarrow> None)"

definition deliveries :: "ws_deps \<Rightarrow> ws_state \<Rightarrow> string \<Rightarrow> signet_event \<Rightarrow> (string \<times> signet_event) list" where
  "deliveries deps st k ev =
     concat (map (\<lambda>c. case delivery deps st ev c of None \<Rightarrow> [] | Some e \<Rightarrow> [(c, e)]) (connections_of st k))"

lemma connections_of_view:
  "connections_of st k =
     filter (\<lambda>c. case conn_view st c of Some (_, _, Some j, _) \<Rightarrow> j = k | _ \<Rightarrow> False) (ws_registry st)"
  unfolding connections_of_def conn_view_def
  by (intro filter_cong refl) (auto split: option.split)

lemma same_view_connections: "same_view st st' \<Longrightarrow> connections_of st' k = connections_of st k"
  by (simp add: connections_of_view same_view_def)

lemma same_view_delivery: "same_view st st' \<Longrightarrow> delivery deps st' ev c = delivery deps st ev c"
  by (simp add: delivery_def same_view_def)

lemma same_view_deliveries: "same_view st st' \<Longrightarrow> deliveries deps st' k ev = deliveries deps st k ev"
  by (simp add: deliveries_def same_view_connections same_view_delivery)

lemma broadcast_to_view:
  "same_view st (broadcast_to deps ev st c) \<and>
   sequenced_out (ws_out (broadcast_to deps ev st c)) =
     sequenced_out (ws_out st) @ (case delivery deps st ev c of None \<Rightarrow> [] | Some e \<Rightarrow> [(c, e)])"
  using sendSequenced_view
  by (auto simp: broadcast_to_def delivery_def conn_view_def has_replay_def
      split: option.split connection_phase.split)

lemma broadcast_fold_view:
  "same_view st (foldl (broadcast_to deps ev) st cs) \<and>
   sequenced_out (ws_out (foldl (broadcast_to deps ev) st cs)) =
     sequenced_out (ws_out st) @ concat (map (\<lambda>c. case delivery deps st ev c of None \<Rightarrow> [] | Some e \<Rightarrow> [(c, e)]) cs)"
proof (induction cs arbitrary: st)
  case (Cons c cs)
  note step = broadcast_to_view [of st deps ev c]
  then have "delivery deps (broadcast_to deps ev st c) ev x = delivery deps st ev x" for x
    using same_view_delivery by blast
  then show ?case
    using Cons.IH [of "broadcast_to deps ev st c"] step same_view_trans by auto
qed simp

lemma broadcast_free:
  assumes "map_get (ws_pending st) k = None"
  shows "same_view st (broadcastToCredential deps st k ev) \<and>
     sequenced_out (ws_out (broadcastToCredential deps st k ev)) =
       sequenced_out (ws_out st) @ deliveries deps st k ev"
  using broadcast_fold_view [of st deps ev "connections_of st k"] assms
  by (simp add: broadcastToCredential_def deliveries_def)

lemma broadcasts_free:
  assumes "map_get (ws_pending st) k = None"
  shows "same_view st (foldl (\<lambda>s e. broadcastToCredential deps s k e) st evs) \<and>
     sequenced_out (ws_out (foldl (\<lambda>s e. broadcastToCredential deps s k e) st evs)) =
       sequenced_out (ws_out st) @ concat (map (deliveries deps st k) evs)"
  using assms
proof (induction evs arbitrary: st)
  case (Cons e evs)
  note b = broadcast_free [OF Cons.prems, of deps e]
  then have "map_get (ws_pending (broadcastToCredential deps st k e)) k = None"
    using Cons.prems by (simp add: same_view_def)
  note ih = Cons.IH [OF this]
  have "deliveries deps (broadcastToCredential deps st k e) k = deliveries deps st k"
    using b same_view_deliveries by blast
  then show ?case using ih b same_view_trans by auto
qed simp

subsection \<open>The invalidation protocol\<close>

definition inv_gens :: "ws_task list \<Rightarrow> string \<Rightarrow> nat list" where
  "inv_gens ts k = concat (map (\<lambda>t. case t of T_invalidate j g \<Rightarrow> if j = k then [g] else [] | _ \<Rightarrow> []) ts)"

definition is_invalidate :: "ws_task \<Rightarrow> bool" where
  "is_invalidate t = (case t of T_invalidate _ _ \<Rightarrow> True | _ \<Rightarrow> False)"

lemma inv_gens_simps [simp]:
  "inv_gens [] k = []" "inv_gens (xs @ ys) k = inv_gens xs k @ inv_gens ys k"
  "inv_gens (T_invalidate j g # ts) k = (if j = k then g # inv_gens ts k else inv_gens ts k)"
  by (simp_all add: inv_gens_def)

lemma inv_gens_other: "\<not> is_invalidate t \<Longrightarrow> inv_gens (t # ts) k = inv_gens ts k"
  by (cases t) (simp_all add: inv_gens_def is_invalidate_def)

lemma inv_gens_remove:
  "inv_gens (remove1 (T_invalidate j g) ts) k = (if j = k then remove1 g (inv_gens ts k) else inv_gens ts k)"
proof (induction ts)
  case (Cons t ts)
  then show ?case
    by (cases "is_invalidate t") (auto simp: inv_gens_other is_invalidate_def split: ws_task.splits)
qed simp

lemma inv_gens_remove_other: "\<not> is_invalidate t \<Longrightarrow> inv_gens (remove1 t ts) k = inv_gens ts k"
proof (induction ts)
  case (Cons x xs)
  then show ?case
    by (cases "is_invalidate x") (auto simp: inv_gens_other is_invalidate_def split: ws_task.splits)
qed simp

lemma inv_gens_mem: "g \<in> set (inv_gens ts k) \<longleftrightarrow> T_invalidate k g \<in> set ts"
  by (induction ts) (auto simp: inv_gens_def split: ws_task.splits if_splits)

text \<open>The part of the state the protocol is about: for every credential the pending entry without
  its queue, the refreshes under way, and the counter.\<close>

definition protocol :: "ws_state \<Rightarrow> string \<Rightarrow> (int \<times> nat) option \<times> nat list \<times> nat" where
  "protocol st k =
     (map_option (\<lambda>e. (pi_refcount e, pi_generation e)) (map_get (ws_pending st) k),
      inv_gens (ws_tasks st) k, ws_invalidationGen st)"

definition protocol_ok :: "ws_state \<Rightarrow> bool" where
  "protocol_ok st \<longleftrightarrow>
     (\<forall>k. case protocol st k of
        (None, gens, _) \<Rightarrow> gens = []
      | (Some (refs, newest), gens, counter) \<Rightarrow>
          gens \<noteq> [] \<and> refs = int (length gens) \<and> distinct gens \<and>
          list_all (\<lambda>g. g \<le> newest) gens \<and> newest \<le> counter)"

lemma protocol_ok_cong: "protocol st' = protocol st \<Longrightarrow> protocol_ok st' = protocol_ok st"
  by (simp add: protocol_ok_def)

text \<open>Everything but the two steps of the protocol leaves it alone.\<close>

lemma protocol_basic [simp]:
  "protocol (upd_conn st c f) = protocol st" "protocol (ws_close st c code) = protocol st"
  "protocol (clear_timer st t) = protocol st" "protocol (snd (set_timer st tm)) = protocol st"
  "protocol (sendJson deps st c x) = protocol st"
  by (simp_all add: protocol_def fun_eq_iff ws_close_def clear_timer_def set_timer_def)

lemma protocol_record [simp]:
  "protocol (st\<lparr>ws_registry := r\<rparr>) = protocol st" "protocol (st\<lparr>ws_heap := h\<rparr>) = protocol st"
  "protocol (st\<lparr>ws_conns := m\<rparr>) = protocol st" "protocol (st\<lparr>ws_now := t\<rparr>) = protocol st"
  "protocol (st\<lparr>ws_serverState := x\<rparr>) = protocol st" "protocol (st\<lparr>ws_credentialStates := cs\<rparr>) = protocol st"
  by (simp_all add: protocol_def fun_eq_iff)

lemma protocol_task [simp]:
  "\<not> is_invalidate t \<Longrightarrow> protocol (add_task st t) = protocol st"
  "\<not> is_invalidate t \<Longrightarrow> protocol (take_task st t) = protocol st"
  by (simp_all add: protocol_def fun_eq_iff add_task_def take_task_def inv_gens_other inv_gens_remove_other)

lemma is_invalidate_simps [simp]:
  "\<not> is_invalidate (T_auth c f)" "\<not> is_invalidate (T_auth_finish c f r p)" "\<not> is_invalidate (T_request c m k)"
  "\<not> is_invalidate (T_handle c q r)" "\<not> is_invalidate (T_refresh c q r w)" "\<not> is_invalidate (T_beat c k)"
  "\<not> is_invalidate T_drain" "\<not> is_invalidate (T_flush cs)"
  by (simp_all add: is_invalidate_def)

lemma protocol_fold: "(\<And>s x. protocol (f s x) = protocol s) \<Longrightarrow> protocol (foldl f st xs) = protocol st"
  by (induction xs arbitrary: st) simp_all

lemma protocol_sequenced [simp]: "protocol (sendSequenced deps st c ev) = protocol st"
  by (simp add: sendSequenced_def case_prod_unfold Let_def split: option.split)

lemma protocol_heart [simp]:
  "protocol (stopHeartbeat st c) = protocol st" "protocol (startHeartbeat st c) = protocol st"
  by (simp_all add: stopHeartbeat_def startHeartbeat_def case_prod_unfold Let_def split: option.split)

lemma protocol_beat [simp]:
  "protocol (heartbeat_tick deps st c k) = protocol st"
  "protocol (heartbeat_looked_up deps st c k r) = protocol st"
  by (simp_all add: heartbeat_tick_def heartbeat_looked_up_def Let_def split: option.split result.split)

lemma protocol_auth [simp]:
  "protocol (auth_frame_received deps st c p) = protocol st"
  "protocol (auth_timed_out deps st c) = protocol st"
  "protocol (snd (getOrCreateCredentialState deps st k)) = protocol st"
  by (simp_all add: auth_frame_received_def auth_timed_out_def getOrCreateCredentialState_def Let_def
      split: option.split)

lemma protocol_auth_result [simp]:
  "protocol (auth_looked_up deps st c f r) = protocol st"
  "protocol (auth_fingerprinted deps st c f cred plan) = protocol st"
  by (simp_all add: auth_looked_up_def auth_fingerprinted_def case_prod_unfold Let_def protocol_fold split: result.split)

lemma protocol_answer [simp]:
  "protocol (answer_request deps st c i x) = protocol st"
  "protocol (request_timed_out deps st c i op) = protocol st"
  by (simp_all add: answer_request_def request_timed_out_def Let_def split: option.split)

lemma protocol_request [simp]:
  "protocol (request_frame_received st c m) = protocol st"
  "protocol (start_request deps st c q cred) = protocol st"
  "protocol (request_handled deps st c q cred h) = protocol st"
  "protocol (request_refreshed deps st c q w r) = protocol st"
  "protocol (request_threw deps st c q) = protocol st"
  by (simp_all add: request_frame_received_def start_request_def request_handled_def request_refreshed_def
      request_threw_def case_prod_unfold Let_def split: option.split result.split)

lemma protocol_request_looked [simp]: "protocol (request_looked_up deps st c m r) = protocol st"
  by (simp add: request_looked_up_def Let_def split: result.split inbound.split option.split)

lemma protocol_broadcast [simp]: "protocol (broadcastToCredential deps st k ev) = protocol st"
proof -
  have "protocol (broadcast_to deps ev s c) = protocol s" for s c
    by (simp add: broadcast_to_def split: option.split)
  then have "protocol (foldl (broadcast_to deps ev) s cs) = protocol s" for s cs
    by (rule protocol_fold)
  then show ?thesis
    by (auto simp: broadcastToCredential_def protocol_def fun_eq_iff split: option.split)
qed

lemma protocol_socket [simp]:
  "protocol (socket_open deps st c) = protocol st" "protocol (socket_message deps st c m) = protocol st"
  "protocol (socket_drain st c) = protocol st"
  by (simp_all add: socket_open_def socket_message_def socket_drain_def case_prod_unfold Let_def
      split: option.split inbound.split)

lemma protocol_cleanup [simp]: "protocol (cleanupConnection st c) = protocol st"
proof -
  have "protocol (clear_conn_timers s d) = protocol s" for s d
    by (simp add: clear_conn_timers_def Let_def protocol_fold split: option.split)
  then show ?thesis by (simp add: cleanupConnection_def Let_def split: option.split)
qed

lemma protocol_lifecycle [simp]:
  "protocol (snd (ws_start served st)) = protocol st" "protocol (snd (ws_stop deps st)) = protocol st"
  "protocol (stop_drained st) = protocol st" "protocol (stop_flushed st cs) = protocol st"
proof -
  have "protocol (stop_conn deps s c) = protocol s" for s c
    by (simp add: stop_conn_def split: option.split)
  then show "protocol (snd (ws_stop deps st)) = protocol st"
    by (simp add: ws_stop_def protocol_fold)
  have "protocol (s\<lparr>ws_credentialStates := [], ws_serverState := Srv_stopped\<rparr>) = protocol s" for s
    by (simp add: protocol_def fun_eq_iff)
  then show "protocol (stop_flushed st cs) = protocol st"
    by (simp add: stop_flushed_def protocol_fold)
qed (simp_all add: ws_start_def stop_drained_def protocol_fold split: result.split option.split)

lemma protocol_invalidate_conns: "protocol (foldl (invalidate_conn r) st cs) = protocol st"
  by (rule protocol_fold) (simp add: invalidate_conn_def Let_def split: option.split result.split)

lemma protocol_invalidate:
  "protocol (invalidateCredential st k) j =
     (if j = k
      then (Some (case map_get (ws_pending st) k of None \<Rightarrow> 1 | Some e \<Rightarrow> pi_refcount e + 1, ws_invalidationGen st + 1),
            inv_gens (ws_tasks st) k @ [ws_invalidationGen st + 1], ws_invalidationGen st + 1)
      else (fst (protocol st j), fst (snd (protocol st j)), ws_invalidationGen st + 1))"
  by (simp add: invalidateCredential_def protocol_def add_task_def Let_def split: option.split)

lemma protocol_ok_entry:
  "protocol_ok st \<Longrightarrow> map_get (ws_pending st) k = Some e \<Longrightarrow>
     inv_gens (ws_tasks st) k \<noteq> [] \<and> pi_refcount e = int (length (inv_gens (ws_tasks st) k)) \<and>
     distinct (inv_gens (ws_tasks st) k) \<and> list_all (\<lambda>g. g \<le> pi_generation e) (inv_gens (ws_tasks st) k) \<and>
     pi_generation e \<le> ws_invalidationGen st"
  unfolding protocol_ok_def protocol_def by (drule spec [of _ k]) simp

lemma protocol_ok_none:
  "protocol_ok st \<Longrightarrow> map_get (ws_pending st) k = None \<Longrightarrow> inv_gens (ws_tasks st) k = []"
  unfolding protocol_ok_def protocol_def by (drule spec [of _ k]) simp

definition protocol_ok_at :: "(int \<times> nat) option \<times> nat list \<times> nat \<Rightarrow> bool" where
  "protocol_ok_at p =
     (case p of
        (None, gens, _) \<Rightarrow> gens = []
      | (Some (refs, newest), gens, counter) \<Rightarrow>
          gens \<noteq> [] \<and> refs = int (length gens) \<and> distinct gens \<and>
          list_all (\<lambda>g. g \<le> newest) gens \<and> newest \<le> counter)"

lemma protocol_ok_iff: "protocol_ok st \<longleftrightarrow> (\<forall>k. protocol_ok_at (protocol st k))"
  by (simp add: protocol_ok_def protocol_ok_at_def)

lemma protocol_ok_later: "protocol_ok_at (p, gens, n) \<Longrightarrow> protocol_ok_at (p, gens, Suc n)"
  by (auto simp: protocol_ok_at_def split: option.splits)

lemma protocol_ok_invalidate:
  assumes ok: "protocol_ok st" shows "protocol_ok (invalidateCredential st k)"
  unfolding protocol_ok_iff
proof
  fix j
  have at: "protocol_ok_at (protocol st j)" using ok by (simp add: protocol_ok_iff)
  show "protocol_ok_at (protocol (invalidateCredential st k) j)"
  proof (cases "j = k")
    case False
    obtain p gens n where p: "protocol st j = (p, gens, n)" by (cases "protocol st j")
    then have "n = ws_invalidationGen st" by (simp add: protocol_def)
    then show ?thesis using False at protocol_ok_later by (simp add: protocol_invalidate p)
  next
    case True
    show ?thesis
    proof (cases "map_get (ws_pending st) k")
      case None
      then show ?thesis using protocol_ok_none [OF ok] True by (simp add: protocol_invalidate protocol_ok_at_def)
    next
      case (Some e)
      then show ?thesis
        using protocol_ok_entry [OF ok Some] True
        by (fastforce simp: protocol_invalidate protocol_ok_at_def list_all_iff)
    qed
  qed
qed

lemma protocol_finish:
  assumes "map_get (ws_pending st) k = Some e"
  shows "protocol (finish_invalidation deps st k) j =
     (if j = k then (if pi_refcount e \<le> 1 then None else Some (pi_refcount e - 1, pi_generation e),
                     inv_gens (ws_tasks st) k, ws_invalidationGen st)
      else protocol st j)"
proof -
  have "protocol (foldl (\<lambda>s ev. broadcastToCredential deps s k ev) s evs) = protocol s" for s evs
    by (rule protocol_fold) simp
  then have "protocol (finish_invalidation deps st k) j =
      (if pi_refcount e \<le> 1 then protocol (st\<lparr>ws_pending := map_delete (ws_pending st) k\<rparr>) j
       else protocol (st\<lparr>ws_pending := map_set (ws_pending st) k (e\<lparr>pi_refcount := pi_refcount e - 1\<rparr>)\<rparr>) j)"
    using assms by (simp add: finish_invalidation_def Let_def)
  then show ?thesis
    using assms by (simp add: protocol_def)
qed

text \<open>The refresh of the newest generation, or of an older one, before the bookkeeping.\<close>

definition refreshed ::
  "ws_state \<Rightarrow> string \<Rightarrow> nat \<Rightarrow> (runtime_credential, signet_error) result option \<Rightarrow> ws_state" where
  "refreshed st k g r =
     (case (r, map_get (ws_pending st) k) of
        (Some r, Some entry) \<Rightarrow>
          if pi_generation entry = g then foldl (invalidate_conn r) st (connections_of st k) else st
      | _ \<Rightarrow> st)"

lemma looked_up_refreshed:
  "invalidation_looked_up deps st k g r = finish_invalidation deps (refreshed st k g r) k"
  by (simp add: invalidation_looked_up_def refreshed_def split: option.split)

lemma pending_invalidate_conns:
  "ws_pending (foldl (invalidate_conn r) st cs) = ws_pending st \<and>
   ws_registry (foldl (invalidate_conn r) st cs) = ws_registry st \<and>
   ws_out (foldl (invalidate_conn r) st cs) = ws_out st"
proof -
  have stop: "ws_pending (stopHeartbeat s c) = ws_pending s" "ws_registry (stopHeartbeat s c) = ws_registry s" for s c
    using same_view_stop [of s c] by (simp_all add: same_view_def)
  have "ws_pending (invalidate_conn r s c) = ws_pending s \<and> ws_registry (invalidate_conn r s c) = ws_registry s \<and>
      ws_out (invalidate_conn r s c) = ws_out s" for s c
    by (simp add: invalidate_conn_def Let_def stop ws_close_def split: option.split result.split)
  then show ?thesis by (induction cs arbitrary: st) simp_all
qed

lemma refreshed_other [simp]:
  "ws_pending (refreshed st k g r) = ws_pending st" "ws_out (refreshed st k g r) = ws_out st"
  "ws_registry (refreshed st k g r) = ws_registry st" "protocol (refreshed st k g r) = protocol st"
  by (simp_all add: refreshed_def pending_invalidate_conns protocol_invalidate_conns split: option.split)

lemma protocol_ok_invalidated:
  assumes ok: "protocol_ok st" and t: "T_invalidate k g \<in> set (ws_tasks st)"
  shows "protocol_ok (invalidation_looked_up deps (take_task st (T_invalidate k g)) k g r)"
proof -
  have mem: "g \<in> set (inv_gens (ws_tasks st) k)" using t by (simp add: inv_gens_mem)
  then obtain e where e: "map_get (ws_pending st) k = Some e"
    using protocol_ok_none [OF ok, of k] by (cases "map_get (ws_pending st) k") auto
  note ent = protocol_ok_entry [OF ok e]
  let ?gens = "remove1 g (inv_gens (ws_tasks st) k)"
  let ?st = "take_task st (T_invalidate k g)"
  have len: "int (length ?gens) = pi_refcount e - 1"
  proof -
    have "0 < length (inv_gens (ws_tasks st) k)" using mem by (cases "inv_gens (ws_tasks st) k") simp_all
    then have "length ?gens + 1 = length (inv_gens (ws_tasks st) k)" using mem by (simp add: length_remove1)
    then show ?thesis using ent by linarith
  qed
  have le: "list_all (\<lambda>x. x \<le> pi_generation e) ?gens"
    using ent by (auto simp: list_all_iff dest: subsetD [OF set_remove1_subset])
  have pk: "protocol (invalidation_looked_up deps ?st k g r) j =
      (if j = k then (if pi_refcount e \<le> 1 then None else Some (pi_refcount e - 1, pi_generation e),
                      ?gens, ws_invalidationGen st)
       else protocol st j)" for j
  proof -
    have e': "map_get (ws_pending (refreshed ?st k g r)) k = Some e" using e by (simp add: take_task_def)
    have here: "protocol (refreshed ?st k g r) j =
        (fst (protocol st j), if j = k then ?gens else fst (snd (protocol st j)), ws_invalidationGen st)" for j
      by (simp add: protocol_def take_task_def inv_gens_remove)
    have "protocol (refreshed ?st k g r) k = (fst (protocol st k), ?gens, ws_invalidationGen st)"
      by (simp add: protocol_def take_task_def inv_gens_remove)
    then have "inv_gens (ws_tasks (refreshed ?st k g r)) k = ?gens"
        "ws_invalidationGen (refreshed ?st k g r) = ws_invalidationGen st"
      unfolding protocol_def by simp_all
    then show ?thesis
      using here unfolding looked_up_refreshed protocol_finish [OF e'] by (simp add: protocol_def)
  qed
  show ?thesis
    unfolding protocol_ok_iff
  proof
    fix j
    show "protocol_ok_at (protocol (invalidation_looked_up deps ?st k g r) j)"
    proof (cases "j = k")
      case False
      then show ?thesis using ok unfolding pk protocol_ok_iff by simp
    next
      case True
      show ?thesis
      proof (cases "pi_refcount e \<le> 1")
        case True
        then have "?gens = []" using len by (cases ?gens) auto
        then show ?thesis using True by (simp add: pk \<open>j = k\<close> protocol_ok_at_def)
      next
        case False
        then have "?gens \<noteq> []" using len by auto
        then show ?thesis
          using False len le ent by (simp add: pk \<open>j = k\<close> protocol_ok_at_def)
      qed
    qed
  qed
qed

lemma ws_step_protocol:
  assumes "ws_step deps st st'" and ok: "protocol_ok st"
  shows "protocol_ok st'"
  using assms(1)
proof cases
  case (ws_invalidate k)
  then show ?thesis using protocol_ok_invalidate [OF ok] by simp
next
  case (ws_invalidated k g r)
  then show ?thesis using protocol_ok_invalidated [OF ok] by simp
qed (use ok in \<open>simp_all add: protocol_ok_iff\<close>)

lemma ws_reachable_protocol: "ws_reachable deps st \<Longrightarrow> protocol_ok st"
proof (induction rule: ws_reachable.induct)
  case (ws_begin now)
  then show ?case by (simp add: protocol_ok_def protocol_def createWsServer_def)
next
  case (ws_more st st')
  then show ?case using ws_step_protocol by blast
qed

subsection \<open>Properties\<close>

text \<open>A broadcast reaches exactly who may have it. With no refresh of the credential under way, the
  event goes, once each and in registration order, to the active connections of the credential
  whose cached credential is active and lets it through; during a refresh nothing is sent and
  the event joins the queue.\<close>

theorem broadcast_exact:
  "case map_get (ws_pending st) k of
     None \<Rightarrow>
       sequenced_out (ws_out (broadcastToCredential deps st k ev)) =
         sequenced_out (ws_out st) @ deliveries deps st k ev
   | Some e \<Rightarrow>
       ws_out (broadcastToCredential deps st k ev) = ws_out st \<and>
       map_get (ws_pending (broadcastToCredential deps st k ev)) j =
         (if j = k then Some (e\<lparr>pi_events := pi_events e @ [ev]\<rparr>) else map_get (ws_pending st) j)"
  using broadcast_free [of st k deps ev]
  by (auto simp: broadcastToCredential_def split: option.split)

text \<open>Events are withheld exactly while a refresh of the credential is under way. In every
  reachable state a credential has a queue if and only if an invalidation of it waits for its
  lookup; the count of the queue is the number of those, and none is newer than the generation
  that may write. So no event stays queued once the refreshes are over.\<close>

theorem invalidation_protocol:
  assumes "ws_reachable deps st"
  shows "case map_get (ws_pending st) k of
           None \<Rightarrow> inv_gens (ws_tasks st) k = []
         | Some e \<Rightarrow>
             inv_gens (ws_tasks st) k \<noteq> [] \<and>
             pi_refcount e = int (length (inv_gens (ws_tasks st) k)) \<and>
             distinct (inv_gens (ws_tasks st) k) \<and>
             list_all (\<lambda>g. g \<le> pi_generation e) (inv_gens (ws_tasks st) k) \<and>
             pi_generation e \<le> ws_invalidationGen st"
  using protocol_ok_entry [OF ws_reachable_protocol [OF assms]] protocol_ok_none [OF ws_reachable_protocol [OF assms]]
  by (cases "map_get (ws_pending st) k") simp_all

lemma take_view: "same_view st (take_task st t)"
  by (simp add: same_view_def take_task_def conn_view_def fun_eq_iff)

lemma conn_view_simps [simp]:
  "conn_view (stopHeartbeat st c) = conn_view st" "conn_view (ws_close st c code) = conn_view st"
  "conn_view (take_task st t) = conn_view st"
  using same_view_stop same_view_close take_view by (auto simp: same_view_def)

text \<open>What a refresh with a fresh credential leaves of a connection.\<close>

fun install :: "runtime_credential \<Rightarrow> connection_phase \<times> runtime_credential option \<times> string option \<times> nat option
    \<Rightarrow> connection_phase \<times> runtime_credential option \<times> string option \<times> nat option" where
  "install fresh (p, r, k, a) = (p, if p = Ph_active then Some fresh else r, k, a)"

lemma install_twice [simp]: "install f (install f v) = install f v"
  by (cases v) simp

lemma invalidate_conn_view:
  "conn_view (invalidate_conn (Ok fresh) st c) x =
     (if x = c then map_option (install fresh) (conn_view st x) else conn_view st x)"
  by (simp add: invalidate_conn_def Let_def conn_view_def [of "upd_conn st c f" for f] split: option.split)
    (auto simp: conn_view_def)

lemma invalidate_conns_view:
  "conn_view (foldl (invalidate_conn (Ok fresh)) st cs) x =
     (if x \<in> set cs then map_option (install fresh) (conn_view st x) else conn_view st x)"
  by (induction cs arbitrary: st) (simp_all add: invalidate_conn_view option.map_comp comp_def)

lemma invalidate_conns_err_view: "conn_view (foldl (invalidate_conn (Err e)) st cs) = conn_view st"
proof (induction cs arbitrary: st)
  case (Cons c cs)
  have "conn_view (invalidate_conn (Err e) st c) = conn_view st"
    by (simp add: invalidate_conn_def split: option.split)
  then show ?case using Cons by simp
qed simp

lemma refreshed_view:
  "conn_view (refreshed st k g r) x =
     (case (r, map_get (ws_pending st) k) of
        (Some (Ok fresh), Some e) \<Rightarrow>
          if pi_generation e = g \<and> x \<in> set (connections_of st k)
          then map_option (install fresh) (conn_view st x) else conn_view st x
      | _ \<Rightarrow> conn_view st x)"
  by (auto simp: refreshed_def invalidate_conns_view invalidate_conns_err_view split: option.split result.split)

text \<open>C12: A refresh that finishes installs its result only if no newer one was requested meanwhile, in
  every active connection of the credential; an older one changes no connection. If others are
  still under way the queue waits for them; the last one sends the queued events, in order, to
  those who may have them under the state now installed.\<close>

theorem newest_refresh_wins:
  assumes "ws_reachable deps st" and "T_invalidate k g \<in> set (ws_tasks st)"
    and "st' = invalidation_looked_up deps (take_task st (T_invalidate k g)) k g r"
  shows "case map_get (ws_pending st) k of
           None \<Rightarrow> False
         | Some e \<Rightarrow>
             conn_view st' c =
               (case r of
                  Some (Ok fresh) \<Rightarrow>
                    if pi_generation e = g \<and> c \<in> set (connections_of st k)
                    then map_option (install fresh) (conn_view st c) else conn_view st c
                | _ \<Rightarrow> conn_view st c) \<and>
             map_get (ws_pending st') k =
               (if pi_refcount e = 1 then None else Some (e\<lparr>pi_refcount := pi_refcount e - 1\<rparr>)) \<and>
             sequenced_out (ws_out st') = sequenced_out (ws_out st) @
               (if pi_refcount e = 1 then concat (map (deliveries deps st' k) (pi_events e)) else [])"
proof -
  have ok: "protocol_ok st" by (rule ws_reachable_protocol [OF assms(1)])
  have "g \<in> set (inv_gens (ws_tasks st) k)" using assms(2) by (simp add: inv_gens_mem)
  then obtain e where e: "map_get (ws_pending st) k = Some e" and pos: "1 \<le> pi_refcount e"
    using protocol_ok_none [OF ok, of k] protocol_ok_entry [OF ok, of k]
    by (cases "map_get (ws_pending st) k"; cases "inv_gens (ws_tasks st) k") auto
  define s where "s = refreshed (take_task st (T_invalidate k g)) k g r"
  have s: "ws_pending s = ws_pending st" "ws_out s = ws_out st"
    by (simp_all add: s_def) (simp_all add: take_task_def)
  have conns: "connections_of (take_task st (T_invalidate k g)) k = connections_of st k"
    by (rule same_view_connections [OF take_view])
  have pend: "ws_pending (take_task st (T_invalidate k g)) = ws_pending st" by (simp add: take_task_def)
  have v: "conn_view s c = (case r of
                  Some (Ok fresh) \<Rightarrow>
                    if pi_generation e = g \<and> c \<in> set (connections_of st k)
                    then map_option (install fresh) (conn_view st c) else conn_view st c
                | _ \<Rightarrow> conn_view st c)"
    unfolding s_def refreshed_view conns pend e by (auto split: option.split result.split)
  show ?thesis
  proof (cases "pi_refcount e = 1")
    case True
    define s0 where "s0 = s\<lparr>ws_pending := map_delete (ws_pending s) k\<rparr>"
    have st': "st' = foldl (\<lambda>s ev. broadcastToCredential deps s k ev) s0 (pi_events e)"
      using True e by (simp add: assms(3) looked_up_refreshed finish_invalidation_def s_def [symmetric] s s0_def Let_def)
    have none: "map_get (ws_pending s0) k = None" by (simp add: s0_def)
    note b = broadcasts_free [OF none, of deps "pi_events e", folded st']
    have "deliveries deps st' k = deliveries deps s0 k" using b same_view_deliveries by blast
    moreover have "conn_view st' c = conn_view s c" using b by (simp add: same_view_def s0_def conn_view_def)
    moreover have "map_get (ws_pending st') k = None" using b none by (simp add: same_view_def)
    ultimately show ?thesis using True b v by (simp add: e s s0_def)
  next
    case False
    then have st': "st' = s\<lparr>ws_pending := map_set (ws_pending s) k (e\<lparr>pi_refcount := pi_refcount e - 1\<rparr>)\<rparr>"
      using e pos by (simp add: assms(3) looked_up_refreshed finish_invalidation_def s_def [symmetric] s Let_def)
    have "conn_view st' c = conn_view s c" by (simp add: st' conn_view_def)
    then show ?thesis using False v by (simp add: e st' s)
  qed
qed

subsection \<open>A run\<close>

definition sample_key :: string where
  "sample_key = rc_credentialId sample_runtime"

definition sample_queued :: ws_state where
  "sample_queued =
     broadcastToCredential sample_ws_deps (invalidateCredential sample_active sample_key) sample_key (Ev_heartbeat ''x'' 7)"

lemma sample_queued_reachable: "ws_reachable sample_ws_deps sample_queued"
  unfolding sample_queued_def
  by (intro ws_more [OF _ ws_broadcast] ws_more [OF _ ws_invalidate] sample_active_reachable)

lemma sample_queue:
  "map_get (ws_pending sample_queued) sample_key =
     Some \<lparr>pi_refcount = 1, pi_generation = 1, pi_events = [Ev_heartbeat ''x'' 7]\<rparr>"
  by code_simp

theorem invalidation_protocol_witness:
  "length (inv_gens (ws_tasks sample_queued) sample_key) = 1"
  using invalidation_protocol [OF sample_queued_reachable, of sample_key] by (simp add: sample_queue)

theorem newest_refresh_wins_witness:
  "map_get (ws_pending (invalidation_looked_up sample_ws_deps (take_task sample_queued (T_invalidate sample_key 1))
      sample_key 1 (Some (Ok sample_runtime)))) sample_key = None"
proof -
  have "T_invalidate sample_key 1 \<in> set (ws_tasks sample_queued)" by code_simp
  from newest_refresh_wins [OF sample_queued_reachable this refl, of "Some (Ok sample_runtime)" "''a''"]
  show ?thesis by (simp add: sample_queue)
qed

end
