(* ===== verification/Verdict.thy ===== *)
theory Verdict
  imports SealBuild
begin

text \<open>
  What the verifier receives, decides and states (\<^verbatim>\<open>packages/verifier/src/schemas\<close>,
  \<^verbatim>\<open>verdict.ts\<close>, \<^verbatim>\<open>provenance.ts\<close>, \<^verbatim>\<open>config.ts\<close>): requests, checks and statements, the
  verdict and the trust tier of a list of checks, and the provenance map a statement supports.
\<close>

subsection \<open>Types\<close>

datatype check_verdict = CV_pass | CV_fail | CV_skip

record verification_check =
  vc_checkId :: string
  vc_verdict :: check_verdict
  vc_reason :: string
  vc_evidence :: "(string \<times> js_value) list option"

datatype verification_verdict = VV_verified | VV_partial | VV_rejected

record verification_request =
  vr_requestId :: string
  vr_agentInboxId :: string
  vr_signetInboxId :: string
  vr_groupId :: "string option"
  vr_seal :: "seal_payload option"
  vr_sealEnvelope :: "seal_envelope option"
  vr_sealPublicKey :: "string option"
  vr_artifactDigest :: string
  vr_buildProvenanceBundle :: "string option"
  vr_sourceRepoUrl :: string
  vr_releaseTag :: "string option"
  vr_requestedTier :: trust_tier
  vr_challengeNonce :: string

record statement_fields =
  sf_statementId :: string
  sf_requestId :: string
  sf_verifierInboxId :: string
  sf_signetInboxId :: string
  sf_agentInboxId :: string
  sf_verdict :: verification_verdict
  sf_verifiedTier :: trust_tier
  sf_checks :: "verification_check list"
  sf_challengeNonce :: string
  sf_issuedAt :: string
  sf_expiresAt :: string

record verification_statement =
  vs_fields :: statement_fields
  vs_signature :: string

record build_provenance_config =
  bp_expectedOidcIssuer :: "string option"
  bp_expectedIdentityPattern :: "string option"

record verifier_config =
  vcfg_verifierInboxId :: string
  vcfg_sourceRepoUrl :: string
  vcfg_statementTtlSeconds :: int
  vcfg_maxRequestsPerRequesterPerHour :: int
  vcfg_buildProvenance :: "build_provenance_config option"

text \<open>The configuration schema; the URL check of the schema library is an argument.\<close>

record verifier_config_input =
  vci_verifierInboxId :: string
  vci_sourceRepoUrl :: string
  vci_statementTtlSeconds :: "int option"
  vci_maxRequestsPerRequesterPerHour :: "int option"
  vci_buildProvenance :: "build_provenance_config option"

definition VerifierConfigSchema :: "(string \<Rightarrow> bool) \<Rightarrow> verifier_config_input \<Rightarrow> verifier_config option" where
  "VerifierConfigSchema isUrl input =
     (let cfg = \<lparr>vcfg_verifierInboxId = vci_verifierInboxId input,
                 vcfg_sourceRepoUrl = vci_sourceRepoUrl input,
                 vcfg_statementTtlSeconds = nullish (vci_statementTtlSeconds input) 86400,
                 vcfg_maxRequestsPerRequesterPerHour = nullish (vci_maxRequestsPerRequesterPerHour input) 10,
                 vcfg_buildProvenance = vci_buildProvenance input\<rparr>
      in if isUrl (vcfg_sourceRepoUrl cfg) \<and> 0 < vcfg_statementTtlSeconds cfg \<and>
            0 < vcfg_maxRequestsPerRequesterPerHour cfg
         then Some cfg else None)"

record verifier_capabilities =
  cap_supportedTiers :: "trust_tier list"
  cap_supportedChecks :: "string list"
  cap_maxRequestsPerHour :: int

record self_seal_fields =
  ss_verifierInboxId :: string
  ss_capabilities :: verifier_capabilities
  ss_sourceRepoUrl :: string
  ss_issuedAt :: string

record verifier_self_seal =
  vss_fields :: self_seal_fields
  vss_signature :: string

subsection \<open>Verdict and tier\<close>

definition determineVerdict :: "check_verdict list \<Rightarrow> verification_verdict" where
  "determineVerdict verdicts =
     (let hasFail = list_ex (\<lambda>v. v = CV_fail) verdicts
      in if hasFail then VV_rejected
         else let hasSkip = list_ex (\<lambda>v. v = CV_skip) verdicts
              in if hasSkip then VV_partial else VV_verified)"

fun tierRank :: "trust_tier \<Rightarrow> nat" where
  "tierRank TT_unverified = 0"
| "tierRank TT_source_verified = 1"
| "tierRank TT_reproducibly_verified = 2"
| "tierRank TT_runtime_attested = 3"

definition determineVerifiedTier :: "verification_verdict \<Rightarrow> trust_tier \<Rightarrow> trust_tier" where
  "determineVerifiedTier verdict requestedTier =
     (if verdict = VV_rejected then TT_unverified
      else
        let requestedRank = tierRank requestedTier;
            maxV0Rank = tierRank TT_source_verified;
            effectiveRank = min requestedRank maxV0Rank
        in if verdict = VV_verified \<and> tierRank TT_source_verified \<le> effectiveRank
           then TT_source_verified
           else TT_unverified)"

subsection \<open>Provenance\<close>

definition CHECK_TO_PROVENANCE_FIELDS :: "(string, provenance_key list) js_map" where
  "CHECK_TO_PROVENANCE_FIELDS = []"

definition deriveProvenanceMap :: "statement_fields \<Rightarrow> provenance_map" where
  "deriveProvenanceMap statement =
     (let verifiedRecord = \<lparr>cp_source = CP_verified, cp_attestedBy = Some (sf_verifierInboxId statement),
                            cp_attestedAt = Some (sf_issuedAt statement),
                            cp_expiresAt = Some (sf_expiresAt statement)\<rparr>;
          fromChecks = foldl (\<lambda>m check.
            if vc_verdict check \<noteq> CV_pass then m
            else case map_get CHECK_TO_PROVENANCE_FIELDS (vc_checkId check) of
                   None \<Rightarrow> m
                 | Some keys \<Rightarrow> foldl (\<lambda>m key. map_set m key verifiedRecord) m keys) [] (sf_checks statement)
      in if sf_verifiedTier statement \<noteq> TT_unverified
         then map_set fromChecks PK_trustTier verifiedRecord
         else fromChecks)"

subsection \<open>Facts\<close>

lemma determineVerdict_iff:
  "determineVerdict vs = VV_rejected \<longleftrightarrow> CV_fail \<in> set vs"
  "determineVerdict vs = VV_partial \<longleftrightarrow> CV_fail \<notin> set vs \<and> CV_skip \<in> set vs"
  "determineVerdict vs = VV_verified \<longleftrightarrow> (\<forall>v \<in> set vs. v = CV_pass)"
proof -
  have "v = CV_pass \<or> v = CV_fail \<or> v = CV_skip" for v by (cases v) simp_all
  then show "determineVerdict vs = VV_rejected \<longleftrightarrow> CV_fail \<in> set vs"
    "determineVerdict vs = VV_partial \<longleftrightarrow> CV_fail \<notin> set vs \<and> CV_skip \<in> set vs"
    "determineVerdict vs = VV_verified \<longleftrightarrow> (\<forall>v \<in> set vs. v = CV_pass)"
    by (auto simp: determineVerdict_def list_ex_iff Let_def)
qed

lemma determineVerifiedTier_iff:
  "determineVerifiedTier verdict tier =
     (if verdict = VV_verified \<and> tier \<noteq> TT_unverified then TT_source_verified else TT_unverified)"
  by (cases tier) (auto simp: determineVerifiedTier_def)

lemma deriveProvenanceMap_eq:
  "deriveProvenanceMap st =
     (if sf_verifiedTier st = TT_unverified then []
      else [(PK_trustTier, \<lparr>cp_source = CP_verified, cp_attestedBy = Some (sf_verifierInboxId st),
              cp_attestedAt = Some (sf_issuedAt st), cp_expiresAt = Some (sf_expiresAt st)\<rparr>)])"
proof -
  have "foldl (\<lambda>m check. m) m cs = m" for m :: provenance_map and cs :: "verification_check list"
    by (induction cs) simp_all
  then show ?thesis
    by (simp add: deriveProvenanceMap_def CHECK_TO_PROVENANCE_FIELDS_def Let_def map_set_def cong: if_cong)
qed

subsection \<open>Statements as dynamic values\<close>

fun check_verdict_text :: "check_verdict \<Rightarrow> string" where
  "check_verdict_text CV_pass = ''pass''"
| "check_verdict_text CV_fail = ''fail''"
| "check_verdict_text CV_skip = ''skip''"

fun verdict_text :: "verification_verdict \<Rightarrow> string" where
  "verdict_text VV_verified = ''verified''"
| "verdict_text VV_partial = ''partial''"
| "verdict_text VV_rejected = ''rejected''"

definition check_js :: "verification_check \<Rightarrow> js_value" where
  "check_js c = VObj
     [(''checkId'', VStr (vc_checkId c)), (''verdict'', VStr (check_verdict_text (vc_verdict c))),
      (''reason'', VStr (vc_reason c)),
      (''evidence'', case vc_evidence c of None \<Rightarrow> VNull | Some e \<Rightarrow> VObj e)]"

definition statement_js :: "statement_fields \<Rightarrow> js_value" where
  "statement_js f = VObj
     [(''statementId'', VStr (sf_statementId f)), (''requestId'', VStr (sf_requestId f)),
      (''verifierInboxId'', VStr (sf_verifierInboxId f)), (''signetInboxId'', VStr (sf_signetInboxId f)),
      (''agentInboxId'', VStr (sf_agentInboxId f)), (''verdict'', VStr (verdict_text (sf_verdict f))),
      (''verifiedTier'', VStr (trust_tier_text (sf_verifiedTier f))),
      (''checks'', VArr (map check_js (sf_checks f))), (''challengeNonce'', VStr (sf_challengeNonce f)),
      (''issuedAt'', VStr (sf_issuedAt f)), (''expiresAt'', VStr (sf_expiresAt f))]"

definition self_seal_js :: "self_seal_fields \<Rightarrow> js_value" where
  "self_seal_js f = VObj
     [(''verifierInboxId'', VStr (ss_verifierInboxId f)),
      (''capabilities'', VObj
         [(''supportedTiers'', VArr (map (VStr \<circ> trust_tier_text) (cap_supportedTiers (ss_capabilities f)))),
          (''supportedChecks'', VArr (map VStr (cap_supportedChecks (ss_capabilities f)))),
          (''maxRequestsPerHour'', VNum (of_int (cap_maxRequestsPerHour (ss_capabilities f))))]),
      (''sourceRepoUrl'', VStr (ss_sourceRepoUrl f)), (''issuedAt'', VStr (ss_issuedAt f))]"

end
