(* ===== verification/X509.thy ===== *)
theory X509
  imports Base64
begin

unbundle bit_operations_syntax

text \<open>
  The verifier's DER reader (\<^verbatim>\<open>packages/verifier/src/checks/x509-key.ts\<close>): one TLV element, the
  scan for the public key and the extraction of the key from a certificate. An offset is an
  integer, because nothing in the code keeps it from becoming negative; a byte read outside the
  buffer is \<open>None\<close> (\<open>undefined\<close>), which no comparison accepts and which counts as zero in the
  32-bit signed arithmetic of \<open><<\<close> and \<open>|\<close>. The scan is a loop that need not end:
  \<open>findSpki_loop\<close> is a partial function whose value \<open>None\<close> means that it does not return.
\<close>

definition byte_at :: "8 word list \<Rightarrow> int \<Rightarrow> 8 word option" where
  "byte_at der i = (if 0 \<le> i \<and> i < int (length der) then Some (der ! nat i) else None)"

definition TAG_SEQUENCE :: "8 word" where
  "TAG_SEQUENCE = 0x30"

definition TAG_BIT_STRING :: "8 word" where
  "TAG_BIT_STRING = 0x03"

definition EC_PUBLIC_KEY_OID :: "8 word list" where
  "EC_PUBLIC_KEY_OID = [0x06, 0x07, 0x2a, 0x86, 0x48, 0xce, 0x3d, 0x02, 0x01]"

definition SECP256R1_OID :: "8 word list" where
  "SECP256R1_OID = [0x06, 0x08, 0x2a, 0x86, 0x48, 0xce, 0x3d, 0x03, 0x01, 0x07]"

definition P256_UNCOMPRESSED_LENGTH :: int where
  "P256_UNCOMPRESSED_LENGTH = 65"

definition UNCOMPRESSED_POINT_PREFIX :: "8 word" where
  "UNCOMPRESSED_POINT_PREFIX = 0x04"

record der_tlv =
  tlv_tag :: "8 word option"
  tlv_contentStart :: int
  tlv_contentLength :: int
  tlv_totalLength :: int

text \<open>The loop over the length bytes, in the 32-bit integers of the bitwise operators.\<close>

fun length_bytes :: "8 word list \<Rightarrow> int \<Rightarrow> nat \<Rightarrow> 32 word \<Rightarrow> 32 word" where
  "length_bytes der pos 0 acc = acc"
| "length_bytes der pos (Suc n) acc =
     length_bytes der (pos + 1) n
       (push_bit 8 acc OR (case byte_at der pos of Some b \<Rightarrow> ucast b | None \<Rightarrow> 0))"

definition parseTlv :: "8 word list \<Rightarrow> int \<Rightarrow> (der_tlv, string) result" where
  "parseTlv der offset =
     (if int (length der) \<le> offset then Err ''Unexpected end of DER data''
      else
        let tag = byte_at der offset; pos = offset + 1
        in if int (length der) \<le> pos then Err ''Truncated DER: missing length''
           else
             let firstLenByte = byte_at der pos; pos = pos + 1;
                 finish = (\<lambda>pos contentLength.
                   if int (length der) < pos + contentLength then Err ''Truncated DER: content exceeds buffer''
                   else Ok \<lparr>tlv_tag = tag, tlv_contentStart = pos, tlv_contentLength = contentLength,
                            tlv_totalLength = pos - offset + contentLength\<rparr>)
             in case firstLenByte of
                  Some b \<Rightarrow>
                    if b < 0x80 then finish pos (uint b)
                    else if b = 0x80 then Err ''Indefinite length not supported''
                    else
                      let numLenBytes = unat (b AND 0x7f)
                      in if 4 < numLenBytes then Err ''DER length exceeds 4 bytes''
                         else if int (length der) < pos + int numLenBytes then Err ''Truncated DER: incomplete length''
                         else finish (pos + int numLenBytes) (sint (length_bytes der pos numLenBytes 0))
                | None \<Rightarrow> finish pos 0)"

definition bytesMatch :: "8 word list \<Rightarrow> int \<Rightarrow> 8 word list \<Rightarrow> bool" where
  "bytesMatch data offset pattern =
     (if int (length data) < offset + int (length pattern) then False
      else list_all (\<lambda>i. byte_at data (offset + int i) = Some (pattern ! i)) [0..<length pattern])"

partial_function (option) findSpki_loop ::
  "8 word list \<Rightarrow> int \<Rightarrow> int \<Rightarrow> (int \<times> int) option option" where
  "findSpki_loop der rangeEnd pos =
     (if pos < rangeEnd
      then case parseTlv der pos of
             Err _ \<Rightarrow> Some None
           | Ok tlv \<Rightarrow>
               if tlv_tag tlv = Some TAG_SEQUENCE \<and>
                  (case parseTlv der (tlv_contentStart tlv) of
                     Ok inner \<Rightarrow> tlv_tag inner = Some TAG_SEQUENCE \<and>
                                 bytesMatch der (tlv_contentStart inner) EC_PUBLIC_KEY_OID
                   | Err _ \<Rightarrow> False)
               then Some (Some (tlv_contentStart tlv, tlv_contentLength tlv))
               else findSpki_loop der rangeEnd (pos + tlv_totalLength tlv)
      else Some None)"

definition findSpki :: "8 word list \<Rightarrow> int \<Rightarrow> int \<Rightarrow> (int \<times> int) option option" where
  "findSpki der rangeStart rangeEnd = findSpki_loop der rangeEnd rangeStart"

definition js_slice :: "8 word list \<Rightarrow> int \<Rightarrow> int \<Rightarrow> 8 word list" where
  "js_slice der start stop =
     (let n = int (length der);
          rel = (\<lambda>i. if i < 0 then max 0 (n + i) else min i n)
      in take (nat (rel stop - rel start)) (drop (nat (rel start)) der))"

definition unused_bits_text :: "8 word option \<Rightarrow> string" where
  "unused_bits_text b = (case b of Some w \<Rightarrow> int_text (uint w) | None \<Rightarrow> ''undefined'')"

text \<open>The steps of the extraction after the scan found the key's sequence.\<close>

definition extract_from_spki :: "8 word list \<Rightarrow> int \<Rightarrow> (8 word list, string) result" where
  "extract_from_spki der spkiStart =
     (case parseTlv der spkiStart of
        Err e \<Rightarrow> Err (''AlgorithmIdentifier: '' @ e)
      | Ok algId \<Rightarrow>
          if \<not> bytesMatch der (tlv_contentStart algId) EC_PUBLIC_KEY_OID
          then Err ''Algorithm is not EC public key''
          else if \<not> bytesMatch der (tlv_contentStart algId + int (length EC_PUBLIC_KEY_OID)) SECP256R1_OID
          then Err ''Curve is not secp256r1 (P-256)''
          else
            (case parseTlv der (spkiStart + tlv_totalLength algId) of
               Err e \<Rightarrow> Err (''BIT STRING: '' @ e)
             | Ok bitString \<Rightarrow>
                 if tlv_tag bitString \<noteq> Some TAG_BIT_STRING then Err ''Expected BIT STRING for public key''
                 else if byte_at der (tlv_contentStart bitString) \<noteq> Some 0
                 then Err (''Unexpected unused bits in BIT STRING: '' @
                           unused_bits_text (byte_at der (tlv_contentStart bitString)))
                 else
                   let keyStart = tlv_contentStart bitString + 1;
                       keyLength = tlv_contentLength bitString - 1
                   in if keyLength \<noteq> P256_UNCOMPRESSED_LENGTH
                      then Err (''Expected 65-byte key, got '' @ int_text keyLength)
                      else
                        let publicKey = js_slice der keyStart (keyStart + keyLength)
                        in if byte_at publicKey 0 \<noteq> Some UNCOMPRESSED_POINT_PREFIX
                           then Err ''Public key is not an uncompressed point''
                           else Ok publicKey))"

definition extract_from_der :: "8 word list \<Rightarrow> (8 word list, string) result option" where
  "extract_from_der der =
     (case parseTlv der 0 of
        Err e \<Rightarrow> Some (Err (''Certificate: '' @ e))
      | Ok cert \<Rightarrow>
          if tlv_tag cert \<noteq> Some TAG_SEQUENCE then Some (Err ''Certificate is not a SEQUENCE'')
          else
            (case parseTlv der (tlv_contentStart cert) of
               Err e \<Rightarrow> Some (Err (''tbsCertificate: '' @ e))
             | Ok tbs \<Rightarrow>
                 if tlv_tag tbs \<noteq> Some TAG_SEQUENCE then Some (Err ''tbsCertificate is not a SEQUENCE'')
                 else
                   (case findSpki der (tlv_contentStart tbs) (tlv_contentStart tbs + tlv_contentLength tbs) of
                      None \<Rightarrow> None
                    | Some None \<Rightarrow> Some (Err ''subjectPublicKeyInfo with EC algorithm not found'')
                    | Some (Some (contentStart, _)) \<Rightarrow> Some (extract_from_spki der contentStart))))"

definition extractP256PublicKey :: "string \<Rightarrow> (8 word list, string) result option" where
  "extractP256PublicKey certBase64 =
     (case atob certBase64 of
        None \<Rightarrow> Some (Err ''Invalid base64 in certificate'')
      | Some der \<Rightarrow> extract_from_der der)"


subsection \<open>Lengths\<close>

lemma uint_widen: "uint (ucast (b :: 8 word) :: 32 word) = uint b"
proof -
  have "uint (ucast b :: 32 word) = uint b mod 2 ^ 32" by (simp only: unsigned_ucast_eq take_bit_eq_mod) simp
  also have "\<dots> = uint b" using unsigned_less [where ?'a = int, of b] by (intro mod_pos_pos_trivial) simp_all
  finally show ?thesis .
qed

lemma byte_or_bound:
  fixes acc :: "32 word" and b :: "8 word"
  assumes "uint acc < 2 ^ k" "k \<le> 24"
  shows "uint (push_bit 8 acc OR ucast b) < 2 ^ (k + 8)"
proof -
  have small: "uint acc * 256 < 2 ^ 32"
    using assms power_increasing [OF assms(2), of "2 :: int"] by simp
  have "uint (push_bit 8 acc) = take_bit 32 (push_bit 8 (uint acc))"
    using unsigned_push_bit_eq [where ?'a = int, of 8 acc] by simp
  also have "\<dots> = uint acc * 256 mod 2 ^ 32" by (simp only: push_bit_eq_mult take_bit_eq_mod) simp
  also have "\<dots> = uint acc * 256" using small by (intro mod_pos_pos_trivial) simp_all
  finally have pb: "uint (push_bit 8 acc) = uint acc * 256" .
  have "uint (push_bit 8 acc) < 2 ^ (k + 8)" using assms(1) by (simp add: pb power_add)
  moreover have "uint (ucast b :: 32 word) < 2 ^ (k + 8)"
  proof -
    have "uint b < 2 ^ 8" using unsigned_less [where ?'a = int, of b] by simp
    moreover have "(2 :: int) ^ 8 \<le> 2 ^ (k + 8)" by (rule power_increasing) simp_all
    ultimately show ?thesis by (simp only: uint_widen)
  qed
  ultimately show ?thesis
    by (simp add: unsigned_or_eq OR_upper)
qed

lemma length_bytes_bound:
  "uint acc < 2 ^ k \<Longrightarrow> k + 8 * n \<le> 32 \<Longrightarrow> uint (length_bytes der pos n acc) < 2 ^ (k + 8 * n)"
proof (induction n arbitrary: pos acc k)
  case (Suc n)
  have "uint (push_bit 8 acc OR (case byte_at der pos of Some b \<Rightarrow> ucast b | None \<Rightarrow> 0)) < 2 ^ (k + 8)"
    using byte_or_bound [OF Suc.prems(1), of "case byte_at der pos of Some b \<Rightarrow> b | None \<Rightarrow> 0"] Suc.prems(2)
    by (cases "byte_at der pos") simp_all
  from Suc.IH [OF this] Suc.prems(2) show ?case by (simp add: algebra_simps)
qed simp

lemma sint_small: "uint (w :: 32 word) < 2 ^ 31 \<Longrightarrow> 0 \<le> sint w"
proof -
  assume "uint w < 2 ^ 31"
  then have "signed_take_bit 31 (uint w) = uint w" using unsigned_greater_eq [where ?'a = int, of w] by (intro signed_take_bit_int_eq_self) linarith+
  then show "0 \<le> sint w" by (simp only: sint_uint) simp
qed

text \<open>A length is not negative unless it has four bytes and the first has its top bit set.\<close>

lemma length_nonneg:
  assumes "n \<le> 4" "n = 4 \<Longrightarrow> (case byte_at der pos of Some b \<Rightarrow> b < 0x80 | None \<Rightarrow> True)"
  shows "0 \<le> sint (length_bytes der pos n 0)"
proof (cases "n = 4")
  case True
  let ?first = "push_bit 8 (0 :: 32 word) OR (case byte_at der pos of Some b \<Rightarrow> ucast b | None \<Rightarrow> 0)"
  have "uint ?first < 2 ^ 7"
  proof (cases "byte_at der pos")
    case (Some b)
    then have "b < 0x80" using assms(2) True by simp
    then have "uint b < 128" by (simp add: word_less_def)
    then show ?thesis using Some by (simp add: uint_widen del: unsigned_ucast_eq)
  qed simp
  then have "uint (length_bytes der (pos + 1) 3 ?first) < 2 ^ (7 + 8 * 3)" by (rule length_bytes_bound) simp
  moreover have "length_bytes der pos n 0 = length_bytes der (pos + 1) 3 ?first"
    using True length_bytes.simps(2) [of der pos 3 0] by simp
  ultimately show ?thesis by (simp add: sint_small)
next
  case False
  then have n: "n \<le> 3" using assms(1) by simp
  have "uint (length_bytes der pos n 0) < 2 ^ (0 + 8 * n)" by (rule length_bytes_bound) (use n in simp_all)
  also have "(2 :: int) ^ (0 + 8 * n) \<le> 2 ^ 31" by (rule power_increasing) (use n in simp_all)
  finally show ?thesis by (rule sint_small)
qed

subsection \<open>Elements\<close>

lemma byte_at_Some: "byte_at der i = Some b \<Longrightarrow> 0 \<le> i \<and> i < int (length der) \<and> b = der ! nat i"
  by (simp add: byte_at_def split: if_splits)

lemma parseTlv_Ok:
  assumes "parseTlv der offset = Ok tlv"
  shows "tlv_tag tlv = byte_at der offset" "offset + 2 \<le> tlv_contentStart tlv"
    "tlv_contentStart tlv + tlv_contentLength tlv \<le> int (length der)"
    "tlv_totalLength tlv = tlv_contentStart tlv - offset + tlv_contentLength tlv"
  using assms
  by (auto simp: parseTlv_def Let_def split: if_splits option.splits)

text \<open>
  A buffer in which no four-byte length has its top bit set. In such a buffer every element
  moves the scan forward.
\<close>

definition plain_lengths :: "8 word list \<Rightarrow> bool" where
  "plain_lengths der \<longleftrightarrow> list_all (\<lambda>i. if der ! i = 0x84 then der ! Suc i < 0x80 else True) [0..<length der - 1]"

lemma plain_lengths_at:
  assumes "plain_lengths der" "byte_at der i = Some b" "b = 0x84"
  shows "case byte_at der (i + 1) of Some c \<Rightarrow> c < 0x80 | None \<Rightarrow> True"
proof (cases "byte_at der (i + 1)")
  case (Some c)
  note b = byte_at_Some [OF assms(2)] and c = byte_at_Some [OF Some]
  have "nat i < length der - 1" using b c by linarith
  then have "der ! nat i = 0x84 \<Longrightarrow> der ! Suc (nat i) < 0x80"
    using assms(1) by (simp add: plain_lengths_def list_all_iff)
  then show ?thesis using b c assms(3) Some by (simp add: nat_add_distrib)
qed simp

lemma four_length_bytes: "unat (b AND 0x7f) = 4 \<Longrightarrow> \<not> b < 0x80 \<Longrightarrow> b = (0x84 :: 8 word)"
proof -
  assume h: "unat (b AND 0x7f) = 4" "\<not> b < 0x80"
  have "b AND 0x7f = take_bit 7 b" by (simp add: take_bit_eq_mask mask_eq_exp_minus_1)
  then have "unat (b AND 0x7f) = take_bit 7 (unat b)"
    by (simp only: unsigned_take_bit_eq)
  then have "unat (b AND 0x7f) = unat b mod 128" by (simp add: take_bit_eq_mod)
  moreover have "128 \<le> unat b" "unat b < 256"
    using h(2) unat_byte [of b] by (simp_all add: word_less_nat_alt)
  moreover have "unat b mod 128 = unat b - 128"
    using calculation by (subst le_mod_geq) simp_all
  ultimately have "unat b = 132" using h(1) by linarith
  then have "unat b = unat (0x84 :: 8 word)" by simp
  then show ?thesis by (simp only: word_eq_iff_unsigned [where ?'a = nat])
qed

lemma parseTlv_forward:
  assumes "plain_lengths der" "parseTlv der offset = Ok tlv"
  shows "0 \<le> tlv_contentLength tlv"
proof -
  have nonneg: "0 \<le> sint (length_bytes der (offset + 1 + 1) (unat (b AND 0x7f)) 0)"
    if "byte_at der (offset + 1) = Some b" "\<not> b < 0x80" "unat (b AND 0x7f) \<le> 4" for b
    using length_nonneg [of "unat (b AND 0x7f)" der "offset + 2"] that
      plain_lengths_at [OF assms(1) that(1)] four_length_bytes by (auto simp: add.commute)
  show ?thesis using assms(2) nonneg
    by (auto simp: parseTlv_def Let_def not_less split: if_splits option.splits)
qed

subsection \<open>The scan\<close>

lemma findSpki_loop_returns:
  assumes "plain_lengths der"
  shows "findSpki_loop der rangeEnd pos \<noteq> None"
proof (induction "nat (rangeEnd - pos)" arbitrary: pos rule: less_induct)
  case less
  show ?case
  proof (cases "pos < rangeEnd")
    case True
    have "findSpki_loop der rangeEnd (pos + tlv_totalLength tlv) \<noteq> None" if "parseTlv der pos = Ok tlv" for tlv
      using parseTlv_Ok [OF that] parseTlv_forward [OF assms that] True by (intro less) linarith
    then show ?thesis
      by (subst findSpki_loop.simps) (simp add: True split: result.split)
  qed (simp add: findSpki_loop.simps)
qed

lemma findSpki_loop_Some:
  assumes "findSpki_loop der rangeEnd pos = Some (Some (s, l))"
  shows "\<exists>inner. parseTlv der s = Ok inner \<and> tlv_tag inner = Some TAG_SEQUENCE \<and>
    bytesMatch der (tlv_contentStart inner) EC_PUBLIC_KEY_OID"
proof -
  have "case Some (s, l) of Some (s, l) \<Rightarrow>
      \<exists>inner. parseTlv der s = Ok inner \<and> tlv_tag inner = Some TAG_SEQUENCE \<and>
        bytesMatch der (tlv_contentStart inner) EC_PUBLIC_KEY_OID | None \<Rightarrow> True"
  proof (rule findSpki_loop.raw_induct
      [where P = "\<lambda>der rangeEnd pos r. case r of Some (s, l) \<Rightarrow>
         \<exists>inner. parseTlv der s = Ok inner \<and> tlv_tag inner = Some TAG_SEQUENCE \<and>
           bytesMatch der (tlv_contentStart inner) EC_PUBLIC_KEY_OID | None \<Rightarrow> True", OF _ assms])
    fix loop :: "8 word list \<Rightarrow> int \<Rightarrow> int \<Rightarrow> (int \<times> int) option option" and der rangeEnd pos r
    assume IH: "\<And>der rangeEnd pos r. loop der rangeEnd pos = Some r \<Longrightarrow>
        case r of Some (s, l) \<Rightarrow> \<exists>inner. parseTlv der s = Ok inner \<and> tlv_tag inner = Some TAG_SEQUENCE \<and>
           bytesMatch der (tlv_contentStart inner) EC_PUBLIC_KEY_OID | None \<Rightarrow> True"
      and body: "(if pos < rangeEnd
         then case parseTlv der pos of
                Ok tlv \<Rightarrow>
                  if tlv_tag tlv = Some TAG_SEQUENCE \<and>
                     (case parseTlv der (tlv_contentStart tlv) of
                        Ok inner \<Rightarrow> tlv_tag inner = Some TAG_SEQUENCE \<and>
                                    bytesMatch der (tlv_contentStart inner) EC_PUBLIC_KEY_OID
                      | Err _ \<Rightarrow> False)
                  then Some (Some (tlv_contentStart tlv, tlv_contentLength tlv))
                  else loop der rangeEnd (pos + tlv_totalLength tlv)
              | Err _ \<Rightarrow> Some None
         else Some None) = Some r"
    show "case r of Some (s, l) \<Rightarrow> \<exists>inner. parseTlv der s = Ok inner \<and> tlv_tag inner = Some TAG_SEQUENCE \<and>
           bytesMatch der (tlv_contentStart inner) EC_PUBLIC_KEY_OID | None \<Rightarrow> True"
      using body IH by (auto split: if_splits result.splits)
  qed
  then show ?thesis by simp
qed

lemma oid_lengths: "length EC_PUBLIC_KEY_OID = 9" "length SECP256R1_OID = 10"
    "EC_PUBLIC_KEY_OID \<noteq> []" "SECP256R1_OID \<noteq> []"
  by (simp_all add: EC_PUBLIC_KEY_OID_def SECP256R1_OID_def)

lemma bytesMatch_length: "bytesMatch der i p \<Longrightarrow> i + int (length p) \<le> int (length der)"
  by (simp add: bytesMatch_def split: if_splits)

lemma bytesMatch_sublist:
  assumes "bytesMatch der i p" "p \<noteq> []"
  shows "0 \<le> i \<and> take (length p) (drop (nat i) der) = p"
proof -
  have at: "byte_at der (i + int j) = Some (p ! j)" if "j < length p" for j
    using assms(1) that by (simp add: bytesMatch_def list_all_iff split: if_splits)
  have "0 \<le> i" using at [of 0] assms(2) byte_at_Some by fastforce
  moreover have "take (length p) (drop (nat i) der) = p"
  proof (rule nth_equalityI)
    show "length (take (length p) (drop (nat i) der)) = length p"
      using bytesMatch_length [OF assms(1)] \<open>0 \<le> i\<close> by simp
    fix j assume "j < length (take (length p) (drop (nat i) der))"
    moreover from this have "nat i \<le> length der" by (simp add: less_diff_conv)
    ultimately show "take (length p) (drop (nat i) der) ! j = p ! j"
      using byte_at_Some [OF at [of j]] \<open>0 \<le> i\<close> by (simp add: nat_add_distrib nth_drop)
  qed
  ultimately show ?thesis by simp
qed

lemma js_slice_inside:
  "0 \<le> a \<Longrightarrow> a \<le> b \<Longrightarrow> b \<le> int (length der) \<Longrightarrow> js_slice der a b = take (nat (b - a)) (drop (nat a) der)"
  by (simp add: js_slice_def Let_def)

lemma extract_from_spki_Ok:
  assumes "extract_from_spki der s = Ok key"
  shows "length key = 65 \<and> hd key = 0x04 \<and>
    (\<exists>alg k. take 19 (drop alg der) = EC_PUBLIC_KEY_OID @ SECP256R1_OID \<and>
       key = take 65 (drop k der) \<and> k + 65 \<le> length der \<and> 0 < k \<and> der ! (k - 1) = 0)"
proof -
  obtain algId where alg: "parseTlv der s = Ok algId"
      "bytesMatch der (tlv_contentStart algId) EC_PUBLIC_KEY_OID"
      "bytesMatch der (tlv_contentStart algId + int (length EC_PUBLIC_KEY_OID)) SECP256R1_OID"
    using assms by (auto simp: extract_from_spki_def split: result.splits if_splits)
  obtain bs where bs: "parseTlv der (s + tlv_totalLength algId) = Ok bs"
      "byte_at der (tlv_contentStart bs) = Some 0" "tlv_contentLength bs = 66"
      "key = js_slice der (tlv_contentStart bs + 1) (tlv_contentStart bs + 1 + 65)"
      "byte_at key 0 = Some UNCOMPRESSED_POINT_PREFIX"
    using assms alg
    by (auto simp: extract_from_spki_def P256_UNCOMPRESSED_LENGTH_def Let_def split: result.splits if_splits)
  have b: "0 \<le> tlv_contentStart bs" "tlv_contentStart bs + 66 \<le> int (length der)" "der ! nat (tlv_contentStart bs) = 0"
    using byte_at_Some [OF bs(2)] parseTlv_Ok(3) [OF bs(1)] bs(3) by simp_all
  define k where "k = nat (tlv_contentStart bs + 1)"
  have k: "key = take 65 (drop k der)" "k + 65 \<le> length der" "0 < k" "der ! (k - 1) = 0"
    using bs(4) b by (simp_all add: js_slice_inside k_def nat_add_distrib)
  then have len: "length key = 65" by simp
  then have "hd key = 0x04"
    using bs(5) byte_at_Some [OF bs(5)] by (cases key) (simp_all add: UNCOMPRESSED_POINT_PREFIX_def)
  moreover have "\<exists>alg. take 19 (drop alg der) = EC_PUBLIC_KEY_OID @ SECP256R1_OID"
  proof -
    let ?a = "nat (tlv_contentStart algId)"
    have one: "0 \<le> tlv_contentStart algId" "take 9 (drop ?a der) = EC_PUBLIC_KEY_OID"
      using bytesMatch_sublist [OF alg(2)] by (simp_all add: oid_lengths)
    have two: "take 10 (drop (?a + 9) der) = SECP256R1_OID"
      using bytesMatch_sublist [OF alg(3)] one(1) by (simp add: oid_lengths nat_add_distrib)
    have "take 19 (drop ?a der) = take 9 (drop ?a der) @ take 10 (drop 9 (drop ?a der))"
      using take_add [of 9 10 "drop ?a der"] by simp
    then show ?thesis using one(2) two by (metis add.commute drop_drop)
  qed
  ultimately show ?thesis using len k by blast
qed

subsection \<open>Properties\<close>

text \<open>A small certificate: a serial number and a key.\<close>

definition sample_certificate :: string where
  "sample_certificate =
     ''MGAwXgIBBTBZMBMGByqGSM49AgEGCCqGSM49AwEHA0IABAcHBwcHBwcHBwcHBwcHBwcHBwcHBwcHBwcHBwcHBwcHBwcHBwcHBwcHBwcHBwcHBwcHBwcHBwcHBwcHBwcHBwc=''"

definition sample_der :: "8 word list" where
  "sample_der = the (atob sample_certificate)"

lemma sample_text: "atob sample_certificate = Some sample_der"
  by code_simp

lemma sample_outer:
  "parseTlv sample_der 0 =
     Ok \<lparr>tlv_tag = Some 0x30, tlv_contentStart = 2, tlv_contentLength = 96, tlv_totalLength = 98\<rparr>"
  "parseTlv sample_der 2 =
     Ok \<lparr>tlv_tag = Some 0x30, tlv_contentStart = 4, tlv_contentLength = 94, tlv_totalLength = 96\<rparr>"
  by code_simp+

lemma sample_elements:
  "parseTlv sample_der 4 =
     Ok \<lparr>tlv_tag = Some 2, tlv_contentStart = 6, tlv_contentLength = 1, tlv_totalLength = 3\<rparr>"
  "parseTlv sample_der 7 =
     Ok \<lparr>tlv_tag = Some 0x30, tlv_contentStart = 9, tlv_contentLength = 89, tlv_totalLength = 91\<rparr>"
  "parseTlv sample_der 9 =
     Ok \<lparr>tlv_tag = Some 0x30, tlv_contentStart = 11, tlv_contentLength = 19, tlv_totalLength = 21\<rparr>"
  "bytesMatch sample_der 11 EC_PUBLIC_KEY_OID"
  by code_simp+

lemma sample_scan: "findSpki sample_der 4 98 = Some (Some (9, 89))"
  by (simp add: findSpki_def findSpki_loop.simps [of sample_der 98 4] findSpki_loop.simps [of sample_der 98 7]
      sample_elements TAG_SEQUENCE_def)

lemma sample_key: "extract_from_spki sample_der 9 = Ok (4 # replicate 64 7)"
  by code_simp

text \<open>A key extracted from a certificate is 65 bytes of the certificate that begin with the
  prefix of an uncompressed point and follow a zero byte, and the certificate holds the object
  identifiers of an elliptic-curve key on the curve P-256, one after the other.\<close>

theorem extracted_key_sound:
  assumes "extractP256PublicKey cert = Some (Ok key)"
  shows "length key = 65 \<and> hd key = 0x04 \<and>
    (case atob cert of
       None \<Rightarrow> False
     | Some der \<Rightarrow>
         (\<exists>alg k. take 19 (drop alg der) = EC_PUBLIC_KEY_OID @ SECP256R1_OID \<and>
            key = take 65 (drop k der) \<and> k + 65 \<le> length der \<and> 0 < k \<and> der ! (k - 1) = 0))"
proof -
  obtain der where der: "atob cert = Some der" "extract_from_der der = Some (Ok key)"
    using assms by (auto simp: extractP256PublicKey_def split: option.splits)
  then obtain s where "extract_from_spki der s = Ok key"
    by (auto simp: extract_from_der_def split: option.splits result.splits if_splits)
  then show ?thesis using extract_from_spki_Ok der(1) by fastforce
qed

theorem extracted_key_sound_witness:
  "case extractP256PublicKey sample_certificate of
     Some (Ok key) \<Rightarrow> length key = 65 \<and> hd key = 0x04
   | _ \<Rightarrow> False"
proof -
  have "extractP256PublicKey sample_certificate = Some (Ok (4 # replicate 64 7))"
    by (simp add: extractP256PublicKey_def sample_text extract_from_der_def sample_outer sample_scan
        sample_key TAG_SEQUENCE_def)
  from extracted_key_sound [OF this] this show ?thesis by simp
qed



text \<open>A certificate of ten bytes whose third element says that its content has minus six bytes.\<close>

definition crafted_der :: "8 word list" where
  "crafted_der = [0x30, 8, 0x30, 6, 2, 0x84, 0xff, 0xff, 0xff, 0xfa]"

lemma crafted_element:
  "parseTlv crafted_der 4 =
     Ok \<lparr>tlv_tag = Some 2, tlv_contentStart = 10, tlv_contentLength = -6, tlv_totalLength = 0\<rparr>"
  by code_simp

lemma crafted_scan: "findSpki_loop crafted_der 10 4 = None"
proof (rule ccontr)
  assume "findSpki_loop crafted_der 10 4 \<noteq> None"
  then obtain r where "findSpki_loop crafted_der 10 4 = Some r" by blast
  then have "crafted_der = crafted_der \<longrightarrow> (10 :: int) = 10 \<longrightarrow> (4 :: int) = 4 \<longrightarrow> False"
  proof (rule findSpki_loop.raw_induct
      [where P = "\<lambda>der rangeEnd pos r. der = crafted_der \<longrightarrow> rangeEnd = 10 \<longrightarrow> pos = 4 \<longrightarrow> False", rotated])
    fix loop :: "8 word list \<Rightarrow> int \<Rightarrow> int \<Rightarrow> (int \<times> int) option option" and der rangeEnd pos r
    assume IH: "\<And>der rangeEnd pos r. loop der rangeEnd pos = Some r \<Longrightarrow>
        der = crafted_der \<longrightarrow> rangeEnd = 10 \<longrightarrow> pos = 4 \<longrightarrow> False"
      and body: "(if pos < rangeEnd
         then case parseTlv der pos of
                Ok tlv \<Rightarrow>
                  if tlv_tag tlv = Some TAG_SEQUENCE \<and>
                     (case parseTlv der (tlv_contentStart tlv) of
                        Ok inner \<Rightarrow> tlv_tag inner = Some TAG_SEQUENCE \<and>
                                    bytesMatch der (tlv_contentStart inner) EC_PUBLIC_KEY_OID
                      | Err _ \<Rightarrow> False)
                  then Some (Some (tlv_contentStart tlv, tlv_contentLength tlv))
                  else loop der rangeEnd (pos + tlv_totalLength tlv)
              | Err _ \<Rightarrow> Some None
         else Some None) = Some r"
    show "der = crafted_der \<longrightarrow> rangeEnd = 10 \<longrightarrow> pos = 4 \<longrightarrow> False"
      using body IH [of crafted_der 10 4 r] by (auto simp: crafted_element TAG_SEQUENCE_def)
  qed
  then show False by simp
qed

lemma crafted_outer:
  "parseTlv crafted_der 0 =
     Ok \<lparr>tlv_tag = Some 0x30, tlv_contentStart = 2, tlv_contentLength = 8, tlv_totalLength = 10\<rparr>"
  "parseTlv crafted_der 2 =
     Ok \<lparr>tlv_tag = Some 0x30, tlv_contentStart = 4, tlv_contentLength = 6, tlv_totalLength = 8\<rparr>"
  by code_simp+

lemma crafted_text: "atob ''MAgwBgKE////+g=='' = Some crafted_der"
  by code_simp

text \<open>The extraction does not return on a certificate with an element whose four-byte length
  is read as a negative number that undoes the element's header: the scan stays where it is.\<close>

theorem crafted_certificate_hangs:
  "extractP256PublicKey ''MAgwBgKE////+g=='' = None"
  by (simp add: extractP256PublicKey_def crafted_text extract_from_der_def crafted_outer
      TAG_SEQUENCE_def findSpki_def crafted_scan)

end
