(* ===== verification/TextOps.thy ===== *)
theory TextOps
  imports Prelude
begin

text \<open>
  Operations on text that several parts of the program use: splitting and joining, prefixes and
  suffixes, lower case, decimal numbers; with the round trips that parsers rest on.
\<close>

subsection \<open>Case, prefixes and suffixes\<close>

definition to_lower_char :: "char \<Rightarrow> char" where
  "to_lower_char c =
     (let n = of_char c in if (65 :: nat) \<le> n \<and> n \<le> 90 then char_of (n + 32) else c)"

definition to_lower :: "string \<Rightarrow> string" where
  "to_lower s = map to_lower_char s"

fun is_infix :: "string \<Rightarrow> string \<Rightarrow> bool" where
  "is_infix p [] = (p = [])"
| "is_infix p (c # s) = (starts_with (c # s) p \<or> is_infix p s)"

definition ends_with :: "string \<Rightarrow> string \<Rightarrow> bool" where
  "ends_with s p = starts_with (rev s) (rev p)"

definition drop_prefix :: "string \<Rightarrow> string \<Rightarrow> string" where
  "drop_prefix p s = (if starts_with s p then drop (length p) s else s)"

definition drop_suffix :: "string \<Rightarrow> string \<Rightarrow> string" where
  "drop_suffix p s = (if ends_with s p then take (length s - length p) s else s)"

text \<open>White space of the language, within the first 256 code units, and \<open>trim\<close>.\<close>

definition is_js_space :: "char \<Rightarrow> bool" where
  "is_js_space c \<longleftrightarrow> (of_char c :: nat) \<in> {9, 10, 11, 12, 13, 32, 160}"

definition js_trim :: "string \<Rightarrow> string" where
  "js_trim s = rev (dropWhile is_js_space (rev (dropWhile is_js_space s)))"

subsection \<open>Splitting and joining\<close>

fun split_on :: "char \<Rightarrow> string \<Rightarrow> string list" where
  "split_on d [] = [[]]"
| "split_on d (c # s) =
     (if c = d then [] # split_on d s
      else case split_on d s of p # ps \<Rightarrow> (c # p) # ps | [] \<Rightarrow> [[c]])"

lemma split_on_not_Nil [simp]: "split_on d s \<noteq> []"
  by (cases s) (auto split: list.split)

lemma split_on_append: "d \<notin> set x \<Longrightarrow> split_on d (x @ d # s) = x # split_on d s"
  by (induction x) auto

lemma split_on_plain: "d \<notin> set x \<Longrightarrow> split_on d x = [x]"
  by (induction x) auto

lemma split_join:
  "xs \<noteq> [] \<Longrightarrow> (\<And>x. x \<in> set xs \<Longrightarrow> d \<notin> set x) \<Longrightarrow> split_on d (join_with [d] xs) = xs"
proof (induction "[d]" xs rule: join_with.induct)
  case (3 x y xs)
  then show ?case using split_on_append [of d x] by simp
qed (simp_all add: split_on_plain)

lemma join_split: "join_with [d] (split_on d s) = s"
proof (induction s)
  case (Cons c s)
  obtain p ps where "split_on d s = p # ps" by (cases "split_on d s") auto
  then show ?case using Cons by (cases ps) auto
qed simp

lemma split_on_parts: "x \<in> set (split_on d s) \<Longrightarrow> d \<notin> set x"
proof (induction s arbitrary: x)
  case (Cons c s)
  then show ?case by (cases "split_on d s") (auto split: if_splits)
qed simp

lemma space_split:
  "x @ c # s = y @ c # t \<Longrightarrow> c \<notin> set x \<Longrightarrow> c \<notin> set y \<Longrightarrow> x = y \<and> s = t"
proof (induction x arbitrary: y)
  case Nil
  then show ?case by (cases y) auto
next
  case (Cons a x)
  then show ?case by (cases y) auto
qed

subsection \<open>Decimal numbers\<close>

definition is_digit :: "char \<Rightarrow> bool" where
  "is_digit c \<longleftrightarrow> (48 :: nat) \<le> of_char c \<and> of_char c \<le> (57 :: nat)"

definition decimal_value :: "string \<Rightarrow> nat" where
  "decimal_value s = foldl (\<lambda>a c. a * 10 + (of_char c - 48)) 0 s"

lemma digit_chars: "c \<in> set (digits_of n) \<Longrightarrow> c \<noteq> CHR '' ''"
proof (induction n rule: digits_of.induct)
  case (1 n)
  have d: "char_of (48 + k) \<noteq> CHR '' ''" if "k < 10" for k :: nat
  proof
    assume "char_of (48 + k) = CHR '' ''"
    then have "(of_char (char_of (48 + k) :: char) :: nat) = of_char CHR '' ''" by (rule arg_cong)
    then have "(48 + k) mod 256 = (32 :: nat)" by (simp only: of_char_of) simp
    then show False using that by simp
  qed
  show ?case
    using 1 d [of n] d [of "n mod 10"] by (subst (asm) (2) digits_of.simps) (auto split: if_splits)
qed

lemma decimal_value_digits: "decimal_value (digits_of n) = n"
proof (induction n rule: digits_of.induct)
  case (1 n)
  have d: "k < 10 \<Longrightarrow> of_char (char_of (48 + k) :: char) - 48 = k" for k :: nat by simp
  show ?case
  proof (cases "n < 10")
    case True
    then show ?thesis using d [of n] by (subst digits_of.simps) (simp add: decimal_value_def)
  next
    case False
    then have "decimal_value (digits_of (n div 10)) = n div 10" using 1 by simp
    then show ?thesis using False d [of "n mod 10"] by (subst digits_of.simps) (simp add: decimal_value_def)
  qed
qed

lemma digits_of_inj: "digits_of m = digits_of n \<longleftrightarrow> m = n"
  by (metis decimal_value_digits)

lemma digit_char_of: "k < 10 \<Longrightarrow> is_digit (char_of (48 + k :: nat))"
proof -
  assume "k < 10"
  moreover have "of_char (char_of (48 + k) :: char) = (48 + k) mod (256 :: nat)" by (simp only: of_char_of)
  ultimately show ?thesis by (simp add: is_digit_def)
qed

lemma digits_nonempty [simp]: "digits_of n \<noteq> []"
  by (subst digits_of.simps) simp

lemma digits_are_digits: "list_all is_digit (digits_of n)"
proof (induction n rule: digits_of.induct)
  case (1 n)
  then show ?case
    using digit_char_of [of n] digit_char_of [of "n mod 10"]
    by (subst digits_of.simps) (simp del: char_of_nat)
qed

lemma digit_not: "list_all is_digit s \<Longrightarrow> \<not> is_digit c \<Longrightarrow> c \<notin> set s"
  by (auto simp: list_all_iff)

subsection \<open>Bytes\<close>

lemma unat_of_char: "unat (of_char c :: 8 word) = of_char c"
proof -
  have "(of_char c :: 8 word) = of_nat (of_char c)" by (rule of_nat_of_char [symmetric])
  then have "unat (of_char c :: 8 word) = of_char c mod 2 ^ 8"
    by (simp only: unat_of_nat) simp
  then show ?thesis using nat_of_char_less_256 [of c] by simp
qed

lemma inj_char_byte: "inj (of_char :: char \<Rightarrow> 8 word)"
  by (rule injI) (metis of_char_eq_iff unat_of_char)

lemma char_byte_roundtrip: "char_of (unat (of_char c :: 8 word)) = c"
  by (simp only: unat_of_char char_of_char)

subsection \<open>Percent encoding\<close>

definition hex_digit_upper :: "nat \<Rightarrow> char" where
  "hex_digit_upper n = ''0123456789ABCDEF'' ! n"

definition encodeURIComponent :: "string \<Rightarrow> string" where
  "encodeURIComponent s =
     concat (map (\<lambda>c. let n = of_char c :: nat
        in if (65 \<le> n \<and> n \<le> 90) \<or> (97 \<le> n \<and> n \<le> 122) \<or> (48 \<le> n \<and> n \<le> 57) \<or>
              c \<in> set ''-_.!~*'' \<or> n \<in> {39, 40, 41}
           then [c]
           else [CHR ''%'', hex_digit_upper (n div 16), hex_digit_upper (n mod 16)]) s)"

definition hex_digit_value :: "char \<Rightarrow> nat option" where
  "hex_digit_value c =
     (let n = of_char c :: nat
      in if 48 \<le> n \<and> n \<le> 57 then Some (n - 48)
         else if 65 \<le> n \<and> n \<le> 70 then Some (n - 55)
         else if 97 \<le> n \<and> n \<le> 102 then Some (n - 87) else None)"

text \<open>\<open>decodeURIComponent\<close>; the check that the decoded bytes are UTF-8 is an argument.\<close>

fun percent_decode :: "string \<Rightarrow> string option" where
  "percent_decode [] = Some []"
| "percent_decode (c # s) =
     (if c = CHR ''%''
      then (case s of
              a # b # r \<Rightarrow>
                (case (hex_digit_value a, hex_digit_value b) of
                   (Some x, Some y) \<Rightarrow> map_option (\<lambda>t. char_of (x * 16 + y) # t) (percent_decode r)
                 | _ \<Rightarrow> None)
            | _ \<Rightarrow> None)
      else map_option (\<lambda>t. c # t) (percent_decode s))"

definition decodeURIComponent :: "(string \<Rightarrow> bool) \<Rightarrow> string \<Rightarrow> string option" where
  "decodeURIComponent is_utf8 s =
     (case percent_decode s of None \<Rightarrow> None | Some t \<Rightarrow> if is_utf8 t then Some t else None)"

lemma hex_digits_value: "list_all (\<lambda>n. hex_digit_value (hex_digit_upper n) = Some n) [0..<16]"
  by code_simp

lemma percent_decode_encode: "percent_decode (encodeURIComponent s) = Some s"
proof (induction s)
  case (Cons c s)
  have hex: "n < 16 \<Longrightarrow> hex_digit_value (hex_digit_upper n) = Some n" for n
    using hex_digits_value by (simp add: list_all_iff)
  let ?n = "of_char c :: nat"
  have "?n div 16 < 16" "?n mod 16 < 16" "?n div 16 * 16 + ?n mod 16 = ?n"
    using nat_of_char_less_256 [of c] by (simp_all only: less_mult_imp_div_less) simp_all
  moreover have "c \<noteq> CHR ''%''"
    if "(65 \<le> ?n \<and> ?n \<le> 90) \<or> (97 \<le> ?n \<and> ?n \<le> 122) \<or> (48 \<le> ?n \<and> ?n \<le> 57) \<or>
        c \<in> set ''-_.!~*'' \<or> ?n \<in> {39, 40, 41}"
    using that by auto
  ultimately show ?case using Cons hex
    by (simp add: encodeURIComponent_def Let_def)
qed (simp add: encodeURIComponent_def)

lemma encodeURIComponent_inj: "encodeURIComponent s = encodeURIComponent t \<longleftrightarrow> s = t"
  by (metis option.inject percent_decode_encode)

end
