(* ===== verification/Dsse.thy ===== *)
theory Dsse
  imports Base64 TextOps
begin

unbundle bit_operations_syntax

text \<open>
  Verification of the signature on a DSSE envelope
  (\<^verbatim>\<open>packages/verifier/src/checks/dsse-verify.ts\<close>): the pre-authentication encoding, the
  conversion of a DER signature to 64 bytes, and the check. A text stands for its UTF-8 bytes.
  The elliptic-curve check \<open>p256.verify\<close> is an argument; its value \<open>None\<close> means that it throws.
\<close>

definition utf8 :: "string \<Rightarrow> 8 word list" where
  "utf8 s = map of_char s"

subsection \<open>Pre-authentication encoding\<close>

definition computePae :: "string \<Rightarrow> 8 word list \<Rightarrow> 8 word list" where
  "computePae payloadType payload =
     (let typeBytes = utf8 payloadType;
          typeLenStr = digits_of (length typeBytes);
          bodyLenStr = digits_of (length payload);
          prefix = utf8 (''DSSEv1 '' @ typeLenStr @ '' '');
          middle = utf8 ('' '' @ bodyLenStr @ '' '')
      in prefix @ typeBytes @ middle @ payload)"

subsection \<open>DER signatures\<close>

definition COMPACT_SIG_LENGTH :: nat where
  "COMPACT_SIG_LENGTH = 64"

text \<open>\<open>dst.set(bytes, offset)\<close>.\<close>

definition set_bytes :: "'a list \<Rightarrow> nat \<Rightarrow> 'a list \<Rightarrow> 'a list" where
  "set_bytes dst offset bytes = take offset dst @ bytes @ drop (offset + length bytes) dst"

text \<open>
  A length byte that is missing from the buffer is \<open>undefined\<close>: it is neither too large nor
  short enough to pad, and it copies nothing.
\<close>

definition copyIntegerToFixed ::
  "8 word list \<Rightarrow> nat \<Rightarrow> nat option \<Rightarrow> 8 word list \<Rightarrow> nat \<Rightarrow> nat \<Rightarrow> (8 word list, string) result" where
  "copyIntegerToFixed src srcOffset srcLen dst dstOffset fieldSize =
     (case srcLen of
        None \<Rightarrow> Ok dst
      | Some n \<Rightarrow>
          let strip = fieldSize < n \<and> srcOffset < length src \<and> src ! srcOffset = 0;
              start = (if strip then srcOffset + 1 else srcOffset);
              len = (if strip then n - 1 else n)
          in if fieldSize < len
             then Err (''DER integer too large: '' @ digits_of len @ '' bytes for '' @ digits_of fieldSize @ ''-byte field'')
             else
               let padLen = fieldSize - len;
                   dst = (if 0 < padLen then set_bytes dst dstOffset (replicate padLen 0) else dst)
               in Ok (set_bytes dst (dstOffset + padLen) (take len (drop start src))))"

definition byte_is :: "8 word list \<Rightarrow> nat \<Rightarrow> 8 word \<Rightarrow> bool" where
  "byte_is der i b \<longleftrightarrow> i < length der \<and> der ! i = b"

definition length_byte :: "8 word list \<Rightarrow> nat \<Rightarrow> nat option" where
  "length_byte der i = (if i < length der then Some (unat (der ! i)) else None)"

definition derSigToCompact :: "8 word list \<Rightarrow> (8 word list, string) result" where
  "derSigToCompact der =
     (if length der = COMPACT_SIG_LENGTH then Ok der
      else if length der < 8 \<or> \<not> byte_is der 0 0x30 then Err ''Not a DER-encoded signature''
      else
        let pos = (if 0x80 \<le> der ! 1 then 2 + unat (der ! 1 AND 0x7f) else 2);
            sigBytes = replicate COMPACT_SIG_LENGTH 0
        in if \<not> byte_is der pos 0x02 then Err ''Expected INTEGER tag for r''
           else
             let rLen = length_byte der (pos + 1)
             in case copyIntegerToFixed der (pos + 2) rLen sigBytes 0 32 of
                  Err e \<Rightarrow> Err e
                | Ok sigBytes \<Rightarrow>
                    (case rLen of
                       None \<Rightarrow> Err ''Expected INTEGER tag for s''
                     | Some n \<Rightarrow>
                         let pos = pos + 2 + n
                         in if \<not> byte_is der pos 0x02 then Err ''Expected INTEGER tag for s''
                            else copyIntegerToFixed der (pos + 2) (length_byte der (pos + 1)) sigBytes 32 32))"

subsection \<open>The check\<close>

record dsse_signature =
  ds_sig :: string
  ds_keyid :: string

record dsse_envelope =
  de_payload :: string
  de_payloadType :: string
  de_signatures :: "dsse_signature list"

type_synonym p256_verify = "8 word list \<Rightarrow> 8 word list \<Rightarrow> 8 word list \<Rightarrow> bool option"

definition verifyDsseSignature ::
  "p256_verify \<Rightarrow> dsse_envelope \<Rightarrow> 8 word list \<Rightarrow> (unit, string) result" where
  "verifyDsseSignature p256 dsseEnvelope publicKey =
     (case List.find (\<lambda>s. 0 < length (ds_sig s)) (de_signatures dsseEnvelope) of
        None \<Rightarrow> Err ''No non-empty signature in DSSE envelope''
      | Some sigEntry \<Rightarrow>
          (case atob (ds_sig sigEntry) of
             None \<Rightarrow> Err ''Signature is not valid base64''
           | Some sigDerBytes \<Rightarrow>
               (case derSigToCompact sigDerBytes of
                  Err e \<Rightarrow> Err (''Signature format error: '' @ e)
                | Ok sigBytes \<Rightarrow>
                    (case atob (de_payload dsseEnvelope) of
                       None \<Rightarrow> Err ''Payload is not valid base64''
                     | Some payloadBytes \<Rightarrow>
                         let pae = computePae (de_payloadType dsseEnvelope) payloadBytes
                         in case p256 sigBytes pae publicKey of
                              None \<Rightarrow> Err ''Signature verification threw an error''
                            | Some False \<Rightarrow> Err ''DSSE signature is invalid''
                            | Some True \<Rightarrow> Ok ()))))"

subsection \<open>The encoding is injective\<close>

lemma utf8_append: "utf8 (s @ t) = utf8 s @ utf8 t"
  by (simp add: utf8_def)

lemma inj_utf8: "utf8 s = utf8 t \<longleftrightarrow> s = t"
  by (auto simp: utf8_def inj_map_eq_map [OF inj_char_byte])

lemma utf8_space: "CHR '' '' \<notin> set s \<Longrightarrow> of_char CHR '' '' \<notin> set (utf8 s)"
  using inj_char_byte unfolding utf8_def by (metis inj_image_mem_iff list.set_map)

text \<open>Reading the length before a space gives back the length and what follows the space.\<close>

lemma counted_split:
  assumes "utf8 (digits_of m) @ of_char CHR '' '' # s = utf8 (digits_of n) @ of_char CHR '' '' # t"
  shows "m = n \<and> s = t"
  using space_split [OF assms] digit_chars utf8_space by (metis digits_of_inj inj_utf8)

lemma computePae_eq:
  "computePae ty body = utf8 ''DSSEv1 '' @ utf8 (digits_of (length ty)) @ of_char CHR '' '' #
     utf8 ty @ of_char CHR '' '' # utf8 (digits_of (length body)) @ of_char CHR '' '' # body"
  by (simp add: computePae_def Let_def utf8_def)

text \<open>Two envelopes with the same pre-authentication encoding have the same payload type and
  the same payload: a signature over the encoding of one cannot stand for another.\<close>

theorem pae_injective:
  "computePae ty body = computePae ty' body' \<longleftrightarrow> ty = ty' \<and> body = body'"
proof
  assume "computePae ty body = computePae ty' body'"
  then have outer: "utf8 (digits_of (length ty)) @ of_char CHR '' '' #
        (utf8 ty @ of_char CHR '' '' # utf8 (digits_of (length body)) @ of_char CHR '' '' # body) =
      utf8 (digits_of (length ty')) @ of_char CHR '' '' #
        (utf8 ty' @ of_char CHR '' '' # utf8 (digits_of (length body')) @ of_char CHR '' '' # body')"
    unfolding computePae_eq by simp
  note counted = counted_split [OF outer]
  then have "length (utf8 ty) = length (utf8 ty')" by (simp add: utf8_def)
  with counted have ty: "utf8 ty = utf8 ty'" and
    inner: "utf8 (digits_of (length body)) @ of_char CHR '' '' # body =
      utf8 (digits_of (length body')) @ of_char CHR '' '' # body'"
    by auto
  show "ty = ty' \<and> body = body'" using ty counted_split [OF inner] by (simp add: inj_utf8)
qed simp

subsection \<open>Conversion of a well-formed signature\<close>

text \<open>The DER form of two unsigned integers of 32 bytes: without leading zeros, but with one
  where the top bit is set.\<close>

fun der_integer :: "8 word list \<Rightarrow> 8 word list" where
  "der_integer [] = [0]"
| "der_integer (b # bs) = (if b = 0 then der_integer bs else if 0x80 \<le> b then 0 # b # bs else b # bs)"

definition der_signature :: "8 word list \<Rightarrow> 8 word list \<Rightarrow> 8 word list" where
  "der_signature r s =
     (let r' = der_integer r; s' = der_integer s
      in [0x30, of_nat (4 + length r' + length s'), 0x02, of_nat (length r')] @ r' @
         [0x02, of_nat (length s')] @ s')"

text \<open>A DER integer is the number with its leading zeros replaced by at most one.\<close>

lemma der_integer_split:
  "\<exists>z rest. bs = replicate z 0 @ rest \<and>
     (der_integer bs = rest \<and> rest \<noteq> [] \<or> der_integer bs = 0 # rest) "
proof (induction bs)
  case (Cons b bs)
  show ?case
  proof (cases "b = 0")
    case True
    then obtain z rest where "bs = replicate z 0 @ rest"
        "der_integer bs = rest \<and> rest \<noteq> [] \<or> der_integer bs = 0 # rest" using Cons by blast
    then show ?thesis using True by (intro exI [of _ "Suc z"] exI [of _ rest]) simp
  next
    case False
    then show ?thesis by (intro exI [of _ 0] exI [of _ "b # bs"]) simp
  qed
qed simp

lemma set_bytes_length: "o1 + length bytes \<le> length dst \<Longrightarrow> length (set_bytes dst o1 bytes) = length dst"
  by (simp add: set_bytes_def)

text \<open>Copying a DER integer of a number of \<open>n\<close> bytes fills the field with the number.\<close>

lemma copy_der_integer:
  assumes "length bs = n" "0 < n" "length dst = o1 + n + o2"
    and "take (length (der_integer bs)) (drop i src) = der_integer bs"
  shows "copyIntegerToFixed src i (Some (length (der_integer bs))) dst o1 n =
    Ok (take o1 dst @ bs @ drop (o1 + n) dst)"
proof -
  let ?d = "der_integer bs"
  obtain z rest where z: "bs = replicate z 0 @ rest" "?d = rest \<and> rest \<noteq> [] \<or> ?d = 0 # rest"
    using der_integer_split by blast
  have head: "i < length src \<and> src ! i = hd ?d" if "?d \<noteq> []"
  proof -
    have "0 < length (take (length ?d) (drop i src))" using assms(4) that by simp
    then have "i < length src" by auto
    moreover have "hd (take (length ?d) (drop i src)) = src ! i"
      using calculation that by (simp add: hd_drop_conv_nth)
    ultimately show ?thesis using assms(4) by simp
  qed
  have tail: "take (length ?d - 1) (drop (i + 1) src) = tl ?d"
    using assms(4) by (metis add.commute drop_drop drop_Suc drop_0 One_nat_def drop_take)
  show ?thesis
  proof (cases "n < length ?d")
    case True
    then have d: "?d = 0 # rest" "length rest = n" "z = 0" using z assms(1) by auto
    then have "src ! i = 0" "i < length src" "take n (drop (i + 1) src) = bs"
      using head tail z(1) by auto
    then show ?thesis using d assms(3)
      by (simp add: copyIntegerToFixed_def Let_def set_bytes_def z(1))
  next
    case False
    let ?pad = "n - length ?d"
    have bs: "replicate ?pad 0 @ ?d = bs"
    proof (cases "?d = rest")
      case True
      then show ?thesis using z(1) assms(1) by auto
    next
      case d: False
      then have "?d = 0 # rest" "0 < z" using z False assms(1) by auto
      then show ?thesis using z(1) assms(1)
        by (auto simp: replicate_app_Cons_same simp flip: replicate_Suc)
    qed
    have "set_bytes (if 0 < ?pad then set_bytes dst o1 (replicate ?pad 0) else dst) (o1 + ?pad) ?d =
        take o1 dst @ (replicate ?pad 0 @ ?d) @ drop (o1 + n) dst"
      using False assms(3) by (auto simp: set_bytes_def min_def)
    then show ?thesis using False assms(4)
      by (simp add: copyIntegerToFixed_def Let_def bs)
  qed
qed

lemma der_integer_length: "0 < length (der_integer bs) \<and> length (der_integer bs) \<le> length bs + 1"
  by (induction bs) auto

lemma unat_small: "n < 256 \<Longrightarrow> unat (of_nat n :: 8 word) = n"
  by (simp add: unat_of_nat)

text \<open>The DER form of a signature, two unsigned numbers of 32 bytes, is converted back to the
  two numbers, except where it happens to be 64 bytes long: then it is passed on as it is.\<close>

theorem der_signature_roundtrip:
  assumes "length r = 32" "length s = 32"
  shows "derSigToCompact (der_signature r s) =
    (if length (der_signature r s) = 64 then Ok (der_signature r s) else Ok (r @ s))"
proof -
  let ?r = "der_integer r" and ?s = "der_integer s"
  let ?m = "length ?r" and ?n = "length ?s"
  let ?der = "der_signature r s"
  note bounds = der_integer_length [of r] der_integer_length [of s] assms
  have small: "unat (of_nat ?m :: 8 word) = ?m" "unat (of_nat ?n :: 8 word) = ?n"
    using bounds by (intro unat_small, linarith)+
  have der: "?der = [0x30, of_nat (4 + ?m + ?n), 0x02, of_nat ?m] @ ?r @ [0x02, of_nat ?n] @ ?s"
    by (simp add: der_signature_def Let_def)
  have len: "length ?der = 6 + ?m + ?n" by (simp add: der)
  have short: "\<not> 0x80 \<le> ?der ! 1"
  proof -
    have "unat (of_nat (4 + ?m + ?n) :: 8 word) = 4 + ?m + ?n"
      using bounds by (intro unat_small) linarith
    moreover have "?der ! 1 = of_nat (4 + ?m + ?n)" by (simp add: der)
    ultimately show ?thesis using bounds by (simp add: word_le_nat_alt del: of_nat_add)
  qed
  have heads: "byte_is ?der 0 0x30" "byte_is ?der 2 0x02" "length_byte ?der (2 + 1) = Some ?m"
    using small(1) by (simp_all add: byte_is_def length_byte_def der nth_append)
  have mids: "byte_is ?der (2 + 2 + ?m) 0x02" "length_byte ?der (2 + 2 + ?m + 1) = Some ?n"
    using small(2) by (simp_all add: byte_is_def length_byte_def der nth_append)
  let ?before = "[0x30, of_nat (4 + ?m + ?n), 0x02, of_nat ?m] @ ?r @ [0x02, of_nat ?n] :: 8 word list"
  have "?der = ?before @ ?s" "length ?before = 6 + ?m" by (simp_all add: der)
  then have "drop (6 + ?m) ?der = ?s" by (metis append_eq_conv_conj)
  then have parts: "take ?m (drop 4 ?der) = ?r" "take ?n (drop (6 + ?m) ?der) = ?s"
    by (simp_all add: der)
  have first: "copyIntegerToFixed ?der (2 + 2) (Some ?m) (replicate 64 0) 0 32 = Ok (r @ replicate 32 0)"
    using copy_der_integer [OF assms(1) _ _ parts(1), of "replicate 64 0" 0 32] by simp
  have second: "copyIntegerToFixed ?der (2 + 2 + ?m + 2) (Some ?n) (r @ replicate 32 0) 32 32 = Ok (r @ s)"
    using copy_der_integer [OF assms(2) _ _ parts(2), of "r @ replicate 32 0" 32 0] assms(1) by simp
  have ge: "\<not> length ?der < 8" using bounds len by linarith
  show ?thesis
    unfolding derSigToCompact_def COMPACT_SIG_LENGTH_def Let_def
    by (simp only: ge short heads mids first second if_False if_True result.case option.case
        simp_thms cong: if_cong)
qed

theorem der_signature_roundtrip_witness:
  "derSigToCompact (der_signature (replicate 32 0x90) (replicate 31 0 @ [5])) =
     (if length (der_signature (replicate 32 0x90) (replicate 31 0 @ [5])) = 64
      then Ok (der_signature (replicate 32 0x90) (replicate 31 0 @ [5]))
      else Ok (replicate 32 0x90 @ replicate 31 0 @ [5]))"
  by (rule der_signature_roundtrip) simp_all

end
