(* ===== verification/JsValues.thy ===== *)
theory JsValues
  imports TextOps
begin

text \<open>
  Operations of the language on dynamically typed values: property access with and without
  optional chaining, truth, \<open>String\<close>, and the primitive schema checks of the schema library. The
  text of a number is an argument where it is used.
\<close>

text \<open>Reading a property with optional chaining, truth, and \<open>String\<close>.\<close>

fun js_get :: "js_value \<Rightarrow> string \<Rightarrow> js_value" where
  "js_get (VObj kvs) key = (case map_of kvs key of Some v \<Rightarrow> v | None \<Rightarrow> VUndefined)"
| "js_get _ key = VUndefined"

fun truthy :: "js_value \<Rightarrow> bool" where
  "truthy VUndefined = False"
| "truthy VNull = False"
| "truthy (VBool b) = b"
| "truthy (VNum q) = (q \<noteq> 0)"
| "truthy (VStr s) = (s \<noteq> [])"
| "truthy (VArr _) = True"
| "truthy (VObj _) = True"

definition or_null :: "js_value \<Rightarrow> js_value" where
  "or_null v = (if v = VUndefined then VNull else v)"

fun js_String :: "(rat \<Rightarrow> string) \<Rightarrow> js_value \<Rightarrow> string" where
  "js_String numText VUndefined = ''undefined''"
| "js_String numText VNull = ''null''"
| "js_String numText (VBool b) = (if b then ''true'' else ''false'')"
| "js_String numText (VNum q) = numText q"
| "js_String numText (VStr s) = s"
| "js_String numText (VArr vs) =
     join_with '','' (map (\<lambda>v. if v = VUndefined \<or> v = VNull then [] else js_String numText v) vs)"
| "js_String numText (VObj _) = ''[object Object]''"

text \<open>A property of \<open>null\<close> or \<open>undefined\<close> throws.\<close>

definition js_member :: "js_value \<Rightarrow> string \<Rightarrow> js_value option" where
  "js_member v key = (if v = VNull \<or> v = VUndefined then None else Some (js_get v key))"

fun as_str :: "js_value \<Rightarrow> string option" where
  "as_str (VStr s) = Some s"
| "as_str _ = None"

fun is_obj :: "js_value \<Rightarrow> bool" where
  "is_obj (VObj _) = True"
| "is_obj _ = False"

fun all_some :: "'a option list \<Rightarrow> 'a list option" where
  "all_some [] = Some []"
| "all_some (None # xs) = None"
| "all_some (Some x # xs) = map_option (\<lambda>ys. x # ys) (all_some xs)"

text \<open>An integer schema.\<close>

fun as_int :: "js_value \<Rightarrow> int option" where
  "as_int (VNum q) = (if of_int \<lfloor>q\<rfloor> = q then Some \<lfloor>q\<rfloor> else None)"
| "as_int _ = None"

fun as_bool :: "js_value \<Rightarrow> bool option" where
  "as_bool (VBool b) = Some b"
| "as_bool _ = None"

lemma as_int_of_int [simp]: "as_int (VNum (of_int i)) = Some i"
  by simp

lemma as_str_iff: "as_str v = Some s \<longleftrightarrow> v = VStr s"
  by (cases v) auto

end
