(* ===== verification/HexText.thy ===== *)
theory HexText
  imports TextOps "HOL-Library.Word"
begin

text \<open>
  Reading bytes from hexadecimal text as the program does it, two characters at a time through
  \<open>Number.parseInt\<close>, and the round trip with writing them.
\<close>

text \<open>\<open>Number.parseInt(s, 16)\<close> on at most two characters in lower case, \<open>None\<close> for NaN: leading
  white space and a sign are read, and the digits end at the first character that is not one.\<close>

definition hex_value :: "char \<Rightarrow> nat option" where
  "hex_value c = find_index (\<lambda>d. d = c) ''0123456789abcdef''"

fun hex_digits :: "string \<Rightarrow> nat option \<Rightarrow> nat option" where
  "hex_digits [] acc = acc"
| "hex_digits (c # s) acc =
     (case hex_value c of None \<Rightarrow> acc | Some d \<Rightarrow> hex_digits s (Some (nullish acc 0 * 16 + d)))"

definition parse_hex_pair :: "string \<Rightarrow> int option" where
  "parse_hex_pair s =
     (let t = dropWhile is_js_space s;
          (sign, u) = (case t of
             c # r \<Rightarrow> if c = CHR ''-'' then (-1, r) else if c = CHR ''+'' then (1, r) else (1, t)
           | [] \<Rightarrow> (1, t));
          v = (if starts_with u ''0x'' then drop 2 u else u)
      in map_option (\<lambda>n. sign * int n) (hex_digits v None))"

text \<open>A last odd digit falls outside the array and is lost; NaN is stored as zero.\<close>

fun hex_pairs :: "string \<Rightarrow> 8 word list" where
  "hex_pairs (a # b # rest) =
     (case parse_hex_pair [a, b] of None \<Rightarrow> 0 | Some n \<Rightarrow> of_int n) # hex_pairs rest"
| "hex_pairs _ = []"

definition hex_low :: "nat \<Rightarrow> char" where
  "hex_low n = ''0123456789abcdef'' ! n"

lemma pair_of_digits:
  "list_all (\<lambda>n. list_all (\<lambda>m. parse_hex_pair [hex_low n, hex_low m] = Some (int (n * 16 + m))) [0..<16]) [0..<16]"
  by code_simp

lemma low_stays_low: "list_all (\<lambda>n. to_lower_char (hex_low n) = hex_low n) [0..<16]"
  by code_simp

text \<open>What the bytes were written as is read back.\<close>

lemma hex_pairs_write:
  "hex_pairs (concat (map (\<lambda>b. [hex_low (unat b div 16), hex_low (unat b mod 16)]) bytes)) = bytes"
proof (induction bytes)
  case (Cons b bytes)
  have n: "unat b div 16 < 16" "unat b mod 16 < 16"
    using unsigned_less [where ?'a = nat, of b] by simp_all
  then have "parse_hex_pair [hex_low (unat b div 16), hex_low (unat b mod 16)] = Some (int (unat b div 16 * 16 + unat b mod 16))"
    using pair_of_digits unfolding list_all_iff by (metis atLeastLessThan_iff le0 set_upt)
  then have "parse_hex_pair [hex_low (unat b div 16), hex_low (unat b mod 16)] = Some (int (unat b))"
    by (simp only: div_mult_mod_eq)
  then show ?case using Cons by simp
qed simp

lemma to_lower_written:
  "to_lower (concat (map (\<lambda>b :: 8 word. [hex_low (unat b div 16), hex_low (unat b mod 16)]) bytes)) =
    concat (map (\<lambda>b. [hex_low (unat b div 16), hex_low (unat b mod 16)]) bytes)"
proof (induction bytes)
  case (Cons b bytes)
  have "unat b div 16 < 16" "unat b mod 16 < 16"
    using unsigned_less [where ?'a = nat, of b] by simp_all
  then show ?case using Cons low_stays_low by (simp add: to_lower_def list_all_iff)
qed (simp add: to_lower_def)

end
