(* ===== verification/VerifierChecks.thy ===== *)
theory VerifierChecks
  imports Verdict X509 Dsse JsValues HexText
begin

text \<open>
  The six checks of the verifier (\<^verbatim>\<open>packages/verifier/src/checks\<close>). A check returns a
  verification check or an internal error; the value \<open>None\<close> of a check means that its promise
  does not settle with a value: it rejects with an exception the check does not catch, or the
  check never returns. What the checks ask of their surroundings is \<open>check_env\<close>: the engine,
  the HTTP client, the URL parser, \<open>JSON.parse\<close>, the decoder of \<open>Buffer.from\<close> and the
  signature functions.
\<close>

datatype http_outcome =
    Responded bool int "js_value option"
  | FetchThrew string

text \<open>
  \<open>Responded ok status body\<close> is a response whose JSON body is \<open>None\<close> where reading it fails or
  times out; \<open>FetchThrew\<close> is a network error or the abort by the timer.
\<close>

record check_env =
  ke_engine :: seal_engine
  ke_fetch :: "string \<Rightarrow> http_outcome"
  ke_elapsedMs :: int
  ke_parseUrl :: "string \<Rightarrow> (string \<times> string) option"
  ke_parseJson :: "string \<Rightarrow> js_value option"
  ke_numText :: "rat \<Rightarrow> string"
  ke_bufferFromBase64 :: "string \<Rightarrow> 8 word list"
  ke_importKey :: "8 word list \<Rightarrow> string option"
  ke_verifyEd25519 :: "8 word list \<Rightarrow> 8 word list \<Rightarrow> string \<Rightarrow> (bool, string) result"
  ke_p256 :: p256_verify

type_synonym check_result = "(verification_check, signet_error) result option"

definition check_outcome ::
  "string \<Rightarrow> check_verdict \<Rightarrow> string \<Rightarrow> (string \<times> js_value) list option \<Rightarrow> check_result" where
  "check_outcome checkId verdict reason evidence =
     Some (Ok \<lparr>vc_checkId = checkId, vc_verdict = verdict, vc_reason = reason, vc_evidence = evidence\<rparr>)"

definition null_or :: "string option \<Rightarrow> js_value" where
  "null_or x = (case x of None \<Rightarrow> VNull | Some s \<Rightarrow> VStr s)"

definition num_js :: "int \<Rightarrow> js_value" where
  "num_js i = VNum (of_int i)"

subsection \<open>Source availability\<close>

definition source_available_check :: "check_env \<Rightarrow> verification_request \<Rightarrow> check_result" where
  "source_available_check en request =
     (case ke_fetch en (vr_sourceRepoUrl request) of
        Responded ok status _ \<Rightarrow>
          check_outcome ''source_available'' (if ok then CV_pass else CV_fail)
            (if ok then ''Source repository accessible (HTTP '' @ int_text status @ '')''
             else ''Source repository returned HTTP '' @ int_text status)
            (Some [(''url'', VStr (vr_sourceRepoUrl request)), (''statusCode'', num_js status),
                   (''responseTimeMs'', num_js (ke_elapsedMs en))])
      | FetchThrew message \<Rightarrow>
          check_outcome ''source_available'' CV_fail (''Source repository unreachable: '' @ message)
            (Some [(''url'', VStr (vr_sourceRepoUrl request)), (''responseTimeMs'', num_js (ke_elapsedMs en)),
                   (''error'', VStr message)]))"

subsection \<open>Schema compliance\<close>

text \<open>The issues the schema library lists for a failing seal are an argument.\<close>

definition schema_compliance_check ::
  "check_env \<Rightarrow> (seal_payload \<Rightarrow> (string \<times> string) list) \<Rightarrow> verification_request \<Rightarrow> check_result" where
  "schema_compliance_check en issues request =
     (case vr_seal request of
        None \<Rightarrow> check_outcome ''schema_compliance'' CV_skip ''No seal provided'' None
      | Some seal \<Rightarrow>
          if SealPayload_ok (ke_engine en) seal
          then check_outcome ''schema_compliance'' CV_pass ''Seal conforms to SealPayload schema'' None
          else check_outcome ''schema_compliance'' CV_fail
                 (''Seal schema validation failed: '' @ digits_of (length (issues seal)) @ '' issue(s)'')
                 (Some [(''errors'', VArr (map (\<lambda>(path, message).
                    VObj [(''path'', VStr path), (''message'', VStr message)]) (issues seal)))]))"

subsection \<open>Seal chain\<close>

fun bytesEqual_from :: "'a list \<Rightarrow> 'a list \<Rightarrow> nat \<Rightarrow> nat \<Rightarrow> bool" where
  "bytesEqual_from a b i 0 = True"
| "bytesEqual_from a b i (Suc n) = (if a ! i \<noteq> b ! i then False else bytesEqual_from a b (i + 1) n)"

definition bytesEqual :: "'a list \<Rightarrow> 'a list \<Rightarrow> bool" where
  "bytesEqual a b = (if length a \<noteq> length b then False else bytesEqual_from a b 0 (length a))"

definition chain_failures :: "seal_payload \<Rightarrow> string list" where
  "chain_failures seal =
     (if sp_sealId seal = [] then [''Missing sealId''] else []) @
     (if sp_chatId seal = [] then [''Missing chatId''] else []) @
     (if sp_operatorId seal = [] then [''Missing operatorId''] else []) @
     (if sp_credentialId seal = [] then [''Missing credentialId''] else [])"

definition same_signed_content :: "check_env \<Rightarrow> seal_payload \<Rightarrow> seal_payload \<Rightarrow> bool" where
  "same_signed_content en seal current =
     bytesEqual (canonicalize_bytes (ke_engine en) (payload_js seal))
                (canonicalize_bytes (ke_engine en) (payload_js current))"

definition seal_chain_check :: "check_env \<Rightarrow> verification_request \<Rightarrow> check_result" where
  "seal_chain_check en request =
     (let outcome = check_outcome ''seal_chain''
      in case vr_seal request of
           None \<Rightarrow> outcome CV_skip ''No seal provided'' None
         | Some seal \<Rightarrow>
             let failures = chain_failures seal
             in if 0 < length failures
                then outcome CV_fail (''Seal chain validation failed: '' @ join_with ''; '' failures)
                       (Some [(''failures'', VArr (map VStr failures)), (''sealId'', VStr (sp_sealId seal)),
                              (''chainValid'', VBool False), (''chainWalked'', VBool False)])
                else
                  case vr_sealEnvelope request of
                    None \<Rightarrow>
                      outcome CV_skip
                        ''Seal payload structurally valid; full chain validation requires the local envelope''
                        (Some [(''sealId'', VStr (sp_sealId seal)), (''chainWalked'', VBool False),
                               (''chainValid'', VBool True)])
                  | Some envelope \<Rightarrow>
                      let chain = sen_chain envelope;
                          walked = (''chainWalked'', VBool (sc_previous chain \<noteq> None))
                      in if sp_sealId (sc_current chain) \<noteq> sp_sealId seal
                         then outcome CV_fail ''Seal envelope does not match the requested seal payload''
                                (Some [(''expectedSealId'', VStr (sp_sealId seal)),
                                       (''envelopeSealId'', VStr (sp_sealId (sc_current chain))),
                                       (''chainValid'', VBool False), (''chainWalked'', VBool False)])
                         else if \<not> same_signed_content en seal (sc_current chain)
                         then outcome CV_fail ''Seal payload does not match signed envelope content''
                                (Some [(''sealId'', VStr (sp_sealId seal)), (''chainValid'', VBool False),
                                       (''chainWalked'', VBool False)])
                         else
                           case validateSealChain (ke_engine en) chain of
                             Err e \<Rightarrow> outcome CV_fail (err_message e)
                                        (Some [(''sealId'', VStr (sp_sealId seal)), (''chainValid'', VBool False), walked])
                           | Ok _ \<Rightarrow>
                               (case verifyChainDelta chain of
                                  Err e \<Rightarrow> outcome CV_fail (err_message e)
                                             (Some [(''sealId'', VStr (sp_sealId seal)), (''chainValid'', VBool False), walked])
                                | Ok _ \<Rightarrow>
                                    outcome CV_pass ''Seal chain and stored delta validated locally''
                                      (Some [(''sealId'', VStr (sp_sealId seal)), walked, (''chainValid'', VBool True)])))"

subsection \<open>Seal signature\<close>

definition hexToBytes :: "string \<Rightarrow> 8 word list" where
  "hexToBytes hex = hex_pairs (to_lower hex)"

definition importEd25519PublicKey :: "check_env \<Rightarrow> string \<Rightarrow> (8 word list, signet_error) result" where
  "importEd25519PublicKey en publicKeyHex =
     (let bytes = hexToBytes publicKeyHex
      in case ke_importKey en bytes of
           None \<Rightarrow> Ok bytes
         | Some cause \<Rightarrow>
             Err (InternalError_create ''Failed to import Ed25519 public key'' (Some [(''cause'', VStr cause)])))"

definition verifyEd25519Signature ::
  "check_env \<Rightarrow> 8 word list \<Rightarrow> string \<Rightarrow> 8 word list \<Rightarrow> (bool, signet_error) result" where
  "verifyEd25519Signature en publicKey data signature =
     (case ke_verifyEd25519 en publicKey signature data of
        Ok valid \<Rightarrow> Ok valid
      | Err cause \<Rightarrow> Err (InternalError_create ''Ed25519 verification failed'' (Some [(''cause'', VStr cause)])))"

text \<open>A scope mode is one of the two of its type, so it is never missing.\<close>

definition signature_failures :: "check_env \<Rightarrow> seal_payload \<Rightarrow> string list" where
  "signature_failures en seal =
     (if sp_operatorId seal = [] then [''Missing operatorId field''] else []) @
     (if sp_issuedAt seal \<noteq> []
      then (case se_parseDate (ke_engine en) (sp_issuedAt seal) of
              None \<Rightarrow> [''Invalid or non-canonical issuedAt timestamp'']
            | Some t \<Rightarrow> if se_isoText (ke_engine en) t \<noteq> sp_issuedAt seal
                        then [''Invalid or non-canonical issuedAt timestamp''] else [])
      else [''Missing issuedAt timestamp''])"

definition seal_signature_check :: "check_env \<Rightarrow> verification_request \<Rightarrow> check_result" where
  "seal_signature_check en request =
     (let outcome = check_outcome ''seal_signature'';
          verified = (\<lambda>v. (''signatureVerified'', v))
      in case vr_seal request of
           None \<Rightarrow> outcome CV_skip ''No seal provided'' None
         | Some seal \<Rightarrow>
             let failures = signature_failures en seal
             in if 0 < length failures
                then outcome CV_fail (''Seal structural validation failed: '' @ join_with ''; '' failures)
                       (Some [(''failures'', VArr (map VStr failures)), verified (VBool False)])
                else
                  case (vr_sealEnvelope request, vr_sealPublicKey request) of
                    (Some envelope, Some publicKey) \<Rightarrow>
                      let current = sc_current (sen_chain envelope)
                      in if sp_sealId current \<noteq> sp_sealId seal
                         then outcome CV_fail ''Seal envelope does not match the requested seal payload''
                                (Some [(''expectedSealId'', VStr (sp_sealId seal)),
                                       (''envelopeSealId'', VStr (sp_sealId current)), verified (VBool False)])
                         else if \<not> same_signed_content en seal current
                         then outcome CV_fail ''Seal payload does not match signed envelope content''
                                (Some [(''sealId'', VStr (sp_sealId seal)), verified (VBool False)])
                         else
                           (case importEd25519PublicKey en publicKey of
                              Err e \<Rightarrow> Some (Err e)
                            | Ok key \<Rightarrow>
                                (case verifyEd25519Signature en key
                                        (canonicalize_bytes (ke_engine en) (payload_js current))
                                        (ke_bufferFromBase64 en (sen_signature envelope)) of
                                   Err e \<Rightarrow> Some (Err e)
                                 | Ok False \<Rightarrow>
                                     outcome CV_fail ''Seal signature verification failed''
                                       (Some [(''keyId'', VStr (sen_keyId envelope)), verified (VBool False)])
                                 | Ok True \<Rightarrow>
                                     outcome CV_pass ''Seal signature verified against the local signer public key''
                                       (Some [(''keyId'', VStr (sen_keyId envelope)), verified (VBool True)])))
                  | _ \<Rightarrow>
                      outcome CV_skip
                        ''Seal structural validation passed; signature verification requires a local envelope and signer public key''
                        (Some [(''operatorId'', VStr (sp_operatorId seal)), verified VNull]))"

subsection \<open>Build provenance\<close>

record intoto_subject =
  is_name :: string
  is_sha256 :: string

record intoto_statement =
  it_subject :: "intoto_subject list"
  it_predicateType :: string
  it_predicate :: js_value

record parsed_bundle =
  pb_envelope :: dsse_envelope
  pb_statement :: intoto_statement
  pb_certificateRawBytes :: string

text \<open>The schemas of the bundle and of the statement, on parsed JSON.\<close>

definition DsseSignatureSchema :: "js_value \<Rightarrow> dsse_signature option" where
  "DsseSignatureSchema v =
     (case (as_str (js_get v ''sig''), as_str (js_get v ''keyid'')) of
        (Some sig, Some keyid) \<Rightarrow> Some \<lparr>ds_sig = sig, ds_keyid = keyid\<rparr>
      | _ \<Rightarrow> None)"

definition DsseEnvelopeSchema :: "js_value \<Rightarrow> dsse_envelope option" where
  "DsseEnvelopeSchema v =
     (case (as_str (js_get v ''payload''), as_str (js_get v ''payloadType''), js_get v ''signatures'') of
        (Some payload, Some payloadType, VArr sigs) \<Rightarrow>
          if 1 \<le> length sigs
          then map_option (\<lambda>ss. \<lparr>de_payload = payload, de_payloadType = payloadType, de_signatures = ss\<rparr>)
                 (all_some (map DsseSignatureSchema sigs))
          else None
      | _ \<Rightarrow> None)"

definition VerificationMaterialSchema :: "js_value \<Rightarrow> string option" where
  "VerificationMaterialSchema v =
     (case js_get v ''tlogEntries'' of
        VUndefined \<Rightarrow> as_str (js_get (js_get v ''certificate'') ''rawBytes'')
      | VArr _ \<Rightarrow> as_str (js_get (js_get v ''certificate'') ''rawBytes'')
      | _ \<Rightarrow> None)"

definition SubjectSchema :: "js_value \<Rightarrow> intoto_subject option" where
  "SubjectSchema v =
     (case (as_str (js_get v ''name''), as_str (js_get (js_get v ''digest'') ''sha256'')) of
        (Some name, Some sha) \<Rightarrow> Some \<lparr>is_name = name, is_sha256 = sha\<rparr>
      | _ \<Rightarrow> None)"

definition InTotoStatementSchema :: "js_value \<Rightarrow> intoto_statement option" where
  "InTotoStatementSchema v =
     (case (js_get v ''_type'', js_get v ''subject'', as_str (js_get v ''predicateType'')) of
        (VStr ty, VArr subjects, Some predicateType) \<Rightarrow>
          if ty = ''https://in-toto.io/Statement/v1'' \<and> 1 \<le> length subjects
          then map_option (\<lambda>ss. \<lparr>it_subject = ss, it_predicateType = predicateType,
                                it_predicate = js_get v ''predicate''\<rparr>)
                 (all_some (map SubjectSchema subjects))
          else None
      | _ \<Rightarrow> None)"

text \<open>The first issue of a bundle that is not an object, or has no media type, is an argument.\<close>

definition parseSigstoreBundle :: "check_env \<Rightarrow> string \<Rightarrow> (parsed_bundle, string) result" where
  "parseSigstoreBundle en base64Bundle =
     (case atob base64Bundle of
        None \<Rightarrow> Err ''Bundle is not valid base64''
      | Some decoded \<Rightarrow>
          (case ke_parseJson en (map (\<lambda>b. char_of (unat b)) decoded) of
             None \<Rightarrow> Err ''Bundle is not valid JSON''
           | Some raw \<Rightarrow>
               let invalid = Err (''Invalid bundle structure: '' @ se_zodMessage (ke_engine en))
               in if \<not> is_obj raw then invalid
                  else
                    (case DsseEnvelopeSchema (js_get raw ''dsseEnvelope'') of
                       None \<Rightarrow> Err ''Bundle is missing required DSSE envelope''
                     | Some envelope \<Rightarrow>
                         (case VerificationMaterialSchema (js_get raw ''verificationMaterial'') of
                            None \<Rightarrow> Err ''Bundle is missing required verification material''
                          | Some rawBytes \<Rightarrow>
                              if as_str (js_get raw ''mediaType'') = None then invalid
                              else
                                (case Option.bind (atob (de_payload envelope))
                                        (\<lambda>bs. ke_parseJson en (map (\<lambda>b. char_of (unat b)) bs)) of
                                   None \<Rightarrow> Err ''DSSE envelope payload is not valid base64 JSON''
                                 | Some payloadJson \<Rightarrow>
                                     (case InTotoStatementSchema payloadJson of
                                        None \<Rightarrow> Err ''DSSE payload is not a valid in-toto statement''
                                      | Some statement \<Rightarrow>
                                          Ok \<lparr>pb_envelope = envelope, pb_statement = statement,
                                              pb_certificateRawBytes = rawBytes\<rparr>))))))"

definition findMatchingSubject :: "intoto_statement \<Rightarrow> string \<Rightarrow> intoto_subject option" where
  "findMatchingSubject statement expectedDigest =
     (let normalized = to_lower expectedDigest
      in List.find (\<lambda>subject. to_lower (is_sha256 subject) = normalized) (it_subject statement))"

text \<open>The enforcement of a configured issuer and identity: a check to return, or to go on. An
  identity that is neither text nor falsy has no method \<open>startsWith\<close>.\<close>

definition issuer_of :: "js_value \<Rightarrow> js_value" where
  "issuer_of predicate = or_null (js_get (js_get (js_get predicate ''runDetails'') ''metadata'') ''oidcIssuer'')"

definition identity_of :: "js_value \<Rightarrow> js_value" where
  "identity_of predicate =
     or_null (js_get (js_get (js_get (js_get predicate ''runDetails'') ''metadata'') ''buildConfigSource'') ''identity'')"

datatype enforcement = Proceed | Refuse check_result

definition enforce_issuer :: "build_provenance_config option \<Rightarrow> js_value \<Rightarrow> enforcement" where
  "enforce_issuer config predicate =
     (case Option.bind config bp_expectedOidcIssuer of
        None \<Rightarrow> Proceed
      | Some expected \<Rightarrow>
          if expected = [] \<or> issuer_of predicate = VStr expected then Proceed
          else Refuse (check_outcome ''build_provenance'' CV_fail ''OIDC issuer does not match expected value''
                 (Some [(''expectedIssuer'', VStr expected), (''actualIssuer'', issuer_of predicate)])))"

definition enforce_identity :: "build_provenance_config option \<Rightarrow> js_value \<Rightarrow> enforcement" where
  "enforce_identity config predicate =
     (case Option.bind config bp_expectedIdentityPattern of
        None \<Rightarrow> Proceed
      | Some expected \<Rightarrow>
          if expected = [] then Proceed
          else
            let actual = identity_of predicate;
                refuse = Refuse (check_outcome ''build_provenance'' CV_fail ''Build identity does not match expected pattern''
                           (Some [(''expectedPattern'', VStr expected), (''actualIdentity'', actual)]))
            in if \<not> truthy actual then refuse
               else case as_str actual of
                      None \<Rightarrow> Refuse None
                    | Some identity \<Rightarrow> if starts_with identity expected then Proceed else refuse)"

definition subject_evidence :: "intoto_subject \<Rightarrow> (string \<times> js_value) list" where
  "subject_evidence subject =
     [(''matchedSubject'', VStr (is_name subject)), (''matchedDigest'', VStr (is_sha256 subject))]"

definition verify_provenance_signature ::
  "check_env \<Rightarrow> parsed_bundle \<Rightarrow> intoto_subject \<Rightarrow> check_result" where
  "verify_provenance_signature en parsed matchingSubject =
     (let outcome = check_outcome ''build_provenance''
      in case extractP256PublicKey (pb_certificateRawBytes parsed) of
           None \<Rightarrow> None
         | Some (Err e) \<Rightarrow>
             outcome CV_fail (''Certificate key extraction failed: '' @ e)
               (Some (subject_evidence matchingSubject @ [(''certificateError'', VStr e)]))
         | Some (Ok key) \<Rightarrow>
             (case verifyDsseSignature (ke_p256 en) (pb_envelope parsed) key of
                Err e \<Rightarrow>
                  outcome CV_fail (''DSSE signature verification failed: '' @ e)
                    (Some (subject_evidence matchingSubject @ [(''signatureError'', VStr e)]))
              | Ok _ \<Rightarrow>
                  outcome CV_skip
                    ''DSSE signature is cryptographically valid but Fulcio certificate chain and Rekor inclusion proof verification are not yet implemented''
                    (Some (subject_evidence matchingSubject @
                       [(''predicateType'', VStr (it_predicateType (pb_statement parsed))),
                        (''hasCertificate'', VBool (0 < length (pb_certificateRawBytes parsed))),
                        (''subjectCount'', num_js (int (length (it_subject (pb_statement parsed))))),
                        (''signatureCount'', num_js (int (length (de_signatures (pb_envelope parsed))))),
                        (''cryptoVerified'', VBool True)]))))"

definition build_provenance_check ::
  "check_env \<Rightarrow> build_provenance_config option \<Rightarrow> verification_request \<Rightarrow> check_result" where
  "build_provenance_check en config request =
     (let outcome = check_outcome ''build_provenance''
      in case vr_buildProvenanceBundle request of
           None \<Rightarrow> outcome CV_skip ''No build provenance bundle provided'' None
         | Some bundle \<Rightarrow>
             (case parseSigstoreBundle en bundle of
                Err e \<Rightarrow>
                  outcome CV_fail e
                    (Some [(''bundlePresent'', VBool True), (''artifactDigest'', VStr (vr_artifactDigest request))])
              | Ok parsed \<Rightarrow>
                  let signatures = de_signatures (pb_envelope parsed);
                      statement = pb_statement parsed
                  in if \<not> list_ex (\<lambda>s. 0 < length (ds_sig s)) signatures
                     then outcome CV_fail ''DSSE envelope has no non-empty signatures''
                            (Some [(''signatureCount'', num_js (int (length signatures))), (''allEmpty'', VBool True)])
                     else
                       (case findMatchingSubject statement (vr_artifactDigest request) of
                          None \<Rightarrow>
                            outcome CV_fail ''Artifact digest does not match any subject in the in-toto statement''
                              (Some [(''expectedDigest'', VStr (vr_artifactDigest request)),
                                     (''statementDigests'', VArr (map (VStr \<circ> is_sha256) (it_subject statement)))])
                        | Some matchingSubject \<Rightarrow>
                            (case enforce_issuer config (it_predicate statement) of
                               Refuse r \<Rightarrow> r
                             | Proceed \<Rightarrow>
                                 (case enforce_identity config (it_predicate statement) of
                                    Refuse r \<Rightarrow> r
                                  | Proceed \<Rightarrow> verify_provenance_signature en parsed matchingSubject)))))"

subsection \<open>Release signing\<close>

definition parseGitHubRepo :: "check_env \<Rightarrow> string \<Rightarrow> (string \<times> string) option" where
  "parseGitHubRepo en url =
     (case ke_parseUrl en url of
        None \<Rightarrow> None
      | Some (hostname, pathname) \<Rightarrow>
          if hostname \<noteq> ''github.com'' then None
          else
            (case split_on (CHR ''/'') (drop_suffix ''.git'' (drop_prefix ''/'' pathname)) of
               owner # repo # _ \<Rightarrow> if owner = [] \<or> repo = [] then None else Some (owner, repo)
             | _ \<Rightarrow> None))"

definition isSigningAssetForDigest :: "string \<Rightarrow> string \<Rightarrow> bool" where
  "isSigningAssetForDigest name digest =
     (let lower = to_lower name;
          shortDigest = to_lower (take 12 digest);
          isSigningFile = ends_with lower ''.sig'' \<or> ends_with lower ''.sigstore'' \<or>
                          ends_with lower ''.sigstore.json'' \<or> ends_with lower ''.intoto.jsonl''
      in isSigningFile \<and> is_infix shortDigest lower)"

text \<open>The dash of two messages, in UTF-8.\<close>

definition em_dash :: string where
  "em_dash = [CHR 0xE2, CHR 0x80, CHR 0x94]"

definition string_or_empty :: "check_env \<Rightarrow> js_value \<Rightarrow> string" where
  "string_or_empty en v = (if v = VNull \<or> v = VUndefined then [] else js_String (ke_numText en) v)"

definition asset_names :: "check_env \<Rightarrow> js_value list \<Rightarrow> string list option" where
  "asset_names en assets = all_some (map (\<lambda>a. map_option (string_or_empty en) (js_member a ''name'')) assets)"

definition inspect_release :: "check_env \<Rightarrow> verification_request \<Rightarrow> js_value \<Rightarrow> check_result" where
  "inspect_release en request releaseData =
     (if js_member releaseData ''draft'' = None then None
      else
        let outcome = check_outcome ''release_signing'';
            isDraft = (js_get releaseData ''draft'' = VBool True);
            isPrerelease = (js_get releaseData ''prerelease'' = VBool True);
            assets = (case js_get releaseData ''assets'' of VArr vs \<Rightarrow> vs | _ \<Rightarrow> []);
            tagName = string_or_empty en (js_get releaseData ''tag_name'')
        in if isDraft
           then outcome CV_fail (''Release is still in draft '' @ em_dash @ '' not published'')
                  (Some [(''releaseTag'', VStr tagName), (''draft'', VBool True)])
           else
             (case asset_names en assets of
                None \<Rightarrow> None
              | Some names \<Rightarrow>
                  let signingAssets = filter (\<lambda>n. isSigningAssetForDigest n (vr_artifactDigest request)) names;
                      common = [(''releaseTag'', VStr tagName), (''prerelease'', VBool isPrerelease),
                                (''totalAssets'', num_js (int (length assets)))]
                  in if length signingAssets = 0
                     then outcome CV_fail
                            (''Release '' @ tagName @ '' found but no signing artifacts for digest '' @
                             take 12 (vr_artifactDigest request) @ ''...'')
                            (Some (common @ [(''allAssetNames'', VArr (map VStr names)),
                                             (''artifactDigest'', VStr (vr_artifactDigest request))]))
                     else outcome CV_pass
                            (''Release '' @ tagName @ '' found with '' @ digits_of (length signingAssets) @
                             '' signing artifact(s) for the requested digest'')
                            (Some (common @ [(''signingAssets'', VArr (map VStr signingAssets)),
                                             (''artifactDigest'', VStr (vr_artifactDigest request)),
                                             (''htmlUrl'', or_null (js_get releaseData ''html_url''))]))))"

definition release_signing_check :: "check_env \<Rightarrow> verification_request \<Rightarrow> check_result" where
  "release_signing_check en request =
     (let outcome = check_outcome ''release_signing''
      in case vr_releaseTag request of
           None \<Rightarrow> outcome CV_skip ''No release tag provided'' None
         | Some releaseTag \<Rightarrow>
             (case parseGitHubRepo en (vr_sourceRepoUrl request) of
                None \<Rightarrow>
                  outcome CV_skip (''Source repository is not a GitHub URL '' @ em_dash @ '' release signing check requires GitHub'')
                    (Some [(''sourceRepoUrl'', VStr (vr_sourceRepoUrl request))])
              | Some (owner, repo) \<Rightarrow>
                  (case ke_fetch en (''https://api.github.com/repos/'' @ owner @ ''/'' @ repo @
                          ''/releases/tags/'' @ encodeURIComponent releaseTag) of
                     Responded ok status body \<Rightarrow>
                       if status = 404
                       then outcome CV_fail (''No GitHub release found for tag '' @ releaseTag)
                              (Some [(''releaseTag'', VStr releaseTag), (''repo'', VStr (owner @ ''/'' @ repo))])
                       else if \<not> ok
                       then outcome CV_skip (''GitHub API returned '' @ int_text status)
                              (Some [(''releaseTag'', VStr releaseTag), (''statusCode'', num_js status)])
                       else
                         (case body of
                            None \<Rightarrow>
                              outcome CV_skip ''Failed to fetch release from GitHub API (timeout or network error)''
                                (Some [(''releaseTag'', VStr releaseTag)])
                          | Some releaseData \<Rightarrow> inspect_release en request releaseData)
                   | FetchThrew _ \<Rightarrow>
                       outcome CV_skip ''Failed to fetch release from GitHub API (timeout or network error)''
                         (Some [(''releaseTag'', VStr releaseTag)]))))"

end
