(* ===== verification/RateLimiter.thy ===== *)
theory RateLimiter
  imports Prelude
begin

text \<open>
  The verifier's sliding-window rate limiter (\<^verbatim>\<open>packages/verifier/src/rate-limiter.ts\<close>). The
  state maps a requester to the times of its accepted requests that the last eviction kept; the
  clock is an argument of \<open>rl_check\<close>.
\<close>

record rate_limiter_config =
  rl_maxRequests :: int
  rl_windowMs :: int

type_synonym rate_limiter_state = "(string, int list) js_map"

definition rl_check ::
  "rate_limiter_config \<Rightarrow> int \<Rightarrow> rate_limiter_state \<Rightarrow> string \<Rightarrow> bool \<times> rate_limiter_state" where
  "rl_check cfg now timestamps requesterId =
     (let windowStart = now - rl_windowMs cfg
      in case map_get timestamps requesterId of
           None \<Rightarrow> (True, map_set timestamps requesterId [now])
         | Some entries \<Rightarrow>
             let kept = (case find_index (\<lambda>t. windowStart \<le> t) entries of
                           Some firstValid \<Rightarrow> if 0 < firstValid then drop firstValid entries else entries
                         | None \<Rightarrow> if 0 < length entries then [] else entries)
             in if length kept = 0
                then (True, map_set (map_delete timestamps requesterId) requesterId [now])
                else if rl_maxRequests cfg \<le> int (length kept)
                then (False, map_set timestamps requesterId kept)
                else (True, map_set timestamps requesterId (kept @ [now])))"

definition rl_reset :: "rate_limiter_state \<Rightarrow> rate_limiter_state" where
  "rl_reset timestamps = []"

text \<open>A sequence of calls, and the requests it accepted with their times.\<close>

fun rl_run ::
  "rate_limiter_config \<Rightarrow> (int \<times> string) list \<Rightarrow> rate_limiter_state \<times> (int \<times> string) list" where
  "rl_run cfg [] = ([], [])"
| "rl_run cfg ((now, requester) # earlier) =
     (let (st, accepted) = rl_run cfg earlier;
          (allowed, st') = rl_check cfg now st requester
      in (st', if allowed then (now, requester) # accepted else accepted))"

text \<open>The times of a requester's accepted requests, oldest first, and those in a window.\<close>

definition times_of :: "(int \<times> string) list \<Rightarrow> string \<Rightarrow> int list" where
  "times_of accepted r = rev (map fst (filter (\<lambda>p. snd p = r) accepted))"

definition since :: "int \<Rightarrow> int list \<Rightarrow> int list" where
  "since t ts = filter (\<lambda>u. t \<le> u) ts"

lemma times_of_Cons:
  "times_of ((now, q) # acc) r = (if q = r then times_of acc r @ [now] else times_of acc r)"
  by (simp add: times_of_def)

lemma times_of_Nil [simp]: "times_of [] r = []"
  by (simp add: times_of_def)

text \<open>On a sorted array the eviction keeps exactly the entries inside the window.\<close>

lemma drop_find_index_sorted:
  "sorted ts \<Longrightarrow> find_index (\<lambda>t. w \<le> t) ts = Some i \<Longrightarrow> drop i ts = since w ts"
proof (induction ts arbitrary: i)
  case (Cons t ts)
  show ?case
  proof (cases "w \<le> t")
    case True
    then have "\<forall>u \<in> set ts. w \<le> u" using Cons.prems(1) by fastforce
    then show ?thesis using True Cons.prems(2) by (simp add: since_def)
  next
    case False
    then obtain j where "find_index (\<lambda>t. w \<le> t) ts = Some j" "i = Suc j"
      using Cons.prems(2) by auto
    then show ?thesis using False Cons by (simp add: since_def)
  qed
qed (simp add: since_def)

lemma eviction_exact:
  assumes "sorted ts"
  shows "(case find_index (\<lambda>t. w \<le> t) ts of
            Some i \<Rightarrow> if 0 < i then drop i ts else ts
          | None \<Rightarrow> if 0 < length ts then [] else ts) = since w ts"
proof (cases "find_index (\<lambda>t. w \<le> t) ts")
  case None
  then have "since w ts = []" by (auto simp: find_index_None since_def)
  then show ?thesis using None by simp
next
  case (Some i)
  then show ?thesis using drop_find_index_sorted [OF assms Some] by (cases i) simp_all
qed

lemma since_since: "t \<le> t' \<Longrightarrow> since t' (since t ts) = since t' ts"
  by (auto simp: since_def intro: filter_cong)

lemma since_append: "since t (xs @ ys) = since t xs @ since t ys"
  by (simp add: since_def)

lemma sorted_since: "sorted ts \<Longrightarrow> sorted (since t ts)"
  by (simp add: since_def sorted_wrt_filter)

text \<open>
  What the state records: a requester that was never seen has accepted nothing; otherwise its
  array holds the accepted times since some moment before the present window.
\<close>

definition rl_records :: "int \<Rightarrow> int \<Rightarrow> rate_limiter_state \<Rightarrow> (int \<times> string) list \<Rightarrow> bool" where
  "rl_records window now st acc \<longleftrightarrow>
     (\<forall>r. sorted (times_of acc r) \<and> (\<forall>t \<in> set (times_of acc r). t \<le> now) \<and>
        (map_get st r = None \<longrightarrow> times_of acc r = []) \<and>
        (\<forall>ts. map_get st r = Some ts \<longrightarrow> (\<exists>t0. t0 \<le> now - window \<and> ts = since t0 (times_of acc r))))"

lemma rl_recordsD:
  assumes "rl_records w now st acc"
  shows "sorted (times_of acc r)" "t \<in> set (times_of acc r) \<Longrightarrow> t \<le> now"
    "map_get st r = None \<Longrightarrow> times_of acc r = []"
    "map_get st r = Some ts \<Longrightarrow> \<exists>t0. t0 \<le> now - w \<and> ts = since t0 (times_of acc r)"
  using assms by (simp_all add: rl_records_def)

lemma rl_records_later:
  assumes "rl_records w now st acc" "now \<le> now'"
  shows "rl_records w now' st acc"
  unfolding rl_records_def
proof (intro allI conjI impI ballI)
  note D = rl_recordsD [OF assms(1)]
  show "sorted (times_of acc r)" for r by (rule D(1))
  show "t \<le> now'" if "t \<in> set (times_of acc r)" for r t
    using D(2) [OF that] assms(2) by simp
  show "times_of acc r = []" if "map_get st r = None" for r
    using D(3) [OF that] .
  show "\<exists>t0 \<le> now' - w. ts = since t0 (times_of acc r)" if stored: "map_get st r = Some ts" for r ts
  proof -
    obtain t0 where "t0 \<le> now - w" "ts = since t0 (times_of acc r)" using D(4) [OF stored] by blast
    then show ?thesis using assms(2) by (intro exI [of _ t0]) simp
  qed
qed

lemma rl_check_records:
  assumes "rl_records (rl_windowMs cfg) now st acc" and "0 \<le> rl_windowMs cfg"
  shows "case rl_check cfg now st r of
    (allowed, st') \<Rightarrow>
      (allowed \<longleftrightarrow> (let n = length (since (now - rl_windowMs cfg) (times_of acc r))
                   in n = 0 \<or> int n < rl_maxRequests cfg)) \<and>
      rl_records (rl_windowMs cfg) now st' (if allowed then (now, r) # acc else acc)"
proof -
  let ?w = "now - rl_windowMs cfg" and ?ts = "times_of acc r"
  note D = rl_recordsD [OF assms(1)]
  have upd: "rl_records (rl_windowMs cfg) now st' ((now, r) # acc)"
    if "\<And>q. map_get st' q = (if q = r then Some (since ?w ?ts @ [now]) else map_get st q)" for st'
  proof -
    have "since ?w ?ts @ [now] = since ?w (times_of ((now, r) # acc) r)"
      using assms(2) by (simp add: times_of_Cons since_def)
    moreover have "sorted (?ts @ [now])" using D(1,2) by (auto simp: sorted_append)
    ultimately show ?thesis
      using that assms(1) unfolding rl_records_def
      by (auto simp: times_of_Cons)
  qed
  have keep: "rl_records (rl_windowMs cfg) now st' acc"
    if "\<And>q. map_get st' q = (if q = r then Some (since ?w ?ts) else map_get st q)" for st'
    using that assms(1) unfolding rl_records_def by auto
  show ?thesis
  proof (cases "map_get st r")
    case None
    then have "?ts = []" using D(3) by blast
    then show ?thesis using None upd
      by (simp add: rl_check_def since_def)
  next
    case (Some ts)
    then obtain t0 where t0: "t0 \<le> ?w" "ts = since t0 ?ts" using D(4) by blast
    then have "sorted ts" "since ?w ts = since ?w ?ts"
      using D(1) sorted_since since_since by auto
    then show ?thesis using Some upd keep eviction_exact [of ts ?w]
      by (auto simp: rl_check_def Let_def)
  qed
qed

lemma rl_run_records:
  assumes "0 \<le> rl_windowMs cfg"
  shows "sorted_wrt (\<lambda>p q. fst q \<le> fst p) calls \<Longrightarrow> (\<forall>p \<in> set calls. fst p \<le> now) \<Longrightarrow>
    rl_records (rl_windowMs cfg) now (fst (rl_run cfg calls)) (snd (rl_run cfg calls))"
proof (induction calls arbitrary: now)
  case Nil
  then show ?case by (simp add: rl_records_def)
next
  case (Cons c calls)
  obtain t r where c: "c = (t, r)" by force
  obtain st acc where run: "rl_run cfg calls = (st, acc)" by force
  have "rl_records (rl_windowMs cfg) t st acc" using Cons c run by simp
  from rl_check_records [OF this assms, of r]
  have "rl_records (rl_windowMs cfg) t (fst (rl_run cfg (c # calls))) (snd (rl_run cfg (c # calls)))"
    by (auto simp: c run split: prod.splits)
  then show ?case using Cons.prems(2) c rl_records_later by simp
qed

text \<open>A list of times in which fewer than \<open>n\<close> earlier ones share the window of each.\<close>

lemma since_bound:
  assumes "sorted ts" "\<And>i. i < length ts \<Longrightarrow> int (length (since (ts ! i - w) (take i ts))) < n"
    "0 \<le> n"
  shows "int (length (filter (\<lambda>t. t0 \<le> t \<and> t \<le> t0 + w) ts)) \<le> n"
  using assms
proof (induction ts rule: rev_induct)
  case (snoc t ts)
  have IH: "int (length (filter (\<lambda>t. t0 \<le> t \<and> t \<le> t0 + w) ts)) \<le> n"
  proof (rule snoc.IH)
    show "sorted ts" using snoc.prems(1) by (simp add: sorted_append)
    show "int (length (since (ts ! i - w) (take i ts))) < n" if "i < length ts" for i
      using snoc.prems(2) [of i] that by (simp add: nth_append)
  qed (rule snoc.prems(3))
  show ?case
  proof (cases "t0 \<le> t \<and> t \<le> t0 + w")
    case True
    have "length (filter (\<lambda>t. t0 \<le> t \<and> t \<le> t0 + w) ts) \<le> length (since (t - w) ts)"
      unfolding since_def using True by (induction ts) auto
    moreover have "int (length (since (t - w) ts)) < n"
      using snoc.prems(2) [of "length ts"] by simp
    ultimately show ?thesis using True by simp
  next
    case False
    then have "filter (\<lambda>t. t0 \<le> t \<and> t \<le> t0 + w) (ts @ [t]) = filter (\<lambda>t. t0 \<le> t \<and> t \<le> t0 + w) ts" by auto
    then show ?thesis using IH by metis
  qed
qed simp

lemma rl_run_spaced:
  assumes "0 \<le> rl_windowMs cfg"
  shows "sorted_wrt (\<lambda>p q. fst q \<le> fst p) calls \<Longrightarrow>
    i < length (times_of (snd (rl_run cfg calls)) r) \<Longrightarrow>
    int (length (since (times_of (snd (rl_run cfg calls)) r ! i - rl_windowMs cfg)
                   (take i (times_of (snd (rl_run cfg calls)) r)))) < max 1 (rl_maxRequests cfg)"
proof (induction calls arbitrary: i)
  case (Cons c calls)
  obtain t q where c: "c = (t, q)" by force
  obtain st acc where run: "rl_run cfg calls = (st, acc)" by force
  obtain b st' where chk: "rl_check cfg t st q = (b, st')" by force
  have "rl_records (rl_windowMs cfg) t st acc"
    using rl_run_records [OF assms, of calls t] Cons.prems(1) c run by simp
  from rl_check_records [OF this assms, of q] chk
  have b: "b \<longleftrightarrow> (let n = length (since (t - rl_windowMs cfg) (times_of acc q))
                  in n = 0 \<or> int n < rl_maxRequests cfg)" by simp
  have IH: "i < length (times_of acc r) \<Longrightarrow>
      int (length (since (times_of acc r ! i - rl_windowMs cfg) (take i (times_of acc r)))) < max 1 (rl_maxRequests cfg)" for i
    using Cons.IH Cons.prems(1) run by simp
  have acc: "times_of (snd (rl_run cfg (c # calls))) r =
      (if b \<and> q = r then times_of acc r @ [t] else times_of acc r)"
    by (simp add: c run chk times_of_Cons)
  show ?case
  proof (cases "b \<and> q = r \<and> i = length (times_of acc r)")
    case True
    then show ?thesis using b unfolding acc by (auto simp: Let_def)
  next
    case False
    then have "i < length (times_of acc r)"
      using Cons.prems(2) unfolding acc by (auto split: if_splits)
    then show ?thesis using IH unfolding acc by (auto simp: nth_append)
  qed
qed simp

subsection \<open>Property\<close>

text \<open>C16: Under a clock that does not go backwards, and whatever the sequence of requests
  (newest first in the list), a request is accepted exactly when the requester has no accepted
  request in the current window or fewer than the maximum; so no window of that length, wherever
  it starts, ever holds more accepted requests of a requester than the maximum (or one, where the
  maximum is not positive).\<close>

theorem rate_limit_exact:
  assumes "0 \<le> rl_windowMs cfg"
    and "sorted_wrt (\<lambda>p q. fst q \<le> fst p) ((now, r) # calls)"
  shows "(case rl_run cfg calls of
      (st, accepted) \<Rightarrow>
        fst (rl_check cfg now st r) =
          (let n = length (since (now - rl_windowMs cfg) (times_of accepted r))
           in n = 0 \<or> int n < rl_maxRequests cfg) \<and>
        int (length (filter (\<lambda>t. t0 \<le> t \<and> t \<le> t0 + rl_windowMs cfg) (times_of accepted r)))
          \<le> max 1 (rl_maxRequests cfg))"
proof -
  obtain st acc where run: "rl_run cfg calls = (st, acc)" by force
  have rec: "rl_records (rl_windowMs cfg) now st acc"
    using rl_run_records [OF assms(1), of calls now] assms(2) run by simp
  moreover have "int (length (filter (\<lambda>t. t0 \<le> t \<and> t \<le> t0 + rl_windowMs cfg) (times_of acc r)))
      \<le> max 1 (rl_maxRequests cfg)"
    using rl_run_spaced [OF assms(1), of calls _ r] assms(2) run rl_recordsD(1) [OF rec]
    by (intro since_bound) auto
  ultimately show ?thesis using rl_check_records [OF rec assms(1), of r]
    by (auto simp: run split: prod.splits)
qed

theorem rate_limit_exact_witness:
  "case rl_run \<lparr>rl_maxRequests = 2, rl_windowMs = 100\<rparr> [(50, ''a''), (20, ''a''), (0, ''a'')] of
     (st, accepted) \<Rightarrow>
       fst (rl_check \<lparr>rl_maxRequests = 2, rl_windowMs = 100\<rparr> 90 st ''a'') =
         (let n = length (since (90 - 100) (times_of accepted ''a'')) in n = 0 \<or> int n < 2) \<and>
       int (length (filter (\<lambda>t. 0 \<le> t \<and> t \<le> 0 + 100) (times_of accepted ''a''))) \<le> max 1 2"
  using rate_limit_exact [of "\<lparr>rl_maxRequests = 2, rl_windowMs = 100\<rparr>" 90 "''a''"
      "[(50, ''a''), (20, ''a''), (0, ''a'')]" 0] by simp

end
