(* ===== verification/VerifierService.thy ===== *)
theory VerifierService
  imports VerifierChecks RateLimiter
begin

text \<open>
  The verifier service (\<^verbatim>\<open>packages/verifier/src/service.ts\<close>): the answer to a verification
  request, limited per sender, and the self-seal, which is built once and shared. A check handler
  is a function from requests; \<open>default_checks\<close> are the six of the program. Signing is an
  argument: it returns the base64 signature of the canonical text or throws.
\<close>

definition HOUR_MS :: int where
  "HOUR_MS = 3600000"

definition ALL_CHECK_IDS :: "string list" where
  "ALL_CHECK_IDS =
     [''source_available'', ''build_provenance'', ''release_signing'', ''seal_signature'',
      ''seal_chain'', ''schema_compliance'']"

definition SUPPORTED_VERIFIER_TIERS :: "trust_tier list" where
  "SUPPORTED_VERIFIER_TIERS = [TT_source_verified]"

type_synonym check_handler = "verification_request \<Rightarrow> check_result"

record verifier_options =
  vo_config :: verifier_config
  vo_engine :: seal_engine
  vo_sign :: "string \<Rightarrow> (string, string) result"
  vo_checks :: "check_handler list"

definition default_checks ::
  "check_env \<Rightarrow> (seal_payload \<Rightarrow> (string \<times> string) list) \<Rightarrow> verifier_config \<Rightarrow> check_handler list" where
  "default_checks en issues config =
     [source_available_check en,
      build_provenance_check en (vcfg_buildProvenance config),
      release_signing_check en,
      seal_signature_check en,
      seal_chain_check en,
      schema_compliance_check en issues]"

definition service_rate_limit :: "verifier_config \<Rightarrow> rate_limiter_config" where
  "service_rate_limit config =
     \<lparr>rl_maxRequests = vcfg_maxRequestsPerRequesterPerHour config, rl_windowMs = HOUR_MS\<rparr>"

definition buildAndSignStatement ::
  "verifier_options \<Rightarrow> statement_fields \<Rightarrow> (verification_statement, signet_error) result" where
  "buildAndSignStatement o1 f =
     (let canonical = canonicalize_bytes (vo_engine o1) (statement_js f)
      in case vo_sign o1 canonical of
           Ok signature \<Rightarrow> Ok \<lparr>vs_fields = f, vs_signature = signature\<rparr>
         | Err message \<Rightarrow> Err (InternalError_create (''Failed to sign statement: '' @ message) None))"

definition statement_for ::
  "verifier_options \<Rightarrow> int \<Rightarrow> string \<Rightarrow> verification_request \<Rightarrow> verification_verdict \<Rightarrow> trust_tier \<Rightarrow>
   verification_check list \<Rightarrow> statement_fields" where
  "statement_for o1 now statementId request verdict tier checks =
     \<lparr>sf_statementId = statementId, sf_requestId = vr_requestId request,
      sf_verifierInboxId = vcfg_verifierInboxId (vo_config o1),
      sf_signetInboxId = vr_signetInboxId request, sf_agentInboxId = vr_agentInboxId request,
      sf_verdict = verdict, sf_verifiedTier = tier, sf_checks = checks,
      sf_challengeNonce = vr_challengeNonce request,
      sf_issuedAt = se_isoText (vo_engine o1) now,
      sf_expiresAt = se_isoText (vo_engine o1) (now + vcfg_statementTtlSeconds (vo_config o1) * 1000)\<rparr>"

definition rate_limit_outcome :: "verifier_options \<Rightarrow> string \<Rightarrow> verification_check" where
  "rate_limit_outcome o1 senderInboxId =
     (let limit = vcfg_maxRequestsPerRequesterPerHour (vo_config o1)
      in \<lparr>vc_checkId = ''rate_limit_exceeded'', vc_verdict = CV_fail,
          vc_reason = ''Rate limit exceeded: max '' @ int_text limit @ '' requests per hour'',
          vc_evidence = Some [(''senderInboxId'', VStr senderInboxId), (''limit'', num_js limit)]\<rparr>)"

text \<open>The first internal error in the order of the checks, or all of them.\<close>

fun collect_checks ::
  "(verification_check, signet_error) result list \<Rightarrow> (verification_check list, signet_error) result" where
  "collect_checks [] = Ok []"
| "collect_checks (Err e # rs) = Err e"
| "collect_checks (Ok c # rs) =
     (case collect_checks rs of Err e \<Rightarrow> Err e | Ok cs \<Rightarrow> Ok (c # cs))"

text \<open>
  One request. The clock is read when the request arrives and again when the checks are done.
  The result \<open>None\<close> means that the promise of the request does not settle with a value, because
  that of a check does not.
\<close>

definition handleRequest ::
  "verifier_options \<Rightarrow> int \<Rightarrow> int \<Rightarrow> string \<Rightarrow> rate_limiter_state \<Rightarrow> verification_request \<Rightarrow> string \<Rightarrow>
   (verification_statement, signet_error) result option \<times> rate_limiter_state" where
  "handleRequest o1 arrival completed statementId limiter request senderInboxId =
     (case rl_check (service_rate_limit (vo_config o1)) arrival limiter senderInboxId of
        (False, limiter') \<Rightarrow>
          (Some (buildAndSignStatement o1
             (statement_for o1 arrival statementId request VV_rejected TT_unverified
                [rate_limit_outcome o1 senderInboxId])), limiter')
      | (True, limiter') \<Rightarrow>
          (case all_some (map (\<lambda>execute. execute request) (vo_checks o1)) of
             None \<Rightarrow> (None, limiter')
           | Some checkResults \<Rightarrow>
               (case collect_checks checkResults of
                  Err e \<Rightarrow> (Some (Err e), limiter')
                | Ok completedChecks \<Rightarrow>
                    let verdict = determineVerdict (map vc_verdict completedChecks);
                        verifiedTier = determineVerifiedTier verdict (vr_requestedTier request)
                    in (Some (buildAndSignStatement o1
                          (statement_for o1 completed statementId request verdict verifiedTier completedChecks)),
                        limiter'))))"

subsection \<open>The self-seal\<close>

datatype self_seal_cache = SS_none | SS_pending self_seal_fields | SS_resolved verifier_self_seal

definition buildAndSignSelfSeal ::
  "verifier_options \<Rightarrow> self_seal_fields \<Rightarrow> (verifier_self_seal, signet_error) result" where
  "buildAndSignSelfSeal o1 f =
     (case vo_sign o1 (canonicalize_bytes (vo_engine o1) (self_seal_js f)) of
        Ok signature \<Rightarrow> Ok \<lparr>vss_fields = f, vss_signature = signature\<rparr>
      | Err message \<Rightarrow> Err (InternalError_create (''Failed to sign self-seal: '' @ message) None))"

text \<open>A call starts a build unless one is under way or done; the build settles later.\<close>

definition selfSeal :: "verifier_options \<Rightarrow> int \<Rightarrow> self_seal_cache \<Rightarrow> self_seal_cache" where
  "selfSeal o1 now cached =
     (if cached \<noteq> SS_none then cached
      else SS_pending
        \<lparr>ss_verifierInboxId = vcfg_verifierInboxId (vo_config o1),
         ss_capabilities =
           \<lparr>cap_supportedTiers = SUPPORTED_VERIFIER_TIERS, cap_supportedChecks = ALL_CHECK_IDS,
            cap_maxRequestsPerHour = vcfg_maxRequestsPerRequesterPerHour (vo_config o1)\<rparr>,
         ss_sourceRepoUrl = vcfg_sourceRepoUrl (vo_config o1),
         ss_issuedAt = se_isoText (vo_engine o1) now\<rparr>)"

definition selfSeal_settled ::
  "verifier_options \<Rightarrow> self_seal_cache \<Rightarrow> self_seal_cache \<times> (verifier_self_seal, signet_error) result option" where
  "selfSeal_settled o1 cached =
     (case cached of
        SS_pending f \<Rightarrow>
          (case buildAndSignSelfSeal o1 f of
             Err e \<Rightarrow> (SS_none, Some (Err e))
           | Ok s \<Rightarrow> (SS_resolved s, Some (Ok s)))
      | _ \<Rightarrow> (cached, None))"

subsection \<open>Verdicts of the checks\<close>

definition verdict_of :: "check_result \<Rightarrow> check_verdict option" where
  "verdict_of r = (case r of Some (Ok c) \<Rightarrow> Some (vc_verdict c) | _ \<Rightarrow> None)"

lemma verdict_of_outcome [simp]:
  "verdict_of (check_outcome i v r e) = Some v" "verdict_of None = None" "verdict_of (Some (Err er)) = None"
  by (simp_all add: verdict_of_def check_outcome_def)

lemma bytesEqual_from_iff:
  "bytesEqual_from a b i n \<longleftrightarrow> (\<forall>j < n. a ! (i + j) = b ! (i + j))"
proof (induction n arbitrary: i)
  case (Suc n)
  then show ?case using less_Suc_eq_0_disj by auto
qed simp

lemma bytesEqual_iff: "bytesEqual a b \<longleftrightarrow> a = b"
  by (auto simp: bytesEqual_def bytesEqual_from_iff list_eq_iff_nth_eq)

lemma enforcement_not_pass:
  "enforce_issuer c p = Refuse r \<Longrightarrow> verdict_of r \<noteq> Some CV_pass"
  "enforce_identity c p = Refuse r \<Longrightarrow> verdict_of r \<noteq> Some CV_pass"
  by (auto simp: enforce_issuer_def enforce_identity_def Let_def split: option.splits if_splits)

lemma build_provenance_not_pass: "verdict_of (build_provenance_check en config request) \<noteq> Some CV_pass"
  using enforcement_not_pass
  by (auto simp: build_provenance_check_def verify_provenance_signature_def Let_def
      split: option.splits result.splits if_splits enforcement.splits)

lemma all_some_iff: "all_some xs = Some ys \<longleftrightarrow> xs = map Some ys"
proof (induction xs arbitrary: ys rule: all_some.induct)
  case (3 x xs)
  then show ?case by (cases ys) auto
qed auto

lemma collect_checks_iff: "collect_checks rs = Ok cs \<longleftrightarrow> rs = map Ok cs"
proof (induction rs arbitrary: cs rule: collect_checks.induct)
  case (3 c rs)
  show ?case by (cases cs) (auto simp flip: 3 split: result.split)
qed auto

lemma outcome_verdicts:
  "all_some (map (\<lambda>f. f r) fs) = Some rs \<Longrightarrow> collect_checks rs = Ok cs \<Longrightarrow>
    map (\<lambda>f. verdict_of (f r)) fs = map (\<lambda>c. Some (vc_verdict c)) cs"
proof (induction fs arbitrary: rs cs)
  case (Cons f fs)
  then obtain c where c: "f r = Some c" by (cases "f r") auto
  with Cons.prems(1) obtain rs' where rs': "all_some (map (\<lambda>f. f r) fs) = Some rs'" "rs = c # rs'" by auto
  with Cons.prems(2) obtain d cs' where "c = Ok d" "cs = d # cs'" "collect_checks rs' = Ok cs'"
    by (cases c) (auto split: result.splits)
  then show ?case using Cons.IH [OF rs'(1)] c by (simp add: verdict_of_def)
qed simp

lemma verdicts_members:
  assumes "map (\<lambda>f. verdict_of (f r)) fs = map (\<lambda>c. Some (vc_verdict c)) cs"
  shows "v \<in> set (map vc_verdict cs) \<longleftrightarrow> (\<exists>f \<in> set fs. verdict_of (f r) = Some v)"
proof -
  have "set (map (\<lambda>c. Some (vc_verdict c)) cs) = (\<lambda>f. verdict_of (f r)) ` set fs"
    using assms by (metis list.set_map)
  then have "Some v \<in> (\<lambda>c. Some (vc_verdict c)) ` set cs \<longleftrightarrow> (\<exists>f \<in> set fs. verdict_of (f r) = Some v)"
    by (metis (no_types, lifting) image_iff list.set_map)
  then show ?thesis by auto
qed

lemma verdicts_all:
  assumes "map (\<lambda>f. verdict_of (f r)) fs = map (\<lambda>c. Some (vc_verdict c)) cs"
  shows "(\<forall>v \<in> set (map vc_verdict cs). v = CV_pass) \<longleftrightarrow> (\<forall>f \<in> set fs. verdict_of (f r) = Some CV_pass)"
proof -
  have "set (map (\<lambda>f. verdict_of (f r)) fs) = set (map (\<lambda>c. Some (vc_verdict c)) cs)" using assms by metis
  then have "(\<forall>x \<in> (\<lambda>f. verdict_of (f r)) ` set fs. x = Some CV_pass) \<longleftrightarrow>
      (\<forall>x \<in> (\<lambda>c. Some (vc_verdict c)) ` set cs. x = Some CV_pass)" by simp
  then show ?thesis by simp
qed

text \<open>Every statement of a request, by what the limiter and the checks said.\<close>

lemma handleRequest_Ok:
  assumes "fst (handleRequest o1 arrival completed i limiter request sender) = Some (Ok st)"
  shows "vo_sign o1 (canonicalize_bytes (vo_engine o1) (statement_js (vs_fields st))) = Ok (vs_signature st)"
    "\<exists>verdict now cs. vs_fields st = statement_for o1 now i request verdict
        (determineVerifiedTier verdict (vr_requestedTier request)) cs \<and> now \<in> {arrival, completed} \<and>
        verdict = determineVerdict (map vc_verdict cs) \<and>
        (if fst (rl_check (service_rate_limit (vo_config o1)) arrival limiter sender)
         then map (\<lambda>f. verdict_of (f request)) (vo_checks o1) = map (\<lambda>c. Some (vc_verdict c)) cs
         else cs = [rate_limit_outcome o1 sender])"
proof -
  obtain b l where chk: "rl_check (service_rate_limit (vo_config o1)) arrival limiter sender = (b, l)" by force
  have signed: "vo_sign o1 (canonicalize_bytes (vo_engine o1) (statement_js (vs_fields st))) = Ok (vs_signature st)"
    and sign: "vs_fields st = f" if "buildAndSignStatement o1 f = Ok st" for f
    using that by (auto simp: buildAndSignStatement_def Let_def split: result.splits)
  have "\<exists>f. buildAndSignStatement o1 f = Ok st"
    using assms chk
    by (auto simp: handleRequest_def Let_def split: bool.splits option.splits result.splits)
  then show "vo_sign o1 (canonicalize_bytes (vo_engine o1) (statement_js (vs_fields st))) = Ok (vs_signature st)"
    using signed by blast
  show "\<exists>verdict now cs. vs_fields st = statement_for o1 now i request verdict
        (determineVerifiedTier verdict (vr_requestedTier request)) cs \<and> now \<in> {arrival, completed} \<and>
        verdict = determineVerdict (map vc_verdict cs) \<and>
        (if fst (rl_check (service_rate_limit (vo_config o1)) arrival limiter sender)
         then map (\<lambda>f. verdict_of (f request)) (vo_checks o1) = map (\<lambda>c. Some (vc_verdict c)) cs
         else cs = [rate_limit_outcome o1 sender])"
  proof (cases b)
    case False
    then have "vs_fields st = statement_for o1 arrival i request VV_rejected TT_unverified [rate_limit_outcome o1 sender]"
      using assms sign chk by (simp add: handleRequest_def)
    moreover have "determineVerdict (map vc_verdict [rate_limit_outcome o1 sender]) = VV_rejected"
      by (simp add: determineVerdict_def rate_limit_outcome_def Let_def)
    ultimately show ?thesis using False chk
      by (intro exI [of _ VV_rejected] exI [of _ arrival] exI [of _ "[rate_limit_outcome o1 sender]"])
        (simp add: determineVerifiedTier_iff)
  next
    case True
    then obtain rs cs where rs: "all_some (map (\<lambda>f. f request) (vo_checks o1)) = Some rs" "collect_checks rs = Ok cs"
        "buildAndSignStatement o1 (statement_for o1 completed i request (determineVerdict (map vc_verdict cs))
           (determineVerifiedTier (determineVerdict (map vc_verdict cs)) (vr_requestedTier request)) cs) = Ok st"
      using assms chk by (auto simp: handleRequest_def Let_def split: option.splits result.splits)
    then show ?thesis using True chk sign [OF rs(3)] outcome_verdicts [OF rs(1,2)] by auto
  qed
qed

subsection \<open>Properties\<close>

text \<open>C15: A statement is signed over its canonical fields, answers the nonce and the parties of
  the request and expires one configured lifetime after it was issued; its verdict is "verified"
  exactly when the sender was within the limit and every check passed, "rejected" exactly when
  the sender was over the limit or some check failed, and its tier is the source-verified one
  exactly when the verdict is "verified" and the request asked for a tier, and else unverified.\<close>

theorem statement_exact:
  "(case fst (handleRequest o1 arrival completed i limiter request sender) of
      Some (Ok st) \<Rightarrow>
        let f = vs_fields st;
            inLimit = fst (rl_check (service_rate_limit (vo_config o1)) arrival limiter sender);
            said = (\<lambda>v. list_ex (\<lambda>execute. verdict_of (execute request) = Some v) (vo_checks o1))
        in vo_sign o1 (canonicalize_bytes (vo_engine o1) (statement_js f)) = Ok (vs_signature st) \<and>
           sf_requestId f = vr_requestId request \<and> sf_challengeNonce f = vr_challengeNonce request \<and>
           sf_signetInboxId f = vr_signetInboxId request \<and> sf_agentInboxId f = vr_agentInboxId request \<and>
           (\<exists>now. now \<in> {arrival, completed} \<and> sf_issuedAt f = se_isoText (vo_engine o1) now \<and>
              sf_expiresAt f = se_isoText (vo_engine o1) (now + vcfg_statementTtlSeconds (vo_config o1) * 1000)) \<and>
           (sf_verdict f = VV_verified) =
             (inLimit \<and> list_all (\<lambda>execute. verdict_of (execute request) = Some CV_pass) (vo_checks o1)) \<and>
           (sf_verdict f = VV_rejected) = (\<not> (inLimit \<and> \<not> said CV_fail)) \<and>
           sf_verifiedTier f =
             (if sf_verdict f = VV_verified \<and> vr_requestedTier request \<noteq> TT_unverified
              then TT_source_verified else TT_unverified)
    | _ \<Rightarrow> True)"
proof (cases "fst (handleRequest o1 arrival completed i limiter request sender)")
  case (Some r)
  show ?thesis
  proof (cases r)
    case (Ok st)
    note ok = Some [unfolded Ok]
    obtain verdict now cs where f: "vs_fields st = statement_for o1 now i request verdict
        (determineVerifiedTier verdict (vr_requestedTier request)) cs" "now \<in> {arrival, completed}"
        "verdict = determineVerdict (map vc_verdict cs)"
        "if fst (rl_check (service_rate_limit (vo_config o1)) arrival limiter sender)
         then map (\<lambda>f. verdict_of (f request)) (vo_checks o1) = map (\<lambda>c. Some (vc_verdict c)) cs
         else cs = [rate_limit_outcome o1 sender]"
      using handleRequest_Ok(2) [OF ok] by blast
    have v: "(verdict = VV_verified) = (fst (rl_check (service_rate_limit (vo_config o1)) arrival limiter sender) \<and>
          list_all (\<lambda>execute. verdict_of (execute request) = Some CV_pass) (vo_checks o1))"
      "(verdict = VV_rejected) = (\<not> (fst (rl_check (service_rate_limit (vo_config o1)) arrival limiter sender) \<and>
          \<not> list_ex (\<lambda>execute. verdict_of (execute request) = Some CV_fail) (vo_checks o1)))"
      using f(4) verdicts_all [of request "vo_checks o1" cs] verdicts_members [of request "vo_checks o1" cs]
      unfolding f(3) determineVerdict_iff
      by (auto simp: list_all_iff list_ex_iff rate_limit_outcome_def Let_def split: if_splits)
    show ?thesis using f(2) handleRequest_Ok(1) [OF ok] v
      by (auto simp: Some Ok Let_def f(1) statement_for_def determineVerifiedTier_iff)
  qed (simp add: Some)
qed simp

text \<open>With the checks of the program no statement ever says "verified": the build provenance
  check cannot pass, so every statement has the unverified tier and supports no provenance, although
  the self-seal offers the source-verified tier.\<close>

theorem default_checks_never_verify:
  "(case fst (handleRequest (o1\<lparr>vo_checks := default_checks en issues (vo_config o1)\<rparr>)
            arrival completed i limiter request sender) of
      Some (Ok st) \<Rightarrow>
        sf_verdict (vs_fields st) \<noteq> VV_verified \<and> sf_verifiedTier (vs_fields st) = TT_unverified \<and>
        deriveProvenanceMap (vs_fields st) = []
    | _ \<Rightarrow> True)"
proof -
  let ?o = "o1\<lparr>vo_checks := default_checks en issues (vo_config o1)\<rparr>"
  have "sf_verdict (vs_fields st) \<noteq> VV_verified \<and> sf_verifiedTier (vs_fields st) = TT_unverified"
    if ok: "fst (handleRequest ?o arrival completed i limiter request sender) = Some (Ok st)" for st
  proof -
    obtain verdict now cs where f: "vs_fields st = statement_for ?o now i request verdict
        (determineVerifiedTier verdict (vr_requestedTier request)) cs"
        "verdict = determineVerdict (map vc_verdict cs)"
        "if fst (rl_check (service_rate_limit (vo_config ?o)) arrival limiter sender)
         then map (\<lambda>f. verdict_of (f request)) (vo_checks ?o) = map (\<lambda>c. Some (vc_verdict c)) cs
         else cs = [rate_limit_outcome ?o sender]"
      using handleRequest_Ok(2) [OF ok] by blast
    have "verdict \<noteq> VV_verified"
      using f(3) verdicts_all [of request "vo_checks ?o" cs] build_provenance_not_pass
      unfolding f(2) determineVerdict_iff
      by (auto simp: default_checks_def rate_limit_outcome_def Let_def split: if_splits)
    then show ?thesis by (simp add: f(1) statement_for_def determineVerifiedTier_iff)
  qed
  then show ?thesis by (simp add: deriveProvenanceMap_eq split: option.split result.split)
qed

text \<open>The seal chain check passes exactly when the request's seal is complete, the envelope
  carries it with the same canonical text, and its chain is structurally valid with a correct
  delta; the seal signature check passes exactly when the seal is well-formed and issued at a
  canonical time, the envelope carries it, and its signature verifies under the request's key.\<close>

theorem seal_checks_exact:
  "(verdict_of (seal_chain_check en request) = Some CV_pass) =
     (\<exists>seal env. vr_seal request = Some seal \<and> vr_sealEnvelope request = Some env \<and>
        sp_sealId seal \<noteq> [] \<and> sp_chatId seal \<noteq> [] \<and> sp_operatorId seal \<noteq> [] \<and> sp_credentialId seal \<noteq> [] \<and>
        sp_sealId (sc_current (sen_chain env)) = sp_sealId seal \<and>
        canonicalize_bytes (ke_engine en) (payload_js seal) =
          canonicalize_bytes (ke_engine en) (payload_js (sc_current (sen_chain env))) \<and>
        validateSealChain (ke_engine en) (sen_chain env) = Ok () \<and> verifyChainDelta (sen_chain env) = Ok ()) \<and>
   (verdict_of (seal_signature_check en request) = Some CV_pass) =
     (\<exists>seal env key. vr_seal request = Some seal \<and> vr_sealEnvelope request = Some env \<and>
        vr_sealPublicKey request = Some key \<and> sp_operatorId seal \<noteq> [] \<and>
        (\<exists>t. se_parseDate (ke_engine en) (sp_issuedAt seal) = Some t \<and>
             se_isoText (ke_engine en) t = sp_issuedAt seal) \<and> sp_issuedAt seal \<noteq> [] \<and>
        sp_sealId (sc_current (sen_chain env)) = sp_sealId seal \<and>
        canonicalize_bytes (ke_engine en) (payload_js seal) =
          canonicalize_bytes (ke_engine en) (payload_js (sc_current (sen_chain env))) \<and>
        ke_importKey en (hexToBytes key) = None \<and>
        ke_verifyEd25519 en (hexToBytes key) (ke_bufferFromBase64 en (sen_signature env))
          (canonicalize_bytes (ke_engine en) (payload_js seal)) = Ok True)"
proof (rule conjI)
  show "(verdict_of (seal_chain_check en request) = Some CV_pass) =
     (\<exists>seal env. vr_seal request = Some seal \<and> vr_sealEnvelope request = Some env \<and>
        sp_sealId seal \<noteq> [] \<and> sp_chatId seal \<noteq> [] \<and> sp_operatorId seal \<noteq> [] \<and> sp_credentialId seal \<noteq> [] \<and>
        sp_sealId (sc_current (sen_chain env)) = sp_sealId seal \<and>
        canonicalize_bytes (ke_engine en) (payload_js seal) =
          canonicalize_bytes (ke_engine en) (payload_js (sc_current (sen_chain env))) \<and>
        validateSealChain (ke_engine en) (sen_chain env) = Ok () \<and> verifyChainDelta (sen_chain env) = Ok ())"
    by (auto simp: seal_chain_check_def chain_failures_def same_signed_content_def bytesEqual_iff Let_def
        split: option.splits result.splits if_splits)
next
  show "(verdict_of (seal_signature_check en request) = Some CV_pass) =
     (\<exists>seal env key. vr_seal request = Some seal \<and> vr_sealEnvelope request = Some env \<and>
        vr_sealPublicKey request = Some key \<and> sp_operatorId seal \<noteq> [] \<and>
        (\<exists>t. se_parseDate (ke_engine en) (sp_issuedAt seal) = Some t \<and>
             se_isoText (ke_engine en) t = sp_issuedAt seal) \<and> sp_issuedAt seal \<noteq> [] \<and>
        sp_sealId (sc_current (sen_chain env)) = sp_sealId seal \<and>
        canonicalize_bytes (ke_engine en) (payload_js seal) =
          canonicalize_bytes (ke_engine en) (payload_js (sc_current (sen_chain env))) \<and>
        ke_importKey en (hexToBytes key) = None \<and>
        ke_verifyEd25519 en (hexToBytes key) (ke_bufferFromBase64 en (sen_signature env))
          (canonicalize_bytes (ke_engine en) (payload_js seal)) = Ok True)"
    by (auto simp: seal_signature_check_def signature_failures_def same_signed_content_def bytesEqual_iff
        importEd25519PublicKey_def verifyEd25519Signature_def Let_def
        split: option.splits result.splits if_splits bool.splits)
qed

end
