(* ===== verification/Jwt.thy ===== *)
theory Jwt
  imports Base64 JsValues Errors
begin

text \<open>
  Admin tokens (\<^verbatim>\<open>packages/keys/src/jwt.ts\<close>): base64url, the two-part encoding, signing and
  verification. The engine's JSON functions (decoding bytes as UTF-8 before parsing), the key
  import and the signature functions are the fields of \<open>jwt_engine\<close>; \<open>None\<close> stands for an
  exception of theirs.
\<close>

record jwt_engine =
  jw_stringify :: "js_value \<Rightarrow> string"
  jw_parseJson :: "8 word list \<Rightarrow> js_value option"
  jw_numText :: "rat \<Rightarrow> string"
  jw_sign :: "8 word list \<Rightarrow> 8 word list \<Rightarrow> (8 word list, string) result"
  jw_importKey :: "8 word list \<Rightarrow> bool"
  jw_verify :: "8 word list \<Rightarrow> 8 word list \<Rightarrow> 8 word list \<Rightarrow> bool option"

record admin_jwt_config =
  aj_defaultTtlSeconds :: int
  aj_maxTtlSeconds :: int
  aj_clockSkewSeconds :: int

record admin_jwt_config_input =
  aji_defaultTtlSeconds :: "int option"
  aji_maxTtlSeconds :: "int option"
  aji_clockSkewSeconds :: "int option"

definition AdminJwtConfigSchema :: "admin_jwt_config_input \<Rightarrow> admin_jwt_config option" where
  "AdminJwtConfigSchema input =
     (let cfg = \<lparr>aj_defaultTtlSeconds = nullish (aji_defaultTtlSeconds input) 120,
                 aj_maxTtlSeconds = nullish (aji_maxTtlSeconds input) 3600,
                 aj_clockSkewSeconds = nullish (aji_clockSkewSeconds input) 30\<rparr>
      in if 0 < aj_defaultTtlSeconds cfg \<and> 0 < aj_maxTtlSeconds cfg \<and> 0 \<le> aj_clockSkewSeconds cfg
         then Some cfg else None)"

record admin_jwt_payload =
  ap_iss :: string
  ap_iat :: int
  ap_exp :: int
  ap_jti :: string

definition admin_payload_js :: "admin_jwt_payload \<Rightarrow> js_value" where
  "admin_payload_js p = VObj
     [(''iss'', VStr (ap_iss p)), (''sub'', VStr ''admin''), (''iat'', VNum (of_int (ap_iat p))),
      (''exp'', VNum (of_int (ap_exp p))), (''jti'', VStr (ap_jti p))]"

definition AdminJwtPayloadSchema :: "js_value \<Rightarrow> admin_jwt_payload option" where
  "AdminJwtPayloadSchema v =
     (case (as_str (js_get v ''iss''), as_int (js_get v ''iat''), as_int (js_get v ''exp''), as_str (js_get v ''jti'')) of
        (Some iss, Some iat, Some ex, Some jti) \<Rightarrow>
          if js_get v ''sub'' = VStr ''admin'' \<and> 0 < iat \<and> 0 < ex
          then Some \<lparr>ap_iss = iss, ap_iat = iat, ap_exp = ex, ap_jti = jti\<rparr>
          else None
      | _ \<Rightarrow> None)"

record decoded_jwt =
  dj_header :: js_value
  dj_payload :: js_value

definition text_octets :: "string \<Rightarrow> 8 word list" where
  "text_octets s = map of_char s"

subsection \<open>Base64url\<close>

definition url_char :: "char \<Rightarrow> char" where
  "url_char c = (if c = CHR ''+'' then CHR ''-'' else if c = CHR ''/'' then CHR ''_'' else c)"

definition std_char :: "char \<Rightarrow> char" where
  "std_char c = (if c = CHR ''-'' then CHR ''+'' else if c = CHR ''_'' then CHR ''/'' else c)"

definition strip_equals :: "string \<Rightarrow> string" where
  "strip_equals s = rev (dropWhile (\<lambda>c. c = CHR ''='') (rev s))"

definition base64urlEncode :: "8 word list \<Rightarrow> string" where
  "base64urlEncode data =
     (if length data = 0 then [] else strip_equals (map url_char (btoa data)))"

definition base64urlDecode :: "string \<Rightarrow> 8 word list option" where
  "base64urlDecode str =
     (if str = [] then Some []
      else let padded = str @ replicate ((4 - length str mod 4) mod 4) (CHR ''='')
           in atob (map std_char padded))"

subsection \<open>Encoding and decoding\<close>

definition encodeJwt :: "jwt_engine \<Rightarrow> js_value \<Rightarrow> js_value \<Rightarrow> string" where
  "encodeJwt en header payload =
     (let headerB64 = base64urlEncode (text_octets (jw_stringify en header));
          payloadB64 = base64urlEncode (text_octets (jw_stringify en payload))
      in headerB64 @ ''.'' @ payloadB64)"

definition decodeJwt :: "jwt_engine \<Rightarrow> string \<Rightarrow> (decoded_jwt, signet_error) result" where
  "decodeJwt en headerPayload =
     (case split_on (CHR ''.'') headerPayload of
        [headerPart, payloadPart] \<Rightarrow>
          (case (Option.bind (base64urlDecode headerPart) (jw_parseJson en),
                 Option.bind (base64urlDecode payloadPart) (jw_parseJson en)) of
             (Some header, Some payload) \<Rightarrow> Ok \<lparr>dj_header = header, dj_payload = payload\<rparr>
           | _ \<Rightarrow> Err (ValidationError_create ''jwt'' ''Invalid base64url encoding'' []))
      | _ \<Rightarrow> Err (ValidationError_create ''jwt'' ''Expected 2 parts (header.payload)'' []))"

subsection \<open>Signing and verification\<close>

definition jwt_header :: js_value where
  "jwt_header = VObj [(''alg'', VStr ''EdDSA''), (''typ'', VStr ''JWT'')]"

definition signJwt :: "jwt_engine \<Rightarrow> 8 word list \<Rightarrow> admin_jwt_payload \<Rightarrow> (string, signet_error) result" where
  "signJwt en privateKey payload =
     (let headerPayload = encodeJwt en jwt_header (admin_payload_js payload);
          data = text_octets headerPayload
      in case jw_sign en privateKey data of
           Ok signature \<Rightarrow> Ok (headerPayload @ ''.'' @ base64urlEncode signature)
         | Err cause \<Rightarrow> Err (InternalError_create ''Failed to sign JWT'' (Some [(''cause'', VStr cause)])))"

text \<open>
  The result \<open>None\<close> means that the promise rejects: a header that is the JSON value \<open>null\<close> has no
  property \<open>alg\<close>. The clock is in seconds.
\<close>

definition verifyJwt ::
  "jwt_engine \<Rightarrow> int \<Rightarrow> string \<Rightarrow> 8 word list \<Rightarrow> int option \<Rightarrow> (admin_jwt_payload, signet_error) result option" where
  "verifyJwt en now token publicKeyBytes clockSkewSeconds =
     (let clockSkew = nullish clockSkewSeconds 30
      in case split_on (CHR ''.'') token of
           [headerPart, payloadPart, sigPart] \<Rightarrow>
             let headerPayload = headerPart @ ''.'' @ payloadPart
             in (case decodeJwt en headerPayload of
                   Err e \<Rightarrow> Some (Err e)
                 | Ok decoded \<Rightarrow>
                     (case js_member (dj_header decoded) ''alg'' of
                        None \<Rightarrow> None
                      | Some alg \<Rightarrow>
                          if alg \<noteq> VStr ''EdDSA''
                          then Some (Err (ValidationError_create ''jwt.header.alg''
                                 (''Expected EdDSA, got '' @ js_String (jw_numText en) alg) []))
                          else
                            (case AdminJwtPayloadSchema (dj_payload decoded) of
                               None \<Rightarrow> Some (Err (ValidationError_create ''jwt.payload'' ''Invalid JWT payload schema'' []))
                             | Some payload \<Rightarrow>
                                 if \<not> jw_importKey en publicKeyBytes
                                 then Some (Err (AuthError_create ''Failed to import admin public key'' None))
                                 else
                                   (case base64urlDecode sigPart of
                                      None \<Rightarrow> Some (Err (ValidationError_create ''jwt.signature'' ''Invalid base64url signature'' []))
                                    | Some sigBytes \<Rightarrow>
                                        if jw_verify en publicKeyBytes sigBytes (text_octets headerPayload) \<noteq> Some True
                                        then Some (Err (AuthError_create ''Invalid admin token signature'' None))
                                        else if ap_exp payload \<le> now - clockSkew
                                        then Some (Err (AuthError_create ''Admin token expired'' None))
                                        else if now + clockSkew < ap_iat payload
                                        then Some (Err (ValidationError_create ''jwt.iat'' ''Token issued in future'' []))
                                        else Some (Ok payload)))))
         | _ \<Rightarrow> Some (Err (ValidationError_create ''jwt'' ''Malformed JWT: expected 3 parts'' [])))"

subsection \<open>Base64url round trip\<close>

lemma btoa_split:
  "btoa bs = map b64_char (b64_digits bs) @ replicate ((4 - length (b64_digits bs) mod 4) mod 4) (CHR ''='')"
proof -
  have "b64_padding (length bs) = replicate ((4 - length (b64_digits bs) mod 4) mod 4) (CHR ''='')"
  proof -
    consider "length bs mod 3 = 0" | "length bs mod 3 = 1" | "length bs mod 3 = 2" by linarith
    then show ?thesis
      using b64_digits_length [of bs] by cases (simp_all add: b64_padding_def numeral_2_eq_2)
  qed
  then show ?thesis by (simp add: btoa_def)
qed

lemma alphabet_plain: "list_all (\<lambda>c. c \<noteq> CHR ''-'' \<and> c \<noteq> CHR ''_'' \<and> c \<noteq> CHR ''='' \<and> c \<noteq> CHR ''.'') b64_alphabet"
  by code_simp

lemma b64_char_plain: "n < 64 \<Longrightarrow> b64_char n \<notin> {CHR ''-'', CHR ''_'', CHR ''='', CHR ''.''}"
proof -
  assume "n < 64"
  moreover have "length b64_alphabet = 64" by code_simp
  ultimately have "b64_char n \<in> set b64_alphabet" by (simp add: b64_char_def)
  then show ?thesis using alphabet_plain by (auto simp: list_all_iff)
qed

lemma std_url_char: "c \<notin> {CHR ''-'', CHR ''_''} \<Longrightarrow> std_char (url_char c) = c"
  by (simp add: std_char_def url_char_def)

lemma strip_equals_pad: "CHR ''='' \<notin> set s \<Longrightarrow> strip_equals (s @ replicate k (CHR ''='')) = s"
proof -
  assume a: "CHR ''='' \<notin> set s"
  have "dropWhile (\<lambda>c. c = CHR ''='') (replicate k (CHR ''='') @ rev s) = dropWhile (\<lambda>c. c = CHR ''='') (rev s)"
    by (induction k) simp_all
  also have "\<dots> = rev s" using a by (cases "rev s") (auto simp: dropWhile_eq_self_iff)
  finally show ?thesis by (simp add: strip_equals_def)
qed

lemma encoded_body:
  "bs \<noteq> [] \<Longrightarrow> base64urlEncode bs = map (url_char \<circ> b64_char) (b64_digits bs)"
proof -
  assume "bs \<noteq> []"
  have "CHR ''='' \<notin> set (map (url_char \<circ> b64_char) (b64_digits bs))"
    using b64_digits_bound [of _ bs] b64_char_plain by (fastforce simp: url_char_def split: if_splits)
  then show ?thesis using \<open>bs \<noteq> []\<close> strip_equals_pad
    by (simp add: base64urlEncode_def btoa_split url_char_def)
qed

lemma decode_encode: "base64urlDecode (base64urlEncode bs) = Some bs"
proof (cases "bs = []")
  case False
  let ?ds = "b64_digits bs"
  have ne: "?ds \<noteq> []" using False by (cases bs rule: b64_digits.cases) auto
  have "map std_char (map (url_char \<circ> b64_char) ?ds) = map b64_char ?ds"
    using b64_digits_bound [of _ bs] b64_char_plain std_url_char by auto
  moreover have "std_char (CHR ''='') = CHR ''=''" by (simp add: std_char_def)
  ultimately have "map std_char (map (url_char \<circ> b64_char) ?ds @ replicate ((4 - length ?ds mod 4) mod 4) (CHR ''='')) = btoa bs"
    by (simp add: btoa_split)
  then show ?thesis using encoded_body [OF False] ne atob_btoa
    by (simp add: base64urlDecode_def Let_def)
qed (simp add: base64urlEncode_def base64urlDecode_def)

lemma encoded_plain: "CHR ''.'' \<notin> set (base64urlEncode bs)"
proof (cases "bs = []")
  case False
  then show ?thesis
    using encoded_body b64_digits_bound [of _ bs] b64_char_plain by (fastforce simp: url_char_def split: if_splits)
qed (simp add: base64urlEncode_def)

lemma split_dots:
  "CHR ''.'' \<notin> set a \<Longrightarrow> CHR ''.'' \<notin> set b \<Longrightarrow> split_on (CHR ''.'') (a @ ''.'' @ b) = [a, b]"
  "CHR ''.'' \<notin> set a \<Longrightarrow> CHR ''.'' \<notin> set b \<Longrightarrow> CHR ''.'' \<notin> set c \<Longrightarrow>
    split_on (CHR ''.'') ((a @ ''.'' @ b) @ ''.'' @ c) = [a, b, c]"
  by (simp_all add: split_on_append split_on_plain)

lemma schema_payload:
  "0 < ap_iat p \<Longrightarrow> 0 < ap_exp p \<Longrightarrow> AdminJwtPayloadSchema (admin_payload_js p) = Some p"
  by (cases p) (simp add: AdminJwtPayloadSchema_def admin_payload_js_def)

text \<open>A token put together from a header, claims and a signature that verifies.\<close>

lemma written_token:
  assumes "jw_parseJson en (text_octets (jw_stringify en jwt_header)) = Some jwt_header"
    and "jw_parseJson en (text_octets (jw_stringify en claims)) = Some claims"
    and "AdminJwtPayloadSchema claims = Some payload"
    and "jw_importKey en public"
    and "jw_verify en public sig (text_octets (encodeJwt en jwt_header claims)) = Some True"
  shows "verifyJwt en now (encodeJwt en jwt_header claims @ ''.'' @ base64urlEncode sig) public skew =
    Some (if ap_exp payload \<le> now - nullish skew 30 then Err (AuthError_create ''Admin token expired'' None)
          else if now + nullish skew 30 < ap_iat payload
          then Err (ValidationError_create ''jwt.iat'' ''Token issued in future'' [])
          else Ok payload)"
proof -
  let ?h = "base64urlEncode (text_octets (jw_stringify en jwt_header))"
  let ?p = "base64urlEncode (text_octets (jw_stringify en claims))"
  have enc: "encodeJwt en jwt_header claims = ?h @ ''.'' @ ?p" by (simp add: encodeJwt_def Let_def)
  have split: "split_on (CHR ''.'') ((?h @ ''.'' @ ?p) @ ''.'' @ base64urlEncode sig) = [?h, ?p, base64urlEncode sig]"
    by (intro split_dots(2) encoded_plain)
  have dec: "decodeJwt en (?h @ ''.'' @ ?p) = Ok \<lparr>dj_header = jwt_header, dj_payload = claims\<rparr>"
    using split_dots(1) [OF encoded_plain encoded_plain] assms(1,2)
    by (simp add: decodeJwt_def decode_encode)
  have "js_member jwt_header ''alg'' = Some (VStr ''EdDSA'')"
    by (simp add: js_member_def jwt_header_def)
  then show ?thesis
    using split dec assms(3,4,5) decode_encode unfolding enc by (simp add: verifyJwt_def Let_def)
qed

subsection \<open>Properties\<close>

text \<open>C19: A token is accepted exactly when it has three parts, its header names the algorithm, its
  claims have the shape of an administrator's, the key can be imported, the signature verifies
  over the first two parts, and, within the tolerance, it has not expired and was not issued in
  the future; what is returned are the claims that were signed.\<close>

theorem verifyJwt_exact:
  "(verifyJwt en now token key skew = Some (Ok payload)) =
     (\<exists>h p s hv pv sig.
        split_on (CHR ''.'') token = [h, p, s] \<and>
        Option.bind (base64urlDecode h) (jw_parseJson en) = Some hv \<and> js_get hv ''alg'' = VStr ''EdDSA'' \<and>
        Option.bind (base64urlDecode p) (jw_parseJson en) = Some pv \<and> AdminJwtPayloadSchema pv = Some payload \<and>
        jw_importKey en key \<and> base64urlDecode s = Some sig \<and>
        jw_verify en key sig (text_octets (h @ ''.'' @ p)) = Some True \<and>
        now - nullish skew 30 < ap_exp payload \<and> ap_iat payload \<le> now + nullish skew 30)"
proof (cases "\<exists>h p s. split_on (CHR ''.'') token = [h, p, s]")
  case True
  then obtain h p s where token: "split_on (CHR ''.'') token = [h, p, s]" by blast
  then have "CHR ''.'' \<notin> set h" "CHR ''.'' \<notin> set p"
    using split_on_parts [of _ "CHR ''.''" token] by auto
  then have hp: "split_on (CHR ''.'') (h @ ''.'' @ p) = [h, p]" by (rule split_dots(1))
  show ?thesis
  proof (cases "Option.bind (base64urlDecode h) (jw_parseJson en)")
    case None
    then show ?thesis using token hp by (auto simp: verifyJwt_def decodeJwt_def Let_def)
  next
    case hv: (Some hv)
    show ?thesis
    proof (cases "Option.bind (base64urlDecode p) (jw_parseJson en)")
      case None
      then show ?thesis using token hp hv by (auto simp: verifyJwt_def decodeJwt_def Let_def)
    next
      case pv: (Some pv)
      have "js_get hv ''alg'' = VStr ''EdDSA'' \<longleftrightarrow> js_member hv ''alg'' = Some (VStr ''EdDSA'')"
        by (auto simp: js_member_def)
      moreover have "decodeJwt en (h @ ''.'' @ p) = Ok \<lparr>dj_header = hv, dj_payload = pv\<rparr>"
        using hp hv pv by (simp add: decodeJwt_def)
      ultimately show ?thesis using token hv pv
        by (auto simp: verifyJwt_def Let_def split: option.splits)
    qed
  qed
next
  case False
  then show ?thesis by (auto simp: verifyJwt_def Let_def split: list.splits)
qed

text \<open>A token signed here is accepted under a key that verifies the signature, with the claims
  it was signed for, as long as the claims are positive, JSON text is read back as it was written,
  and the time allows it; outside the time it is refused for that reason.\<close>

theorem jwt_roundtrip:
  assumes "\<And>v. v \<in> {jwt_header, admin_payload_js payload} \<Longrightarrow> jw_parseJson en (text_octets (jw_stringify en v)) = Some v"
    and "0 < ap_iat payload" "0 < ap_exp payload"
    and "signJwt en private payload = Ok token"
    and "jw_importKey en public"
    and "\<And>data sig. jw_sign en private data = Ok sig \<Longrightarrow> jw_verify en public sig data = Some True"
  shows "verifyJwt en now token public skew =
    Some (if ap_exp payload \<le> now - nullish skew 30 then Err (AuthError_create ''Admin token expired'' None)
          else if now + nullish skew 30 < ap_iat payload
          then Err (ValidationError_create ''jwt.iat'' ''Token issued in future'' [])
          else Ok payload)"
proof -
  obtain sig where sig: "jw_sign en private (text_octets (encodeJwt en jwt_header (admin_payload_js payload))) = Ok sig"
      "token = encodeJwt en jwt_header (admin_payload_js payload) @ ''.'' @ base64urlEncode sig"
    using assms(4) by (auto simp: signJwt_def Let_def split: result.splits)
  show ?thesis unfolding sig(2)
    by (rule written_token) (use assms(1,5) assms(6) [OF sig(1)] schema_payload [OF assms(2,3)] in simp_all)
qed

definition sample_jwt :: jwt_engine where
  "sample_jwt =
     \<lparr>jw_stringify = (\<lambda>v. if v = jwt_header then ''h'' else ''p''),
      jw_parseJson = (\<lambda>bs. if bs = text_octets ''h'' then Some jwt_header
        else Some (admin_payload_js \<lparr>ap_iss = ''f'', ap_iat = 100, ap_exp = 220, ap_jti = ''n''\<rparr>)),
      jw_numText = (\<lambda>_. []), jw_sign = (\<lambda>k d. Ok (k @ d)), jw_importKey = (\<lambda>_. True),
      jw_verify = (\<lambda>k s d. Some (s = k @ d))\<rparr>"

theorem jwt_roundtrip_witness:
  "case signJwt sample_jwt [1, 2] \<lparr>ap_iss = ''f'', ap_iat = 100, ap_exp = 220, ap_jti = ''n''\<rparr> of
     Err _ \<Rightarrow> False
   | Ok token \<Rightarrow> verifyJwt sample_jwt 150 token [1, 2] None =
       Some (Ok \<lparr>ap_iss = ''f'', ap_iat = 100, ap_exp = 220, ap_jti = ''n''\<rparr>)"
proof (cases "signJwt sample_jwt [1, 2] \<lparr>ap_iss = ''f'', ap_iat = 100, ap_exp = 220, ap_jti = ''n''\<rparr>")
  case (Ok token)
  have "verifyJwt sample_jwt 150 token [1, 2] None =
    Some (if ap_exp \<lparr>ap_iss = ''f'', ap_iat = 100, ap_exp = 220, ap_jti = ''n''\<rparr> \<le> 150 - nullish None 30
          then Err (AuthError_create ''Admin token expired'' None)
          else if 150 + nullish None 30 < ap_iat \<lparr>ap_iss = ''f'', ap_iat = 100, ap_exp = 220, ap_jti = ''n''\<rparr>
          then Err (ValidationError_create ''jwt.iat'' ''Token issued in future'' [])
          else Ok \<lparr>ap_iss = ''f'', ap_iat = 100, ap_exp = 220, ap_jti = ''n''\<rparr>)"
    by (rule jwt_roundtrip [OF _ _ _ Ok])
      (auto simp: sample_jwt_def text_octets_def jwt_header_def admin_payload_js_def)
  then show ?thesis by (simp add: Ok)
qed (simp add: signJwt_def sample_jwt_def Let_def)

end
