(* ===== verification/Vault.thy ===== *)
theory Vault
  imports JsValues PolicyHash Errors "HOL-Library.Word"
begin

text \<open>
  The encrypted vault (\<^verbatim>\<open>packages/keys/src/vault.ts\<close>): opaque secrets, wallet mnemonics and API
  keys, kept in memory or in files. The key-derivation functions, ciphers and hexadecimal
  functions of the libraries, the JSON functions, random salts and nonces and the clock are
  arguments. A directory of the file vault is a map from file names to contents: bytes for
  secrets, and for JSON files the value the text stands for (\<open>None\<close> if it is not JSON). The
  argument \<open>fault\<close> of a file operation is the failure of its first access to the disk; names
  given as identifiers are plain file names, and removing an existing file does not fail.
\<close>

type_synonym bytes = "8 word list"

record vault_engine =
  ve_scrypt :: "bytes \<Rightarrow> bytes \<Rightarrow> int \<Rightarrow> int \<Rightarrow> int \<Rightarrow> int \<Rightarrow> bytes option"
  ve_sha256 :: "bytes \<Rightarrow> bytes"
  ve_hkdf :: "bytes \<Rightarrow> bytes \<Rightarrow> string \<Rightarrow> bytes"
  ve_gcmEncrypt :: "bytes \<Rightarrow> bytes \<Rightarrow> bytes \<Rightarrow> bytes"
  ve_gcmDecrypt :: "bytes \<Rightarrow> bytes \<Rightarrow> bytes \<Rightarrow> bytes option"
  ve_bytesToHex :: "bytes \<Rightarrow> string"
  ve_hexToBytes :: "string \<Rightarrow> bytes option"
  ve_stringify :: "js_value \<Rightarrow> string"
  ve_parseJson :: "string \<Rightarrow> js_value option"
  ve_isoText :: "int \<Rightarrow> string"
  ve_isUtf8 :: "string \<Rightarrow> bool"

definition encode_text :: "string \<Rightarrow> bytes" where
  "encode_text s = map of_char s"

definition decode_text :: "bytes \<Rightarrow> string" where
  "decode_text bs = map (\<lambda>b. char_of (unat b)) bs"

subsection \<open>Types\<close>

datatype key_chain = Chain_evm | Chain_ed25519

record account_entry =
  ac_index :: int
  ac_chain :: key_chain
  ac_address :: string

record wallet_file_info =
  wi_id :: string
  wi_label :: string
  wi_accountCount :: nat
  wi_createdAt :: string

record wallet_file =
  wf_id :: string
  wf_label :: string
  wf_crypto :: js_value
  wf_accounts :: "account_entry list"
  wf_createdAt :: string

record api_key_file =
  ak_id :: string
  ak_walletId :: string
  ak_crypto :: js_value
  ak_expiresAt :: string
  ak_createdAt :: string

record api_key_payload =
  akp_mnemonic :: string
  akp_walletId :: string

definition DEFAULT_SCRYPT_N :: int where
  "DEFAULT_SCRYPT_N = 131072"

definition DEFAULT_SCRYPT_R :: int where
  "DEFAULT_SCRYPT_R = 8"

definition DEFAULT_SCRYPT_P :: int where
  "DEFAULT_SCRYPT_P = 1"

definition DEFAULT_SCRYPT_DKLEN :: int where
  "DEFAULT_SCRYPT_DKLEN = 32"

definition TEST_SCRYPT_N :: int where
  "TEST_SCRYPT_N = 1024"

definition IV_BYTES :: nat where
  "IV_BYTES = 12"

subsection \<open>Encryption\<close>

definition encryptSecret :: "vault_engine \<Rightarrow> bytes \<Rightarrow> bytes \<Rightarrow> bytes \<Rightarrow> bytes" where
  "encryptSecret ve key iv plaintext = iv @ ve_gcmEncrypt ve key iv plaintext"

definition decryptSecret :: "vault_engine \<Rightarrow> bytes \<Rightarrow> bytes \<Rightarrow> bytes option" where
  "decryptSecret ve key data =
     (let iv = take IV_BYTES data; ciphertext = drop IV_BYTES data
      in ve_gcmDecrypt ve key iv ciphertext)"

definition encodeSecretName :: "string \<Rightarrow> string" where
  "encodeSecretName name = encodeURIComponent name"

definition decodeSecretName :: "vault_engine \<Rightarrow> string \<Rightarrow> string option" where
  "decodeSecretName ve filename =
     (if \<not> ends_with filename ''.bin'' then None
      else decodeURIComponent (ve_isUtf8 ve) (take (length filename - 4) filename))"

definition num :: "int \<Rightarrow> js_value" where
  "num i = VNum (of_int i)"

definition encryptWithScrypt ::
  "vault_engine \<Rightarrow> bytes \<Rightarrow> bytes \<Rightarrow> string \<Rightarrow> string \<Rightarrow> bool \<Rightarrow> js_value option" where
  "encryptWithScrypt ve salt iv plaintext passphrase isTest =
     (let n = (if isTest then TEST_SCRYPT_N else DEFAULT_SCRYPT_N)
      in case ve_scrypt ve (encode_text passphrase) salt n DEFAULT_SCRYPT_R DEFAULT_SCRYPT_P DEFAULT_SCRYPT_DKLEN of
           None \<Rightarrow> None
         | Some dk \<Rightarrow>
             let encrypted = ve_gcmEncrypt ve dk iv (encode_text plaintext);
                 mac = ve_sha256 ve (dk @ encrypted)
             in Some (VObj
                  [(''cipher'', VStr ''aes-256-gcm''), (''ciphertext'', VStr (ve_bytesToHex ve encrypted)),
                   (''cipherparams'', VObj [(''iv'', VStr (ve_bytesToHex ve iv))]),
                   (''kdf'', VStr ''scrypt''),
                   (''kdfparams'', VObj
                      [(''n'', num n), (''r'', num DEFAULT_SCRYPT_R), (''p'', num DEFAULT_SCRYPT_P),
                       (''dklen'', num DEFAULT_SCRYPT_DKLEN), (''salt'', VStr (ve_bytesToHex ve salt))]),
                   (''mac'', VStr (ve_bytesToHex ve mac))]))"

definition js_hex :: "vault_engine \<Rightarrow> js_value \<Rightarrow> bytes option" where
  "js_hex ve v = Option.bind (as_str v) (ve_hexToBytes ve)"

definition em_dash_text :: string where
  "em_dash_text = [CHR 0xE2, CHR 0x80, CHR 0x94]"

definition decryption_failed :: signet_error where
  "decryption_failed =
     AuthError_create (''Decryption failed '' @ em_dash_text @ '' wrong passphrase or corrupt data'') None"

definition wrong_passphrase :: signet_error where
  "wrong_passphrase = AuthError_create ''Wrong passphrase or corrupted wallet'' None"

text \<open>Every malformed part of the stored block makes some library function throw.\<close>

definition decryptWithScrypt :: "vault_engine \<Rightarrow> js_value \<Rightarrow> string \<Rightarrow> (string, signet_error) result" where
  "decryptWithScrypt ve block passphrase =
     (let params = js_get block ''kdfparams''
      in case (js_hex ve (js_get params ''salt''), as_int (js_get params ''n''), as_int (js_get params ''r''),
               as_int (js_get params ''p''), as_int (js_get params ''dklen'')) of
           (Some salt, Some n, Some r, Some p, Some dklen) \<Rightarrow>
             (case (ve_scrypt ve (encode_text passphrase) salt n r p dklen,
                    js_hex ve (js_get block ''ciphertext''), js_hex ve (js_get block ''mac'')) of
                (Some dk, Some ciphertextBytes, Some storedMac) \<Rightarrow>
                  let expectedMac = ve_sha256 ve (dk @ ciphertextBytes)
                  in if ve_bytesToHex ve expectedMac \<noteq> ve_bytesToHex ve storedMac
                     then Err wrong_passphrase
                     else
                       (case Option.bind (js_hex ve (js_get (js_get block ''cipherparams'') ''iv''))
                               (\<lambda>iv. ve_gcmDecrypt ve dk iv ciphertextBytes) of
                          None \<Rightarrow> Err decryption_failed
                        | Some decrypted \<Rightarrow> Ok (decode_text decrypted))
              | _ \<Rightarrow> Err decryption_failed)
         | _ \<Rightarrow> Err decryption_failed)"

definition encryptWithHkdf :: "vault_engine \<Rightarrow> bytes \<Rightarrow> bytes \<Rightarrow> string \<Rightarrow> string \<Rightarrow> js_value" where
  "encryptWithHkdf ve salt iv plaintext token =
     (let info = ''signet-api-key'';
          dk = ve_hkdf ve (encode_text token) salt info;
          encrypted = ve_gcmEncrypt ve dk iv (encode_text plaintext)
      in VObj
           [(''cipher'', VStr ''aes-256-gcm''), (''ciphertext'', VStr (ve_bytesToHex ve encrypted)),
            (''cipherparams'', VObj [(''iv'', VStr (ve_bytesToHex ve iv))]),
            (''kdf'', VStr ''hkdf-sha256''),
            (''kdfparams'', VObj [(''salt'', VStr (ve_bytesToHex ve salt)), (''info'', VStr info)])])"

definition decryptWithHkdf :: "vault_engine \<Rightarrow> js_value \<Rightarrow> string \<Rightarrow> (string, signet_error) result" where
  "decryptWithHkdf ve block token =
     (let params = js_get block ''kdfparams'';
          failed = Err (InternalError_create (''API key decryption failed '' @ em_dash_text @ '' invalid token'') None)
      in case (js_hex ve (js_get params ''salt''), as_str (js_get params ''info''),
               js_hex ve (js_get (js_get block ''cipherparams'') ''iv''), js_hex ve (js_get block ''ciphertext'')) of
           (Some salt, Some info, Some iv, Some ciphertext) \<Rightarrow>
             (case ve_gcmDecrypt ve (ve_hkdf ve (encode_text token) salt info) iv ciphertext of
                None \<Rightarrow> failed
              | Some decrypted \<Rightarrow> Ok (decode_text decrypted))
         | _ \<Rightarrow> failed)"

definition parseApiKeyPayload :: "vault_engine \<Rightarrow> string \<Rightarrow> (api_key_payload, signet_error) result" where
  "parseApiKeyPayload ve decrypted =
     (case ve_parseJson ve decrypted of
        None \<Rightarrow> Err (InternalError_create ''Failed to parse API key data'' None)
      | Some parsed \<Rightarrow>
          (case (as_str (js_get parsed ''mnemonic''), as_str (js_get parsed ''walletId'')) of
             (Some mnemonic, Some walletId) \<Rightarrow> Ok \<lparr>akp_mnemonic = mnemonic, akp_walletId = walletId\<rparr>
           | _ \<Rightarrow> Err (InternalError_create ''Corrupt API key payload'' None)))"

definition api_key_plaintext :: "vault_engine \<Rightarrow> string \<Rightarrow> string \<Rightarrow> string" where
  "api_key_plaintext ve mnemonic walletId =
     ve_stringify ve (VObj [(''mnemonic'', VStr mnemonic), (''walletId'', VStr walletId)])"

subsection \<open>The vault in memory\<close>

record memory_vault =
  mv_secrets :: "(string, bytes) js_map"
  mv_wallets :: "(string, wallet_file) js_map"
  mv_apiKeys :: "(string, api_key_file) js_map"
  mv_tokenIndex :: "(string, string) js_map"

definition createMemoryVault :: memory_vault where
  "createMemoryVault = \<lparr>mv_secrets = [], mv_wallets = [], mv_apiKeys = [], mv_tokenIndex = []\<rparr>"

definition mv_set :: "memory_vault \<Rightarrow> string \<Rightarrow> bytes \<Rightarrow> (unit, signet_error) result \<times> memory_vault" where
  "mv_set v name val = (Ok (), v\<lparr>mv_secrets := map_set (mv_secrets v) name val\<rparr>)"

definition mv_get :: "memory_vault \<Rightarrow> string \<Rightarrow> (bytes, signet_error) result" where
  "mv_get v name =
     (case map_get (mv_secrets v) name of
        None \<Rightarrow> Err (NotFoundError_create ''VaultSecret'' name)
      | Some val \<Rightarrow> Ok val)"

definition mv_delete :: "memory_vault \<Rightarrow> string \<Rightarrow> (unit, signet_error) result \<times> memory_vault" where
  "mv_delete v name =
     (if map_get (mv_secrets v) name = None then (Err (NotFoundError_create ''VaultSecret'' name), v)
      else (Ok (), v\<lparr>mv_secrets := map_delete (mv_secrets v) name\<rparr>))"

definition mv_list :: "memory_vault \<Rightarrow> string list" where
  "mv_list v = js_sort code_le (map_keys (mv_secrets v))"

definition mv_createWallet ::
  "vault_engine \<Rightarrow> int \<Rightarrow> bytes \<Rightarrow> bytes \<Rightarrow> memory_vault \<Rightarrow> string \<Rightarrow> string \<Rightarrow> string \<Rightarrow> string \<Rightarrow>
   (unit, signet_error) result option \<times> memory_vault" where
  "mv_createWallet ve now salt iv v i label mnemonic passphrase =
     (case encryptWithScrypt ve salt iv mnemonic passphrase True of
        None \<Rightarrow> (None, v)
      | Some block \<Rightarrow>
          (Some (Ok ()),
           v\<lparr>mv_wallets := map_set (mv_wallets v) i
               \<lparr>wf_id = i, wf_label = label, wf_crypto = block, wf_accounts = [], wf_createdAt = ve_isoText ve now\<rparr>\<rparr>))"

definition mv_readWallet :: "vault_engine \<Rightarrow> memory_vault \<Rightarrow> string \<Rightarrow> string \<Rightarrow> (string, signet_error) result" where
  "mv_readWallet ve v i passphrase =
     (case map_get (mv_wallets v) i of
        None \<Rightarrow> Err (NotFoundError_create ''Wallet'' i)
      | Some f \<Rightarrow> decryptWithScrypt ve (wf_crypto f) passphrase)"

definition mv_deleteWallet :: "memory_vault \<Rightarrow> string \<Rightarrow> (unit, signet_error) result \<times> memory_vault" where
  "mv_deleteWallet v i =
     (if map_get (mv_wallets v) i = None then (Err (NotFoundError_create ''Wallet'' i), v)
      else (Ok (), v\<lparr>mv_wallets := map_delete (mv_wallets v) i\<rparr>))"

definition wallet_info :: "wallet_file \<Rightarrow> wallet_file_info" where
  "wallet_info f = \<lparr>wi_id = wf_id f, wi_label = wf_label f, wi_accountCount = length (wf_accounts f),
                    wi_createdAt = wf_createdAt f\<rparr>"

definition mv_listWallets :: "memory_vault \<Rightarrow> (wallet_file_info list, signet_error) result" where
  "mv_listWallets v = Ok (map wallet_info (map_values (mv_wallets v)))"

definition mv_getWalletAccounts :: "memory_vault \<Rightarrow> string \<Rightarrow> (account_entry list, signet_error) result" where
  "mv_getWalletAccounts v i =
     (case map_get (mv_wallets v) i of
        None \<Rightarrow> Err (NotFoundError_create ''Wallet'' i)
      | Some f \<Rightarrow> Ok (wf_accounts f))"

definition mv_updateWalletAccounts ::
  "memory_vault \<Rightarrow> string \<Rightarrow> account_entry list \<Rightarrow> (unit, signet_error) result \<times> memory_vault" where
  "mv_updateWalletAccounts v i accounts =
     (case map_get (mv_wallets v) i of
        None \<Rightarrow> (Err (NotFoundError_create ''Wallet'' i), v)
      | Some f \<Rightarrow> (Ok (), v\<lparr>mv_wallets := map_set (mv_wallets v) i (f\<lparr>wf_accounts := accounts\<rparr>)\<rparr>))"

definition mv_createApiKey ::
  "vault_engine \<Rightarrow> int \<Rightarrow> bytes \<Rightarrow> bytes \<Rightarrow> memory_vault \<Rightarrow> string \<Rightarrow> string \<Rightarrow> string \<Rightarrow> string \<Rightarrow> string \<Rightarrow>
   (unit, signet_error) result \<times> memory_vault" where
  "mv_createApiKey ve now salt iv v i walletId mnemonic token expiresAt =
     (let block = encryptWithHkdf ve salt iv (api_key_plaintext ve mnemonic walletId) token
      in (Ok (), v\<lparr>mv_apiKeys := map_set (mv_apiKeys v) i
                     \<lparr>ak_id = i, ak_walletId = walletId, ak_crypto = block, ak_expiresAt = expiresAt,
                      ak_createdAt = ve_isoText ve now\<rparr>,
                   mv_tokenIndex := map_set (mv_tokenIndex v) token i\<rparr>))"

definition mv_readApiKey :: "vault_engine \<Rightarrow> memory_vault \<Rightarrow> string \<Rightarrow> (api_key_payload, signet_error) result" where
  "mv_readApiKey ve v token =
     (case map_get (mv_tokenIndex v) token of
        None \<Rightarrow> Err (NotFoundError_create ''ApiKey'' ''by-token'')
      | Some keyId \<Rightarrow>
          if keyId = [] then Err (NotFoundError_create ''ApiKey'' ''by-token'')
          else
            (case map_get (mv_apiKeys v) keyId of
               None \<Rightarrow> Err (NotFoundError_create ''ApiKey'' keyId)
             | Some f \<Rightarrow> bindR (decryptWithHkdf ve (ak_crypto f) token) (parseApiKeyPayload ve)))"

text \<open>Only the first token of the key is taken out of the index.\<close>

definition mv_revokeApiKey :: "memory_vault \<Rightarrow> string \<Rightarrow> (unit, signet_error) result \<times> memory_vault" where
  "mv_revokeApiKey v i =
     (if map_get (mv_apiKeys v) i = None then (Err (NotFoundError_create ''ApiKey'' i), v)
      else
        (Ok (), v\<lparr>mv_tokenIndex := (case List.find (\<lambda>(tok, keyId). keyId = i) (mv_tokenIndex v) of
                                        None \<Rightarrow> mv_tokenIndex v
                                      | Some (tok, _) \<Rightarrow> map_delete (mv_tokenIndex v) tok),
                    mv_apiKeys := map_delete (mv_apiKeys v) i\<rparr>))"

definition mv_close :: "memory_vault \<Rightarrow> memory_vault" where
  "mv_close v = createMemoryVault"

subsection \<open>The vault in files\<close>

record vault_files =
  vf_secrets :: "(string, bytes) js_map"
  vf_wallets :: "(string, js_value option) js_map"
  vf_keys :: "(string, js_value option) js_map"

definition secretPath :: "string \<Rightarrow> string" where
  "secretPath name = encodeSecretName name @ ''.bin''"

definition json_path :: "string \<Rightarrow> string" where
  "json_path i = i @ ''.json''"

definition fault_error :: "string \<Rightarrow> string \<Rightarrow> string \<Rightarrow> string \<Rightarrow> signet_error" where
  "fault_error message key name cause =
     InternalError_create message (Some [(key, VStr name), (''cause'', VStr cause)])"

definition fv_set ::
  "vault_engine \<Rightarrow> bytes \<Rightarrow> string option \<Rightarrow> bytes \<Rightarrow> vault_files \<Rightarrow> string \<Rightarrow> bytes \<Rightarrow>
   (unit, signet_error) result \<times> vault_files" where
  "fv_set ve secretKey fault iv fs name val =
     (case fault of
        Some cause \<Rightarrow> (Err (fault_error ''Failed to store vault secret'' ''name'' name cause), fs)
      | None \<Rightarrow> (Ok (), fs\<lparr>vf_secrets := map_set (vf_secrets fs) (secretPath name) (encryptSecret ve secretKey iv val)\<rparr>))"

definition fv_get ::
  "vault_engine \<Rightarrow> bytes \<Rightarrow> string option \<Rightarrow> string \<Rightarrow> vault_files \<Rightarrow> string \<Rightarrow> (bytes, signet_error) result" where
  "fv_get ve secretKey fault badSecret fs name =
     (case map_get (vf_secrets fs) (secretPath name) of
        None \<Rightarrow> Err (NotFoundError_create ''VaultSecret'' name)
      | Some encrypted \<Rightarrow>
          (case fault of
             Some cause \<Rightarrow> Err (fault_error ''Failed to read vault secret'' ''name'' name cause)
           | None \<Rightarrow>
               (case decryptSecret ve secretKey encrypted of
                  None \<Rightarrow> Err (fault_error ''Failed to read vault secret'' ''name'' name badSecret)
                | Some plaintext \<Rightarrow> Ok plaintext)))"

definition fv_delete :: "vault_files \<Rightarrow> string \<Rightarrow> (unit, signet_error) result \<times> vault_files" where
  "fv_delete fs name =
     (if map_get (vf_secrets fs) (secretPath name) = None then (Err (NotFoundError_create ''VaultSecret'' name), fs)
      else (Ok (), fs\<lparr>vf_secrets := map_delete (vf_secrets fs) (secretPath name)\<rparr>))"

definition fv_list :: "vault_engine \<Rightarrow> vault_files \<Rightarrow> string list" where
  "fv_list ve fs = js_sort code_le (List.map_filter (decodeSecretName ve) (map_keys (vf_secrets fs)))"

text \<open>The values of wallet and key files, and the guards that read them back.\<close>

definition chain_text :: "key_chain \<Rightarrow> string" where
  "chain_text c = (case c of Chain_evm \<Rightarrow> ''evm'' | Chain_ed25519 \<Rightarrow> ''ed25519'')"

definition account_js :: "account_entry \<Rightarrow> js_value" where
  "account_js a = VObj [(''index'', num (ac_index a)), (''chain'', VStr (chain_text (ac_chain a))),
                        (''address'', VStr (ac_address a))]"

definition account_of_js :: "js_value \<Rightarrow> account_entry option" where
  "account_of_js v =
     (case (as_int (js_get v ''index''), as_str (js_get v ''chain''), as_str (js_get v ''address'')) of
        (Some i, Some c, Some a) \<Rightarrow>
          if c = ''evm'' then Some \<lparr>ac_index = i, ac_chain = Chain_evm, ac_address = a\<rparr>
          else if c = ''ed25519'' then Some \<lparr>ac_index = i, ac_chain = Chain_ed25519, ac_address = a\<rparr>
          else None
      | _ \<Rightarrow> None)"

definition wallet_js :: "wallet_file \<Rightarrow> js_value" where
  "wallet_js f = VObj
     [(''version'', num 3), (''id'', VStr (wf_id f)), (''label'', VStr (wf_label f)), (''crypto'', wf_crypto f),
      (''accounts'', VArr (map account_js (wf_accounts f))), (''createdAt'', VStr (wf_createdAt f))]"

definition is_object_or_null :: "js_value \<Rightarrow> bool" where
  "is_object_or_null v = (case v of VNull \<Rightarrow> True | VArr _ \<Rightarrow> True | VObj _ \<Rightarrow> True | _ \<Rightarrow> False)"

definition isWalletFile :: "js_value \<Rightarrow> bool" where
  "isWalletFile v \<longleftrightarrow>
     is_obj v \<and> js_get v ''version'' = num 3 \<and> as_str (js_get v ''id'') \<noteq> None \<and>
     as_str (js_get v ''label'') \<noteq> None \<and> is_object_or_null (js_get v ''crypto'') \<and>
     (case js_get v ''accounts'' of VArr _ \<Rightarrow> True | _ \<Rightarrow> False) \<and> as_str (js_get v ''createdAt'') \<noteq> None"

definition isApiKeyFile :: "js_value \<Rightarrow> bool" where
  "isApiKeyFile v \<longleftrightarrow>
     is_obj v \<and> as_str (js_get v ''id'') \<noteq> None \<and> as_str (js_get v ''walletId'') \<noteq> None \<and>
     is_object_or_null (js_get v ''crypto'') \<and> as_str (js_get v ''createdAt'') \<noteq> None"

definition api_key_js :: "api_key_file \<Rightarrow> js_value" where
  "api_key_js f = VObj
     [(''id'', VStr (ak_id f)), (''walletId'', VStr (ak_walletId f)), (''crypto'', ak_crypto f),
      (''expiresAt'', VStr (ak_expiresAt f)), (''createdAt'', VStr (ak_createdAt f))]"

definition js_array :: "js_value \<Rightarrow> js_value list" where
  "js_array v = (case v of VArr vs \<Rightarrow> vs | _ \<Rightarrow> [])"

definition js_text :: "js_value \<Rightarrow> string" where
  "js_text v = nullish (as_str v) []"

text \<open>Reading a wallet file: absent or of the wrong shape, unreadable, or its value.\<close>

datatype file_read = File_missing | File_broken string | File_wallet js_value

definition read_wallet_file :: "string option \<Rightarrow> string \<Rightarrow> vault_files \<Rightarrow> string \<Rightarrow> file_read" where
  "read_wallet_file fault badJson fs i =
     (case fault of
        Some cause \<Rightarrow> File_broken cause
      | None \<Rightarrow>
          (case map_get (vf_wallets fs) (json_path i) of
             None \<Rightarrow> File_missing
           | Some None \<Rightarrow> File_broken badJson
           | Some (Some raw) \<Rightarrow> if isWalletFile raw then File_wallet raw else File_missing))"

definition fv_createWallet ::
  "vault_engine \<Rightarrow> int \<Rightarrow> bytes \<Rightarrow> bytes \<Rightarrow> string option \<Rightarrow> string \<Rightarrow> vault_files \<Rightarrow> string \<Rightarrow> string \<Rightarrow>
   string \<Rightarrow> string \<Rightarrow> (unit, signet_error) result \<times> vault_files" where
  "fv_createWallet ve now salt iv fault badKdf fs i label mnemonic passphrase =
     (case encryptWithScrypt ve salt iv mnemonic passphrase False of
        None \<Rightarrow> (Err (fault_error ''Failed to create wallet file'' ''id'' i badKdf), fs)
      | Some block \<Rightarrow>
          (case fault of
             Some cause \<Rightarrow> (Err (fault_error ''Failed to create wallet file'' ''id'' i cause), fs)
           | None \<Rightarrow>
               (Ok (), fs\<lparr>vf_wallets := map_set (vf_wallets fs) (json_path i)
                  (Some (wallet_js \<lparr>wf_id = i, wf_label = label, wf_crypto = block, wf_accounts = [],
                                    wf_createdAt = ve_isoText ve now\<rparr>))\<rparr>)))"

definition fv_readWallet ::
  "vault_engine \<Rightarrow> string option \<Rightarrow> string \<Rightarrow> vault_files \<Rightarrow> string \<Rightarrow> string \<Rightarrow> (string, signet_error) result" where
  "fv_readWallet ve fault badJson fs i passphrase =
     (case read_wallet_file fault badJson fs i of
        File_missing \<Rightarrow> Err (NotFoundError_create ''Wallet'' i)
      | File_broken cause \<Rightarrow> Err (fault_error ''Failed to read wallet'' ''id'' i cause)
      | File_wallet raw \<Rightarrow> decryptWithScrypt ve (js_get raw ''crypto'') passphrase)"

definition fv_deleteWallet :: "vault_files \<Rightarrow> string \<Rightarrow> (unit, signet_error) result \<times> vault_files" where
  "fv_deleteWallet fs i =
     (if map_get (vf_wallets fs) (json_path i) = None then (Err (NotFoundError_create ''Wallet'' i), fs)
      else (Ok (), fs\<lparr>vf_wallets := map_delete (vf_wallets fs) (json_path i)\<rparr>))"

definition wallet_info_js :: "js_value \<Rightarrow> wallet_file_info" where
  "wallet_info_js raw =
     \<lparr>wi_id = js_text (js_get raw ''id''), wi_label = js_text (js_get raw ''label''),
      wi_accountCount = length (js_array (js_get raw ''accounts'')),
      wi_createdAt = js_text (js_get raw ''createdAt'')\<rparr>"

fun read_all :: "js_value option list \<Rightarrow> js_value list option" where
  "read_all [] = Some []"
| "read_all (None # fs) = None"
| "read_all (Some v # fs) = map_option (\<lambda>vs. v # vs) (read_all fs)"

definition fv_listWallets ::
  "string option \<Rightarrow> string \<Rightarrow> vault_files \<Rightarrow> (wallet_file_info list, signet_error) result" where
  "fv_listWallets fault badJson fs =
     (let failed = (\<lambda>cause. Err (InternalError_create ''Failed to list wallets'' (Some [(''cause'', VStr cause)])))
      in case fault of
           Some cause \<Rightarrow> failed cause
         | None \<Rightarrow>
             (case read_all (map snd (filter (\<lambda>(f, _). ends_with f ''.json'') (vf_wallets fs))) of
                None \<Rightarrow> failed badJson
              | Some raws \<Rightarrow> Ok (map wallet_info_js (filter isWalletFile raws))))"

text \<open>Stored account entries are given out as they are; the typed reading of this model is for
  files that the vault wrote.\<close>

definition fv_getWalletAccounts ::
  "string option \<Rightarrow> string \<Rightarrow> vault_files \<Rightarrow> string \<Rightarrow> (account_entry list, signet_error) result" where
  "fv_getWalletAccounts fault badJson fs i =
     (case read_wallet_file fault badJson fs i of
        File_missing \<Rightarrow> Err (NotFoundError_create ''Wallet'' i)
      | File_broken cause \<Rightarrow> Err (fault_error ''Failed to read wallet accounts'' ''id'' i cause)
      | File_wallet raw \<Rightarrow> Ok (List.map_filter account_of_js (js_array (js_get raw ''accounts''))))"

definition fv_updateWalletAccounts ::
  "string option \<Rightarrow> string \<Rightarrow> vault_files \<Rightarrow> string \<Rightarrow> account_entry list \<Rightarrow>
   (unit, signet_error) result \<times> vault_files" where
  "fv_updateWalletAccounts fault badJson fs i accounts =
     (case read_wallet_file fault badJson fs i of
        File_missing \<Rightarrow> (Err (NotFoundError_create ''Wallet'' i), fs)
      | File_broken cause \<Rightarrow> (Err (fault_error ''Failed to update wallet accounts'' ''id'' i cause), fs)
      | File_wallet raw \<Rightarrow>
          (case raw of
             VObj kvs \<Rightarrow>
               (Ok (), fs\<lparr>vf_wallets := map_set (vf_wallets fs) (json_path i)
                  (Some (VObj (map_set kvs ''accounts'' (VArr (map account_js accounts)))))\<rparr>)
           | _ \<Rightarrow> (Err (NotFoundError_create ''Wallet'' i), fs)))"

definition fv_createApiKey ::
  "vault_engine \<Rightarrow> int \<Rightarrow> bytes \<Rightarrow> bytes \<Rightarrow> string option \<Rightarrow> vault_files \<Rightarrow> string \<Rightarrow> string \<Rightarrow> string \<Rightarrow> string \<Rightarrow>
   string \<Rightarrow> (unit, signet_error) result \<times> vault_files" where
  "fv_createApiKey ve now salt iv fault fs i walletId mnemonic token expiresAt =
     (case fault of
        Some cause \<Rightarrow> (Err (fault_error ''Failed to create API key file'' ''id'' i cause), fs)
      | None \<Rightarrow>
          let block = encryptWithHkdf ve salt iv (api_key_plaintext ve mnemonic walletId) token
          in (Ok (), fs\<lparr>vf_keys := map_set (vf_keys fs) (json_path i)
                (Some (api_key_js \<lparr>ak_id = i, ak_walletId = walletId, ak_crypto = block,
                                   ak_expiresAt = expiresAt, ak_createdAt = ve_isoText ve now\<rparr>))\<rparr>))"

fun scan_api_keys ::
  "vault_engine \<Rightarrow> string \<Rightarrow> string \<Rightarrow> js_value option list \<Rightarrow> (api_key_payload, signet_error) result" where
  "scan_api_keys ve badJson token [] = Err (NotFoundError_create ''ApiKey'' ''by-token'')"
| "scan_api_keys ve badJson token (None # fs) =
     Err (InternalError_create ''Failed to read API key'' (Some [(''cause'', VStr badJson)]))"
| "scan_api_keys ve badJson token (Some raw # fs) =
     (if \<not> isApiKeyFile raw then scan_api_keys ve badJson token fs
      else
        (case bindR (decryptWithHkdf ve (js_get raw ''crypto'') token) (parseApiKeyPayload ve) of
           Ok payload \<Rightarrow> Ok payload
         | Err _ \<Rightarrow> scan_api_keys ve badJson token fs))"

definition fv_readApiKey ::
  "vault_engine \<Rightarrow> string option \<Rightarrow> string \<Rightarrow> vault_files \<Rightarrow> string \<Rightarrow> (api_key_payload, signet_error) result" where
  "fv_readApiKey ve fault badJson fs token =
     (case fault of
        Some cause \<Rightarrow> Err (InternalError_create ''Failed to read API key'' (Some [(''cause'', VStr cause)]))
      | None \<Rightarrow> scan_api_keys ve badJson token
                  (map snd (filter (\<lambda>(f, _). ends_with f ''.json'') (vf_keys fs))))"

definition fv_revokeApiKey :: "vault_files \<Rightarrow> string \<Rightarrow> (unit, signet_error) result \<times> vault_files" where
  "fv_revokeApiKey fs i =
     (if map_get (vf_keys fs) (json_path i) = None then (Err (NotFoundError_create ''ApiKey'' i), fs)
      else (Ok (), fs\<lparr>vf_keys := map_delete (vf_keys fs) (json_path i)\<rparr>))"

subsection \<open>Laws of the libraries\<close>

definition vault_laws :: "vault_engine \<Rightarrow> bool" where
  "vault_laws ve \<longleftrightarrow>
     (\<forall>key iv p. ve_gcmDecrypt ve key iv (ve_gcmEncrypt ve key iv p) = Some p) \<and>
     (\<forall>bs. ve_hexToBytes ve (ve_bytesToHex ve bs) = Some bs)"

lemma vault_lawsD:
  assumes "vault_laws ve"
  shows "ve_gcmDecrypt ve key iv (ve_gcmEncrypt ve key iv p) = Some p"
    "js_hex ve (VStr (ve_bytesToHex ve bs)) = Some bs"
  using assms by (simp_all add: vault_laws_def js_hex_def)

lemma decode_encode_text [simp]: "decode_text (encode_text s) = s"
  by (simp add: decode_text_def encode_text_def comp_def char_byte_roundtrip)

lemma scrypt_roundtrip:
  assumes "vault_laws ve" "encryptWithScrypt ve salt iv plaintext passphrase test = Some block"
  shows "decryptWithScrypt ve block passphrase = Ok plaintext"
    "is_obj block"
    "ve_scrypt ve (encode_text other) salt (if test then TEST_SCRYPT_N else DEFAULT_SCRYPT_N) 8 1 32 = Some dk \<Longrightarrow>
      ve_scrypt ve (encode_text passphrase) salt (if test then TEST_SCRYPT_N else DEFAULT_SCRYPT_N) 8 1 32 = Some dk' \<Longrightarrow>
      ve_sha256 ve (dk @ ve_gcmEncrypt ve dk' iv (encode_text plaintext)) \<noteq>
        ve_sha256 ve (dk' @ ve_gcmEncrypt ve dk' iv (encode_text plaintext)) \<Longrightarrow>
      decryptWithScrypt ve block other = Err wrong_passphrase"
proof -
  note L = vault_lawsD [OF assms(1)]
  have hex_inj: "ve_bytesToHex ve a = ve_bytesToHex ve b \<longleftrightarrow> a = b" for a b
    using L(2) by (metis option.inject)
  note defs = encryptWithScrypt_def decryptWithScrypt_def Let_def num_def DEFAULT_SCRYPT_R_def
    DEFAULT_SCRYPT_P_def DEFAULT_SCRYPT_DKLEN_def
  show "decryptWithScrypt ve block passphrase = Ok plaintext"
    using assms(2) L by (auto simp: defs split: option.splits)
  show "is_obj block" using assms(2) by (auto simp: defs split: option.splits)
  show "decryptWithScrypt ve block other = Err wrong_passphrase"
    if "ve_scrypt ve (encode_text other) salt (if test then TEST_SCRYPT_N else DEFAULT_SCRYPT_N) 8 1 32 = Some dk"
      "ve_scrypt ve (encode_text passphrase) salt (if test then TEST_SCRYPT_N else DEFAULT_SCRYPT_N) 8 1 32 = Some dk'"
      "ve_sha256 ve (dk @ ve_gcmEncrypt ve dk' iv (encode_text plaintext)) \<noteq>
        ve_sha256 ve (dk' @ ve_gcmEncrypt ve dk' iv (encode_text plaintext))"
    using assms(2) L that hex_inj by (auto simp: defs split: option.splits)
qed

lemma hkdf_roundtrip:
  "vault_laws ve \<Longrightarrow> decryptWithHkdf ve (encryptWithHkdf ve salt iv plaintext token) token = Ok plaintext"
  using vault_lawsD by (simp add: decryptWithHkdf_def encryptWithHkdf_def Let_def)

subsection \<open>The files as a store\<close>

lemma append_suffix_eq [simp]: "json_path i = json_path j \<longleftrightarrow> i = j" "secretPath m = secretPath n \<longleftrightarrow> m = n"
  by (simp_all add: json_path_def secretPath_def encodeSecretName_def encodeURIComponent_inj)

lemma ends_with_append [simp]: "ends_with (s @ p) p"
  by (simp add: ends_with_def)

lemma wallet_js_get [simp]:
  "js_get (wallet_js f) ''crypto'' = wf_crypto f"
  "js_get (wallet_js f) ''accounts'' = VArr (map account_js (wf_accounts f))"
  by (simp_all add: wallet_js_def)

lemma isWalletFile_js: "is_obj (wf_crypto f) \<Longrightarrow> isWalletFile (wallet_js f)"
  by (cases "wf_crypto f") (simp_all add: isWalletFile_def wallet_js_def is_object_or_null_def)

text \<open>A wallet that was stored in a file is read back with its passphrase; with a passphrase
  whose derived key gives another authentication code it is refused; it starts without accounts,
  and no other wallet changes.\<close>

theorem vault_wallet_roundtrip:
  assumes "vault_laws ve"
    and "fv_createWallet ve now salt iv fault badKdf fs i label mnemonic passphrase = (Ok (), fs')"
  shows "fv_readWallet ve None badJson fs' i passphrase = Ok mnemonic \<and>
    fv_getWalletAccounts None badJson fs' i = Ok [] \<and>
    (case (ve_scrypt ve (encode_text other) salt 131072 8 1 32, ve_scrypt ve (encode_text passphrase) salt 131072 8 1 32) of
       (Some dk, Some dk') \<Rightarrow>
         if ve_sha256 ve (dk @ ve_gcmEncrypt ve dk' iv (encode_text mnemonic)) =
            ve_sha256 ve (dk' @ ve_gcmEncrypt ve dk' iv (encode_text mnemonic))
         then True
         else fv_readWallet ve None badJson fs' i other = Err wrong_passphrase
     | _ \<Rightarrow> True) \<and>
    (if j = i then True else fv_readWallet ve None badJson fs' j other = fv_readWallet ve None badJson fs j other) \<and>
    fv_readWallet ve None badJson (snd (fv_deleteWallet fs' i)) i passphrase = Err (NotFoundError_create ''Wallet'' i)"
proof -
  obtain block where block: "encryptWithScrypt ve salt iv mnemonic passphrase False = Some block"
      "fs' = fs\<lparr>vf_wallets := map_set (vf_wallets fs) (json_path i)
         (Some (wallet_js \<lparr>wf_id = i, wf_label = label, wf_crypto = block, wf_accounts = [],
                           wf_createdAt = ve_isoText ve now\<rparr>))\<rparr>"
    using assms(2) by (auto simp: fv_createWallet_def split: option.splits)
  note S = scrypt_roundtrip [OF assms(1) block(1)]
  have read: "read_wallet_file None badJson fs' i = File_wallet (wallet_js \<lparr>wf_id = i, wf_label = label,
      wf_crypto = block, wf_accounts = [], wf_createdAt = ve_isoText ve now\<rparr>)"
    using S(2) by (simp add: read_wallet_file_def block(2) isWalletFile_js)
  have "j \<noteq> i \<Longrightarrow> read_wallet_file None badJson fs' j = read_wallet_file None badJson fs j"
    by (simp add: read_wallet_file_def block(2))
  moreover have "read_wallet_file None badJson (snd (fv_deleteWallet fs' i)) i = File_missing"
    by (simp add: read_wallet_file_def fv_deleteWallet_def block(2))
  ultimately show ?thesis
    using read S(1) S(3) [of other]
    by (auto simp: fv_readWallet_def fv_getWalletAccounts_def js_array_def DEFAULT_SCRYPT_N_def List.map_filter_def
        split: option.split)
qed

definition sample_vault_engine :: vault_engine where
  "sample_vault_engine =
     \<lparr>ve_scrypt = (\<lambda>pass salt n r p k. Some (pass @ salt)), ve_sha256 = (\<lambda>bs. bs),
      ve_hkdf = (\<lambda>token salt info. token @ salt), ve_gcmEncrypt = (\<lambda>k iv p. p),
      ve_gcmDecrypt = (\<lambda>k iv c. Some c), ve_bytesToHex = decode_text, ve_hexToBytes = (\<lambda>s. Some (encode_text s)),
      ve_stringify = (\<lambda>v. case v of VObj [(_, VStr m), (_, VStr w)] \<Rightarrow> m @ ''|'' @ w | _ \<Rightarrow> []),
      ve_parseJson = (\<lambda>s. case split_on (CHR ''|'') s of
         [m, w] \<Rightarrow> Some (VObj [(''mnemonic'', VStr m), (''walletId'', VStr w)]) | _ \<Rightarrow> None),
      ve_isoText = (\<lambda>_. ''2026-01-01''), ve_isUtf8 = (\<lambda>_. True)\<rparr>"

lemma encode_decode_text: "encode_text (decode_text bs) = bs"
proof -
  have "(of_char (char_of (unat b) :: char) :: 8 word) = b" for b :: "8 word"
  proof -
    have "unat (of_char (char_of (unat b) :: char) :: 8 word) = unat b"
      using unsigned_less [where ?'a = nat, of b] by (simp only: unat_of_char of_char_of) simp
    then show ?thesis by (simp only: word_eq_iff_unsigned [where ?'a = nat])
  qed
  then show ?thesis by (simp add: encode_text_def decode_text_def comp_def)
qed

lemma sample_vault_laws: "vault_laws sample_vault_engine"
  by (simp add: vault_laws_def sample_vault_engine_def encode_decode_text)

definition empty_files :: vault_files where
  "empty_files = \<lparr>vf_secrets = [], vf_wallets = [], vf_keys = []\<rparr>"

theorem vault_wallet_roundtrip_witness:
  "case fv_createWallet sample_vault_engine 0 [1] [2] None [] empty_files ''w1'' ''main'' ''abandon'' ''pass'' of
     (r, fs) \<Rightarrow> r = Ok () \<and> fv_readWallet sample_vault_engine None [] fs ''w1'' ''pass'' = Ok ''abandon''"
proof -
  obtain fs where fs: "fv_createWallet sample_vault_engine 0 [1] [2] None [] empty_files ''w1'' ''main'' ''abandon'' ''pass'' =
      (Ok (), fs)"
    by (simp add: fv_createWallet_def encryptWithScrypt_def sample_vault_engine_def Let_def)
  from vault_wallet_roundtrip [OF sample_vault_laws this, of "[]"] fs show ?thesis by simp
qed

subsection \<open>The two secret stores\<close>

text \<open>A call on either store, and what it answers. The nonce of a write is drawn at random.\<close>

datatype secret_call =
    Call_set bytes string bytes
  | Call_get string
  | Call_delete string
  | Call_list

datatype secret_answer =
    Ans_unit "(unit, signet_error) result"
  | Ans_bytes "(bytes, signet_error) result"
  | Ans_names "string list"

fun memory_call :: "memory_vault \<Rightarrow> secret_call \<Rightarrow> secret_answer \<times> memory_vault" where
  "memory_call v (Call_set iv name val) = (case mv_set v name val of (r, v') \<Rightarrow> (Ans_unit r, v'))"
| "memory_call v (Call_get name) = (Ans_bytes (mv_get v name), v)"
| "memory_call v (Call_delete name) = (case mv_delete v name of (r, v') \<Rightarrow> (Ans_unit r, v'))"
| "memory_call v Call_list = (Ans_names (mv_list v), v)"

fun file_call :: "vault_engine \<Rightarrow> bytes \<Rightarrow> vault_files \<Rightarrow> secret_call \<Rightarrow> secret_answer \<times> vault_files" where
  "file_call ve key fs (Call_set iv name val) =
     (case fv_set ve key None iv fs name val of (r, fs') \<Rightarrow> (Ans_unit r, fs'))"
| "file_call ve key fs (Call_get name) = (Ans_bytes (fv_get ve key None [] fs name), fs)"
| "file_call ve key fs (Call_delete name) = (case fv_delete fs name of (r, fs') \<Rightarrow> (Ans_unit r, fs'))"
| "file_call ve key fs Call_list = (Ans_names (fv_list ve fs), fs)"

fun answers :: "('s \<Rightarrow> secret_call \<Rightarrow> secret_answer \<times> 's) \<Rightarrow> 's \<Rightarrow> secret_call list \<Rightarrow> secret_answer list" where
  "answers step s [] = []"
| "answers step s (c # cs) = (case step s c of (a, s') \<Rightarrow> a # answers step s' cs)"

text \<open>The files hold, in the same order, the encryption of what the memory holds.\<close>

definition secret_entry_rel :: "vault_engine \<Rightarrow> bytes \<Rightarrow> string \<times> bytes \<Rightarrow> string \<times> bytes \<Rightarrow> bool" where
  "secret_entry_rel ve key p q \<longleftrightarrow>
     fst p = secretPath (fst q) \<and> decryptSecret ve key (snd p) = Some (snd q) \<and> ve_isUtf8 ve (fst q)"

definition secrets_rel :: "vault_engine \<Rightarrow> bytes \<Rightarrow> vault_files \<Rightarrow> memory_vault \<Rightarrow> bool" where
  "secrets_rel ve key fs v \<longleftrightarrow> list_all2 (secret_entry_rel ve key) (vf_secrets fs) (mv_secrets v)"

lemma rel_update:
  assumes "decryptSecret ve key c = Some val" "ve_isUtf8 ve name"
  shows "list_all2 (secret_entry_rel ve key) xs ys \<Longrightarrow>
    list_all2 (secret_entry_rel ve key) (map_set xs (secretPath name) c) (map_set ys name val)"
proof (induction rule: list_all2_induct)
  case Nil
  then show ?case using assms by (simp add: map_set_def secret_entry_rel_def)
next
  case (Cons x xs y ys)
  then show ?case using assms
    by (cases x; cases y) (auto simp: map_set_def secret_entry_rel_def)
qed

lemma rel_delete:
  "list_all2 (secret_entry_rel ve key) xs ys \<Longrightarrow>
    list_all2 (secret_entry_rel ve key) (map_delete xs (secretPath name)) (map_delete ys name)"
proof (induction rule: list_all2_induct)
  case (Cons x xs y ys)
  then show ?case
    by (cases x; cases y) (auto simp: map_delete_def secret_entry_rel_def AList.delete_eq)
qed (simp add: map_delete_def)

lemma rel_get:
  "list_all2 (secret_entry_rel ve key) xs ys \<Longrightarrow>
    (case map_get ys name of
       None \<Rightarrow> map_get xs (secretPath name) = None
     | Some val \<Rightarrow> \<exists>c. map_get xs (secretPath name) = Some c \<and> decryptSecret ve key c = Some val)"
proof (induction rule: list_all2_induct)
  case (Cons x xs y ys)
  then show ?case by (cases x; cases y) (auto simp: map_get_def secret_entry_rel_def split: option.splits)
qed (simp add: map_get_def)

lemma decode_secret_path:
  assumes "ve_isUtf8 ve name"
  shows "decodeSecretName ve (secretPath name) = Some name"
proof -
  have "take (length (secretPath name) - 4) (secretPath name) = encodeURIComponent name"
    by (simp add: secretPath_def encodeSecretName_def)
  then show ?thesis using assms
    by (simp add: decodeSecretName_def secretPath_def decodeURIComponent_def percent_decode_encode)
qed

lemma rel_names:
  "list_all2 (secret_entry_rel ve key) xs ys \<Longrightarrow>
    List.map_filter (decodeSecretName ve) (map_keys xs) = map_keys ys"
proof (induction rule: list_all2_induct)
  case (Cons x xs y ys)
  then show ?case
    by (simp add: map_keys_def secret_entry_rel_def List.map_filter_simps decode_secret_path)
qed (simp add: map_keys_def List.map_filter_simps)

lemma secret_call_step:
  assumes "vault_laws ve" "secrets_rel ve key fs v"
    and "case c of Call_set iv name val \<Rightarrow> length iv = 12 \<and> ve_isUtf8 ve name | _ \<Rightarrow> True"
  shows "fst (file_call ve key fs c) = fst (memory_call v c) \<and>
    secrets_rel ve key (snd (file_call ve key fs c)) (snd (memory_call v c))"
proof (cases c)
  case (Call_set iv name val)
  have "decryptSecret ve key (encryptSecret ve key iv val) = Some val"
    using assms(3) vault_lawsD(1) [OF assms(1)] Call_set
    by (simp add: decryptSecret_def encryptSecret_def IV_BYTES_def)
  then show ?thesis using assms(2,3) Call_set rel_update
    by (simp add: fv_set_def mv_set_def secrets_rel_def)
next
  case (Call_get name)
  then show ?thesis using assms(2) rel_get [of ve key "vf_secrets fs" "mv_secrets v" name]
    by (auto simp: secrets_rel_def fv_get_def mv_get_def split: option.splits)
next
  case (Call_delete name)
  then show ?thesis using assms(2) rel_get [of ve key "vf_secrets fs" "mv_secrets v" name] rel_delete
    by (auto simp: secrets_rel_def fv_delete_def mv_delete_def split: option.splits)
next
  case Call_list
  then show ?thesis using assms(2) rel_names by (simp add: secrets_rel_def fv_list_def mv_list_def)
qed

text \<open>C18: Whatever secrets are set, read, deleted and listed, the vault in files answers as the vault in
  memory does, from no secrets on, as long as names are valid text, nonces have twelve bytes and the
  disk works. Wallets and API keys are not part of it: there the two vaults differ.\<close>

theorem file_vault_refines_memory:
  assumes "vault_laws ve"
    and "list_all (\<lambda>c. case c of Call_set iv name val \<Rightarrow> length iv = 12 \<and> ve_isUtf8 ve name | _ \<Rightarrow> True) calls"
  shows "answers (file_call ve key) \<lparr>vf_secrets = [], vf_wallets = wallets, vf_keys = keys\<rparr> calls =
    answers memory_call createMemoryVault calls"
proof -
  have "secrets_rel ve key fs v \<Longrightarrow>
      list_all (\<lambda>c. case c of Call_set iv name val \<Rightarrow> length iv = 12 \<and> ve_isUtf8 ve name | _ \<Rightarrow> True) cs \<Longrightarrow>
      answers (file_call ve key) fs cs = answers memory_call v cs" for fs v cs
  proof (induction cs arbitrary: fs v)
    case (Cons c cs)
    obtain a fs' where f: "file_call ve key fs c = (a, fs')" by force
    obtain b v' where m: "memory_call v c = (b, v')" by force
    have "a = b \<and> secrets_rel ve key fs' v'"
      using secret_call_step [OF assms(1) Cons.prems(1), of c] Cons.prems(2) f m by simp
    then show ?case using Cons.IH Cons.prems(2) by (simp add: f m)
  qed simp
  then show ?thesis using assms(2) by (simp add: secrets_rel_def createMemoryVault_def)
qed

theorem file_vault_refines_memory_witness:
  "answers (file_call sample_vault_engine [7]) \<lparr>vf_secrets = [], vf_wallets = [], vf_keys = []\<rparr>
      [Call_set (replicate 12 1) ''db/key'' [9], Call_get ''db/key'', Call_list, Call_delete ''db/key'', Call_get ''db/key''] =
   answers memory_call createMemoryVault
      [Call_set (replicate 12 1) ''db/key'' [9], Call_get ''db/key'', Call_list, Call_delete ''db/key'', Call_get ''db/key'']"
  by (rule file_vault_refines_memory [OF sample_vault_laws]) (simp add: sample_vault_engine_def)

subsection \<open>API keys\<close>

lemma scan_skips:
  "(\<forall>f \<in> set fs. case f of None \<Rightarrow> False
      | Some raw \<Rightarrow> isApiKeyFile raw \<longrightarrow> \<not> isOk (bindR (decryptWithHkdf ve (js_get raw ''crypto'') token) (parseApiKeyPayload ve))) \<Longrightarrow>
    scan_api_keys ve badJson token (fs @ rest) = scan_api_keys ve badJson token rest"
  by (induction fs) (auto split: option.splits result.splits simp: isOk_iff)

text \<open>The file of a key is somewhere in its directory, before or after the others.\<close>

lemma map_set_split:
  "\<exists>before after. map_set m k v = before @ (k, v) # after \<and>
     (\<forall>p \<in> set before. fst p \<noteq> k \<and> p \<in> set m)"
proof (induction m)
  case (Cons p m)
  then obtain before after where IH: "map_set m k v = before @ (k, v) # after"
      "\<forall>p \<in> set before. fst p \<noteq> k \<and> p \<in> set m" by blast
  show ?case
  proof (cases "fst p = k")
    case True
    then show ?thesis by (cases p) (intro exI [of _ "[]"] exI [of _ m], simp add: map_set_def)
  next
    case False
    then show ?thesis using IH
      by (cases p) (intro exI [of _ "p # before"] exI [of _ after], simp add: map_set_def)
  qed
qed (intro exI [of _ "[]"], simp add: map_set_def)

text \<open>A key that was stored in a file is found by its token as long as no other key file answers
  to the token, whatever the expiry it was stored with and whatever the time: the vault never
  looks at the expiry. After its revocation the token finds nothing.\<close>

theorem api_key_found_by_token:
  assumes "vault_laws ve"
    and "ve_parseJson ve (api_key_plaintext ve mnemonic walletId) =
      Some (VObj [(''mnemonic'', VStr mnemonic), (''walletId'', VStr walletId)])"
    and "list_all (\<lambda>(f, c). f = json_path i \<or>
      (case c of None \<Rightarrow> \<not> ends_with f ''.json''
       | Some raw \<Rightarrow> \<not> isApiKeyFile raw \<or>
           \<not> isOk (bindR (decryptWithHkdf ve (js_get raw ''crypto'') token) (parseApiKeyPayload ve)))) (vf_keys fs)"
    and "map_wf (vf_keys fs)"
    and "fv_createApiKey ve now salt iv fault fs i walletId mnemonic token expiresAt = (Ok (), fs')"
  shows "fv_readApiKey ve None badJson fs' token = Ok \<lparr>akp_mnemonic = mnemonic, akp_walletId = walletId\<rparr> \<and>
    fv_readApiKey ve None badJson (snd (fv_revokeApiKey fs' i)) token = Err (NotFoundError_create ''ApiKey'' ''by-token'')"
proof -
  let ?block = "encryptWithHkdf ve salt iv (api_key_plaintext ve mnemonic walletId) token"
  let ?raw = "api_key_js \<lparr>ak_id = i, ak_walletId = walletId, ak_crypto = ?block, ak_expiresAt = expiresAt,
                          ak_createdAt = ve_isoText ve now\<rparr>"
  have fs': "vf_keys fs' = map_set (vf_keys fs) (json_path i) (Some ?raw)"
    using assms(5) by (auto simp: fv_createApiKey_def Let_def split: option.splits)
  have skip: "case c of None \<Rightarrow> False
      | Some raw \<Rightarrow> isApiKeyFile raw \<longrightarrow> \<not> isOk (bindR (decryptWithHkdf ve (js_get raw ''crypto'') token) (parseApiKeyPayload ve))"
    if "c \<in> set (map snd (filter (\<lambda>(f, _). ends_with f ''.json'') m))" "\<forall>p \<in> set m. fst p \<noteq> json_path i \<and> p \<in> set (vf_keys fs)"
    for c m
    using assms(3) that by (fastforce simp: list_all_iff split: option.splits)
  obtain before after where split: "vf_keys fs' = before @ (json_path i, Some ?raw) # after"
      "\<forall>p \<in> set before. fst p \<noteq> json_path i \<and> p \<in> set (vf_keys fs)"
    using map_set_split [of "vf_keys fs" "json_path i" "Some ?raw"] fs' by metis
  have "isApiKeyFile ?raw"
    by (simp add: isApiKeyFile_def api_key_js_def is_object_or_null_def encryptWithHkdf_def Let_def)
  moreover have "js_get ?raw ''crypto'' = ?block" by (simp add: api_key_js_def)
  moreover have "parseApiKeyPayload ve (api_key_plaintext ve mnemonic walletId) =
      Ok \<lparr>akp_mnemonic = mnemonic, akp_walletId = walletId\<rparr>"
    using assms(2) by (simp add: parseApiKeyPayload_def)
  ultimately have "scan_api_keys ve badJson token (Some ?raw # rest) =
      Ok \<lparr>akp_mnemonic = mnemonic, akp_walletId = walletId\<rparr>" for rest
    using hkdf_roundtrip [OF assms(1)] by simp
  moreover have "ends_with (json_path i) ''.json''" by (simp add: json_path_def)
  moreover have "scan_api_keys ve badJson token (map snd (filter (\<lambda>(f, _). ends_with f ''.json'') before) @ rest) =
      scan_api_keys ve badJson token rest" for rest
    by (rule scan_skips) (intro ballI skip [OF _ split(2)])
  moreover have "filter (\<lambda>(f, _). ends_with f ''.json'') (vf_keys fs') =
      filter (\<lambda>(f, _). ends_with f ''.json'') before @ (json_path i, Some ?raw) # filter (\<lambda>(f, _). ends_with f ''.json'') after"
    using calculation(2) by (simp add: split(1))
  ultimately have "fv_readApiKey ve None badJson fs' token = Ok \<lparr>akp_mnemonic = mnemonic, akp_walletId = walletId\<rparr>"
    by (simp only: fv_readApiKey_def option.case map_append list.map snd_conv)
  moreover have "fv_readApiKey ve None badJson (snd (fv_revokeApiKey fs' i)) token = Err (NotFoundError_create ''ApiKey'' ''by-token'')"
  proof -
    have keys: "vf_keys (snd (fv_revokeApiKey fs' i)) = map_delete (map_set (vf_keys fs) (json_path i) (Some ?raw)) (json_path i)"
      by (simp add: fv_revokeApiKey_def fs')
    have others: "\<forall>p \<in> set (vf_keys (snd (fv_revokeApiKey fs' i))). fst p \<noteq> json_path i \<and> p \<in> set (vf_keys fs)"
    proof
      fix p assume "p \<in> set (vf_keys (snd (fv_revokeApiKey fs' i)))"
      then have "p \<in> set (map_delete (map_set (vf_keys fs) (json_path i) (Some ?raw)) (json_path i))" by (simp add: keys)
      moreover have "map_wf (map_delete (map_set (vf_keys fs) (json_path i) (Some ?raw)) (json_path i))"
        using assms(4) by simp
      ultimately have "map_get (map_delete (map_set (vf_keys fs) (json_path i) (Some ?raw)) (json_path i)) (fst p) = Some (snd p)"
        using map_entries_get [of _ "fst p" "snd p"] by (metis prod.collapse)
      then show "fst p \<noteq> json_path i \<and> p \<in> set (vf_keys fs)"
        using map_entries_get [OF assms(4), of "fst p" "snd p"] by (simp split: if_splits)
    qed
    show ?thesis
    proof -
      have "scan_api_keys ve badJson token (map snd (filter (\<lambda>(f, _). ends_with f ''.json'')
          (vf_keys (snd (fv_revokeApiKey fs' i)))) @ []) = scan_api_keys ve badJson token []"
        by (rule scan_skips) (intro ballI skip [OF _ others])
      then show ?thesis by (simp add: fv_readApiKey_def)
    qed
  qed
  ultimately show ?thesis by simp
qed

theorem api_key_found_by_token_witness:
  "case fv_createApiKey sample_vault_engine 0 [1] [2] None empty_files ''k1'' ''w1'' ''abandon'' ''tok'' ''1970-01-01'' of
     (r, fs) \<Rightarrow> r = Ok () \<and>
       fv_readApiKey sample_vault_engine None [] fs ''tok'' = Ok \<lparr>akp_mnemonic = ''abandon'', akp_walletId = ''w1''\<rparr> \<and>
       fv_readApiKey sample_vault_engine None [] (snd (fv_revokeApiKey fs ''k1'')) ''tok'' =
         Err (NotFoundError_create ''ApiKey'' ''by-token'')"
proof -
  obtain fs where fs: "fv_createApiKey sample_vault_engine 0 [1] [2] None empty_files ''k1'' ''w1'' ''abandon'' ''tok'' ''1970-01-01'' =
      (Ok (), fs)"
    by (simp add: fv_createApiKey_def Let_def)
  have "ve_parseJson sample_vault_engine (api_key_plaintext sample_vault_engine ''abandon'' ''w1'') =
      Some (VObj [(''mnemonic'', VStr ''abandon''), (''walletId'', VStr ''w1'')])"
    by (simp add: sample_vault_engine_def api_key_plaintext_def)
  from api_key_found_by_token [OF sample_vault_laws this _ _ fs, of "[]"] fs
  show ?thesis by (simp add: empty_files_def)
qed

end
