(* ===== verification/Wordlist.thy ===== *)
theory Wordlist
  imports Prelude
begin

text \<open>
  The English word list of BIP-39 (\<^verbatim>\<open>packages/keys/src/bip39-wordlist.ts\<close>), in
  consecutive parts. The words are strictly increasing, so no word stands for two numbers, and
  none holds a space.
\<close>

definition BIP39_words_1 :: "string list" where
  "BIP39_words_1 =
    [''abandon'', ''ability'', ''able'', ''about'', ''above'', ''absent'', ''absorb'',
     ''abstract'', ''absurd'', ''abuse'', ''access'', ''accident'', ''account'', ''accuse'',
     ''achieve'', ''acid'', ''acoustic'', ''acquire'', ''across'', ''act'', ''action'', ''actor'',
     ''actress'', ''actual'', ''adapt'', ''add'', ''addict'', ''address'', ''adjust'', ''admit'',
     ''adult'', ''advance'', ''advice'', ''aerobic'', ''affair'', ''afford'', ''afraid'',
     ''again'', ''age'', ''agent'', ''agree'', ''ahead'', ''aim'', ''air'', ''airport'', ''aisle'',
     ''alarm'', ''album'', ''alcohol'', ''alert'', ''alien'', ''all'', ''alley'', ''allow'',
     ''almost'', ''alone'', ''alpha'', ''already'', ''also'', ''alter'', ''always'', ''amateur'',
     ''amazing'', ''among'', ''amount'', ''amused'', ''analyst'', ''anchor'', ''ancient'',
     ''anger'', ''angle'', ''angry'', ''animal'', ''ankle'', ''announce'', ''annual'', ''another'',
     ''answer'', ''antenna'', ''antique'', ''anxiety'', ''any'', ''apart'', ''apology'',
     ''appear'', ''apple'', ''approve'', ''april'', ''arch'', ''arctic'', ''area'', ''arena'',
     ''argue'', ''arm'', ''armed'', ''armor'', ''army'', ''around'', ''arrange'', ''arrest'',
     ''arrive'', ''arrow'', ''art'', ''artefact'', ''artist'', ''artwork'', ''ask'', ''aspect'',
     ''assault'', ''asset'', ''assist'', ''assume'', ''asthma'', ''athlete'', ''atom'', ''attack'',
     ''attend'', ''attitude'', ''attract'', ''auction'', ''audit'', ''august'', ''aunt'',
     ''author'', ''auto'', ''autumn'', ''average'', ''avocado'', ''avoid'', ''awake'', ''aware'',
     ''away'', ''awesome'', ''awful'', ''awkward'', ''axis'', ''baby'', ''bachelor'', ''bacon'',
     ''badge'', ''bag'', ''balance'', ''balcony'', ''ball'', ''bamboo'', ''banana'', ''banner'',
     ''bar'']"

definition BIP39_words_2 :: "string list" where
  "BIP39_words_2 =
    [''barely'', ''bargain'', ''barrel'', ''base'', ''basic'', ''basket'', ''battle'', ''beach'',
     ''bean'', ''beauty'', ''because'', ''become'', ''beef'', ''before'', ''begin'', ''behave'',
     ''behind'', ''believe'', ''below'', ''belt'', ''bench'', ''benefit'', ''best'', ''betray'',
     ''better'', ''between'', ''beyond'', ''bicycle'', ''bid'', ''bike'', ''bind'', ''biology'',
     ''bird'', ''birth'', ''bitter'', ''black'', ''blade'', ''blame'', ''blanket'', ''blast'',
     ''bleak'', ''bless'', ''blind'', ''blood'', ''blossom'', ''blouse'', ''blue'', ''blur'',
     ''blush'', ''board'', ''boat'', ''body'', ''boil'', ''bomb'', ''bone'', ''bonus'', ''book'',
     ''boost'', ''border'', ''boring'', ''borrow'', ''boss'', ''bottom'', ''bounce'', ''box'',
     ''boy'', ''bracket'', ''brain'', ''brand'', ''brass'', ''brave'', ''bread'', ''breeze'',
     ''brick'', ''bridge'', ''brief'', ''bright'', ''bring'', ''brisk'', ''broccoli'', ''broken'',
     ''bronze'', ''broom'', ''brother'', ''brown'', ''brush'', ''bubble'', ''buddy'', ''budget'',
     ''buffalo'', ''build'', ''bulb'', ''bulk'', ''bullet'', ''bundle'', ''bunker'', ''burden'',
     ''burger'', ''burst'', ''bus'', ''business'', ''busy'', ''butter'', ''buyer'', ''buzz'',
     ''cabbage'', ''cabin'', ''cable'', ''cactus'', ''cage'', ''cake'', ''call'', ''calm'',
     ''camera'', ''camp'', ''can'', ''canal'', ''cancel'', ''candy'', ''cannon'', ''canoe'',
     ''canvas'', ''canyon'', ''capable'', ''capital'', ''captain'', ''car'', ''carbon'', ''card'',
     ''cargo'', ''carpet'', ''carry'', ''cart'', ''case'', ''cash'', ''casino'', ''castle'',
     ''casual'', ''cat'', ''catalog'', ''catch'', ''category'', ''cattle'', ''caught'', ''cause'',
     ''caution'', ''cave'', ''ceiling'']"

definition BIP39_words_3 :: "string list" where
  "BIP39_words_3 =
    [''celery'', ''cement'', ''census'', ''century'', ''cereal'', ''certain'', ''chair'',
     ''chalk'', ''champion'', ''change'', ''chaos'', ''chapter'', ''charge'', ''chase'', ''chat'',
     ''cheap'', ''check'', ''cheese'', ''chef'', ''cherry'', ''chest'', ''chicken'', ''chief'',
     ''child'', ''chimney'', ''choice'', ''choose'', ''chronic'', ''chuckle'', ''chunk'',
     ''churn'', ''cigar'', ''cinnamon'', ''circle'', ''citizen'', ''city'', ''civil'', ''claim'',
     ''clap'', ''clarify'', ''claw'', ''clay'', ''clean'', ''clerk'', ''clever'', ''click'',
     ''client'', ''cliff'', ''climb'', ''clinic'', ''clip'', ''clock'', ''clog'', ''close'',
     ''cloth'', ''cloud'', ''clown'', ''club'', ''clump'', ''cluster'', ''clutch'', ''coach'',
     ''coast'', ''coconut'', ''code'', ''coffee'', ''coil'', ''coin'', ''collect'', ''color'',
     ''column'', ''combine'', ''come'', ''comfort'', ''comic'', ''common'', ''company'',
     ''concert'', ''conduct'', ''confirm'', ''congress'', ''connect'', ''consider'', ''control'',
     ''convince'', ''cook'', ''cool'', ''copper'', ''copy'', ''coral'', ''core'', ''corn'',
     ''correct'', ''cost'', ''cotton'', ''couch'', ''country'', ''couple'', ''course'', ''cousin'',
     ''cover'', ''coyote'', ''crack'', ''cradle'', ''craft'', ''cram'', ''crane'', ''crash'',
     ''crater'', ''crawl'', ''crazy'', ''cream'', ''credit'', ''creek'', ''crew'', ''cricket'',
     ''crime'', ''crisp'', ''critic'', ''crop'', ''cross'', ''crouch'', ''crowd'', ''crucial'',
     ''cruel'', ''cruise'', ''crumble'', ''crunch'', ''crush'', ''cry'', ''crystal'', ''cube'',
     ''culture'', ''cup'', ''cupboard'', ''curious'', ''current'', ''curtain'', ''curve'',
     ''cushion'', ''custom'', ''cute'', ''cycle'', ''dad'', ''damage'', ''damp'', ''dance'',
     ''danger'']"

definition BIP39_words_4 :: "string list" where
  "BIP39_words_4 =
    [''daring'', ''dash'', ''daughter'', ''dawn'', ''day'', ''deal'', ''debate'', ''debris'',
     ''decade'', ''december'', ''decide'', ''decline'', ''decorate'', ''decrease'', ''deer'',
     ''defense'', ''define'', ''defy'', ''degree'', ''delay'', ''deliver'', ''demand'', ''demise'',
     ''denial'', ''dentist'', ''deny'', ''depart'', ''depend'', ''deposit'', ''depth'', ''deputy'',
     ''derive'', ''describe'', ''desert'', ''design'', ''desk'', ''despair'', ''destroy'',
     ''detail'', ''detect'', ''develop'', ''device'', ''devote'', ''diagram'', ''dial'',
     ''diamond'', ''diary'', ''dice'', ''diesel'', ''diet'', ''differ'', ''digital'', ''dignity'',
     ''dilemma'', ''dinner'', ''dinosaur'', ''direct'', ''dirt'', ''disagree'', ''discover'',
     ''disease'', ''dish'', ''dismiss'', ''disorder'', ''display'', ''distance'', ''divert'',
     ''divide'', ''divorce'', ''dizzy'', ''doctor'', ''document'', ''dog'', ''doll'', ''dolphin'',
     ''domain'', ''donate'', ''donkey'', ''donor'', ''door'', ''dose'', ''double'', ''dove'',
     ''draft'', ''dragon'', ''drama'', ''drastic'', ''draw'', ''dream'', ''dress'', ''drift'',
     ''drill'', ''drink'', ''drip'', ''drive'', ''drop'', ''drum'', ''dry'', ''duck'', ''dumb'',
     ''dune'', ''during'', ''dust'', ''dutch'', ''duty'', ''dwarf'', ''dynamic'', ''eager'',
     ''eagle'', ''early'', ''earn'', ''earth'', ''easily'', ''east'', ''easy'', ''echo'',
     ''ecology'', ''economy'', ''edge'', ''edit'', ''educate'', ''effort'', ''egg'', ''eight'',
     ''either'', ''elbow'', ''elder'', ''electric'', ''elegant'', ''element'', ''elephant'',
     ''elevator'', ''elite'', ''else'', ''embark'', ''embody'', ''embrace'', ''emerge'',
     ''emotion'', ''employ'', ''empower'', ''empty'', ''enable'', ''enact'', ''end'', ''endless'',
     ''endorse'', ''enemy'']"

definition BIP39_words_5 :: "string list" where
  "BIP39_words_5 =
    [''energy'', ''enforce'', ''engage'', ''engine'', ''enhance'', ''enjoy'', ''enlist'',
     ''enough'', ''enrich'', ''enroll'', ''ensure'', ''enter'', ''entire'', ''entry'',
     ''envelope'', ''episode'', ''equal'', ''equip'', ''era'', ''erase'', ''erode'', ''erosion'',
     ''error'', ''erupt'', ''escape'', ''essay'', ''essence'', ''estate'', ''eternal'', ''ethics'',
     ''evidence'', ''evil'', ''evoke'', ''evolve'', ''exact'', ''example'', ''excess'',
     ''exchange'', ''excite'', ''exclude'', ''excuse'', ''execute'', ''exercise'', ''exhaust'',
     ''exhibit'', ''exile'', ''exist'', ''exit'', ''exotic'', ''expand'', ''expect'', ''expire'',
     ''explain'', ''expose'', ''express'', ''extend'', ''extra'', ''eye'', ''eyebrow'', ''fabric'',
     ''face'', ''faculty'', ''fade'', ''faint'', ''faith'', ''fall'', ''false'', ''fame'',
     ''family'', ''famous'', ''fan'', ''fancy'', ''fantasy'', ''farm'', ''fashion'', ''fat'',
     ''fatal'', ''father'', ''fatigue'', ''fault'', ''favorite'', ''feature'', ''february'',
     ''federal'', ''fee'', ''feed'', ''feel'', ''female'', ''fence'', ''festival'', ''fetch'',
     ''fever'', ''few'', ''fiber'', ''fiction'', ''field'', ''figure'', ''file'', ''film'',
     ''filter'', ''final'', ''find'', ''fine'', ''finger'', ''finish'', ''fire'', ''firm'',
     ''first'', ''fiscal'', ''fish'', ''fit'', ''fitness'', ''fix'', ''flag'', ''flame'',
     ''flash'', ''flat'', ''flavor'', ''flee'', ''flight'', ''flip'', ''float'', ''flock'',
     ''floor'', ''flower'', ''fluid'', ''flush'', ''fly'', ''foam'', ''focus'', ''fog'', ''foil'',
     ''fold'', ''follow'', ''food'', ''foot'', ''force'', ''forest'', ''forget'', ''fork'',
     ''fortune'', ''forum'', ''forward'', ''fossil'', ''foster'', ''found'', ''fox'', ''fragile'']"

definition BIP39_words_6 :: "string list" where
  "BIP39_words_6 =
    [''frame'', ''frequent'', ''fresh'', ''friend'', ''fringe'', ''frog'', ''front'', ''frost'',
     ''frown'', ''frozen'', ''fruit'', ''fuel'', ''fun'', ''funny'', ''furnace'', ''fury'',
     ''future'', ''gadget'', ''gain'', ''galaxy'', ''gallery'', ''game'', ''gap'', ''garage'',
     ''garbage'', ''garden'', ''garlic'', ''garment'', ''gas'', ''gasp'', ''gate'', ''gather'',
     ''gauge'', ''gaze'', ''general'', ''genius'', ''genre'', ''gentle'', ''genuine'', ''gesture'',
     ''ghost'', ''giant'', ''gift'', ''giggle'', ''ginger'', ''giraffe'', ''girl'', ''give'',
     ''glad'', ''glance'', ''glare'', ''glass'', ''glide'', ''glimpse'', ''globe'', ''gloom'',
     ''glory'', ''glove'', ''glow'', ''glue'', ''goat'', ''goddess'', ''gold'', ''good'',
     ''goose'', ''gorilla'', ''gospel'', ''gossip'', ''govern'', ''gown'', ''grab'', ''grace'',
     ''grain'', ''grant'', ''grape'', ''grass'', ''gravity'', ''great'', ''green'', ''grid'',
     ''grief'', ''grit'', ''grocery'', ''group'', ''grow'', ''grunt'', ''guard'', ''guess'',
     ''guide'', ''guilt'', ''guitar'', ''gun'', ''gym'', ''habit'', ''hair'', ''half'', ''hammer'',
     ''hamster'', ''hand'', ''happy'', ''harbor'', ''hard'', ''harsh'', ''harvest'', ''hat'',
     ''have'', ''hawk'', ''hazard'', ''head'', ''health'', ''heart'', ''heavy'', ''hedgehog'',
     ''height'', ''hello'', ''helmet'', ''help'', ''hen'', ''hero'', ''hidden'', ''high'',
     ''hill'', ''hint'', ''hip'', ''hire'', ''history'', ''hobby'', ''hockey'', ''hold'', ''hole'',
     ''holiday'', ''hollow'', ''home'', ''honey'', ''hood'', ''hope'', ''horn'', ''horror'',
     ''horse'', ''hospital'', ''host'', ''hotel'', ''hour'', ''hover'', ''hub'', ''huge'',
     ''human'', ''humble'']"

definition BIP39_words_7 :: "string list" where
  "BIP39_words_7 =
    [''humor'', ''hundred'', ''hungry'', ''hunt'', ''hurdle'', ''hurry'', ''hurt'', ''husband'',
     ''hybrid'', ''ice'', ''icon'', ''idea'', ''identify'', ''idle'', ''ignore'', ''ill'',
     ''illegal'', ''illness'', ''image'', ''imitate'', ''immense'', ''immune'', ''impact'',
     ''impose'', ''improve'', ''impulse'', ''inch'', ''include'', ''income'', ''increase'',
     ''index'', ''indicate'', ''indoor'', ''industry'', ''infant'', ''inflict'', ''inform'',
     ''inhale'', ''inherit'', ''initial'', ''inject'', ''injury'', ''inmate'', ''inner'',
     ''innocent'', ''input'', ''inquiry'', ''insane'', ''insect'', ''inside'', ''inspire'',
     ''install'', ''intact'', ''interest'', ''into'', ''invest'', ''invite'', ''involve'',
     ''iron'', ''island'', ''isolate'', ''issue'', ''item'', ''ivory'', ''jacket'', ''jaguar'',
     ''jar'', ''jazz'', ''jealous'', ''jeans'', ''jelly'', ''jewel'', ''job'', ''join'', ''joke'',
     ''journey'', ''joy'', ''judge'', ''juice'', ''jump'', ''jungle'', ''junior'', ''junk'',
     ''just'', ''kangaroo'', ''keen'', ''keep'', ''ketchup'', ''key'', ''kick'', ''kid'',
     ''kidney'', ''kind'', ''kingdom'', ''kiss'', ''kit'', ''kitchen'', ''kite'', ''kitten'',
     ''kiwi'', ''knee'', ''knife'', ''knock'', ''know'', ''lab'', ''label'', ''labor'', ''ladder'',
     ''lady'', ''lake'', ''lamp'', ''language'', ''laptop'', ''large'', ''later'', ''latin'',
     ''laugh'', ''laundry'', ''lava'', ''law'', ''lawn'', ''lawsuit'', ''layer'', ''lazy'',
     ''leader'', ''leaf'', ''learn'', ''leave'', ''lecture'', ''left'', ''leg'', ''legal'',
     ''legend'', ''leisure'', ''lemon'', ''lend'', ''length'', ''lens'', ''leopard'', ''lesson'',
     ''letter'', ''level'', ''liar'', ''liberty'', ''library'', ''license'', ''life'', ''lift'']"

definition BIP39_words_8 :: "string list" where
  "BIP39_words_8 =
    [''light'', ''like'', ''limb'', ''limit'', ''link'', ''lion'', ''liquid'', ''list'',
     ''little'', ''live'', ''lizard'', ''load'', ''loan'', ''lobster'', ''local'', ''lock'',
     ''logic'', ''lonely'', ''long'', ''loop'', ''lottery'', ''loud'', ''lounge'', ''love'',
     ''loyal'', ''lucky'', ''luggage'', ''lumber'', ''lunar'', ''lunch'', ''luxury'', ''lyrics'',
     ''machine'', ''mad'', ''magic'', ''magnet'', ''maid'', ''mail'', ''main'', ''major'',
     ''make'', ''mammal'', ''man'', ''manage'', ''mandate'', ''mango'', ''mansion'', ''manual'',
     ''maple'', ''marble'', ''march'', ''margin'', ''marine'', ''market'', ''marriage'', ''mask'',
     ''mass'', ''master'', ''match'', ''material'', ''math'', ''matrix'', ''matter'', ''maximum'',
     ''maze'', ''meadow'', ''mean'', ''measure'', ''meat'', ''mechanic'', ''medal'', ''media'',
     ''melody'', ''melt'', ''member'', ''memory'', ''mention'', ''menu'', ''mercy'', ''merge'',
     ''merit'', ''merry'', ''mesh'', ''message'', ''metal'', ''method'', ''middle'', ''midnight'',
     ''milk'', ''million'', ''mimic'', ''mind'', ''minimum'', ''minor'', ''minute'', ''miracle'',
     ''mirror'', ''misery'', ''miss'', ''mistake'', ''mix'', ''mixed'', ''mixture'', ''mobile'',
     ''model'', ''modify'', ''mom'', ''moment'', ''monitor'', ''monkey'', ''monster'', ''month'',
     ''moon'', ''moral'', ''more'', ''morning'', ''mosquito'', ''mother'', ''motion'', ''motor'',
     ''mountain'', ''mouse'', ''move'', ''movie'', ''much'', ''muffin'', ''mule'', ''multiply'',
     ''muscle'', ''museum'', ''mushroom'', ''music'', ''must'', ''mutual'', ''myself'',
     ''mystery'', ''myth'', ''naive'', ''name'', ''napkin'', ''narrow'', ''nasty'', ''nation'',
     ''nature'', ''near'', ''neck'', ''need'', ''negative'']"

definition BIP39_words_9 :: "string list" where
  "BIP39_words_9 =
    [''neglect'', ''neither'', ''nephew'', ''nerve'', ''nest'', ''net'', ''network'', ''neutral'',
     ''never'', ''news'', ''next'', ''nice'', ''night'', ''noble'', ''noise'', ''nominee'',
     ''noodle'', ''normal'', ''north'', ''nose'', ''notable'', ''note'', ''nothing'', ''notice'',
     ''novel'', ''now'', ''nuclear'', ''number'', ''nurse'', ''nut'', ''oak'', ''obey'',
     ''object'', ''oblige'', ''obscure'', ''observe'', ''obtain'', ''obvious'', ''occur'',
     ''ocean'', ''october'', ''odor'', ''off'', ''offer'', ''office'', ''often'', ''oil'',
     ''okay'', ''old'', ''olive'', ''olympic'', ''omit'', ''once'', ''one'', ''onion'', ''online'',
     ''only'', ''open'', ''opera'', ''opinion'', ''oppose'', ''option'', ''orange'', ''orbit'',
     ''orchard'', ''order'', ''ordinary'', ''organ'', ''orient'', ''original'', ''orphan'',
     ''ostrich'', ''other'', ''outdoor'', ''outer'', ''output'', ''outside'', ''oval'', ''oven'',
     ''over'', ''own'', ''owner'', ''oxygen'', ''oyster'', ''ozone'', ''pact'', ''paddle'',
     ''page'', ''pair'', ''palace'', ''palm'', ''panda'', ''panel'', ''panic'', ''panther'',
     ''paper'', ''parade'', ''parent'', ''park'', ''parrot'', ''party'', ''pass'', ''patch'',
     ''path'', ''patient'', ''patrol'', ''pattern'', ''pause'', ''pave'', ''payment'', ''peace'',
     ''peanut'', ''pear'', ''peasant'', ''pelican'', ''pen'', ''penalty'', ''pencil'', ''people'',
     ''pepper'', ''perfect'', ''permit'', ''person'', ''pet'', ''phone'', ''photo'', ''phrase'',
     ''physical'', ''piano'', ''picnic'', ''picture'', ''piece'', ''pig'', ''pigeon'', ''pill'',
     ''pilot'', ''pink'', ''pioneer'', ''pipe'', ''pistol'', ''pitch'', ''pizza'', ''place'',
     ''planet'', ''plastic'', ''plate'', ''play'', ''please'']"

definition BIP39_words_10 :: "string list" where
  "BIP39_words_10 =
    [''pledge'', ''pluck'', ''plug'', ''plunge'', ''poem'', ''poet'', ''point'', ''polar'',
     ''pole'', ''police'', ''pond'', ''pony'', ''pool'', ''popular'', ''portion'', ''position'',
     ''possible'', ''post'', ''potato'', ''pottery'', ''poverty'', ''powder'', ''power'',
     ''practice'', ''praise'', ''predict'', ''prefer'', ''prepare'', ''present'', ''pretty'',
     ''prevent'', ''price'', ''pride'', ''primary'', ''print'', ''priority'', ''prison'',
     ''private'', ''prize'', ''problem'', ''process'', ''produce'', ''profit'', ''program'',
     ''project'', ''promote'', ''proof'', ''property'', ''prosper'', ''protect'', ''proud'',
     ''provide'', ''public'', ''pudding'', ''pull'', ''pulp'', ''pulse'', ''pumpkin'', ''punch'',
     ''pupil'', ''puppy'', ''purchase'', ''purity'', ''purpose'', ''purse'', ''push'', ''put'',
     ''puzzle'', ''pyramid'', ''quality'', ''quantum'', ''quarter'', ''question'', ''quick'',
     ''quit'', ''quiz'', ''quote'', ''rabbit'', ''raccoon'', ''race'', ''rack'', ''radar'',
     ''radio'', ''rail'', ''rain'', ''raise'', ''rally'', ''ramp'', ''ranch'', ''random'',
     ''range'', ''rapid'', ''rare'', ''rate'', ''rather'', ''raven'', ''raw'', ''razor'',
     ''ready'', ''real'', ''reason'', ''rebel'', ''rebuild'', ''recall'', ''receive'', ''recipe'',
     ''record'', ''recycle'', ''reduce'', ''reflect'', ''reform'', ''refuse'', ''region'',
     ''regret'', ''regular'', ''reject'', ''relax'', ''release'', ''relief'', ''rely'', ''remain'',
     ''remember'', ''remind'', ''remove'', ''render'', ''renew'', ''rent'', ''reopen'', ''repair'',
     ''repeat'', ''replace'', ''report'', ''require'', ''rescue'', ''resemble'', ''resist'',
     ''resource'', ''response'', ''result'', ''retire'', ''retreat'', ''return'', ''reunion'',
     ''reveal'', ''review'', ''reward'', ''rhythm'', ''rib'']"

definition BIP39_words_11 :: "string list" where
  "BIP39_words_11 =
    [''ribbon'', ''rice'', ''rich'', ''ride'', ''ridge'', ''rifle'', ''right'', ''rigid'',
     ''ring'', ''riot'', ''ripple'', ''risk'', ''ritual'', ''rival'', ''river'', ''road'',
     ''roast'', ''robot'', ''robust'', ''rocket'', ''romance'', ''roof'', ''rookie'', ''room'',
     ''rose'', ''rotate'', ''rough'', ''round'', ''route'', ''royal'', ''rubber'', ''rude'',
     ''rug'', ''rule'', ''run'', ''runway'', ''rural'', ''sad'', ''saddle'', ''sadness'', ''safe'',
     ''sail'', ''salad'', ''salmon'', ''salon'', ''salt'', ''salute'', ''same'', ''sample'',
     ''sand'', ''satisfy'', ''satoshi'', ''sauce'', ''sausage'', ''save'', ''say'', ''scale'',
     ''scan'', ''scare'', ''scatter'', ''scene'', ''scheme'', ''school'', ''science'',
     ''scissors'', ''scorpion'', ''scout'', ''scrap'', ''screen'', ''script'', ''scrub'', ''sea'',
     ''search'', ''season'', ''seat'', ''second'', ''secret'', ''section'', ''security'', ''seed'',
     ''seek'', ''segment'', ''select'', ''sell'', ''seminar'', ''senior'', ''sense'', ''sentence'',
     ''series'', ''service'', ''session'', ''settle'', ''setup'', ''seven'', ''shadow'', ''shaft'',
     ''shallow'', ''share'', ''shed'', ''shell'', ''sheriff'', ''shield'', ''shift'', ''shine'',
     ''ship'', ''shiver'', ''shock'', ''shoe'', ''shoot'', ''shop'', ''short'', ''shoulder'',
     ''shove'', ''shrimp'', ''shrug'', ''shuffle'', ''shy'', ''sibling'', ''sick'', ''side'',
     ''siege'', ''sight'', ''sign'', ''silent'', ''silk'', ''silly'', ''silver'', ''similar'',
     ''simple'', ''since'', ''sing'', ''siren'', ''sister'', ''situate'', ''six'', ''size'',
     ''skate'', ''sketch'', ''ski'', ''skill'', ''skin'', ''skirt'', ''skull'', ''slab'', ''slam'',
     ''sleep'', ''slender'', ''slice'']"

definition BIP39_words_12 :: "string list" where
  "BIP39_words_12 =
    [''slide'', ''slight'', ''slim'', ''slogan'', ''slot'', ''slow'', ''slush'', ''small'',
     ''smart'', ''smile'', ''smoke'', ''smooth'', ''snack'', ''snake'', ''snap'', ''sniff'',
     ''snow'', ''soap'', ''soccer'', ''social'', ''sock'', ''soda'', ''soft'', ''solar'',
     ''soldier'', ''solid'', ''solution'', ''solve'', ''someone'', ''song'', ''soon'', ''sorry'',
     ''sort'', ''soul'', ''sound'', ''soup'', ''source'', ''south'', ''space'', ''spare'',
     ''spatial'', ''spawn'', ''speak'', ''special'', ''speed'', ''spell'', ''spend'', ''sphere'',
     ''spice'', ''spider'', ''spike'', ''spin'', ''spirit'', ''split'', ''spoil'', ''sponsor'',
     ''spoon'', ''sport'', ''spot'', ''spray'', ''spread'', ''spring'', ''spy'', ''square'',
     ''squeeze'', ''squirrel'', ''stable'', ''stadium'', ''staff'', ''stage'', ''stairs'',
     ''stamp'', ''stand'', ''start'', ''state'', ''stay'', ''steak'', ''steel'', ''stem'',
     ''step'', ''stereo'', ''stick'', ''still'', ''sting'', ''stock'', ''stomach'', ''stone'',
     ''stool'', ''story'', ''stove'', ''strategy'', ''street'', ''strike'', ''strong'',
     ''struggle'', ''student'', ''stuff'', ''stumble'', ''style'', ''subject'', ''submit'',
     ''subway'', ''success'', ''such'', ''sudden'', ''suffer'', ''sugar'', ''suggest'', ''suit'',
     ''summer'', ''sun'', ''sunny'', ''sunset'', ''super'', ''supply'', ''supreme'', ''sure'',
     ''surface'', ''surge'', ''surprise'', ''surround'', ''survey'', ''suspect'', ''sustain'',
     ''swallow'', ''swamp'', ''swap'', ''swarm'', ''swear'', ''sweet'', ''swift'', ''swim'',
     ''swing'', ''switch'', ''sword'', ''symbol'', ''symptom'', ''syrup'', ''system'', ''table'',
     ''tackle'', ''tag'', ''tail'', ''talent'', ''talk'', ''tank'', ''tape'', ''target'']"

definition BIP39_words_13 :: "string list" where
  "BIP39_words_13 =
    [''task'', ''taste'', ''tattoo'', ''taxi'', ''teach'', ''team'', ''tell'', ''ten'', ''tenant'',
     ''tennis'', ''tent'', ''term'', ''test'', ''text'', ''thank'', ''that'', ''theme'', ''then'',
     ''theory'', ''there'', ''they'', ''thing'', ''this'', ''thought'', ''three'', ''thrive'',
     ''throw'', ''thumb'', ''thunder'', ''ticket'', ''tide'', ''tiger'', ''tilt'', ''timber'',
     ''time'', ''tiny'', ''tip'', ''tired'', ''tissue'', ''title'', ''toast'', ''tobacco'',
     ''today'', ''toddler'', ''toe'', ''together'', ''toilet'', ''token'', ''tomato'',
     ''tomorrow'', ''tone'', ''tongue'', ''tonight'', ''tool'', ''tooth'', ''top'', ''topic'',
     ''topple'', ''torch'', ''tornado'', ''tortoise'', ''toss'', ''total'', ''tourist'',
     ''toward'', ''tower'', ''town'', ''toy'', ''track'', ''trade'', ''traffic'', ''tragic'',
     ''train'', ''transfer'', ''trap'', ''trash'', ''travel'', ''tray'', ''treat'', ''tree'',
     ''trend'', ''trial'', ''tribe'', ''trick'', ''trigger'', ''trim'', ''trip'', ''trophy'',
     ''trouble'', ''truck'', ''true'', ''truly'', ''trumpet'', ''trust'', ''truth'', ''try'',
     ''tube'', ''tuition'', ''tumble'', ''tuna'', ''tunnel'', ''turkey'', ''turn'', ''turtle'',
     ''twelve'', ''twenty'', ''twice'', ''twin'', ''twist'', ''two'', ''type'', ''typical'',
     ''ugly'', ''umbrella'', ''unable'', ''unaware'', ''uncle'', ''uncover'', ''under'', ''undo'',
     ''unfair'', ''unfold'', ''unhappy'', ''uniform'', ''unique'', ''unit'', ''universe'',
     ''unknown'', ''unlock'', ''until'', ''unusual'', ''unveil'', ''update'', ''upgrade'',
     ''uphold'', ''upon'', ''upper'', ''upset'', ''urban'', ''urge'', ''usage'', ''use'', ''used'',
     ''useful'', ''useless'', ''usual'', ''utility'', ''vacant'']"

definition BIP39_words_14 :: "string list" where
  "BIP39_words_14 =
    [''vacuum'', ''vague'', ''valid'', ''valley'', ''valve'', ''van'', ''vanish'', ''vapor'',
     ''various'', ''vast'', ''vault'', ''vehicle'', ''velvet'', ''vendor'', ''venture'', ''venue'',
     ''verb'', ''verify'', ''version'', ''very'', ''vessel'', ''veteran'', ''viable'', ''vibrant'',
     ''vicious'', ''victory'', ''video'', ''view'', ''village'', ''vintage'', ''violin'',
     ''virtual'', ''virus'', ''visa'', ''visit'', ''visual'', ''vital'', ''vivid'', ''vocal'',
     ''voice'', ''void'', ''volcano'', ''volume'', ''vote'', ''voyage'', ''wage'', ''wagon'',
     ''wait'', ''walk'', ''wall'', ''walnut'', ''want'', ''warfare'', ''warm'', ''warrior'',
     ''wash'', ''wasp'', ''waste'', ''water'', ''wave'', ''way'', ''wealth'', ''weapon'', ''wear'',
     ''weasel'', ''weather'', ''web'', ''wedding'', ''weekend'', ''weird'', ''welcome'', ''west'',
     ''wet'', ''whale'', ''what'', ''wheat'', ''wheel'', ''when'', ''where'', ''whip'',
     ''whisper'', ''wide'', ''width'', ''wife'', ''wild'', ''will'', ''win'', ''window'', ''wine'',
     ''wing'', ''wink'', ''winner'', ''winter'', ''wire'', ''wisdom'', ''wise'', ''wish'',
     ''witness'', ''wolf'', ''woman'', ''wonder'', ''wood'', ''wool'', ''word'', ''work'',
     ''world'', ''worry'', ''worth'', ''wrap'', ''wreck'', ''wrestle'', ''wrist'', ''write'',
     ''wrong'', ''yard'', ''year'', ''yellow'', ''you'', ''young'', ''youth'', ''zebra'', ''zero'',
     ''zone'', ''zoo'']"

definition BIP39_ENGLISH_WORDLIST :: "string list" where
  "BIP39_ENGLISH_WORDLIST =
     BIP39_words_1 @ BIP39_words_2 @ BIP39_words_3 @ BIP39_words_4 @ BIP39_words_5 @ BIP39_words_6 @ BIP39_words_7 @
     BIP39_words_8 @ BIP39_words_9 @ BIP39_words_10 @ BIP39_words_11 @ BIP39_words_12 @ BIP39_words_13 @ BIP39_words_14"

subsection \<open>The words are different\<close>

text \<open>Lexicographic order, on letters by the low five bits of their codes.\<close>

fun letter_less :: "char \<Rightarrow> char \<Rightarrow> bool" where
  "letter_less (Char a0 a1 a2 a3 a4 a5 a6 a7) (Char b0 b1 b2 b3 b4 b5 b6 b7) =
     (if a4 = b4
      then if a3 = b3 then if a2 = b2 then if a1 = b1 then \<not> a0 \<and> b0 else \<not> a1 \<and> b1 else \<not> a2 \<and> b2
           else \<not> a3 \<and> b3
      else \<not> a4 \<and> b4)"

fun word_less :: "string \<Rightarrow> string \<Rightarrow> bool" where
  "word_less s [] = False"
| "word_less [] (d # t) = True"
| "word_less (c # s) (d # t) = (if c = d then word_less s t else letter_less c d)"

fun words_increasing :: "string list \<Rightarrow> bool" where
  "words_increasing (a # b # ws) = (word_less a b \<and> words_increasing (b # ws))"
| "words_increasing _ = True"

definition word_plain :: "string \<Rightarrow> bool" where
  "word_plain w \<longleftrightarrow> list_all (\<lambda>c. c \<noteq> CHR '' '') w"

lemma letter_less_irrefl: "\<not> letter_less c c"
  by (cases c) simp

lemma letter_less_trans: "letter_less c d \<Longrightarrow> letter_less d e \<Longrightarrow> letter_less c e"
  by (cases c; cases d; cases e) (auto split: if_splits)

lemma word_less_irrefl: "\<not> word_less s s"
  by (induction s) (simp_all add: letter_less_irrefl)

lemma word_less_trans: "word_less s t \<Longrightarrow> word_less t u \<Longrightarrow> word_less s u"
proof (induction s t arbitrary: u rule: word_less.induct)
  case (2 d t)
  then show ?case by (cases u) simp_all
next
  case (3 c s d t)
  then show ?case
    by (cases u) (auto split: if_splits dest: letter_less_trans simp: letter_less_irrefl)
qed simp

lemma words_increasing_distinct:
  "words_increasing ws \<Longrightarrow> sorted_wrt word_less ws"
proof (induction ws rule: words_increasing.induct)
  case (1 a b ws)
  then show ?case by (auto dest: word_less_trans)
qed auto

lemma sorted_wrt_distinct: "(\<And>x. \<not> r x x) \<Longrightarrow> sorted_wrt r xs \<Longrightarrow> distinct xs"
  by (induction xs) auto

lemma parts_join:
  "words_increasing xs \<Longrightarrow> words_increasing ys \<Longrightarrow> xs \<noteq> [] \<Longrightarrow> ys \<noteq> [] \<Longrightarrow> word_less (last xs) (hd ys) \<Longrightarrow>
    words_increasing (xs @ ys)"
  by (induction xs rule: words_increasing.induct) (auto simp: neq_Nil_conv)

lemma part_1:
  "words_increasing BIP39_words_1" "list_all word_plain BIP39_words_1" "length BIP39_words_1 = 148"
  "hd BIP39_words_1 = ''abandon''" "last BIP39_words_1 = ''bar''" "BIP39_words_1 \<noteq> []"
  by (simp_all add: BIP39_words_1_def word_plain_def)

lemma part_2:
  "words_increasing BIP39_words_2" "list_all word_plain BIP39_words_2" "length BIP39_words_2 = 148"
  "hd BIP39_words_2 = ''barely''" "last BIP39_words_2 = ''ceiling''" "BIP39_words_2 \<noteq> []"
  by (simp_all add: BIP39_words_2_def word_plain_def)

lemma part_3:
  "words_increasing BIP39_words_3" "list_all word_plain BIP39_words_3" "length BIP39_words_3 = 148"
  "hd BIP39_words_3 = ''celery''" "last BIP39_words_3 = ''danger''" "BIP39_words_3 \<noteq> []"
  by (simp_all add: BIP39_words_3_def word_plain_def)

lemma part_4:
  "words_increasing BIP39_words_4" "list_all word_plain BIP39_words_4" "length BIP39_words_4 = 148"
  "hd BIP39_words_4 = ''daring''" "last BIP39_words_4 = ''enemy''" "BIP39_words_4 \<noteq> []"
  by (simp_all add: BIP39_words_4_def word_plain_def)

lemma part_5:
  "words_increasing BIP39_words_5" "list_all word_plain BIP39_words_5" "length BIP39_words_5 = 148"
  "hd BIP39_words_5 = ''energy''" "last BIP39_words_5 = ''fragile''" "BIP39_words_5 \<noteq> []"
  by (simp_all add: BIP39_words_5_def word_plain_def)

lemma part_6:
  "words_increasing BIP39_words_6" "list_all word_plain BIP39_words_6" "length BIP39_words_6 = 148"
  "hd BIP39_words_6 = ''frame''" "last BIP39_words_6 = ''humble''" "BIP39_words_6 \<noteq> []"
  by (simp_all add: BIP39_words_6_def word_plain_def)

lemma part_7:
  "words_increasing BIP39_words_7" "list_all word_plain BIP39_words_7" "length BIP39_words_7 = 148"
  "hd BIP39_words_7 = ''humor''" "last BIP39_words_7 = ''lift''" "BIP39_words_7 \<noteq> []"
  by (simp_all add: BIP39_words_7_def word_plain_def)

lemma part_8:
  "words_increasing BIP39_words_8" "list_all word_plain BIP39_words_8" "length BIP39_words_8 = 148"
  "hd BIP39_words_8 = ''light''" "last BIP39_words_8 = ''negative''" "BIP39_words_8 \<noteq> []"
  by (simp_all add: BIP39_words_8_def word_plain_def)

lemma part_9:
  "words_increasing BIP39_words_9" "list_all word_plain BIP39_words_9" "length BIP39_words_9 = 148"
  "hd BIP39_words_9 = ''neglect''" "last BIP39_words_9 = ''please''" "BIP39_words_9 \<noteq> []"
  by (simp_all add: BIP39_words_9_def word_plain_def)

lemma part_10:
  "words_increasing BIP39_words_10" "list_all word_plain BIP39_words_10" "length BIP39_words_10 = 148"
  "hd BIP39_words_10 = ''pledge''" "last BIP39_words_10 = ''rib''" "BIP39_words_10 \<noteq> []"
  by (simp_all add: BIP39_words_10_def word_plain_def)

lemma part_11:
  "words_increasing BIP39_words_11" "list_all word_plain BIP39_words_11" "length BIP39_words_11 = 148"
  "hd BIP39_words_11 = ''ribbon''" "last BIP39_words_11 = ''slice''" "BIP39_words_11 \<noteq> []"
  by (simp_all add: BIP39_words_11_def word_plain_def)

lemma part_12:
  "words_increasing BIP39_words_12" "list_all word_plain BIP39_words_12" "length BIP39_words_12 = 148"
  "hd BIP39_words_12 = ''slide''" "last BIP39_words_12 = ''target''" "BIP39_words_12 \<noteq> []"
  by (simp_all add: BIP39_words_12_def word_plain_def)

lemma part_13:
  "words_increasing BIP39_words_13" "list_all word_plain BIP39_words_13" "length BIP39_words_13 = 148"
  "hd BIP39_words_13 = ''task''" "last BIP39_words_13 = ''vacant''" "BIP39_words_13 \<noteq> []"
  by (simp_all add: BIP39_words_13_def word_plain_def)

lemma part_14:
  "words_increasing BIP39_words_14" "list_all word_plain BIP39_words_14" "length BIP39_words_14 = 124"
  "hd BIP39_words_14 = ''vacuum''" "last BIP39_words_14 = ''zoo''" "BIP39_words_14 \<noteq> []"
  by (simp_all add: BIP39_words_14_def word_plain_def)

lemmas parts =
  part_1 part_2 part_3 part_4 part_5 part_6 part_7 part_8 part_9 part_10 part_11 part_12 part_13 part_14

lemma wordlist_length: "length BIP39_ENGLISH_WORDLIST = 2048"
  by (simp add: BIP39_ENGLISH_WORDLIST_def parts)

lemma wordlist_plain: "w \<in> set BIP39_ENGLISH_WORDLIST \<Longrightarrow> CHR '' '' \<notin> set w"
proof -
  have "list_all word_plain BIP39_ENGLISH_WORDLIST" by (simp add: BIP39_ENGLISH_WORDLIST_def parts)
  then show "w \<in> set BIP39_ENGLISH_WORDLIST \<Longrightarrow> CHR '' '' \<notin> set w"
    by (auto simp: list_all_iff word_plain_def)
qed

lemma wordlist_increasing: "words_increasing BIP39_ENGLISH_WORDLIST"
  unfolding BIP39_ENGLISH_WORDLIST_def
  by (intro parts_join parts) (simp_all add: parts)

lemma wordlist_distinct: "distinct BIP39_ENGLISH_WORDLIST"
  using sorted_wrt_distinct [OF word_less_irrefl words_increasing_distinct [OF wordlist_increasing]] .

end
