(* ===== verification/Derivation.thy ===== *)
theory Derivation
  imports Wordlist TextOps "HOL-Library.Word"
begin

unbundle bit_operations_syntax

text \<open>
  Key derivation (\<^verbatim>\<open>packages/keys/src/derivation.ts\<close>): mnemonics of 256 bits of entropy, the
  parser of derivation paths, and the derivation of child keys for secp256k1 and Ed25519. The
  hash, HMAC, key-stretching and curve functions are the fields of \<open>crypto_engine\<close>; a byte
  array is a list of bytes, a \<open>bigint\<close> a natural number. An operation that throws returns the
  message in \<open>Err\<close>.
\<close>

record crypto_engine =
  cr_sha256 :: "8 word list \<Rightarrow> 8 word list"
  cr_hmac512 :: "8 word list \<Rightarrow> 8 word list \<Rightarrow> 8 word list"
  cr_pbkdf2 :: "string \<Rightarrow> string \<Rightarrow> nat \<Rightarrow> nat \<Rightarrow> 8 word list"
  cr_keccak :: "8 word list \<Rightarrow> 8 word list"
  cr_secpPublic :: "8 word list \<Rightarrow> bool \<Rightarrow> 8 word list"
  cr_secpOrder :: nat
  cr_edPublic :: "8 word list \<Rightarrow> 8 word list"
  cr_nfkd :: "string \<Rightarrow> string"

definition text_bytes :: "string \<Rightarrow> 8 word list" where
  "text_bytes s = map of_char s"

definition EVM_PATH_PREFIX :: string where
  "EVM_PATH_PREFIX = [CHR ''m''] @ ''/44'' @ [CHR 0x27] @ ''/60'' @ [CHR 0x27] @ ''/0'' @ [CHR 0x27] @ ''/0''"

definition ED25519_PATH_PREFIX :: string where
  "ED25519_PATH_PREFIX = ''m/44'' @ [CHR 0x27] @ ''/501'' @ [CHR 0x27]"

record derived_key =
  dk_privateKey :: "8 word list"
  dk_publicKey :: "8 word list"
  dk_chainCode :: "8 word list"

record derived_evm_key =
  de_privateKey :: "8 word list"
  de_publicKey :: "8 word list"
  de_address :: string

record derived_ed25519_key =
  ded_privateKey :: "8 word list"
  ded_publicKey :: "8 word list"

subsection \<open>Bits, bytes and numbers\<close>

fun extract_loop :: "8 word list \<Rightarrow> nat \<Rightarrow> nat \<Rightarrow> nat \<Rightarrow> nat \<Rightarrow> nat \<Rightarrow> (nat, string) result" where
  "extract_loop data bitOffset numBits i 0 value = Ok value"
| "extract_loop data bitOffset numBits i (Suc left) value =
     (let byteIndex = (bitOffset + i) div 8;
          bitIndex = 7 - (bitOffset + i) mod 8
      in if byteIndex < length data
         then extract_loop data bitOffset numBits (i + 1) left
                (if (drop_bit bitIndex (data ! byteIndex) AND 1) \<noteq> 0
                 then value OR push_bit (numBits - 1 - i) 1 else value)
         else Err (''Bit extraction out of bounds at byte '' @ digits_of byteIndex))"

definition extractBits :: "8 word list \<Rightarrow> nat \<Rightarrow> nat \<Rightarrow> (nat, string) result" where
  "extractBits data bitOffset numBits = extract_loop data bitOffset numBits 0 numBits 0"

definition bytesToBigInt :: "8 word list \<Rightarrow> nat" where
  "bytesToBigInt bytes = foldl (\<lambda>result byte. push_bit 8 result OR unat byte) 0 bytes"

fun bigint_loop :: "nat \<Rightarrow> nat \<Rightarrow> 8 word list \<Rightarrow> 8 word list" where
  "bigint_loop remaining 0 acc = acc"
| "bigint_loop remaining (Suc n) acc =
     bigint_loop (drop_bit 8 remaining) n (of_nat (remaining AND 0xff) # acc)"

definition bigIntToBytes :: "nat \<Rightarrow> nat \<Rightarrow> 8 word list" where
  "bigIntToBytes value len = bigint_loop value len []"

definition hex_char :: "nat \<Rightarrow> char" where
  "hex_char n = ''0123456789abcdef'' ! n"

definition bytesToHex :: "8 word list \<Rightarrow> string" where
  "bytesToHex bytes = concat (map (\<lambda>b. [hex_char (unat b div 16), hex_char (unat b mod 16)]) bytes)"

subsection \<open>Mnemonics\<close>

fun mnemonic_words :: "8 word list \<Rightarrow> nat list \<Rightarrow> (string list, string) result" where
  "mnemonic_words allBytes [] = Ok []"
| "mnemonic_words allBytes (i # is) =
     (case extractBits allBytes (i * 11) 11 of
        Err e \<Rightarrow> Err e
      | Ok index \<Rightarrow>
          if index < length BIP39_ENGLISH_WORDLIST
          then (case mnemonic_words allBytes is of
                  Err e \<Rightarrow> Err e
                | Ok ws \<Rightarrow> Ok (BIP39_ENGLISH_WORDLIST ! index # ws))
          else Err (''Invalid wordlist index: '' @ digits_of index))"

definition generateMnemonic :: "crypto_engine \<Rightarrow> 8 word list \<Rightarrow> (string, string) result" where
  "generateMnemonic cr entropy =
     (let checksumByte = (case cr_sha256 cr entropy of [] \<Rightarrow> 0 | b # _ \<Rightarrow> b);
          allBytes = entropy @ [checksumByte]
      in case mnemonic_words allBytes [0..<24] of
           Err e \<Rightarrow> Err e
         | Ok ws \<Rightarrow> Ok (join_with '' '' ws))"

definition mnemonicToSeed :: "crypto_engine \<Rightarrow> string \<Rightarrow> string option \<Rightarrow> 8 word list" where
  "mnemonicToSeed cr mnemonic passphrase =
     cr_pbkdf2 cr (cr_nfkd cr mnemonic) (''mnemonic'' @ cr_nfkd cr (nullish passphrase [])) 2048 64"

subsection \<open>Paths\<close>

record path_segment =
  ps_index :: nat
  ps_hardened :: bool

definition HARDENED_OFFSET :: nat where
  "HARDENED_OFFSET = 0x80000000"

definition MAX_DERIVATION_INDEX :: nat where
  "MAX_DERIVATION_INDEX = 0x7fffffff"

text \<open>
  One segment. \<open>parseInt\<close> on a text of digits gives its value, rounded above 2^53, so the bound
  is decided as on the exact value.
\<close>

definition parse_segment :: "string \<Rightarrow> (path_segment, string) result" where
  "parse_segment part =
     (if part = [] then Err ''Invalid derivation path: empty segment''
      else
        let hardened = (last part = CHR 0x27);
            indexStr = (if hardened then butlast part else part)
        in if indexStr = [] \<or> \<not> list_all is_digit indexStr
           then Err (''Invalid derivation path segment: '' @ [CHR 0x22] @ part @ [CHR 0x22])
           else if MAX_DERIVATION_INDEX < decimal_value indexStr
           then Err (''Invalid derivation path segment: '' @ [CHR 0x22] @ part @ [CHR 0x22])
           else Ok \<lparr>ps_index = decimal_value indexStr, ps_hardened = hardened\<rparr>)"

fun parse_segments :: "string list \<Rightarrow> (path_segment list, string) result" where
  "parse_segments [] = Ok []"
| "parse_segments (part # parts) =
     (case parse_segment part of
        Err e \<Rightarrow> Err e
      | Ok seg \<Rightarrow> (case parse_segments parts of Err e \<Rightarrow> Err e | Ok segs \<Rightarrow> Ok (seg # segs)))"

definition parsePath :: "string \<Rightarrow> (path_segment list, string) result" where
  "parsePath path =
     (if path = ''m'' then Ok []
      else case split_on (CHR ''/'') path of
             first # rest \<Rightarrow>
               if first \<noteq> ''m''
               then Err (''Invalid derivation path: must start with '' @ [CHR 0x22] @ ''m'' @ [CHR 0x22])
               else parse_segments rest
           | [] \<Rightarrow> Ok [])"

subsection \<open>Derivation\<close>

definition index_bytes :: "nat \<Rightarrow> 8 word list" where
  "index_bytes childIndex =
     [of_nat (drop_bit 24 childIndex AND 0xff), of_nat (drop_bit 16 childIndex AND 0xff),
      of_nat (drop_bit 8 childIndex AND 0xff), of_nat (childIndex AND 0xff)]"

definition deriveChild ::
  "crypto_engine \<Rightarrow> 8 word list \<Rightarrow> 8 word list \<Rightarrow> path_segment \<Rightarrow> 8 word list \<times> 8 word list" where
  "deriveChild cr parentKey parentChainCode segment =
     (let keyPart = (if ps_hardened segment then 0 # parentKey else cr_secpPublic cr parentKey True);
          childIndex = (if ps_hardened segment then (ps_index segment + HARDENED_OFFSET) mod 2 ^ 32
                        else ps_index segment);
          derived = cr_hmac512 cr parentChainCode (keyPart @ index_bytes childIndex);
          childKeyBytes = take 32 derived;
          childChainCode = take 32 (drop 32 derived);
          result = (bytesToBigInt parentKey + bytesToBigInt childKeyBytes) mod cr_secpOrder cr
      in (bigIntToBytes result 32, childChainCode))"

definition derivePath :: "crypto_engine \<Rightarrow> 8 word list \<Rightarrow> string \<Rightarrow> (derived_key, string) result" where
  "derivePath cr seed path =
     (case parsePath path of
        Err e \<Rightarrow> Err e
      | Ok segments \<Rightarrow>
          let master = cr_hmac512 cr (text_bytes ''Bitcoin seed'') seed;
              (privateKey, chainCode) =
                foldl (\<lambda>(key, code) segment. deriveChild cr key code segment)
                  (take 32 master, take 32 (drop 32 master)) segments
          in Ok \<lparr>dk_privateKey = privateKey, dk_publicKey = cr_secpPublic cr privateKey False,
                 dk_chainCode = chainCode\<rparr>)"

definition deriveEvmKey :: "crypto_engine \<Rightarrow> 8 word list \<Rightarrow> int \<Rightarrow> (derived_evm_key, string) result" where
  "deriveEvmKey cr seed index =
     (case derivePath cr seed (EVM_PATH_PREFIX @ ''/'' @ int_text index) of
        Err e \<Rightarrow> Err e
      | Ok derived \<Rightarrow>
          let hash = cr_keccak cr (drop 1 (dk_publicKey derived))
          in Ok \<lparr>de_privateKey = dk_privateKey derived, de_publicKey = dk_publicKey derived,
                 de_address = ''0x'' @ bytesToHex (drop 12 hash)\<rparr>)"

definition ed25519_child :: "crypto_engine \<Rightarrow> 8 word list \<times> 8 word list \<Rightarrow> path_segment \<Rightarrow> 8 word list \<times> 8 word list" where
  "ed25519_child cr kc segment =
     (let childIndex = (ps_index segment + HARDENED_OFFSET) mod 2 ^ 32;
          derived = cr_hmac512 cr (snd kc) (0 # fst kc @ index_bytes childIndex)
      in (take 32 derived, take 32 (drop 32 derived)))"

definition deriveEd25519Path ::
  "crypto_engine \<Rightarrow> 8 word list \<Rightarrow> string \<Rightarrow> (8 word list \<times> 8 word list, string) result" where
  "deriveEd25519Path cr seed path =
     (case parsePath path of
        Err e \<Rightarrow> Err e
      | Ok segments \<Rightarrow>
          let master = cr_hmac512 cr (text_bytes ''ed25519 seed'') seed
          in Ok (foldl (ed25519_child cr) (take 32 master, take 32 (drop 32 master)) segments))"

definition deriveEd25519Key :: "crypto_engine \<Rightarrow> 8 word list \<Rightarrow> int \<Rightarrow> (derived_ed25519_key, string) result" where
  "deriveEd25519Key cr seed index =
     (case deriveEd25519Path cr seed
             (ED25519_PATH_PREFIX @ ''/'' @ int_text index @ [CHR 0x27] @ ''/0'' @ [CHR 0x27]) of
        Err e \<Rightarrow> Err e
      | Ok (privateKey, _) \<Rightarrow>
          Ok \<lparr>ded_privateKey = privateKey, ded_publicKey = cr_edPublic cr privateKey\<rparr>)"

subsection \<open>Bits\<close>

lemma test_bit: "(drop_bit k (w :: 8 word) AND 1) \<noteq> 0 \<longleftrightarrow> bit w k"
  by (simp add: and_one_eq bit_iff_odd_drop_bit odd_iff_mod_2_eq_one)

text \<open>The bit of the data that the group's bit at distance \<open>i\<close> from its top comes from.\<close>

definition data_bit :: "8 word list \<Rightarrow> nat \<Rightarrow> bool" where
  "data_bit data k \<longleftrightarrow> bit (data ! (k div 8)) (7 - k mod 8)"

lemma bit_power_nat: "bit ((2 :: nat) ^ m) j \<longleftrightarrow> j = m"
  by (auto simp: bit_exp_iff)

lemma extract_loop_bits:
  assumes "start + n \<le> 8 * length data" "i + left = n"
    and "\<forall>j. bit acc j \<longleftrightarrow> (\<exists>i' < i. j = n - 1 - i' \<and> data_bit data (start + i'))"
  shows "\<exists>v. extract_loop data start n i left acc = Ok v \<and>
    (\<forall>j. bit v j \<longleftrightarrow> (\<exists>i' < n. j = n - 1 - i' \<and> data_bit data (start + i')))"
  using assms
proof (induction left arbitrary: i acc)
  case (Suc left)
  let ?b = "data_bit data (start + i)"
  let ?v = "if ?b then acc OR push_bit (n - 1 - i) 1 else acc"
  have inside: "(start + i) div 8 < length data" using Suc.prems(1,2) by linarith
  have bits: "\<forall>j. bit ?v j \<longleftrightarrow> (\<exists>i' < i + 1. j = n - 1 - i' \<and> data_bit data (start + i'))"
    using Suc.prems(3) by (auto simp: bit_or_iff bit_power_nat less_Suc_eq)
  have "extract_loop data start n i (Suc left) acc = extract_loop data start n (i + 1) left ?v"
    using inside by (simp add: Let_def test_bit data_bit_def)
  then show ?case using Suc.IH [OF Suc.prems(1) _ bits] Suc.prems(2) by simp
qed simp

lemma extractBits_bits:
  assumes "start + n \<le> 8 * length data"
  shows "\<exists>v. extractBits data start n = Ok v \<and> v < 2 ^ n \<and>
    (\<forall>i < n. bit v (n - 1 - i) = data_bit data (start + i))"
proof -
  obtain v where v: "extractBits data start n = Ok v"
      "\<forall>j. bit v j \<longleftrightarrow> (\<exists>i' < n. j = n - 1 - i' \<and> data_bit data (start + i'))"
    using extract_loop_bits [OF assms, of 0 n 0] by (auto simp: extractBits_def)
  have "take_bit n v = v"
    by (rule bit_eqI) (use v(2) in \<open>auto simp: bit_take_bit_iff\<close>)
  moreover have "bit v (n - 1 - i) = data_bit data (start + i)" if "i < n" for i
  proof -
    have "i' = i" if "i' < n" "n - 1 - i = n - 1 - i'" for i' using that \<open>i < n\<close> by linarith
    then show ?thesis using v(2) that by blast
  qed
  ultimately show ?thesis using v(1) by (auto simp: take_bit_nat_eq_self_iff)
qed

lemma byte_eqI:
  assumes "\<And>k. k < 8 \<Longrightarrow> bit (a :: 8 word) k = bit b k"
  shows "a = b"
  by (rule bit_word_eqI) (simp add: assms)

subsection \<open>Mnemonics\<close>

lemma mnemonic_words_Ok:
  assumes "length data = 33"
  shows "(\<forall>g \<in> set gs. g < 24) \<Longrightarrow> \<exists>ixs. length ixs = length gs \<and>
    (\<forall>k < length gs. extractBits data (gs ! k * 11) 11 = Ok (ixs ! k) \<and> ixs ! k < 2048) \<and>
    mnemonic_words data gs = Ok (map (\<lambda>i. BIP39_ENGLISH_WORDLIST ! i) ixs)"
proof (induction gs)
  case (Cons g gs)
  then obtain ixs where ixs: "length ixs = length gs"
      "\<forall>k < length gs. extractBits data (gs ! k * 11) 11 = Ok (ixs ! k) \<and> ixs ! k < 2048"
      "mnemonic_words data gs = Ok (map (\<lambda>i. BIP39_ENGLISH_WORDLIST ! i) ixs)" by auto
  have "g * 11 + 11 \<le> 8 * length data" using Cons.prems assms by simp
  from extractBits_bits [OF this] obtain v where v: "extractBits data (g * 11) 11 = Ok v" "v < 2048" by auto
  have "mnemonic_words data (g # gs) = Ok (map (\<lambda>i. BIP39_ENGLISH_WORDLIST ! i) (v # ixs))"
    using v ixs(3) by (simp add: wordlist_length)
  moreover have "\<forall>k < length (g # gs). extractBits data ((g # gs) ! k * 11) 11 = Ok ((v # ixs) ! k) \<and> (v # ixs) ! k < 2048"
    using v ixs(2) by (auto simp: nth_Cons split: nat.split)
  ultimately show ?case using ixs(1) by (intro exI [of _ "v # ixs"]) simp
qed simp

text \<open>The eleven-bit groups determine the bytes they were cut from.\<close>

lemma groups_determine:
  assumes "length data = 33" "length data' = 33"
    and "\<And>g. g < 24 \<Longrightarrow> extractBits data (g * 11) 11 = extractBits data' (g * 11) 11"
  shows "data = data'"
proof -
  have bit: "data_bit data k = data_bit data' k" if "k < 264" for k
  proof -
    have g: "k div 11 < 24" and off: "k = k div 11 * 11 + k mod 11"
      using that by (simp_all add: less_mult_imp_div_less)
    have "k div 11 * 11 + 11 \<le> 8 * length data" "k div 11 * 11 + 11 \<le> 8 * length data'"
      using g assms(1,2) by simp_all
    then obtain v v' where "extractBits data (k div 11 * 11) 11 = Ok v"
        "\<forall>i < 11. bit v (11 - 1 - i) = data_bit data (k div 11 * 11 + i)"
        "extractBits data' (k div 11 * 11) 11 = Ok v'"
        "\<forall>i < 11. bit v' (11 - 1 - i) = data_bit data' (k div 11 * 11 + i)"
      using extractBits_bits by metis
    moreover then have "v = v'" using assms(3) [OF g] by simp
    moreover have "k mod 11 < 11" by simp
    ultimately have "data_bit data (k div 11 * 11 + k mod 11) = data_bit data' (k div 11 * 11 + k mod 11)"
      by blast
    then show ?thesis using off by simp
  qed
  show ?thesis
  proof (rule nth_equalityI)
    show "length data = length data'" using assms by simp
    fix b assume "b < length data"
    show "data ! b = data' ! b"
    proof (rule byte_eqI)
      fix k :: nat assume k: "k < 8"
      have "8 * b + (7 - k) < 264" using \<open>b < length data\<close> assms(1) k by simp
      moreover have "(8 * b + (7 - k)) div 8 = b" "7 - (8 * b + (7 - k)) mod 8 = k"
        using k by (simp_all only: div_mult_self4 mod_mult_self4) simp_all
      ultimately show "bit (data ! b) k = bit (data' ! b) k"
        using bit [of "8 * b + (7 - k)"] by (simp only: data_bit_def)
    qed
  qed
qed

lemma space_join: "[CHR '' ''] = '' ''"
  by simp

text \<open>From 32 bytes of entropy a mnemonic is always made; it consists of 24 words of the word
  list, and different entropies have different mnemonics.\<close>

theorem mnemonic_exact:
  assumes "length entropy = 32" "length entropy' = 32"
  shows "(case generateMnemonic cr entropy of
      Err _ \<Rightarrow> False
    | Ok mnemonic \<Rightarrow>
        length (split_on (CHR '' '') mnemonic) = 24 \<and>
        set (split_on (CHR '' '') mnemonic) \<subseteq> set BIP39_ENGLISH_WORDLIST) \<and>
    (generateMnemonic cr entropy = generateMnemonic cr entropy') = (entropy = entropy')"
proof -
  define sum where "sum e = (case cr_sha256 cr e of [] \<Rightarrow> 0 | b # _ \<Rightarrow> b)" for e
  have made: "\<exists>ixs. length ixs = 24 \<and> (\<forall>k < 24. extractBits (e @ [sum e]) (k * 11) 11 = Ok (ixs ! k) \<and> ixs ! k < 2048) \<and>
      generateMnemonic cr e = Ok (join_with '' '' (map (\<lambda>i. BIP39_ENGLISH_WORDLIST ! i) ixs)) \<and>
      split_on (CHR '' '') (join_with '' '' (map (\<lambda>i. BIP39_ENGLISH_WORDLIST ! i) ixs)) =
        map (\<lambda>i. BIP39_ENGLISH_WORDLIST ! i) ixs"
    if "length e = 32" for e
  proof -
    have "length (e @ [sum e]) = 33" using that by simp
    from mnemonic_words_Ok [OF this, of "[0..<24]"] obtain ixs where ixs: "length ixs = 24"
        "\<forall>k < 24. extractBits (e @ [sum e]) (k * 11) 11 = Ok (ixs ! k) \<and> ixs ! k < 2048"
        "mnemonic_words (e @ [sum e]) [0..<24] = Ok (map (\<lambda>i. BIP39_ENGLISH_WORDLIST ! i) ixs)"
      by (auto simp del: upt_rec_numeral)
    have "\<forall>i \<in> set ixs. i < length BIP39_ENGLISH_WORDLIST"
      using ixs(1,2) by (auto simp: wordlist_length in_set_conv_nth)
    then have "\<And>w. w \<in> set (map (\<lambda>i. BIP39_ENGLISH_WORDLIST ! i) ixs) \<Longrightarrow> CHR '' '' \<notin> set w"
      using wordlist_plain by auto
    moreover have "map (\<lambda>i. BIP39_ENGLISH_WORDLIST ! i) ixs \<noteq> []" using ixs(1) by auto
    ultimately show ?thesis
      using ixs split_join [of "map (\<lambda>i. BIP39_ENGLISH_WORDLIST ! i) ixs" "CHR '' ''"]
      by (intro exI [of _ ixs]) (simp add: generateMnemonic_def sum_def Let_def del: upt_rec_numeral)
  qed
  obtain ixs where ixs: "length ixs = 24"
      "\<forall>k < 24. extractBits (entropy @ [sum entropy]) (k * 11) 11 = Ok (ixs ! k) \<and> ixs ! k < 2048"
      "generateMnemonic cr entropy = Ok (join_with '' '' (map (\<lambda>i. BIP39_ENGLISH_WORDLIST ! i) ixs))"
      "split_on (CHR '' '') (join_with '' '' (map (\<lambda>i. BIP39_ENGLISH_WORDLIST ! i) ixs)) =
        map (\<lambda>i. BIP39_ENGLISH_WORDLIST ! i) ixs"
    using made [OF assms(1)] by blast
  obtain ixs' where ixs': "length ixs' = 24"
      "\<forall>k < 24. extractBits (entropy' @ [sum entropy']) (k * 11) 11 = Ok (ixs' ! k) \<and> ixs' ! k < 2048"
      "generateMnemonic cr entropy' = Ok (join_with '' '' (map (\<lambda>i. BIP39_ENGLISH_WORDLIST ! i) ixs'))"
      "split_on (CHR '' '') (join_with '' '' (map (\<lambda>i. BIP39_ENGLISH_WORDLIST ! i) ixs')) =
        map (\<lambda>i. BIP39_ENGLISH_WORDLIST ! i) ixs'"
    using made [OF assms(2)] by blast
  have "entropy = entropy'" if "generateMnemonic cr entropy = generateMnemonic cr entropy'"
  proof -
    have words: "map (\<lambda>i. BIP39_ENGLISH_WORDLIST ! i) ixs = map (\<lambda>i. BIP39_ENGLISH_WORDLIST ! i) ixs'"
      using that ixs(3,4) ixs'(3,4) by (metis result.inject(1))
    have "ixs ! k = ixs' ! k" if "k < 24" for k
    proof -
      have "BIP39_ENGLISH_WORDLIST ! (ixs ! k) = BIP39_ENGLISH_WORDLIST ! (ixs' ! k)"
        using words that ixs(1) ixs'(1) by (metis nth_map)
      then show ?thesis
        using nth_eq_iff_index_eq [OF wordlist_distinct] ixs(2) ixs'(2) that by (simp add: wordlist_length)
    qed
    then have "entropy @ [sum entropy] = entropy' @ [sum entropy']"
      using ixs(2) ixs'(2) assms by (intro groups_determine) simp_all
    then show ?thesis by simp
  qed
  moreover have "set (map (\<lambda>i. BIP39_ENGLISH_WORDLIST ! i) ixs) \<subseteq> set BIP39_ENGLISH_WORDLIST"
    using ixs(1,2) by (auto simp: wordlist_length in_set_conv_nth intro!: nth_mem)
  ultimately show ?thesis using ixs by (auto simp del: set_map)
qed

definition sample_crypto :: crypto_engine where
  "sample_crypto =
     \<lparr>cr_sha256 = (\<lambda>bs. take 1 bs), cr_hmac512 = (\<lambda>k d. take 64 (k @ d @ replicate 64 1)),
      cr_pbkdf2 = (\<lambda>p s c n. replicate n 0), cr_keccak = (\<lambda>bs. replicate 32 2),
      cr_secpPublic = (\<lambda>k compressed. replicate (if compressed then 33 else 65) 3),
      cr_secpOrder = 115792089237316195423570985008687907852837564279074904382605163141518161494337,
      cr_edPublic = (\<lambda>k. k), cr_nfkd = (\<lambda>s. s)\<rparr>"

theorem mnemonic_exact_witness:
  "(case generateMnemonic sample_crypto (replicate 32 0) of
      Err _ \<Rightarrow> False
    | Ok mnemonic \<Rightarrow>
        length (split_on (CHR '' '') mnemonic) = 24 \<and>
        set (split_on (CHR '' '') mnemonic) \<subseteq> set BIP39_ENGLISH_WORDLIST) \<and>
   (generateMnemonic sample_crypto (replicate 32 0) = generateMnemonic sample_crypto (replicate 32 5)) =
     (replicate 32 (0 :: 8 word) = replicate 32 5)"
  by (rule mnemonic_exact) simp_all

subsection \<open>Paths\<close>

definition render_segment :: "path_segment \<Rightarrow> string" where
  "render_segment s = digits_of (ps_index s) @ (if ps_hardened s then [CHR 0x27] else [])"

lemma decimal_digits: "decimal_value (digits_of n) = n"
  by (rule decimal_value_digits)

lemma quote_not_digit: "\<not> is_digit (CHR 0x27)" "\<not> is_digit (CHR ''/'')" "\<not> is_digit (CHR ''-'')"
  by (simp_all add: is_digit_def)

lemma last_digits: "last (digits_of n) \<noteq> CHR 0x27"
proof -
  have "is_digit (last (digits_of n))"
    using digits_are_digits [of n] by (simp add: list_all_iff)
  then show ?thesis using quote_not_digit(1) by metis
qed

lemma parse_render_segment:
  "ps_index s \<le> MAX_DERIVATION_INDEX \<Longrightarrow> parse_segment (render_segment s) = Ok s"
  using digits_are_digits [of "ps_index s"] last_digits [of "ps_index s"]
  by (cases s) (simp add: parse_segment_def render_segment_def Let_def decimal_digits)

lemma render_plain: "CHR ''/'' \<notin> set (render_segment s)"
  using digit_not [OF digits_are_digits quote_not_digit(2)] by (auto simp: render_segment_def)

lemma parse_segments_render:
  "(\<forall>s \<in> set segs. ps_index s \<le> MAX_DERIVATION_INDEX) \<Longrightarrow>
    parse_segments (map render_segment segs) = Ok segs"
  by (induction segs) (simp_all add: parse_render_segment)

lemma parse_segments_bound:
  "parse_segments parts = Ok segs \<Longrightarrow> s \<in> set segs \<Longrightarrow> ps_index s \<le> MAX_DERIVATION_INDEX"
proof (induction parts arbitrary: segs)
  case (Cons p parts)
  then show ?case
    by (auto simp: parse_segment_def Let_def split: result.splits if_splits)
qed simp

lemma parsePath_render:
  assumes "\<forall>s \<in> set segs. ps_index s \<le> MAX_DERIVATION_INDEX"
  shows "parsePath (join_with ''/'' (''m'' # map render_segment segs)) = Ok segs"
proof (cases segs)
  case (Cons s rest)
  have "CHR ''/'' \<notin> set x" if "x \<in> set (''m'' # map render_segment segs)" for x
    using that render_plain by auto
  then have "split_on (CHR ''/'') (join_with ''/'' (''m'' # map render_segment segs)) = ''m'' # map render_segment segs"
    by (intro split_join) simp_all
  moreover have "join_with ''/'' (''m'' # map render_segment segs) \<noteq> ''m''" using Cons by simp
  ultimately show ?thesis using parse_segments_render [OF assms] by (simp add: parsePath_def)
qed (simp add: parsePath_def)

lemma parsePath_bound:
  assumes "parsePath p = Ok segs" "s \<in> set segs"
  shows "ps_index s \<le> MAX_DERIVATION_INDEX"
  using assms parse_segments_bound
  by (auto simp: parsePath_def split: if_splits list.splits)

text \<open>The path of an account, with an index that may be too large or negative.\<close>

lemma parsePath_minus: "parsePath (x @ ''/-'' @ y) = Ok segs \<Longrightarrow> False"
proof -
  assume ok: "parsePath (x @ ''/-'' @ y) = Ok segs"
  have "\<exists>parts q. split_on (CHR ''/'') (x @ CHR ''/'' # CHR ''-'' # y) = parts @ q \<and> q \<noteq> [] \<and>
      hd q \<noteq> [] \<and> hd (hd q) = CHR ''-'' \<and> parts \<noteq> []"
  proof (induction x)
    case Nil
    obtain p ps where "split_on (CHR ''/'') y = p # ps" by (cases "split_on (CHR ''/'') y") auto
    then show ?case by (intro exI [of _ "[[]]"] exI [of _ "(CHR ''-'' # p) # ps"]) simp
  next
    case (Cons c x)
    then obtain parts q where IH: "split_on (CHR ''/'') (x @ CHR ''/'' # CHR ''-'' # y) = parts @ q" "q \<noteq> []"
        "hd q \<noteq> []" "hd (hd q) = CHR ''-''" "parts \<noteq> []" by blast
    show ?case
    proof (cases "c = CHR ''/''")
      case True
      then show ?thesis using IH by (intro exI [of _ "[] # parts"] exI [of _ q]) simp
    next
      case False
      then show ?thesis using IH
        by (intro exI [of _ "(c # hd parts) # tl parts"] exI [of _ q]) (cases parts; simp)
    qed
  qed
  then obtain parts q where split: "split_on (CHR ''/'') (x @ CHR ''/'' # CHR ''-'' # y) = parts @ q" "q \<noteq> []"
      "hd q \<noteq> []" "hd (hd q) = CHR ''-''" "parts \<noteq> []" by blast
  have bad: "\<exists>e. parse_segment (hd q) = Err e"
  proof -
    have "CHR ''-'' \<in> set (hd q)" using split(3,4) by (metis list.set_sel(1))
    moreover have "hd (butlast (hd q)) = CHR ''-'' \<or> butlast (hd q) = []"
      using split(3,4) by (cases "hd q") auto
    ultimately show ?thesis
      using quote_not_digit(3) split(3)
      by (cases "butlast (hd q)") (auto simp: parse_segment_def Let_def list_all_iff)
  qed
  have "parse_segments (us @ q) \<noteq> Ok segs'" for us segs'
  proof (induction us arbitrary: segs')
    case Nil
    then show ?case using bad split(2) by (cases q) auto
  next
    case (Cons u us)
    then show ?case by (auto split: result.splits)
  qed
  then show False using ok split
    by (cases parts) (auto simp: parsePath_def split: if_splits)
qed

lemma fixed_digits: "digits_of 44 = ''44''" "digits_of 60 = ''60''" "digits_of 0 = ''0''"
  by code_simp+

definition evm_segments :: "nat \<Rightarrow> path_segment list" where
  "evm_segments n =
     [\<lparr>ps_index = 44, ps_hardened = True\<rparr>, \<lparr>ps_index = 60, ps_hardened = True\<rparr>,
      \<lparr>ps_index = 0, ps_hardened = True\<rparr>, \<lparr>ps_index = 0, ps_hardened = False\<rparr>,
      \<lparr>ps_index = n, ps_hardened = False\<rparr>]"

lemma evm_path_text:
  "EVM_PATH_PREFIX @ ''/'' @ digits_of n = join_with ''/'' (''m'' # map render_segment (evm_segments n))"
  by (simp add: EVM_PATH_PREFIX_def evm_segments_def render_segment_def fixed_digits)

lemma parse_segment_large: "MAX_DERIVATION_INDEX < n \<Longrightarrow> \<exists>e. parse_segment (digits_of n) = Err e"
  using digits_are_digits [of n] last_digits [of n]
  by (simp add: parse_segment_def Let_def decimal_digits)

lemma parse_segments_last_Err: "parse_segment p = Err e \<Longrightarrow> parse_segments (ps @ [p]) \<noteq> Ok segs"
  by (induction ps arbitrary: segs) (auto split: result.splits)

lemma evm_path_large:
  assumes "MAX_DERIVATION_INDEX < n"
  shows "parsePath (EVM_PATH_PREFIX @ ''/'' @ digits_of n) \<noteq> Ok segs"
proof -
  let ?segs = "evm_segments n"
  have "CHR ''/'' \<notin> set x" if "x \<in> set (''m'' # map render_segment ?segs)" for x
    using that render_plain by auto
  then have split: "split_on (CHR ''/'') (EVM_PATH_PREFIX @ ''/'' @ digits_of n) = ''m'' # map render_segment ?segs"
    unfolding evm_path_text by (intro split_join) simp_all
  moreover have "map render_segment ?segs = map render_segment (butlast ?segs) @ [digits_of n]"
    by (simp add: evm_segments_def render_segment_def)
  moreover obtain e where "parse_segment (digits_of n) = Err e" using parse_segment_large [OF assms] by blast
  ultimately show ?thesis
    using parse_segments_last_Err by (auto simp: parsePath_def EVM_PATH_PREFIX_def)
qed

lemma evm_path_ok:
  "n \<le> MAX_DERIVATION_INDEX \<Longrightarrow> parsePath (EVM_PATH_PREFIX @ ''/'' @ digits_of n) = Ok (evm_segments n)"
  unfolding evm_path_text
  by (rule parsePath_render) (simp add: evm_segments_def MAX_DERIVATION_INDEX_def)

subsection \<open>Numbers\<close>

lemma push_or_add: "b < 256 \<Longrightarrow> push_bit 8 a OR b = a * 256 + (b :: nat)"
proof -
  assume "b < 256"
  then have "take_bit 8 b = b" by (simp add: take_bit_nat_eq_self_iff)
  then have small: "bit b j \<Longrightarrow> j < 8" for j by (metis bit_take_bit_iff)
  then have "push_bit 8 a OR b = push_bit 8 a + b"
    by (intro disjunctive_add [symmetric]) (auto simp: bit_push_bit_iff dest: small)
  then show ?thesis by (simp add: push_bit_eq_mult)
qed

lemma bytesToBigInt_snoc: "bytesToBigInt (bs @ [b]) = bytesToBigInt bs * 256 + unat b"
  using unsigned_less [where ?'a = nat, of b] by (simp add: bytesToBigInt_def push_or_add)

lemma bytesToBigInt_append:
  "bytesToBigInt (as @ bs) = bytesToBigInt as * 256 ^ length bs + bytesToBigInt bs"
proof (induction bs rule: rev_induct)
  case (snoc b bs)
  have "bytesToBigInt (as @ bs @ [b]) = bytesToBigInt (as @ bs) * 256 + unat b"
    using bytesToBigInt_snoc [of "as @ bs" b] by simp
  then show ?case using snoc by (simp add: bytesToBigInt_snoc algebra_simps)
qed (simp add: bytesToBigInt_def)

lemma bigint_loop_value:
  "length (bigint_loop v n acc) = n + length acc \<and>
   bytesToBigInt (bigint_loop v n acc) = (v mod 256 ^ n) * 256 ^ length acc + bytesToBigInt acc"
proof (induction n arbitrary: v acc)
  case (Suc n)
  have low: "unat (of_nat (v AND 0xff) :: 8 word) = v mod 256"
  proof -
    have "v AND 0xff = v mod 256" using take_bit_eq_mask [of 8 v] by (simp add: mask_eq_exp_minus_1 take_bit_eq_mod)
    then show ?thesis by (simp add: unat_of_nat)
  qed
  have "v mod 256 ^ Suc n = v mod 256 + 256 * (v div 256 mod 256 ^ n)"
    by (simp add: mod_mult2_eq)
  moreover have "bytesToBigInt (of_nat (v AND 0xff) # acc) = v mod 256 * 256 ^ length acc + bytesToBigInt acc"
    using bytesToBigInt_append [of "[of_nat (v AND 0xff)]" acc] low by (simp add: bytesToBigInt_def)
  ultimately show ?case
    using Suc [of "drop_bit 8 v" "of_nat (v AND 0xff) # acc"] by (simp add: drop_bit_eq_div algebra_simps)
qed simp

lemma bigIntToBytes_value:
  "length (bigIntToBytes v n) = n \<and> bytesToBigInt (bigIntToBytes v n) = v mod 256 ^ n"
  using bigint_loop_value [of v n "[]"] by (simp add: bigIntToBytes_def bytesToBigInt_def)

subsection \<open>Properties\<close>

text \<open>A path written from segments with indices below 2^31 is parsed back to the same segments,
  and every path that is accepted has only such indices. The EVM key of an index is derived exactly
  when the index is one of them, and then along its account path.\<close>

theorem derivation_paths_exact:
  "(list_all (\<lambda>s. ps_index s < 2 ^ 31) segs =
      (parsePath (join_with ''/'' (''m'' # map render_segment segs)) = Ok segs)) \<and>
   (case parsePath path of Ok ss \<Rightarrow> list_all (\<lambda>s. ps_index s < 2 ^ 31) ss | Err _ \<Rightarrow> True) \<and>
   isOk (deriveEvmKey cr seed index) = (0 \<le> index \<and> index < 2 ^ 31) \<and>
   (if 0 \<le> index \<and> index < 2 ^ 31
    then parsePath (EVM_PATH_PREFIX @ ''/'' @ int_text index) =
      Ok [\<lparr>ps_index = 44, ps_hardened = True\<rparr>, \<lparr>ps_index = 60, ps_hardened = True\<rparr>,
          \<lparr>ps_index = 0, ps_hardened = True\<rparr>, \<lparr>ps_index = 0, ps_hardened = False\<rparr>,
          \<lparr>ps_index = nat index, ps_hardened = False\<rparr>]
    else True)"
proof -
  have max: "k < 2 ^ 31 \<longleftrightarrow> k \<le> MAX_DERIVATION_INDEX" for k :: nat
    by (auto simp: MAX_DERIVATION_INDEX_def)
  have one: "list_all (\<lambda>s. ps_index s < 2 ^ 31) segs =
      (parsePath (join_with ''/'' (''m'' # map render_segment segs)) = Ok segs)"
    unfolding max list_all_iff using parsePath_render parsePath_bound by blast
  have two: "case parsePath path of Ok ss \<Rightarrow> list_all (\<lambda>s. ps_index s < 2 ^ 31) ss | Err _ \<Rightarrow> True"
    unfolding max list_all_iff using parsePath_bound by (auto split: result.split)
  have ok: "parsePath (EVM_PATH_PREFIX @ ''/'' @ int_text index) = Ok (evm_segments (nat index))"
    if "0 \<le> index" "index < 2 ^ 31"
  proof -
    have "nat index < 2 ^ 31" using that by (simp add: nat_less_iff)
    then show ?thesis using evm_path_ok max that(1) by (simp add: int_text_def)
  qed
  have bad: "\<not> isOk (parsePath (EVM_PATH_PREFIX @ ''/'' @ int_text index))" if "\<not> (0 \<le> index \<and> index < 2 ^ 31)"
  proof (cases "index < 0")
    case True
    then have "EVM_PATH_PREFIX @ ''/'' @ int_text index = EVM_PATH_PREFIX @ ''/-'' @ digits_of (nat (- index))"
      by (simp add: int_text_def)
    then show ?thesis using parsePath_minus by (metis isOk_iff)
  next
    case False
    then have "MAX_DERIVATION_INDEX < nat index" using that by (simp add: MAX_DERIVATION_INDEX_def)
    then show ?thesis using evm_path_large False by (auto simp: int_text_def isOk_iff)
  qed
  have "isOk (deriveEvmKey cr seed index) = isOk (parsePath (EVM_PATH_PREFIX @ ''/'' @ int_text index))"
    by (simp add: deriveEvmKey_def derivePath_def Let_def split: result.split prod.split)
  then show ?thesis using one two ok bad by (auto simp: evm_segments_def)
qed

text \<open>A child's private key is 32 bytes that stand for the sum of the parent's key and the
  derived number modulo the order of the group.\<close>

theorem child_key_exact:
  assumes "0 < cr_secpOrder cr" "cr_secpOrder cr \<le> 2 ^ 256"
  shows "(let key = fst (deriveChild cr parent code segment);
              keyPart = (if ps_hardened segment then 0 # parent else cr_secpPublic cr parent True);
              index = (if ps_hardened segment then (ps_index segment + 0x80000000) mod 2 ^ 32 else ps_index segment);
              derived = cr_hmac512 cr code (keyPart @ index_bytes index)
          in length key = 32 \<and>
             bytesToBigInt key = (bytesToBigInt parent + bytesToBigInt (take 32 derived)) mod cr_secpOrder cr)"
proof -
  have "v mod cr_secpOrder cr mod 256 ^ 32 = v mod cr_secpOrder cr" for v
  proof -
    have "v mod cr_secpOrder cr < cr_secpOrder cr" using assms(1) by simp
    also have "\<dots> \<le> 256 ^ 32" using assms(2) by simp
    finally show ?thesis by simp
  qed
  then show ?thesis
    using bigIntToBytes_value by (simp add: deriveChild_def Let_def HARDENED_OFFSET_def)
qed

theorem child_key_exact_witness:
  "let key = fst (deriveChild sample_crypto (replicate 32 1) (replicate 32 2) \<lparr>ps_index = 5, ps_hardened = True\<rparr>);
       derived = cr_hmac512 sample_crypto (replicate 32 2) (0 # replicate 32 1 @ index_bytes ((5 + 0x80000000) mod 2 ^ 32))
   in length key = 32 \<and>
      bytesToBigInt key = (bytesToBigInt (replicate 32 1) + bytesToBigInt (take 32 derived)) mod cr_secpOrder sample_crypto"
proof -
  have "0 < cr_secpOrder sample_crypto" "cr_secpOrder sample_crypto \<le> 2 ^ 256"
    by (simp_all add: sample_crypto_def)
  from child_key_exact [OF this, of "replicate 32 1" "replicate 32 2" "\<lparr>ps_index = 5, ps_hardened = True\<rparr>"]
  show ?thesis by (simp add: Let_def)
qed

end
