(* ===== verification/KeyBackend.thy ===== *)
theory KeyBackend
  imports Vault Derivation
begin

text \<open>
  The internal key backend (\<^verbatim>\<open>packages/keys/src/key-manager.ts\<close>, \<^verbatim>\<open>key-backend.ts\<close>): wallets
  whose mnemonics the vault keeps, accounts derived from them, signatures and API keys. The vault
  is any record of vault operations; the vault in memory and the vault in files are two of them.
  Random identifiers, entropy and tokens, the clock and the curves' signing functions are
  arguments. A call whose promise rejects returns \<open>None\<close>.
\<close>

subsection \<open>The interface of a vault\<close>

record 's vault_ops =
  vo_createWallet :: "'s \<Rightarrow> string \<Rightarrow> string \<Rightarrow> string \<Rightarrow> string \<Rightarrow> (unit, signet_error) result option \<times> 's"
  vo_readWallet :: "'s \<Rightarrow> string \<Rightarrow> string \<Rightarrow> (string, signet_error) result"
  vo_deleteWallet :: "'s \<Rightarrow> string \<Rightarrow> (unit, signet_error) result \<times> 's"
  vo_listWallets :: "'s \<Rightarrow> (wallet_file_info list, signet_error) result"
  vo_getWalletAccounts :: "'s \<Rightarrow> string \<Rightarrow> (account_entry list, signet_error) result"
  vo_updateWalletAccounts :: "'s \<Rightarrow> string \<Rightarrow> account_entry list \<Rightarrow> (unit, signet_error) result \<times> 's"
  vo_createApiKey :: "'s \<Rightarrow> string \<Rightarrow> string \<Rightarrow> string \<Rightarrow> string \<Rightarrow> string \<Rightarrow> (unit, signet_error) result \<times> 's"
  vo_readApiKey :: "'s \<Rightarrow> string \<Rightarrow> (api_key_payload, signet_error) result"
  vo_revokeApiKey :: "'s \<Rightarrow> string \<Rightarrow> (unit, signet_error) result \<times> 's"

definition memory_vault_ops :: "vault_engine \<Rightarrow> int \<Rightarrow> bytes \<Rightarrow> bytes \<Rightarrow> memory_vault vault_ops" where
  "memory_vault_ops ve now salt iv =
     \<lparr>vo_createWallet = mv_createWallet ve now salt iv, vo_readWallet = mv_readWallet ve,
      vo_deleteWallet = mv_deleteWallet, vo_listWallets = mv_listWallets,
      vo_getWalletAccounts = mv_getWalletAccounts, vo_updateWalletAccounts = mv_updateWalletAccounts,
      vo_createApiKey = mv_createApiKey ve now salt iv, vo_readApiKey = mv_readApiKey ve,
      vo_revokeApiKey = mv_revokeApiKey\<rparr>"

text \<open>The disk may fail differently at each access.\<close>

record disk_faults =
  df_createWallet :: "string option"
  df_readWallet :: "string option"
  df_listWallets :: "string option"
  df_getAccounts :: "string option"
  df_updateAccounts :: "string option"
  df_createApiKey :: "string option"
  df_readApiKey :: "string option"
  df_badKdf :: string
  df_badJson :: string

definition file_vault_ops :: "vault_engine \<Rightarrow> int \<Rightarrow> bytes \<Rightarrow> bytes \<Rightarrow> disk_faults \<Rightarrow> vault_files vault_ops" where
  "file_vault_ops ve now salt iv df =
     \<lparr>vo_createWallet = (\<lambda>fs i label mnemonic passphrase.
        case fv_createWallet ve now salt iv (df_createWallet df) (df_badKdf df) fs i label mnemonic passphrase of
          (r, fs') \<Rightarrow> (Some r, fs')),
      vo_readWallet = fv_readWallet ve (df_readWallet df) (df_badJson df),
      vo_deleteWallet = fv_deleteWallet,
      vo_listWallets = fv_listWallets (df_listWallets df) (df_badJson df),
      vo_getWalletAccounts = fv_getWalletAccounts (df_getAccounts df) (df_badJson df),
      vo_updateWalletAccounts = fv_updateWalletAccounts (df_updateAccounts df) (df_badJson df),
      vo_createApiKey = fv_createApiKey ve now salt iv (df_createApiKey df),
      vo_readApiKey = fv_readApiKey ve (df_readApiKey df) (df_badJson df),
      vo_revokeApiKey = fv_revokeApiKey\<rparr>"

subsection \<open>Types of the backend\<close>

record wallet_summary =
  wsum_id :: string
  wsum_label :: string
  wsum_provider :: string
  wsum_accountCount :: nat
  wsum_createdAt :: string

record account_info =
  ai_index :: int
  ai_address :: string
  ai_chain :: key_chain
  ai_publicKey :: string

datatype signing_algorithm = Alg_secp256k1 | Alg_ed25519

record signing_result =
  sr_signature :: bytes
  sr_publicKey :: bytes
  sr_algorithm :: signing_algorithm

record api_key_info =
  aki_id :: string
  aki_walletId :: string
  aki_token :: string
  aki_expiresAt :: string

record key_engine =
  ke_crypto :: crypto_engine
  ke_secpSign :: "bytes \<Rightarrow> bytes \<Rightarrow> bytes"
  ke_edSign :: "bytes \<Rightarrow> bytes \<Rightarrow> bytes"
  ke_isoText :: "int \<Rightarrow> string"

record wallet_state =
  kw_id :: string
  kw_label :: string
  kw_createdAt :: string
  kw_nextIndex :: int
  kw_accounts :: "account_entry list"

record 's key_backend =
  kb_vault :: 's
  kb_walletStates :: "(string, wallet_state) js_map"

definition generateToken :: "bytes \<Rightarrow> string" where
  "generateToken random = bytesToHex random"

definition signWithSeed ::
  "key_engine \<Rightarrow> bytes \<Rightarrow> int \<Rightarrow> key_chain \<Rightarrow> bytes \<Rightarrow> signing_result option" where
  "signWithSeed ke seed accountIndex chain data =
     (case chain of
        Chain_evm \<Rightarrow>
          (case deriveEvmKey (ke_crypto ke) seed accountIndex of
             Err _ \<Rightarrow> None
           | Ok derived \<Rightarrow>
               let hash = cr_sha256 (ke_crypto ke) data
               in Some \<lparr>sr_signature = ke_secpSign ke hash (de_privateKey derived),
                        sr_publicKey = cr_secpPublic (ke_crypto ke) (de_privateKey derived) False,
                        sr_algorithm = Alg_secp256k1\<rparr>)
      | Chain_ed25519 \<Rightarrow>
          (case deriveEd25519Key (ke_crypto ke) seed accountIndex of
             Err _ \<Rightarrow> None
           | Ok derived \<Rightarrow>
               Some \<lparr>sr_signature = ke_edSign ke data (ded_privateKey derived),
                     sr_publicKey = cr_edPublic (ke_crypto ke) (ded_privateKey derived),
                     sr_algorithm = Alg_ed25519\<rparr>))"

subsection \<open>Wallet states\<close>

definition getSeed :: "'s vault_ops \<Rightarrow> key_engine \<Rightarrow> string \<Rightarrow> 's \<Rightarrow> string \<Rightarrow> (string \<times> bytes, signet_error) result" where
  "getSeed ops ke passphrase v walletId =
     (case vo_readWallet ops v walletId passphrase of
        Err e \<Rightarrow> Err e
      | Ok mnemonic \<Rightarrow> Ok (mnemonic, mnemonicToSeed (ke_crypto ke) mnemonic None))"

definition ensureWalletState ::
  "'s vault_ops \<Rightarrow> key_engine \<Rightarrow> string \<Rightarrow> 's key_backend \<Rightarrow> string \<Rightarrow>
   (wallet_state \<times> bytes, signet_error) result \<times> 's key_backend" where
  "ensureWalletState ops ke passphrase kb walletId =
     (case getSeed ops ke passphrase (kb_vault kb) walletId of
        Err e \<Rightarrow> (Err e, kb)
      | Ok (_, seed) \<Rightarrow>
          (case map_get (kb_walletStates kb) walletId of
             Some existing \<Rightarrow> (Ok (existing, seed), kb)
           | None \<Rightarrow>
               (case vo_listWallets ops (kb_vault kb) of
                  Err e \<Rightarrow> (Err e, kb)
                | Ok wallets \<Rightarrow>
                    (case List.find (\<lambda>entry. wi_id entry = walletId) wallets of
                       None \<Rightarrow> (Err (NotFoundError_create ''Wallet'' walletId), kb)
                     | Some wallet \<Rightarrow>
                         (case vo_getWalletAccounts ops (kb_vault kb) walletId of
                            Err e \<Rightarrow> (Err e, kb)
                          | Ok accounts \<Rightarrow>
                              let nextIndex = foldl (\<lambda>maxIndex entry. max maxIndex (ac_index entry)) (-1) accounts + 1;
                                  state = \<lparr>kw_id = wi_id wallet, kw_label = wi_label wallet,
                                           kw_createdAt = wi_createdAt wallet, kw_nextIndex = nextIndex,
                                           kw_accounts = accounts\<rparr>
                              in (Ok (state, seed),
                                  kb\<lparr>kb_walletStates := map_set (kb_walletStates kb) walletId state\<rparr>))))))"

definition chainAt :: "'s key_backend \<Rightarrow> string \<Rightarrow> int \<Rightarrow> key_chain option" where
  "chainAt kb walletId index =
     Option.bind (map_get (kb_walletStates kb) walletId)
       (\<lambda>st. map_option ac_chain (List.find (\<lambda>a. ac_index a = index) (kw_accounts st)))"

definition resolveAndSign ::
  "key_engine \<Rightarrow> 's key_backend \<Rightarrow> string \<Rightarrow> bytes \<Rightarrow> int \<Rightarrow> bytes \<Rightarrow> (signing_result, signet_error) result option" where
  "resolveAndSign ke kb walletId seed accountIndex data =
     (case chainAt kb walletId accountIndex of
        None \<Rightarrow> Some (Err (NotFoundError_create ''Account'' (walletId @ ''/'' @ int_text accountIndex)))
      | Some chain \<Rightarrow> map_option Ok (signWithSeed ke seed accountIndex chain data))"

subsection \<open>Wallet operations\<close>

definition kb_createWallet ::
  "'s vault_ops \<Rightarrow> key_engine \<Rightarrow> string \<Rightarrow> int \<Rightarrow> string \<Rightarrow> bytes \<Rightarrow> 's key_backend \<Rightarrow> string \<Rightarrow>
   (wallet_summary, signet_error) result option \<times> 's key_backend" where
  "kb_createWallet ops ke passphrase now i entropy kb label =
     (case generateMnemonic (ke_crypto ke) entropy of
        Err _ \<Rightarrow> (None, kb)
      | Ok mnemonic \<Rightarrow>
          (case vo_createWallet ops (kb_vault kb) i label mnemonic passphrase of
             (None, v) \<Rightarrow> (None, kb\<lparr>kb_vault := v\<rparr>)
           | (Some (Err e), v) \<Rightarrow> (Some (Err e), kb\<lparr>kb_vault := v\<rparr>)
           | (Some (Ok _), v) \<Rightarrow>
               (Some (Ok \<lparr>wsum_id = i, wsum_label = label, wsum_provider = ''internal'',
                          wsum_accountCount = 0, wsum_createdAt = ke_isoText ke now\<rparr>),
                kb\<lparr>kb_vault := v,
                   kb_walletStates := map_set (kb_walletStates kb) i
                     \<lparr>kw_id = i, kw_label = label, kw_createdAt = ke_isoText ke now, kw_nextIndex = 0,
                      kw_accounts = []\<rparr>\<rparr>)))"

definition kb_deleteWallet ::
  "'s vault_ops \<Rightarrow> 's key_backend \<Rightarrow> string \<Rightarrow> (unit, signet_error) result \<times> 's key_backend" where
  "kb_deleteWallet ops kb walletId =
     (case vo_deleteWallet ops (kb_vault kb) walletId of
        (Ok u, v) \<Rightarrow> (Ok u, kb\<lparr>kb_vault := v, kb_walletStates := map_delete (kb_walletStates kb) walletId\<rparr>)
      | (Err e, v) \<Rightarrow> (Err e, kb\<lparr>kb_vault := v\<rparr>))"

definition wallet_summary_of :: "wallet_file_info \<Rightarrow> wallet_summary" where
  "wallet_summary_of w =
     \<lparr>wsum_id = wi_id w, wsum_label = wi_label w, wsum_provider = ''internal'',
      wsum_accountCount = wi_accountCount w, wsum_createdAt = wi_createdAt w\<rparr>"

definition kb_listWallets :: "'s vault_ops \<Rightarrow> 's key_backend \<Rightarrow> (wallet_summary list, signet_error) result" where
  "kb_listWallets ops kb =
     (case vo_listWallets ops (kb_vault kb) of
        Err e \<Rightarrow> Err e
      | Ok ws \<Rightarrow> Ok (map wallet_summary_of ws))"

definition kb_getWallet :: "'s vault_ops \<Rightarrow> 's key_backend \<Rightarrow> string \<Rightarrow> (wallet_summary, signet_error) result" where
  "kb_getWallet ops kb walletId =
     (case vo_listWallets ops (kb_vault kb) of
        Err e \<Rightarrow> Err e
      | Ok ws \<Rightarrow>
          (case List.find (\<lambda>w. wi_id w = walletId) ws of
             None \<Rightarrow> Err (NotFoundError_create ''Wallet'' walletId)
           | Some found \<Rightarrow> Ok (wallet_summary_of found)))"

subsection \<open>Accounts\<close>

definition derived_public :: "key_engine \<Rightarrow> bytes \<Rightarrow> int \<Rightarrow> key_chain \<Rightarrow> (string \<times> string) option" where
  "derived_public ke seed index chain =
     (case chain of
        Chain_evm \<Rightarrow>
          (case deriveEvmKey (ke_crypto ke) seed index of
             Err _ \<Rightarrow> None
           | Ok d \<Rightarrow> Some (de_address d, bytesToHex (de_publicKey d)))
      | Chain_ed25519 \<Rightarrow>
          (case deriveEd25519Key (ke_crypto ke) seed index of
             Err _ \<Rightarrow> None
           | Ok d \<Rightarrow> Some (bytesToHex (ded_publicKey d), bytesToHex (ded_publicKey d))))"

text \<open>
  A derivation up to its write to the vault, and what it does when the write has succeeded. The
  wallet's state is one object that all derivations share; the second step finds it where the
  first one found or put it, unless the wallet was deleted meanwhile.
\<close>

record derivation_pending =
  dp_walletId :: string
  dp_entry :: account_entry
  dp_accounts :: "account_entry list"
  dp_publicKey :: string

definition deriveAccount_prepare ::
  "'s vault_ops \<Rightarrow> key_engine \<Rightarrow> string \<Rightarrow> 's key_backend \<Rightarrow> string \<Rightarrow> key_chain \<Rightarrow>
   (derivation_pending, signet_error) result option \<times> 's key_backend" where
  "deriveAccount_prepare ops ke passphrase kb walletId chain =
     (case ensureWalletState ops ke passphrase kb walletId of
        (Err e, kb') \<Rightarrow> (Some (Err e), kb')
      | (Ok (state, seed), kb') \<Rightarrow>
          let index = kw_nextIndex state
          in (case derived_public ke seed index chain of
                None \<Rightarrow> (None, kb')
              | Some (address, publicKeyHex) \<Rightarrow>
                  let entry = \<lparr>ac_index = index, ac_chain = chain, ac_address = address\<rparr>
                  in (Some (Ok \<lparr>dp_walletId = walletId, dp_entry = entry,
                                dp_accounts = kw_accounts state @ [entry], dp_publicKey = publicKeyHex\<rparr>), kb')))"

definition deriveAccount_write ::
  "'s vault_ops \<Rightarrow> 's key_backend \<Rightarrow> derivation_pending \<Rightarrow> (unit, signet_error) result \<times> 's key_backend" where
  "deriveAccount_write ops kb p =
     (case vo_updateWalletAccounts ops (kb_vault kb) (dp_walletId p) (dp_accounts p) of
        (r, v) \<Rightarrow> (r, kb\<lparr>kb_vault := v\<rparr>))"

definition deriveAccount_commit :: "'s key_backend \<Rightarrow> derivation_pending \<Rightarrow> account_info \<times> 's key_backend" where
  "deriveAccount_commit kb p =
     (\<lparr>ai_index = ac_index (dp_entry p), ai_address = ac_address (dp_entry p),
       ai_chain = ac_chain (dp_entry p), ai_publicKey = dp_publicKey p\<rparr>,
      case map_get (kb_walletStates kb) (dp_walletId p) of
        None \<Rightarrow> kb
      | Some state \<Rightarrow>
          kb\<lparr>kb_walletStates := map_set (kb_walletStates kb) (dp_walletId p)
               (state\<lparr>kw_nextIndex := ac_index (dp_entry p) + 1, kw_accounts := dp_accounts p\<rparr>)\<rparr>)"

definition deriveAccount ::
  "'s vault_ops \<Rightarrow> key_engine \<Rightarrow> string \<Rightarrow> 's key_backend \<Rightarrow> string \<Rightarrow> key_chain \<Rightarrow>
   (account_info, signet_error) result option \<times> 's key_backend" where
  "deriveAccount ops ke passphrase kb walletId chain =
     (case deriveAccount_prepare ops ke passphrase kb walletId chain of
        (None, kb') \<Rightarrow> (None, kb')
      | (Some (Err e), kb') \<Rightarrow> (Some (Err e), kb')
      | (Some (Ok p), kb') \<Rightarrow>
          (case deriveAccount_write ops kb' p of
             (Err e, kb'') \<Rightarrow> (Some (Err e), kb'')
           | (Ok _, kb'') \<Rightarrow> (case deriveAccount_commit kb'' p of (info, kb3) \<Rightarrow> (Some (Ok info), kb3))))"

definition account_info_of :: "key_engine \<Rightarrow> bytes \<Rightarrow> account_entry \<Rightarrow> account_info option" where
  "account_info_of ke seed e =
     map_option (\<lambda>(_, publicKeyHex). \<lparr>ai_index = ac_index e, ai_address = ac_address e, ai_chain = ac_chain e,
                                        ai_publicKey = publicKeyHex\<rparr>)
       (derived_public ke seed (ac_index e) (ac_chain e))"

definition kb_listAccounts ::
  "'s vault_ops \<Rightarrow> key_engine \<Rightarrow> string \<Rightarrow> 's key_backend \<Rightarrow> string \<Rightarrow>
   (account_info list, signet_error) result option \<times> 's key_backend" where
  "kb_listAccounts ops ke passphrase kb walletId =
     (case ensureWalletState ops ke passphrase kb walletId of
        (Err e, kb') \<Rightarrow> (Some (Err e), kb')
      | (Ok (state, seed), kb') \<Rightarrow>
          (map_option Ok (all_some (map (account_info_of ke seed) (kw_accounts state))), kb'))"

definition getXmtpIdentityKey ::
  "'s vault_ops \<Rightarrow> key_engine \<Rightarrow> string \<Rightarrow> 's key_backend \<Rightarrow> string \<Rightarrow> int \<Rightarrow>
   (string, signet_error) result option \<times> 's key_backend" where
  "getXmtpIdentityKey ops ke passphrase kb walletId accountIndex =
     (case ensureWalletState ops ke passphrase kb walletId of
        (Err e, kb') \<Rightarrow> (Some (Err e), kb')
      | (Ok (state, seed), kb') \<Rightarrow>
          (case List.find (\<lambda>entry. ac_index entry = accountIndex \<and> ac_chain entry = Chain_evm) (kw_accounts state) of
             None \<Rightarrow> (Some (Err (NotFoundError_create ''EvmAccount'' (walletId @ ''/'' @ int_text accountIndex))), kb')
           | Some _ \<Rightarrow>
               (case deriveEvmKey (ke_crypto ke) seed accountIndex of
                  Err _ \<Rightarrow> (None, kb')
                | Ok derived \<Rightarrow> (Some (Ok (''0x'' @ bytesToHex (de_privateKey derived))), kb'))))"

subsection \<open>Signing and API keys\<close>

definition kb_sign ::
  "'s vault_ops \<Rightarrow> key_engine \<Rightarrow> string \<Rightarrow> 's key_backend \<Rightarrow> string \<Rightarrow> int \<Rightarrow> bytes \<Rightarrow>
   (signing_result, signet_error) result option" where
  "kb_sign ops ke passphrase kb walletId accountIndex data =
     (case getSeed ops ke passphrase (kb_vault kb) walletId of
        Err e \<Rightarrow> Some (Err e)
      | Ok (_, seed) \<Rightarrow> resolveAndSign ke kb walletId seed accountIndex data)"

definition kb_createApiKey ::
  "'s vault_ops \<Rightarrow> string \<Rightarrow> bytes \<Rightarrow> 's key_backend \<Rightarrow> string \<Rightarrow> string \<Rightarrow> string \<Rightarrow>
   (api_key_info, signet_error) result \<times> 's key_backend" where
  "kb_createApiKey ops passphrase random kb walletId credentialId expiresAt =
     (case vo_readWallet ops (kb_vault kb) walletId passphrase of
        Err e \<Rightarrow> (Err e, kb)
      | Ok mnemonic \<Rightarrow>
          let token = generateToken random
          in (case vo_createApiKey ops (kb_vault kb) credentialId walletId mnemonic token expiresAt of
                (Err e, v) \<Rightarrow> (Err e, kb\<lparr>kb_vault := v\<rparr>)
              | (Ok _, v) \<Rightarrow>
                  (Ok \<lparr>aki_id = credentialId, aki_walletId = walletId, aki_token = token, aki_expiresAt = expiresAt\<rparr>,
                   kb\<lparr>kb_vault := v\<rparr>)))"

definition kb_revokeApiKey ::
  "'s vault_ops \<Rightarrow> 's key_backend \<Rightarrow> string \<Rightarrow> (unit, signet_error) result \<times> 's key_backend" where
  "kb_revokeApiKey ops kb keyId =
     (case vo_revokeApiKey ops (kb_vault kb) keyId of (r, v) \<Rightarrow> (r, kb\<lparr>kb_vault := v\<rparr>))"

definition signWithApiKey ::
  "'s vault_ops \<Rightarrow> key_engine \<Rightarrow> 's key_backend \<Rightarrow> string \<Rightarrow> int \<Rightarrow> bytes \<Rightarrow>
   (signing_result, signet_error) result option" where
  "signWithApiKey ops ke kb token accountIndex data =
     (case vo_readApiKey ops (kb_vault kb) token of
        Err e \<Rightarrow> Some (Err e)
      | Ok payload \<Rightarrow>
          let seed = mnemonicToSeed (ke_crypto ke) (akp_mnemonic payload) None
          in resolveAndSign ke kb (akp_walletId payload) seed accountIndex data)"

subsection \<open>The contract with the vault\<close>

text \<open>
  What the backend relies on: reading the accounts of a wallet gives what is stored, an update
  stores the new list, a new wallet has none, a failed call changes nothing, and no call touches
  another wallet.
\<close>

locale wallet_vault =
  fixes ops :: "'s vault_ops" and stored :: "'s \<Rightarrow> string \<Rightarrow> account_entry list option"
  assumes get_stored: "vo_getWalletAccounts ops v i = Ok xs \<Longrightarrow> stored v i = Some xs"
    and update_other: "j \<noteq> i \<Longrightarrow> stored (snd (vo_updateWalletAccounts ops v i xs)) j = stored v j"
    and update_same: "stored (snd (vo_updateWalletAccounts ops v i xs)) i =
      (case fst (vo_updateWalletAccounts ops v i xs) of Ok _ \<Rightarrow> Some xs | Err _ \<Rightarrow> stored v i)"
    and create_other: "j \<noteq> i \<Longrightarrow> stored (snd (vo_createWallet ops v i label m p)) j = stored v j"
    and create_same: "stored (snd (vo_createWallet ops v i label m p)) i =
      (case fst (vo_createWallet ops v i label m p) of Some (Ok _) \<Rightarrow> Some [] | _ \<Rightarrow> stored v i)"
    and delete_other: "j \<noteq> i \<Longrightarrow> stored (snd (vo_deleteWallet ops v i)) j = stored v j"
    and delete_same: "stored (snd (vo_deleteWallet ops v i)) i =
      (case fst (vo_deleteWallet ops v i) of Ok _ \<Rightarrow> None | Err _ \<Rightarrow> stored v i)"
    and api_create: "stored (snd (vo_createApiKey ops v k w m tok ex)) = stored v"
    and api_revoke: "stored (snd (vo_revokeApiKey ops v k)) = stored v"

definition accounts_ok :: "account_entry list \<Rightarrow> bool" where
  "accounts_ok xs \<longleftrightarrow> map ac_index xs = map int [0..<length xs]"

definition next_index :: "account_entry list \<Rightarrow> int" where
  "next_index xs = foldl (\<lambda>maxIndex entry. max maxIndex (ac_index entry)) (-1) xs + 1"

definition backend_inv :: "('s \<Rightarrow> string \<Rightarrow> account_entry list option) \<Rightarrow> 's key_backend \<Rightarrow> bool" where
  "backend_inv stored kb \<longleftrightarrow>
     (\<forall>i xs. stored (kb_vault kb) i = Some xs \<longrightarrow> accounts_ok xs) \<and>
     (\<forall>i st. map_get (kb_walletStates kb) i = Some st \<longrightarrow>
        stored (kb_vault kb) i = Some (kw_accounts st) \<and> kw_nextIndex st = next_index (kw_accounts st))"

lemma next_index_bounds: "- 1 \<le> b \<Longrightarrow> b \<le> foldl (\<lambda>m e. max m (ac_index e)) b xs \<and>
    (\<forall>a \<in> set xs. ac_index a \<le> foldl (\<lambda>m e. max m (ac_index e)) b xs)"
proof (induction xs arbitrary: b)
  case (Cons x xs)
  then show ?case using Cons.IH [of "max b (ac_index x)"] by auto
qed simp

lemma next_index_fresh: "0 \<le> next_index xs" "a \<in> set xs \<Longrightarrow> ac_index a < next_index xs"
  using next_index_bounds [of "-1" xs] by (auto simp: next_index_def)

lemma next_index_snoc: "ac_index e = next_index xs \<Longrightarrow> next_index (xs @ [e]) = next_index xs + 1"
  using next_index_bounds [of "-1" xs] by (simp add: next_index_def)

lemma accounts_ok_append: "accounts_ok (xs @ [e]) \<longleftrightarrow> accounts_ok xs \<and> ac_index e = int (length xs)"
  by (simp add: accounts_ok_def)

lemma next_index_ok: "accounts_ok xs \<Longrightarrow> next_index xs = int (length xs)"
proof (induction xs rule: rev_induct)
  case (snoc e xs)
  then show ?case by (simp add: accounts_ok_append next_index_snoc)
qed (simp add: next_index_def)

lemma accounts_ok_snoc: "accounts_ok xs \<Longrightarrow> ac_index e = next_index xs \<Longrightarrow> accounts_ok (xs @ [e])"
  by (simp add: accounts_ok_append next_index_ok)

lemma accounts_ok_Nil [simp]: "accounts_ok []" "next_index [] = 0"
  by (simp_all add: accounts_ok_def next_index_def)

lemma find_fresh:
  "(\<forall>a \<in> set xs. ac_index a \<noteq> ac_index e) \<Longrightarrow> List.find (\<lambda>a. ac_index a = ac_index e) (xs @ [e]) = Some e"
  by (induction xs) auto

text \<open>Every call of the backend that can change its state.\<close>

datatype backend_call =
    Call_createWallet int string bytes string
  | Call_deleteWallet string
  | Call_deriveAccount string key_chain
  | Call_listAccounts string
  | Call_identityKey string int
  | Call_createApiKey bytes string string string
  | Call_revokeApiKey string

fun backend_after :: "'s vault_ops \<Rightarrow> key_engine \<Rightarrow> string \<Rightarrow> backend_call \<Rightarrow> 's key_backend \<Rightarrow> 's key_backend" where
  "backend_after ops ke pass (Call_createWallet now i entropy label) kb =
     snd (kb_createWallet ops ke pass now i entropy kb label)"
| "backend_after ops ke pass (Call_deleteWallet i) kb = snd (kb_deleteWallet ops kb i)"
| "backend_after ops ke pass (Call_deriveAccount i chain) kb = snd (deriveAccount ops ke pass kb i chain)"
| "backend_after ops ke pass (Call_listAccounts i) kb = snd (kb_listAccounts ops ke pass kb i)"
| "backend_after ops ke pass (Call_identityKey i index) kb = snd (getXmtpIdentityKey ops ke pass kb i index)"
| "backend_after ops ke pass (Call_createApiKey random i credentialId ex) kb =
     snd (kb_createApiKey ops pass random kb i credentialId ex)"
| "backend_after ops ke pass (Call_revokeApiKey k) kb = snd (kb_revokeApiKey ops kb k)"

inductive backend_reachable :: "('s vault_ops \<Rightarrow> bool) \<Rightarrow> 's \<Rightarrow> 's key_backend \<Rightarrow> bool"
  for allowed :: "'s vault_ops \<Rightarrow> bool" and v0 :: 's
where
  backend_start: "backend_reachable allowed v0 \<lparr>kb_vault = v0, kb_walletStates = []\<rparr>"
| backend_step: "backend_reachable allowed v0 kb \<Longrightarrow> allowed ops \<Longrightarrow>
    backend_reachable allowed v0 (backend_after ops ke pass call kb)"

context wallet_vault
begin

lemma inv_states:
  assumes "backend_inv stored kb" "stored (kb_vault kb) i = Some (kw_accounts st)"
    "kw_nextIndex st = next_index (kw_accounts st)"
  shows "backend_inv stored (kb\<lparr>kb_walletStates := map_set (kb_walletStates kb) i st\<rparr>)"
  using assms by (auto simp: backend_inv_def)

lemma inv_update:
  assumes "backend_inv stored kb" "\<And>j. j \<noteq> i \<Longrightarrow> stored v j = stored (kb_vault kb) j"
    "\<And>j. j \<noteq> i \<Longrightarrow> map_get sts j = map_get (kb_walletStates kb) j"
    "\<And>xs. stored v i = Some xs \<Longrightarrow> accounts_ok xs"
    "\<And>st. map_get sts i = Some st \<Longrightarrow> stored v i = Some (kw_accounts st) \<and> kw_nextIndex st = next_index (kw_accounts st)"
  shows "backend_inv stored (kb\<lparr>kb_vault := v, kb_walletStates := sts\<rparr>)"
proof -
  have "accounts_ok xs" if "stored v j = Some xs" for j xs
    using that assms(1,2,4) by (cases "j = i") (auto simp: backend_inv_def)
  moreover have "stored v j = Some (kw_accounts st) \<and> kw_nextIndex st = next_index (kw_accounts st)"
    if "map_get sts j = Some st" for j st
    using that assms(1,2,3,5) by (cases "j = i") (auto simp: backend_inv_def)
  ultimately show ?thesis by (simp add: backend_inv_def)
qed

lemma ensure_spec:
  assumes "backend_inv stored kb" "ensureWalletState ops ke pass kb i = (r, kb')"
  shows "backend_inv stored kb' \<and> kb_vault kb' = kb_vault kb \<and>
    (case r of Err _ \<Rightarrow> True
     | Ok (st, seed) \<Rightarrow> map_get (kb_walletStates kb') i = Some st \<and>
         stored (kb_vault kb) i = Some (kw_accounts st) \<and> kw_nextIndex st = next_index (kw_accounts st) \<and>
         (\<exists>m. vo_readWallet ops (kb_vault kb) i pass = Ok m \<and> seed = mnemonicToSeed (ke_crypto ke) m None))"
proof (cases "vo_readWallet ops (kb_vault kb) i pass")
  case (Err e)
  then show ?thesis using assms by (auto simp: ensureWalletState_def getSeed_def)
next
  case m: (Ok m)
  show ?thesis
  proof (cases "map_get (kb_walletStates kb) i")
    case (Some st)
    then show ?thesis using assms m by (auto simp: ensureWalletState_def getSeed_def backend_inv_def)
  next
    case none: None
    show ?thesis
    proof (cases "\<exists>w ws xs. vo_listWallets ops (kb_vault kb) = Ok ws \<and> List.find (\<lambda>e. wi_id e = i) ws = Some w \<and>
        vo_getWalletAccounts ops (kb_vault kb) i = Ok xs")
      case True
      then obtain w ws xs where w: "vo_listWallets ops (kb_vault kb) = Ok ws" "List.find (\<lambda>e. wi_id e = i) ws = Some w"
        "vo_getWalletAccounts ops (kb_vault kb) i = Ok xs" by blast
      have "stored (kb_vault kb) i = Some xs" by (rule get_stored [OF w(3)])
      then show ?thesis using assms m none w
        by (auto simp: ensureWalletState_def getSeed_def Let_def next_index_def intro!: inv_states)
    next
      case False
      then show ?thesis using assms m none
        by (auto simp: ensureWalletState_def getSeed_def Let_def split: result.splits option.splits)
    qed
  qed
qed

lemma ensure_inv: "backend_inv stored kb \<Longrightarrow> backend_inv stored (snd (ensureWalletState ops ke pass kb i))"
  using ensure_spec [of kb ke pass i] by (cases "ensureWalletState ops ke pass kb i") simp

lemma write_commit_inv:
  assumes "backend_inv stored kb" "map_get (kb_walletStates kb) (dp_walletId p) = Some st"
    "dp_accounts p = kw_accounts st @ [dp_entry p]" "ac_index (dp_entry p) = kw_nextIndex st"
    "deriveAccount_write ops kb p = (Ok u, kb')"
  shows "backend_inv stored (snd (deriveAccount_commit kb' p)) \<and>
    stored (kb_vault kb') (dp_walletId p) = Some (dp_accounts p) \<and>
    (\<forall>j. j \<noteq> dp_walletId p \<longrightarrow> stored (kb_vault kb') j = stored (kb_vault kb) j)"
proof -
  let ?u = "vo_updateWalletAccounts ops (kb_vault kb) (dp_walletId p) (dp_accounts p)"
  have kb': "kb' = kb\<lparr>kb_vault := snd ?u\<rparr>" "fst ?u = Ok u"
    using assms(5) by (auto simp: deriveAccount_write_def split: prod.splits)
  have S: "stored (snd ?u) (dp_walletId p) = Some (dp_accounts p)"
      "\<And>j. j \<noteq> dp_walletId p \<Longrightarrow> stored (snd ?u) j = stored (kb_vault kb) j"
    using update_same [of "kb_vault kb" "dp_walletId p" "dp_accounts p"] kb'(2) update_other by auto
  have st: "stored (kb_vault kb) (dp_walletId p) = Some (kw_accounts st)" "kw_nextIndex st = next_index (kw_accounts st)"
      "accounts_ok (kw_accounts st)"
    using assms(1,2) by (auto simp: backend_inv_def)
  have ok: "accounts_ok (dp_accounts p)" "next_index (dp_accounts p) = ac_index (dp_entry p) + 1"
    using st assms(3,4) accounts_ok_snoc next_index_snoc by simp_all
  have V: "accounts_ok xs" if "stored (snd ?u) j = Some xs" for j xs
    using that S ok(1) assms(1) by (cases "j = dp_walletId p") (auto simp: backend_inv_def)
  have C: "snd (deriveAccount_commit kb' p) = \<lparr>kb_vault = snd ?u,
      kb_walletStates = map_set (kb_walletStates kb) (dp_walletId p)
        (st\<lparr>kw_nextIndex := ac_index (dp_entry p) + 1, kw_accounts := dp_accounts p\<rparr>)\<rparr>"
    using assms(2) by (simp add: deriveAccount_commit_def kb'(1))
  have "backend_inv stored (snd (deriveAccount_commit kb' p))"
    unfolding C backend_inv_def
    using V S ok(2) assms(1) by (auto simp: backend_inv_def)
  then show ?thesis using S by (auto simp: kb'(1))
qed

lemma write_failed_inv:
  assumes "backend_inv stored kb" "deriveAccount_write ops kb p = (Err e, kb')"
  shows "backend_inv stored kb'"
proof -
  let ?u = "vo_updateWalletAccounts ops (kb_vault kb) (dp_walletId p) (dp_accounts p)"
  have kb': "kb' = kb\<lparr>kb_vault := snd ?u\<rparr>" "fst ?u = Err e"
    using assms(2) by (auto simp: deriveAccount_write_def split: prod.splits)
  have "stored (snd ?u) j = stored (kb_vault kb) j" for j
    using update_same [of "kb_vault kb" "dp_walletId p" "dp_accounts p"] kb'(2) update_other [of j] by fastforce
  then show ?thesis using assms(1) by (simp add: backend_inv_def kb'(1))
qed

lemma prepare_spec:
  assumes "backend_inv stored kb" "deriveAccount_prepare ops ke pass kb i chain = (Some (Ok p), kb')"
  shows "backend_inv stored kb' \<and> kb_vault kb' = kb_vault kb \<and> dp_walletId p = i \<and> ac_chain (dp_entry p) = chain \<and>
    (\<exists>st m. map_get (kb_walletStates kb') i = Some st \<and> stored (kb_vault kb) i = Some (kw_accounts st) \<and>
       dp_accounts p = kw_accounts st @ [dp_entry p] \<and> ac_index (dp_entry p) = kw_nextIndex st \<and>
       kw_nextIndex st = next_index (kw_accounts st) \<and> vo_readWallet ops (kb_vault kb) i pass = Ok m \<and>
       derived_public ke (mnemonicToSeed (ke_crypto ke) m None) (kw_nextIndex st) chain =
         Some (ac_address (dp_entry p), dp_publicKey p))"
proof -
  obtain st seed where e: "ensureWalletState ops ke pass kb i = (Ok (st, seed), kb')"
      and d: "derived_public ke seed (kw_nextIndex st) chain = Some (ac_address (dp_entry p), dp_publicKey p)"
      and p: "dp_walletId p = i" "ac_chain (dp_entry p) = chain" "dp_accounts p = kw_accounts st @ [dp_entry p]"
        "ac_index (dp_entry p) = kw_nextIndex st"
    using assms(2) by (auto simp: deriveAccount_prepare_def Let_def split: prod.splits result.splits option.splits)
  from ensure_spec [OF assms(1) e] d p show ?thesis by auto
qed

lemma prepare_inv: "backend_inv stored kb \<Longrightarrow> backend_inv stored (snd (deriveAccount_prepare ops ke pass kb i chain))"
  using ensure_inv [of kb ke pass i]
  by (auto simp: deriveAccount_prepare_def Let_def split: prod.splits result.splits option.splits)

lemma derive_spec:
  assumes "backend_inv stored kb" "deriveAccount ops ke pass kb i chain = (Some (Ok info), kb')"
  shows "\<exists>xs m. stored (kb_vault kb) i = Some xs \<and> ai_index info = next_index xs \<and> ai_chain info = chain \<and>
    vo_readWallet ops (kb_vault kb) i pass = Ok m \<and>
    derived_public ke (mnemonicToSeed (ke_crypto ke) m None) (ai_index info) chain = Some (ai_address info, ai_publicKey info) \<and>
    stored (kb_vault kb') i = Some (xs @ [\<lparr>ac_index = ai_index info, ac_chain = chain, ac_address = ai_address info\<rparr>]) \<and>
    (\<forall>j. j \<noteq> i \<longrightarrow> stored (kb_vault kb') j = stored (kb_vault kb) j) \<and> chainAt kb' i (ai_index info) = Some chain"
proof -
  obtain p kb1 kb2 u where p: "deriveAccount_prepare ops ke pass kb i chain = (Some (Ok p), kb1)"
      and w: "deriveAccount_write ops kb1 p = (Ok u, kb2)"
      and c: "deriveAccount_commit kb2 p = (info, kb')"
    using assms(2) by (auto simp: deriveAccount_def split: prod.splits result.splits option.splits)
  from prepare_spec [OF assms(1) p] obtain st m where P: "backend_inv stored kb1" "kb_vault kb1 = kb_vault kb"
      "dp_walletId p = i" "ac_chain (dp_entry p) = chain" "map_get (kb_walletStates kb1) i = Some st"
      "stored (kb_vault kb) i = Some (kw_accounts st)" "dp_accounts p = kw_accounts st @ [dp_entry p]"
      "ac_index (dp_entry p) = kw_nextIndex st" "kw_nextIndex st = next_index (kw_accounts st)"
      "vo_readWallet ops (kb_vault kb) i pass = Ok m"
      "derived_public ke (mnemonicToSeed (ke_crypto ke) m None) (kw_nextIndex st) chain = Some (ac_address (dp_entry p), dp_publicKey p)"
    by blast
  have W: "stored (kb_vault kb2) i = Some (dp_accounts p)"
      "\<forall>j. j \<noteq> i \<longrightarrow> stored (kb_vault kb2) j = stored (kb_vault kb) j"
    using write_commit_inv [OF P(1) _ P(7,8) w] P by auto
  have st2: "map_get (kb_walletStates kb2) i = Some st"
    using w P(5) by (auto simp: deriveAccount_write_def split: prod.splits)
  have find: "List.find (\<lambda>a. ac_index a = ac_index (dp_entry p)) (kw_accounts st @ [dp_entry p]) = Some (dp_entry p)"
    using next_index_fresh(2) [of _ "kw_accounts st"] P(8,9) by (intro find_fresh) force
  have "kb_vault kb' = kb_vault kb2" "chainAt kb' i (ac_index (dp_entry p)) = Some chain"
    using c st2 P(3,4,7) find by (auto simp: deriveAccount_commit_def chainAt_def)
  moreover have "dp_entry p = \<lparr>ac_index = ac_index (dp_entry p), ac_chain = chain, ac_address = ac_address (dp_entry p)\<rparr>"
    using P(4) by simp
  ultimately show ?thesis using c P W by (auto simp: deriveAccount_commit_def)
qed

lemma derive_inv: "backend_inv stored kb \<Longrightarrow> backend_inv stored (snd (deriveAccount ops ke pass kb i chain))"
proof -
  assume inv: "backend_inv stored kb"
  obtain r kb1 where p: "deriveAccount_prepare ops ke pass kb i chain = (r, kb1)" by force
  have inv1: "backend_inv stored kb1" using prepare_inv [OF inv, of ke pass i chain] p by simp
  show ?thesis
  proof (cases "\<exists>q. r = Some (Ok q)")
    case True
    then obtain q where q: "r = Some (Ok q)" by blast
    from prepare_spec [OF inv p [unfolded q]] obtain st where Q: "dp_walletId q = i"
        "map_get (kb_walletStates kb1) i = Some st" "dp_accounts q = kw_accounts st @ [dp_entry q]"
        "ac_index (dp_entry q) = kw_nextIndex st" by blast
    obtain w kb2 where w: "deriveAccount_write ops kb1 q = (w, kb2)" by force
    show ?thesis
    proof (cases w)
      case (Ok u)
      have "backend_inv stored (snd (deriveAccount_commit kb2 q))"
        using write_commit_inv [OF inv1 _ Q(3,4), of u kb2] Q w Ok by simp
      then show ?thesis using p q w Ok
        by (cases "deriveAccount_commit kb2 q") (simp add: deriveAccount_def)
    next
      case (Err e)
      then show ?thesis using write_failed_inv [OF inv1, of q e kb2] p q w by (simp add: deriveAccount_def)
    qed
  next
    case False
    then show ?thesis using inv1 p by (auto simp: deriveAccount_def split: option.splits result.splits)
  qed
qed

lemma create_inv:
  assumes "backend_inv stored kb"
  shows "backend_inv stored (snd (kb_createWallet ops ke pass now i entropy kb label))"
proof (cases "generateMnemonic (ke_crypto ke) entropy")
  case (Ok m)
  let ?c = "vo_createWallet ops (kb_vault kb) i label m pass"
  have S: "stored (snd ?c) i = (case fst ?c of Some (Ok _) \<Rightarrow> Some [] | _ \<Rightarrow> stored (kb_vault kb) i)"
      "\<And>j. j \<noteq> i \<Longrightarrow> stored (snd ?c) j = stored (kb_vault kb) j"
    using create_same create_other by auto
  show ?thesis
  proof (cases "\<exists>u. fst ?c = Some (Ok u)")
    case True
    then obtain u v where c: "?c = (Some (Ok u), v)" by (metis prod.collapse)
    have "backend_inv stored (kb\<lparr>kb_vault := v, kb_walletStates := map_set (kb_walletStates kb) i
        \<lparr>kw_id = i, kw_label = label, kw_createdAt = ke_isoText ke now, kw_nextIndex = 0, kw_accounts = []\<rparr>\<rparr>)"
      by (rule inv_update [OF assms, of i]) (use S c in auto)
    then show ?thesis using Ok c by (simp add: kb_createWallet_def)
  next
    case False
    then have "stored (snd ?c) j = stored (kb_vault kb) j" for j
      using S by (cases "j = i") (auto split: option.splits result.splits)
    then show ?thesis using Ok assms False
      by (auto simp: kb_createWallet_def backend_inv_def split: prod.splits option.splits result.splits)
  qed
qed (use assms in \<open>simp add: kb_createWallet_def\<close>)

lemma delete_inv:
  assumes "backend_inv stored kb"
  shows "backend_inv stored (snd (kb_deleteWallet ops kb i))"
proof -
  let ?d = "vo_deleteWallet ops (kb_vault kb) i"
  show ?thesis
  proof (cases "fst ?d")
    case (Ok u)
    then obtain v where d: "?d = (Ok u, v)" by (metis prod.collapse)
    have "backend_inv stored (kb\<lparr>kb_vault := v, kb_walletStates := map_delete (kb_walletStates kb) i\<rparr>)"
      by (rule inv_update [OF assms, of i])
        (use delete_same [of "kb_vault kb" i] delete_other [of _ i "kb_vault kb"] d in auto)
    then show ?thesis using d by (simp add: kb_deleteWallet_def)
  next
    case (Err e)
    then obtain v where d: "?d = (Err e, v)" by (metis prod.collapse)
    then have "stored v j = stored (kb_vault kb) j" for j
      using delete_same [of "kb_vault kb" i] delete_other [of j i "kb_vault kb"] by (cases "j = i") auto
    then show ?thesis using d assms by (simp add: kb_deleteWallet_def backend_inv_def)
  qed
qed

lemma call_inv: "backend_inv stored kb \<Longrightarrow> backend_inv stored (backend_after ops ke pass call kb)"
proof (cases call)
  case (Call_createApiKey random i c ex)
  assume "backend_inv stored kb"
  then show ?thesis using Call_createApiKey api_create
    by (auto simp: kb_createApiKey_def backend_inv_def Let_def split: result.splits prod.splits)
       (metis snd_conv)+
next
  case (Call_revokeApiKey k)
  assume "backend_inv stored kb"
  then show ?thesis using Call_revokeApiKey api_revoke [of "kb_vault kb" k]
    by (auto simp: kb_revokeApiKey_def backend_inv_def split: prod.splits)
next
  case (Call_listAccounts i)
  assume "backend_inv stored kb"
  then show ?thesis using Call_listAccounts ensure_inv [of kb ke pass i]
    by (auto simp: kb_listAccounts_def split: prod.splits result.splits)
next
  case (Call_identityKey i n)
  assume "backend_inv stored kb"
  then show ?thesis using Call_identityKey ensure_inv [of kb ke pass i]
    by (auto simp: getXmtpIdentityKey_def split: prod.splits result.splits option.splits)
qed (simp_all add: create_inv delete_inv derive_inv)

text \<open>Two derivations that overlap: both prepare from the same state, then both write.\<close>

lemma overlap_spec:
  assumes "backend_inv stored kb" "map_get (kb_walletStates kb) i = Some st"
    and "deriveAccount_prepare ops ke pass kb i c1 = (Some (Ok p1), kb1)"
    and "deriveAccount_prepare ops ke pass kb1 i c2 = (Some (Ok p2), kb2)"
    and "deriveAccount_write ops kb2 p1 = (Ok u1, kb3)"
    and "deriveAccount_write ops kb3 p2 = (Ok u2, kb4)"
  shows "ac_index (dp_entry p1) = ac_index (dp_entry p2) \<and>
    stored (kb_vault kb4) i = Some (kw_accounts st @ [dp_entry p2])"
proof -
  have kb1: "kb1 = kb"
    using assms(2,3) by (auto simp: deriveAccount_prepare_def ensureWalletState_def Let_def
        split: prod.splits result.splits option.splits)
  have kb2: "kb2 = kb"
    using assms(2,4) kb1 by (auto simp: deriveAccount_prepare_def ensureWalletState_def Let_def
        split: prod.splits result.splits option.splits)
  obtain st1 st2 where A: "map_get (kb_walletStates kb) i = Some st1" "ac_index (dp_entry p1) = kw_nextIndex st1"
      and B: "map_get (kb_walletStates kb) i = Some st2" "ac_index (dp_entry p2) = kw_nextIndex st2"
      "dp_accounts p2 = kw_accounts st2 @ [dp_entry p2]" "dp_walletId p2 = i"
    using prepare_spec [OF assms(1,3)] prepare_spec [of kb1, OF _ assms(4)] assms(1) unfolding kb1 kb2 by blast
  have "stored (kb_vault kb4) i = Some (dp_accounts p2)"
    using assms(6) update_same [of "kb_vault kb3" i "dp_accounts p2"] B(4)
    by (auto simp: deriveAccount_write_def split: prod.splits)
  then show ?thesis using A B assms(2) by simp
qed

end

subsection \<open>The two vaults\<close>

definition memory_accounts :: "memory_vault \<Rightarrow> string \<Rightarrow> account_entry list option" where
  "memory_accounts v i = map_option wf_accounts (map_get (mv_wallets v) i)"

definition file_accounts :: "vault_files \<Rightarrow> string \<Rightarrow> account_entry list option" where
  "file_accounts fs i =
     (case map_get (vf_wallets fs) (json_path i) of
        Some (Some raw) \<Rightarrow>
          if isWalletFile raw then Some (List.map_filter account_of_js (js_array (js_get raw ''accounts''))) else None
      | _ \<Rightarrow> None)"

interpretation memory_wallets: wallet_vault "memory_vault_ops ve now salt iv" memory_accounts
  by unfold_locales
    (auto simp: memory_vault_ops_def memory_accounts_def mv_getWalletAccounts_def mv_updateWalletAccounts_def
      mv_createWallet_def mv_deleteWallet_def mv_createApiKey_def mv_revokeApiKey_def Let_def
      split: option.splits)

lemma account_roundtrip: "account_of_js (account_js a) = Some a"
  by (cases a; cases "ac_chain a") (auto simp: account_of_js_def account_js_def chain_text_def num_def)

lemma accounts_roundtrip: "List.map_filter account_of_js (map account_js xs) = xs"
  by (induction xs) (simp_all add: List.map_filter_simps account_roundtrip)

lemma js_get_map_set: "js_get (VObj (map_set kvs k v)) j = (if j = k then v else js_get (VObj kvs) j)"
  using map_get_set [of kvs k v j] by (simp add: map_get_def)

lemma isWalletFile_update:
  "isWalletFile (VObj kvs) \<Longrightarrow> isWalletFile (VObj (map_set kvs ''accounts'' (VArr xs)))"
  unfolding isWalletFile_def by (simp only: js_get_map_set) simp

lemma scrypt_block_obj: "encryptWithScrypt ve salt iv m p b = Some block \<Longrightarrow> is_obj block"
  by (auto simp: encryptWithScrypt_def Let_def split: option.splits)

interpretation file_wallets: wallet_vault "file_vault_ops ve now salt iv df" file_accounts
proof
  fix v :: vault_files and i :: string and xs
  assume "vo_getWalletAccounts (file_vault_ops ve now salt iv df) v i = Ok xs"
  then show "file_accounts v i = Some xs"
    by (auto simp: file_vault_ops_def fv_getWalletAccounts_def read_wallet_file_def file_accounts_def
        split: option.splits if_splits)
next
  fix v :: vault_files and i j :: string and xs
  assume "j \<noteq> i"
  then show "file_accounts (snd (vo_updateWalletAccounts (file_vault_ops ve now salt iv df) v i xs)) j = file_accounts v j"
    by (simp add: file_vault_ops_def fv_updateWalletAccounts_def file_accounts_def
        split: file_read.split js_value.split)
next
  fix v :: vault_files and i :: string and xs
  show "file_accounts (snd (vo_updateWalletAccounts (file_vault_ops ve now salt iv df) v i xs)) i =
      (case fst (vo_updateWalletAccounts (file_vault_ops ve now salt iv df) v i xs) of
         Ok _ \<Rightarrow> Some xs | Err _ \<Rightarrow> file_accounts v i)"
  proof (cases "read_wallet_file (df_updateAccounts df) (df_badJson df) v i")
    case (File_wallet raw)
    then have "isWalletFile raw" by (auto simp: read_wallet_file_def split: option.splits if_splits)
    then show ?thesis using File_wallet isWalletFile_update
      by (cases raw) (simp_all add: file_vault_ops_def fv_updateWalletAccounts_def file_accounts_def
          js_get_map_set js_array_def accounts_roundtrip del: js_get.simps)
  qed (simp_all add: file_vault_ops_def fv_updateWalletAccounts_def)
next
  fix v :: vault_files and i j label m p :: string
  assume "j \<noteq> i"
  then show "file_accounts (snd (vo_createWallet (file_vault_ops ve now salt iv df) v i label m p)) j = file_accounts v j"
    by (simp add: file_vault_ops_def fv_createWallet_def file_accounts_def split: option.split)
next
  fix v :: vault_files and i label m p :: string
  show "file_accounts (snd (vo_createWallet (file_vault_ops ve now salt iv df) v i label m p)) i =
      (case fst (vo_createWallet (file_vault_ops ve now salt iv df) v i label m p) of
         Some (Ok _) \<Rightarrow> Some [] | _ \<Rightarrow> file_accounts v i)"
    using scrypt_block_obj
    by (auto simp: file_vault_ops_def fv_createWallet_def file_accounts_def isWalletFile_js js_array_def
        List.map_filter_simps split: option.split)
next
  fix v :: vault_files and i j :: string
  assume "j \<noteq> i"
  then show "file_accounts (snd (vo_deleteWallet (file_vault_ops ve now salt iv df) v i)) j = file_accounts v j"
    by (simp add: file_vault_ops_def fv_deleteWallet_def file_accounts_def)
next
  fix v :: vault_files and i :: string
  show "file_accounts (snd (vo_deleteWallet (file_vault_ops ve now salt iv df) v i)) i =
      (case fst (vo_deleteWallet (file_vault_ops ve now salt iv df) v i) of Ok _ \<Rightarrow> None | Err _ \<Rightarrow> file_accounts v i)"
    by (simp add: file_vault_ops_def fv_deleteWallet_def file_accounts_def)
qed (auto simp: file_vault_ops_def fv_createApiKey_def fv_revokeApiKey_def file_accounts_def Let_def
       split: option.split)

definition is_file_vault :: "vault_files vault_ops \<Rightarrow> bool" where
  "is_file_vault ops \<longleftrightarrow> (\<exists>ve now salt iv df. ops = file_vault_ops ve now salt iv df)"

lemma file_call_inv:
  "is_file_vault ops \<Longrightarrow> backend_inv file_accounts kb \<Longrightarrow> backend_inv file_accounts (backend_after ops ke pass call kb)"
  using file_wallets.call_inv by (auto simp: is_file_vault_def)

lemma file_backend_inv:
  assumes "\<And>i xs. file_accounts fs i = Some xs \<Longrightarrow> accounts_ok xs"
    and "backend_reachable is_file_vault fs kb"
  shows "backend_inv file_accounts kb"
  using assms(2)
proof induction
  case backend_start
  then show ?case using assms(1) by (simp add: backend_inv_def)
next
  case (backend_step kb ops ke pass call)
  then show ?case using file_call_inv by blast
qed

subsection \<open>Properties\<close>

text \<open>On the vault in files, whatever calls were made and however the disk failed, the accounts of
  every wallet are numbered from 0 on without gaps. A derivation that succeeds appends exactly one
  account, with the next number and the address of the key derived for it from the wallet's
  mnemonic, leaves the other wallets alone, and the account then signs with that key.\<close>

theorem derived_accounts_exact:
  assumes "vf_wallets fs = []" "backend_reachable is_file_vault fs kb"
    and "deriveAccount (file_vault_ops ve now salt iv df) ke pass kb i chain = (Some (Ok info), kb')"
  shows "\<exists>xs m. file_accounts (kb_vault kb) i = Some xs \<and> map ac_index xs = map int [0..<length xs] \<and>
    fv_readWallet ve (df_readWallet df) (df_badJson df) (kb_vault kb) i pass = Ok m \<and>
    ai_index info = int (length xs) \<and> ai_chain info = chain \<and>
    derived_public ke (mnemonicToSeed (ke_crypto ke) m None) (ai_index info) chain = Some (ai_address info, ai_publicKey info) \<and>
    file_accounts (kb_vault kb') i =
      Some (xs @ [\<lparr>ac_index = ai_index info, ac_chain = chain, ac_address = ai_address info\<rparr>]) \<and>
    (\<forall>j. file_accounts (kb_vault kb') j = (if j = i then file_accounts (kb_vault kb') i else file_accounts (kb_vault kb) j)) \<and>
    (\<forall>seed data. resolveAndSign ke kb' i seed (ai_index info) data = map_option Ok (signWithSeed ke seed (ai_index info) chain data))"
proof -
  have inv: "backend_inv file_accounts kb"
    using assms(2) by (rule file_backend_inv [rotated]) (simp add: file_accounts_def assms(1))
  obtain xs m where D: "file_accounts (kb_vault kb) i = Some xs" "ai_index info = next_index xs" "ai_chain info = chain"
      "fv_readWallet ve (df_readWallet df) (df_badJson df) (kb_vault kb) i pass = Ok m"
      "derived_public ke (mnemonicToSeed (ke_crypto ke) m None) (ai_index info) chain = Some (ai_address info, ai_publicKey info)"
      "file_accounts (kb_vault kb') i = Some (xs @ [\<lparr>ac_index = ai_index info, ac_chain = chain, ac_address = ai_address info\<rparr>])"
      "\<forall>j. j \<noteq> i \<longrightarrow> file_accounts (kb_vault kb') j = file_accounts (kb_vault kb) j"
      "chainAt kb' i (ai_index info) = Some chain"
    using file_wallets.derive_spec [OF inv assms(3)] by (auto simp: file_vault_ops_def)
  have ok: "accounts_ok xs" using inv D(1) by (auto simp: backend_inv_def)
  then show ?thesis
    using D next_index_ok [OF ok]
    by (intro exI [of _ xs] exI [of _ m]) (auto simp: accounts_ok_def resolveAndSign_def)
qed

definition sample_keys :: key_engine where
  "sample_keys = \<lparr>ke_crypto = sample_crypto, ke_secpSign = (\<lambda>h k. h @ k), ke_edSign = (\<lambda>d k. d @ k),
                  ke_isoText = (\<lambda>_. ''2026-01-01'')\<rparr>"

definition no_faults :: disk_faults where
  "no_faults = \<lparr>df_createWallet = None, df_readWallet = None, df_listWallets = None, df_getAccounts = None,
     df_updateAccounts = None, df_createApiKey = None, df_readApiKey = None, df_badKdf = [], df_badJson = []\<rparr>"

definition sample_files :: "vault_files vault_ops" where
  "sample_files = file_vault_ops sample_vault_engine 0 [1] [2] no_faults"

lemma mnemonic_made: "length entropy = 32 \<Longrightarrow> \<exists>m. generateMnemonic cr entropy = Ok m"
proof -
  assume "length entropy = 32"
  then have "length (entropy @ [case cr_sha256 cr entropy of [] \<Rightarrow> 0 | b # _ \<Rightarrow> b]) = 33" by simp
  from mnemonic_words_Ok [OF this, of "[0..<24]"] show ?thesis
    by (auto simp: generateMnemonic_def Let_def simp del: upt_rec_numeral)
qed

definition sample_backend :: "vault_files key_backend" where
  "sample_backend = backend_after sample_files sample_keys ''pass''
     (Call_createWallet 0 ''w'' (replicate 32 0) ''main'') \<lparr>kb_vault = empty_files, kb_walletStates = []\<rparr>"

lemma sample_backend_reachable: "backend_reachable is_file_vault empty_files sample_backend"
proof -
  have "is_file_vault sample_files" unfolding is_file_vault_def sample_files_def by blast
  then show ?thesis unfolding sample_backend_def by (intro backend_step backend_start)
qed

lemma sample_backend_state:
  "\<exists>m f. kb_vault sample_backend = empty_files\<lparr>vf_wallets := [(''w.json'', Some (wallet_js f))]\<rparr> \<and> is_obj (wf_crypto f) \<and>
     map_get (kb_walletStates sample_backend) ''w'' =
       Some \<lparr>kw_id = ''w'', kw_label = ''main'', kw_createdAt = ''2026-01-01'', kw_nextIndex = 0, kw_accounts = []\<rparr> \<and>
     vo_readWallet sample_files (kb_vault sample_backend) ''w'' ''pass'' = Ok m"
proof -
  obtain m where m: "generateMnemonic sample_crypto (replicate 32 0) = Ok m"
    using mnemonic_made [of "replicate 32 0" sample_crypto] by auto
  obtain block where b: "encryptWithScrypt sample_vault_engine [1] [2] m ''pass'' False = Some block"
    by (simp add: encryptWithScrypt_def sample_vault_engine_def Let_def)
  let ?f = "\<lparr>wf_id = ''w'', wf_label = ''main'', wf_crypto = block, wf_accounts = [], wf_createdAt = ''2026-01-01''\<rparr>"
  have kb: "sample_backend = \<lparr>kb_vault = empty_files\<lparr>vf_wallets := [(''w.json'', Some (wallet_js ?f))]\<rparr>,
      kb_walletStates = [(''w'', \<lparr>kw_id = ''w'', kw_label = ''main'', kw_createdAt = ''2026-01-01'', kw_nextIndex = 0, kw_accounts = []\<rparr>)]\<rparr>"
    using m b
    by (simp add: sample_backend_def kb_createWallet_def sample_keys_def sample_files_def file_vault_ops_def
        fv_createWallet_def no_faults_def empty_files_def json_path_def map_set_def)
       (simp add: sample_vault_engine_def)
  have "vo_readWallet sample_files (kb_vault sample_backend) ''w'' ''pass'' = Ok m"
    using scrypt_roundtrip(1) [OF sample_vault_laws b] scrypt_block_obj [OF b]
    by (simp add: kb sample_files_def file_vault_ops_def fv_readWallet_def read_wallet_file_def no_faults_def
        empty_files_def json_path_def map_get_def isWalletFile_js)
  then show ?thesis using scrypt_block_obj [OF b] by (intro exI [of _ m] exI [of _ ?f]) (simp add: kb map_get_def)
qed

lemma evm_key_zero: "\<exists>d. deriveEvmKey cr seed 0 = Ok d"
  using evm_path_ok [of 0]
  by (simp add: deriveEvmKey_def derivePath_def int_text_def MAX_DERIVATION_INDEX_def Let_def split: prod.split)

lemma sample_prepare:
  "\<exists>p st. deriveAccount_prepare sample_files sample_keys ''pass'' sample_backend ''w'' Chain_evm =
     (Some (Ok p), sample_backend) \<and> dp_walletId p = ''w'' \<and> ac_index (dp_entry p) = 0 \<and> dp_accounts p = [dp_entry p] \<and>
     map_get (kb_walletStates sample_backend) ''w'' = Some st \<and> kw_accounts st = []"
proof -
  obtain m where S: "vo_readWallet sample_files (kb_vault sample_backend) ''w'' ''pass'' = Ok m"
      "map_get (kb_walletStates sample_backend) ''w'' =
        Some \<lparr>kw_id = ''w'', kw_label = ''main'', kw_createdAt = ''2026-01-01'', kw_nextIndex = 0, kw_accounts = []\<rparr>"
    using sample_backend_state by blast
  obtain d where "deriveEvmKey (ke_crypto sample_keys) (mnemonicToSeed (ke_crypto sample_keys) m None) 0 = Ok d"
    using evm_key_zero by blast
  then show ?thesis using S
    by (simp add: deriveAccount_prepare_def ensureWalletState_def getSeed_def derived_public_def Let_def)
qed

lemma sample_write:
  "dp_walletId p = ''w'' \<Longrightarrow> \<exists>kb. deriveAccount_write sample_files sample_backend p = (Ok (), kb) \<and>
     (\<exists>kb'. deriveAccount_write sample_files kb p = (Ok (), kb'))"
proof -
  assume w: "dp_walletId p = ''w''"
  obtain f where f: "kb_vault sample_backend = empty_files\<lparr>vf_wallets := [(''w.json'', Some (wallet_js f))]\<rparr>" "is_obj (wf_crypto f)"
    using sample_backend_state by blast
  obtain kvs where kvs: "wallet_js f = VObj kvs" by (simp add: wallet_js_def)
  have "isWalletFile (VObj kvs)" using isWalletFile_js [OF f(2)] kvs by simp
  then show ?thesis using w f isWalletFile_update [of kvs]
    by (simp add: deriveAccount_write_def sample_files_def file_vault_ops_def fv_updateWalletAccounts_def
        read_wallet_file_def no_faults_def json_path_def kvs map_get_def map_set_def)
qed

theorem derived_accounts_exact_witness:
  "\<exists>info kb. deriveAccount sample_files sample_keys ''pass'' sample_backend ''w'' Chain_evm = (Some (Ok info), kb) \<and>
     ai_index info = 0 \<and> map_option length (file_accounts (kb_vault kb) ''w'') = Some 1"
proof -
  obtain p where p: "deriveAccount_prepare sample_files sample_keys ''pass'' sample_backend ''w'' Chain_evm =
      (Some (Ok p), sample_backend)" "dp_walletId p = ''w''" "ac_index (dp_entry p) = 0"
    using sample_prepare by blast
  obtain kb1 where "deriveAccount_write sample_files sample_backend p = (Ok (), kb1)"
    using sample_write [OF p(2)] by blast
  then obtain info kb where d: "deriveAccount sample_files sample_keys ''pass'' sample_backend ''w'' Chain_evm = (Some (Ok info), kb)"
      "ai_index info = 0"
    using p by (cases "deriveAccount_commit kb1 p") (auto simp: deriveAccount_def deriveAccount_commit_def)
  have "\<exists>xs. ai_index info = int (length xs) \<and> file_accounts (kb_vault kb) ''w'' =
      Some (xs @ [\<lparr>ac_index = ai_index info, ac_chain = Chain_evm, ac_address = ai_address info\<rparr>])"
    using derived_accounts_exact [OF _ sample_backend_reachable d(1) [unfolded sample_files_def]]
    by (simp add: empty_files_def) blast
  then show ?thesis using d by auto
qed

text \<open>Two derivations for a wallet that overlap, both starting before the other has written, return
  the same number; the wallet's file keeps the second account only.\<close>

theorem concurrent_derivations_collide:
  assumes "vf_wallets fs = []" "backend_reachable is_file_vault fs kb" "map_get (kb_walletStates kb) i = Some st"
    and "deriveAccount_prepare (file_vault_ops ve now salt iv df) ke pass kb i c1 = (Some (Ok p1), kb1)"
    and "deriveAccount_prepare (file_vault_ops ve now salt iv df) ke pass kb1 i c2 = (Some (Ok p2), kb2)"
    and "deriveAccount_write (file_vault_ops ve now salt iv df) kb2 p1 = (Ok u1, kb3)"
    and "deriveAccount_write (file_vault_ops ve now salt iv df) kb3 p2 = (Ok u2, kb4)"
  shows "ai_index (fst (deriveAccount_commit kb4 p1)) = ai_index (fst (deriveAccount_commit kb4 p2)) \<and>
    file_accounts (kb_vault (snd (deriveAccount_commit (snd (deriveAccount_commit kb4 p1)) p2))) i =
      Some (kw_accounts st @ [dp_entry p2])"
proof -
  have inv: "backend_inv file_accounts kb"
    using assms(2) by (rule file_backend_inv [rotated]) (simp add: file_accounts_def assms(1))
  have "kb_vault (snd (deriveAccount_commit k p)) = kb_vault k" for k :: "vault_files key_backend" and p
    by (simp add: deriveAccount_commit_def split: option.split)
  then show ?thesis using file_wallets.overlap_spec [OF inv assms(3-7)] by (simp add: deriveAccount_commit_def)
qed

theorem concurrent_derivations_collide_witness:
  "\<exists>p kb3 kb4. deriveAccount_write sample_files sample_backend p = (Ok (), kb3) \<and>
     deriveAccount_write sample_files kb3 p = (Ok (), kb4) \<and>
     file_accounts (kb_vault (snd (deriveAccount_commit (snd (deriveAccount_commit kb4 p)) p))) ''w'' = Some [dp_entry p]"
proof -
  obtain p st where p: "deriveAccount_prepare sample_files sample_keys ''pass'' sample_backend ''w'' Chain_evm =
      (Some (Ok p), sample_backend)" "dp_walletId p = ''w''" "map_get (kb_walletStates sample_backend) ''w'' = Some st"
      "kw_accounts st = []"
    using sample_prepare by blast
  obtain kb3 kb4 where w: "deriveAccount_write sample_files sample_backend p = (Ok (), kb3)"
      "deriveAccount_write sample_files kb3 p = (Ok (), kb4)"
    using sample_write [OF p(2)] by blast
  from concurrent_derivations_collide [OF _ sample_backend_reachable p(3) p(1) [unfolded sample_files_def]
      p(1) [unfolded sample_files_def] w [unfolded sample_files_def]]
  have "file_accounts (kb_vault (snd (deriveAccount_commit (snd (deriveAccount_commit kb4 p)) p))) ''w'' = Some [dp_entry p]"
    using p(4) by (simp add: empty_files_def)
  then show ?thesis using w by blast
qed

text \<open>A backend that has not loaded a wallet yet cannot sign for it.\<close>

lemma sign_needs_loaded_state:
  "vo_readWallet ops (kb_vault kb) i pass = Ok m \<Longrightarrow> map_get (kb_walletStates kb) i = None \<Longrightarrow>
    kb_sign ops ke pass kb i index data = Some (Err (NotFoundError_create ''Account'' (i @ ''/'' @ int_text index)))"
  by (simp add: kb_sign_def getSeed_def resolveAndSign_def chainAt_def)

end
