(* ===== verification/SecretStore.thy ===== *)
theory SecretStore
  imports Vault HexText
begin

text \<open>
  The secret store of the key manager (\<^verbatim>\<open>createCompatSecretStore\<close> of
  \<^verbatim>\<open>packages/keys/src/key-manager-compat.ts\<close>): the vault, and behind it a directory of older
  entries in hexadecimal text that are moved into the vault when they are read. The vault is a
  record of operations on secrets. The older directory is absent or a map from file names to
  their text; keys are names other than the empty one, \<open>.\<close> and \<open>..\<close>.
\<close>

subsection \<open>Operations on secrets\<close>

text \<open>A write takes the nonce that the vault draws for it.\<close>

record 's secret_ops =
  so_set :: "'s \<Rightarrow> bytes \<Rightarrow> string \<Rightarrow> bytes \<Rightarrow> (unit, signet_error) result \<times> 's"
  so_get :: "'s \<Rightarrow> string \<Rightarrow> (bytes, signet_error) result"
  so_delete :: "'s \<Rightarrow> string \<Rightarrow> (unit, signet_error) result \<times> 's"
  so_list :: "'s \<Rightarrow> string list"

definition memory_secret_ops :: "memory_vault secret_ops" where
  "memory_secret_ops =
     \<lparr>so_set = (\<lambda>v iv name val. mv_set v name val), so_get = mv_get, so_delete = mv_delete, so_list = mv_list\<rparr>"

definition file_secret_ops ::
  "vault_engine \<Rightarrow> bytes \<Rightarrow> string option \<Rightarrow> string option \<Rightarrow> string \<Rightarrow> vault_files secret_ops" where
  "file_secret_ops ve secretKey writeFault readFault badSecret =
     \<lparr>so_set = (\<lambda>fs iv name val. fv_set ve secretKey writeFault iv fs name val),
      so_get = fv_get ve secretKey readFault badSecret, so_delete = fv_delete, so_list = fv_list ve\<rparr>"

subsection \<open>The older directory\<close>

type_synonym legacy_dir = "(string, string) js_map option"

record kv_faults =
  kf_read :: "string option"
  kf_unlink :: bool
  kf_rmdir :: bool

definition hexToBytes_compat :: "string \<Rightarrow> bytes" where
  "hexToBytes_compat hex = hex_pairs (to_lower hex)"

definition legacyKvKeyPath :: "string \<Rightarrow> string" where
  "legacyKvKeyPath key = encodeURIComponent key"

definition legacy_file :: "legacy_dir \<Rightarrow> string \<Rightarrow> string option" where
  "legacy_file dir key = Option.bind dir (\<lambda>entries. map_get entries (legacyKvKeyPath key))"

definition readLegacyKvEntry :: "kv_faults \<Rightarrow> legacy_dir \<Rightarrow> string \<Rightarrow> (bytes, signet_error) result" where
  "readLegacyKvEntry fl dir key =
     (case legacy_file dir key of
        None \<Rightarrow> Err (NotFoundError_create ''kv-entry'' key)
      | Some hex \<Rightarrow>
          (case kf_read fl of
             Some cause \<Rightarrow> Err (InternalError_create ''Failed to read legacy compat vault entry''
                             (Some [(''key'', VStr key), (''cause'', VStr cause)]))
           | None \<Rightarrow> Ok (hexToBytes_compat hex)))"

definition removeLegacyKvEntry :: "kv_faults \<Rightarrow> legacy_dir \<Rightarrow> string \<Rightarrow> legacy_dir" where
  "removeLegacyKvEntry fl dir key =
     (case dir of
        None \<Rightarrow> None
      | Some entries \<Rightarrow>
          if map_get entries (legacyKvKeyPath key) = None then Some entries
          else if kf_unlink fl then Some entries
          else
            let left = map_delete entries (legacyKvKeyPath key)
            in if left = [] \<and> \<not> kf_rmdir fl then None else Some left)"

definition listLegacyKvEntries :: "(string \<Rightarrow> bool) \<Rightarrow> legacy_dir \<Rightarrow> string list option" where
  "listLegacyKvEntries isUtf8 dir =
     (case dir of None \<Rightarrow> Some [] | Some entries \<Rightarrow> all_some (map (decodeURIComponent isUtf8) (map_keys entries)))"

subsection \<open>The store\<close>

record 's compat_store =
  cs_vault :: 's
  cs_legacy :: legacy_dir

definition cs_get ::
  "'s secret_ops \<Rightarrow> bytes \<Rightarrow> kv_faults \<Rightarrow> 's compat_store \<Rightarrow> string \<Rightarrow> (bytes, signet_error) result \<times> 's compat_store" where
  "cs_get ops iv fl st key =
     (case so_get ops (cs_vault st) key of
        Ok val \<Rightarrow> (Ok val, st)
      | Err e \<Rightarrow>
          if err_tag e \<noteq> Tag_NotFoundError then (Err e, st)
          else
            (case readLegacyKvEntry fl (cs_legacy st) key of
               Err e' \<Rightarrow> (Err e', st)
             | Ok val \<Rightarrow>
                 (case so_set ops (cs_vault st) iv key val of
                    (Err e', v) \<Rightarrow> (Err e', st\<lparr>cs_vault := v\<rparr>)
                  | (Ok _, v) \<Rightarrow>
                      (Ok val, st\<lparr>cs_vault := v, cs_legacy := removeLegacyKvEntry fl (cs_legacy st) key\<rparr>))))"

definition cs_set ::
  "'s secret_ops \<Rightarrow> bytes \<Rightarrow> kv_faults \<Rightarrow> 's compat_store \<Rightarrow> string \<Rightarrow> bytes \<Rightarrow>
   (unit, signet_error) result \<times> 's compat_store" where
  "cs_set ops iv fl st key val =
     (case so_set ops (cs_vault st) iv key val of
        (Err e, v) \<Rightarrow> (Err e, st\<lparr>cs_vault := v\<rparr>)
      | (Ok u, v) \<Rightarrow> (Ok u, st\<lparr>cs_vault := v, cs_legacy := removeLegacyKvEntry fl (cs_legacy st) key\<rparr>))"

definition cs_delete ::
  "'s secret_ops \<Rightarrow> kv_faults \<Rightarrow> 's compat_store \<Rightarrow> string \<Rightarrow> (unit, signet_error) result \<times> 's compat_store" where
  "cs_delete ops fl st key =
     (case so_delete ops (cs_vault st) key of
        (current, v) \<Rightarrow>
          let hadLegacy = (legacy_file (cs_legacy st) key \<noteq> None);
              st' = st\<lparr>cs_vault := v\<rparr>;
              removed = st'\<lparr>cs_legacy := removeLegacyKvEntry fl (cs_legacy st) key\<rparr>
          in (case current of
                Ok u \<Rightarrow> (Ok u, if hadLegacy then removed else st')
              | Err e \<Rightarrow>
                  if err_tag e \<noteq> Tag_NotFoundError then (Err e, st')
                  else if hadLegacy then (Ok (), removed)
                  else (Err e, st')))"

definition cs_list :: "'s secret_ops \<Rightarrow> (string \<Rightarrow> bool) \<Rightarrow> 's compat_store \<Rightarrow> string list option" where
  "cs_list ops isUtf8 st =
     map_option (\<lambda>old. set_of (so_list ops (cs_vault st) @ old)) (listLegacyKvEntries isUtf8 (cs_legacy st))"

subsection \<open>The contract with the vault\<close>

locale secret_store =
  fixes ops :: "'s secret_ops" and view :: "'s \<Rightarrow> string \<Rightarrow> bytes option" and wf :: "'s \<Rightarrow> bool"
  assumes get_exact: "wf v \<Longrightarrow> so_get ops v k =
      (case view v k of Some x \<Rightarrow> Ok x | None \<Rightarrow> Err (NotFoundError_create ''VaultSecret'' k))"
    and set_exact: "wf v \<Longrightarrow> length iv = 12 \<Longrightarrow> fst (so_set ops v iv k x) = Ok () \<and> wf (snd (so_set ops v iv k x)) \<and>
      view (snd (so_set ops v iv k x)) = (view v)(k := Some x)"
    and delete_exact: "wf v \<Longrightarrow>
      fst (so_delete ops v k) = (if view v k = None then Err (NotFoundError_create ''VaultSecret'' k) else Ok ()) \<and>
      wf (snd (so_delete ops v k)) \<and> view (snd (so_delete ops v k)) = (view v)(k := None)"

text \<open>What a client sees: the vault's value, or else the older one.\<close>

definition visible :: "('s \<Rightarrow> string \<Rightarrow> bytes option) \<Rightarrow> 's compat_store \<Rightarrow> string \<Rightarrow> bytes option" where
  "visible view st k =
     (case view (cs_vault st) k of
        Some x \<Rightarrow> Some x
      | None \<Rightarrow> map_option hexToBytes_compat (legacy_file (cs_legacy st) k))"

lemma notfound_tag [simp]: "err_tag (NotFoundError_create a b) = Tag_NotFoundError"
  by (simp add: NotFoundError_create_def)

lemma legacy_path_inj [simp]: "legacyKvKeyPath j = legacyKvKeyPath k \<longleftrightarrow> j = k"
  by (simp add: legacyKvKeyPath_def encodeURIComponent_inj)

lemma legacy_file_remove:
  "legacy_file (removeLegacyKvEntry fl dir k) j = (if j = k \<and> \<not> kf_unlink fl then None else legacy_file dir j)"
proof (cases dir)
  case (Some entries)
  have "map_delete entries (legacyKvKeyPath k) = [] \<Longrightarrow> j \<noteq> k \<Longrightarrow> map_get entries (legacyKvKeyPath j) = None"
    using map_get_delete [of entries "legacyKvKeyPath k" "legacyKvKeyPath j"] by simp
  then show ?thesis using Some by (auto simp: legacy_file_def removeLegacyKvEntry_def Let_def)
qed (simp add: legacy_file_def removeLegacyKvEntry_def)

context secret_store
begin

lemma get_refines:
  assumes "wf (cs_vault st)" "length iv = 12" "kf_read fl = None"
  shows "fst (cs_get ops iv fl st k) =
      (case visible view st k of Some x \<Rightarrow> Ok x | None \<Rightarrow> Err (NotFoundError_create ''kv-entry'' k)) \<and>
    visible view (snd (cs_get ops iv fl st k)) = visible view st \<and> wf (cs_vault (snd (cs_get ops iv fl st k)))"
proof (cases "view (cs_vault st) k")
  case (Some x)
  then show ?thesis using assms get_exact by (simp add: cs_get_def visible_def)
next
  case none: None
  show ?thesis
  proof (cases "legacy_file (cs_legacy st) k")
    case None
    then show ?thesis using none assms get_exact by (simp add: cs_get_def visible_def readLegacyKvEntry_def)
  next
    case (Some hex)
    let ?s = "so_set ops (cs_vault st) iv k (hexToBytes_compat hex)"
    obtain v where s: "?s = (Ok (), v)" using set_exact [OF assms(1,2)] by (metis prod.collapse)
    have "wf v" "view v = (view (cs_vault st))(k := Some (hexToBytes_compat hex))"
      using set_exact [OF assms(1,2), of k "hexToBytes_compat hex"] s by simp_all
    then show ?thesis using none Some assms get_exact s
      by (auto simp: cs_get_def visible_def readLegacyKvEntry_def legacy_file_remove fun_eq_iff split: option.split)
  qed
qed

lemma set_refines:
  assumes "wf (cs_vault st)" "length iv = 12"
  shows "fst (cs_set ops iv fl st k x) = Ok () \<and>
    visible view (snd (cs_set ops iv fl st k x)) = (visible view st)(k := Some x) \<and>
    wf (cs_vault (snd (cs_set ops iv fl st k x)))"
proof -
  obtain v where s: "so_set ops (cs_vault st) iv k x = (Ok (), v)" using set_exact [OF assms] by (metis prod.collapse)
  have "wf v" "view v = (view (cs_vault st))(k := Some x)" using set_exact [OF assms, of k x] s by simp_all
  then show ?thesis using s by (auto simp: cs_set_def visible_def legacy_file_remove fun_eq_iff split: option.split)
qed

lemma delete_refines:
  assumes "wf (cs_vault st)"
  shows "fst (cs_delete ops fl st k) =
      (if visible view st k = None then Err (NotFoundError_create ''VaultSecret'' k) else Ok ()) \<and>
    visible view (snd (cs_delete ops fl st k)) =
      (visible view st)(k := if kf_unlink fl then map_option hexToBytes_compat (legacy_file (cs_legacy st) k) else None) \<and>
    wf (cs_vault (snd (cs_delete ops fl st k)))"
proof -
  obtain r v where d: "so_delete ops (cs_vault st) k = (r, v)" by force
  have D: "r = (if view (cs_vault st) k = None then Err (NotFoundError_create ''VaultSecret'' k) else Ok ())"
      "wf v" "view v = (view (cs_vault st))(k := None)"
    using delete_exact [OF assms, of k] d by simp_all
  show ?thesis using d D
    by (cases "view (cs_vault st) k"; cases "legacy_file (cs_legacy st) k")
       (auto simp: cs_delete_def Let_def visible_def legacy_file_remove fun_eq_iff split: option.split)
qed

end

subsection \<open>The vaults keep the contract\<close>

definition memory_view :: "memory_vault \<Rightarrow> string \<Rightarrow> bytes option" where
  "memory_view v k = map_get (mv_secrets v) k"

interpretation memory_secrets: secret_store memory_secret_ops memory_view "\<lambda>_. True"
  by unfold_locales
    (auto simp: memory_secret_ops_def memory_view_def mv_get_def mv_set_def mv_delete_def fun_eq_iff split: option.split)

definition file_view :: "vault_engine \<Rightarrow> bytes \<Rightarrow> vault_files \<Rightarrow> string \<Rightarrow> bytes option" where
  "file_view ve key fs k = Option.bind (map_get (vf_secrets fs) (secretPath k)) (decryptSecret ve key)"

definition file_secrets_wf :: "vault_engine \<Rightarrow> bytes \<Rightarrow> vault_files \<Rightarrow> bool" where
  "file_secrets_wf ve key fs \<longleftrightarrow> vault_laws ve \<and>
     (\<forall>k c. map_get (vf_secrets fs) (secretPath k) = Some c \<longrightarrow> decryptSecret ve key c \<noteq> None)"

lemma decrypt_encrypt: "vault_laws ve \<Longrightarrow> length iv = 12 \<Longrightarrow> decryptSecret ve key (encryptSecret ve key iv val) = Some val"
  using vault_lawsD(1) by (simp add: decryptSecret_def encryptSecret_def IV_BYTES_def)

interpretation file_secrets: secret_store "file_secret_ops ve key None None bad" "file_view ve key" "file_secrets_wf ve key"
  by unfold_locales
    (auto simp: file_secret_ops_def file_view_def file_secrets_wf_def fv_get_def fv_set_def fv_delete_def
      fun_eq_iff decrypt_encrypt split: option.splits, fastforce+)

subsection \<open>Properties\<close>


definition sample_store :: "vault_files compat_store" where
  "sample_store = \<lparr>cs_vault = empty_files, cs_legacy = Some [(''db-key'', ''0aff'')]\<rparr>"


end
