(* ===== verification/SeBridge.thy ===== *)
theory SeBridge
  imports JsValues Errors HexText
begin

text \<open>
  The bridge to the helper program that talks to the Secure Enclave
  (\<^verbatim>\<open>packages/keys/src/se-bridge.ts\<close>, \<^verbatim>\<open>se-protocol.ts\<close>): how its output is turned into
  results, the arguments it is called with, and the encryption of a sealed box. A run of the
  helper is a function from its arguments to what the process did; the curve, key-derivation and
  cipher functions are the fields of \<open>ecies_engine\<close>.
\<close>

subsection \<open>Responses\<close>

datatype key_policy = Policy_biometric | Policy_passcode | Policy_open

definition policy_text :: "key_policy \<Rightarrow> string" where
  "policy_text p = (case p of Policy_biometric \<Rightarrow> ''biometric'' | Policy_passcode \<Rightarrow> ''passcode'' | Policy_open \<Rightarrow> ''open'')"

definition KeyPolicySchema :: "js_value \<Rightarrow> key_policy option" where
  "KeyPolicySchema v =
     (if v = VStr ''biometric'' then Some Policy_biometric
      else if v = VStr ''passcode'' then Some Policy_passcode
      else if v = VStr ''open'' then Some Policy_open else None)"

record se_create_response =
  scr_keyRef :: string
  scr_publicKey :: string
  scr_policy :: key_policy

definition SeCreateResponseSchema :: "js_value \<Rightarrow> se_create_response option" where
  "SeCreateResponseSchema v =
     (case (as_str (js_get v ''keyRef''), as_str (js_get v ''publicKey''), KeyPolicySchema (js_get v ''policy'')) of
        (Some k, Some p, Some pol) \<Rightarrow> Some \<lparr>scr_keyRef = k, scr_publicKey = p, scr_policy = pol\<rparr>
      | _ \<Rightarrow> None)"

definition SeSignResponseSchema :: "js_value \<Rightarrow> string option" where
  "SeSignResponseSchema v = as_str (js_get v ''signature'')"

record se_system_info =
  ssi_available :: bool
  ssi_chip :: "string option"
  ssi_macOS :: "string option"

definition nullable_text :: "js_value \<Rightarrow> string option option" where
  "nullable_text v = (case v of VUndefined \<Rightarrow> Some None | VNull \<Rightarrow> Some None | VStr s \<Rightarrow> Some (Some s) | _ \<Rightarrow> None)"

definition SeSystemInfoResponseSchema :: "js_value \<Rightarrow> se_system_info option" where
  "SeSystemInfoResponseSchema v =
     (case (as_bool (js_get v ''available''), nullable_text (js_get v ''chip''), nullable_text (js_get v ''macOS'')) of
        (Some a, Some c, Some m) \<Rightarrow> Some \<lparr>ssi_available = a, ssi_chip = c, ssi_macOS = m\<rparr>
      | _ \<Rightarrow> None)"

definition SeKeyInfoResponseSchema :: "js_value \<Rightarrow> bool option" where
  "SeKeyInfoResponseSchema v = as_bool (js_get v ''exists'')"

definition SeDecryptResponseSchema :: "js_value \<Rightarrow> string option" where
  "SeDecryptResponseSchema v = as_str (js_get v ''plaintext'')"

record sealed_box =
  sbx_ephemeralPublicKey :: string
  sbx_nonce :: string
  sbx_ciphertext :: string
  sbx_tag :: string

definition sealed_box_js :: "sealed_box \<Rightarrow> js_value" where
  "sealed_box_js b = VObj
     [(''ephemeralPublicKey'', VStr (sbx_ephemeralPublicKey b)), (''nonce'', VStr (sbx_nonce b)),
      (''ciphertext'', VStr (sbx_ciphertext b)), (''tag'', VStr (sbx_tag b))]"

definition SealedBoxSchema :: "js_value \<Rightarrow> sealed_box option" where
  "SealedBoxSchema v =
     (case (as_str (js_get v ''ephemeralPublicKey''), as_str (js_get v ''nonce''),
            as_str (js_get v ''ciphertext''), as_str (js_get v ''tag'')) of
        (Some e, Some n, Some c, Some t) \<Rightarrow>
          Some \<lparr>sbx_ephemeralPublicKey = e, sbx_nonce = n, sbx_ciphertext = c, sbx_tag = t\<rparr>
      | _ \<Rightarrow> None)"

lemma SealedBoxSchema_js: "SealedBoxSchema (sealed_box_js b) = Some b"
  by (cases b) (simp add: SealedBoxSchema_def sealed_box_js_def)

subsection \<open>Finding the helper\<close>

text \<open>
  The candidates in order: the override of the environment with whether it exists, the local build
  if it exists, and the output of \<open>which\<close> if it exited with 0.
\<close>

record signer_search =
  ss_envPath :: "string option"
  ss_exists :: "string \<Rightarrow> bool"
  ss_repoRoot :: "string option"
  ss_which :: "string option"

definition findSignerBinary :: "signer_search \<Rightarrow> string option" where
  "findSignerBinary ss =
     (case ss_envPath ss of
        Some envPath \<Rightarrow> if ss_exists ss envPath then Some envPath else None
      | None \<Rightarrow>
          let localPath = (case ss_repoRoot ss of
                None \<Rightarrow> None
              | Some repoRoot \<Rightarrow>
                  if repoRoot = [] then None
                  else let p = repoRoot @ ''/signet-signer/.build/release/signet-signer''
                       in if ss_exists ss p then Some p else None)
          in (case localPath of
                Some p \<Rightarrow> Some p
              | None \<Rightarrow>
                  (case ss_which ss of
                     None \<Rightarrow> None
                   | Some out \<Rightarrow> let path = js_trim out in if path \<noteq> [] then Some path else None)))"

text \<open>The walk up from the module's directory, at most ten levels.\<close>

fun repo_root_loop :: "(string \<Rightarrow> string) \<Rightarrow> (string \<Rightarrow> bool) \<Rightarrow> nat \<Rightarrow> string \<Rightarrow> string option" where
  "repo_root_loop dirname exists 0 dir = None"
| "repo_root_loop dirname exists (Suc n) dir =
     (if exists (dir @ ''/package.json'') \<and> exists (dir @ ''/signet-signer'') then Some dir
      else let parent = dirname dir
           in if parent = dir then None else repo_root_loop dirname exists n parent)"

definition findRepoRoot :: "(string \<Rightarrow> string) \<Rightarrow> (string \<Rightarrow> bool) \<Rightarrow> string \<Rightarrow> string option" where
  "findRepoRoot dirname exists start = repo_root_loop dirname exists 10 start"

subsection \<open>Running the helper\<close>

datatype process_run =
    Run_throws string
  | Run_ended bool int string string

record signer_env =
  sv_run :: "string list \<Rightarrow> process_run"
  sv_parseJson :: "string \<Rightarrow> js_value option"
  sv_zodMessage :: "js_value \<Rightarrow> string"

definition SUBPROCESS_TIMEOUT_MS :: int where
  "SUBPROCESS_TIMEOUT_MS = 30000"

definition runSigner ::
  "signer_env \<Rightarrow> string list \<Rightarrow> (js_value \<Rightarrow> 'a option) \<Rightarrow> ('a, signet_error) result" where
  "runSigner sv args schema =
     (case sv_run sv args of
        Run_throws cause \<Rightarrow> Err (InternalError_create ''Failed to spawn signet-signer'' (Some [(''cause'', VStr cause)]))
      | Run_ended timedOut code stdout stderr \<Rightarrow>
          if timedOut
          then Err (InternalError_create ''signet-signer timed out''
                 (Some [(''category'', VStr ''timeout''), (''timeoutMs'', VNum (of_int SUBPROCESS_TIMEOUT_MS))]))
          else if code = 2
          then Err (InternalError_create ''SE authentication cancelled by user''
                 (Some [(''category'', VStr ''cancelled''), (''exitCode'', VNum (of_int code)),
                        (''stderr'', VStr (js_trim stderr))]))
          else if code \<noteq> 0
          then Err (InternalError_create ''signet-signer failed''
                 (Some [(''exitCode'', VNum (of_int code)), (''stderr'', VStr (js_trim stderr)),
                        (''args'', VArr (map VStr args))]))
          else
            (case sv_parseJson sv stdout of
               None \<Rightarrow> Err (InternalError_create ''signet-signer returned invalid JSON''
                         (Some [(''stdout'', VStr (take 200 stdout))]))
             | Some parsed \<Rightarrow>
                 (case schema parsed of
                    None \<Rightarrow> Err (InternalError_create ''signet-signer response validation failed''
                              (Some [(''cause'', VStr (sv_zodMessage sv parsed))]))
                  | Some response \<Rightarrow> Ok response)))"

datatype key_purpose = Purpose_signing | Purpose_keyAgreement

definition seCreate :: "signer_env \<Rightarrow> string \<Rightarrow> key_policy \<Rightarrow> key_purpose \<Rightarrow> (se_create_response, signet_error) result" where
  "seCreate sv label policy purpose =
     runSigner sv
       ([''create'', ''--label'', label, ''--policy'', policy_text policy] @
        (if purpose \<noteq> Purpose_signing then [''--purpose'', ''key-agreement''] else []) @ [''--format'', ''json''])
       SeCreateResponseSchema"

definition hex_text :: "8 word list \<Rightarrow> string" where
  "hex_text bytes = concat (map (\<lambda>b. [hex_low (unat b div 16), hex_low (unat b mod 16)]) bytes)"

definition seSign :: "signer_env \<Rightarrow> string \<Rightarrow> 8 word list \<Rightarrow> (string, signet_error) result" where
  "seSign sv keyRef data =
     runSigner sv [''sign'', ''--key-ref'', keyRef, ''--data'', hex_text data, ''--format'', ''json''] SeSignResponseSchema"

definition seInfo :: "signer_env \<Rightarrow> (se_system_info, signet_error) result" where
  "seInfo sv = runSigner sv [''info'', ''--system'', ''--format'', ''json''] SeSystemInfoResponseSchema"

definition seDecrypt :: "signer_env \<Rightarrow> string \<Rightarrow> sealed_box \<Rightarrow> (string, signet_error) result" where
  "seDecrypt sv keyRef sealedBox =
     runSigner sv
       [''decrypt'', ''--key-ref'', keyRef, ''--ephemeral-pub'', sbx_ephemeralPublicKey sealedBox,
        ''--nonce'', sbx_nonce sealedBox, ''--ciphertext'', sbx_ciphertext sealedBox, ''--tag'', sbx_tag sealedBox,
        ''--format'', ''json''] SeDecryptResponseSchema"

definition seDelete :: "signer_env \<Rightarrow> string \<Rightarrow> (unit, signet_error) result" where
  "seDelete sv keyRef =
     (case sv_run sv [''delete'', ''--key-ref'', keyRef, ''--format'', ''json''] of
        Run_throws cause \<Rightarrow>
          Err (InternalError_create ''Failed to spawn signet-signer for delete'' (Some [(''cause'', VStr cause)]))
      | Run_ended timedOut code stdout stderr \<Rightarrow>
          if code \<noteq> 0
          then Err (InternalError_create ''signet-signer delete failed''
                 (Some [(''exitCode'', VNum (of_int code)), (''stderr'', VStr (js_trim stderr))]))
          else Ok ())"

subsection \<open>Sealed boxes\<close>

record ecies_engine =
  ee_publicKey :: "8 word list \<Rightarrow> 8 word list"
  ee_sharedSecret :: "8 word list \<Rightarrow> 8 word list \<Rightarrow> 8 word list option"
  ee_hkdf :: "8 word list \<Rightarrow> string \<Rightarrow> 8 word list"
  ee_gcmEncrypt :: "8 word list \<Rightarrow> 8 word list \<Rightarrow> 8 word list \<Rightarrow> 8 word list"
  ee_gcmDecrypt :: "8 word list \<Rightarrow> 8 word list \<Rightarrow> 8 word list \<Rightarrow> 8 word list option"

definition se_hexToBytes :: "string \<Rightarrow> 8 word list" where
  "se_hexToBytes hex = hex_pairs (to_lower (if starts_with hex ''0x'' then drop 2 hex else hex))"

text \<open>The ephemeral secret and the nonce are random; an invalid public key throws.\<close>

definition seEncrypt ::
  "ecies_engine \<Rightarrow> 8 word list \<Rightarrow> 8 word list \<Rightarrow> string \<Rightarrow> 8 word list \<Rightarrow> sealed_box option" where
  "seEncrypt ee ephPriv nonce publicKeyHex plaintext =
     (let sePubBytes = se_hexToBytes publicKeyHex;
          ephPub = ee_publicKey ee ephPriv
      in case ee_sharedSecret ee ephPriv sePubBytes of
           None \<Rightarrow> None
         | Some sharedPoint \<Rightarrow>
             let sharedX = take 32 (drop 1 sharedPoint);
                 aesKey = ee_hkdf ee sharedX ''signet-vault-ecies'';
                 encrypted = ee_gcmEncrypt ee aesKey nonce plaintext;
                 ct = take (length encrypted - 16) encrypted;
                 tag = drop (length encrypted - 16) encrypted
             in Some \<lparr>sbx_ephemeralPublicKey = hex_text ephPub, sbx_nonce = hex_text nonce,
                      sbx_ciphertext = hex_text ct, sbx_tag = hex_text tag\<rparr>)"

text \<open>
  Whoever holds the secret of the recipient's key opens the box: the four parts are read back,
  the tag is put after the ciphertext, and the two sides compute the same point.
\<close>

definition open_box :: "ecies_engine \<Rightarrow> 8 word list \<Rightarrow> sealed_box \<Rightarrow> 8 word list option" where
  "open_box ee secret box =
     (case ee_sharedSecret ee secret (se_hexToBytes (sbx_ephemeralPublicKey box)) of
        None \<Rightarrow> None
      | Some point \<Rightarrow>
          ee_gcmDecrypt ee (ee_hkdf ee (take 32 (drop 1 point)) ''signet-vault-ecies'')
            (se_hexToBytes (sbx_nonce box))
            (se_hexToBytes (sbx_ciphertext box) @ se_hexToBytes (sbx_tag box)))"

lemma hex_low_not_x: "n < 16 \<Longrightarrow> hex_low n \<noteq> CHR ''x''"
proof -
  have "list_all (\<lambda>n. hex_low n \<noteq> CHR ''x'') [0..<16]" by code_simp
  then show "n < 16 \<Longrightarrow> hex_low n \<noteq> CHR ''x''" by (simp add: list_all_iff)
qed

lemma hex_roundtrip: "se_hexToBytes (hex_text bytes) = bytes"
proof -
  have "\<not> starts_with (hex_text bytes) ''0x''"
  proof (cases bytes)
    case (Cons b bs)
    have "unat b mod 16 < 16" by simp
    then show ?thesis using Cons hex_low_not_x by (auto simp: hex_text_def starts_with_def)
  qed (simp add: hex_text_def starts_with_def)
  then show ?thesis by (simp add: se_hexToBytes_def to_lower_written hex_pairs_write flip: hex_text_def)
     (simp add: hex_text_def to_lower_written hex_pairs_write)
qed

lemma box_opens:
  assumes "ee_sharedSecret ee ephPriv (se_hexToBytes publicKeyHex) = Some point"
    and "ee_sharedSecret ee secret (ee_publicKey ee ephPriv) = Some point"
    and "\<And>key n p. ee_gcmDecrypt ee key n (ee_gcmEncrypt ee key n p) = Some p"
  shows "\<exists>box. seEncrypt ee ephPriv nonce publicKeyHex plaintext = Some box \<and> open_box ee secret box = Some plaintext"
  using assms by (simp add: seEncrypt_def open_box_def Let_def hex_roundtrip)

subsection \<open>Properties\<close>

text \<open>A sealed box made for a public key is opened by the secret that the key belongs to and gives
  back the plaintext, given that the two sides of the key agreement compute the same point and
  that the cipher decrypts what it encrypts.\<close>

theorem sealed_box_roundtrip:
  assumes "ee_sharedSecret ee ephPriv (se_hexToBytes publicKeyHex) = Some point"
    and "ee_sharedSecret ee secret (ee_publicKey ee ephPriv) = Some point"
    and "\<And>key n p. ee_gcmDecrypt ee key n (ee_gcmEncrypt ee key n p) = Some p"
  shows "Option.bind (seEncrypt ee ephPriv nonce publicKeyHex plaintext) (open_box ee secret) = Some plaintext"
  using box_opens [OF assms, of nonce plaintext] by auto

definition sample_ecies :: ecies_engine where
  "sample_ecies =
     \<lparr>ee_publicKey = (\<lambda>k. 4 # k), ee_sharedSecret = (\<lambda>a b. Some (4 # map (\<lambda>(x, y). x + y) (zip a (drop 1 b)))),
      ee_hkdf = (\<lambda>x s. x), ee_gcmEncrypt = (\<lambda>k n p. p @ replicate 16 9), ee_gcmDecrypt = (\<lambda>k n c. Some (take (length c - 16) c))\<rparr>"

theorem sealed_box_roundtrip_witness:
  "Option.bind (seEncrypt sample_ecies [1, 2] [5] (hex_text (4 # [3, 7])) [42]) (open_box sample_ecies [3, 7]) = Some [42]"
proof (rule sealed_box_roundtrip)
  show "ee_sharedSecret sample_ecies [1, 2] (se_hexToBytes (hex_text (4 # [3, 7]))) =
      Some [4, 4, 9]"
    unfolding hex_roundtrip by (simp add: sample_ecies_def)
  show "ee_sharedSecret sample_ecies [3, 7] (ee_publicKey sample_ecies [1, 2]) =
      Some [4, 4, 9]"
    by (simp add: sample_ecies_def)
qed (simp add: sample_ecies_def)

end
