(* ===== verification/SecretProvider.thy ===== *)
theory SecretProvider
  imports SeBridge
begin

text \<open>
  The platform's key storage (\<^verbatim>\<open>packages/keys/src/platform.ts\<close>) and where the vault's secret
  comes from (\<^verbatim>\<open>vault-secret-provider.ts\<close>): files of the data directory, or the Secure Enclave
  through the helper program. The data directory is the record of the files concerned, each with
  its content; \<open>fault\<close> arguments are failures of single accesses to the disk.
\<close>

subsection \<open>Platform\<close>

datatype platform_capability =
    Cap_secure_enclave | Cap_keychain_software | Cap_tpm | Cap_software_vault

datatype key_trust_tier = KTT_unverified | KTT_source_verified

record platform_env =
  pe_isDarwin :: bool
  pe_signerPath :: "string option"
  pe_info :: process_run
  pe_parseJson :: "string \<Rightarrow> js_value option"

definition has_signer :: "platform_env \<Rightarrow> bool" where
  "has_signer pe = (case pe_signerPath pe of None \<Rightarrow> False | Some p \<Rightarrow> p \<noteq> [])"

definition detectPlatformUncached :: "platform_env \<Rightarrow> platform_capability" where
  "detectPlatformUncached pe =
     (if \<not> pe_isDarwin pe then Cap_software_vault
      else if \<not> has_signer pe then Cap_software_vault
      else
        (case pe_info pe of
           Run_throws _ \<Rightarrow> Cap_software_vault
         | Run_ended timedOut code stdout stderr \<Rightarrow>
             if timedOut \<or> code \<noteq> 0 then Cap_software_vault
             else
               (case pe_parseJson pe stdout of
                  None \<Rightarrow> Cap_software_vault
                | Some parsed \<Rightarrow>
                    if js_member parsed ''available'' = Some (VBool True) then Cap_secure_enclave
                    else Cap_software_vault)))"

definition detectPlatform :: "platform_env \<Rightarrow> platform_capability option \<Rightarrow> platform_capability \<times> platform_capability option" where
  "detectPlatform pe cachedPlatform =
     (case cachedPlatform of
        Some p \<Rightarrow> (p, Some p)
      | None \<Rightarrow> let p = detectPlatformUncached pe in (p, Some p))"

definition resetPlatformCache :: "platform_capability option" where
  "resetPlatformCache = None"

definition platformToTrustTier :: "platform_capability \<Rightarrow> key_trust_tier" where
  "platformToTrustTier p =
     (case p of Cap_secure_enclave \<Rightarrow> KTT_source_verified | Cap_keychain_software \<Rightarrow> KTT_source_verified
              | Cap_tpm \<Rightarrow> KTT_source_verified | Cap_software_vault \<Rightarrow> KTT_unverified)"

subsection \<open>The data directory\<close>

record secret_files =
  sf_key :: "8 word list option"
  sf_passphrase :: "string option"
  sf_keyRef :: "string option"
  sf_sealedBox :: "string option"
  sf_publicKey :: "string option"

definition normalizeVaultSecret :: "string \<Rightarrow> string \<Rightarrow> (string, signet_error) result" where
  "normalizeVaultSecret val source =
     (let normalized = to_lower (js_trim val)
      in if length normalized = 64 \<and> list_all (\<lambda>c. c \<in> set ''0123456789abcdef'') normalized
         then Ok normalized
         else Err (InternalError_create ''Vault secret is malformed'' (Some [(''source'', VStr source)])))"

datatype artifact_state = Artifacts_existing | Artifacts_fresh

definition validateSeVaultArtifacts :: "secret_files \<Rightarrow> (artifact_state, signet_error) result" where
  "validateSeVaultArtifacts d =
     (let hasKeyRef = (sf_keyRef d \<noteq> None); hasSealedBox = (sf_sealedBox d \<noteq> None);
          hasPublicKey = (sf_publicKey d \<noteq> None)
      in if \<not> (hasKeyRef \<or> hasSealedBox \<or> hasPublicKey) then Ok Artifacts_fresh
         else if hasKeyRef \<and> hasSealedBox then Ok Artifacts_existing
         else
           Err (InternalError_create
             ''Vault Secure Enclave metadata is incomplete. Refusing to reinitialize automatically.''
             (Some
               [(''present'', VArr (map VStr
                   ((if hasKeyRef then [''se-vault-keyref''] else []) @
                    (if hasSealedBox then [''vault-sealed-box.json''] else []) @
                    (if hasPublicKey then [''se-vault-pubkey''] else [])))),
                (''missing'', VArr (map VStr
                   ((if hasKeyRef then [] else [''se-vault-keyref'']) @
                    (if hasSealedBox then [] else [''vault-sealed-box.json'']))))])))"

subsection \<open>The Secure Enclave provider\<close>

record enclave_env =
  en_signer :: signer_env
  en_ecies :: ecies_engine
  en_stringify :: "js_value \<Rightarrow> string"
  en_parse :: "string \<Rightarrow> js_value option"
  en_errorText :: "string \<Rightarrow> string"

text \<open>The random values of a first run, and the accesses that fail, with the text of the failure.\<close>

record first_run =
  fr_secretBytes :: "8 word list"
  fr_ephPriv :: "8 word list"
  fr_nonce :: "8 word list"
  fr_readFault :: "string option"
  fr_writeFault :: "string option"
  fr_keyRefFault :: "string option"
  fr_publicKeyFault :: "string option"
  fr_sealedBoxFault :: "string option"

definition provider_failed :: "string \<Rightarrow> signet_error" where
  "provider_failed cause = InternalError_create ''SE vault secret provider failed'' (Some [(''cause'', VStr cause)])"

text \<open>The stored box is not validated: a part that is not a text makes the start of the helper throw, which is
  answered as a failure to decrypt; only reading a part of \<open>null\<close> throws outside of the helper.\<close>

definition resolveSecret ::
  "enclave_env \<Rightarrow> key_policy \<Rightarrow> first_run \<Rightarrow> secret_files \<Rightarrow> (string, signet_error) result \<times> secret_files" where
  "resolveSecret en policy fr d =
     (case validateSeVaultArtifacts d of
        Err e \<Rightarrow> (Err e, d)
      | Ok Artifacts_existing \<Rightarrow>
          (case (fr_readFault fr, Option.bind (sf_sealedBox d) (en_parse en)) of
             (Some cause, _) \<Rightarrow> (Err (provider_failed cause), d)
           | (None, None) \<Rightarrow> (Err (provider_failed (en_errorText en ''parse'')), d)
           | (None, Some boxValue) \<Rightarrow>
               (case SealedBoxSchema boxValue of
                  None \<Rightarrow>
                    (Err (if boxValue = VNull then provider_failed (en_errorText en ''box'')
                          else InternalError_create ''Failed to decrypt vault secret from SE''
                                 (Some [(''cause'', VStr ''Failed to spawn signet-signer'')])), d)
                | Some box \<Rightarrow>
                    (case seDecrypt (en_signer en) (nullish (sf_keyRef d) []) box of
                       Err e \<Rightarrow>
                         (Err (InternalError_create ''Failed to decrypt vault secret from SE''
                            (Some [(''cause'', VStr (err_message e))])), d)
                     | Ok plaintext \<Rightarrow> (normalizeVaultSecret plaintext ''secure-enclave'', d))))
      | Ok Artifacts_fresh \<Rightarrow>
          (case seCreate (en_signer en) ''signet-vault-root'' policy Purpose_keyAgreement of
             Err e \<Rightarrow>
               (Err (InternalError_create ''Failed to create SE vault key''
                  (Some [(''cause'', VStr (err_message e))])), d)
           | Ok created \<Rightarrow>
               (case fr_keyRefFault fr of
                  Some cause \<Rightarrow> (Err (provider_failed cause), d)
                | None \<Rightarrow>
                    let d1 = d\<lparr>sf_keyRef := Some (scr_keyRef created)\<rparr>
                    in (case fr_publicKeyFault fr of
                          Some cause \<Rightarrow> (Err (provider_failed cause), d1)
                        | None \<Rightarrow>
                            let d2 = d1\<lparr>sf_publicKey := Some (scr_publicKey created)\<rparr>;
                                secretHex = hex_text (fr_secretBytes fr)
                            in (case seEncrypt (en_ecies en) (fr_ephPriv fr) (fr_nonce fr)
                                       (scr_publicKey created) (fr_secretBytes fr) of
                                  None \<Rightarrow> (Err (provider_failed (en_errorText en ''encrypt'')), d2)
                                | Some box \<Rightarrow>
                                    (case fr_sealedBoxFault fr of
                                       Some cause \<Rightarrow> (Err (provider_failed cause), d2)
                                     | None \<Rightarrow>
                                         (Ok secretHex,
                                          d2\<lparr>sf_sealedBox := Some (en_stringify en (sealed_box_js box))\<rparr>)))))))"

subsection \<open>The software provider\<close>

text \<open>
  The result, what the provider remembers from then on, and the directory. The new secret is
  remembered before it is written.
\<close>

definition software_failed :: "string \<Rightarrow> signet_error" where
  "software_failed cause =
     InternalError_create ''Failed to resolve software vault secret'' (Some [(''cause'', VStr cause)])"

definition software_secret ::
  "first_run \<Rightarrow> secret_files \<Rightarrow> (string, signet_error) result \<times> string option \<times> secret_files" where
  "software_secret fr d =
     (case fr_readFault fr of
        Some cause \<Rightarrow> (Err (software_failed cause), None, d)
      | None \<Rightarrow>
          (case sf_key d of
             Some raw \<Rightarrow>
               if length raw \<noteq> 32
               then (Err (InternalError_create ''Vault key is malformed''
                       (Some [(''source'', VStr ''software-vault''), (''expectedBytes'', VNum 32),
                              (''actualBytes'', VNum (of_nat (length raw)))])), None, d)
               else (Ok (hex_text raw), Some (hex_text raw), d)
           | None \<Rightarrow>
               (case sf_passphrase d of
                  Some text \<Rightarrow>
                    (case normalizeVaultSecret text ''software-vault'' of
                       Err e \<Rightarrow> (Err e, None, d)
                     | Ok secret \<Rightarrow> (Ok secret, Some secret, d))
                | None \<Rightarrow>
                    let secret = hex_text (fr_secretBytes fr)
                    in (case fr_writeFault fr of
                          Some cause \<Rightarrow> (Err (software_failed cause), Some secret, d)
                        | None \<Rightarrow> (Ok secret, Some secret, d\<lparr>sf_passphrase := Some secret\<rparr>)))))"

subsection \<open>Providers and their cache\<close>

datatype secret_provider =
    Provider_enclave key_policy
  | Provider_software
  | Provider_error string "err_context option"

definition provider_kind :: "secret_provider \<Rightarrow> string" where
  "provider_kind p = (case p of Provider_enclave _ \<Rightarrow> ''secure-enclave'' | _ \<Rightarrow> ''software'')"

definition remembered :: "(string, signet_error) result \<Rightarrow> string option" where
  "remembered r = (case r of Ok s \<Rightarrow> Some s | Err _ \<Rightarrow> None)"

definition provider_resolve ::
  "enclave_env \<Rightarrow> first_run \<Rightarrow> secret_provider \<Rightarrow> secret_files \<Rightarrow>
   (string, signet_error) result \<times> string option \<times> secret_files" where
  "provider_resolve en fr p d =
     (case p of
        Provider_enclave policy \<Rightarrow> (case resolveSecret en policy fr d of (r, d') \<Rightarrow> (r, remembered r, d'))
      | Provider_software \<Rightarrow> software_secret fr d
      | Provider_error message context \<Rightarrow> (Err (InternalError_create message context), None, d))"

text \<open>A call answers from what the provider remembers, or resolves.\<close>

definition getSecret ::
  "enclave_env \<Rightarrow> first_run \<Rightarrow> secret_provider \<Rightarrow> string option \<Rightarrow> secret_files \<Rightarrow>
   (string, signet_error) result \<times> string option \<times> secret_files" where
  "getSecret en fr p cached d =
     (case cached of
        Some s \<Rightarrow> (Ok s, Some s, d)
      | None \<Rightarrow> provider_resolve en fr p d)"

text \<open>
  For the Secure Enclave a call that finds a resolution under way joins it; the one that started
  it clears the mark when it ends.
\<close>

record enclave_state =
  est_cached :: "string option"
  est_inflight :: bool

datatype secret_begin = Begin_answer string | Begin_join | Begin_resolve

definition getSecret_begin :: "enclave_state \<Rightarrow> secret_begin \<times> enclave_state" where
  "getSecret_begin st =
     (case est_cached st of
        Some s \<Rightarrow> (Begin_answer s, st)
      | None \<Rightarrow> if est_inflight st then (Begin_join, st) else (Begin_resolve, st\<lparr>est_inflight := True\<rparr>))"

definition getSecret_end :: "(string, signet_error) result \<Rightarrow> enclave_state \<Rightarrow> enclave_state" where
  "getSecret_end r st =
     \<lparr>est_cached = (case remembered r of Some s \<Rightarrow> Some s | None \<Rightarrow> est_cached st), est_inflight = False\<rparr>"

definition resolveVaultSecretProvider ::
  "secret_files \<Rightarrow> key_policy \<Rightarrow> string option \<Rightarrow> platform_capability \<Rightarrow> secret_provider" where
  "resolveVaultSecretProvider d policy signerPath platform =
     (let found = (case signerPath of None \<Rightarrow> False | Some p \<Rightarrow> p \<noteq> [])
      in if sf_key d \<noteq> None \<or> sf_passphrase d \<noteq> None then Provider_software
         else
           (case validateSeVaultArtifacts d of
              Err e \<Rightarrow> Provider_error (err_message e) (err_context e)
            | Ok Artifacts_existing \<Rightarrow>
                if found then Provider_enclave policy
                else Provider_error
                  ''Vault was created with Secure Enclave but signet-signer binary not found. Cannot decrypt vault secret.''
                  (Some [(''present'', VArr (map VStr
                     ((if sf_keyRef d \<noteq> None then [''se-vault-keyref''] else []) @
                      (if sf_sealedBox d \<noteq> None then [''vault-sealed-box.json''] else []) @
                      (if sf_publicKey d \<noteq> None then [''se-vault-pubkey''] else []))))])
            | Ok Artifacts_fresh \<Rightarrow>
                if platform = Cap_secure_enclave \<and> found then Provider_enclave policy else Provider_software))"

subsection \<open>Secrets are 64 hexadecimal digits\<close>

lemma hex_low_set: "n < 16 \<Longrightarrow> hex_low n \<in> set ''0123456789abcdef''"
  using nth_mem [of n "''0123456789abcdef''"] by (simp add: hex_low_def del: set_simps)

lemma hex_text_digits: "list_all (\<lambda>c. c \<in> set ''0123456789abcdef'') (hex_text bytes)"
proof (induction bytes)
  case (Cons b bytes)
  have "unat b div 16 < 16" "unat b mod 16 < 16"
    using unsigned_less [where ?'a = nat, of b] by simp_all
  then show ?case using Cons hex_low_set by (simp add: hex_text_def del: set_simps)
qed (simp add: hex_text_def)

lemma hex_text_length: "length (hex_text bytes) = 2 * length bytes"
  by (induction bytes) (simp_all add: hex_text_def)

lemma digit_plain: "list_all (\<lambda>c. to_lower_char c = c \<and> \<not> is_js_space c) ''0123456789abcdef''"
  by code_simp

lemma normal_text:
  assumes "list_all (\<lambda>c. c \<in> set ''0123456789abcdef'') s"
  shows "js_trim s = s" "to_lower s = s"
proof -
  have plain: "to_lower_char c = c" "\<not> is_js_space c" if "c \<in> set s" for c
    using assms that digit_plain unfolding list_all_iff by blast+
  show "to_lower s = s" using plain(1) by (simp add: to_lower_def map_idI)
  have "dropWhile is_js_space xs = xs" if "set xs \<subseteq> set s" for xs
    using that plain(2) by (cases xs) auto
  then show "js_trim s = s" by (simp add: js_trim_def)
qed

lemma normalize_normal:
  "length s = 64 \<Longrightarrow> list_all (\<lambda>c. c \<in> set ''0123456789abcdef'') s \<Longrightarrow> normalizeVaultSecret s source = Ok s"
  by (simp add: normalizeVaultSecret_def normal_text Let_def)

lemma normalize_digits:
  "normalizeVaultSecret s source = Ok t \<Longrightarrow> length t = 64 \<and> list_all (\<lambda>c. c \<in> set ''0123456789abcdef'') t"
  by (auto simp: normalizeVaultSecret_def Let_def simp del: set_simps split: if_splits)

subsection \<open>Properties\<close>

text \<open>What is documented of the helper: it decrypts what was encrypted for a key that it made; and a
  box is read back from its JSON text.\<close>

definition enclave_laws :: "enclave_env \<Rightarrow> bool" where
  "enclave_laws en \<longleftrightarrow>
     (\<forall>label policy created eph nonce bytes box.
        seCreate (en_signer en) label policy Purpose_keyAgreement = Ok created \<longrightarrow>
        seEncrypt (en_ecies en) eph nonce (scr_publicKey created) bytes = Some box \<longrightarrow>
        en_parse en (en_stringify en (sealed_box_js box)) = Some (sealed_box_js box) \<and>
        seDecrypt (en_signer en) (scr_keyRef created) box = Ok (hex_text bytes))"

lemma enclave_secret_stable:
  assumes "enclave_laws en" "length (fr_secretBytes fr) = 32" "fr_readFault fr' = None"
    and "resolveSecret en policy fr d = (Ok s, d')"
  shows "validateSeVaultArtifacts d' = Ok Artifacts_existing \<and> resolveSecret en policy' fr' d' = (Ok s, d') \<and>
    sf_key d' = sf_key d \<and> sf_passphrase d' = sf_passphrase d \<and>
    length s = 64 \<and> list_all (\<lambda>c. c \<in> set ''0123456789abcdef'') s"
proof (cases "validateSeVaultArtifacts d")
  case (Ok a)
  show ?thesis
  proof (cases a)
    case Artifacts_existing
    then show ?thesis using Ok assms normalize_digits
      by (auto simp: resolveSecret_def simp del: set_simps split: option.splits result.splits)
  next
    case Artifacts_fresh
    then obtain created box where c: "seCreate (en_signer en) ''signet-vault-root'' policy Purpose_keyAgreement = Ok created"
        "seEncrypt (en_ecies en) (fr_ephPriv fr) (fr_nonce fr) (scr_publicKey created) (fr_secretBytes fr) = Some box"
        "s = hex_text (fr_secretBytes fr)"
        "d' = d\<lparr>sf_keyRef := Some (scr_keyRef created), sf_publicKey := Some (scr_publicKey created),
               sf_sealedBox := Some (en_stringify en (sealed_box_js box))\<rparr>"
      using Ok assms(4) by (auto simp: resolveSecret_def Let_def split: result.splits option.splits)
    have "seDecrypt (en_signer en) (scr_keyRef created) box = Ok s"
      using assms(1) c(1,2,3) unfolding enclave_laws_def by blast
    moreover have "en_parse en (en_stringify en (sealed_box_js box)) = Some (sealed_box_js box)"
      using assms(1) c(1,2) unfolding enclave_laws_def by blast
    moreover have digits: "length s = 64" "list_all (\<lambda>c. c \<in> set ''0123456789abcdef'') s"
      using assms(2) c(3) hex_text_length hex_text_digits by (simp_all del: set_simps)
    moreover have "validateSeVaultArtifacts d' = Ok Artifacts_existing"
      by (simp add: validateSeVaultArtifacts_def c(4))
    ultimately show ?thesis
      using assms(3) normalize_normal [OF digits]
      by (simp add: resolveSecret_def c(4) SealedBoxSchema_js del: set_simps)
  qed
next
  case (Err e)
  then show ?thesis using assms(4) by (simp add: resolveSecret_def)
qed

lemma software_secret_stable:
  assumes "length (fr_secretBytes fr) = 32" "fr_readFault fr' = None"
    and "software_secret fr d = (Ok s, c, d')"
  shows "software_secret fr' d' = (Ok s, Some s, d') \<and> (sf_key d' \<noteq> None \<or> sf_passphrase d' \<noteq> None) \<and>
    length s = 64 \<and> list_all (\<lambda>c. c \<in> set ''0123456789abcdef'') s"
proof (cases "sf_key d")
  case (Some raw)
  then show ?thesis using assms hex_text_length [of raw] hex_text_digits [of raw]
    by (auto simp: software_secret_def simp del: set_simps split: option.splits if_splits)
next
  case key: None
  show ?thesis
  proof (cases "sf_passphrase d")
    case (Some stored)
    then show ?thesis using key assms normalize_digits
      by (auto simp: software_secret_def simp del: set_simps split: option.splits result.splits)
  next
    case None
    then have s: "s = hex_text (fr_secretBytes fr)" "d' = d\<lparr>sf_passphrase := Some s\<rparr>"
      using key assms(3) by (auto simp: software_secret_def Let_def split: option.splits)
    have digits: "length s = 64" "list_all (\<lambda>c. c \<in> set ''0123456789abcdef'') s"
      using assms(1) s(1) hex_text_length hex_text_digits by (simp_all del: set_simps)
    then show ?thesis using key None assms(2) normalize_normal [OF digits]
      by (simp add: software_secret_def s(2) del: set_simps)
  qed
qed

text \<open>C20: Once the vault's secret has been given out for a data directory, every later start of the
  program on the directory gives out the same secret, whatever the platform detection and the
  policy say by then, as long as the helper is still found if it was used; the secret is 64
  lower-case hexadecimal digits.\<close>

theorem vault_secret_stable:
  assumes "enclave_laws en" "length (fr_secretBytes fr) = 32" "fr_readFault fr' = None" "signer' \<noteq> []"
    and "getSecret en fr (resolveVaultSecretProvider d policy signer platform) None d = (Ok s, c, d')"
  shows "getSecret en fr' (resolveVaultSecretProvider d' policy' (Some signer') platform') None d' = (Ok s, Some s, d') \<and>
    length s = 64 \<and> list_all (\<lambda>c. c \<in> set ''0123456789abcdef'') s"
proof (cases "resolveVaultSecretProvider d policy signer platform")
  case (Provider_enclave q)
  then have d: "sf_key d = None" "sf_passphrase d = None"
    by (auto simp: resolveVaultSecretProvider_def Let_def split: if_splits result.splits artifact_state.splits)
  have "resolveSecret en q fr d = (Ok s, d')"
    using assms(5) Provider_enclave by (auto simp: getSecret_def provider_resolve_def split: prod.splits)
  from enclave_secret_stable [OF assms(1-3) this, of policy'] show ?thesis
    using d assms(4)
    by (simp add: resolveVaultSecretProvider_def getSecret_def provider_resolve_def remembered_def Let_def del: set_simps)
next
  case Provider_software
  then have "software_secret fr d = (Ok s, c, d')"
    using assms(5) by (simp add: getSecret_def provider_resolve_def)
  from software_secret_stable [OF assms(2,3) this] show ?thesis
    by (auto simp: resolveVaultSecretProvider_def getSecret_def provider_resolve_def Let_def simp del: set_simps)
next
  case (Provider_error m ctx)
  then show ?thesis using assms(5) by (simp add: getSecret_def provider_resolve_def)
qed

text \<open>A new software secret that could not be written is remembered all the same: the call fails,
  but the next one gives out a secret that is on no disk.\<close>

lemma unwritten_secret_served:
  assumes "sf_key d = None" "sf_passphrase d = None" "fr_readFault fr = None" "fr_writeFault fr = Some cause"
  shows "\<exists>c. getSecret en fr Provider_software None d = (Err (software_failed cause), c, d) \<and>
    getSecret en fr' Provider_software c d = (Ok (hex_text (fr_secretBytes fr)), c, d)"
  using assms by (simp add: getSecret_def provider_resolve_def software_secret_def Let_def)

text \<open>A helper that keeps one key.\<close>

definition sample_run :: "string list \<Rightarrow> process_run" where
  "sample_run args =
     (case args of
        cmd # _ # k # _ # e # _ # n # _ # c # _ # t # _ \<Rightarrow>
          if cmd = ''decrypt''
          then (case open_box sample_ecies [3, 7] \<lparr>sbx_ephemeralPublicKey = e, sbx_nonce = n, sbx_ciphertext = c, sbx_tag = t\<rparr> of
                  None \<Rightarrow> Run_ended False 1 [] [] | Some p \<Rightarrow> Run_ended False 0 (hex_text p) [])
          else Run_ended False 0 ''CREATED'' []
      | _ \<Rightarrow> Run_ended False 0 ''CREATED'' [])"

definition sample_signer :: signer_env where
  "sample_signer =
     \<lparr>sv_run = sample_run,
      sv_parseJson = (\<lambda>s. Some (if s = ''CREATED''
         then VObj [(''keyRef'', VStr ''key''), (''publicKey'', VStr (hex_text [4, 3, 7])), (''policy'', VStr ''open'')]
         else VObj [(''plaintext'', VStr s)])),
      sv_zodMessage = (\<lambda>_. [])\<rparr>"

definition sample_enclave :: enclave_env where
  "sample_enclave =
     \<lparr>en_signer = sample_signer, en_ecies = sample_ecies,
      en_stringify = (\<lambda>v. case SealedBoxSchema v of None \<Rightarrow> []
         | Some b \<Rightarrow> join_with ''|'' [sbx_ephemeralPublicKey b, sbx_nonce b, sbx_ciphertext b, sbx_tag b]),
      en_parse = (\<lambda>s. case split_on (CHR ''|'') s of
           [e, n, c, t] \<Rightarrow> Some (sealed_box_js \<lparr>sbx_ephemeralPublicKey = e, sbx_nonce = n, sbx_ciphertext = c, sbx_tag = t\<rparr>)
         | _ \<Rightarrow> None),
      en_errorText = (\<lambda>s. s)\<rparr>"

lemma hex_text_no_bar: "CHR ''|'' \<notin> set (hex_text bytes)" "hex_text bytes \<noteq> ''CREATED''"
proof -
  have "CHR ''|'' \<notin> set ''0123456789abcdef''" "CHR ''C'' \<notin> set ''0123456789abcdef''" by simp_all
  then show "CHR ''|'' \<notin> set (hex_text bytes)" "hex_text bytes \<noteq> ''CREATED''"
    using hex_text_digits [of bytes] unfolding list_all_iff by (blast, metis list.set_intros(1))
qed

lemma sample_enclave_laws: "enclave_laws sample_enclave"
proof -
  have "en_parse sample_enclave (en_stringify sample_enclave (sealed_box_js box)) = Some (sealed_box_js box) \<and>
      seDecrypt sample_signer k box = Ok (hex_text bytes)"
    if "seEncrypt sample_ecies eph nonce (hex_text [4, 3, 7]) bytes = Some box" for eph nonce bytes box k
  proof -
    have parts: "\<exists>e n c t. box = \<lparr>sbx_ephemeralPublicKey = hex_text e, sbx_nonce = hex_text n,
        sbx_ciphertext = hex_text c, sbx_tag = hex_text t\<rparr>"
      using that by (auto simp: seEncrypt_def Let_def split: option.splits)
    have "map (\<lambda>(x, y). x + y) (zip eph [3, 7]) = map (\<lambda>(x, y). x + y) (zip [3, 7 :: 8 word] eph)"
      by (subst zip_commute) (simp add: comp_def split_beta add.commute)
    then have "\<exists>box'. seEncrypt sample_ecies eph nonce (hex_text [4, 3, 7]) bytes = Some box' \<and>
        open_box sample_ecies [3, 7] box' = Some bytes"
      by (intro box_opens [where point = "4 # map (\<lambda>(x, y). x + y) (zip eph [3, 7])"])
        (simp_all add: hex_roundtrip sample_ecies_def)
    then have "open_box sample_ecies [3, 7] box = Some bytes" using that by simp
    then have "seDecrypt sample_signer k box = Ok (hex_text bytes)"
      by (cases box) (simp add: seDecrypt_def runSigner_def sample_signer_def sample_run_def hex_text_no_bar
          SeDecryptResponseSchema_def)
    moreover have "en_parse sample_enclave (en_stringify sample_enclave (sealed_box_js box)) = Some (sealed_box_js box)"
    proof -
      have "split_on (CHR ''|'') (join_with ''|'' [sbx_ephemeralPublicKey box, sbx_nonce box, sbx_ciphertext box, sbx_tag box]) =
          [sbx_ephemeralPublicKey box, sbx_nonce box, sbx_ciphertext box, sbx_tag box]"
        using parts hex_text_no_bar(1) by (intro split_join) auto
      then show ?thesis by (simp add: sample_enclave_def SealedBoxSchema_js) (simp add: sealed_box_js_def)
    qed
    ultimately show ?thesis by blast
  qed
  moreover have "scr_publicKey created = hex_text [4, 3, 7]"
    if "seCreate sample_signer label policy Purpose_keyAgreement = Ok created" for label policy created
    using that by (auto simp: seCreate_def runSigner_def sample_signer_def sample_run_def SeCreateResponseSchema_def
        KeyPolicySchema_def)
  ultimately show ?thesis unfolding enclave_laws_def
    by (metis (no_types, lifting) sample_enclave_def enclave_env.select_convs(1,2))
qed

definition sample_run_values :: first_run where
  "sample_run_values = \<lparr>fr_secretBytes = replicate 32 171, fr_ephPriv = [1, 2], fr_nonce = [5], fr_readFault = None,
     fr_writeFault = None, fr_keyRefFault = None, fr_publicKeyFault = None, fr_sealedBoxFault = None\<rparr>"

definition no_secret_files :: secret_files where
  "no_secret_files = \<lparr>sf_key = None, sf_passphrase = None, sf_keyRef = None, sf_sealedBox = None, sf_publicKey = None\<rparr>"

lemma sample_first_run:
  "\<exists>c d. getSecret sample_enclave sample_run_values
     (resolveVaultSecretProvider no_secret_files Policy_biometric (Some ''signer'') Cap_secure_enclave) None no_secret_files =
     (Ok (hex_text (replicate 32 171)), c, d)"
  by (simp add: resolveVaultSecretProvider_def no_secret_files_def validateSeVaultArtifacts_def Let_def getSecret_def
      provider_resolve_def resolveSecret_def sample_enclave_def sample_signer_def sample_run_def seCreate_def runSigner_def
      policy_text_def SeCreateResponseSchema_def KeyPolicySchema_def sample_run_values_def seEncrypt_def sample_ecies_def)

theorem vault_secret_stable_witness:
  "\<exists>c d. getSecret sample_enclave sample_run_values
     (resolveVaultSecretProvider no_secret_files Policy_biometric (Some ''signer'') Cap_secure_enclave) None no_secret_files =
     (Ok (hex_text (replicate 32 171)), c, d) \<and>
   getSecret sample_enclave sample_run_values (resolveVaultSecretProvider d Policy_open (Some ''signer'') Cap_software_vault) None d =
     (Ok (hex_text (replicate 32 171)), Some (hex_text (replicate 32 171)), d)"
proof -
  obtain c d where first: "getSecret sample_enclave sample_run_values
     (resolveVaultSecretProvider no_secret_files Policy_biometric (Some ''signer'') Cap_secure_enclave) None no_secret_files =
     (Ok (hex_text (replicate 32 171)), c, d)"
    using sample_first_run by blast
  have "length (fr_secretBytes sample_run_values) = 32" "fr_readFault sample_run_values = None"
    by (simp_all add: sample_run_values_def)
  from vault_secret_stable [OF sample_enclave_laws this _ first, of "''signer''"] show ?thesis
    using first by blast
qed

end
