(* ===== verification/KeyGate.thy ===== *)
theory KeyGate
  imports SecretProvider TextOps
begin

text \<open>
  What the key manager rests on besides its stores: the wrappers of the platform's cryptography
  (\<^verbatim>\<open>packages/keys/src/crypto-keys.ts\<close>), its configuration (\<^verbatim>\<open>config.ts\<close>), the gate that asks
  for a biometric confirmation (\<^verbatim>\<open>biometric-gate.ts\<close>) and the prompter behind the gate
  (\<^verbatim>\<open>se-gate-prompter.ts\<close>). A call of the platform returns its value or the text of what it
  throws; key handles are identified with their exported bytes.
\<close>

subsection \<open>Wrappers of the platform's cryptography\<close>

record key_pair =
  kp_publicKey :: "8 word list"
  kp_privateKey :: "8 word list"

definition subtle_call :: "string \<Rightarrow> ('a, string) result \<Rightarrow> ('a, signet_error) result" where
  "subtle_call message outcome =
     (case outcome of
        Ok v \<Rightarrow> Ok v
      | Err cause \<Rightarrow> Err (InternalError_create message (Some [(''cause'', VStr cause)])))"

record subtle_engine =
  su_signP256 :: "8 word list \<Rightarrow> 8 word list \<Rightarrow> (8 word list, string) result"
  su_verifyP256 :: "8 word list \<Rightarrow> 8 word list \<Rightarrow> 8 word list \<Rightarrow> (bool, string) result"
  su_signEd25519 :: "8 word list \<Rightarrow> 8 word list \<Rightarrow> (8 word list, string) result"
  su_verifyEd25519 :: "8 word list \<Rightarrow> 8 word list \<Rightarrow> 8 word list \<Rightarrow> (bool, string) result"
  su_exportRaw :: "8 word list \<Rightarrow> (8 word list, string) result"
  su_exportPkcs8 :: "8 word list \<Rightarrow> (8 word list, string) result"
  su_importEd25519 :: "8 word list \<Rightarrow> (8 word list, string) result"
  su_importP256 :: "8 word list \<Rightarrow> (8 word list, string) result"
  su_digest :: "8 word list \<Rightarrow> (8 word list, string) result"

text \<open>The outcome of a generation is an argument, since it is random.\<close>

definition generateP256KeyPair :: "(key_pair, string) result \<Rightarrow> (key_pair, signet_error) result" where
  "generateP256KeyPair outcome = subtle_call ''Failed to generate P-256 key pair'' outcome"

definition generateEd25519KeyPair :: "(key_pair, string) result \<Rightarrow> (key_pair, signet_error) result" where
  "generateEd25519KeyPair outcome = subtle_call ''Failed to generate Ed25519 key pair'' outcome"

definition signP256 :: "subtle_engine \<Rightarrow> 8 word list \<Rightarrow> 8 word list \<Rightarrow> (8 word list, signet_error) result" where
  "signP256 su privateKey data = subtle_call ''P-256 signing failed'' (su_signP256 su privateKey data)"

definition verifyP256 :: "subtle_engine \<Rightarrow> 8 word list \<Rightarrow> 8 word list \<Rightarrow> 8 word list \<Rightarrow> (bool, signet_error) result" where
  "verifyP256 su publicKey data signature =
     subtle_call ''P-256 verification failed'' (su_verifyP256 su publicKey signature data)"

definition signEd25519 :: "subtle_engine \<Rightarrow> 8 word list \<Rightarrow> 8 word list \<Rightarrow> (8 word list, signet_error) result" where
  "signEd25519 su privateKey data = subtle_call ''Ed25519 signing failed'' (su_signEd25519 su privateKey data)"

definition verifyEd25519 :: "subtle_engine \<Rightarrow> 8 word list \<Rightarrow> 8 word list \<Rightarrow> 8 word list \<Rightarrow> (bool, signet_error) result" where
  "verifyEd25519 su publicKey data signature =
     subtle_call ''Ed25519 verification failed'' (su_verifyEd25519 su publicKey signature data)"

definition exportPublicKey :: "subtle_engine \<Rightarrow> 8 word list \<Rightarrow> (8 word list, signet_error) result" where
  "exportPublicKey su key = subtle_call ''Failed to export public key'' (su_exportRaw su key)"

definition exportPrivateKey :: "subtle_engine \<Rightarrow> 8 word list \<Rightarrow> (8 word list, signet_error) result" where
  "exportPrivateKey su key = subtle_call ''Failed to export private key'' (su_exportPkcs8 su key)"

definition importEd25519PrivateKey :: "subtle_engine \<Rightarrow> 8 word list \<Rightarrow> (8 word list, signet_error) result" where
  "importEd25519PrivateKey su pkcs8 = subtle_call ''Failed to import Ed25519 private key'' (su_importEd25519 su pkcs8)"

definition importP256PrivateKey :: "subtle_engine \<Rightarrow> 8 word list \<Rightarrow> (8 word list, signet_error) result" where
  "importP256PrivateKey su pkcs8 = subtle_call ''Failed to import P-256 private key'' (su_importP256 su pkcs8)"

definition fingerprint :: "subtle_engine \<Rightarrow> 8 word list \<Rightarrow> (string, signet_error) result" where
  "fingerprint su publicKey =
     (case exportPublicKey su publicKey of
        Err e \<Rightarrow> Err e
      | Ok raw \<Rightarrow>
          (case subtle_call ''Failed to compute fingerprint'' (su_digest su raw) of
             Err e \<Rightarrow> Err e
           | Ok hash \<Rightarrow> Ok (hex_text hash)))"

definition toHex :: "8 word list \<Rightarrow> string" where
  "toHex bytes = hex_text bytes"

subsection \<open>Configuration\<close>

datatype gated_operation =
    Gate_rootKeyCreation | Gate_operationalKeyRotation | Gate_scopeExpansion | Gate_egressExpansion
  | Gate_agentCreation | Gate_adminReadElevation

record biometric_gate_config =
  bg_rootKeyCreation :: bool
  bg_operationalKeyRotation :: bool
  bg_scopeExpansion :: bool
  bg_egressExpansion :: bool
  bg_agentCreation :: bool
  bg_adminReadElevation :: bool

record biometric_gate_input =
  bgi_rootKeyCreation :: "bool option"
  bgi_operationalKeyRotation :: "bool option"
  bgi_scopeExpansion :: "bool option"
  bgi_egressExpansion :: "bool option"
  bgi_agentCreation :: "bool option"
  bgi_adminReadElevation :: "bool option"

definition BiometricGateConfigSchema :: "biometric_gate_input option \<Rightarrow> biometric_gate_config" where
  "BiometricGateConfigSchema input =
     (case input of
        None \<Rightarrow> \<lparr>bg_rootKeyCreation = False, bg_operationalKeyRotation = False, bg_scopeExpansion = False,
                 bg_egressExpansion = False, bg_agentCreation = False, bg_adminReadElevation = False\<rparr>
      | Some i \<Rightarrow>
          \<lparr>bg_rootKeyCreation = nullish (bgi_rootKeyCreation i) False,
           bg_operationalKeyRotation = nullish (bgi_operationalKeyRotation i) False,
           bg_scopeExpansion = nullish (bgi_scopeExpansion i) False,
           bg_egressExpansion = nullish (bgi_egressExpansion i) False,
           bg_agentCreation = nullish (bgi_agentCreation i) False,
           bg_adminReadElevation = nullish (bgi_adminReadElevation i) False\<rparr>)"

record key_manager_config =
  kc_dataDir :: string
  kc_rootKeyPolicy :: key_policy
  kc_operationalKeyPolicy :: key_policy
  kc_vaultKeyPolicy :: key_policy
  kc_biometricGating :: biometric_gate_config
  kc_rotationIntervalSeconds :: int

record key_manager_config_input =
  kci_dataDir :: string
  kci_rootKeyPolicy :: "key_policy option"
  kci_operationalKeyPolicy :: "key_policy option"
  kci_vaultKeyPolicy :: "key_policy option"
  kci_biometricGating :: "biometric_gate_input option"
  kci_rotationIntervalSeconds :: "rat option"

definition KeyManagerConfigSchema :: "key_manager_config_input \<Rightarrow> key_manager_config option" where
  "KeyManagerConfigSchema i =
     (let rotation = nullish (kci_rotationIntervalSeconds i) 86400
      in if of_int \<lfloor>rotation\<rfloor> = rotation \<and> 0 \<le> rotation
         then Some \<lparr>kc_dataDir = kci_dataDir i,
                    kc_rootKeyPolicy = nullish (kci_rootKeyPolicy i) Policy_biometric,
                    kc_operationalKeyPolicy = nullish (kci_operationalKeyPolicy i) Policy_open,
                    kc_vaultKeyPolicy = nullish (kci_vaultKeyPolicy i) Policy_open,
                    kc_biometricGating = BiometricGateConfigSchema (kci_biometricGating i),
                    kc_rotationIntervalSeconds = \<lfloor>rotation\<rfloor>\<rparr>
         else None)"

subsection \<open>The gate\<close>

definition gated :: "biometric_gate_config \<Rightarrow> gated_operation \<Rightarrow> bool" where
  "gated cfg operation =
     (case operation of
        Gate_rootKeyCreation \<Rightarrow> bg_rootKeyCreation cfg
      | Gate_operationalKeyRotation \<Rightarrow> bg_operationalKeyRotation cfg
      | Gate_scopeExpansion \<Rightarrow> bg_scopeExpansion cfg
      | Gate_egressExpansion \<Rightarrow> bg_egressExpansion cfg
      | Gate_agentCreation \<Rightarrow> bg_agentCreation cfg
      | Gate_adminReadElevation \<Rightarrow> bg_adminReadElevation cfg)"

definition operation_text :: "gated_operation \<Rightarrow> string" where
  "operation_text operation =
     (case operation of
        Gate_rootKeyCreation \<Rightarrow> ''rootKeyCreation'' | Gate_operationalKeyRotation \<Rightarrow> ''operationalKeyRotation''
      | Gate_scopeExpansion \<Rightarrow> ''scopeExpansion'' | Gate_egressExpansion \<Rightarrow> ''egressExpansion''
      | Gate_agentCreation \<Rightarrow> ''agentCreation'' | Gate_adminReadElevation \<Rightarrow> ''adminReadElevation'')"

text \<open>A prompter answers, or throws: an \<open>Error\<close> with its message, or anything else; with its text.\<close>

datatype prompt_outcome =
    Prompt_answer "(unit, signet_error) result"
  | Prompt_throws "string option" string

definition createBiometricGate ::
  "biometric_gate_config \<Rightarrow> (gated_operation \<Rightarrow> prompt_outcome) \<Rightarrow> gated_operation \<Rightarrow> (unit, signet_error) result" where
  "createBiometricGate cfg prompter operation =
     (if \<not> gated cfg operation then Ok ()
      else
        (case prompter operation of
           Prompt_answer r \<Rightarrow> r
         | Prompt_throws message shown \<Rightarrow>
             if (case message of None \<Rightarrow> False | Some m \<Rightarrow> is_infix ''cancel'' m)
             then Err (CancelledError_create (''Biometric authentication cancelled for '' @ operation_text operation))
             else Err (InternalError_create (''Biometric authentication failed for '' @ operation_text operation)
                    (Some [(''cause'', VStr shown)]))))"

subsection \<open>The prompter of the Secure Enclave\<close>

text \<open>The reference of the gate's key is read from its file, or the key is made and its reference stored.\<close>

definition ensureGateKey ::
  "signer_env \<Rightarrow> string option \<Rightarrow> string option \<Rightarrow> (string, signet_error) result \<times> string option" where
  "ensureGateKey sv writeFault keyFile =
     (case keyFile of
        Some keyRef \<Rightarrow> (Ok keyRef, Some keyRef)
      | None \<Rightarrow>
          (case seCreate sv ''signet-gate-biometric'' Policy_biometric Purpose_signing of
             Err e \<Rightarrow> (Err (InternalError_create ''Failed to create SE biometric gate key''
                        (Some [(''cause'', VStr (err_message e))])), None)
           | Ok created \<Rightarrow>
               (case writeFault of
                  Some cause \<Rightarrow> (Err (InternalError_create ''SE biometric gate prompter failed''
                                  (Some [(''cause'', VStr cause)])), None)
                | None \<Rightarrow> (Ok (scr_keyRef created), Some (scr_keyRef created)))))"

definition gate_challenge :: "(string \<Rightarrow> 8 word list) \<Rightarrow> int \<Rightarrow> gated_operation \<Rightarrow> 8 word list" where
  "gate_challenge sha256 now operation =
     sha256 (''signet-gate-challenge:'' @ operation_text operation @ '':'' @ int_text now)"

definition se_gate_prompt ::
  "signer_env \<Rightarrow> (string \<Rightarrow> 8 word list) \<Rightarrow> string option \<Rightarrow> int \<Rightarrow> string option \<Rightarrow> gated_operation \<Rightarrow>
   (unit, signet_error) result \<times> string option" where
  "se_gate_prompt sv sha256 writeFault now keyFile operation =
     (case ensureGateKey sv writeFault keyFile of
        (Err e, file) \<Rightarrow> (Err e, file)
      | (Ok keyRef, file) \<Rightarrow>
          (case seSign sv keyRef (gate_challenge sha256 now operation) of
             Err e \<Rightarrow>
               let msg = err_message e
               in (if is_infix ''cancelled'' msg \<or> is_infix ''cancel'' msg
                   then Err (CancelledError_create (''Biometric authentication cancelled for '' @ operation_text operation))
                   else Err (InternalError_create (''Biometric authentication failed for '' @ operation_text operation)
                          (Some [(''cause'', VStr msg)])), file)
           | Ok _ \<Rightarrow> (Ok (), file)))"

datatype gate_prompter = Prompter_enclave string | Prompter_fail_closed

definition resolveGatePrompter :: "platform_capability \<Rightarrow> string option \<Rightarrow> gate_prompter" where
  "resolveGatePrompter platform signerPath =
     (if platform = Cap_secure_enclave
      then (case signerPath of
              Some p \<Rightarrow> if p \<noteq> [] then Prompter_enclave p else Prompter_fail_closed
            | None \<Rightarrow> Prompter_fail_closed)
      else Prompter_fail_closed)"

definition fail_closed_prompt :: "gated_operation \<Rightarrow> (unit, signet_error) result" where
  "fail_closed_prompt operation =
     Err (InternalError_create
       (''Biometric gate unavailable for '' @ operation_text operation @ '': Secure Enclave not detected. '' @
        ''Disable biometric gating in config or run on an SE-capable platform.'') None)"

text \<open>
  With the helper's prompter an operation that is gated passes only after the helper signed the
  operation's own challenge with the gate's key; without the Secure Enclave it never passes.
\<close>

lemma gate_passes_iff:
  "createBiometricGate cfg (\<lambda>operation. Prompt_answer (fst (se_gate_prompt sv sha256 writeFault now keyFile operation))) op' = Ok () \<longleftrightarrow>
    \<not> gated cfg op' \<or>
    (\<exists>keyRef file. ensureGateKey sv writeFault keyFile = (Ok keyRef, file) \<and> isOk (seSign sv keyRef (gate_challenge sha256 now op')))"
  by (auto simp: createBiometricGate_def se_gate_prompt_def Let_def isOk_iff split: prod.splits result.splits)

lemma gate_fails_closed:
  "createBiometricGate cfg (\<lambda>operation. Prompt_answer (fail_closed_prompt operation)) op' = Ok () \<longleftrightarrow> \<not> gated cfg op'"
  by (simp add: createBiometricGate_def fail_closed_prompt_def)

end
