(* ===== verification/KeyManager.thy ===== *)
theory KeyManager
  imports KeyBackend SecretStore KeyGate Jwt
begin

text \<open>
  The key manager that the runtime uses (\<^verbatim>\<open>createKeyManager\<close> of
  \<^verbatim>\<open>packages/keys/src/key-manager-compat.ts\<close>, \<^verbatim>\<open>types.ts\<close>): the administrator's key, the
  operational keys of identities, credential keys, database and identity keys, and wallets
  through the internal backend. Its state is the secret store, whose vault the wallets share, and
  the maps it keeps in memory. Random values, generated key pairs, the prompter's answer and the
  clock are arguments of the operations that use them.
\<close>

subsection \<open>Types and state\<close>

record root_key_handle =
  rk_keyRef :: string
  rk_publicKey :: string
  rk_policy :: key_policy
  rk_platform :: platform_capability
  rk_createdAt :: string

record operational_key =
  ok_keyId :: string
  ok_identityId :: string
  ok_groupId :: "string option"
  ok_publicKey :: string
  ok_fingerprint :: string
  ok_createdAt :: string
  ok_rotatedAt :: "string option"

record credential_key =
  ck_keyId :: string
  ck_credentialId :: string
  ck_fingerprint :: string
  ck_expiresAt :: string
  ck_createdAt :: string

record 's key_manager =
  km_store :: "'s compat_store"
  km_opKeys :: "(string, operational_key \<times> bytes) js_map"
  km_groupIdIndex :: "(string, string) js_map"
  km_credentialKeys :: "(string, credential_key \<times> bytes) js_map"
  km_adminPublicKeyHex :: "string option"
  km_adminPrivateKey :: "bytes option"
  km_rootKeyHandle :: "root_key_handle option"
  km_rotationTimer :: bool
  km_walletBackend :: "(string \<times> (string, wallet_state) js_map) option"

record admin_key_info =
  aki_publicKey :: string
  aki_fingerprint :: string

record manager_env =
  me_subtle :: subtle_engine
  me_jwt :: jwt_engine
  me_isoText :: "int \<Rightarrow> string"
  me_parseIso :: "string \<Rightarrow> int"
  me_config :: key_manager_config
  me_platform :: platform_capability

definition start_manager :: "'s compat_store \<Rightarrow> 's key_manager" where
  "start_manager store =
     \<lparr>km_store = store, km_opKeys = [], km_groupIdIndex = [], km_credentialKeys = [], km_adminPublicKeyHex = None,
      km_adminPrivateKey = None, km_rootKeyHandle = None, km_rotationTimer = False, km_walletBackend = None\<rparr>"

definition toBase64Url :: "bytes \<Rightarrow> string" where
  "toBase64Url bytes = map url_char (filter (\<lambda>c. c \<noteq> CHR ''='') (btoa bytes))"

definition fingerprintBytes :: "manager_env \<Rightarrow> bytes \<Rightarrow> string option" where
  "fingerprintBytes en bytes =
     (case su_digest (me_subtle en) bytes of Ok digest \<Rightarrow> Some (hex_text digest) | Err _ \<Rightarrow> None)"

definition gate_answer ::
  "manager_env \<Rightarrow> (gated_operation \<Rightarrow> prompt_outcome) \<Rightarrow> gated_operation \<Rightarrow> (unit, signet_error) result" where
  "gate_answer en prompter operation = createBiometricGate (kc_biometricGating (me_config en)) prompter operation"

subsection \<open>Wallets\<close>

definition getWalletBackend ::
  "(string, signet_error) result \<Rightarrow> 's key_manager \<Rightarrow> (string \<times> 's key_backend, signet_error) result \<times> 's key_manager" where
  "getWalletBackend secret km =
     (case km_walletBackend km of
        Some (passphrase, states) \<Rightarrow>
          (Ok (passphrase, \<lparr>kb_vault = cs_vault (km_store km), kb_walletStates = states\<rparr>), km)
      | None \<Rightarrow>
          (case secret of
             Err e \<Rightarrow> (Err e, km)
           | Ok passphrase \<Rightarrow>
               (Ok (passphrase, \<lparr>kb_vault = cs_vault (km_store km), kb_walletStates = []\<rparr>),
                km\<lparr>km_walletBackend := Some (passphrase, [])\<rparr>)))"

definition put_backend :: "string \<Rightarrow> 's key_backend \<Rightarrow> 's key_manager \<Rightarrow> 's key_manager" where
  "put_backend passphrase kb km =
     km\<lparr>km_store := (km_store km)\<lparr>cs_vault := kb_vault kb\<rparr>, km_walletBackend := Some (passphrase, kb_walletStates kb)\<rparr>"

definition km_createWallet ::
  "'s vault_ops \<Rightarrow> key_engine \<Rightarrow> (string, signet_error) result \<Rightarrow> int \<Rightarrow> string \<Rightarrow> bytes \<Rightarrow> 's key_manager \<Rightarrow> string \<Rightarrow>
   (wallet_summary, signet_error) result option \<times> 's key_manager" where
  "km_createWallet ops ke secret now i entropy km label =
     (case getWalletBackend secret km of
        (Err e, km') \<Rightarrow> (Some (Err e), km')
      | (Ok (passphrase, kb), km') \<Rightarrow>
          (case kb_createWallet ops ke passphrase now i entropy kb label of
             (r, kb') \<Rightarrow> (r, put_backend passphrase kb' km')))"

definition km_listWallets ::
  "'s vault_ops \<Rightarrow> (string, signet_error) result \<Rightarrow> 's key_manager \<Rightarrow>
   (wallet_summary list, signet_error) result \<times> 's key_manager" where
  "km_listWallets ops secret km =
     (case getWalletBackend secret km of
        (Err e, km') \<Rightarrow> (Err e, km')
      | (Ok (_, kb), km') \<Rightarrow> (kb_listWallets ops kb, km'))"

definition km_getWallet ::
  "'s vault_ops \<Rightarrow> (string, signet_error) result \<Rightarrow> 's key_manager \<Rightarrow> string \<Rightarrow>
   (wallet_summary, signet_error) result \<times> 's key_manager" where
  "km_getWallet ops secret km walletId =
     (case getWalletBackend secret km of
        (Err e, km') \<Rightarrow> (Err e, km')
      | (Ok (_, kb), km') \<Rightarrow> (kb_getWallet ops kb walletId, km'))"

definition km_listWalletAccounts ::
  "'s vault_ops \<Rightarrow> key_engine \<Rightarrow> (string, signet_error) result \<Rightarrow> 's key_manager \<Rightarrow> string \<Rightarrow>
   (account_info list, signet_error) result option \<times> 's key_manager" where
  "km_listWalletAccounts ops ke secret km walletId =
     (case getWalletBackend secret km of
        (Err e, km') \<Rightarrow> (Some (Err e), km')
      | (Ok (passphrase, kb), km') \<Rightarrow>
          (case kb_listAccounts ops ke passphrase kb walletId of
             (r, kb') \<Rightarrow> (r, put_backend passphrase kb' km')))"

subsection \<open>Operational keys\<close>

definition createOperationalKeyRecord ::
  "manager_env \<Rightarrow> (key_pair, string) result \<Rightarrow> int \<Rightarrow> 's key_manager \<Rightarrow> string \<Rightarrow> string option \<Rightarrow>
   (operational_key, signet_error) result \<times> 's key_manager" where
  "createOperationalKeyRecord en pairOutcome now km identityId groupId =
     (case generateEd25519KeyPair pairOutcome of
        Err e \<Rightarrow> (Err e, km)
      | Ok pair \<Rightarrow>
          (case exportPublicKey (me_subtle en) (kp_publicKey pair) of
             Err e \<Rightarrow> (Err e, km)
           | Ok publicKey \<Rightarrow>
               (case fingerprint (me_subtle en) (kp_publicKey pair) of
                  Err e \<Rightarrow> (Err e, km)
                | Ok fp \<Rightarrow>
                    let operationalKey = \<lparr>ok_keyId = ''op-'' @ take 16 fp, ok_identityId = identityId, ok_groupId = groupId,
                                          ok_publicKey = toHex publicKey, ok_fingerprint = fp,
                                          ok_createdAt = me_isoText en now, ok_rotatedAt = None\<rparr>
                    in (Ok operationalKey,
                        km\<lparr>km_opKeys := map_set (km_opKeys km) identityId (operationalKey, kp_privateKey pair),
                           km_groupIdIndex := (case groupId of
                              None \<Rightarrow> km_groupIdIndex km
                            | Some g \<Rightarrow> map_set (km_groupIdIndex km) g identityId)\<rparr>))))"

definition createOperationalKey ::
  "manager_env \<Rightarrow> (gated_operation \<Rightarrow> prompt_outcome) \<Rightarrow> (key_pair, string) result \<Rightarrow> int \<Rightarrow> 's key_manager \<Rightarrow>
   string \<Rightarrow> string option \<Rightarrow> (operational_key, signet_error) result \<times> 's key_manager" where
  "createOperationalKey en prompter pairOutcome now km identityId groupId =
     (case gate_answer en prompter Gate_agentCreation of
        Err e \<Rightarrow> (Err e, km)
      | Ok _ \<Rightarrow> createOperationalKeyRecord en pairOutcome now km identityId groupId)"

definition getOperationalKey :: "'s key_manager \<Rightarrow> string \<Rightarrow> (operational_key, signet_error) result" where
  "getOperationalKey km identityId =
     (case map_get (km_opKeys km) identityId of
        None \<Rightarrow> Err (NotFoundError_create ''operational-key'' identityId)
      | Some entry \<Rightarrow> Ok (fst entry))"

definition getOperationalKeyByGroupId :: "'s key_manager \<Rightarrow> string \<Rightarrow> (operational_key, signet_error) result" where
  "getOperationalKeyByGroupId km groupId =
     (case map_get (km_groupIdIndex km) groupId of
        None \<Rightarrow> Err (NotFoundError_create ''operational-key'' groupId)
      | Some identityId \<Rightarrow> getOperationalKey km identityId)"

definition rotateOperationalKey ::
  "manager_env \<Rightarrow> (gated_operation \<Rightarrow> prompt_outcome) \<Rightarrow> (key_pair, string) result \<Rightarrow> int \<Rightarrow> 's key_manager \<Rightarrow>
   string \<Rightarrow> (operational_key, signet_error) result \<times> 's key_manager" where
  "rotateOperationalKey en prompter pairOutcome now km identityId =
     (case map_get (km_opKeys km) identityId of
        None \<Rightarrow> (Err (NotFoundError_create ''operational-key'' identityId), km)
      | Some existing \<Rightarrow>
          (case gate_answer en prompter Gate_operationalKeyRotation of
             Err e \<Rightarrow> (Err e, km)
           | Ok _ \<Rightarrow> createOperationalKeyRecord en pairOutcome now km identityId (ok_groupId (fst existing))))"

definition listOperationalKeys :: "'s key_manager \<Rightarrow> operational_key list" where
  "listOperationalKeys km = map fst (map_values (km_opKeys km))"

definition signWithOperationalKey ::
  "manager_env \<Rightarrow> 's key_manager \<Rightarrow> string \<Rightarrow> bytes \<Rightarrow> (bytes, signet_error) result" where
  "signWithOperationalKey en km identityId data =
     (case map_get (km_opKeys km) identityId of
        None \<Rightarrow> Err (NotFoundError_create ''operational-key'' identityId)
      | Some entry \<Rightarrow> signEd25519 (me_subtle en) (snd entry) data)"

text \<open>One tick of the rotation timer; failures of single rotations are ignored.\<close>

definition rotation_tick ::
  "manager_env \<Rightarrow> (string \<Rightarrow> gated_operation \<Rightarrow> prompt_outcome) \<Rightarrow> (string \<Rightarrow> (key_pair, string) result) \<Rightarrow> int \<Rightarrow>
   's key_manager \<Rightarrow> 's key_manager" where
  "rotation_tick en prompter pairs now km =
     foldl (\<lambda>km identityId. snd (rotateOperationalKey en (prompter identityId) (pairs identityId) now km identityId)) km
       (map_keys (km_opKeys km))"

definition startAutoRotation :: "manager_env \<Rightarrow> 's key_manager \<Rightarrow> 's key_manager" where
  "startAutoRotation en km =
     (if kc_rotationIntervalSeconds (me_config en) \<le> 0 \<or> km_rotationTimer km then km
      else km\<lparr>km_rotationTimer := True\<rparr>)"

definition stopAutoRotation :: "'s key_manager \<Rightarrow> 's key_manager" where
  "stopAutoRotation km = km\<lparr>km_rotationTimer := False\<rparr>"

subsection \<open>Credential keys\<close>

definition issueCredentialKey ::
  "manager_env \<Rightarrow> (key_pair, string) result \<Rightarrow> int \<Rightarrow> 's key_manager \<Rightarrow> string \<Rightarrow> int \<Rightarrow>
   (credential_key, signet_error) result \<times> 's key_manager" where
  "issueCredentialKey en pairOutcome now km credentialId ttlSeconds =
     (case generateEd25519KeyPair pairOutcome of
        Err e \<Rightarrow> (Err e, km)
      | Ok pair \<Rightarrow>
          (case fingerprint (me_subtle en) (kp_publicKey pair) of
             Err e \<Rightarrow> (Err e, km)
           | Ok fp \<Rightarrow>
               let key = \<lparr>ck_keyId = ''credkey-'' @ take 16 fp, ck_credentialId = credentialId, ck_fingerprint = fp,
                          ck_expiresAt = me_isoText en (now + ttlSeconds * 1000), ck_createdAt = me_isoText en now\<rparr>
               in (Ok key, km\<lparr>km_credentialKeys := map_set (km_credentialKeys km) (ck_keyId key) (key, kp_privateKey pair)\<rparr>)))"

definition revokeCredentialKey :: "'s key_manager \<Rightarrow> string \<Rightarrow> (unit, signet_error) result \<times> 's key_manager" where
  "revokeCredentialKey km keyId =
     (if map_get (km_credentialKeys km) keyId = None
      then (Err (NotFoundError_create ''credential-key'' keyId), km)
      else (Ok (), km\<lparr>km_credentialKeys := map_delete (km_credentialKeys km) keyId\<rparr>))"

definition signWithCredentialKey ::
  "manager_env \<Rightarrow> int \<Rightarrow> 's key_manager \<Rightarrow> string \<Rightarrow> bytes \<Rightarrow> (bytes, signet_error) result \<times> 's key_manager" where
  "signWithCredentialKey en now km keyId data =
     (case map_get (km_credentialKeys km) keyId of
        None \<Rightarrow> (Err (NotFoundError_create ''credential-key'' keyId), km)
      | Some entry \<Rightarrow>
          if now \<ge> me_parseIso en (ck_expiresAt (fst entry))
          then (Err (NotFoundError_create ''credential-key'' keyId),
                km\<lparr>km_credentialKeys := map_delete (km_credentialKeys km) keyId\<rparr>)
          else (signEd25519 (me_subtle en) (snd entry) data, km))"

subsection \<open>Stored keys\<close>

definition getOrCreateDbKey ::
  "'s secret_ops \<Rightarrow> bytes \<Rightarrow> kv_faults \<Rightarrow> bytes \<Rightarrow> 's key_manager \<Rightarrow> string \<Rightarrow> (bytes, signet_error) result \<times> 's key_manager" where
  "getOrCreateDbKey ops iv fl random km identityId =
     (let key = ''db-key:'' @ identityId
      in case cs_get ops iv fl (km_store km) key of
           (Ok existing, store) \<Rightarrow> (Ok existing, km\<lparr>km_store := store\<rparr>)
         | (Err e, store) \<Rightarrow>
             if err_tag e \<noteq> Tag_NotFoundError then (Err e, km\<lparr>km_store := store\<rparr>)
             else
               (case cs_set ops iv fl store key random of
                  (Err e', store') \<Rightarrow> (Err e', km\<lparr>km_store := store'\<rparr>)
                | (Ok _, store') \<Rightarrow> (Ok random, km\<lparr>km_store := store'\<rparr>)))"

definition getOrCreateXmtpIdentityKey ::
  "'s secret_ops \<Rightarrow> bytes \<Rightarrow> kv_faults \<Rightarrow> bytes \<Rightarrow> 's key_manager \<Rightarrow> string \<Rightarrow> (string, signet_error) result \<times> 's key_manager" where
  "getOrCreateXmtpIdentityKey ops iv fl random km identityId =
     (let key = ''xmtp-identity-key:'' @ identityId
      in case cs_get ops iv fl (km_store km) key of
           (Ok existing, store) \<Rightarrow> (Ok (''0x'' @ hex_text existing), km\<lparr>km_store := store\<rparr>)
         | (Err e, store) \<Rightarrow>
             if err_tag e \<noteq> Tag_NotFoundError then (Err e, km\<lparr>km_store := store\<rparr>)
             else
               (case cs_set ops iv fl store key random of
                  (Err e', store') \<Rightarrow> (Err e', km\<lparr>km_store := store'\<rparr>)
                | (Ok _, store') \<Rightarrow> (Ok (''0x'' @ hex_text random), km\<lparr>km_store := store'\<rparr>)))"

subsection \<open>The administrator's key\<close>

definition admin_exists :: "'s key_manager \<Rightarrow> bool" where
  "admin_exists km \<longleftrightarrow> km_adminPublicKeyHex km \<noteq> None"

text \<open>The digest of the platform may throw, and the promise then rejects.\<close>

definition readAdminInfo :: "manager_env \<Rightarrow> 's key_manager \<Rightarrow> (admin_key_info, signet_error) result option" where
  "readAdminInfo en km =
     (case km_adminPublicKeyHex km of
        None \<Rightarrow> Some (Err (NotFoundError_create ''admin-key'' ''admin''))
      | Some hex \<Rightarrow>
          map_option (\<lambda>fp. Ok \<lparr>aki_publicKey = hex, aki_fingerprint = fp\<rparr>) (fingerprintBytes en (hexToBytes_compat hex)))"

definition admin_create ::
  "manager_env \<Rightarrow> 's secret_ops \<Rightarrow> bytes \<Rightarrow> kv_faults \<Rightarrow> (gated_operation \<Rightarrow> prompt_outcome) \<Rightarrow> (key_pair, string) result \<Rightarrow>
   's key_manager \<Rightarrow> (admin_key_info, signet_error) result option \<times> 's key_manager" where
  "admin_create en ops iv fl prompter pairOutcome km =
     (if km_adminPublicKeyHex km \<noteq> None
      then (Some (Err (InternalError_create ''Admin key already exists'' None)), km)
      else
        (case gate_answer en prompter Gate_rootKeyCreation of
           Err e \<Rightarrow> (Some (Err e), km)
         | Ok _ \<Rightarrow>
             (case generateEd25519KeyPair pairOutcome of
                Err e \<Rightarrow> (Some (Err e), km)
              | Ok pair \<Rightarrow>
                  (case exportPublicKey (me_subtle en) (kp_publicKey pair) of
                     Err e \<Rightarrow> (Some (Err e), km)
                   | Ok public \<Rightarrow>
                       (case exportPrivateKey (me_subtle en) (kp_privateKey pair) of
                          Err e \<Rightarrow> (Some (Err e), km)
                        | Ok private \<Rightarrow>
                            let km1 = km\<lparr>km_adminPublicKeyHex := Some (toHex public),
                                         km_adminPrivateKey := Some (kp_privateKey pair)\<rparr>
                            in (case cs_set ops iv fl (km_store km1) ''admin-key'' private of
                                  (Err e, store) \<Rightarrow> (Some (Err e), km1\<lparr>km_store := store\<rparr>)
                                | (Ok _, store) \<Rightarrow>
                                    (case cs_set ops iv fl store ''admin-key-pub'' (text_octets (toHex public)) of
                                       (Err e, store') \<Rightarrow> (Some (Err e), km1\<lparr>km_store := store'\<rparr>)
                                     | (Ok _, store') \<Rightarrow>
                                         let km2 = km1\<lparr>km_store := store'\<rparr>
                                         in (case readAdminInfo en km2 of
                                               None \<Rightarrow> (None, km2)
                                             | Some (Err _) \<Rightarrow>
                                                 (Some (Err (InternalError_create ''Failed to read created admin key metadata'' None)), km2)
                                             | Some (Ok info) \<Rightarrow> (Some (Ok info), km2)))))))))"

definition admin_claims :: "int \<Rightarrow> int \<Rightarrow> string \<Rightarrow> string \<Rightarrow> js_value" where
  "admin_claims now ttlSeconds iss jti = VObj
     [(''iat'', VNum (of_int now)), (''exp'', VNum (of_int (now + ttlSeconds))), (''sub'', VStr ''admin''),
      (''iss'', VStr iss), (''jti'', VStr jti)]"

definition admin_signJwt ::
  "manager_env \<Rightarrow> int \<Rightarrow> bytes \<Rightarrow> 's key_manager \<Rightarrow> int \<Rightarrow> (string, signet_error) result" where
  "admin_signJwt en now random km ttlSeconds =
     (case km_adminPrivateKey km of
        None \<Rightarrow> Err (InternalError_create ''Admin key not initialized'' None)
      | Some privateKey \<Rightarrow>
          let header = toBase64Url (text_octets (jw_stringify (me_jwt en) jwt_header));
              payload = toBase64Url (text_octets (jw_stringify (me_jwt en)
                (admin_claims now ttlSeconds (nullish (km_adminPublicKeyHex km) ''compat-admin'') (toHex random))));
              message = text_octets (header @ ''.'' @ payload)
          in (case signEd25519 (me_subtle en) privateKey message of
                Err e \<Rightarrow> Err e
              | Ok signature \<Rightarrow> Ok (header @ ''.'' @ payload @ ''.'' @ toBase64Url signature)))"

definition admin_verifyJwt ::
  "manager_env \<Rightarrow> int \<Rightarrow> 's key_manager \<Rightarrow> string \<Rightarrow> (admin_jwt_payload, signet_error) result option" where
  "admin_verifyJwt en now km token =
     (case km_adminPublicKeyHex km of
        None \<Rightarrow> Some (Err (InternalError_create ''Admin key not initialized'' None))
      | Some hex \<Rightarrow> verifyJwt (me_jwt en) now token (hexToBytes_compat hex) None)"

definition km_initialize ::
  "manager_env \<Rightarrow> 's secret_ops \<Rightarrow> bytes \<Rightarrow> kv_faults \<Rightarrow> int \<Rightarrow> 's key_manager \<Rightarrow>
   (root_key_handle, signet_error) result \<times> 's key_manager" where
  "km_initialize en ops iv fl now km =
     (case km_rootKeyHandle km of
        Some handle \<Rightarrow> (Ok handle, km)
      | None \<Rightarrow>
          (case cs_get ops iv fl (km_store km) ''admin-key-pub'' of
             (existingPublic, store1) \<Rightarrow>
               let km1 = km\<lparr>km_store := store1,
                            km_adminPublicKeyHex := (case existingPublic of
                               Ok pub \<Rightarrow> Some (decode_text pub) | Err _ \<Rightarrow> km_adminPublicKeyHex km)\<rparr>;
                   finish = (\<lambda>km2. let handle = \<lparr>rk_keyRef = ''root-compat'',
                                       rk_publicKey = nullish (km_adminPublicKeyHex km2) ''compat-root'',
                                       rk_policy = kc_rootKeyPolicy (me_config en), rk_platform = me_platform en,
                                       rk_createdAt = me_isoText en now\<rparr>
                                     in (Ok handle, km2\<lparr>km_rootKeyHandle := Some handle\<rparr>))
               in (case cs_get ops iv fl store1 ''admin-key'' of
                     (Ok private, store2) \<Rightarrow>
                       (case importEd25519PrivateKey (me_subtle en) private of
                          Err e \<Rightarrow> (Err e, km1\<lparr>km_store := store2\<rparr>)
                        | Ok imported \<Rightarrow> finish (km1\<lparr>km_store := store2, km_adminPrivateKey := Some imported\<rparr>))
                   | (Err _, store2) \<Rightarrow> finish (km1\<lparr>km_store := store2\<rparr>))))"

definition authorizeSensitiveOperation ::
  "manager_env \<Rightarrow> (gated_operation \<Rightarrow> prompt_outcome) \<Rightarrow> gated_operation \<Rightarrow> (unit, signet_error) result" where
  "authorizeSensitiveOperation en prompter operation = gate_answer en prompter operation"

definition km_trustTier :: "manager_env \<Rightarrow> key_trust_tier" where
  "km_trustTier en = platformToTrustTier (me_platform en)"

definition km_close :: "('s \<Rightarrow> 's) \<Rightarrow> 's key_manager \<Rightarrow> 's key_manager" where
  "km_close closeVault km =
     (let stopped = stopAutoRotation km
      in stopped\<lparr>km_store := (km_store stopped)\<lparr>cs_vault := closeVault (cs_vault (km_store stopped))\<rparr>\<rparr>)"

subsection \<open>Opening the vault\<close>

text \<open>Which vault is opened: the one in memory, or the one in files with its key. Failures of the
  disk and of the import of the key are texts.\<close>

datatype opened_vault = Opened_memory | Opened_files bytes

definition vault_failed :: "string \<Rightarrow> string \<Rightarrow> signet_error" where
  "vault_failed dataDir cause =
     InternalError_create ''Failed to create vault'' (Some [(''dataDir'', VStr dataDir), (''cause'', VStr cause)])"

definition createVault ::
  "vault_engine \<Rightarrow> string option \<Rightarrow> string \<Rightarrow> string \<Rightarrow> string \<Rightarrow> (string, signet_error) result \<Rightarrow> (opened_vault, signet_error) result" where
  "createVault ve fault badKey dataDir providerKind secret =
     (if dataDir = '':memory:'' then Ok Opened_memory
      else
        (case fault of
           Some cause \<Rightarrow> Err (vault_failed dataDir cause)
         | None \<Rightarrow>
             (case secret of
                Err e \<Rightarrow> Err (InternalError_create ''Failed to resolve vault secret''
                         (Some [(''dataDir'', VStr dataDir), (''providerKind'', VStr providerKind),
                                (''cause'', VStr (err_message e))]))
              | Ok hex \<Rightarrow>
                  (case ve_hexToBytes ve hex of
                     None \<Rightarrow> Err (vault_failed dataDir badKey)
                   | Some key \<Rightarrow> Ok (Opened_files key)))))"

definition createKeyManager ::
  "js_value \<Rightarrow> key_manager_config_input \<Rightarrow> (key_manager_config \<Rightarrow> (opened_vault, signet_error) result) \<Rightarrow>
   (opened_vault \<Rightarrow> 's compat_store) \<Rightarrow> (key_manager_config \<times> 's key_manager, signet_error) result" where
  "createKeyManager issues input openVault store =
     (case KeyManagerConfigSchema input of
        None \<Rightarrow> Err (InternalError_create ''Invalid key manager config'' (Some [(''issues'', issues)]))
      | Some config \<Rightarrow>
          (case openVault config of
             Err e \<Rightarrow> Err e
           | Ok vault \<Rightarrow> Ok (config, start_manager (store vault))))"

subsection \<open>Base64url without padding\<close>

lemma toBase64Url_eq: "toBase64Url bs = base64urlEncode bs"
proof (cases "bs = []")
  case False
  have "filter (\<lambda>c. c \<noteq> CHR ''='') (map b64_char (b64_digits bs)) = map b64_char (b64_digits bs)"
    using b64_digits_bound [of _ bs] b64_char_plain by (intro filter_True) auto
  then show ?thesis
    by (simp add: toBase64Url_def encoded_body [OF False] btoa_split filter_replicate)
next
  case True
  then show ?thesis by (simp add: toBase64Url_def base64urlEncode_def btoa_def b64_padding_def)
qed

lemma compat_hex_roundtrip: "hexToBytes_compat (toHex bytes) = bytes"
  by (simp add: hexToBytes_compat_def toHex_def hex_text_def to_lower_written hex_pairs_write)

lemma octets_roundtrip: "decode_text (text_octets s) = s"
  using decode_encode_text by (simp add: encode_text_def text_octets_def)

subsection \<open>Operational keys\<close>

lemma record_key_exact:
  "createOperationalKeyRecord en pairOutcome now km i g = (Ok k, km') \<Longrightarrow>
    \<exists>pair. pairOutcome = Ok pair \<and> ok_identityId k = i \<and> ok_groupId k = g \<and>
      km' = km\<lparr>km_opKeys := map_set (km_opKeys km) i (k, kp_privateKey pair),
               km_groupIdIndex := (case g of None \<Rightarrow> km_groupIdIndex km | Some x \<Rightarrow> map_set (km_groupIdIndex km) x i)\<rparr>"
  by (auto simp: createOperationalKeyRecord_def generateEd25519KeyPair_def subtle_call_def Let_def
      split: result.splits)

lemma record_key_failed: "createOperationalKeyRecord en pairOutcome now km i g = (Err e, km') \<Longrightarrow> km' = km"
  by (auto simp: createOperationalKeyRecord_def Let_def split: result.splits)

text \<open>A rotation that succeeds gives the identity a new key of the same group, which signs from
  then on and is found under the group; it needs the gate to pass when rotations are gated. A
  rotation that fails, at the gate or later, changes nothing, and neither kind touches the keys of
  other identities.\<close>

theorem rotation_exact:
  "case rotateOperationalKey en prompter pairOutcome now km i of
     (Err _, km') \<Rightarrow> km' = km
   | (Ok k, km') \<Rightarrow>
       gate_answer en prompter Gate_operationalKeyRotation = Ok () \<and>
       (case map_get (km_opKeys km) i of None \<Rightarrow> False | Some old \<Rightarrow> ok_groupId k = ok_groupId (fst old)) \<and>
       ok_identityId k = i \<and> getOperationalKey km' i = Ok k \<and>
       (case pairOutcome of Err _ \<Rightarrow> False
        | Ok pair \<Rightarrow> signWithOperationalKey en km' i data = signEd25519 (me_subtle en) (kp_privateKey pair) data) \<and>
       (case ok_groupId k of None \<Rightarrow> True | Some g \<Rightarrow> getOperationalKeyByGroupId km' g = Ok k) \<and>
       (if j = i then True
        else getOperationalKey km' j = getOperationalKey km j \<and>
             signWithOperationalKey en km' j data = signWithOperationalKey en km j data)"
proof (cases "map_get (km_opKeys km) i")
  case None
  then show ?thesis by (simp add: rotateOperationalKey_def)
next
  case old: (Some old)
  show ?thesis
  proof (cases "gate_answer en prompter Gate_operationalKeyRotation")
    case (Err e)
    then show ?thesis by (simp add: rotateOperationalKey_def old)
  next
    case (Ok u)
    obtain r km' where c: "createOperationalKeyRecord en pairOutcome now km i (ok_groupId (fst old)) = (r, km')" by force
    show ?thesis
    proof (cases r)
      case (Err e)
      then show ?thesis using record_key_failed c Ok by (simp add: rotateOperationalKey_def old)
    next
      case k: (Ok k)
      obtain pair where P: "pairOutcome = Ok pair" "ok_identityId k = i" "ok_groupId k = ok_groupId (fst old)"
          "km' = km\<lparr>km_opKeys := map_set (km_opKeys km) i (k, kp_privateKey pair),
            km_groupIdIndex := (case ok_groupId (fst old) of None \<Rightarrow> km_groupIdIndex km
              | Some x \<Rightarrow> map_set (km_groupIdIndex km) x i)\<rparr>"
        using record_key_exact c k by blast
      then show ?thesis using c k Ok
        by (simp add: rotateOperationalKey_def old getOperationalKey_def getOperationalKeyByGroupId_def
            signWithOperationalKey_def split: option.split)
    qed
  qed
qed

subsection \<open>Credential keys\<close>

text \<open>A credential key signs from its issue until its lifetime has passed, up to the last
  millisecond before it and not from it on, and once it was refused or revoked it never signs
  again.\<close>

theorem credential_key_lifetime:
  assumes "\<And>t. me_parseIso en (me_isoText en t) = t"
    and "issueCredentialKey en pairOutcome t0 km credentialId ttlSeconds = (Ok k, km')"
  shows "(case pairOutcome of Err _ \<Rightarrow> False
     | Ok pair \<Rightarrow>
         fst (signWithCredentialKey en now km' (ck_keyId k) data) =
           (if now < t0 + ttlSeconds * 1000 then signEd25519 (me_subtle en) (kp_privateKey pair) data
            else Err (NotFoundError_create ''credential-key'' (ck_keyId k)))) \<and>
    (if now < t0 + ttlSeconds * 1000 then snd (signWithCredentialKey en now km' (ck_keyId k) data) = km'
     else fst (signWithCredentialKey en later (snd (signWithCredentialKey en now km' (ck_keyId k) data)) (ck_keyId k) data) =
       Err (NotFoundError_create ''credential-key'' (ck_keyId k))) \<and>
    fst (signWithCredentialKey en later (snd (revokeCredentialKey km' (ck_keyId k))) (ck_keyId k) data) =
      Err (NotFoundError_create ''credential-key'' (ck_keyId k))"
proof -
  obtain pair where P: "pairOutcome = Ok pair" "ck_expiresAt k = me_isoText en (t0 + ttlSeconds * 1000)"
      "km' = km\<lparr>km_credentialKeys := map_set (km_credentialKeys km) (ck_keyId k) (k, kp_privateKey pair)\<rparr>"
    using assms(2) by (auto simp: issueCredentialKey_def generateEd25519KeyPair_def subtle_call_def Let_def
        split: result.splits)
  then show ?thesis using assms(1)
    by (simp add: signWithCredentialKey_def revokeCredentialKey_def)
qed

subsection \<open>The administrator's key over restarts\<close>

lemma create_stored:
  assumes "file_secrets_wf ve key (cs_vault (km_store km))" "length iv = 12"
    and "ops = file_secret_ops ve key None None bad"
    and "admin_create en ops iv fl prompter pairOutcome km = (Some (Ok info), km1)"
  shows "\<exists>pair pub priv. pairOutcome = Ok pair \<and> su_exportRaw (me_subtle en) (kp_publicKey pair) = Ok pub \<and>
    su_exportPkcs8 (me_subtle en) (kp_privateKey pair) = Ok priv \<and>
    aki_publicKey info = toHex pub \<and> km_adminPublicKeyHex km1 = Some (toHex pub) \<and>
    km_adminPrivateKey km1 = Some (kp_privateKey pair) \<and>
    file_secrets_wf ve key (cs_vault (km_store km1)) \<and>
    visible (file_view ve key) (km_store km1) ''admin-key'' = Some priv \<and>
    visible (file_view ve key) (km_store km1) ''admin-key-pub'' = Some (text_octets (toHex pub))"
proof -
  obtain pair pub priv where P: "pairOutcome = Ok pair"
      "su_exportRaw (me_subtle en) (kp_publicKey pair) = Ok pub"
      "su_exportPkcs8 (me_subtle en) (kp_privateKey pair) = Ok priv"
    using assms(4)
    by (auto simp: admin_create_def generateEd25519KeyPair_def exportPublicKey_def exportPrivateKey_def subtle_call_def
        Let_def split: result.splits if_splits)
  obtain st1 where s1: "cs_set ops iv fl (km_store km) ''admin-key'' priv = (Ok (), st1)"
      "file_secrets_wf ve key (cs_vault st1)"
      "visible (file_view ve key) st1 = (visible (file_view ve key) (km_store km))(''admin-key'' := Some priv)"
    using file_secrets.set_refines [OF assms(1,2), of bad fl "''admin-key''" priv] unfolding assms(3)
    by (metis prod.collapse)
  obtain st2 where s2: "cs_set ops iv fl st1 ''admin-key-pub'' (text_octets (toHex pub)) = (Ok (), st2)"
      "file_secrets_wf ve key (cs_vault st2)"
      "visible (file_view ve key) st2 = (visible (file_view ve key) st1)(''admin-key-pub'' := Some (text_octets (toHex pub)))"
    using file_secrets.set_refines [OF s1(2) assms(2), of bad fl "''admin-key-pub''" "text_octets (toHex pub)"]
    unfolding assms(3) by (metis prod.collapse)
  have keys: "exportPublicKey (me_subtle en) (kp_publicKey pair) = Ok pub"
      "exportPrivateKey (me_subtle en) (kp_privateKey pair) = Ok priv"
      "generateEd25519KeyPair pairOutcome = Ok pair"
    using P by (simp_all add: exportPublicKey_def exportPrivateKey_def generateEd25519KeyPair_def subtle_call_def)
  let ?km = "km\<lparr>km_adminPublicKeyHex := Some (toHex pub), km_adminPrivateKey := Some (kp_privateKey pair),
    km_store := st2\<rparr>"
  have c: "km_adminPublicKeyHex km = None" "gate_answer en prompter Gate_rootKeyCreation = Ok ()"
    using assms(4) by (auto simp: admin_create_def split: if_splits result.splits)
  have "aki_publicKey info = toHex pub \<and> km1 = ?km"
    using assms(4)
    by (simp add: admin_create_def c keys Let_def s1(1) s2(1)) (auto simp: readAdminInfo_def split: option.splits)
  then show ?thesis using P s1 s2 by (intro exI [of _ pair] exI [of _ pub] exI [of _ priv]) simp
qed

lemma initialize_reads:
  assumes "file_secrets_wf ve key (cs_vault store)" "length iv = 12" "kf_read fl = None"
    and "ops = file_secret_ops ve key None None bad"
    and "visible (file_view ve key) store ''admin-key'' = Some priv"
    and "visible (file_view ve key) store ''admin-key-pub'' = Some (text_octets hex)"
    and "su_importEd25519 (me_subtle en) priv = Ok imported"
  shows "\<exists>handle km. km_initialize en ops iv fl now (start_manager store) = (Ok handle, km) \<and>
    rk_publicKey handle = hex \<and> km_adminPublicKeyHex km = Some hex \<and> km_adminPrivateKey km = Some imported"
proof -
  obtain st1 where g1: "cs_get ops iv fl store ''admin-key-pub'' = (Ok (text_octets hex), st1)"
      "file_secrets_wf ve key (cs_vault st1)" "visible (file_view ve key) st1 = visible (file_view ve key) store"
    using file_secrets.get_refines [OF assms(1-3), of bad "''admin-key-pub''"] assms(6) unfolding assms(4)
    by (metis (no_types, lifting) option.simps(5) prod.collapse)
  obtain st2 where g2: "cs_get ops iv fl st1 ''admin-key'' = (Ok priv, st2)"
    using file_secrets.get_refines [OF g1(2) assms(2,3), of bad "''admin-key''"] g1(3) assms(5) unfolding assms(4)
    by (metis (no_types, lifting) option.simps(5) prod.collapse)
  have "importEd25519PrivateKey (me_subtle en) priv = Ok imported"
    using assms(7) by (simp add: importEd25519PrivateKey_def subtle_call_def)
  then show ?thesis
    unfolding km_initialize_def start_manager_def
    by (simp add: Let_def g1(1) g2 octets_roundtrip)
qed

text \<open>The administrator's key survives a restart: after it was created, a new manager over the same
  store initializes with the same public key, and the tokens it signs are accepted by both managers
  while their times are right, and refused as expired afterwards. What is relied on: an exported
  private key is imported as itself, signatures made with it verify under its public key, and JSON
  text is read back.\<close>

theorem admin_key_survives_restart:
  assumes "file_secrets_wf ve key (cs_vault (km_store km))" "length iv = 12" "kf_read fl = None"
    and "ops = file_secret_ops ve key None None bad"
    and "admin_create en ops iv fl prompter (Ok pair) km = (Some (Ok info), km1)"
    and "\<And>p. su_exportPkcs8 (me_subtle en) (kp_privateKey pair) = Ok p \<Longrightarrow>
      su_importEd25519 (me_subtle en) p = Ok (kp_privateKey pair)"
    and "\<And>raw data sig. su_exportRaw (me_subtle en) (kp_publicKey pair) = Ok raw \<Longrightarrow>
      su_signEd25519 (me_subtle en) (kp_privateKey pair) data = Ok sig \<Longrightarrow>
      jw_importKey (me_jwt en) raw \<and> jw_verify (me_jwt en) raw sig data = Some True"
    and "\<And>v. v \<in> {jwt_header, admin_claims t ttl (aki_publicKey info) (toHex random)} \<Longrightarrow>
      jw_parseJson (me_jwt en) (text_octets (jw_stringify (me_jwt en) v)) = Some v"
    and "0 < t" "0 < t + ttl"
    and "admin_signJwt en t random (snd (km_initialize en ops iv fl started (start_manager (km_store km1)))) ttl = Ok token"
  shows "(case fst (km_initialize en ops iv fl started (start_manager (km_store km1))) of
       Err _ \<Rightarrow> False | Ok handle \<Rightarrow> rk_publicKey handle = aki_publicKey info) \<and>
    admin_verifyJwt en now (snd (km_initialize en ops iv fl started (start_manager (km_store km1)))) token =
      admin_verifyJwt en now km1 token \<and>
    admin_verifyJwt en now km1 token =
      Some (if t + ttl \<le> now - 30 then Err (AuthError_create ''Admin token expired'' None)
            else if now + 30 < t then Err (ValidationError_create ''jwt.iat'' ''Token issued in future'' [])
            else Ok \<lparr>ap_iss = aki_publicKey info, ap_iat = t, ap_exp = t + ttl, ap_jti = toHex random\<rparr>)"
proof -
  obtain pub priv where C: "su_exportRaw (me_subtle en) (kp_publicKey pair) = Ok pub"
      "su_exportPkcs8 (me_subtle en) (kp_privateKey pair) = Ok priv"
      "aki_publicKey info = toHex pub" "km_adminPublicKeyHex km1 = Some (toHex pub)"
      "file_secrets_wf ve key (cs_vault (km_store km1))"
      "visible (file_view ve key) (km_store km1) ''admin-key'' = Some priv"
      "visible (file_view ve key) (km_store km1) ''admin-key-pub'' = Some (text_octets (toHex pub))"
    using create_stored [OF assms(1,2,4,5)] by auto
  obtain handle km2 where I: "km_initialize en ops iv fl started (start_manager (km_store km1)) = (Ok handle, km2)"
      "rk_publicKey handle = toHex pub" "km_adminPublicKeyHex km2 = Some (toHex pub)"
      "km_adminPrivateKey km2 = Some (kp_privateKey pair)"
    using initialize_reads [OF C(5) assms(2,3,4) C(6,7) assms(6) [OF C(2)]] by blast
  let ?claims = "admin_claims t ttl (toHex pub) (toHex random)"
  obtain sig where sig: "su_signEd25519 (me_subtle en) (kp_privateKey pair)
        (text_octets (encodeJwt (me_jwt en) jwt_header ?claims)) = Ok sig"
      "token = encodeJwt (me_jwt en) jwt_header ?claims @ ''.'' @ base64urlEncode sig"
    using assms(11) I(1,3,4)
    by (auto simp: admin_signJwt_def signEd25519_def subtle_call_def toBase64Url_eq encodeJwt_def Let_def
        split: result.splits)
  have "verifyJwt (me_jwt en) now token pub None =
      Some (if t + ttl \<le> now - 30 then Err (AuthError_create ''Admin token expired'' None)
            else if now + 30 < t then Err (ValidationError_create ''jwt.iat'' ''Token issued in future'' [])
            else Ok \<lparr>ap_iss = toHex pub, ap_iat = t, ap_exp = t + ttl, ap_jti = toHex random\<rparr>)"
    using written_token [of "me_jwt en" ?claims "\<lparr>ap_iss = toHex pub, ap_iat = t, ap_exp = t + ttl, ap_jti = toHex random\<rparr>"
        pub sig now None] assms(8,9,10) assms(7) [OF C(1) sig(1)] C(3) unfolding sig(2)
    by (simp add: AdminJwtPayloadSchema_def admin_claims_def)
  then show ?thesis
    using I C by (simp add: admin_verifyJwt_def compat_hex_roundtrip)
qed

subsection \<open>Sample surroundings\<close>

definition sample_subtle :: subtle_engine where
  "sample_subtle =
     \<lparr>su_signP256 = (\<lambda>k d. Ok (k @ d)), su_verifyP256 = (\<lambda>k s d. Ok (s = k @ d)), su_signEd25519 = (\<lambda>k d. Ok (k @ d)),
      su_verifyEd25519 = (\<lambda>k s d. Ok (s = k @ d)), su_exportRaw = Ok, su_exportPkcs8 = Ok, su_importEd25519 = Ok,
      su_importP256 = Ok, su_digest = (\<lambda>bs. Ok (take 8 bs))\<rparr>"

definition sample_iso :: "int \<Rightarrow> string" where
  "sample_iso t = (if t < 0 then CHR ''-'' # replicate (nat (- t)) (CHR ''x'') else replicate (nat t) (CHR ''x''))"

definition sample_parse_iso :: "string \<Rightarrow> int" where
  "sample_parse_iso s = (case s of [] \<Rightarrow> 0 | c # r \<Rightarrow> if c = CHR ''-'' then - int (length r) else int (length s))"

lemma sample_iso_roundtrip: "sample_parse_iso (sample_iso t) = t"
  by (cases "nat t") (auto simp: sample_parse_iso_def sample_iso_def split: list.split)

definition sample_manager_env :: manager_env where
  "sample_manager_env =
     \<lparr>me_subtle = sample_subtle,
      me_jwt = \<lparr>jw_stringify = (\<lambda>v. if v = jwt_header then ''h'' else ''p''),
        jw_parseJson = (\<lambda>bs. if bs = text_octets ''h'' then Some jwt_header else Some (admin_claims 100 120 (toHex [1, 2]) (toHex [9]))),
        jw_numText = (\<lambda>_. []), jw_sign = (\<lambda>k d. Ok (k @ d)), jw_importKey = (\<lambda>_. True),
        jw_verify = (\<lambda>k s d. Some (s = k @ d))\<rparr>,
      me_isoText = sample_iso, me_parseIso = sample_parse_iso,
      me_config = \<lparr>kc_dataDir = ''data'', kc_rootKeyPolicy = Policy_biometric, kc_operationalKeyPolicy = Policy_open,
        kc_vaultKeyPolicy = Policy_open, kc_biometricGating = BiometricGateConfigSchema None, kc_rotationIntervalSeconds = 86400\<rparr>,
      me_platform = Cap_software_vault\<rparr>"

definition sample_pair :: key_pair where
  "sample_pair = \<lparr>kp_publicKey = [1, 2], kp_privateKey = [1, 2]\<rparr>"

definition sample_manager :: "vault_files key_manager" where
  "sample_manager = start_manager \<lparr>cs_vault = empty_files, cs_legacy = None\<rparr>"

theorem credential_key_lifetime_witness:
  "case issueCredentialKey sample_manager_env (Ok sample_pair) 5000 sample_manager ''cred_1'' 60 of
     (Err _, _) \<Rightarrow> False
   | (Ok k, km) \<Rightarrow>
       fst (signWithCredentialKey sample_manager_env 64999 km (ck_keyId k) [7]) = Ok [1, 2, 7] \<and>
       fst (signWithCredentialKey sample_manager_env 65000 km (ck_keyId k) [7]) =
         Err (NotFoundError_create ''credential-key'' (ck_keyId k))"
proof -
  obtain k km where i: "issueCredentialKey sample_manager_env (Ok sample_pair) 5000 sample_manager ''cred_1'' 60 = (Ok k, km)"
    by (simp add: issueCredentialKey_def generateEd25519KeyPair_def subtle_call_def fingerprint_def exportPublicKey_def
        sample_manager_env_def sample_subtle_def Let_def)
  have iso: "me_parseIso sample_manager_env (me_isoText sample_manager_env t) = t" for t
    by (simp add: sample_manager_env_def sample_iso_roundtrip)
  have sign: "signEd25519 (me_subtle sample_manager_env) (kp_privateKey sample_pair) [7] = Ok [1, 2, 7]"
    by (simp add: signEd25519_def subtle_call_def sample_manager_env_def sample_subtle_def sample_pair_def)
  show ?thesis
    using credential_key_lifetime [OF iso i, of 64999 "[7]" 0] credential_key_lifetime [OF iso i, of 65000 "[7]" 0] i sign
    by simp
qed

definition sample_kv :: kv_faults where
  "sample_kv = \<lparr>kf_read = None, kf_unlink = False, kf_rmdir = False\<rparr>"

lemma sample_admin_created:
  "\<exists>km. admin_create sample_manager_env (file_secret_ops sample_vault_engine [7] None None []) (replicate 12 1) sample_kv
     (\<lambda>_. Prompt_answer (Ok ())) (Ok sample_pair) sample_manager =
     (Some (Ok \<lparr>aki_publicKey = toHex [1, 2], aki_fingerprint = toHex [1, 2]\<rparr>), km)"
  by (simp add: admin_create_def sample_manager_def start_manager_def gate_answer_def createBiometricGate_def
      sample_manager_env_def BiometricGateConfigSchema_def gated_def generateEd25519KeyPair_def subtle_call_def
      exportPublicKey_def exportPrivateKey_def sample_subtle_def Let_def cs_set_def file_secret_ops_def fv_set_def
      readAdminInfo_def fingerprintBytes_def sample_pair_def compat_hex_roundtrip)
     (simp add: toHex_def)

theorem admin_key_survives_restart_witness:
  "\<exists>km token. admin_create sample_manager_env (file_secret_ops sample_vault_engine [7] None None []) (replicate 12 1) sample_kv
     (\<lambda>_. Prompt_answer (Ok ())) (Ok sample_pair) sample_manager =
       (Some (Ok \<lparr>aki_publicKey = toHex [1, 2], aki_fingerprint = toHex [1, 2]\<rparr>), km) \<and>
   admin_verifyJwt sample_manager_env 150 km token =
     Some (Ok \<lparr>ap_iss = toHex [1, 2], ap_iat = 100, ap_exp = 220, ap_jti = toHex [9]\<rparr>)"
proof -
  let ?ops = "file_secret_ops sample_vault_engine [7] None None []"
  obtain km where c: "admin_create sample_manager_env ?ops (replicate 12 1) sample_kv
     (\<lambda>_. Prompt_answer (Ok ())) (Ok sample_pair) sample_manager =
       (Some (Ok \<lparr>aki_publicKey = toHex [1, 2], aki_fingerprint = toHex [1, 2]\<rparr>), km)"
    using sample_admin_created by blast
  have wf: "file_secrets_wf sample_vault_engine [7] (cs_vault (km_store sample_manager))"
    by (simp add: file_secrets_wf_def sample_vault_laws sample_manager_def start_manager_def empty_files_def)
  have len: "length (replicate 12 (1 :: 8 word)) = 12" by simp
  obtain priv hex where "visible (file_view sample_vault_engine [7]) (km_store km) ''admin-key'' = Some priv"
      "visible (file_view sample_vault_engine [7]) (km_store km) ''admin-key-pub'' = Some (text_octets hex)"
      "file_secrets_wf sample_vault_engine [7] (cs_vault (km_store km))"
    using create_stored [OF wf len refl c] by blast
  then obtain h km2 where i: "km_initialize sample_manager_env ?ops (replicate 12 1) sample_kv 0 (start_manager (km_store km)) = (Ok h, km2)"
      "km_adminPrivateKey km2 = Some priv"
    using initialize_reads [of sample_vault_engine "[7]" "km_store km" "replicate 12 1" sample_kv ?ops "[]" priv hex
        sample_manager_env priv 0] len
    by (auto simp: sample_kv_def sample_manager_env_def sample_subtle_def)
  then obtain token where tok: "admin_signJwt sample_manager_env 100 [9] km2 120 = Ok token"
    by (simp add: admin_signJwt_def signEd25519_def subtle_call_def sample_manager_env_def sample_subtle_def Let_def)
  have kv: "kf_read sample_kv = None" by (simp add: sample_kv_def)
  have imp: "su_exportPkcs8 (me_subtle sample_manager_env) (kp_privateKey sample_pair) = Ok p \<Longrightarrow>
      su_importEd25519 (me_subtle sample_manager_env) p = Ok (kp_privateKey sample_pair)" for p
    by (simp add: sample_manager_env_def sample_subtle_def)
  have ver: "su_exportRaw (me_subtle sample_manager_env) (kp_publicKey sample_pair) = Ok raw \<Longrightarrow>
      su_signEd25519 (me_subtle sample_manager_env) (kp_privateKey sample_pair) data = Ok sig \<Longrightarrow>
      jw_importKey (me_jwt sample_manager_env) raw \<and> jw_verify (me_jwt sample_manager_env) raw sig data = Some True"
    for raw data sig
    by (auto simp: sample_manager_env_def sample_subtle_def sample_pair_def)
  have json: "v \<in> {jwt_header, admin_claims 100 120
        (aki_publicKey \<lparr>aki_publicKey = toHex [1, 2], aki_fingerprint = toHex [1, 2]\<rparr>) (toHex [9])} \<Longrightarrow>
      jw_parseJson (me_jwt sample_manager_env) (text_octets (jw_stringify (me_jwt sample_manager_env) v)) = Some v" for v
    by (auto simp: sample_manager_env_def text_octets_def jwt_header_def admin_claims_def)
  have tok': "admin_signJwt sample_manager_env 100 [9]
      (snd (km_initialize sample_manager_env ?ops (replicate 12 1) sample_kv 0 (start_manager (km_store km)))) 120 = Ok token"
    using tok i(1) by simp
  have "admin_verifyJwt sample_manager_env 150 km token =
      Some (if 100 + 120 \<le> 150 - (30 :: int) then Err (AuthError_create ''Admin token expired'' None)
            else if 150 + 30 < (100 :: int) then Err (ValidationError_create ''jwt.iat'' ''Token issued in future'' [])
            else Ok \<lparr>ap_iss = toHex [1, 2], ap_iat = 100, ap_exp = 100 + 120, ap_jti = toHex [9]\<rparr>)"
    using admin_key_survives_restart [OF wf len kv refl c imp ver json _ _ tok', of 150] i(1) by simp
  then show ?thesis using c by auto
qed

end
