(* ===== verification/KeyActions.thy ===== *)
theory KeyActions
  imports KeyManager OperatorManager SealBuild
begin

text \<open>
  What is built on the key manager: the actions on keys and wallets
  (\<^verbatim>\<open>packages/keys/src/key-actions.ts\<close>, \<^verbatim>\<open>wallet-actions.ts\<close>), the signer providers
  (\<^verbatim>\<open>signer-provider.ts\<close>) and the seal stampers (\<^verbatim>\<open>seal-stamper.ts\<close>) over the manager or over
  a key backend. The operators are the store of the operator manager; what an action draws,
  reads or is answered from outside is a field of \<open>keys_env\<close>.
\<close>

subsection \<open>Surroundings\<close>

record 's keys_env =
  kx_vault :: "'s vault_ops"
  kx_secrets :: "'s secret_ops"
  kx_keys :: key_engine
  kx_manager :: manager_env
  kx_secret :: "(string, signet_error) result"
  kx_prompter :: "gated_operation \<Rightarrow> prompt_outcome"
  kx_now :: int
  kx_walletId :: string
  kx_entropy :: bytes
  kx_pair :: "(key_pair, string) result"
  kx_identitySecret :: bytes
  kx_iv :: bytes
  kx_kv :: kv_faults
  kx_tooShort :: string

record key_summary =
  ksum_keyId :: string
  ksum_identityId :: string
  ksum_operatorId :: "string option"
  ksum_groupId :: "string option"
  ksum_publicKey :: string
  ksum_fingerprint :: string
  ksum_createdAt :: string
  ksum_rotatedAt :: "string option"
  ksum_trustTier :: key_trust_tier
  ksum_walletId :: "string option"
  ksum_provider :: "wallet_provider option"

record key_init_result =
  ki_operatorId :: string
  ki_walletId :: string
  ki_provider :: wallet_provider
  ki_trustTier :: key_trust_tier
  ki_createdWallet :: bool
  ki_createdOperationalKey :: bool
  ki_identityKeyRef :: string
  ki_operationalKey :: key_summary

subsection \<open>Operators and summaries\<close>

definition resolveOperator :: "operator_store \<Rightarrow> string \<Rightarrow> (operator_record, signet_error) result" where
  "resolveOperator store operatorId =
     (if starts_with operatorId ''op_''
      then if \<not> resource_id_ok (RESOURCE_PREFIXES RT_operator) operatorId
           then Err (ValidationError_create ''operatorId'' (''Invalid operator ID format: '' @ operatorId) [])
           else
             (case operator_lookup store operatorId of
                Err e \<Rightarrow> Err e
              | Ok rec \<Rightarrow>
                  if or_status rec = OS_removed then Err (NotFoundError_create ''operator'' operatorId) else Ok rec)
      else
        let ms = filter (\<lambda>rec. oc_label (or_config rec) = operatorId) (operator_list store)
        in if length ms = 0 then Err (NotFoundError_create ''operator'' operatorId)
           else if 1 < length ms
           then Err (ValidationError_create ''operatorId'' ''Ambiguous operator label''
                  [(''label'', VStr operatorId), (''matchingIds'', VArr (map (VStr \<circ> or_id) ms))])
           else Ok (hd ms))"

definition summarizeOperationalKey ::
  "key_trust_tier \<Rightarrow> operator_store \<Rightarrow> operational_key \<Rightarrow> (key_summary, signet_error) result" where
  "summarizeOperationalKey tier store key =
     (let summary = (\<lambda>oid wid prov. \<lparr>ksum_keyId = ok_keyId key, ksum_identityId = ok_identityId key,
            ksum_operatorId = oid, ksum_groupId = ok_groupId key, ksum_publicKey = ok_publicKey key,
            ksum_fingerprint = ok_fingerprint key, ksum_createdAt = ok_createdAt key,
            ksum_rotatedAt = ok_rotatedAt key, ksum_trustTier = tier, ksum_walletId = wid, ksum_provider = prov\<rparr>)
      in case operator_lookup store (ok_identityId key) of
           Err e \<Rightarrow> if err_tag e \<noteq> Tag_NotFoundError then Err e else Ok (summary None None None)
         | Ok rec \<Rightarrow> Ok (summary (Some (or_id rec)) (oc_walletId (or_config rec)) (Some (oc_provider (or_config rec)))))"

fun summarizeOperationalKeys ::
  "key_trust_tier \<Rightarrow> operator_store \<Rightarrow> operational_key list \<Rightarrow> (key_summary list, signet_error) result" where
  "summarizeOperationalKeys tier store [] = Ok []"
| "summarizeOperationalKeys tier store (k # ks) =
     (case summarizeOperationalKey tier store k of
        Err e \<Rightarrow> Err e
      | Ok s \<Rightarrow>
          (case summarizeOperationalKeys tier store ks of
             Err e \<Rightarrow> Err e
           | Ok ss \<Rightarrow> Ok (s # ss)))"

subsection \<open>\<open>keys.init\<close>\<close>

definition wallet_provider_text :: "wallet_provider \<Rightarrow> string" where
  "wallet_provider_text p = (case p of WP_internal \<Rightarrow> ''internal'' | WP_ows \<Rightarrow> ''ows'')"

definition only_wallet :: "string \<Rightarrow> operator_changes" where
  "only_wallet walletId =
     \<lparr>och_label = None, och_role = None, och_scopeMode = None, och_provider = None,
      och_walletId = Some (Some walletId), och_inboxIds = None, och_disclosures = None\<rparr>"

text \<open>The wallet: the one asked for or configured, which must exist, or a new one.\<close>

definition init_wallet ::
  "'s keys_env \<Rightarrow> 's key_manager \<Rightarrow> operator_record \<Rightarrow> string option \<Rightarrow>
   (string \<times> bool, signet_error) result option \<times> 's key_manager" where
  "init_wallet kx km operator asked =
     (case nullish (map_option Some asked) (oc_walletId (or_config operator)) of
        None \<Rightarrow>
          (case km_createWallet (kx_vault kx) (kx_keys kx) (kx_secret kx) (kx_now kx) (kx_walletId kx) (kx_entropy kx) km
                  (oc_label (or_config operator)) of
             (None, km') \<Rightarrow> (None, km')
           | (Some (Err e), km') \<Rightarrow> (Some (Err e), km')
           | (Some (Ok created), km') \<Rightarrow> (Some (Ok (wsum_id created, True)), km'))
      | Some walletId \<Rightarrow>
          (case km_getWallet (kx_vault kx) (kx_secret kx) km walletId of
             (Err e, km') \<Rightarrow> (Some (Err e), km')
           | (Ok _, km') \<Rightarrow> (Some (Ok (walletId, False)), km')))"

definition init_operational_key ::
  "'s keys_env \<Rightarrow> 's key_manager \<Rightarrow> string \<Rightarrow> (operational_key \<times> bool, signet_error) result \<times> 's key_manager" where
  "init_operational_key kx km operatorId =
     (case getOperationalKey km operatorId of
        Ok existing \<Rightarrow> (Ok (existing, False), km)
      | Err _ \<Rightarrow>
          (case createOperationalKey (kx_manager kx) (kx_prompter kx) (kx_pair kx) (kx_now kx) km operatorId None of
             (Err e, km') \<Rightarrow> (Err e, km')
           | (Ok created, km') \<Rightarrow> (Ok (created, True), km')))"

definition keys_init ::
  "'s keys_env \<Rightarrow> operator_store \<Rightarrow> 's key_manager \<Rightarrow> string \<Rightarrow> string option \<Rightarrow>
   (key_init_result, signet_error) result option \<times> operator_store \<times> 's key_manager" where
  "keys_init kx store km operatorId asked =
     (case resolveOperator store operatorId of
        Err e \<Rightarrow> (Some (Err e), store, km)
      | Ok operator \<Rightarrow>
          let provider = oc_provider (or_config operator)
          in if provider \<noteq> WP_internal
             then (Some (Err (ValidationError_create ''provider''
                     ''Only the internal wallet provider is currently supported for keys.init''
                     [(''operatorId'', VStr (or_id operator)), (''provider'', VStr (wallet_provider_text provider))])), store, km)
             else
               (case init_wallet kx km operator asked of
                  (None, km1) \<Rightarrow> (None, store, km1)
                | (Some (Err e), km1) \<Rightarrow> (Some (Err e), store, km1)
                | (Some (Ok (walletId, createdWallet)), km1) \<Rightarrow>
                    (case (if Some walletId \<noteq> oc_walletId (or_config operator)
                           then operator_update (kx_tooShort kx) store (or_id operator) (only_wallet walletId)
                           else (Ok operator, store)) of
                       (Err e, store1) \<Rightarrow> (Some (Err e), store1, km1)
                     | (Ok _, store1) \<Rightarrow>
                         (case init_operational_key kx km1 (or_id operator) of
                            (Err e, km2) \<Rightarrow> (Some (Err e), store1, km2)
                          | (Ok (operationalKey, createdKey), km2) \<Rightarrow>
                              (case getOrCreateXmtpIdentityKey (kx_secrets kx) (kx_iv kx) (kx_kv kx) (kx_identitySecret kx)
                                      km2 (or_id operator) of
                                 (Err e, km3) \<Rightarrow> (Some (Err e), store1, km3)
                               | (Ok _, km3) \<Rightarrow>
                                   (case summarizeOperationalKey (km_trustTier (kx_manager kx)) store1 operationalKey of
                                      Err e \<Rightarrow> (Some (Err e), store1, km3)
                                    | Ok summary \<Rightarrow>
                                        (Some (Ok \<lparr>ki_operatorId = or_id operator, ki_walletId = walletId,
                                                   ki_provider = provider, ki_trustTier = km_trustTier (kx_manager kx),
                                                   ki_createdWallet = createdWallet, ki_createdOperationalKey = createdKey,
                                                   ki_identityKeyRef = ''xmtp-identity-key:'' @ or_id operator,
                                                   ki_operationalKey = summary\<rparr>), store1, km3)))))))"

subsection \<open>Listing keys\<close>

definition keys_list :: "'s keys_env \<Rightarrow> operator_store \<Rightarrow> 's key_manager \<Rightarrow> (key_summary list, signet_error) result" where
  "keys_list kx store km =
     summarizeOperationalKeys (km_trustTier (kx_manager kx)) store (listOperationalKeys km)"

definition find_key :: "'s key_manager \<Rightarrow> string \<Rightarrow> operational_key option" where
  "find_key km keyId = List.find (\<lambda>k. ok_keyId k = keyId \<or> ok_identityId k = keyId) (listOperationalKeys km)"

definition keys_info :: "'s keys_env \<Rightarrow> operator_store \<Rightarrow> 's key_manager \<Rightarrow> string \<Rightarrow> (key_summary, signet_error) result" where
  "keys_info kx store km keyId =
     (case find_key km keyId of
        None \<Rightarrow> Err (NotFoundError_create ''key'' keyId)
      | Some key \<Rightarrow> summarizeOperationalKey (km_trustTier (kx_manager kx)) store key)"

record public_key_export =
  pke_keyId :: string
  pke_identityId :: string
  pke_publicKey :: string
  pke_fingerprint :: string
  pke_trustTier :: key_trust_tier

definition keys_export_public :: "'s keys_env \<Rightarrow> 's key_manager \<Rightarrow> string \<Rightarrow> (public_key_export, signet_error) result" where
  "keys_export_public kx km keyId =
     (case find_key km keyId of
        None \<Rightarrow> Err (NotFoundError_create ''key'' keyId)
      | Some key \<Rightarrow>
          Ok \<lparr>pke_keyId = ok_keyId key, pke_identityId = ok_identityId key, pke_publicKey = ok_publicKey key,
              pke_fingerprint = ok_fingerprint key, pke_trustTier = km_trustTier (kx_manager kx)\<rparr>)"

subsection \<open>Wallet actions\<close>

definition wallet_info_action ::
  "'s keys_env \<Rightarrow> 's key_manager \<Rightarrow> string \<Rightarrow> (wallet_summary \<times> account_info list, signet_error) result option \<times> 's key_manager" where
  "wallet_info_action kx km walletId =
     (case km_getWallet (kx_vault kx) (kx_secret kx) km walletId of
        (Err e, km1) \<Rightarrow> (Some (Err e), km1)
      | (Ok wallet, km1) \<Rightarrow>
          (case km_listWalletAccounts (kx_vault kx) (kx_keys kx) (kx_secret kx) km1 walletId of
             (None, km2) \<Rightarrow> (None, km2)
           | (Some (Err e), km2) \<Rightarrow> (Some (Err e), km2)
           | (Some (Ok accounts), km2) \<Rightarrow> (Some (Ok (wallet, accounts)), km2)))"

subsection \<open>Signer providers\<close>

text \<open>Over a key backend, for an account of a wallet.\<close>

definition sp_sign ::
  "'s vault_ops \<Rightarrow> key_engine \<Rightarrow> string \<Rightarrow> 's key_backend \<Rightarrow> string \<Rightarrow> int \<Rightarrow> bytes \<Rightarrow> (bytes, signet_error) result option" where
  "sp_sign ops ke passphrase kb walletId accountIndex data =
     map_option (\<lambda>r. bindR r (\<lambda>s. Ok (sr_signature s))) (kb_sign ops ke passphrase kb walletId accountIndex data)"

definition sp_getPublicKey ::
  "'s vault_ops \<Rightarrow> key_engine \<Rightarrow> string \<Rightarrow> 's key_backend \<Rightarrow> string \<Rightarrow> int \<Rightarrow> (bytes, signet_error) result option" where
  "sp_getPublicKey ops ke passphrase kb walletId accountIndex =
     map_option (\<lambda>r. bindR r (\<lambda>s. Ok (sr_publicKey s))) (kb_sign ops ke passphrase kb walletId accountIndex [])"

definition sp_getFingerprint ::
  "'s vault_ops \<Rightarrow> key_engine \<Rightarrow> string \<Rightarrow> 's key_backend \<Rightarrow> string \<Rightarrow> int \<Rightarrow> (string, signet_error) result option" where
  "sp_getFingerprint ops ke passphrase kb walletId accountIndex =
     map_option (\<lambda>r. bindR r (\<lambda>s. Ok (hex_text (sr_publicKey s)))) (kb_sign ops ke passphrase kb walletId accountIndex [])"

definition sp_getDbEncryptionKey ::
  "'s vault_ops \<Rightarrow> key_engine \<Rightarrow> string \<Rightarrow> 's key_backend \<Rightarrow> string \<Rightarrow> int \<Rightarrow> (bytes, signet_error) result option" where
  "sp_getDbEncryptionKey ops ke passphrase kb walletId accountIndex =
     map_option (\<lambda>r. bindR r (\<lambda>s. Ok (cr_sha256 (ke_crypto ke) (sr_publicKey s))))
       (kb_sign ops ke passphrase kb walletId accountIndex [])"

definition sp_getXmtpIdentityKey ::
  "'s vault_ops \<Rightarrow> key_engine \<Rightarrow> string \<Rightarrow> 's key_backend \<Rightarrow> string \<Rightarrow> int \<Rightarrow>
   (string, signet_error) result option \<times> 's key_backend" where
  "sp_getXmtpIdentityKey ops ke passphrase kb walletId accountIndex =
     getXmtpIdentityKey ops ke passphrase kb walletId accountIndex"

text \<open>Over the key manager, for an identity.\<close>

definition spc_getPublicKey :: "'s key_manager \<Rightarrow> string \<Rightarrow> (bytes, signet_error) result" where
  "spc_getPublicKey km identityId =
     (case getOperationalKey km identityId of Err e \<Rightarrow> Err e | Ok k \<Rightarrow> Ok (hexToBytes_compat (ok_publicKey k)))"

definition spc_getFingerprint :: "'s key_manager \<Rightarrow> string \<Rightarrow> (string, signet_error) result" where
  "spc_getFingerprint km identityId =
     (case getOperationalKey km identityId of Err e \<Rightarrow> Err e | Ok k \<Rightarrow> Ok (ok_fingerprint k))"

subsection \<open>Seal stampers\<close>

definition empty_delta :: policy_delta where
  "empty_delta = \<lparr>d_added = [], d_removed = [], d_changed = []\<rparr>"

definition toKeyId :: "crypto_engine \<Rightarrow> bytes \<Rightarrow> string" where
  "toKeyId cr publicKey = ''key_'' @ hex_text (take 4 (cr_sha256 cr publicKey))"

definition backend_stamp ::
  "seal_engine \<Rightarrow> 's vault_ops \<Rightarrow> key_engine \<Rightarrow> string \<Rightarrow> 's key_backend \<Rightarrow> string \<Rightarrow> int \<Rightarrow> js_value \<Rightarrow>
   (string \<times> string, signet_error) result option" where
  "backend_stamp se ops ke passphrase kb walletId accountIndex payload =
     (let canonical = encode_text (canonicalize_bytes se payload)
      in map_option (\<lambda>r. bindR r (\<lambda>s. Ok (btoa (sr_signature s), toKeyId (ke_crypto ke) (sr_publicKey s))))
           (kb_sign ops ke passphrase kb walletId accountIndex canonical))"

definition sealStamper_sign ::
  "seal_engine \<Rightarrow> 's vault_ops \<Rightarrow> key_engine \<Rightarrow> string \<Rightarrow> 's key_backend \<Rightarrow> string \<Rightarrow> int \<Rightarrow> seal_payload \<Rightarrow>
   (seal_envelope, signet_error) result option" where
  "sealStamper_sign se ops ke passphrase kb walletId accountIndex payload =
     map_option (\<lambda>r. bindR r (\<lambda>(signature, keyId).
         Ok \<lparr>sen_chain = \<lparr>sc_current = payload, sc_previous = None, sc_delta = empty_delta\<rparr>,
             sen_signature = signature, sen_keyId = keyId\<rparr>))
       (backend_stamp se ops ke passphrase kb walletId accountIndex (payload_js payload))"

definition sealStamper_signRevocation ::
  "seal_engine \<Rightarrow> 's vault_ops \<Rightarrow> key_engine \<Rightarrow> string \<Rightarrow> 's key_backend \<Rightarrow> string \<Rightarrow> int \<Rightarrow> revocation_seal \<Rightarrow>
   (signed_revocation_envelope, signet_error) result option" where
  "sealStamper_signRevocation se ops ke passphrase kb walletId accountIndex payload =
     map_option (\<lambda>r. bindR r (\<lambda>(signature, keyId).
         Ok \<lparr>sre_revocation = payload, sre_signature = signature, sre_signerKeyRef = keyId\<rparr>))
       (backend_stamp se ops ke passphrase kb walletId accountIndex (revocation_js payload))"

definition compat_stamp ::
  "seal_engine \<Rightarrow> manager_env \<Rightarrow> 's key_manager \<Rightarrow> string \<Rightarrow> js_value \<Rightarrow> (string \<times> string, signet_error) result" where
  "compat_stamp se en km identityId payload =
     (let canonical = encode_text (canonicalize_bytes se payload)
      in case signWithOperationalKey en km identityId canonical of
           Err e \<Rightarrow> Err e
         | Ok signature \<Rightarrow>
             (case getOperationalKey km identityId of
                Err e \<Rightarrow> Err e
              | Ok key \<Rightarrow> Ok (btoa signature, ok_publicKey key)))"

definition compatStamper_sign ::
  "seal_engine \<Rightarrow> manager_env \<Rightarrow> 's key_manager \<Rightarrow> string \<Rightarrow> seal_payload \<Rightarrow> (seal_envelope, signet_error) result" where
  "compatStamper_sign se en km identityId payload =
     bindR (compat_stamp se en km identityId (payload_js payload)) (\<lambda>(signature, keyId).
       Ok \<lparr>sen_chain = \<lparr>sc_current = payload, sc_previous = None, sc_delta = empty_delta\<rparr>,
           sen_signature = signature, sen_keyId = keyId\<rparr>)"

definition compatStamper_signRevocation ::
  "seal_engine \<Rightarrow> manager_env \<Rightarrow> 's key_manager \<Rightarrow> string \<Rightarrow> revocation_seal \<Rightarrow> (signed_revocation_envelope, signet_error) result" where
  "compatStamper_signRevocation se en km identityId payload =
     bindR (compat_stamp se en km identityId (revocation_js payload)) (\<lambda>(signature, keyId).
       Ok \<lparr>sre_revocation = payload, sre_signature = signature, sre_signerKeyRef = keyId\<rparr>)"

subsection \<open>What \<open>keys.init\<close> leaves behind\<close>

lemma resolve_stored:
  assumes "operator_inv ts store" "resolveOperator store s = Ok rec"
  shows "map_get store (or_id rec) = Some rec"
proof (cases "starts_with s ''op_''")
  case True
  then have "map_get store s = Some rec"
    using assms(2) by (auto simp: resolveOperator_def operator_lookup_def split: if_splits option.splits)
  then show ?thesis using assms(1) by (auto simp: operator_inv_get operator_ok_def)
next
  case False
  let ?ms = "filter (\<lambda>rec. oc_label (or_config rec) = s) (operator_list store)"
  have "?ms \<noteq> []" "rec = hd ?ms"
    using False assms(2) by (auto simp: resolveOperator_def Let_def split: if_splits)
  then have "rec \<in> set ?ms" by (metis hd_in_set)
  then have "rec \<in> set (map_values store)" by (simp add: operator_list_eq)
  then obtain k where "map_get store k = Some rec"
    using assms(1) map_values_iff by (fastforce simp: operator_inv_def)
  then show ?thesis using assms(1) by (auto simp: operator_inv_get operator_ok_def)
qed

lemma identity_key_keeps: "km_opKeys (snd (getOrCreateXmtpIdentityKey ops iv fl random km i)) = km_opKeys km"
  by (auto simp: getOrCreateXmtpIdentityKey_def Let_def split: prod.splits result.splits)

lemma init_key_exact:
  "init_operational_key kx km i = (Ok (k, created), km') \<Longrightarrow>
    getOperationalKey km' i = Ok k \<and> created = (\<not> isOk (getOperationalKey km i))"
  by (auto simp: init_operational_key_def createOperationalKey_def getOperationalKey_def
      dest!: record_key_exact split: result.splits prod.splits option.splits)

lemma update_wallet_exact:
  "map_get store i = Some rec \<Longrightarrow> operator_update ts store i (only_wallet w) = (Ok rec', store') \<Longrightarrow>
    store' = map_set store i rec' \<and> oc_walletId (or_config rec') = Some w \<and> or_id rec' = or_id rec \<and>
    oc_label (or_config rec') = oc_label (or_config rec) \<and> or_status rec' = or_status rec"
  by (auto simp: operator_update_def only_wallet_def merge_operator_config_def Let_def split: option.splits if_splits)

lemma keys_init_steps:
  assumes "keys_init kx store km s asked = (Some (Ok r), store', km')"
  obtains operator km1 store1 rec km2 key where
    "resolveOperator store s = Ok operator" "ki_operatorId r = or_id operator"
    "init_wallet kx km operator asked = (Some (Ok (ki_walletId r, ki_createdWallet r)), km1)"
    "(if Some (ki_walletId r) \<noteq> oc_walletId (or_config operator)
      then operator_update (kx_tooShort kx) store (or_id operator) (only_wallet (ki_walletId r))
      else (Ok operator, store)) = (Ok rec, store')"
    "init_operational_key kx km1 (or_id operator) = (Ok (key, ki_createdOperationalKey r), km2)"
    "km_opKeys km' = km_opKeys km2"
    "summarizeOperationalKey (km_trustTier (kx_manager kx)) store' key = Ok (ki_operationalKey r)"
    "ki_provider r = WP_internal" "oc_provider (or_config operator) = WP_internal"
proof -
  obtain operator where op: "resolveOperator store s = Ok operator" "oc_provider (or_config operator) = WP_internal"
    using assms by (auto simp: keys_init_def Let_def split: result.splits if_splits)
  obtain w c km1 where w: "init_wallet kx km operator asked = (Some (Ok (w, c)), km1)"
    using assms by (auto simp: keys_init_def Let_def op split: result.splits option.splits prod.splits)
  obtain rec store1 where u: "(if Some w \<noteq> oc_walletId (or_config operator)
      then operator_update (kx_tooShort kx) store (or_id operator) (only_wallet w) else (Ok operator, store)) = (Ok rec, store1)"
  proof -
    obtain q store1 where q: "(if Some w \<noteq> oc_walletId (or_config operator)
      then operator_update (kx_tooShort kx) store (or_id operator) (only_wallet w) else (Ok operator, store)) = (q, store1)"
      by (metis prod.exhaust)
    then show thesis using assms that by (cases q) (simp_all add: keys_init_def Let_def op w)
  qed
  obtain key b km2 where k: "init_operational_key kx km1 (or_id operator) = (Ok (key, b), km2)"
    using assms by (auto simp: keys_init_def Let_def op w u split: result.splits prod.splits)
  obtain q km3 where g: "getOrCreateXmtpIdentityKey (kx_secrets kx) (kx_iv kx) (kx_kv kx) (kx_identitySecret kx) km2 (or_id operator) = (q, km3)"
    by force
  have "km_opKeys km3 = km_opKeys km2" using identity_key_keeps g by (metis snd_conv)
  obtain summary where r: "summarizeOperationalKey (km_trustTier (kx_manager kx)) store1 key = Ok summary"
    using assms by (auto simp: keys_init_def Let_def op w u k g split: result.splits)
  have fin: "store1 = store'" "km3 = km'" "ki_operatorId r = or_id operator" "ki_walletId r = w"
      "ki_createdWallet r = c" "ki_createdOperationalKey r = b" "ki_operationalKey r = summary" "ki_provider r = WP_internal"
    using assms by (auto simp: keys_init_def Let_def op w u k g r split: result.splits)
  show thesis
    by (rule that [of operator km1 rec key km2])
      (use op w u k r fin \<open>km_opKeys km3 = km_opKeys km2\<close> in \<open>simp_all split: if_splits\<close>)
qed

text \<open>When initializing an operator's keys succeeds, the stored operator has the wallet of the
  answer, everything else about it and every other operator is as before, and its operational key
  is the one summarized. Whatever is asked later for the same operator without naming a wallet,
  an answer names the same wallet, creates neither wallet nor key again and leaves the operators
  alone.\<close>

theorem keys_init_exact:
  assumes "operator_inv tooShort store" "keys_init kx store km s asked = (Some (Ok r), store', km')"
  shows "(case operator_lookup store' (ki_operatorId r) of
       Err _ \<Rightarrow> False
     | Ok rec \<Rightarrow> oc_walletId (or_config rec) = Some (ki_walletId r) \<and>
         (case operator_lookup store (ki_operatorId r) of
            Err _ \<Rightarrow> False
          | Ok old \<Rightarrow> oc_label (or_config rec) = oc_label (or_config old) \<and> or_status rec = or_status old)) \<and>
    (case getOperationalKey km' (ki_operatorId r) of
       Err _ \<Rightarrow> False
     | Ok key \<Rightarrow> summarizeOperationalKey (km_trustTier (kx_manager kx)) store' key = Ok (ki_operationalKey r)) \<and>
    (if j = ki_operatorId r then True else operator_lookup store' j = operator_lookup store j) \<and>
    (case keys_init kx2 store' km' s2 None of
       (Some (Ok r2), store2, _) \<Rightarrow>
         if ki_operatorId r2 = ki_operatorId r
         then ki_walletId r2 = ki_walletId r \<and> \<not> ki_createdWallet r2 \<and> \<not> ki_createdOperationalKey r2 \<and> store2 = store'
         else True
     | _ \<Rightarrow> True)"
proof -
  obtain operator km1 rec key km2 where I: "resolveOperator store s = Ok operator" "ki_operatorId r = or_id operator"
      "(if Some (ki_walletId r) \<noteq> oc_walletId (or_config operator)
        then operator_update (kx_tooShort kx) store (or_id operator) (only_wallet (ki_walletId r))
        else (Ok operator, store)) = (Ok rec, store')"
      "init_operational_key kx km1 (or_id operator) = (Ok (key, ki_createdOperationalKey r), km2)"
      "km_opKeys km' = km_opKeys km2"
      "summarizeOperationalKey (km_trustTier (kx_manager kx)) store' key = Ok (ki_operationalKey r)"
    using keys_init_steps [OF assms(2)] by metis
  have old: "map_get store (or_id operator) = Some operator" by (rule resolve_stored [OF assms(1) I(1)])
  have new: "map_get store' (or_id operator) = Some rec" "oc_walletId (or_config rec) = Some (ki_walletId r)"
      "or_id rec = or_id operator" "oc_label (or_config rec) = oc_label (or_config operator)" "or_status rec = or_status operator"
      "\<And>j. j \<noteq> or_id operator \<Longrightarrow> map_get store' j = map_get store j"
  proof -
    have "map_get store' (or_id operator) = Some rec \<and> oc_walletId (or_config rec) = Some (ki_walletId r) \<and>
        or_id rec = or_id operator \<and> oc_label (or_config rec) = oc_label (or_config operator) \<and> or_status rec = or_status operator \<and>
        (\<forall>j. j \<noteq> or_id operator \<longrightarrow> map_get store' j = map_get store j)"
    proof (cases "Some (ki_walletId r) \<noteq> oc_walletId (or_config operator)")
      case True
      then have u: "operator_update (kx_tooShort kx) store (or_id operator) (only_wallet (ki_walletId r)) = (Ok rec, store')"
        using I(3) by simp
      show ?thesis using update_wallet_exact [OF old u] by simp
    next
      case False
      then show ?thesis using I(3) old by simp
    qed
    then show "map_get store' (or_id operator) = Some rec" "oc_walletId (or_config rec) = Some (ki_walletId r)"
      "or_id rec = or_id operator" "oc_label (or_config rec) = oc_label (or_config operator)" "or_status rec = or_status operator"
      "\<And>j. j \<noteq> or_id operator \<Longrightarrow> map_get store' j = map_get store j" by blast+
  qed
  have key: "getOperationalKey km' (or_id operator) = Ok key"
    using init_key_exact [OF I(4)] I(5) by (simp add: getOperationalKey_def)
  have inv': "operator_inv tooShort2 m \<Longrightarrow> resolveOperator m x = Ok y \<Longrightarrow> map_get m (or_id y) = Some y" for tooShort2 m x y
    by (rule resolve_stored)
  have again: "ki_walletId r2 = ki_walletId r \<and> \<not> ki_createdWallet r2 \<and> \<not> ki_createdOperationalKey r2 \<and> store2 = store'"
    if k2: "keys_init kx2 store' km' s2 None = (Some (Ok r2), store2, km3)" and same: "ki_operatorId r2 = ki_operatorId r"
    for r2 store2 km3
  proof -
    obtain operator2 km12 rec2 key2 km22 where J: "resolveOperator store' s2 = Ok operator2" "ki_operatorId r2 = or_id operator2"
        "init_wallet kx2 km' operator2 None = (Some (Ok (ki_walletId r2, ki_createdWallet r2)), km12)"
        "(if Some (ki_walletId r2) \<noteq> oc_walletId (or_config operator2)
          then operator_update (kx_tooShort kx2) store' (or_id operator2) (only_wallet (ki_walletId r2))
          else (Ok operator2, store')) = (Ok rec2, store2)"
        "init_operational_key kx2 km12 (or_id operator2) = (Ok (key2, ki_createdOperationalKey r2), km22)"
      using keys_init_steps [OF k2] by metis
    have "operator_inv tooShort store'"
    proof (cases "Some (ki_walletId r) \<noteq> oc_walletId (or_config operator)")
      case True
      then have u: "operator_update (kx_tooShort kx) store (or_id operator) (only_wallet (ki_walletId r)) = (Ok rec, store')"
        using I(3) by simp
      have "operator_ok tooShort (or_id operator) operator" using assms(1) old by (simp add: operator_inv_get)
      moreover have "oc_role (or_config rec) = oc_role (or_config operator)"
          "OperatorConfig_issues tooShort (or_config rec) = OperatorConfig_issues tooShort (or_config operator)"
        using u old by (auto simp: operator_update_def only_wallet_def merge_operator_config_def OperatorConfig_issues_def
            Let_def split: option.splits if_splits)
      ultimately have "operator_ok tooShort (or_id operator) rec" using new(3) by (simp add: operator_ok_def)
      then show ?thesis using operator_inv_set [OF assms(1)] update_wallet_exact [OF old u] by simp
    next
      case False
      then show ?thesis using I(3) assms(1) by simp
    qed
    then have "map_get store' (or_id operator2) = Some operator2" using J(1) by (rule resolve_stored)
    then have op2: "operator2 = rec" using new(1) same J(2) I(2) by simp
    have w: "ki_walletId r2 = ki_walletId r \<and> \<not> ki_createdWallet r2" "km_opKeys km12 = km_opKeys km'"
      using J(3) new(2) unfolding op2
      by (auto simp: init_wallet_def km_getWallet_def getWalletBackend_def split: result.splits prod.splits option.splits)
    have "getOperationalKey km12 (or_id operator) = Ok key" using key w(2) by (simp add: getOperationalKey_def)
    then have "\<not> ki_createdOperationalKey r2"
      using init_key_exact [OF J(5)] op2 new(3) by simp
    then show ?thesis using w(1) J(4) new(2) op2 by simp
  qed
  have look: "operator_lookup store' (or_id operator) = Ok rec" "operator_lookup store (or_id operator) = Ok operator"
      "j \<noteq> or_id operator \<Longrightarrow> operator_lookup store' j = operator_lookup store j"
    using old new(1,6) by (simp_all add: operator_lookup_def)
  obtain a store2 km3 where k2: "keys_init kx2 store' km' s2 None = (a, store2, km3)" using prod_cases3 by blast
  have later: "case keys_init kx2 store' km' s2 None of
       (Some (Ok r2), store2, _) \<Rightarrow>
         if ki_operatorId r2 = ki_operatorId r
         then ki_walletId r2 = ki_walletId r \<and> \<not> ki_createdWallet r2 \<and> \<not> ki_createdOperationalKey r2 \<and> store2 = store'
         else True
     | _ \<Rightarrow> True"
  proof (cases a)
    case None
    then show ?thesis by (simp add: k2)
  next
    case (Some answer)
    show ?thesis
    proof (cases answer)
      case (Ok r2)
      then have "ki_operatorId r2 = ki_operatorId r \<Longrightarrow>
          ki_walletId r2 = ki_walletId r \<and> \<not> ki_createdWallet r2 \<and> \<not> ki_createdOperationalKey r2 \<and> store2 = store'"
        using again k2 Some by blast
      then show ?thesis by (simp add: k2 Some Ok)
    next
      case (Err e)
      then show ?thesis by (simp add: k2 Some)
    qed
  qed
  show ?thesis using look new(2,4,5) key I(2,6) later by simp
qed

definition sample_keys_env :: "vault_files keys_env" where
  "sample_keys_env =
     \<lparr>kx_vault = sample_files, kx_secrets = file_secret_ops sample_vault_engine [7] None None [], kx_keys = sample_keys,
      kx_manager = sample_manager_env, kx_secret = Ok ''pass'', kx_prompter = (\<lambda>_. Prompt_answer (Ok ())), kx_now = 0,
      kx_walletId = ''w'', kx_entropy = replicate 32 0, kx_pair = Ok sample_pair, kx_identitySecret = [3],
      kx_iv = replicate 12 1, kx_kv = sample_kv, kx_tooShort = ''short''\<rparr>"

definition sample_operator :: operator_record where
  "sample_operator = \<lparr>or_id = ''op_0102030405060708'', or_config = sample_operator_config OR_operator,
     or_createdAt = 7, or_createdBy = ''owner'', or_status = OS_active\<rparr>"

lemma sample_wallet_created:
  "\<exists>km ws. km_store km = \<lparr>cs_vault = empty_files\<lparr>vf_wallets := ws\<rparr>, cs_legacy = None\<rparr> \<and> km_opKeys km = [] \<and>
     km_groupIdIndex km = [] \<and>
     km_createWallet sample_files sample_keys (Ok ''pass'') 0 ''w'' (replicate 32 0) sample_manager ''alice'' =
       (Some (Ok \<lparr>wsum_id = ''w'', wsum_label = ''alice'', wsum_provider = ''internal'', wsum_accountCount = 0,
          wsum_createdAt = ''2026-01-01''\<rparr>), km)"
proof -
  obtain m where m: "generateMnemonic sample_crypto (replicate 32 0) = Ok m"
    using mnemonic_made [of "replicate 32 0" sample_crypto] by auto
  obtain block where b: "encryptWithScrypt sample_vault_engine [1] [2] m ''pass'' False = Some block"
    by (simp add: encryptWithScrypt_def sample_vault_engine_def Let_def)
  show ?thesis
    using m b
    by (simp add: km_createWallet_def getWalletBackend_def sample_manager_def start_manager_def put_backend_def
        kb_createWallet_def sample_keys_def sample_files_def file_vault_ops_def
        fv_createWallet_def no_faults_def json_path_def map_set_def)
      (simp add: sample_vault_engine_def empty_files_def)
qed

lemma sample_init:
  "\<exists>r store' km'. keys_init sample_keys_env [(or_id sample_operator, sample_operator)] sample_manager ''alice'' None =
     (Some (Ok r), store', km') \<and> ki_operatorId r = or_id sample_operator \<and> ki_createdWallet r \<and> ki_walletId r = ''w''"
proof -
  obtain km ws where c: "km_store km = \<lparr>cs_vault = empty_files\<lparr>vf_wallets := ws\<rparr>, cs_legacy = None\<rparr>" "km_opKeys km = []"
      "km_groupIdIndex km = []"
      "km_createWallet sample_files sample_keys (Ok ''pass'') 0 ''w'' (replicate 32 0) sample_manager ''alice'' =
       (Some (Ok \<lparr>wsum_id = ''w'', wsum_label = ''alice'', wsum_provider = ''internal'', wsum_accountCount = 0,
          wsum_createdAt = ''2026-01-01''\<rparr>), km)"
    using sample_wallet_created by blast
  let ?rec = "sample_operator\<lparr>or_config := (or_config sample_operator)\<lparr>oc_walletId := Some ''w''\<rparr>\<rparr>"
  have op: "resolveOperator [(or_id sample_operator, sample_operator)] ''alice'' = Ok sample_operator"
    by (simp add: resolveOperator_def starts_with_def sample_operator_def sample_operator_config_def operator_list_eq map_values_def)
  have w: "init_wallet sample_keys_env sample_manager sample_operator None = (Some (Ok (''w'', True)), km)"
    using c(4) by (simp add: init_wallet_def sample_keys_env_def sample_operator_def sample_operator_config_def nullish_def)
  have u: "operator_update ''short'' [(or_id sample_operator, sample_operator)] (or_id sample_operator) (only_wallet ''w'') =
      (Ok ?rec, [(or_id sample_operator, ?rec)])"
    by (simp add: operator_update_def only_wallet_def merge_operator_config_def sample_operator_def sample_operator_config_def
        map_get_def map_set_def Let_def OperatorConfig_issues_def operator_validateConfig_def)
  obtain key km2 where k: "init_operational_key sample_keys_env km (or_id sample_operator) = (Ok (key, True), km2)"
      "km_store km2 = km_store km" "ok_identityId key = or_id sample_operator"
    using c(2,3)
    by (simp add: init_operational_key_def getOperationalKey_def map_get_def sample_keys_env_def createOperationalKey_def
        gate_answer_def createBiometricGate_def sample_manager_env_def BiometricGateConfigSchema_def gated_def
        createOperationalKeyRecord_def generateEd25519KeyPair_def subtle_call_def exportPublicKey_def fingerprint_def
        sample_subtle_def Let_def)
  have g: "\<exists>x km3. getOrCreateXmtpIdentityKey (kx_secrets sample_keys_env) (kx_iv sample_keys_env) (kx_kv sample_keys_env)
      (kx_identitySecret sample_keys_env) km2 (or_id sample_operator) = (Ok x, km3)"
    using c(1) k(2)
    by (simp add: getOrCreateXmtpIdentityKey_def Let_def cs_get_def cs_set_def file_secret_ops_def fv_get_def fv_set_def
        sample_keys_env_def empty_files_def map_get_def readLegacyKvEntry_def legacy_file_def NotFoundError_create_def
        split: prod.split)
  then obtain x km3 where g: "getOrCreateXmtpIdentityKey (kx_secrets sample_keys_env) (kx_iv sample_keys_env) (kx_kv sample_keys_env)
      (kx_identitySecret sample_keys_env) km2 (or_id sample_operator) = (Ok x, km3)" by blast
  have s: "kx_tooShort sample_keys_env = ''short''" "oc_provider (or_config sample_operator) = WP_internal"
      "oc_walletId (or_config sample_operator) = None"
    by (simp_all add: sample_keys_env_def sample_operator_def sample_operator_config_def)
  show ?thesis
    by (simp add: keys_init_def Let_def op w u k g s summarizeOperationalKey_def operator_lookup_def map_get_def)
qed

theorem keys_init_exact_witness:
  "case keys_init sample_keys_env [(or_id sample_operator, sample_operator)] sample_manager ''alice'' None of
     (Some (Ok r), store', km') \<Rightarrow>
       (case operator_lookup store' (or_id sample_operator) of
          Err _ \<Rightarrow> False
        | Ok rec \<Rightarrow> oc_walletId (or_config rec) = Some ''w'' \<and> oc_label (or_config rec) = ''alice'')
   | _ \<Rightarrow> False"
proof -
  obtain r store' km' where i: "keys_init sample_keys_env [(or_id sample_operator, sample_operator)] sample_manager ''alice'' None =
      (Some (Ok r), store', km')" "ki_operatorId r = or_id sample_operator" "ki_walletId r = ''w''"
    using sample_init by blast
  have inv: "operator_inv ''short'' [(or_id sample_operator, sample_operator)]"
    by (simp add: operator_inv_def map_wf_def operator_ok_def sample_operator_def sample_operator_config_def OperatorConfig_issues_def)
  have "case operator_lookup store' (ki_operatorId r) of
       Err _ \<Rightarrow> False
     | Ok rec \<Rightarrow> oc_walletId (or_config rec) = Some (ki_walletId r) \<and>
         (case operator_lookup [(or_id sample_operator, sample_operator)] (ki_operatorId r) of
            Err _ \<Rightarrow> False
          | Ok old \<Rightarrow> oc_label (or_config rec) = oc_label (or_config old) \<and> or_status rec = or_status old)"
    using keys_init_exact [OF inv i(1)] by blast
  then show ?thesis using i
    by (simp add: operator_lookup_def map_get_def sample_operator_def sample_operator_config_def split: result.splits option.splits)
qed

text \<open>The database key that a provider over a backend gives out is a hash of the public key it gives out.\<close>

lemma db_key_from_public_key:
  "sp_getPublicKey ops ke pass kb walletId index = Some (Ok publicKey) \<Longrightarrow>
    sp_getDbEncryptionKey ops ke pass kb walletId index = Some (Ok (cr_sha256 (ke_crypto ke) publicKey))"
  by (cases "kb_sign ops ke pass kb walletId index []")
    (auto simp: sp_getPublicKey_def sp_getDbEncryptionKey_def bindR_Ok_iff)

end
