(* ===== verification/SdkParts.thy ===== *)
theory SdkParts
  imports JsValues Errors
begin

text \<open>
  The parts of the client library's connection handler: the stream of events for the consumer
  (\<^verbatim>\<open>packages/sdk/src/event-stream.ts\<close>), the tracker of requests in flight
  (\<^verbatim>\<open>request-tracker.ts\<close>), the backoff of reconnections (\<^verbatim>\<open>reconnection.ts\<close>), the monitor of
  heartbeats (\<^verbatim>\<open>heartbeat-monitor.ts\<close>) and the configuration's defaults (\<^verbatim>\<open>config.ts\<close>). A promise
  is the number of the call that returned it, and what resolves it is an entry of a log.
\<close>

subsection \<open>The stream of events\<close>

record 'e event_stream =
  es_buffer :: "'e list"
  es_done :: bool
  es_waiter :: "nat option"
  es_calls :: nat
  es_delivered :: "(nat \<times> 'e option) list"

definition createEventStream :: "'e event_stream" where
  "createEventStream = \<lparr>es_buffer = [], es_done = False, es_waiter = None, es_calls = 0, es_delivered = []\<rparr>"

definition es_push :: "'e event_stream \<Rightarrow> 'e \<Rightarrow> 'e event_stream" where
  "es_push s event =
     (if es_done s then s
      else
        (case es_waiter s of
           Some w \<Rightarrow> s\<lparr>es_waiter := None, es_delivered := es_delivered s @ [(w, Some event)]\<rparr>
         | None \<Rightarrow> s\<lparr>es_buffer := es_buffer s @ [event]\<rparr>))"

definition es_complete :: "'e event_stream \<Rightarrow> 'e event_stream" where
  "es_complete s =
     (case es_waiter s of
        Some w \<Rightarrow> s\<lparr>es_done := True, es_waiter := None, es_delivered := es_delivered s @ [(w, None)]\<rparr>
      | None \<Rightarrow> s\<lparr>es_done := True\<rparr>)"

definition es_next :: "'e event_stream \<Rightarrow> 'e event_stream" where
  "es_next s =
     (let call = es_calls s; s' = s\<lparr>es_calls := call + 1\<rparr>
      in (case es_buffer s of
            e # rest \<Rightarrow> s'\<lparr>es_buffer := rest, es_delivered := es_delivered s @ [(call, Some e)]\<rparr>
          | [] \<Rightarrow>
              if es_done s then s'\<lparr>es_delivered := es_delivered s @ [(call, None)]\<rparr>
              else s'\<lparr>es_waiter := Some call\<rparr>))"

text \<open>Whatever the consumer does, what was delivered and what is buffered are the events pushed.\<close>

definition es_received :: "'e event_stream \<Rightarrow> 'e list" where
  "es_received s = List.map_filter snd (es_delivered s)"

definition es_ok :: "'e event_stream \<Rightarrow> bool" where
  "es_ok s \<longleftrightarrow>
     (case es_waiter s of None \<Rightarrow> True | Some w \<Rightarrow> es_buffer s = [] \<and> \<not> es_done s \<and> w < es_calls s \<and> w \<notin> fst ` set (es_delivered s)) \<and>
     list_all (\<lambda>(c, _). c < es_calls s) (es_delivered s) \<and> distinct (map fst (es_delivered s))"

lemma es_ok_create [simp]: "es_ok createEventStream"
  by (simp add: es_ok_def createEventStream_def)

lemma es_ok_push [simp]: "es_ok s \<Longrightarrow> es_ok (es_push s e)"
  by (auto simp: es_ok_def es_push_def split: option.splits)

lemma es_ok_complete [simp]: "es_ok s \<Longrightarrow> es_ok (es_complete s)"
  by (auto simp: es_ok_def es_complete_def split: option.splits)

lemma es_ok_next [simp]: "es_ok s \<Longrightarrow> es_ok (es_next s)"
  by (force simp: es_ok_def es_next_def Let_def list_all_iff split: option.splits list.splits)

lemma es_received_push [simp]:
  "es_ok s \<Longrightarrow> es_received (es_push s e) @ es_buffer (es_push s e) =
     es_received s @ es_buffer s @ (if es_done s then [] else [e])"
  by (auto simp: es_push_def es_received_def es_ok_def map_filter_def split: option.splits)

lemma es_received_next [simp]:
  "es_received (es_next s) @ es_buffer (es_next s) = es_received s @ es_buffer s"
  by (auto simp: es_next_def es_received_def Let_def map_filter_def split: list.splits)

lemma es_received_complete [simp]:
  "es_received (es_complete s) @ es_buffer (es_complete s) = es_received s @ es_buffer s"
  by (auto simp: es_complete_def es_received_def map_filter_def split: option.splits)

lemma es_done_push [simp]: "es_done (es_push s e) = es_done s"
  by (simp add: es_push_def split: option.split)

lemma es_done_complete [simp]: "es_done (es_complete s)" "es_waiter (es_complete s) = None"
  by (simp_all add: es_complete_def split: option.split)

lemma es_done_next [simp]: "es_done (es_next s) = es_done s"
  by (simp add: es_next_def Let_def split: list.split)

text \<open>A consumer that calls \<open>next\<close> only after the previous call was answered is answered in order.\<close>

lemma es_next_waits:
  "es_waiter s = None \<Longrightarrow> es_waiter (es_next s) = (if es_buffer s = [] \<and> \<not> es_done s then Some (es_calls s) else None)"
  by (simp add: es_next_def Let_def split: list.split)

text \<open>A second call while one waits takes its place: the first is never answered.\<close>

lemma es_next_twice:
  "es_ok s \<Longrightarrow> es_waiter s = Some w \<Longrightarrow> es_waiter (es_next s) = Some (es_calls s) \<and> w \<notin> fst ` set (es_delivered (es_next s))"
  by (auto simp: es_ok_def es_next_def Let_def)

subsection \<open>Requests in flight\<close>

record request_timer =
  rt_call :: nat
  rt_id :: string
  rt_deadline :: int

record request_tracker =
  tr_pending :: "(string, nat) js_map"
  tr_timers :: "request_timer list"
  tr_calls :: nat
  tr_answers :: "(nat \<times> (js_value, signet_error) result) list"

definition createRequestTracker :: request_tracker where
  "createRequestTracker = \<lparr>tr_pending = [], tr_timers = [], tr_calls = 0, tr_answers = []\<rparr>"

definition tr_track :: "int \<Rightarrow> int \<Rightarrow> request_tracker \<Rightarrow> string \<Rightarrow> request_tracker" where
  "tr_track timeoutMs now tr requestId =
     tr\<lparr>tr_calls := tr_calls tr + 1,
        tr_timers := tr_timers tr @ [\<lparr>rt_call = tr_calls tr, rt_id = requestId, rt_deadline = now + timeoutMs\<rparr>],
        tr_pending := map_set (tr_pending tr) requestId (tr_calls tr)\<rparr>"

definition tr_timeout :: "int \<Rightarrow> request_tracker \<Rightarrow> request_timer \<Rightarrow> request_tracker" where
  "tr_timeout timeoutMs tr t =
     tr\<lparr>tr_timers := filter (\<lambda>u. rt_call u \<noteq> rt_call t) (tr_timers tr),
        tr_pending := map_delete (tr_pending tr) (rt_id t),
        tr_answers := tr_answers tr @ [(rt_call t, Err (TimeoutError_create ''request'' timeoutMs))]\<rparr>"

definition tr_resolve :: "request_tracker \<Rightarrow> string \<Rightarrow> (js_value, signet_error) result \<Rightarrow> request_tracker" where
  "tr_resolve tr requestId r =
     (case map_get (tr_pending tr) requestId of
        None \<Rightarrow> tr
      | Some c \<Rightarrow>
          tr\<lparr>tr_timers := filter (\<lambda>u. rt_call u \<noteq> c) (tr_timers tr),
             tr_pending := map_delete (tr_pending tr) requestId,
             tr_answers := tr_answers tr @ [(c, r)]\<rparr>)"

definition tr_rejectAll :: "request_tracker \<Rightarrow> signet_error \<Rightarrow> request_tracker" where
  "tr_rejectAll tr e =
     tr\<lparr>tr_timers := filter (\<lambda>u. rt_call u \<notin> set (map_values (tr_pending tr))) (tr_timers tr),
        tr_pending := [],
        tr_answers := tr_answers tr @ map (\<lambda>c. (c, Err e)) (map_values (tr_pending tr))\<rparr>"

text \<open>
  Every call is either answered once or has its timer armed, and the calls that wait under an
  identifier are among the latter.
\<close>

definition tr_ok :: "request_tracker \<Rightarrow> bool" where
  "tr_ok tr \<longleftrightarrow>
     distinct (map rt_call (tr_timers tr) @ map fst (tr_answers tr)) \<and>
     set (map rt_call (tr_timers tr) @ map fst (tr_answers tr)) = {..<tr_calls tr} \<and>
     map_wf (tr_pending tr) \<and>
     (\<forall>k c. map_get (tr_pending tr) k = Some c \<longrightarrow> (\<exists>t \<in> set (tr_timers tr). rt_call t = c \<and> rt_id t = k))"

lemma tr_ok_create [simp]: "tr_ok createRequestTracker"
  by (simp add: tr_ok_def createRequestTracker_def)

lemma tr_ok_track [simp]: "tr_ok tr \<Longrightarrow> tr_ok (tr_track ms now tr k)"
proof -
  assume ok: "tr_ok tr"
  let ?tr = "tr_track ms now tr k"
  have "tr_calls tr \<notin> rt_call ` set (tr_timers tr) \<union> fst ` set (tr_answers tr)" using ok by (simp add: tr_ok_def)
  then have "distinct (map rt_call (tr_timers ?tr) @ map fst (tr_answers ?tr))"
    using ok by (auto simp: tr_ok_def tr_track_def)
  moreover have "set (map rt_call (tr_timers ?tr) @ map fst (tr_answers ?tr)) = {..<tr_calls ?tr}"
  proof -
    have "set (map rt_call (tr_timers ?tr) @ map fst (tr_answers ?tr)) =
        insert (tr_calls tr) (set (map rt_call (tr_timers tr) @ map fst (tr_answers tr)))"
      by (simp add: tr_track_def)
    also have "\<dots> = insert (tr_calls tr) {..<tr_calls tr}" using ok unfolding tr_ok_def by (simp only: simp_thms)
    also have "\<dots> = {..<tr_calls ?tr}" by (simp add: tr_track_def lessThan_Suc)
    finally show ?thesis .
  qed
  moreover have "\<exists>t \<in> set (tr_timers ?tr). rt_call t = c \<and> rt_id t = j" if "map_get (tr_pending ?tr) j = Some c" for j c
  proof (cases "j = k")
    case True
    then show ?thesis using that by (simp add: tr_track_def)
  next
    case False
    then have "map_get (tr_pending tr) j = Some c" using that by (simp add: tr_track_def)
    then have "\<exists>t \<in> set (tr_timers tr). rt_call t = c \<and> rt_id t = j" using ok by (simp add: tr_ok_def)
    then show ?thesis by (auto simp: tr_track_def)
  qed
  moreover have "map_wf (tr_pending ?tr)" using ok by (simp add: tr_ok_def tr_track_def)
  ultimately show ?thesis unfolding tr_ok_def by blast
qed

lemma timer_unique:
  "tr_ok tr \<Longrightarrow> t \<in> set (tr_timers tr) \<Longrightarrow> u \<in> set (tr_timers tr) \<Longrightarrow> rt_call t = rt_call u \<Longrightarrow> t = u"
  by (auto simp: tr_ok_def dest: inj_onD [OF distinct_map [THEN iffD1, THEN conjunct2]])

lemma pending_timer:
  "tr_ok tr \<Longrightarrow> map_get (tr_pending tr) k = Some c \<Longrightarrow> \<exists>t \<in> set (tr_timers tr). rt_call t = c \<and> rt_id t = k"
  by (simp add: tr_ok_def)

lemma remove_call:
  assumes "tr_ok tr" "t \<in> set (tr_timers tr)"
  shows "tr_ok (tr\<lparr>tr_timers := filter (\<lambda>u. rt_call u \<noteq> rt_call t) (tr_timers tr),
     tr_pending := map_delete (tr_pending tr) (rt_id t), tr_answers := tr_answers tr @ [(rt_call t, r)]\<rparr>)"
proof -
  have "set (map rt_call (filter (\<lambda>u. rt_call u \<noteq> rt_call t) (tr_timers tr))) = rt_call ` set (tr_timers tr) - {rt_call t}"
    by auto
  moreover have "distinct (map rt_call (filter (\<lambda>u. rt_call u \<noteq> rt_call t) (tr_timers tr)))"
    using assms(1) by (simp add: tr_ok_def distinct_map_filter)
  moreover have "\<exists>u \<in> set (tr_timers tr). rt_call u = c \<and> rt_id u = k \<and> rt_call u \<noteq> rt_call t"
    if "map_get (tr_pending tr) k = Some c" "k \<noteq> rt_id t" for k c
    using pending_timer [OF assms(1) that(1)] timer_unique [OF assms(1) _ assms(2)] that(2) by metis
  then have "\<forall>k c. map_get (map_delete (tr_pending tr) (rt_id t)) k = Some c \<longrightarrow>
      (\<exists>u \<in> set (filter (\<lambda>u. rt_call u \<noteq> rt_call t) (tr_timers tr)). rt_call u = c \<and> rt_id u = k)" by auto
  ultimately show ?thesis
    using assms unfolding tr_ok_def by (auto simp del: map_get_delete)
qed

lemma tr_ok_timeout: "tr_ok tr \<Longrightarrow> t \<in> set (tr_timers tr) \<Longrightarrow> tr_ok (tr_timeout ms tr t)"
  by (simp add: tr_timeout_def remove_call)

lemma tr_ok_resolve [simp]: "tr_ok tr \<Longrightarrow> tr_ok (tr_resolve tr k r)"
proof (cases "map_get (tr_pending tr) k")
  case (Some c)
  assume ok: "tr_ok tr"
  then obtain t where "t \<in> set (tr_timers tr)" "rt_call t = c" "rt_id t = k" using pending_timer [OF ok Some] by blast
  then show ?thesis using remove_call [OF ok, of t r] Some by (simp add: tr_resolve_def)
qed (simp add: tr_resolve_def)

lemma pending_calls: "tr_ok tr \<Longrightarrow> distinct (map_values (tr_pending tr)) \<and> set (map_values (tr_pending tr)) \<subseteq> rt_call ` set (tr_timers tr)"
proof
  assume ok: "tr_ok tr"
  show "set (map_values (tr_pending tr)) \<subseteq> rt_call ` set (tr_timers tr)"
    using ok by (fastforce simp: map_values_iff tr_ok_def)
  have "k = j" if "(k, c) \<in> set (tr_pending tr)" "(j, c) \<in> set (tr_pending tr)" for k j c
    using ok that timer_unique [OF ok] by (metis map_entries_get tr_ok_def)
  then have "inj_on snd (set (tr_pending tr))" by (auto intro!: inj_onI)
  then show "distinct (map_values (tr_pending tr))"
    using ok by (auto simp: map_values_def tr_ok_def map_wf_def distinct_map)
qed

lemma map_fst_pair [simp]: "map (fst \<circ> (\<lambda>c. (c, y))) xs = xs"
  by (induction xs) simp_all

lemma tr_ok_rejectAll [simp]: "tr_ok tr \<Longrightarrow> tr_ok (tr_rejectAll tr e)"
proof -
  assume ok: "tr_ok tr"
  let ?p = "map_values (tr_pending tr)"
  have "set (map rt_call (filter (\<lambda>u. rt_call u \<notin> set ?p) (tr_timers tr))) = rt_call ` set (tr_timers tr) - set ?p" by auto
  moreover have "distinct (map rt_call (filter (\<lambda>u. rt_call u \<notin> set ?p) (tr_timers tr)))"
    using ok by (simp add: tr_ok_def distinct_map_filter)
  moreover have "distinct ?p" "set ?p \<subseteq> rt_call ` set (tr_timers tr)" using pending_calls [OF ok] by auto
  ultimately show ?thesis using ok unfolding tr_ok_def
    by (simp only: tr_rejectAll_def request_tracker.simps map_append set_append distinct_append) auto
qed

lemma rejectAll_pending [simp]: "tr_pending (tr_rejectAll tr e) = []"
  by (simp add: tr_rejectAll_def)

text \<open>The timers that are due, fired one after the other.\<close>

definition fire_due :: "int \<Rightarrow> int \<Rightarrow> request_tracker \<Rightarrow> request_tracker" where
  "fire_due timeoutMs now tr = foldl (tr_timeout timeoutMs) tr (filter (\<lambda>t. rt_deadline t \<le> now) (tr_timers tr))"

lemma fire_all:
  "tr_ok tr \<Longrightarrow> set ts \<subseteq> set (tr_timers tr) \<Longrightarrow> distinct (map rt_call ts) \<Longrightarrow>
    tr_ok (foldl (tr_timeout ms) tr ts) \<and> tr_calls (foldl (tr_timeout ms) tr ts) = tr_calls tr \<and>
    tr_timers (foldl (tr_timeout ms) tr ts) = filter (\<lambda>u. rt_call u \<notin> rt_call ` set ts) (tr_timers tr)"
proof (induction ts arbitrary: tr)
  case (Cons t ts)
  have "set ts \<subseteq> set (tr_timers (tr_timeout ms tr t))"
  proof
    fix u assume "u \<in> set ts"
    then show "u \<in> set (tr_timers (tr_timeout ms tr t))"
      using Cons.prems by (auto simp: tr_timeout_def dest: sym)
  qed
  then show ?case
    using Cons.IH [of "tr_timeout ms tr t"] Cons.prems tr_ok_timeout [of tr t ms]
    by (auto simp: tr_timeout_def conj_commute intro!: filter_cong)
qed simp

lemma fire_due_timers:
  assumes "tr_ok tr"
  shows "tr_ok (fire_due ms now tr)" "tr_calls (fire_due ms now tr) = tr_calls tr"
    "tr_timers (fire_due ms now tr) = filter (\<lambda>u. now < rt_deadline u) (tr_timers tr)"
proof -
  let ?ts = "filter (\<lambda>t. rt_deadline t \<le> now) (tr_timers tr)"
  have d: "distinct (map rt_call ?ts)" using assms by (simp add: tr_ok_def distinct_map_filter)
  note F = fire_all [OF assms, of ?ts ms]
  show "tr_ok (fire_due ms now tr)" "tr_calls (fire_due ms now tr) = tr_calls tr"
    using F d by (auto simp: fire_due_def)
  have "rt_call u \<notin> rt_call ` set ?ts \<longleftrightarrow> now < rt_deadline u" if "u \<in> set (tr_timers tr)" for u
  proof
    assume "rt_call u \<notin> rt_call ` set ?ts"
    then have "u \<notin> set ?ts" by blast
    then show "now < rt_deadline u" using that by simp
  next
    assume "now < rt_deadline u"
    then show "rt_call u \<notin> rt_call ` set ?ts" using timer_unique [OF assms that] by auto
  qed
  then show "tr_timers (fire_due ms now tr) = filter (\<lambda>u. now < rt_deadline u) (tr_timers tr)"
    using F d by (simp add: fire_due_def cong: filter_cong)
qed

subsection \<open>Reconnection\<close>

definition NON_RETRYABLE_CODES :: "int list" where
  "NON_RETRYABLE_CODES = [4001, 4002, 4004, 4009]"

definition isRetryable :: "int \<Rightarrow> bool" where
  "isRetryable code \<longleftrightarrow> code \<notin> set NON_RETRYABLE_CODES"

record reconnect_config =
  rcf_enabled :: bool
  rcf_maxAttempts :: nat
  rcf_baseDelayMs :: int
  rcf_maxDelayMs :: int
  rcf_jitter :: bool

text \<open>\<open>draw n\<close> is what \<open>Math.floor(Math.random() * n)\<close> gives.\<close>

definition calculateDelay :: "(int \<Rightarrow> int) \<Rightarrow> nat \<Rightarrow> reconnect_config \<Rightarrow> int" where
  "calculateDelay draw attempt config =
     (let exponential = rcf_baseDelayMs config * 2 ^ attempt;
          capped = min exponential (rcf_maxDelayMs config)
      in if rcf_jitter config then draw (capped + 1) else capped)"

definition rt_exhausted :: "reconnect_config \<Rightarrow> nat \<Rightarrow> bool" where
  "rt_exhausted config attempt = (if rcf_maxAttempts config = 0 then False else rcf_maxAttempts config \<le> attempt)"

definition nextDelay :: "(int \<Rightarrow> int) \<Rightarrow> reconnect_config \<Rightarrow> nat \<Rightarrow> int \<times> nat" where
  "nextDelay draw config attempt = (calculateDelay draw attempt config, attempt + 1)"

lemma delay_bounds:
  assumes "0 < rcf_baseDelayMs config" "0 < rcf_maxDelayMs config" "\<And>n. 0 < n \<Longrightarrow> 0 \<le> draw n \<and> draw n < n"
  shows "0 \<le> calculateDelay draw attempt config \<and> calculateDelay draw attempt config \<le> rcf_maxDelayMs config"
proof -
  let ?c = "min (rcf_baseDelayMs config * 2 ^ attempt) (rcf_maxDelayMs config)"
  have "0 < ?c" using assms by simp
  then have "0 \<le> draw (?c + 1) \<and> draw (?c + 1) < ?c + 1" by (intro assms(3)) simp
  then show ?thesis using \<open>0 < ?c\<close> by (simp add: calculateDelay_def Let_def)
qed

subsection \<open>Heartbeats\<close>

record heartbeat_monitor =
  hm_callback :: bool
  hm_deadline :: "int option"

definition HEARTBEAT_THRESHOLD_MS :: int where
  "HEARTBEAT_THRESHOLD_MS = 30000 * 3"

definition createHeartbeatMonitor :: heartbeat_monitor where
  "createHeartbeatMonitor = \<lparr>hm_callback = False, hm_deadline = None\<rparr>"

definition hm_resetTimer :: "int \<Rightarrow> heartbeat_monitor \<Rightarrow> heartbeat_monitor" where
  "hm_resetTimer now m =
     m\<lparr>hm_deadline := if hm_callback m then Some (now + HEARTBEAT_THRESHOLD_MS) else None\<rparr>"

definition hm_start :: "int \<Rightarrow> heartbeat_monitor \<Rightarrow> heartbeat_monitor" where
  "hm_start now m = hm_resetTimer now (m\<lparr>hm_callback := True\<rparr>)"

definition hm_recordHeartbeat :: "int \<Rightarrow> heartbeat_monitor \<Rightarrow> heartbeat_monitor" where
  "hm_recordHeartbeat now m = hm_resetTimer now m"

definition hm_stop :: "heartbeat_monitor \<Rightarrow> heartbeat_monitor" where
  "hm_stop m = \<lparr>hm_callback = False, hm_deadline = None\<rparr>"

subsection \<open>Configuration\<close>

record handler_config =
  hc_url :: string
  hc_token :: string
  hc_reconnect :: reconnect_config
  hc_requestTimeoutMs :: int

record reconnect_input =
  rin_enabled :: "bool option"
  rin_maxAttempts :: "int option"
  rin_baseDelayMs :: "int option"
  rin_maxDelayMs :: "int option"
  rin_jitter :: "bool option"

record handler_input =
  hin_url :: string
  hin_token :: string
  hin_reconnect :: "reconnect_input option"
  hin_requestTimeoutMs :: "int option"

text \<open>The schema; whether a text is a URL is an argument.\<close>

definition ReconnectOptionsSchema :: "reconnect_input \<Rightarrow> reconnect_config option" where
  "ReconnectOptionsSchema i =
     (let maxAttempts = nullish (rin_maxAttempts i) 10; baseDelayMs = nullish (rin_baseDelayMs i) 1000;
          maxDelayMs = nullish (rin_maxDelayMs i) 30000
      in if maxAttempts < 0 \<or> baseDelayMs \<le> 0 \<or> maxDelayMs \<le> 0 then None
         else Some \<lparr>rcf_enabled = nullish (rin_enabled i) True, rcf_maxAttempts = nat maxAttempts,
                    rcf_baseDelayMs = baseDelayMs, rcf_maxDelayMs = maxDelayMs, rcf_jitter = nullish (rin_jitter i) True\<rparr>)"

definition SignetHandlerConfigSchema :: "(string \<Rightarrow> bool) \<Rightarrow> handler_input \<Rightarrow> handler_config option" where
  "SignetHandlerConfigSchema isUrl i =
     (let timeout = nullish (hin_requestTimeoutMs i) 30000;
          reconnect = nullish (hin_reconnect i)
            \<lparr>rin_enabled = None, rin_maxAttempts = None, rin_baseDelayMs = None, rin_maxDelayMs = None, rin_jitter = None\<rparr>
      in if \<not> isUrl (hin_url i) \<or> length (hin_token i) < 1 \<or> timeout \<le> 0 then None
         else map_option (\<lambda>r. \<lparr>hc_url = hin_url i, hc_token = hin_token i, hc_reconnect = r, hc_requestTimeoutMs = timeout\<rparr>)
                (ReconnectOptionsSchema reconnect))"

lemma schema_reconnect:
  "SignetHandlerConfigSchema isUrl i = Some c \<Longrightarrow>
    0 < rcf_baseDelayMs (hc_reconnect c) \<and> 0 < rcf_maxDelayMs (hc_reconnect c) \<and> 0 < hc_requestTimeoutMs c"
  by (auto simp: SignetHandlerConfigSchema_def ReconnectOptionsSchema_def Let_def split: if_splits)

end
