(* ===== verification/SdkHandler.thy ===== *)
theory SdkHandler
  imports SdkParts
begin

text \<open>
  The client library's connection handler (\<^verbatim>\<open>packages/sdk/src/handler.ts\<close>) as a state machine:
  every listener, timer and public operation is a step on its state. A connection attempt is a
  socket with what its closure keeps; the sockets of all attempts are kept in the order of their
  creation. The state listeners, the error listeners and the sent frames are logs.

  The socket library delivers an open only to a socket that is connecting, a message only to one
  that is open, and one close to every socket. Times are milliseconds, \<open>draw\<close> is the random
  generator, \<open>he_parse\<close> is \<open>JSON.parse\<close> and \<open>he_numText\<close> the text of a number.
\<close>

subsection \<open>State\<close>

datatype handler_state =
    HS_disconnected
  | HS_connecting
  | HS_authenticating
  | HS_connected
  | HS_reconnecting
  | HS_closed

datatype ready_state = Ready_connecting | Ready_open | Ready_closing | Ready_closed

record sdk_socket =
  sk_ready :: ready_state
  sk_authHandled :: bool
  sk_authTimeout :: bool
  sk_result :: "(unit, signet_error) result option"

record credential_info =
  ci_connectionId :: js_value
  ci_credentialId :: js_value
  ci_operatorId :: js_value
  ci_scopes :: js_value
  ci_expiresAt :: js_value

record sdk_state =
  sd_state :: handler_state
  sd_ws :: "nat option"
  sd_sockets :: "sdk_socket list"
  sd_credential :: "credential_info option"
  sd_lastSeenSeq :: js_value
  sd_stream :: "js_value event_stream"
  sd_tracker :: request_tracker
  sd_monitors :: "heartbeat_monitor list"
  sd_attempt :: nat
  sd_timers :: "int list"
  sd_transitions :: "(handler_state \<times> handler_state) list"
  sd_errors :: "signet_error list"
  sd_sent :: "(nat \<times> js_value) list"

record handler_env =
  he_config :: handler_config
  he_parse :: "string \<Rightarrow> js_value option"
  he_numText :: "rat \<Rightarrow> string"
  he_draw :: "int \<Rightarrow> int"
  he_urlAccepted :: bool

definition createSignetHandler :: sdk_state where
  "createSignetHandler =
     \<lparr>sd_state = HS_disconnected, sd_ws = None, sd_sockets = [], sd_credential = None, sd_lastSeenSeq = VNull,
      sd_stream = createEventStream, sd_tracker = createRequestTracker, sd_monitors = [], sd_attempt = 0,
      sd_timers = [], sd_transitions = [], sd_errors = [], sd_sent = []\<rparr>"

subsection \<open>State changes, errors, sockets\<close>

definition setState :: "handler_state \<Rightarrow> sdk_state \<Rightarrow> sdk_state" where
  "setState newState st =
     (let prev = sd_state st
      in if prev = newState then st
         else st\<lparr>sd_state := newState, sd_transitions := sd_transitions st @ [(newState, prev)]\<rparr>)"

definition emitError :: "signet_error \<Rightarrow> sdk_state \<Rightarrow> sdk_state" where
  "emitError e st = st\<lparr>sd_errors := sd_errors st @ [e]\<rparr>"

definition complete_stream :: "sdk_state \<Rightarrow> sdk_state" where
  "complete_stream st = st\<lparr>sd_stream := es_complete (sd_stream st)\<rparr>"

definition reject_all :: "string \<Rightarrow> sdk_state \<Rightarrow> sdk_state" where
  "reject_all message st = st\<lparr>sd_tracker := tr_rejectAll (sd_tracker st) (InternalError_create message None)\<rparr>"

definition upd_socket :: "nat \<Rightarrow> (sdk_socket \<Rightarrow> sdk_socket) \<Rightarrow> sdk_state \<Rightarrow> sdk_state" where
  "upd_socket i f st =
     (if i < length (sd_sockets st) then st\<lparr>sd_sockets := (sd_sockets st)[i := f (sd_sockets st ! i)]\<rparr> else st)"

text \<open>\<open>close\<close> on a socket that is closing or closed does nothing; the first resolution of a promise counts.\<close>

definition ws_close :: "sdk_socket \<Rightarrow> sdk_socket" where
  "ws_close s = (if sk_ready s = Ready_connecting \<or> sk_ready s = Ready_open then s\<lparr>sk_ready := Ready_closing\<rparr> else s)"

definition sk_resolve :: "(unit, signet_error) result \<Rightarrow> sdk_socket \<Rightarrow> sdk_socket" where
  "sk_resolve r s = (case sk_result s of None \<Rightarrow> s\<lparr>sk_result := Some r\<rparr> | Some _ \<Rightarrow> s)"

text \<open>The monitor in use is the newest.\<close>

definition upd_monitor :: "(heartbeat_monitor \<Rightarrow> heartbeat_monitor) \<Rightarrow> sdk_state \<Rightarrow> sdk_state" where
  "upd_monitor f st =
     (if sd_monitors st = [] then st
      else st\<lparr>sd_monitors := butlast (sd_monitors st) @ [f (last (sd_monitors st))]\<rparr>)"

definition stop_monitor :: "sdk_state \<Rightarrow> sdk_state" where
  "stop_monitor st = upd_monitor hm_stop st"

subsection \<open>Connecting and reconnecting\<close>

text \<open>A refused URL makes the attempt throw after the state has changed.\<close>

definition connectInternal :: "handler_env \<Rightarrow> sdk_state \<Rightarrow> bool \<times> sdk_state" where
  "connectInternal en st =
     (let st1 = setState HS_connecting st
      in if he_urlAccepted en
         then (True, st1\<lparr>sd_ws := Some (length (sd_sockets st1)),
                         sd_sockets := sd_sockets st1 @
                           [\<lparr>sk_ready = Ready_connecting, sk_authHandled = False, sk_authTimeout = True, sk_result = None\<rparr>]\<rparr>)
         else (False, st1))"

definition attemptReconnect :: "handler_env \<Rightarrow> int \<Rightarrow> sdk_state \<Rightarrow> sdk_state" where
  "attemptReconnect en now st =
     (let config = hc_reconnect (he_config en)
      in if \<not> rcf_enabled config then complete_stream (setState HS_disconnected st)
         else if rt_exhausted config (sd_attempt st)
         then complete_stream (setState HS_disconnected (emitError (InternalError_create ''Max reconnection attempts exceeded'' None) st))
         else
           (case nextDelay (he_draw en) config (sd_attempt st) of
              (delay, attempt) \<Rightarrow>
                (setState HS_reconnecting st)\<lparr>sd_attempt := attempt, sd_timers := sd_timers st @ [now + delay]\<rparr>))"

text \<open>The \<open>k\<close>-th armed timer fires.\<close>

definition reconnect_fired :: "handler_env \<Rightarrow> int \<Rightarrow> nat \<Rightarrow> sdk_state \<Rightarrow> sdk_state" where
  "reconnect_fired en now k st =
     (let st1 = st\<lparr>sd_timers := take k (sd_timers st) @ drop (Suc k) (sd_timers st)\<rparr>
      in if sd_state st1 \<noteq> HS_reconnecting then st1
         else (case connectInternal en st1 of (ok, st2) \<Rightarrow> if ok then st2 else attemptReconnect en now st2))"

definition handleConnectionDead :: "handler_env \<Rightarrow> int \<Rightarrow> sdk_state \<Rightarrow> sdk_state" where
  "handleConnectionDead en now st =
     (let st1 = stop_monitor st
      in (case sd_ws st1 of
            Some i \<Rightarrow> upd_socket i ws_close st1
          | None \<Rightarrow> attemptReconnect en now st1))"

subsection \<open>Frames after authentication\<close>

text \<open>\<open>key in value\<close>, which throws on a value that is not an object.\<close>

definition js_in :: "string \<Rightarrow> js_value \<Rightarrow> bool option" where
  "js_in key v = (case v of VObj kvs \<Rightarrow> Some (key \<in> fst ` set kvs) | VArr _ \<Rightarrow> Some False | _ \<Rightarrow> None)"

definition error_text :: "(rat \<Rightarrow> string) \<Rightarrow> js_value \<Rightarrow> string" where
  "error_text numText v = (if v = VUndefined then [] else js_String numText v)"

definition context_of :: "js_value \<Rightarrow> err_context option" where
  "context_of v = (case v of VObj kvs \<Rightarrow> Some kvs | _ \<Rightarrow> None)"

definition response_error :: "(rat \<Rightarrow> string) \<Rightarrow> js_value \<Rightarrow> signet_error" where
  "response_error numText err =
     (let m = js_get err ''message'';
          errMsg = (if m = VUndefined \<or> m = VNull then ''Request failed'' else js_String numText m);
          errCtx = context_of (js_get err ''context'');
          category = js_get err ''category''
      in if category = VStr ''auth'' then AuthError_create errMsg errCtx
         else if category = VStr ''validation'' then ValidationError_create ''response'' errMsg []
         else if category = VStr ''not_found'' then NotFoundError_create ''resource'' errMsg
         else if category = VStr ''permission'' then PermissionError_create errMsg errCtx
         else InternalError_create errMsg errCtx)"

definition handle_response :: "handler_env \<Rightarrow> js_value \<Rightarrow> sdk_state \<Rightarrow> sdk_state" where
  "handle_response en data st =
     (let r = (if truthy (js_get data ''ok'') then Ok (js_get data ''data'')
               else Err (response_error (he_numText en) (js_get data ''error'')))
      in (case js_get data ''requestId'' of
            VStr requestId \<Rightarrow> st\<lparr>sd_tracker := tr_resolve (sd_tracker st) requestId r\<rparr>
          | _ \<Rightarrow> st))"

definition is_heartbeat :: "js_value \<Rightarrow> bool" where
  "is_heartbeat event \<longleftrightarrow> js_get event ''type'' = VStr ''heartbeat''"

definition handle_event :: "int \<Rightarrow> js_value \<Rightarrow> sdk_state \<Rightarrow> sdk_state" where
  "handle_event now data st =
     (let event = js_get data ''event'';
          st1 = st\<lparr>sd_lastSeenSeq := js_get data ''seq''\<rparr>;
          st2 = (if is_heartbeat event then upd_monitor (hm_recordHeartbeat now) st1 else st1)
      in st2\<lparr>sd_stream := es_push (sd_stream st2) event\<rparr>)"

definition handleFrame :: "handler_env \<Rightarrow> int \<Rightarrow> string \<Rightarrow> sdk_state \<Rightarrow> sdk_state" where
  "handleFrame en now raw st =
     (case he_parse en raw of
        None \<Rightarrow> emitError (ValidationError_create ''frame'' ''Invalid JSON from signet'' []) st
      | Some data \<Rightarrow>
          (case js_member data ''type'' of
             None \<Rightarrow> st
           | Some t \<Rightarrow>
               if t = VStr ''backpressure''
               then emitError (InternalError_create
                      (''Backpressure: '' @ js_String (he_numText en) (js_get data ''buffered'') @ ''/'' @
                       js_String (he_numText en) (js_get data ''limit'') @ '' buffered'')
                      (Some [(''buffered'', js_get data ''buffered''), (''limit'', js_get data ''limit'')])) st
               else
                 (case js_in ''requestId'' data of
                    None \<Rightarrow> st
                  | Some hasId \<Rightarrow>
                      if hasId \<and> js_in ''ok'' data = Some True then handle_response en data st
                      else if js_in ''seq'' data = Some True \<and> js_in ''event'' data = Some True
                      then handle_event now data st
                      else st)))"

subsection \<open>Listeners of a socket\<close>

definition socket_opened :: "handler_env \<Rightarrow> nat \<Rightarrow> sdk_state \<Rightarrow> sdk_state" where
  "socket_opened en i st =
     (let st1 = setState HS_authenticating (upd_socket i (\<lambda>s. s\<lparr>sk_ready := Ready_open\<rparr>) st)
      in st1\<lparr>sd_sent := sd_sent st1 @
           [(i, VObj [(''type'', VStr ''auth''), (''token'', VStr (hc_token (he_config en))),
                      (''lastSeenSeq'', sd_lastSeenSeq st1)])]\<rparr>)"

definition auth_answered :: "nat \<Rightarrow> sdk_state \<Rightarrow> sdk_state" where
  "auth_answered i st = upd_socket i (\<lambda>s. s\<lparr>sk_authHandled := True, sk_authTimeout := False\<rparr>) st"

definition authenticated_received :: "handler_env \<Rightarrow> int \<Rightarrow> nat \<Rightarrow> js_value \<Rightarrow> sdk_state \<Rightarrow> sdk_state" where
  "authenticated_received en now i data st =
     (let st1 = auth_answered i st; credential = js_get data ''credential''
      in (case js_member credential ''credentialId'' of
            None \<Rightarrow> st1
          | Some credentialId \<Rightarrow>
              let st2 = st1\<lparr>sd_credential := Some \<lparr>ci_connectionId = js_get data ''connectionId'',
                              ci_credentialId = credentialId, ci_operatorId = js_get credential ''operatorId'',
                              ci_scopes = js_get data ''effectiveScopes'', ci_expiresAt = js_get credential ''expiresAt''\<rparr>,
                            sd_monitors := sd_monitors st1 @ [hm_start now createHeartbeatMonitor],
                            sd_attempt := (if rcf_enabled (hc_reconnect (he_config en)) then 0 else sd_attempt st1)\<rparr>
              in upd_socket i (sk_resolve (Ok ())) (setState HS_connected st2)))"

definition auth_error_received :: "handler_env \<Rightarrow> nat \<Rightarrow> js_value \<Rightarrow> sdk_state \<Rightarrow> sdk_state" where
  "auth_error_received en i data st =
     upd_socket i (sk_resolve (Err (AuthError_create (error_text (he_numText en) (js_get data ''message''))
         (Some [(''code'', js_get data ''code'')]))))
       (setState HS_closed (auth_answered i st))"

definition sdk_socket_message :: "handler_env \<Rightarrow> int \<Rightarrow> nat \<Rightarrow> string \<Rightarrow> sdk_state \<Rightarrow> sdk_state" where
  "sdk_socket_message en now i raw st =
     (if \<not> sk_authHandled (sd_sockets st ! i)
      then
        (case he_parse en raw of
           None \<Rightarrow>
             upd_socket i (sk_resolve (Err (AuthError_create ''Invalid auth response from signet'' None)))
               (setState HS_closed (upd_socket i (\<lambda>s. s\<lparr>sk_authTimeout := False\<rparr>) st))
         | Some data \<Rightarrow>
             (case js_member data ''type'' of
                None \<Rightarrow> st
              | Some t \<Rightarrow>
                  if t = VStr ''authenticated'' then authenticated_received en now i data st
                  else if t = VStr ''auth_error'' then auth_error_received en i data st
                  else st))
      else handleFrame en now raw st)"

definition socket_closed :: "handler_env \<Rightarrow> int \<Rightarrow> nat \<Rightarrow> int \<Rightarrow> string \<Rightarrow> sdk_state \<Rightarrow> sdk_state" where
  "socket_closed en now i code reason st =
     (let st1 = stop_monitor (upd_socket i (\<lambda>s. s\<lparr>sk_ready := Ready_closed\<rparr>) st)
      in if \<not> sk_authHandled (sd_sockets st1 ! i)
         then
           let st2 = auth_answered i st1
           in if \<not> isRetryable code
              then upd_socket i (sk_resolve (Err (AuthError_create
                     (if reason = [] then ''Connection closed during auth'' else reason) None))) (setState HS_closed st2)
              else upd_socket i (sk_resolve (Err (InternalError_create ''Connection lost during auth'' None)))
                     (attemptReconnect en now (reject_all ''Connection lost'' st2))
         else
           let st2 = reject_all ''Connection closed'' (st1\<lparr>sd_ws := None\<rparr>)
           in if \<not> isRetryable code then complete_stream (setState HS_closed st2)
              else if sd_state st2 \<noteq> HS_closed then attemptReconnect en now st2
              else st2)"

definition auth_timeout :: "handler_env \<Rightarrow> nat \<Rightarrow> sdk_state \<Rightarrow> sdk_state" where
  "auth_timeout en i st =
     (let st1 = upd_socket i (\<lambda>s. s\<lparr>sk_authTimeout := False\<rparr>) st
      in if sk_authHandled (sd_sockets st1 ! i) then st1
         else upd_socket i (sk_resolve (Err (InternalError_create
                (''Auth response not received within '' @ int_text (hc_requestTimeoutMs (he_config en)) @ ''ms'') None)))
              (setState HS_closed (upd_socket i (\<lambda>s. ws_close (s\<lparr>sk_authHandled := True\<rparr>)) st1)))"

subsection \<open>Public operations\<close>

datatype connect_outcome =
    Connect_returns "(unit, signet_error) result"
  | Connect_waits nat
  | Connect_throws

definition handler_state_text :: "handler_state \<Rightarrow> string" where
  "handler_state_text s =
     (case s of HS_disconnected \<Rightarrow> ''disconnected'' | HS_connecting \<Rightarrow> ''connecting'' | HS_authenticating \<Rightarrow> ''authenticating''
      | HS_connected \<Rightarrow> ''connected'' | HS_reconnecting \<Rightarrow> ''reconnecting'' | HS_closed \<Rightarrow> ''closed'')"

definition sdk_connect :: "handler_env \<Rightarrow> sdk_state \<Rightarrow> connect_outcome \<times> sdk_state" where
  "sdk_connect en st =
     (if sd_state st = HS_closed
      then (Connect_returns (Err (ValidationError_create ''state'' ''Handler is closed and cannot be reused'' [])), st)
      else if sd_state st = HS_connected then (Connect_returns (Ok ()), st)
      else if sd_state st = HS_connecting \<or> sd_state st = HS_authenticating \<or> sd_state st = HS_reconnecting
      then (Connect_returns (Err (ValidationError_create ''state''
              (''Connection already in progress (state: '' @ handler_state_text (sd_state st) @ '')'') [])), st)
      else (case connectInternal en (st\<lparr>sd_stream := createEventStream\<rparr>) of
              (ok, st1) \<Rightarrow> (if ok then Connect_waits (length (sd_sockets st)) else Connect_throws, st1)))"

definition sdk_disconnect :: "sdk_state \<Rightarrow> sdk_state" where
  "sdk_disconnect st =
     (let st1 = reject_all ''Disconnecting'' (stop_monitor st);
          st2 = (case sd_ws st1 of None \<Rightarrow> st1 | Some i \<Rightarrow> (upd_socket i ws_close st1)\<lparr>sd_ws := None\<rparr>)
      in complete_stream (setState HS_closed st2))"

definition sdk_sendRequest ::
  "handler_env \<Rightarrow> int \<Rightarrow> string \<Rightarrow> (string \<times> js_value) list \<Rightarrow> sdk_state \<Rightarrow> (nat, signet_error) result \<times> sdk_state" where
  "sdk_sendRequest en now requestId request st =
     (case sd_ws st of
        Some i \<Rightarrow>
          if sd_state st \<noteq> HS_connected
          then (Err (ValidationError_create ''state'' ''Not connected to signet'' []), st)
          else
            (Ok (tr_calls (sd_tracker st)),
             st\<lparr>sd_tracker := tr_track (hc_requestTimeoutMs (he_config en)) now (sd_tracker st) requestId,
                sd_sent := (if sk_ready (sd_sockets st ! i) = Ready_open
                            then sd_sent st @ [(i, VObj (obj_spread request [(''requestId'', VStr requestId)]))]
                            else sd_sent st)\<rparr>)
      | None \<Rightarrow> (Err (ValidationError_create ''state'' ''Not connected to signet'' []), st))"

definition hasStringFields :: "js_value \<Rightarrow> string list \<Rightarrow> bool" where
  "hasStringFields v names \<longleftrightarrow>
     (case v of
        VObj _ \<Rightarrow> list_all (\<lambda>f. as_str (js_get v f) \<noteq> None) names
      | VArr _ \<Rightarrow> names = []
      | _ \<Rightarrow> False)"

datatype message_content =
    Content_text string
  | Content_custom string js_value

record message_sent =
  msnt_messageId :: string
  msnt_groupId :: string
  msnt_sentAt :: string

definition sendMessage_request :: "string \<Rightarrow> message_content \<Rightarrow> (string \<times> js_value) list" where
  "sendMessage_request groupId content =
     (let contentType = (case content of Content_text _ \<Rightarrow> ''xmtp.org/text:1.0'' | Content_custom ct _ \<Rightarrow> ct);
          payload = (case content of Content_text t \<Rightarrow> VObj [(''text'', VStr t)] | Content_custom _ v \<Rightarrow> v)
      in [(''type'', VStr ''send_message''), (''groupId'', VStr groupId), (''contentType'', VStr contentType),
          (''content'', payload)])"

definition sendReaction_request :: "string \<Rightarrow> string \<Rightarrow> string \<Rightarrow> (string \<times> js_value) list" where
  "sendReaction_request groupId messageId reaction =
     [(''type'', VStr ''send_reaction''), (''groupId'', VStr groupId), (''messageId'', VStr messageId),
      (''action'', VStr ''added''), (''content'', VStr reaction)]"

text \<open>What \<open>sendMessage\<close> and \<open>sendReaction\<close> make of the answer, and the two queries.\<close>

definition sent_answer :: "(js_value, signet_error) result \<Rightarrow> (message_sent, signet_error) result" where
  "sent_answer r =
     (case r of
        Err e \<Rightarrow> Err e
      | Ok v \<Rightarrow>
          if \<not> hasStringFields v [''messageId'', ''groupId'', ''sentAt'']
          then Err (ValidationError_create ''response'' ''Missing required fields: messageId, groupId, sentAt'' [])
          else Ok \<lparr>msnt_messageId = the (as_str (js_get v ''messageId'')), msnt_groupId = the (as_str (js_get v ''groupId'')),
                   msnt_sentAt = the (as_str (js_get v ''sentAt''))\<rparr>)"

definition listConversations_answer :: "(js_value, signet_error) result \<Rightarrow> (js_value list, signet_error) result" where
  "listConversations_answer r =
     (case r of
        Err e \<Rightarrow> Err e
      | Ok (VArr vs) \<Rightarrow> Ok vs
      | Ok _ \<Rightarrow> Err (ValidationError_create ''response'' ''Expected array for list_conversations response'' []))"

definition getConversationInfo_answer :: "(js_value, signet_error) result \<Rightarrow> (js_value, signet_error) result" where
  "getConversationInfo_answer r =
     (case r of
        Err e \<Rightarrow> Err e
      | Ok (VObj kvs) \<Rightarrow> Ok (VObj kvs)
      | Ok (VArr vs) \<Rightarrow> Ok (VArr vs)
      | Ok _ \<Rightarrow> Err (ValidationError_create ''response'' ''Expected object for get_conversation_info response'' []))"

end
