(* ===== verification/SdkInvariant.thy ===== *)
theory SdkInvariant
  imports SdkHandler ReplayBuffer
begin

text \<open>
  Runs of the client library's connection handler: the inputs the surroundings may give, the
  states they reach, and what holds in all of them.
\<close>

subsection \<open>Inputs\<close>

datatype sdk_input =
    In_connect
  | In_disconnect
  | In_request string "(string \<times> js_value) list"
  | In_next
  | In_open nat
  | In_message nat string
  | In_close nat int string
  | In_auth_timeout nat
  | In_dead nat
  | In_reconnect nat
  | In_request_timeout request_timer

definition sdk_enabled :: "int \<Rightarrow> sdk_state \<Rightarrow> sdk_input \<Rightarrow> bool" where
  "sdk_enabled now st inp =
     (case inp of
        In_open i \<Rightarrow> i < length (sd_sockets st) \<and> sk_ready (sd_sockets st ! i) = Ready_connecting
      | In_message i _ \<Rightarrow> i < length (sd_sockets st) \<and> sk_ready (sd_sockets st ! i) = Ready_open
      | In_close i _ _ \<Rightarrow> i < length (sd_sockets st) \<and> sk_ready (sd_sockets st ! i) \<noteq> Ready_closed
      | In_auth_timeout i \<Rightarrow> i < length (sd_sockets st) \<and> sk_authTimeout (sd_sockets st ! i)
      | In_dead m \<Rightarrow> m < length (sd_monitors st) \<and> hm_callback (sd_monitors st ! m) \<and>
          (case hm_deadline (sd_monitors st ! m) of None \<Rightarrow> False | Some d \<Rightarrow> d \<le> now)
      | In_reconnect k \<Rightarrow> k < length (sd_timers st) \<and> sd_timers st ! k \<le> now
      | In_request_timeout t \<Rightarrow> t \<in> set (tr_timers (sd_tracker st)) \<and> rt_deadline t \<le> now
      | _ \<Rightarrow> True)"

fun sdk_apply :: "handler_env \<Rightarrow> int \<Rightarrow> sdk_input \<Rightarrow> sdk_state \<Rightarrow> sdk_state" where
  "sdk_apply en now In_connect st = snd (sdk_connect en st)"
| "sdk_apply en now In_disconnect st = sdk_disconnect st"
| "sdk_apply en now (In_request requestId request) st = snd (sdk_sendRequest en now requestId request st)"
| "sdk_apply en now In_next st = st\<lparr>sd_stream := es_next (sd_stream st)\<rparr>"
| "sdk_apply en now (In_open i) st = socket_opened en i st"
| "sdk_apply en now (In_message i raw) st = sdk_socket_message en now i raw st"
| "sdk_apply en now (In_close i code reason) st = socket_closed en now i code reason st"
| "sdk_apply en now (In_auth_timeout i) st = auth_timeout en i st"
| "sdk_apply en now (In_dead m) st = handleConnectionDead en now st"
| "sdk_apply en now (In_reconnect k) st = reconnect_fired en now k st"
| "sdk_apply en now (In_request_timeout t) st =
     st\<lparr>sd_tracker := tr_timeout (hc_requestTimeoutMs (he_config en)) (sd_tracker st) t\<rparr>"

inductive sdk_reachable :: "handler_env \<Rightarrow> sdk_state \<Rightarrow> bool" for en where
  sdk_start: "sdk_reachable en createSignetHandler"
| sdk_step: "sdk_reachable en st \<Longrightarrow> sdk_enabled now st inp \<Longrightarrow> sdk_reachable en (sdk_apply en now inp st)"

subsection \<open>The invariant\<close>

definition live_of :: "sdk_socket list \<Rightarrow> sdk_socket option" where
  "live_of ss = (if ss = [] then None else let s = last ss in if sk_ready s = Ready_closed then None else Some s)"

lemma live_of_simps [simp]:
  "live_of [] = None" "live_of (pre @ [s]) = (if sk_ready s = Ready_closed then None else Some s)"
  by (simp_all add: live_of_def)

definition socket_fits :: "sdk_socket \<Rightarrow> bool" where
  "socket_fits s \<longleftrightarrow>
     (if sk_ready s = Ready_closed then sk_authHandled s else True) \<and> (if sk_authTimeout s then \<not> sk_authHandled s else True)"

fun ws_fits :: "nat option \<Rightarrow> nat \<Rightarrow> bool" where
  "ws_fits None n = True"
| "ws_fits (Some i) n = (Suc i = n)"

fun ws_is_live :: "sdk_socket option \<Rightarrow> nat option \<Rightarrow> bool" where
  "ws_is_live None w = True"
| "ws_is_live (Some s) w = (sk_ready s = Ready_closing \<or> w \<noteq> None)"

definition sockets_ok :: "sdk_state \<Rightarrow> bool" where
  "sockets_ok st \<longleftrightarrow>
     list_all (\<lambda>s. sk_ready s = Ready_closed) (butlast (sd_sockets st)) \<and> list_all socket_fits (sd_sockets st) \<and>
     ws_fits (sd_ws st) (length (sd_sockets st)) \<and> ws_is_live (live_of (sd_sockets st)) (sd_ws st)"

fun phase_fits :: "handler_state \<Rightarrow> sdk_socket option \<Rightarrow> bool \<Rightarrow> bool \<Rightarrow> bool \<Rightarrow> bool \<Rightarrow> bool" where
  "phase_fits HS_disconnected None ended ws cred scheduled = ended"
| "phase_fits HS_disconnected (Some s) ended ws cred scheduled = False"
| "phase_fits HS_connecting None ended ws cred scheduled = False"
| "phase_fits HS_connecting (Some s) ended ws cred scheduled = (sk_ready s = Ready_connecting \<and> \<not> sk_authHandled s)"
| "phase_fits HS_authenticating None ended ws cred scheduled = False"
| "phase_fits HS_authenticating (Some s) ended ws cred scheduled = (sk_ready s = Ready_open)"
| "phase_fits HS_connected None ended ws cred scheduled = False"
| "phase_fits HS_connected (Some s) ended ws cred scheduled =
     (sk_authHandled s \<and> sk_ready s \<noteq> Ready_connecting \<and> ws \<and> cred)"
| "phase_fits HS_reconnecting None ended ws cred scheduled = scheduled"
| "phase_fits HS_reconnecting (Some s) ended ws cred scheduled = False"
| "phase_fits HS_closed None ended ws cred scheduled = True"
| "phase_fits HS_closed (Some s) ended ws cred scheduled = (sk_ready s \<noteq> Ready_connecting)"

definition phase_ok :: "sdk_state \<Rightarrow> bool" where
  "phase_ok st \<longleftrightarrow> phase_fits (sd_state st) (live_of (sd_sockets st)) (sd_sockets st = [] \<or> es_done (sd_stream st))
     (sd_ws st \<noteq> None) (sd_credential st \<noteq> None) (sd_timers st \<noteq> [])"

definition requests_ok :: "sdk_state \<Rightarrow> bool" where
  "requests_ok st \<longleftrightarrow> tr_ok (sd_tracker st) \<and> (tr_pending (sd_tracker st) = [] \<or> sd_state st = HS_connected)"

fun watched :: "sdk_socket option \<Rightarrow> bool" where
  "watched None = False"
| "watched (Some s) = (sk_authHandled s \<and> sk_ready s = Ready_open)"

definition watching :: "heartbeat_monitor list \<Rightarrow> bool" where
  "watching ms \<longleftrightarrow> (if ms = [] then False else hm_callback (last ms))"

lemma watching_simps [simp]: "\<not> watching []" "watching (ms @ [m]) = hm_callback m"
  by (simp_all add: watching_def)

fun watch_fits :: "bool \<Rightarrow> handler_state \<Rightarrow> sdk_socket option \<Rightarrow> bool" where
  "watch_fits False h live = True"
| "watch_fits True h live = (h = HS_connected \<and> watched live)"

lemma watch_fits_off [simp]: "watch_fits w h None = (\<not> w)" "h \<noteq> HS_connected \<Longrightarrow> watch_fits w h l = (\<not> w)"
  by (cases w; simp)+

lemma watch_fits_connected [simp]:
  "watch_fits w HS_connected (Some s) = (if w then sk_authHandled s \<and> sk_ready s = Ready_open else True)"
  by (cases w) simp_all

definition monitor_fits :: "heartbeat_monitor \<Rightarrow> bool" where
  "monitor_fits m \<longleftrightarrow> (hm_deadline m \<noteq> None) = hm_callback m"

definition monitors_ok :: "sdk_state \<Rightarrow> bool" where
  "monitors_ok st \<longleftrightarrow>
     list_all monitor_fits (sd_monitors st) \<and> list_all (\<lambda>m. \<not> hm_callback m) (butlast (sd_monitors st)) \<and>
     watch_fits (watching (sd_monitors st)) (sd_state st) (live_of (sd_sockets st))"

definition sdk_inv :: "sdk_state \<Rightarrow> bool" where
  "sdk_inv st \<longleftrightarrow> sockets_ok st \<and> phase_ok st \<and> monitors_ok st \<and>
     es_ok (sd_stream st) \<and> requests_ok st"

lemmas sdk_inv_defs = sdk_inv_def sockets_ok_def socket_fits_def monitors_ok_def requests_ok_def phase_ok_def

lemmas sdk_parts = setState_def emitError_def complete_stream_def reject_all_def stop_monitor_def upd_monitor_def
  Let_def

lemma inv_start: "sdk_inv createSignetHandler"
  by (simp add: sdk_inv_defs createSignetHandler_def) (simp add: createRequestTracker_def)

text \<open>Only the newest socket can be live.\<close>

lemma live_is_last:
  assumes "sdk_inv st" "i < length (sd_sockets st)" "sk_ready (sd_sockets st ! i) \<noteq> Ready_closed"
  obtains pre s where "sd_sockets st = pre @ [s]" "i = length pre" "live_of (sd_sockets st) = Some s"
proof (cases "sd_sockets st" rule: rev_cases)
  case Nil
  then show ?thesis using assms(2) by simp
next
  case (snoc pre s)
  have "list_all (\<lambda>s. sk_ready s = Ready_closed) pre" using assms(1) snoc by (simp add: sdk_inv_def sockets_ok_def)
  then have "i = length pre"
    using assms(2,3) snoc by (auto simp: list_all_length nth_append less_Suc_eq)
  then show ?thesis using snoc assms(3) that by simp
qed

lemma upd_last [simp]:
  "sd_sockets st = pre @ [s] \<Longrightarrow> upd_socket (length pre) f st = st\<lparr>sd_sockets := pre @ [f s]\<rparr>"
  by (simp add: upd_socket_def)

lemma inv_stop_monitor: "sdk_inv st \<Longrightarrow> sdk_inv (stop_monitor st)"
  by (cases "sd_monitors st" rule: rev_cases) (auto simp: sdk_inv_defs sdk_parts monitor_fits_def hm_stop_def)

lemma inv_reject_all: "sdk_inv st \<Longrightarrow> sdk_inv (reject_all m st)"
  by (auto simp: sdk_inv_defs sdk_parts)

text \<open>A state between two connections, whatever its phase.\<close>

definition at_rest :: "sdk_state \<Rightarrow> bool" where
  "at_rest st \<longleftrightarrow> sockets_ok st \<and> monitors_ok st \<and> es_ok (sd_stream st) \<and> requests_ok st \<and>
     tr_pending (sd_tracker st) = [] \<and> live_of (sd_sockets st) = None"

lemma inv_attempt:
  assumes "at_rest st"
  shows "sdk_inv (attemptReconnect en now st)" "live_of (sd_sockets (attemptReconnect en now st)) = None"
  using assms
  by (auto simp: at_rest_def attemptReconnect_def nextDelay_def sdk_parts sdk_inv_defs)

lemma inv_connectInternal:
  "at_rest st \<Longrightarrow> he_urlAccepted en \<Longrightarrow> sdk_inv (snd (connectInternal en st)) \<and> fst (connectInternal en st)"
  by (cases "sd_sockets st" rule: rev_cases)
    (auto simp: at_rest_def connectInternal_def sdk_parts sdk_inv_defs split: if_splits)

lemma inv_connect:
  assumes "sdk_inv st" "he_urlAccepted en"
  shows "sdk_inv (snd (sdk_connect en st))"
proof (cases "sd_state st")
  case HS_disconnected
  then have "live_of (sd_sockets st) = None"
    using assms(1) by (cases "live_of (sd_sockets st)") (simp_all add: sdk_inv_defs)
  then have "at_rest (st\<lparr>sd_stream := createEventStream\<rparr>)"
    using assms(1) HS_disconnected by (auto simp: at_rest_def sdk_inv_defs)
  then show ?thesis using inv_connectInternal assms(2) HS_disconnected by (simp add: sdk_connect_def split_beta)
qed (use assms in \<open>simp_all add: sdk_connect_def\<close>)

lemma inv_reconnect_fired:
  assumes "sdk_inv st" "he_urlAccepted en" "k < length (sd_timers st)"
  shows "sdk_inv (reconnect_fired en now k st)"
proof (cases "sd_state st = HS_reconnecting")
  case True
  let ?st = "st\<lparr>sd_timers := take k (sd_timers st) @ drop (Suc k) (sd_timers st)\<rparr>"
  have "live_of (sd_sockets st) = None"
    using assms(1) True by (cases "live_of (sd_sockets st)") (simp_all add: sdk_inv_defs)
  then have "at_rest ?st" using assms(1) True by (auto simp: at_rest_def sdk_inv_defs split: if_splits)
  then show ?thesis
    using inv_connectInternal [OF _ assms(2), of ?st] True by (simp add: reconnect_fired_def Let_def split_beta)
next
  case False
  then show ?thesis
    using assms(1) by (cases "sd_state st"; cases "live_of (sd_sockets st)") (simp_all add: reconnect_fired_def Let_def sdk_inv_defs)
qed

lemma inv_opened:
  assumes "sdk_inv st" "sdk_enabled now st (In_open i)"
  shows "sdk_inv (socket_opened en i st)"
proof -
  obtain pre s where S: "sd_sockets st = pre @ [s]" "i = length pre" "live_of (sd_sockets st) = Some s"
    using live_is_last [OF assms(1), of i] assms(2) by (auto simp: sdk_enabled_def)
  then have "sk_ready s = Ready_connecting" using assms(2) by (simp add: sdk_enabled_def)
  then show ?thesis
    using assms(1) S by (cases "sd_state st") (auto simp: socket_opened_def sdk_parts sdk_inv_defs)
qed

lemma inv_handleFrame: "sdk_inv st \<Longrightarrow> sdk_inv (handleFrame en now raw st)"
proof -
  assume inv: "sdk_inv st"
  have "sdk_inv (handle_response en data st)" for data
  proof -
    have "tr_pending (sd_tracker st) = [] \<Longrightarrow> tr_pending (tr_resolve (sd_tracker st) k r) = []" for k r
      by (simp add: tr_resolve_def)
    then show ?thesis
      using inv by (auto simp: handle_response_def Let_def sdk_inv_defs split: js_value.split)
  qed
  moreover have "sdk_inv (handle_event now data st)" for data
    using inv by (cases "sd_monitors st" rule: rev_cases)
      (auto simp: handle_event_def sdk_parts sdk_inv_defs hm_recordHeartbeat_def hm_resetTimer_def monitor_fits_def)
  moreover have "sdk_inv (emitError e st)" for e
    using inv by (simp add: sdk_inv_defs sdk_parts)
  ultimately show ?thesis using inv by (simp add: handleFrame_def split: option.split)
qed

lemma inv_message:
  assumes "sdk_inv st" "sdk_enabled now st (In_message i raw)"
  shows "sdk_inv (sdk_socket_message en now i raw st)"
proof -
  obtain pre s where S: "sd_sockets st = pre @ [s]" "i = length pre" "live_of (sd_sockets st) = Some s"
    using live_is_last [OF assms(1), of i] assms(2) by (auto simp: sdk_enabled_def)
  then have o: "sk_ready s = Ready_open" using assms(2) by (simp add: sdk_enabled_def)
  show ?thesis
  proof (cases "sk_authHandled s")
    case True
    then show ?thesis using inv_handleFrame [OF assms(1)] S by (simp add: sdk_socket_message_def)
  next
    case False
    have off: "\<not> watching (sd_monitors st)"
      using assms(1) S False by (cases "watching (sd_monitors st)") (auto simp: sdk_inv_defs split: if_splits)
    have quiet: "sd_state st \<noteq> HS_connected" "sd_state st \<noteq> HS_disconnected" "sd_state st \<noteq> HS_reconnecting"
        "sd_state st \<noteq> HS_connecting" "tr_pending (sd_tracker st) = []" "sd_ws st \<noteq> None"
      using assms(1) S False o by (auto simp: sdk_inv_defs)
    have a: "sdk_inv (authenticated_received en now i data st)" for data
      using assms(1) S o False quiet off
      by (cases "sd_monitors st" rule: rev_cases; cases "sd_state st")
        (auto simp: butlast_append authenticated_received_def auth_answered_def sdk_parts sdk_inv_defs sk_resolve_def hm_start_def
          hm_resetTimer_def createHeartbeatMonitor_def monitor_fits_def split: option.split)
    have e: "sdk_inv (auth_error_received en i data st)" for data
      using assms(1) S o False quiet off
      by (auto simp: auth_error_received_def auth_answered_def sdk_parts sdk_inv_defs sk_resolve_def split: option.split)
    have b: "sdk_inv (upd_socket i (sk_resolve r) (setState HS_closed (upd_socket i (\<lambda>s. s\<lparr>sk_authTimeout := False\<rparr>) st)))" for r
      using assms(1) S o False quiet off
      by (auto simp: sdk_parts sdk_inv_defs sk_resolve_def split: option.split)
    show ?thesis using S False a e b assms(1) by (simp add: sdk_socket_message_def split: option.split)
  qed
qed

lemma list_all_upd: "list_all P xs \<Longrightarrow> (\<And>x. P x \<Longrightarrow> P (f x)) \<Longrightarrow> i < length xs \<Longrightarrow> list_all P (xs[i := f (xs ! i)])"
  by (simp add: list_all_length nth_list_update)

lemma inv_resolve:
  assumes "sdk_inv st"
  shows "sdk_inv (upd_socket i (sk_resolve x) st)"
proof (cases "i < length (sd_sockets st)")
  case True
  let ?ss = "sd_sockets st"
  have keeps [simp]: "sk_ready (sk_resolve x s) = sk_ready s" "sk_authHandled (sk_resolve x s) = sk_authHandled s"
      "sk_authTimeout (sk_resolve x s) = sk_authTimeout s" for s
    by (simp_all add: sk_resolve_def split: option.split)
  obtain pre s where S: "?ss = pre @ [s]" using True by (cases ?ss rule: rev_cases) auto
  show ?thesis
  proof (cases "i = length pre")
    case True
    then show ?thesis using assms S
      by (cases "sd_state st") (auto simp: sdk_inv_defs split: if_splits)
  next
    case False
    then have i: "i < length pre" using True S by simp
    have "list_all (\<lambda>s. sk_ready s = Ready_closed) pre" "list_all socket_fits pre"
      using assms S by (simp_all add: sdk_inv_def sockets_ok_def)
    then have "list_all (\<lambda>s. sk_ready s = Ready_closed) (pre[i := sk_resolve x (pre ! i)])"
        "list_all socket_fits (pre[i := sk_resolve x (pre ! i)])"
      using i by (auto intro!: list_all_upd simp: socket_fits_def)
    then show ?thesis using assms S i
      by (simp add: sdk_inv_def sockets_ok_def phase_ok_def monitors_ok_def requests_ok_def upd_socket_def
          list_update_append1 nth_append)
  qed
qed (use assms in \<open>simp add: upd_socket_def\<close>)

lemma inv_settle:
  "at_rest st \<Longrightarrow> sdk_inv (setState HS_closed st)" "at_rest st \<Longrightarrow> sdk_inv (complete_stream (setState HS_closed st))"
  "at_rest st \<Longrightarrow> sd_state st = HS_closed \<Longrightarrow> sdk_inv st"
  by (auto simp: at_rest_def sdk_inv_defs sdk_parts)

lemma inv_closed:
  assumes "sdk_inv st" "sdk_enabled now st (In_close i code reason)"
  shows "sdk_inv (socket_closed en now' i code reason st)"
proof -
  obtain pre s where S: "sd_sockets st = pre @ [s]" "i = length pre" "live_of (sd_sockets st) = Some s"
    using live_is_last [OF assms(1), of i] assms(2) by (auto simp: sdk_enabled_def)
  let ?st1 = "stop_monitor (upd_socket i (\<lambda>s. s\<lparr>sk_ready := Ready_closed\<rparr>) st)"
  have s1: "sd_sockets ?st1 = pre @ [s\<lparr>sk_ready := Ready_closed\<rparr>]" using S by (simp add: sdk_parts)
  show ?thesis
  proof (cases "sk_authHandled s")
    case True
    let ?st2 = "reject_all ''Connection closed'' (?st1\<lparr>sd_ws := None\<rparr>)"
    have r: "at_rest ?st2"
      using assms(1) S True by (cases "sd_monitors st" rule: rev_cases)
        (auto simp: at_rest_def sdk_parts sdk_inv_defs hm_stop_def monitor_fits_def)
    then show ?thesis
      using inv_attempt(1) [OF r, of en now'] inv_settle(2,3) [OF r] S s1 True by (simp add: socket_closed_def Let_def)
  next
    case False
    let ?st2 = "auth_answered i ?st1"
    have s2: "sd_sockets ?st2 = pre @ [s\<lparr>sk_ready := Ready_closed, sk_authHandled := True, sk_authTimeout := False\<rparr>]"
      using S s1 by (simp add: auth_answered_def)
    have quiet: "sd_state st \<noteq> HS_connected" "tr_pending (sd_tracker st) = []"
      using assms(1) S False by (auto simp: sdk_inv_defs)
    have r2: "at_rest ?st2"
      using assms(1) S False quiet by (cases "sd_monitors st" rule: rev_cases)
        (auto simp: at_rest_def auth_answered_def sdk_parts sdk_inv_defs hm_stop_def monitor_fits_def)
    have r: "at_rest (reject_all m ?st2)" for m using r2 by (auto simp: at_rest_def sdk_parts sdk_inv_defs)
    have len: "i < length (sd_sockets st)" using S by simp
    show ?thesis
      using S s1 False inv_resolve [OF inv_attempt(1) [OF r]]
        inv_resolve [OF inv_settle(1) [OF r2]]
      by (simp add: socket_closed_def Let_def)
  qed
qed

lemma inv_auth_timeout:
  assumes "sdk_inv st" "sdk_enabled now st (In_auth_timeout i)"
  shows "sdk_inv (auth_timeout en i st)"
proof -
  have t: "i < length (sd_sockets st)" "sk_authTimeout (sd_sockets st ! i)" using assms(2) by (simp_all add: sdk_enabled_def)
  have "list_all socket_fits (sd_sockets st)" using assms(1) by (simp add: sdk_inv_def sockets_ok_def)
  then have h: "\<not> sk_authHandled (sd_sockets st ! i)" "sk_ready (sd_sockets st ! i) \<noteq> Ready_closed"
    using t by (auto simp: list_all_length socket_fits_def)
  obtain pre s where S: "sd_sockets st = pre @ [s]" "i = length pre" "live_of (sd_sockets st) = Some s"
    using live_is_last [OF assms(1) t(1) h(2)] by blast
  then have h: "\<not> sk_authHandled s" "sk_ready s \<noteq> Ready_closed" using h by simp_all
  show ?thesis
    using assms(1) S h
    by (cases "sd_state st"; cases "sk_ready s")
      (auto simp: auth_timeout_def ws_close_def sk_resolve_def sdk_parts sdk_inv_defs split: option.split)
qed

lemma inv_dead:
  assumes "sdk_inv st" "sdk_enabled now st (In_dead m)"
  shows "sdk_inv (handleConnectionDead en now st)"
proof -
  have m: "m < length (sd_monitors st)" "hm_callback (sd_monitors st ! m)" using assms(2) by (simp_all add: sdk_enabled_def)
  obtain ms x where M: "sd_monitors st = ms @ [x]" using m(1) by (cases "sd_monitors st" rule: rev_cases) auto
  have "list_all (\<lambda>m. \<not> hm_callback m) ms" using assms(1) M by (simp add: sdk_inv_def monitors_ok_def)
  then have "m = length ms" using m M by (auto simp: list_all_length nth_append less_Suc_eq)
  then have w: "watched (live_of (sd_sockets st))" "sd_state st = HS_connected" using m M assms(1) by (simp_all add: sdk_inv_def monitors_ok_def)
  then obtain s where L: "live_of (sd_sockets st) = Some s" "sk_authHandled s" "sk_ready s = Ready_open"
    by (cases "live_of (sd_sockets st)") auto
  then obtain pre where P: "sd_sockets st = pre @ [s]"
    by (cases "sd_sockets st" rule: rev_cases) (auto split: if_splits)
  have "sd_ws st = Some (length pre)"
    using assms(1) L P by (cases "sd_ws st") (simp_all add: sdk_inv_def sockets_ok_def)
  moreover have "sd_ws (stop_monitor st) = sd_ws st" "sd_sockets (stop_monitor st) = sd_sockets st" by (simp_all add: sdk_parts)
  ultimately have h: "handleConnectionDead en now st =
      (stop_monitor st)\<lparr>sd_sockets := pre @ [s\<lparr>sk_ready := Ready_closing\<rparr>]\<rparr>"
    using P L by (simp add: handleConnectionDead_def Let_def ws_close_def)
  show ?thesis
    unfolding h using assms(1) M P L w(2)
    by (auto simp: sdk_parts sdk_inv_defs hm_stop_def monitor_fits_def)
qed

lemma inv_disconnect: "sdk_inv st \<Longrightarrow> sdk_inv (sdk_disconnect st)"
proof -
  assume inv: "sdk_inv st"
  let ?st1 = "reject_all ''Disconnecting'' (stop_monitor st)"
  have i1: "sdk_inv ?st1" using inv by (intro inv_reject_all inv_stop_monitor)
  have off: "\<not> watching (sd_monitors ?st1)"
    by (simp add: sdk_parts hm_stop_def)
  have none: "tr_pending (sd_tracker ?st1) = []" by (simp add: sdk_parts)
  show ?thesis
  proof (cases "sd_sockets st" rule: rev_cases)
    case Nil
    then have ss: "sd_sockets ?st1 = []" by (simp add: sdk_parts)
    then have "sd_ws ?st1 = None" using i1 by (cases "sd_ws ?st1") (simp_all add: sdk_inv_def sockets_ok_def)
    with ss show ?thesis using i1 none off by (simp add: sdk_disconnect_def sdk_inv_defs complete_stream_def setState_def Let_def)
  next
    case (snoc pre s)
    then have s1: "sd_sockets ?st1 = pre @ [s]" by (simp add: sdk_parts)
    show ?thesis
    proof (cases "sd_ws ?st1")
      case None
      then show ?thesis using i1 none off s1
        by (cases "sd_state ?st1") (auto simp: sdk_disconnect_def sdk_inv_defs complete_stream_def setState_def Let_def)
    next
      case (Some j)
      then have "j = length pre" using i1 s1 by (simp add: sdk_inv_def sockets_ok_def)
      then show ?thesis using i1 none off s1 Some
        by (cases "sk_ready s")
          (auto simp: sdk_disconnect_def sdk_inv_defs complete_stream_def setState_def Let_def ws_close_def)
    qed
  qed
qed

lemma inv_step:
  assumes "sdk_inv st" "he_urlAccepted en" "sdk_enabled now st inp"
  shows "sdk_inv (sdk_apply en now inp st)"
proof (cases inp)
  case (In_request requestId request)
  then show ?thesis using assms(1)
    by (auto simp: sdk_sendRequest_def sdk_inv_defs split: option.split)
next
  case (In_request_timeout t)
  then have "tr_ok (tr_timeout ms (sd_tracker st) t)" for ms
    using assms by (simp add: sdk_enabled_def tr_ok_timeout sdk_inv_defs)
  moreover have "tr_pending (sd_tracker st) = [] \<Longrightarrow> tr_pending (tr_timeout ms (sd_tracker st) t) = []" for ms
    by (simp add: tr_timeout_def map_delete_def)
  ultimately show ?thesis using assms(1) In_request_timeout by (auto simp: sdk_inv_defs)
next
  case In_next
  then show ?thesis using assms(1) by (auto simp: sdk_inv_defs)
qed (use assms inv_connect inv_disconnect inv_opened inv_message inv_closed inv_auth_timeout inv_dead inv_reconnect_fired
     in \<open>auto simp: sdk_enabled_def\<close>)

lemma sdk_reachable_inv:
  assumes "he_urlAccepted en"
  shows "sdk_reachable en st \<Longrightarrow> sdk_inv st"
  by (induction rule: sdk_reachable.induct) (simp_all add: inv_start inv_step [OF _ assms])

subsection \<open>What the invariant says\<close>

lemma one_live: "list_all (\<lambda>s. sk_ready s = Ready_closed) (butlast ss) \<Longrightarrow> length (filter (\<lambda>s. sk_ready s \<noteq> Ready_closed) ss) \<le> 1"
  by (cases ss rule: rev_cases) (auto simp: list_all_iff filter_empty_conv)

text \<open>C22: In every state a client can reach, whatever the server sends and in whatever order timers and
  sockets report, at most one connection is open or opening. A connected client has an
  authenticated connection and its credential, a waiting request means that it is connected, one
  that is between connections has an attempt scheduled, and one that gave up has ended its stream
  of events. Every request was answered at most once, and one that was not has its timeout
  running.\<close>

theorem client_invariant:
  assumes "he_urlAccepted en" "sdk_reachable en st"
  shows "length (filter (\<lambda>s. sk_ready s \<noteq> Ready_closed) (sd_sockets st)) \<le> 1 \<and>
    (tr_pending (sd_tracker st) \<noteq> [] \<longrightarrow> sd_state st = HS_connected) \<and>
    (case sd_state st of
       HS_connected \<Rightarrow> sd_credential st \<noteq> None \<and>
         (case sd_ws st of None \<Rightarrow> False
          | Some i \<Rightarrow> i < length (sd_sockets st) \<and> sk_authHandled (sd_sockets st ! i) \<and>
              sk_ready (sd_sockets st ! i) \<in> {Ready_open, Ready_closing})
     | HS_reconnecting \<Rightarrow> sd_timers st \<noteq> [] \<and> list_all (\<lambda>s. sk_ready s = Ready_closed) (sd_sockets st)
     | HS_disconnected \<Rightarrow> sd_sockets st = [] \<or> es_done (sd_stream st)
     | _ \<Rightarrow> True) \<and>
    distinct (map fst (tr_answers (sd_tracker st))) \<and>
    (\<forall>c < tr_calls (sd_tracker st).
       c \<in> fst ` set (tr_answers (sd_tracker st)) \<or> c \<in> rt_call ` set (tr_timers (sd_tracker st)))"
proof -
  have inv: "sdk_inv st" using sdk_reachable_inv assms by blast
  have c: "case sd_ws st of None \<Rightarrow> False
      | Some i \<Rightarrow> i < length (sd_sockets st) \<and> sk_authHandled (sd_sockets st ! i) \<and>
          sk_ready (sd_sockets st ! i) \<in> {Ready_open, Ready_closing}" if "sd_state st = HS_connected"
  proof (cases "sd_sockets st" rule: rev_cases)
    case (snoc pre s)
    then show ?thesis using inv that
      by (cases "sk_ready s"; cases "sd_ws st") (auto simp: sdk_inv_def sockets_ok_def phase_ok_def split: if_splits)
  qed (use inv that in \<open>simp add: sdk_inv_def phase_ok_def\<close>)
  have r: "list_all (\<lambda>s. sk_ready s = Ready_closed) (sd_sockets st)" if "sd_state st = HS_reconnecting"
    using inv that by (cases "sd_sockets st" rule: rev_cases) (auto simp: sdk_inv_def sockets_ok_def phase_ok_def split: if_splits)
  have t: "sd_timers st \<noteq> []" if "sd_state st = HS_reconnecting"
    using inv that by (cases "live_of (sd_sockets st)") (auto simp: sdk_inv_def phase_ok_def)
  have d: "sd_sockets st = [] \<or> es_done (sd_stream st)" if "sd_state st = HS_disconnected"
    using inv that by (cases "live_of (sd_sockets st)") (auto simp: sdk_inv_def phase_ok_def)
  have cr: "sd_credential st \<noteq> None" if "sd_state st = HS_connected"
    using inv that by (cases "live_of (sd_sockets st)") (auto simp: sdk_inv_def phase_ok_def)
  have tr: "tr_ok (sd_tracker st)" and p: "tr_pending (sd_tracker st) \<noteq> [] \<longrightarrow> sd_state st = HS_connected"
    using inv by (auto simp: sdk_inv_def requests_ok_def)
  have calls: "c \<in> fst ` set (tr_answers (sd_tracker st)) \<or> c \<in> rt_call ` set (tr_timers (sd_tracker st))"
    if "c < tr_calls (sd_tracker st)" for c
  proof -
    have "c \<in> set (map rt_call (tr_timers (sd_tracker st)) @ map fst (tr_answers (sd_tracker st)))"
      using tr that unfolding tr_ok_def by (metis lessThan_iff)
    then show ?thesis by auto
  qed
  have "distinct (map fst (tr_answers (sd_tracker st)))" using tr by (simp add: tr_ok_def)
  moreover have "length (filter (\<lambda>s. sk_ready s \<noteq> Ready_closed) (sd_sockets st)) \<le> 1"
    using inv by (intro one_live) (simp add: sdk_inv_def sockets_ok_def)
  ultimately show ?thesis using c r t d cr p calls by (simp split: handler_state.split)
qed

subsection \<open>Requests end\<close>

text \<open>The calls that wait under their identifier, answered with an error of the connection.\<close>

definition failed_waiting :: "string \<Rightarrow> request_tracker \<Rightarrow> (nat \<times> (js_value, signet_error) result) list" where
  "failed_waiting message tr =
     tr_answers tr @ map (\<lambda>c. (c, Err (InternalError_create message None))) (map_values (tr_pending tr))"

lemma tracker_kept [simp]:
  "sd_tracker (upd_socket i f st) = sd_tracker st" "sd_tracker (attemptReconnect en now st) = sd_tracker st"
  "sd_tracker (stop_monitor st) = sd_tracker st" "sd_tracker (setState h st) = sd_tracker st"
  "sd_tracker (complete_stream st) = sd_tracker st" "sd_tracker (auth_answered i st) = sd_tracker st"
  by (auto simp: upd_socket_def attemptReconnect_def auth_answered_def sdk_parts split: prod.split)

lemma tracker_reject_all [simp]:
  "sd_tracker (reject_all m st) = tr_rejectAll (sd_tracker st) (InternalError_create m None)"
  by (simp add: reject_all_def)

lemma rejectAll_waiting:
  "tr_pending (tr_rejectAll tr (InternalError_create m None)) = []"
  "tr_answers (tr_rejectAll tr (InternalError_create m None)) = failed_waiting m tr"
  by (simp_all add: tr_rejectAll_def failed_waiting_def)

lemma disconnect_answers:
  "tr_pending (sd_tracker (sdk_disconnect st)) = [] \<and>
   tr_answers (sd_tracker (sdk_disconnect st)) = failed_waiting ''Disconnecting'' (sd_tracker st)"
  by (simp add: sdk_disconnect_def Let_def rejectAll_waiting split: option.split)

lemma close_answers:
  assumes "sdk_inv st" and "sdk_enabled now st (In_close i code reason)"
  shows "tr_pending (sd_tracker (socket_closed en now i code reason st)) = [] \<and>
    tr_answers (sd_tracker (socket_closed en now i code reason st)) = failed_waiting ''Connection closed'' (sd_tracker st)"
proof -
  obtain pre s where S: "sd_sockets st = pre @ [s]" "i = length pre" "live_of (sd_sockets st) = Some s"
    using live_is_last [OF assms(1), of i] assms(2) by (auto simp: sdk_enabled_def)
  let ?st1 = "stop_monitor (upd_socket i (\<lambda>s. s\<lparr>sk_ready := Ready_closed\<rparr>) st)"
  have s1: "sd_sockets ?st1 = pre @ [s\<lparr>sk_ready := Ready_closed\<rparr>]" using S by (simp add: sdk_parts)
  show ?thesis
  proof (cases "sk_authHandled s")
    case True
    then show ?thesis using S s1 by (simp add: socket_closed_def Let_def rejectAll_waiting)
  next
    case False
    then have "tr_pending (sd_tracker st) = []" using assms(1) S by (auto simp: sdk_inv_defs)
    then show ?thesis
      using S s1 False by (simp add: socket_closed_def Let_def rejectAll_waiting failed_waiting_def map_values_def)
  qed
qed

text \<open>C23: No request waits for ever. Once the timeouts that are due have fired at a time after the
  last deadline, every request made so far has been answered exactly once. And when the connection
  ends, by a disconnect or by the close of its socket, exactly the calls then waiting under their
  identifier are answered with the connection's error at that moment, and none is left waiting.\<close>

theorem requests_end:
  assumes "he_urlAccepted en" "sdk_reachable en st"
    and "list_all (\<lambda>t. rt_deadline t \<le> now) (tr_timers (sd_tracker st))"
  shows "set (map fst (tr_answers (fire_due timeoutMs now (sd_tracker st)))) = {..<tr_calls (sd_tracker st)} \<and>
    distinct (map fst (tr_answers (fire_due timeoutMs now (sd_tracker st)))) \<and>
    tr_pending (sd_tracker (sdk_disconnect st)) = [] \<and>
    tr_answers (sd_tracker (sdk_disconnect st)) = failed_waiting ''Disconnecting'' (sd_tracker st) \<and>
    (sdk_enabled later st (In_close i code reason) \<longrightarrow>
       tr_pending (sd_tracker (socket_closed en later i code reason st)) = [] \<and>
       tr_answers (sd_tracker (socket_closed en later i code reason st)) =
         failed_waiting ''Connection closed'' (sd_tracker st))"
proof -
  have inv: "sdk_inv st" using sdk_reachable_inv assms(1,2) by blast
  then have ok: "tr_ok (sd_tracker st)" by (simp add: sdk_inv_def requests_ok_def)
  have "tr_timers (fire_due timeoutMs now (sd_tracker st)) = []"
    using assms(3) by (auto simp: fire_due_timers(3) [OF ok] list_all_iff filter_empty_conv)
  then show ?thesis
    using fire_due_timers(1,2) [OF ok, of timeoutMs now] disconnect_answers close_answers [OF inv]
    by (auto simp: tr_ok_def)
qed

subsection \<open>Disconnecting\<close>

inductive sdk_run :: "handler_env \<Rightarrow> sdk_state \<Rightarrow> sdk_state \<Rightarrow> bool" for en st where
  run_refl: "sdk_run en st st"
| run_step: "sdk_run en st st1 \<Longrightarrow> sdk_enabled now st1 inp \<Longrightarrow> sdk_run en st (sdk_apply en now inp st1)"

definition shut :: "sdk_state \<Rightarrow> bool" where
  "shut st \<longleftrightarrow> sd_state st = HS_closed \<and> es_done (sd_stream st) \<and> tr_pending (sd_tracker st) = [] \<and>
     list_all (\<lambda>s. sk_authHandled s \<and> \<not> sk_authTimeout s \<and> (sk_ready s = Ready_closing \<or> sk_ready s = Ready_closed)) (sd_sockets st) \<and>
     list_all (\<lambda>m. \<not> hm_callback m) (sd_monitors st)"

lemma shut_monitor: "shut st \<Longrightarrow> shut (stop_monitor st) \<and> sd_sockets (stop_monitor st) = sd_sockets st \<and> sd_sent (stop_monitor st) = sd_sent st"
  by (cases "sd_monitors st" rule: rev_cases) (simp_all add: shut_def sdk_parts hm_stop_def)

lemma shut_step:
  assumes "shut st" "sdk_enabled now st inp"
  shows "shut (sdk_apply en now inp st) \<and> sd_sent (sdk_apply en now inp st) = sd_sent st"
proof (cases inp)
  case In_connect
  then show ?thesis using assms(1) by (simp add: sdk_connect_def shut_def)
next
  case In_disconnect
  let ?st1 = "reject_all ''Disconnecting'' (stop_monitor st)"
  have s1: "shut ?st1" "sd_sent ?st1 = sd_sent st" using shut_monitor [OF assms(1)] by (auto simp: shut_def reject_all_def)
  have "shut (upd_socket i ws_close ?st1)" for i
  proof (cases "i < length (sd_sockets ?st1)")
    case True
    let ?P = "\<lambda>s. sk_authHandled s \<and> \<not> sk_authTimeout s \<and> (sk_ready s = Ready_closing \<or> sk_ready s = Ready_closed)"
    have "list_all ?P (sd_sockets ?st1)" using s1(1) unfolding shut_def by blast
    then have "list_all ?P ((sd_sockets ?st1)[i := ws_close (sd_sockets ?st1 ! i)])"
      by (rule list_all_upd) (use True in \<open>auto simp: ws_close_def\<close>)
    then show ?thesis using True s1(1) by (simp add: shut_def upd_socket_def)
  qed (use s1(1) in \<open>simp add: upd_socket_def\<close>)
  moreover have "sd_sent (upd_socket i ws_close ?st1) = sd_sent st" for i using s1(2) by (simp add: upd_socket_def)
  ultimately show ?thesis using In_disconnect s1
    by (simp add: sdk_disconnect_def Let_def setState_def complete_stream_def shut_def split: option.split)
next
  case (In_request requestId request)
  then show ?thesis using assms(1) by (simp add: sdk_sendRequest_def shut_def split: option.split)
next
  case In_next
  then show ?thesis using assms(1) by (simp add: shut_def)
next
  case (In_open i)
  then show ?thesis using assms by (auto simp: sdk_enabled_def shut_def list_all_length)
next
  case (In_message i raw)
  then show ?thesis using assms by (auto simp: sdk_enabled_def shut_def list_all_length)
next
  case (In_auth_timeout i)
  then show ?thesis using assms by (auto simp: sdk_enabled_def shut_def list_all_length)
next
  case (In_dead m)
  then show ?thesis using assms by (auto simp: sdk_enabled_def shut_def list_all_length)
next
  case (In_reconnect k)
  then show ?thesis using assms by (simp add: reconnect_fired_def shut_def)
next
  case (In_request_timeout t)
  then show ?thesis using assms by (simp add: shut_def tr_timeout_def map_delete_def)
next
  case (In_close i code reason)
  then have i: "i < length (sd_sockets st)" using assms(2) by (simp add: sdk_enabled_def)
  let ?st1 = "upd_socket i (\<lambda>s. s\<lparr>sk_ready := Ready_closed\<rparr>) st"
  have s1: "shut ?st1" "sd_sent ?st1 = sd_sent st"
    using assms(1) i by (auto simp: shut_def upd_socket_def list_all_length nth_list_update)
  then have s2: "shut (stop_monitor ?st1)" "sd_sent (stop_monitor ?st1) = sd_sent st"
      "sk_authHandled (sd_sockets (stop_monitor ?st1) ! i)"
    using shut_monitor [OF s1(1)] i by (auto simp: shut_def list_all_length upd_socket_def)
  then show ?thesis using In_close
    by (simp add: socket_closed_def Let_def shut_def reject_all_def setState_def complete_stream_def)
qed

text \<open>C24: Disconnecting a connected client is final: whatever happens afterwards it stays closed, sends
  nothing more, has no request waiting and has ended its stream of events.\<close>

theorem disconnect_final:
  assumes "he_urlAccepted en" "sdk_reachable en st" "sd_state st = HS_connected" "sdk_run en (sdk_disconnect st) st'"
  shows "sd_state st' = HS_closed \<and> es_done (sd_stream st') \<and> tr_pending (sd_tracker st') = [] \<and> sd_sent st' = sd_sent st"
proof -
  have inv: "sdk_inv st" using sdk_reachable_inv assms(1,2) by blast
  obtain s where L: "live_of (sd_sockets st) = Some s" "sk_authHandled s" "sk_ready s \<noteq> Ready_connecting"
    using inv assms(3) by (cases "live_of (sd_sockets st)") (auto simp: sdk_inv_def phase_ok_def)
  then obtain pre where S: "sd_sockets st = pre @ [s]" by (cases "sd_sockets st" rule: rev_cases) (auto split: if_splits)
  have ws: "sd_ws st = Some (length pre)"
    using inv L S assms(3) by (cases "sd_ws st") (simp_all add: sdk_inv_def sockets_ok_def phase_ok_def)
  have pre: "list_all (\<lambda>s. sk_authHandled s \<and> \<not> sk_authTimeout s \<and> (sk_ready s = Ready_closing \<or> sk_ready s = Ready_closed)) pre"
      "\<not> sk_authTimeout s" "sk_ready s \<noteq> Ready_closed"
    using inv S L by (auto simp: sdk_inv_def sockets_ok_def socket_fits_def list_all_iff split: if_splits)
  have m: "list_all (\<lambda>m. \<not> hm_callback m) (butlast (sd_monitors st))" using inv by (simp add: sdk_inv_def monitors_ok_def)
  have "shut (sdk_disconnect st) \<and> sd_sent (sdk_disconnect st) = sd_sent st"
    using S ws pre m L assms(3)
    by (cases "sd_monitors st" rule: rev_cases; cases "sk_ready s")
      (simp_all add: sdk_disconnect_def shut_def sdk_parts ws_close_def hm_stop_def)
  then have "shut st' \<and> sd_sent st' = sd_sent st"
    using assms(4) by - (rotate_tac, erule sdk_run.induct, simp_all add: shut_step)
  then show ?thesis by (simp add: shut_def)
qed

end
