(* ===== verification/SdkSession.thy ===== *)
theory SdkSession
  imports SdkInvariant
begin

text \<open>
  Sessions of the client library: what its retries come to, what reaches the consumer across a
  reconnection to the server's replay buffer, and sample runs.
\<close>

subsection \<open>Retries\<close>

text \<open>One attempt that fails: the newest timer fires, and the connection it opens is lost.\<close>

definition failed_attempt :: "handler_env \<Rightarrow> int \<Rightarrow> int \<Rightarrow> string \<Rightarrow> sdk_state \<Rightarrow> sdk_state" where
  "failed_attempt en now code reason st =
     socket_closed en now (length (sd_sockets st)) code reason (reconnect_fired en now (length (sd_timers st) - 1) st)"

fun failed_attempts :: "handler_env \<Rightarrow> int list \<Rightarrow> int \<Rightarrow> string \<Rightarrow> sdk_state \<Rightarrow> sdk_state" where
  "failed_attempts en [] code reason st = st"
| "failed_attempts en (now # nows) code reason st =
     failed_attempts en nows code reason (failed_attempt en now code reason st)"

lemma fired_connecting:
  assumes "he_urlAccepted en" "sd_state st = HS_reconnecting"
  shows "sd_state (reconnect_fired en now k st) = HS_connecting"
    "sd_sockets (reconnect_fired en now k st) = sd_sockets st @
       [\<lparr>sk_ready = Ready_connecting, sk_authHandled = False, sk_authTimeout = True, sk_result = None\<rparr>]"
    "sd_attempt (reconnect_fired en now k st) = sd_attempt st"
    "sd_errors (reconnect_fired en now k st) = sd_errors st"
    "sd_monitors (reconnect_fired en now k st) = sd_monitors st"
    "sd_stream (reconnect_fired en now k st) = sd_stream st"
    "sd_ws (reconnect_fired en now k st) = Some (length (sd_sockets st))"
  using assms by (simp_all add: reconnect_fired_def connectInternal_def setState_def Let_def)

lemma stop_monitor_fields [simp]:
  "sd_state (stop_monitor st) = sd_state st" "sd_sockets (stop_monitor st) = sd_sockets st"
  "sd_attempt (stop_monitor st) = sd_attempt st" "sd_errors (stop_monitor st) = sd_errors st"
  "sd_stream (stop_monitor st) = sd_stream st" "sd_timers (stop_monitor st) = sd_timers st"
  "sd_credential (stop_monitor st) = sd_credential st" "sd_sent (stop_monitor st) = sd_sent st"
  "sd_lastSeenSeq (stop_monitor st) = sd_lastSeenSeq st" "sd_ws (stop_monitor st) = sd_ws st"
  "sd_tracker (stop_monitor st) = sd_tracker st"
  by (simp_all add: stop_monitor_def upd_monitor_def)

lemma upd_socket_fields [simp]:
  "sd_state (upd_socket i f st) = sd_state st" "sd_attempt (upd_socket i f st) = sd_attempt st"
  "sd_errors (upd_socket i f st) = sd_errors st" "sd_stream (upd_socket i f st) = sd_stream st"
  "sd_timers (upd_socket i f st) = sd_timers st" "length (sd_sockets (upd_socket i f st)) = length (sd_sockets st)"
  "sd_lastSeenSeq (upd_socket i f st) = sd_lastSeenSeq st" "sd_sent (upd_socket i f st) = sd_sent st"
  "sd_ws (upd_socket i f st) = sd_ws st" "sd_tracker (upd_socket i f st) = sd_tracker st"
  by (simp_all add: upd_socket_def)

lemma reject_all_fields [simp]:
  "sd_state (reject_all m st) = sd_state st" "sd_attempt (reject_all m st) = sd_attempt st"
  "sd_errors (reject_all m st) = sd_errors st" "sd_stream (reject_all m st) = sd_stream st"
  "sd_timers (reject_all m st) = sd_timers st" "sd_sockets (reject_all m st) = sd_sockets st"
  by (simp_all add: reject_all_def)

lemma attempt_result:
  assumes "rcf_enabled (hc_reconnect (he_config en))"
  shows "sd_state (attemptReconnect en now st) =
      (if rt_exhausted (hc_reconnect (he_config en)) (sd_attempt st) then HS_disconnected else HS_reconnecting)"
    "sd_attempt (attemptReconnect en now st) =
      (if rt_exhausted (hc_reconnect (he_config en)) (sd_attempt st) then sd_attempt st else sd_attempt st + 1)"
    "rt_exhausted (hc_reconnect (he_config en)) (sd_attempt st) \<Longrightarrow> es_done (sd_stream (attemptReconnect en now st))"
    "sd_errors (attemptReconnect en now st) = sd_errors st @
      (if rt_exhausted (hc_reconnect (he_config en)) (sd_attempt st)
       then [InternalError_create ''Max reconnection attempts exceeded'' None] else [])"
    "sd_timers (attemptReconnect en now st) = sd_timers st @
      (if rt_exhausted (hc_reconnect (he_config en)) (sd_attempt st) then []
       else [now + calculateDelay (he_draw en) (sd_attempt st) (hc_reconnect (he_config en))])"
  using assms by (auto simp: attemptReconnect_def sdk_parts nextDelay_def)

lemma failed_attempt_result:
  assumes "he_urlAccepted en" "rcf_enabled (hc_reconnect (he_config en))" "isRetryable code" "sd_state st = HS_reconnecting"
  shows "\<exists>st1. sd_attempt st1 = sd_attempt st \<and> sd_errors st1 = sd_errors st \<and>
     sd_state (failed_attempt en now code reason st) = sd_state (attemptReconnect en now st1) \<and>
     sd_attempt (failed_attempt en now code reason st) = sd_attempt (attemptReconnect en now st1) \<and>
     sd_errors (failed_attempt en now code reason st) = sd_errors (attemptReconnect en now st1) \<and>
     sd_timers (failed_attempt en now code reason st) = sd_timers (attemptReconnect en now st1) \<and>
     sd_stream (failed_attempt en now code reason st) = sd_stream (attemptReconnect en now st1)"
proof -
  let ?f = "reconnect_fired en now (length (sd_timers st) - 1) st"
  let ?i = "length (sd_sockets st)"
  let ?st1 = "reject_all ''Connection lost'' (auth_answered ?i (stop_monitor (upd_socket ?i (\<lambda>s. s\<lparr>sk_ready := Ready_closed\<rparr>) ?f)))"
  have "sd_attempt ?st1 = sd_attempt st" "sd_errors ?st1 = sd_errors st"
    using fired_connecting [OF assms(1,4)] by (simp_all add: auth_answered_def)
  then show ?thesis
    using fired_connecting [OF assms(1,4)] assms(3)
    by (intro exI [of _ ?st1]) (simp add: failed_attempt_def socket_closed_def Let_def)
qed

text \<open>A client that lost its connection keeps trying and then gives up: while attempts fail with codes
  that may be retried it has the next one scheduled, no later than the longest delay, until as
  many failed as the configuration allows; then it is disconnected, has reported the error and
  has ended its stream of events. Without a limit it never gives up.\<close>

theorem retries_end:
  assumes "he_urlAccepted en" "rcf_enabled (hc_reconnect (he_config en))" "isRetryable code"
    and "sd_state st = HS_reconnecting" "sd_attempt st = a"
    and "0 < rcf_baseDelayMs (hc_reconnect (he_config en))" "0 < rcf_maxDelayMs (hc_reconnect (he_config en))"
    and "\<And>n. 0 < n \<Longrightarrow> 0 \<le> he_draw en n \<and> he_draw en n < n"
  shows "let st' = failed_attempts en (nows @ [now]) code reason st; m = rcf_maxAttempts (hc_reconnect (he_config en))
    in if m = 0 \<or> a + length nows < m
       then sd_state st' = HS_reconnecting \<and> sd_attempt st' = a + length nows + 1 \<and>
         (case rev (sd_timers st') of [] \<Rightarrow> False
          | d # _ \<Rightarrow> now \<le> d \<and> d \<le> now + rcf_maxDelayMs (hc_reconnect (he_config en)))
       else if a + length nows = m
       then sd_state st' = HS_disconnected \<and> es_done (sd_stream st') \<and>
         sd_errors st' = sd_errors st @ [InternalError_create ''Max reconnection attempts exceeded'' None]
       else True"
  using assms(4,5)
proof (induction nows arbitrary: st a)
  case Nil
  note b = delay_bounds [OF assms(6,7,8)]
  show ?case
    using failed_attempt_result [OF assms(1-3) Nil(1), of now reason] attempt_result [OF assms(2)] Nil(2) b
    by (auto simp: Let_def rt_exhausted_def)
next
  case (Cons n nows)
  let ?st1 = "failed_attempt en n code reason st"
  let ?m = "rcf_maxAttempts (hc_reconnect (he_config en))"
  show ?case
  proof (cases "?m = 0 \<or> a < ?m")
    case True
    then have s1: "sd_state ?st1 = HS_reconnecting" "sd_attempt ?st1 = a + 1" "sd_errors ?st1 = sd_errors st"
      using failed_attempt_result [OF assms(1-3) Cons.prems(1), of n reason] attempt_result [OF assms(2)] Cons.prems(2)
      by (auto simp: rt_exhausted_def)
    show ?thesis using Cons.IH [OF s1(1,2)] s1(3) by (simp add: Let_def)
  next
    case False
    then show ?thesis by (simp add: Let_def)
  qed
qed

subsection \<open>A reconnection to the server's replay\<close>

definition frame_js :: "(signet_event \<Rightarrow> js_value) \<Rightarrow> sequenced_frame \<Rightarrow> js_value" where
  "frame_js enc f = VObj [(''seq'', VNum (of_nat (fr_seq f))), (''event'', enc (fr_event f))]"

definition deliver_frames :: "handler_env \<Rightarrow> int \<Rightarrow> (sequenced_frame \<Rightarrow> string) \<Rightarrow> sdk_state \<Rightarrow> sequenced_frame list \<Rightarrow> sdk_state" where
  "deliver_frames en now wire st frames = foldl (\<lambda>st f. handleFrame en now (wire f) st) st frames"

definition stream_events :: "sdk_state \<Rightarrow> js_value list" where
  "stream_events st = es_received (sd_stream st) @ es_buffer (sd_stream st)"

lemma handleFrame_event:
  "he_parse en (wire f) = Some (frame_js enc f) \<Longrightarrow> handleFrame en now (wire f) st = handle_event now (frame_js enc f) st"
  by (simp add: handleFrame_def frame_js_def js_member_def js_in_def)

lemma handle_event_result:
  assumes "es_ok (sd_stream st)" "\<not> es_done (sd_stream st)"
  shows "es_ok (sd_stream (handle_event now (frame_js enc f) st))" "\<not> es_done (sd_stream (handle_event now (frame_js enc f) st))"
    "stream_events (handle_event now (frame_js enc f) st) = stream_events st @ [enc (fr_event f)]"
    "sd_lastSeenSeq (handle_event now (frame_js enc f) st) = VNum (of_nat (fr_seq f))"
  using assms by (simp_all add: handle_event_def stream_events_def frame_js_def Let_def upd_monitor_def)

lemma deliver_result:
  assumes "es_ok (sd_stream st)" "\<not> es_done (sd_stream st)"
    and "\<And>f. f \<in> set frames \<Longrightarrow> he_parse en (wire f) = Some (frame_js enc f)"
  shows "stream_events (deliver_frames en now wire st frames) = stream_events st @ map (enc \<circ> fr_event) frames \<and>
    sd_lastSeenSeq (deliver_frames en now wire st frames) =
      (if frames = [] then sd_lastSeenSeq st else VNum (of_nat (fr_seq (last frames))))"
  using assms
proof (induction frames arbitrary: st)
  case Nil
  then show ?case by (simp add: deliver_frames_def)
next
  case (Cons f fs)
  note H = handle_event_result [OF Cons.prems(1,2), of now enc f]
  have step: "deliver_frames en now wire st (f # fs) = deliver_frames en now wire (handle_event now (frame_js enc f) st) fs"
    using Cons.prems(3) by (simp add: deliver_frames_def handleFrame_event)
  show ?case
    unfolding step using Cons.IH [OF H(1,2)] Cons.prems(3) H(3,4) by simp
qed

lemma events_numbered: "map fr_event (numbered k evs) = evs"
  by (induction evs arbitrary: k) (simp_all add: numbered_simps)

lemma numbered_Nil_iff [simp]: "numbered k es = [] \<longleftrightarrow> es = []"
  by (metis length_numbered length_0_conv)

lemma last_numbered: "evs \<noteq> [] \<Longrightarrow> fr_seq (last (numbered k evs)) = k + length evs - 1"
proof (induction evs arbitrary: k)
  case (Cons e es)
  then show ?case using Cons.IH [of "Suc k"] by (cases "es = []") (simp_all add: numbered_simps)
qed simp

lemma numbered_suffix: "set (numbered (Suc k) (drop k evs)) \<subseteq> set (numbered 1 evs)"
  using drop_numbered [of k 1 evs] set_drop_subset [of k "numbered 1 evs"] by simp

text \<open>C25: When a client received the first \<open>k\<close> events of its credential and asks for what followed, the
  frames the server replays, handed over after the authentication, bring what reached its consumer
  to all events, in order, each once, and under the number that the next reconnection asks from.
  When the server's buffer no longer holds them all, it announces a recovery and replays nothing:
  what was missed is then not delivered.\<close>

theorem resume_complete:
  assumes "0 < n" "k \<le> length evs" "es_ok (sd_stream st)" "\<not> es_done (sd_stream st)"
    and "stream_events st = map enc (take k evs)" "sd_lastSeenSeq st = VNum (of_nat k)"
    and "\<And>f. f \<in> set (numbered 1 evs) \<Longrightarrow> he_parse en (wire f) = Some (frame_js enc f)"
  shows "let plan = resume_plan_for (sequence_all (new_replay_state n) evs) (Some k);
             st' = deliver_frames en now wire st (rs_replayFrames plan)
    in rs_needsRecovery plan = (k + n < length evs) \<and>
       (if k + n < length evs then st' = st
        else stream_events st' = map enc evs \<and> sd_lastSeenSeq st' = VNum (of_nat (length evs)))"
proof (cases "k + n < length evs")
  case True
  then show ?thesis using assms(1) by (simp add: replay_exact deliver_frames_def)
next
  case False
  let ?fs = "numbered (Suc k) (drop k evs)"
  have D: "stream_events (deliver_frames en now wire st ?fs) = stream_events st @ map (enc \<circ> fr_event) ?fs \<and>
      sd_lastSeenSeq (deliver_frames en now wire st ?fs) =
        (if ?fs = [] then sd_lastSeenSeq st else VNum (of_nat (fr_seq (last ?fs))))"
    using numbered_suffix [of k evs] assms(7) by (intro deliver_result [OF assms(3,4)]) auto
  have "map (enc \<circ> fr_event) ?fs = map enc (drop k evs)"
    by (simp add: events_numbered flip: map_map)
  then have "stream_events (deliver_frames en now wire st ?fs) = map enc evs"
    using D assms(5) by (metis append_take_drop_id map_append)
  moreover have "sd_lastSeenSeq (deliver_frames en now wire st ?fs) = VNum (of_nat (length evs))"
  proof (cases "k = length evs")
    case True
    then show ?thesis using D assms(6) by (simp add: numbered_simps)
  next
    case k: False
    then have "drop k evs \<noteq> []" using assms(2) by simp
    then show ?thesis using D last_numbered [of "drop k evs" "Suc k"] assms(2) by simp
  qed
  ultimately show ?thesis using False assms(1) by (simp add: replay_exact)
qed

subsection \<open>Sample runs\<close>

definition sample_handler_config :: handler_config where
  "sample_handler_config =
     \<lparr>hc_url = ''ws://localhost'', hc_token = ''t'',
      hc_reconnect = \<lparr>rcf_enabled = True, rcf_maxAttempts = 1, rcf_baseDelayMs = 1000, rcf_maxDelayMs = 30000, rcf_jitter = False\<rparr>,
      hc_requestTimeoutMs = 30000\<rparr>"

definition sample_authenticated :: js_value where
  "sample_authenticated = VObj [(''type'', VStr ''authenticated''), (''connectionId'', VStr ''c''),
     (''credential'', VObj [(''credentialId'', VStr ''cred_1''), (''operatorId'', VStr ''op_1''), (''expiresAt'', VStr ''later'')]),
     (''effectiveScopes'', VObj [])]"

definition sample_events :: "signet_event list" where
  "sample_events = [Ev_heartbeat ''c'' 1, Ev_heartbeat ''c'' 2]"

definition sample_enc :: "signet_event \<Rightarrow> js_value" where
  "sample_enc e = (case e of Ev_heartbeat c t \<Rightarrow> VObj [(''type'', VStr ''heartbeat''), (''timestamp'', VNum (of_int t))] | _ \<Rightarrow> VNull)"

definition sample_wire :: "sequenced_frame \<Rightarrow> string" where
  "sample_wire f = replicate (fr_seq f) (CHR ''x'')"

definition sample_handler_env :: handler_env where
  "sample_handler_env =
     \<lparr>he_config = sample_handler_config,
      he_parse = (\<lambda>s. if s = ''ok'' then Some sample_authenticated
                      else if s = ''x'' then Some (frame_js sample_enc \<lparr>fr_seq = 1, fr_event = Ev_heartbeat ''c'' 1\<rparr>)
                      else if s = ''xx'' then Some (frame_js sample_enc \<lparr>fr_seq = 2, fr_event = Ev_heartbeat ''c'' 2\<rparr>)
                      else None),
      he_numText = (\<lambda>_. []), he_draw = (\<lambda>_. 0), he_urlAccepted = True\<rparr>"

fun sdk_after :: "handler_env \<Rightarrow> (int \<times> sdk_input) list \<Rightarrow> sdk_state \<Rightarrow> sdk_state" where
  "sdk_after en [] st = st"
| "sdk_after en ((now, inp) # rest) st = sdk_after en rest (sdk_apply en now inp st)"

fun sdk_can :: "handler_env \<Rightarrow> (int \<times> sdk_input) list \<Rightarrow> sdk_state \<Rightarrow> bool" where
  "sdk_can en [] st = True"
| "sdk_can en ((now, inp) # rest) st = (sdk_enabled now st inp \<and> sdk_can en rest (sdk_apply en now inp st))"

lemma reachable_after: "sdk_reachable en st \<Longrightarrow> sdk_can en inps st \<Longrightarrow> sdk_reachable en (sdk_after en inps st)"
  by (induction en inps st rule: sdk_after.induct) (auto intro: sdk_step)

lemmas sdk_eval = sdk_enabled_def sdk_connect_def connectInternal_def socket_opened_def sdk_socket_message_def
  authenticated_received_def auth_answered_def handleFrame_def handle_event_def socket_closed_def sdk_disconnect_def
  reconnect_fired_def attemptReconnect_def nextDelay_def calculateDelay_def rt_exhausted_def sdk_sendRequest_def
  setState_def emitError_def complete_stream_def reject_all_def upd_socket_def ws_close_def sk_resolve_def
  upd_monitor_def stop_monitor_def createSignetHandler_def createEventStream_def createRequestTracker_def
  sample_handler_env_def sample_handler_config_def sample_authenticated_def js_member_def Let_def
  isRetryable_def NON_RETRYABLE_CODES_def tr_rejectAll_def hm_stop_def hm_start_def hm_resetTimer_def
  createHeartbeatMonitor_def es_complete_def map_values_def auth_timeout_def

definition sample_login :: "(int \<times> sdk_input) list" where
  "sample_login = [(0, In_connect), (0, In_open 0), (0, In_message 0 ''ok'')]"

definition sample_client :: sdk_state where
  "sample_client = sdk_after sample_handler_env sample_login createSignetHandler"

lemma sample_client_state:
  "sd_state sample_client = HS_connected" "sd_ws sample_client = Some 0" "length (sd_sockets sample_client) = 1"
  "sd_attempt sample_client = 0" "sd_errors sample_client = []" "sd_lastSeenSeq sample_client = VNull"
  "sd_stream sample_client = createEventStream" "sd_tracker sample_client = createRequestTracker"
  "sk_authHandled (sd_sockets sample_client ! 0)" "sk_ready (sd_sockets sample_client ! 0) = Ready_open"
  by (simp_all add: sample_client_def sample_login_def sdk_eval)

lemma sample_client_reachable: "sdk_reachable sample_handler_env sample_client"
  unfolding sample_client_def
  by (rule reachable_after [OF sdk_start]) (simp add: sample_login_def sdk_eval)

text \<open>
  A client that is disconnected while it authenticates connects again by itself: the close of its
  socket is taken for a connection lost while authenticating.
\<close>

definition sample_disconnect_early :: "(int \<times> sdk_input) list" where
  "sample_disconnect_early = [(0, In_connect), (0, In_open 0), (0, In_disconnect), (0, In_close 0 1000 ''Client disconnect''),
     (1000, In_reconnect 0), (1000, In_open 1), (1000, In_message 1 ''ok'')]"

lemma disconnected_client_reconnects:
  "sdk_can sample_handler_env sample_disconnect_early createSignetHandler \<and>
   sd_state (sdk_after sample_handler_env sample_disconnect_early createSignetHandler) = HS_connected"
  by (simp add: sample_disconnect_early_def sdk_eval)

text \<open>When the server stays silent while the client authenticates, the stream of events never ends.\<close>

lemma silent_server_leaves_stream_open:
  "let inps = [(0, In_connect), (0, In_next), (0, In_open 0), (30000, In_auth_timeout 0), (30000, In_close 0 4000 ''Auth timeout'')];
       st = sdk_after sample_handler_env inps createSignetHandler
   in sdk_can sample_handler_env inps createSignetHandler \<and> sd_state st = HS_closed \<and>
      \<not> es_done (sd_stream st) \<and> es_waiter (sd_stream st) = Some 0"
  by (simp add: sdk_eval es_next_def)

text \<open>An event that arrives before the answer to the authentication is dropped.\<close>

lemma early_event_dropped:
  "\<not> sk_authHandled (sd_sockets st ! i) \<Longrightarrow> he_parse en raw = Some (frame_js enc f) \<Longrightarrow> sdk_socket_message en now i raw st = st"
  by (simp add: sdk_socket_message_def frame_js_def js_member_def)

theorem client_invariant_witness:
  "length (filter (\<lambda>s. sk_ready s \<noteq> Ready_closed) (sd_sockets sample_client)) \<le> 1 \<and> sd_credential sample_client \<noteq> None"
  using client_invariant [OF _ sample_client_reachable] sample_client_state(1) by (simp add: sample_handler_env_def)

theorem requests_end_witness:
  "let tr = fire_due 30000 30000 (sd_tracker (sdk_apply sample_handler_env 0 (In_request ''r1'' []) sample_client))
   in set (map fst (tr_answers tr)) = {0} \<and>
      map fst (tr_answers (sd_tracker (socket_closed sample_handler_env 7 0 1006 []
        (sdk_apply sample_handler_env 0 (In_request ''r1'' []) sample_client)))) = [0]"
proof -
  let ?st = "sdk_apply sample_handler_env 0 (In_request ''r1'' []) sample_client"
  have r: "sdk_reachable sample_handler_env ?st"
    by (rule sdk_step [OF sample_client_reachable, of 0]) (simp add: sdk_enabled_def)
  have t: "tr_timers (sd_tracker ?st) = [\<lparr>rt_call = 0, rt_id = ''r1'', rt_deadline = 30000\<rparr>]" "tr_calls (sd_tracker ?st) = 1"
    using sample_client_state
    by (simp_all add: sdk_sendRequest_def tr_track_def createRequestTracker_def sample_handler_env_def sample_handler_config_def)
  have w: "tr_pending (sd_tracker ?st) = [(''r1'', 0)]" "tr_answers (sd_tracker ?st) = []"
      "sdk_enabled 7 ?st (In_close 0 1006 [])"
    by (simp_all add: sample_client_def sample_login_def sdk_eval tr_track_def map_set_def)
  show ?thesis
    using requests_end [OF _ r, of 30000 30000 7 0 1006 "[]"] t w
    by (simp add: sample_handler_env_def Let_def lessThan_Suc failed_waiting_def map_values_def)
qed

theorem disconnect_final_witness:
  "sd_state (sdk_apply sample_handler_env 5 (In_close 0 1000 []) (sdk_disconnect sample_client)) = HS_closed"
proof -
  have "sdk_enabled 5 (sdk_disconnect sample_client) (In_close 0 1000 [])"
    by (simp add: sample_client_def sample_login_def sdk_eval)
  then have "sdk_run sample_handler_env (sdk_disconnect sample_client)
      (sdk_apply sample_handler_env 5 (In_close 0 1000 []) (sdk_disconnect sample_client))"
    by (rule run_step [OF run_refl])
  then show ?thesis
    using disconnect_final [OF _ sample_client_reachable sample_client_state(1)] by (simp add: sample_handler_env_def)
qed

theorem retries_end_witness:
  "let lost = sdk_apply sample_handler_env 0 (In_close 0 1006 []) sample_client
   in sd_state (failed_attempts sample_handler_env ([] @ [1000]) 1006 [] lost) = HS_disconnected"
proof -
  let ?lost = "sdk_apply sample_handler_env 0 (In_close 0 1006 []) sample_client"
  have s: "sd_state ?lost = HS_reconnecting" "sd_attempt ?lost = 1"
    by (simp_all add: sample_client_def sample_login_def sdk_eval)
  have r: "isRetryable 1006" by (simp add: isRetryable_def NON_RETRYABLE_CODES_def)
  show ?thesis
    using retries_end [OF _ _ r s, where nows = "[]" and now = 1000 and reason = "[]"]
    by (simp add: sample_handler_env_def sample_handler_config_def Let_def)
qed

theorem resume_complete_witness:
  "let st = deliver_frames sample_handler_env 0 sample_wire sample_client [\<lparr>fr_seq = 1, fr_event = Ev_heartbeat ''c'' 1\<rparr>];
       plan = resume_plan_for (sequence_all (new_replay_state 4) sample_events) (Some 1)
   in stream_events (deliver_frames sample_handler_env 0 sample_wire st (rs_replayFrames plan)) = map sample_enc sample_events"
proof -
  let ?f = "\<lparr>fr_seq = 1, fr_event = Ev_heartbeat ''c'' 1\<rparr>"
  let ?st = "deliver_frames sample_handler_env 0 sample_wire sample_client [?f]"
  have p: "he_parse sample_handler_env (sample_wire f) = Some (frame_js sample_enc f)" if "f \<in> set (numbered 1 sample_events)" for f
    using that by (auto simp: sample_events_def numbered_simps sample_handler_env_def sample_wire_def numeral_2_eq_2)
  have s: "es_ok (sd_stream sample_client)" "\<not> es_done (sd_stream sample_client)" "stream_events sample_client = []"
    using sample_client_state by (simp_all add: stream_events_def) (simp_all add: createEventStream_def es_received_def)
  have f: "handleFrame sample_handler_env 0 (sample_wire ?f) sample_client = handle_event 0 (frame_js sample_enc ?f) sample_client"
    by (rule handleFrame_event, rule p) (simp add: sample_events_def numbered_simps)
  note H = handle_event_result [OF s(1,2), of 0 sample_enc ?f]
  show ?thesis
    using resume_complete [of 4 1 sample_events ?st sample_enc sample_handler_env sample_wire 0] H s(3) f p
    by (simp add: deliver_frames_def sample_events_def Let_def)
qed

end
