(* ===== verification/ActionSpecs.thy ===== *)
theory ActionSpecs
  imports SealTypes JsValues
begin

text \<open>
  Action specifications and their registry (\<^verbatim>\<open>packages/contracts/src/\<close>: \<^verbatim>\<open>action-spec.ts\<close>,
  \<^verbatim>\<open>action-derive.ts\<close>, \<^verbatim>\<open>action-validate.ts\<close>, \<^verbatim>\<open>action-registry.ts\<close>, \<^verbatim>\<open>action-surface-map.ts\<close>)
  and the HTTP routes derived from them (\<^verbatim>\<open>packages/cli/src/http/action-routes.ts\<close>). The handler with its
  schemas is a value the specification carries and nothing here looks into; \<open>JSON.stringify\<close>,
  \<open>localeCompare\<close> and SHA-256 are parameters.
\<close>

subsection \<open>Specifications\<close>

datatype action_surface = Sf_cli | Sf_mcp | Sf_http
datatype action_intent = In_read | In_write | In_destroy
datatype http_method = M_GET | M_POST | M_DELETE
datatype http_auth = Auth_admin | Auth_credential

definition ACTION_SURFACES :: "action_surface list" where
  "ACTION_SURFACES = [Sf_cli, Sf_mcp, Sf_http]"

fun surface_name :: "action_surface \<Rightarrow> string" where
  "surface_name Sf_cli = ''cli''"
| "surface_name Sf_mcp = ''mcp''"
| "surface_name Sf_http = ''http''"

fun intent_name :: "action_intent \<Rightarrow> string" where
  "intent_name In_read = ''read''"
| "intent_name In_write = ''write''"
| "intent_name In_destroy = ''destroy''"

fun method_name :: "http_method \<Rightarrow> string" where
  "method_name M_GET = ''GET''"
| "method_name M_POST = ''POST''"
| "method_name M_DELETE = ''DELETE''"

fun auth_name :: "http_auth \<Rightarrow> string" where
  "auth_name Auth_admin = ''admin''"
| "auth_name Auth_credential = ''credential''"

record cli_surface =
  cl_command :: "string option"
  cl_aliases :: "string list option"
  cl_outputFormat :: "string option"
  cl_group :: "string option"

record mcp_surface =
  mp_toolName :: "string option"
  mp_annotations :: "(string, js_value) js_map option"

record http_surface =
  hs_path :: "string option"
  hs_method :: "http_method option"
  hs_auth :: "http_auth option"
  hs_expose :: "bool option"

record action_example =
  ex_name :: string
  ex_description :: "string option"
  ex_input :: js_value
  ex_expected :: "js_value option"
  ex_error :: "string option"

record 'h action_spec =
  as_id :: string
  as_handler :: 'h
  as_description :: "string option"
  as_examples :: "action_example list option"
  as_intent :: "action_intent option"
  as_idempotent :: "bool option"
  as_cli :: "cli_surface option"
  as_mcp :: "mcp_surface option"
  as_http :: "http_surface option"

subsection \<open>Derivation\<close>

definition DEFAULT_HTTP_BASE_PATH :: string where
  "DEFAULT_HTTP_BASE_PATH = ''/v1/actions''"

definition dots_to :: "char \<Rightarrow> string \<Rightarrow> string" where
  "dots_to d s = map (\<lambda>c. if c = CHR ''.'' then d else c) s"

definition with_leading_slash :: "string \<Rightarrow> string" where
  "with_leading_slash s = (if starts_with s ''/'' then s else CHR ''/'' # s)"

definition normalizeBasePath :: "string \<Rightarrow> string" where
  "normalizeBasePath basePath =
     (let trimmed = js_trim basePath
      in if trimmed = [] \<or> trimmed = ''/'' then []
         else rev (dropWhile (\<lambda>c. c = CHR ''/'') (rev (with_leading_slash trimmed))))"

text \<open>The replacement of every run of two or more slashes by one.\<close>

fun collapse_slashes :: "string \<Rightarrow> string" where
  "collapse_slashes (c # d # s) =
     (if c = CHR ''/'' \<and> d = CHR ''/'' then collapse_slashes (d # s) else c # collapse_slashes (d # s))"
| "collapse_slashes s = s"

definition normalizePath :: "string \<Rightarrow> string" where
  "normalizePath path =
     (let trimmed = js_trim path
      in if trimmed = [] then ''/'' else collapse_slashes (with_leading_slash trimmed))"

definition deriveCliCommand :: "'h action_spec \<Rightarrow> string" where
  "deriveCliCommand spec =
     nullish (Option.bind (as_cli spec) cl_command) (dots_to (CHR '':'') (as_id spec))"

definition deriveRpcMethod :: "'h action_spec \<Rightarrow> string" where
  "deriveRpcMethod spec = as_id spec"

definition deriveStandardMcpAnnotations :: "'h action_spec \<Rightarrow> (string, js_value) js_map" where
  "deriveStandardMcpAnnotations spec =
     (let intent = nullish (as_intent spec) In_write
      in (if intent = In_read then [(''readOnlyHint'', VBool True)] else []) @
         (if intent = In_destroy then [(''destructiveHint'', VBool True)] else []) @
         (if as_idempotent spec = Some True then [(''idempotentHint'', VBool True)] else []) @
         (case as_description spec of None \<Rightarrow> [] | Some d \<Rightarrow> [(''title'', VStr d)]))"

definition deriveMcpToolName :: "'h action_spec \<Rightarrow> string \<Rightarrow> string" where
  "deriveMcpToolName spec prefix =
     nullish (Option.bind (as_mcp spec) mp_toolName) (prefix @ ''/'' @ dots_to (CHR ''/'') (as_id spec))"

definition deriveMcpAnnotations :: "'h action_spec \<Rightarrow> (string, js_value) js_map" where
  "deriveMcpAnnotations spec =
     obj_spread (nullish (Option.bind (as_mcp spec) mp_annotations) []) (deriveStandardMcpAnnotations spec)"

definition deriveHttpMethod :: "'h action_spec \<Rightarrow> http_method" where
  "deriveHttpMethod spec =
     (case Option.bind (as_http spec) hs_method of
        Some m \<Rightarrow> m
      | None \<Rightarrow> if as_intent spec = Some In_read then M_GET else M_POST)"

definition deriveHttpPath :: "'h action_spec \<Rightarrow> string \<Rightarrow> string" where
  "deriveHttpPath spec basePath =
     (case Option.bind (as_http spec) hs_path of
        Some p \<Rightarrow> normalizePath p
      | None \<Rightarrow> normalizePath (normalizeBasePath basePath @ ''/'' @ dots_to (CHR ''/'') (as_id spec)))"

datatype http_input_source = Src_query | Src_body

definition deriveHttpInputSource :: "http_method \<Rightarrow> http_input_source" where
  "deriveHttpInputSource m = (if m = M_GET then Src_query else Src_body)"

fun source_name :: "http_input_source \<Rightarrow> string" where
  "source_name Src_query = ''query''"
| "source_name Src_body = ''body''"

text \<open>The path with the default base path, as every caller of the program derives it.\<close>

abbreviation httpPath :: "'h action_spec \<Rightarrow> string" where
  "httpPath spec \<equiv> deriveHttpPath spec DEFAULT_HTTP_BASE_PATH"

subsection \<open>Validation\<close>

record contract_issue =
  ci_actionId :: string
  ci_rule :: string
  ci_message :: string
  ci_surface :: string

definition isHttpExposed :: "'h action_spec \<Rightarrow> bool" where
  "isHttpExposed spec =
     (case as_http spec of None \<Rightarrow> False | Some h \<Rightarrow> hs_expose h \<noteq> Some False)"

definition RESERVED_HTTP_ROUTE_PREFIXES :: "string list" where
  "RESERVED_HTTP_ROUTE_PREFIXES = [''/v1/admin/'', ''/v1/credential/'']"

definition RESERVED_HTTP_ROUTE_PATHS :: "string list" where
  "RESERVED_HTTP_ROUTE_PATHS = [''/v1/health'']"

fun unique_ids_from :: "string list \<Rightarrow> 'h action_spec list \<Rightarrow> contract_issue list" where
  "unique_ids_from seen [] = []"
| "unique_ids_from seen (spec # specs) =
     (if as_id spec \<in> set seen
      then \<lparr>ci_actionId = as_id spec, ci_rule = ''unique-action-id'',
             ci_message = ''Action '' @ quoted (as_id spec) @ '' is registered more than once'',
             ci_surface = ''registry''\<rparr> # unique_ids_from seen specs
      else unique_ids_from (set_add seen (as_id spec)) specs)"

definition validateUniqueIds :: "'h action_spec list \<Rightarrow> contract_issue list" where
  "validateUniqueIds specs = unique_ids_from [] specs"

definition auth_issues :: "'h action_spec \<Rightarrow> contract_issue list" where
  "auth_issues spec =
     (if isHttpExposed spec \<and> Option.bind (as_http spec) hs_auth = None
      then [\<lparr>ci_actionId = as_id spec, ci_rule = ''http-auth-required'',
              ci_message = ''HTTP-exposed action '' @ quoted (as_id spec) @ '' must declare http.auth'',
              ci_surface = ''http''\<rparr>]
      else [])"

definition validateHttpAuth :: "'h action_spec list \<Rightarrow> contract_issue list" where
  "validateHttpAuth specs = concat (map auth_issues specs)"

definition route_key :: "'h action_spec \<Rightarrow> string" where
  "route_key spec = method_name (deriveHttpMethod spec) @ '' '' @ httpPath spec"

fun unique_routes_from :: "(string, string) js_map \<Rightarrow> 'h action_spec list \<Rightarrow> contract_issue list" where
  "unique_routes_from seen [] = []"
| "unique_routes_from seen (spec # specs) =
     (if \<not> isHttpExposed spec then unique_routes_from seen specs
      else case map_get seen (route_key spec) of
        Some existingId \<Rightarrow>
          \<lparr>ci_actionId = as_id spec, ci_rule = ''unique-http-route'',
           ci_message = ''Action '' @ quoted (as_id spec) @ '' collides with '' @ quoted existingId @
             '' on derived route '' @ method_name (deriveHttpMethod spec) @ '' '' @ httpPath spec,
           ci_surface = ''http''\<rparr> # unique_routes_from seen specs
      | None \<Rightarrow> unique_routes_from (map_set seen (route_key spec) (as_id spec)) specs)"

definition validateUniqueHttpRoutes :: "'h action_spec list \<Rightarrow> contract_issue list" where
  "validateUniqueHttpRoutes specs = unique_routes_from [] specs"

definition reserved_issues :: "'h action_spec \<Rightarrow> contract_issue list" where
  "reserved_issues spec =
     (if \<not> isHttpExposed spec then []
      else let path = httpPath spec;
               collidesWithPrefix = List.find (\<lambda>p. starts_with path p) RESERVED_HTTP_ROUTE_PREFIXES;
               collidesWithExactPath = path \<in> set RESERVED_HTTP_ROUTE_PATHS
        in if collidesWithPrefix = None \<and> \<not> collidesWithExactPath then []
           else [\<lparr>ci_actionId = as_id spec, ci_rule = ''reserved-http-route'',
                   ci_message = (case collidesWithPrefix of
                       Some p \<Rightarrow> ''Action '' @ quoted (as_id spec) @ '' derives reserved HTTP path '' @ quoted path @
                         '' under '' @ quoted p
                     | None \<Rightarrow> ''Action '' @ quoted (as_id spec) @ '' derives reserved HTTP path '' @ quoted path),
                   ci_surface = ''http''\<rparr>])"

definition validateReservedHttpRoutes :: "'h action_spec list \<Rightarrow> contract_issue list" where
  "validateReservedHttpRoutes specs = concat (map reserved_issues specs)"

definition STANDARD_MCP_ANNOTATION_KEYS :: "string list" where
  "STANDARD_MCP_ANNOTATION_KEYS = [''readOnlyHint'', ''destructiveHint'', ''idempotentHint'', ''title'']"

definition STANDARD_BOOLEAN_MCP_ANNOTATION_KEYS :: "string list" where
  "STANDARD_BOOLEAN_MCP_ANNOTATION_KEYS = [''readOnlyHint'', ''destructiveHint'', ''idempotentHint'']"

text \<open>An authored object or array is never identical to a derived value, which is a truth value, a
  text or missing; so the comparison by identity is equality here.\<close>

definition annotation_issue ::
  "(js_value \<Rightarrow> string) \<Rightarrow> 'h action_spec \<Rightarrow> (string, js_value) js_map \<Rightarrow> string \<Rightarrow> contract_issue list" where
  "annotation_issue stringify spec authored key =
     (case map_get authored key of
        None \<Rightarrow> []
      | Some authoredValue \<Rightarrow>
          let derivedValue = nullish (map_get (deriveStandardMcpAnnotations spec) key) VUndefined
          in if key \<in> set STANDARD_BOOLEAN_MCP_ANNOTATION_KEYS \<and> authoredValue = VBool False \<and>
                derivedValue = VUndefined then []
             else if authoredValue \<noteq> derivedValue
             then [\<lparr>ci_actionId = as_id spec, ci_rule = ''mcp-annotation-consistency'',
                     ci_message = ''Action '' @ quoted (as_id spec) @ '' authors MCP annotation '' @ quoted key @
                       '' as '' @ stringify authoredValue @ '', but the derived value is '' @ stringify derivedValue,
                     ci_surface = ''mcp''\<rparr>]
             else [])"

definition annotation_issues :: "(js_value \<Rightarrow> string) \<Rightarrow> 'h action_spec \<Rightarrow> contract_issue list" where
  "annotation_issues stringify spec =
     (case Option.bind (as_mcp spec) mp_annotations of
        None \<Rightarrow> []
      | Some authored \<Rightarrow> concat (map (annotation_issue stringify spec authored) STANDARD_MCP_ANNOTATION_KEYS))"

definition validateMcpAnnotations ::
  "(js_value \<Rightarrow> string) \<Rightarrow> 'h action_spec list \<Rightarrow> contract_issue list" where
  "validateMcpAnnotations stringify specs = concat (map (annotation_issues stringify) specs)"

definition issue_js :: "contract_issue \<Rightarrow> js_value" where
  "issue_js i = VObj [(''actionId'', VStr (ci_actionId i)), (''message'', VStr (ci_message i)),
     (''rule'', VStr (ci_rule i)), (''surface'', VStr (ci_surface i))]"

definition contract_issues :: "(js_value \<Rightarrow> string) \<Rightarrow> 'h action_spec list \<Rightarrow> contract_issue list" where
  "contract_issues stringify specs =
     validateUniqueIds specs @ validateHttpAuth specs @ validateUniqueHttpRoutes specs @
     validateReservedHttpRoutes specs @ validateMcpAnnotations stringify specs"

definition validateActionSpecs ::
  "(js_value \<Rightarrow> string) \<Rightarrow> 'h action_spec list \<Rightarrow> (unit, signet_error) result" where
  "validateActionSpecs stringify specs =
     (let issues = contract_issues stringify specs
      in if issues = [] then Ok ()
         else Err (ValidationError_create ''actionRegistry'' ''Action contract validation failed''
                [(''issues'', VArr (map issue_js issues))]))"

subsection \<open>The registry\<close>

type_synonym 'h registry = "(string, 'h action_spec) js_map"

datatype registration = Registered | Throws_Error string | Throws_Signet signet_error

definition createActionRegistry :: "'h registry" where
  "createActionRegistry = []"

definition register ::
  "(js_value \<Rightarrow> string) \<Rightarrow> 'h action_spec \<Rightarrow> 'h registry \<Rightarrow> registration \<times> 'h registry" where
  "register stringify spec specs =
     (if map_get specs (as_id spec) \<noteq> None
      then (Throws_Error (''Action '' @ quoted (as_id spec) @ '' is already registered''), specs)
      else case validateActionSpecs stringify (map_values specs @ [spec]) of
        Err e \<Rightarrow> (Throws_Signet e, specs)
      | Ok _ \<Rightarrow> (Registered, map_set specs (as_id spec) spec))"

definition registry_lookup :: "'h registry \<Rightarrow> string \<Rightarrow> 'h action_spec option" where
  "registry_lookup specs actionId = map_get specs actionId"

definition registry_list :: "'h registry \<Rightarrow> 'h action_spec list" where
  "registry_list specs = map_values specs"

fun has_surface :: "'h action_spec \<Rightarrow> action_surface \<Rightarrow> bool" where
  "has_surface spec Sf_cli = (as_cli spec \<noteq> None)"
| "has_surface spec Sf_mcp = (as_mcp spec \<noteq> None)"
| "has_surface spec Sf_http = (as_http spec \<noteq> None)"

definition listForSurface :: "'h registry \<Rightarrow> action_surface \<Rightarrow> 'h action_spec list" where
  "listForSurface specs surface =
     (if surface \<notin> set ACTION_SURFACES then []
      else filter (\<lambda>spec. has_surface spec surface) (map_values specs))"

definition registry_validate :: "(js_value \<Rightarrow> string) \<Rightarrow> 'h registry \<Rightarrow> (unit, signet_error) result" where
  "registry_validate stringify specs = validateActionSpecs stringify (map_values specs)"

definition register_all :: "(js_value \<Rightarrow> string) \<Rightarrow> 'h action_spec list \<Rightarrow> 'h registry \<Rightarrow> 'h registry" where
  "register_all stringify ss reg = foldl (\<lambda>r s. snd (register stringify s r)) reg ss"

subsection \<open>HTTP routes\<close>

record 'h http_route =
  ro_actionId :: string
  ro_auth :: "http_auth option"
  ro_inputSource :: http_input_source
  ro_method :: http_method
  ro_path :: string
  ro_spec :: "'h action_spec"

definition route_of :: "'h action_spec \<Rightarrow> 'h http_route" where
  "route_of spec =
     \<lparr>ro_actionId = as_id spec, ro_auth = Option.bind (as_http spec) hs_auth,
      ro_inputSource = deriveHttpInputSource (deriveHttpMethod spec), ro_method = deriveHttpMethod spec,
      ro_path = httpPath spec, ro_spec = spec\<rparr>"

definition buildHttpActionRoutes ::
  "(js_value \<Rightarrow> string) \<Rightarrow> 'h registry \<Rightarrow> ('h http_route list, signet_error) result" where
  "buildHttpActionRoutes stringify reg =
     (case registry_validate stringify reg of
        Err e \<Rightarrow> Err e
      | Ok _ \<Rightarrow> Ok (map route_of (filter isHttpExposed (listForSurface reg Sf_http))))"

definition matchHttpActionRoute :: "'h http_route list \<Rightarrow> string \<Rightarrow> string \<Rightarrow> 'h http_route option" where
  "matchHttpActionRoute routes m path =
     List.find (\<lambda>route. method_name (ro_method route) = m \<and> ro_path route = path) routes"

subsection \<open>The surface map\<close>

record surface_engine =
  sfe_stringify :: "js_value \<Rightarrow> string"
  sfe_localeLe :: "string \<Rightarrow> string \<Rightarrow> bool"
  sfe_sha256 :: "string \<Rightarrow> string"

fun isSurfaceExposed :: "'h action_spec \<Rightarrow> action_surface \<Rightarrow> bool" where
  "isSurfaceExposed spec Sf_http = isHttpExposed spec"
| "isSurfaceExposed spec s = has_surface spec s"

definition getSurfaces :: "'h action_spec \<Rightarrow> string list" where
  "getSurfaces spec = js_sort code_le (map surface_name (filter (isSurfaceExposed spec) ACTION_SURFACES))"

definition opt_texts :: "string list option \<Rightarrow> js_value" where
  "opt_texts v = (case v of None \<Rightarrow> VUndefined | Some ss \<Rightarrow> VArr (map VStr ss))"

text \<open>The prefix of tool names is left at its default.\<close>

definition toEntry :: "'h action_spec \<Rightarrow> js_value" where
  "toEntry spec = sortKeys (VObj (
     [(''exampleCount'', VNum (of_nat (length (nullish (as_examples spec) [])))), (''id'', VStr (as_id spec)),
      (''intent'', VStr (intent_name (nullish (as_intent spec) In_write))),
      (''surfaces'', VArr (map VStr (getSurfaces spec)))] @
     (case as_description spec of None \<Rightarrow> [] | Some d \<Rightarrow> [(''description'', VStr d)]) @
     (if as_idempotent spec = Some True then [(''idempotent'', VBool True)] else []) @
     (case as_cli spec of None \<Rightarrow> [] | Some c \<Rightarrow>
        [(''cli'', sortKeys (VObj [(''command'', VStr (deriveCliCommand spec)),
           (''rpcMethod'', VStr (deriveRpcMethod spec)), (''aliases'', opt_texts (cl_aliases c)),
           (''outputFormat'', v_opt_str (cl_outputFormat c)), (''group'', v_opt_str (cl_group c))]))]) @
     (case as_mcp spec of None \<Rightarrow> [] | Some _ \<Rightarrow>
        [(''mcp'', sortKeys (VObj [(''toolName'', VStr (deriveMcpToolName spec ''signet'')),
           (''annotations'', VObj (deriveMcpAnnotations spec))]))]) @
     (case as_http spec of None \<Rightarrow> [] | Some h \<Rightarrow>
        if hs_expose h = Some False then []
        else let m = deriveHttpMethod spec in
        [(''http'', sortKeys (VObj [(''method'', VStr (method_name m)), (''path'', VStr (httpPath spec)),
           (''inputSource'', VStr (source_name (deriveHttpInputSource m))),
           (''auth'', v_opt_str (map_option auth_name (hs_auth h)))]))])))"

record surface_map =
  sm_version :: string
  sm_generatedAt :: string
  sm_entries :: "js_value list"

definition entry_id :: "js_value \<Rightarrow> string" where
  "entry_id e = nullish (as_str (js_get e ''id'')) []"

definition generateActionSurfaceMap :: "surface_engine \<Rightarrow> string \<Rightarrow> 'h action_spec list \<Rightarrow> surface_map" where
  "generateActionSurfaceMap en nowText specs =
     \<lparr>sm_version = ''1.0'', sm_generatedAt = nowText,
      sm_entries = js_sort (\<lambda>a b. sfe_localeLe en (entry_id a) (entry_id b)) (map toEntry specs)\<rparr>"

definition hashActionSurfaceMap :: "surface_engine \<Rightarrow> surface_map \<Rightarrow> string" where
  "hashActionSurfaceMap en m =
     sfe_sha256 en (sfe_stringify en (sortKeys (VObj [(''version'', VStr (sm_version m)),
       (''entries'', VArr (sm_entries m))])))"

subsection \<open>What validation decides\<close>

lemma unique_ids_Nil:
  "unique_ids_from seen specs = [] \<longleftrightarrow> distinct (map as_id specs) \<and> set seen \<inter> as_id ` set specs = {}"
  by (induction specs arbitrary: seen) auto

lemma space_not_in_method: "CHR '' '' \<notin> set (method_name m)"
  by (cases m) auto

lemma method_name_inj: "method_name m = method_name n \<longleftrightarrow> m = n"
  by (cases m; cases n) auto

lemma route_key_eq:
  "route_key s = route_key t \<longleftrightarrow> deriveHttpMethod s = deriveHttpMethod t \<and> httpPath s = httpPath t"
proof
  assume "route_key s = route_key t"
  then have "method_name (deriveHttpMethod s) @ CHR '' '' # httpPath s =
      method_name (deriveHttpMethod t) @ CHR '' '' # httpPath t"
    by (simp add: route_key_def)
  then have "method_name (deriveHttpMethod s) = method_name (deriveHttpMethod t) \<and> httpPath s = httpPath t"
    by (rule space_split) (rule space_not_in_method)+
  then show "deriveHttpMethod s = deriveHttpMethod t \<and> httpPath s = httpPath t"
    by (simp add: method_name_inj)
qed (simp add: route_key_def)

lemma unique_routes_Nil:
  "unique_routes_from seen specs = [] \<longleftrightarrow>
     distinct (map route_key (filter isHttpExposed specs)) \<and>
     fst ` set seen \<inter> route_key ` set (filter isHttpExposed specs) = {}"
proof (induction specs arbitrary: seen)
  case (Cons s specs)
  have k: "fst ` set (map_set seen (route_key s) v) = insert (route_key s) (fst ` set seen)" for v
    by (simp add: map_set_def dom_update flip: dom_map_of_conv_image_fst) (simp add: update_conv' dom_map_of_conv_image_fst)
  have g: "map_get seen (route_key s) = None \<longleftrightarrow> route_key s \<notin> fst ` set seen"
    by (simp add: map_get_def map_of_eq_None_iff)
  show ?case
    using Cons g by (cases "map_get seen (route_key s)") (auto simp: k)
qed simp

definition route_pair :: "'h action_spec \<Rightarrow> http_method \<times> string" where
  "route_pair spec = (deriveHttpMethod spec, httpPath spec)"

lemma distinct_route_keys: "distinct (map route_key ss) \<longleftrightarrow> distinct (map route_pair ss)"
  by (simp add: distinct_map inj_on_def route_key_eq route_pair_def)

definition reserved_path :: "string \<Rightarrow> bool" where
  "reserved_path path \<longleftrightarrow> starts_with path ''/v1/admin/'' \<or> starts_with path ''/v1/credential/'' \<or> path = ''/v1/health''"

text \<open>An authored standard annotation says what the intent derives; a false hint may stand where
  nothing is derived.\<close>

definition annotation_agrees :: "'h action_spec \<Rightarrow> string \<Rightarrow> js_value \<Rightarrow> bool" where
  "annotation_agrees spec key v \<longleftrightarrow>
     (case map_get (deriveStandardMcpAnnotations spec) key of
        Some d \<Rightarrow> v = d
      | None \<Rightarrow> v = VUndefined \<or> key \<noteq> ''title'' \<and> v = VBool False)"

definition annotations_agree :: "'h action_spec \<Rightarrow> bool" where
  "annotations_agree spec =
     (case Option.bind (as_mcp spec) mp_annotations of
        None \<Rightarrow> True
      | Some authored \<Rightarrow>
          list_all (\<lambda>key. case map_get authored key of None \<Rightarrow> True | Some v \<Rightarrow> annotation_agrees spec key v)
            [''readOnlyHint'', ''destructiveHint'', ''idempotentHint'', ''title''])"

lemma derived_defined: "map_get (deriveStandardMcpAnnotations spec) key \<noteq> Some VUndefined"
  by (auto simp: deriveStandardMcpAnnotations_def map_get_def Let_def split: option.splits)

lemma annotation_issue_Nil:
  assumes "key \<in> set STANDARD_MCP_ANNOTATION_KEYS"
  shows "annotation_issue stringify spec authored key = [] \<longleftrightarrow>
    (case map_get authored key of None \<Rightarrow> True | Some v \<Rightarrow> annotation_agrees spec key v)"
  using assms derived_defined [of spec key]
  by (auto simp: annotation_issue_def annotation_agrees_def Let_def nullish_def STANDARD_MCP_ANNOTATION_KEYS_def
      STANDARD_BOOLEAN_MCP_ANNOTATION_KEYS_def split: option.splits)

lemma annotation_issues_Nil: "annotation_issues stringify spec = [] \<longleftrightarrow> annotations_agree spec"
proof (cases "Option.bind (as_mcp spec) mp_annotations")
  case (Some authored)
  then show ?thesis
    using annotation_issue_Nil [of _ stringify spec authored]
    by (simp add: annotation_issues_def annotations_agree_def STANDARD_MCP_ANNOTATION_KEYS_def)
qed (simp add: annotation_issues_def annotations_agree_def)

lemma reserved_issues_Nil:
  "reserved_issues spec = [] \<longleftrightarrow> (isHttpExposed spec \<longrightarrow> \<not> reserved_path (httpPath spec))"
  by (simp add: reserved_issues_def reserved_path_def Let_def RESERVED_HTTP_ROUTE_PREFIXES_def
      RESERVED_HTTP_ROUTE_PATHS_def)

lemma auth_issues_Nil:
  "auth_issues spec = [] \<longleftrightarrow> (isHttpExposed spec \<longrightarrow> Option.bind (as_http spec) hs_auth \<noteq> None)"
  by (simp add: auth_issues_def)

definition specs_consistent :: "'h action_spec list \<Rightarrow> bool" where
  "specs_consistent specs \<longleftrightarrow>
     distinct (map as_id specs) \<and>
     distinct (map route_pair (filter isHttpExposed specs)) \<and>
     list_all (\<lambda>s. Option.bind (as_http s) hs_auth \<noteq> None \<and> \<not> reserved_path (httpPath s)) (filter isHttpExposed specs) \<and>
     list_all annotations_agree specs"

lemma validate_ok: "validateActionSpecs stringify specs = Ok () \<longleftrightarrow> specs_consistent specs"
  by (auto simp: validateActionSpecs_def contract_issues_def Let_def validateUniqueIds_def unique_ids_Nil
      validateHttpAuth_def validateUniqueHttpRoutes_def unique_routes_Nil validateReservedHttpRoutes_def
      validateMcpAnnotations_def annotation_issues_Nil reserved_issues_Nil auth_issues_Nil
      specs_consistent_def distinct_route_keys list_all_iff)

subsection \<open>What the registry keeps\<close>

definition registry_ok :: "(js_value \<Rightarrow> string) \<Rightarrow> 'h registry \<Rightarrow> bool" where
  "registry_ok stringify reg \<longleftrightarrow>
     map_wf reg \<and> list_all (\<lambda>p. fst p = as_id (snd p)) reg \<and> specs_consistent (map_values reg)"

lemma registry_ok_empty: "registry_ok stringify createActionRegistry"
  by (simp add: registry_ok_def createActionRegistry_def map_wf_def map_values_def specs_consistent_def)

lemma map_set_fresh: "map_get m k = None \<Longrightarrow> map_set m k v = m @ [(k, v)]"
  by (simp add: map_get_def map_set_def map_of_eq_None_iff) (induction m, auto)

lemma register_result:
  "register stringify spec reg =
     (if map_get reg (as_id spec) \<noteq> None
      then (Throws_Error (''Action '' @ quoted (as_id spec) @ '' is already registered''), reg)
      else if specs_consistent (map_values reg @ [spec]) then (Registered, reg @ [(as_id spec, spec)])
      else (Throws_Signet (ValidationError_create ''actionRegistry'' ''Action contract validation failed''
          [(''issues'', VArr (map issue_js (contract_issues stringify (map_values reg @ [spec]))))]), reg))"
  using validate_ok [of stringify "map_values reg @ [spec]"]
  by (auto simp: register_def map_set_fresh validateActionSpecs_def Let_def split: result.splits)

lemma registry_ok_register: "registry_ok stringify reg \<Longrightarrow> registry_ok stringify (snd (register stringify spec reg))"
  by (auto simp: register_result registry_ok_def map_wf_def map_values_def map_get_def map_of_eq_None_iff)

lemma registry_ok_all: "registry_ok stringify reg \<Longrightarrow> registry_ok stringify (register_all stringify ss reg)"
  by (induction ss arbitrary: reg) (simp_all add: register_all_def registry_ok_register)

lemma registered_given: "set (map_values (register_all stringify ss reg)) \<subseteq> set (map_values reg) \<union> set ss"
proof (induction ss arbitrary: reg)
  case (Cons s ss)
  have "set (map_values (snd (register stringify s reg))) \<subseteq> insert s (set (map_values reg))"
    by (auto simp: register_result map_values_def)
  then show ?case using Cons [of "snd (register stringify s reg)"] by (auto simp: register_all_def)
qed (simp add: register_all_def)

lemma find_unique:
  assumes "distinct (map f xs)" "x \<in> set xs" "\<And>y. y \<in> set xs \<Longrightarrow> P y \<longleftrightarrow> f y = f x"
  shows "List.find P xs = Some x"
  using assms
proof (induction xs)
  case (Cons y ys)
  then show ?case by (cases "y = x") auto
qed simp

lemma route_found:
  assumes "distinct (map route_pair ss)" "s \<in> set ss"
  shows "matchHttpActionRoute (map route_of ss) (method_name (deriveHttpMethod s)) (httpPath s) = Some (route_of s)"
  unfolding matchHttpActionRoute_def
proof (rule find_unique [where f = "\<lambda>r. (ro_method r, ro_path r)"])
  have "map (\<lambda>r. (ro_method r, ro_path r)) (map route_of ss) = map route_pair ss"
    by (simp add: route_of_def route_pair_def)
  then show "distinct (map (\<lambda>r. (ro_method r, ro_path r)) (map route_of ss))" by (simp only: assms(1))
qed (use assms(2) in \<open>auto simp: route_of_def method_name_inj\<close>)

subsection \<open>Properties of the registry\<close>

text \<open>The validation accepts a list of specifications exactly when their identifiers are distinct,
  the actions exposed over HTTP declare who may call them, have distinct pairs of method and path
  and stay outside the paths the server keeps for itself, and no authored annotation contradicts
  the declared intent.\<close>

theorem validation_exact:
  "validateActionSpecs stringify specs = Ok () \<longleftrightarrow>
     distinct (map as_id specs) \<and>
     distinct (map (\<lambda>s. (deriveHttpMethod s, httpPath s)) (filter isHttpExposed specs)) \<and>
     list_all (\<lambda>s. Option.bind (as_http s) hs_auth \<noteq> None \<and>
         \<not> (starts_with (httpPath s) ''/v1/admin/'' \<or> starts_with (httpPath s) ''/v1/credential/'' \<or>
            httpPath s = ''/v1/health'')) (filter isHttpExposed specs) \<and>
     list_all annotations_agree specs"
  unfolding validate_ok specs_consistent_def reserved_path_def route_pair_def [abs_def] by simp

lemma registry_serves:
  fixes stringify :: "js_value \<Rightarrow> string" and ss :: "'h action_spec list"
  defines "reg \<equiv> register_all stringify ss createActionRegistry"
  shows "registry_validate stringify reg = Ok () \<and>
    list_all (\<lambda>s. s \<in> set ss \<and> registry_lookup reg (as_id s) = Some s) (registry_list reg) \<and>
    (case buildHttpActionRoutes stringify reg of
       Err _ \<Rightarrow> False
     | Ok routes \<Rightarrow>
         map ro_spec routes = filter isHttpExposed (registry_list reg) \<and>
         list_all (\<lambda>r. matchHttpActionRoute routes (method_name (ro_method r)) (ro_path r) = Some r \<and>
             ro_auth r \<noteq> None \<and> \<not> reserved_path (ro_path r)) routes)"
proof -
  have ok: "registry_ok stringify reg" unfolding reg_def by (intro registry_ok_all registry_ok_empty)
  then have c: "specs_consistent (map_values reg)" and w: "map_wf reg" and k: "list_all (\<lambda>p. fst p = as_id (snd p)) reg"
    by (simp_all add: registry_ok_def)
  have v: "registry_validate stringify reg = Ok ()" using c by (simp add: registry_validate_def validate_ok)
  have l: "registry_lookup reg (as_id s) = Some s \<and> s \<in> set ss" if s: "s \<in> set (map_values reg)" for s
  proof -
    obtain i where "(i, s) \<in> set reg" using s by (auto simp: map_values_def)
    moreover then have "i = as_id s" using k by (auto simp: list_all_iff)
    ultimately have "registry_lookup reg (as_id s) = Some s"
      using w by (simp add: registry_lookup_def map_get_def map_wf_def)
    then show ?thesis
      using s registered_given [of stringify ss createActionRegistry]
      by (auto simp: reg_def createActionRegistry_def map_values_def)
  qed
  have f: "filter isHttpExposed (listForSurface reg Sf_http) = filter isHttpExposed (map_values reg)"
    by (auto simp: listForSurface_def ACTION_SURFACES_def isHttpExposed_def split: option.splits intro!: filter_cong)
  let ?es = "filter isHttpExposed (map_values reg)"
  have r: "buildHttpActionRoutes stringify reg = Ok (map route_of ?es)"
    by (simp only: buildHttpActionRoutes_def v f result.case)
  have m: "matchHttpActionRoute (map route_of ?es) (method_name (ro_method r)) (ro_path r) = Some r \<and>
      ro_auth r \<noteq> None \<and> \<not> reserved_path (ro_path r)" if "r \<in> set (map route_of ?es)" for r
  proof -
    obtain s where s: "s \<in> set ?es" "r = route_of s" using \<open>r \<in> set (map route_of ?es)\<close> by auto
    have "distinct (map route_pair ?es)" using c by (simp add: specs_consistent_def)
    from route_found [OF this s(1)] show ?thesis
      using c s by (auto simp: specs_consistent_def list_all_iff route_of_def)
  qed
  have "map ro_spec (map route_of ?es) = ?es" by (simp add: route_of_def comp_def)
  then show ?thesis using v l m r by (simp add: list_all_iff registry_list_def)
qed

text \<open>C28: Whatever is registered in whatever order, the registry always validates; each of its
  actions is one that was given and is found under its identifier, and each exposed one is reached
  over HTTP by its own method and path, which lead to no other action, need a declared
  authorization and lie outside the server's own paths.\<close>

theorem registry_dispatch:
  fixes stringify :: "js_value \<Rightarrow> string" and ss :: "'h action_spec list"
  shows "let reg = register_all stringify ss createActionRegistry in
    registry_validate stringify reg = Ok () \<and>
    list_all (\<lambda>s. s \<in> set ss \<and> registry_lookup reg (as_id s) = Some s) (registry_list reg) \<and>
    (case buildHttpActionRoutes stringify reg of
       Err _ \<Rightarrow> False
     | Ok routes \<Rightarrow>
         map ro_spec routes = filter isHttpExposed (registry_list reg) \<and>
         list_all (\<lambda>r. matchHttpActionRoute routes (method_name (ro_method r)) (ro_path r) = Some r \<and>
             ro_auth r \<noteq> None \<and> \<not> reserved_path (ro_path r)) routes)"
  unfolding Let_def by (rule registry_serves)

subsection \<open>The surface map\<close>

lemma map_of_filter: "filter (\<lambda>p. fst p = k) kvs = [(k, v)] \<Longrightarrow> map_of kvs k = Some v"
  by (induction kvs) (auto split: if_splits)

lemma map_of_js_sort:
  assumes "filter (\<lambda>p. fst p = k) kvs = [(k, v)]"
  shows "map_of (js_sort le kvs) k = Some v"
proof (rule map_of_filter)
  have "mset (filter (\<lambda>p. fst p = k) (js_sort le kvs)) = {#(k, v)#}"
    using arg_cong [OF assms, of mset] by simp
  then show "filter (\<lambda>p. fst p = k) (js_sort le kvs) = [(k, v)]" by (simp del: mset_filter)
qed

lemma get_sortKeys:
  assumes "filter (\<lambda>p. fst p = k) kvs = [(k, v)]"
  shows "js_get (sortKeys (VObj kvs)) k = sortKeys v"
proof -
  have "filter (\<lambda>p. fst p = k) (map (\<lambda>p. (fst p, sortKeys (snd p))) kvs) = [(k, sortKeys v)]"
    using assms by (simp add: filter_map comp_def)
  from map_of_js_sort [OF this] show ?thesis by simp
qed

lemma filter_case: "filter P (case_option [] f x) = case_option [] (\<lambda>y. filter P (f y)) x"
  by (cases x) simp_all

lemma entry_id_toEntry [simp]: "entry_id (toEntry spec) = as_id spec"
proof -
  have "js_get (toEntry spec) ''id'' = sortKeys (VStr (as_id spec))"
    unfolding toEntry_def
    by (rule get_sortKeys, simp add: filter_case) (intro conjI; simp add: Let_def split: option.split)
  then show ?thesis by (simp add: entry_id_def nullish_def)
qed

text \<open>The published hash of the action surface depends on what is registered and not on the order
  of registration or on the moment it is computed: whenever the locale's comparison is an order,
  two lists of the same actions with distinct identifiers have one hash.\<close>

theorem surface_hash_order_independent:
  assumes "text_order (sfe_localeLe en)" "mset specs = mset specs'" "distinct (map as_id specs)"
  shows "hashActionSurfaceMap en (generateActionSurfaceMap en t specs) =
         hashActionSurfaceMap en (generateActionSurfaceMap en t' specs')"
proof -
  have "inj_on entry_id (set (map toEntry specs))"
    using assms(3) by (auto simp: inj_on_def distinct_map)
  moreover have "mset (map toEntry specs) = mset (map toEntry specs')" using assms(2) by simp
  ultimately have "js_sort (\<lambda>a b. sfe_localeLe en (entry_id a) (entry_id b)) (map toEntry specs) =
      js_sort (\<lambda>a b. sfe_localeLe en (entry_id a) (entry_id b)) (map toEntry specs')"
    by (rule text_order.js_sort_mset [OF assms(1)])
  then show ?thesis by (simp add: hashActionSurfaceMap_def generateActionSurfaceMap_def)
qed

subsection \<open>Samples\<close>

definition sample_http :: http_surface where
  "sample_http = \<lparr>hs_path = None, hs_method = None, hs_auth = Some Auth_admin, hs_expose = None\<rparr>"

definition sample_spec :: "string \<Rightarrow> unit action_spec" where
  "sample_spec i = \<lparr>as_id = i, as_handler = (), as_description = None, as_examples = None,
     as_intent = Some In_read, as_idempotent = None, as_cli = None,
     as_mcp = Some \<lparr>mp_toolName = None, mp_annotations = None\<rparr>, as_http = Some sample_http\<rparr>"

lemma sample_spec_id [simp]: "as_id (sample_spec i) = i"
  by (simp add: sample_spec_def)

definition sample_surface :: surface_engine where
  "sample_surface = \<lparr>sfe_stringify = (\<lambda>_. []), sfe_localeLe = code_le, sfe_sha256 = (\<lambda>s. s)\<rparr>"

theorem surface_hash_order_independent_witness:
  "hashActionSurfaceMap sample_surface (generateActionSurfaceMap sample_surface ''t'' [sample_spec ''a.b'', sample_spec ''c'']) =
   hashActionSurfaceMap sample_surface (generateActionSurfaceMap sample_surface ''u'' [sample_spec ''c'', sample_spec ''a.b''])"
  by (rule surface_hash_order_independent)
    (simp_all add: sample_surface_def cu.text_order_axioms)

text \<open>Only HTTP routes are compared: two actions can share the name of their tool. With an
  identifier that keeps the routes apart by an explicit path, both are registered.\<close>

lemma tool_names_collide:
  "let s = sample_spec ''chat.list''; t = (sample_spec ''chat/list'')\<lparr>as_http := None\<rparr>
   in validateActionSpecs (\<lambda>_. []) [s, t] = Ok () \<and> deriveMcpToolName s ''signet'' = deriveMcpToolName t ''signet''"
  unfolding Let_def validate_ok
  by (simp add: specs_consistent_def sample_spec_def sample_http_def isHttpExposed_def annotations_agree_def
      deriveMcpToolName_def nullish_def dots_to_def) code_simp

lemma derived_path_sample:
  "httpPath (sample_spec ''chat.list'') = ''/v1/actions/chat/list''"
  "httpPath ((sample_spec ''x'')\<lparr>as_http := Some (sample_http\<lparr>hs_path := Some '' admin//keys ''\<rparr>)\<rparr>) = ''/admin/keys''"
  by code_simp+

end
