(* ===== verification/ActionResults.thy ===== *)
theory ActionResults
  imports JsValues Errors
begin

text \<open>
  The output envelope of every transport (\<^verbatim>\<open>packages/contracts/src/result-envelope.ts\<close>) and its schemas
  (\<^verbatim>\<open>packages/schemas/src/result/action-result.ts\<close>), with the names of error categories and classes.
\<close>

fun category_name :: "error_category \<Rightarrow> string" where
  "category_name Cat_validation = ''validation''"
| "category_name Cat_not_found = ''not_found''"
| "category_name Cat_permission = ''permission''"
| "category_name Cat_auth = ''auth''"
| "category_name Cat_internal = ''internal''"
| "category_name Cat_timeout = ''timeout''"
| "category_name Cat_cancelled = ''cancelled''"
| "category_name Cat_network = ''network''"

definition all_categories :: "error_category list" where
  "all_categories = [Cat_validation, Cat_not_found, Cat_permission, Cat_auth, Cat_internal, Cat_timeout,
     Cat_cancelled, Cat_network]"

fun tag_name :: "error_tag \<Rightarrow> string" where
  "tag_name Tag_ValidationError = ''ValidationError''"
| "tag_name Tag_NotFoundError = ''NotFoundError''"
| "tag_name Tag_PermissionError = ''PermissionError''"
| "tag_name Tag_AuthError = ''AuthError''"
| "tag_name Tag_CredentialExpiredError = ''CredentialExpiredError''"
| "tag_name Tag_InternalError = ''InternalError''"
| "tag_name Tag_TimeoutError = ''TimeoutError''"
| "tag_name Tag_CancelledError = ''CancelledError''"
| "tag_name Tag_SealError = ''SealError''"
| "tag_name Tag_NetworkError = ''NetworkError''"

record action_meta =
  rm_requestId :: string
  rm_timestamp :: string
  rm_durationMs :: int

record action_error =
  re_tag :: error_tag
  re_category :: error_category
  re_message :: string
  re_context :: "err_context option"

record pagination =
  pg_count :: int
  pg_hasMore :: bool
  pg_nextCursor :: "string option"
  pg_total :: "int option"

datatype 'a action_result =
    AR_ok 'a action_meta "pagination option"
  | AR_err action_error action_meta

definition action_error_of :: "signet_error \<Rightarrow> action_error" where
  "action_error_of e = \<lparr>re_tag = err_tag e, re_category = err_category e, re_message = err_message e,
     re_context = err_context e\<rparr>"

definition toActionResult ::
  "('a, signet_error) result \<Rightarrow> action_meta \<Rightarrow> pagination option \<Rightarrow> 'a action_result" where
  "toActionResult r meta page =
     (case r of Ok v \<Rightarrow> AR_ok v meta page | Err e \<Rightarrow> AR_err (action_error_of e) meta)"

subsection \<open>On the wire\<close>

definition meta_js :: "action_meta \<Rightarrow> js_value" where
  "meta_js m = VObj [(''requestId'', VStr (rm_requestId m)), (''timestamp'', VStr (rm_timestamp m)),
     (''durationMs'', VNum (of_int (rm_durationMs m)))]"

definition action_error_js :: "action_error \<Rightarrow> js_value" where
  "action_error_js e = VObj [(''_tag'', VStr (tag_name (re_tag e))),
     (''category'', VStr (category_name (re_category e))), (''message'', VStr (re_message e)),
     (''context'', case re_context e of None \<Rightarrow> VNull | Some c \<Rightarrow> VObj c)]"

definition pagination_js :: "pagination \<Rightarrow> js_value" where
  "pagination_js p = VObj ([(''count'', VNum (of_int (pg_count p))), (''hasMore'', VBool (pg_hasMore p))] @
     (case pg_nextCursor p of None \<Rightarrow> [] | Some c \<Rightarrow> [(''nextCursor'', VStr c)]) @
     (case pg_total p of None \<Rightarrow> [] | Some t \<Rightarrow> [(''total'', VNum (of_int t))]))"

definition action_result_js :: "('a \<Rightarrow> js_value) \<Rightarrow> 'a action_result \<Rightarrow> js_value" where
  "action_result_js enc r =
     (case r of
        AR_ok v meta page \<Rightarrow>
          VObj ([(''ok'', VBool True), (''data'', enc v), (''meta'', meta_js meta)] @
            (case page of None \<Rightarrow> [] | Some p \<Rightarrow> [(''pagination'', pagination_js p)]))
      | AR_err e meta \<Rightarrow> VObj [(''ok'', VBool False), (''error'', action_error_js e), (''meta'', meta_js meta)])"

text \<open>The schemas; the data schema and the check of a date are arguments.\<close>

definition ActionResultMetaSchema :: "(string \<Rightarrow> bool) \<Rightarrow> js_value \<Rightarrow> bool" where
  "ActionResultMetaSchema isDatetime v \<longleftrightarrow>
     is_obj v \<and> as_str (js_get v ''requestId'') \<noteq> None \<and>
     (case js_get v ''timestamp'' of VStr t \<Rightarrow> isDatetime t | _ \<Rightarrow> False) \<and>
     (case js_get v ''durationMs'' of VNum q \<Rightarrow> 0 \<le> q | _ \<Rightarrow> False)"

definition ActionErrorSchema :: "js_value \<Rightarrow> bool" where
  "ActionErrorSchema v \<longleftrightarrow>
     is_obj v \<and> as_str (js_get v ''_tag'') \<noteq> None \<and>
     (case js_get v ''category'' of VStr c \<Rightarrow> c \<in> set (map category_name all_categories) | _ \<Rightarrow> False) \<and>
     as_str (js_get v ''message'') \<noteq> None \<and>
     (js_get v ''context'' = VNull \<or> is_obj (js_get v ''context''))"

fun nonneg_int :: "js_value \<Rightarrow> bool" where
  "nonneg_int (VNum q) = (of_int \<lfloor>q\<rfloor> = q \<and> 0 \<le> q)"
| "nonneg_int _ = False"

definition PaginationSchema :: "js_value \<Rightarrow> bool" where
  "PaginationSchema v \<longleftrightarrow>
     is_obj v \<and> nonneg_int (js_get v ''count'') \<and> as_bool (js_get v ''hasMore'') \<noteq> None \<and>
     (js_get v ''nextCursor'' = VUndefined \<or> as_str (js_get v ''nextCursor'') \<noteq> None) \<and>
     (js_get v ''total'' = VUndefined \<or> nonneg_int (js_get v ''total''))"

definition ActionResultSchema :: "(string \<Rightarrow> bool) \<Rightarrow> (js_value \<Rightarrow> bool) \<Rightarrow> js_value \<Rightarrow> bool" where
  "ActionResultSchema isDatetime dataSchema v \<longleftrightarrow>
     is_obj v \<and> js_get v ''ok'' = VBool True \<and> dataSchema (js_get v ''data'') \<and>
     ActionResultMetaSchema isDatetime (js_get v ''meta'') \<and>
     (js_get v ''pagination'' = VUndefined \<or> PaginationSchema (js_get v ''pagination''))"

definition ActionErrorResultSchema :: "(string \<Rightarrow> bool) \<Rightarrow> js_value \<Rightarrow> bool" where
  "ActionErrorResultSchema isDatetime v \<longleftrightarrow>
     is_obj v \<and> js_get v ''ok'' = VBool False \<and> ActionErrorSchema (js_get v ''error'') \<and>
     ActionResultMetaSchema isDatetime (js_get v ''meta'')"

subsection \<open>Envelopes satisfy their schemas\<close>

lemma category_listed [simp]: "category_name c \<in> set (map category_name all_categories)"
  by (cases c) (simp_all add: all_categories_def)

lemma category_name_inj: "category_name c = category_name d \<longleftrightarrow> c = d"
  by (cases c; cases d) simp_all

lemma meta_schema:
  "ActionResultMetaSchema isDatetime (meta_js m) \<longleftrightarrow> isDatetime (rm_timestamp m) \<and> 0 \<le> rm_durationMs m"
  by (simp add: ActionResultMetaSchema_def meta_js_def)

lemma error_schema [simp]: "ActionErrorSchema (action_error_js e)"
  using category_listed [of "re_category e"]
  by (auto simp: ActionErrorSchema_def action_error_js_def split: option.split)

lemma pagination_schema:
  "PaginationSchema (pagination_js p) \<longleftrightarrow>
     0 \<le> pg_count p \<and> (case pg_total p of None \<Rightarrow> True | Some t \<Rightarrow> 0 \<le> t)"
  by (auto simp: PaginationSchema_def pagination_js_def split: option.split)

text \<open>C30: Whatever a handler answers, the envelope of its result satisfies exactly one of the two
  schemas a client checks: the success schema when the handler succeeded, with the data and the
  pagination unchanged, and the failure schema when it failed, with the tag, category, message and
  context of the error; both carry the request's own metadata. The time and the duration must be
  proper, the numbers of the pagination not negative, and the data must fit its schema.\<close>

theorem envelope_typed:
  fixes r :: "('a, signet_error) result"
  assumes "isDatetime (rm_timestamp meta)" "0 \<le> rm_durationMs meta"
    and "\<And>v. r = Ok v \<Longrightarrow> dataSchema (enc v)"
    and "\<And>p. page = Some p \<Longrightarrow> 0 \<le> pg_count p \<and> (case pg_total p of None \<Rightarrow> True | Some t \<Rightarrow> 0 \<le> t)"
  shows "let j = action_result_js enc (toActionResult r meta page)
    in js_get j ''meta'' = meta_js meta \<and>
       (case r of
          Ok v \<Rightarrow> ActionResultSchema isDatetime dataSchema j \<and> \<not> ActionErrorResultSchema isDatetime j \<and>
            js_get j ''ok'' = VBool True \<and> js_get j ''data'' = enc v \<and>
            js_get j ''pagination'' = (case page of None \<Rightarrow> VUndefined | Some p \<Rightarrow> pagination_js p)
        | Err e \<Rightarrow> ActionErrorResultSchema isDatetime j \<and> \<not> ActionResultSchema isDatetime dataSchema j \<and>
            js_get j ''ok'' = VBool False \<and>
            js_get (js_get j ''error'') ''_tag'' = VStr (tag_name (err_tag e)) \<and>
            js_get (js_get j ''error'') ''category'' = VStr (category_name (err_category e)) \<and>
            js_get (js_get j ''error'') ''message'' = VStr (err_message e) \<and>
            js_get (js_get j ''error'') ''context'' = (case err_context e of None \<Rightarrow> VNull | Some c \<Rightarrow> VObj c))"
proof (cases r)
  case (Ok v)
  then show ?thesis using assms
    by (cases page) (simp_all add: toActionResult_def action_result_js_def ActionResultSchema_def
        ActionErrorResultSchema_def meta_schema pagination_schema Let_def)
next
  case (Err e)
  have "js_get (action_error_js (action_error_of e)) ''_tag'' = VStr (tag_name (err_tag e))"
    "js_get (action_error_js (action_error_of e)) ''category'' = VStr (category_name (err_category e))"
    "js_get (action_error_js (action_error_of e)) ''message'' = VStr (err_message e)"
    "js_get (action_error_js (action_error_of e)) ''context'' =
       (case err_context e of None \<Rightarrow> VNull | Some c \<Rightarrow> VObj c)"
    by (simp_all add: action_error_js_def action_error_of_def)
  then show ?thesis using Err assms(1,2)
    by (simp add: toActionResult_def action_result_js_def ActionResultSchema_def ActionErrorResultSchema_def
        meta_schema Let_def)
qed

definition sample_meta :: action_meta where
  "sample_meta = \<lparr>rm_requestId = ''r'', rm_timestamp = ''2026-01-01T00:00:00Z'', rm_durationMs = 3\<rparr>"

definition sample_page :: pagination where
  "sample_page = \<lparr>pg_count = 20, pg_hasMore = True, pg_nextCursor = Some ''c2'', pg_total = Some 45\<rparr>"

theorem envelope_typed_witness:
  "let j = action_result_js (\<lambda>s. VStr s) (toActionResult (Ok ''done'') sample_meta (Some sample_page))
   in ActionResultSchema (\<lambda>t. t \<noteq> []) (\<lambda>v. as_str v \<noteq> None) j \<and> js_get j ''pagination'' = pagination_js sample_page"
  using envelope_typed [of "\<lambda>t. t \<noteq> []" sample_meta "Ok ''done''" "\<lambda>v. as_str v \<noteq> None" "\<lambda>s. VStr s" "Some sample_page"]
  by (simp add: Let_def sample_meta_def sample_page_def)

end
