(* ===== verification/ReadElevation.thy ===== *)
theory ReadElevation
  imports ActionResults
begin

text \<open>
  Temporary message-read elevations of administrators
  (\<^verbatim>\<open>packages/cli/src/admin/read-elevation.ts\<close>), the disclosures they cause
  (\<^verbatim>\<open>packages/cli/src/admin/read-disclosure-store.ts\<close>) and the elevation value
  (\<^verbatim>\<open>packages/schemas/src/admin-read-elevation.ts\<close>). A call is a process: the code between two awaits
  runs at once on the current state, and an await is a request to the surroundings (the audit log, the
  approver, the seal refresh) whose answer lets the process go on. Times are milliseconds; a time
  that was printed parses back to itself. The clock stands still between two awaits.
\<close>

subsection \<open>Disclosures\<close>

record disclosure =
  dc_operatorId :: string
  dc_expiresAt :: int

type_synonym disclosures = "(string, (string, disclosure) js_map) js_map"

definition collectUniqueChatIds :: "string list \<Rightarrow> string list" where
  "collectUniqueChatIds chatIds = set_of (filter (\<lambda>c. c \<noteq> []) chatIds)"

fun latest_disclosure :: "disclosure option \<Rightarrow> (string, disclosure) js_map \<Rightarrow> disclosure option" where
  "latest_disclosure latest [] = latest"
| "latest_disclosure latest ((_, d) # ds) =
     latest_disclosure (case latest of None \<Rightarrow> Some d
       | Some l \<Rightarrow> if dc_expiresAt d > dc_expiresAt l then Some d else latest) ds"

text \<open>The aggregate of a chat; sessions that expired are dropped on the way.\<close>

definition aggregateForChat :: "int \<Rightarrow> bool \<Rightarrow> string \<Rightarrow> disclosures \<Rightarrow> disclosure option \<times> disclosures" where
  "aggregateForChat now includeExpired chatId entries =
     (case map_get entries chatId of
        None \<Rightarrow> (None, entries)
      | Some perSession \<Rightarrow>
          let kept = filter (\<lambda>p. includeExpired \<or> \<not> dc_expiresAt (snd p) \<le> now) perSession
          in if kept = [] then (None, map_delete entries chatId)
             else (latest_disclosure None kept, map_set entries chatId kept))"

definition mutate_chat ::
  "int \<Rightarrow> ((string, disclosure) js_map \<Rightarrow> (string, disclosure) js_map) \<Rightarrow> string list \<times> disclosures \<Rightarrow> string \<Rightarrow>
   string list \<times> disclosures" where
  "mutate_chat now f acc chatId =
     (let (changed, entries) = acc;
          (before, entries1) = aggregateForChat now False chatId entries;
          perSession = f (nullish (map_get entries1 chatId) []);
          entries2 = (if perSession \<noteq> [] then map_set entries1 chatId perSession else map_delete entries1 chatId);
          (after, entries3) = aggregateForChat now False chatId entries2
      in (if before \<noteq> after then changed @ [chatId] else changed, entries3))"

definition mutate ::
  "int \<Rightarrow> string list \<Rightarrow> ((string, disclosure) js_map \<Rightarrow> (string, disclosure) js_map) \<Rightarrow> disclosures \<Rightarrow>
   string list \<times> disclosures" where
  "mutate now chatIds f entries = foldl (mutate_chat now f) ([], entries) (collectUniqueChatIds chatIds)"

definition ds_set :: "int \<Rightarrow> string list \<Rightarrow> string \<Rightarrow> disclosure \<Rightarrow> disclosures \<Rightarrow> string list \<times> disclosures" where
  "ds_set now chatIds sessionKey d entries = mutate now chatIds (\<lambda>per. map_set per sessionKey d) entries"

definition ds_delete :: "int \<Rightarrow> string list \<Rightarrow> string \<Rightarrow> disclosures \<Rightarrow> string list \<times> disclosures" where
  "ds_delete now chatIds sessionKey entries = mutate now chatIds (\<lambda>per. map_delete per sessionKey) entries"

definition ds_restore :: "string list \<Rightarrow> string \<Rightarrow> disclosure \<Rightarrow> disclosures \<Rightarrow> disclosures" where
  "ds_restore chatIds sessionKey d entries =
     foldl (\<lambda>es chatId. map_set es chatId (map_set (nullish (map_get es chatId) []) sessionKey d)) entries
       (collectUniqueChatIds chatIds)"

definition ds_get :: "int \<Rightarrow> string \<Rightarrow> disclosures \<Rightarrow> disclosure option \<times> disclosures" where
  "ds_get now chatId entries = aggregateForChat now False chatId entries"

definition ds_peek :: "int \<Rightarrow> string \<Rightarrow> disclosures \<Rightarrow> disclosure option \<times> disclosures" where
  "ds_peek now chatId entries = aggregateForChat now True chatId entries"

subsection \<open>Elevations\<close>

record elevation =
  ae_approvalId :: string
  ae_chatIds :: "string list"
  ae_approvedAt :: int
  ae_expiresAt :: int
  ae_approvalKeyFingerprint :: string

record cached_elevation =
  ce_elevation :: elevation
  ce_chatId :: string
  ce_sessionKey :: string

record audit_entry =
  au_timestamp :: int
  au_action :: string
  au_target :: "string option"
  au_detail :: "(string \<times> js_value) list"
  au_success :: bool

record elevation_input =
  li_method :: string
  li_params :: "(string, js_value) js_map"
  li_adminFingerprint :: string
  li_sessionKey :: string

text \<open>What the manager is created with, and its printing of times.\<close>

record elev_env =
  le_hasApprover :: bool
  le_hasAuditLog :: bool
  le_hasDisclosureStore :: bool
  le_hasOnChanged :: bool
  le_actor :: string
  le_normalizeChatId :: "string \<Rightarrow> string"
  le_ttlMs :: int
  le_iso :: "int \<Rightarrow> string"

record elev_state =
  es_cache :: "(string, cached_elevation) js_map"
  es_timers :: "(string, int \<times> cached_elevation) js_map"
  es_disclosures :: disclosures
  es_audit :: "audit_entry list"

definition createAdminReadElevationManager :: elev_state where
  "createAdminReadElevationManager = \<lparr>es_cache = [], es_timers = [], es_disclosures = [], es_audit = []\<rparr>"

definition DEFAULT_READ_ELEVATION_TTL_MS :: int where
  "DEFAULT_READ_ELEVATION_TTL_MS = 60000"

definition isMessageReadMethod :: "string \<Rightarrow> bool" where
  "isMessageReadMethod m \<longleftrightarrow> m = ''message.list'' \<or> m = ''message.info'' \<or> m = ''search.messages''"

definition wantsDangerousMessageRead :: "(string, js_value) js_map \<Rightarrow> bool" where
  "wantsDangerousMessageRead params \<longleftrightarrow>
     map_get params ''dangerouslyAllowMessageRead'' = Some (VBool True) \<or>
     map_get params ''dangerouslyAllowMessageRead'' = Some (VStr ''true'')"

definition resolveChatId :: "(string, js_value) js_map \<Rightarrow> string option" where
  "resolveChatId params =
     (case map_get params ''chatId'' of
        Some (VStr chatId) \<Rightarrow> if chatId \<noteq> [] then Some chatId else None
      | _ \<Rightarrow> None)"

definition buildCacheKey :: "string \<Rightarrow> string \<Rightarrow> string" where
  "buildCacheKey sessionKey chatId = sessionKey @ '':'' @ chatId"

subsection \<open>Processes\<close>

text \<open>The time and the fresh identifier a process finds when it goes on.\<close>

record moment =
  mo_now :: int
  mo_uuid :: string

text \<open>
  \<open>P_audit\<close> waits for an entry to be appended (\<open>Some\<close> cause when that throws), \<open>P_notify\<close> for the
  disclosure handler (\<open>Some\<close> error when it fails), \<open>P_authorize\<close> and \<open>P_fingerprint\<close> for the approver;
  \<open>P_yield\<close> is an await of a function that answers at once, where other calls may come between.
\<close>

datatype elev_process =
    P_done "(elevation option, signet_error) result"
  | P_yield "moment \<Rightarrow> elev_state \<Rightarrow> elev_process \<times> elev_state"
  | P_audit audit_entry "string option \<Rightarrow> moment \<Rightarrow> elev_state \<Rightarrow> elev_process \<times> elev_state"
  | P_notify "string list" bool "signet_error option \<Rightarrow> moment \<Rightarrow> elev_state \<Rightarrow> elev_process \<times> elev_state"
  | P_authorize "signet_error option \<Rightarrow> moment \<Rightarrow> elev_state \<Rightarrow> elev_process \<times> elev_state"
  | P_fingerprint "(string, signet_error) result \<Rightarrow> moment \<Rightarrow> elev_state \<Rightarrow> elev_process \<times> elev_state"

type_synonym kont = "moment \<Rightarrow> elev_state \<Rightarrow> elev_process \<times> elev_state"

definition finish :: "(elevation option, signet_error) result \<Rightarrow> kont" where
  "finish r mo st = (P_done r, st)"

definition audit_failure :: "string \<Rightarrow> string \<Rightarrow> signet_error" where
  "audit_failure action cause =
     InternalError_create ''Failed to write admin read elevation audit log''
       (Some [(''cause'', VStr cause), (''action'', VStr action)])"

definition appendAudit ::
  "elev_env \<Rightarrow> string \<Rightarrow> bool \<Rightarrow> string \<Rightarrow> (string \<times> js_value) list \<Rightarrow> (signet_error option \<Rightarrow> kont) \<Rightarrow> kont" where
  "appendAudit en action success target detail k mo st =
     (if \<not> le_hasAuditLog en then (P_yield (k None), st)
      else (P_audit \<lparr>au_timestamp = mo_now mo, au_action = action, au_target = Some target,
                     au_detail = detail, au_success = success\<rparr>
              (\<lambda>thrown. k (map_option (audit_failure action) thrown)), st))"

definition elevation_detail ::
  "elev_env \<Rightarrow> elevation_input \<Rightarrow> elevation \<Rightarrow> (string \<times> js_value) list" where
  "elevation_detail en inp e =
     [(''method'', VStr (li_method inp)), (''adminKeyFingerprint'', VStr (li_adminFingerprint inp)),
      (''approvalId'', VStr (ae_approvalId e)), (''expiresAt'', VStr (le_iso en (ae_expiresAt e)))]"

definition session_scoped :: "(string \<times> js_value) list" where
  "session_scoped = [(''mode'', VStr ''session-scoped'')]"

definition appendReuseAudit ::
  "elev_env \<Rightarrow> elevation_input \<Rightarrow> elevation \<Rightarrow> string \<Rightarrow> (signet_error option \<Rightarrow> kont) \<Rightarrow> kont" where
  "appendReuseAudit en inp e chatId =
     appendAudit en ''admin.read-elevation.reused'' True chatId (elevation_detail en inp e @ session_scoped)"

definition appendExpiredAudit ::
  "elev_env \<Rightarrow> elevation_input \<Rightarrow> elevation \<Rightarrow> string \<Rightarrow> (signet_error option \<Rightarrow> kont) \<Rightarrow> kont" where
  "appendExpiredAudit en inp e chatId =
     appendAudit en ''admin.read-elevation.expired'' True chatId (elevation_detail en inp e @ session_scoped)"

definition notifyDisclosureChanged ::
  "elev_env \<Rightarrow> string list \<Rightarrow> bool \<Rightarrow> (signet_error option \<Rightarrow> kont) \<Rightarrow> kont" where
  "notifyDisclosureChanged en chatIds includeExpired k mo st =
     (if \<not> le_hasOnChanged en \<or> chatIds = [] then (P_yield (k None), st)
      else (P_notify chatIds includeExpired k, st))"

definition clearExpirationTimer :: "string \<Rightarrow> elev_state \<Rightarrow> elev_state" where
  "clearExpirationTimer cacheKey st = st\<lparr>es_timers := map_delete (es_timers st) cacheKey\<rparr>"

definition rollback_failure :: "string \<Rightarrow> signet_error \<Rightarrow> signet_error \<Rightarrow> signet_error" where
  "rollback_failure what e rollback =
     InternalError_create what
       (Some [(''reason'', VStr (err_message e)), (''category'', VStr (category_name (err_category e))),
              (''rollbackReason'', VStr (err_message rollback)),
              (''rollbackCategory'', VStr (category_name (err_category rollback)))])"

definition cached_disclosure :: "elev_env \<Rightarrow> cached_elevation \<Rightarrow> disclosure" where
  "cached_disclosure en c = \<lparr>dc_operatorId = le_actor en, dc_expiresAt = ae_expiresAt (ce_elevation c)\<rparr>"

text \<open>A change whose refresh failed is taken back, and the refresh repeated.\<close>

definition approval_notified ::
  "elev_env \<Rightarrow> cached_elevation \<Rightarrow> (signet_error option \<Rightarrow> kont) \<Rightarrow> signet_error option \<Rightarrow> kont" where
  "approval_notified en c k failed mo st =
     (case failed of
        None \<Rightarrow> k None mo st
      | Some e \<Rightarrow>
          let (rollbackChats, ds) = ds_delete (mo_now mo) [ce_chatId c] (ce_sessionKey c) (es_disclosures st)
          in notifyDisclosureChanged en rollbackChats False
            (\<lambda>failed2. case failed2 of
               None \<Rightarrow> k (Some e)
             | Some e2 \<Rightarrow> k (Some (rollback_failure ''Failed to roll back admin read disclosure refresh'' e e2)))
            mo (st\<lparr>es_disclosures := ds\<rparr>))"

definition syncDisclosureApproval ::
  "elev_env \<Rightarrow> cached_elevation \<Rightarrow> (signet_error option \<Rightarrow> kont) \<Rightarrow> kont" where
  "syncDisclosureApproval en c k mo st =
     (if \<not> le_hasDisclosureStore en then (P_yield (k None), st)
      else
        let (changedChats, ds) =
              ds_set (mo_now mo) [ce_chatId c] (ce_sessionKey c) (cached_disclosure en c) (es_disclosures st)
        in notifyDisclosureChanged en changedChats False (approval_notified en c k) mo (st\<lparr>es_disclosures := ds\<rparr>))"

definition expiry_notified ::
  "elev_env \<Rightarrow> cached_elevation \<Rightarrow> (signet_error option \<Rightarrow> kont) \<Rightarrow> signet_error option \<Rightarrow> kont" where
  "expiry_notified en c k failed mo st =
     (case failed of
        None \<Rightarrow> k None mo st
      | Some e \<Rightarrow>
          notifyDisclosureChanged en [ce_chatId c] True
            (\<lambda>failed2. case failed2 of
               None \<Rightarrow> k (Some e)
             | Some e2 \<Rightarrow> k (Some (rollback_failure ''Failed to roll back expired admin read disclosure refresh'' e e2)))
            mo (st\<lparr>es_disclosures :=
              ds_restore [ce_chatId c] (ce_sessionKey c) (cached_disclosure en c) (es_disclosures st)\<rparr>))"

definition syncDisclosureExpiry ::
  "elev_env \<Rightarrow> cached_elevation \<Rightarrow> (signet_error option \<Rightarrow> kont) \<Rightarrow> kont" where
  "syncDisclosureExpiry en c k mo st =
     (if \<not> le_hasDisclosureStore en then (P_yield (k None), st)
      else
        let (changedChats, ds) = ds_delete (mo_now mo) [ce_chatId c] (ce_sessionKey c) (es_disclosures st)
        in notifyDisclosureChanged en changedChats False (expiry_notified en c k) mo (st\<lparr>es_disclosures := ds\<rparr>))"

definition refresh_failed_detail :: "string \<Rightarrow> signet_error \<Rightarrow> (string \<times> js_value) list" where
  "refresh_failed_detail stage e =
     [(''stage'', VStr stage), (''reason'', VStr (err_message e)),
      (''category'', VStr (category_name (err_category e)))]"

definition timer_input :: "cached_elevation \<Rightarrow> elevation_input" where
  "timer_input c = \<lparr>li_method = ''message.list'', li_params = [(''chatId'', VStr (ce_chatId c))],
     li_adminFingerprint = [], li_sessionKey = ce_sessionKey c\<rparr>"

definition expireCachedElevation ::
  "elev_env \<Rightarrow> cached_elevation \<Rightarrow> elevation_input option \<Rightarrow> (signet_error option \<Rightarrow> kont) \<Rightarrow> kont" where
  "expireCachedElevation en c inp k mo st =
     (let cacheKey = buildCacheKey (ce_sessionKey c) (ce_chatId c);
          e = ce_elevation c
      in syncDisclosureExpiry en c
          (\<lambda>disclosureFailed. appendExpiredAudit en (nullish inp (timer_input c)) e (ce_chatId c)
            (\<lambda>auditFailed. case disclosureFailed of
               Some de \<Rightarrow>
                 appendAudit en ''admin.read-elevation.disclosure-refresh-failed'' False (ce_chatId c)
                   ([(''approvalId'', VStr (ae_approvalId e)), (''expiresAt'', VStr (le_iso en (ae_expiresAt e)))] @
                    refresh_failed_detail ''expiry'' de)
                   (\<lambda>failed. case failed of Some ae \<Rightarrow> k (Some ae) | None \<Rightarrow> k (Some de))
             | None \<Rightarrow> k auditFailed))
          mo (clearExpirationTimer cacheKey (st\<lparr>es_cache := map_delete (es_cache st) cacheKey\<rparr>)))"

definition scheduleExpiration :: "int \<Rightarrow> cached_elevation \<Rightarrow> elev_state \<Rightarrow> elev_state" where
  "scheduleExpiration now c st =
     (let cacheKey = buildCacheKey (ce_sessionKey c) (ce_chatId c);
          st1 = clearExpirationTimer cacheKey st;
          delayMs = max 0 (ae_expiresAt (ce_elevation c) - now)
      in st1\<lparr>es_timers := map_set (es_timers st1) cacheKey (now + delayMs, c)\<rparr>)"

text \<open>The part of \<open>resolveForRequest\<close> from the approval on.\<close>

definition commit_elevation ::
  "elev_env \<Rightarrow> elevation_input \<Rightarrow> cached_elevation \<Rightarrow> kont" where
  "commit_elevation en inp c =
     (let e = ce_elevation c
      in appendAudit en ''admin.read-elevation.approved'' True (ce_chatId c)
          (elevation_detail en inp e @
           [(''approvalKeyFingerprint'', VStr (ae_approvalKeyFingerprint e))] @ session_scoped)
          (\<lambda>auditFailed mo st. case auditFailed of
             Some ae \<Rightarrow>
               syncDisclosureExpiry en c
                 (\<lambda>rollbackFailed. case rollbackFailed of
                    Some re \<Rightarrow> finish (Err re) | None \<Rightarrow> finish (Err ae)) mo st
           | None \<Rightarrow>
               finish (Ok (Some e)) mo
                 (scheduleExpiration (mo_now mo) c
                   (st\<lparr>es_cache := map_set (es_cache st) (buildCacheKey (li_sessionKey inp) (ce_chatId c)) c\<rparr>))))"

definition new_elevation :: "elev_env \<Rightarrow> string \<Rightarrow> string \<Rightarrow> moment \<Rightarrow> elevation" where
  "new_elevation en chatId fingerprint mo =
     \<lparr>ae_approvalId = ''approval_'' @ filter (\<lambda>c. c \<noteq> CHR ''-'') (mo_uuid mo), ae_chatIds = [chatId],
      ae_approvedAt = mo_now mo, ae_expiresAt = mo_now mo + le_ttlMs en,
      ae_approvalKeyFingerprint = fingerprint\<rparr>"

definition disclose_and_commit :: "elev_env \<Rightarrow> elevation_input \<Rightarrow> cached_elevation \<Rightarrow> kont" where
  "disclose_and_commit en inp c =
     syncDisclosureApproval en c
       (\<lambda>disclosureFailed. case disclosureFailed of
          Some de \<Rightarrow>
            appendAudit en ''admin.read-elevation.disclosure-refresh-failed'' False (ce_chatId c)
              (elevation_detail en inp (ce_elevation c) @ refresh_failed_detail ''approval'' de)
              (\<lambda>failed. case failed of Some ae \<Rightarrow> finish (Err ae) | None \<Rightarrow> finish (Err de))
        | None \<Rightarrow> commit_elevation en inp c)"

definition approve_elevation :: "elev_env \<Rightarrow> elevation_input \<Rightarrow> string \<Rightarrow> kont" where
  "approve_elevation en inp chatId mo st =
     (if \<not> le_hasApprover en
      then finish (Err (InternalError_create ''Admin read elevation approver is not configured''
              (Some [(''method'', VStr (li_method inp))]))) mo st
      else (P_authorize (\<lambda>refused. case refused of
        Some ae \<Rightarrow>
          appendAudit en ''admin.read-elevation.denied'' False chatId
            ([(''method'', VStr (li_method inp)), (''adminKeyFingerprint'', VStr (li_adminFingerprint inp)),
              (''reason'', VStr (err_message ae)), (''category'', VStr (category_name (err_category ae)))] @
             session_scoped)
            (\<lambda>failed. case failed of Some e \<Rightarrow> finish (Err e) | None \<Rightarrow> finish (Err ae))
      | None \<Rightarrow> (\<lambda>mo1 st1. (P_fingerprint (\<lambda>fp. case fp of
          Err e \<Rightarrow> finish (Err e)
        | Ok fingerprint \<Rightarrow> (\<lambda>mo2. disclose_and_commit en inp
            \<lparr>ce_elevation = new_elevation en chatId fingerprint mo2, ce_chatId = chatId,
             ce_sessionKey = li_sessionKey inp\<rparr> mo2)), st1))), st))"

definition resolveForRequest :: "elev_env \<Rightarrow> elevation_input \<Rightarrow> kont" where
  "resolveForRequest en inp mo st =
     (if \<not> isMessageReadMethod (li_method inp) \<or> \<not> wantsDangerousMessageRead (li_params inp)
      then finish (Ok None) mo st
      else case resolveChatId (li_params inp) of
        None \<Rightarrow> finish (Ok None) mo st
      | Some chatId \<Rightarrow>
          let canonicalChatId = le_normalizeChatId en chatId;
              cacheKey = buildCacheKey (li_sessionKey inp) canonicalChatId
          in case map_get (es_cache st) cacheKey of
            None \<Rightarrow> approve_elevation en inp canonicalChatId mo st
          | Some c \<Rightarrow>
              if ae_expiresAt (ce_elevation c) > mo_now mo
              then appendReuseAudit en inp (ce_elevation c) canonicalChatId
                (\<lambda>failed. case failed of
                   Some e \<Rightarrow> finish (Err e)
                 | None \<Rightarrow> finish (Ok (Some (ce_elevation c)))) mo st
              else expireCachedElevation en c (Some inp)
                (\<lambda>failed. case failed of
                   Some e \<Rightarrow> finish (Err e)
                 | None \<Rightarrow> approve_elevation en inp canonicalChatId) mo st)"

text \<open>A timer that fired.\<close>

definition elevation_timer_fired :: "elev_env \<Rightarrow> cached_elevation \<Rightarrow> kont" where
  "elevation_timer_fired en c =
     expireCachedElevation en c None
       (\<lambda>failed. case failed of Some e \<Rightarrow> finish (Err e) | None \<Rightarrow> finish (Ok None))"

end
