(* ===== verification/ElevationSafety.thy ===== *)
theory ElevationSafety
  imports ReadElevation
begin

text \<open>
  Read elevations under interleaving: any number of calls and expiration timers run at the same
  time, each going on when the answer it waits for arrives. Which elevations a call can get, and
  what was approved and recorded before it gets one.
\<close>

subsection \<open>Running calls\<close>

datatype approver_event = Authorized | Fingerprint string

record elev_call =
  ec_input :: "(elevation_input \<times> int) option"
  ec_process :: elev_process

record elev_system =
  ey_store :: elev_state
  ey_calls :: "elev_call list"
  ey_now :: int
  ey_events :: "(elevation_input \<times> approver_event) list"

text \<open>A session key is the issuer's fingerprint and the token's identifier around one colon.\<close>

definition session_key_ok :: "string \<Rightarrow> bool" where
  "session_key_ok s \<longleftrightarrow> length (filter (\<lambda>c. c = CHR '':'') s) = 1"

definition begin_call ::
  "(elevation_input \<times> int) option \<Rightarrow> elev_process \<times> elev_state \<Rightarrow> int \<Rightarrow> elev_system \<Rightarrow> elev_system" where
  "begin_call c x now sy = sy\<lparr>ey_store := snd x, ey_now := now,
     ey_calls := ey_calls sy @ [\<lparr>ec_input = c, ec_process = fst x\<rparr>]\<rparr>"

definition go_on :: "nat \<Rightarrow> elev_process \<times> elev_state \<Rightarrow> int \<Rightarrow> elev_system \<Rightarrow> elev_system" where
  "go_on i x now sy = sy\<lparr>ey_store := snd x, ey_now := now,
     ey_calls := (ey_calls sy)[i := (ey_calls sy ! i)\<lparr>ec_process := fst x\<rparr>]\<rparr>"

definition add_event :: "elev_call \<Rightarrow> approver_event option \<Rightarrow> elev_system \<Rightarrow> elev_system" where
  "add_event c ev sy =
     (case (ec_input c, ev) of
        (Some (inp, _), Some v) \<Rightarrow> sy\<lparr>ey_events := ey_events sy @ [(inp, v)]\<rparr>
      | _ \<Rightarrow> sy)"

definition append_entry :: "audit_entry \<Rightarrow> elev_state \<Rightarrow> elev_state" where
  "append_entry entry st = st\<lparr>es_audit := es_audit st @ [entry]\<rparr>"

definition start_system :: elev_system where
  "start_system = \<lparr>ey_store = createAdminReadElevationManager, ey_calls = [], ey_now = 0, ey_events = []\<rparr>"

inductive elev_reachable :: "elev_env \<Rightarrow> elev_system \<Rightarrow> bool" for en where
  started: "elev_reachable en start_system"
| called: "elev_reachable en sy \<Longrightarrow> ey_now sy \<le> mo_now mo \<Longrightarrow> session_key_ok (li_sessionKey inp) \<Longrightarrow>
    elev_reachable en (begin_call (Some (inp, mo_now mo)) (resolveForRequest en inp mo (ey_store sy)) (mo_now mo) sy)"
| timer: "elev_reachable en sy \<Longrightarrow> ey_now sy \<le> mo_now mo \<Longrightarrow> (key, due, c) \<in> set (es_timers (ey_store sy)) \<Longrightarrow>
    due \<le> mo_now mo \<Longrightarrow>
    elev_reachable en (begin_call None (elevation_timer_fired en c mo (ey_store sy)) (mo_now mo) sy)"
| yielded: "elev_reachable en sy \<Longrightarrow> ey_now sy \<le> mo_now mo \<Longrightarrow> i < length (ey_calls sy) \<Longrightarrow>
    ec_process (ey_calls sy ! i) = P_yield k \<Longrightarrow>
    elev_reachable en (go_on i (k mo (ey_store sy)) (mo_now mo) sy)"
| audited: "elev_reachable en sy \<Longrightarrow> ey_now sy \<le> mo_now mo \<Longrightarrow> i < length (ey_calls sy) \<Longrightarrow>
    ec_process (ey_calls sy ! i) = P_audit entry ka \<Longrightarrow>
    elev_reachable en (go_on i (ka None mo (append_entry entry (ey_store sy))) (mo_now mo) sy)"
| audit_thrown: "elev_reachable en sy \<Longrightarrow> ey_now sy \<le> mo_now mo \<Longrightarrow> i < length (ey_calls sy) \<Longrightarrow>
    ec_process (ey_calls sy ! i) = P_audit entry ka \<Longrightarrow>
    elev_reachable en (go_on i (ka (Some cause) mo (ey_store sy)) (mo_now mo) sy)"
| notified: "elev_reachable en sy \<Longrightarrow> ey_now sy \<le> mo_now mo \<Longrightarrow> i < length (ey_calls sy) \<Longrightarrow>
    ec_process (ey_calls sy ! i) = P_notify chats expired kn \<Longrightarrow>
    elev_reachable en (go_on i (kn failed mo (ey_store sy)) (mo_now mo) sy)"
| authorize_answered: "elev_reachable en sy \<Longrightarrow> ey_now sy \<le> mo_now mo \<Longrightarrow> i < length (ey_calls sy) \<Longrightarrow>
    ec_process (ey_calls sy ! i) = P_authorize kn \<Longrightarrow>
    elev_reachable en (go_on i (kn refused mo (ey_store sy)) (mo_now mo)
      (add_event (ey_calls sy ! i) (if refused = None then Some Authorized else None) sy))"
| fingerprint_answered: "elev_reachable en sy \<Longrightarrow> ey_now sy \<le> mo_now mo \<Longrightarrow> i < length (ey_calls sy) \<Longrightarrow>
    ec_process (ey_calls sy ! i) = P_fingerprint kf \<Longrightarrow>
    elev_reachable en (go_on i (kf fp mo (ey_store sy)) (mo_now mo)
      (add_event (ey_calls sy ! i) (case fp of Ok f \<Rightarrow> Some (Fingerprint f) | Err _ \<Rightarrow> None) sy))"

subsection \<open>What a call relies on and guarantees\<close>

text \<open>What has happened: the time, the approver's answers and the audit log. It only grows.\<close>

record elev_past =
  pa_now :: int
  pa_events :: "(elevation_input \<times> approver_event) set"
  pa_audit :: "audit_entry set"

definition later :: "elev_past \<Rightarrow> elev_past \<Rightarrow> bool" where
  "later w w' \<longleftrightarrow> pa_now w \<le> pa_now w' \<and> pa_events w \<subseteq> pa_events w' \<and> pa_audit w \<subseteq> pa_audit w'"

lemma later_refl [simp]: "later w w"
  by (simp add: later_def)

lemma later_trans: "later w w' \<Longrightarrow> later w' w'' \<Longrightarrow> later w w''"
  by (auto simp: later_def)

text \<open>A call that may ask for an elevation for the chat.\<close>

definition asks_for :: "elev_env \<Rightarrow> elevation_input \<Rightarrow> string \<Rightarrow> bool" where
  "asks_for en inp chat \<longleftrightarrow>
     isMessageReadMethod (li_method inp) \<and> wantsDangerousMessageRead (li_params inp) \<and>
     map_option (le_normalizeChatId en) (resolveChatId (li_params inp)) = Some chat"

definition approved_for :: "elev_env \<Rightarrow> elev_past \<Rightarrow> string \<Rightarrow> string \<Rightarrow> elevation \<Rightarrow> bool" where
  "approved_for en w session chat e \<longleftrightarrow>
     (\<exists>inp. asks_for en inp chat \<and> li_sessionKey inp = session \<and>
        (inp, Authorized) \<in> pa_events w \<and> (inp, Fingerprint (ae_approvalKeyFingerprint e)) \<in> pa_events w)"

definition elevation_fits :: "elev_env \<Rightarrow> string \<Rightarrow> elevation \<Rightarrow> bool" where
  "elevation_fits en chat e \<longleftrightarrow> ae_chatIds e = [chat] \<and> ae_expiresAt e = ae_approvedAt e + le_ttlMs en"

definition recorded_for :: "elev_past \<Rightarrow> elevation_input \<Rightarrow> string \<Rightarrow> elevation \<Rightarrow> bool" where
  "recorded_for w inp chat e \<longleftrightarrow>
     (\<exists>a \<in> pa_audit w. au_success a \<and> au_target a = Some chat \<and>
        au_action a \<in> {''admin.read-elevation.approved'', ''admin.read-elevation.reused''} \<and>
        map_of (au_detail a) ''method'' = Some (VStr (li_method inp)) \<and>
        map_of (au_detail a) ''adminKeyFingerprint'' = Some (VStr (li_adminFingerprint inp)) \<and>
        map_of (au_detail a) ''approvalId'' = Some (VStr (ae_approvalId e)))"

definition granted :: "elev_env \<Rightarrow> elev_past \<Rightarrow> elevation_input \<Rightarrow> int \<Rightarrow> elevation \<Rightarrow> bool" where
  "granted en w inp start e \<longleftrightarrow>
     (\<exists>chat. asks_for en inp chat \<and> elevation_fits en chat e \<and> start < ae_expiresAt e \<and>
        approved_for en w (li_sessionKey inp) chat e \<and> (le_hasAuditLog en \<longrightarrow> recorded_for w inp chat e))"

definition cached_ok :: "elev_env \<Rightarrow> elev_past \<Rightarrow> string \<times> cached_elevation \<Rightarrow> bool" where
  "cached_ok en w p \<longleftrightarrow>
     fst p = buildCacheKey (ce_sessionKey (snd p)) (ce_chatId (snd p)) \<and> session_key_ok (ce_sessionKey (snd p)) \<and>
     elevation_fits en (ce_chatId (snd p)) (ce_elevation (snd p)) \<and>
     approved_for en w (ce_sessionKey (snd p)) (ce_chatId (snd p)) (ce_elevation (snd p))"

definition store_ok :: "elev_env \<Rightarrow> elev_past \<Rightarrow> elev_state \<Rightarrow> bool" where
  "store_ok en w st \<longleftrightarrow> (\<forall>p \<in> set (es_cache st). cached_ok en w p) \<and> pa_audit w \<subseteq> set (es_audit st)"

lemma approved_later: "later w w' \<Longrightarrow> approved_for en w s c e \<Longrightarrow> approved_for en w' s c e"
  by (auto simp: later_def approved_for_def)

lemma recorded_later: "later w w' \<Longrightarrow> recorded_for w i c e \<Longrightarrow> recorded_for w' i c e"
  by (auto simp: later_def recorded_for_def)

lemma granted_later: "later w w' \<Longrightarrow> granted en w i s e \<Longrightarrow> granted en w' i s e"
  unfolding granted_def by (meson approved_later recorded_later)

lemma store_ok_updates [simp]:
  "store_ok en w (st\<lparr>es_disclosures := ds\<rparr>) = store_ok en w st"
  "store_ok en w (st\<lparr>es_timers := ts\<rparr>) = store_ok en w st"
  by (simp_all add: store_ok_def)

text \<open>
  A process keeps its promise when, however long it waits and whatever the others do meanwhile to
  the store as long as they keep it sound, it goes on to leave the store sound, and it ends with an
  elevation only if that was granted.
\<close>

inductive keeps :: "elev_env \<Rightarrow> (elevation_input \<times> int) option \<Rightarrow> elev_past \<Rightarrow> elev_process \<Rightarrow> bool" for en c where
  keeps_done: "(\<And>e inp start. c = Some (inp, start) \<Longrightarrow> r = Ok (Some e) \<Longrightarrow> granted en w inp start e) \<Longrightarrow>
    keeps en c w (P_done r)"
| keeps_yield: "(\<And>w' mo st. later w w' \<Longrightarrow> mo_now mo = pa_now w' \<Longrightarrow> store_ok en w' st \<Longrightarrow>
      store_ok en w' (snd (k mo st)) \<and> keeps en c w' (fst (k mo st))) \<Longrightarrow>
    keeps en c w (P_yield k)"
| keeps_audit: "(\<And>w' mo st a. later w w' \<Longrightarrow> mo_now mo = pa_now w' \<Longrightarrow> store_ok en w' st \<Longrightarrow>
      (a = None \<Longrightarrow> entry \<in> pa_audit w') \<Longrightarrow>
      store_ok en w' (snd (ka a mo st)) \<and> keeps en c w' (fst (ka a mo st))) \<Longrightarrow>
    keeps en c w (P_audit entry ka)"
| keeps_notify: "(\<And>w' mo st f. later w w' \<Longrightarrow> mo_now mo = pa_now w' \<Longrightarrow> store_ok en w' st \<Longrightarrow>
      store_ok en w' (snd (kn f mo st)) \<and> keeps en c w' (fst (kn f mo st))) \<Longrightarrow>
    keeps en c w (P_notify chats expired kn)"
| keeps_authorize: "(\<And>w' mo st f. later w w' \<Longrightarrow> mo_now mo = pa_now w' \<Longrightarrow> store_ok en w' st \<Longrightarrow>
      (\<And>inp start. c = Some (inp, start) \<Longrightarrow> f = None \<Longrightarrow> (inp, Authorized) \<in> pa_events w') \<Longrightarrow>
      store_ok en w' (snd (kn f mo st)) \<and> keeps en c w' (fst (kn f mo st))) \<Longrightarrow>
    keeps en c w (P_authorize kn)"
| keeps_fingerprint: "(\<And>w' mo st r. later w w' \<Longrightarrow> mo_now mo = pa_now w' \<Longrightarrow> store_ok en w' st \<Longrightarrow>
      (\<And>inp start fp. c = Some (inp, start) \<Longrightarrow> r = Ok fp \<Longrightarrow> (inp, Fingerprint fp) \<in> pa_events w') \<Longrightarrow>
      store_ok en w' (snd (kf r mo st)) \<and> keeps en c w' (fst (kf r mo st))) \<Longrightarrow>
    keeps en c w (P_fingerprint kf)"

inductive_cases keeps_cases:
  "keeps en c w (P_done r)" "keeps en c w (P_yield k)" "keeps en c w (P_audit entry ka)"
  "keeps en c w (P_notify chats expired kn)" "keeps en c w (P_authorize kn)" "keeps en c w (P_fingerprint kf)"

lemma keeps_later:
  assumes "keeps en c w p" "later w w'"
  shows "keeps en c w' p"
proof (cases p)
  case (P_done r)
  have "granted en w' inp start e" if "c = Some (inp, start)" "r = Ok (Some e)" for e inp start
    by (rule granted_later [OF assms(2)]) (use assms(1) that P_done in \<open>auto elim: keeps_cases\<close>)
  then show ?thesis using P_done by (auto intro: keeps_done)
next
  case (P_yield k)
  show ?thesis unfolding P_yield
    by (rule keeps_yield, rule keeps_cases(2) [OF assms(1) [unfolded P_yield]])
      (metis later_trans [OF assms(2)])
next
  case (P_audit entry k)
  show ?thesis unfolding P_audit
    by (rule keeps_audit, rule keeps_cases(3) [OF assms(1) [unfolded P_audit]])
      (metis later_trans [OF assms(2)])
next
  case (P_notify chats expired k)
  show ?thesis unfolding P_notify
    by (rule keeps_notify, rule keeps_cases(4) [OF assms(1) [unfolded P_notify]])
      (metis later_trans [OF assms(2)])
next
  case (P_authorize k)
  show ?thesis unfolding P_authorize
    by (rule keeps_authorize, rule keeps_cases(5) [OF assms(1) [unfolded P_authorize]])
      (metis later_trans [OF assms(2)])
next
  case (P_fingerprint k)
  show ?thesis unfolding P_fingerprint
    by (rule keeps_fingerprint, rule keeps_cases(6) [OF assms(1) [unfolded P_fingerprint]])
      (metis later_trans [OF assms(2)])
qed

text \<open>The same for a continuation.\<close>

definition goes_on :: "elev_env \<Rightarrow> (elevation_input \<times> int) option \<Rightarrow> elev_past \<Rightarrow> kont \<Rightarrow> bool" where
  "goes_on en c w k \<longleftrightarrow>
     (\<forall>w' mo st. later w w' \<and> mo_now mo = pa_now w' \<and> store_ok en w' st \<longrightarrow>
        store_ok en w' (snd (k mo st)) \<and> keeps en c w' (fst (k mo st)))"

lemma goes_on_later: "goes_on en c w k \<Longrightarrow> later w w' \<Longrightarrow> goes_on en c w' k"
  unfolding goes_on_def by (meson later_trans)

lemma goes_onD:
  "goes_on en c w k \<Longrightarrow> later w w' \<Longrightarrow> mo_now mo = pa_now w' \<Longrightarrow> store_ok en w' st \<Longrightarrow>
   store_ok en w' (snd (k mo st)) \<and> keeps en c w' (fst (k mo st))"
  by (simp add: goes_on_def)

lemma goes_onI:
  "(\<And>w' mo st. later w w' \<Longrightarrow> mo_now mo = pa_now w' \<Longrightarrow> store_ok en w' st \<Longrightarrow>
     store_ok en w' (snd (k mo st)) \<and> keeps en c w' (fst (k mo st))) \<Longrightarrow> goes_on en c w k"
  by (simp add: goes_on_def)

lemma finish_err: "goes_on en c w (finish (Err e))"
  by (auto simp: goes_on_def finish_def intro: keeps_done)

lemma finish_none: "goes_on en c w (finish (Ok None))"
  by (auto simp: goes_on_def finish_def intro: keeps_done)

lemma finish_ok:
  "(\<And>inp start. c = Some (inp, start) \<Longrightarrow> granted en w inp start e) \<Longrightarrow> goes_on en c w (finish (Ok (Some e)))"
  unfolding goes_on_def finish_def using granted_later by (fastforce intro: keeps_done)

subsection \<open>The steps of a call\<close>

lemma goes_appendAudit:
  assumes "\<And>f. goes_on en c w (k (Some f))"
    and "\<And>w'. later w w' \<Longrightarrow> (le_hasAuditLog en \<Longrightarrow> \<exists>t. \<lparr>au_timestamp = t, au_action = action,
       au_target = Some target, au_detail = detail, au_success = success\<rparr> \<in> pa_audit w') \<Longrightarrow> goes_on en c w' (k None)"
  shows "goes_on en c w (appendAudit en action success target detail k)"
proof (rule goes_onI)
  fix w1 and mo :: moment and st assume 1: "later w w1" "mo_now mo = pa_now w1" "store_ok en w1 st"
  let ?e = "\<lparr>au_timestamp = mo_now mo, au_action = action, au_target = Some target, au_detail = detail, au_success = success\<rparr>"
  show "store_ok en w1 (snd (appendAudit en action success target detail k mo st)) \<and>
        keeps en c w1 (fst (appendAudit en action success target detail k mo st))"
  proof (cases "le_hasAuditLog en")
    case True
    have "keeps en c w1 (P_audit ?e (\<lambda>thrown. k (map_option (audit_failure action) thrown)))"
    proof (rule keeps_audit)
      fix w2 and mo2 :: moment and st2 and a :: "string option"
      assume 2: "later w1 w2" "mo_now mo2 = pa_now w2" "store_ok en w2 st2" "a = None \<Longrightarrow> ?e \<in> pa_audit w2"
      have l: "later w w2" using 1(1) 2(1) by (rule later_trans)
      have "goes_on en c w2 (k (map_option (audit_failure action) a))"
        using assms(2) [OF l] 2(4) goes_on_later [OF assms(1) l] by (cases a) auto
      from goes_onD [OF this later_refl 2(2,3)]
      show "store_ok en w2 (snd (k (map_option (audit_failure action) a) mo2 st2)) \<and>
            keeps en c w2 (fst (k (map_option (audit_failure action) a) mo2 st2))" .
    qed
    then show ?thesis using True 1(3) by (simp add: appendAudit_def)
  next
    case False
    have "keeps en c w1 (P_yield (k None))"
    proof (rule keeps_yield)
      fix w2 and mo2 :: moment and st2 assume 2: "later w1 w2" "mo_now mo2 = pa_now w2" "store_ok en w2 st2"
      have "goes_on en c w2 (k None)" using assms(2) later_trans [OF 1(1) 2(1)] False by auto
      from goes_onD [OF this later_refl 2(2,3)]
      show "store_ok en w2 (snd (k None mo2 st2)) \<and> keeps en c w2 (fst (k None mo2 st2))" .
    qed
    then show ?thesis using False 1(3) by (simp add: appendAudit_def)
  qed
qed

lemma goes_appendAudit_any:
  "(\<And>f. goes_on en c w (k f)) \<Longrightarrow> goes_on en c w (appendAudit en action success target detail k)"
  by (rule goes_appendAudit) (auto intro: goes_on_later)

lemma keeps_yieldI: "goes_on en c w k \<Longrightarrow> keeps en c w (P_yield k)"
  by (rule keeps_yield) (auto simp: goes_on_def)

lemma keeps_notifyI: "(\<And>f. goes_on en c w (k f)) \<Longrightarrow> keeps en c w (P_notify chats expired k)"
  by (rule keeps_notify) (auto simp: goes_on_def)

lemma notify_store [simp]: "snd (notifyDisclosureChanged en chats expired k mo st) = st"
  by (simp add: notifyDisclosureChanged_def)

lemma notify_keeps: "(\<And>f. goes_on en c w (k f)) \<Longrightarrow> keeps en c w (fst (notifyDisclosureChanged en chats expired k mo st))"
  by (simp add: notifyDisclosureChanged_def keeps_yieldI keeps_notifyI)

lemma goes_notified:
  assumes "\<And>f. goes_on en c w (k f)"
  shows "goes_on en c w (approval_notified en ce k f)" "goes_on en c w (expiry_notified en ce k f)"
proof -
  have k: "goes_on en c w1 (k g)" if "later w w1" for w1 g using goes_on_later [OF assms that] .
  have "store_ok en w1 (snd (approval_notified en ce k f mo st)) \<and> keeps en c w1 (fst (approval_notified en ce k f mo st)) \<and>
      store_ok en w1 (snd (expiry_notified en ce k f mo st)) \<and> keeps en c w1 (fst (expiry_notified en ce k f mo st))"
    if 1: "later w w1" "mo_now mo = pa_now w1" "store_ok en w1 st" for w1 and mo :: moment and st
  proof (cases f)
    case None
    then show ?thesis using goes_onD [OF k [OF 1(1)] later_refl 1(2,3), of None]
      by (simp add: approval_notified_def expiry_notified_def)
  next
    case (Some e)
    have "goes_on en c w1 (case f2 of None \<Rightarrow> k (Some e) | Some e2 \<Rightarrow> k (Some (h e2)))" for f2 h
      using k [OF 1(1)] by (cases f2) auto
    then show ?thesis using Some 1(3)
      by (auto simp: approval_notified_def expiry_notified_def split: prod.split intro!: notify_keeps)
  qed
  then show "goes_on en c w (approval_notified en ce k f)" "goes_on en c w (expiry_notified en ce k f)"
    by (simp_all add: goes_on_def)
qed

lemma goes_syncDisclosure:
  assumes "\<And>f. goes_on en c w (k f)"
  shows "goes_on en c w (syncDisclosureApproval en ce k)" "goes_on en c w (syncDisclosureExpiry en ce k)"
proof -
  have k: "goes_on en c w1 (k g)" if "later w w1" for w1 g using goes_on_later [OF assms that] .
  note n = goes_notified [OF k]
  show "goes_on en c w (syncDisclosureApproval en ce k)" "goes_on en c w (syncDisclosureExpiry en ce k)"
    by (auto simp: syncDisclosureApproval_def syncDisclosureExpiry_def split: prod.split
        intro!: goes_onI keeps_yieldI k notify_keeps n)
qed

lemma store_ok_delete: "store_ok en w st \<Longrightarrow> store_ok en w (st\<lparr>es_cache := map_delete (es_cache st) key\<rparr>)"
  by (auto simp: store_ok_def map_delete_def AList.delete_eq)

lemma goes_option:
  "goes_on en c w a \<Longrightarrow> (\<And>x. goes_on en c w (b x)) \<Longrightarrow> goes_on en c w (case f of None \<Rightarrow> a | Some x \<Rightarrow> b x)"
  by (cases f) simp_all

lemma goes_expireCachedElevation:
  assumes "\<And>f. goes_on en c w (k f)"
  shows "goes_on en c w (expireCachedElevation en ce inp k)"
proof (rule goes_onI)
  fix w1 and mo :: moment and st assume 1: "later w w1" "mo_now mo = pa_now w1" "store_ok en w1 st"
  let ?key = "buildCacheKey (ce_sessionKey ce) (ce_chatId ce)"
  have "store_ok en w1 (clearExpirationTimer ?key (st\<lparr>es_cache := map_delete (es_cache st) ?key\<rparr>))"
    using store_ok_delete [OF 1(3)] by (simp add: clearExpirationTimer_def)
  then show "store_ok en w1 (snd (expireCachedElevation en ce inp k mo st)) \<and>
      keeps en c w1 (fst (expireCachedElevation en ce inp k mo st))"
    unfolding expireCachedElevation_def Let_def appendExpiredAudit_def
    by (intro goes_onD [OF _ later_refl 1(2)] goes_syncDisclosure goes_appendAudit_any goes_option
        goes_on_later [OF assms 1(1)])
qed

lemma map_set_set: "set (map_set m k v) \<subseteq> insert (k, v) (set m)"
  unfolding map_set_def by (induction m) auto

lemma store_ok_set: "store_ok en w st \<Longrightarrow> cached_ok en w (k, v) \<Longrightarrow> store_ok en w (st\<lparr>es_cache := map_set (es_cache st) k v\<rparr>)"
  unfolding store_ok_def using map_set_set [of "es_cache st" k v] by auto

text \<open>A new elevation is cached and returned only once it was recorded.\<close>

lemma goes_commit:
  assumes "c = Some (inp, start)" "start < ae_expiresAt e" "asks_for en inp chat" "elevation_fits en chat e"
    and "approved_for en w (li_sessionKey inp) chat e" "session_key_ok (li_sessionKey inp)"
    and "ce = \<lparr>ce_elevation = e, ce_chatId = chat, ce_sessionKey = li_sessionKey inp\<rparr>"
  shows "goes_on en c w (commit_elevation en inp ce)"
  unfolding commit_elevation_def Let_def
proof (rule goes_appendAudit)
  fix f
  have "goes_on en c w (syncDisclosureExpiry en ce (\<lambda>r. case r of Some re \<Rightarrow> finish (Err re) | None \<Rightarrow> finish (Err f)))"
    by (intro goes_syncDisclosure goes_option finish_err)
  then show "goes_on en c w (\<lambda>mo st. case Some f of
      Some ae \<Rightarrow> syncDisclosureExpiry en ce (\<lambda>r. case r of Some re \<Rightarrow> finish (Err re) | None \<Rightarrow> finish (Err ae)) mo st
    | None \<Rightarrow> finish (Ok (Some (ce_elevation ce))) mo (scheduleExpiration (mo_now mo) ce
        (st\<lparr>es_cache := map_set (es_cache st) (buildCacheKey (li_sessionKey inp) (ce_chatId ce)) ce\<rparr>)))"
    by simp
next
  fix w'
  assume w': "later w w'"
    and rec: "le_hasAuditLog en \<Longrightarrow> \<exists>t. \<lparr>au_timestamp = t, au_action = ''admin.read-elevation.approved'',
      au_target = Some (ce_chatId ce), au_detail = elevation_detail en inp (ce_elevation ce) @
        [(''approvalKeyFingerprint'', VStr (ae_approvalKeyFingerprint (ce_elevation ce)))] @ session_scoped,
      au_success = True\<rparr> \<in> pa_audit w'"
  have "recorded_for w' inp chat e" if "le_hasAuditLog en"
    using rec [OF that] unfolding recorded_for_def
    by (elim exE, rule_tac x = "\<lparr>au_timestamp = t, au_action = ''admin.read-elevation.approved'',
      au_target = Some (ce_chatId ce), au_detail = elevation_detail en inp (ce_elevation ce) @
        [(''approvalKeyFingerprint'', VStr (ae_approvalKeyFingerprint (ce_elevation ce)))] @ session_scoped,
      au_success = True\<rparr>" in bexI) (simp_all add: elevation_detail_def assms(7))
  moreover have ap: "approved_for en w' (li_sessionKey inp) chat e" using approved_later [OF w'] assms(5) .
  ultimately have g: "granted en w' inp start e" using assms(2-4) by (auto simp: granted_def)
  have co: "cached_ok en w' (buildCacheKey (li_sessionKey inp) (ce_chatId ce), ce)"
    using ap assms(4,6,7) by (simp add: cached_ok_def)
  have "store_ok en w2 (scheduleExpiration n ce (st\<lparr>es_cache := map_set (es_cache st) (buildCacheKey (li_sessionKey inp) (ce_chatId ce)) ce\<rparr>)) \<and>
      keeps en c w2 (P_done (Ok (Some (ce_elevation ce))))" if "later w' w2" "store_ok en w2 st" for w2 st n
  proof
    have "cached_ok en w2 (buildCacheKey (li_sessionKey inp) (ce_chatId ce), ce)"
      using co approved_later [OF that(1)] by (simp add: cached_ok_def)
    then show "store_ok en w2 (scheduleExpiration n ce (st\<lparr>es_cache := map_set (es_cache st) (buildCacheKey (li_sessionKey inp) (ce_chatId ce)) ce\<rparr>))"
      using store_ok_set [OF that(2)] by (simp add: scheduleExpiration_def clearExpirationTimer_def Let_def)
    show "keeps en c w2 (P_done (Ok (Some (ce_elevation ce))))"
      using granted_later [OF that(1) g] assms(1,7) by (auto intro: keeps_done)
  qed
  then show "goes_on en c w' (\<lambda>mo st. case None of
      Some ae \<Rightarrow> syncDisclosureExpiry en ce (\<lambda>r. case r of Some re \<Rightarrow> finish (Err re) | None \<Rightarrow> finish (Err ae)) mo st
    | None \<Rightarrow> finish (Ok (Some (ce_elevation ce))) mo (scheduleExpiration (mo_now mo) ce
        (st\<lparr>es_cache := map_set (es_cache st) (buildCacheKey (li_sessionKey inp) (ce_chatId ce)) ce\<rparr>)))"
    by (auto simp: goes_on_def finish_def)
qed

lemma goes_disclose:
  assumes "\<And>w'. later w w' \<Longrightarrow> goes_on en c w' (commit_elevation en inp ce)"
  shows "goes_on en c w (disclose_and_commit en inp ce)"
  unfolding disclose_and_commit_def
  by (intro goes_syncDisclosure goes_option goes_appendAudit_any finish_err assms later_refl)

lemma goes_approve:
  assumes "c = Some (inp, start)" "0 < le_ttlMs en" "start \<le> pa_now w"
    and "asks_for en inp chat" "session_key_ok (li_sessionKey inp)"
  shows "goes_on en c w (approve_elevation en inp chat)"
proof (rule goes_onI)
  fix w1 and mo :: moment and st assume 1: "later w w1" "mo_now mo = pa_now w1" "store_ok en w1 st"
  have fpr: "keeps en c w2 (P_fingerprint (\<lambda>fp. case fp of Err e \<Rightarrow> finish (Err e)
        | Ok fingerprint \<Rightarrow> (\<lambda>mo2. disclose_and_commit en inp
            \<lparr>ce_elevation = new_elevation en chat fingerprint mo2, ce_chatId = chat,
             ce_sessionKey = li_sessionKey inp\<rparr> mo2)))"
    if w2: "later w1 w2" "(inp, Authorized) \<in> pa_events w2" for w2
  proof (rule keeps_fingerprint)
    fix w3 and mo3 :: moment and st3 and r :: "(string, signet_error) result"
    assume 3: "later w2 w3" "mo_now mo3 = pa_now w3" "store_ok en w3 st3"
      "\<And>i s fp. c = Some (i, s) \<Longrightarrow> r = Ok fp \<Longrightarrow> (i, Fingerprint fp) \<in> pa_events w3"
    show "store_ok en w3 (snd ((case r of Err e \<Rightarrow> finish (Err e)
        | Ok fingerprint \<Rightarrow> (\<lambda>mo2. disclose_and_commit en inp
            \<lparr>ce_elevation = new_elevation en chat fingerprint mo2, ce_chatId = chat,
             ce_sessionKey = li_sessionKey inp\<rparr> mo2)) mo3 st3)) \<and>
      keeps en c w3 (fst ((case r of Err e \<Rightarrow> finish (Err e)
        | Ok fingerprint \<Rightarrow> (\<lambda>mo2. disclose_and_commit en inp
            \<lparr>ce_elevation = new_elevation en chat fingerprint mo2, ce_chatId = chat,
             ce_sessionKey = li_sessionKey inp\<rparr> mo2)) mo3 st3))"
    proof (cases r)
      case (Err e)
      then show ?thesis using goes_onD [OF finish_err later_refl 3(2,3)] by simp
    next
      case (Ok fp)
      let ?e = "new_elevation en chat fp mo3"
      have t: "start < ae_expiresAt ?e" using assms(2,3) 1(1) w2(1) 3(1,2) by (simp add: new_elevation_def later_def)
      have "approved_for en w3 (li_sessionKey inp) chat ?e"
        unfolding approved_for_def using assms(4) 3(1) w2(2) 3(4) [OF assms(1) Ok]
        by (intro exI [of _ inp]) (auto simp: new_elevation_def later_def)
      then have "goes_on en c w' (commit_elevation en inp \<lparr>ce_elevation = ?e, ce_chatId = chat, ce_sessionKey = li_sessionKey inp\<rparr>)"
        if "later w3 w'" for w'
        using goes_commit [OF assms(1) t assms(4) _ approved_later [OF that] assms(5)]
        by (simp add: elevation_fits_def new_elevation_def)
      from goes_onD [OF goes_disclose [OF this] later_refl 3(2,3)] Ok show ?thesis by simp
    qed
  qed
  have "keeps en c w1 (P_authorize (\<lambda>refused. case refused of
        Some ae \<Rightarrow>
          appendAudit en ''admin.read-elevation.denied'' False chat
            ([(''method'', VStr (li_method inp)), (''adminKeyFingerprint'', VStr (li_adminFingerprint inp)),
              (''reason'', VStr (err_message ae)), (''category'', VStr (category_name (err_category ae)))] @
             session_scoped)
            (\<lambda>failed. case failed of Some e \<Rightarrow> finish (Err e) | None \<Rightarrow> finish (Err ae))
      | None \<Rightarrow> (\<lambda>mo1 st1. (P_fingerprint (\<lambda>fp. case fp of
          Err e \<Rightarrow> finish (Err e)
        | Ok fingerprint \<Rightarrow> (\<lambda>mo2. disclose_and_commit en inp
            \<lparr>ce_elevation = new_elevation en chat fingerprint mo2, ce_chatId = chat,
             ce_sessionKey = li_sessionKey inp\<rparr> mo2)), st1))))"
    (is "keeps en c w1 (P_authorize ?k)")
  proof (rule keeps_authorize)
    fix w2 and mo2 :: moment and st2 and f :: "signet_error option"
    assume 2: "later w1 w2" "mo_now mo2 = pa_now w2" "store_ok en w2 st2"
      "\<And>i s. c = Some (i, s) \<Longrightarrow> f = None \<Longrightarrow> (i, Authorized) \<in> pa_events w2"
    show "store_ok en w2 (snd (?k f mo2 st2)) \<and> keeps en c w2 (fst (?k f mo2 st2))"
    proof (cases f)
      case None
      then show ?thesis using fpr [OF 2(1)] 2(3,4) assms(1) by simp
    next
      case (Some ae)
      then show ?thesis
        by (simp only: option.case)
          (intro goes_onD [OF _ later_refl 2(2,3)] goes_appendAudit_any goes_option finish_err)
    qed
  qed
  then show "store_ok en w1 (snd (approve_elevation en inp chat mo st)) \<and> keeps en c w1 (fst (approve_elevation en inp chat mo st))"
    using 1(3) goes_onD [OF finish_err later_refl 1(2,3)] by (simp add: approve_elevation_def)
qed

lemma buildCacheKey_inj:
  assumes "session_key_ok s" "session_key_ok s'" "buildCacheKey s c = buildCacheKey s' c'"
  shows "s = s' \<and> c = c'"
proof -
  have e: "us = []" if "session_key_ok s" "session_key_ok (s @ us)" "CHR '':'' # x = us @ CHR '':'' # y" for s us x y
    using that by (cases us) (auto simp: session_key_ok_def)
  have "s = s'"
    using assms e [of s _ c c'] e [of s' _ c' c] by (auto simp: buildCacheKey_def append_eq_append_conv2 eq_commute)
  then show ?thesis using assms(3) by (simp add: buildCacheKey_def)
qed

lemma goes_resolve:
  assumes "0 < le_ttlMs en" "session_key_ok (li_sessionKey inp)" "mo_now mo = pa_now w" "store_ok en w st"
  shows "store_ok en w (snd (resolveForRequest en inp mo st)) \<and>
    keeps en (Some (inp, pa_now w)) w (fst (resolveForRequest en inp mo st))"
proof (cases "isMessageReadMethod (li_method inp) \<and> wantsDangerousMessageRead (li_params inp)")
  case False
  then show ?thesis using goes_onD [OF finish_none later_refl assms(3,4)] by (auto simp: resolveForRequest_def)
next
  case wants: True
  show ?thesis
  proof (cases "resolveChatId (li_params inp)")
    case None
    then show ?thesis using wants goes_onD [OF finish_none later_refl assms(3,4)] by (simp add: resolveForRequest_def)
  next
    case (Some chatId)
    let ?chat = "le_normalizeChatId en chatId"
    let ?c = "Some (inp, pa_now w)"
    have asks: "asks_for en inp ?chat" using wants Some by (simp add: asks_for_def)
    have appr: "goes_on en ?c w (approve_elevation en inp ?chat)"
      by (rule goes_approve [OF refl assms(1) order_refl asks assms(2)])
    show ?thesis
    proof (cases "map_get (es_cache st) (buildCacheKey (li_sessionKey inp) ?chat)")
      case None
      then show ?thesis using wants Some goes_onD [OF appr later_refl assms(3,4)] by (simp add: resolveForRequest_def)
    next
      case hit: (Some ce)
      then have "(buildCacheKey (li_sessionKey inp) ?chat, ce) \<in> set (es_cache st)"
        by (simp add: map_get_def map_of_SomeD)
      then have ok: "cached_ok en w (buildCacheKey (li_sessionKey inp) ?chat, ce)"
        using assms(4) unfolding store_ok_def by blast
      then have k: "ce_sessionKey ce = li_sessionKey inp" "ce_chatId ce = ?chat"
        using buildCacheKey_inj [OF assms(2)] unfolding cached_ok_def by (metis fst_conv snd_conv)+
      show ?thesis
      proof (cases "ae_expiresAt (ce_elevation ce) > mo_now mo")
        case True
        have "goes_on en ?c w (appendReuseAudit en inp (ce_elevation ce) ?chat
           (\<lambda>failed. case failed of Some e \<Rightarrow> finish (Err e) | None \<Rightarrow> finish (Ok (Some (ce_elevation ce)))))"
          unfolding appendReuseAudit_def
        proof (rule goes_appendAudit)
          fix w'
          assume w': "later w w'"
            and rec: "le_hasAuditLog en \<Longrightarrow> \<exists>t. \<lparr>au_timestamp = t, au_action = ''admin.read-elevation.reused'',
              au_target = Some ?chat, au_detail = elevation_detail en inp (ce_elevation ce) @ session_scoped,
              au_success = True\<rparr> \<in> pa_audit w'"
          have "recorded_for w' inp ?chat (ce_elevation ce)" if "le_hasAuditLog en"
            using rec [OF that] unfolding recorded_for_def
            by (elim exE, rule_tac x = "\<lparr>au_timestamp = t, au_action = ''admin.read-elevation.reused'',
              au_target = Some ?chat, au_detail = elevation_detail en inp (ce_elevation ce) @ session_scoped,
              au_success = True\<rparr>" in bexI) (simp_all add: elevation_detail_def)
          then have "granted en w' inp (pa_now w) (ce_elevation ce)"
            unfolding granted_def using asks ok k True assms(3) approved_later [OF w']
            by (intro exI [of _ ?chat]) (auto simp: cached_ok_def)
          then show "goes_on en ?c w' (case None of Some e \<Rightarrow> finish (Err e) | None \<Rightarrow> finish (Ok (Some (ce_elevation ce))))"
            by (auto intro: finish_ok)
        qed (simp add: finish_err)
        from goes_onD [OF this later_refl assms(3,4)] show ?thesis
          using wants Some hit True by (simp add: resolveForRequest_def)
      next
        case False
        have "goes_on en ?c w (expireCachedElevation en ce (Some inp)
            (\<lambda>failed. case failed of Some e \<Rightarrow> finish (Err e) | None \<Rightarrow> approve_elevation en inp ?chat))"
          by (intro goes_expireCachedElevation goes_option finish_err appr)
        from goes_onD [OF this later_refl assms(3,4)] show ?thesis
          using wants Some hit False by (simp add: resolveForRequest_def)
      qed
    qed
  qed
qed

lemma goes_timer:
  "goes_on en None w (elevation_timer_fired en ce)"
  unfolding elevation_timer_fired_def by (intro goes_expireCachedElevation goes_option finish_err finish_none)

subsection \<open>Every reachable state\<close>

definition past_of :: "elev_system \<Rightarrow> elev_past" where
  "past_of sy = \<lparr>pa_now = ey_now sy, pa_events = set (ey_events sy), pa_audit = set (es_audit (ey_store sy))\<rparr>"

definition system_ok :: "elev_env \<Rightarrow> elev_system \<Rightarrow> bool" where
  "system_ok en sy \<longleftrightarrow> store_ok en (past_of sy) (ey_store sy) \<and>
     (\<forall>ec \<in> set (ey_calls sy). keeps en (ec_input ec) (past_of sy) (ec_process ec))"

lemma store_ok_grow:
  "store_ok en w st \<Longrightarrow> later w w' \<Longrightarrow> pa_audit w' \<subseteq> set (es_audit st) \<Longrightarrow> store_ok en w' st"
  by (auto simp: store_ok_def cached_ok_def intro: approved_later)

lemma system_ok_add:
  assumes "system_ok en sy" "later (past_of sy) w" "pa_now w = now" "pa_events w = set (ey_events sy')"
    and "store_ok en w (snd x)" "ey_store sy' = snd x" "ey_now sy' = now"
    and "\<And>ec. ec \<in> set (ey_calls sy') \<Longrightarrow> ec \<in> set (ey_calls sy) \<or> keeps en (ec_input ec) w (ec_process ec)"
  shows "system_ok en sy'"
proof -
  have l: "later w (past_of sy')" using assms(3-7) by (simp add: later_def past_of_def store_ok_def)
  have "store_ok en (past_of sy') (snd x)"
    by (rule store_ok_grow [OF assms(5) l]) (simp add: past_of_def assms(6))
  moreover have "keeps en (ec_input ec) (past_of sy') (ec_process ec)" if "ec \<in> set (ey_calls sy')" for ec
    using assms(8) [OF that] assms(1) keeps_later [OF _ l] keeps_later [OF _ later_trans [OF assms(2) l]]
    by (auto simp: system_ok_def)
  ultimately show ?thesis by (simp add: system_ok_def assms(6))
qed

lemma system_ok_begin:
  assumes "system_ok en sy" "ey_now sy \<le> now"
    and "\<And>w. w = (past_of sy)\<lparr>pa_now := now\<rparr> \<Longrightarrow> store_ok en w (ey_store sy) \<Longrightarrow>
      store_ok en w (snd x) \<and> keeps en c w (fst x)"
  shows "system_ok en (begin_call c x now sy)"
proof -
  let ?w = "(past_of sy)\<lparr>pa_now := now\<rparr>"
  have l: "later (past_of sy) ?w" using assms(2) by (simp add: later_def past_of_def)
  have "store_ok en ?w (ey_store sy)"
    using store_ok_grow [OF _ l] assms(1) by (simp add: system_ok_def past_of_def)
  from assms(3) [OF refl this] show ?thesis
    by (intro system_ok_add [OF assms(1) l]) (auto simp: begin_call_def past_of_def)
qed

lemma system_ok_go_on:
  assumes "system_ok en sy" "ey_now sy \<le> now" "i < length (ey_calls sy)"
    and "ey_calls sy' = ey_calls sy" "set (ey_events sy) \<subseteq> set (ey_events sy')"
    and "st = ey_store sy \<or> (\<exists>entry. st = append_entry entry (ey_store sy))"
    and "\<And>w. later (past_of sy) w \<Longrightarrow> pa_now w = now \<Longrightarrow> pa_events w = set (ey_events sy') \<Longrightarrow>
      pa_audit w = set (es_audit st) \<Longrightarrow> store_ok en w st \<Longrightarrow>
      store_ok en w (snd x) \<and> keeps en (ec_input (ey_calls sy ! i)) w (fst x)"
  shows "system_ok en (go_on i x now sy')"
proof -
  let ?w = "\<lparr>pa_now = now, pa_events = set (ey_events sy'), pa_audit = set (es_audit st)\<rparr>"
  have sub: "set (es_audit (ey_store sy)) \<subseteq> set (es_audit st)" using assms(6) by (auto simp: append_entry_def)
  then have l: "later (past_of sy) ?w" using assms(2,5) by (simp add: later_def past_of_def)
  have "es_cache st = es_cache (ey_store sy)" using assms(6) by (auto simp: append_entry_def)
  then have "store_ok en (past_of sy) st" using assms(1) sub by (auto simp: store_ok_def system_ok_def)
  then have "store_ok en ?w st" by (rule store_ok_grow [OF _ l]) simp
  from assms(7) [OF l _ _ _ this] show ?thesis
    using assms(3,4)
    by (intro system_ok_add [OF assms(1) l]) (auto simp: go_on_def past_of_def dest!: subsetD [OF set_update_subset_insert])
qed

lemma add_event_facts [simp]:
  "ey_calls (add_event ec ev sy) = ey_calls sy" "ey_store (add_event ec ev sy) = ey_store sy"
  "set (ey_events sy) \<subseteq> set (ey_events (add_event ec ev sy))"
  by (auto simp: add_event_def split: option.split)

lemma add_event_logged:
  "ec_input ec = Some (inp, start) \<Longrightarrow> ev = Some v \<Longrightarrow> (inp, v) \<in> set (ey_events (add_event ec ev sy))"
  by (simp add: add_event_def)

lemma keeps_authorizeD:
  "keeps en c w (P_authorize kn) \<Longrightarrow> later w w' \<Longrightarrow> mo_now mo = pa_now w' \<Longrightarrow> store_ok en w' st \<Longrightarrow>
   (\<And>inp start. c = Some (inp, start) \<Longrightarrow> f = None \<Longrightarrow> (inp, Authorized) \<in> pa_events w') \<Longrightarrow>
   store_ok en w' (snd (kn f mo st)) \<and> keeps en c w' (fst (kn f mo st))"
  by (erule keeps_cases) meson

lemma keeps_fingerprintD:
  "keeps en c w (P_fingerprint kf) \<Longrightarrow> later w w' \<Longrightarrow> mo_now mo = pa_now w' \<Longrightarrow> store_ok en w' st \<Longrightarrow>
   (\<And>inp start fp. c = Some (inp, start) \<Longrightarrow> r = Ok fp \<Longrightarrow> (inp, Fingerprint fp) \<in> pa_events w') \<Longrightarrow>
   store_ok en w' (snd (kf r mo st)) \<and> keeps en c w' (fst (kf r mo st))"
  by (erule keeps_cases) meson

lemma system_ok_reachable:
  assumes "elev_reachable en sy" "0 < le_ttlMs en"
  shows "system_ok en sy"
  using assms(1)
proof induction
  case started
  then show ?case
    by (simp add: system_ok_def start_system_def store_ok_def createAdminReadElevationManager_def past_of_def)
next
  case (called sy mo inp)
  show ?case
  proof (rule system_ok_begin [OF called.IH called.hyps(2)])
    fix w assume w: "w = (past_of sy)\<lparr>pa_now := mo_now mo\<rparr>" "store_ok en w (ey_store sy)"
    have n: "mo_now mo = pa_now w" using w(1) by simp
    from goes_resolve [OF assms(2) called.hyps(3) n w(2)]
    show "store_ok en w (snd (resolveForRequest en inp mo (ey_store sy))) \<and>
        keeps en (Some (inp, mo_now mo)) w (fst (resolveForRequest en inp mo (ey_store sy)))"
      by (simp add: n)
  qed
next
  case (timer sy mo key due c)
  show ?case
  proof (rule system_ok_begin [OF timer.IH timer.hyps(2)])
    fix w assume w: "w = (past_of sy)\<lparr>pa_now := mo_now mo\<rparr>" "store_ok en w (ey_store sy)"
    have n: "mo_now mo = pa_now w" using w(1) by simp
    from goes_onD [OF goes_timer later_refl n w(2)]
    show "store_ok en w (snd (elevation_timer_fired en c mo (ey_store sy))) \<and>
        keeps en None w (fst (elevation_timer_fired en c mo (ey_store sy)))" .
  qed
next
  case (yielded sy mo i k)
  have "keeps en (ec_input (ey_calls sy ! i)) (past_of sy) (P_yield k)"
    using yielded.IH yielded.hyps(3,4) by (metis nth_mem system_ok_def)
  then show ?case using yielded.hyps
    by (intro system_ok_go_on [OF yielded.IH]) (auto elim: keeps_cases)
next
  case (audited sy mo i entry ka)
  have "keeps en (ec_input (ey_calls sy ! i)) (past_of sy) (P_audit entry ka)"
    using audited.IH audited.hyps(3,4) by (metis nth_mem system_ok_def)
  then show ?case using audited.hyps
    by (intro system_ok_go_on [OF audited.IH, where st = "append_entry entry (ey_store sy)"])
      (auto elim!: keeps_cases simp: append_entry_def)
next
  case (audit_thrown sy mo i entry ka cause)
  have "keeps en (ec_input (ey_calls sy ! i)) (past_of sy) (P_audit entry ka)"
    using audit_thrown.IH audit_thrown.hyps(3,4) by (metis nth_mem system_ok_def)
  then show ?case using audit_thrown.hyps
    by (intro system_ok_go_on [OF audit_thrown.IH]) (auto elim!: keeps_cases)
next
  case (notified sy mo i chats expired kn failed)
  have "keeps en (ec_input (ey_calls sy ! i)) (past_of sy) (P_notify chats expired kn)"
    using notified.IH notified.hyps(3,4) by (metis nth_mem system_ok_def)
  then show ?case using notified.hyps
    by (intro system_ok_go_on [OF notified.IH]) (auto elim!: keeps_cases)
next
  case (authorize_answered sy mo i kn refused)
  have "keeps en (ec_input (ey_calls sy ! i)) (past_of sy) (P_authorize kn)"
    using authorize_answered.IH authorize_answered.hyps(3,4) by (metis nth_mem system_ok_def)
  from keeps_authorizeD [OF this] show ?case using authorize_answered.hyps
    by (intro system_ok_go_on [OF authorize_answered.IH, where st = "ey_store sy"]) (simp_all add: add_event_logged)
next
  case (fingerprint_answered sy mo i kf fp)
  have "keeps en (ec_input (ey_calls sy ! i)) (past_of sy) (P_fingerprint kf)"
    using fingerprint_answered.IH fingerprint_answered.hyps(3,4) by (metis nth_mem system_ok_def)
  from keeps_fingerprintD [OF this] show ?case using fingerprint_answered.hyps
    by (intro system_ok_go_on [OF fingerprint_answered.IH, where st = "ey_store sy"]) (simp_all add: add_event_logged)
qed

text \<open>C26: However many calls run at once and however their waits interleave with expiration timers, a
  request gets an elevation only if it asks for one message-reading method on one chat with the
  explicit flag; the elevation covers that chat alone, lasts for the configured time and had not
  expired when the request came, the local approver authorized it, with the fingerprint it carries,
  for a request of the same admin session on the same chat, and with an audit log this very grant
  was recorded, with the request's method and key, before it was returned.\<close>

theorem elevations_approved:
  assumes "0 < le_ttlMs en" "elev_reachable en sy" "ec \<in> set (ey_calls sy)"
    and "ec_input ec = Some (inp, start)" "ec_process ec = P_done (Ok (Some e))"
  shows "\<exists>chat. asks_for en inp chat \<and> ae_chatIds e = [chat] \<and>
    ae_expiresAt e = ae_approvedAt e + le_ttlMs en \<and> start < ae_expiresAt e \<and>
    (\<exists>inp'. asks_for en inp' chat \<and> li_sessionKey inp' = li_sessionKey inp \<and>
       (inp', Authorized) \<in> set (ey_events sy) \<and>
       (inp', Fingerprint (ae_approvalKeyFingerprint e)) \<in> set (ey_events sy)) \<and>
    (le_hasAuditLog en \<longrightarrow> (\<exists>a \<in> set (es_audit (ey_store sy)). au_success a \<and> au_target a = Some chat \<and>
       map_of (au_detail a) ''method'' = Some (VStr (li_method inp)) \<and>
       map_of (au_detail a) ''adminKeyFingerprint'' = Some (VStr (li_adminFingerprint inp)) \<and>
       map_of (au_detail a) ''approvalId'' = Some (VStr (ae_approvalId e))))"
proof -
  have "keeps en (ec_input ec) (past_of sy) (ec_process ec)"
    using system_ok_reachable [OF assms(2,1)] assms(3) by (simp add: system_ok_def)
  then have "granted en (past_of sy) inp start e"
    using assms(4,5) by (auto elim: keeps_cases)
  then obtain chat where g: "asks_for en inp chat" "elevation_fits en chat e" "start < ae_expiresAt e"
      "approved_for en (past_of sy) (li_sessionKey inp) chat e" "le_hasAuditLog en \<longrightarrow> recorded_for (past_of sy) inp chat e"
    by (auto simp: granted_def)
  show ?thesis
  proof (intro exI [of _ chat] conjI)
    show "\<exists>inp'. asks_for en inp' chat \<and> li_sessionKey inp' = li_sessionKey inp \<and>
       (inp', Authorized) \<in> set (ey_events sy) \<and>
       (inp', Fingerprint (ae_approvalKeyFingerprint e)) \<in> set (ey_events sy)"
      using g(4) by (auto simp: approved_for_def past_of_def)
    show "le_hasAuditLog en \<longrightarrow> (\<exists>a \<in> set (es_audit (ey_store sy)). au_success a \<and> au_target a = Some chat \<and>
       map_of (au_detail a) ''method'' = Some (VStr (li_method inp)) \<and>
       map_of (au_detail a) ''adminKeyFingerprint'' = Some (VStr (li_adminFingerprint inp)) \<and>
       map_of (au_detail a) ''approvalId'' = Some (VStr (ae_approvalId e)))"
      using g(5) unfolding recorded_for_def by (auto simp: past_of_def)
  qed (use g in \<open>simp_all add: elevation_fits_def\<close>)
qed

end
