(* ===== verification/ElevationDisclosure.thy ===== *)
theory ElevationDisclosure
  imports ElevationSafety
begin

text \<open>
  Read elevations and their public disclosure: when calls do not overlap, the chat of every live
  elevation is disclosed for at least as long; what overlapping calls can do to that; sample runs.
\<close>

subsection \<open>Disclosed sessions\<close>

definition disclosed_entry :: "disclosures \<Rightarrow> string \<Rightarrow> string \<Rightarrow> disclosure option" where
  "disclosed_entry ds chat session = map_get (nullish (map_get ds chat) []) session"

lemma filter_keeps_first: "map_of m k = Some v \<Longrightarrow> P (k, v) \<Longrightarrow> map_of (filter P m) k = Some v"
  by (induction m) auto

lemma aggregate_keeps:
  assumes "disclosed_entry ds chat session = Some d" "now < dc_expiresAt d"
  shows "disclosed_entry (snd (aggregateForChat now False c ds)) chat session = Some d"
proof (cases "map_get ds c")
  case None
  then show ?thesis using assms by (simp add: aggregateForChat_def)
next
  case (Some per)
  let ?kept = "filter (\<lambda>p. False \<or> \<not> dc_expiresAt (snd p) \<le> now) per"
  show ?thesis
  proof (cases "c = chat")
    case True
    then have "map_of per session = Some d" using assms(1) Some by (simp add: disclosed_entry_def nullish_def map_get_def)
    then have k: "map_of ?kept session = Some d" using assms(2) by (intro filter_keeps_first) simp_all
    then have "?kept \<noteq> []" by auto
    then show ?thesis using True Some k by (simp add: aggregateForChat_def disclosed_entry_def nullish_def map_get_def map_set_def update_conv' Let_def)
  next
    case False
    then show ?thesis using assms(1) Some
      by (simp add: aggregateForChat_def disclosed_entry_def Let_def)
  qed
qed

lemma mutate_one:
  "mutate now [chat] f ds = (if chat = [] then ([], ds) else mutate_chat now f ([], ds) chat)"
  by (simp add: mutate_def collectUniqueChatIds_def set_of_def set_add_def)

lemma put_keeps:
  "disclosed_entry (if per \<noteq> [] then map_set ds c per else map_delete ds c) chat session =
     (if chat = c then map_get per session else disclosed_entry ds chat session)"
  by (auto simp: disclosed_entry_def nullish_def)

lemma mutate_keeps:
  assumes "disclosed_entry ds chat session = Some d" "now < dc_expiresAt d"
    and "chat = c \<Longrightarrow> (\<And>per. map_get per session = Some d \<Longrightarrow> map_get (f per) session = Some d)"
  shows "disclosed_entry (snd (mutate now [c] f ds)) chat session = Some d"
proof (cases "c = []")
  case False
  let ?ds1 = "snd (aggregateForChat now False c ds)"
  have 1: "disclosed_entry ?ds1 chat session = Some d" by (rule aggregate_keeps [OF assms(1,2)])
  let ?per = "f (nullish (map_get ?ds1 c) [])"
  let ?ds2 = "if ?per \<noteq> [] then map_set ?ds1 c ?per else map_delete ?ds1 c"
  have "chat = c \<Longrightarrow> map_get ?per session = Some d" using assms(3) 1 by (simp add: disclosed_entry_def)
  then have "disclosed_entry ?ds2 chat session = Some d" using 1 by (simp only: put_keeps) simp
  from aggregate_keeps [OF this assms(2)] show ?thesis
    using False by (simp add: mutate_one mutate_chat_def Let_def split_beta)
qed (use assms in \<open>simp add: mutate_one\<close>)

lemma mutate_sets:
  assumes "now < dc_expiresAt d" "c \<noteq> []" "\<And>per. map_get (f per) session = Some d"
  shows "disclosed_entry (snd (mutate now [c] f ds)) c session = Some d"
proof -
  let ?ds1 = "snd (aggregateForChat now False c ds)"
  let ?per = "f (nullish (map_get ?ds1 c) [])"
  let ?ds2 = "if ?per \<noteq> [] then map_set ?ds1 c ?per else map_delete ?ds1 c"
  have "disclosed_entry ?ds2 c session = Some d" using assms(3) by (simp only: put_keeps) simp
  from aggregate_keeps [OF this assms(1)] show ?thesis
    using assms(2) by (simp add: mutate_one mutate_chat_def Let_def split_beta)
qed

lemma ds_delete_keeps:
  "disclosed_entry ds chat session = Some d \<Longrightarrow> now < dc_expiresAt d \<Longrightarrow> chat \<noteq> c \<or> session \<noteq> s \<Longrightarrow>
   disclosed_entry (snd (ds_delete now [c] s ds)) chat session = Some d"
  unfolding ds_delete_def by (rule mutate_keeps) auto

lemma ds_set_keeps:
  "disclosed_entry ds chat session = Some d \<Longrightarrow> now < dc_expiresAt d \<Longrightarrow> chat \<noteq> c \<or> session \<noteq> s \<Longrightarrow>
   disclosed_entry (snd (ds_set now [c] s d' ds)) chat session = Some d"
  unfolding ds_set_def by (rule mutate_keeps) auto

lemma ds_set_sets:
  "now < dc_expiresAt d \<Longrightarrow> c \<noteq> [] \<Longrightarrow> disclosed_entry (snd (ds_set now [c] s d ds)) c s = Some d"
  unfolding ds_set_def by (rule mutate_sets) simp_all

lemma ds_restore_keeps:
  "disclosed_entry ds chat session = Some d \<Longrightarrow> chat \<noteq> c \<or> session \<noteq> s \<Longrightarrow>
   disclosed_entry (ds_restore [c] s d' ds) chat session = Some d"
  by (auto simp: ds_restore_def collectUniqueChatIds_def set_of_def set_add_def disclosed_entry_def nullish_def)

subsection \<open>Calls that do not overlap\<close>

text \<open>A process run to its end with nothing else happening meanwhile; the surroundings answer as they
  like.\<close>

inductive completes :: "elev_process \<Rightarrow> elev_state \<Rightarrow> int \<Rightarrow> (elevation option, signet_error) result \<Rightarrow> elev_state \<Rightarrow> int \<Rightarrow> bool" where
  "completes (P_done r) st t r st t"
| "t \<le> mo_now mo \<Longrightarrow> completes (fst (k mo st)) (snd (k mo st)) (mo_now mo) r st' t' \<Longrightarrow>
    completes (P_yield k) st t r st' t'"
| "t \<le> mo_now mo \<Longrightarrow> completes (fst (ka None mo (append_entry entry st))) (snd (ka None mo (append_entry entry st))) (mo_now mo) r st' t' \<Longrightarrow>
    completes (P_audit entry ka) st t r st' t'"
| "t \<le> mo_now mo \<Longrightarrow> completes (fst (ka (Some cause) mo st)) (snd (ka (Some cause) mo st)) (mo_now mo) r st' t' \<Longrightarrow>
    completes (P_audit entry ka) st t r st' t'"
| "t \<le> mo_now mo \<Longrightarrow> completes (fst (kn f mo st)) (snd (kn f mo st)) (mo_now mo) r st' t' \<Longrightarrow>
    completes (P_notify chats expired kn) st t r st' t'"
| "t \<le> mo_now mo \<Longrightarrow> completes (fst (kn f mo st)) (snd (kn f mo st)) (mo_now mo) r st' t' \<Longrightarrow>
    completes (P_authorize kn) st t r st' t'"
| "t \<le> mo_now mo \<Longrightarrow> completes (fst (kf fp mo st)) (snd (kf fp mo st)) (mo_now mo) r st' t' \<Longrightarrow>
    completes (P_fingerprint kf) st t r st' t'"

inductive_cases completes_cases:
  "completes (P_done r) st t r' st' t'" "completes (P_yield k) st t r st' t'"
  "completes (P_audit entry ka) st t r st' t'" "completes (P_notify chats expired kn) st t r st' t'"
  "completes (P_authorize kn) st t r st' t'" "completes (P_fingerprint kf) st t r st' t'"

inductive quiet_reachable :: "elev_env \<Rightarrow> elev_state \<Rightarrow> int \<Rightarrow> bool" for en where
  "quiet_reachable en createAdminReadElevationManager 0"
| "quiet_reachable en st t \<Longrightarrow> t \<le> mo_now mo \<Longrightarrow>
    completes (fst (resolveForRequest en inp mo st)) (snd (resolveForRequest en inp mo st)) (mo_now mo) r st' t' \<Longrightarrow>
    quiet_reachable en st' t'"
| "quiet_reachable en st t \<Longrightarrow> t \<le> mo_now mo \<Longrightarrow> (key, due, c) \<in> set (es_timers st) \<Longrightarrow>
    completes (fst (elevation_timer_fired en c mo st)) (snd (elevation_timer_fired en c mo st)) (mo_now mo) r st' t' \<Longrightarrow>
    quiet_reachable en st' t'"

text \<open>A condition that waiting and recording do not disturb, and the triples of a continuation.\<close>

definition stable :: "(int \<Rightarrow> elev_state \<Rightarrow> bool) \<Rightarrow> bool" where
  "stable A \<longleftrightarrow> (\<forall>t t' st entry. A t st \<longrightarrow> t \<le> t' \<longrightarrow> A t' st \<and> A t' (append_entry entry st))"

definition triple :: "(int \<Rightarrow> elev_state \<Rightarrow> bool) \<Rightarrow> kont \<Rightarrow> (int \<Rightarrow> elev_state \<Rightarrow> bool) \<Rightarrow> bool" where
  "triple A k B \<longleftrightarrow>
     (\<forall>mo st r st' t'. A (mo_now mo) st \<longrightarrow> completes (fst (k mo st)) (snd (k mo st)) (mo_now mo) r st' t' \<longrightarrow> B t' st')"

lemma tripleD:
  "triple A k B \<Longrightarrow> A (mo_now mo) st \<Longrightarrow> completes (fst (k mo st)) (snd (k mo st)) (mo_now mo) r st' t' \<Longrightarrow> B t' st'"
  unfolding triple_def by blast

lemma tripleE:
  "completes (fst (k mo st)) (snd (k mo st)) (mo_now mo) r st' t' \<Longrightarrow> triple A k B \<Longrightarrow> A (mo_now mo) st \<Longrightarrow> B t' st'"
  unfolding triple_def by blast

lemma stableD: "stable A \<Longrightarrow> A t st \<Longrightarrow> t \<le> t' \<Longrightarrow> A t' st" "stable A \<Longrightarrow> A t st \<Longrightarrow> t \<le> t' \<Longrightarrow> A t' (append_entry entry st)"
  by (auto simp: stable_def)

lemma triple_weaken: "triple A k B \<Longrightarrow> (\<And>t st. A' t st \<Longrightarrow> A t st) \<Longrightarrow> triple A' k B"
  unfolding triple_def by blast

lemma triple_finish: "(\<And>t st. A t st \<Longrightarrow> B t st) \<Longrightarrow> triple A (finish r) B"
  by (auto simp: triple_def finish_def elim: completes_cases)

lemma triple_option:
  "triple A a B \<Longrightarrow> (\<And>x. triple A (b x) B) \<Longrightarrow> triple A (case f of None \<Rightarrow> a | Some x \<Rightarrow> b x) B"
  by (cases f) simp_all

lemma triple_appendAudit:
  assumes "stable A" "\<And>f. triple A (k f) B"
  shows "triple A (appendAudit en action success target detail k) B"
  unfolding triple_def appendAudit_def
  by (auto elim!: completes_cases elim!: tripleE [OF _ assms(2)] intro: stableD [OF assms(1)])

lemma triple_notify:
  assumes "stable A" "\<And>f. triple A (k f) B"
  shows "triple A (notifyDisclosureChanged en chats expired k) B"
  unfolding triple_def notifyDisclosureChanged_def
  by (auto elim!: completes_cases elim!: tripleE [OF _ assms(2)] intro: stableD [OF assms(1)])

lemma triple_yield: "stable A \<Longrightarrow> triple A k B \<Longrightarrow> triple A (\<lambda>mo st. (P_yield k, st)) B"
  unfolding triple_def by (auto elim!: completes_cases dest: stableD(1))

text \<open>A continuation that, on each state that satisfies the condition, acts as another one.\<close>

lemma triple_acts:
  assumes "\<And>mo st. A (mo_now mo) st \<Longrightarrow> \<exists>A' k' st'. k mo st = k' mo st' \<and> triple A' k' B \<and> A' (mo_now mo) st'"
  shows "triple A k B"
  unfolding triple_def
proof (intro allI impI)
  fix mo :: moment and st r st' t'
  assume "A (mo_now mo) st" and c: "completes (fst (k mo st)) (snd (k mo st)) (mo_now mo) r st' t'"
  then obtain A' k' st1 where "k mo st = k' mo st1" "triple A' k' B" "A' (mo_now mo) st1" using assms by blast
  then show "B t' st'" using c tripleD [of A' k' B mo st1] by simp
qed

text \<open>The invariant: live elevations are disclosed. The second form holds while one elevation is
  being renewed: its key is not cached.\<close>

definition live_disclosed :: "elev_env \<Rightarrow> int \<Rightarrow> elev_state \<Rightarrow> bool" where
  "live_disclosed en t st \<longleftrightarrow>
     (\<forall>key c. map_get (es_cache st) key = Some c \<longrightarrow>
        key = buildCacheKey (ce_sessionKey c) (ce_chatId c) \<and>
        (t < ae_expiresAt (ce_elevation c) \<longrightarrow>
           disclosed_entry (es_disclosures st) (ce_chatId c) (ce_sessionKey c) = Some (cached_disclosure en c)))"

definition renewing :: "elev_env \<Rightarrow> string \<Rightarrow> string \<Rightarrow> int \<Rightarrow> elev_state \<Rightarrow> bool" where
  "renewing en session chat t st \<longleftrightarrow>
     live_disclosed en t st \<and> map_get (es_cache st) (buildCacheKey session chat) = None"

definition announced :: "elev_env \<Rightarrow> cached_elevation \<Rightarrow> int \<Rightarrow> elev_state \<Rightarrow> bool" where
  "announced en c t st \<longleftrightarrow> renewing en (ce_sessionKey c) (ce_chatId c) t st \<and>
     (t < ae_expiresAt (ce_elevation c) \<longrightarrow>
        disclosed_entry (es_disclosures st) (ce_chatId c) (ce_sessionKey c) = Some (cached_disclosure en c))"

lemma stable_all:
  "stable (live_disclosed en)" "stable (renewing en session chat)" "stable (announced en c)"
  by (auto simp: stable_def live_disclosed_def renewing_def announced_def append_entry_def)

lemma renewing_disclosures:
  assumes "renewing en s c t st"
    and "\<And>chat session d. chat \<noteq> c \<or> session \<noteq> s \<Longrightarrow> t < dc_expiresAt d \<Longrightarrow>
      disclosed_entry (es_disclosures st) chat session = Some d \<Longrightarrow> disclosed_entry ds chat session = Some d"
  shows "renewing en s c t (st\<lparr>es_disclosures := ds\<rparr>)"
proof -
  have "disclosed_entry ds (ce_chatId c') (ce_sessionKey c') = Some (cached_disclosure en c')"
    if "map_get (es_cache st) key = Some c'" "t < ae_expiresAt (ce_elevation c')" for key c'
  proof (rule assms(2))
    have k: "key = buildCacheKey (ce_sessionKey c') (ce_chatId c')" "key \<noteq> buildCacheKey s c"
      using assms(1) that(1) by (auto simp: renewing_def live_disclosed_def)
    then show "ce_chatId c' \<noteq> c \<or> ce_sessionKey c' \<noteq> s" by auto
    show "disclosed_entry (es_disclosures st) (ce_chatId c') (ce_sessionKey c') = Some (cached_disclosure en c')"
      using assms(1) that by (simp add: renewing_def live_disclosed_def)
  qed (use that in \<open>simp add: cached_disclosure_def\<close>)
  then show ?thesis using assms(1) by (simp add: renewing_def live_disclosed_def)
qed

lemma triple_expiry:
  assumes "\<And>f. triple (renewing en (ce_sessionKey c) (ce_chatId c)) (k f) B"
  shows "triple (renewing en (ce_sessionKey c) (ce_chatId c)) (syncDisclosureExpiry en c k) B"
proof -
  let ?A = "renewing en (ce_sessionKey c) (ce_chatId c)"
  have n: "triple ?A (notifyDisclosureChanged en chats expired k2) B" if "\<And>f. triple ?A (k2 f) B" for chats expired k2
    by (rule triple_notify [OF stable_all(2) that])
  have e: "triple ?A (expiry_notified en c k f) B" for f
  proof (rule triple_acts)
    fix mo :: moment and st assume A: "?A (mo_now mo) st"
    show "\<exists>A' k' st'. expiry_notified en c k f mo st = k' mo st' \<and> triple A' k' B \<and> A' (mo_now mo) st'"
    proof (cases f)
      case None
      then show ?thesis using A assms by (force simp: expiry_notified_def)
    next
      case (Some e)
      let ?k = "notifyDisclosureChanged en [ce_chatId c] True
        (\<lambda>failed2. case failed2 of None \<Rightarrow> k (Some e)
          | Some e2 \<Rightarrow> k (Some (rollback_failure ''Failed to roll back expired admin read disclosure refresh'' e e2)))"
      have "?A (mo_now mo) (st\<lparr>es_disclosures := ds_restore [ce_chatId c] (ce_sessionKey c) (cached_disclosure en c) (es_disclosures st)\<rparr>)"
        using A by (rule renewing_disclosures) (auto intro: ds_restore_keeps)
      moreover have "triple ?A ?k B" by (intro n triple_option assms)
      ultimately show ?thesis using Some by (simp only: expiry_notified_def option.case) blast
    qed
  qed
  show ?thesis
  proof (rule triple_acts)
    fix mo :: moment and st assume A: "?A (mo_now mo) st"
    let ?ds = "ds_delete (mo_now mo) [ce_chatId c] (ce_sessionKey c) (es_disclosures st)"
    show "\<exists>A' k' st'. syncDisclosureExpiry en c k mo st = k' mo st' \<and> triple A' k' B \<and> A' (mo_now mo) st'"
    proof (cases "le_hasDisclosureStore en")
      case True
      have "?A (mo_now mo) (st\<lparr>es_disclosures := snd ?ds\<rparr>)"
        using A by (rule renewing_disclosures) (auto intro: ds_delete_keeps)
      then show ?thesis using True n [OF e, of "fst ?ds" False]
        by (intro exI [of _ ?A] exI [of _ "notifyDisclosureChanged en (fst ?ds) False (expiry_notified en c k)"]
            exI [of _ "st\<lparr>es_disclosures := snd ?ds\<rparr>"]) (simp add: syncDisclosureExpiry_def split_beta Let_def)
    next
      case False
      then show ?thesis using A triple_yield [OF stable_all(2) assms]
        by (intro exI [of _ ?A] exI [of _ "\<lambda>mo st. (P_yield (k None), st)"] exI [of _ st])
          (simp add: syncDisclosureExpiry_def)
    qed
  qed
qed

lemma announced_renewing: "announced en c t st \<Longrightarrow> renewing en (ce_sessionKey c) (ce_chatId c) t st"
  by (simp add: announced_def)

lemma triple_approval:
  assumes "le_hasDisclosureStore en" "ce_chatId c \<noteq> []" "\<And>f. triple (renewing en (ce_sessionKey c) (ce_chatId c)) (k (Some f)) B"
    and "triple (announced en c) (k None) B"
  shows "triple (renewing en (ce_sessionKey c) (ce_chatId c)) (syncDisclosureApproval en c k) B"
proof -
  let ?A = "renewing en (ce_sessionKey c) (ce_chatId c)"
  have e: "triple (announced en c) (approval_notified en c k f) B" for f
  proof (rule triple_acts)
    fix mo :: moment and st assume A: "announced en c (mo_now mo) st"
    show "\<exists>A' k' st'. approval_notified en c k f mo st = k' mo st' \<and> triple A' k' B \<and> A' (mo_now mo) st'"
    proof (cases f)
      case None
      then show ?thesis using A assms(4) by (force simp: approval_notified_def)
    next
      case (Some e)
      let ?ds = "ds_delete (mo_now mo) [ce_chatId c] (ce_sessionKey c) (es_disclosures st)"
      let ?k = "notifyDisclosureChanged en (fst ?ds) False
        (\<lambda>failed2. case failed2 of None \<Rightarrow> k (Some e)
          | Some e2 \<Rightarrow> k (Some (rollback_failure ''Failed to roll back admin read disclosure refresh'' e e2)))"
      have "?A (mo_now mo) (st\<lparr>es_disclosures := snd ?ds\<rparr>)"
        using announced_renewing [OF A] by (rule renewing_disclosures) (auto intro: ds_delete_keeps)
      moreover have "triple ?A ?k B" by (intro triple_notify [OF stable_all(2)] triple_option assms(3))
      ultimately show ?thesis using Some
        by (intro exI [of _ ?A] exI [of _ ?k] exI [of _ "st\<lparr>es_disclosures := snd ?ds\<rparr>"])
          (simp add: approval_notified_def split_beta Let_def)
    qed
  qed
  show ?thesis
  proof (rule triple_acts)
    fix mo :: moment and st assume A: "?A (mo_now mo) st"
    let ?ds = "ds_set (mo_now mo) [ce_chatId c] (ce_sessionKey c) (cached_disclosure en c) (es_disclosures st)"
    have "?A (mo_now mo) (st\<lparr>es_disclosures := snd ?ds\<rparr>)"
      using A by (rule renewing_disclosures) (auto intro: ds_set_keeps)
    moreover have "disclosed_entry (snd ?ds) (ce_chatId c) (ce_sessionKey c) = Some (cached_disclosure en c)"
      if "mo_now mo < ae_expiresAt (ce_elevation c)"
      using that assms(2) by (intro ds_set_sets) (simp_all add: cached_disclosure_def)
    ultimately have "announced en c (mo_now mo) (st\<lparr>es_disclosures := snd ?ds\<rparr>)" by (simp add: announced_def)
    then show "\<exists>A' k' st'. syncDisclosureApproval en c k mo st = k' mo st' \<and> triple A' k' B \<and> A' (mo_now mo) st'"
      using assms(1) triple_notify [OF stable_all(3) e]
      by (intro exI [of _ "announced en c"] exI [of _ "notifyDisclosureChanged en (fst ?ds) False (approval_notified en c k)"]
          exI [of _ "st\<lparr>es_disclosures := snd ?ds\<rparr>"]) (simp add: syncDisclosureApproval_def split_beta Let_def)
  qed
qed

lemma triple_expire:
  assumes "\<And>f. triple (renewing en (ce_sessionKey c) (ce_chatId c)) (k f) B"
  shows "triple (live_disclosed en) (expireCachedElevation en c inp k) B"
proof (rule triple_acts)
  fix mo :: moment and st assume A: "live_disclosed en (mo_now mo) st"
  let ?key = "buildCacheKey (ce_sessionKey c) (ce_chatId c)"
  let ?st = "clearExpirationTimer ?key (st\<lparr>es_cache := map_delete (es_cache st) ?key\<rparr>)"
  have "renewing en (ce_sessionKey c) (ce_chatId c) (mo_now mo) ?st"
    using A by (auto simp: renewing_def live_disclosed_def clearExpirationTimer_def)
  moreover have "triple (renewing en (ce_sessionKey c) (ce_chatId c)) (syncDisclosureExpiry en c
          (\<lambda>disclosureFailed. appendExpiredAudit en (nullish inp (timer_input c)) (ce_elevation c) (ce_chatId c)
            (\<lambda>auditFailed. case disclosureFailed of
               Some de \<Rightarrow>
                 appendAudit en ''admin.read-elevation.disclosure-refresh-failed'' False (ce_chatId c)
                   ([(''approvalId'', VStr (ae_approvalId (ce_elevation c))), (''expiresAt'', VStr (le_iso en (ae_expiresAt (ce_elevation c))))] @
                    refresh_failed_detail ''expiry'' de)
                   (\<lambda>failed. case failed of Some ae \<Rightarrow> k (Some ae) | None \<Rightarrow> k (Some de))
             | None \<Rightarrow> k auditFailed))) B" (is "triple _ ?k B")
    unfolding appendExpiredAudit_def
    by (intro triple_expiry triple_appendAudit stable_all triple_option assms)
  ultimately show "\<exists>A' k' st'. expireCachedElevation en c inp k mo st = k' mo st' \<and> triple A' k' B \<and> A' (mo_now mo) st'"
    by (intro exI [of _ "renewing en (ce_sessionKey c) (ce_chatId c)"] exI [of _ ?k] exI [of _ ?st])
      (simp add: expireCachedElevation_def Let_def)
qed

lemma triple_commit:
  assumes "ce_sessionKey c = li_sessionKey inp"
  shows "triple (announced en c) (commit_elevation en inp c) (live_disclosed en)"
proof -
  let ?key = "buildCacheKey (li_sessionKey inp) (ce_chatId c)"
  have "triple (announced en c) (\<lambda>mo st. case f of
      Some ae \<Rightarrow> syncDisclosureExpiry en c
        (\<lambda>rollbackFailed. case rollbackFailed of Some re \<Rightarrow> finish (Err re) | None \<Rightarrow> finish (Err ae)) mo st
    | None \<Rightarrow> finish (Ok (Some (ce_elevation c))) mo
        (scheduleExpiration (mo_now mo) c (st\<lparr>es_cache := map_set (es_cache st) ?key c\<rparr>))) (live_disclosed en)" for f
  proof (cases f)
    case None
    have "live_disclosed en t (scheduleExpiration t c (st\<lparr>es_cache := map_set (es_cache st) ?key c\<rparr>))"
      if "announced en c t st" for t st
      using that assms
      by (auto simp: announced_def renewing_def live_disclosed_def scheduleExpiration_def clearExpirationTimer_def Let_def)
    then show ?thesis using None by (auto simp: triple_def finish_def elim!: completes_cases)
  next
    case (Some ae)
    have "triple (renewing en (ce_sessionKey c) (ce_chatId c)) (syncDisclosureExpiry en c
        (\<lambda>rollbackFailed. case rollbackFailed of Some re \<Rightarrow> finish (Err re) | None \<Rightarrow> finish (Err ae))) (live_disclosed en)"
      by (intro triple_expiry triple_option triple_finish) (simp_all add: renewing_def)
    then show ?thesis unfolding Some option.case by (rule triple_weaken) (rule announced_renewing)
  qed
  then show ?thesis unfolding commit_elevation_def Let_def by (intro triple_appendAudit stable_all)
qed

lemma triple_disclose:
  assumes "le_hasDisclosureStore en" "ce_chatId c \<noteq> []" "ce_sessionKey c = li_sessionKey inp"
  shows "triple (renewing en (ce_sessionKey c) (ce_chatId c)) (disclose_and_commit en inp c) (live_disclosed en)"
  unfolding disclose_and_commit_def
proof (rule triple_approval [OF assms(1,2)])
  fix f
  show "triple (renewing en (ce_sessionKey c) (ce_chatId c)) (case Some f of
      Some de \<Rightarrow> appendAudit en ''admin.read-elevation.disclosure-refresh-failed'' False (ce_chatId c)
        (elevation_detail en inp (ce_elevation c) @ refresh_failed_detail ''approval'' de)
        (\<lambda>failed. case failed of Some ae \<Rightarrow> finish (Err ae) | None \<Rightarrow> finish (Err de))
    | None \<Rightarrow> commit_elevation en inp c) (live_disclosed en)"
    unfolding option.case
    by (intro triple_appendAudit stable_all triple_option triple_finish) (simp_all add: renewing_def)
qed (use triple_commit assms(3) in simp)

lemma triple_approve:
  assumes "le_hasDisclosureStore en" "chat \<noteq> []"
  shows "triple (renewing en (li_sessionKey inp) chat) (approve_elevation en inp chat) (live_disclosed en)"
proof (rule triple_acts)
  let ?A = "renewing en (li_sessionKey inp) chat"
  fix mo :: moment and st assume A: "?A (mo_now mo) st"
  define kfp where "kfp = (\<lambda>fp :: (string, signet_error) result. case fp of
          Err e \<Rightarrow> finish (Err e)
        | Ok fingerprint \<Rightarrow> (\<lambda>mo2. disclose_and_commit en inp
            \<lparr>ce_elevation = new_elevation en chat fingerprint mo2, ce_chatId = chat,
             ce_sessionKey = li_sessionKey inp\<rparr> mo2))"
  define kau where "kau = (\<lambda>refused. case refused of
        Some ae \<Rightarrow>
          appendAudit en ''admin.read-elevation.denied'' False chat
            ([(''method'', VStr (li_method inp)), (''adminKeyFingerprint'', VStr (li_adminFingerprint inp)),
              (''reason'', VStr (err_message ae)), (''category'', VStr (category_name (err_category ae)))] @
             session_scoped)
            (\<lambda>failed. case failed of Some e \<Rightarrow> finish (Err e) | None \<Rightarrow> finish (Err ae))
      | None \<Rightarrow> (\<lambda>mo1 st1. (P_fingerprint kfp, st1)))"
  have fin: "triple ?A (finish r) (live_disclosed en)" for r
    by (rule triple_finish) (simp add: renewing_def)
  have fp: "triple ?A (kfp fp) (live_disclosed en)" for fp
  proof (cases fp)
    case (Ok fingerprint)
    show ?thesis
    proof (rule triple_acts)
      fix mo2 :: moment and st2 assume B: "?A (mo_now mo2) st2"
      let ?c = "\<lparr>ce_elevation = new_elevation en chat fingerprint mo2, ce_chatId = chat, ce_sessionKey = li_sessionKey inp\<rparr>"
      show "\<exists>A' k' st'. kfp fp mo2 st2 = k' mo2 st' \<and> triple A' k' (live_disclosed en) \<and> A' (mo_now mo2) st'"
        using B triple_disclose [of en ?c inp, OF assms(1)] assms(2)
        by (intro exI [of _ ?A] exI [of _ "disclose_and_commit en inp ?c"] exI [of _ st2]) (simp add: kfp_def Ok)
    qed
  qed (simp add: kfp_def fin)
  have "triple ?A (\<lambda>mo1 st1. (P_fingerprint kfp, st1)) (live_disclosed en)"
    unfolding triple_def by (auto elim!: completes_cases tripleE [OF _ fp] intro: stableD(1) [OF stable_all(2)])
  then have "triple ?A (kau f) (live_disclosed en)" for f
    unfolding kau_def by (intro triple_option triple_appendAudit stable_all fin)
  then have au: "triple ?A (\<lambda>mo st. (P_authorize kau, st)) (live_disclosed en)"
    unfolding triple_def by (auto elim!: completes_cases intro: stableD(1) [OF stable_all(2)]) (metis stableD(1) [OF stable_all(2)])
  show "\<exists>A' k' st'. approve_elevation en inp chat mo st = k' mo st' \<and> triple A' k' (live_disclosed en) \<and> A' (mo_now mo) st'"
  proof (cases "le_hasApprover en")
    case True
    have "approve_elevation en inp chat mo st = (\<lambda>mo st. (P_authorize kau, st)) mo st"
      unfolding approve_elevation_def kau_def kfp_def using True by (simp only: not_True_eq_False if_False)
    then show ?thesis using A au
      by (intro exI [of _ ?A] exI [of _ "\<lambda>mo st. (P_authorize kau, st)"] exI [of _ st]) simp
  next
    case False
    then show ?thesis using A fin by (force simp: approve_elevation_def)
  qed
qed

lemma triple_resolve:
  assumes "le_hasDisclosureStore en" "\<And>c. c \<noteq> [] \<Longrightarrow> le_normalizeChatId en c \<noteq> []"
  shows "triple (live_disclosed en) (resolveForRequest en inp) (live_disclosed en)"
proof (rule triple_acts)
  fix mo :: moment and st assume A: "live_disclosed en (mo_now mo) st"
  have fin: "triple (live_disclosed en) (finish r) (live_disclosed en)" for r
    by (rule triple_finish)
  show "\<exists>A' k' st'. resolveForRequest en inp mo st = k' mo st' \<and> triple A' k' (live_disclosed en) \<and> A' (mo_now mo) st'"
  proof (cases "isMessageReadMethod (li_method inp) \<and> wantsDangerousMessageRead (li_params inp)")
    case False
    then show ?thesis using A fin by (force simp: resolveForRequest_def)
  next
    case wants: True
    show ?thesis
    proof (cases "resolveChatId (li_params inp)")
      case None
      then show ?thesis using A fin wants by (force simp: resolveForRequest_def)
    next
      case (Some chatId)
      let ?chat = "le_normalizeChatId en chatId"
      have "chatId \<noteq> []" using Some by (auto simp: resolveChatId_def split: option.splits js_value.splits if_splits)
      then have ap: "triple (renewing en (li_sessionKey inp) ?chat) (approve_elevation en inp ?chat) (live_disclosed en)"
        by (intro triple_approve assms)
      show ?thesis
      proof (cases "map_get (es_cache st) (buildCacheKey (li_sessionKey inp) ?chat)")
        case None
        then have "renewing en (li_sessionKey inp) ?chat (mo_now mo) st" using A by (simp add: renewing_def)
        moreover have "resolveForRequest en inp mo st = approve_elevation en inp ?chat mo st"
          using wants Some None by (simp add: resolveForRequest_def)
        ultimately show ?thesis using ap by blast
      next
        case hit: (Some c)
        show ?thesis
        proof (cases "ae_expiresAt (ce_elevation c) > mo_now mo")
          case True
          let ?k = "appendReuseAudit en inp (ce_elevation c) ?chat
             (\<lambda>failed. case failed of Some e \<Rightarrow> finish (Err e) | None \<Rightarrow> finish (Ok (Some (ce_elevation c))))"
          have "triple (live_disclosed en) ?k (live_disclosed en)"
            unfolding appendReuseAudit_def by (intro triple_appendAudit stable_all triple_option fin)
          moreover have "resolveForRequest en inp mo st = ?k mo st"
            using wants Some hit True by (simp add: resolveForRequest_def)
          ultimately show ?thesis using A by blast
        next
          case False
          let ?k = "expireCachedElevation en c (Some inp)
                (\<lambda>failed. case failed of Some e \<Rightarrow> finish (Err e) | None \<Rightarrow> approve_elevation en inp ?chat)"
          have key: "buildCacheKey (li_sessionKey inp) ?chat = buildCacheKey (ce_sessionKey c) (ce_chatId c)"
            using A hit by (simp add: live_disclosed_def)
          have "triple (renewing en (ce_sessionKey c) (ce_chatId c)) (approve_elevation en inp ?chat) (live_disclosed en)"
            by (rule triple_weaken [OF ap]) (simp add: renewing_def key)
          then have "triple (live_disclosed en) ?k (live_disclosed en)"
            by (intro triple_expire triple_option triple_finish) (simp_all add: renewing_def)
          moreover have "resolveForRequest en inp mo st = ?k mo st"
            using wants Some hit False by (simp add: resolveForRequest_def)
          ultimately show ?thesis using A by blast
        qed
      qed
    qed
  qed
qed

lemma quiet_live_disclosed:
  assumes "quiet_reachable en st t" "le_hasDisclosureStore en" "\<And>c. c \<noteq> [] \<Longrightarrow> le_normalizeChatId en c \<noteq> []"
  shows "live_disclosed en t st"
  using assms(1)
proof induction
  case 1
  then show ?case by (simp add: live_disclosed_def createAdminReadElevationManager_def)
next
  case (2 st t mo inp r st' t')
  show ?case
    using tripleD [OF triple_resolve [OF assms(2,3)] stableD(1) [OF stable_all(1) 2(4,2)] 2(3)] by simp
next
  case (3 st t mo key due c r st' t')
  have "triple (live_disclosed en) (elevation_timer_fired en c) (live_disclosed en)"
    unfolding elevation_timer_fired_def
    by (intro triple_expire triple_option triple_finish) (simp_all add: renewing_def)
  from tripleD [OF this stableD(1) [OF stable_all(1) 3(5,2)] 3(4)] show ?case .
qed

text \<open>The aggregate of a chat lasts at least as long as each of its sessions.\<close>

lemma latest_covers:
  "d \<in> snd ` set ds \<or> latest = Some d \<Longrightarrow>
   \<exists>l. latest_disclosure latest ds = Some l \<and> dc_expiresAt d \<le> dc_expiresAt l"
proof (induction latest ds arbitrary: d rule: latest_disclosure.induct)
  case (2 latest s d' ds)
  let ?l = "case latest of None \<Rightarrow> Some d' | Some l \<Rightarrow> if dc_expiresAt d' > dc_expiresAt l then Some d' else latest"
  obtain l where l: "?l = Some l" by (cases ?l) (auto split: option.splits if_splits)
  have "d \<in> snd ` set ds \<or> dc_expiresAt d \<le> dc_expiresAt l"
    using 2(2) l by (auto split: option.splits if_splits)
  then show ?case
  proof
    assume "d \<in> snd ` set ds"
    then show ?thesis using 2(1) [of d] by simp
  next
    assume "dc_expiresAt d \<le> dc_expiresAt l"
    then show ?thesis using 2(1) [of l] l by fastforce
  qed
qed simp

lemma entry_aggregated:
  assumes "disclosed_entry ds chat session = Some d" "now < dc_expiresAt d"
  shows "\<exists>l. fst (ds_get now chat ds) = Some l \<and> dc_expiresAt d \<le> dc_expiresAt l"
proof (cases "map_get ds chat")
  case None
  then show ?thesis using assms(1) by (simp add: disclosed_entry_def nullish_def)
next
  case (Some per)
  then have "map_of per session = Some d" using assms(1) by (simp add: disclosed_entry_def nullish_def map_get_def)
  then have "d \<in> snd ` set (filter (\<lambda>p. False \<or> \<not> dc_expiresAt (snd p) \<le> now) per)"
    using assms(2) by (force dest: map_of_SomeD)
  moreover then have "filter (\<lambda>p. False \<or> \<not> dc_expiresAt (snd p) \<le> now) per \<noteq> []" by (metis empty_iff image_empty list.set(1))
  ultimately show ?thesis using latest_covers [of d _ None] Some by (simp add: ds_get_def aggregateForChat_def Let_def)
qed

text \<open>C27: When the calls for elevations and the expiration timers do not overlap, no live elevation is
  secret: at every time the chat of each cached elevation that has not expired is disclosed as read
  by an administrator, for at least as long as the elevation lasts, whatever approvals, refusals,
  audit failures and failed refreshes there were.\<close>

theorem live_elevation_disclosed:
  assumes "quiet_reachable en st t" "le_hasDisclosureStore en" "\<And>c. c \<noteq> [] \<Longrightarrow> le_normalizeChatId en c \<noteq> []"
    and "map_get (es_cache st) key = Some c" "t \<le> now" "now < ae_expiresAt (ce_elevation c)"
  shows "\<exists>d. fst (ds_get now (ce_chatId c) (es_disclosures st)) = Some d \<and>
    ae_expiresAt (ce_elevation c) \<le> dc_expiresAt d"
proof -
  have "live_disclosed en t st" by (rule quiet_live_disclosed [OF assms(1-3)])
  then have "live_disclosed en now st" by (rule stableD(1) [OF stable_all(1) _ assms(5)])
  then have "disclosed_entry (es_disclosures st) (ce_chatId c) (ce_sessionKey c) = Some (cached_disclosure en c)"
    using assms(4,6) by (simp add: live_disclosed_def)
  from entry_aggregated [OF this, of now] assms(6) show ?thesis by (simp add: cached_disclosure_def)
qed

subsection \<open>Sample runs\<close>

datatype await_answer =
    A_go
  | A_audit "string option"
  | A_notify "signet_error option"
  | A_authorize "signet_error option"
  | A_fingerprint "(string, signet_error) result"

text \<open>One step of a schedule: a new call, or an answer for a waiting one.\<close>

datatype schedule_step = S_call elevation_input | S_answer nat await_answer

fun schedule_one :: "elev_env \<Rightarrow> moment \<Rightarrow> elev_system \<Rightarrow> schedule_step \<Rightarrow> elev_system option" where
  "schedule_one en mo sy (S_call inp) =
     (if ey_now sy \<le> mo_now mo \<and> session_key_ok (li_sessionKey inp)
      then Some (begin_call (Some (inp, mo_now mo)) (resolveForRequest en inp mo (ey_store sy)) (mo_now mo) sy)
      else None)"
| "schedule_one en mo sy (S_answer i a) =
     (if ey_now sy \<le> mo_now mo \<and> i < length (ey_calls sy) then
        let c = ey_calls sy ! i; now = mo_now mo in
        (case (ec_process c, a) of
           (P_yield k, A_go) \<Rightarrow> Some (go_on i (k mo (ey_store sy)) now sy)
         | (P_audit e k, A_audit None) \<Rightarrow> Some (go_on i (k None mo (append_entry e (ey_store sy))) now sy)
         | (P_audit e k, A_audit (Some t)) \<Rightarrow> Some (go_on i (k (Some t) mo (ey_store sy)) now sy)
         | (P_notify _ _ k, A_notify f) \<Rightarrow> Some (go_on i (k f mo (ey_store sy)) now sy)
         | (P_authorize k, A_authorize f) \<Rightarrow>
             Some (go_on i (k f mo (ey_store sy)) now (add_event c (if f = None then Some Authorized else None) sy))
         | (P_fingerprint k, A_fingerprint r) \<Rightarrow>
             Some (go_on i (k r mo (ey_store sy)) now
               (add_event c (case r of Ok f \<Rightarrow> Some (Fingerprint f) | Err _ \<Rightarrow> None) sy))
         | _ \<Rightarrow> None)
      else None)"

fun schedule :: "elev_env \<Rightarrow> (moment \<times> schedule_step) list \<Rightarrow> elev_system \<Rightarrow> elev_system option" where
  "schedule en [] sy = Some sy"
| "schedule en ((mo, s) # ss) sy =
     (case schedule_one en mo sy s of None \<Rightarrow> None | Some sy' \<Rightarrow> schedule en ss sy')"

lemma schedule_one_reachable:
  assumes "elev_reachable en sy" "schedule_one en mo sy s = Some sy'"
  shows "elev_reachable en sy'"
proof (cases s)
  case (S_call inp)
  then show ?thesis using assms by (auto intro: elev_reachable.called split: if_splits)
next
  case (S_answer i a)
  then show ?thesis using assms
    by (cases "ec_process (ey_calls sy ! i)"; cases a)
      (auto simp: Let_def split: if_splits option.splits intro: elev_reachable.intros
        dest: elev_reachable.authorize_answered elev_reachable.fingerprint_answered)
qed

lemma schedule_reachable: "elev_reachable en sy \<Longrightarrow> schedule en ss sy = Some sy' \<Longrightarrow> elev_reachable en sy'"
  by (induction en ss sy rule: schedule.induct) (auto split: option.splits intro: schedule_one_reachable)

definition sample_elev_env :: elev_env where
  "sample_elev_env = \<lparr>le_hasApprover = True, le_hasAuditLog = True, le_hasDisclosureStore = True,
     le_hasOnChanged = True, le_actor = ''owner'', le_normalizeChatId = (\<lambda>c. c), le_ttlMs = 60000,
     le_iso = (\<lambda>_. ''t'')\<rparr>"

definition sample_read :: elevation_input where
  "sample_read = \<lparr>li_method = ''message.list'',
     li_params = [(''chatId'', VStr ''c1''), (''dangerouslyAllowMessageRead'', VBool True)],
     li_adminFingerprint = ''fp'', li_sessionKey = ''fp:j1''\<rparr>"

definition at_time :: "int \<Rightarrow> moment" where
  "at_time t = \<lparr>mo_now = t, mo_uuid = ''u-1''\<rparr>"

definition approved_steps :: "nat \<Rightarrow> schedule_step list" where
  "approved_steps i = [S_call sample_read, S_answer i (A_authorize None), S_answer i (A_fingerprint (Ok ''local''))]"

definition sample_approval :: "(moment \<times> schedule_step) list" where
  "sample_approval = map (Pair (at_time 5)) (approved_steps 0 @ [S_answer 0 (A_notify None), S_answer 0 (A_audit None)])"

definition sample_elevation :: elevation where
  "sample_elevation = \<lparr>ae_approvalId = ''approval_u1'', ae_chatIds = [''c1''], ae_approvedAt = 5,
     ae_expiresAt = 60005, ae_approvalKeyFingerprint = ''local''\<rparr>"

lemmas elevation_eval = resolveForRequest_def approve_elevation_def disclose_and_commit_def commit_elevation_def
  syncDisclosureApproval_def syncDisclosureExpiry_def approval_notified_def expiry_notified_def
  notifyDisclosureChanged_def appendAudit_def finish_def new_elevation_def scheduleExpiration_def

definition granted_system :: elev_system where
  "granted_system = (case schedule sample_elev_env sample_approval start_system of Some sy \<Rightarrow> sy | None \<Rightarrow> start_system)"

lemma granted_system_calls:
  "map ec_input (ey_calls granted_system) = [Some (sample_read, 5)] \<and>
   (case ec_process (ey_calls granted_system ! 0) of
      P_done (Ok (Some e)) \<Rightarrow> e = sample_elevation | _ \<Rightarrow> False) \<and>
   schedule sample_elev_env sample_approval start_system \<noteq> None"
  by code_simp

text \<open>Two requests of one session for one chat at the same time: both are approved, the audit entry of
  the first cannot be written, and taking back its disclosure hides the elevation of the second.\<close>

definition overlapping_approvals :: "(moment \<times> schedule_step) list" where
  "overlapping_approvals = map (Pair (at_time 5)) (approved_steps 0 @ [S_answer 0 (A_notify None)] @
     approved_steps 1 @ [S_answer 1 A_go, S_answer 1 (A_audit None), S_answer 0 (A_audit (Some ''disk full''))])"

lemma overlapping_calls_hide_elevation:
  "case schedule sample_elev_env overlapping_approvals start_system of
     None \<Rightarrow> False
   | Some sy \<Rightarrow>
       (case ec_process (ey_calls sy ! 1) of P_done (Ok (Some e)) \<Rightarrow> e = sample_elevation | _ \<Rightarrow> False) \<and>
       map_values (es_cache (ey_store sy)) \<noteq> [] \<and>
       fst (ds_get 6 ''c1'' (es_disclosures (ey_store sy))) = None"
  by code_simp

theorem elevations_approved_witness:
  "\<exists>chat. asks_for sample_elev_env sample_read chat \<and> ae_chatIds sample_elevation = [chat] \<and>
    5 < ae_expiresAt sample_elevation"
proof -
  let ?ec = "ey_calls granted_system ! 0"
  have l: "length (ey_calls granted_system) = 1" "map ec_input (ey_calls granted_system) = [Some (sample_read, 5)]"
    using granted_system_calls arg_cong [of _ _ length] by fastforce+
  then have i: "?ec \<in> set (ey_calls granted_system)" "ec_input ?ec = Some (sample_read, 5)"
    by (simp, metis l(2) length_map nth_Cons_0 nth_map l(1) zero_less_one)
  have d: "ec_process ?ec = P_done (Ok (Some sample_elevation))"
    using granted_system_calls by (auto split: elev_process.splits result.splits option.splits)
  obtain sy where "schedule sample_elev_env sample_approval start_system = Some sy" using granted_system_calls by blast
  then have "elev_reachable sample_elev_env granted_system"
    using schedule_reachable [OF elev_reachable.started] by (simp add: granted_system_def)
  from elevations_approved [OF _ this i d] show ?thesis by (simp add: sample_elev_env_def) blast
qed

text \<open>One process run with the given answers.\<close>

fun run_process ::
  "(moment \<times> await_answer) list \<Rightarrow> elev_process \<Rightarrow> elev_state \<Rightarrow> int \<Rightarrow>
   ((elevation option, signet_error) result \<times> elev_state \<times> int) option" where
  "run_process as (P_done r) st t = Some (r, st, t)"
| "run_process ((mo, a) # as) p st t =
     (if mo_now mo < t then None else
      case (p, a) of
        (P_yield k, A_go) \<Rightarrow> run_process as (fst (k mo st)) (snd (k mo st)) (mo_now mo)
      | (P_audit e k, A_audit None) \<Rightarrow> run_process as (fst (k None mo (append_entry e st))) (snd (k None mo (append_entry e st))) (mo_now mo)
      | (P_audit e k, A_audit (Some c)) \<Rightarrow> run_process as (fst (k (Some c) mo st)) (snd (k (Some c) mo st)) (mo_now mo)
      | (P_notify _ _ k, A_notify f) \<Rightarrow> run_process as (fst (k f mo st)) (snd (k f mo st)) (mo_now mo)
      | (P_authorize k, A_authorize f) \<Rightarrow> run_process as (fst (k f mo st)) (snd (k f mo st)) (mo_now mo)
      | (P_fingerprint k, A_fingerprint r) \<Rightarrow> run_process as (fst (k r mo st)) (snd (k r mo st)) (mo_now mo)
      | _ \<Rightarrow> None)"
| "run_process [] p st t = None"

lemmas completes_on = completes.intros(2-7) [rotated]

lemma run_completes: "run_process as p st t = Some (r, st', t') \<Longrightarrow> completes p st t r st' t'"
  by (induction as p st t rule: run_process.induct)
    (auto simp: not_less split: if_splits elev_process.splits await_answer.splits option.splits
      intro: completes.intros(1) completes_on)

definition first_call :: "elev_process \<times> elev_state" where
  "first_call = resolveForRequest sample_elev_env sample_read (at_time 5) createAdminReadElevationManager"

definition first_answers :: "(moment \<times> await_answer) list" where
  "first_answers = map (Pair (at_time 5))
     [A_authorize None, A_fingerprint (Ok ''local''), A_notify None, A_audit None]"

definition after_first :: elev_state where
  "after_first = (case run_process first_answers (fst first_call) (snd first_call) 5 of
     Some (_, st, _) \<Rightarrow> st | None \<Rightarrow> createAdminReadElevationManager)"

lemma after_first_state:
  "(case run_process first_answers (fst first_call) (snd first_call) 5 of
      None \<Rightarrow> False | Some (r, _, t) \<Rightarrow> r = Ok (Some sample_elevation) \<and> t = 5) \<and>
   map_get (es_cache after_first) ''fp:j1:c1'' =
     Some \<lparr>ce_elevation = sample_elevation, ce_chatId = ''c1'', ce_sessionKey = ''fp:j1''\<rparr>"
  by code_simp

theorem live_elevation_disclosed_witness:
  "\<exists>d. fst (ds_get 1000 ''c1'' (es_disclosures after_first)) = Some d \<and> 60005 \<le> dc_expiresAt d"
proof -
  obtain r st t where "run_process first_answers (fst first_call) (snd first_call) 5 = Some (r, st, t)" "t = 5"
    using after_first_state by (cases "run_process first_answers (fst first_call) (snd first_call) 5") auto
  then have "completes (fst first_call) (snd first_call) 5 r after_first 5"
    using run_completes by (simp add: after_first_def)
  then have "quiet_reachable sample_elev_env after_first 5"
    unfolding first_call_def
    by (intro quiet_reachable.intros(2) [OF quiet_reachable.intros(1), where mo = "at_time 5"]) (simp_all add: at_time_def)
  from live_elevation_disclosed [OF this _ _ conjunct2 [OF after_first_state], of 1000]
  show ?thesis by (simp add: sample_elev_env_def sample_elevation_def)
qed

end
