(* ===== verification/IdentityStore.thy ===== *)
theory IdentityStore
  imports ResourceIds PolicyHash
begin

text \<open>
  The stores behind the core's actions: identities
  (\<^verbatim>\<open>packages/core/src/identity-store.ts\<close>, \<^verbatim>\<open>identity-selector.ts\<close>), the mapping between network and local
  identifiers (\<^verbatim>\<open>id-mapping-store.ts\<close>) and the registry of running clients (\<^verbatim>\<open>client-registry.ts\<close>). A table is the list of
  its rows in the order of insertion; a statement that violates a constraint throws. Creation times
  are compared as numbers, rows created at the same time keep their order.
\<close>

subsection \<open>Identities\<close>

record agent_identity =
  ai_id :: string
  ai_inboxId :: "string option"
  ai_groupId :: "string option"
  ai_label :: "string option"
  ai_createdAt :: int

text \<open>The rows, and whether the unique index on inbox identifiers exists.\<close>

record identity_store =
  is_rows :: "agent_identity list"
  is_inboxIndex :: bool

definition no_duplicates :: "string option list \<Rightarrow> bool" where
  "no_duplicates vs \<longleftrightarrow> distinct (filter (\<lambda>v. v \<noteq> None) vs)"

text \<open>Opening a database: the index is made unless duplicates are stored.\<close>

definition migrate :: "identity_store \<Rightarrow> identity_store" where
  "migrate st =
     (if no_duplicates (map ai_inboxId (is_rows st)) then st\<lparr>is_inboxIndex := True\<rparr> else st)"

definition row_where :: "(agent_identity \<Rightarrow> bool) \<Rightarrow> identity_store \<Rightarrow> agent_identity option" where
  "row_where P st = List.find P (is_rows st)"

definition by_creation :: "agent_identity list \<Rightarrow> agent_identity list" where
  "by_creation = js_sort (\<lambda>a b. ai_createdAt a \<le> ai_createdAt b)"

definition getByGroupId :: "identity_store \<Rightarrow> string \<Rightarrow> agent_identity option" where
  "getByGroupId st groupId = row_where (\<lambda>r. ai_groupId r = Some groupId) st"

definition getByLabel :: "identity_store \<Rightarrow> string \<Rightarrow> agent_identity option" where
  "getByLabel st label = row_where (\<lambda>r. ai_label r = Some label) st"

definition identity_getById :: "identity_store \<Rightarrow> string \<Rightarrow> agent_identity option" where
  "identity_getById st i = row_where (\<lambda>r. ai_id r = i) st"

definition getByInboxId :: "identity_store \<Rightarrow> string \<Rightarrow> agent_identity option" where
  "getByInboxId st inboxId =
     (case by_creation (filter (\<lambda>r. ai_inboxId r = Some inboxId) (is_rows st)) of [] \<Rightarrow> None | r # _ \<Rightarrow> Some r)"

definition identity_list :: "identity_store \<Rightarrow> agent_identity list" where
  "identity_list st = by_creation (is_rows st)"

text \<open>The constraints of the table: primary key, unique group and label, and the index.\<close>

definition violates :: "identity_store \<Rightarrow> agent_identity list \<Rightarrow> bool" where
  "violates st rows \<longleftrightarrow>
     \<not> distinct (map ai_id rows) \<or> \<not> no_duplicates (map ai_groupId rows) \<or>
     \<not> no_duplicates (map ai_label rows) \<or> is_inboxIndex st \<and> \<not> no_duplicates (map ai_inboxId rows)"

definition identity_create ::
  "8 word list \<Rightarrow> int \<Rightarrow> string \<Rightarrow> string option \<Rightarrow> string option \<Rightarrow> identity_store \<Rightarrow>
   (agent_identity, signet_error) result \<times> identity_store" where
  "identity_create bytes now cause groupId label st =
     (let row = \<lparr>ai_id = createResourceId RT_inbox bytes, ai_inboxId = None, ai_groupId = groupId,
                 ai_label = label, ai_createdAt = now\<rparr>
      in if violates st (is_rows st @ [row])
         then (Err (InternalError_create ''Failed to create identity'' (Some [(''cause'', VStr cause)])), st)
         else (Ok row, st\<lparr>is_rows := is_rows st @ [row]\<rparr>))"

definition setInboxId ::
  "string \<Rightarrow> string \<Rightarrow> string \<Rightarrow> identity_store \<Rightarrow> (agent_identity, signet_error) result \<times> identity_store" where
  "setInboxId cause i inboxId st =
     (case identity_getById st i of
        None \<Rightarrow> (Err (NotFoundError_create ''identity'' i), st)
      | Some existing \<Rightarrow>
          let rows = map (\<lambda>r. if ai_id r = i then r\<lparr>ai_inboxId := Some inboxId\<rparr> else r) (is_rows st)
          in if violates st rows
             then (Err (InternalError_create ''Failed to persist inbox ID''
                    (Some [(''identityId'', VStr i), (''inboxId'', VStr inboxId), (''cause'', VStr cause)])), st)
             else (Ok (existing\<lparr>ai_inboxId := Some inboxId\<rparr>), st\<lparr>is_rows := rows\<rparr>))"

definition identity_remove :: "string \<Rightarrow> identity_store \<Rightarrow> (unit, signet_error) result \<times> identity_store" where
  "identity_remove i st =
     (case identity_getById st i of
        None \<Rightarrow> (Err (NotFoundError_create ''identity'' i), st)
      | Some _ \<Rightarrow> (Ok (), st\<lparr>is_rows := filter (\<lambda>r. ai_id r \<noteq> i) (is_rows st)\<rparr>))"

subsection \<open>Selecting an identity\<close>

record resolved_identity =
  ri_identityId :: string
  ri_inboxId :: "string option"

definition toResolvedIdentity :: "agent_identity \<Rightarrow> resolved_identity" where
  "toResolvedIdentity i = \<lparr>ri_identityId = ai_id i, ri_inboxId = ai_inboxId i\<rparr>"

definition resolveIdentitySelector ::
  "identity_store \<Rightarrow> string option \<Rightarrow> (resolved_identity, signet_error) result" where
  "resolveIdentitySelector st selector =
     (case (if selector = Some [] then None else selector) of
        Some s \<Rightarrow>
          (case getByLabel st s of
             Some i \<Rightarrow> Ok (toResolvedIdentity i)
           | None \<Rightarrow>
               (case getByInboxId st s of
                  Some i \<Rightarrow> Ok (toResolvedIdentity i)
                | None \<Rightarrow> Err (NotFoundError_create ''identity'' s)))
      | None \<Rightarrow>
          (case identity_list st of
             [] \<Rightarrow> Err (NotFoundError_create ''identity'' ''(none)'')
           | i # _ \<Rightarrow> Ok (toResolvedIdentity i)))"

subsection \<open>Identifier mappings\<close>

datatype mapping_type = MT_message | MT_conversation | MT_inbox

record id_mapping =
  im_networkId :: string
  im_localId :: string
  im_resourceType :: mapping_type

type_synonym id_mappings = "id_mapping list"

definition getLocal :: "id_mappings \<Rightarrow> string \<Rightarrow> string option" where
  "getLocal m networkId = map_option im_localId (List.find (\<lambda>r. im_networkId r = networkId) m)"

definition getNetwork :: "id_mappings \<Rightarrow> string \<Rightarrow> string option" where
  "getNetwork m localId = map_option im_networkId (List.find (\<lambda>r. im_localId r = localId) m)"

text \<open>The upsert; \<open>None\<close> when the local identifier belongs to another row, which throws.\<close>

definition mapping_set :: "string \<Rightarrow> string \<Rightarrow> mapping_type \<Rightarrow> id_mappings \<Rightarrow> id_mappings option" where
  "mapping_set networkId localId ty m =
     (if \<exists>r \<in> set m. im_localId r = localId \<and> im_networkId r \<noteq> networkId then None
      else if networkId \<in> im_networkId ` set m
      then Some (map (\<lambda>r. if im_networkId r = networkId
                          then r\<lparr>im_localId := localId, im_resourceType := ty\<rparr> else r) m)
      else Some (m @ [\<lparr>im_networkId = networkId, im_localId = localId, im_resourceType = ty\<rparr>]))"

definition mapping_resolve :: "id_mappings \<Rightarrow> string \<Rightarrow> (string \<times> string) option" where
  "mapping_resolve m i =
     (case List.find (\<lambda>r. im_networkId r = i) m of
        Some r \<Rightarrow> Some (im_networkId r, im_localId r)
      | None \<Rightarrow> map_option (\<lambda>r. (im_networkId r, im_localId r)) (List.find (\<lambda>r. im_localId r = i) m))"

definition mapping_remove :: "string \<Rightarrow> id_mappings \<Rightarrow> (string \<times> string) option \<times> id_mappings" where
  "mapping_remove i m =
     (case mapping_resolve m i of
        None \<Rightarrow> (None, m)
      | Some (n, l) \<Rightarrow>
          (Some (n, l),
           if n = i then filter (\<lambda>r. im_networkId r \<noteq> i) m else filter (\<lambda>r. im_localId r \<noteq> i) m))"

text \<open>The shared helpers of the actions: without a store an identifier stands for itself.\<close>

definition resolveGroupId :: "id_mappings option \<Rightarrow> string \<Rightarrow> string" where
  "resolveGroupId idMappings chatId =
     (case idMappings of None \<Rightarrow> chatId | Some m \<Rightarrow> nullish (getNetwork m chatId) chatId)"

subsection \<open>Running clients\<close>

record 'c managed_client =
  mc_identityId :: string
  mc_inboxId :: string
  mc_client :: 'c
  mc_groupIds :: "string list"

type_synonym 'c client_registry = "(string, 'c managed_client) js_map"

definition registry_register :: "'c managed_client \<Rightarrow> 'c client_registry \<Rightarrow> 'c client_registry" where
  "registry_register managed reg = map_set reg (mc_identityId managed) managed"

definition registry_get :: "'c client_registry \<Rightarrow> string \<Rightarrow> 'c managed_client option" where
  "registry_get reg identityId = map_get reg identityId"

definition registry_getByGroupId :: "'c client_registry \<Rightarrow> string \<Rightarrow> 'c managed_client option" where
  "registry_getByGroupId reg groupId = List.find (\<lambda>m. groupId \<in> set (mc_groupIds m)) (map_values reg)"

definition registry_unregister :: "string \<Rightarrow> 'c client_registry \<Rightarrow> bool \<times> 'c client_registry" where
  "registry_unregister identityId reg = (map_get reg identityId \<noteq> None, map_delete reg identityId)"

subsection \<open>What the stores keep\<close>

definition mappings_ok :: "id_mappings \<Rightarrow> bool" where
  "mappings_ok m \<longleftrightarrow> distinct (map im_networkId m) \<and> distinct (map im_localId m)"

lemma find_by_key:
  "distinct (map f xs) \<Longrightarrow> List.find (\<lambda>x. f x = k) xs = Some x \<longleftrightarrow> x \<in> set xs \<and> f x = k"
proof (induction xs)
  case (Cons y ys)
  then show ?case by (cases "f y = k") (auto simp: image_iff)
qed simp

lemma mappings_ok_set:
  assumes "mappings_ok m" "mapping_set n l ty m = Some m'"
  shows "mappings_ok m'"
proof (cases "n \<in> im_networkId ` set m")
  case True
  let ?f = "\<lambda>r. if im_networkId r = n then r\<lparr>im_localId := l, im_resourceType := ty\<rparr> else r"
  have m': "m' = map ?f m" and new: "\<forall>r \<in> set m. im_localId r = l \<longrightarrow> im_networkId r = n"
    using assms(2) True by (auto simp: mapping_set_def split: if_splits)
  have "map im_networkId m' = map im_networkId m" by (simp add: m')
  moreover have "distinct (map im_localId m')"
  proof -
    have "inj_on (im_localId \<circ> ?f) (set m)"
    proof (rule inj_onI)
      fix r s assume rs: "r \<in> set m" "s \<in> set m" "(im_localId \<circ> ?f) r = (im_localId \<circ> ?f) s"
      have "im_networkId r = im_networkId s \<or> im_localId r = im_localId s"
        using rs new by (auto split: if_splits)
      then show "r = s" using assms(1) rs(1,2) by (auto simp: mappings_ok_def distinct_map dest: inj_onD)
    qed
    moreover have "distinct m" using assms(1) by (simp add: mappings_ok_def distinct_map)
    ultimately have "distinct (map (im_localId \<circ> ?f) m)" by (simp add: distinct_map)
    then show ?thesis by (simp add: m')
  qed
  ultimately show ?thesis using assms(1) by (simp add: mappings_ok_def)
next
  case False
  then have "m' = m @ [\<lparr>im_networkId = n, im_localId = l, im_resourceType = ty\<rparr>]"
      "\<forall>r \<in> set m. im_localId r \<noteq> l"
    using assms(2) by (auto simp: mapping_set_def split: if_splits)
  then show ?thesis using assms(1) False by (auto simp: mappings_ok_def)
qed

lemma mappings_ok_remove: "mappings_ok m \<Longrightarrow> mappings_ok (snd (mapping_remove i m))"
  by (auto simp: mapping_remove_def mappings_ok_def distinct_map_filter split: option.splits)

inductive mappings_reachable :: "id_mappings \<Rightarrow> bool" where
  "mappings_reachable []"
| "mappings_reachable m \<Longrightarrow> mapping_set n l ty m = Some m' \<Longrightarrow> mappings_reachable m'"
| "mappings_reachable m \<Longrightarrow> mappings_reachable (snd (mapping_remove i m))"

lemma mappings_reachable_ok: "mappings_reachable m \<Longrightarrow> mappings_ok m"
  by (induction rule: mappings_reachable.induct) (auto simp: mappings_ok_def [of "[]"] mappings_ok_set mappings_ok_remove)

text \<open>C29: Network and local identifiers are in one-to-one correspondence in every state of the mapping
  store: an identifier maps to another exactly when that one maps back, an accepted entry is found
  in both directions, and a removed one in neither.\<close>

theorem mappings_one_to_one:
  assumes "mappings_reachable m"
  shows "(getLocal m n = Some l \<longleftrightarrow> getNetwork m l = Some n) \<and>
    (case mapping_set n l ty m of None \<Rightarrow> getNetwork m l \<noteq> None \<and> getNetwork m l \<noteq> Some n
      | Some m' \<Rightarrow> getLocal m' n = Some l \<and> getNetwork m' l = Some n) \<and>
    (case mapping_remove i m of (None, m') \<Rightarrow> m' = m \<and> getLocal m i = None \<and> getNetwork m i = None
      | (Some (n', l'), m') \<Rightarrow> getLocal m n' = Some l' \<and> (i = n' \<or> i = l') \<and> getLocal m' n' = None \<and> getNetwork m' l' = None)"
proof -
  have ok: "mappings_ok m" by (rule mappings_reachable_ok [OF assms])
  have L: "getLocal k a = Some b \<longleftrightarrow> (\<exists>r \<in> set k. im_networkId r = a \<and> im_localId r = b)" if "mappings_ok k" for k a b
    using that find_by_key [of im_networkId k a] by (auto simp: getLocal_def mappings_ok_def)
  have N: "getNetwork k b = Some a \<longleftrightarrow> (\<exists>r \<in> set k. im_networkId r = a \<and> im_localId r = b)" if "mappings_ok k" for k a b
    using that find_by_key [of im_localId k b] by (auto simp: getNetwork_def mappings_ok_def)
  have "case mapping_set n l ty m of None \<Rightarrow> getNetwork m l \<noteq> None \<and> getNetwork m l \<noteq> Some n
      | Some m' \<Rightarrow> getLocal m' n = Some l \<and> getNetwork m' l = Some n"
  proof (cases "mapping_set n l ty m")
    case None
    then obtain r where "r \<in> set m" "im_localId r = l" "im_networkId r \<noteq> n"
      by (auto simp: mapping_set_def split: if_splits)
    then have "getNetwork m l = Some (im_networkId r)" using N [OF ok] by blast
    then show ?thesis using None \<open>im_networkId r \<noteq> n\<close> by simp
  next
    case (Some m')
    have "\<exists>r \<in> set m'. im_networkId r = n \<and> im_localId r = l"
    proof (cases "n \<in> im_networkId ` set m")
      case True
      then obtain r where "r \<in> set m" "im_networkId r = n" by blast
      then have "m' = map (\<lambda>r. if im_networkId r = n then r\<lparr>im_localId := l, im_resourceType := ty\<rparr> else r) m"
        using Some by (auto simp: mapping_set_def image_iff split: if_splits)
      then show ?thesis using \<open>r \<in> set m\<close> \<open>im_networkId r = n\<close>
        by (auto intro!: bexI [of _ "r\<lparr>im_localId := l, im_resourceType := ty\<rparr>"] simp: image_iff)
    qed (use Some in \<open>auto simp: mapping_set_def split: if_splits\<close>)
    then show ?thesis using Some L N mappings_ok_set [OF ok Some] by auto
  qed
  moreover have "case mapping_remove i m of (None, m') \<Rightarrow> m' = m \<and> getLocal m i = None \<and> getNetwork m i = None
      | (Some (n', l'), m') \<Rightarrow> getLocal m n' = Some l' \<and> (i = n' \<or> i = l') \<and> getLocal m' n' = None \<and> getNetwork m' l' = None"
  proof (cases "mapping_resolve m i")
    case None
    then show ?thesis by (auto simp: mapping_remove_def mapping_resolve_def getLocal_def getNetwork_def split: option.splits)
  next
    case (Some p)
    obtain n' l' where p: "p = (n', l')" by (cases p)
    obtain r where r: "r \<in> set m" "im_networkId r = n'" "im_localId r = l'" "i = n' \<or> i = l'"
      using Some p by (auto simp: mapping_resolve_def dest!: find_SomeD split: option.splits)
    let ?m = "snd (mapping_remove i m)"
    have ok': "mappings_ok ?m" by (rule mappings_ok_remove [OF ok])
    have only: "s = r" if "s \<in> set m" "im_networkId s = n' \<or> im_localId s = l'" for s
      using that r ok by (auto simp: mappings_ok_def distinct_map dest: inj_onD)
    have "r \<notin> set ?m" using Some p r(2-4) by (auto simp: mapping_remove_def)
    moreover have "set ?m \<subseteq> set m" by (auto simp: mapping_remove_def split: option.splits)
    ultimately have "getLocal ?m n' = None" "getNetwork ?m l' = None"
      using L [OF ok'] N [OF ok'] only by (metis not_Some_eq subsetD)+
    moreover have "getLocal m n' = Some l'" using L [OF ok] r by blast
    ultimately show ?thesis using Some p r(4) by (simp add: mapping_remove_def)
  qed
  ultimately show ?thesis using L [OF ok] N [OF ok] by simp
qed

theorem mappings_one_to_one_witness:
  "\<exists>m. mapping_set ''net1'' ''conv_1'' MT_conversation [] = Some m \<and> getLocal m ''net1'' = Some ''conv_1''"
  using mappings_one_to_one [OF mappings_reachable.intros(1), of "''net1''" "''conv_1''" MT_conversation]
  by (simp add: mapping_set_def)

subsection \<open>Identities stay unique\<close>

definition identities_ok :: "identity_store \<Rightarrow> bool" where
  "identities_ok st \<longleftrightarrow> \<not> violates st (is_rows st)"

lemma no_duplicates_filter: "no_duplicates (map f xs) \<Longrightarrow> no_duplicates (map f (filter P xs))"
  unfolding no_duplicates_def by (induction xs) (auto split: if_splits)

lemma identities_ok_create: "identities_ok st \<Longrightarrow> identities_ok (snd (identity_create bytes now cause g l st))"
  by (auto simp: identity_create_def Let_def identities_ok_def violates_def)

lemma identities_ok_setInboxId: "identities_ok st \<Longrightarrow> identities_ok (snd (setInboxId cause i b st))"
  by (auto simp: setInboxId_def Let_def identities_ok_def violates_def split: option.split)

lemma identities_ok_remove: "identities_ok st \<Longrightarrow> identities_ok (snd (identity_remove i st))"
  by (auto simp: identity_remove_def identities_ok_def violates_def no_duplicates_filter distinct_map_filter
      split: option.split)

text \<open>A label comes before an inbox identifier that reads the same, and the oldest identity is the
  default.\<close>

lemma selector_by_label:
  "identities_ok st \<Longrightarrow> r \<in> set (is_rows st) \<Longrightarrow> ai_label r = Some s \<Longrightarrow> s \<noteq> [] \<Longrightarrow>
   resolveIdentitySelector st (Some s) = Ok (toResolvedIdentity r)"
proof -
  assume a: "identities_ok st" "r \<in> set (is_rows st)" "ai_label r = Some s" "s \<noteq> []"
  have "List.find (\<lambda>r. ai_label r = Some s) xs = Some r"
    if "no_duplicates (map ai_label xs)" "r \<in> set xs" for xs
    using that
  proof (induction xs)
    case (Cons x xs)
    have "no_duplicates (map ai_label xs)" using Cons.prems(1) by (auto simp: no_duplicates_def split: if_splits)
    moreover have "ai_label x = Some s \<Longrightarrow> x = r"
      using Cons.prems a(3) by (auto simp: no_duplicates_def) (metis image_eqI)
    ultimately show ?case using Cons a(3) by auto
  qed simp
  then have "getByLabel st s = Some r"
    using a(1,2) by (simp add: getByLabel_def row_where_def identities_ok_def violates_def)
  then show ?thesis using a(4) by (simp add: resolveIdentitySelector_def)
qed

lemma by_creation_oldest:
  "by_creation xs = r # rs \<Longrightarrow> r \<in> set xs \<and> (\<forall>y \<in> set xs. ai_createdAt r \<le> ai_createdAt y)"
proof (induction xs arbitrary: r rs)
  case (Cons x xs)
  let ?le = "\<lambda>a b :: agent_identity. ai_createdAt a \<le> ai_createdAt b"
  show ?case
  proof (cases "by_creation xs")
    case Nil
    then have "xs = []" by (metis by_creation_def mset_js_sort mset_zero_iff_right)
    then show ?thesis using Cons.prems by (simp add: by_creation_def js_sort_def)
  next
    case (Cons z zs)
    then show ?thesis using Cons.IH [OF Cons] Cons.prems
      by (auto simp: by_creation_def js_sort_Cons split: if_splits)
  qed
qed (simp add: by_creation_def js_sort_def)

end
