(* ===== verification/Gateway.thy ===== *)
theory Gateway
  imports ActionSpecs ActionResults ReadElevation Jwt CredentialService "HOL-Library.Sublist"
begin

text \<open>
  What the three request surfaces share: the context a handler runs in
  (\<^verbatim>\<open>packages/contracts/src/handler-types.ts\<close>), the dispatcher of the administrator's methods
  (\<^verbatim>\<open>packages/cli/src/admin/dispatcher.ts\<close>), and requests as processes. A process answers, or waits for a
  token check, a credential lookup, an elevation, a handler or a transport; other requests of the
  same server go on in the meantime, so what follows a wait takes the state it then finds. Handlers
  and lookups are parameters: whatever they answer is an answer of the process's environment.
\<close>

subsection \<open>Contexts, schemas and handlers\<close>

text \<open>The parts of a context that say who calls; the signer and the cancellation signal are left out.\<close>

record handler_context =
  hc_requestId :: string
  hc_adminAuth :: "string option"
  hc_operatorId :: "string option"
  hc_credentialId :: "string option"
  hc_elevation :: "elevation option"

text \<open>An object schema refuses what is no object; an issue keeps its whole value.\<close>

record zod_issue =
  zi_path :: "string list"
  zi_message :: string
  zi_js :: js_value

type_synonym param_map = "(string, js_value) js_map"

record object_schema =
  os_not_object :: "js_value \<Rightarrow> zod_issue"
  os_parse :: "param_map \<Rightarrow> (param_map, zod_issue list) result"

fun safeParse :: "object_schema \<Rightarrow> js_value \<Rightarrow> (param_map, zod_issue list) result" where
  "safeParse schema (VObj kvs) = os_parse schema kvs"
| "safeParse schema v = Err [os_not_object schema v]"

type_synonym spec = "object_schema action_spec"

text \<open>What calling a handler comes to: a result, or a thrown value (an error with its message, or
  any other value with its text).\<close>

datatype thrown = Th_error string | Th_other string
datatype outcome = Returned "(js_value, signet_error) result" | Threw thrown

fun thrown_text :: "thrown \<Rightarrow> string" where
  "thrown_text (Th_error m) = m"
| "thrown_text (Th_other t) = t"

subsection \<open>Processes\<close>

datatype ('s, 'r) gate =
    Respond 'r
  | Verify string "(admin_jwt_payload, signet_error) result \<Rightarrow> moment \<Rightarrow> 's \<Rightarrow> ('s, 'r) gate \<times> 's"
  | Lookup_token string "(runtime_credential, signet_error) result \<Rightarrow> moment \<Rightarrow> 's \<Rightarrow> ('s, 'r) gate \<times> 's"
  | Lookup_credential string "(runtime_credential, signet_error) result \<Rightarrow> moment \<Rightarrow> 's \<Rightarrow> ('s, 'r) gate \<times> 's"
  | Elevate elevation_input "(elevation option, signet_error) result \<Rightarrow> moment \<Rightarrow> 's \<Rightarrow> ('s, 'r) gate \<times> 's"
  | Run spec param_map handler_context "outcome \<Rightarrow> moment \<Rightarrow> 's \<Rightarrow> ('s, 'r) gate \<times> 's"
  | Other "js_value option \<Rightarrow> moment \<Rightarrow> 's \<Rightarrow> ('s, 'r) gate \<times> 's"

text \<open>\<open>Other\<close> waits for the server's status or its transport, which may throw.\<close>

type_synonym ('s, 'r) gate_kont = "moment \<Rightarrow> 's \<Rightarrow> ('s, 'r) gate \<times> 's"

definition reply :: "'r \<Rightarrow> ('s, 'r) gate_kont" where
  "reply r mo s = (Respond r, s)"

datatype gate_event =
    Ev_verify string "(admin_jwt_payload, signet_error) result"
  | Ev_token string "(runtime_credential, signet_error) result"
  | Ev_credential string "(runtime_credential, signet_error) result" moment
  | Ev_elevate elevation_input "(elevation option, signet_error) result"
  | Ev_run spec param_map handler_context
  | Ev_ran spec outcome
  | Ev_other "js_value option"

text \<open>A server: its state, its requests, and what has happened. A request begins at any time with one
  of the server's entry points, and any of the waits may end next, with any answer. That a handler
  runs is recorded when it is called.\<close>

record ('s, 'r) gate_system =
  gs_state :: 's
  gs_requests :: "('s, 'r) gate list"
  gs_log :: "gate_event list"

fun called :: "('s, 'r) gate \<Rightarrow> gate_event list" where
  "called (Run spec params ctx k) = [Ev_run spec params ctx]"
| "called p = []"

definition gate_begin :: "('s, 'r) gate_kont \<Rightarrow> moment \<Rightarrow> ('s, 'r) gate_system \<Rightarrow> ('s, 'r) gate_system" where
  "gate_begin f mo sy =
     (case f mo (gs_state sy) of
        (p, s) \<Rightarrow> \<lparr>gs_state = s, gs_requests = gs_requests sy @ [p], gs_log = gs_log sy @ called p\<rparr>)"

definition gate_go_on ::
  "nat \<Rightarrow> gate_event \<Rightarrow> ('s, 'r) gate_kont \<Rightarrow> moment \<Rightarrow> ('s, 'r) gate_system \<Rightarrow> ('s, 'r) gate_system" where
  "gate_go_on i e f mo sy =
     (case f mo (gs_state sy) of
        (p, s) \<Rightarrow> \<lparr>gs_state = s, gs_requests = (gs_requests sy)[i := p], gs_log = gs_log sy @ [e] @ called p\<rparr>)"

inductive gate_reachable ::
  "('s, 'r) gate_kont set \<Rightarrow> 's \<Rightarrow> ('s, 'r) gate_system \<Rightarrow> bool" for entries s0 where
  starts: "gate_reachable entries s0 \<lparr>gs_state = s0, gs_requests = [], gs_log = []\<rparr>"
| begins: "gate_reachable entries s0 sy \<Longrightarrow> f \<in> entries \<Longrightarrow> gate_reachable entries s0 (gate_begin f mo sy)"
| verified: "gate_reachable entries s0 sy \<Longrightarrow> i < length (gs_requests sy) \<Longrightarrow> gs_requests sy ! i = Verify t k \<Longrightarrow>
    gate_reachable entries s0 (gate_go_on i (Ev_verify t r) (k r) mo sy)"
| token_found: "gate_reachable entries s0 sy \<Longrightarrow> i < length (gs_requests sy) \<Longrightarrow> gs_requests sy ! i = Lookup_token t kt \<Longrightarrow>
    gate_reachable entries s0 (gate_go_on i (Ev_token t rt) (kt rt) mo sy)"
| credential_found: "gate_reachable entries s0 sy \<Longrightarrow> i < length (gs_requests sy) \<Longrightarrow>
    gs_requests sy ! i = Lookup_credential t kc \<Longrightarrow>
    gate_reachable entries s0 (gate_go_on i (Ev_credential t rt mo) (kc rt) mo sy)"
| elevated: "gate_reachable entries s0 sy \<Longrightarrow> i < length (gs_requests sy) \<Longrightarrow> gs_requests sy ! i = Elevate inp ke \<Longrightarrow>
    gate_reachable entries s0 (gate_go_on i (Ev_elevate inp re) (ke re) mo sy)"
| ran: "gate_reachable entries s0 sy \<Longrightarrow> i < length (gs_requests sy) \<Longrightarrow>
    gs_requests sy ! i = Run spec params ctx kr \<Longrightarrow>
    gate_reachable entries s0 (gate_go_on i (Ev_ran spec out) (kr out) mo sy)"
| other: "gate_reachable entries s0 sy \<Longrightarrow> i < length (gs_requests sy) \<Longrightarrow> gs_requests sy ! i = Other ko \<Longrightarrow>
    gate_reachable entries s0 (gate_go_on i (Ev_other v) (ko v) mo sy)"

subsection \<open>The dispatcher\<close>

type_synonym dispatcher = "(string, spec) js_map"

definition buildMethodMap :: "object_schema registry \<Rightarrow> dispatcher" where
  "buildMethodMap reg =
     foldl (\<lambda>m s. case as_cli s of None \<Rightarrow> m | Some _ \<Rightarrow> map_set m (deriveRpcMethod s) s) []
       (listForSurface reg Sf_cli)"

definition makeMeta :: "(int \<Rightarrow> string) \<Rightarrow> string \<Rightarrow> int \<Rightarrow> int \<Rightarrow> action_meta" where
  "makeMeta iso_text requestId start now =
     \<lparr>rm_requestId = requestId, rm_timestamp = iso_text now, rm_durationMs = now - start\<rparr>"

definition getSpec :: "dispatcher \<Rightarrow> string \<Rightarrow> (spec, signet_error) result" where
  "getSpec methods m =
     (case map_get methods m of None \<Rightarrow> Err (NotFoundError_create ''Method'' m) | Some s \<Rightarrow> Ok s)"

definition validateParams :: "spec \<Rightarrow> js_value \<Rightarrow> (param_map, signet_error) result" where
  "validateParams s params =
     (case safeParse (as_handler s) params of
        Err issues \<Rightarrow> Err (ValidationError_create ''params''
           (join_with ''; '' (map (\<lambda>i. join_with ''.'' (zi_path i) @ '': '' @ zi_message i) issues)) [])
      | Ok kvs \<Rightarrow> Ok kvs)"

definition dispatcher_validate :: "dispatcher \<Rightarrow> string \<Rightarrow> js_value \<Rightarrow> (param_map, signet_error) result" where
  "dispatcher_validate methods m params = bindR (getSpec methods m) (\<lambda>s. validateParams s params)"

definition hasMethod :: "dispatcher \<Rightarrow> string \<Rightarrow> bool" where
  "hasMethod methods m \<longleftrightarrow> map_get methods m \<noteq> None"

definition handler_threw :: "string \<Rightarrow> signet_error" where
  "handler_threw message = InternalError_create (''Handler threw: '' @ message) None"

definition dispatchValidated ::
  "(int \<Rightarrow> string) \<Rightarrow> dispatcher \<Rightarrow> string \<Rightarrow> param_map \<Rightarrow> handler_context \<Rightarrow>
   (js_value action_result \<Rightarrow> ('s, 'r) gate_kont) \<Rightarrow> ('s, 'r) gate_kont" where
  "dispatchValidated iso_text methods m params ctx k mo s =
     (let meta = \<lambda>now. makeMeta iso_text (hc_requestId ctx) (mo_now mo) now
      in case getSpec methods m of
           Err e \<Rightarrow> k (toActionResult (Err e) (meta (mo_now mo)) None) mo s
         | Ok sp \<Rightarrow>
             (Run sp params ctx (\<lambda>out mo' s'.
                let r = (case out of Returned r \<Rightarrow> r | Threw t \<Rightarrow> Err (handler_threw (thrown_text t)))
                in k (toActionResult r (meta (mo_now mo')) None) mo' s'), s))"

definition dispatch ::
  "(int \<Rightarrow> string) \<Rightarrow> dispatcher \<Rightarrow> string \<Rightarrow> js_value \<Rightarrow> handler_context \<Rightarrow>
   (js_value action_result \<Rightarrow> ('s, 'r) gate_kont) \<Rightarrow> ('s, 'r) gate_kont" where
  "dispatch iso_text methods m params ctx k mo s =
     (case dispatcher_validate methods m params of
        Err e \<Rightarrow> k (toActionResult (Err e) (makeMeta iso_text (hc_requestId ctx) (mo_now mo) (mo_now mo)) None) mo s
      | Ok validated \<Rightarrow> dispatchValidated iso_text methods m validated ctx k mo s)"

text \<open>Both administrator surfaces copy the read flag past the validation.\<close>

definition mergeTransportControls :: "js_value \<Rightarrow> param_map \<Rightarrow> param_map" where
  "mergeTransportControls rawParams validated =
     (let flag = js_get rawParams ''dangerouslyAllowMessageRead''
      in if flag \<noteq> VBool True \<and> flag \<noteq> VStr ''true'' then validated
         else map_set validated ''dangerouslyAllowMessageRead'' flag)"

subsection \<open>What a server's rules give\<close>

text \<open>A process is orderly when every handler it calls is called under \<open>Q\<close>, it keeps \<open>J\<close> of the
  server's state, and every change it makes to the state is one of the preorder \<open>R\<close>, whatever the
  answers and whatever other requests do to the state, within \<open>R\<close>, during its waits.\<close>

inductive orderly ::
  "(gate_event list \<Rightarrow> 's \<Rightarrow> bool) \<Rightarrow> ('s \<Rightarrow> 's \<Rightarrow> bool) \<Rightarrow>
   (gate_event list \<Rightarrow> spec \<Rightarrow> param_map \<Rightarrow> handler_context \<Rightarrow> bool) \<Rightarrow>
   gate_event list \<Rightarrow> 's \<Rightarrow> ('s, 'r) gate \<Rightarrow> bool" for J R Q where
  o_respond: "orderly J R Q evs s (Respond r)"
| o_verify: "(\<And>evs' r mo s'. prefix evs evs' \<Longrightarrow> R s s' \<Longrightarrow> J (evs' @ [Ev_verify t r]) s' \<Longrightarrow>
      orderly J R Q (evs' @ [Ev_verify t r]) (snd (k r mo s')) (fst (k r mo s')) \<and>
      R s' (snd (k r mo s')) \<and> J (evs' @ [Ev_verify t r]) (snd (k r mo s'))) \<Longrightarrow>
    orderly J R Q evs s (Verify t k)"
| o_token: "(\<And>evs' rt mo s'. prefix evs evs' \<Longrightarrow> R s s' \<Longrightarrow> J (evs' @ [Ev_token t rt]) s' \<Longrightarrow>
      orderly J R Q (evs' @ [Ev_token t rt]) (snd (kt rt mo s')) (fst (kt rt mo s')) \<and>
      R s' (snd (kt rt mo s')) \<and> J (evs' @ [Ev_token t rt]) (snd (kt rt mo s'))) \<Longrightarrow>
    orderly J R Q evs s (Lookup_token t kt)"
| o_credential: "(\<And>evs' rt mo s'. prefix evs evs' \<Longrightarrow> R s s' \<Longrightarrow> J (evs' @ [Ev_credential t rt mo]) s' \<Longrightarrow>
      orderly J R Q (evs' @ [Ev_credential t rt mo]) (snd (kc rt mo s')) (fst (kc rt mo s')) \<and>
      R s' (snd (kc rt mo s')) \<and> J (evs' @ [Ev_credential t rt mo]) (snd (kc rt mo s'))) \<Longrightarrow>
    orderly J R Q evs s (Lookup_credential t kc)"
| o_elevate: "(\<And>evs' re mo s'. prefix evs evs' \<Longrightarrow> R s s' \<Longrightarrow> J (evs' @ [Ev_elevate inp re]) s' \<Longrightarrow>
      orderly J R Q (evs' @ [Ev_elevate inp re]) (snd (ke re mo s')) (fst (ke re mo s')) \<and>
      R s' (snd (ke re mo s')) \<and> J (evs' @ [Ev_elevate inp re]) (snd (ke re mo s'))) \<Longrightarrow>
    orderly J R Q evs s (Elevate inp ke)"
| o_run: "Q evs spec params ctx \<Longrightarrow> (\<And>evs' out mo s'. prefix evs evs' \<Longrightarrow> R s s' \<Longrightarrow> J (evs' @ [Ev_ran spec out]) s' \<Longrightarrow>
      orderly J R Q (evs' @ [Ev_ran spec out]) (snd (kr out mo s')) (fst (kr out mo s')) \<and>
      R s' (snd (kr out mo s')) \<and> J (evs' @ [Ev_ran spec out]) (snd (kr out mo s'))) \<Longrightarrow>
    orderly J R Q evs s (Run spec params ctx kr)"
| o_other: "(\<And>evs' v mo s'. prefix evs evs' \<Longrightarrow> R s s' \<Longrightarrow> J (evs' @ [Ev_other v]) s' \<Longrightarrow>
      orderly J R Q (evs' @ [Ev_other v]) (snd (ko v mo s')) (fst (ko v mo s')) \<and>
      R s' (snd (ko v mo s')) \<and> J (evs' @ [Ev_other v]) (snd (ko v mo s'))) \<Longrightarrow>
    orderly J R Q evs s (Other ko)"

inductive_simps orderly_simps [simp]:
  "orderly J R Q evs s (Respond r)"
  "orderly J R Q evs s (Verify t k)"
  "orderly J R Q evs s (Lookup_token t kt)"
  "orderly J R Q evs s (Lookup_credential t kc)"
  "orderly J R Q evs s (Elevate inp ke)"
  "orderly J R Q evs s (Run spec params ctx kr)"
  "orderly J R Q evs s (Other ko)"

text \<open>All calls of handlers so far were made under \<open>Q\<close>.\<close>

definition calls_ok ::
  "(gate_event list \<Rightarrow> spec \<Rightarrow> param_map \<Rightarrow> handler_context \<Rightarrow> bool) \<Rightarrow> gate_event list \<Rightarrow> bool" where
  "calls_ok Q evs \<longleftrightarrow>
     (\<forall>pre spec params ctx post. evs = pre @ Ev_run spec params ctx # post \<longrightarrow> Q pre spec params ctx)"

lemma calls_ok_snoc: "calls_ok Q (evs @ [e]) \<longleftrightarrow>
    calls_ok Q evs \<and> (\<forall>spec params ctx. e = Ev_run spec params ctx \<longrightarrow> Q evs spec params ctx)"
proof
  assume c: "calls_ok Q (evs @ [e])"
  have "Q pre spec params ctx" if "evs = pre @ Ev_run spec params ctx # post" for pre spec params ctx post
    using c that by (auto simp: calls_ok_def)
  moreover have "Q evs spec params ctx" if "e = Ev_run spec params ctx" for spec params ctx
    using c that by (auto simp: calls_ok_def)
  ultimately show "calls_ok Q evs \<and> (\<forall>spec params ctx. e = Ev_run spec params ctx \<longrightarrow> Q evs spec params ctx)"
    unfolding calls_ok_def by blast
next
  assume c: "calls_ok Q evs \<and> (\<forall>spec params ctx. e = Ev_run spec params ctx \<longrightarrow> Q evs spec params ctx)"
  have "Q pre spec params ctx" if "evs @ [e] = pre @ Ev_run spec params ctx # post" for pre spec params ctx post
    using c that by (cases post rule: rev_cases) (auto simp: calls_ok_def)
  then show "calls_ok Q (evs @ [e])" unfolding calls_ok_def by blast
qed

definition sys_ok ::
  "(gate_event list \<Rightarrow> 's \<Rightarrow> bool) \<Rightarrow> ('s \<Rightarrow> 's \<Rightarrow> bool) \<Rightarrow>
   (gate_event list \<Rightarrow> spec \<Rightarrow> param_map \<Rightarrow> handler_context \<Rightarrow> bool) \<Rightarrow> ('s, 'r) gate_system \<Rightarrow> bool" where
  "sys_ok J R Q sy \<longleftrightarrow> J (gs_log sy) (gs_state sy) \<and>
     (\<forall>p \<in> set (gs_requests sy). orderly J R Q (gs_log sy) (gs_state sy) p) \<and> calls_ok Q (gs_log sy)"

locale gate_rules =
  fixes entries :: "('s, 'r) gate_kont set" and s0 :: 's
    and J :: "gate_event list \<Rightarrow> 's \<Rightarrow> bool"
    and R :: "'s \<Rightarrow> 's \<Rightarrow> bool"
    and Q :: "gate_event list \<Rightarrow> spec \<Rightarrow> param_map \<Rightarrow> handler_context \<Rightarrow> bool"
  assumes J_start: "J [] s0"
    and J_more: "J evs s \<Longrightarrow> J (evs @ [e]) s"
    and R_refl: "R s s"
    and R_trans: "R s s' \<Longrightarrow> R s' s'' \<Longrightarrow> R s s''"
    and Q_more: "Q evs spec params ctx \<Longrightarrow> Q (evs @ [e]) spec params ctx"
    and entry: "f \<in> entries \<Longrightarrow> J evs s \<Longrightarrow>
      orderly J R Q evs (snd (f mo s)) (fst (f mo s)) \<and> R s (snd (f mo s)) \<and> J evs (snd (f mo s))"
begin

lemma J_append: "J evs s \<Longrightarrow> J (evs @ evs') s"
proof (induction evs' rule: rev_induct)
  case (snoc e evs')
  then show ?case using J_more [of "evs @ evs'" s e] by simp
qed simp

lemma Q_append: "Q evs spec params ctx \<Longrightarrow> Q (evs @ evs') spec params ctx"
proof (induction evs' rule: rev_induct)
  case (snoc e evs')
  then show ?case using Q_more [of "evs @ evs'" spec params ctx e] by simp
qed simp

lemma orderly_later:
  assumes "orderly J R Q evs s p" "prefix evs evs1" "R s s1"
  shows "orderly J R Q evs1 s1 p"
proof -
  have pre: "prefix evs evs'" if "prefix evs1 evs'" for evs' using assms(2) that by (rule prefix_order.trans)
  have r: "R s s'" if "R s1 s'" for s' using assms(3) that by (rule R_trans)
  have "Q evs1 sp ps cx" if "Q evs sp ps cx" for sp ps cx
    using Q_append [OF that] assms(2) by (auto simp: prefix_def)
  then show ?thesis using assms(1) by (cases p) (auto simp: pre r, (blast intro: pre r)+)
qed

lemma orderly_append: "orderly J R Q evs s p \<Longrightarrow> R s s1 \<Longrightarrow> orderly J R Q (evs @ evs') s1 p"
  by (rule orderly_later, assumption, rule prefixI, rule refl, assumption)

lemma called_ok: "calls_ok Q evs \<Longrightarrow> orderly J R Q evs s p \<Longrightarrow> calls_ok Q (evs @ called p)"
  by (cases p) (auto simp: calls_ok_snoc)

text \<open>One request moves: the events \<open>es\<close> have happened and it is now \<open>p\<close>.\<close>

lemma sys_ok_move:
  assumes "sys_ok J R Q sy" "calls_ok Q (gs_log sy @ es)"
    and "orderly J R Q (gs_log sy @ es) s p" "R (gs_state sy) s" "J (gs_log sy @ es) s"
    and "set ps \<subseteq> insert p (set (gs_requests sy))"
  shows "sys_ok J R Q \<lparr>gs_state = s, gs_requests = ps, gs_log = gs_log sy @ es @ called p\<rparr>"
proof -
  have "calls_ok Q ((gs_log sy @ es) @ called p)" using assms(2,3) by (rule called_ok)
  moreover have "J ((gs_log sy @ es) @ called p) s" using assms(5) by (rule J_append)
  moreover have "orderly J R Q (gs_log sy @ es @ called p) s q" if "q \<in> set ps" for q
  proof (cases "q = p")
    case True
    then show ?thesis using orderly_append [OF assms(3) R_refl, of "called p"] by simp
  next
    case False
    then have "orderly J R Q (gs_log sy) (gs_state sy) q" using that assms(1,6) by (auto simp: sys_ok_def)
    from orderly_append [OF this assms(4)] show ?thesis .
  qed
  ultimately show ?thesis by (simp add: sys_ok_def)
qed

lemma sys_ok_begin:
  assumes "sys_ok J R Q sy" "f \<in> entries"
  shows "sys_ok J R Q (gate_begin f mo sy)"
proof -
  obtain p s where p: "f mo (gs_state sy) = (p, s)" by (cases "f mo (gs_state sy)")
  have "orderly J R Q (gs_log sy) s p" "J (gs_log sy) s" "R (gs_state sy) s"
    using entry [OF assms(2), of "gs_log sy" "gs_state sy" mo] assms(1) p by (simp_all add: sys_ok_def)
  with sys_ok_move [OF assms(1), of "[]" s p "gs_requests sy @ [p]"] show ?thesis
    using assms(1) p by (simp add: gate_begin_def sys_ok_def)
qed

lemma sys_ok_go_on:
  assumes "sys_ok J R Q sy" "\<nexists>spec params ctx. e = Ev_run spec params ctx"
    and "orderly J R Q (gs_log sy @ [e]) (snd (f mo (gs_state sy))) (fst (f mo (gs_state sy)))"
    and "R (gs_state sy) (snd (f mo (gs_state sy)))" "J (gs_log sy @ [e]) (snd (f mo (gs_state sy)))"
  shows "sys_ok J R Q (gate_go_on i e f mo sy)"
proof -
  obtain p s where p: "f mo (gs_state sy) = (p, s)" by (cases "f mo (gs_state sy)")
  have "calls_ok Q (gs_log sy @ [e])" using assms(1,2) by (simp add: sys_ok_def calls_ok_snoc)
  with sys_ok_move [OF assms(1), of "[e]" s p "(gs_requests sy)[i := p]"] assms(3-5) show ?thesis
    using p set_update_subset_insert [of "gs_requests sy" i p] by (simp add: gate_go_on_def)
qed

lemma sys_ok_reachable: "gate_reachable entries s0 sy \<Longrightarrow> sys_ok J R Q sy"
proof (induction rule: gate_reachable.induct)
  case starts
  then show ?case using J_start by (simp add: sys_ok_def calls_ok_def)
next
  case (begins sy f mo)
  then show ?case by (intro sys_ok_begin)
next
  case (verified sy i t k r mo)
  then have "orderly J R Q (gs_log sy) (gs_state sy) (Verify t k)" "J (gs_log sy) (gs_state sy)"
    by (metis nth_mem sys_ok_def)+
  then show ?case using J_more R_refl verified.IH by (intro sys_ok_go_on) auto
next
  case (token_found sy i t kt rt mo)
  then have "orderly J R Q (gs_log sy) (gs_state sy) (Lookup_token t kt)" "J (gs_log sy) (gs_state sy)"
    by (metis nth_mem sys_ok_def)+
  then show ?case using J_more R_refl token_found.IH by (intro sys_ok_go_on) auto
next
  case (credential_found sy i t kc rt mo)
  then have "orderly J R Q (gs_log sy) (gs_state sy) (Lookup_credential t kc)" "J (gs_log sy) (gs_state sy)"
    by (metis nth_mem sys_ok_def)+
  then show ?case using J_more R_refl credential_found.IH by (intro sys_ok_go_on) auto
next
  case (elevated sy i inp ke re mo)
  then have "orderly J R Q (gs_log sy) (gs_state sy) (Elevate inp ke)" "J (gs_log sy) (gs_state sy)"
    by (metis nth_mem sys_ok_def)+
  then show ?case using J_more R_refl elevated.IH by (intro sys_ok_go_on) auto
next
  case (ran sy i sp params ctx kr out mo)
  then have "orderly J R Q (gs_log sy) (gs_state sy) (Run sp params ctx kr)" "J (gs_log sy) (gs_state sy)"
    by (metis nth_mem sys_ok_def)+
  then show ?case using J_more R_refl ran.IH by (intro sys_ok_go_on) auto
next
  case (other sy i ko v mo)
  then have "orderly J R Q (gs_log sy) (gs_state sy) (Other ko)" "J (gs_log sy) (gs_state sy)"
    by (metis nth_mem sys_ok_def)+
  then show ?case using J_more R_refl other.IH by (intro sys_ok_go_on) auto
qed

text \<open>Every handler a server of such entry points calls is called under \<open>Q\<close>.\<close>

lemma called_under:
  assumes "gate_reachable entries s0 sy" "gs_log sy = pre @ Ev_run spec params ctx # post"
  shows "Q pre spec params ctx"
proof -
  have "calls_ok Q (gs_log sy)" using sys_ok_reachable [OF assms(1)] by (simp add: sys_ok_def)
  then show ?thesis using assms(2) unfolding calls_ok_def by blast
qed

end

subsection \<open>Playing a server\<close>

datatype gate_answer =
    A_verified "(admin_jwt_payload, signet_error) result"
  | A_found "(runtime_credential, signet_error) result"
  | A_elevated "(elevation option, signet_error) result"
  | A_ran outcome
  | A_other "js_value option"

fun gate_answered ::
  "nat \<Rightarrow> gate_answer \<Rightarrow> moment \<Rightarrow> ('s, 'r) gate_system \<Rightarrow> ('s, 'r) gate_system option" where
  "gate_answered i a mo sy =
     (if i < length (gs_requests sy) then
        (case (gs_requests sy ! i, a) of
           (Verify t k, A_verified r) \<Rightarrow> Some (gate_go_on i (Ev_verify t r) (k r) mo sy)
         | (Lookup_token t k, A_found r) \<Rightarrow> Some (gate_go_on i (Ev_token t r) (k r) mo sy)
         | (Lookup_credential t k, A_found r) \<Rightarrow> Some (gate_go_on i (Ev_credential t r mo) (k r) mo sy)
         | (Elevate inp k, A_elevated r) \<Rightarrow> Some (gate_go_on i (Ev_elevate inp r) (k r) mo sy)
         | (Run sp ps cx k, A_ran out) \<Rightarrow> Some (gate_go_on i (Ev_ran sp out) (k out) mo sy)
         | (Other k, A_other v) \<Rightarrow> Some (gate_go_on i (Ev_other v) (k v) mo sy)
         | _ \<Rightarrow> None)
      else None)"

fun gate_play ::
  "moment \<Rightarrow> (nat \<times> gate_answer) list \<Rightarrow> ('s, 'r) gate_system \<Rightarrow> ('s, 'r) gate_system option" where
  "gate_play mo [] sy = Some sy"
| "gate_play mo ((i, a) # as) sy =
     (case gate_answered i a mo sy of None \<Rightarrow> None | Some sy' \<Rightarrow> gate_play mo as sy')"

definition gate_start :: "'s \<Rightarrow> ('s, 'r) gate_system" where
  "gate_start s0 = \<lparr>gs_state = s0, gs_requests = [], gs_log = []\<rparr>"

lemma gate_answered_reachable:
  assumes "gate_reachable entries s0 sy" "gate_answered i a mo sy = Some sy'"
  shows "gate_reachable entries s0 sy'"
  using assms
  by (cases "gs_requests sy ! i"; cases a) (auto split: if_splits intro: gate_reachable.intros)

declare gate_answered.simps [simp del]

lemma gate_play_reachable:
  "gate_reachable entries s0 sy \<Longrightarrow> gate_play mo as sy = Some sy' \<Longrightarrow> gate_reachable entries s0 sy'"
  by (induction mo as sy rule: gate_play.induct) (auto split: option.splits intro: gate_answered_reachable)

lemma gate_start_reachable: "gate_reachable entries s0 (gate_start s0)"
  unfolding gate_start_def by (rule gate_reachable.starts)

text \<open>The call of a handler with which a log ends.\<close>

definition last_call :: "gate_event list \<Rightarrow> (spec \<times> param_map \<times> handler_context) option" where
  "last_call evs = (case rev evs of Ev_run sp ps cx # _ \<Rightarrow> Some (sp, ps, cx) | _ \<Rightarrow> None)"

lemma last_call_split: "last_call evs = Some (sp, ps, cx) \<Longrightarrow> \<exists>pre. evs = pre @ Ev_run sp ps cx # []"
  by (cases evs rule: rev_cases) (auto simp: last_call_def split: gate_event.splits)

definition any_object :: object_schema where
  "any_object = \<lparr>os_not_object = (\<lambda>_. \<lparr>zi_path = [], zi_message = ''Expected object'', zi_js = VNull\<rparr>), os_parse = Ok\<rparr>"

definition sample_payload :: admin_jwt_payload where
  "sample_payload = \<lparr>ap_iss = ''fp'', ap_iat = 1, ap_exp = 100, ap_jti = ''j1''\<rparr>"

definition sample_moment :: moment where
  "sample_moment = \<lparr>mo_now = 5, mo_uuid = ''r1''\<rparr>"

definition sample_action :: "string \<Rightarrow> spec" where
  "sample_action i = \<lparr>as_id = i, as_handler = any_object, as_description = None, as_examples = None,
     as_intent = Some In_read, as_idempotent = None,
     as_cli = Some \<lparr>cl_command = None, cl_aliases = None, cl_outputFormat = None, cl_group = None\<rparr>,
     as_mcp = Some \<lparr>mp_toolName = Some ''message_list'', mp_annotations = None\<rparr>,
     as_http = Some \<lparr>hs_path = None, hs_method = None, hs_auth = Some Auth_admin, hs_expose = None\<rparr>\<rparr>"

definition sample_registry :: "object_schema registry" where
  "sample_registry = [(''message.list'', sample_action ''message.list'')]"

end
