(* ===== verification/HttpServer.thy ===== *)
theory HttpServer
  imports Gateway
begin

text \<open>
  The HTTP server (\<^verbatim>\<open>packages/cli/src/http/server.ts\<close>): administrator methods, the credential route and
  the routes of the registered actions. A request arrives with its method, path, authorization
  header, decoded query and body; the body is \<open>None\<close> when it cannot be read, and the JSON parser is a
  parameter. The server's routes are those its registry had when it started.
\<close>

record http_request =
  hq_method :: string
  hq_path :: string
  hq_authorization :: "string option"
  hq_query :: "(string \<times> string) list"
  hq_text :: "string option"

record http_response =
  hp_status :: int
  hp_body :: js_value

record http_env =
  he_iso :: "int \<Rightarrow> string"
  he_parse :: "string \<Rightarrow> js_value option"
  he_dispatcher :: dispatcher
  he_routes :: "object_schema http_route list"

type_synonym http_process = "(unit, http_response) gate"
type_synonym http_kont = "(unit, http_response) gate_kont"

subsection \<open>Responses\<close>

text \<open>The status of an error category; a category the table does not name is 500.\<close>

fun categoryToStatus :: "error_category \<Rightarrow> int" where
  "categoryToStatus Cat_validation = 400"
| "categoryToStatus Cat_auth = 401"
| "categoryToStatus Cat_permission = 403"
| "categoryToStatus Cat_not_found = 404"
| "categoryToStatus Cat_timeout = 408"
| "categoryToStatus Cat_cancelled = 499"
| "categoryToStatus Cat_internal = 500"
| "categoryToStatus Cat_network = 500"

definition jsonResponse :: "js_value \<Rightarrow> int \<Rightarrow> http_response" where
  "jsonResponse data status = \<lparr>hp_status = status, hp_body = data\<rparr>"

definition successResponse :: "js_value \<Rightarrow> http_response" where
  "successResponse data = jsonResponse (VObj [(''ok'', VBool True), (''data'', data)]) 200"

definition context_js :: "err_context option \<Rightarrow> js_value" where
  "context_js c = (case c of None \<Rightarrow> VNull | Some kvs \<Rightarrow> VObj kvs)"

definition errorResponse :: "error_category \<Rightarrow> string \<Rightarrow> err_context option \<Rightarrow> http_response" where
  "errorResponse category message context =
     jsonResponse (VObj [(''ok'', VBool False),
       (''error'', VObj [(''category'', VStr (category_name category)), (''message'', VStr message),
          (''context'', context_js context)])]) (categoryToStatus category)"

definition signet_error_response :: "signet_error \<Rightarrow> http_response" where
  "signet_error_response e = errorResponse (err_category e) (err_message e) (err_context e)"

definition extractBearerToken :: "http_request \<Rightarrow> string option" where
  "extractBearerToken req =
     (case hq_authorization req of
        None \<Rightarrow> None
      | Some header \<Rightarrow> if starts_with header ''Bearer '' then Some (drop 7 header) else None)"

subsection \<open>Parameters\<close>

text \<open>Repeated keys of a query become an array. A text cannot be the prototype of an object, and an
  array assigned to it is no property.\<close>

definition query_params :: "(string \<times> string) list \<Rightarrow> param_map" where
  "query_params query =
     map (\<lambda>key. (key, let values = map snd (filter (\<lambda>p. fst p = key) query)
                     in if 1 < length values then VArr (map VStr values) else VStr (hd values)))
       (filter (\<lambda>key. key \<noteq> ''__proto__'') (set_of (map fst query)))"

text \<open>The body: an empty one is an empty object, and one that is no JSON or cannot be read is refused.\<close>

definition body_params :: "http_env \<Rightarrow> http_request \<Rightarrow> js_value option" where
  "body_params en req =
     (case hq_text req of
        None \<Rightarrow> None
      | Some t \<Rightarrow> if t = [] then Some (VObj []) else he_parse en t)"

definition parseActionParams :: "http_env \<Rightarrow> http_request \<Rightarrow> http_input_source \<Rightarrow> (js_value, signet_error) result" where
  "parseActionParams en req source =
     (case source of
        Src_query \<Rightarrow> Ok (VObj (query_params (hq_query req)))
      | Src_body \<Rightarrow>
          (case body_params en req of
             None \<Rightarrow> Err (ValidationError_create ''body'' ''Invalid JSON body'' [])
           | Some v \<Rightarrow> Ok v))"

definition params_refused :: "zod_issue list \<Rightarrow> signet_error" where
  "params_refused issues =
     ValidationError_create
       (case issues of [] \<Rightarrow> ''params'' | i # _ \<Rightarrow> join_with ''.'' (zi_path i))
       (case issues of [] \<Rightarrow> ''Validation failed'' | i # _ \<Rightarrow> zi_message i)
       [(''issues'', VArr (map zi_js issues))]"

subsection \<open>Contexts\<close>

definition admin_context :: "string \<Rightarrow> string \<Rightarrow> elevation option \<Rightarrow> handler_context" where
  "admin_context requestId fingerprint elev =
     \<lparr>hc_requestId = requestId, hc_adminAuth = Some fingerprint, hc_operatorId = None,
      hc_credentialId = None, hc_elevation = elev\<rparr>"

definition credential_context :: "string \<Rightarrow> runtime_credential \<Rightarrow> handler_context" where
  "credential_context requestId c =
     \<lparr>hc_requestId = requestId, hc_adminAuth = None, hc_operatorId = Some (rc_operatorId c),
      hc_credentialId = Some (rc_credentialId c), hc_elevation = None\<rparr>"

definition session_key :: "admin_jwt_payload \<Rightarrow> string" where
  "session_key payload = ap_iss payload @ '':'' @ ap_jti payload"

subsection \<open>Routes\<close>

definition answer_of :: "js_value action_result \<Rightarrow> http_response" where
  "answer_of r =
     (case r of
        AR_ok v _ _ \<Rightarrow> successResponse v
      | AR_err e _ \<Rightarrow> errorResponse (re_category e) (re_message e) (re_context e))"

definition handleAdminRoute :: "http_env \<Rightarrow> http_request \<Rightarrow> string \<Rightarrow> http_kont" where
  "handleAdminRoute en req m mo s =
     (case extractBearerToken req of
        None \<Rightarrow> (Respond (errorResponse Cat_auth ''Missing authorization token'' None), s)
      | Some token \<Rightarrow>
          (Verify token (\<lambda>verified mo s. case verified of
             Err e \<Rightarrow> (Respond (errorResponse Cat_auth (err_message e) (err_context e)), s)
           | Ok payload \<Rightarrow>
               (case body_params en req of
                  None \<Rightarrow> (Respond (errorResponse Cat_validation ''Invalid JSON body'' None), s)
                | Some params \<Rightarrow>
                    (case dispatcher_validate (he_dispatcher en) m params of
                       Err e \<Rightarrow> (Respond (signet_error_response e), s)
                     | Ok validated \<Rightarrow>
                         (Elevate \<lparr>li_method = m, li_params = mergeTransportControls params validated,
                             li_adminFingerprint = ap_iss payload, li_sessionKey = session_key payload\<rparr>
                           (\<lambda>elevated mo s. case elevated of
                              Err e \<Rightarrow> (Respond (signet_error_response e), s)
                            | Ok elev \<Rightarrow>
                                dispatchValidated (he_iso en) (he_dispatcher en) m validated
                                  (admin_context (mo_uuid mo) (ap_iss payload) elev)
                                  (\<lambda>r. reply (answer_of r)) mo s), s)))), s))"

definition config_js :: "credential_config \<Rightarrow> js_value" where
  "config_js c = VObj
     ([(''operatorId'', VStr (cc_operatorId c)), (''chatIds'', VArr (map VStr (cc_chatIds c)))] @
      (case cc_policyId c of None \<Rightarrow> [] | Some p \<Rightarrow> [(''policyId'', VStr p)]) @
      (case cc_allow c of None \<Rightarrow> [] | Some a \<Rightarrow> [(''allow'', VArr (map (\<lambda>x. VStr (scope_name x)) a))]) @
      (case cc_deny c of None \<Rightarrow> [] | Some d \<Rightarrow> [(''deny'', VArr (map (\<lambda>x. VStr (scope_name x)) d))]) @
      (case cc_ttlSeconds c of None \<Rightarrow> [] | Some t \<Rightarrow> [(''ttlSeconds'', VNum (of_int t))]))"

definition credential_info :: "(int \<Rightarrow> string) \<Rightarrow> runtime_credential \<Rightarrow> js_value" where
  "credential_info iso_text c =
     (let r = rc_record c
      in VObj [(''credentialId'', VStr (cr_id r)), (''operatorId'', VStr (cc_operatorId (cr_config r))),
           (''status'', VStr (credential_status_text (cr_status r))), (''config'', config_js (cr_config r)),
           (''issuedAt'', VStr (iso_text (cr_issuedAt r))), (''expiresAt'', VStr (iso_text (cr_expiresAt r)))])"

text \<open>A method may come with or without the name of its family; the credential route knows one.\<close>

definition handleCredentialRoute :: "http_env \<Rightarrow> http_request \<Rightarrow> string \<Rightarrow> http_kont" where
  "handleCredentialRoute en req m mo s =
     (case extractBearerToken req of
        None \<Rightarrow> (Respond (errorResponse Cat_auth ''Missing credential token'' None), s)
      | Some token \<Rightarrow>
          (Lookup_token token (\<lambda>found mo s. case found of
             Err _ \<Rightarrow> (Respond (errorResponse Cat_auth ''Invalid credential token'' None), s)
           | Ok credential \<Rightarrow>
               let bareMethod = (if starts_with m ''credential.'' then drop 11 m else m)
               in (Respond
                     (if bareMethod = ''info''
                      then successResponse (credential_info (he_iso en) credential)
                      else errorResponse Cat_not_found (''Unknown credential method: '' @ m)
                             (Some [(''method'', VStr m)])), s)), s))"

text \<open>What the caller sent and what the schema made of it.\<close>

definition checked_params ::
  "http_env \<Rightarrow> http_request \<Rightarrow> object_schema http_route \<Rightarrow> (param_map \<times> param_map, signet_error) result" where
  "checked_params en req route =
     (case parseActionParams en req (ro_inputSource route) of
        Err e \<Rightarrow> Err e
      | Ok raw \<Rightarrow>
          (case safeParse (as_handler (ro_spec route)) raw of
             Err issues \<Rightarrow> Err (params_refused issues)
           | Ok validated \<Rightarrow> Ok (case raw of VObj kvs \<Rightarrow> kvs | _ \<Rightarrow> [], validated)))"

definition action_response :: "outcome \<Rightarrow> http_response" where
  "action_response out =
     (case out of
        Returned (Ok v) \<Rightarrow> successResponse v
      | Returned (Err e) \<Rightarrow> signet_error_response e
      | Threw t \<Rightarrow> signet_error_response (handler_threw (thrown_text t)))"

definition run_action :: "spec \<Rightarrow> param_map \<Rightarrow> handler_context \<Rightarrow> http_process" where
  "run_action sp validated ctx = Run sp validated ctx (\<lambda>out. reply (action_response out))"

definition admin_action :: "http_env \<Rightarrow> http_request \<Rightarrow> object_schema http_route \<Rightarrow> string \<Rightarrow> http_process" where
  "admin_action en req route token =
     Verify token (\<lambda>verified mo s. case verified of
       Err e \<Rightarrow> (Respond (errorResponse Cat_auth (err_message e) (err_context e)), s)
     | Ok payload \<Rightarrow>
         (case checked_params en req route of
            Err e \<Rightarrow> (Respond (signet_error_response e), s)
          | Ok (raw, validated) \<Rightarrow>
              (Elevate \<lparr>li_method = as_id (ro_spec route), li_params = raw,
                  li_adminFingerprint = ap_iss payload, li_sessionKey = session_key payload\<rparr>
                (\<lambda>elevated mo s. case elevated of
                   Err e \<Rightarrow> (Respond (signet_error_response e), s)
                 | Ok elev \<Rightarrow>
                     (run_action (ro_spec route) validated (admin_context (mo_uuid mo) (ap_iss payload) elev), s)), s)))"

definition credential_action :: "http_env \<Rightarrow> http_request \<Rightarrow> object_schema http_route \<Rightarrow> string \<Rightarrow> http_process" where
  "credential_action en req route token =
     Lookup_token token (\<lambda>found mo s. case found of
       Err _ \<Rightarrow> (Respond (errorResponse Cat_auth ''Invalid credential token'' None), s)
     | Ok credential \<Rightarrow>
         (case checked_params en req route of
            Err e \<Rightarrow> (Respond (signet_error_response e), s)
          | Ok (raw, validated) \<Rightarrow>
              (run_action (ro_spec route) validated (credential_context (mo_uuid mo) credential), s)))"

definition handleActionRoute :: "http_env \<Rightarrow> http_request \<Rightarrow> object_schema http_route \<Rightarrow> http_process" where
  "handleActionRoute en req route =
     (case extractBearerToken req of
        None \<Rightarrow> Respond (errorResponse Cat_auth
          (if ro_auth route = Some Auth_admin then ''Missing authorization token'' else ''Missing credential token'') None)
      | Some token \<Rightarrow>
          if ro_auth route = Some Auth_admin then admin_action en req route token
          else credential_action en req route token)"

text \<open>A status that throws is answered by the HTTP library, with 500.\<close>

definition health_response :: "js_value option \<Rightarrow> http_response" where
  "health_response v = (case v of Some st \<Rightarrow> successResponse st | None \<Rightarrow> jsonResponse VUndefined 500)"

text \<open>The method a path names under a prefix: a non-empty rest.\<close>

definition path_method :: "string \<Rightarrow> string \<Rightarrow> string option" where
  "path_method family path =
     (if starts_with path family \<and> length family < length path then Some (drop (length family) path) else None)"

definition handleRequest :: "http_env \<Rightarrow> http_request \<Rightarrow> http_kont" where
  "handleRequest en req mo s =
     (if hq_path req = ''/v1/health'' \<and> hq_method req = ''GET''
      then (Other (\<lambda>v. reply (health_response v)), s)
      else case (path_method ''/v1/admin/'' (hq_path req), hq_method req = ''POST'') of
        (Some m, True) \<Rightarrow> handleAdminRoute en req m mo s
      | _ \<Rightarrow>
          (case (path_method ''/v1/credential/'' (hq_path req), hq_method req = ''POST'') of
             (Some m, True) \<Rightarrow> handleCredentialRoute en req m mo s
           | _ \<Rightarrow>
               (case matchHttpActionRoute (he_routes en) (hq_method req) (hq_path req) of
                  Some route \<Rightarrow> (handleActionRoute en req route, s)
                | None \<Rightarrow>
                    (Respond (errorResponse Cat_not_found
                       (''Route not found: '' @ hq_method req @ '' '' @ hq_path req) None), s))))"

subsection \<open>Starting and stopping\<close>

datatype http_state = HS_idle | HS_listening | HS_stopped

fun http_state_text :: "http_state \<Rightarrow> string" where
  "http_state_text HS_idle = ''idle''"
| "http_state_text HS_listening = ''listening''"
| "http_state_text HS_stopped = ''stopped''"

record http_server =
  hv_state :: http_state
  hv_routes :: "object_schema http_route list"

definition createHttpServer :: http_server where
  "createHttpServer = \<lparr>hv_state = HS_idle, hv_routes = []\<rparr>"

text \<open>The listening socket is a parameter: the port it got, or what it threw.\<close>

definition http_start ::
  "(js_value \<Rightarrow> string) \<Rightarrow> object_schema registry \<Rightarrow> int + string \<Rightarrow> http_server \<Rightarrow> (int, signet_error) result \<times> http_server" where
  "http_start stringify reg listening sv =
     (if hv_state sv \<noteq> HS_idle
      then (Err (InternalError_create
              (''Cannot start HTTP server in state '' @ quoted (http_state_text (hv_state sv))) None), sv)
      else case buildHttpActionRoutes stringify reg of
        Err e \<Rightarrow> (Err e, sv)
      | Ok routes \<Rightarrow>
          let sv1 = sv\<lparr>hv_routes := routes\<rparr>
          in (case listening of
                Inl port \<Rightarrow> (Ok port, sv1\<lparr>hv_state := HS_listening\<rparr>)
              | Inr cause \<Rightarrow> (Err (InternalError_create ''Failed to start HTTP server'' (Some [(''cause'', VStr cause)])),
                  sv1\<lparr>hv_state := HS_idle\<rparr>)))"

definition http_stop :: "string option \<Rightarrow> http_server \<Rightarrow> (unit, signet_error) result \<times> http_server" where
  "http_stop threw sv =
     (if hv_state sv \<noteq> HS_listening
      then (Err (InternalError_create
              (''Cannot stop HTTP server in state '' @ quoted (http_state_text (hv_state sv))) None), sv)
      else case threw of
        None \<Rightarrow> (Ok (), sv\<lparr>hv_state := HS_stopped\<rparr>)
      | Some cause \<Rightarrow> (Err (InternalError_create ''Failed to stop HTTP server'' (Some [(''cause'', VStr cause)])), sv))"

subsection \<open>Who may call what\<close>

lemma buildMethodMap_fold: "map_get (foldl (\<lambda>m s. case as_cli s of None \<Rightarrow> m | Some _ \<Rightarrow> map_set m (deriveRpcMethod s) s) m0 ss) k
    = Some s \<Longrightarrow> map_get m0 k = Some s \<or> s \<in> set ss \<and> as_id s = k \<and> as_cli s \<noteq> None"
proof (induction ss arbitrary: m0)
  case (Cons a ss)
  from Cons.IH [OF Cons.prems [unfolded foldl_Cons]] show ?case
    by (cases "as_cli a") (auto simp: deriveRpcMethod_def store_simps split: if_splits)
qed simp

lemma method_given:
  assumes "map_get (buildMethodMap reg) m = Some s"
  shows "s \<in> set (registry_list reg) \<and> as_id s = m \<and> as_cli s \<noteq> None"
proof -
  have "s \<in> set (listForSurface reg Sf_cli)" "as_id s = m" "as_cli s \<noteq> None"
    using buildMethodMap_fold [of "[]" "listForSurface reg Sf_cli" m s] assms
    by (simp_all add: buildMethodMap_def map_get_def)
  then show ?thesis by (auto simp: listForSurface_def registry_list_def split: if_splits)
qed

lemma route_given:
  assumes "buildHttpActionRoutes stringify reg = Ok routes" "matchHttpActionRoute routes m path = Some r"
  shows "ro_spec r \<in> set (registry_list reg) \<and> isHttpExposed (ro_spec r) \<and>
    ro_auth r = Option.bind (as_http (ro_spec r)) hs_auth \<and> ro_auth r \<noteq> None"
proof -
  have v: "registry_validate stringify reg = Ok ()" and r: "r \<in> set routes"
    "routes = map route_of (filter isHttpExposed (listForSurface reg Sf_http))"
    using assms by (auto simp: buildHttpActionRoutes_def matchHttpActionRoute_def find_Some_iff in_set_conv_nth
        split: result.splits)
  then obtain s where s: "r = route_of s" "isHttpExposed s" "s \<in> set (map_values reg)"
    by (auto simp: listForSurface_def split: if_splits)
  have "specs_consistent (map_values reg)" using v by (simp add: registry_validate_def validate_ok)
  then have "Option.bind (as_http s) hs_auth \<noteq> None" using s by (auto simp: specs_consistent_def list_all_iff)
  then show ?thesis using s by (simp add: route_of_def registry_list_def)
qed

text \<open>The requests one caller may make of a server for a registry.\<close>

definition http_entries :: "(js_value \<Rightarrow> string) \<Rightarrow> object_schema registry \<Rightarrow> http_request \<Rightarrow> http_kont set" where
  "http_entries stringify reg req =
     {handleRequest en req | en. he_dispatcher en = buildMethodMap reg \<and>
        buildHttpActionRoutes stringify reg = Ok (he_routes en)}"

definition admin_call :: "gate_event list \<Rightarrow> string \<Rightarrow> spec \<Rightarrow> handler_context \<Rightarrow> bool" where
  "admin_call evs token spec ctx \<longleftrightarrow>
     (\<exists>payload. Ev_verify token (Ok payload) \<in> set evs \<and>
        (as_cli spec \<noteq> None \<or> Option.bind (as_http spec) hs_auth = Some Auth_admin) \<and>
        hc_adminAuth ctx = Some (ap_iss payload) \<and> hc_credentialId ctx = None \<and>
        (\<forall>e. hc_elevation ctx = Some e \<longrightarrow> (\<exists>inp. Ev_elevate inp (Ok (Some e)) \<in> set evs \<and>
           li_method inp = as_id spec \<and> li_sessionKey inp = session_key payload)))"

definition credential_call :: "gate_event list \<Rightarrow> string \<Rightarrow> spec \<Rightarrow> handler_context \<Rightarrow> bool" where
  "credential_call evs token spec ctx \<longleftrightarrow>
     (\<exists>c. Ev_token token (Ok c) \<in> set evs \<and> isHttpExposed spec \<and>
        Option.bind (as_http spec) hs_auth = Some Auth_credential \<and>
        hc_adminAuth ctx = None \<and> hc_elevation ctx = None \<and> hc_credentialId ctx = Some (rc_credentialId c))"

definition http_rule ::
  "object_schema registry \<Rightarrow> http_request \<Rightarrow> gate_event list \<Rightarrow> spec \<Rightarrow> param_map \<Rightarrow> handler_context \<Rightarrow> bool" where
  "http_rule reg req evs spec params ctx \<longleftrightarrow>
     spec \<in> set (registry_list reg) \<and> (\<exists>raw. safeParse (as_handler spec) raw = Ok params) \<and>
     (\<exists>token. extractBearerToken req = Some token \<and>
        (admin_call evs token spec ctx \<or> credential_call evs token spec ctx))"

lemma http_rule_more: "http_rule reg req evs sp ps cx \<Longrightarrow> http_rule reg req (evs @ [e]) sp ps cx"
  by (fastforce simp: http_rule_def admin_call_def credential_call_def)

subsection \<open>Every process follows the rule\<close>

lemma admin_route_orderly:
  assumes "he_dispatcher en = buildMethodMap reg"
  shows "orderly (\<lambda>_ _. True) (\<lambda>_ _. True) (http_rule reg req) evs s (fst (handleAdminRoute en req m mo s))"
proof (cases "extractBearerToken req")
  case None
  then show ?thesis by (simp add: handleAdminRoute_def)
next
  case (Some token)
  have key: "http_rule reg req evs' sp validated (admin_context i (ap_iss payload) elev)"
    if "Ev_verify token (Ok payload) \<in> set evs'" "map_get (buildMethodMap reg) m = Some sp"
      "safeParse (as_handler sp) raw = Ok validated"
      "Ev_elevate \<lparr>li_method = m, li_params = ps, li_adminFingerprint = ap_iss payload,
         li_sessionKey = session_key payload\<rparr> (Ok elev) \<in> set evs'"
    for evs' sp validated i payload elev raw ps
    using that method_given [OF that(2)] Some
    by (fastforce simp: http_rule_def admin_call_def admin_context_def)
  show ?thesis using Some assms
    by (simp add: handleAdminRoute_def dispatcher_validate_def validateParams_def getSpec_def dispatchValidated_def Let_def
        reply_def split: result.split option.split)
      (intro allI impI, rule key, auto dest: set_mono_prefix)
qed

lemma action_route_orderly:
  assumes "buildHttpActionRoutes stringify reg = Ok (he_routes en)"
    and "matchHttpActionRoute (he_routes en) (hq_method req) (hq_path req) = Some route"
  shows "orderly (\<lambda>_ _. True) (\<lambda>_ _. True) (http_rule reg req) evs s (handleActionRoute en req route)"
proof (cases "extractBearerToken req")
  case None
  then show ?thesis by (simp add: handleActionRoute_def)
next
  case (Some token)
  note given = route_given [OF assms]
  have parsed: "\<exists>r. safeParse (as_handler (ro_spec route)) r = Ok validated"
    if "checked_params en req route = Ok (raw, validated)" for raw validated
    using that by (auto simp: checked_params_def split: result.splits)
  have admin: "http_rule reg req evs' (ro_spec route) validated (admin_context i (ap_iss payload) elev)"
    if "ro_auth route = Some Auth_admin" "Ev_verify token (Ok payload) \<in> set evs'"
      "checked_params en req route = Ok (raw, validated)"
      "Ev_elevate \<lparr>li_method = as_id (ro_spec route), li_params = raw, li_adminFingerprint = ap_iss payload,
         li_sessionKey = session_key payload\<rparr> (Ok elev) \<in> set evs'"
    for evs' validated i payload elev raw
    using that given Some parsed [OF that(3)] by (fastforce simp: http_rule_def admin_call_def admin_context_def)
  have credential: "http_rule reg req evs' (ro_spec route) validated (credential_context i c)"
    if "ro_auth route \<noteq> Some Auth_admin" "Ev_token token (Ok c) \<in> set evs'"
      "checked_params en req route = Ok (raw, validated)"
    for evs' validated i c raw
  proof -
    have "Option.bind (as_http (ro_spec route)) hs_auth = Some Auth_credential"
      using that(1) given by (metis http_auth.exhaust not_None_eq)
    then show ?thesis using that given Some parsed [OF that(3)]
      by (auto simp: http_rule_def credential_call_def credential_context_def)
  qed
  show ?thesis
  proof (cases "ro_auth route = Some Auth_admin")
    case True
    then show ?thesis using Some
      by (simp add: handleActionRoute_def admin_action_def run_action_def reply_def split: result.split)
        (intro allI impI, rule admin, auto dest: set_mono_prefix)
  next
    case False
    then show ?thesis using Some
      by (simp add: handleActionRoute_def credential_action_def run_action_def reply_def split: result.split)
        (intro allI impI, rule credential, auto dest: set_mono_prefix)
  qed
qed

lemma credential_route_orderly: "orderly (\<lambda>_ _. True) (\<lambda>_ _. True) Q evs s (fst (handleCredentialRoute en req m mo s))"
  by (auto simp: handleCredentialRoute_def Let_def split: option.split result.split)

lemma http_entry_orderly:
  assumes "f \<in> http_entries stringify reg req"
  shows "orderly (\<lambda>_ _. True) (\<lambda>_ _. True) (http_rule reg req) evs s (fst (f mo s))"
proof -
  obtain en where en: "f = handleRequest en req" "he_dispatcher en = buildMethodMap reg"
    "buildHttpActionRoutes stringify reg = Ok (he_routes en)"
    using assms by (auto simp: http_entries_def)
  show ?thesis unfolding en(1) handleRequest_def
    using admin_route_orderly [OF en(2)] action_route_orderly [OF en(3)] credential_route_orderly
    by (auto simp: reply_def split: option.split prod.split bool.split)
qed

interpretation http: gate_rules "http_entries stringify reg req" "()" "\<lambda>_ _. True" "\<lambda>_ _. True" "http_rule reg req"
  by unfold_locales (simp_all add: http_rule_more http_entry_orderly)

text \<open>C32: Over HTTP a handler runs only for a registered action, on parameters its schema accepted, and
  for the bearer of a token that was checked for this very request: an administrator whose token
  verified, for an action that is an administrator's method or route, or the holder of a credential
  the token was found for, for an action declared for credentials. The handler's context names that
  caller and no other, and carries an elevation only for an administrator, when one was granted for
  this action in the session of the token.\<close>

theorem http_calls_authorized:
  assumes "gate_reachable (http_entries stringify reg req) () sy"
    and "gs_log sy = pre @ Ev_run spec params ctx # post"
  shows "spec \<in> set (registry_list reg) \<and> (\<exists>raw. safeParse (as_handler spec) raw = Ok params) \<and>
    (\<exists>token. extractBearerToken req = Some token \<and>
       ((\<exists>payload. Ev_verify token (Ok payload) \<in> set pre \<and>
           (as_cli spec \<noteq> None \<or> Option.bind (as_http spec) hs_auth = Some Auth_admin) \<and>
           hc_adminAuth ctx = Some (ap_iss payload) \<and> hc_credentialId ctx = None \<and>
           (\<forall>e. hc_elevation ctx = Some e \<longrightarrow> (\<exists>inp. Ev_elevate inp (Ok (Some e)) \<in> set pre \<and>
              li_method inp = as_id spec \<and> li_sessionKey inp = session_key payload))) \<or>
        (\<exists>c. Ev_token token (Ok c) \<in> set pre \<and> isHttpExposed spec \<and>
           Option.bind (as_http spec) hs_auth = Some Auth_credential \<and>
           hc_adminAuth ctx = None \<and> hc_elevation ctx = None \<and> hc_credentialId ctx = Some (rc_credentialId c))))"
  using http.called_under [OF assms] unfolding http_rule_def admin_call_def credential_call_def .

definition sample_request :: http_request where
  "sample_request = \<lparr>hq_method = ''GET'', hq_path = ''/v1/actions/message/list'', hq_authorization = Some ''Bearer t'',
     hq_query = [(''chatId'', ''c1'')], hq_text = None\<rparr>"

definition sample_http_env :: http_env where
  "sample_http_env = \<lparr>he_iso = (\<lambda>_. []), he_parse = (\<lambda>_. None), he_dispatcher = buildMethodMap sample_registry,
     he_routes = map route_of (filter isHttpExposed (listForSurface sample_registry Sf_http))\<rparr>"

definition sample_http_run :: "(unit, http_response) gate_system option" where
  "sample_http_run = gate_play sample_moment [(0, A_verified (Ok sample_payload)), (0, A_elevated (Ok None))]
     (gate_begin (handleRequest sample_http_env sample_request) sample_moment (gate_start ()))"

lemma sample_http_called:
  "case sample_http_run of None \<Rightarrow> False
   | Some sy \<Rightarrow> (case last_call (gs_log sy) of
       Some (spec, params, ctx) \<Rightarrow> as_id spec = ''message.list'' \<and>
         params = [(''chatId'', VStr ''c1'')] \<and> hc_adminAuth ctx = Some ''fp''
     | None \<Rightarrow> False)"
  by code_simp

lemma sample_http_entry: "handleRequest sample_http_env sample_request \<in> http_entries (\<lambda>_. []) sample_registry sample_request"
proof -
  have "registry_validate (\<lambda>_. []) sample_registry = Ok ()" by code_simp
  then have "buildHttpActionRoutes (\<lambda>_. []) sample_registry = Ok (he_routes sample_http_env)"
    by (simp add: buildHttpActionRoutes_def sample_http_env_def)
  then show ?thesis by (auto simp: http_entries_def sample_http_env_def)
qed

theorem http_calls_authorized_witness:
  "\<exists>spec params (ctx :: handler_context). as_id spec = ''message.list'' \<and> params = [(''chatId'', VStr ''c1'')] \<and>
     hc_adminAuth ctx = Some ''fp'' \<and> spec \<in> set (registry_list sample_registry) \<and>
     (\<exists>token. extractBearerToken sample_request = Some token)"
proof -
  obtain sy spec params ctx where sy: "sample_http_run = Some sy" "last_call (gs_log sy) = Some (spec, params, ctx)"
      "as_id spec = ''message.list''" "params = [(''chatId'', VStr ''c1'')]" "hc_adminAuth ctx = Some ''fp''"
    using sample_http_called by (auto split: option.splits)
  obtain pre where pre: "gs_log sy = pre @ Ev_run spec params ctx # []" using last_call_split [OF sy(2)] by blast
  have "gate_reachable (http_entries (\<lambda>_. []) sample_registry sample_request) () sy"
    using gate_play_reachable [OF gate_reachable.begins [OF gate_start_reachable sample_http_entry]] sy(1)
    unfolding sample_http_run_def by blast
  note called = http_calls_authorized [OF this pre]
  have "spec \<in> set (registry_list sample_registry)" using called by (rule conjunct1)
  moreover have "\<exists>token. extractBearerToken sample_request = Some token"
    using called by (elim conjE exE) (rule exI)
  ultimately show ?thesis using sy(3,4,5) by blast
qed

end
