(* ===== verification/AdminServer.thy ===== *)
theory AdminServer
  imports HttpServer
begin

text \<open>
  The administrator's socket (\<^verbatim>\<open>packages/cli/src/admin/server.ts\<close>, \<^verbatim>\<open>packages/cli/src/admin/protocol.ts\<close>): lines of
  JSON text, of which the first must authenticate. Every line is handled on its own, without waiting
  for the ones before it; all the lines of a connection share its state.
\<close>

subsection \<open>Frames\<close>

definition AdminAuthFrameSchema :: "js_value \<Rightarrow> string option" where
  "AdminAuthFrameSchema v =
     (if is_obj v \<and> js_get v ''type'' = VStr ''admin_auth'' then as_str (js_get v ''token'') else None)"

record rpc_request =
  rq_id :: js_value
  rq_method :: string
  rq_params :: param_map

fun rpc_id_ok :: "js_value \<Rightarrow> bool" where
  "rpc_id_ok (VNum q) = True"
| "rpc_id_ok (VStr s) = True"
| "rpc_id_ok _ = False"

text \<open>Missing parameters are an empty record.\<close>

fun rpc_params :: "js_value \<Rightarrow> param_map option" where
  "rpc_params VUndefined = Some []"
| "rpc_params (VObj kvs) = Some kvs"
| "rpc_params _ = None"

definition JsonRpcRequestSchema :: "js_value \<Rightarrow> rpc_request option" where
  "JsonRpcRequestSchema v =
     (if is_obj v \<and> js_get v ''jsonrpc'' = VStr ''2.0'' \<and> rpc_id_ok (js_get v ''id'')
      then (case (as_str (js_get v ''method''), rpc_params (js_get v ''params'')) of
              (Some m, Some ps) \<Rightarrow> Some \<lparr>rq_id = js_get v ''id'', rq_method = m, rq_params = ps\<rparr>
            | _ \<Rightarrow> None)
      else None)"

definition PARSE_ERROR :: int where "PARSE_ERROR = - 32700"
definition INVALID_REQUEST :: int where "INVALID_REQUEST = - 32600"
definition METHOD_NOT_FOUND :: int where "METHOD_NOT_FOUND = - 32601"
definition INVALID_PARAMS :: int where "INVALID_PARAMS = - 32602"
definition INTERNAL_ERROR :: int where "INTERNAL_ERROR = - 32603"
definition AUTH_FAILED :: int where "AUTH_FAILED = - 32000"
definition PERMISSION_DENIED :: int where "PERMISSION_DENIED = - 32001"
definition NOT_FOUND :: int where "NOT_FOUND = - 32002"

fun jsonRpcCodeForCategory :: "error_category \<Rightarrow> int" where
  "jsonRpcCodeForCategory Cat_validation = INVALID_PARAMS"
| "jsonRpcCodeForCategory Cat_auth = AUTH_FAILED"
| "jsonRpcCodeForCategory Cat_permission = PERMISSION_DENIED"
| "jsonRpcCodeForCategory Cat_not_found = NOT_FOUND"
| "jsonRpcCodeForCategory Cat_internal = INTERNAL_ERROR"
| "jsonRpcCodeForCategory Cat_timeout = INTERNAL_ERROR"
| "jsonRpcCodeForCategory Cat_cancelled = INTERNAL_ERROR"
| "jsonRpcCodeForCategory Cat_network = INTERNAL_ERROR"

definition makeJsonRpcError :: "js_value \<Rightarrow> int \<Rightarrow> string \<Rightarrow> js_value option \<Rightarrow> js_value" where
  "makeJsonRpcError i code message extra = VObj
     [(''jsonrpc'', VStr ''2.0''), (''id'', i),
      (''error'', VObj ([(''code'', VNum (of_int code)), (''message'', VStr message)] @
         (case extra of None \<Rightarrow> [] | Some d \<Rightarrow> [(''data'', d)])))]"

definition makeJsonRpcSuccess :: "js_value \<Rightarrow> js_value \<Rightarrow> js_value" where
  "makeJsonRpcSuccess i r = VObj [(''jsonrpc'', VStr ''2.0''), (''id'', i), (''result'', r)]"

definition auth_acknowledgment :: js_value where
  "auth_acknowledgment = VObj [(''jsonrpc'', VStr ''2.0''), (''result'', VObj [(''authenticated'', VBool True)])]"

subsection \<open>A connection\<close>

record admin_connection =
  ac_authenticated :: bool
  ac_fingerprint :: "string option"
  ac_sessionKey :: "string option"

definition new_connection :: admin_connection where
  "new_connection = \<lparr>ac_authenticated = False, ac_fingerprint = None, ac_sessionKey = None\<rparr>"

text \<open>An error value of the program as the JSON text of it is built is a parameter.\<close>

record admin_env =
  av_iso :: "int \<Rightarrow> string"
  av_parse :: "string \<Rightarrow> js_value option"
  av_error_js :: "signet_error \<Rightarrow> js_value"
  av_dispatcher :: dispatcher

type_synonym admin_process = "(admin_connection, js_value) gate"
type_synonym admin_kont = "(admin_connection, js_value) gate_kont"

definition rpc_refused :: "admin_env \<Rightarrow> js_value \<Rightarrow> signet_error \<Rightarrow> js_value" where
  "rpc_refused en i e =
     makeJsonRpcError i (jsonRpcCodeForCategory (err_category e)) (err_message e) (Some (av_error_js en e))"

definition rpc_answer :: "js_value \<Rightarrow> js_value action_result \<Rightarrow> js_value" where
  "rpc_answer i r =
     (case r of
        AR_ok _ _ _ \<Rightarrow> makeJsonRpcSuccess i (action_result_js (\<lambda>v. v) r)
      | AR_err e _ \<Rightarrow>
          makeJsonRpcError i (jsonRpcCodeForCategory (re_category e)) (re_message e) (Some (action_error_js e)))"

definition authenticate_line :: "js_value \<Rightarrow> admin_kont" where
  "authenticate_line parsed mo s =
     (case AdminAuthFrameSchema parsed of
        None \<Rightarrow> (Respond (makeJsonRpcError VNull AUTH_FAILED ''Expected admin_auth frame as first message'' None), s)
      | Some token \<Rightarrow>
          (Verify token (\<lambda>verified mo s. case verified of
             Err e \<Rightarrow> (Respond (makeJsonRpcError VNull AUTH_FAILED (err_message e) None), s)
           | Ok payload \<Rightarrow>
               (Respond auth_acknowledgment,
                \<lparr>ac_authenticated = True, ac_fingerprint = Some (ap_iss payload),
                 ac_sessionKey = Some (session_key payload)\<rparr>)), s))"

definition request_line :: "admin_env \<Rightarrow> rpc_request \<Rightarrow> admin_kont" where
  "request_line en rq mo s =
     (if \<not> hasMethod (av_dispatcher en) (rq_method rq)
      then (Respond (makeJsonRpcError (rq_id rq) METHOD_NOT_FOUND
              (''Method '' @ quoted (rq_method rq) @ '' not found'') None), s)
      else case dispatcher_validate (av_dispatcher en) (rq_method rq) (VObj (rq_params rq)) of
        Err e \<Rightarrow> (Respond (rpc_refused en (rq_id rq) e), s)
      | Ok validated \<Rightarrow>
          (Elevate \<lparr>li_method = rq_method rq,
              li_params = mergeTransportControls (VObj (rq_params rq)) validated,
              li_adminFingerprint = nullish (ac_fingerprint s) [],
              li_sessionKey = nullish (ac_sessionKey s) (nullish (ac_fingerprint s) [])\<rparr>
            (\<lambda>elevated mo s. case elevated of
               Err e \<Rightarrow> (Respond (rpc_refused en (rq_id rq) e), s)
             | Ok elev \<Rightarrow>
                 dispatchValidated (av_iso en) (av_dispatcher en) (rq_method rq) validated
                   (admin_context (mo_uuid mo) (nullish (ac_fingerprint s) []) elev)
                   (\<lambda>r. reply (rpc_answer (rq_id rq) r)) mo s), s))"

definition handleLine :: "admin_env \<Rightarrow> string \<Rightarrow> admin_kont" where
  "handleLine en line mo s =
     (case av_parse en line of
        None \<Rightarrow> (Respond (makeJsonRpcError VNull PARSE_ERROR ''Parse error'' None), s)
      | Some parsed \<Rightarrow>
          if \<not> ac_authenticated s then authenticate_line parsed mo s
          else case JsonRpcRequestSchema parsed of
            None \<Rightarrow> (Respond (makeJsonRpcError VNull INVALID_REQUEST ''Invalid JSON-RPC request'' None), s)
          | Some rq \<Rightarrow> request_line en rq mo s)"

subsection \<open>Lines\<close>

lemma rest_shorter: "c \<in> set xs \<Longrightarrow> length (tl (dropWhile (\<lambda>x. x \<noteq> c) xs)) < length xs"
  by (induction xs) auto

text \<open>The loop over the complete lines of the buffer: the trimmed ones that are not empty, and what is
  left.\<close>

function complete_lines :: "string \<Rightarrow> string list \<times> string" where
  "complete_lines buffer =
     (if CHR 0x0A \<notin> set buffer then ([], buffer)
      else let line = js_trim (takeWhile (\<lambda>c. c \<noteq> CHR 0x0A) buffer);
               (ls, rest) = complete_lines (tl (dropWhile (\<lambda>c. c \<noteq> CHR 0x0A) buffer))
           in (if line = [] then ls else line # ls, rest))"
  by pat_completeness auto

termination complete_lines
  by (relation "measure length") (auto intro: rest_shorter simp del: length_tl)

declare complete_lines.simps [simp del]

text \<open>A chunk of decoded text.\<close>

definition socket_data :: "string \<Rightarrow> string \<Rightarrow> string list \<times> string" where
  "socket_data chunk buffer = complete_lines (buffer @ chunk)"

lemma complete_lines_none: "CHR 0x0A \<notin> set xs \<Longrightarrow> complete_lines xs = ([], xs)"
  by (subst complete_lines.simps) simp

lemma complete_lines_line: "CHR 0x0A \<notin> set l \<Longrightarrow> complete_lines (l @ CHR 0x0A # xs) =
    (case complete_lines xs of (ls, rest) \<Rightarrow> (if js_trim l = [] then ls else js_trim l # ls, rest))"
proof -
  assume l: "CHR 0x0A \<notin> set l"
  have "takeWhile (\<lambda>c. c \<noteq> CHR 0x0A) (l @ CHR 0x0A # xs) = l" "dropWhile (\<lambda>c. c \<noteq> CHR 0x0A) (l @ CHR 0x0A # xs) = CHR 0x0A # xs"
    using l by (auto simp: takeWhile_append dropWhile_append)
  then show ?thesis by (subst complete_lines.simps) (simp add: Let_def split: prod.split)
qed

lemma complete_lines_append:
  "complete_lines (a @ b) =
     (case complete_lines a of (ls, rest) \<Rightarrow> (case complete_lines (rest @ b) of (ls', rest') \<Rightarrow> (ls @ ls', rest')))"
proof (induction a rule: length_induct)
  case (1 a)
  show ?case
  proof (cases "CHR 0x0A \<in> set a")
    case False
    then show ?thesis by (simp add: complete_lines_none split: prod.split)
  next
    case True
    then obtain l xs where a: "a = l @ CHR 0x0A # xs" "CHR 0x0A \<notin> set l" by (metis split_list_first)
    then have "length xs < length a" by simp
    with 1 have "complete_lines (xs @ b) =
        (case complete_lines xs of (ls, rest) \<Rightarrow> (case complete_lines (rest @ b) of (ls', rest') \<Rightarrow> (ls @ ls', rest')))"
      by blast
    then show ?thesis using a complete_lines_line [OF a(2), of "xs @ b"] complete_lines_line [OF a(2), of xs]
      by (simp split: prod.splits)
  qed
qed

subsection \<open>Starting and stopping\<close>

text \<open>What the file system and the listener throw is a parameter.\<close>

definition admin_start :: "string option \<Rightarrow> http_state \<Rightarrow> (unit, signet_error) result \<times> http_state" where
  "admin_start threw st =
     (if st \<noteq> HS_idle
      then (Err (InternalError_create (''Cannot start server in state '' @ quoted (http_state_text st)) None), st)
      else case threw of
        None \<Rightarrow> (Ok (), HS_listening)
      | Some cause \<Rightarrow> (Err (InternalError_create ''Failed to start admin server'' (Some [(''cause'', VStr cause)])), HS_idle))"

definition admin_stop :: "string option \<Rightarrow> http_state \<Rightarrow> (unit, signet_error) result \<times> http_state" where
  "admin_stop threw st =
     (if st \<noteq> HS_listening
      then (Err (InternalError_create (''Cannot stop server in state '' @ quoted (http_state_text st)) None), st)
      else case threw of
        None \<Rightarrow> (Ok (), HS_stopped)
      | Some cause \<Rightarrow> (Err (InternalError_create ''Failed to stop admin server'' (Some [(''cause'', VStr cause)])), st))"

subsection \<open>Only the authenticated are served\<close>

definition socket_entries :: "object_schema registry \<Rightarrow> admin_kont set" where
  "socket_entries reg = {handleLine en line | en line. av_dispatcher en = buildMethodMap reg}"

text \<open>An authenticated connection carries the key and the session of a token that verified on it.\<close>

definition connection_ok :: "gate_event list \<Rightarrow> admin_connection \<Rightarrow> bool" where
  "connection_ok evs s \<longleftrightarrow>
     (ac_authenticated s \<longrightarrow> (\<exists>token payload. Ev_verify token (Ok payload) \<in> set evs \<and>
        ac_fingerprint s = Some (ap_iss payload) \<and> ac_sessionKey s = Some (session_key payload)))"

definition socket_rule ::
  "object_schema registry \<Rightarrow> gate_event list \<Rightarrow> spec \<Rightarrow> param_map \<Rightarrow> handler_context \<Rightarrow> bool" where
  "socket_rule reg evs spec params ctx \<longleftrightarrow>
     spec \<in> set (registry_list reg) \<and> as_cli spec \<noteq> None \<and>
     (\<exists>raw. safeParse (as_handler spec) raw = Ok params) \<and>
     (\<exists>token payload. Ev_verify token (Ok payload) \<in> set evs \<and> hc_adminAuth ctx = Some (ap_iss payload)) \<and>
     hc_credentialId ctx = None \<and>
     (\<forall>e. hc_elevation ctx = Some e \<longrightarrow> (\<exists>inp token payload. Ev_elevate inp (Ok (Some e)) \<in> set evs \<and>
        li_method inp = as_id spec \<and> Ev_verify token (Ok payload) \<in> set evs \<and>
        li_sessionKey inp = session_key payload))"

lemma socket_rule_more: "socket_rule reg evs sp ps cx \<Longrightarrow> socket_rule reg (evs @ [e]) sp ps cx"
  by (fastforce simp: socket_rule_def)

lemma connection_ok_more: "connection_ok evs s \<Longrightarrow> connection_ok (evs @ [e]) s"
  by (fastforce simp: connection_ok_def)

definition stays_authenticated :: "admin_connection \<Rightarrow> admin_connection \<Rightarrow> bool" where
  "stays_authenticated s s' \<longleftrightarrow> (ac_authenticated s \<longrightarrow> ac_authenticated s')"

lemma authenticate_line_orderly:
  assumes "connection_ok evs s"
  shows "orderly connection_ok stays_authenticated Q evs (snd (authenticate_line parsed mo s)) (fst (authenticate_line parsed mo s)) \<and>
    stays_authenticated s (snd (authenticate_line parsed mo s)) \<and> connection_ok evs (snd (authenticate_line parsed mo s))"
  using assms
  by (auto simp: authenticate_line_def stays_authenticated_def split: option.split result.split)
    (auto simp: connection_ok_def)

lemma request_line_orderly:
  assumes "connection_ok evs s" "ac_authenticated s" "av_dispatcher en = buildMethodMap reg"
  shows "orderly connection_ok stays_authenticated (socket_rule reg) evs (snd (request_line en rq mo s)) (fst (request_line en rq mo s)) \<and>
    stays_authenticated s (snd (request_line en rq mo s)) \<and> connection_ok evs (snd (request_line en rq mo s))"
proof (cases "dispatcher_validate (buildMethodMap reg) (rq_method rq) (VObj (rq_params rq))")
  case (Err e)
  then show ?thesis using assms by (simp add: request_line_def stays_authenticated_def)
next
  case (Ok validated)
  then obtain sp where sp: "map_get (buildMethodMap reg) (rq_method rq) = Some sp"
    "safeParse (as_handler sp) (VObj (rq_params rq)) = Ok validated"
    by (auto simp: dispatcher_validate_def getSpec_def validateParams_def split: option.splits result.splits)
  obtain token payload where k: "Ev_verify token (Ok payload) \<in> set evs" "ac_fingerprint s = Some (ap_iss payload)"
      "ac_sessionKey s = Some (session_key payload)"
    using assms(1,2) by (auto simp: connection_ok_def)
  let ?inp = "\<lparr>li_method = rq_method rq, li_params = mergeTransportControls (VObj (rq_params rq)) validated,
      li_adminFingerprint = ap_iss payload, li_sessionKey = session_key payload\<rparr>"
  have rule: "socket_rule reg evs' sp validated (admin_context i (nullish (ac_fingerprint s') []) elev)"
    if h: "prefix evs evs'" "connection_ok evs' s'" "ac_authenticated s'" "Ev_elevate ?inp (Ok elev) \<in> set evs'" for evs' s' elev i
  proof -
    obtain token' payload' where "Ev_verify token' (Ok payload') \<in> set evs'" "ac_fingerprint s' = Some (ap_iss payload')"
      using h(2,3) by (auto simp: connection_ok_def)
    moreover have "Ev_verify token (Ok payload) \<in> set evs'" using k(1) h(1) by (auto dest: set_mono_prefix)
    ultimately show ?thesis using method_given [OF sp(1)] sp(2) h(4)
      unfolding socket_rule_def admin_context_def by fastforce
  qed
  have "hasMethod (buildMethodMap reg) (rq_method rq)" using sp(1) by (simp add: hasMethod_def)
  then show ?thesis using assms Ok sp(1) k
    by (simp add: request_line_def dispatchValidated_def getSpec_def Let_def reply_def stays_authenticated_def
        split: result.split)
      (intro allI impI, rule rule, auto)
qed

lemma socket_entry_orderly:
  assumes "f \<in> socket_entries reg" "connection_ok evs s"
  shows "orderly connection_ok stays_authenticated (socket_rule reg) evs (snd (f mo s)) (fst (f mo s)) \<and>
    stays_authenticated s (snd (f mo s)) \<and> connection_ok evs (snd (f mo s))"
proof -
  obtain en line where en: "f = handleLine en line" "av_dispatcher en = buildMethodMap reg"
    using assms(1) by (auto simp: socket_entries_def)
  show ?thesis unfolding en(1) handleLine_def
    using authenticate_line_orderly [OF assms(2)] request_line_orderly [OF assms(2) _ en(2)] assms(2)
    by (auto simp: stays_authenticated_def split: option.split)
qed

interpretation socket: gate_rules "socket_entries reg" new_connection connection_ok stays_authenticated "socket_rule reg"
proof unfold_locales
  show "connection_ok [] new_connection" by (simp add: connection_ok_def new_connection_def)
  show "connection_ok (evs @ [e]) s" if "connection_ok evs s" for evs s e using that by (rule connection_ok_more)
  show "socket_rule reg (evs @ [e]) sp ps cx" if "socket_rule reg evs sp ps cx" for evs sp ps cx e
    using that by (rule socket_rule_more)
qed (auto simp: stays_authenticated_def dest: socket_entry_orderly)

text \<open>C33: Whatever lines a connection sends, however they are handled at the same time and whatever the
  checks answer, a handler runs only for a registered administrator's method, on parameters its
  schema accepted, after a token verified on this connection; its context names the key of such a
  token and no credential, and an elevation it carries was granted for this very method in the
  session of a token verified on this connection.\<close>

theorem socket_calls_authenticated:
  assumes "gate_reachable (socket_entries reg) new_connection sy"
    and "gs_log sy = pre @ Ev_run spec params ctx # post"
  shows "spec \<in> set (registry_list reg) \<and> as_cli spec \<noteq> None \<and>
    (\<exists>raw. safeParse (as_handler spec) raw = Ok params) \<and>
    (\<exists>token payload. Ev_verify token (Ok payload) \<in> set pre \<and> hc_adminAuth ctx = Some (ap_iss payload)) \<and>
    hc_credentialId ctx = None \<and>
    (\<forall>e. hc_elevation ctx = Some e \<longrightarrow> (\<exists>inp token payload. Ev_elevate inp (Ok (Some e)) \<in> set pre \<and>
       li_method inp = as_id spec \<and> Ev_verify token (Ok payload) \<in> set pre \<and>
       li_sessionKey inp = session_key payload))"
  using socket.called_under [OF assms] unfolding socket_rule_def .

text \<open>How the socket cuts what it receives into chunks changes nothing: after any two chunks the
  lines handled are those of the joined text, in order, and so is what stays in the buffer.\<close>

theorem socket_chunks_join:
  "(case socket_data a [] of (ls, rest) \<Rightarrow>
      (case socket_data b rest of (ls', rest') \<Rightarrow> (ls @ ls', rest'))) = socket_data (a @ b) []"
  by (simp add: socket_data_def complete_lines_append [of a b] split: prod.splits)

text \<open>A line that arrives while the token of the first is still being checked is refused, though a
  client may send it at once.\<close>

definition sample_admin_env :: admin_env where
  "sample_admin_env = \<lparr>av_iso = (\<lambda>_. []),
     av_parse = (\<lambda>t. if t = ''auth'' then Some (VObj [(''type'', VStr ''admin_auth''), (''token'', VStr ''t'')])
       else Some (VObj [(''jsonrpc'', VStr ''2.0''), (''id'', VNum 1), (''method'', VStr ''message.list''),
              (''params'', VObj [(''chatId'', VStr ''c1'')])])),
     av_error_js = (\<lambda>_. VNull), av_dispatcher = buildMethodMap sample_registry\<rparr>"

lemma pipelined_request_refused:
  "case gate_play sample_moment [(0, A_verified (Ok sample_payload))]
     (gate_begin (handleLine sample_admin_env ''call'') sample_moment
       (gate_begin (handleLine sample_admin_env ''auth'') sample_moment (gate_start new_connection))) of
     None \<Rightarrow> False
   | Some sy \<Rightarrow> (case gs_requests sy of
       [Respond r1, Respond r2] \<Rightarrow> r1 = auth_acknowledgment \<and> js_get (js_get r2 ''error'') ''code'' = VNum (- 32000)
     | _ \<Rightarrow> False)"
  by code_simp

definition sample_socket_run :: "(admin_connection, js_value) gate_system option" where
  "sample_socket_run = Option.bind (gate_play sample_moment [(0, A_verified (Ok sample_payload))]
       (gate_begin (handleLine sample_admin_env ''auth'') sample_moment (gate_start new_connection)))
     (\<lambda>sy. gate_play sample_moment [(1, A_elevated (Ok None))]
        (gate_begin (handleLine sample_admin_env ''call'') sample_moment sy))"

lemma sample_socket_called:
  "case sample_socket_run of None \<Rightarrow> False
   | Some sy \<Rightarrow> (case last_call (gs_log sy) of
       Some (spec, params, ctx) \<Rightarrow> as_id spec = ''message.list'' \<and>
         params = [(''chatId'', VStr ''c1'')] \<and> hc_adminAuth ctx = Some ''fp''
     | None \<Rightarrow> False)"
  by code_simp

theorem socket_calls_authenticated_witness:
  "\<exists>spec params (ctx :: handler_context). as_id spec = ''message.list'' \<and> params = [(''chatId'', VStr ''c1'')] \<and>
     hc_adminAuth ctx = Some ''fp'' \<and> spec \<in> set (registry_list sample_registry)"
proof -
  obtain sy spec params ctx where sy: "sample_socket_run = Some sy" "last_call (gs_log sy) = Some (spec, params, ctx)"
      "as_id spec = ''message.list''" "params = [(''chatId'', VStr ''c1'')]" "hc_adminAuth ctx = Some ''fp''"
    using sample_socket_called by (auto split: option.splits)
  obtain pre where pre: "gs_log sy = pre @ Ev_run spec params ctx # []" using last_call_split [OF sy(2)] by blast
  have en: "handleLine sample_admin_env line \<in> socket_entries sample_registry" for line
    by (auto simp: socket_entries_def sample_admin_env_def)
  obtain sy1 where sy1: "gate_play sample_moment [(0, A_verified (Ok sample_payload))]
       (gate_begin (handleLine sample_admin_env ''auth'') sample_moment (gate_start new_connection)) = Some sy1"
    and sy2: "gate_play sample_moment [(1, A_elevated (Ok None))]
        (gate_begin (handleLine sample_admin_env ''call'') sample_moment sy1) = Some sy"
    using sy(1) unfolding sample_socket_run_def bind_eq_Some_conv by blast
  have "gate_reachable (socket_entries sample_registry) new_connection sy1"
    by (rule gate_play_reachable [OF gate_reachable.begins [OF gate_start_reachable en] sy1])
  then have "gate_reachable (socket_entries sample_registry) new_connection sy"
    by (rule gate_play_reachable [OF gate_reachable.begins [OF _ en] sy2])
  note called = socket_calls_authenticated [OF this pre]
  show ?thesis using sy(3,4,5) conjunct1 [OF called] by blast
qed

end
