(* ===== verification/McpServer.thy ===== *)
theory McpServer
  imports Gateway
begin

text \<open>
  The MCP server (\<^verbatim>\<open>packages/mcp/src/server.ts\<close>, \<^verbatim>\<open>call-handler.ts\<close>, \<^verbatim>\<open>credential-guard.ts\<close>,
  \<^verbatim>\<open>tool-registration.ts\<close>, \<^verbatim>\<open>context-factory.ts\<close>, \<^verbatim>\<open>output-formatter.ts\<close>, \<^verbatim>\<open>config.ts\<close>): registered actions as
  tools for the holder of one credential. The printer of JSON, the conversion of a schema to JSON
  schema and the transport are parameters.
\<close>

subsection \<open>Configuration, tools and output\<close>

datatype mcp_mode = MM_stdio | MM_embedded

record mcp_config =
  mf_mode :: mcp_mode
  mf_serverName :: string
  mf_serverVersion :: string
  mf_toolPrefix :: string
  mf_credentialToken :: string
  mf_requestTimeoutMs :: int

record mcp_config_input =
  mi_mode :: "mcp_mode option"
  mi_serverName :: "string option"
  mi_serverVersion :: "string option"
  mi_toolPrefix :: "string option"
  mi_credentialToken :: string
  mi_requestTimeoutMs :: "int option"

definition McpServerConfigSchema :: "mcp_config_input \<Rightarrow> mcp_config option" where
  "McpServerConfigSchema c =
     (if 0 < nullish (mi_requestTimeoutMs c) 30000
      then Some \<lparr>mf_mode = nullish (mi_mode c) MM_stdio, mf_serverName = nullish (mi_serverName c) ''xmtp-signet'',
             mf_serverVersion = nullish (mi_serverVersion c) ''0.1.0'', mf_toolPrefix = nullish (mi_toolPrefix c) ''signet'',
             mf_credentialToken = mi_credentialToken c, mf_requestTimeoutMs = nullish (mi_requestTimeoutMs c) 30000\<rparr>
      else None)"

record mcp_tool =
  mt_name :: string
  mt_description :: string
  mt_inputSchema :: js_value
  mt_annotations :: "(string, js_value) js_map"

definition actionSpecToMcpTool :: "(object_schema \<Rightarrow> js_value) \<Rightarrow> spec \<Rightarrow> mcp_tool option" where
  "actionSpecToMcpTool jsonSchema sp =
     (if as_mcp sp = None then None
      else Some \<lparr>mt_name = deriveMcpToolName sp ''signet'', mt_description = nullish (as_description sp) (as_id sp),
             mt_inputSchema = jsonSchema (as_handler sp), mt_annotations = deriveMcpAnnotations sp\<rparr>)"

record mcp_response =
  mr_text :: string
  mr_isError :: bool

record mcp_env =
  me_iso :: "int \<Rightarrow> string"
  me_print :: "js_value \<Rightarrow> string"
  me_jsonSchema :: "object_schema \<Rightarrow> js_value"
  me_config :: mcp_config
  me_registry :: "object_schema registry"

definition formatActionResult :: "mcp_env \<Rightarrow> js_value action_result \<Rightarrow> mcp_response" where
  "formatActionResult en r =
     \<lparr>mr_text = me_print en (action_result_js (\<lambda>v. v) r),
      mr_isError = (case r of AR_ok _ _ _ \<Rightarrow> False | AR_err _ _ \<Rightarrow> True)\<rparr>"

definition mcp_failure :: "mcp_env \<Rightarrow> string \<Rightarrow> int \<Rightarrow> int \<Rightarrow> signet_error \<Rightarrow> mcp_response" where
  "mcp_failure en requestId start now e =
     formatActionResult en (toActionResult (Err e) (makeMeta (me_iso en) requestId start now) None)"

subsection \<open>The credential\<close>

definition checkLookup :: "(runtime_credential, signet_error) result \<Rightarrow> (runtime_credential, signet_error) result" where
  "checkLookup found =
     (case found of Ok c \<Rightarrow> Ok c | Err _ \<Rightarrow> Err (AuthError_create ''Invalid credential token'' None))"

definition credential_liveness ::
  "runtime_credential \<Rightarrow> (runtime_credential, signet_error) result \<Rightarrow> int \<Rightarrow> (unit, signet_error) result" where
  "credential_liveness credential found now =
     (let about = Some [(''credentialId'', VStr (rc_credentialId credential))]
      in case found of
           Err _ \<Rightarrow> Err (AuthError_create ''Credential check failed'' about)
         | Ok c \<Rightarrow>
             if cr_status (rc_record c) \<noteq> CS_active
             then Err (AuthError_create (''Credential is '' @ credential_status_text (cr_status (rc_record c))) about)
             else if cr_expiresAt (rc_record c) \<le> now then Err (AuthError_create ''Credential expired'' about)
             else Ok ())"

subsection \<open>Calls\<close>

datatype mcp_state = MS_idle | MS_running | MS_stopping | MS_stopped

record mcp_server =
  ms_state :: mcp_state
  ms_cached :: "runtime_credential option"
  ms_tools :: "mcp_tool list"

definition createMcpServer :: mcp_server where
  "createMcpServer = \<lparr>ms_state = MS_idle, ms_cached = None, ms_tools = []\<rparr>"

text \<open>What a request of the server ends with: the result of starting or stopping, the answer to a
  tool call, or a rejected promise.\<close>

datatype mcp_reply =
    MR_lifecycle "(unit, signet_error) result"
  | MR_call mcp_response
  | MR_rejected

type_synonym mcp_kont = "(mcp_server, mcp_reply) gate_kont"

definition findSpecByToolName :: "string \<Rightarrow> object_schema registry \<Rightarrow> spec option" where
  "findSpecByToolName toolName reg =
     List.find (\<lambda>sp. deriveMcpToolName sp ''signet'' = toolName) (listForSurface reg Sf_mcp)"

definition mcp_context :: "string \<Rightarrow> runtime_credential \<Rightarrow> handler_context" where
  "mcp_context requestId credential =
     \<lparr>hc_requestId = requestId, hc_adminAuth = None, hc_operatorId = None,
      hc_credentialId = Some (rc_credentialId credential), hc_elevation = None\<rparr>"

definition validation_failure :: "zod_issue list \<Rightarrow> signet_error" where
  "validation_failure issues =
     ValidationError_create
       (case issues of [] \<Rightarrow> ''unknown'' | i # _ \<Rightarrow> join_with ''.'' (zi_path i))
       (case issues of [] \<Rightarrow> ''Validation failed'' | i # _ \<Rightarrow> zi_message i)
       [(''issues'', VArr (map zi_js issues))]"

text \<open>Only the message of an error is told, not the text of another thrown value.\<close>

fun internal_failure :: "thrown \<Rightarrow> signet_error" where
  "internal_failure (Th_error m) = handler_threw m"
| "internal_failure (Th_other t) = handler_threw ''Unknown error''"

definition handleCallTool :: "mcp_env \<Rightarrow> string \<Rightarrow> param_map \<Rightarrow> runtime_credential \<Rightarrow> mcp_kont" where
  "handleCallTool en toolName args credential mo s =
     (let start = mo_now mo
      in case findSpecByToolName toolName (me_registry en) of
        None \<Rightarrow> (Respond (MR_call (mcp_failure en ''unknown'' start (mo_now mo) (NotFoundError_create ''tool'' toolName))), s)
      | Some sp \<Rightarrow>
          (case safeParse (as_handler sp) (VObj args) of
             Err issues \<Rightarrow> (Respond (MR_call (mcp_failure en ''unknown'' start (mo_now mo) (validation_failure issues))), s)
           | Ok data \<Rightarrow>
               (Run sp data (mcp_context (mo_uuid mo) credential) (\<lambda>out mo1. reply (MR_call
                  (case out of
                     Returned r \<Rightarrow> formatActionResult en
                       (toActionResult r (makeMeta (me_iso en) (mo_uuid mo) start (mo_now mo1)) None)
                   | Threw t \<Rightarrow> mcp_failure en (mo_uuid mo) start (mo_now mo1) (internal_failure t))) mo1), s)))"

text \<open>A tool call: the credential the server holds is looked up again; a credential that fails the
  check puts the server into its stopping state. The call itself uses the credential then held, of
  which there always is one.\<close>

definition call_tool :: "mcp_env \<Rightarrow> string \<Rightarrow> param_map \<Rightarrow> mcp_kont" where
  "call_tool en toolName args mo s =
     (case ms_cached s of
        None \<Rightarrow> (Respond (MR_call (mcp_failure en ''unknown'' (mo_now mo) (mo_now mo)
                   (AuthError_create ''No active credential'' None))), s)
      | Some credential \<Rightarrow>
          (Lookup_credential (rc_credentialId credential) (\<lambda>found mo1 s1.
             case credential_liveness credential found (mo_now mo1) of
               Err e \<Rightarrow> (Respond (MR_call (mcp_failure en ''unknown'' (mo_now mo) (mo_now mo1) e)),
                   s1\<lparr>ms_state := MS_stopping\<rparr>)
             | Ok _ \<Rightarrow>
                 (case ms_cached s1 of
                    None \<Rightarrow> (Respond MR_rejected, s1)
                  | Some current \<Rightarrow> handleCallTool en toolName args current mo1 s1)), s))"

subsection \<open>Starting and stopping\<close>

definition mcp_start :: "mcp_env \<Rightarrow> mcp_kont" where
  "mcp_start en mo s =
     (Lookup_token (mf_credentialToken (me_config en)) (\<lambda>found mo1 s1.
        case checkLookup found of
          Err _ \<Rightarrow> (Respond (MR_lifecycle (Err (AuthError_create ''Invalid credential token at startup'' None))), s1)
        | Ok credential \<Rightarrow>
            let s2 = s1\<lparr>ms_cached := Some credential,
                       ms_tools := ms_tools s1 @ List.map_filter (actionSpecToMcpTool (me_jsonSchema en))
                          (listForSurface (me_registry en) Sf_mcp)\<rparr>
            in if mf_mode (me_config en) = MM_stdio
               then (Other (\<lambda>connected mo2 s3.
                       case connected of
                         None \<Rightarrow> (Respond MR_rejected, s3)
                       | Some _ \<Rightarrow> (Respond (MR_lifecycle (Ok ())), s3\<lparr>ms_state := MS_running\<rparr>)), s2)
               else (Respond (MR_lifecycle (Err (InternalError_create
                      ''Embedded mode is not yet supported: no transport available'' None))), s2)), s)"

text \<open>Closing the server is awaited and a failure of it ignored.\<close>

definition mcp_stop :: mcp_kont where
  "mcp_stop mo s =
     (Other (\<lambda>closed mo1 s1. (Respond (MR_lifecycle (Ok ())), s1\<lparr>ms_state := MS_stopped\<rparr>)), s\<lparr>ms_state := MS_stopping\<rparr>)"

definition toolCount :: "mcp_server \<Rightarrow> nat" where
  "toolCount s = length (ms_tools s)"

subsection \<open>Only a live credential is served\<close>

definition mcp_entries :: "object_schema registry \<Rightarrow> string \<Rightarrow> mcp_kont set" where
  "mcp_entries reg token =
     {f. \<exists>en. me_registry en = reg \<and> mf_credentialToken (me_config en) = token \<and>
        (f = mcp_start en \<or> f = mcp_stop \<or> (\<exists>toolName args. f = call_tool en toolName args))}"

definition held_ok :: "string \<Rightarrow> gate_event list \<Rightarrow> mcp_server \<Rightarrow> bool" where
  "held_ok token evs s \<longleftrightarrow> (\<forall>c. ms_cached s = Some c \<longrightarrow> Ev_token token (Ok c) \<in> set evs)"

definition keeps_credential :: "mcp_server \<Rightarrow> mcp_server \<Rightarrow> bool" where
  "keeps_credential s s' \<longleftrightarrow> (ms_cached s \<noteq> None \<longrightarrow> ms_cached s' \<noteq> None)"

definition mcp_rule ::
  "object_schema registry \<Rightarrow> string \<Rightarrow> gate_event list \<Rightarrow> spec \<Rightarrow> param_map \<Rightarrow> handler_context \<Rightarrow> bool" where
  "mcp_rule reg token evs spec params ctx \<longleftrightarrow>
     spec \<in> set (registry_list reg) \<and> as_mcp spec \<noteq> None \<and>
     (\<exists>raw. safeParse (as_handler spec) raw = Ok params) \<and>
     (\<exists>c. Ev_token token (Ok c) \<in> set evs \<and> hc_credentialId ctx = Some (rc_credentialId c)) \<and>
     hc_adminAuth ctx = None \<and> hc_elevation ctx = None \<and>
     (\<exists>held c mo. Ev_token token (Ok held) \<in> set evs \<and>
        Ev_credential (rc_credentialId held) (Ok c) mo \<in> set evs \<and> hc_requestId ctx = mo_uuid mo \<and>
        cr_status (rc_record c) = CS_active \<and> mo_now mo < cr_expiresAt (rc_record c))"

lemma mcp_rule_more: "mcp_rule reg token evs sp ps cx \<Longrightarrow> mcp_rule reg token (evs @ [e]) sp ps cx"
  by (fastforce simp: mcp_rule_def)

lemma held_ok_more: "held_ok token evs s \<Longrightarrow> held_ok token (evs @ [e]) s"
  by (auto simp: held_ok_def)

lemma tool_found:
  assumes "findSpecByToolName toolName reg = Some sp"
  shows "sp \<in> set (registry_list reg) \<and> as_mcp sp \<noteq> None"
proof -
  have "sp \<in> set (listForSurface reg Sf_mcp)"
    using assms by (auto simp: findSpecByToolName_def find_Some_iff in_set_conv_nth)
  then show ?thesis by (auto simp: listForSurface_def registry_list_def split: if_splits)
qed

lemma mcp_start_orderly:
  assumes "mf_credentialToken (me_config en) = token"
  shows "orderly (held_ok token) keeps_credential Q evs (snd (mcp_start en mo s)) (fst (mcp_start en mo s))"
  using assms
  by (auto simp: mcp_start_def checkLookup_def keeps_credential_def Let_def split: result.splits option.split)
    (auto simp: held_ok_def)

lemma mcp_stop_orderly: "orderly (held_ok token) keeps_credential Q evs (snd (mcp_stop mo s)) (fst (mcp_stop mo s))"
  by (auto simp: mcp_stop_def keeps_credential_def) (auto simp: held_ok_def)

lemma call_tool_orderly:
  assumes "me_registry en = reg" "held_ok token evs s"
  shows "orderly (held_ok token) keeps_credential (mcp_rule reg token) evs (snd (call_tool en toolName args mo s))
    (fst (call_tool en toolName args mo s))"
proof (cases "ms_cached s")
  case None
  then show ?thesis by (simp add: call_tool_def)
next
  case (Some held)
  have rule: "mcp_rule reg token evs' sp data (mcp_context (mo_uuid mo1) current)"
    if h: "prefix evs evs'" "held_ok token evs' s1" "ms_cached s1 = Some current"
      "credential_liveness held found (mo_now mo1) = Ok u" "Ev_credential (rc_credentialId held) found mo1 \<in> set evs'"
      "findSpecByToolName toolName reg = Some sp" "safeParse (as_handler sp) (VObj args) = Ok data"
    for evs' sp data mo1 current s1 found u
  proof -
    obtain c where c: "found = Ok c" "cr_status (rc_record c) = CS_active" "mo_now mo1 < cr_expiresAt (rc_record c)"
      using h(4) by (auto simp: credential_liveness_def Let_def split: result.splits if_splits)
    moreover have "Ev_token token (Ok held) \<in> set evs'"
      using assms(2) Some h(1) by (auto simp: held_ok_def dest: set_mono_prefix)
    moreover have "Ev_token token (Ok current) \<in> set evs'" using h(2,3) by (simp add: held_ok_def)
    ultimately show ?thesis using tool_found [OF h(6)] h(5,7)
      unfolding mcp_rule_def mcp_context_def by fastforce
  qed
  have held: "held_ok token evs' (s1\<lparr>ms_state := MS_stopping\<rparr>) \<longleftrightarrow> held_ok token evs' s1" for evs' s1
    by (simp add: held_ok_def)
  show ?thesis using Some assms(1)
    by (simp add: call_tool_def handleCallTool_def reply_def keeps_credential_def held Let_def
        split: result.split option.split)
      (intro allI impI, rule rule, simp, assumption, assumption, assumption, simp, assumption, simp)
qed

lemma mcp_entry_orderly:
  assumes "f \<in> mcp_entries reg token" "held_ok token evs s"
  shows "orderly (held_ok token) keeps_credential (mcp_rule reg token) evs (snd (f mo s)) (fst (f mo s)) \<and>
    keeps_credential s (snd (f mo s)) \<and> held_ok token evs (snd (f mo s))"
proof -
  have same: "ms_cached (snd (f mo s)) = ms_cached s"
    using assms(1) by (auto simp: mcp_entries_def mcp_start_def mcp_stop_def call_tool_def split: option.split)
  obtain en where en: "me_registry en = reg" "mf_credentialToken (me_config en) = token"
    "f = mcp_start en \<or> f = mcp_stop \<or> (\<exists>toolName args. f = call_tool en toolName args)"
    using assms(1) unfolding mcp_entries_def by blast
  from en(3) have "orderly (held_ok token) keeps_credential (mcp_rule reg token) evs (snd (f mo s)) (fst (f mo s))"
    by (elim disjE exE)
      (simp_all only: mcp_start_orderly [OF en(2)] mcp_stop_orderly call_tool_orderly [OF en(1) assms(2)])
  then show ?thesis using same assms(2) by (simp add: keeps_credential_def held_ok_def)
qed

interpretation mcp: gate_rules "mcp_entries reg token" createMcpServer "held_ok token" keeps_credential "mcp_rule reg token"
proof unfold_locales
  show "held_ok token [] createMcpServer" by (simp add: held_ok_def createMcpServer_def)
  show "held_ok token (evs @ [e]) s" if "held_ok token evs s" for evs s e using that by (rule held_ok_more)
  show "mcp_rule reg token (evs @ [e]) sp ps cx" if "mcp_rule reg token evs sp ps cx" for evs sp ps cx e
    using that by (rule mcp_rule_more)
qed (auto simp: keeps_credential_def dest: mcp_entry_orderly)

text \<open>C34: However starts, stops and tool calls of the server interleave, a handler runs only for a
  registered tool, on parameters its schema accepted, as the holder of a credential that was found
  for the server's token and never as an administrator or under an elevation; and for this very
  call a credential found for that token was looked up again and was active and not expired. While
  the token names one and the same credential, that credential is both the one checked and the one
  the handler runs as.\<close>

theorem mcp_calls_live:
  assumes "gate_reachable (mcp_entries reg token) createMcpServer sy"
    and "gs_log sy = pre @ Ev_run spec params ctx # post"
  shows "spec \<in> set (registry_list reg) \<and> as_mcp spec \<noteq> None \<and>
    (\<exists>raw. safeParse (as_handler spec) raw = Ok params) \<and>
    (\<exists>c. Ev_token token (Ok c) \<in> set pre \<and> hc_credentialId ctx = Some (rc_credentialId c)) \<and>
    hc_adminAuth ctx = None \<and> hc_elevation ctx = None \<and>
    (\<exists>held c mo. Ev_token token (Ok held) \<in> set pre \<and>
       Ev_credential (rc_credentialId held) (Ok c) mo \<in> set pre \<and> hc_requestId ctx = mo_uuid mo \<and>
       cr_status (rc_record c) = CS_active \<and> mo_now mo < cr_expiresAt (rc_record c)) \<and>
    (\<forall>k. (\<forall>c. Ev_token token (Ok c) \<in> set pre \<longrightarrow> rc_credentialId c = k) \<longrightarrow>
       hc_credentialId ctx = Some k \<and>
       (\<exists>c mo. Ev_credential k (Ok c) mo \<in> set pre \<and> hc_requestId ctx = mo_uuid mo \<and>
          cr_status (rc_record c) = CS_active \<and> mo_now mo < cr_expiresAt (rc_record c)))"
proof -
  have rule: "mcp_rule reg token pre spec params ctx" by (rule mcp.called_under [OF assms])
  then have "hc_credentialId ctx = Some k \<and>
      (\<exists>c mo. Ev_credential k (Ok c) mo \<in> set pre \<and> hc_requestId ctx = mo_uuid mo \<and>
         cr_status (rc_record c) = CS_active \<and> mo_now mo < cr_expiresAt (rc_record c))"
    if "\<forall>c. Ev_token token (Ok c) \<in> set pre \<longrightarrow> rc_credentialId c = k" for k
    using that unfolding mcp_rule_def by metis
  with rule show ?thesis unfolding mcp_rule_def by blast
qed

subsection \<open>Samples\<close>

definition sample_credential :: runtime_credential where
  "sample_credential =
     \<lparr>rc_record = \<lparr>cr_id = ''cred_1'',
        cr_config = \<lparr>cc_operatorId = ''op_1'', cc_chatIds = [''c1''], cc_policyId = None,
          cc_allow = Some [Sc_read_messages], cc_deny = Some [], cc_ttlSeconds = None\<rparr>,
        cr_inboxIds = [], cr_status = CS_active, cr_issuedAt = 0, cr_expiresAt = 100, cr_issuedBy = ''owner''\<rparr>,
      rc_credentialId = ''cred_1'', rc_operatorId = ''op_1'',
      rc_effectiveScopes = \<lparr>allow = [Sc_read_messages], deny = []\<rparr>, rc_isExpired = False, rc_lastHeartbeat = 0\<rparr>"

definition sample_mcp_env :: mcp_env where
  "sample_mcp_env = \<lparr>me_iso = (\<lambda>_. []), me_print = (\<lambda>_. []), me_jsonSchema = (\<lambda>_. VNull),
     me_config = \<lparr>mf_mode = MM_stdio, mf_serverName = ''s'', mf_serverVersion = ''1'', mf_toolPrefix = ''p'',
       mf_credentialToken = ''t'', mf_requestTimeoutMs = 30000\<rparr>, me_registry = sample_registry\<rparr>"

definition started_mcp :: "(mcp_server, mcp_reply) gate_system option" where
  "started_mcp = gate_play sample_moment [(0, A_found (Ok sample_credential)), (0, A_other (Some VNull))]
     (gate_begin (mcp_start sample_mcp_env) sample_moment (gate_start createMcpServer))"

definition sample_mcp_run :: "(mcp_server, mcp_reply) gate_system option" where
  "sample_mcp_run = Option.bind started_mcp (\<lambda>sy. gate_play sample_moment [(1, A_found (Ok sample_credential))]
     (gate_begin (call_tool sample_mcp_env ''message_list'' [(''chatId'', VStr ''c1'')]) sample_moment sy))"

lemma sample_mcp_called:
  "case sample_mcp_run of None \<Rightarrow> False
   | Some sy \<Rightarrow> (case last_call (gs_log sy) of
       Some (spec, params, ctx) \<Rightarrow> as_id spec = ''message.list'' \<and> params = [(''chatId'', VStr ''c1'')]
     | None \<Rightarrow> False) \<and>
     list_all (\<lambda>e. case e of Ev_token t (Ok c) \<Rightarrow> rc_credentialId c = ''cred_1'' | _ \<Rightarrow> True) (gs_log sy)"
  by code_simp

lemma sample_mcp_reachable:
  assumes "sample_mcp_run = Some sy"
  shows "gate_reachable (mcp_entries sample_registry ''t'') createMcpServer sy"
proof -
  have "me_registry sample_mcp_env = sample_registry" "mf_credentialToken (me_config sample_mcp_env) = ''t''"
    by (simp_all add: sample_mcp_env_def)
  then have en: "mcp_start sample_mcp_env \<in> mcp_entries sample_registry ''t''"
      "call_tool sample_mcp_env n a \<in> mcp_entries sample_registry ''t''" for n a
    unfolding mcp_entries_def by blast+
  obtain sy1 where sy1: "started_mcp = Some sy1"
    and sy2: "gate_play sample_moment [(1, A_found (Ok sample_credential))]
     (gate_begin (call_tool sample_mcp_env ''message_list'' [(''chatId'', VStr ''c1'')]) sample_moment sy1) = Some sy"
    using assms unfolding sample_mcp_run_def bind_eq_Some_conv by blast
  have "gate_reachable (mcp_entries sample_registry ''t'') createMcpServer sy1"
    by (rule gate_play_reachable [OF gate_reachable.begins [OF gate_start_reachable en(1)] sy1 [unfolded started_mcp_def]])
  then show ?thesis by (rule gate_play_reachable [OF gate_reachable.begins [OF _ en(2)] sy2])
qed

theorem mcp_calls_live_witness:
  "\<exists>spec params (ctx :: handler_context). as_id spec = ''message.list'' \<and> params = [(''chatId'', VStr ''c1'')] \<and>
     spec \<in> set (registry_list sample_registry) \<and> hc_credentialId ctx = Some ''cred_1''"
proof -
  obtain sy spec params ctx where sy: "sample_mcp_run = Some sy" "last_call (gs_log sy) = Some (spec, params, ctx)"
      "as_id spec = ''message.list''" "params = [(''chatId'', VStr ''c1'')]"
      "list_all (\<lambda>e. case e of Ev_token t (Ok c) \<Rightarrow> rc_credentialId c = ''cred_1'' | _ \<Rightarrow> True) (gs_log sy)"
    using sample_mcp_called by (auto split: option.splits)
  obtain pre where pre: "gs_log sy = pre @ Ev_run spec params ctx # []" using last_call_split [OF sy(2)] by blast
  have one: "\<forall>c. Ev_token ''t'' (Ok c) \<in> set pre \<longrightarrow> rc_credentialId c = ''cred_1''"
    using sy(5) by (fastforce simp: pre list_all_iff)
  note called = mcp_calls_live [OF sample_mcp_reachable [OF sy(1)] pre]
  show ?thesis using sy(3,4) called one by blast
qed

text \<open>A server that was stopped, or whose credential failed the check, still serves the calls it gets,
  and the tool prefix of the configuration is not used.\<close>

lemma stopped_server_serves:
  "case Option.bind started_mcp (\<lambda>sy. gate_play sample_moment [(1, A_other None), (2, A_found (Ok sample_credential))]
     (gate_begin (call_tool sample_mcp_env ''message_list'' []) sample_moment
       (gate_begin mcp_stop sample_moment sy))) of
     None \<Rightarrow> False
   | Some sy \<Rightarrow> ms_state (gs_state sy) = MS_stopped \<and> last_call (gs_log sy) \<noteq> None"
  by code_simp

end
