(* ===== verification/XmtpClient.thy ===== *)
theory XmtpClient
  imports IdentityStore
begin

text \<open>
  The client interface of the messaging network (\<^verbatim>\<open>packages/core/src/xmtp-client-factory.ts\<close>). A client is
  a record of functions that answer a call from what was called before; every call is logged with
  the identity whose client made it, so that a theorem can say what an action asked the network.
\<close>

record xmtp_group =
  xg_groupId :: string
  xg_name :: string
  xg_description :: string
  xg_imageUrl :: "string option"
  xg_memberInboxIds :: "string list"
  xg_createdAt :: string

record xmtp_message =
  xm_messageId :: string
  xm_groupId :: string
  xm_senderInboxId :: string
  xm_contentType :: string
  xm_content :: js_value
  xm_sentAt :: string
  xm_threadId :: "string option"

record xmtp_dm =
  xd_dmId :: string
  xd_peerInboxId :: string

datatype list_direction = LD_ascending | LD_descending

record list_options =
  lo_limit :: "rat option"
  lo_before :: "string option"
  lo_after :: "string option"
  lo_direction :: "list_direction option"

record metadata_changes =
  mx_name :: "string option"
  mx_description :: "string option"
  mx_imageUrl :: "string option"

datatype consent_entity = CE_inbox_id | CE_group_id
datatype consent_state = CS_unknown | CS_allowed | CS_denied

datatype client_call =
    X_sendMessage string js_value "string option"
  | X_getMessageById string
  | X_listMessages string list_options
  | X_syncAll
  | X_listGroups
  | X_getGroupInfo string
  | X_createGroup "string list" "string option"
  | X_createDm string
  | X_sendDmMessage string string
  | X_addMembers string "string list"
  | X_removeMembers string "string list"
  | X_updateGroupMetadata string metadata_changes
  | X_leaveGroup string
  | X_addAdmin string string
  | X_removeAdmin string string
  | X_getConsentState consent_entity string
  | X_setConsentState consent_entity string consent_state

type_synonym call_log = "(string \<times> client_call) list"
type_synonym 'a answer = "('a, signet_error) result"

record xmtp_client =
  xc_sendMessage :: "call_log \<Rightarrow> string \<Rightarrow> js_value \<Rightarrow> string option \<Rightarrow> string answer"
  xc_getMessageById :: "call_log \<Rightarrow> string \<Rightarrow> xmtp_message option answer"
  xc_listMessages :: "call_log \<Rightarrow> string \<Rightarrow> list_options \<Rightarrow> xmtp_message list answer"
  xc_syncAll :: "call_log \<Rightarrow> unit answer"
  xc_listGroups :: "call_log \<Rightarrow> xmtp_group list answer"
  xc_getGroupInfo :: "call_log \<Rightarrow> string \<Rightarrow> xmtp_group answer"
  xc_createGroup :: "call_log \<Rightarrow> string list \<Rightarrow> string option \<Rightarrow> xmtp_group answer"
  xc_createDm :: "call_log \<Rightarrow> string \<Rightarrow> xmtp_dm answer"
  xc_sendDmMessage :: "call_log \<Rightarrow> string \<Rightarrow> string \<Rightarrow> string answer"
  xc_addMembers :: "call_log \<Rightarrow> string \<Rightarrow> string list \<Rightarrow> unit answer"
  xc_removeMembers :: "call_log \<Rightarrow> string \<Rightarrow> string list \<Rightarrow> unit answer"
  xc_updateGroupMetadata :: "call_log \<Rightarrow> string \<Rightarrow> metadata_changes \<Rightarrow> xmtp_group answer"
  xc_leaveGroup :: "call_log \<Rightarrow> string \<Rightarrow> unit answer"
  xc_addAdmin :: "call_log \<Rightarrow> string \<Rightarrow> string \<Rightarrow> unit answer"
  xc_removeAdmin :: "call_log \<Rightarrow> string \<Rightarrow> string \<Rightarrow> unit answer"
  xc_getConsentState :: "call_log \<Rightarrow> consent_entity \<Rightarrow> string \<Rightarrow> consent_state answer"
  xc_setConsentState :: "call_log \<Rightarrow> consent_entity \<Rightarrow> string \<Rightarrow> consent_state \<Rightarrow> unit answer"

type_synonym managed = "xmtp_client managed_client"

text \<open>A call: its answer and the longer log.\<close>

definition client_ask ::
  "managed \<Rightarrow> client_call \<Rightarrow> (xmtp_client \<Rightarrow> call_log \<Rightarrow> 'a answer) \<Rightarrow> call_log \<Rightarrow> 'a answer \<times> call_log" where
  "client_ask m call f lg = (f (mc_client m) lg, lg @ [(mc_identityId m, call)])"

definition client_sendMessage :: "managed \<Rightarrow> string \<Rightarrow> js_value \<Rightarrow> string option \<Rightarrow> call_log \<Rightarrow> string answer \<times> call_log" where
  "client_sendMessage m g v t = client_ask m (X_sendMessage g v t) (\<lambda>c lg. xc_sendMessage c lg g v t)"

definition client_getMessageById :: "managed \<Rightarrow> string \<Rightarrow> call_log \<Rightarrow> xmtp_message option answer \<times> call_log" where
  "client_getMessageById m i = client_ask m (X_getMessageById i) (\<lambda>c lg. xc_getMessageById c lg i)"

definition client_listMessages :: "managed \<Rightarrow> string \<Rightarrow> list_options \<Rightarrow> call_log \<Rightarrow> xmtp_message list answer \<times> call_log" where
  "client_listMessages m g opts = client_ask m (X_listMessages g opts) (\<lambda>c lg. xc_listMessages c lg g opts)"

definition client_listGroups :: "managed \<Rightarrow> call_log \<Rightarrow> xmtp_group list answer \<times> call_log" where
  "client_listGroups m = client_ask m X_listGroups xc_listGroups"

definition client_syncAll :: "managed \<Rightarrow> call_log \<Rightarrow> unit answer \<times> call_log" where
  "client_syncAll m = client_ask m X_syncAll xc_syncAll"

definition client_getGroupInfo :: "managed \<Rightarrow> string \<Rightarrow> call_log \<Rightarrow> xmtp_group answer \<times> call_log" where
  "client_getGroupInfo m g = client_ask m (X_getGroupInfo g) (\<lambda>c lg. xc_getGroupInfo c lg g)"

definition client_createGroup :: "managed \<Rightarrow> string list \<Rightarrow> string option \<Rightarrow> call_log \<Rightarrow> xmtp_group answer \<times> call_log" where
  "client_createGroup m ids name = client_ask m (X_createGroup ids name) (\<lambda>c lg. xc_createGroup c lg ids name)"

definition client_createDm :: "managed \<Rightarrow> string \<Rightarrow> call_log \<Rightarrow> xmtp_dm answer \<times> call_log" where
  "client_createDm m peer = client_ask m (X_createDm peer) (\<lambda>c lg. xc_createDm c lg peer)"

definition client_sendDmMessage :: "managed \<Rightarrow> string \<Rightarrow> string \<Rightarrow> call_log \<Rightarrow> string answer \<times> call_log" where
  "client_sendDmMessage m dm body = client_ask m (X_sendDmMessage dm body) (\<lambda>c lg. xc_sendDmMessage c lg dm body)"

definition client_addMembers :: "managed \<Rightarrow> string \<Rightarrow> string list \<Rightarrow> call_log \<Rightarrow> unit answer \<times> call_log" where
  "client_addMembers m g ids = client_ask m (X_addMembers g ids) (\<lambda>c lg. xc_addMembers c lg g ids)"

definition client_removeMembers :: "managed \<Rightarrow> string \<Rightarrow> string list \<Rightarrow> call_log \<Rightarrow> unit answer \<times> call_log" where
  "client_removeMembers m g ids = client_ask m (X_removeMembers g ids) (\<lambda>c lg. xc_removeMembers c lg g ids)"

definition client_updateGroupMetadata :: "managed \<Rightarrow> string \<Rightarrow> metadata_changes \<Rightarrow> call_log \<Rightarrow> xmtp_group answer \<times> call_log" where
  "client_updateGroupMetadata m g ch = client_ask m (X_updateGroupMetadata g ch) (\<lambda>c lg. xc_updateGroupMetadata c lg g ch)"

definition client_leaveGroup :: "managed \<Rightarrow> string \<Rightarrow> call_log \<Rightarrow> unit answer \<times> call_log" where
  "client_leaveGroup m g = client_ask m (X_leaveGroup g) (\<lambda>c lg. xc_leaveGroup c lg g)"

definition client_addAdmin :: "managed \<Rightarrow> string \<Rightarrow> string \<Rightarrow> call_log \<Rightarrow> unit answer \<times> call_log" where
  "client_addAdmin m g i = client_ask m (X_addAdmin g i) (\<lambda>c lg. xc_addAdmin c lg g i)"

definition client_removeAdmin :: "managed \<Rightarrow> string \<Rightarrow> string \<Rightarrow> call_log \<Rightarrow> unit answer \<times> call_log" where
  "client_removeAdmin m g i = client_ask m (X_removeAdmin g i) (\<lambda>c lg. xc_removeAdmin c lg g i)"

text \<open>The steps every action begins with: the identity that acts and its running client.\<close>

definition acting_client ::
  "identity_store \<Rightarrow> xmtp_client client_registry \<Rightarrow> string option \<Rightarrow> managed answer" where
  "acting_client ids clients label =
     (case resolveIdentitySelector ids label of
        Err e \<Rightarrow> Err e
      | Ok r \<Rightarrow>
          (case registry_get clients (ri_identityId r) of
             None \<Rightarrow> Err (NotFoundError_create ''managed-client'' (ri_identityId r))
           | Some m \<Rightarrow> Ok m))"

lemma client_ask_log [simp]: "snd (client_ask m call f lg) = lg @ [(mc_identityId m, call)]"
  "fst (client_ask m call f lg) = f (mc_client m) lg"
  by (simp_all add: client_ask_def)

end
