(* ===== verification/MessageAccess.thy ===== *)
theory MessageAccess
  imports XmtpClient Gateway
begin

text \<open>
  Actions on messages (\<^verbatim>\<open>packages/core/src/message-actions.ts\<close>) and the search for messages and resources
  (\<^verbatim>\<open>packages/core/src/search-actions.ts\<close>), with the authorization of reads. The credential lookup is a parameter;
  the clock is an argument. An identifier in the context counts only when it is not empty.
\<close>

record action_deps =
  ad_identities :: identity_store
  ad_clients :: "xmtp_client client_registry"
  ad_idMappings :: "id_mappings option"
  ad_credentialLookup :: "(string \<Rightarrow> credential_record answer) option"

definition present :: "string option \<Rightarrow> bool" where
  "present v \<longleftrightarrow> v \<noteq> None \<and> v \<noteq> Some []"

definition resolveMessageId :: "id_mappings option \<Rightarrow> string \<Rightarrow> string" where
  "resolveMessageId idMappings messageId =
     (case idMappings of None \<Rightarrow> messageId | Some m \<Rightarrow> nullish (getNetwork m messageId) messageId)"

subsection \<open>Authorization\<close>

definition resolveEffectiveScopes :: "credential_config \<Rightarrow> permission_scope list" where
  "resolveEffectiveScopes config =
     (case cc_deny config of
        None \<Rightarrow> set_of (nullish (cc_allow config) [])
      | Some denied \<Rightarrow> foldl (\<lambda>allowed s. filter (\<lambda>x. x \<noteq> s) allowed) (set_of (nullish (cc_allow config) [])) denied)"

definition authorizeAdminReadElevation ::
  "(int \<Rightarrow> string) \<Rightarrow> int \<Rightarrow> elevation \<Rightarrow> string \<Rightarrow> id_mappings option \<Rightarrow> signet_error option" where
  "authorizeAdminReadElevation iso_text now e chatId idMappings =
     (if ae_expiresAt e \<le> now
      then Some (PermissionError_create ''Admin read elevation has expired''
             (Some [(''approvalId'', VStr (ae_approvalId e)), (''expiresAt'', VStr (iso_text (ae_expiresAt e)))]))
      else if resolveGroupId idMappings chatId \<notin> set (map (resolveGroupId idMappings) (ae_chatIds e))
      then Some (PermissionError_create ''Admin read elevation does not cover this conversation''
             (Some [(''approvalId'', VStr (ae_approvalId e)), (''chatId'', VStr chatId)]))
      else None)"

definition authorizeAdminReadAccess ::
  "(int \<Rightarrow> string) \<Rightarrow> int \<Rightarrow> handler_context \<Rightarrow> string \<Rightarrow> id_mappings option \<Rightarrow> signet_error option" where
  "authorizeAdminReadAccess iso_text now ctx chatId idMappings =
     (if present (hc_credentialId ctx) then None
      else case hc_elevation ctx of
        Some e \<Rightarrow> authorizeAdminReadElevation iso_text now e chatId idMappings
      | None \<Rightarrow>
          if hc_adminAuth ctx \<noteq> None
          then Some (PermissionError_create ''Admin message reads require owner-approved elevation''
                 (Some [(''chatId'', VStr chatId), (''hint'', VStr ''--dangerously-allow-message-read'')]))
          else None)"

definition authorizeAdminSearchAccess ::
  "(int \<Rightarrow> string) \<Rightarrow> int \<Rightarrow> handler_context \<Rightarrow> string option \<Rightarrow> id_mappings option \<Rightarrow> signet_error option" where
  "authorizeAdminSearchAccess iso_text now ctx chatId idMappings =
     (if present (hc_credentialId ctx) then None
      else if hc_adminAuth ctx = None \<and> hc_elevation ctx = None then None
      else if \<not> present chatId
      then Some (PermissionError_create ''Admin message search requires a specific conversation''
             (Some [(''hint'', VStr ''--chat'')]))
      else case hc_elevation ctx of
        Some e \<Rightarrow> authorizeAdminReadElevation iso_text now e (the chatId) idMappings
      | None \<Rightarrow> Some (PermissionError_create ''Admin message search requires owner-approved elevation''
             (Some [(''chatId'', VStr (the chatId)), (''hint'', VStr ''--dangerously-allow-message-read'')])))"

text \<open>The checks on a credential, in the order of the code; a failure of any of them is answered in the
  same way.\<close>

definition credential_may_read :: "action_deps \<Rightarrow> string \<Rightarrow> string \<Rightarrow> bool" where
  "credential_may_read deps credentialId chatId \<longleftrightarrow>
     (case ad_credentialLookup deps of
        None \<Rightarrow> False
      | Some lookup \<Rightarrow>
          (case lookup credentialId of
             Err _ \<Rightarrow> False
           | Ok credential \<Rightarrow>
               resolveGroupId (ad_idMappings deps) chatId \<in>
                 set (map (resolveGroupId (ad_idMappings deps)) (cc_chatIds (cr_config credential))) \<and>
               Sc_read_messages \<in> set (resolveEffectiveScopes (cr_config credential))))"

definition denied_as_credential :: "action_deps \<Rightarrow> handler_context \<Rightarrow> string \<Rightarrow> bool" where
  "denied_as_credential deps ctx chatId \<longleftrightarrow>
     present (hc_credentialId ctx) \<and> \<not> credential_may_read deps (the (hc_credentialId ctx)) chatId"

subsection \<open>Reading messages\<close>

record list_input =
  ml_chatId :: string
  ml_options :: list_options
  ml_label :: "string option"

definition message_list ::
  "(int \<Rightarrow> string) \<Rightarrow> action_deps \<Rightarrow> int \<Rightarrow> list_input \<Rightarrow> handler_context \<Rightarrow> call_log \<Rightarrow>
   (string \<times> xmtp_message list) answer \<times> call_log" where
  "message_list iso_text deps now inp ctx lg =
     (case authorizeAdminReadAccess iso_text now ctx (ml_chatId inp) (ad_idMappings deps) of
        Some e \<Rightarrow> (Err e, lg)
      | None \<Rightarrow>
          if denied_as_credential deps ctx (ml_chatId inp)
          then (Err (NotFoundError_create ''conversation'' (ml_chatId inp)), lg)
          else case acting_client (ad_identities deps) (ad_clients deps) (ml_label inp) of
            Err e \<Rightarrow> (Err e, lg)
          | Ok m \<Rightarrow>
              (case client_listMessages m (resolveGroupId (ad_idMappings deps) (ml_chatId inp)) (ml_options inp) lg of
                 (Err e, log1) \<Rightarrow> (Err e, log1)
               | (Ok msgs, log1) \<Rightarrow> (Ok (ml_chatId inp, msgs), log1)))"

definition message_info ::
  "(int \<Rightarrow> string) \<Rightarrow> action_deps \<Rightarrow> int \<Rightarrow> string \<Rightarrow> string \<Rightarrow> string option \<Rightarrow> handler_context \<Rightarrow> call_log \<Rightarrow>
   xmtp_message answer \<times> call_log" where
  "message_info iso_text deps now chatId messageId label ctx lg =
     (let notFound = Err (NotFoundError_create ''message'' messageId)
      in case authorizeAdminReadAccess iso_text now ctx chatId (ad_idMappings deps) of
        Some e \<Rightarrow> (Err e, lg)
      | None \<Rightarrow>
          if denied_as_credential deps ctx chatId then (notFound, lg)
          else case acting_client (ad_identities deps) (ad_clients deps) label of
            Err e \<Rightarrow> (Err e, lg)
          | Ok m \<Rightarrow>
              (case client_getMessageById m (resolveMessageId (ad_idMappings deps) messageId) lg of
                 (Err e, log1) \<Rightarrow> (Err e, log1)
               | (Ok None, log1) \<Rightarrow> (notFound, log1)
               | (Ok (Some msg), log1) \<Rightarrow>
                   if xm_groupId msg \<noteq> resolveGroupId (ad_idMappings deps) chatId then (notFound, log1)
                   else (Ok msg, log1)))"

subsection \<open>Sending messages\<close>

definition message_send ::
  "action_deps \<Rightarrow> string \<Rightarrow> string \<Rightarrow> string option \<Rightarrow> call_log \<Rightarrow> (string \<times> string) answer \<times> call_log" where
  "message_send deps chatId content label lg =
     (case acting_client (ad_identities deps) (ad_clients deps) label of
        Err e \<Rightarrow> (Err e, lg)
      | Ok m \<Rightarrow>
          (case client_sendMessage m (resolveGroupId (ad_idMappings deps) chatId) (VStr content) None lg of
             (Err e, log1) \<Rightarrow> (Err e, log1)
           | (Ok i, log1) \<Rightarrow> (Ok (i, chatId), log1)))"

text \<open>The message an answer refers to: its identifier and, when the client knows it, its sender; a
  message of another conversation is not found.\<close>

definition resolveMessageReference ::
  "managed \<Rightarrow> id_mappings option \<Rightarrow> string \<Rightarrow> string \<Rightarrow> call_log \<Rightarrow> (string \<times> string option) answer \<times> call_log" where
  "resolveMessageReference m idMappings chatId messageId lg =
     (let resolvedMessageId = resolveMessageId idMappings messageId
      in case client_getMessageById m resolvedMessageId lg of
           (Err e, log1) \<Rightarrow> (Err e, log1)
         | (Ok None, log1) \<Rightarrow> (Ok (resolvedMessageId, None), log1)
         | (Ok (Some msg), log1) \<Rightarrow>
             if xm_groupId msg \<noteq> resolveGroupId idMappings chatId
             then (Err (NotFoundError_create ''message'' messageId), log1)
             else (Ok (xm_messageId msg, Some (xm_senderInboxId msg)), log1))"

definition reference_fields :: "string \<times> string option \<Rightarrow> (string \<times> js_value) list" where
  "reference_fields r =
     (''reference'', VStr (fst r)) #
     (if present (snd r) then [(''referenceInboxId'', VStr (the (snd r)))] else [])"

text \<open>Replies and reactions differ in the content and its type.\<close>

definition send_referring ::
  "action_deps \<Rightarrow> string \<Rightarrow> string \<Rightarrow> (string \<times> string option \<Rightarrow> js_value) \<Rightarrow> string \<Rightarrow> string option \<Rightarrow> call_log \<Rightarrow>
   (string \<times> string \<times> string) answer \<times> call_log" where
  "send_referring deps chatId messageId content ty label lg =
     (case acting_client (ad_identities deps) (ad_clients deps) label of
        Err e \<Rightarrow> (Err e, lg)
      | Ok m \<Rightarrow>
          (case resolveMessageReference m (ad_idMappings deps) chatId messageId lg of
             (Err e, log1) \<Rightarrow> (Err e, log1)
           | (Ok r, log1) \<Rightarrow>
               (case client_sendMessage m (resolveGroupId (ad_idMappings deps) chatId) (content r) (Some ty) log1 of
                  (Err e, log2) \<Rightarrow> (Err e, log2)
                | (Ok i, log2) \<Rightarrow> (Ok (i, chatId, messageId), log2))))"

definition message_reply ::
  "action_deps \<Rightarrow> string \<Rightarrow> string \<Rightarrow> string \<Rightarrow> string option \<Rightarrow> call_log \<Rightarrow>
   (string \<times> string \<times> string) answer \<times> call_log" where
  "message_reply deps chatId messageId answer =
     send_referring deps chatId messageId (\<lambda>r. VObj ((''text'', VStr answer) # reference_fields r)) ''reply''"

definition message_react ::
  "action_deps \<Rightarrow> string \<Rightarrow> string \<Rightarrow> string \<Rightarrow> string option \<Rightarrow> call_log \<Rightarrow>
   (string \<times> string \<times> string) answer \<times> call_log" where
  "message_react deps chatId messageId reaction =
     send_referring deps chatId messageId
       (\<lambda>r. VObj (reference_fields r @
          [(''action'', VStr ''added''), (''content'', VStr reaction), (''schema'', VStr ''unicode'')])) ''reaction''"

definition message_read :: "action_deps \<Rightarrow> string \<Rightarrow> string option \<Rightarrow> call_log \<Rightarrow> string answer \<times> call_log" where
  "message_read deps chatId label lg =
     (case acting_client (ad_identities deps) (ad_clients deps) label of
        Err e \<Rightarrow> (Err e, lg)
      | Ok m \<Rightarrow>
          (case client_sendMessage m (resolveGroupId (ad_idMappings deps) chatId) (VObj []) (Some ''readReceipt'') lg of
             (Err e, log1) \<Rightarrow> (Err e, log1)
           | (Ok _, log1) \<Rightarrow> (Ok chatId, log1)))"

subsection \<open>Searching messages\<close>

record search_input =
  si_query :: string
  si_chatId :: "string option"
  si_limit :: "nat option"
  si_label :: "string option"

record search_hit =
  sh_chatId :: string
  sh_messageId :: string
  sh_senderInboxId :: string
  sh_content :: string
  sh_sentAt :: string

definition DEFAULT_LIMIT :: nat where
  "DEFAULT_LIMIT = 20"

definition search_options :: list_options where
  "search_options = \<lparr>lo_limit = Some 100, lo_before = None, lo_after = None, lo_direction = None\<rparr>"

definition message_matches :: "string \<Rightarrow> xmtp_message \<Rightarrow> bool" where
  "message_matches queryLower msg \<longleftrightarrow>
     (case xm_content msg of VStr s \<Rightarrow> is_infix queryLower (to_lower s) | _ \<Rightarrow> False)"

definition hit_of :: "string \<Rightarrow> xmtp_message \<Rightarrow> search_hit" where
  "hit_of chatId msg = \<lparr>sh_chatId = chatId, sh_messageId = xm_messageId msg,
     sh_senderInboxId = xm_senderInboxId msg,
     sh_content = nullish (as_str (xm_content msg)) [], sh_sentAt = xm_sentAt msg\<rparr>"

text \<open>The loop over the messages of one conversation, which stops at the limit.\<close>

fun collect_hits :: "nat \<Rightarrow> string \<Rightarrow> string \<Rightarrow> search_hit list \<Rightarrow> xmtp_message list \<Rightarrow> search_hit list" where
  "collect_hits maxResults queryLower chatId hits [] = hits"
| "collect_hits maxResults queryLower chatId hits (msg # msgs) =
     (if maxResults \<le> length hits then hits
      else collect_hits maxResults queryLower chatId
        (if message_matches queryLower msg then hits @ [hit_of chatId msg] else hits) msgs)"

text \<open>The loop over all conversations; one whose messages cannot be listed is skipped.\<close>

fun search_groups ::
  "managed \<Rightarrow> id_mappings option \<Rightarrow> string list option \<Rightarrow> nat \<Rightarrow> string \<Rightarrow> search_hit list \<Rightarrow> xmtp_group list \<Rightarrow>
   call_log \<Rightarrow> search_hit list \<times> call_log" where
  "search_groups m idMappings scoped maxResults queryLower hits [] lg = (hits, lg)"
| "search_groups m idMappings scoped maxResults queryLower hits (grp # groups) lg =
     (if maxResults \<le> length hits then (hits, lg)
      else if scoped \<noteq> None \<and> xg_groupId grp \<notin> set (the scoped)
      then search_groups m idMappings scoped maxResults queryLower hits groups lg
      else case client_listMessages m (xg_groupId grp) search_options lg of
        (Err _, log1) \<Rightarrow> search_groups m idMappings scoped maxResults queryLower hits groups log1
      | (Ok msgs, log1) \<Rightarrow>
          let chatId = nullish (Option.bind idMappings (\<lambda>im. getLocal im (xg_groupId grp))) (xg_groupId grp)
          in search_groups m idMappings scoped maxResults queryLower
               (collect_hits maxResults queryLower chatId hits msgs) groups log1)"

text \<open>The conversations a credential may search: \<open>None\<close> when it may search nothing, and no limit
  without a credential.\<close>

definition search_scope :: "action_deps \<Rightarrow> handler_context \<Rightarrow> string list option option" where
  "search_scope deps ctx =
     (if \<not> present (hc_credentialId ctx) then Some None
      else case ad_credentialLookup deps of
        None \<Rightarrow> None
      | Some lookup \<Rightarrow>
          (case lookup (the (hc_credentialId ctx)) of
             Err _ \<Rightarrow> None
           | Ok credential \<Rightarrow>
               if Sc_read_messages \<notin> set (resolveEffectiveScopes (cr_config credential)) then None
               else Some (Some (map (resolveGroupId (ad_idMappings deps)) (cc_chatIds (cr_config credential))))))"

definition search_messages ::
  "(int \<Rightarrow> string) \<Rightarrow> action_deps \<Rightarrow> int \<Rightarrow> search_input \<Rightarrow> handler_context \<Rightarrow> call_log \<Rightarrow>
   search_hit list answer \<times> call_log" where
  "search_messages iso_text deps now inp ctx lg =
     (case authorizeAdminSearchAccess iso_text now ctx (si_chatId inp) (ad_idMappings deps) of
        Some e \<Rightarrow> (Err e, lg)
      | None \<Rightarrow>
          (case search_scope deps ctx of
             None \<Rightarrow> (Ok [], lg)
           | Some scoped \<Rightarrow>
               (case acting_client (ad_identities deps) (ad_clients deps) (si_label inp) of
                  Err e \<Rightarrow> (Err e, lg)
                | Ok m \<Rightarrow>
                    let maxResults = nullish (si_limit inp) DEFAULT_LIMIT;
                        queryLower = to_lower (si_query inp)
                    in if present (si_chatId inp)
                       then let groupId = resolveGroupId (ad_idMappings deps) (the (si_chatId inp))
                         in if scoped \<noteq> None \<and> groupId \<notin> set (the scoped) then (Ok [], lg)
                            else (case client_listMessages m groupId search_options lg of
                                (Err e, log1) \<Rightarrow> (Err e, log1)
                              | (Ok msgs, log1) \<Rightarrow>
                                  (Ok (collect_hits maxResults queryLower (the (si_chatId inp)) [] msgs), log1))
                       else (case client_listGroups m lg of
                           (Err e, log1) \<Rightarrow> (Err e, log1)
                         | (Ok groups, log1) \<Rightarrow>
                             (case search_groups m (ad_idMappings deps) scoped maxResults queryLower [] groups log1 of
                                (hits, log2) \<Rightarrow> (Ok hits, log2))))))"

subsection \<open>What is read\<close>

text \<open>A group that a context may read: one of a credential's chats, for a credential that may read
  messages; one of an elevation's chats, while the elevation lasts; or any group for a caller that is
  neither a credential nor an administrator.\<close>

definition read_allowed :: "action_deps \<Rightarrow> int \<Rightarrow> handler_context \<Rightarrow> string \<Rightarrow> bool" where
  "read_allowed deps now ctx g \<longleftrightarrow>
     (if present (hc_credentialId ctx)
      then (case ad_credentialLookup deps of
              None \<Rightarrow> False
            | Some lookup \<Rightarrow>
                (case lookup (the (hc_credentialId ctx)) of
                   Err _ \<Rightarrow> False
                 | Ok credential \<Rightarrow>
                     g \<in> resolveGroupId (ad_idMappings deps) ` set (cc_chatIds (cr_config credential)) \<and>
                     Sc_read_messages \<in> set (resolveEffectiveScopes (cr_config credential))))
      else case hc_elevation ctx of
        Some e \<Rightarrow> now < ae_expiresAt e \<and> g \<in> resolveGroupId (ad_idMappings deps) ` set (ae_chatIds e)
      | None \<Rightarrow> hc_adminAuth ctx = None)"

lemma read_authorized:
  assumes "authorizeAdminReadAccess iso_text now ctx chatId (ad_idMappings deps) = None"
    and "\<not> denied_as_credential deps ctx chatId"
  shows "read_allowed deps now ctx (resolveGroupId (ad_idMappings deps) chatId)"
  using assms
  by (auto simp: read_allowed_def authorizeAdminReadAccess_def authorizeAdminReadElevation_def denied_as_credential_def
      credential_may_read_def split: if_splits option.splits result.splits)

lemma search_authorized:
  assumes "authorizeAdminSearchAccess iso_text now ctx chatId (ad_idMappings deps) = None"
    and "search_scope deps ctx = Some scoped" "scoped = None \<or> g \<in> set (the scoped)"
    and "present chatId \<Longrightarrow> g = resolveGroupId (ad_idMappings deps) (the chatId)"
  shows "read_allowed deps now ctx g"
  using assms
  by (auto simp: read_allowed_def authorizeAdminSearchAccess_def authorizeAdminReadElevation_def search_scope_def
      split: if_splits option.splits result.splits)

lemma collect_hits_bounded: "length hits \<le> n \<Longrightarrow> length (collect_hits n q c hits msgs) \<le> n"
  by (induction n q c hits msgs rule: collect_hits.induct) auto

definition only_reads :: "(string \<Rightarrow> bool) \<Rightarrow> call_log \<Rightarrow> bool" where
  "only_reads ok calls \<longleftrightarrow>
     list_all (\<lambda>c. case snd c of X_listGroups \<Rightarrow> True | X_listMessages g _ \<Rightarrow> ok g | _ \<Rightarrow> False) calls"

lemma only_reads_simps [simp]: "only_reads ok []"
  "only_reads ok ((i, X_listGroups) # calls) \<longleftrightarrow> only_reads ok calls"
  "only_reads ok ((i, X_listMessages g opts) # calls) \<longleftrightarrow> ok g \<and> only_reads ok calls"
  "only_reads ok (xs @ ys) \<longleftrightarrow> only_reads ok xs \<and> only_reads ok ys"
  by (simp_all add: only_reads_def)

lemma search_groups_reads:
  assumes "\<And>g. scoped = None \<or> g \<in> set (the scoped) \<Longrightarrow> ok g"
  shows "\<exists>calls. snd (search_groups m im scoped n q hits gs lg) = lg @ calls \<and> only_reads ok calls"
proof (induction gs arbitrary: hits lg)
  case (Cons g gs)
  show ?case
  proof (cases "n \<le> length hits \<or> scoped \<noteq> None \<and> xg_groupId g \<notin> set (the scoped)")
    case True
    then show ?thesis using Cons.IH [of hits lg] by auto
  next
    case False
    have ok: "ok (xg_groupId g)" by (rule assms) (use False in simp)
    let ?lg = "lg @ [(mc_identityId m, X_listMessages (xg_groupId g) search_options)]"
    obtain hits' where h: "search_groups m im scoped n q hits (g # gs) lg = search_groups m im scoped n q hits' gs ?lg"
      using False by (cases "xc_listMessages (mc_client m) lg (xg_groupId g) search_options")
        (auto simp: client_listMessages_def client_ask_def Let_def)
    obtain calls where "snd (search_groups m im scoped n q hits' gs ?lg) = ?lg @ calls" "only_reads ok calls"
      using Cons.IH by blast
    then show ?thesis unfolding h using ok by auto
  qed
qed simp

lemma search_groups_bounded:
  "length hits \<le> n \<Longrightarrow> length (fst (search_groups m im scoped n q hits gs lg)) \<le> n"
proof (induction gs arbitrary: hits lg)
  case (Cons g gs)
  then show ?case
    by (auto simp: client_listMessages_def client_ask_def Let_def collect_hits_bounded split: result.splits)
qed simp

lemma message_list_reads:
  "\<exists>calls. snd (message_list iso_text deps now inp ctx lg) = lg @ calls \<and> only_reads (read_allowed deps now ctx) calls"
  using read_authorized [of iso_text now ctx "ml_chatId inp" deps]
  by (auto simp: message_list_def client_listMessages_def client_ask_def split: option.split result.split)

lemma message_info_reads:
  assumes "fst (message_info iso_text deps now chatId messageId label ctx lg) = Ok msg"
  shows "xm_groupId msg = resolveGroupId (ad_idMappings deps) chatId \<and> read_allowed deps now ctx (xm_groupId msg)"
  using assms read_authorized [of iso_text now ctx chatId deps]
  by (auto simp: message_info_def client_getMessageById_def client_ask_def Let_def
      split: option.splits result.splits if_splits)

lemma search_messages_reads:
  "\<exists>calls. snd (search_messages iso_text deps now inp ctx lg) = lg @ calls \<and> only_reads (read_allowed deps now ctx) calls"
proof (cases "authorizeAdminSearchAccess iso_text now ctx (si_chatId inp) (ad_idMappings deps)")
  case (Some e)
  then show ?thesis by (simp add: search_messages_def)
next
  case auth: None
  show ?thesis
  proof (cases "search_scope deps ctx")
    case None
    then show ?thesis by (simp add: search_messages_def auth)
  next
    case (Some scoped)
    note allowed = search_authorized [OF auth Some]
    show ?thesis
    proof (cases "acting_client (ad_identities deps) (ad_clients deps) (si_label inp)")
      case (Err e)
      then show ?thesis by (simp add: search_messages_def auth Some)
    next
      case (Ok m)
      let ?n = "nullish (si_limit inp) DEFAULT_LIMIT" and ?q = "to_lower (si_query inp)"
      show ?thesis
      proof (cases "present (si_chatId inp)")
        case True
        then show ?thesis using allowed
          by (auto simp: search_messages_def auth Some Ok Let_def client_listMessages_def client_ask_def split: result.split)
      next
        case False
        then have "\<And>g. scoped = None \<or> g \<in> set (the scoped) \<Longrightarrow> read_allowed deps now ctx g" using allowed by blast
        note reads = search_groups_reads [of scoped "read_allowed deps now ctx" m "ad_idMappings deps" ?n ?q "[]", OF this]
        show ?thesis
        proof (cases "xc_listGroups (mc_client m) lg")
          case (Err e)
          then show ?thesis using False
            by (simp add: search_messages_def auth Some Ok Let_def client_listGroups_def client_ask_def)
        next
          case (Ok gs)
          obtain calls where "snd (search_groups m (ad_idMappings deps) scoped ?n ?q [] gs (lg @ [(mc_identityId m, X_listGroups)])) =
              (lg @ [(mc_identityId m, X_listGroups)]) @ calls" "only_reads (read_allowed deps now ctx) calls"
            using reads by blast
          then show ?thesis using False Ok \<open>acting_client _ _ _ = _\<close>
            by (auto simp: search_messages_def auth Some Let_def client_listGroups_def client_ask_def split: prod.splits)
        qed
      qed
    qed
  qed
qed

lemma search_messages_bounded:
  assumes "fst (search_messages iso_text deps now inp ctx lg) = Ok hits"
  shows "length hits \<le> nullish (si_limit inp) DEFAULT_LIMIT"
  using assms collect_hits_bounded [of "[]"] search_groups_bounded [of "[]"]
  by (auto simp: search_messages_def Let_def split: option.splits result.splits if_splits prod.splits) (metis fst_conv)

text \<open>C35: Reading actions touch only what their context may read, at the moment of the call: every request
  of message.list and search.messages to the network is for the messages of a group that is one of
  the credential's chats while the credential's effective scopes let it read messages, or one of an
  unexpired elevation's chats, and for nobody else but a caller that is neither a credential nor an
  administrator (searching may also list the groups); message.info answers only with a message of the
  conversation asked for, under the same condition; and a search returns no more hits than its limit.\<close>

theorem reads_allowed:
  "(\<exists>calls. snd (message_list iso_text deps now inp ctx lg) = lg @ calls \<and>
      only_reads (read_allowed deps now ctx) calls) \<and>
   (case fst (message_info iso_text deps now chatId messageId label ctx lg) of
      Err _ \<Rightarrow> True
    | Ok msg \<Rightarrow> xm_groupId msg = resolveGroupId (ad_idMappings deps) chatId \<and> read_allowed deps now ctx (xm_groupId msg)) \<and>
   (\<exists>calls. snd (search_messages iso_text deps now sinp ctx lg) = lg @ calls \<and>
      only_reads (read_allowed deps now ctx) calls) \<and>
   (case fst (search_messages iso_text deps now sinp ctx lg) of
      Err _ \<Rightarrow> True | Ok hits \<Rightarrow> length hits \<le> nullish (si_limit sinp) DEFAULT_LIMIT)"
  by (intro conjI message_list_reads search_messages_reads)
    (auto split: result.split dest: message_info_reads search_messages_bounded)

end
