(* ===== verification/ReadSurfaces.thy ===== *)
theory ReadSurfaces
  imports AdminServer McpServer MessageAccess
begin

text \<open>
  The three surfaces and the reading actions together: what a handler context made by the HTTP server,
  the administrator's socket or the MCP server lets message.list and search.messages read.
\<close>

text \<open>A group whose messages a call may list: a chat of a credential that was found for a token of the
  surface and may read messages, or a chat of an elevation that was granted for this action and lasts.\<close>

definition read_covered ::
  "gate_event list \<Rightarrow> spec \<Rightarrow> action_deps \<Rightarrow> int \<Rightarrow> handler_context \<Rightarrow> string \<Rightarrow> bool" where
  "read_covered evs sp deps now ctx g \<longleftrightarrow>
     (\<exists>token c lookup credential. Ev_token token (Ok c) \<in> set evs \<and> hc_credentialId ctx = Some (rc_credentialId c) \<and>
        ad_credentialLookup deps = Some lookup \<and> lookup (rc_credentialId c) = Ok credential \<and>
        g \<in> resolveGroupId (ad_idMappings deps) ` set (cc_chatIds (cr_config credential)) \<and>
        Sc_read_messages \<in> set (resolveEffectiveScopes (cr_config credential))) \<or>
     (\<exists>e inp. Ev_elevate inp (Ok (Some e)) \<in> set evs \<and> li_method inp = as_id sp \<and> hc_elevation ctx = Some e \<and>
        now < ae_expiresAt e \<and> g \<in> resolveGroupId (ad_idMappings deps) ` set (ae_chatIds e))"

text \<open>The contexts the surfaces make.\<close>

definition surface_context :: "gate_event list \<Rightarrow> spec \<Rightarrow> handler_context \<Rightarrow> bool" where
  "surface_context evs sp ctx \<longleftrightarrow>
     (hc_adminAuth ctx \<noteq> None \<and> hc_credentialId ctx = None \<and>
        (\<forall>e. hc_elevation ctx = Some e \<longrightarrow> (\<exists>inp. Ev_elevate inp (Ok (Some e)) \<in> set evs \<and> li_method inp = as_id sp))) \<or>
     (hc_adminAuth ctx = None \<and> hc_elevation ctx = None \<and>
        (\<exists>token c. Ev_token token (Ok c) \<in> set evs \<and> hc_credentialId ctx = Some (rc_credentialId c)))"

lemma context_covers:
  assumes "surface_context evs sp ctx" "read_allowed deps now ctx g"
    and "\<And>token c. Ev_token token (Ok c) \<in> set evs \<Longrightarrow> rc_credentialId c \<noteq> []"
  shows "read_covered evs sp deps now ctx g"
proof (cases "hc_credentialId ctx")
  case None
  then have "hc_adminAuth ctx \<noteq> None" and
    granted: "\<And>e. hc_elevation ctx = Some e \<Longrightarrow> \<exists>inp. Ev_elevate inp (Ok (Some e)) \<in> set evs \<and> li_method inp = as_id sp"
    using assms(1) by (auto simp: surface_context_def)
  then obtain e where "hc_elevation ctx = Some e" "now < ae_expiresAt e"
    "g \<in> resolveGroupId (ad_idMappings deps) ` set (ae_chatIds e)"
    using assms(2) None by (auto simp: read_allowed_def present_def split: option.splits)
  then show ?thesis using granted unfolding read_covered_def by blast
next
  case (Some i)
  then obtain token c where c: "Ev_token token (Ok c) \<in> set evs" "i = rc_credentialId c"
    using assms(1) by (auto simp: surface_context_def)
  then have "present (hc_credentialId ctx)" using Some assms(3) by (simp add: present_def)
  then obtain lookup credential where "ad_credentialLookup deps = Some lookup" "lookup i = Ok credential"
      "g \<in> resolveGroupId (ad_idMappings deps) ` set (cc_chatIds (cr_config credential))"
      "Sc_read_messages \<in> set (resolveEffectiveScopes (cr_config credential))"
    using assms(2) Some by (auto simp: read_allowed_def split: option.splits result.splits)
  then show ?thesis using c Some unfolding read_covered_def by blast
qed

lemma http_context:
  assumes "gate_reachable (http_entries stringify reg req) () sy" "gs_log sy = pre @ Ev_run sp params ctx # post"
  shows "surface_context pre sp ctx"
  using http.called_under [OF assms]
  by (auto simp: http_rule_def admin_call_def credential_call_def surface_context_def)

lemma socket_context:
  assumes "gate_reachable (socket_entries reg) new_connection sy" "gs_log sy = pre @ Ev_run sp params ctx # post"
  shows "surface_context pre sp ctx"
  using socket.called_under [OF assms] by (auto simp: socket_rule_def surface_context_def)

lemma mcp_served:
  assumes "gate_reachable (mcp_entries reg token) createMcpServer sy" "gs_log sy = pre @ Ev_run sp params ctx # post"
  shows "surface_context pre sp ctx"
  using mcp.called_under [OF assms] unfolding mcp_rule_def surface_context_def by blast

text \<open>A handler was called with this context by one of the surfaces, after these events.\<close>

definition called_by_surface :: "gate_event list \<Rightarrow> spec \<Rightarrow> param_map \<Rightarrow> handler_context \<Rightarrow> bool" where
  "called_by_surface pre sp params ctx \<longleftrightarrow>
     (\<exists>stringify reg req sy post. gate_reachable (http_entries stringify reg req) () sy \<and>
        gs_log sy = pre @ Ev_run sp params ctx # post) \<or>
     (\<exists>reg sy post. gate_reachable (socket_entries reg) new_connection sy \<and>
        gs_log sy = pre @ Ev_run sp params ctx # post) \<or>
     (\<exists>reg token sy post. gate_reachable (mcp_entries reg token) createMcpServer sy \<and>
        gs_log sy = pre @ Ev_run sp params ctx # post)"

lemma surface_contexts: "called_by_surface pre sp params ctx \<Longrightarrow> surface_context pre sp ctx"
  unfolding called_by_surface_def
  by (elim disjE exE conjE) (rule http_context, assumption+, rule socket_context, assumption+, rule mcp_served, assumption+)

lemma only_reads_mono: "only_reads ok calls \<Longrightarrow> (\<And>g. ok g \<Longrightarrow> ok' g) \<Longrightarrow> only_reads ok' calls"
  unfolding only_reads_def by (induction calls) (auto split: client_call.splits)

text \<open>C31: Over any of the three surfaces, in any interleaving of requests, nobody reads messages without
  leave: whatever handler context a surface has made, message.list and search.messages run under it
  ask the network only for messages of chats of the credential its token was found for, while that
  credential's effective scopes let it read messages, or of chats of an elevation granted for this
  very action, while it lasts. Credentials must have identifiers that are not empty.\<close>

theorem surfaces_read_covered:
  assumes "called_by_surface pre sp params ctx"
    and "\<forall>token c. Ev_token token (Ok c) \<in> set pre \<longrightarrow> rc_credentialId c \<noteq> []"
  shows "(\<exists>calls. snd (message_list iso_text deps now inp ctx lg) = lg @ calls \<and>
      only_reads (read_covered pre sp deps now ctx) calls) \<and>
    (\<exists>calls. snd (search_messages iso_text deps now sinp ctx lg) = lg @ calls \<and>
      only_reads (read_covered pre sp deps now ctx) calls)"
proof -
  have "read_covered pre sp deps now ctx g" if "read_allowed deps now ctx g" for g
    using context_covers [OF surface_contexts [OF assms(1)] that] assms(2) by blast
  then show ?thesis
    using message_list_reads [of iso_text deps now inp ctx lg] search_messages_reads [of iso_text deps now sinp ctx lg]
      only_reads_mono by blast
qed

subsection \<open>Sample\<close>

definition sample_client :: xmtp_client where
  "sample_client =
     \<lparr>xc_sendMessage = (\<lambda>_ _ _ _. Ok ''m1''), xc_getMessageById = (\<lambda>_ _. Ok None),
      xc_listMessages = (\<lambda>_ _ _. Ok []), xc_syncAll = (\<lambda>_. Ok ()), xc_listGroups = (\<lambda>_. Ok []),
      xc_getGroupInfo = (\<lambda>_ g. Err (NotFoundError_create ''group'' g)),
      xc_createGroup = (\<lambda>_ _ _. Err (InternalError_create ''no'' None)),
      xc_createDm = (\<lambda>_ p. Ok \<lparr>xd_dmId = ''d'', xd_peerInboxId = p\<rparr>),
      xc_sendDmMessage = (\<lambda>_ _ _. Ok ''m1''), xc_addMembers = (\<lambda>_ _ _. Ok ()), xc_removeMembers = (\<lambda>_ _ _. Ok ()),
      xc_updateGroupMetadata = (\<lambda>_ g _. Err (NotFoundError_create ''group'' g)), xc_leaveGroup = (\<lambda>_ _. Ok ()),
      xc_addAdmin = (\<lambda>_ _ _. Ok ()), xc_removeAdmin = (\<lambda>_ _ _. Ok ()),
      xc_getConsentState = (\<lambda>_ _ _. Ok CS_unknown), xc_setConsentState = (\<lambda>_ _ _ _. Ok ())\<rparr>"

definition sample_deps :: action_deps where
  "sample_deps = \<lparr>ad_identities = \<lparr>is_rows = [\<lparr>ai_id = ''i1'', ai_inboxId = None, ai_groupId = None, ai_label = None,
        ai_createdAt = 0\<rparr>], is_inboxIndex = True\<rparr>,
     ad_clients = [(''i1'', \<lparr>mc_identityId = ''i1'', mc_inboxId = ''b1'', mc_client = sample_client, mc_groupIds = []\<rparr>)],
     ad_idMappings = None, ad_credentialLookup = Some (\<lambda>_. Ok (rc_record sample_credential))\<rparr>"

definition sample_list :: list_input where
  "sample_list = \<lparr>ml_chatId = ''c1'', ml_options = \<lparr>lo_limit = None, lo_before = None, lo_after = None, lo_direction = None\<rparr>, ml_label = None\<rparr>"

definition sample_search :: search_input where
  "sample_search = \<lparr>si_query = ''q'', si_chatId = None, si_limit = None, si_label = None\<rparr>"

lemma sample_mcp_reads:
  "case sample_mcp_run of None \<Rightarrow> False
   | Some sy \<Rightarrow> (case last_call (gs_log sy) of
       Some (spec, params, ctx) \<Rightarrow>
         snd (message_list (\<lambda>_. []) sample_deps 5 sample_list ctx []) = [(''i1'', X_listMessages ''c1'' (ml_options sample_list))] \<and>
         list_all (\<lambda>e. case e of Ev_token _ (Ok c) \<Rightarrow> rc_credentialId c \<noteq> [] | _ \<Rightarrow> True) (gs_log sy)
     | None \<Rightarrow> False)"
  by code_simp

theorem surfaces_read_covered_witness:
  "\<exists>pre sp ctx. read_covered pre sp sample_deps 5 ctx ''c1''"
proof -
  obtain sy sp params ctx where sy: "sample_mcp_run = Some sy" "last_call (gs_log sy) = Some (sp, params, ctx)"
      "snd (message_list (\<lambda>_. []) sample_deps 5 sample_list ctx []) = [(''i1'', X_listMessages ''c1'' (ml_options sample_list))]"
      "list_all (\<lambda>e. case e of Ev_token _ (Ok c) \<Rightarrow> rc_credentialId c \<noteq> [] | _ \<Rightarrow> True) (gs_log sy)"
    using sample_mcp_reads by (auto split: option.splits)
  obtain pre where pre: "gs_log sy = pre @ Ev_run sp params ctx # []" using last_call_split [OF sy(2)] by blast
  have called: "called_by_surface pre sp params ctx"
    unfolding called_by_surface_def using sample_mcp_reachable [OF sy(1)] pre by blast
  have ids: "\<forall>token c. Ev_token token (Ok c) \<in> set pre \<longrightarrow> rc_credentialId c \<noteq> []"
    using sy(4) by (auto simp: pre list_all_iff)
  from surfaces_read_covered [OF called ids, where deps = sample_deps and now = 5 and inp = sample_list and lg = "[]"
      and iso_text = "\<lambda>_. []"]
  obtain calls where "snd (message_list (\<lambda>_. []) sample_deps 5 sample_list ctx []) = [] @ calls"
      "only_reads (read_covered pre sp sample_deps 5 ctx) calls" by blast
  then have "only_reads (read_covered pre sp sample_deps 5 ctx) [(''i1'', X_listMessages ''c1'' (ml_options sample_list))]"
    using sy(3) by (metis append_Nil)
  then have "read_covered pre sp sample_deps 5 ctx ''c1''" by (simp only: only_reads_simps)
  then show ?thesis by blast
qed

end
