(* ===== verification/Invite.thy ===== *)
theory Invite
  imports KeyManager IdentityStore
begin

unbundle bit_operations_syntax

text \<open>
  Invites of the Convos scheme: the token encryption, signature and compression
  (\<^verbatim>\<open>packages/core/src/schemes/invite-crypto.ts\<close>), the generator and the parser
  (\<^verbatim>\<open>schemes/convos/invite-generator.ts\<close>, \<^verbatim>\<open>invite-parser.ts\<close>) and the scheme that wraps them
  (\<^verbatim>\<open>schemes/convos/onboarding-scheme.ts\<close>). The primitives of the cryptography, compression and protocol buffer
  packages and the URL parser are the fields of \<open>invite_engine\<close>; an \<open>Err\<close> of theirs is an
  exception with its message; \<open>ie_bytesOf\<close> tells whether a value is a byte array. Random bytes and
  the clock are arguments.
\<close>

subsection \<open>What the packages provide\<close>

text \<open>The fields of a payload as they are set for encoding, and as they are read after decoding: what
  was not set has the default of its type.\<close>

record invite_payload =
  iv_conversationToken :: bytes
  iv_creatorInboxId :: bytes
  iv_tag :: string
  iv_name :: "string option"
  iv_description :: "string option"
  iv_imageURL :: "string option"
  iv_expiresAtUnix :: "int option"
  iv_expiresAfterUse :: bool

record decoded_payload =
  dp_conversationToken :: bytes
  dp_creatorInboxId :: bytes
  dp_tag :: string
  dp_name :: string
  dp_description :: string
  dp_imageURL :: string
  dp_conversationExpiresAtUnix :: int
  dp_expiresAtUnix :: int
  dp_expiresAfterUse :: bool

record parsed_url =
  ur_param :: "string \<Rightarrow> string option"
  ur_pathname :: string

type_synonym 'a thrown = "('a, string) result"

record invite_engine =
  ie_hkdf :: "bytes \<Rightarrow> bytes \<Rightarrow> bytes \<Rightarrow> bytes"
  ie_encrypt :: "bytes \<Rightarrow> bytes \<Rightarrow> bytes \<Rightarrow> bytes \<Rightarrow> bytes"
  ie_decrypt :: "bytes \<Rightarrow> bytes \<Rightarrow> bytes \<Rightarrow> bytes \<Rightarrow> bytes thrown"
  ie_sha256 :: "bytes \<Rightarrow> bytes"
  ie_sign :: "bytes \<Rightarrow> bytes \<Rightarrow> (bytes \<times> 8 word) thrown"
  ie_recover :: "bytes \<Rightarrow> 8 word \<Rightarrow> bytes \<Rightarrow> bytes thrown"
  ie_publicKey :: "bytes \<Rightarrow> bytes thrown"
  ie_deflate :: "bytes \<Rightarrow> bytes"
  ie_inflate :: "bytes \<Rightarrow> nat \<Rightarrow> bytes thrown"
  ie_verifyPayload :: "invite_payload \<Rightarrow> string option"
  ie_encodePayload :: "invite_payload \<Rightarrow> bytes"
  ie_decodePayload :: "bytes \<Rightarrow> decoded_payload thrown"
  ie_encodeSigned :: "bytes \<Rightarrow> bytes \<Rightarrow> bytes"
  ie_decodeSigned :: "bytes \<Rightarrow> (bytes \<times> bytes) thrown"
  ie_url :: "string \<Rightarrow> parsed_url option"
  ie_parseJson :: "bytes \<Rightarrow> js_value option"
  ie_bytesOf :: "js_value \<Rightarrow> bytes option"

subsection \<open>Tokens, signatures and compression\<close>

definition deriveTokenKey :: "invite_engine \<Rightarrow> bytes \<Rightarrow> string \<Rightarrow> bytes" where
  "deriveTokenKey en privateKeyBytes inboxId =
     ie_hkdf en privateKeyBytes (text_octets ''ConvosInviteV1'') (text_octets (''inbox:'' @ inboxId))"

definition encryptToken :: "invite_engine \<Rightarrow> bytes \<Rightarrow> bytes \<Rightarrow> string \<Rightarrow> bytes \<Rightarrow> bytes" where
  "encryptToken en nonce plaintext inboxId privateKeyBytes =
     1 # nonce @ ie_encrypt en (deriveTokenKey en privateKeyBytes inboxId) nonce (text_octets inboxId) plaintext"

definition decryptToken :: "invite_engine \<Rightarrow> bytes \<Rightarrow> string \<Rightarrow> bytes \<Rightarrow> bytes thrown" where
  "decryptToken en token inboxId privateKeyBytes =
     (case token of
        [] \<Rightarrow> Err ''Unsupported token version: undefined''
      | v # rest \<Rightarrow>
          if v \<noteq> 1 then Err (''Unsupported token version: '' @ digits_of (unat v))
          else ie_decrypt en (deriveTokenKey en privateKeyBytes inboxId) (take 12 rest) (text_octets inboxId) (drop 12 rest))"

definition sign_invite :: "invite_engine \<Rightarrow> bytes \<Rightarrow> bytes \<Rightarrow> bytes thrown" where
  "sign_invite en payload privateKeyBytes =
     (case ie_sign en (ie_sha256 en payload) privateKeyBytes of
        Err e \<Rightarrow> Err e
      | Ok (compact_sig, recovery) \<Rightarrow> Ok (compact_sig @ [recovery]))"

definition recoverPublicKey :: "invite_engine \<Rightarrow> bytes \<Rightarrow> bytes \<Rightarrow> bytes thrown" where
  "recoverPublicKey en payload signature =
     (if length signature \<noteq> 65
      then Err (''Invalid signature length: expected 65 bytes, got '' @ digits_of (length signature))
      else if 3 < signature ! 64 then Err (''Invalid recovery bit: '' @ digits_of (unat (signature ! 64)))
      else ie_recover en (take 64 signature) (signature ! 64) (ie_sha256 en payload))"

definition maxDecompressedSize :: nat where
  "maxDecompressedSize = 1024 * 1024"

definition compress :: "invite_engine \<Rightarrow> bytes \<Rightarrow> bytes" where
  "compress en data =
     (if length data \<le> 100 then data
      else let compressed = ie_deflate en data; n = length data
           in if length compressed + 5 < n
              then [0x1f, of_nat (drop_bit 24 n AND 0xff), of_nat (drop_bit 16 n AND 0xff),
                    of_nat (drop_bit 8 n AND 0xff), of_nat (n AND 0xff)] @ compressed
              else data)"

definition decompress :: "invite_engine \<Rightarrow> string \<Rightarrow> bytes \<Rightarrow> (bytes, signet_error) result" where
  "decompress en errorField data =
     (if data = [] \<or> hd data \<noteq> 0x1f then Ok data
      else if length data < 5 then Err (ValidationError_create errorField ''Compressed invite data is truncated'' [])
      else let declaredSize = unat (data ! 1) * 0x1000000 + unat (data ! 2) * 0x10000 + unat (data ! 3) * 0x100 + unat (data ! 4)
           in if maxDecompressedSize < declaredSize
              then Err (ValidationError_create errorField (''Decompressed size exceeds maximum: '' @ digits_of declaredSize) [])
              else case ie_inflate en (drop 5 data) maxDecompressedSize of
                Err cause \<Rightarrow> Err (ValidationError_create errorField (''Failed to decompress invite data: '' @ cause) [])
              | Ok inflated \<Rightarrow>
                  if maxDecompressedSize < length inflated
                  then Err (ValidationError_create errorField (''Decompressed size exceeds maximum: '' @ digits_of (length inflated)) [])
                  else Ok inflated)"

subsection \<open>Conversation identifiers\<close>

datatype conversation_id_format = IF_uuid | IF_string

definition hexToBytes :: "string \<Rightarrow> bytes" where
  "hexToBytes hex = (let clean = if starts_with hex ''0x'' then drop 2 hex else hex in hex_pairs (to_lower clean))"

definition uuid_match :: "string \<Rightarrow> bool" where
  "uuid_match s \<longleftrightarrow> length s = 36 \<and>
     list_all (\<lambda>(i, c). if i \<in> {8, 13, 18, 23} then c = CHR ''-'' else hex_digit_value c \<noteq> None) (zip [0..<36] s)"

definition packConversationId :: "string \<Rightarrow> conversation_id_format option \<Rightarrow> bytes thrown" where
  "packConversationId conversationId format =
     (let shouldUseUuid = (case format of Some IF_uuid \<Rightarrow> True | Some IF_string \<Rightarrow> False | None \<Rightarrow> uuid_match conversationId)
      in if shouldUseUuid
         then (if \<not> uuid_match conversationId
               then Err (''Conversation ID format \"uuid\" requires a canonical UUID: '' @ conversationId)
               else Ok (0x01 # hexToBytes (filter (\<lambda>c. c \<noteq> CHR ''-'') conversationId)))
         else let strBytes = text_octets conversationId; n = length strBytes
              in if n \<le> 255 then Ok (0x02 # of_nat n # strBytes)
                 else Ok (0x02 # 0x00 # of_nat (drop_bit 8 n AND 0xff) # of_nat (n AND 0xff) # strBytes))"

definition unpackConversationId :: "bytes \<Rightarrow> string thrown" where
  "unpackConversationId data =
     (case data of
        [] \<Rightarrow> Err ''Unknown conversation ID tag: undefined''
      | tag # rest \<Rightarrow>
          if tag = 0x01
          then let hex = bytesToHex (take 16 rest)
               in Ok (join_with ''-'' [take 8 hex, take 4 (drop 8 hex), take 4 (drop 12 hex), take 4 (drop 16 hex), drop 20 hex])
          else if tag = 0x02
          then (case rest of
                  [] \<Rightarrow> Err ''Invalid packed conversation ID''
                | l # body \<Rightarrow>
                    if l = 0
                    then (case body of
                            high # low # str \<Rightarrow> Ok (decode_text (take (push_bit 8 (unat high) OR unat low) str))
                          | _ \<Rightarrow> Err ''Invalid packed conversation ID length'')
                    else Ok (decode_text (take (unat l) body)))
          else Err (''Unknown conversation ID tag: '' @ digits_of (unat tag)))"

definition decryptConversationToken :: "invite_engine \<Rightarrow> bytes \<Rightarrow> string \<Rightarrow> bytes \<Rightarrow> string thrown" where
  "decryptConversationToken en token creatorInboxId privateKeyBytes =
     bindR (decryptToken en token creatorInboxId privateKeyBytes) unpackConversationId"

subsection \<open>Generating an invite\<close>

record slug_options =
  go_conversationId :: string
  go_conversationIdFormat :: "conversation_id_format option"
  go_creatorInboxId :: string
  go_walletPrivateKeyHex :: string
  go_inviteTag :: string
  go_name :: "string option"
  go_description :: "string option"
  go_imageUrl :: "string option"
  go_expiresAt :: "int option"
  go_expiresAfterUse :: "bool option"

fun separated_parts :: "nat \<Rightarrow> string \<Rightarrow> string list" where
  "separated_parts every str =
     (if str = [] \<or> every = 0 then [] else take every str # separated_parts every (drop every str))"

declare separated_parts.simps [simp del]

definition insertSeparators :: "string \<Rightarrow> string \<Rightarrow> nat \<Rightarrow> string" where
  "insertSeparators str sep every =
     (if length str \<le> every then str else join_with sep (separated_parts every str))"

definition slug_failed :: "string \<Rightarrow> signet_error" where
  "slug_failed cause = InternalError_create (''Failed to generate invite slug: '' @ cause) None"

definition invite_payload_of :: "slug_options \<Rightarrow> bytes \<Rightarrow> invite_payload" where
  "invite_payload_of opts token =
     \<lparr>iv_conversationToken = token, iv_creatorInboxId = hexToBytes (go_creatorInboxId opts), iv_tag = go_inviteTag opts,
      iv_name = go_name opts, iv_description = go_description opts, iv_imageURL = go_imageUrl opts,
      iv_expiresAtUnix = map_option (\<lambda>ms. ms div 1000) (go_expiresAt opts),
      iv_expiresAfterUse = nullish (go_expiresAfterUse opts) False\<rparr>"

text \<open>The signed invite before compression, and the slug.\<close>

definition signed_invite :: "invite_engine \<Rightarrow> bytes \<Rightarrow> slug_options \<Rightarrow> (bytes, signet_error) result" where
  "signed_invite en nonce opts =
     (let privateKeyBytes = hexToBytes (go_walletPrivateKeyHex opts)
      in case packConversationId (go_conversationId opts) (go_conversationIdFormat opts) of
        Err e \<Rightarrow> Err (slug_failed e)
      | Ok packed \<Rightarrow>
          let payload = invite_payload_of opts (encryptToken en nonce packed (go_creatorInboxId opts) privateKeyBytes)
          in case ie_verifyPayload en payload of
            Some errMsg \<Rightarrow> Err (InternalError_create (''Invalid invite payload: '' @ errMsg) None)
          | None \<Rightarrow>
              let payloadBytes = ie_encodePayload en payload
              in case sign_invite en payloadBytes privateKeyBytes of
                Err e \<Rightarrow> Err (slug_failed e)
              | Ok signature \<Rightarrow> Ok (ie_encodeSigned en payloadBytes signature))"

definition generateConvosInviteSlug :: "invite_engine \<Rightarrow> bytes \<Rightarrow> slug_options \<Rightarrow> (string, signet_error) result" where
  "generateConvosInviteSlug en nonce opts =
     (case signed_invite en nonce opts of
        Err e \<Rightarrow> Err e
      | Ok bytes \<Rightarrow> Ok (insertSeparators (toBase64Url (compress en bytes)) ''*'' 300))"

datatype xmtp_env = Env_local | Env_dev | Env_production

definition generateConvosInviteUrl :: "invite_engine \<Rightarrow> bytes \<Rightarrow> slug_options \<Rightarrow> xmtp_env option \<Rightarrow> (string, signet_error) result" where
  "generateConvosInviteUrl en nonce opts env =
     (case generateConvosInviteSlug en nonce opts of
        Err e \<Rightarrow> Err e
      | Ok slug \<Rightarrow>
          let baseUrl = if env = Some Env_dev \<or> env = Some Env_local then ''https://dev.convos.org/v2'' else ''https://popup.convos.org/v2''
          in Ok (baseUrl @ ''?i='' @ encodeURIComponent slug))"

subsection \<open>Parsing an invite\<close>

record parsed_invite =
  pi_payloadBytes :: bytes
  pi_signature :: bytes
  pi_conversationToken :: bytes
  pi_creatorInboxId :: string
  pi_tag :: string
  pi_name :: "string option"
  pi_description :: "string option"
  pi_imageUrl :: "string option"
  pi_isExpired :: bool
  pi_isConversationExpired :: bool
  pi_expiresAfterUse :: bool

text \<open>The runtime's base64 decoder reads both alphabets and skips every other character; bits that do
  not fill a byte are lost.\<close>

definition buffer_base64 :: "string \<Rightarrow> bytes" where
  "buffer_base64 s = b64_bytes (map (\<lambda>c. the (b64_value c)) (filter (\<lambda>c. b64_value c \<noteq> None) (map std_char s)))"

definition base64UrlDecode :: "string \<Rightarrow> bytes" where
  "base64UrlDecode str =
     (let base64 = map std_char str
      in buffer_base64 (base64 @ replicate ((4 - length base64 mod 4) mod 4) (CHR ''='')))"

definition extractSlug :: "invite_engine \<Rightarrow> string \<Rightarrow> string" where
  "extractSlug en input =
     (let trimmed = js_trim input
      in case ie_url en trimmed of
        None \<Rightarrow> trimmed
      | Some url \<Rightarrow>
          if nullish (ur_param url ''i'') [] \<noteq> [] then the (ur_param url ''i'')
          else if nullish (ur_param url ''code'') [] \<noteq> [] then the (ur_param url ''code'')
          else case filter (\<lambda>p. p \<noteq> []) (split_on (CHR ''/'') (ur_pathname url)) of
            [] \<Rightarrow> trimmed
          | parts \<Rightarrow> last parts)"

definition or_undefined :: "string \<Rightarrow> string option" where
  "or_undefined s = (if s = [] then None else Some s)"

definition parse_refused :: "string \<Rightarrow> signet_error" where
  "parse_refused reason = ValidationError_create ''inviteUrl'' reason []"

definition expired :: "int \<Rightarrow> int \<Rightarrow> bool" where
  "expired nowUnix unix \<longleftrightarrow> unix \<noteq> 0 \<and> unix < nowUnix"

definition parseConvosInviteUrl :: "invite_engine \<Rightarrow> int \<Rightarrow> string \<Rightarrow> (parsed_invite, signet_error) result" where
  "parseConvosInviteUrl en now input =
     (let decoded = base64UrlDecode (filter (\<lambda>c. c \<noteq> CHR ''*'') (extractSlug en input))
      in if decoded = [] then Err (parse_refused ''Empty invite data'')
         else case decompress en ''inviteUrl'' decoded of
           Err e \<Rightarrow> Err e
         | Ok decompressed \<Rightarrow>
             (case ie_decodeSigned en decompressed of
                Err cause \<Rightarrow> Err (parse_refused (''Failed to parse invite: '' @ cause))
              | Ok (payloadBytes, signatureBytes) \<Rightarrow>
                  if payloadBytes = [] \<or> signatureBytes = []
                  then Err (parse_refused ''Invalid SignedInvite: missing payload or signature'')
                  else case ie_decodePayload en payloadBytes of
                    Err cause \<Rightarrow> Err (parse_refused (''Failed to parse invite: '' @ cause))
                  | Ok payload \<Rightarrow>
                      if dp_creatorInboxId payload = []
                      then Err (parse_refused ''Invalid InvitePayload: missing creatorInboxId'')
                      else if dp_tag payload = [] then Err (parse_refused ''Invalid InvitePayload: missing tag'')
                      else let nowUnix = now div 1000
                           in Ok \<lparr>pi_payloadBytes = payloadBytes, pi_signature = signatureBytes,
                                  pi_conversationToken = dp_conversationToken payload,
                                  pi_creatorInboxId = bytesToHex (dp_creatorInboxId payload), pi_tag = dp_tag payload,
                                  pi_name = or_undefined (dp_name payload),
                                  pi_description = or_undefined (dp_description payload),
                                  pi_imageUrl = or_undefined (dp_imageURL payload),
                                  pi_isExpired = expired nowUnix (dp_expiresAtUnix payload),
                                  pi_isConversationExpired = expired nowUnix (dp_conversationExpiresAtUnix payload),
                                  pi_expiresAfterUse = dp_expiresAfterUse payload\<rparr>))"

definition verifyConvosInvite :: "invite_engine \<Rightarrow> parsed_invite \<Rightarrow> (unit, signet_error) result" where
  "verifyConvosInvite en invite =
     (if length (pi_signature invite) \<noteq> 65
      then Err (ValidationError_create ''inviteSignature''
             (''Invalid signature length: expected 65 bytes, got '' @ digits_of (length (pi_signature invite))) [])
      else case recoverPublicKey en (pi_payloadBytes invite) (pi_signature invite) of
        Err cause \<Rightarrow> Err (ValidationError_create ''inviteSignature'' (''Signature verification failed: '' @ cause) [])
      | Ok _ \<Rightarrow> Ok ())"

subsection \<open>The scheme\<close>

record scheme_invite = parsed_invite +
  pi_schemeId :: string

record invite_metadata =
  im_tag :: string
  im_name :: "string option"
  im_description :: "string option"
  im_imageUrl :: "string option"

record invite_options =
  io_env :: xmtp_env
  io_expiresAt :: "int option"
  io_expiresAfterUse :: "bool option"

definition resolveInviteBaseUrl :: "xmtp_env \<Rightarrow> string" where
  "resolveInviteBaseUrl env =
     (if env = Env_dev \<or> env = Env_local then ''https://dev.convos.org/v2'' else ''https://popup.convos.org/v2'')"

definition toGenerateInviteSlugOptions ::
  "string \<Rightarrow> conversation_id_format option \<Rightarrow> string \<Rightarrow> string \<Rightarrow> invite_metadata \<Rightarrow> invite_options \<Rightarrow> slug_options" where
  "toGenerateInviteSlugOptions conversationId format creatorInboxId walletPrivateKeyHex metadata opts =
     \<lparr>go_conversationId = conversationId, go_conversationIdFormat = format, go_creatorInboxId = creatorInboxId,
      go_walletPrivateKeyHex = walletPrivateKeyHex, go_inviteTag = im_tag metadata, go_name = im_name metadata,
      go_description = im_description metadata, go_imageUrl = im_imageUrl metadata,
      go_expiresAt = io_expiresAt opts, go_expiresAfterUse = io_expiresAfterUse opts\<rparr>"

definition scheme_generate ::
  "invite_engine \<Rightarrow> bytes \<Rightarrow> string \<Rightarrow> conversation_id_format option \<Rightarrow> string \<Rightarrow> string \<Rightarrow> invite_metadata \<Rightarrow> invite_options \<Rightarrow>
   (string \<times> string, signet_error) result" where
  "scheme_generate en nonce groupId format creatorInboxId walletPrivateKeyHex metadata opts =
     (case generateConvosInviteSlug en nonce
             (toGenerateInviteSlugOptions groupId format creatorInboxId walletPrivateKeyHex metadata opts) of
        Err e \<Rightarrow> Err e
      | Ok slug \<Rightarrow> Ok (resolveInviteBaseUrl (io_env opts) @ ''?i='' @ encodeURIComponent slug, slug))"

definition toParsedInvite :: "(parsed_invite, signet_error) result \<Rightarrow> (scheme_invite, signet_error) result" where
  "toParsedInvite invite =
     (case invite of Err e \<Rightarrow> Err e | Ok i \<Rightarrow> Ok (parsed_invite.extend i \<lparr>pi_schemeId = ''convos''\<rparr>))"

definition toConvosParsedInvite :: "scheme_invite \<Rightarrow> (parsed_invite, signet_error) result" where
  "toConvosParsedInvite invite =
     (if pi_schemeId invite \<noteq> ''convos''
      then Err (ValidationError_create ''inviteScheme'' (''Expected convos invite, received '' @ pi_schemeId invite) [])
      else Ok (parsed_invite.truncate invite))"

definition scheme_parse :: "invite_engine \<Rightarrow> int \<Rightarrow> string \<Rightarrow> (scheme_invite, signet_error) result" where
  "scheme_parse en now input = toParsedInvite (parseConvosInviteUrl en now input)"

definition scheme_verify :: "invite_engine \<Rightarrow> scheme_invite \<Rightarrow> (unit, signet_error) result" where
  "scheme_verify en invite =
     (case toConvosParsedInvite invite of Err e \<Rightarrow> Err e | Ok i \<Rightarrow> verifyConvosInvite en i)"

subsection \<open>Identifiers are unpacked as they were packed\<close>

lemma hex_char_low: "hex_char = hex_low"
  by (rule ext) (simp add: hex_char_def hex_low_def)

lemma lower_hex_low: "is_lower_hex c \<Longrightarrow> \<exists>n < 16. c = hex_low n"
proof -
  assume "is_lower_hex c"
  then obtain i where "i < length ''0123456789abcdef''" "c = ''0123456789abcdef'' ! i"
    unfolding is_lower_hex_def in_set_conv_nth by blast
  then show ?thesis by (intro exI [of _ i]) (simp add: hex_low_def)
qed

lemma hex_pair_read:
  assumes "n < 16" "m < 16"
  shows "parse_hex_pair [hex_low n, hex_low m] = Some (int (n * 16 + m))"
    and "unat (of_int (int (n * 16 + m)) :: 8 word) = n * 16 + m"
proof -
  show "parse_hex_pair [hex_low n, hex_low m] = Some (int (n * 16 + m))"
    using pair_of_digits assms unfolding list_all_iff by (metis atLeastLessThan_iff le0 set_upt)
  have "unat (of_nat (n * 16 + m) :: 8 word) = (n * 16 + m) mod 2 ^ 8" by (simp only: unat_of_nat) simp
  then show "unat (of_int (int (n * 16 + m)) :: 8 word) = n * 16 + m" using assms by simp
qed

lemma hex_pairs_text:
  "list_all is_lower_hex h \<Longrightarrow> even (length h) \<Longrightarrow>
    bytesToHex (hex_pairs h) = h \<and> length (hex_pairs h) = length h div 2"
proof (induction h rule: hex_pairs.induct)
  case (1 a b rest)
  obtain n m where nm: "n < 16" "m < 16" "a = hex_low n" "b = hex_low m"
    using 1(2) lower_hex_low [of a] lower_hex_low [of b] by auto
  have "bytesToHex (hex_pairs rest) = rest \<and> length (hex_pairs rest) = length rest div 2" using 1 by simp
  moreover have "(n * 16 + m) div 16 = n" "(n * 16 + m) mod 16 = m" using nm by simp_all
  ultimately show ?case using hex_pair_read [OF nm(1,2)] unfolding nm(3,4)
    by (simp add: bytesToHex_def hex_char_low del: of_nat_add of_nat_mult of_int_of_nat_eq)
qed (simp_all add: bytesToHex_def)

lemma digits_lowered: "hex_digit_value c \<noteq> None \<Longrightarrow> is_lower_hex (to_lower_char c)"
proof -
  define n where "n = (of_char c :: nat)"
  assume "hex_digit_value c \<noteq> None"
  then have "n \<in> {48..<58} \<union> {65..<71} \<union> {97..<103}"
    by (auto simp: hex_digit_value_def Let_def n_def split: if_splits)
  then have "n \<in> set ([48, 49, 50, 51, 52, 53, 54, 55, 56, 57] @ [65, 66, 67, 68, 69, 70] @ [97, 98, 99, 100, 101, 102])"
    by simp presburger
  moreover have "list_all (\<lambda>n. is_lower_hex (to_lower_char (char_of (n :: nat))))
      ([48, 49, 50, 51, 52, 53, 54, 55, 56, 57] @ [65, 66, 67, 68, 69, 70] @ [97, 98, 99, 100, 101, 102])"
    by (simp add: is_lower_hex_def to_lower_char_def char_of_def bit_0)
  ultimately have "is_lower_hex (to_lower_char (char_of n))" unfolding list_all_iff by (drule_tac bspec) assumption+
  then show ?thesis by (simp add: n_def)
qed

lemma hex_lower_read:
  assumes "list_all is_lower_hex h" "even (length h)"
  shows "bytesToHex (hexToBytes h) = h" "h \<noteq> [] \<Longrightarrow> hexToBytes h \<noteq> []"
proof -
  have "to_lower_char c = c" if "is_lower_hex c" for c
    using lower_hex_low [OF that] low_stays_low by (auto simp: list_all_iff)
  then have "to_lower h = h" using assms(1) unfolding to_lower_def list_all_iff by (intro map_idI) auto
  moreover have "\<not> is_lower_hex (CHR ''x'')" by (simp add: is_lower_hex_def)
  then have "\<not> starts_with h ''0x''" using assms(1) by (auto simp: starts_with_split list_all_iff)
  ultimately have "hexToBytes h = hex_pairs h" by (simp add: hexToBytes_def)
  then show "bytesToHex (hexToBytes h) = h" "h \<noteq> [] \<Longrightarrow> hexToBytes h \<noteq> []"
    using hex_pairs_text [OF assms] by (auto simp: bytesToHex_def)
qed

lemma piece_member: "x \<in> set (take k (drop m s)) \<Longrightarrow> \<exists>i. m \<le> i \<and> i < m + k \<and> i < length s \<and> x = s ! i"
proof -
  assume "x \<in> set (take k (drop m s))"
  then obtain j where j: "j < length (take k (drop m s))" "x = take k (drop m s) ! j" by (metis in_set_conv_nth)
  then have "m + j < length s" by (simp add: less_diff_conv add.commute)
  with j show ?thesis by (intro exI [of _ "m + j"]) (simp add: nth_drop [of m s j])
qed

lemma uuid_pieces:
  assumes "uuid_match s"
  obtains a b c d e where "s = join_with ''-'' [a, b, c, d, e]" "map length [a, b, c, d, e] = [8, 4, 4, 4, 12]"
    "\<forall>x \<in> set (a @ b @ c @ d @ e). hex_digit_value x \<noteq> None"
proof -
  have n: "length s = 36" using assms by (simp add: uuid_match_def)
  have at: "if i \<in> {8, 13, 18, 23} then s ! i = CHR ''-'' else hex_digit_value (s ! i) \<noteq> None" if "i < 36" for i
  proof -
    have "([0..<36] ! i, s ! i) \<in> set (zip [0..<36] s)" using that n by (metis in_set_zip length_upt minus_nat.diff_0 fst_conv snd_conv)
    then show ?thesis using assms that unfolding uuid_match_def list_all_iff by force
  qed
  define p where "p m k = take k (drop m s)" for m k
  have parts: "drop m s = p m k @ s ! (m + k) # drop (m + k + 1) s" if "m + k < 36" for m k
    unfolding p_def using that n by (subst id_take_nth_drop [of k "drop m s"]) (simp_all add: add.commute)
  have "s = p 0 8 @ CHR ''-'' # drop 9 s" using parts [of 0 8, simplified] at [of 8, simplified] by metis
  also have "drop 9 s = p 9 4 @ CHR ''-'' # drop 14 s" using parts [of 9 4, simplified] at [of 13, simplified] by metis
  also have "drop 14 s = p 14 4 @ CHR ''-'' # drop 19 s" using parts [of 14 4, simplified] at [of 18, simplified] by metis
  also have "drop 19 s = p 19 4 @ CHR ''-'' # drop 24 s" using parts [of 19 4, simplified] at [of 23, simplified] by metis
  also have "drop 24 s = p 24 12" using n by (simp add: p_def)
  finally have "s = p 0 8 @ CHR ''-'' # p 9 4 @ CHR ''-'' # p 14 4 @ CHR ''-'' # p 19 4 @ CHR ''-'' # p 24 12" .
  then have s: "s = join_with ''-'' [p 0 8, p 9 4, p 14 4, p 19 4, p 24 12]" by simp
  have l: "map length [p 0 8, p 9 4, p 14 4, p 19 4, p 24 12] = [8, 4, 4, 4, 12]" using n by (simp add: p_def)
  have "hex_digit_value x \<noteq> None"
    if x: "x \<in> set (p m k)" and mk: "(m, k) \<in> {(0, 8), (9, 4), (14, 4), (19, 4), (24, 12)}" for x m k
  proof -
    obtain i where i: "m \<le> i" "i < m + k" "i < 36" "x = s ! i"
      using piece_member [of x k m s] x n unfolding p_def by auto
    then have "i \<notin> {8, 13, 18, 23}" using mk by auto
    then show ?thesis using at [OF i(3)] i(4) by simp
  qed
  then have "\<forall>x \<in> set (p 0 8 @ p 9 4 @ p 14 4 @ p 19 4 @ p 24 12). hex_digit_value x \<noteq> None" by auto
  with s l show thesis by (rule that)
qed

lemma unpack_uuid:
  assumes "uuid_match s"
  shows "unpackConversationId (0x01 # hexToBytes (filter (\<lambda>c. c \<noteq> CHR ''-'') s)) = Ok (to_lower s)"
proof -
  obtain a b c d e where s: "s = join_with ''-'' [a, b, c, d, e]" "map length [a, b, c, d, e] = [8, 4, 4, 4, 12]"
      "\<forall>x \<in> set (a @ b @ c @ d @ e). hex_digit_value x \<noteq> None"
    using uuid_pieces [OF assms] .
  let ?h = "a @ b @ c @ d @ e"
  have dash: "hex_digit_value (CHR ''-'') = None" "hex_digit_value (CHR ''x'') = None" by code_simp+
  have nd: "CHR ''-'' \<notin> set ?h"
  proof
    assume "CHR ''-'' \<in> set ?h"
    with s(3) have "hex_digit_value (CHR ''-'') \<noteq> None" by (rule bspec)
    then show False using dash by simp
  qed
  have plain: "filter (\<lambda>c. c \<noteq> CHR ''-'') y = y" if "CHR ''-'' \<notin> set y" for y
    using that by (intro filter_True) blast
  have f: "filter (\<lambda>c. c \<noteq> CHR ''-'') s = ?h"
    using plain [of a] plain [of b] plain [of c] plain [of d] plain [of e] nd by (simp add: s(1))
  have "\<not> starts_with ?h ''0x''"
  proof
    assume "starts_with ?h ''0x''"
    then obtain r where "?h = ''0x'' @ r" unfolding starts_with_split by blast
    then have "CHR ''x'' \<in> set ?h" by simp
    then show False using s(3) dash by blast
  qed
  then have hb: "hexToBytes ?h = hex_pairs (to_lower ?h)" by (simp add: hexToBytes_def)
  have low: "list_all is_lower_hex (to_lower ?h)" "even (length (to_lower ?h))" "length (to_lower ?h) = 32"
    using s(2,3) digits_lowered by (auto simp: to_lower_def list_all_iff)
  have "bytesToHex (hex_pairs (to_lower ?h)) = to_lower ?h" "length (hex_pairs (to_lower ?h)) = 16"
    using hex_pairs_text [OF low(1,2)] low(3) by simp_all
  then have "unpackConversationId (0x01 # hex_pairs (to_lower ?h)) =
      Ok (join_with ''-'' [to_lower a, to_lower b, to_lower c, to_lower d, to_lower e])"
    using s(2) by (simp add: unpackConversationId_def Let_def to_lower_def)
  moreover have "to_lower s = join_with ''-'' [to_lower a, to_lower b, to_lower c, to_lower d, to_lower e]"
    by (simp add: s(1) to_lower_def to_lower_char_def)
  ultimately show ?thesis by (simp add: f hb)
qed

lemma low_byte: "n AND 0xff = n mod (256 :: nat)"
  using take_bit_eq_mask [of 8 n] by (simp add: take_bit_eq_mod mask_eq_exp_minus_1)

text \<open>An identifier in the form of a UUID comes back in lower case, every other one of at most 65535
  bytes as it is.\<close>

definition transported :: "conversation_id_format option \<Rightarrow> string \<Rightarrow> string" where
  "transported format i = (if format \<noteq> Some IF_string \<and> uuid_match i then to_lower i else i)"

lemma unpack_packed:
  assumes "packConversationId i format = Ok packed" "i \<noteq> []" "length i < 65536"
  shows "unpackConversationId packed = Ok (transported format i)"
proof (cases "format \<noteq> Some IF_string \<and> uuid_match i")
  case True
  then have "packed = 0x01 # hexToBytes (filter (\<lambda>c. c \<noteq> CHR ''-'') i)"
    using assms(1) by (cases "the format") (auto simp: packConversationId_def split: option.splits conversation_id_format.splits)
  then show ?thesis using unpack_uuid True by (simp add: transported_def)
next
  case False
  let ?n = "length i"
  have packed: "packed = (if ?n \<le> 255 then 0x02 # of_nat ?n # text_octets i
      else 0x02 # 0x00 # of_nat (drop_bit 8 ?n AND 0xff) # of_nat (?n AND 0xff) # text_octets i)"
    using assms(1) False by (auto simp: packConversationId_def Let_def text_octets_def split: option.splits conversation_id_format.splits if_splits)
  have t: "transported format i = i" using False by (auto simp: transported_def)
  show ?thesis
  proof (cases "?n \<le> 255")
    case True
    then have "unat (of_nat ?n :: 8 word) = ?n" by (simp add: unat_of_nat)
    moreover from this have "(of_nat ?n :: 8 word) \<noteq> 0" using assms(2) by auto
    ultimately show ?thesis using True packed t octets_roundtrip [of i]
      by (simp add: unpackConversationId_def text_octets_def)
  next
    case False
    have b: "unat (of_nat (drop_bit 8 ?n AND 0xff) :: 8 word) = ?n div 256" "unat (of_nat (?n AND 0xff) :: 8 word) = ?n mod 256"
      using assms(3) by (simp_all add: unat_of_nat drop_bit_eq_div low_byte)
    have "push_bit 8 (?n div 256) OR ?n mod 256 = ?n" by (simp add: push_or_add)
    then show ?thesis using False packed t b octets_roundtrip [of i]
      by (simp add: unpackConversationId_def text_octets_def)
  qed
qed

subsection \<open>An invite is read as it was written\<close>

text \<open>What the packages promise: decryption undoes encryption under the same key, nonce and
  additional data; a recoverable signature has 64 bytes and a recovery number and yields the public
  key; inflation undoes deflation within the size allowed; a message that was encoded is decoded with
  defaults where a field was not set, and a signed invite begins with the tag of its first field; a
  text without a colon is not a URL, and the parameter of one is decoded.\<close>

definition decoded_of :: "invite_payload \<Rightarrow> decoded_payload" where
  "decoded_of p =
     \<lparr>dp_conversationToken = iv_conversationToken p, dp_creatorInboxId = iv_creatorInboxId p, dp_tag = iv_tag p,
      dp_name = nullish (iv_name p) [], dp_description = nullish (iv_description p) [],
      dp_imageURL = nullish (iv_imageURL p) [], dp_conversationExpiresAtUnix = 0,
      dp_expiresAtUnix = nullish (iv_expiresAtUnix p) 0, dp_expiresAfterUse = iv_expiresAfterUse p\<rparr>"

definition invite_url :: "xmtp_env \<Rightarrow> string \<Rightarrow> string" where
  "invite_url env slug = resolveInviteBaseUrl env @ ''?i='' @ encodeURIComponent slug"

definition engine_laws :: "invite_engine \<Rightarrow> bool" where
  "engine_laws en \<longleftrightarrow>
     (\<forall>k n a p. ie_decrypt en k n a (ie_encrypt en k n a p) = Ok p) \<and>
     (\<forall>h k c r. ie_sign en h k = Ok (c, r) \<longrightarrow>
        length c = 64 \<and> r \<le> 3 \<and> (\<exists>pk. ie_publicKey en k = Ok pk \<and> ie_recover en c r h = Ok pk)) \<and>
     (\<forall>d. length d \<le> maxDecompressedSize \<longrightarrow> ie_inflate en (ie_deflate en d) maxDecompressedSize = Ok d) \<and>
     (\<forall>p. ie_verifyPayload en p = None \<and> iv_conversationToken p \<noteq> [] \<longrightarrow>
        ie_encodePayload en p \<noteq> [] \<and> ie_decodePayload en (ie_encodePayload en p) = Ok (decoded_of p)) \<and>
     (\<forall>p s. p \<noteq> [] \<longrightarrow> (\<exists>rest. ie_encodeSigned en p s = 10 # rest) \<and> ie_decodeSigned en (ie_encodeSigned en p s) = Ok (p, s)) \<and>
     (\<forall>s. CHR '':'' \<notin> set s \<longrightarrow> ie_url en s = None) \<and>
     (\<forall>env s. \<exists>u. ie_url en (invite_url env s) = Some u \<and> ur_param u ''i'' = Some s)"

lemma compress_roundtrip:
  assumes "engine_laws en" "data = 10 # rest" "length data \<le> maxDecompressedSize"
  shows "decompress en field (compress en data) = Ok data"
proof (cases "length data \<le> 100 \<or> \<not> length (ie_deflate en data) + 5 < length data")
  case True
  then show ?thesis using assms(2) by (auto simp: compress_def decompress_def Let_def)
next
  case False
  let ?n = "length data"
  have b: "unat (of_nat (drop_bit k ?n AND 0xff) :: 8 word) = ?n div 2 ^ k mod 256" for k
    by (simp add: unat_of_nat drop_bit_eq_div low_byte)
  have b0: "unat (of_nat (?n AND 0xff) :: 8 word) = ?n mod 256" by (simp add: unat_of_nat low_byte)
  have n: "?n \<le> 1048576" using assms(3) by (simp add: maxDecompressedSize_def)
  have size: "?n div 2 ^ 24 mod 256 * 0x1000000 + ?n div 2 ^ 16 mod 256 * 0x10000 + ?n div 2 ^ 8 mod 256 * 0x100 + ?n mod 256 = ?n"
  proof -
    define q where "q = ?n div 256"
    have "q * 256 + ?n mod 256 = ?n" "q div 256 * 256 + q mod 256 = q" by (simp_all add: q_def)
    then have "q div 256 * 65536 + q mod 256 * 256 + ?n mod 256 = ?n" by linarith
    moreover have "?n div 16777216 = 0" "?n div 65536 mod 256 = ?n div 65536" using n by simp_all
    moreover have "?n div 65536 = q div 256" by (simp add: q_def div_mult2_eq [symmetric])
    ultimately show ?thesis by (simp add: q_def)
  qed
  have "ie_inflate en (ie_deflate en data) maxDecompressedSize = Ok data"
    using assms(1,3) by (simp add: engine_laws_def)
  then show ?thesis using False n assms(3)
    by (simp add: compress_def decompress_def Let_def b b0 size del: power_numeral)
qed

lemma base64_roundtrip: "base64UrlDecode (toBase64Url bs) = bs"
proof -
  have pad: "b64_value (CHR ''='') = None" "std_char (CHR ''='') = CHR ''=''" by code_simp+
  have std: "std_char (std_char c) = std_char c" for c by (simp add: std_char_def)
  have "map std_char (toBase64Url bs) = map b64_char (b64_digits bs)"
  proof (cases "bs = []")
    case False
    then show ?thesis using b64_digits_bound [of _ bs] b64_char_plain std_url_char
      by (auto simp: toBase64Url_eq encoded_body)
  qed (simp add: toBase64Url_def btoa_def b64_padding_def)
  moreover have "filter (\<lambda>c. b64_value c \<noteq> None) (map b64_char (b64_digits bs)) = map b64_char (b64_digits bs)"
    using b64_digits_bound [of _ bs] b64_char_facts(1) by (intro filter_True) fastforce
  moreover have "map (\<lambda>c. the (b64_value c)) (map b64_char (b64_digits bs)) = b64_digits bs"
    using b64_digits_bound [of _ bs] b64_char_facts(1) by (auto intro: map_idI)
  moreover have "map std_char (map b64_char (b64_digits bs)) = map b64_char (b64_digits bs)"
    using calculation(1) std by (metis (no_types, lifting) list.map_comp list.map_cong0 o_apply)
  ultimately show ?thesis
    by (simp add: base64UrlDecode_def buffer_base64_def Let_def pad b64_bytes_digits del: map_map)
qed

lemma separated_parts_concat: "0 < every \<Longrightarrow> concat (separated_parts every str) = str"
  by (induction every str rule: separated_parts.induct) (subst separated_parts.simps, auto)

lemma separators_removed:
  assumes "CHR ''*'' \<notin> set str"
  shows "filter (\<lambda>c. c \<noteq> CHR ''*'') (insertSeparators str ''*'' 300) = str"
proof -
  have join: "filter (\<lambda>c. c \<noteq> CHR ''*'') (join_with ''*'' ps) = filter (\<lambda>c. c \<noteq> CHR ''*'') (concat ps)" for ps
    by (induction "''*''" ps rule: join_with.induct) simp_all
  have "filter (\<lambda>c. c \<noteq> CHR ''*'') str = str" using assms by (intro filter_True) auto
  then show ?thesis by (simp add: insertSeparators_def join separated_parts_concat)
qed

text \<open>A slug is plain text: the characters of the alphabet and the separator.\<close>

definition slug_char :: "char \<Rightarrow> bool" where
  "slug_char c \<longleftrightarrow> \<not> is_js_space c \<and> c \<noteq> CHR '':'' \<and> encodeURIComponent [c] = [c]"

lemma alphabet_slug: "list_all (\<lambda>c. slug_char c \<and> c \<noteq> CHR ''*'') (map url_char b64_alphabet)" "slug_char (CHR ''*'')"
  by code_simp+

lemma length_alphabet: "length b64_alphabet = 64"
  by code_simp

lemma encoded_slug: "c \<in> set (toBase64Url bs) \<Longrightarrow> slug_char c \<and> c \<noteq> CHR ''*''"
proof (cases "bs = []")
  case False
  assume "c \<in> set (toBase64Url bs)"
  then obtain d where "d \<in> set (b64_digits bs)" "c = url_char (b64_char d)"
    using False by (auto simp: toBase64Url_eq encoded_body)
  moreover from this have "b64_char d \<in> set b64_alphabet"
    using b64_digits_bound length_alphabet unfolding b64_char_def by (metis nth_mem)
  ultimately show ?thesis using alphabet_slug(1) by (simp add: list_all_iff)
qed (simp add: toBase64Url_def btoa_def b64_padding_def)

lemma separated_plain:
  assumes "\<And>c. c \<in> set str \<Longrightarrow> slug_char c"
  shows "c \<in> set (insertSeparators str ''*'' 300) \<Longrightarrow> slug_char c"
proof -
  have join: "set (join_with ''*'' ps) \<subseteq> set (concat ps) \<union> {CHR ''*''}" for ps
    by (induction "''*''" ps rule: join_with.induct) auto
  then show "c \<in> set (insertSeparators str ''*'' 300) \<Longrightarrow> slug_char c"
    using join [of "separated_parts 300 str"] assms alphabet_slug(2)
    by (auto simp: insertSeparators_def separated_parts_concat split: if_splits)
qed

lemma trim_plain: "(\<And>c. c \<in> set s \<Longrightarrow> \<not> is_js_space c) \<Longrightarrow> js_trim s = s"
proof -
  assume s: "\<And>c. c \<in> set s \<Longrightarrow> \<not> is_js_space c"
  have "dropWhile is_js_space t = t" if "set t \<subseteq> set s" for t
    using that s by (cases t) auto
  from this [of s] this [of "rev s"] show ?thesis by (simp add: js_trim_def)
qed

lemma encode_plain: "(\<And>c. c \<in> set s \<Longrightarrow> encodeURIComponent [c] = [c]) \<Longrightarrow> encodeURIComponent s = s"
proof (induction s)
  case (Cons c s)
  have "encodeURIComponent (c # s) = encodeURIComponent [c] @ encodeURIComponent s" by (simp add: encodeURIComponent_def)
  then show ?case using Cons by simp
qed (simp add: encodeURIComponent_def)

lemma slug_found:
  assumes "engine_laws en" "\<And>c. c \<in> set slug \<Longrightarrow> slug_char c" "slug \<noteq> []" "input = slug \<or> input = invite_url env slug"
  shows "extractSlug en input = slug"
  using assms(4)
proof
  assume "input = slug"
  moreover have "js_trim slug = slug" by (rule trim_plain) (use assms(2) slug_char_def in blast)
  moreover have "CHR '':'' \<notin> set slug" using assms(2) by (auto simp: slug_char_def)
  then have "ie_url en slug = None" using assms(1) by (simp add: engine_laws_def)
  ultimately show ?thesis by (simp add: extractSlug_def)
next
  assume i: "input = invite_url env slug"
  have "list_all (\<lambda>c. \<not> is_js_space c) (''https://dev.convos.org/v2'' @ ''?i='')"
      "list_all (\<lambda>c. \<not> is_js_space c) (''https://popup.convos.org/v2'' @ ''?i='')"
    by code_simp+
  then have base: "list_all (\<lambda>c. \<not> is_js_space c) (resolveInviteBaseUrl env @ ''?i='')"
    by (cases "env = Env_dev \<or> env = Env_local") (simp_all only: resolveInviteBaseUrl_def if_True if_False)
  have "encodeURIComponent slug = slug" 
    by (rule encode_plain) (use assms(2) slug_char_def in blast)
  then have input: "input = (resolveInviteBaseUrl env @ ''?i='') @ slug" by (simp only: i invite_url_def append_assoc)
  have "js_trim input = input"
  proof (rule trim_plain)
    fix c assume "c \<in> set input"
    then have "c \<in> set (resolveInviteBaseUrl env @ ''?i='') \<or> c \<in> set slug" by (simp only: input set_append Un_iff)
    then show "\<not> is_js_space c" using base assms(2) unfolding list_all_iff slug_char_def by blast
  qed
  moreover obtain u where "ie_url en input = Some u" "ur_param u ''i'' = Some slug"
    using assms(1) unfolding i engine_laws_def by blast
  ultimately show ?thesis using assms(3) by (simp add: extractSlug_def)
qed

definition expires_by :: "int option \<Rightarrow> int \<Rightarrow> bool" where
  "expires_by expiresAt now \<longleftrightarrow> (case expiresAt of None \<Rightarrow> False | Some ms \<Rightarrow> expired (now div 1000) (ms div 1000))"

lemma invite_parsed:
  assumes "engine_laws en" "generateConvosInviteSlug en nonce opts = Ok slug" "input = slug \<or> input = invite_url env slug"
    and "length nonce = 12" "signed_invite en nonce opts = Ok data" "length data \<le> maxDecompressedSize"
    and "go_creatorInboxId opts \<noteq> []" "even (length (go_creatorInboxId opts))"
    and "list_all is_lower_hex (go_creatorInboxId opts)" "go_inviteTag opts \<noteq> []"
    and "go_conversationId opts \<noteq> []" "length (go_conversationId opts) < 65536"
  shows "\<exists>invite pk. parseConvosInviteUrl en now input = Ok invite \<and> verifyConvosInvite en invite = Ok () \<and>
    pi_tag invite = go_inviteTag opts \<and> pi_creatorInboxId invite = go_creatorInboxId opts \<and>
    pi_name invite = or_undefined (nullish (go_name opts) []) \<and>
    pi_isExpired invite = expires_by (go_expiresAt opts) now \<and> \<not> pi_isConversationExpired invite \<and>
    pi_expiresAfterUse invite = nullish (go_expiresAfterUse opts) False \<and>
    length (pi_signature invite) = 65 \<and> recoverPublicKey en (pi_payloadBytes invite) (pi_signature invite) = Ok pk \<and>
    ie_publicKey en (hexToBytes (go_walletPrivateKeyHex opts)) = Ok pk \<and>
    decryptConversationToken en (pi_conversationToken invite) (go_creatorInboxId opts) (hexToBytes (go_walletPrivateKeyHex opts)) =
      Ok (transported (go_conversationIdFormat opts) (go_conversationId opts))"
proof -
  let ?key = "hexToBytes (go_walletPrivateKeyHex opts)"
  obtain packed where packed: "packConversationId (go_conversationId opts) (go_conversationIdFormat opts) = Ok packed"
    using assms(5) by (auto simp: signed_invite_def Let_def split: result.splits)
  let ?token = "encryptToken en nonce packed (go_creatorInboxId opts) ?key"
  let ?p = "invite_payload_of opts ?token"
  let ?pb = "ie_encodePayload en ?p"
  obtain sig where v: "ie_verifyPayload en ?p = None" "sign_invite en ?pb ?key = Ok sig" "data = ie_encodeSigned en ?pb sig"
    using assms(5) packed by (auto simp: signed_invite_def Let_def split: result.splits option.splits)
  have enc: "?pb \<noteq> []" "ie_decodePayload en ?pb = Ok (decoded_of ?p)"
    using assms(1) v(1) by (simp_all add: engine_laws_def invite_payload_of_def encryptToken_def)
  obtain rest where sg: "data = 10 # rest" "ie_decodeSigned en data = Ok (?pb, sig)"
    using assms(1) enc(1) v(3) unfolding engine_laws_def by blast
  obtain c r where cr: "ie_sign en (ie_sha256 en ?pb) ?key = Ok (c, r)" "sig = c @ [r]"
    using v(2) by (auto simp: sign_invite_def split: result.splits)
  obtain pk where pk: "length c = 64" "r \<le> 3" "ie_publicKey en ?key = Ok pk" "ie_recover en c r (ie_sha256 en ?pb) = Ok pk"
    using assms(1) cr(1) unfolding engine_laws_def by metis
  have recover: "recoverPublicKey en ?pb sig = Ok pk"
    using pk by (simp add: recoverPublicKey_def cr(2) nth_append)
  have slug: "slug = insertSeparators (toBase64Url (compress en data)) ''*'' 300"
    using assms(2,5) by (simp add: generateConvosInviteSlug_def)
  have ne: "compress en data \<noteq> []" by (auto simp: compress_def Let_def sg(1))
  have "toBase64Url (compress en data) \<noteq> []"
    using ne encoded_body [OF ne] by (cases "compress en data" rule: b64_digits.cases) (auto simp: toBase64Url_eq)
  moreover have removed: "filter (\<lambda>c. c \<noteq> CHR ''*'') slug = toBase64Url (compress en data)"
    unfolding slug by (rule separators_removed) (use encoded_slug in blast)
  ultimately have "slug \<noteq> []" by auto
  then have "extractSlug en input = slug"
    using slug_found [OF assms(1)] separated_plain encoded_slug assms(3) unfolding slug by blast
  then have "base64UrlDecode (filter (\<lambda>c. c \<noteq> CHR ''*'') (extractSlug en input)) = compress en data"
    by (simp add: removed base64_roundtrip)
  moreover have "decompress en ''inviteUrl'' (compress en data) = Ok data"
    by (rule compress_roundtrip [OF assms(1) sg(1) assms(6)])
  moreover have creator: "hexToBytes (go_creatorInboxId opts) \<noteq> []" "bytesToHex (hexToBytes (go_creatorInboxId opts)) = go_creatorInboxId opts"
    using hex_lower_read [OF assms(9,8)] assms(7) by auto
  moreover have "sig \<noteq> []" by (simp add: cr(2))
  ultimately have parsed: "parseConvosInviteUrl en now input = Ok
      \<lparr>pi_payloadBytes = ?pb, pi_signature = sig, pi_conversationToken = ?token, pi_creatorInboxId = go_creatorInboxId opts,
       pi_tag = go_inviteTag opts, pi_name = or_undefined (nullish (go_name opts) []),
       pi_description = or_undefined (nullish (go_description opts) []),
       pi_imageUrl = or_undefined (nullish (go_imageUrl opts) []),
       pi_isExpired = expires_by (go_expiresAt opts) now, pi_isConversationExpired = False,
       pi_expiresAfterUse = nullish (go_expiresAfterUse opts) False\<rparr>"
    using ne sg(2) enc assms(10)
    by (simp add: parseConvosInviteUrl_def Let_def decoded_of_def invite_payload_of_def expires_by_def expired_def
        split: option.split)
  moreover have "decryptConversationToken en ?token (go_creatorInboxId opts) ?key =
      Ok (transported (go_conversationIdFormat opts) (go_conversationId opts))"
    using assms(1,4) unpack_packed [OF packed assms(11,12)]
    by (simp add: decryptConversationToken_def decryptToken_def encryptToken_def engine_laws_def)
  ultimately show ?thesis using recover pk cr(2) by (auto simp: verifyConvosInvite_def)
qed

end
