(* ===== verification/JoinHost.thy ===== *)
theory JoinHost
  imports Invite XmtpClient
begin

text \<open>
  The host's side of an invite: join requests and the check that admits their senders
  (\<^verbatim>\<open>packages/core/src/schemes/convos/join-request-content.ts\<close>, \<^verbatim>\<open>process-join-requests.ts\<close>).
  The answers of the network are arguments; the calls that add members are collected. The end of the theory puts the
  generator, the parser and the host together.
\<close>

subsection \<open>Join requests\<close>

definition isEncodedContentEnvelope :: "invite_engine \<Rightarrow> js_value \<Rightarrow> bool" where
  "isEncodedContentEnvelope en v \<longleftrightarrow>
     is_obj v \<and> ie_bytesOf en (js_get v ''content'') \<noteq> None \<and>
     as_str (js_get (js_get v ''type'') ''authorityId'') \<noteq> None \<and> as_str (js_get (js_get v ''type'') ''typeId'') \<noteq> None"

definition isJoinRequestShape :: "js_value \<Rightarrow> bool" where
  "isJoinRequestShape v \<longleftrightarrow> is_obj v \<and> as_str (js_get v ''inviteSlug'') \<noteq> None"

text \<open>\<open>None\<close> when decoding throws.\<close>

definition decodeJoinRequest :: "invite_engine \<Rightarrow> js_value \<Rightarrow> js_value option" where
  "decodeJoinRequest en v =
     (case Option.bind (ie_bytesOf en (js_get v ''content'')) (ie_parseJson en) of
        None \<Rightarrow> None
      | Some parsed \<Rightarrow> if isJoinRequestShape parsed then Some parsed else None)"

definition extractJoinRequestContent :: "invite_engine \<Rightarrow> js_value \<Rightarrow> js_value option" where
  "extractJoinRequestContent en v =
     (if isJoinRequestShape v then Some v
      else if isEncodedContentEnvelope en v then decodeJoinRequest en v
      else None)"

definition isJoinRequestContentType :: "string \<Rightarrow> bool" where
  "isJoinRequestContentType contentType \<longleftrightarrow>
     contentType = ''join_request'' \<or> contentType = ''convos.org/join_request:1.0''"

text \<open>The slug of a request, or the text itself.\<close>

definition invite_text :: "invite_engine \<Rightarrow> js_value \<Rightarrow> string option" where
  "invite_text en content =
     (case extractJoinRequestContent en content of
        Some joinRequest \<Rightarrow> as_str (js_get joinRequest ''inviteSlug'')
      | None \<Rightarrow> as_str content)"

subsection \<open>Processing a request\<close>

record host_context =
  hx_creatorInboxId :: string
  hx_walletPrivateKeyHex :: string
  hx_addMembersToGroup :: "string \<Rightarrow> string list \<Rightarrow> (unit, signet_error) result"
  hx_getGroupInviteTag :: "string \<Rightarrow> (string option, signet_error) result"

record join_request_result =
  jr_groupId :: string
  jr_requesterInboxId :: string
  jr_inviteTag :: string

type_synonym add_calls = "(string \<times> string list) list"

definition invite_refused :: "string \<Rightarrow> signet_error" where
  "invite_refused reason = ValidationError_create ''invite'' reason []"

definition verifySignatureMatchesKey :: "invite_engine \<Rightarrow> bytes \<Rightarrow> bytes \<Rightarrow> bytes \<Rightarrow> bool" where
  "verifySignatureMatchesKey en payload signature privateKeyBytes \<longleftrightarrow>
     length signature = 65 \<and> signature ! 64 \<le> 3 \<and>
     (case (ie_recover en (take 64 signature) (signature ! 64) (ie_sha256 en payload), ie_publicKey en privateKeyBytes) of
        (Ok recovered, Ok expected) \<Rightarrow> recovered = expected
      | _ \<Rightarrow> False)"

definition admit :: "host_context \<Rightarrow> string \<Rightarrow> parsed_invite \<Rightarrow> string \<Rightarrow> (join_request_result, signet_error) result \<times> add_calls" where
  "admit host sender invite groupId =
     (case hx_getGroupInviteTag host groupId of
        Err e \<Rightarrow> (Err e, [])
      | Ok tag \<Rightarrow>
          if tag \<noteq> None \<and> tag \<noteq> Some (pi_tag invite)
          then (Err (invite_refused ''Invite tag does not match the stored tag for this group''), [])
          else ((case hx_addMembersToGroup host groupId [sender] of
                   Err e \<Rightarrow> Err e
                 | Ok _ \<Rightarrow> Ok \<lparr>jr_groupId = groupId, jr_requesterInboxId = sender, jr_inviteTag = pi_tag invite\<rparr>),
                [(groupId, [sender])]))"

definition processJoinRequest ::
  "invite_engine \<Rightarrow> int \<Rightarrow> host_context \<Rightarrow> string \<Rightarrow> js_value \<Rightarrow> (join_request_result, signet_error) result \<times> add_calls" where
  "processJoinRequest en now host sender content =
     (let inviteText = nullish (invite_text en content) []
      in if inviteText = [] then (Err (invite_refused ''Join request does not contain an invite''), [])
         else case parseConvosInviteUrl en now inviteText of
           Err e \<Rightarrow> (Err e, [])
         | Ok invite \<Rightarrow>
             if pi_isExpired invite then (Err (invite_refused ''Invite has expired''), [])
             else if pi_isConversationExpired invite then (Err (invite_refused ''Conversation has expired''), [])
             else let privateKeyBytes = hexToBytes (hx_walletPrivateKeyHex host)
                  in if \<not> verifySignatureMatchesKey en (pi_payloadBytes invite) (pi_signature invite) privateKeyBytes
                     then (Err (invite_refused ''Invite signature does not match creator wallet key''), [])
                     else if pi_creatorInboxId invite \<noteq> hx_creatorInboxId host
                     then (Err (invite_refused ''Invite creator inbox ID does not match''), [])
                     else case decryptConversationToken en (pi_conversationToken invite) (pi_creatorInboxId invite) privateKeyBytes of
                       Err cause \<Rightarrow> (Err (invite_refused (''Failed to decrypt conversation token: '' @ cause)), [])
                     | Ok groupId \<Rightarrow> admit host sender invite groupId)"

lemma host_processes_invite:
  assumes "engine_laws en" "generateConvosInviteSlug en nonce opts = Ok slug"
    and "input = slug \<or> input = invite_url env slug"
    and "content = VStr input \<or> content = VObj [(''inviteSlug'', VStr input)]"
    and "length nonce = 12" "signed_invite en nonce opts = Ok data" "length data \<le> maxDecompressedSize"
    and "go_creatorInboxId opts \<noteq> []" "even (length (go_creatorInboxId opts))"
    and "list_all is_lower_hex (go_creatorInboxId opts)" "go_inviteTag opts \<noteq> []"
    and "go_conversationId opts \<noteq> []" "length (go_conversationId opts) < 65536"
    and "hx_creatorInboxId host = go_creatorInboxId opts" "hx_walletPrivateKeyHex host = go_walletPrivateKeyHex opts"
    and "transported (go_conversationIdFormat opts) (go_conversationId opts) = groupId"
  shows "processJoinRequest en now host sender content =
    (if expires_by (go_expiresAt opts) now then (Err (invite_refused ''Invite has expired''), [])
     else case hx_getGroupInviteTag host groupId of
            Err e \<Rightarrow> (Err e, [])
          | Ok stored \<Rightarrow>
              if stored \<noteq> None \<and> stored \<noteq> Some (go_inviteTag opts)
              then (Err (invite_refused ''Invite tag does not match the stored tag for this group''), [])
              else ((case hx_addMembersToGroup host groupId [sender] of
                       Err e \<Rightarrow> Err e
                     | Ok _ \<Rightarrow> Ok \<lparr>jr_groupId = groupId, jr_requesterInboxId = sender, jr_inviteTag = go_inviteTag opts\<rparr>),
                    [(groupId, [sender])]))"
proof -
  obtain invite pk where i: "parseConvosInviteUrl en now input = Ok invite"
      "pi_tag invite = go_inviteTag opts" "pi_creatorInboxId invite = go_creatorInboxId opts"
      "pi_isExpired invite = expires_by (go_expiresAt opts) now" "\<not> pi_isConversationExpired invite"
      "length (pi_signature invite) = 65" "recoverPublicKey en (pi_payloadBytes invite) (pi_signature invite) = Ok pk"
      "ie_publicKey en (hexToBytes (go_walletPrivateKeyHex opts)) = Ok pk"
      "decryptConversationToken en (pi_conversationToken invite) (go_creatorInboxId opts)
         (hexToBytes (go_walletPrivateKeyHex opts)) = Ok groupId"
    using invite_parsed [OF assms(1,2,3,5-13)] assms(16) by blast
  have carried: "invite_text en content = Some input"
    using assms(4) by (auto simp: invite_text_def extractJoinRequestContent_def isJoinRequestShape_def isEncodedContentEnvelope_def)
  have "verifySignatureMatchesKey en (pi_payloadBytes invite) (pi_signature invite) (hexToBytes (go_walletPrivateKeyHex opts))"
    using i(6-8) by (auto simp: verifySignatureMatchesKey_def recoverPublicKey_def split: if_splits)
  moreover have "input \<noteq> []"
  proof
    assume "input = []"
    moreover have "ie_url en [] = None" using assms(1) by (simp add: engine_laws_def)
    ultimately have "extractSlug en input = []" by (simp add: extractSlug_def js_trim_def)
    then show False using i(1) by (simp add: parseConvosInviteUrl_def base64UrlDecode_def buffer_base64_def)
  qed
  ultimately show ?thesis using i(1-5,9) assms(14,15) carried
    by (cases "hx_getGroupInviteTag host groupId"; cases "hx_addMembersToGroup host groupId [sender]")
      (simp_all add: processJoinRequest_def admit_def Let_def)
qed

text \<open>An engine with these laws, and an invite made with it.\<close>

definition sample_invite_options :: slug_options where
  "sample_invite_options =
     \<lparr>go_conversationId = ''g1'', go_conversationIdFormat = None, go_creatorInboxId = ''ab'', go_walletPrivateKeyHex = ''01'',
      go_inviteTag = ''t'', go_name = Some ''Team'', go_description = None, go_imageUrl = None, go_expiresAt = Some 5000,
      go_expiresAfterUse = None\<rparr>"

definition sample_invite_engine :: invite_engine where
  "sample_invite_engine =
     \<lparr>ie_hkdf = (\<lambda>_ _ _. []), ie_encrypt = (\<lambda>_ _ _ p. p), ie_decrypt = (\<lambda>_ _ _ p. Ok p), ie_sha256 = (\<lambda>_. []),
      ie_sign = (\<lambda>_ _. Ok (replicate 64 0, 0)), ie_recover = (\<lambda>_ _ _. Ok []), ie_publicKey = (\<lambda>_. Ok []),
      ie_deflate = (\<lambda>d. d), ie_inflate = (\<lambda>d _. Ok d),
      ie_verifyPayload = (\<lambda>p. if p = invite_payload_of sample_invite_options (iv_conversationToken p) then None else Some ''unknown''),
      ie_encodePayload = iv_conversationToken,
      ie_decodePayload = (\<lambda>b. Ok (decoded_of (invite_payload_of sample_invite_options b))),
      ie_encodeSigned = (\<lambda>p s. 10 # replicate (length p) 1 @ 0 # p @ s),
      ie_decodeSigned = (\<lambda>d. let n = length (takeWhile (\<lambda>b. b = 1) (tl d)); body = drop (n + 1) (tl d) in Ok (take n body, drop n body)),
      ie_url = (\<lambda>s. if CHR '':'' \<in> set s
         then Some \<lparr>ur_param = (\<lambda>k. if k = ''i'' then percent_decode (tl (dropWhile (\<lambda>c. c \<noteq> CHR ''='') s)) else None),
                     ur_pathname = []\<rparr>
         else None),
      ie_parseJson = (\<lambda>_. None), ie_bytesOf = (\<lambda>_. None)\<rparr>"

lemma sample_engine_laws: "engine_laws sample_invite_engine"
proof -
  have tw: "takeWhile (\<lambda>b. b = (1 :: 8 word)) (replicate n 1 @ 0 # xs) = replicate n 1" for n xs
    by (induction n) simp_all
  have dw: "dropWhile (\<lambda>c. c \<noteq> CHR ''='') (invite_url env s) = CHR ''='' # encodeURIComponent s" for env s
    by (simp add: invite_url_def resolveInviteBaseUrl_def)
  have colon: "CHR '':'' \<in> set (invite_url env s)" for env s
    by (simp add: invite_url_def resolveInviteBaseUrl_def)
  show ?thesis
    unfolding engine_laws_def sample_invite_engine_def
    by (simp add: Let_def tw dw colon percent_decode_encode)
qed

definition sample_host :: host_context where
  "sample_host =
     \<lparr>hx_creatorInboxId = ''ab'', hx_walletPrivateKeyHex = ''01'', hx_addMembersToGroup = (\<lambda>_ _. Ok ()),
      hx_getGroupInviteTag = (\<lambda>_. Ok (Some ''t''))\<rparr>"

lemma sample_signed:
  "\<exists>data slug. signed_invite sample_invite_engine (replicate 12 7) sample_invite_options = Ok data \<and>
     length data \<le> maxDecompressedSize \<and>
     generateConvosInviteSlug sample_invite_engine (replicate 12 7) sample_invite_options = Ok slug"
proof -
  obtain data where data: "signed_invite sample_invite_engine (replicate 12 7) sample_invite_options = Ok data" "length data \<le> maxDecompressedSize"
    by (simp add: signed_invite_def sample_invite_engine_def sample_invite_options_def packConversationId_def uuid_match_def
        Let_def text_octets_def encryptToken_def invite_payload_of_def sign_invite_def maxDecompressedSize_def)
  then show ?thesis by (simp add: generateConvosInviteSlug_def)
qed

lemma sample_transported: "transported (go_conversationIdFormat sample_invite_options) (go_conversationId sample_invite_options) = ''g1''"
  by (simp add: transported_def sample_invite_options_def uuid_match_def)

lemma sample_request:
  "\<exists>slug. processJoinRequest sample_invite_engine 4000 sample_host ''bob'' (VObj [(''inviteSlug'', VStr slug)]) =
     (Ok \<lparr>jr_groupId = ''g1'', jr_requesterInboxId = ''bob'', jr_inviteTag = ''t''\<rparr>, [(''g1'', [''bob''])])"
proof -
  obtain data slug where d: "signed_invite sample_invite_engine (replicate 12 7) sample_invite_options = Ok data" "length data \<le> maxDecompressedSize"
      and slug: "generateConvosInviteSlug sample_invite_engine (replicate 12 7) sample_invite_options = Ok slug"
    using sample_signed by blast
  from host_processes_invite [OF sample_engine_laws slug disjI1 [OF refl] disjI2 [OF refl] _ d _ _ _ _ _ _ _ _ sample_transported,
      of sample_host 4000 "''bob''"]
  show ?thesis
    by (intro exI [of _ slug]) (simp add: sample_host_def sample_invite_options_def expires_by_def expired_def is_lower_hex_def)
qed



end
