(* ===== verification/InviteListener.thy ===== *)
theory InviteListener
  imports JoinHost
begin

text \<open>
  The listener of the host (\<^verbatim>\<open>packages/cli/src/invite-host-listener.ts\<close>): which messages are candidates, the trial
  of the managed identities, the scan of a conversation for missed requests, and the listener itself
  as a system of requests that interleave at their awaits, with its timers. What the identity store, the key
  store and the network answer during one trial or one scan is a record of answers.
\<close>

subsection \<open>Candidates\<close>

record raw_message =
  rm_messageId :: string
  rm_groupId :: string
  rm_senderInboxId :: string
  rm_contentType :: string
  rm_content :: js_value
  rm_sentAt :: string
  rm_threadId :: "string option"
  rm_isHistorical :: bool

datatype core_raw_event =
    RE_message raw_message
  | RE_dm_joined string
  | RE_other

definition resolveInviteRequestKey :: "invite_engine \<Rightarrow> raw_message \<Rightarrow> string option" where
  "resolveInviteRequestKey en event =
     (case (case extractJoinRequestContent en (rm_content event) of
              Some joinRequest \<Rightarrow> as_str (js_get joinRequest ''inviteSlug'')
            | None \<Rightarrow> map_option js_trim (as_str (rm_content event))) of
        None \<Rightarrow> None
      | Some inviteSlug \<Rightarrow> if inviteSlug = [] then None else Some (to_lower (rm_senderInboxId event) @ '':'' @ inviteSlug))"

definition preferInviteCandidate :: "raw_message option \<Rightarrow> raw_message \<Rightarrow> raw_message" where
  "preferInviteCandidate current candidate =
     (case current of
        None \<Rightarrow> candidate
      | Some c \<Rightarrow>
          if isJoinRequestContentType (rm_contentType candidate) \<and> \<not> isJoinRequestContentType (rm_contentType c)
          then candidate else c)"

definition isInviteCandidate :: "raw_message \<Rightarrow> bool" where
  "isInviteCandidate event \<longleftrightarrow>
     \<not> rm_isHistorical event \<and>
     (isJoinRequestContentType (rm_contentType event) \<or>
      (case as_str (rm_content event) of
         None \<Rightarrow> False
       | Some s \<Rightarrow> 50 \<le> length (js_trim s) \<and> CHR '' '' \<notin> set (js_trim s)))"

definition normalizePrivateKeyHex :: "string \<Rightarrow> string" where
  "normalizePrivateKeyHex v = (if starts_with v ''0x'' then drop 2 v else v)"

definition isRetryableInviteError :: "signet_error \<Rightarrow> bool" where
  "isRetryableInviteError e \<longleftrightarrow> err_category e \<notin> {Cat_validation, Cat_permission, Cat_auth}"

definition toRawMessageEvent :: "xmtp_message \<Rightarrow> raw_message" where
  "toRawMessageEvent m =
     \<lparr>rm_messageId = xm_messageId m, rm_groupId = xm_groupId m, rm_senderInboxId = xm_senderInboxId m,
      rm_contentType = xm_contentType m, rm_content = xm_content m, rm_sentAt = xm_sentAt m,
      rm_threadId = xm_threadId m, rm_isHistorical = False\<rparr>"

subsection \<open>Trying the managed identities\<close>

record host_answers =
  ha_now :: int
  ha_identities :: "(string \<times> string option) list"
  ha_walletKey :: "string \<Rightarrow> (string, signet_error) result"
  ha_addMembers :: "string \<Rightarrow> (string \<Rightarrow> string list \<Rightarrow> (unit, signet_error) result) option"
  ha_listMessages :: "string \<Rightarrow> string \<Rightarrow> list_options \<Rightarrow> (xmtp_message list, signet_error) result"
  ha_inviteTag :: "string \<Rightarrow> (string option, signet_error) result"

record join_resolution =
  jn_join :: join_request_result
  jn_hostIdentityId :: string
  jn_hostInboxId :: string

record dispatch_outcome =
  do_result :: "(join_resolution, signet_error) result option"
  do_shouldRetry :: bool

definition host_for :: "host_answers \<Rightarrow> string \<Rightarrow> string \<Rightarrow> (string \<Rightarrow> string list \<Rightarrow> (unit, signet_error) result) \<Rightarrow> host_context" where
  "host_for an inboxId key add =
     \<lparr>hx_creatorInboxId = inboxId, hx_walletPrivateKeyHex = normalizePrivateKeyHex key,
      hx_addMembersToGroup = add, hx_getGroupInviteTag = ha_inviteTag an\<rparr>"

fun try_identities ::
  "invite_engine \<Rightarrow> host_answers \<Rightarrow> raw_message \<Rightarrow> (string \<times> string option) list \<Rightarrow> signet_error option \<Rightarrow> bool \<Rightarrow> dispatch_outcome" where
  "try_identities en an event [] lastError retry =
     \<lparr>do_result = map_option Err lastError, do_shouldRetry = retry\<rparr>"
| "try_identities en an event ((i, inbox) # rest) lastError retry =
     (case (if inbox = Some [] then None else inbox) of
        None \<Rightarrow> try_identities en an event rest lastError True
      | Some inboxId \<Rightarrow>
          (case ha_addMembers an i of
             None \<Rightarrow> try_identities en an event rest lastError True
           | Some add \<Rightarrow>
               (case ha_walletKey an i of
                  Err _ \<Rightarrow> try_identities en an event rest lastError True
                | Ok key \<Rightarrow>
                    (case fst (processJoinRequest en (ha_now an) (host_for an inboxId key add) (rm_senderInboxId event) (rm_content event)) of
                       Ok join \<Rightarrow>
                         \<lparr>do_result = Some (Ok \<lparr>jn_join = join, jn_hostIdentityId = i, jn_hostInboxId = inboxId\<rparr>), do_shouldRetry = False\<rparr>
                     | Err e \<Rightarrow> try_identities en an event rest (Some e) (retry \<or> isRetryableInviteError e)))))"

definition dispatchInviteJoinRequest :: "invite_engine \<Rightarrow> host_answers \<Rightarrow> raw_message \<Rightarrow> dispatch_outcome" where
  "dispatchInviteJoinRequest en an event =
     (if \<not> isInviteCandidate event then \<lparr>do_result = None, do_shouldRetry = False\<rparr>
      else try_identities en an event (ha_identities an) None False)"

subsection \<open>Scanning a conversation\<close>

type_synonym candidates = "(string, raw_message) js_map"

definition RECENT_JOIN_SCAN_OPTIONS :: list_options where
  "RECENT_JOIN_SCAN_OPTIONS = \<lparr>lo_limit = Some 10, lo_before = None, lo_after = None, lo_direction = Some LD_descending\<rparr>"

definition collect_candidate ::
  "invite_engine \<Rightarrow> string list \<Rightarrow> string list \<Rightarrow> candidates \<Rightarrow> xmtp_message \<Rightarrow> candidates" where
  "collect_candidate en processedIds processedKeys found message =
     (let event = toRawMessageEvent message; requestKey = resolveInviteRequestKey en event
      in if \<not> isInviteCandidate event \<or> rm_messageId event \<in> set processedIds \<or>
            (\<exists>k \<in> set_option requestKey. k \<in> set processedKeys)
         then found
         else let k = nullish requestKey (rm_messageId event)
              in map_set found k (preferInviteCandidate (map_get found k) event))"

text \<open>The pages of one client, backwards in time; \<open>None\<close> when the fuel does not reach the end.\<close>

fun scan_pages ::
  "invite_engine \<Rightarrow> (list_options \<Rightarrow> (xmtp_message list, signet_error) result) \<Rightarrow> string list \<Rightarrow> string list \<Rightarrow> nat \<Rightarrow>
   string option \<Rightarrow> candidates \<Rightarrow> bool \<Rightarrow> (candidates \<times> bool) option" where
  "scan_pages en listing processedIds processedKeys 0 before found retry = None"
| "scan_pages en listing processedIds processedKeys (Suc fuel) before found retry =
     (let listOptions = (if before = None \<or> before = Some [] then RECENT_JOIN_SCAN_OPTIONS
                         else RECENT_JOIN_SCAN_OPTIONS\<lparr>lo_before := before\<rparr>)
      in case listing listOptions of
           Err e \<Rightarrow> Some (found, retry \<or> err_category e \<noteq> Cat_not_found)
         | Ok [] \<Rightarrow> Some (found, retry)
         | Ok messages \<Rightarrow>
             let found' = foldl (collect_candidate en processedIds processedKeys) found (rev messages);
                 oldest = xm_sentAt (last messages)
             in if length messages < 10 \<or> oldest = [] then Some (found', retry)
                else scan_pages en listing processedIds processedKeys fuel (Some oldest) found' retry)"

fun scan_identities ::
  "invite_engine \<Rightarrow> host_answers \<Rightarrow> string \<Rightarrow> string list \<Rightarrow> string list \<Rightarrow> nat \<Rightarrow> (string \<times> string option) list \<Rightarrow>
   candidates \<Rightarrow> bool \<Rightarrow> (candidates \<times> bool) option" where
  "scan_identities en an conversationId processedIds processedKeys fuel [] found retry = Some (found, retry)"
| "scan_identities en an conversationId processedIds processedKeys fuel ((i, inbox) # rest) found retry =
     (if ha_addMembers an i = None
      then scan_identities en an conversationId processedIds processedKeys fuel rest found retry
      else case scan_pages en (ha_listMessages an i conversationId) processedIds processedKeys fuel None found retry of
        None \<Rightarrow> None
      | Some (found', retry') \<Rightarrow> scan_identities en an conversationId processedIds processedKeys fuel rest found' retry')"

definition listRecentInviteCandidates ::
  "invite_engine \<Rightarrow> host_answers \<Rightarrow> string \<Rightarrow> string list \<Rightarrow> string list \<Rightarrow> nat \<Rightarrow> (raw_message list \<times> bool) option" where
  "listRecentInviteCandidates en an conversationId processedIds processedKeys fuel =
     map_option (\<lambda>(found, retry). (map_values found, retry))
       (scan_identities en an conversationId processedIds processedKeys fuel (ha_identities an) [] False)"

subsection \<open>The listener\<close>

text \<open>A request that has been claimed belongs to a message that arrived (\<open>None\<close>) or to the recovery
  of a conversation with the messages still to be processed.\<close>

record recovery =
  rc_dmId :: string
  rc_retryCount :: nat
  rc_rest :: "raw_message list"
  rc_shouldRetry :: bool

datatype host_task =
    Scanning string nat
  | Dispatching raw_message "recovery option"
  | Reporting raw_message bool bool "recovery option"

datatype host_event =
    Admitted string "string option" join_resolution
  | Rejected string signet_error
  | Key_expired string

record listener_state =
  li_processedIds :: "string list"
  li_processedKeys :: "string list"
  li_inflightIds :: "string list"
  li_inflightKeys :: "string list"
  li_keyTimers :: "string list"
  li_retryTimers :: "(string, nat) js_map"
  li_subscribed :: bool
  li_tasks :: "host_task list"
  li_log :: "host_event list"

definition listener_start :: listener_state where
  "listener_start =
     \<lparr>li_processedIds = [], li_processedKeys = [], li_inflightIds = [], li_inflightKeys = [], li_keyTimers = [],
      li_retryTimers = [], li_subscribed = True, li_tasks = [], li_log = []\<rparr>"

definition set_remove :: "'a list \<Rightarrow> 'a \<Rightarrow> 'a list" where
  "set_remove s x = filter (\<lambda>y. y \<noteq> x) s"

definition already_handled :: "invite_engine \<Rightarrow> listener_state \<Rightarrow> raw_message \<Rightarrow> bool" where
  "already_handled en st event \<longleftrightarrow>
     rm_messageId event \<in> set (li_processedIds st) \<or>
     (\<exists>k \<in> set_option (resolveInviteRequestKey en event). k \<in> set (li_processedKeys st)) \<or>
     rm_messageId event \<in> set (li_inflightIds st) \<or>
     (\<exists>k \<in> set_option (resolveInviteRequestKey en event). k \<in> set (li_inflightKeys st))"

definition claim :: "invite_engine \<Rightarrow> raw_message \<Rightarrow> recovery option \<Rightarrow> listener_state \<Rightarrow> listener_state" where
  "claim en event rc st =
     st\<lparr>li_inflightIds := set_add (li_inflightIds st) (rm_messageId event),
        li_inflightKeys := (case resolveInviteRequestKey en event of None \<Rightarrow> li_inflightKeys st
          | Some k \<Rightarrow> set_add (li_inflightKeys st) k),
        li_tasks := li_tasks st @ [Dispatching event rc]\<rparr>"

definition release :: "invite_engine \<Rightarrow> raw_message \<Rightarrow> listener_state \<Rightarrow> listener_state" where
  "release en event st =
     st\<lparr>li_inflightIds := set_remove (li_inflightIds st) (rm_messageId event),
        li_inflightKeys := (case resolveInviteRequestKey en event of None \<Rightarrow> li_inflightKeys st
          | Some k \<Rightarrow> set_remove (li_inflightKeys st) k)\<rparr>"

definition markInviteKeyProcessed :: "string \<Rightarrow> listener_state \<Rightarrow> listener_state" where
  "markInviteKeyProcessed k st =
     st\<lparr>li_processedKeys := set_add (li_processedKeys st) k, li_keyTimers := set_add (li_keyTimers st) k\<rparr>"

definition accept :: "invite_engine \<Rightarrow> raw_message \<Rightarrow> join_resolution \<Rightarrow> listener_state \<Rightarrow> listener_state" where
  "accept en event j st =
     (let st1 = st\<lparr>li_processedIds := set_add (li_processedIds st) (rm_messageId event)\<rparr>;
          st2 = (case resolveInviteRequestKey en event of None \<Rightarrow> st1 | Some k \<Rightarrow> markInviteKeyProcessed k st1)
      in st2\<lparr>li_log := li_log st2 @ [Admitted (rm_messageId event) (resolveInviteRequestKey en event) j]\<rparr>)"

text \<open>A recovery processes its messages one after the other and arms a timer at the end.\<close>

fun recover_rest :: "invite_engine \<Rightarrow> string \<Rightarrow> nat \<Rightarrow> bool \<Rightarrow> raw_message list \<Rightarrow> listener_state \<Rightarrow> listener_state" where
  "recover_rest en dmId retryCount shouldRetry [] st =
     (if \<not> shouldRetry \<or> 3 \<le> retryCount \<or> map_get (li_retryTimers st) dmId \<noteq> None then st
      else st\<lparr>li_retryTimers := map_set (li_retryTimers st) dmId (retryCount + 1)\<rparr>)"
| "recover_rest en dmId retryCount shouldRetry (m # rest) st =
     (if already_handled en st m then recover_rest en dmId retryCount shouldRetry rest st
      else claim en m (Some \<lparr>rc_dmId = dmId, rc_retryCount = retryCount, rc_rest = rest, rc_shouldRetry = shouldRetry\<rparr>) st)"

definition go_on :: "invite_engine \<Rightarrow> bool \<Rightarrow> bool \<Rightarrow> recovery option \<Rightarrow> listener_state \<Rightarrow> listener_state" where
  "go_on en accepted retry rc st =
     (case rc of
        None \<Rightarrow> st
      | Some r \<Rightarrow> recover_rest en (rc_dmId r) (rc_retryCount r) (rc_shouldRetry r \<or> \<not> accepted \<and> retry) (rc_rest r) st)"

inductive listener_step :: "invite_engine \<Rightarrow> listener_state \<Rightarrow> listener_state \<Rightarrow> bool" for en where
  message: "li_subscribed st \<Longrightarrow> isInviteCandidate event \<Longrightarrow>
    listener_step en st (if already_handled en st event then st else claim en event None st)"
| dm_joined: "li_subscribed st \<Longrightarrow> listener_step en st (st\<lparr>li_tasks := li_tasks st @ [Scanning dmId 0]\<rparr>)"
| scanned: "li_tasks st = before @ Scanning dmId n # after \<Longrightarrow>
    listRecentInviteCandidates en an dmId (li_processedIds st) (li_processedKeys st) fuel = Some (messages, retry) \<Longrightarrow>
    listener_step en st (recover_rest en dmId n retry messages (st\<lparr>li_tasks := before @ after\<rparr>))"
| nothing: "li_tasks st = before @ Dispatching event rc # after \<Longrightarrow>
    dispatchInviteJoinRequest en an event = \<lparr>do_result = None, do_shouldRetry = retry\<rparr> \<Longrightarrow>
    listener_step en st (go_on en False retry rc (release en event (st\<lparr>li_tasks := before @ after\<rparr>)))"
| accepted: "li_tasks st = before @ Dispatching event rc # after \<Longrightarrow>
    dispatchInviteJoinRequest en an event = \<lparr>do_result = Some (Ok j), do_shouldRetry = retry\<rparr> \<Longrightarrow>
    listener_step en st (accept en event j (st\<lparr>li_tasks := before @ Reporting event True False rc # after\<rparr>))"
| rejected: "li_tasks st = before @ Dispatching event rc # after \<Longrightarrow>
    dispatchInviteJoinRequest en an event = \<lparr>do_result = Some (Err e), do_shouldRetry = retry\<rparr> \<Longrightarrow>
    listener_step en st (st\<lparr>li_tasks := before @ Reporting event False retry rc # after,
      li_log := li_log st @ (if retry then [] else [Rejected (rm_messageId event) e])\<rparr>)"
| reported: "li_tasks st = before @ Reporting event acc retry rc # after \<Longrightarrow>
    listener_step en st (go_on en acc retry rc (release en event (st\<lparr>li_tasks := before @ after\<rparr>)))"
| thrown: "li_tasks st = before @ Dispatching event rc # after \<Longrightarrow>
    listener_step en st (release en event (st\<lparr>li_tasks := before @ after\<rparr>))"
| scan_thrown: "li_tasks st = before @ Scanning dmId n # after \<Longrightarrow> listener_step en st (st\<lparr>li_tasks := before @ after\<rparr>)"
| key_expired: "k \<in> set (li_keyTimers st) \<Longrightarrow>
    listener_step en st (st\<lparr>li_keyTimers := set_remove (li_keyTimers st) k,
      li_processedKeys := set_remove (li_processedKeys st) k, li_log := li_log st @ [Key_expired k]\<rparr>)"
| retry_fired: "map_get (li_retryTimers st) dmId = Some n \<Longrightarrow>
    listener_step en st (st\<lparr>li_retryTimers := map_delete (li_retryTimers st) dmId, li_tasks := li_tasks st @ [Scanning dmId n]\<rparr>)"
| stopped: "listener_step en st (st\<lparr>li_retryTimers := [], li_keyTimers := [], li_subscribed := False\<rparr>)"

inductive listener_reachable :: "invite_engine \<Rightarrow> listener_state \<Rightarrow> bool" for en where
  "listener_reachable en listener_start"
| "listener_reachable en st \<Longrightarrow> listener_step en st st' \<Longrightarrow> listener_reachable en st'"

subsection \<open>What the listener keeps\<close>

fun task_event :: "host_task \<Rightarrow> raw_message list" where
  "task_event (Scanning dmId n) = []"
| "task_event (Dispatching event rc) = [event]"
| "task_event (Reporting event acc retry rc) = [event]"

definition running :: "listener_state \<Rightarrow> raw_message list" where
  "running st = concat (map task_event (li_tasks st))"

definition key_of :: "invite_engine \<Rightarrow> raw_message \<Rightarrow> string list" where
  "key_of en event = (case resolveInviteRequestKey en event of None \<Rightarrow> [] | Some k \<Rightarrow> [k])"

definition keys_of :: "invite_engine \<Rightarrow> raw_message list \<Rightarrow> string list" where
  "keys_of en events = concat (map (key_of en) events)"

fun admitted_id :: "host_event \<Rightarrow> string list" where
  "admitted_id (Admitted i k j) = [i]"
| "admitted_id _ = []"

definition admitted_ids :: "host_event list \<Rightarrow> string list" where
  "admitted_ids lg = concat (map admitted_id lg)"

text \<open>The keys admitted and not expired since.\<close>

fun open_key :: "string set \<Rightarrow> host_event \<Rightarrow> string set" where
  "open_key S (Admitted i (Some k) j) = insert k S"
| "open_key S (Key_expired k) = S - {k}"
| "open_key S _ = S"

definition open_keys :: "host_event list \<Rightarrow> string set" where
  "open_keys lg = foldl open_key {} lg"

definition keys_once :: "host_event list \<Rightarrow> bool" where
  "keys_once lg \<longleftrightarrow> (\<forall>pre i k j post. lg = pre @ Admitted i (Some k) j # post \<longrightarrow> k \<notin> open_keys pre)"

fun unprocessed :: "invite_engine \<Rightarrow> string set \<Rightarrow> string set \<Rightarrow> host_task \<Rightarrow> bool" where
  "unprocessed en ids keys (Dispatching event rc) \<longleftrightarrow> rm_messageId event \<notin> ids \<and> set (key_of en event) \<inter> keys = {}"
| "unprocessed en ids keys _ \<longleftrightarrow> True"

definition listener_inv :: "invite_engine \<Rightarrow> listener_state \<Rightarrow> bool" where
  "listener_inv en st \<longleftrightarrow>
     distinct (map rm_messageId (running st)) \<and> set (li_inflightIds st) = rm_messageId ` set (running st) \<and>
     distinct (keys_of en (running st)) \<and> set (li_inflightKeys st) = set (keys_of en (running st)) \<and>
     (\<forall>t \<in> set (li_tasks st). unprocessed en (set (li_processedIds st)) (set (li_processedKeys st)) t) \<and>
     distinct (admitted_ids (li_log st)) \<and> set (admitted_ids (li_log st)) \<subseteq> set (li_processedIds st) \<and>
     open_keys (li_log st) \<subseteq> set (li_processedKeys st) \<and> keys_once (li_log st)"

lemma list_simps [simp]:
  fixes lg :: "host_event list" and es :: "raw_message list"
  shows "admitted_ids [] = []" "admitted_ids (lg @ [e]) = admitted_ids lg @ admitted_id e"
    "open_keys [] = {}" "open_keys (lg @ [e]) = open_key (open_keys lg) e"
    "keys_of en [] = []" "keys_of en (es @ es') = keys_of en es @ keys_of en es'"
    "keys_of en (m # es) = key_of en m @ keys_of en es"
  by (simp_all add: admitted_ids_def open_keys_def keys_of_def)

lemma keys_once_snoc [simp]: "keys_once [] "
  "keys_once (lg @ [e]) \<longleftrightarrow> keys_once lg \<and> (\<forall>i k j. e = Admitted i (Some k) j \<longrightarrow> k \<notin> open_keys lg)"
proof -
  show "keys_once []" by (simp add: keys_once_def)
  have "(\<forall>pre i k j post. lg @ [e] = pre @ Admitted i (Some k) j # post \<longrightarrow> k \<notin> open_keys pre) \<longleftrightarrow>
      keys_once lg \<and> (\<forall>i k j. e = Admitted i (Some k) j \<longrightarrow> k \<notin> open_keys lg)"
  proof (intro iffI conjI allI impI)
    fix pre i k j post
    assume "keys_once lg \<and> (\<forall>i k j. e = Admitted i (Some k) j \<longrightarrow> k \<notin> open_keys lg)"
      "lg @ [e] = pre @ Admitted i (Some k) j # post"
    then show "k \<notin> open_keys pre"
      by (cases post rule: rev_cases) (auto simp: keys_once_def)
  next
    assume "\<forall>pre i k j post. lg @ [e] = pre @ Admitted i (Some k) j # post \<longrightarrow> k \<notin> open_keys pre"
    then show "keys_once lg" unfolding keys_once_def by (metis append.assoc append_Cons)
  qed auto
  then show "keys_once (lg @ [e]) \<longleftrightarrow> keys_once lg \<and> (\<forall>i k j. e = Admitted i (Some k) j \<longrightarrow> k \<notin> open_keys lg)"
    by (simp only: keys_once_def)
qed

lemma set_set_remove [simp]: "set (set_remove s x) = set s - {x}"
  by (auto simp: set_remove_def)

lemma unprocessed_less: "unprocessed en ids keys t \<Longrightarrow> unprocessed en ids (keys - S) t"
  by (cases t) auto

lemma listener_inv_start: "listener_inv en listener_start"
  by (simp add: listener_inv_def listener_start_def running_def)

lemma inv_tasks:
  assumes "listener_inv en st" "running (st\<lparr>li_tasks := ts\<rparr>) = running st" "set ts \<subseteq> set (li_tasks st) \<union> range (\<lambda>(d, n). Scanning d n)"
  shows "listener_inv en (st\<lparr>li_tasks := ts\<rparr>)"
proof -
  have "unprocessed en (set (li_processedIds st)) (set (li_processedKeys st)) t" if "t \<in> set ts" for t
    using assms(1,3) that by (auto simp: listener_inv_def)
  then show ?thesis using assms(1,2) by (simp add: listener_inv_def)
qed

lemma inv_claim:
  assumes "listener_inv en st" "\<not> already_handled en st event"
  shows "listener_inv en (claim en event rc st)"
proof -
  have r: "running (claim en event rc st) = running st @ [event]" by (simp add: running_def claim_def)
  have "\<forall>k \<in> set (key_of en event). k \<notin> set (li_inflightKeys st) \<and> k \<notin> set (li_processedKeys st)"
    using assms(2) by (auto simp: already_handled_def key_of_def split: option.splits)
  moreover have "distinct (key_of en event)" by (simp add: key_of_def split: option.split)
  moreover have "set (li_inflightKeys (claim en event rc st)) = set (li_inflightKeys st) \<union> set (key_of en event)"
    by (auto simp: claim_def key_of_def split: option.split)
  moreover have "rm_messageId event \<notin> set (li_inflightIds st)" "rm_messageId event \<notin> set (li_processedIds st)"
    using assms(2) by (auto simp: already_handled_def)
  ultimately show ?thesis using assms(1)
    by (auto simp: listener_inv_def r) (auto simp: claim_def)
qed

lemma inv_release:
  assumes "listener_inv en st" "li_tasks st = before @ t # after" "task_event t = [event]"
  shows "listener_inv en (release en event (st\<lparr>li_tasks := before @ after\<rparr>))"
proof -
  let ?st = "release en event (st\<lparr>li_tasks := before @ after\<rparr>)"
  define b a where "b = concat (map task_event before)" and "a = concat (map task_event after)"
  have r: "running st = b @ event # a" "running ?st = b @ a"
    using assms(2,3) by (simp_all add: running_def release_def a_def b_def)
  have st: "li_processedIds ?st = li_processedIds st" "li_processedKeys ?st = li_processedKeys st" "li_log ?st = li_log st"
      "li_tasks ?st = before @ after" "set (li_inflightIds ?st) = set (li_inflightIds st) - {rm_messageId event}"
      "set (li_inflightKeys ?st) = set (li_inflightKeys st) - set (key_of en event)"
    by (auto simp: release_def key_of_def split: option.split)
  have inv: "distinct (map rm_messageId (b @ event # a))" "set (li_inflightIds st) = rm_messageId ` set (b @ event # a)"
      "distinct (keys_of en (b @ event # a))" "set (li_inflightKeys st) = set (keys_of en (b @ event # a))"
    using assms(1) unfolding listener_inv_def r by blast+
  have "rm_messageId ` set (b @ event # a) - {rm_messageId event} = rm_messageId ` set (b @ a)"
    using inv(1) by auto (metis imageI)+
  then have i: "set (li_inflightIds st) - {rm_messageId event} = rm_messageId ` set (b @ a)" by (simp only: inv(2))
  have "set (keys_of en (b @ event # a)) - set (key_of en event) = set (keys_of en (b @ a))" using inv(3) by auto
  then have k: "set (li_inflightKeys st) - set (key_of en event) = set (keys_of en (b @ a))" by (simp only: inv(4))
  have d: "distinct (map rm_messageId (b @ a))" "distinct (keys_of en (b @ a))" using inv(1,3) by auto
  have u: "\<forall>u \<in> set (before @ after). unprocessed en (set (li_processedIds st)) (set (li_processedKeys st)) u"
    using assms(1,2) by (simp add: listener_inv_def)
  have "distinct (admitted_ids (li_log st)) \<and> set (admitted_ids (li_log st)) \<subseteq> set (li_processedIds st) \<and>
      open_keys (li_log st) \<subseteq> set (li_processedKeys st) \<and> keys_once (li_log st)"
    using assms(1) unfolding listener_inv_def by blast
  then show ?thesis unfolding listener_inv_def r(2) st using i k d u by blast
qed

lemma inv_recover: "listener_inv en st \<Longrightarrow> listener_inv en (recover_rest en dmId n retry ms st)"
proof (induction ms arbitrary: st)
  case Nil
  then show ?case by (simp add: listener_inv_def running_def)
next
  case (Cons m ms)
  then show ?case using inv_claim by simp
qed

lemma inv_go_on: "listener_inv en st \<Longrightarrow> listener_inv en (go_on en acc retry rc st)"
  by (simp add: go_on_def inv_recover split: option.split)

lemma inv_accept:
  assumes "listener_inv en st" "li_tasks st = before @ Dispatching event rc # after"
  shows "listener_inv en (accept en event j (st\<lparr>li_tasks := before @ Reporting event True False rc # after\<rparr>))"
proof -
  let ?st = "accept en event j (st\<lparr>li_tasks := before @ Reporting event True False rc # after\<rparr>)"
  have st: "li_processedIds ?st = set_add (li_processedIds st) (rm_messageId event)"
      "set (li_processedKeys ?st) = set (li_processedKeys st) \<union> set (key_of en event)"
      "li_log ?st = li_log st @ [Admitted (rm_messageId event) (resolveInviteRequestKey en event) j]"
      "li_tasks ?st = before @ Reporting event True False rc # after"
      "li_inflightIds ?st = li_inflightIds st" "li_inflightKeys ?st = li_inflightKeys st" "running ?st = running st"
    using assms(2) by (auto simp: accept_def Let_def markInviteKeyProcessed_def running_def key_of_def split: option.split)
  have new: "rm_messageId event \<notin> set (li_processedIds st)" "\<forall>k \<in> set (key_of en event). k \<notin> set (li_processedKeys st)"
    using assms by (auto simp: listener_inv_def)
  have other: "rm_messageId e \<noteq> rm_messageId event \<and> set (key_of en e) \<inter> set (key_of en event) = {}"
    if "Dispatching e rc' \<in> set before \<union> set after" for e rc'
  proof -
    define b a where "b = concat (map task_event before)" and "a = concat (map task_event after)"
    have r: "running st = b @ event # a" using assms(2) by (simp add: running_def a_def b_def)
    have "e \<in> set b \<union> set a" using that by (force simp: a_def b_def)
    moreover have "set (key_of en x) \<subseteq> set (keys_of en xs)" if "x \<in> set xs" for x xs
      using that by (auto simp: keys_of_def)
    ultimately show ?thesis using assms(1) unfolding listener_inv_def r by (force simp: image_iff)
  qed
  have waiting: "unprocessed en (set (li_processedIds ?st)) (set (li_processedKeys ?st)) t" if t: "t \<in> set (li_tasks ?st)" for t
  proof (cases t)
    case (Dispatching e rc')
    then have d: "Dispatching e rc' \<in> set before \<union> set after" using t st(4) by auto
    then have "t \<in> set (li_tasks st)" using assms(2) Dispatching by auto
    then have "unprocessed en (set (li_processedIds st)) (set (li_processedKeys st)) t"
      using assms(1) unfolding listener_inv_def by blast
    then show ?thesis using other [OF d] Dispatching by (auto simp: st)
  qed simp_all
  have "open_key (open_keys (li_log st)) (Admitted (rm_messageId event) (resolveInviteRequestKey en event) j) =
      open_keys (li_log st) \<union> set (key_of en event)"
    by (cases "resolveInviteRequestKey en event") (auto simp: key_of_def)
  moreover have "\<forall>k. resolveInviteRequestKey en event = Some k \<longrightarrow> k \<notin> open_keys (li_log st)"
    using assms(1) new(2) by (auto simp: listener_inv_def key_of_def)
  ultimately show ?thesis using assms(1) new waiting
    unfolding listener_inv_def by (auto simp: st)
qed

lemma listener_inv_step: "listener_step en st st' \<Longrightarrow> listener_inv en st \<Longrightarrow> listener_inv en st'"
proof (induction rule: listener_step.induct)
  case (message st event)
  then show ?case using inv_claim by simp
next
  case (dm_joined st dmId)
  then show ?case by (intro inv_tasks) (auto simp: running_def)
next
  case (scanned st before dmId n after an fuel messages retry)
  then show ?case by (intro inv_recover inv_tasks) (auto simp: running_def)
next
  case (nothing st before event rc after an retry)
  then show ?case using inv_release [of en st before "Dispatching event rc" after event] by (intro inv_go_on) simp
next
  case (accepted st before event rc after an j retry)
  then show ?case using inv_accept by simp
next
  case (rejected st before event rc after an e retry)
  then show ?case by (auto simp: listener_inv_def running_def)
next
  case (reported st before event acc retry rc after)
  then show ?case using inv_release [of en st before "Reporting event acc retry rc" after event] by (intro inv_go_on) simp
next
  case (thrown st before event rc after)
  then show ?case using inv_release [of en st before "Dispatching event rc" after event] by simp
next
  case (scan_thrown st before dmId n after)
  then show ?case by (intro inv_tasks) (auto simp: running_def)
next
  case (key_expired k st)
  then show ?case by (auto simp: listener_inv_def running_def unprocessed_less)
next
  case (retry_fired st dmId n)
  then have "listener_inv en (st\<lparr>li_tasks := li_tasks st @ [Scanning dmId n]\<rparr>)"
    by (intro inv_tasks) (auto simp: running_def)
  then show ?case by (simp add: listener_inv_def running_def)
next
  case (stopped st)
  then show ?case by (simp add: listener_inv_def running_def)
qed

lemma listener_reachable_inv: "listener_reachable en st \<Longrightarrow> listener_inv en st"
  by (induction rule: listener_reachable.induct) (auto intro: listener_inv_start listener_inv_step)

lemma open_until_expired:
  "k \<in> S \<Longrightarrow> Key_expired k \<notin> set mid \<Longrightarrow> k \<in> foldl open_key S mid"
proof (induction mid arbitrary: S)
  case (Cons e mid)
  then show ?case by (cases "(S, e)" rule: open_key.cases) auto
qed simp

text \<open>C37: Whatever interleaving of messages, recoveries, timers and failures: a message leads to at most one
  admission, requests that are being processed at the same time differ in their message and in their
  request, and the same request of the same sender is admitted again only after its key has
  expired.\<close>

theorem joins_admitted_once:
  assumes "listener_reachable en st"
  shows "distinct (admitted_ids (li_log st)) \<and> distinct (map rm_messageId (running st)) \<and> distinct (keys_of en (running st)) \<and>
    (li_log st = pre @ Admitted i (Some k) j # mid @ Admitted i' (Some k) j' # post \<longrightarrow> Key_expired k \<in> set mid)"
proof -
  have inv: "listener_inv en st" by (rule listener_reachable_inv [OF assms])
  have "Key_expired k \<in> set mid" if l: "li_log st = pre @ Admitted i (Some k) j # mid @ Admitted i' (Some k) j' # post"
  proof (rule ccontr)
    assume "Key_expired k \<notin> set mid"
    then have "k \<in> open_keys (pre @ Admitted i (Some k) j # mid)"
      using open_until_expired [of k "insert k (open_keys pre)" mid] by (simp add: open_keys_def)
    moreover have "li_log st = (pre @ Admitted i (Some k) j # mid) @ Admitted i' (Some k) j' # post" using l by simp
    ultimately show False using inv unfolding listener_inv_def keys_once_def by blast
  qed
  then show ?thesis using inv by (simp add: listener_inv_def)
qed

text \<open>A request that arrives, is claimed and is admitted.\<close>

definition sample_message :: "string \<Rightarrow> raw_message" where
  "sample_message slug =
     \<lparr>rm_messageId = ''m1'', rm_groupId = ''dm'', rm_senderInboxId = ''bob'', rm_contentType = ''join_request'',
      rm_content = VObj [(''inviteSlug'', VStr slug)], rm_sentAt = [], rm_threadId = None, rm_isHistorical = False\<rparr>"

definition sample_answers :: host_answers where
  "sample_answers =
     \<lparr>ha_now = 4000, ha_identities = [(''i1'', Some ''ab'')], ha_walletKey = (\<lambda>_. Ok ''0x01''),
      ha_addMembers = (\<lambda>_. Some (\<lambda>_ _. Ok ())), ha_listMessages = (\<lambda>_ _ _. Ok []), ha_inviteTag = (\<lambda>_. Ok (Some ''t''))\<rparr>"

lemma accept_log: "li_log (accept en event j st) = li_log st @ [Admitted (rm_messageId event) (resolveInviteRequestKey en event) j]"
  by (simp add: accept_def Let_def markInviteKeyProcessed_def split: option.split)

lemma sample_listener:
  "\<exists>st. listener_reachable sample_invite_engine st \<and> admitted_ids (li_log st) = [''m1'']"
proof -
  obtain slug where s: "processJoinRequest sample_invite_engine 4000 sample_host ''bob'' (VObj [(''inviteSlug'', VStr slug)]) =
      (Ok \<lparr>jr_groupId = ''g1'', jr_requesterInboxId = ''bob'', jr_inviteTag = ''t''\<rparr>, [(''g1'', [''bob''])])"
    using sample_request by blast
  let ?m = "sample_message slug"
  have h: "host_for sample_answers ''ab'' ''0x01'' (\<lambda>_ _. Ok ()) = sample_host"
    by (simp add: host_for_def sample_answers_def sample_host_def normalizePrivateKeyHex_def starts_with_def)
  have c: "isInviteCandidate ?m" by (simp add: isInviteCandidate_def sample_message_def isJoinRequestContentType_def)
  obtain j where d: "dispatchInviteJoinRequest sample_invite_engine sample_answers ?m = \<lparr>do_result = Some (Ok j), do_shouldRetry = False\<rparr>"
    using c h s by (simp add: dispatchInviteJoinRequest_def) (simp add: sample_answers_def sample_message_def)
  have "\<not> already_handled sample_invite_engine listener_start ?m" by (simp add: already_handled_def listener_start_def)
  then have "listener_step sample_invite_engine listener_start (claim sample_invite_engine ?m None listener_start)"
    using listener_step.message [of listener_start ?m sample_invite_engine] c by (simp add: listener_start_def)
  then have "listener_reachable sample_invite_engine (claim sample_invite_engine ?m None listener_start)"
    using listener_reachable.intros by blast
  moreover have "li_tasks (claim sample_invite_engine ?m None listener_start) = [] @ Dispatching ?m None # []"
    by (simp add: claim_def listener_start_def)
  ultimately have "listener_reachable sample_invite_engine (accept sample_invite_engine ?m j
      ((claim sample_invite_engine ?m None listener_start)\<lparr>li_tasks := [] @ Reporting ?m True False None # []\<rparr>))"
    using listener_step.accepted [OF _ d] listener_reachable.intros(2) by blast
  then show ?thesis
    by (intro exI conjI, assumption) (simp add: accept_log claim_def listener_start_def sample_message_def admitted_ids_def)
qed

theorem joins_admitted_once_witness:
  "\<exists>st. listener_reachable sample_invite_engine st \<and> admitted_ids (li_log st) = [''m1''] \<and> distinct (admitted_ids (li_log st))"
proof -
  obtain st where "listener_reachable sample_invite_engine st" "admitted_ids (li_log st) = [''m1'']" using sample_listener by blast
  then show ?thesis using joins_admitted_once by blast
qed

end
