(* ===== verification/JoinClient.thy ===== *)
theory JoinClient
  imports JoinHost
begin

text \<open>
  Registration of an identity (\<^verbatim>\<open>packages/core/src/identity-registration.ts\<close>) and joining a conversation through an
  invite (\<^verbatim>\<open>schemes/convos/join.ts\<close>, \<^verbatim>\<open>invite-join-error.ts\<close>). The key provider, the client factory and the network
  are arguments; \<open>None\<close> as a whole result stands for an exception that leaves the function.
\<close>

subsection \<open>Join failures sent by the host\<close>

datatype invite_join_error_type = ConversationExpired | GenericFailure | UnknownFailure

record invite_join_error =
  ij_errorType :: invite_join_error_type
  ij_inviteTag :: string

definition error_type_of :: "js_value \<Rightarrow> invite_join_error_type" where
  "error_type_of v =
     (if v = VStr ''conversationExpired'' then ConversationExpired
      else if v = VStr ''genericFailure'' then GenericFailure else UnknownFailure)"

definition join_error_of :: "js_value \<Rightarrow> invite_join_error" where
  "join_error_of v =
     \<lparr>ij_errorType = error_type_of (js_get v ''errorType''), ij_inviteTag = nullish (as_str (js_get v ''inviteTag'')) []\<rparr>"

fun has_key :: "js_value \<Rightarrow> string \<Rightarrow> bool" where
  "has_key (VObj kvs) k = (k \<in> fst ` set kvs)"
| "has_key _ k = False"

definition decodeInviteJoinError :: "invite_engine \<Rightarrow> js_value \<Rightarrow> invite_join_error option" where
  "decodeInviteJoinError en v =
     (case Option.bind (ie_bytesOf en (js_get v ''content'')) (ie_parseJson en) of
        None \<Rightarrow> None
      | Some parsed \<Rightarrow> if parsed = VNull then None else Some (join_error_of parsed))"

definition extractInviteJoinError :: "invite_engine \<Rightarrow> js_value \<Rightarrow> invite_join_error option" where
  "extractInviteJoinError en v =
     (if has_key v ''errorType'' \<and> has_key v ''inviteTag'' \<and> has_key v ''timestamp'' then Some (join_error_of v)
      else if isEncodedContentEnvelope en v then decodeInviteJoinError en v
      else None)"

definition isInviteJoinErrorContentType :: "string \<Rightarrow> bool" where
  "isInviteJoinErrorContentType contentType \<longleftrightarrow>
     contentType \<in> {''inviteJoinError'', ''convos.app/inviteJoinError:1.0'', ''convos.org/invite_join_error:1.0'', ''invite_join_error''}"

definition getInviteJoinErrorMessage :: "invite_join_error \<Rightarrow> string" where
  "getInviteJoinErrorMessage e =
     (case ij_errorType e of
        ConversationExpired \<Rightarrow> ''This conversation is no longer available''
      | _ \<Rightarrow> ''Failed to join conversation'')"

fun findInviteJoinErrorReply :: "invite_engine \<Rightarrow> xmtp_message list \<Rightarrow> string \<Rightarrow> string \<Rightarrow> string option" where
  "findInviteJoinErrorReply en [] creatorInboxId inviteTag = None"
| "findInviteJoinErrorReply en (m # ms) creatorInboxId inviteTag =
     (if to_lower (xm_senderInboxId m) \<noteq> to_lower creatorInboxId \<or> \<not> isInviteJoinErrorContentType (xm_contentType m)
      then findInviteJoinErrorReply en ms creatorInboxId inviteTag
      else case extractInviteJoinError en (xm_content m) of
        None \<Rightarrow> findInviteJoinErrorReply en ms creatorInboxId inviteTag
      | Some e \<Rightarrow>
          if ij_inviteTag e \<noteq> inviteTag then findInviteJoinErrorReply en ms creatorInboxId inviteTag
          else Some (getInviteJoinErrorMessage e))"

subsection \<open>Registering an identity\<close>

text \<open>What a registration or a join is given: the random bytes and the time of the new row, the answers of the key
  provider, whether the address of a key and the directory of a database can be made (\<open>False\<close> when
  that throws), and the answer of the client factory, which is asked with the number of clients created
  before.\<close>

record join_deps =
  jd_bytes :: "8 word list"
  jd_created :: int
  jd_cause :: string
  jd_dbKey :: "nat \<Rightarrow> string \<Rightarrow> bytes answer"
  jd_identityKey :: "nat \<Rightarrow> string \<Rightarrow> string answer"
  jd_address :: "string \<Rightarrow> string option"
  jd_mkdir :: "string \<Rightarrow> bool"
  jd_createClient :: "nat \<Rightarrow> string \<Rightarrow> (string \<times> xmtp_client) answer"
  jd_inMemory :: bool

record registered_identity =
  rg_identityId :: string
  rg_inboxId :: string
  rg_address :: string
  rg_label :: "string option"

definition removed :: "string \<Rightarrow> identity_store \<Rightarrow> identity_store" where
  "removed i st = snd (identity_remove i st)"

definition registerIdentity ::
  "join_deps \<Rightarrow> string option \<Rightarrow> string option \<Rightarrow> identity_store \<Rightarrow>
   (registered_identity answer) option \<times> identity_store" where
  "registerIdentity deps groupId label st =
     (case identity_create (jd_bytes deps) (jd_created deps) (jd_cause deps) groupId label st of
        (Err e, st1) \<Rightarrow> (Some (Err e), st1)
      | (Ok row, st1) \<Rightarrow>
          let i = ai_id row
          in case jd_dbKey deps 0 i of
            Err e \<Rightarrow> (Some (Err e), removed i st1)
          | Ok _ \<Rightarrow>
              (case jd_identityKey deps 0 i of
                 Err e \<Rightarrow> (Some (Err e), removed i st1)
               | Ok key \<Rightarrow>
                   (case jd_address deps key of
                      None \<Rightarrow> (None, st1)
                    | Some address \<Rightarrow>
                        if \<not> jd_inMemory deps \<and> \<not> jd_mkdir deps i then (None, st1)
                        else case jd_createClient deps 0 i of
                          Err e \<Rightarrow> (Some (Err e), removed i st1)
                        | Ok (inboxId, _) \<Rightarrow>
                            (case setInboxId (jd_cause deps) i inboxId st1 of
                               (Err _, st2) \<Rightarrow>
                                 (Some (Err (InternalError_create ''Failed to persist inbox ID''
                                    (Some [(''identityId'', VStr i), (''inboxId'', VStr inboxId)]))), removed i st2)
                             | (Ok _, st2) \<Rightarrow>
                                 (Some (Ok \<lparr>rg_identityId = i, rg_inboxId = inboxId, rg_address = address, rg_label = label\<rparr>), st2)))))"

subsection \<open>Joining\<close>

record join_options =
  jo_label :: "string option"
  jo_profileName :: "string option"
  jo_pollIntervalMs :: nat
  jo_maxPollAttempts :: nat

record joined =
  jn_identityId :: string
  jn_inboxId :: string
  jn_groupId :: string
  jn_inviteTag :: string
  jn_groupName :: "string option"
  jn_creatorInboxId :: string
  jn_profileName :: "string option"
  jn_profileApplied :: bool

definition extractSlugForDm :: "invite_engine \<Rightarrow> string \<Rightarrow> string" where
  "extractSlugForDm en input =
     (let trimmed = js_trim input
      in case ie_url en trimmed of
        None \<Rightarrow> trimmed
      | Some url \<Rightarrow>
          if nullish (ur_param url ''i'') [] \<noteq> [] then the (ur_param url ''i'')
          else if nullish (ur_param url ''code'') [] \<noteq> [] then the (ur_param url ''code'')
          else trimmed)"

definition rejection_options :: list_options where
  "rejection_options = \<lparr>lo_limit = Some 20, lo_before = None, lo_after = None, lo_direction = Some LD_descending\<rparr>"

definition profile_of :: "string option \<Rightarrow> js_value" where
  "profile_of name =
     VObj ((''memberKind'', VStr ''agent'') # (case name of None \<Rightarrow> [] | Some n \<Rightarrow> [(''name'', VStr n)]))"

text \<open>The profile is sent as the scheme encodes it.\<close>

definition PROFILE_UPDATE_TYPE :: string where
  "PROFILE_UPDATE_TYPE = ''convos.org/profile_update:1.0''"

definition joined_group ::
  "(js_value \<Rightarrow> js_value) \<Rightarrow> managed \<Rightarrow> string option \<Rightarrow> scheme_invite \<Rightarrow> xmtp_group \<Rightarrow> call_log \<Rightarrow> joined \<times> call_log" where
  "joined_group encodeProfileUpdate m profileName invite g lg =
     (let (r, lg') = client_sendMessage m (xg_groupId g) (encodeProfileUpdate (profile_of profileName)) (Some PROFILE_UPDATE_TYPE) lg
      in (\<lparr>jn_identityId = mc_identityId m, jn_inboxId = mc_inboxId m, jn_groupId = xg_groupId g,
           jn_inviteTag = pi_tag invite, jn_groupName = (if xg_name g = [] then pi_name invite else Some (xg_name g)),
           jn_creatorInboxId = pi_creatorInboxId invite, jn_profileName = profileName, jn_profileApplied = isOk r\<rparr>, lg'))"

text \<open>The polls; \<open>Err\<close> carries the error with which the join ends.\<close>

fun poll_groups ::
  "invite_engine \<Rightarrow> (js_value \<Rightarrow> js_value) \<Rightarrow> managed \<Rightarrow> string option \<Rightarrow> scheme_invite \<Rightarrow> string \<Rightarrow> nat \<Rightarrow> int \<Rightarrow> call_log \<Rightarrow>
   joined answer \<times> call_log" where
  "poll_groups en encode m profileName invite dmId 0 totalMs lg = (Err (TimeoutError_create ''joinConversation'' totalMs), lg)"
| "poll_groups en encode m profileName invite dmId (Suc attempts) totalMs lg =
     (case client_syncAll m lg of
        (Err e, lg1) \<Rightarrow> (Err e, lg1)
      | (Ok _, lg1) \<Rightarrow>
          (case client_listGroups m lg1 of
             (Err e, lg2) \<Rightarrow> (Err e, lg2)
           | (Ok (g # _), lg2) \<Rightarrow> (let (j, lg3) = joined_group encode m profileName invite g lg2 in (Ok j, lg3))
           | (Ok [], lg2) \<Rightarrow>
               (case client_listMessages m dmId rejection_options lg2 of
                  (Ok msgs, lg3) \<Rightarrow>
                    (case findInviteJoinErrorReply en msgs (pi_creatorInboxId invite) (pi_tag invite) of
                       Some message \<Rightarrow> (Err (ValidationError_create ''inviteUrl'' message []), lg3)
                     | None \<Rightarrow> poll_groups en encode m profileName invite dmId attempts totalMs lg3)
                | (Err _, lg3) \<Rightarrow> poll_groups en encode m profileName invite dmId attempts totalMs lg3)))"

definition join_as ::
  "invite_engine \<Rightarrow> (js_value \<Rightarrow> js_value) \<Rightarrow> managed \<Rightarrow> scheme_invite \<Rightarrow> string \<Rightarrow> join_options \<Rightarrow> call_log \<Rightarrow> joined answer \<times> call_log" where
  "join_as en encode m invite inviteUrl opts lg =
     (case client_createDm m (pi_creatorInboxId invite) lg of
        (Err e, lg1) \<Rightarrow> (Err e, lg1)
      | (Ok dm, lg1) \<Rightarrow>
          let slug = extractSlugForDm en inviteUrl;
              joinRequest = VObj [(''inviteSlug'', VStr slug), (''profile'', profile_of (jo_profileName opts))]
          in case client_sendMessage m (xd_dmId dm) joinRequest (Some ''convos.org/join_request:1.0'') lg1 of
            (Err e, lg2) \<Rightarrow> (Err e, lg2)
          | (Ok _, lg2) \<Rightarrow>
              let (_, lg3) = client_sendDmMessage m (xd_dmId dm) slug lg2
              in poll_groups en encode m (jo_profileName opts) invite (xd_dmId dm) (jo_maxPollAttempts opts)
                   (int (jo_maxPollAttempts opts) * int (jo_pollIntervalMs opts)) lg3)"

definition checkInvite :: "invite_engine \<Rightarrow> int \<Rightarrow> string \<Rightarrow> scheme_invite answer" where
  "checkInvite en now inviteUrl =
     (case scheme_parse en now inviteUrl of
        Err e \<Rightarrow> Err e
      | Ok invite \<Rightarrow>
          (case scheme_verify en invite of
             Err e \<Rightarrow> Err e
           | Ok _ \<Rightarrow>
               if pi_isExpired invite then Err (ValidationError_create ''inviteUrl'' ''Invite has expired'' [])
               else if pi_isConversationExpired invite then Err (ValidationError_create ''inviteUrl'' ''Conversation has expired'' [])
               else Ok invite))"

definition joinConversation ::
  "invite_engine \<Rightarrow> (js_value \<Rightarrow> js_value) \<Rightarrow> join_deps \<Rightarrow> int \<Rightarrow> string \<Rightarrow> join_options \<Rightarrow> identity_store \<Rightarrow> call_log \<Rightarrow>
   (joined answer) option \<times> identity_store \<times> call_log" where
  "joinConversation en encode deps now inviteUrl opts st lg =
     (case checkInvite en now inviteUrl of
        Err e \<Rightarrow> (Some (Err e), st, lg)
      | Ok invite \<Rightarrow>
          (case registerIdentity deps None (jo_label opts) st of
             (None, st1) \<Rightarrow> (None, st1, lg)
           | (Some (Err e), st1) \<Rightarrow> (Some (Err e), st1, lg)
           | (Some (Ok reg), st1) \<Rightarrow>
               let i = rg_identityId reg; failed = (\<lambda>e lg'. (Some (Err e), removed i st1, lg'))
               in case jd_dbKey deps 1 i of
                 Err e \<Rightarrow> failed e lg
               | Ok _ \<Rightarrow>
                   (case jd_identityKey deps 1 i of
                      Err e \<Rightarrow> failed e lg
                    | Ok _ \<Rightarrow>
                        (case jd_createClient deps 1 i of
                           Err e \<Rightarrow> failed e lg
                         | Ok (_, client) \<Rightarrow>
                             let m = \<lparr>mc_identityId = i, mc_inboxId = rg_inboxId reg, mc_client = client, mc_groupIds = []\<rparr>
                             in case join_as en encode m invite inviteUrl opts lg of
                               (Err e, lg') \<Rightarrow> failed e lg'
                             | (Ok j, lg') \<Rightarrow> (Some (Ok j), st1, lg')))))"

subsection \<open>A failed join leaves nothing behind\<close>

lemma created_row:
  assumes "identity_create bytes now cause groupId label st = (Ok row, st1)"
  shows "st1 = st\<lparr>is_rows := is_rows st @ [row]\<rparr>" "ai_id row \<notin> ai_id ` set (is_rows st)" "ai_label row = label"
  using assms by (auto simp: identity_create_def Let_def violates_def split: if_splits)

lemma fresh_other: "k \<notin> f ` set xs \<Longrightarrow> x \<in> set xs \<Longrightarrow> f x \<noteq> k"
  by blast

lemma found_row: "ai_id row \<notin> ai_id ` set rows \<Longrightarrow>
    identity_getById (st\<lparr>is_rows := rows @ [row]\<rparr>) (ai_id row) = Some row"
proof -
  assume "ai_id row \<notin> ai_id ` set rows"
  then have "List.find (\<lambda>r. ai_id r = ai_id row) (rows @ [row]) = Some row" by (induction rows) auto
  then show ?thesis by (simp add: identity_getById_def row_where_def)
qed

lemma removed_row:
  assumes "ai_id row \<notin> ai_id ` set (is_rows st)" "ai_id row = i"
  shows "removed i (st\<lparr>is_rows := is_rows st @ [row]\<rparr>) = st"
proof -
  have "filter (\<lambda>r. ai_id r \<noteq> i) (is_rows st) = is_rows st" using assms fresh_other [of _ ai_id] by (intro filter_True) blast
  then show ?thesis using found_row [OF assms(1)] assms(2) by (simp add: removed_def identity_remove_def)
qed

lemma inbox_row:
  assumes "setInboxId cause i inboxId (st\<lparr>is_rows := is_rows st @ [row]\<rparr>) = (r, st2)" "ai_id row = i"
    and "ai_id row \<notin> ai_id ` set (is_rows st)"
  shows "case r of Err e \<Rightarrow> st2 = st\<lparr>is_rows := is_rows st @ [row]\<rparr>
    | Ok v \<Rightarrow> st2 = st\<lparr>is_rows := is_rows st @ [row\<lparr>ai_inboxId := Some inboxId\<rparr>]\<rparr>"
proof -
  have "map (\<lambda>r. if ai_id r = i then r\<lparr>ai_inboxId := Some inboxId\<rparr> else r) (is_rows st) = is_rows st"
    using assms(2) fresh_other [OF assms(3)] by (intro map_idI) simp
  then show ?thesis using assms found_row [OF assms(3)] by (auto simp: setInboxId_def Let_def split: if_splits)
qed

text \<open>Registration adds one identity or, when it fails, none; when something throws the new row stays.\<close>

lemma registration_exact:
  "case registerIdentity deps groupId label st of
     (Some (Err e), st') \<Rightarrow> st' = st
   | (Some (Ok reg), st') \<Rightarrow> \<exists>row. st' = st\<lparr>is_rows := is_rows st @ [row]\<rparr> \<and> ai_id row = rg_identityId reg \<and>
       ai_id row \<notin> ai_id ` set (is_rows st) \<and> ai_inboxId row = Some (rg_inboxId reg) \<and> ai_label row = label
   | (None, st') \<Rightarrow> \<exists>row. st' = st\<lparr>is_rows := is_rows st @ [row]\<rparr> \<and>
       ai_id row \<notin> ai_id ` set (is_rows st) \<and> ai_inboxId row = None"
proof (cases "identity_create (jd_bytes deps) (jd_created deps) (jd_cause deps) groupId label st")
  case (Pair r st1)
  show ?thesis
  proof (cases r)
    case (Err e)
    then have "st1 = st" using Pair by (auto simp: identity_create_def Let_def split: if_splits)
    then show ?thesis using Pair Err by (simp add: registerIdentity_def)
  next
    case (Ok row)
    note row = created_row [OF Pair [unfolded Ok]]
    have none: "ai_inboxId row = None" using Pair Ok by (auto simp: identity_create_def Let_def split: if_splits)
    have gone: "removed (ai_id row) (st\<lparr>is_rows := is_rows st @ [row]\<rparr>) = st"
      using removed_row [OF row(2)] by simp
    have set_ok: "case setInboxId (jd_cause deps) (ai_id row) b (st\<lparr>is_rows := is_rows st @ [row]\<rparr>) of
        (Err _, st2) \<Rightarrow> removed (ai_id row) st2 = st
      | (Ok _, st2) \<Rightarrow> st2 = st\<lparr>is_rows := is_rows st @ [row\<lparr>ai_inboxId := Some b\<rparr>]\<rparr>" for b
      using inbox_row [OF _ refl row(2)] gone by (fastforce split: prod.split result.splits)
    show ?thesis using row none gone set_ok
      by (auto simp: registerIdentity_def Pair Ok Let_def split: result.splits option.splits prod.splits)
         (fastforce split: prod.splits result.splits)+
  qed
qed

text \<open>The calls of a join: all of them of the new client, and at most three for every poll.\<close>

definition new_calls :: "string \<Rightarrow> nat \<Rightarrow> call_log \<Rightarrow> call_log \<Rightarrow> bool" where
  "new_calls i n lg lg' \<longleftrightarrow> (\<exists>calls. lg' = lg @ calls \<and> length calls \<le> n \<and> list_all (\<lambda>c. fst c = i) calls)"

lemma new_calls_refl [simp]: "new_calls i n lg lg"
  by (simp add: new_calls_def)

lemma new_calls_ask: "new_calls (mc_identityId m) n (snd (client_ask m c f lg)) lg' \<Longrightarrow> new_calls (mc_identityId m) (Suc n) lg lg'"
  by (auto simp: new_calls_def)

lemma new_calls_more: "new_calls i n lg lg' \<Longrightarrow> n \<le> n' \<Longrightarrow> new_calls i n' lg lg'"
  by (auto simp: new_calls_def)

definition joined_as :: "managed \<Rightarrow> joined answer \<Rightarrow> bool" where
  "joined_as m r \<longleftrightarrow> (case r of Err _ \<Rightarrow> True | Ok j \<Rightarrow> jn_identityId j = mc_identityId m \<and> jn_inboxId j = mc_inboxId m)"

lemma poll_calls:
  "case poll_groups en encode m profileName invite dmId attempts totalMs lg of
     (r, lg') \<Rightarrow> joined_as m r \<and> new_calls (mc_identityId m) (3 * attempts) lg lg'"
proof (induction attempts arbitrary: lg)
  case (Suc n)
  let ?i = "mc_identityId m"
  define l1 where "l1 = lg @ [(?i, X_syncAll)]"
  define l2 where "l2 = l1 @ [(?i, X_listGroups)]"
  define l3 where "l3 = l2 @ [(?i, X_listMessages dmId rejection_options)]"
  have a: "client_syncAll m lg = (xc_syncAll (mc_client m) lg, l1)" "client_listGroups m l1 = (xc_listGroups (mc_client m) l1, l2)"
      "client_listMessages m dmId rejection_options l2 = (xc_listMessages (mc_client m) l2 dmId rejection_options, l3)"
    by (simp_all add: client_syncAll_def client_listGroups_def client_listMessages_def client_ask_def l1_def l2_def l3_def)
  have n: "new_calls ?i (3 + 3 * n) lg l1" "new_calls ?i (3 + 3 * n) lg l2" "new_calls ?i (3 + 3 * n) lg l3"
      "new_calls ?i (3 + 3 * n) lg (l2 @ [(?i, c)])" for c
    by (simp_all add: new_calls_def l1_def l2_def l3_def)
  have more: "new_calls ?i (3 + 3 * n) lg lg'" if "new_calls ?i (3 * n) l3 lg'" for lg'
    using that by (auto simp: new_calls_def l1_def l2_def l3_def)
  have rest: "case poll_groups en encode m profileName invite dmId n totalMs l3 of
      (r, lg') \<Rightarrow> joined_as m r \<and> new_calls ?i (3 + 3 * n) lg lg'"
    using Suc [of l3] more by auto
  show ?case
  proof (cases "xc_syncAll (mc_client m) lg")
    case (Err e)
    then show ?thesis using n by (simp add: a joined_as_def)
  next
    case (Ok u)
    note sync = Ok
    show ?thesis
    proof (cases "xc_listGroups (mc_client m) l1")
      case (Err e)
      then show ?thesis using n sync by (simp add: a joined_as_def)
    next
      case (Ok gs)
      show ?thesis
      proof (cases gs)
        case Nil
        show ?thesis using Ok Nil sync rest n
          by (auto simp: a joined_as_def split: result.split option.split)
      next
        case (Cons g gs')
        show ?thesis using Ok Cons sync n
          by (simp add: a joined_group_def Let_def client_sendMessage_def client_ask_def joined_as_def)
      qed
    qed
  qed
qed (simp add: joined_as_def)

lemma join_calls:
  "case join_as en encode m invite inviteUrl opts lg of
     (r, lg') \<Rightarrow> joined_as m r \<and> new_calls (mc_identityId m) (3 + 3 * jo_maxPollAttempts opts) lg lg'"
proof -
  let ?i = "mc_identityId m" and ?n = "jo_maxPollAttempts opts"
  define l1 where "l1 = lg @ [(?i, X_createDm (pi_creatorInboxId invite))]"
  have dm: "client_createDm m (pi_creatorInboxId invite) lg = (xc_createDm (mc_client m) lg (pi_creatorInboxId invite), l1)"
    by (simp add: client_createDm_def client_ask_def l1_def)
  have l1: "new_calls ?i (3 + 3 * ?n) lg l1" by (simp add: new_calls_def l1_def)
  show ?thesis
  proof (cases "xc_createDm (mc_client m) lg (pi_creatorInboxId invite)")
    case (Err e)
    then show ?thesis using l1 by (simp add: join_as_def dm joined_as_def)
  next
    case (Ok d)
    let ?slug = "extractSlugForDm en inviteUrl"
    let ?req = "VObj [(''inviteSlug'', VStr ?slug), (''profile'', profile_of (jo_profileName opts))]"
    let ?t = "Some ''convos.org/join_request:1.0''"
    define l2 where "l2 = l1 @ [(?i, X_sendMessage (xd_dmId d) ?req ?t)]"
    define l3 where "l3 = l2 @ [(?i, X_sendDmMessage (xd_dmId d) ?slug)]"
    have send: "client_sendMessage m (xd_dmId d) ?req ?t l1 = (xc_sendMessage (mc_client m) l1 (xd_dmId d) ?req ?t, l2)"
        "snd (client_sendDmMessage m (xd_dmId d) ?slug l2) = l3"
      by (simp_all add: client_sendMessage_def client_sendDmMessage_def client_ask_def l2_def l3_def)
    have "new_calls ?i (3 + 3 * ?n) lg l2" by (simp add: new_calls_def l1_def l2_def)
    moreover have "new_calls ?i (3 + 3 * ?n) lg lg'" if "new_calls ?i (3 * ?n) l3 lg'" for lg'
      using that by (auto simp: new_calls_def l1_def l2_def l3_def)
    ultimately show ?thesis
      using Ok poll_calls [where en = en and encode = encode and m = m and profileName = "jo_profileName opts" and invite = invite
          and dmId = "xd_dmId d" and attempts = ?n and totalMs = "int ?n * int (jo_pollIntervalMs opts)" and lg = l3]
      by (auto simp: join_as_def dm Let_def send joined_as_def split_beta split: result.split)
  qed
qed

text \<open>What a join does to the identities and the calls, by how it ends. In the end the property below
  restates it, and the actions on conversations use it.\<close>

lemma join_exact:
  "case joinConversation en encode deps now inviteUrl opts st lg of
     (Some (Err e), st', lg') \<Rightarrow> st' = st \<and>
       (lg' = lg \<or> (\<exists>i. i \<notin> ai_id ` set (is_rows st) \<and> new_calls i (3 + 3 * jo_maxPollAttempts opts) lg lg'))
   | (Some (Ok j), st', lg') \<Rightarrow> (\<exists>row. st' = st\<lparr>is_rows := is_rows st @ [row]\<rparr> \<and> ai_id row = jn_identityId j \<and>
       ai_id row \<notin> ai_id ` set (is_rows st) \<and> ai_inboxId row = Some (jn_inboxId j) \<and> ai_label row = jo_label opts) \<and>
       new_calls (jn_identityId j) (3 + 3 * jo_maxPollAttempts opts) lg lg'
   | (None, st', lg') \<Rightarrow> lg' = lg \<and> (\<exists>row. st' = st\<lparr>is_rows := is_rows st @ [row]\<rparr> \<and>
       ai_id row \<notin> ai_id ` set (is_rows st) \<and> ai_inboxId row = None)"
proof (cases "checkInvite en now inviteUrl")
  case (Err e)
  then show ?thesis by (simp add: joinConversation_def)
next
  case (Ok invite)
  note checked = Ok
  note reg = registration_exact [where deps = deps and groupId = None and label = "jo_label opts" and st = st]
  obtain r st1 where p: "registerIdentity deps None (jo_label opts) st = (r, st1)" by (cases "registerIdentity deps None (jo_label opts) st")
  show ?thesis
  proof (cases r)
    case None
    then show ?thesis using checked p reg by (simp add: joinConversation_def)
  next
    case (Some a)
    show ?thesis
    proof (cases a)
      case (Err e)
      then show ?thesis using checked p Some reg by (simp add: joinConversation_def)
    next
      case (Ok ri)
      obtain row where row: "st1 = st\<lparr>is_rows := is_rows st @ [row]\<rparr>" "ai_id row = rg_identityId ri"
          "ai_id row \<notin> ai_id ` set (is_rows st)" "ai_inboxId row = Some (rg_inboxId ri)" "ai_label row = jo_label opts"
        using reg p Some Ok by auto
      have gone: "removed (rg_identityId ri) st1 = st" unfolding row(1) by (rule removed_row [OF row(3,2)])
      show ?thesis
      proof (cases "isOk (jd_dbKey deps 1 (rg_identityId ri)) \<and> isOk (jd_identityKey deps 1 (rg_identityId ri)) \<and>
          isOk (jd_createClient deps 1 (rg_identityId ri))")
        case False
        then show ?thesis using checked p Some Ok gone
          by (auto simp: joinConversation_def Let_def split: result.splits)
      next
        case True
        then obtain c where c: "jd_createClient deps 1 (rg_identityId ri) = Ok c" by (auto simp: isOk_iff)
        let ?m = "\<lparr>mc_identityId = rg_identityId ri, mc_inboxId = rg_inboxId ri, mc_client = snd c, mc_groupIds = []\<rparr>"
        obtain q lg' where q: "join_as en encode ?m invite inviteUrl opts lg = (q, lg')"
          by (cases "join_as en encode ?m invite inviteUrl opts lg")
        have j: "joined_as ?m q" "new_calls (rg_identityId ri) (3 + 3 * jo_maxPollAttempts opts) lg lg'"
          using join_calls [where en = en and encode = encode and m = ?m and invite = invite and inviteUrl = inviteUrl and opts = opts and lg = lg] q by simp_all
        have "joinConversation en encode deps now inviteUrl opts st lg =
            (case q of Err e \<Rightarrow> (Some (Err e), st, lg') | Ok j \<Rightarrow> (Some (Ok j), st1, lg'))"
          using True checked p Some Ok gone c q by (auto simp: joinConversation_def Let_def isOk_iff split_beta split: result.split)
        moreover have "\<exists>row. st1 = st\<lparr>is_rows := is_rows st @ [row]\<rparr> \<and> ai_id row = rg_identityId ri \<and>
            ai_id row \<notin> ai_id ` set (is_rows st) \<and> ai_inboxId row = Some (rg_inboxId ri) \<and> ai_label row = jo_label opts"
          using row by blast
        moreover have fresh: "rg_identityId ri \<notin> ai_id ` set (is_rows st)" using row(2,3) by simp
        ultimately show ?thesis using j by (cases q) (auto simp only: joined_as_def result.case option.case prod.case managed_client.simps)
      qed
    qed
  qed
qed

text \<open>C38: A join that fails with an error leaves the identities exactly as they were, whatever fails: the
  invite, the registration, the keys, the client, the messages, a rejection by the host, or the time running
  out. A join that succeeds adds exactly one identity, the one it answers with, under a fresh identifier. All
  calls are those of the new client, at most three for every poll and three more. A join that an exception
  ends (the address of the key or the directory of the database cannot be made) has made no call and left the
  new identity, without an inbox, and nothing else.\<close>

theorem join_failure_cleans_up:
  "case joinConversation en encode deps now inviteUrl opts st lg of
     (Some (Err e), st', lg') \<Rightarrow> st' = st \<and>
       (lg' = lg \<or> (\<exists>i. i \<notin> ai_id ` set (is_rows st) \<and> new_calls i (3 + 3 * jo_maxPollAttempts opts) lg lg'))
   | (Some (Ok j), st', lg') \<Rightarrow> (\<exists>row. st' = st\<lparr>is_rows := is_rows st @ [row]\<rparr> \<and> ai_id row = jn_identityId j \<and>
       ai_id row \<notin> ai_id ` set (is_rows st) \<and> ai_inboxId row = Some (jn_inboxId j) \<and> ai_label row = jo_label opts) \<and>
       new_calls (jn_identityId j) (3 + 3 * jo_maxPollAttempts opts) lg lg'
   | (None, st', lg') \<Rightarrow> lg' = lg \<and> (\<exists>row. st' = st\<lparr>is_rows := is_rows st @ [row]\<rparr> \<and>
       ai_id row \<notin> ai_id ` set (is_rows st) \<and> ai_inboxId row = None)"
  by (rule join_exact)

text \<open>An exception while the address or the directory is made leaves the new identity in the store.\<close>

lemma thrown_registration_leaves_identity:
  assumes "identity_create (jd_bytes deps) (jd_created deps) (jd_cause deps) None label st = (Ok row, st1)"
    and "jd_dbKey deps 0 (ai_id row) = Ok key" "jd_identityKey deps 0 (ai_id row) = Ok idKey"
    and "jd_address deps idKey = Some address" "\<not> jd_inMemory deps" "\<not> jd_mkdir deps (ai_id row)"
  shows "registerIdentity deps None label st = (None, st\<lparr>is_rows := is_rows st @ [row]\<rparr>)"
  using assms created_row [OF assms(1)] by (simp add: registerIdentity_def Let_def)

end
