(* ===== verification/ConversationActions.thy ===== *)
theory ConversationActions
  imports JoinClient
begin

text \<open>
  The actions on conversations (\<^verbatim>\<open>packages/core/src/conversation-actions.ts\<close>). The state holds the calls made to the
  network, the identifier mappings, the invite tags that were stored, the local clean-ups that were requested, the identities and
  those the runtime was asked to attach;
  group metadata, operators, keys and clean-up are arguments. \<open>None\<close> as a result stands for an exception of the
  mapping store.
\<close>

subsection \<open>State and dependencies\<close>

datatype cleanup_reason = CR_rm | CR_leave_purge

record cleanup_request =
  cq_chatId :: string
  cq_groupId :: string
  cq_execute :: bool
  cq_reason :: cleanup_reason

record cleanup_result =
  cu_executed :: bool
  cu_actions :: "string list"

record conversation_state =
  cv_log :: call_log
  cv_mappings :: "id_mappings option"
  cv_tags :: "(string \<times> string) list"
  cv_cleanups :: "cleanup_request list"
  cv_identities :: identity_store
  cv_attached :: "string list"

record conversation_deps =
  cd_clients :: "xmtp_client client_registry"
  cd_clientForGroup :: "(string \<Rightarrow> managed option) option"
  cd_getGroupInfo :: "call_log \<Rightarrow> string \<Rightarrow> xmtp_group answer"
  cd_operatorLabel :: "(string \<Rightarrow> string answer) option"
  cd_cleanup :: "(cleanup_request \<Rightarrow> cleanup_result answer) option"
  cd_storesTags :: bool
  cd_walletKey :: "(string \<Rightarrow> string answer) option"
  cd_env :: "xmtp_env option"
  cd_engine :: invite_engine
  cd_encodeProfile :: "js_value \<Rightarrow> js_value"
  cd_join :: "join_deps option"
  cd_attach :: "(string \<Rightarrow> bool) option"

text \<open>The clock and the random bytes an action draws.\<close>

record action_input_env =
  ax_now :: int
  ax_bytes :: "nat \<Rightarrow> 8 word list"

datatype profile_source = Explicit | Operator_default

datatype conversation_action =
    Chat_create "string list" "string option" "string option"
  | Chat_list "string option"
  | Chat_info string
  | Chat_update string metadata_changes
  | Chat_update_profile string "string option" "string option" "string option"
  | Chat_join string "string option" "string option" "string option" "rat option"
  | Chat_invite string "string option" "string option" "string option"
  | Chat_leave string "bool option"
  | Chat_rm string "bool option"
  | Chat_add_member string string "string option"
  | Chat_remove_member string string "string option"
  | Chat_promote_member string string
  | Chat_demote_member string string
  | Chat_members string

datatype conversation_reply =
    Created "string option" string string string nat
  | Groups "(xmtp_group \<times> string option) list"
  | Group_info xmtp_group string
  | Profile_updated string string string profile_source
  | Joined_chat joined "string option" "profile_source option"
  | Invited string string string string string string
  | Left string string "cleanup_result option"
  | Removed_local string string cleanup_result
  | Member_count string string nat
  | Role_set string string string bool
  | Members string string "string list"

subsection \<open>Helpers\<close>

definition ensureLocalId ::
  "8 word list \<Rightarrow> string \<Rightarrow> id_mappings option \<Rightarrow> (string option \<times> id_mappings option) option" where
  "ensureLocalId bytes groupId idMappings =
     (case idMappings of
        None \<Rightarrow> Some (None, None)
      | Some m \<Rightarrow>
          if nullish (getLocal m groupId) [] \<noteq> [] then Some (getLocal m groupId, Some m)
          else let localId = createResourceId RT_conversation bytes
               in map_option (\<lambda>m'. (Some localId, Some m')) (mapping_set groupId localId MT_conversation m))"

definition resolveProfileSelection ::
  "(string \<Rightarrow> string answer) option \<Rightarrow> string option \<Rightarrow> string option \<Rightarrow> ((string \<times> profile_source) option) answer" where
  "resolveProfileSelection operators operatorId profileName =
     (case profileName of
        Some n \<Rightarrow> Ok (Some (n, Explicit))
      | None \<Rightarrow>
          (case operatorId of
             None \<Rightarrow> Ok None
           | Some i \<Rightarrow>
               (case operators of
                  None \<Rightarrow> Err (InternalError_create ''OperatorManager not initialized before resolving profile defaults'' None)
                | Some lookup \<Rightarrow>
                    (case lookup i of Err e \<Rightarrow> Err e | Ok label \<Rightarrow> Ok (Some (label, Operator_default))))))"

definition resolveManagedClientForGroup ::
  "conversation_deps \<Rightarrow> identity_store \<Rightarrow> string \<Rightarrow> string option \<Rightarrow> managed answer" where
  "resolveManagedClientForGroup deps ids groupId identityLabel =
     (case identityLabel of
        Some l \<Rightarrow> acting_client ids (cd_clients deps) (Some l)
      | None \<Rightarrow>
          (case Option.bind (cd_clientForGroup deps) (\<lambda>f. f groupId) of
             Some m \<Rightarrow> Ok m
           | None \<Rightarrow> acting_client ids (cd_clients deps) None))"

definition runLocalCleanup ::
  "conversation_deps \<Rightarrow> cleanup_request \<Rightarrow> conversation_state \<Rightarrow> cleanup_result answer \<times> conversation_state" where
  "runLocalCleanup deps q st =
     (case cd_cleanup deps of
        None \<Rightarrow> (Ok \<lparr>cu_executed = cq_execute q, cu_actions = []\<rparr>, st)
      | Some cleanup \<Rightarrow> (cleanup q, st\<lparr>cv_cleanups := cv_cleanups st @ [q]\<rparr>))"

definition digit36 :: "nat \<Rightarrow> char" where
  "digit36 n = ''0123456789abcdefghijklmnopqrstuvwxyz'' ! n"

text \<open>A byte in base 36 has one or two digits and is padded to two.\<close>

definition invite_tag_of :: "8 word list \<Rightarrow> string" where
  "invite_tag_of bytes = take 10 (concat (map (\<lambda>b. [digit36 (unat b div 36), digit36 (unat b mod 36)]) bytes))"

definition group_of :: "conversation_state \<Rightarrow> string \<Rightarrow> string" where
  "group_of st chatId = resolveGroupId (cv_mappings st) chatId"

text \<open>A call of a client and what follows when it succeeds.\<close>

type_synonym 'a step = "conversation_state \<Rightarrow> 'a answer option \<times> conversation_state"

definition with_client ::
  "managed answer \<Rightarrow> (managed \<Rightarrow> call_log \<Rightarrow> 'b answer \<times> call_log) \<Rightarrow> (managed \<Rightarrow> 'b \<Rightarrow> 'a step) \<Rightarrow> 'a step" where
  "with_client selected call go_on st =
     (case selected of
        Err e \<Rightarrow> (Some (Err e), st)
      | Ok m \<Rightarrow>
          (case call m (cv_log st) of
             (Err e, lg) \<Rightarrow> (Some (Err e), st\<lparr>cv_log := lg\<rparr>)
           | (Ok v, lg) \<Rightarrow> go_on m v (st\<lparr>cv_log := lg\<rparr>)))"

definition with_group_info :: "conversation_deps \<Rightarrow> string \<Rightarrow> (xmtp_group \<Rightarrow> 'a) \<Rightarrow> 'a step" where
  "with_group_info deps groupId f st =
     (case cd_getGroupInfo deps (cv_log st) groupId of Err e \<Rightarrow> (Some (Err e), st) | Ok g \<Rightarrow> (Some (Ok (f g)), st))"

subsection \<open>Handlers\<close>

definition chat_create :: "conversation_deps \<Rightarrow> action_input_env \<Rightarrow> string list \<Rightarrow> string option \<Rightarrow> string option \<Rightarrow> conversation_reply step" where
  "chat_create deps ax memberInboxIds name label st =
     with_client (acting_client (cv_identities st) (cd_clients deps) label)
       (\<lambda>m. client_createGroup m memberInboxIds name)
       (\<lambda>m g st1.
          case ensureLocalId (ax_bytes ax 0) (xg_groupId g) (cv_mappings st1) of
            None \<Rightarrow> (None, st1)
          | Some (chatId, maps) \<Rightarrow>
              (Some (Ok (Created chatId (xg_groupId g) (xg_name g) (mc_inboxId m) (length (xg_memberInboxIds g)))),
               st1\<lparr>cv_mappings := maps\<rparr>)) st"

fun local_ids ::
  "(nat \<Rightarrow> 8 word list) \<Rightarrow> nat \<Rightarrow> xmtp_group list \<Rightarrow> id_mappings option \<Rightarrow>
   ((xmtp_group \<times> string option) list) option \<times> id_mappings option" where
  "local_ids bytes n [] maps = (Some [], maps)"
| "local_ids bytes n (g # gs) maps =
     (case ensureLocalId (bytes n) (xg_groupId g) maps of
        None \<Rightarrow> (None, maps)
      | Some (chatId, maps') \<Rightarrow>
          (case local_ids bytes (Suc n) gs maps' of
             (None, maps'') \<Rightarrow> (None, maps'')
           | (Some rest, maps'') \<Rightarrow> (Some ((g, chatId) # rest), maps'')))"

definition chat_list :: "conversation_deps \<Rightarrow> action_input_env \<Rightarrow> string option \<Rightarrow> conversation_reply step" where
  "chat_list deps ax label st =
     with_client (acting_client (cv_identities st) (cd_clients deps) label) client_listGroups
       (\<lambda>m gs st1. case local_ids (ax_bytes ax) 0 gs (cv_mappings st1) of
          (r, maps) \<Rightarrow> (map_option (\<lambda>l. Ok (Groups l)) r, st1\<lparr>cv_mappings := maps\<rparr>)) st"

definition chat_info :: "conversation_deps \<Rightarrow> string \<Rightarrow> conversation_reply step" where
  "chat_info deps chatId st = with_group_info deps (group_of st chatId) (\<lambda>g. Group_info g chatId) st"

definition chat_update :: "conversation_deps \<Rightarrow> string \<Rightarrow> metadata_changes \<Rightarrow> conversation_reply step" where
  "chat_update deps chatId changes st =
     (let g = group_of st chatId
      in with_client (resolveManagedClientForGroup deps (cv_identities st) g None)
           (\<lambda>m. client_updateGroupMetadata m g changes)
           (\<lambda>m _. with_group_info deps g (\<lambda>i. Group_info i chatId)) st)"

definition chat_update_profile ::
  "conversation_deps \<Rightarrow> string \<Rightarrow> string option \<Rightarrow> string option \<Rightarrow> string option \<Rightarrow> conversation_reply step" where
  "chat_update_profile deps chatId label operatorId profileName st =
     (let g = group_of st chatId; selected = resolveManagedClientForGroup deps (cv_identities st) g label
      in case selected of
        Err e \<Rightarrow> (Some (Err e), st)
      | Ok _ \<Rightarrow>
          (case resolveProfileSelection (cd_operatorLabel deps) operatorId profileName of
             Err e \<Rightarrow> (Some (Err e), st)
           | Ok None \<Rightarrow> (Some (Err (ValidationError_create ''profileName'' ''A profile name or operator default is required'' [])), st)
           | Ok (Some (name, source)) \<Rightarrow>
               with_client selected
                 (\<lambda>m. client_sendMessage m g (cd_encodeProfile deps (profile_of (Some name))) (Some PROFILE_UPDATE_TYPE))
                 (\<lambda>m _ st1. (Some (Ok (Profile_updated chatId g name source)), st1)) st))"

text \<open>The runtime is asked to attach a joined identity; its answer is ignored, unless the hook throws (\<open>False\<close>).\<close>

definition attach_identity :: "conversation_deps \<Rightarrow> string \<Rightarrow> conversation_state \<Rightarrow> bool \<times> conversation_state" where
  "attach_identity deps i st =
     (case cd_attach deps of None \<Rightarrow> (True, st) | Some hook \<Rightarrow> (hook i, st\<lparr>cv_attached := cv_attached st @ [i]\<rparr>))"

definition chat_join ::
  "conversation_deps \<Rightarrow> action_input_env \<Rightarrow> string \<Rightarrow> string option \<Rightarrow> string option \<Rightarrow> string option \<Rightarrow> rat option \<Rightarrow>
   conversation_reply step" where
  "chat_join deps ax inviteUrl label operatorId profileName timeoutSeconds st =
     (case cd_join deps of
        None \<Rightarrow> (Some (Err (NotFoundError_create ''join-deps'' ''Join requires clientFactory, signerProviderFactory, and config'')), st)
      | Some jd \<Rightarrow>
          let polls = (case timeoutSeconds of None \<Rightarrow> 30 | Some s \<Rightarrow> if s = 0 then 30 else nat \<lceil>s * 1000 / 2000\<rceil>)
          in case resolveProfileSelection (cd_operatorLabel deps) operatorId profileName of
            Err e \<Rightarrow> (Some (Err e), st)
          | Ok selection \<Rightarrow>
              let opts = \<lparr>jo_label = label, jo_profileName = map_option fst selection, jo_pollIntervalMs = 2000,
                          jo_maxPollAttempts = polls\<rparr>
              in case joinConversation (cd_engine deps) (cd_encodeProfile deps) jd (ax_now ax) inviteUrl opts
                        (cv_identities st) (cv_log st) of
                (r, ids, lg) \<Rightarrow>
                  let st1 = st\<lparr>cv_identities := ids, cv_log := lg\<rparr>
                  in case r of
                    None \<Rightarrow> (None, st1)
                  | Some (Err e) \<Rightarrow> (Some (Err e), st1)
                  | Some (Ok j) \<Rightarrow>
                      (case attach_identity deps (jn_identityId j) st1 of
                         (False, st2) \<Rightarrow> (None, st2)
                       | (True, st2) \<Rightarrow>
                           (case ensureLocalId (ax_bytes ax 0) (jn_groupId j) (cv_mappings st2) of
                              None \<Rightarrow> (None, st2)
                            | Some (chatId, maps) \<Rightarrow>
                                (Some (Ok (Joined_chat j chatId (map_option snd selection))), st2\<lparr>cv_mappings := maps\<rparr>))))"

definition chat_invite ::
  "conversation_deps \<Rightarrow> action_input_env \<Rightarrow> string \<Rightarrow> string option \<Rightarrow> string option \<Rightarrow> string option \<Rightarrow> conversation_reply step" where
  "chat_invite deps ax chatId label name description st =
     (let g = group_of st chatId
      in case (cd_walletKey deps, cd_env deps) of
        (Some walletKey, Some env) \<Rightarrow>
          (case resolveIdentitySelector (cv_identities st) label of
             Err e \<Rightarrow> (Some (Err e), st)
           | Ok resolved \<Rightarrow>
               (case registry_get (cd_clients deps) (ri_identityId resolved) of
                  None \<Rightarrow> (Some (Err (NotFoundError_create ''managed-client'' (ri_identityId resolved))), st)
                | Some m \<Rightarrow>
                    (case cd_getGroupInfo deps (cv_log st) g of
                       Err e \<Rightarrow> (Some (Err e), st)
                     | Ok info \<Rightarrow>
                         (case walletKey (ri_identityId resolved) of
                            Err e \<Rightarrow> (Some (Err e), st)
                          | Ok key \<Rightarrow>
                              let keyHex = (if starts_with key ''0x'' then drop 2 key else key);
                                  inviteTag = invite_tag_of (ax_bytes ax 0);
                                  metadata = \<lparr>im_tag = inviteTag, im_name = Some (nullish name (xg_name info)),
                                              im_description = Some (nullish description (xg_description info)), im_imageUrl = None\<rparr>
                              in case scheme_generate (cd_engine deps) (ax_bytes ax 1) g None (mc_inboxId m) keyHex metadata
                                        \<lparr>io_env = env, io_expiresAt = None, io_expiresAfterUse = None\<rparr> of
                                Err e \<Rightarrow> (Some (Err e), st)
                              | Ok (url, slug) \<Rightarrow>
                                  (Some (Ok (Invited url chatId g (xg_name info) (mc_inboxId m) inviteTag)),
                                   if cd_storesTags deps then st\<lparr>cv_tags := cv_tags st @ [(g, inviteTag)]\<rparr> else st)))))
      | _ \<Rightarrow> (Some (Err (NotFoundError_create ''invite-deps'' ''Invite requires signerProviderFactory and config'')), st))"

definition chat_leave :: "conversation_deps \<Rightarrow> string \<Rightarrow> bool option \<Rightarrow> conversation_reply step" where
  "chat_leave deps chatId purge st =
     (let g = group_of st chatId
      in with_client (resolveManagedClientForGroup deps (cv_identities st) g None) (\<lambda>m. client_leaveGroup m g)
           (\<lambda>m _ st1.
              if purge = Some True
              then (case runLocalCleanup deps \<lparr>cq_chatId = chatId, cq_groupId = g, cq_execute = True, cq_reason = CR_leave_purge\<rparr> st1 of
                      (Err e, st2) \<Rightarrow> (Some (Err e), st2)
                    | (Ok c, st2) \<Rightarrow> (Some (Ok (Left chatId g (Some c))), st2))
              else (Some (Ok (Left chatId g None)), st1)) st)"

definition chat_rm :: "conversation_deps \<Rightarrow> string \<Rightarrow> bool option \<Rightarrow> conversation_reply step" where
  "chat_rm deps chatId force st =
     (let g = group_of st chatId
      in case runLocalCleanup deps \<lparr>cq_chatId = chatId, cq_groupId = g, cq_execute = (force = Some True), cq_reason = CR_rm\<rparr> st of
           (Err e, st1) \<Rightarrow> (Some (Err e), st1)
         | (Ok c, st1) \<Rightarrow> (Some (Ok (Removed_local chatId g c)), st1))"

definition chat_add_member :: "conversation_deps \<Rightarrow> string \<Rightarrow> string \<Rightarrow> string option \<Rightarrow> conversation_reply step" where
  "chat_add_member deps chatId inboxId label st =
     (let g = group_of st chatId
      in with_client (resolveManagedClientForGroup deps (cv_identities st) g label) (\<lambda>m. client_addMembers m g [inboxId])
           (\<lambda>m _. with_group_info deps g (\<lambda>i. Member_count chatId g (length (xg_memberInboxIds i)))) st)"

definition chat_remove_member :: "conversation_deps \<Rightarrow> string \<Rightarrow> string \<Rightarrow> string option \<Rightarrow> conversation_reply step" where
  "chat_remove_member deps chatId inboxId label st =
     (let g = group_of st chatId
      in with_client (resolveManagedClientForGroup deps (cv_identities st) g label) (\<lambda>m. client_removeMembers m g [inboxId])
           (\<lambda>m _. with_group_info deps g (\<lambda>i. Member_count chatId g (length (xg_memberInboxIds i)))) st)"

definition chat_promote_member :: "conversation_deps \<Rightarrow> string \<Rightarrow> string \<Rightarrow> conversation_reply step" where
  "chat_promote_member deps chatId inboxId st =
     (let g = group_of st chatId
      in with_client (resolveManagedClientForGroup deps (cv_identities st) g None) (\<lambda>m. client_addAdmin m g inboxId)
           (\<lambda>m _ st1. (Some (Ok (Role_set chatId g inboxId True)), st1)) st)"

definition chat_demote_member :: "conversation_deps \<Rightarrow> string \<Rightarrow> string \<Rightarrow> conversation_reply step" where
  "chat_demote_member deps chatId inboxId st =
     (let g = group_of st chatId
      in with_client (resolveManagedClientForGroup deps (cv_identities st) g None) (\<lambda>m. client_removeAdmin m g inboxId)
           (\<lambda>m _ st1. (Some (Ok (Role_set chatId g inboxId False)), st1)) st)"

definition chat_members :: "conversation_deps \<Rightarrow> string \<Rightarrow> conversation_reply step" where
  "chat_members deps chatId st =
     (let g = group_of st chatId in with_group_info deps g (\<lambda>i. Members chatId g (xg_memberInboxIds i)) st)"

text \<open>The refinements of the input schemas, and the actions of the component.\<close>

definition input_ok :: "conversation_action \<Rightarrow> bool" where
  "input_ok a \<longleftrightarrow>
     (case a of
        Chat_update _ ch \<Rightarrow> mx_name ch \<noteq> None \<or> mx_description ch \<noteq> None \<or> mx_imageUrl ch \<noteq> None
      | Chat_update_profile _ _ operatorId profileName \<Rightarrow> profileName \<noteq> None \<or> operatorId \<noteq> None
      | Chat_join _ _ _ _ (Some s) \<Rightarrow> 0 < s
      | _ \<Rightarrow> True)"

fun run_action :: "conversation_deps \<Rightarrow> action_input_env \<Rightarrow> conversation_action \<Rightarrow> conversation_reply step" where
  "run_action deps ax (Chat_create ids name label) = chat_create deps ax ids name label"
| "run_action deps ax (Chat_list label) = chat_list deps ax label"
| "run_action deps ax (Chat_info c) = chat_info deps c"
| "run_action deps ax (Chat_update c ch) = chat_update deps c ch"
| "run_action deps ax (Chat_update_profile c l oi p) = chat_update_profile deps c l oi p"
| "run_action deps ax (Chat_join u l oi p t) = chat_join deps ax u l oi p t"
| "run_action deps ax (Chat_invite c l n d) = chat_invite deps ax c l n d"
| "run_action deps ax (Chat_leave c p) = chat_leave deps c p"
| "run_action deps ax (Chat_rm c f) = chat_rm deps c f"
| "run_action deps ax (Chat_add_member c i l) = chat_add_member deps c i l"
| "run_action deps ax (Chat_remove_member c i l) = chat_remove_member deps c i l"
| "run_action deps ax (Chat_promote_member c i) = chat_promote_member deps c i"
| "run_action deps ax (Chat_demote_member c i) = chat_demote_member deps c i"
| "run_action deps ax (Chat_members c) = chat_members deps c"

subsection \<open>What an action asks and changes\<close>

text \<open>The contract: the one call an action is for and the client that makes it, the clean-up it asks for, the tag it
  stores, and the pairs of network and local identifiers that are known.\<close>

fun intended :: "conversation_deps \<Rightarrow> conversation_state \<Rightarrow> conversation_action \<Rightarrow> (managed answer \<times> client_call) option" where
  "intended deps st (Chat_create ids name label) =
     Some (acting_client (cv_identities st) (cd_clients deps) label, X_createGroup ids name)"
| "intended deps st (Chat_list label) = Some (acting_client (cv_identities st) (cd_clients deps) label, X_listGroups)"
| "intended deps st (Chat_update c ch) =
     Some (resolveManagedClientForGroup deps (cv_identities st) (group_of st c) None, X_updateGroupMetadata (group_of st c) ch)"
| "intended deps st (Chat_update_profile c l oi p) =
     (case resolveProfileSelection (cd_operatorLabel deps) oi p of
        Ok (Some (name, _)) \<Rightarrow>
          Some (resolveManagedClientForGroup deps (cv_identities st) (group_of st c) l,
            X_sendMessage (group_of st c) (cd_encodeProfile deps (profile_of (Some name))) (Some PROFILE_UPDATE_TYPE))
      | _ \<Rightarrow> None)"
| "intended deps st (Chat_leave c p) =
     Some (resolveManagedClientForGroup deps (cv_identities st) (group_of st c) None, X_leaveGroup (group_of st c))"
| "intended deps st (Chat_add_member c i l) =
     Some (resolveManagedClientForGroup deps (cv_identities st) (group_of st c) l, X_addMembers (group_of st c) [i])"
| "intended deps st (Chat_remove_member c i l) =
     Some (resolveManagedClientForGroup deps (cv_identities st) (group_of st c) l, X_removeMembers (group_of st c) [i])"
| "intended deps st (Chat_promote_member c i) =
     Some (resolveManagedClientForGroup deps (cv_identities st) (group_of st c) None, X_addAdmin (group_of st c) i)"
| "intended deps st (Chat_demote_member c i) =
     Some (resolveManagedClientForGroup deps (cv_identities st) (group_of st c) None, X_removeAdmin (group_of st c) i)"
| "intended deps st _ = None"

definition intended_log :: "conversation_deps \<Rightarrow> conversation_state \<Rightarrow> conversation_action \<Rightarrow> call_log" where
  "intended_log deps st a =
     (case intended deps st a of Some (Ok m, c) \<Rightarrow> cv_log st @ [(mc_identityId m, c)] | _ \<Rightarrow> cv_log st)"

definition left_group :: "conversation_deps \<Rightarrow> conversation_state \<Rightarrow> string \<Rightarrow> bool" where
  "left_group deps st chatId \<longleftrightarrow>
     (case resolveManagedClientForGroup deps (cv_identities st) (group_of st chatId) None of
        Err _ \<Rightarrow> False
      | Ok m \<Rightarrow> isOk (xc_leaveGroup (mc_client m) (cv_log st) (group_of st chatId)))"

definition cleanup_asked :: "conversation_deps \<Rightarrow> conversation_state \<Rightarrow> conversation_action \<Rightarrow> cleanup_request list" where
  "cleanup_asked deps st a =
     (if cd_cleanup deps = None then []
      else case a of
        Chat_rm c force \<Rightarrow>
          [\<lparr>cq_chatId = c, cq_groupId = group_of st c, cq_execute = (force = Some True), cq_reason = CR_rm\<rparr>]
      | Chat_leave c purge \<Rightarrow>
          if purge = Some True \<and> left_group deps st c
          then [\<lparr>cq_chatId = c, cq_groupId = group_of st c, cq_execute = True, cq_reason = CR_leave_purge\<rparr>] else []
      | _ \<Rightarrow> [])"

fun tag_stored :: "conversation_deps \<Rightarrow> conversation_action \<Rightarrow> conversation_reply answer option \<Rightarrow> (string \<times> string) list" where
  "tag_stored deps (Chat_invite c l n d) (Some (Ok (Invited url chatId g name creator tag))) =
     (if cd_storesTags deps then [(g, tag)] else [])"
| "tag_stored deps a r = []"

fun attached_by :: "conversation_deps \<Rightarrow> conversation_reply answer option \<Rightarrow> string list" where
  "attached_by deps (Some (Ok (Joined_chat j chatId source))) = (if cd_attach deps = None then [] else [jn_identityId j])"
| "attached_by deps r = []"

definition known_ids :: "id_mappings option \<Rightarrow> (string \<times> string) set" where
  "known_ids maps = {(n, l). l \<noteq> [] \<and> (\<exists>m. maps = Some m \<and> getLocal m n = Some l)}"

lemma find_renamed: "n \<noteq> g \<Longrightarrow>
    List.find (\<lambda>r. im_networkId r = n) (map (\<lambda>r. if im_networkId r = g then r\<lparr>im_localId := l, im_resourceType := ty\<rparr> else r) m) =
    List.find (\<lambda>r. im_networkId r = n) m"
  by (induction m) auto

lemma find_appended: "im_networkId r \<noteq> n \<Longrightarrow> List.find (\<lambda>r. im_networkId r = n) (m @ [r]) = List.find (\<lambda>r. im_networkId r = n) m"
  by (induction m) auto

lemma mapping_set_keeps: "mapping_set g l ty m = Some m' \<Longrightarrow> n \<noteq> g \<Longrightarrow> getLocal m' n = getLocal m n"
proof (cases "g \<in> im_networkId ` set m")
  case True
  assume s: "mapping_set g l ty m = Some m'" "n \<noteq> g"
  then have "m' = map (\<lambda>r. if im_networkId r = g then r\<lparr>im_localId := l, im_resourceType := ty\<rparr> else r) m"
    unfolding mapping_set_def if_P [OF True] by (simp split: if_split_asm)
  then show ?thesis using s(2) by (simp add: getLocal_def find_renamed)
next
  case False
  assume s: "mapping_set g l ty m = Some m'" "n \<noteq> g"
  then have "m' = m @ [\<lparr>im_networkId = g, im_localId = l, im_resourceType = ty\<rparr>]"
    unfolding mapping_set_def if_not_P [OF False] by (simp split: if_split_asm)
  then show ?thesis using s(2) by (simp add: getLocal_def find_appended)
qed

lemma set_getLocal: "mapping_set g l ty m = Some m' \<Longrightarrow> getLocal m' g = Some l"
proof (cases "g \<in> im_networkId ` set m")
  case True
  assume s: "mapping_set g l ty m = Some m'"
  then have "m' = map (\<lambda>r. if im_networkId r = g then r\<lparr>im_localId := l, im_resourceType := ty\<rparr> else r) m"
    unfolding mapping_set_def if_P [OF True] by (simp split: if_split_asm)
  moreover have "map_option im_localId (List.find (\<lambda>r. im_networkId r = g)
      (map (\<lambda>r. if im_networkId r = g then r\<lparr>im_localId := l, im_resourceType := ty\<rparr> else r) m)) = Some l"
    using True by (induction m) auto
  ultimately show ?thesis by (simp add: getLocal_def)
next
  case False
  assume s: "mapping_set g l ty m = Some m'"
  then have "m' = m @ [\<lparr>im_networkId = g, im_localId = l, im_resourceType = ty\<rparr>]"
    unfolding mapping_set_def if_not_P [OF False] by (simp split: if_split_asm)
  moreover have "List.find (\<lambda>r. im_networkId r = g) (m @ [\<lparr>im_networkId = g, im_localId = l, im_resourceType = ty\<rparr>]) =
      Some \<lparr>im_networkId = g, im_localId = l, im_resourceType = ty\<rparr>"
    using False by (induction m) auto
  ultimately show ?thesis by (simp add: getLocal_def)
qed

text \<open>The pair of a network identifier and the local one it was answered with, if it was.\<close>

definition answered_id :: "string \<Rightarrow> string option \<Rightarrow> (string \<times> string) set" where
  "answered_id g chatId = (case chatId of None \<Rightarrow> {} | Some l \<Rightarrow> {(g, l)})"

lemma known_after:
  assumes "ensureLocalId bytes g maps = Some (r, maps')"
  shows "known_ids maps' = known_ids maps \<union> answered_id g r"
proof (cases maps)
  case None
  then show ?thesis using assms by (simp add: ensureLocalId_def answered_id_def)
next
  case (Some m)
  show ?thesis
  proof (cases "nullish (getLocal m g) [] = []")
    case False
    then have "maps' = maps" "r = getLocal m g" using assms Some by (simp_all add: ensureLocalId_def)
    moreover have "answered_id g (getLocal m g) \<subseteq> known_ids (Some m)"
      using False by (cases "getLocal m g") (auto simp: answered_id_def known_ids_def)
    ultimately show ?thesis using Some by blast
  next
    case True
    define l where "l = createResourceId RT_conversation bytes"
    have new: "l \<noteq> []" by (simp add: l_def createResourceId_def)
    obtain m' where m: "maps' = Some m'" "mapping_set g l MT_conversation m = Some m'" "r = Some l"
      using assms Some True by (auto simp: ensureLocalId_def Let_def l_def)
    have "(n, i) \<in> known_ids maps' \<longleftrightarrow> (n, i) \<in> known_ids maps \<union> answered_id g r" for n i
    proof (cases "n = g")
      case False
      then show ?thesis using mapping_set_keeps [OF m(2) False] m(1,3) Some by (simp add: known_ids_def answered_id_def)
    next
      case here: True
      then show ?thesis using set_getLocal [OF m(2)] m(1,3) Some new True
        by (cases "getLocal m g") (auto simp: known_ids_def answered_id_def)
    qed
    then show ?thesis by auto
  qed
qed

text \<open>A list answers with a local identifier for every group, up to the one the mapping store throws at.\<close>

lemma known_after_list:
  "local_ids bytes n gs maps = (r, maps') \<Longrightarrow>
     known_ids maps \<subseteq> known_ids maps' \<and> fst ` (known_ids maps' - known_ids maps) \<subseteq> xg_groupId ` set gs \<and>
     (case r of None \<Rightarrow> True
      | Some l \<Rightarrow> known_ids maps' = known_ids maps \<union> (\<Union>(g, chatId) \<in> set l. answered_id (xg_groupId g) chatId))"
proof (induction gs arbitrary: n maps r maps')
  case (Cons g gs)
  show ?case
  proof (cases "ensureLocalId (bytes n) (xg_groupId g) maps")
    case None
    then show ?thesis using Cons(2) by simp
  next
    case (Some p)
    obtain c m1 where p: "p = (c, m1)" by (cases p)
    obtain r2 m2 where l: "local_ids bytes (Suc n) gs m1 = (r2, m2)" by (cases "local_ids bytes (Suc n) gs m1")
    have res: "maps' = m2" "r = map_option (\<lambda>rest. (g, c) # rest) r2" using Cons(2) Some p l by (auto split: option.splits)
    note one = known_after [OF Some [unfolded p]] and rest = Cons(1) [OF l]
    have "fst ` answered_id (xg_groupId g) c \<subseteq> {xg_groupId g}" by (auto simp: answered_id_def split: option.splits)
    then have "fst ` (known_ids m2 - known_ids maps) \<subseteq> xg_groupId ` set (g # gs)" using one rest by (auto simp: image_subset_iff)
    then show ?thesis using one rest res by (cases r2) auto
  qed
qed simp

text \<open>The identifiers an answer tells, and what an action does to the known ones by how it ends.\<close>

fun answered_ids :: "conversation_reply \<Rightarrow> (string \<times> string) set" where
  "answered_ids (Created chatId g name creator n) = answered_id g chatId"
| "answered_ids (Groups l) = (\<Union>(g, chatId) \<in> set l. answered_id (xg_groupId g) chatId)"
| "answered_ids (Joined_chat j chatId source) = answered_id (jn_groupId j) chatId"
| "answered_ids r = {}"

definition maps_as ::
  "conversation_deps \<Rightarrow> conversation_action \<Rightarrow> conversation_state \<Rightarrow> conversation_reply answer option \<times> conversation_state \<Rightarrow> bool" where
  "maps_as deps a st out \<longleftrightarrow>
     (case fst out of
        Some (Ok v) \<Rightarrow> known_ids (cv_mappings (snd out)) = known_ids (cv_mappings st) \<union> answered_ids v
      | Some (Err _) \<Rightarrow> cv_mappings (snd out) = cv_mappings st
      | None \<Rightarrow>
          (case a of
             Chat_list l \<Rightarrow> known_ids (cv_mappings st) \<subseteq> known_ids (cv_mappings (snd out))
           | _ \<Rightarrow> cv_mappings (snd out) = cv_mappings st))"

lemma maps_same: "cv_mappings (snd out) = cv_mappings st \<Longrightarrow> (\<And>v. fst out = Some (Ok v) \<Longrightarrow> answered_ids v = {}) \<Longrightarrow> maps_as deps a st out"
  by (auto simp: maps_as_def split: option.split result.split conversation_action.split)

text \<open>What holds of every step that selects a client, makes one call and goes on without another.\<close>

definition quiet :: "('a step) \<Rightarrow> bool" where
  "quiet f \<longleftrightarrow> (\<forall>st. snd (f st) = st)"

lemma quiet_info [simp]: "quiet (with_group_info deps g f)"
  by (simp add: quiet_def with_group_info_def split: result.split)

lemma with_client_state:
  assumes "\<And>m v. quiet (f m v)" "\<And>m lg. snd (call m lg) = lg @ [(mc_identityId m, c)]"
  shows "snd (with_client selected call f st) =
    (case selected of Err _ \<Rightarrow> st | Ok m \<Rightarrow> st\<lparr>cv_log := cv_log st @ [(mc_identityId m, c)]\<rparr>)"
proof (cases selected)
  case (Ok m)
  obtain r lg where l: "call m (cv_log st) = (r, lg)" by (cases "call m (cv_log st)")
  then have "lg = cv_log st @ [(mc_identityId m, c)]" using assms(2) [of m "cv_log st"] by simp
  then show ?thesis using Ok l assms(1) by (cases r) (simp_all add: with_client_def quiet_def)
qed (simp add: with_client_def)

lemma quiet_done [simp]: "quiet (\<lambda>st. (r, st))"
  by (simp add: quiet_def)

lemmas one_call = client_createGroup_def client_listGroups_def client_updateGroupMetadata_def client_sendMessage_def
  client_leaveGroup_def client_addMembers_def client_removeMembers_def client_addAdmin_def client_removeAdmin_def

text \<open>The log and the clean-ups of every handler but joining, and what else it keeps.\<close>

definition acts_as ::
  "conversation_deps \<Rightarrow> conversation_action \<Rightarrow> conversation_state \<Rightarrow> conversation_reply answer option \<times> conversation_state \<Rightarrow> bool" where
  "acts_as deps a st out \<longleftrightarrow>
     cv_log (snd out) = intended_log deps st a \<and> cv_identities (snd out) = cv_identities st \<and> cv_attached (snd out) = cv_attached st \<and>
     cv_cleanups (snd out) = cv_cleanups st @ cleanup_asked deps st a \<and>
     cv_tags (snd out) = cv_tags st @ tag_stored deps a (fst out) \<and> maps_as deps a st out"

text \<open>A step that answers with no identifier.\<close>

definition tells_none :: "conversation_reply step \<Rightarrow> bool" where
  "tells_none f \<longleftrightarrow> (\<forall>st w. fst (f st) = Some (Ok w) \<longrightarrow> answered_ids w = {})"

lemma tells_info [simp]: "(\<And>i. answered_ids (h i) = {}) \<Longrightarrow> tells_none (with_group_info deps g h)"
  by (auto simp: tells_none_def with_group_info_def split: result.splits)

lemma tells_done [simp]: "answered_ids w = {} \<Longrightarrow> tells_none (\<lambda>st. (Some (Ok w), st))"
  by (simp add: tells_none_def)

lemma with_client_tells:
  "(\<And>m v. tells_none (f m v)) \<Longrightarrow> fst (with_client selected call f st) = Some (Ok w) \<Longrightarrow> answered_ids w = {}"
  by (auto simp: with_client_def tells_none_def split: result.splits prod.splits)

lemma acts_as_call:
  assumes "intended deps st a = Some (selected, c)" "\<And>m lg. snd (call m lg) = lg @ [(mc_identityId m, c)]" "\<And>m v. quiet (f m v)"
    and "\<And>m v. tells_none (f m v)" and "cleanup_asked deps st a = []" "\<And>r. tag_stored deps a r = []"
  shows "acts_as deps a st (with_client selected call f st)"
proof -
  note state = with_client_state [where f = f and call = call and c = c and selected = selected and st = st, OF assms(3,2)]
  have "maps_as deps a st (with_client selected call f st)"
    using state with_client_tells [OF assms(4)] by (intro maps_same) (simp_all split: result.split)
  then show ?thesis using assms(1,5,6) state by (simp add: acts_as_def intended_log_def split: result.split)
qed

lemma acts_create: "acts_as deps (Chat_create ids name label) st (chat_create deps ax ids name label st)"
  using known_after [of "ax_bytes ax 0" _ "cv_mappings st"]
  by (auto simp: acts_as_def chat_create_def with_client_def intended_log_def cleanup_asked_def client_createGroup_def
      client_ask_def maps_as_def split: result.split option.split)

lemma acts_list: "acts_as deps (Chat_list label) st (chat_list deps ax label st)"
proof (cases "acting_client (cv_identities st) (cd_clients deps) label")
  case (Err e)
  then show ?thesis
    by (simp add: acts_as_def chat_list_def with_client_def intended_log_def cleanup_asked_def maps_as_def)
next
  case (Ok m)
  show ?thesis
  proof (cases "xc_listGroups (mc_client m) (cv_log st)")
    case (Err e)
    then show ?thesis using Ok
      by (simp add: acts_as_def chat_list_def with_client_def intended_log_def cleanup_asked_def client_listGroups_def
          client_ask_def maps_as_def)
  next
    case gs: (Ok gs)
    obtain r maps where l: "local_ids (ax_bytes ax) 0 gs (cv_mappings st) = (r, maps)"
      by (cases "local_ids (ax_bytes ax) 0 gs (cv_mappings st)")
    show ?thesis using Ok gs l known_after_list [OF l]
      by (cases r) (simp_all add: acts_as_def chat_list_def with_client_def intended_log_def cleanup_asked_def
          client_listGroups_def client_ask_def maps_as_def)
  qed
qed

lemma acts_profile: "acts_as deps (Chat_update_profile c l oi p) st (chat_update_profile deps c l oi p st)"
proof -
  let ?selected = "resolveManagedClientForGroup deps (cv_identities st) (group_of st c) l"
  let ?sel = "resolveProfileSelection (cd_operatorLabel deps) oi p"
  show ?thesis
  proof (cases "\<exists>m name source. ?selected = Ok m \<and> ?sel = Ok (Some (name, source))")
    case True
    then obtain m name source where s: "?selected = Ok m" "?sel = Ok (Some (name, source))" by blast
    have "chat_update_profile deps c l oi p st = with_client ?selected
        (\<lambda>m. client_sendMessage m (group_of st c) (cd_encodeProfile deps (profile_of (Some name))) (Some PROFILE_UPDATE_TYPE))
        (\<lambda>m _ st1. (Some (Ok (Profile_updated c (group_of st c) name source)), st1)) st"
      by (simp add: chat_update_profile_def Let_def s)
    then show ?thesis
      by (simp only:) (rule acts_as_call, simp_all add: s one_call cleanup_asked_def)
  next
    case False
    then have "intended_log deps st (Chat_update_profile c l oi p) = cv_log st"
      by (auto simp: intended_log_def split: result.split option.split)
    moreover have "snd (chat_update_profile deps c l oi p st) = st"
      using False by (auto simp: chat_update_profile_def Let_def split: result.split option.split)
    moreover have none: "\<And>w. fst (chat_update_profile deps c l oi p st) \<noteq> Some (Ok w)"
      using False by (auto simp: chat_update_profile_def Let_def split: result.split option.split)
    moreover from calculation have "maps_as deps (Chat_update_profile c l oi p) st (chat_update_profile deps c l oi p st)"
      using none by (intro maps_same) (simp, blast)
    ultimately show ?thesis by (simp add: acts_as_def cleanup_asked_def)
  qed
qed

lemma acts_leave: "acts_as deps (Chat_leave c p) st (chat_leave deps c p st)"
proof (cases "resolveManagedClientForGroup deps (cv_identities st) (group_of st c) None")
  case (Ok m)
  then show ?thesis
    by (auto simp: acts_as_def chat_leave_def with_client_def intended_log_def cleanup_asked_def left_group_def Let_def
        client_leaveGroup_def client_ask_def runLocalCleanup_def maps_as_def split: result.splits option.splits)
qed (auto simp: acts_as_def chat_leave_def with_client_def intended_log_def cleanup_asked_def left_group_def maps_as_def Let_def)

lemma acts_invite: "acts_as deps (Chat_invite c l n d) st (chat_invite deps ax c l n d st)"
  by (auto simp: acts_as_def chat_invite_def Let_def intended_log_def cleanup_asked_def maps_as_def split: option.splits result.splits prod.splits)

lemma acts_all: "(case a of Chat_join u l oi p t \<Rightarrow> True | _ \<Rightarrow> acts_as deps a st (run_action deps ax a st))"
proof (cases a)
  case (Chat_rm c f)
  then show ?thesis
    by (auto simp: acts_as_def chat_rm_def runLocalCleanup_def intended_log_def cleanup_asked_def maps_as_def Let_def split: option.split result.split)
next
  case (Chat_info c)
  then show ?thesis by (auto simp: acts_as_def chat_info_def with_group_info_def intended_log_def cleanup_asked_def maps_as_def split: result.split)
next
  case (Chat_members c)
  then show ?thesis
    by (auto simp: acts_as_def chat_members_def with_group_info_def intended_log_def cleanup_asked_def maps_as_def Let_def split: result.split)
next
  case (Chat_update c ch)
  show ?thesis unfolding Chat_update run_action.simps conversation_action.case chat_update_def Let_def
    by (rule acts_as_call) (simp_all add: one_call cleanup_asked_def)
next
  case (Chat_add_member c i l)
  show ?thesis unfolding Chat_add_member run_action.simps conversation_action.case chat_add_member_def Let_def
    by (rule acts_as_call) (simp_all add: one_call cleanup_asked_def)
next
  case (Chat_remove_member c i l)
  show ?thesis unfolding Chat_remove_member run_action.simps conversation_action.case chat_remove_member_def Let_def
    by (rule acts_as_call) (simp_all add: one_call cleanup_asked_def)
next
  case (Chat_promote_member c i)
  show ?thesis unfolding Chat_promote_member run_action.simps conversation_action.case chat_promote_member_def Let_def
    by (rule acts_as_call) (simp_all add: one_call cleanup_asked_def)
next
  case (Chat_demote_member c i)
  show ?thesis unfolding Chat_demote_member run_action.simps conversation_action.case chat_demote_member_def Let_def
    by (rule acts_as_call) (simp_all add: one_call cleanup_asked_def)
qed (simp_all add: acts_create acts_list acts_profile acts_leave acts_invite)

text \<open>Joining changes the identities and the log as the join does, and nothing else but the mapping and what the
  runtime attaches.\<close>

definition join_polls :: "rat option \<Rightarrow> nat" where
  "join_polls timeoutSeconds =
     (case timeoutSeconds of None \<Rightarrow> 30 | Some s \<Rightarrow> if s = 0 then 30 else nat \<lceil>s * 1000 / 2000\<rceil>)"

definition one_identity :: "(agent_identity \<Rightarrow> bool) \<Rightarrow> nat \<Rightarrow> conversation_state \<Rightarrow> conversation_state \<Rightarrow> bool" where
  "one_identity P n st st' \<longleftrightarrow>
     (\<exists>row. cv_identities st' = (cv_identities st)\<lparr>is_rows := is_rows (cv_identities st) @ [row]\<rparr> \<and>
        ai_id row \<notin> ai_id ` set (is_rows (cv_identities st)) \<and> P row \<and> new_calls (ai_id row) n (cv_log st) (cv_log st'))"

definition joins_as ::
  "conversation_deps \<Rightarrow> rat option \<Rightarrow> conversation_state \<Rightarrow> conversation_reply answer option \<Rightarrow> conversation_state \<Rightarrow> bool" where
  "joins_as deps t st r st' \<longleftrightarrow>
     (let n = 3 + 3 * join_polls t
      in case r of
        Some (Ok v) \<Rightarrow>
          one_identity (\<lambda>row. case v of Joined_chat j chatId source \<Rightarrow>
              ai_id row = jn_identityId j \<and> ai_inboxId row = Some (jn_inboxId j) | _ \<Rightarrow> False) n st st' \<and>
          cv_attached st' = cv_attached st @ attached_by deps r
      | Some (Err _) \<Rightarrow>
          cv_identities st' = cv_identities st \<and> cv_attached st' = cv_attached st \<and>
          (cv_log st' = cv_log st \<or>
           (\<exists>i. i \<notin> ai_id ` set (is_rows (cv_identities st)) \<and> new_calls i n (cv_log st) (cv_log st')))
      | None \<Rightarrow> one_identity (\<lambda>_. True) n st st')"

lemma join_state:
  assumes "chat_join deps ax u l oi p t st = (r, st')"
  shows "joins_as deps t st r st'"
proof (cases "cd_join deps")
  case None
  then show ?thesis using assms by (auto simp: chat_join_def joins_as_def)
next
  case (Some jd)
  note jd = this
  show ?thesis
  proof (cases "resolveProfileSelection (cd_operatorLabel deps) oi p")
    case (Err e)
    then show ?thesis using assms jd by (auto simp: chat_join_def joins_as_def Let_def)
  next
    case (Ok selection)
    let ?opts = "\<lparr>jo_label = l, jo_profileName = map_option fst selection, jo_pollIntervalMs = 2000,
        jo_maxPollAttempts = join_polls t\<rparr>"
    obtain q ids lg where j: "joinConversation (cd_engine deps) (cd_encodeProfile deps) jd (ax_now ax) u ?opts
        (cv_identities st) (cv_log st) = (q, ids, lg)" by (cases "joinConversation (cd_engine deps) (cd_encodeProfile deps) jd (ax_now ax) u ?opts
        (cv_identities st) (cv_log st)")
    note exact = join_exact [where en = "cd_engine deps" and encode = "cd_encodeProfile deps" and deps = jd and now = "ax_now ax"
        and inviteUrl = u and opts = ?opts and st = "cv_identities st" and lg = "cv_log st"]
    let ?st = "st\<lparr>cv_identities := ids, cv_log := lg\<rparr>"
    have run: "(r, st') = (case q of
          None \<Rightarrow> (None, ?st)
        | Some (Err e) \<Rightarrow> (Some (Err e), ?st)
        | Some (Ok j) \<Rightarrow>
            (case attach_identity deps (jn_identityId j) ?st of
               (False, st2) \<Rightarrow> (None, st2)
             | (True, st2) \<Rightarrow>
                 (case ensureLocalId (ax_bytes ax 0) (jn_groupId j) (cv_mappings st2) of
                    None \<Rightarrow> (None, st2)
                  | Some (chatId, maps) \<Rightarrow>
                      (Some (Ok (Joined_chat j chatId (map_option snd selection))), st2\<lparr>cv_mappings := maps\<rparr>))))"
      using assms jd Ok j by (simp add: chat_join_def Let_def join_polls_def)
    show ?thesis
    proof (cases q)
      case None
      then show ?thesis using run exact j by (auto simp: joins_as_def one_identity_def Let_def)
    next
      case (Some a)
      show ?thesis
      proof (cases a)
        case (Err e)
        then show ?thesis using run exact j Some by (auto simp: joins_as_def Let_def)
      next
        case fin: (Ok k)
        then obtain row where row: "ids = (cv_identities st)\<lparr>is_rows := is_rows (cv_identities st) @ [row]\<rparr>"
            "ai_id row \<notin> ai_id ` set (is_rows (cv_identities st))" "ai_id row = jn_identityId k"
            "ai_inboxId row = Some (jn_inboxId k)" "new_calls (ai_id row) (3 + 3 * join_polls t) (cv_log st) lg"
          using exact j Some by auto
        have kept: "cv_identities st' = ids" "cv_log st' = lg"
          using run Some fin by (auto simp: attach_identity_def split: option.splits prod.splits bool.splits)
        have one: "P row \<Longrightarrow> one_identity P (3 + 3 * join_polls t) st st'" for P
          unfolding one_identity_def kept using row(1,2,5) by blast
        have "r = None \<or> (\<exists>chatId. r = Some (Ok (Joined_chat k chatId (map_option snd selection))) \<and>
            cv_attached st' = cv_attached st @ attached_by deps r)"
          using run Some fin by (auto simp: attach_identity_def split: option.splits prod.splits bool.splits)
        then show ?thesis using row(3,4) by (auto simp: joins_as_def Let_def intro!: one)
      qed
    qed
  qed
qed

lemma join_maps:
  assumes "chat_join deps ax u l oi p t st = (r, st')"
  shows "cv_cleanups st' = cv_cleanups st \<and> cv_tags st' = cv_tags st \<and> maps_as deps (Chat_join u l oi p t) st (r, st')"
  using assms known_after [of "ax_bytes ax 0" _ "cv_mappings st"]
  by (auto simp: chat_join_def Let_def attach_identity_def maps_as_def split: option.splits result.splits prod.splits bool.splits)

text \<open>C39: An action on a conversation other than joining asks a client for exactly the one call it is for, on the
  group its identifier stands for and through the client selected for it, and for nothing when no client is found or it
  needs no call; it changes no identity and attaches none. Joining makes calls as its new identity only; one that fails
  leaves the identities as they were, one that succeeds adds the identity it answers with and has the runtime attach it,
  one that an exception ends has added one identity. Local state is cleaned up on request of a removal, which
  executes it only when forced, and of a leave with purge, only after the group was left. Only an invite stores a tag,
  the one it answers with. The identifiers known afterwards are those known before and those the answer tells; an action
  that fails changes no mapping (a list during which the mapping store throws may have added some).\<close>

theorem conversation_actions_exact:
  "case run_action deps ax a st of (r, st') \<Rightarrow>
     (case a of
        Chat_join u l oi p t \<Rightarrow> joins_as deps t st r st'
      | _ \<Rightarrow> cv_log st' = intended_log deps st a \<and> cv_identities st' = cv_identities st \<and> cv_attached st' = cv_attached st) \<and>
     cv_cleanups st' = cv_cleanups st @ cleanup_asked deps st a \<and>
     cv_tags st' = cv_tags st @ tag_stored deps a r \<and>
     (case r of
        Some (Ok v) \<Rightarrow> known_ids (cv_mappings st') = known_ids (cv_mappings st) \<union> answered_ids v
      | Some (Err _) \<Rightarrow> cv_mappings st' = cv_mappings st
      | None \<Rightarrow>
          (case a of
             Chat_list l \<Rightarrow> known_ids (cv_mappings st) \<subseteq> known_ids (cv_mappings st')
           | _ \<Rightarrow> cv_mappings st' = cv_mappings st))"
proof (cases "\<exists>u l oi p t. a = Chat_join u l oi p t")
  case True
  then obtain u l oi p t where a: "a = Chat_join u l oi p t" by blast
  obtain r st' where out: "chat_join deps ax u l oi p t st = (r, st')" by (cases "chat_join deps ax u l oi p t st")
  show ?thesis using join_state [OF out] join_maps [OF out]
    unfolding a maps_as_def fst_conv snd_conv by (simp add: out cleanup_asked_def)
next
  case False
  have "acts_as deps a st (run_action deps ax a st)"
    using acts_all [where deps = deps and ax = ax and a = a and st = st] False by (cases a) auto
  moreover obtain r st' where out: "run_action deps ax a st = (r, st')" by (cases "run_action deps ax a st")
  ultimately have acts: "acts_as deps a st (r, st')" by simp
  then have "case a of Chat_join u l oi p t \<Rightarrow> joins_as deps t st r st'
      | _ \<Rightarrow> cv_log st' = intended_log deps st a \<and> cv_identities st' = cv_identities st \<and> cv_attached st' = cv_attached st"
    using False by (cases a) (simp_all add: acts_as_def)
  with acts show ?thesis unfolding out acts_as_def maps_as_def fst_conv snd_conv prod.case by blast
qed

end
