(* ===== verification/InboxActions.thy ===== *)
theory InboxActions
  imports JoinClient OperatorManager
begin

text \<open>
  The actions on managed inboxes (\<^verbatim>\<open>packages/core/src/inbox-actions.ts\<close>): identities of the store
  and their links to operators, which the operators' configurations hold. Registration and the runtime's clean-up are
  arguments; \<open>None\<close> as a result stands for an exception of the mapping store.
\<close>

subsection \<open>State and dependencies\<close>

record inbox_state =
  bx_identities :: identity_store
  bx_operators :: "operator_store option"
  bx_mappings :: "id_mappings option"
  bx_cleanups :: "(agent_identity \<times> bool) list"

record inbox_deps =
  bd_tooShort :: string
  bd_registerInbox :: "string option \<Rightarrow> identity_store \<Rightarrow> registered_identity answer \<times> identity_store"
  bd_cleanupInbox :: "(agent_identity \<Rightarrow> bool \<Rightarrow> string list answer) option"

record inbox_summary =
  bs_id :: string
  bs_networkInboxId :: "string option"
  bs_label :: "string option"
  bs_groupId :: "string option"
  bs_createdAt :: int
  bs_operatorId :: "string option"

datatype inbox_action =
    Inbox_create "string option" "string option"
  | Inbox_list
  | Inbox_info string
  | Inbox_rm string "bool option"
  | Inbox_link string string
  | Inbox_unlink string

datatype inbox_reply =
    Inbox inbox_summary
  | Inboxes "inbox_summary list"
  | Inbox_removed bool "string list"

subsection \<open>Resolution\<close>

definition resolveInbox :: "identity_store \<Rightarrow> string \<Rightarrow> agent_identity answer" where
  "resolveInbox ids idOrLabel =
     (if starts_with idOrLabel ''inbox_''
      then if \<not> resource_id_ok (RESOURCE_PREFIXES RT_inbox) idOrLabel
           then Err (ValidationError_create ''inboxId'' (''Invalid inbox ID format: '' @ idOrLabel) [])
           else case identity_getById ids idOrLabel of None \<Rightarrow> Err (NotFoundError_create ''inbox'' idOrLabel) | Some i \<Rightarrow> Ok i
      else case getByLabel ids idOrLabel of
        Some i \<Rightarrow> Ok i
      | None \<Rightarrow> (case identity_getById ids idOrLabel of Some i \<Rightarrow> Ok i | None \<Rightarrow> Err (NotFoundError_create ''inbox'' idOrLabel)))"

definition resolveOperator :: "operator_store \<Rightarrow> string \<Rightarrow> string answer" where
  "resolveOperator ops operatorId =
     (if starts_with operatorId ''op_''
      then if \<not> resource_id_ok (RESOURCE_PREFIXES RT_operator) operatorId
           then Err (ValidationError_create ''operatorId'' (''Invalid operator ID format: '' @ operatorId) [])
           else case operator_lookup ops operatorId of
             Err e \<Rightarrow> Err e
           | Ok r \<Rightarrow> if or_status r = OS_removed then Err (NotFoundError_create ''operator'' operatorId) else Ok (or_id r)
      else case filter (\<lambda>r. oc_label (or_config r) = operatorId) (operator_list ops) of
        [] \<Rightarrow> Err (NotFoundError_create ''operator'' operatorId)
      | [r] \<Rightarrow> Ok (or_id r)
      | ms \<Rightarrow> Err (ValidationError_create ''operatorId'' ''Ambiguous operator label''
                [(''label'', VStr operatorId), (''matchingIds'', VArr (map (VStr \<circ> or_id) ms))]))"

subsection \<open>Links\<close>

definition inboxes_of :: "operator_record \<Rightarrow> string list" where
  "inboxes_of r = nullish (oc_inboxIds (or_config r)) []"

fun link_ids :: "string \<Rightarrow> string list \<Rightarrow> (string, string) js_map \<Rightarrow> (string, string) js_map answer" where
  "link_ids operatorId [] m = Ok m"
| "link_ids operatorId (i # ids) m =
     (case map_get m i of
        Some existing \<Rightarrow>
          if existing \<noteq> [] \<and> existing \<noteq> operatorId
          then Err (ValidationError_create ''inboxIds'' ''Inbox is linked to multiple operators''
                 [(''inboxId'', VStr i), (''operatorIds'', VArr [VStr existing, VStr operatorId])])
          else link_ids operatorId ids (map_set m i operatorId)
      | None \<Rightarrow> link_ids operatorId ids (map_set m i operatorId))"

fun link_operators :: "operator_record list \<Rightarrow> (string, string) js_map \<Rightarrow> (string, string) js_map answer" where
  "link_operators [] m = Ok m"
| "link_operators (r # rs) m =
     (case link_ids (or_id r) (inboxes_of r) m of Err e \<Rightarrow> Err e | Ok m' \<Rightarrow> link_operators rs m')"

definition buildInboxLinkMap :: "operator_store option \<Rightarrow> (string, string) js_map answer" where
  "buildInboxLinkMap manager =
     (case manager of None \<Rightarrow> Ok [] | Some ops \<Rightarrow> link_operators (operator_list ops) [])"

definition summarizeInbox :: "agent_identity \<Rightarrow> string option \<Rightarrow> inbox_summary" where
  "summarizeInbox i operatorId =
     \<lparr>bs_id = ai_id i, bs_networkInboxId = ai_inboxId i, bs_label = ai_label i, bs_groupId = ai_groupId i,
      bs_createdAt = ai_createdAt i, bs_operatorId = operatorId\<rparr>"

definition inbox_ids_change :: "string list option \<Rightarrow> operator_changes" where
  "inbox_ids_change ids =
     \<lparr>och_label = None, och_role = None, och_scopeMode = None, och_provider = None, och_walletId = None,
      och_inboxIds = Some ids, och_disclosures = None\<rparr>"

definition linkInboxToOperator :: "string \<Rightarrow> operator_store \<Rightarrow> string \<Rightarrow> string \<Rightarrow> string answer \<times> operator_store" where
  "linkInboxToOperator tooShort ops operatorId inboxId =
     (case resolveOperator ops operatorId of
        Err e \<Rightarrow> (Err e, ops)
      | Ok resolved \<Rightarrow>
          (case buildInboxLinkMap (Some ops) of
             Err e \<Rightarrow> (Err e, ops)
           | Ok links \<Rightarrow>
               if map_get links inboxId \<noteq> None \<and> map_get links inboxId \<noteq> Some resolved
               then (Err (ValidationError_create ''inboxId'' ''Inbox is already linked to another operator''
                       [(''inboxId'', VStr inboxId), (''operatorId'', VStr (the (map_get links inboxId)))]), ops)
               else case operator_lookup ops resolved of
                 Err e \<Rightarrow> (Err e, ops)
               | Ok r \<Rightarrow>
                   (case operator_update tooShort ops (or_id r)
                           (inbox_ids_change (Some (set_add (set_of (inboxes_of r)) inboxId))) of
                      (Err e, ops') \<Rightarrow> (Err e, ops')
                    | (Ok updated, ops') \<Rightarrow> (Ok (or_id updated), ops'))))"

definition unlinkInboxFromOperator ::
  "string \<Rightarrow> operator_store option \<Rightarrow> string \<Rightarrow> string option answer \<times> operator_store option" where
  "unlinkInboxFromOperator tooShort manager inboxId =
     (case manager of
        None \<Rightarrow> (Ok None, None)
      | Some ops \<Rightarrow>
          (case buildInboxLinkMap (Some ops) of
             Err e \<Rightarrow> (Err e, Some ops)
           | Ok links \<Rightarrow>
               (case map_get links inboxId of
                  None \<Rightarrow> (Ok None, Some ops)
                | Some operatorId \<Rightarrow>
                    (case operator_lookup ops operatorId of
                       Err e \<Rightarrow> (Err e, Some ops)
                     | Ok r \<Rightarrow>
                         let remaining = filter (\<lambda>c. c \<noteq> inboxId) (inboxes_of r)
                         in case operator_update tooShort ops operatorId
                                  (inbox_ids_change (if remaining \<noteq> [] then Some remaining else None)) of
                              (Err e, ops') \<Rightarrow> (Err e, Some ops')
                            | (Ok _, ops') \<Rightarrow> (Ok (Some operatorId), Some ops')))))"

subsection \<open>Handlers\<close>

type_synonym inbox_step = "inbox_state \<Rightarrow> inbox_reply answer option \<times> inbox_state"

definition no_manager :: signet_error where
  "no_manager = ValidationError_create ''operatorId'' ''Operator linking is unavailable without an operator manager'' []"

definition created_inbox :: "registered_identity \<Rightarrow> string option \<Rightarrow> inbox_step" where
  "created_inbox reg linked st =
     (case identity_getById (bx_identities st) (rg_identityId reg) of
        None \<Rightarrow> (Some (Err (NotFoundError_create ''inbox'' (rg_identityId reg))), st)
      | Some i \<Rightarrow> (Some (Ok (Inbox (summarizeInbox i linked))), st))"

definition inbox_create :: "inbox_deps \<Rightarrow> string option \<Rightarrow> string option \<Rightarrow> inbox_step" where
  "inbox_create deps label operatorId st =
     (case (case operatorId of
              None \<Rightarrow> Ok None
            | Some oid \<Rightarrow>
                (case bx_operators st of
                   None \<Rightarrow> Err no_manager
                 | Some ops \<Rightarrow> (case resolveOperator ops oid of Err e \<Rightarrow> Err e | Ok r \<Rightarrow> Ok (Some r)))) of
        Err e \<Rightarrow> (Some (Err e), st)
      | Ok linked \<Rightarrow>
          (case bd_registerInbox deps label (bx_identities st) of
             (Err e, ids) \<Rightarrow> (Some (Err e), st\<lparr>bx_identities := ids\<rparr>)
           | (Ok reg, ids) \<Rightarrow>
               let st1 = st\<lparr>bx_identities := ids\<rparr>
               in case (case bx_mappings st1 of
                          None \<Rightarrow> Some None
                        | Some m \<Rightarrow> map_option Some (mapping_set (rg_inboxId reg) (rg_identityId reg) MT_inbox m)) of
                 None \<Rightarrow> (None, st1)
               | Some maps \<Rightarrow>
                   let st2 = st1\<lparr>bx_mappings := maps\<rparr>
                   in case (linked, bx_operators st2) of
                     (Some oid, Some ops) \<Rightarrow>
                       (case linkInboxToOperator (bd_tooShort deps) ops oid (rg_identityId reg) of
                          (Err e, ops') \<Rightarrow> (Some (Err e), st2\<lparr>bx_operators := Some ops'\<rparr>)
                        | (Ok l, ops') \<Rightarrow> created_inbox reg (Some l) (st2\<lparr>bx_operators := Some ops'\<rparr>))
                   | _ \<Rightarrow> created_inbox reg linked st2))"

definition inbox_list :: inbox_step where
  "inbox_list st =
     (case buildInboxLinkMap (bx_operators st) of
        Err e \<Rightarrow> (Some (Err e), st)
      | Ok links \<Rightarrow>
          (Some (Ok (Inboxes (map (\<lambda>i. summarizeInbox i (map_get links (ai_id i))) (identity_list (bx_identities st))))), st))"

definition inbox_info :: "string \<Rightarrow> inbox_step" where
  "inbox_info inboxId st =
     (case resolveInbox (bx_identities st) inboxId of
        Err e \<Rightarrow> (Some (Err e), st)
      | Ok i \<Rightarrow>
          (case buildInboxLinkMap (bx_operators st) of
             Err e \<Rightarrow> (Some (Err e), st)
           | Ok links \<Rightarrow> (Some (Ok (Inbox (summarizeInbox i (map_get links (ai_id i))))), st)))"

definition inbox_link :: "inbox_deps \<Rightarrow> string \<Rightarrow> string \<Rightarrow> inbox_step" where
  "inbox_link deps inboxId operatorId st =
     (case bx_operators st of
        None \<Rightarrow> (Some (Err no_manager), st)
      | Some ops \<Rightarrow>
          (case resolveInbox (bx_identities st) inboxId of
             Err e \<Rightarrow> (Some (Err e), st)
           | Ok i \<Rightarrow>
               (case linkInboxToOperator (bd_tooShort deps) ops operatorId (ai_id i) of
                  (Err e, ops') \<Rightarrow> (Some (Err e), st\<lparr>bx_operators := Some ops'\<rparr>)
                | (Ok l, ops') \<Rightarrow> (Some (Ok (Inbox (summarizeInbox i (Some l)))), st\<lparr>bx_operators := Some ops'\<rparr>))))"

definition inbox_unlink :: "inbox_deps \<Rightarrow> string \<Rightarrow> inbox_step" where
  "inbox_unlink deps inboxId st =
     (case resolveInbox (bx_identities st) inboxId of
        Err e \<Rightarrow> (Some (Err e), st)
      | Ok i \<Rightarrow>
          (case unlinkInboxFromOperator (bd_tooShort deps) (bx_operators st) (ai_id i) of
             (Err e, ops) \<Rightarrow> (Some (Err e), st\<lparr>bx_operators := ops\<rparr>)
           | (Ok _, ops) \<Rightarrow> (Some (Ok (Inbox (summarizeInbox i None))), st\<lparr>bx_operators := ops\<rparr>)))"

definition inbox_mapping :: "id_mappings option \<Rightarrow> agent_identity \<Rightarrow> (string \<times> string) option" where
  "inbox_mapping maps i =
     (case maps of
        None \<Rightarrow> None
      | Some m \<Rightarrow>
          (case mapping_resolve m (ai_id i) of
             Some p \<Rightarrow> Some p
           | None \<Rightarrow> if nullish (ai_inboxId i) [] = [] then None else mapping_resolve m (the (ai_inboxId i))))"

definition inbox_execute :: "inbox_deps \<Rightarrow> agent_identity \<Rightarrow> (string \<times> string) option \<Rightarrow> string list \<Rightarrow> inbox_step" where
  "inbox_execute deps i mapping actions st =
     (case unlinkInboxFromOperator (bd_tooShort deps) (bx_operators st) (ai_id i) of
        (Err e, ops) \<Rightarrow> (Some (Err e), st\<lparr>bx_operators := ops\<rparr>)
      | (Ok _, ops) \<Rightarrow>
          let st1 = st\<lparr>bx_operators := ops,
                bx_mappings := (if mapping \<noteq> None then map_option (\<lambda>m. snd (mapping_remove (ai_id i) m)) (bx_mappings st)
                                else bx_mappings st)\<rparr>
          in case identity_remove (ai_id i) (bx_identities st1) of
            (Err e, ids) \<Rightarrow> (Some (Err e), st1\<lparr>bx_identities := ids\<rparr>)
          | (Ok _, ids) \<Rightarrow> (Some (Ok (Inbox_removed True actions)), st1\<lparr>bx_identities := ids\<rparr>))"

definition inbox_rm :: "inbox_deps \<Rightarrow> string \<Rightarrow> bool option \<Rightarrow> inbox_step" where
  "inbox_rm deps inboxId execute st =
     (case resolveInbox (bx_identities st) inboxId of
        Err e \<Rightarrow> (Some (Err e), st)
      | Ok i \<Rightarrow>
          (case buildInboxLinkMap (bx_operators st) of
             Err e \<Rightarrow> (Some (Err e), st)
           | Ok links \<Rightarrow>
               let mapping = inbox_mapping (bx_mappings st) i;
                   actions = (case map_get links (ai_id i) of None \<Rightarrow> [] | Some l \<Rightarrow> [''unlink operator '' @ l])
                     @ [''remove inbox '' @ ai_id i] @ (if mapping \<noteq> None then [''remove id mapping''] else []);
                   ex = (execute = Some True)
               in case bd_cleanupInbox deps of
                 None \<Rightarrow> if ex then inbox_execute deps i mapping actions st else (Some (Ok (Inbox_removed False actions)), st)
               | Some cleanup \<Rightarrow>
                   let st1 = st\<lparr>bx_cleanups := bx_cleanups st @ [(i, ex)]\<rparr>
                   in case cleanup i ex of
                     Err e \<Rightarrow> (Some (Err e), st1)
                   | Ok more_actions \<Rightarrow>
                       if ex then inbox_execute deps i mapping (actions @ more_actions) st1
                       else (Some (Ok (Inbox_removed False (actions @ more_actions))), st1)))"

fun run_inbox :: "inbox_deps \<Rightarrow> inbox_action \<Rightarrow> inbox_step" where
  "run_inbox deps (Inbox_create l oid) = inbox_create deps l oid"
| "run_inbox deps Inbox_list = inbox_list"
| "run_inbox deps (Inbox_info i) = inbox_info i"
| "run_inbox deps (Inbox_rm i e) = inbox_rm deps i e"
| "run_inbox deps (Inbox_link i oid) = inbox_link deps i oid"
| "run_inbox deps (Inbox_unlink i) = inbox_unlink deps i"

subsection \<open>Which operator an inbox is linked to\<close>

definition links :: "operator_store option \<Rightarrow> (string \<times> string) set" where
  "links manager = {(i, k). \<exists>ops r. manager = Some ops \<and> map_get ops k = Some r \<and> or_status r \<noteq> OS_removed \<and> i \<in> set (inboxes_of r)}"

definition operators_ok :: "string \<Rightarrow> operator_store option \<Rightarrow> bool" where
  "operators_ok tooShort manager \<longleftrightarrow> (\<forall>ops. manager = Some ops \<longrightarrow> operator_inv tooShort ops \<and> map_get ops [] = None)"

lemma listed_operator:
  assumes "operator_inv ts ops"
  shows "r \<in> set (operator_list ops) \<longleftrightarrow> map_get ops (or_id r) = Some r \<and> or_status r \<noteq> OS_removed"
  using assms map_values_iff [of ops r] by (auto simp: operator_list_eq operator_inv_get operator_ok_def)

text \<open>The link map holds exactly the links, when it can be built.\<close>

definition graph :: "('k, 'v) js_map \<Rightarrow> ('k \<times> 'v) set" where
  "graph m = {(k, v). map_get m k = Some v}"

lemma graph_new: "map_get m i = None \<or> map_get m i = Some v \<Longrightarrow> graph (map_set m i v) = insert (i, v) (graph m)"
  by (auto simp: graph_def split: if_splits)

lemma link_ids_graph:
  "link_ids k is m = Ok m' \<Longrightarrow> k \<noteq> [] \<Longrightarrow> [] \<notin> snd ` graph m \<Longrightarrow>
     graph m' = graph m \<union> {(i, k) | i. i \<in> set is} \<and> [] \<notin> snd ` graph m'"
proof (induction "is" arbitrary: m)
  case (Cons i "is")
  have g: "map_get m i = None \<or> map_get m i = Some k" and l: "link_ids k is (map_set m i k) = Ok m'"
    using Cons.prems by (force simp: graph_def image_iff split: option.splits if_splits)+
  have "[] \<notin> snd ` graph (map_set m i k)" using Cons.prems(2,3) by (auto simp: graph_new [OF g])
  from Cons.IH [OF l Cons.prems(2) this] show ?case by (auto simp: graph_new [OF g])
qed auto

lemma link_operators_graph:
  "link_operators rs m = Ok m' \<Longrightarrow> (\<And>r. r \<in> set rs \<Longrightarrow> or_id r \<noteq> []) \<Longrightarrow> [] \<notin> snd ` graph m \<Longrightarrow>
     graph m' = graph m \<union> {(i, or_id r) | i r. r \<in> set rs \<and> i \<in> set (inboxes_of r)}"
proof (induction rs arbitrary: m)
  case (Cons r rs)
  then obtain m1 where m1: "link_ids (or_id r) (inboxes_of r) m = Ok m1" "link_operators rs m1 = Ok m'"
    by (auto split: result.splits)
  note g = link_ids_graph [OF m1(1)]
  have "graph m1 = graph m \<union> {(i, or_id r) | i. i \<in> set (inboxes_of r)}" "[] \<notin> snd ` graph m1"
    using g Cons.prems(2,3) by auto
  with Cons.IH [OF m1(2)] Cons.prems(2) show ?case by auto
qed auto

lemma link_map_exact:
  assumes "buildInboxLinkMap manager = Ok m" "operators_ok ts manager"
  shows "map_get m i = Some k \<longleftrightarrow> (i, k) \<in> links manager"
proof (cases manager)
  case None
  then show ?thesis using assms(1) by (simp add: buildInboxLinkMap_def links_def)
next
  case (Some ops)
  have inv: "operator_inv ts ops" "map_get ops [] = None" using assms(2) Some by (auto simp: operators_ok_def)
  have id: "or_id r = k" if "map_get ops k = Some r" for r k using inv(1) that by (simp add: operator_inv_get operator_ok_def)
  have "or_id r \<noteq> []" if "r \<in> set (operator_list ops)" for r
    using that inv(2) unfolding listed_operator [OF inv(1)] by (cases "or_id r") auto
  moreover have "graph ([] :: (string, string) js_map) = {}" by (simp add: graph_def)
  ultimately have "graph m = {(i, or_id r) | i r. r \<in> set (operator_list ops) \<and> i \<in> set (inboxes_of r)}"
    using link_operators_graph [of "operator_list ops" "[]" m] assms(1) Some by (simp add: buildInboxLinkMap_def)
  also have "\<dots> = links manager"
    unfolding listed_operator [OF inv(1)] using id Some by (auto simp: links_def)
  finally show ?thesis by (auto simp: graph_def set_eq_iff)
qed

definition linked_once :: "operator_store option \<Rightarrow> bool" where
  "linked_once manager \<longleftrightarrow> (\<forall>i k k'. (i, k) \<in> links manager \<longrightarrow> (i, k') \<in> links manager \<longrightarrow> k = k')"

lemma link_map_once: "buildInboxLinkMap manager = Ok m \<Longrightarrow> operators_ok ts manager \<Longrightarrow> linked_once manager"
  unfolding linked_once_def by (metis link_map_exact option.inject)

lemma resolved_operator:
  assumes "resolveOperator ops x = Ok k" "operator_inv ts ops"
  obtains r where "map_get ops k = Some r" "or_status r \<noteq> OS_removed"
proof -
  have "\<exists>r. map_get ops k = Some r \<and> or_status r \<noteq> OS_removed"
  proof (cases "starts_with x ''op_''")
    case True
    then show ?thesis using assms
      by (auto simp: resolveOperator_def operator_lookup_def operator_inv_get operator_ok_def split: if_splits option.splits result.splits)
  next
    case False
    then obtain r where "filter (\<lambda>r. oc_label (or_config r) = x) (operator_list ops) = [r]" "k = or_id r"
      using assms(1) by (auto simp: resolveOperator_def split: list.splits)
    then have "r \<in> set (operator_list ops)" "k = or_id r" by (auto simp: filter_eq_Cons_iff)
    then show ?thesis using listed_operator [OF assms(2)] by blast
  qed
  then show ?thesis using that by blast
qed

text \<open>Updating the inboxes of one operator.\<close>

lemma update_inboxes:
  assumes "operator_update ts ops k (inbox_ids_change ids) = (Ok u, ops')" "operators_ok ts (Some ops)" "map_get ops k = Some r"
    "or_status r \<noteq> OS_removed"
  shows "links (Some ops') = {p \<in> links (Some ops). snd p \<noteq> k} \<union> {(i, k) | i. i \<in> set (nullish ids [])}"
    and "operators_ok ts (Some ops')" and "or_id u = k"
proof -
  have inv: "operator_inv ts ops" using assms(2) by (simp add: operators_ok_def)
  have k: "or_id r = k" using inv assms(3) by (simp add: operator_inv_get operator_ok_def)
  let ?u = "r\<lparr>or_config := merge_operator_config (or_config r) (inbox_ids_change ids)\<rparr>"
  have u: "ops' = map_set ops k ?u" "u = ?u"
    using assms(1,3) by (auto simp: operator_update_def Let_def split: if_splits option.splits)
  have i: "inboxes_of ?u = nullish ids []"
    by (simp add: inboxes_of_def merge_operator_config_def inbox_ids_change_def nullish_def)
  show "links (Some ops') = {p \<in> links (Some ops). snd p \<noteq> k} \<union> {(i, k) | i. i \<in> set (nullish ids [])}"
    using assms(4) i by (auto simp: links_def u(1))
  show "operators_ok ts (Some ops')"
    using operator_update_inv [OF inv, of k "inbox_ids_change ids"] assms(1,2,3) by (auto simp: operators_ok_def u(1))
  show "or_id u = k" by (simp add: u(2) k)
qed

lemma update_failed: "operator_update ts ops k ch = (Err e, ops') \<Longrightarrow> ops' = ops"
  by (auto simp: operator_update_def Let_def split: if_splits option.splits)

lemma own_links: "operators_ok ts (Some ops) \<Longrightarrow> map_get ops k = Some r \<Longrightarrow> or_status r \<noteq> OS_removed \<Longrightarrow>
    (i, k) \<in> links (Some ops) \<longleftrightarrow> i \<in> set (inboxes_of r)"
  by (auto simp: links_def)

lemma link_exact:
  assumes "linkInboxToOperator ts ops oid i = (r, ops')" "operators_ok ts (Some ops)"
  shows "case r of Err e \<Rightarrow> ops' = ops
    | Ok k \<Rightarrow> links (Some ops') = insert (i, k) (links (Some ops)) \<and> operators_ok ts (Some ops') \<and>
        (linked_once (Some ops) \<longrightarrow> linked_once (Some ops'))"
proof (cases r)
  case (Err e)
  then show ?thesis using assms(1) update_failed
    by (auto simp: linkInboxToOperator_def split: result.splits if_splits prod.splits)
next
  case (Ok k)
  then obtain k0 m q u where res: "resolveOperator ops oid = Ok k0" and m: "buildInboxLinkMap (Some ops) = Ok m"
      and free: "map_get m i = None \<or> map_get m i = Some k0" and q: "operator_lookup ops k0 = Ok q"
      and u: "operator_update ts ops (or_id q) (inbox_ids_change (Some (set_add (set_of (inboxes_of q)) i))) = (Ok u, ops')" "k = or_id u"
    using assms(1) by (auto simp: linkInboxToOperator_def split: result.splits if_splits prod.splits)
  have inv: "operator_inv ts ops" using assms(2) by (simp add: operators_ok_def)
  obtain q' where q': "map_get ops k0 = Some q'" "or_status q' \<noteq> OS_removed" using resolved_operator [OF res inv] by blast
  then have qq: "q' = q" "or_id q = k0"
    using q inv by (auto simp: operator_lookup_def operator_inv_get operator_ok_def)
  note up = update_inboxes [OF u(1) [unfolded qq(2)] assms(2) q'(1)[unfolded qq(1)] q'(2)[unfolded qq(1)]]
  have k: "k = k0" using up(3) u(2) by simp
  have "set (set_add (set_of (inboxes_of q)) i) = insert i (set (inboxes_of q))" by (auto simp: set_add_def)
  then have l: "links (Some ops') = insert (i, k) (links (Some ops))"
    using up(1) own_links [OF assms(2) q'(1)[unfolded qq(1)] q'(2)[unfolded qq(1)]] by (auto simp: k nullish_def)
  moreover have "linked_once (Some ops')" if "linked_once (Some ops)"
    using that free link_map_exact [OF m assms(2), of i] by (force simp: linked_once_def l k)
  ultimately show ?thesis using up(2) Ok by simp
qed

lemma unlink_exact:
  assumes "unlinkInboxFromOperator ts manager i = (r, manager')" "operators_ok ts manager"
  shows "case r of Err e \<Rightarrow> manager' = manager
    | Ok _ \<Rightarrow> links manager' = {p \<in> links manager. fst p \<noteq> i} \<and> operators_ok ts manager'"
proof (cases manager)
  case None
  then show ?thesis using assms by (auto simp: unlinkInboxFromOperator_def links_def)
next
  case (Some ops)
  note ok = assms(2) [unfolded Some]
  show ?thesis
  proof (cases "buildInboxLinkMap (Some ops)")
    case (Err e)
    then show ?thesis using assms(1) Some by (auto simp: unlinkInboxFromOperator_def)
  next
    case (Ok m)
    note exact = link_map_exact [OF Ok ok]
    show ?thesis
    proof (cases "map_get m i")
      case None
      then have "links manager = {p \<in> links manager. fst p \<noteq> i}" using exact [of i] Some by auto
      then show ?thesis using assms Some Ok None by (auto simp: unlinkInboxFromOperator_def)
    next
      case found: (Some k)
      then have ik: "(i, k) \<in> links (Some ops)" using exact by blast
      then obtain q where q: "map_get ops k = Some q" "or_status q \<noteq> OS_removed" by (auto simp: links_def)
      let ?rest = "filter (\<lambda>c. c \<noteq> i) (inboxes_of q)"
      obtain w ops' where w: "operator_update ts ops k (inbox_ids_change (if ?rest \<noteq> [] then Some ?rest else None)) = (w, ops')"
        by (cases "operator_update ts ops k (inbox_ids_change (if ?rest \<noteq> [] then Some ?rest else None))")
      have res: "manager' = Some ops'" "isOk r = isOk w"
        using assms(1) Some Ok found q(1) w by (auto simp: unlinkInboxFromOperator_def operator_lookup_def Let_def split: result.splits)
      show ?thesis
      proof (cases w)
        case (Err e)
        then show ?thesis using res update_failed w Some by (cases r) auto
      next
        case w_ok: (Ok u)
        note up = update_inboxes [OF w [unfolded w_ok] ok q]
        have n: "nullish (if ?rest \<noteq> [] then Some ?rest else None) [] = ?rest" by (simp add: nullish_def)
        have only: "k' = k" if "(i, k') \<in> links (Some ops)" for k' using iffD2 [OF exact that] found by simp
        have "links (Some ops') = {p \<in> links (Some ops). fst p \<noteq> i}"
          unfolding up(1) n using own_links [OF ok q] only by fastforce
        then show ?thesis using res up(2) Some w_ok by (cases r) auto
      qed
    qed
  qed
qed

text \<open>What an action is to change: the links it adds, the inboxes it removes and those it unlinks.\<close>

fun linked_by :: "inbox_action \<Rightarrow> inbox_reply answer option \<Rightarrow> (string \<times> string) set" where
  "linked_by (Inbox_link i oid) (Some (Ok (Inbox s))) = {(bs_id s, the (bs_operatorId s))}"
| "linked_by (Inbox_create l (Some oid)) (Some (Ok (Inbox s))) = {(bs_id s, the (bs_operatorId s))}"
| "linked_by a r = {}"

fun removed_by :: "identity_store \<Rightarrow> inbox_action \<Rightarrow> inbox_reply answer option \<Rightarrow> string set" where
  "removed_by ids (Inbox_rm i ex) (Some (Ok (Inbox_removed True acts))) = {ai_id x | x. resolveInbox ids i = Ok x}"
| "removed_by ids a r = {}"

fun unlinked_by :: "identity_store \<Rightarrow> inbox_action \<Rightarrow> inbox_reply answer option \<Rightarrow> string set" where
  "unlinked_by ids (Inbox_unlink i) (Some (Ok (Inbox s))) = {bs_id s}"
| "unlinked_by ids a r = removed_by ids a r"

definition changes_as ::
  "inbox_deps \<Rightarrow> inbox_action \<Rightarrow> inbox_state \<Rightarrow> inbox_reply answer option \<times> inbox_state \<Rightarrow> bool" where
  "changes_as deps a st out \<longleftrightarrow>
     links (bx_operators (snd out)) =
       {p \<in> links (bx_operators st). fst p \<notin> unlinked_by (bx_identities st) a (fst out)} \<union> linked_by a (fst out) \<and>
     operators_ok (bd_tooShort deps) (bx_operators (snd out)) \<and>
     (linked_once (bx_operators st) \<longrightarrow> linked_once (bx_operators (snd out)))"

definition keeps_as ::
  "inbox_action \<Rightarrow> inbox_state \<Rightarrow> inbox_reply answer option \<times> inbox_state \<Rightarrow> bool" where
  "keeps_as a st out \<longleftrightarrow>
     is_rows (bx_identities (snd out)) =
       filter (\<lambda>x. ai_id x \<notin> removed_by (bx_identities st) a (fst out)) (is_rows (bx_identities st)) \<and>
     (\<forall>e. fst out = Some (Err e) \<longrightarrow>
        bx_operators (snd out) = bx_operators st \<and> bx_identities (snd out) = bx_identities st \<and> bx_mappings (snd out) = bx_mappings st)"

lemma changes_none:
  assumes "operators_ok (bd_tooShort deps) (bx_operators st)" "bx_operators (snd out) = bx_operators st"
    "linked_by a (fst out) = {}" "unlinked_by (bx_identities st) a (fst out) = {}"
  shows "changes_as deps a st out"
  using assms by (simp add: changes_as_def)

lemma linked_once_less: "linked_once m \<Longrightarrow> links m' \<subseteq> links m \<Longrightarrow> linked_once m'"
  unfolding linked_once_def by blast

lemma changes_less:
  assumes "operators_ok (bd_tooShort deps) (bx_operators (snd out))" "linked_by a (fst out) = {}"
    "links (bx_operators (snd out)) = {p \<in> links (bx_operators st). fst p \<notin> unlinked_by (bx_identities st) a (fst out)}"
  shows "changes_as deps a st out"
  using assms linked_once_less [of "bx_operators st" "bx_operators (snd out)"] by (auto simp: changes_as_def)

lemma resolved_stored: "resolveInbox ids x = Ok i \<Longrightarrow> i \<in> set (is_rows ids)"
  by (auto simp: resolveInbox_def identity_getById_def getByLabel_def row_where_def find_Some_iff
      split: if_splits option.splits)

lemma removed_rows: "i \<in> set (is_rows ids) \<Longrightarrow>
    identity_remove (ai_id i) ids = (Ok (), ids\<lparr>is_rows := filter (\<lambda>r. ai_id r \<noteq> ai_id i) (is_rows ids)\<rparr>)"
  by (auto simp: identity_remove_def identity_getById_def row_where_def find_None_iff split: option.split)

lemma acts_link:
  assumes "operators_ok (bd_tooShort deps) (bx_operators st)"
  shows "changes_as deps (Inbox_link i oid) st (inbox_link deps i oid st) \<and> keeps_as (Inbox_link i oid) st (inbox_link deps i oid st)"
proof (cases "bx_operators st")
  case None
  then show ?thesis using assms by (simp add: inbox_link_def keeps_as_def changes_none)
next
  case (Some ops)
  note ops = this
  show ?thesis
  proof (cases "resolveInbox (bx_identities st) i")
    case (Err e)
    then show ?thesis using assms Some by (simp add: inbox_link_def keeps_as_def changes_none)
  next
    case (Ok x)
    obtain r ops' where l: "linkInboxToOperator (bd_tooShort deps) ops oid (ai_id x) = (r, ops')"
      by (cases "linkInboxToOperator (bd_tooShort deps) ops oid (ai_id x)")
    show ?thesis using link_exact [OF l assms [unfolded ops]] assms
      by (cases r) (simp_all add: inbox_link_def Ok ops l keeps_as_def changes_as_def summarizeInbox_def)
  qed
qed

lemma acts_unlink:
  assumes "operators_ok (bd_tooShort deps) (bx_operators st)"
  shows "changes_as deps (Inbox_unlink i) st (inbox_unlink deps i st) \<and> keeps_as (Inbox_unlink i) st (inbox_unlink deps i st)"
proof (cases "resolveInbox (bx_identities st) i")
  case (Err e)
  then show ?thesis using assms by (simp add: inbox_unlink_def keeps_as_def changes_none)
next
  case (Ok x)
  obtain r m' where l: "unlinkInboxFromOperator (bd_tooShort deps) (bx_operators st) (ai_id x) = (r, m')"
    by (cases "unlinkInboxFromOperator (bd_tooShort deps) (bx_operators st) (ai_id x)")
  note exact = unlink_exact [OF l assms]
  show ?thesis
  proof (cases r)
    case (Err e)
    then show ?thesis using exact assms by (simp add: inbox_unlink_def Ok l keeps_as_def changes_none)
  next
    case v: (Ok v)
    then show ?thesis using exact
      by (intro conjI changes_less) (simp_all add: inbox_unlink_def Ok l keeps_as_def summarizeInbox_def)
  qed
qed

lemma acts_execute:
  assumes "operators_ok (bd_tooShort deps) (bx_operators st)" "resolveInbox (bx_identities st) i = Ok x"
    and "bx_operators st0 = bx_operators st" "bx_identities st0 = bx_identities st" "bx_mappings st0 = bx_mappings st"
  shows "changes_as deps (Inbox_rm i ex) st (inbox_execute deps x mp acts st0) \<and> keeps_as (Inbox_rm i ex) st (inbox_execute deps x mp acts st0)"
proof -
  obtain r m' where l: "unlinkInboxFromOperator (bd_tooShort deps) (bx_operators st) (ai_id x) = (r, m')"
    by (cases "unlinkInboxFromOperator (bd_tooShort deps) (bx_operators st) (ai_id x)")
  note exact = unlink_exact [OF l assms(1)] and gone = removed_rows [OF resolved_stored [OF assms(2)]]
  show ?thesis
  proof (cases r)
    case (Err e)
    then show ?thesis using exact assms by (simp add: inbox_execute_def l keeps_as_def changes_none)
  next
    case (Ok v)
    then show ?thesis using exact gone assms
      by (intro conjI changes_less) (simp_all add: inbox_execute_def Let_def l keeps_as_def)
  qed
qed

lemma acts_rm:
  assumes "operators_ok (bd_tooShort deps) (bx_operators st)"
  shows "changes_as deps (Inbox_rm i ex) st (inbox_rm deps i ex st) \<and> keeps_as (Inbox_rm i ex) st (inbox_rm deps i ex st)"
proof (cases "resolveInbox (bx_identities st) i")
  case (Err e)
  then show ?thesis using assms by (simp add: inbox_rm_def keeps_as_def changes_none)
next
  case (Ok x)
  note x = this
  show ?thesis
  proof (cases "buildInboxLinkMap (bx_operators st)")
    case (Err e)
    then show ?thesis using assms x by (simp add: inbox_rm_def keeps_as_def changes_none)
  next
    case (Ok m)
    have kept: "changes_as deps (Inbox_rm i ex) st (r, st0) \<and> keeps_as (Inbox_rm i ex) st (r, st0)"
      if "bx_operators st0 = bx_operators st" "bx_identities st0 = bx_identities st" "bx_mappings st0 = bx_mappings st"
        "removed_by (bx_identities st) (Inbox_rm i ex) r = {}" for r st0
      using assms that by (simp add: keeps_as_def changes_none)
    note run = acts_execute [OF assms x, where ex = ex]
    have executed_or_not: "P (if ex = Some True then p else q)" if "P p" "P q" for P and p q :: "inbox_reply answer option \<times> inbox_state"
      using that by simp
    show ?thesis
    proof (cases "bd_cleanupInbox deps")
      case None
      show ?thesis unfolding inbox_rm_def Let_def x Ok None result.case option.case
        by (rule executed_or_not, (rule run; simp), (rule kept; simp))
    next
      case (Some cleanup)
      show ?thesis
      proof (cases "cleanup x (ex = Some True)")
        case (Err e)
        show ?thesis unfolding inbox_rm_def Let_def x Ok Some Err result.case option.case by (rule kept) simp_all
      next
        case acts: (Ok more_actions)
        show ?thesis unfolding inbox_rm_def Let_def x Ok Some acts result.case option.case
          by (rule executed_or_not, (rule run; simp), (rule kept; simp))
      qed
    qed
  qed
qed

lemma created_state: "snd (created_inbox reg l st) = st"
  by (simp add: created_inbox_def split: option.split)

lemma created_answer: "identity_getById (bx_identities st) (rg_identityId reg) \<noteq> None \<Longrightarrow>
    \<exists>s. created_inbox reg l st = (Some (Ok (Inbox s)), st) \<and> bs_id s = rg_identityId reg \<and> bs_operatorId s = l"
proof -
  assume "identity_getById (bx_identities st) (rg_identityId reg) \<noteq> None"
  then obtain x where x: "identity_getById (bx_identities st) (rg_identityId reg) = Some x" by auto
  then have "ai_id x = rg_identityId reg" by (auto simp: identity_getById_def row_where_def find_Some_iff)
  then show ?thesis using x by (simp add: created_inbox_def summarizeInbox_def)
qed

lemma acts_create_inbox:
  assumes "operators_ok (bd_tooShort deps) (bx_operators st)"
    and "\<And>ids' reg. bd_registerInbox deps l (bx_identities st) = (Ok reg, ids') \<Longrightarrow> identity_getById ids' (rg_identityId reg) \<noteq> None"
  shows "changes_as deps (Inbox_create l oid) st (inbox_create deps l oid st)"
proof (cases "bd_registerInbox deps l (bx_identities st)")
  case (Pair w ids')
  note reg = Pair
  show ?thesis
  proof (cases w)
    case (Err e)
    then show ?thesis using assms(1) reg
      by (auto simp: inbox_create_def intro!: changes_none split: option.split result.split)
  next
    case (Ok rg)
    have stored: "identity_getById ids' (rg_identityId rg) \<noteq> None" using assms(2) reg Ok by simp
    show ?thesis
    proof (cases oid)
      case None
      then show ?thesis using assms(1) reg Ok
        by (auto simp: inbox_create_def Let_def created_inbox_def intro!: changes_none split: option.split)
    next
      case (Some o')
      show ?thesis
      proof (cases "bx_operators st")
        case None
        then show ?thesis using assms(1) Some by (simp add: inbox_create_def changes_none)
      next
        case ops: (Some ops)
        show ?thesis
        proof (cases "resolveOperator ops o'")
          case (Err e)
          then show ?thesis using assms(1) Some ops by (simp add: inbox_create_def changes_none)
        next
          case k: (Ok k)
          obtain r ops' where l: "linkInboxToOperator (bd_tooShort deps) ops k (rg_identityId rg) = (r, ops')"
            by (cases "linkInboxToOperator (bd_tooShort deps) ops k (rg_identityId rg)")
          show ?thesis
          proof (cases "case bx_mappings st of None \<Rightarrow> Some None
              | Some m \<Rightarrow> map_option Some (mapping_set (rg_inboxId rg) (rg_identityId rg) MT_inbox m)")
            case None
            then show ?thesis using assms(1) Some ops k reg Ok
              by (auto simp: inbox_create_def Let_def intro!: changes_none split: option.splits)
          next
            case maps: (Some maps)
            let ?st = "st\<lparr>bx_identities := ids', bx_mappings := maps, bx_operators := Some ops'\<rparr>"
            have created: "inbox_create deps l oid st = (case r of Err e \<Rightarrow> (Some (Err e), ?st) | Ok v \<Rightarrow> created_inbox rg (Some v) ?st)"
              using Some ops k reg Ok maps l by (simp add: inbox_create_def Let_def split: result.split)
            show ?thesis
            proof (cases r)
              case (Err e)
              then show ?thesis using link_exact [OF l assms(1) [unfolded ops]] assms(1) ops created
                by (simp add: changes_as_def)
            next
              case v: (Ok v)
              obtain s where "created_inbox rg (Some v) ?st = (Some (Ok (Inbox s)), ?st)" "bs_id s = rg_identityId rg" "bs_operatorId s = Some v"
                using created_answer [of ?st rg "Some v"] stored by auto
              then show ?thesis using link_exact [OF l assms(1) [unfolded ops]] ops Some v created
                by (simp add: changes_as_def)
            qed
          qed
        qed
      qed
    qed
  qed
qed

text \<open>The runtime's clean-up is asked for by a removal alone, once the inbox and the links are known.\<close>

definition inbox_cleanups :: "inbox_deps \<Rightarrow> inbox_state \<Rightarrow> inbox_action \<Rightarrow> (agent_identity \<times> bool) list" where
  "inbox_cleanups deps st a =
     (case a of
        Inbox_rm i ex \<Rightarrow>
          (case (resolveInbox (bx_identities st) i, buildInboxLinkMap (bx_operators st), bd_cleanupInbox deps) of
             (Ok x, Ok _, Some _) \<Rightarrow> [(x, ex = Some True)]
           | _ \<Rightarrow> [])
      | _ \<Rightarrow> [])"

lemma execute_cleanups: "bx_cleanups (snd (inbox_execute deps x mp acts st)) = bx_cleanups st"
  by (simp add: inbox_execute_def Let_def split: prod.split result.split)

lemma create_cleanups: "bx_cleanups (snd (inbox_create deps l oid st)) = bx_cleanups st"
  by (simp add: inbox_create_def Let_def created_state split: prod.split result.split option.split)

lemma rm_cleanups:
  "bx_cleanups (snd (inbox_rm deps i ex st)) = bx_cleanups st @ inbox_cleanups deps st (Inbox_rm i ex)"
proof (cases "resolveInbox (bx_identities st) i")
  case (Ok x)
  then show ?thesis
    by (cases "buildInboxLinkMap (bx_operators st)"; cases "bd_cleanupInbox deps")
      (simp_all add: inbox_rm_def inbox_cleanups_def Let_def execute_cleanups split: result.split)
qed (simp add: inbox_rm_def inbox_cleanups_def)

lemma cleanups_exact: "bx_cleanups (snd (run_inbox deps a st)) = bx_cleanups st @ inbox_cleanups deps st a"
proof (cases a)
  case (Inbox_rm i ex)
  then show ?thesis by (simp add: rm_cleanups)
qed (simp_all add: inbox_cleanups_def create_cleanups inbox_list_def inbox_info_def inbox_link_def inbox_unlink_def
      split: prod.split result.split option.split)

text \<open>A creation that does not succeed has linked nothing; what stays is at most the inbox it registered.\<close>

lemma create_identities:
  "bx_identities (snd (inbox_create deps l oid st)) = bx_identities st \<or>
   bx_identities (snd (inbox_create deps l oid st)) = snd (bd_registerInbox deps l (bx_identities st))"
  by (simp add: inbox_create_def Let_def created_state split: prod.split result.split option.split)

lemma create_fails:
  assumes "operators_ok (bd_tooShort deps) (bx_operators st)"
    and stored: "\<And>ids' reg. bd_registerInbox deps l (bx_identities st) = (Ok reg, ids') \<Longrightarrow> identity_getById ids' (rg_identityId reg) \<noteq> None"
    and "\<nexists>v. fst (inbox_create deps l oid st) = Some (Ok v)"
  shows "bx_operators (snd (inbox_create deps l oid st)) = bx_operators st"
proof -
  obtain w ids' where reg: "bd_registerInbox deps l (bx_identities st) = (w, ids')"
    by (cases "bd_registerInbox deps l (bx_identities st)")
  let ?maps = "\<lambda>rg. case bx_mappings st of None \<Rightarrow> Some None
    | Some m \<Rightarrow> map_option Some (mapping_set (rg_inboxId rg) (rg_identityId rg) MT_inbox m)"
  show ?thesis
  proof (cases "\<exists>o' ops k rg maps. oid = Some o' \<and> bx_operators st = Some ops \<and> resolveOperator ops o' = Ok k \<and>
      w = Ok rg \<and> ?maps rg = Some maps")
    case False
    then show ?thesis
      by (cases oid; cases "bx_operators st"; cases w)
        (auto simp: inbox_create_def Let_def created_state reg split: result.split option.split)
  next
    case True
    then obtain o' ops k rg maps where t: "oid = Some o'" "bx_operators st = Some ops" "resolveOperator ops o' = Ok k"
      "w = Ok rg" "?maps rg = Some maps" by blast
    obtain r ops' where l: "linkInboxToOperator (bd_tooShort deps) ops k (rg_identityId rg) = (r, ops')"
      by (cases "linkInboxToOperator (bd_tooShort deps) ops k (rg_identityId rg)")
    let ?st = "st\<lparr>bx_identities := ids', bx_mappings := maps, bx_operators := Some ops'\<rparr>"
    have created: "inbox_create deps l oid st = (case r of Err e \<Rightarrow> (Some (Err e), ?st) | Ok v \<Rightarrow> created_inbox rg (Some v) ?st)"
      using t reg l by (simp add: inbox_create_def Let_def split: result.split)
    show ?thesis
    proof (cases r)
      case (Err e)
      then show ?thesis using link_exact [OF l] assms(1) t(2) created by simp
    next
      case (Ok v)
      have "identity_getById (bx_identities ?st) (rg_identityId rg) \<noteq> None" using stored reg t(4) by simp
      from created_answer [OF this, of "Some v"] show ?thesis using assms(3) created Ok by auto
    qed
  qed
qed


text \<open>An inbox that is created for an operator.\<close>

definition sample_inbox_deps :: inbox_deps where
  "sample_inbox_deps =
     \<lparr>bd_tooShort = ''short'',
      bd_registerInbox = (\<lambda>l ids.
        (Ok \<lparr>rg_identityId = ''inbox_0123456789abcdef'', rg_inboxId = ''ab'', rg_address = ''0x01'', rg_label = l\<rparr>,
         ids\<lparr>is_rows := \<lparr>ai_id = ''inbox_0123456789abcdef'', ai_inboxId = Some ''ab'', ai_groupId = None, ai_label = l,
           ai_createdAt = 1\<rparr> # is_rows ids\<rparr>)),
      bd_cleanupInbox = None\<rparr>"

definition sample_operators :: operator_store where
  "sample_operators =
     [(''op_0123456789abcdef'',
       \<lparr>or_id = ''op_0123456789abcdef'',
        or_config = \<lparr>oc_label = ''ops'', oc_role = OR_operator, oc_scopeMode = SM_shared, oc_provider = WP_internal,
          oc_walletId = None, oc_inboxIds = None, oc_disclosures = None\<rparr>,
        or_createdAt = 0, or_createdBy = ''owner'', or_status = OS_active\<rparr>)]"

definition sample_inboxes :: inbox_state where
  "sample_inboxes =
     \<lparr>bx_identities = \<lparr>is_rows = [], is_inboxIndex = True\<rparr>, bx_operators = Some sample_operators, bx_mappings = Some [],
      bx_cleanups = []\<rparr>"

lemma sample_operators_ok: "operators_ok ''short'' (Some sample_operators)"
proof -
  have "operator_inv ''short'' sample_operators" by code_simp
  then show ?thesis by (simp add: operators_ok_def) (simp add: sample_operators_def map_get_def)
qed

lemma sample_created:
  "fst (run_inbox sample_inbox_deps (Inbox_create (Some ''bot'') (Some ''ops'')) sample_inboxes) =
     Some (Ok (Inbox \<lparr>bs_id = ''inbox_0123456789abcdef'', bs_networkInboxId = Some ''ab'', bs_label = Some ''bot'',
       bs_groupId = None, bs_createdAt = 1, bs_operatorId = Some ''op_0123456789abcdef''\<rparr>))"
  by code_simp


end
