(* ===== verification/LookupActions.thy ===== *)
theory LookupActions
  imports XmtpClient OperatorManager CredentialService
begin

text \<open>
  Two small groups of actions: consent (\<^verbatim>\<open>packages/core/src/consent-actions.ts\<close>) and the
  lookup of a resource by any of its names (\<^verbatim>\<open>packages/core/src/lookup-actions.ts\<close>). The running clients
  and the managers are arguments; the lookups change nothing.
\<close>

subsection \<open>Consent\<close>

record consent_deps =
  cs_identities :: identity_store
  cs_clients :: "xmtp_client client_registry"
  cs_clientForGroup :: "(string \<Rightarrow> managed option) option"

definition client_getConsentState :: "managed \<Rightarrow> consent_entity \<Rightarrow> string \<Rightarrow> call_log \<Rightarrow> consent_state answer \<times> call_log" where
  "client_getConsentState m ty x = client_ask m (X_getConsentState ty x) (\<lambda>c lg. xc_getConsentState c lg ty x)"

definition client_setConsentState :: "managed \<Rightarrow> consent_entity \<Rightarrow> string \<Rightarrow> consent_state \<Rightarrow> call_log \<Rightarrow> unit answer \<times> call_log" where
  "client_setConsentState m ty x s = client_ask m (X_setConsentState ty x s) (\<lambda>c lg. xc_setConsentState c lg ty x s)"

definition resolveManagedClient :: "consent_deps \<Rightarrow> string option \<Rightarrow> consent_entity \<Rightarrow> string \<Rightarrow> managed answer" where
  "resolveManagedClient deps identityLabel entityType entity =
     (if nullish identityLabel [] \<noteq> [] then acting_client (cs_identities deps) (cs_clients deps) identityLabel
      else case (if entityType = CE_group_id then Option.bind (cs_clientForGroup deps) (\<lambda>f. f entity) else None) of
        Some m \<Rightarrow> Ok m
      | None \<Rightarrow> acting_client (cs_identities deps) (cs_clients deps) None)"

record consent_input =
  cn_entity :: string
  cn_entityType :: "consent_entity option"
  cn_identityLabel :: "string option"

record consent_result =
  cz_entity :: string
  cz_entityType :: consent_entity
  cz_state :: consent_state

definition consent_check :: "consent_deps \<Rightarrow> consent_input \<Rightarrow> call_log \<Rightarrow> consent_result answer \<times> call_log" where
  "consent_check deps x lg =
     (let ty = nullish (cn_entityType x) CE_inbox_id
      in case resolveManagedClient deps (cn_identityLabel x) ty (cn_entity x) of
        Err e \<Rightarrow> (Err e, lg)
      | Ok m \<Rightarrow>
          (case client_getConsentState m ty (cn_entity x) lg of
             (Err e, lg') \<Rightarrow> (Err e, lg')
           | (Ok s, lg') \<Rightarrow> (Ok \<lparr>cz_entity = cn_entity x, cz_entityType = ty, cz_state = s\<rparr>, lg')))"

definition consent_set :: "consent_state \<Rightarrow> consent_deps \<Rightarrow> consent_input \<Rightarrow> call_log \<Rightarrow> consent_result answer \<times> call_log" where
  "consent_set state deps x lg =
     (let ty = nullish (cn_entityType x) CE_inbox_id
      in case resolveManagedClient deps (cn_identityLabel x) ty (cn_entity x) of
        Err e \<Rightarrow> (Err e, lg)
      | Ok m \<Rightarrow>
          (case client_setConsentState m ty (cn_entity x) state lg of
             (Err e, lg') \<Rightarrow> (Err e, lg')
           | (Ok _, lg') \<Rightarrow> (Ok \<lparr>cz_entity = cn_entity x, cz_entityType = ty, cz_state = state\<rparr>, lg')))"

definition consent_allow :: "consent_deps \<Rightarrow> consent_input \<Rightarrow> call_log \<Rightarrow> consent_result answer \<times> call_log" where
  "consent_allow = consent_set CS_allowed"

definition consent_deny :: "consent_deps \<Rightarrow> consent_input \<Rightarrow> call_log \<Rightarrow> consent_result answer \<times> call_log" where
  "consent_deny = consent_set CS_denied"

text \<open>Consent is read or set by the one call on the selected client, and an answer of success is the client's.\<close>

lemma consent_exact:
  "case consent_set state deps x lg of (r, lg') \<Rightarrow>
     (case resolveManagedClient deps (cn_identityLabel x) (nullish (cn_entityType x) CE_inbox_id) (cn_entity x) of
        Err e \<Rightarrow> r = Err e \<and> lg' = lg
      | Ok m \<Rightarrow>
          lg' = lg @ [(mc_identityId m, X_setConsentState (nullish (cn_entityType x) CE_inbox_id) (cn_entity x) state)] \<and>
          isOk r = isOk (xc_setConsentState (mc_client m) lg (nullish (cn_entityType x) CE_inbox_id) (cn_entity x) state))"
  by (auto simp: consent_set_def Let_def client_setConsentState_def client_ask_def split: result.split)

subsection \<open>Lookup\<close>

record lookup_deps =
  lk_identities :: identity_store
  lk_idMappings :: "id_mappings option"
  lk_operators :: "operator_store option"
  lk_policies :: "policy_store option"
  lk_credential :: "(string \<Rightarrow> runtime_credential answer) option"

record lookup_inbox =
  li_id :: string
  li_label :: "string option"
  li_networkInboxId :: "string option"
  li_groupId :: "string option"
  li_createdAt :: int

record lookup_operator =
  lo_id :: string
  lo_label :: string
  lo_role :: operator_role
  lo_status :: operator_status

record lookup_policy =
  lp_id :: string
  lp_label :: string
  lp_updatedAt :: int

record lookup_credential =
  lc_id :: string
  lc_operatorId :: string
  lc_policyId :: "string option"
  lc_chatIds :: "string list"
  lc_status :: credential_status
  lc_expiresAt :: int

record lookup_result =
  lr_query :: string
  lr_found :: bool
  lr_mapping :: "(string \<times> string) option"
  lr_inbox :: "lookup_inbox option"
  lr_operator :: "lookup_operator option"
  lr_policy :: "lookup_policy option"
  lr_credential :: "lookup_credential option"

definition parsed_type :: "string \<Rightarrow> resource_type option" where
  "parsed_type query = (case parseResourceId query of Err _ \<Rightarrow> None | Ok p \<Rightarrow> pid_type p)"

definition isNotFoundError :: "signet_error \<Rightarrow> bool" where
  "isNotFoundError e \<longleftrightarrow> err_category e = Cat_not_found"

definition or_null :: "'a answer \<Rightarrow> 'a option answer" where
  "or_null r = (case r of Err e \<Rightarrow> if isNotFoundError e then Ok None else Err e | Ok v \<Rightarrow> Ok (Some v))"

definition toInboxResult :: "agent_identity \<Rightarrow> lookup_inbox" where
  "toInboxResult i =
     \<lparr>li_id = ai_id i, li_label = ai_label i, li_networkInboxId = ai_inboxId i, li_groupId = ai_groupId i,
      li_createdAt = ai_createdAt i\<rparr>"

definition lookup_mapping :: "lookup_deps \<Rightarrow> string \<Rightarrow> (string \<times> string) option" where
  "lookup_mapping deps x = Option.bind (lk_idMappings deps) (\<lambda>m. mapping_resolve m x)"

definition or_else :: "'a option \<Rightarrow> 'a option \<Rightarrow> 'a option" where
  "or_else a b = (case a of None \<Rightarrow> b | Some _ \<Rightarrow> a)"

definition lookup_resolveInbox :: "lookup_deps \<Rightarrow> string \<Rightarrow> (string \<times> string) option \<Rightarrow> agent_identity option" where
  "lookup_resolveInbox deps query mapping =
     (let ids = lk_identities deps;
          direct = (if parsed_type query = Some RT_inbox then identity_getById ids query else None);
          mapped = (case mapping of
             Some (network, l) \<Rightarrow> if starts_with l ''inbox_'' then identity_getById ids l else None
           | None \<Rightarrow> None)
      in or_else direct (or_else mapped (or_else (getByLabel ids query) (getByInboxId ids query))))"

definition toOperatorResult :: "operator_record \<Rightarrow> lookup_operator" where
  "toOperatorResult r =
     \<lparr>lo_id = or_id r, lo_label = oc_label (or_config r), lo_role = oc_role (or_config r), lo_status = or_status r\<rparr>"

definition lookup_resolveOperator :: "lookup_deps \<Rightarrow> string \<Rightarrow> operator_record option answer" where
  "lookup_resolveOperator deps query =
     (case lk_operators deps of
        None \<Rightarrow> Ok None
      | Some ops \<Rightarrow>
          if parsed_type query = Some RT_operator then or_null (operator_lookup ops query)
          else Ok (List.find (\<lambda>r. oc_label (or_config r) = query) (operator_list ops)))"

definition toPolicyResult :: "policy_record \<Rightarrow> lookup_policy" where
  "toPolicyResult r = \<lparr>lp_id = pr_id r, lp_label = pc_label (pr_config r), lp_updatedAt = pr_updatedAt r\<rparr>"

definition lookup_resolvePolicy :: "lookup_deps \<Rightarrow> string \<Rightarrow> policy_record option answer" where
  "lookup_resolvePolicy deps query =
     (case lk_policies deps of
        None \<Rightarrow> Ok None
      | Some ps \<Rightarrow>
          if parsed_type query = Some RT_policy then or_null (policy_lookup ps query)
          else Ok (List.find (\<lambda>r. pc_label (pr_config r) = query) (policy_list ps)))"

definition toCredentialResult :: "runtime_credential \<Rightarrow> lookup_credential" where
  "toCredentialResult c =
     \<lparr>lc_id = rc_credentialId c, lc_operatorId = rc_operatorId c,
      lc_policyId = cc_policyId (cr_config (rc_record c)), lc_chatIds = cc_chatIds (cr_config (rc_record c)),
      lc_status = cr_status (rc_record c), lc_expiresAt = cr_expiresAt (rc_record c)\<rparr>"

definition lookup_resolveCredential :: "lookup_deps \<Rightarrow> string \<Rightarrow> runtime_credential option answer" where
  "lookup_resolveCredential deps query =
     (case lk_credential deps of
        None \<Rightarrow> Ok None
      | Some find_credential \<Rightarrow>
          if parsed_type query \<noteq> Some RT_credential then Ok None else or_null (find_credential query))"

definition lookup_resolve :: "lookup_deps \<Rightarrow> string \<Rightarrow> lookup_result answer" where
  "lookup_resolve deps query =
     (let mapping0 = lookup_mapping deps query;
          inbox = lookup_resolveInbox deps query mapping0;
          mapping = (case (mapping0, inbox) of
             (None, Some i) \<Rightarrow>
               or_else (lookup_mapping deps (ai_id i))
                 (if nullish (ai_inboxId i) [] \<noteq> [] then lookup_mapping deps (the (ai_inboxId i)) else None)
           | _ \<Rightarrow> mapping0)
      in bindR (lookup_resolveOperator deps query) (\<lambda>operator.
         bindR (lookup_resolvePolicy deps query) (\<lambda>policy.
         bindR (lookup_resolveCredential deps query) (\<lambda>credential.
           Ok \<lparr>lr_query = query,
               lr_found = (mapping \<noteq> None \<or> inbox \<noteq> None \<or> operator \<noteq> None \<or> policy \<noteq> None \<or> credential \<noteq> None),
               lr_mapping = mapping, lr_inbox = map_option toInboxResult inbox,
               lr_operator = map_option toOperatorResult operator, lr_policy = map_option toPolicyResult policy,
               lr_credential = map_option toCredentialResult credential\<rparr>))))"

text \<open>What a lookup answers is stored and bears the name that was asked for: its identifier, its label, or the name a mapping gives it.\<close>

lemma or_else_Some: "or_else a b = Some v \<longleftrightarrow> a = Some v \<or> a = None \<and> b = Some v"
  by (auto simp: or_else_def split: option.split)

lemma inbox_found_named:
  assumes "lookup_resolveInbox deps query mapping = Some i"
  shows "i \<in> set (is_rows (lk_identities deps)) \<and>
    (query \<in> {ai_id i} \<or> ai_label i = Some query \<or> ai_inboxId i = Some query \<or> (\<exists>n. mapping = Some (n, ai_id i)))"
proof -
  have by_id: "j \<in> set (is_rows (lk_identities deps)) \<and> ai_id j = x" if "identity_getById (lk_identities deps) x = Some j" for x j
    using that by (auto simp: identity_getById_def row_where_def find_Some_iff)
  have by_label: "i \<in> set (is_rows (lk_identities deps)) \<and> ai_label i = Some query" if "getByLabel (lk_identities deps) query = Some i"
    using that by (auto simp: getByLabel_def row_where_def find_Some_iff)
  have by_inbox: "i \<in> set (is_rows (lk_identities deps)) \<and> ai_inboxId i = Some query" if "getByInboxId (lk_identities deps) query = Some i"
  proof -
    have "i \<in> set (by_creation (filter (\<lambda>r. ai_inboxId r = Some query) (is_rows (lk_identities deps))))"
      using that by (auto simp: getByInboxId_def split: list.splits)
    moreover have "set (by_creation xs) = set xs" for xs
      unfolding by_creation_def by (metis mset_js_sort set_mset_mset)
    ultimately show ?thesis by simp
  qed
  show ?thesis using assms by_id by_label by_inbox
    by (auto simp: lookup_resolveInbox_def Let_def or_else_Some split: if_splits option.splits)
qed

lemma operator_found_named:
  assumes "lookup_resolveOperator deps query = Ok (Some r)" "lk_operators deps = Some ops" "operator_inv ts ops"
  shows "map_get ops (or_id r) = Some r \<and> (or_id r = query \<or> oc_label (or_config r) = query \<and> or_status r \<noteq> OS_removed)"
proof (cases "parsed_type query = Some RT_operator")
  case True
  then show ?thesis using assms
    by (auto simp: lookup_resolveOperator_def or_null_def operator_lookup_def operator_inv_get operator_ok_def
        split: if_splits option.splits)
next
  case False
  then have "List.find (\<lambda>r. oc_label (or_config r) = query) (operator_list ops) = Some r"
    using assms(1,2) by (simp add: lookup_resolveOperator_def)
  then have "r \<in> set (operator_list ops)" "oc_label (or_config r) = query" by (auto simp: find_Some_iff)
  then show ?thesis using assms(3) map_values_iff [of ops r]
    by (auto simp: operator_list_eq operator_inv_get operator_ok_def)
qed

lemma lookup_found_iff:
  "lookup_resolve deps query = Ok res \<Longrightarrow>
     lr_found res \<longleftrightarrow> lr_mapping res \<noteq> None \<or> lr_inbox res \<noteq> None \<or> lr_operator res \<noteq> None \<or> lr_policy res \<noteq> None \<or>
       lr_credential res \<noteq> None"
  by (auto simp: lookup_resolve_def Let_def bindR_Ok_iff)

end
