(* ===== verification/Spec2Isabelle.thy ===== *)
theory Spec2Isabelle
  imports CredentialService OperatorManager PendingActions SealInvariant WsBroadcast VerifierService Jwt KeyActions SecretProvider SeBridge SdkSession ActionSpecs ElevationDisclosure IdentityStore ReadSurfaces InviteListener ConversationActions InboxActions LookupActions
begin

text \<open>
  A verification library of the XMTP signet. The signet is a daemon that holds the keys and the clients of
  messaging identities and lets other programs (harnesses, administrators, language-model tools) read and send
  messages only as far as a credential, an owner's approval or an administrator's token permits. The sources are
  under \<^verbatim>\<open>packages/\<close>; every theory names the files it models in its opening text, and
  every definition keeps the name of the function or type it translates, up to a suffix.

  \<^bold>\<open>How a program part is translated.\<close> A class or closure is a record of its variables, and
  each of its functions takes and returns that record. A \<^verbatim>\<open>Map\<close> is an association list
  in the order of insertion (\<^verbatim>\<open>Prelude\<close>), with the language's update and delete; a
  promise of a \<^verbatim>\<open>Result\<close> is a value \<^verbatim>\<open>Ok v\<close> or
  \<^verbatim>\<open>Err e\<close> with the error object of \<^verbatim>\<open>Errors\<close>; an exception is
  \<^verbatim>\<open>None\<close> (or an \<^verbatim>\<open>Err\<close> with its message where a handler catches
  it). A dynamically typed value is a \<^verbatim>\<open>js_value\<close>. A function that awaits is cut at its
  awaits: what runs between two awaits is one definition, what waits is a task or a process that is part of the
  state, and other calls may run in between. Machine words have their width (\<^verbatim>\<open>8 word\<close>
  bytes, 32-bit shifts of the certificate reader); the language's numbers are integers where the code only ever
  gives them integers.

  \<^bold>\<open>The shared base.\<close> \<^verbatim>\<open>Prelude\<close> (results, values, maps, lists, the
  locales \<^verbatim>\<open>keyed_store\<close> and \<^verbatim>\<open>listed_store\<close> with their
  interpretation on maps), \<^verbatim>\<open>TextOps\<close>, \<^verbatim>\<open>HexText\<close>,
  \<^verbatim>\<open>Base64\<close>, \<^verbatim>\<open>JsValues\<close> (text and value operations with their
  round trips), \<^verbatim>\<open>Errors\<close> (\<^verbatim>\<open>schemas/src/errors\<close>),
  \<^verbatim>\<open>Expiry\<close> and \<^verbatim>\<open>Labels\<close> (locales for collections that expire
  and for resolution by label).

  \<^bold>\<open>Permissions.\<close> \<^verbatim>\<open>Scopes\<close> and
  \<^verbatim>\<open>Materiality\<close> model scope sets, deny-wins resolution and both classifications of a
  change (\<^verbatim>\<open>schemas\<close>, \<^verbatim>\<open>policy\<close>,
  \<^verbatim>\<open>sessions\<close>); \<^verbatim>\<open>Projection\<close> and
  \<^verbatim>\<open>RevealState\<close> the pipeline between raw messages and a harness;
  \<^verbatim>\<open>ResourceIds\<close>, \<^verbatim>\<open>PolicyHash\<close>,
  \<^verbatim>\<open>PolicyManager\<close>, \<^verbatim>\<open>OperatorManager\<close>,
  \<^verbatim>\<open>PendingActions\<close> the stores beside it. The lemmas show that the classification agrees
  with the change of the effective permissions and that the pipeline emits exactly what chat, type, visibility
  and history permit.

  \<^bold>\<open>Credentials.\<close> \<^verbatim>\<open>CredentialTypes\<close>,
  \<^verbatim>\<open>CredentialManager\<close> (state: records by identifier, token and operator),
  \<^verbatim>\<open>CredentialService\<close>. \<^verbatim>\<open>CredentialInvariant\<close> holds the step
  relation of the manager, the invariant of its indexes, limits and caches, and what follows for tokens,
  revocation, issuing and the sweep; \<^verbatim>\<open>CredentialService\<close> that updates never escalate
  and that reveals are guarded.

  \<^bold>\<open>Seals.\<close> \<^verbatim>\<open>SealTypes\<close>, \<^verbatim>\<open>SealChain\<close>,
  \<^verbatim>\<open>SealBuild\<close>, \<^verbatim>\<open>SealManager\<close> model
  \<^verbatim>\<open>seals/src\<close> but the publisher. \<^verbatim>\<open>SealInvariant\<close> shows the
  chains of stored seals sound and complete and revocation final while calls do not overlap, and exhibits the
  race when they do.

  \<^bold>\<open>Harness transport.\<close> \<^verbatim>\<open>Events\<close>,
  \<^verbatim>\<open>RequestHandler\<close> and \<^verbatim>\<open>ReplayBuffer\<close> feed
  \<^verbatim>\<open>WsConnection\<close> and \<^verbatim>\<open>WsServer\<close>
  (\<^verbatim>\<open>ws/src\<close>, \<^verbatim>\<open>cli/src/ws\<close>).
  \<^verbatim>\<open>RequestSafety\<close> shows what a request can send or change whatever happens while it
  waits; \<^verbatim>\<open>WsInvariant\<close> and \<^verbatim>\<open>WsBroadcast\<close> are invariants of the
  server over all interleavings and the protocol that refreshes credentials under broadcasts. On the other end
  \<^verbatim>\<open>SdkParts\<close>, \<^verbatim>\<open>SdkHandler\<close>,
  \<^verbatim>\<open>SdkInvariant\<close> and \<^verbatim>\<open>SdkSession\<close> model the client library
  (\<^verbatim>\<open>sdk/src\<close>), up to the theorem that the server's replay brings a client all events it
  missed, in order and once, while the server's buffer holds them.

  \<^bold>\<open>Keys.\<close> \<^verbatim>\<open>Wordlist\<close>, \<^verbatim>\<open>Derivation\<close>,
  \<^verbatim>\<open>Vault\<close>, \<^verbatim>\<open>KeyBackend\<close>,
  \<^verbatim>\<open>SecretStore\<close>, \<^verbatim>\<open>SecretProvider\<close>,
  \<^verbatim>\<open>SeBridge\<close>, \<^verbatim>\<open>KeyGate\<close>, \<^verbatim>\<open>Jwt\<close>,
  \<^verbatim>\<open>KeyManager\<close>, \<^verbatim>\<open>KeyActions\<close> model
  \<^verbatim>\<open>keys/src\<close>: the vault in files refines the vault in memory for secrets, the compatibility store
  refines a map, tokens are verified exactly, keys live as long as they should. The locales
  \<^verbatim>\<open>wallet_vault\<close> and \<^verbatim>\<open>secret_store\<close> state what the backends
  need of a vault and are interpreted on both vaults.

  \<^bold>\<open>Verifier.\<close> \<^verbatim>\<open>RateLimiter\<close>, \<^verbatim>\<open>X509\<close>,
  \<^verbatim>\<open>Dsse\<close>, \<^verbatim>\<open>Verdict\<close>,
  \<^verbatim>\<open>VerifierChecks\<close>, \<^verbatim>\<open>VerifierService\<close> model
  \<^verbatim>\<open>verifier/src\<close>.

  \<^bold>\<open>Request surfaces.\<close> \<^verbatim>\<open>ActionSpecs\<close> and
  \<^verbatim>\<open>ActionResults\<close> are the registry of actions, their routes and envelopes
  (\<^verbatim>\<open>contracts/src\<close>). \<^verbatim>\<open>Gateway\<close> defines requests as processes
  and the locale \<^verbatim>\<open>gate_rules\<close>: a server whose entries keep an order of checks calls
  handlers only after them, for any number of interleaved requests. \<^verbatim>\<open>HttpServer\<close>,
  \<^verbatim>\<open>AdminServer\<close> and \<^verbatim>\<open>McpServer\<close> interpret it.
  \<^verbatim>\<open>ReadElevation\<close>, \<^verbatim>\<open>ElevationSafety\<close>,
  \<^verbatim>\<open>ElevationDisclosure\<close> model the temporary read access of administrators with its
  owner approval, audit and disclosure. \<^verbatim>\<open>XmtpClient\<close> is the client interface with a log
  of all calls; \<^verbatim>\<open>MessageAccess\<close> the message and search actions;
  \<^verbatim>\<open>ReadSurfaces\<close> composes all of these: whatever surface a read comes from, it stays
  within the chats of a credential or of an approved elevation.

  \<^bold>\<open>Conversations.\<close> \<^verbatim>\<open>IdentityStore\<close> models identities, identifier
  mappings and running clients; \<^verbatim>\<open>Invite\<close> the invites,
  \<^verbatim>\<open>JoinHost\<close> their check by the host, \<^verbatim>\<open>InviteListener\<close> the
  daemon's listener with concurrent requests, recoveries and timers, \<^verbatim>\<open>JoinClient\<close> the
  registration and the joining side, \<^verbatim>\<open>ConversationActions\<close> the actions on
  conversations, \<^verbatim>\<open>InboxActions\<close> and \<^verbatim>\<open>LookupActions\<close> those on
  inboxes and their operators, consent and lookups. The lemmas show that a generated invite leads its sender's
  request to its conversation and nowhere else (a UUID comes back in lower case), that a request is admitted once,
  that a join that fails with an error leaves no identity behind, that an inbox never has two operators, and that
  each action but joining makes exactly the call it is for.

  \<^bold>\<open>Step relations.\<close> \<^verbatim>\<open>cm_step\<close>, \<^verbatim>\<open>sm_step\<close>,
  \<^verbatim>\<open>ws_step\<close>, \<^verbatim>\<open>listener_step\<close>, the runs of
  \<^verbatim>\<open>SdkInvariant\<close>, and the reachable systems of
  \<^verbatim>\<open>ElevationSafety\<close>, \<^verbatim>\<open>Gateway\<close> and
  \<^verbatim>\<open>KeyBackend\<close> are inductive; their invariants are proved by rule induction. The
  results of lookups, keys, networks and disks are arbitrary in them, so a theorem about reachable states covers
  every behaviour of those parts.

  \<^bold>\<open>Loops.\<close> Loops over lists are structural recursions; the walk along a seal chain and the
  splitting of lines are \<^verbatim>\<open>function\<close>s with termination proofs, the first by the seals
  not yet seen. The scan of a certificate may run for ever and is a \<^verbatim>\<open>partial_function\<close>;
  it is shown to return whenever no length is negative. The pages of an invite scan depend on answers of the
  network and may never end: \<^verbatim>\<open>scan_pages\<close> has fuel, and the step of the listener takes
  the result for any fuel with which there is one, so a scan that does not return is a task that never goes on.
  Polling for a group is recursion on the number of attempts.

  \<^bold>\<open>Parameters.\<close> Hash functions, ciphers, curves, key derivation, deflate, protobuf, JSON
  and URL parsing, the SQLite engine's failures, sockets, timers, the file system's failures, random bytes and
  the clock are arguments or fields of engine records. Where a theorem relies on what such a part documents (a
  cipher undoes its encryption, a decoder its encoder), this is a named hypothesis, and a witness instantiates
  it with a concrete function.

  \<^bold>\<open>Not modelled.\<close> The command line, the start of the daemon and its wiring
  (\<^verbatim>\<open>cli/src/start.ts\<close>, \<^verbatim>\<open>runtime.ts\<close>,
  \<^verbatim>\<open>commands\<close>) are processes, terminals and files; the OpenClaw adapter likewise;
  \<^verbatim>\<open>core/src/signet-core.ts\<close> and \<^verbatim>\<open>core/src/sdk\<close> drive the
  messaging network's own library; the audit log appends lines to a file; the seal publisher and the
  specifications of the credential actions pass calls on; profile messages are fields of a protobuf encoding;
  the search for resources filters lists of the stores, and the effects of the invite host write messages and
  the audit log; the helper of the Secure Enclave is written in another language.
\<close>

end
